(* ===== verification/SO_Prelude.thy ===== *)
theory SO_Prelude
  imports Complex_Main "HOL-Library.Sublist" "HOL-Library.Multiset"
    "HOL-Library.Char_ord" "HOL-Library.List_Lexorder" "HOL-Library.Product_Lexorder"
begin

text \<open>
  Shared prelude of the SaberOps dispatch-core development.

  \<^item> Python text: \<open>string\<close> is a list of code points below 256 (Latin-1).  \<open>str.strip\<close>,
    \<open>str.lower\<close>, \<open>str.upper\<close>, \<open>startswith\<close>, \<open>endswith\<close>, \<open>partition\<close>, \<open>in\<close> are
    modelled on that range.
  \<^item> Python's \<open>max\<close>/\<open>min\<close> with a key (the first extremal element wins) and the
    insertion-ordered dictionary as an association list.
  \<^item> Lemma collections: \<open>py_text\<close> (text functions), \<open>pick_simps\<close> (selection by key).
\<close>

named_theorems py_text \<open>facts about the text functions\<close>
named_theorems pick_simps \<open>facts about selection by a key\<close>

section \<open>Python text\<close>

abbreviation chr_code :: "char \<Rightarrow> nat" where
  "chr_code c \<equiv> of_char c"

definition py_isspace :: "char \<Rightarrow> bool" where
  "py_isspace c = (let n = chr_code c in (9 \<le> n \<and> n \<le> 13) \<or> (28 \<le> n \<and> n \<le> 32) \<or> n = 133 \<or> n = 160)"

definition py_isdigit :: "char \<Rightarrow> bool" where
  "py_isdigit c = (let n = chr_code c in (48 \<le> n \<and> n \<le> 57) \<or> n = 178 \<or> n = 179 \<or> n = 185)"

definition py_lower_char :: "char \<Rightarrow> char" where
  "py_lower_char c = (let n = chr_code c in
     if (65 \<le> n \<and> n \<le> 90) \<or> (192 \<le> n \<and> n \<le> 214) \<or> (216 \<le> n \<and> n \<le> 222)
     then char_of (n + 32) else c)"

definition py_upper_char :: "char \<Rightarrow> char" where
  "py_upper_char c = (let n = chr_code c in
     if (97 \<le> n \<and> n \<le> 122) \<or> (224 \<le> n \<and> n \<le> 246) \<or> (248 \<le> n \<and> n \<le> 254)
     then char_of (n - 32) else c)"

definition py_lower :: "string \<Rightarrow> string" where
  "py_lower s = map py_lower_char s"

definition py_upper :: "string \<Rightarrow> string" where
  "py_upper s = map py_upper_char s"

definition py_lstrip :: "string \<Rightarrow> string" where
  "py_lstrip s = dropWhile py_isspace s"

definition py_strip :: "string \<Rightarrow> string" where
  "py_strip s = rev (py_lstrip (rev (py_lstrip s)))"

definition py_startswith :: "string \<Rightarrow> string \<Rightarrow> bool" where
  "py_startswith s p = (take (length p) s = p)"

definition py_endswith :: "string \<Rightarrow> string \<Rightarrow> bool" where
  "py_endswith s p = (take (length p) (rev s) = rev p)"

definition py_before :: "char \<Rightarrow> string \<Rightarrow> string" where
  \<comment> \<open>\<open>s.partition(c)[0]\<close>\<close>
  "py_before c s = takeWhile (\<lambda>x. x \<noteq> c) s"

definition py_after :: "char \<Rightarrow> string \<Rightarrow> string" where
  \<comment> \<open>\<open>s.partition(c)[2]\<close>\<close>
  "py_after c s = drop 1 (dropWhile (\<lambda>x. x \<noteq> c) s)"

definition py_last_part :: "char \<Rightarrow> string \<Rightarrow> string" where
  \<comment> \<open>\<open>s.split(c)[-1]\<close>\<close>
  "py_last_part c s = rev (takeWhile (\<lambda>x. x \<noteq> c) (rev s))"

fun py_contains :: "string \<Rightarrow> string \<Rightarrow> bool" where
  \<comment> \<open>\<open>pat in s\<close>\<close>
  "py_contains pat [] = (pat = [])"
| "py_contains pat (c # s) = (py_startswith (c # s) pat \<or> py_contains pat s)"

fun py_split_on :: "(char \<Rightarrow> bool) \<Rightarrow> string \<Rightarrow> string list" where
  \<comment> \<open>split at every character of a class, as \<open>str.split(c)\<close> does for one character\<close>
  "py_split_on P [] = [[]]"
| "py_split_on P (c # s) =
     (if P c then [] # py_split_on P s
      else (case py_split_on P s of [] \<Rightarrow> [[c]] | w # ws \<Rightarrow> (c # w) # ws))"

lemma py_strip_Nil [simp]: "py_strip [] = []"
  by (simp add: py_strip_def py_lstrip_def)

lemma py_lower_Nil [simp]: "py_lower [] = []"
  by (simp add: py_lower_def)

lemma length_py_lower [simp]: "length (py_lower s) = length s"
  by (simp add: py_lower_def)

lemma py_lower_append [simp]: "py_lower (s @ t) = py_lower s @ py_lower t"
  by (simp add: py_lower_def)

lemma py_startswith_iff_prefix [py_text]: "py_startswith s p \<longleftrightarrow> prefix p s"
  by (auto simp: py_startswith_def prefix_def) (metis append_take_drop_id)

lemma py_endswith_iff_suffix [py_text]: "py_endswith s p \<longleftrightarrow> suffix p s"
  using py_startswith_iff_prefix [of "rev s" "rev p"]
  by (simp add: py_endswith_def py_startswith_def suffix_to_prefix)

lemma py_contains_iff_sublist [py_text]: "py_contains pat s \<longleftrightarrow> sublist pat s"
  by (induction s) (auto simp: py_startswith_iff_prefix sublist_Cons_right)

lemma py_lstrip_idem [simp]: "py_lstrip (py_lstrip s) = py_lstrip s"
  by (simp add: py_lstrip_def)

lemma dropWhile_hd_id: "xs \<noteq> [] \<Longrightarrow> \<not> P (hd xs) \<Longrightarrow> dropWhile P xs = xs"
  by (cases xs) auto

lemma py_strip_id:
  "s \<noteq> [] \<Longrightarrow> \<not> py_isspace (hd s) \<Longrightarrow> \<not> py_isspace (last s) \<Longrightarrow> py_strip s = s"
  by (simp add: py_strip_def py_lstrip_def dropWhile_hd_id hd_rev)

lemma py_lstrip_hd: "py_lstrip s = c # cs \<Longrightarrow> \<not> py_isspace c"
  by (simp add: py_lstrip_def dropWhile_eq_Cons_conv)

lemma py_lstrip_suffix: "suffix (py_lstrip s) s"
  by (simp add: py_lstrip_def suffix_dropWhile)

lemma py_strip_stripped:
  "py_strip s = [] \<or> \<not> py_isspace (hd (py_strip s)) \<and> \<not> py_isspace (last (py_strip s))"
proof (cases "py_strip s")
  case (Cons c cs)
  let ?l = "py_lstrip s"
  have r: "rev (py_strip s) = py_lstrip (rev ?l)" by (simp add: py_strip_def)
  then have "py_lstrip (rev ?l) = rev cs @ [c]" using Cons by simp
  then have "\<not> py_isspace (last (c # cs))"
    using py_lstrip_hd [of "rev ?l"] by (cases "rev cs") (auto simp: last_rev [symmetric])
  moreover have "suffix (rev (py_strip s)) (rev ?l)" using r py_lstrip_suffix [of "rev ?l"] by simp
  then have "prefix (py_strip s) ?l" by (simp add: suffix_to_prefix)
  then have "hd ?l = c" "?l \<noteq> []" using Cons by (auto simp: prefix_def)
  then have "\<not> py_isspace c" using py_lstrip_hd [of s c "tl ?l"] by (cases ?l) auto
  ultimately show ?thesis using Cons by simp
qed simp

lemma py_strip_idem [simp]: "py_strip (py_strip s) = py_strip s"
  using py_strip_stripped [of s] py_strip_id [of "py_strip s"] by (cases "py_strip s = []") auto

section \<open>Errors and truth values\<close>

text \<open>The exceptions of the modelled code; a fallible operation returns \<open>py_error + 'a\<close>.\<close>

datatype py_error =
    ValueError string
  | TypeError string
  | KeyError string
  | OperationalError string
  | IntegrityError string

definition truthy :: "string option \<Rightarrow> bool" where
  \<comment> \<open>Python's truth value of a text or \<open>None\<close>\<close>
  "truthy s = (case s of None \<Rightarrow> False | Some t \<Rightarrow> t \<noteq> [])"

definition or_text :: "string option \<Rightarrow> string \<Rightarrow> string" where
  \<comment> \<open>\<open>value or default\<close> on texts\<close>
  "or_text s d = (case s of None \<Rightarrow> d | Some t \<Rightarrow> if t = [] then d else t)"

lemma truthy_simps [simp]: "\<not> truthy None" "truthy (Some t) \<longleftrightarrow> t \<noteq> []"
  by (simp_all add: truthy_def)

lemma or_text_simps [simp]:
  "or_text None d = d" "or_text (Some []) d = d" "t \<noteq> [] \<Longrightarrow> or_text (Some t) d = t"
  by (simp_all add: or_text_def)

section \<open>Selection by key: Python's \<open>max\<close> and \<open>min\<close>\<close>

text \<open>\<open>max(xs, key=f)\<close> keeps the first element with the greatest key; the result on the
  empty list is an exception in Python and \<open>None\<close> here.\<close>

fun max_by :: "('a \<Rightarrow> 'k::linorder) \<Rightarrow> 'a list \<Rightarrow> 'a option" where
  "max_by f [] = None"
| "max_by f (x # xs) =
     (case max_by f xs of None \<Rightarrow> Some x | Some y \<Rightarrow> if f x < f y then Some y else Some x)"

fun min_by :: "('a \<Rightarrow> 'k::linorder) \<Rightarrow> 'a list \<Rightarrow> 'a option" where
  "min_by f [] = None"
| "min_by f (x # xs) =
     (case min_by f xs of None \<Rightarrow> Some x | Some y \<Rightarrow> if f y < f x then Some y else Some x)"

lemma max_by_eq_None [simp]: "max_by f xs = None \<longleftrightarrow> xs = []"
  by (cases xs) (auto split: option.splits)

lemma min_by_eq_None [simp]: "min_by f xs = None \<longleftrightarrow> xs = []"
  by (cases xs) (auto split: option.splits)

lemma max_by_in: "max_by f xs = Some x \<Longrightarrow> x \<in> set xs"
  by (induction xs arbitrary: x) (auto split: option.splits if_splits)

lemma min_by_in: "min_by f xs = Some x \<Longrightarrow> x \<in> set xs"
  by (induction xs arbitrary: x) (auto split: option.splits if_splits)

lemma max_by_ge: "max_by f xs = Some x \<Longrightarrow> y \<in> set xs \<Longrightarrow> f y \<le> f x"
  by (induction xs arbitrary: x) (force split: option.splits if_splits)+

lemma min_by_le: "min_by f xs = Some x \<Longrightarrow> y \<in> set xs \<Longrightarrow> f x \<le> f y"
  by (induction xs arbitrary: x) (force split: option.splits if_splits)+

lemma max_by_some: "xs \<noteq> [] \<Longrightarrow> \<exists>x. max_by f xs = Some x"
  by (cases "max_by f xs") auto

lemma min_by_some: "xs \<noteq> [] \<Longrightarrow> \<exists>x. min_by f xs = Some x"
  by (cases "min_by f xs") auto

lemmas pick_facts = max_by_in min_by_in max_by_ge min_by_le

section \<open>Association lists as insertion-ordered dictionaries\<close>

fun dict_get :: "('k \<times> 'v) list \<Rightarrow> 'k \<Rightarrow> 'v option" where
  "dict_get [] k = None"
| "dict_get ((k', v) # d) k = (if k' = k then Some v else dict_get d k)"

fun dict_set :: "('k \<times> 'v) list \<Rightarrow> 'k \<Rightarrow> 'v \<Rightarrow> ('k \<times> 'v) list" where
  "dict_set [] k v = [(k, v)]"
| "dict_set ((k', v') # d) k v = (if k' = k then (k', v) # d else (k', v') # dict_set d k v)"

fun dict_update :: "('k \<times> 'v) list \<Rightarrow> ('k \<times> 'v) list \<Rightarrow> ('k \<times> 'v) list" where
  "dict_update d [] = d"
| "dict_update d ((k, v) # e) = dict_update (dict_set d k v) e"

lemma dict_get_set [simp]: "dict_get (dict_set d k v) j = (if j = k then Some v else dict_get d j)"
  by (induction d k v rule: dict_set.induct) auto

lemma dict_get_map_of: "dict_get d k = map_of d k"
  by (induction d) auto

lemma keys_dict_set: "map fst (dict_set d k v) = (if k \<in> fst ` set d then map fst d else map fst d @ [k])"
  by (induction d k v rule: dict_set.induct) (auto simp: image_iff)

lemma distinct_dict_set: "distinct (map fst d) \<Longrightarrow> distinct (map fst (dict_set d k v))"
  by (auto simp: keys_dict_set)

lemma dict_get_Some_in: "dict_get d k = Some v \<Longrightarrow> (k, v) \<in> set d"
  by (simp add: dict_get_map_of map_of_SomeD)

section \<open>Invariants of step relations\<close>

text \<open>The interface every stateful component offers its clients: a step relation and an
  invariant that each step keeps.  The lemmas lift it to every sequence of steps, and with it
  every reflexive and transitive relation that single steps from good states respect.\<close>

locale stepwise =
  fixes step :: "'s \<Rightarrow> 's \<Rightarrow> bool" and inv :: "'s \<Rightarrow> bool"
  assumes step_inv: "inv s \<Longrightarrow> step s t \<Longrightarrow> inv t"
begin

lemma steps_inv: "step\<^sup>*\<^sup>* s t \<Longrightarrow> inv s \<Longrightarrow> inv t"
  by (induction rule: rtranclp_induct) (auto intro: step_inv)

lemma steps_rel:
  assumes "step\<^sup>*\<^sup>* s t" "inv s"
    and "\<And>s. R s s" "\<And>s t u. R s t \<Longrightarrow> R t u \<Longrightarrow> R s u"
    and "\<And>s t. inv s \<Longrightarrow> step s t \<Longrightarrow> R s t"
  shows "R s t"
  using assms(1)
proof (induction rule: rtranclp_induct)
  case (step t u)
  then show ?case using steps_inv [OF _ assms(2)] assms(4,5) by blast
qed (rule assms(3))

end

end
