(* ===== verification/Py_Time.thy ===== *)
theory Py_Time
  imports SO_Prelude
begin

text \<open>
  The standard library's calendar and ISO-8601 text, as far as the engine uses it.

  \<^item> An aware UTC instant is an \<open>int\<close>: microseconds since 0001-01-01T00:00:00 UTC; a date
    is its proleptic Gregorian ordinal (day 1 is 0001-01-01), as in \<open>date.toordinal\<close>.
  \<^item> \<open>parse_isoformat_*\<close> follow CPython's \<open>datetime.fromisoformat\<close> reader step by
    step (extended, basic and ISO-week dates, any separator, optional UTC offset).
  \<^item> \<open>parse_iso\<close> is \<open>saberops.capacity.exclusions.parse_iso\<close>; \<open>isoformat\<close> is the text the
    engine stores for an instant in UTC.
  Instants are unbounded: the \<open>OverflowError\<close> of arithmetic beyond year 9999 is not modelled.
\<close>

named_theorems iso_simps \<open>evaluation of the ISO reader and printer\<close>

section \<open>Calendar\<close>

definition is_leap :: "int \<Rightarrow> bool" where
  "is_leap y = (y mod 4 = 0 \<and> (y mod 100 \<noteq> 0 \<or> y mod 400 = 0))"

definition days_before_year :: "int \<Rightarrow> int" where
  "days_before_year y = (let p = y - 1 in p * 365 + p div 4 - p div 100 + p div 400)"

definition days_in_month :: "int \<Rightarrow> int \<Rightarrow> int" where
  "days_in_month y m =
     (if m = 2 then (if is_leap y then 29 else 28)
      else if m = 4 \<or> m = 6 \<or> m = 9 \<or> m = 11 then 30 else 31)"

definition month_table :: "int list" where
  "month_table = [0, 0, 31, 59, 90, 120, 151, 181, 212, 243, 273, 304, 334]"

definition days_before_month :: "int \<Rightarrow> int \<Rightarrow> int" where
  "days_before_month y m = month_table ! nat m + (if 2 < m \<and> is_leap y then 1 else 0)"

definition ymd2ord :: "int \<Rightarrow> int \<Rightarrow> int \<Rightarrow> int" where
  "ymd2ord y m d = days_before_year y + days_before_month y m + d"

definition valid_ymd :: "int \<Rightarrow> int \<Rightarrow> int \<Rightarrow> bool" where
  "valid_ymd y m d = (1 \<le> y \<and> y \<le> 9999 \<and> 1 \<le> m \<and> m \<le> 12 \<and> 1 \<le> d \<and> d \<le> days_in_month y m)"

definition ord2year :: "int \<Rightarrow> int \<times> int" where
  \<comment> \<open>the year of an ordinal and the day within it, counted from 0\<close>
  "ord2year n0 =
     (let n = n0 - 1; n400 = n div 146097; r = n mod 146097;
          n100 = r div 36524; r2 = r mod 36524;
          n4 = r2 div 1461; r3 = r2 mod 1461;
          n1 = r3 div 365; r4 = r3 mod 365;
          y = n400 * 400 + n100 * 100 + n4 * 4 + n1 + 1
      in if n1 = 4 \<or> n100 = 4 then (y - 1, 365) else (y, r4))"

definition ord2ymd :: "int \<Rightarrow> int \<times> int \<times> int" where
  "ord2ymd n =
     (let (y, k) = ord2year n; m = (k + 50) div 32;
          m' = (if k < days_before_month y m then m - 1 else m)
      in (y, m', k - days_before_month y m' + 1))"

definition ord_weekday :: "int \<Rightarrow> int" where
  \<comment> \<open>\<open>date.weekday()\<close>: Monday is 0\<close>
  "ord_weekday n = (n + 6) mod 7"

section \<open>The ISO-8601 reader\<close>

definition digit_val :: "char \<Rightarrow> int option" where
  "digit_val c = (let n = chr_code c in if 48 \<le> n \<and> n \<le> 57 then Some (int n - 48) else None)"

fun read_digits :: "nat \<Rightarrow> int \<Rightarrow> string \<Rightarrow> (int \<times> string) option" where
  "read_digits 0 acc s = Some (acc, s)"
| "read_digits (Suc k) acc [] = None"
| "read_digits (Suc k) acc (c # s) =
     (case digit_val c of None \<Rightarrow> None | Some d \<Rightarrow> read_digits k (acc * 10 + d) s)"

definition week1_monday :: "int \<Rightarrow> int" where
  "week1_monday y =
     (let first = ymd2ord y 1 1; wd = (first + 6) mod 7; mon = first - wd
      in if 3 < wd then mon + 7 else mon)"

definition isoweek_ymd :: "int \<Rightarrow> int \<Rightarrow> int \<Rightarrow> (int \<times> int \<times> int) option" where
  "isoweek_ymd y w d =
     (let first_wd = ord_weekday (ymd2ord y 1 1);
          week_ok = (1 \<le> w \<and> w \<le> 52 \<or>
                     w = 53 \<and> (first_wd = 3 \<or> first_wd = 2 \<and> is_leap y))
      in if 1 \<le> y \<and> y \<le> 9999 \<and> week_ok \<and> 1 \<le> d \<and> d \<le> 7
         then Some (ord2ymd (week1_monday y + (w - 1) * 7 + d - 1)) else None)"

definition parse_isoformat_date :: "string \<Rightarrow> (int \<times> int \<times> int) option" where
  "parse_isoformat_date s =
     (case read_digits 4 0 s of None \<Rightarrow> None
      | Some (y, s1) \<Rightarrow>
          let sep = (take 1 s1 = ''-''); s2 = (if sep then drop 1 s1 else s1)
          in if take 1 s2 = ''W'' then
               (case read_digits 2 0 (drop 1 s2) of None \<Rightarrow> None
                | Some (w, s3) \<Rightarrow>
                    if s3 = [] then isoweek_ymd y w 1
                    else if sep \<and> take 1 s3 \<noteq> ''-'' then None
                    else (case read_digits 1 0 (if sep then drop 1 s3 else s3) of None \<Rightarrow> None
                          | Some (d, s4) \<Rightarrow> isoweek_ymd y w d))
             else
               (case read_digits 2 0 s2 of None \<Rightarrow> None
                | Some (m, s3) \<Rightarrow>
                    if sep \<and> take 1 s3 \<noteq> ''-'' then None
                    else (case read_digits 2 0 (if sep then drop 1 s3 else s3) of None \<Rightarrow> None
                          | Some (d, s4) \<Rightarrow> Some (y, m, d))))"

definition date_part_length :: "string \<Rightarrow> nat option" where
  \<comment> \<open>\<open>_find_isoformat_datetime_separator\<close> on a text of at least seven characters\<close>
  "date_part_length s =
     (let n = length s;
          isd = (\<lambda>i. i < n \<and> digit_val (s ! i) \<noteq> None);
          run = 7 + length (takeWhile (\<lambda>c. digit_val c \<noteq> None) (drop 7 s))
      in if n = 7 then Some 7
         else if s ! 4 = CHR ''-'' then
           (if s ! 5 = CHR ''W'' then
              (if 8 < n \<and> s ! 8 = CHR ''-'' then
                 (if n = 9 then None else if 10 < n \<and> isd 10 then Some 8 else Some 10)
               else Some 8)
            else Some 10)
         else if s ! 4 = CHR ''W'' then
           (if run < 9 then Some run else if run mod 2 = 0 then Some 7 else Some 8)
         else Some 8)"

type_synonym hms = "int \<times> int \<times> int \<times> int"

definition read_fraction :: "int \<Rightarrow> int \<Rightarrow> int \<Rightarrow> string \<Rightarrow> char \<Rightarrow> (hms \<times> bool) option" where
  \<comment> \<open>the fractional seconds; \<open>nxt\<close> is the character after the text (0 at the end)\<close>
  "read_fraction h m s body nxt =
     (let k = min 6 (length body) in
      case read_digits k 0 body of None \<Rightarrow> None
      | Some (us, rest) \<Rightarrow>
          (let rest' = dropWhile (\<lambda>c. digit_val c \<noteq> None) rest
           in Some ((h, m, s, us * 10 ^ (6 - k)),
                    (case rest' of [] \<Rightarrow> nxt | c # _ \<Rightarrow> c) \<noteq> CHR 0x00)))"

definition hms_of :: "int list \<Rightarrow> int \<times> int \<times> int" where
  \<comment> \<open>the fields read, most recent first, with zero for the missing ones\<close>
  "hms_of acc = (case rev acc @ [0, 0, 0] of h # m # s # _ \<Rightarrow> (h, m, s) | _ \<Rightarrow> (0, 0, 0))"

fun read_hms :: "nat \<Rightarrow> bool \<Rightarrow> int list \<Rightarrow> string \<Rightarrow> char \<Rightarrow> (hms \<times> bool) option" where
  \<comment> \<open>\<open>parse_hh_mm_ss_ff\<close>: fields still to read, whether \<open>:\<close> separates them, the
     fields read so far, the text, and the character after it; the flag of the result
     says that characters remain\<close>
  "read_hms 0 sep acc body nxt = (case hms_of acc of (h, m, s) \<Rightarrow> read_fraction h m s body nxt)"
| "read_hms (Suc left) sep acc body nxt =
     (case read_digits 2 0 body of None \<Rightarrow> None
      | Some (v, rest) \<Rightarrow>
          (let c = (case rest of [] \<Rightarrow> nxt | x # _ \<Rightarrow> x);
               sep' = (if acc = [] then c = CHR '':'' else sep);
               acc' = v # acc
           in case hms_of acc' of (h, m, s) \<Rightarrow>
              if length rest \<le> 1 then Some ((h, m, s, 0), c \<noteq> CHR 0x00)
              else if sep' \<and> c = CHR '':'' then read_hms left sep' acc' (drop 1 rest) nxt
              else if c = CHR ''.'' \<or> c = CHR '','' then read_fraction h m s (drop 1 rest) nxt
              else if \<not> sep' then read_hms left sep' acc' rest nxt
              else None))"

definition is_tz_char :: "char \<Rightarrow> bool" where
  "is_tz_char c = (c = CHR ''+'' \<or> c = CHR ''-'' \<or> c = CHR ''Z'')"

definition parse_isoformat_time :: "string \<Rightarrow> (hms \<times> int option) option" where
  \<comment> \<open>the time of day and, when the text carries one, the UTC offset in microseconds\<close>
  "parse_isoformat_time s =
     (let body = takeWhile (\<lambda>c. \<not> is_tz_char c) s; tz = dropWhile (\<lambda>c. \<not> is_tz_char c) s
      in case read_hms 3 True [] body (case tz of [] \<Rightarrow> CHR 0x00 | c # _ \<Rightarrow> c) of
           None \<Rightarrow> None
         | Some (t, more) \<Rightarrow>
             (case tz of
                [] \<Rightarrow> if more then None else Some (t, None)
              | c # r \<Rightarrow>
                  if c = CHR ''Z'' then (if r = [] then Some (t, Some 0) else None)
                  else (case read_hms 3 True [] r CHR 0x00 of
                          None \<Rightarrow> None
                        | Some ((h, m, sc, us), more') \<Rightarrow>
                            if more' then None
                            else let off = h * 3600 + m * 60 + sc
                                 in Some (t, Some (if off = 0 then 0
                                      else (if c = CHR ''-'' then -1 else 1) * (off * 1000000 + us))))))"

definition day_us :: int where "day_us = 86400000000"

definition instant_of :: "int \<Rightarrow> hms \<Rightarrow> int" where
  \<comment> \<open>ordinal and time of day to microseconds\<close>
  "instant_of n t = (case t of (h, m, s, us) \<Rightarrow>
     (n - 1) * day_us + ((h * 3600 + m * 60 + s) * 1000000 + us))"

definition fromisoformat :: "string \<Rightarrow> (int \<times> int option) option" where
  \<comment> \<open>\<open>datetime.fromisoformat\<close>: the local reading and the UTC offset, \<open>None\<close> for \<open>ValueError\<close>\<close>
  "fromisoformat s =
     (if length s < 7 then None
      else case date_part_length s of None \<Rightarrow> None
      | Some k \<Rightarrow>
        (case parse_isoformat_date (take k s) of None \<Rightarrow> None
         | Some (y, m, d) \<Rightarrow>
           (case (if k < length s then parse_isoformat_time (drop (k + 1) s)
                  else Some ((0, 0, 0, 0), None)) of
              None \<Rightarrow> None
            | Some ((h, mi, sc, us), off) \<Rightarrow>
                if valid_ymd y m d \<and> h \<le> 23 \<and> mi \<le> 59 \<and> sc \<le> 59 \<and>
                   (case off of None \<Rightarrow> True | Some z \<Rightarrow> - day_us < z \<and> z < day_us)
                then Some (instant_of (ymd2ord y m d) (h, mi, sc, us), off)
                else None)))"

definition date_fromisoformat :: "string \<Rightarrow> int option" where
  \<comment> \<open>\<open>date.fromisoformat\<close>, as an ordinal\<close>
  "date_fromisoformat s =
     (if length s \<noteq> 7 \<and> length s \<noteq> 8 \<and> length s \<noteq> 10 then None
      else case parse_isoformat_date s of None \<Rightarrow> None
      | Some (y, m, d) \<Rightarrow> if valid_ymd y m d then Some (ymd2ord y m d) else None)"

fun zulu_replace :: "string \<Rightarrow> string" where
  \<comment> \<open>\<open>s.replace("Z", "+00:00")\<close>\<close>
  "zulu_replace [] = []"
| "zulu_replace (c # s) = (if c = CHR ''Z'' then ''+00:00'' @ zulu_replace s else c # zulu_replace s)"

definition parse_iso :: "string option \<Rightarrow> int option" where
  "parse_iso v =
     (case v of None \<Rightarrow> None
      | Some text \<Rightarrow>
          if text = [] then None
          else (case fromisoformat (zulu_replace (py_strip text)) of
                  None \<Rightarrow> None
                | Some (t, None) \<Rightarrow> None
                | Some (t, Some off) \<Rightarrow> Some (t - off)))"

section \<open>The ISO-8601 printer\<close>

definition digit_char :: "int \<Rightarrow> char" where
  "digit_char d = char_of (48 + nat d)"

fun pad_digits :: "nat \<Rightarrow> int \<Rightarrow> string" where
  "pad_digits 0 n = []"
| "pad_digits (Suc k) n = pad_digits k (n div 10) @ [digit_char (n mod 10)]"

definition date_isoformat :: "int \<Rightarrow> string" where
  "date_isoformat n =
     (case ord2ymd n of (y, m, d) \<Rightarrow>
        pad_digits 4 y @ ''-'' @ pad_digits 2 m @ ''-'' @ pad_digits 2 d)"

definition isoformat :: "int \<Rightarrow> string" where
  \<comment> \<open>\<open>datetime.isoformat()\<close> of an aware UTC instant\<close>
  "isoformat t =
     (let r = t mod day_us; us = r mod 1000000; sec = r div 1000000
      in date_isoformat (t div day_us + 1) @ ''T'' @
         pad_digits 2 (sec div 3600) @ '':'' @ pad_digits 2 (sec div 60 mod 60) @ '':'' @
         pad_digits 2 (sec mod 60) @
         (if us = 0 then [] else ''.'' @ pad_digits 6 us) @ ''+00:00'')"

definition instant_date :: "int \<Rightarrow> int" where
  \<comment> \<open>\<open>moment.date()\<close>, as an ordinal\<close>
  "instant_date t = t div day_us + 1"

definition utcnow_iso :: "int \<Rightarrow> string" where
  \<comment> \<open>\<open>_utcnow_iso\<close> of a supplied clock value: the text of every stored timestamp\<close>
  "utcnow_iso now = isoformat now"

section \<open>The calendar is inverted by the ordinal\<close>

lemma cycle_split:
  fixes n :: int
  assumes "1 \<le> n"
  obtains a b c e f where
    "a = (n - 1) div 146097" "b = (n - 1) mod 146097 div 36524"
    "c = (n - 1) mod 146097 mod 36524 div 1461"
    "e = (n - 1) mod 146097 mod 36524 mod 1461 div 365"
    "f = (n - 1) mod 146097 mod 36524 mod 1461 mod 365"
    "n = 146097 * a + 36524 * b + 1461 * c + 365 * e + f + 1"
    "0 \<le> a" "0 \<le> b" "b \<le> 4" "0 \<le> c" "c \<le> 24" "0 \<le> e" "e \<le> 4" "0 \<le> f" "f \<le> 364"
    "b = 4 \<longrightarrow> c = 0 \<and> e = 0 \<and> f = 0" "e = 4 \<longrightarrow> f = 0" "c = 24 \<longrightarrow> e < 4"
proof -
  define r where "r = (n - 1) mod 146097"
  define r2 where "r2 = r mod 36524"
  define r3 where "r3 = r2 mod 1461"
  have r: "0 \<le> r" "r < 146097" "n - 1 = 146097 * ((n - 1) div 146097) + r"
    by (simp_all add: r_def)
  have r2: "0 \<le> r2" "r2 < 36524" "r = 36524 * (r div 36524) + r2"
    by (simp_all add: r2_def)
  have r3: "0 \<le> r3" "r3 < 1461" "r2 = 1461 * (r2 div 1461) + r3"
    by (simp_all add: r3_def)
  have f: "0 \<le> r3 mod 365" "r3 mod 365 < 365" "r3 = 365 * (r3 div 365) + r3 mod 365"
    by simp_all
  have a: "0 \<le> (n - 1) div 146097" using assms by simp
  have b: "0 \<le> r div 36524" "r div 36524 \<le> 4" using r by auto
  have c: "0 \<le> r2 div 1461" "r2 div 1461 \<le> 24" using r2 by auto
  have e: "0 \<le> r3 div 365" "r3 div 365 \<le> 4" using r3 by auto
  show thesis
  proof (rule that)
    show "(n - 1) div 146097 = (n - 1) div 146097" ..
    show "r div 36524 = (n - 1) mod 146097 div 36524" by (simp add: r_def)
    show "r2 div 1461 = (n - 1) mod 146097 mod 36524 div 1461" by (simp add: r2_def r_def)
    show "r3 div 365 = (n - 1) mod 146097 mod 36524 mod 1461 div 365" by (simp add: r3_def r2_def r_def)
    show "r3 mod 365 = (n - 1) mod 146097 mod 36524 mod 1461 mod 365" by (simp add: r3_def r2_def r_def)
    show "n = 146097 * ((n - 1) div 146097) + 36524 * (r div 36524) + 1461 * (r2 div 1461) + 365 * (r3 div 365) + r3 mod 365 + 1"
      using r r2 r3 f by linarith
    show "r div 36524 = 4 \<longrightarrow> r2 div 1461 = 0 \<and> r3 div 365 = 0 \<and> r3 mod 365 = 0"
    proof
      assume "r div 36524 = 4"
      then have "r2 = 0" using r r2 by linarith
      then show "r2 div 1461 = 0 \<and> r3 div 365 = 0 \<and> r3 mod 365 = 0" by (simp add: r3_def)
    qed
    show "r3 div 365 = 4 \<longrightarrow> r3 mod 365 = 0" using r3 f by linarith
    show "r2 div 1461 = 24 \<longrightarrow> r3 div 365 < 4" using r2 r3 f by linarith
  qed (use a b c e f in linarith)+
qed

lemma dby_parts:
  fixes a b c e :: int
  assumes "0 \<le> b" "b \<le> 3" "0 \<le> c" "c \<le> 24" "0 \<le> e" "e \<le> 3"
  shows "days_before_year (a * 400 + b * 100 + c * 4 + e + 1) = 146097 * a + 36524 * b + 1461 * c + 365 * e"
    and "is_leap (a * 400 + b * 100 + c * 4 + e + 1) \<longleftrightarrow> e = 3 \<and> (c \<noteq> 24 \<or> b = 3)"
proof -
  let ?p = "a * 400 + b * 100 + c * 4 + e"
  have d4: "?p div 4 = 100 * a + 25 * b + c"
    by (rule int_div_pos_eq [where r = e]) (use assms in simp_all)
  have d100: "?p div 100 = 4 * a + b"
    by (rule int_div_pos_eq [where r = "c * 4 + e"]) (use assms in simp_all)
  have d400: "?p div 400 = a"
    by (rule int_div_pos_eq [where r = "b * 100 + c * 4 + e"]) (use assms in simp_all)
  show "days_before_year (?p + 1) = 146097 * a + 36524 * b + 1461 * c + 365 * e"
    unfolding days_before_year_def Let_def by (simp add: d4 d100 d400)
  have m4: "(?p + 1) mod 4 = (if e = 3 then 0 else e + 1)"
    by (rule int_mod_pos_eq [where q = "100 * a + 25 * b + c + (if e = 3 then 1 else 0)"])
       (use assms in auto)
  have m100: "(?p + 1) mod 100 = (if c = 24 \<and> e = 3 then 0 else c * 4 + e + 1)"
    by (rule int_mod_pos_eq [where q = "4 * a + b + (if c = 24 \<and> e = 3 then 1 else 0)"])
       (use assms in auto)
  have m400: "(?p + 1) mod 400 = (if b = 3 \<and> c = 24 \<and> e = 3 then 0 else b * 100 + c * 4 + e + 1)"
    by (rule int_mod_pos_eq [where q = "a + (if b = 3 \<and> c = 24 \<and> e = 3 then 1 else 0)"])
       (use assms in auto)
  show "is_leap (?p + 1) \<longleftrightarrow> e = 3 \<and> (c \<noteq> 24 \<or> b = 3)"
    unfolding is_leap_def m4 m100 m400 using assms by auto
qed

lemma ord2year_correct:
  assumes "1 \<le> n" and "ord2year n = (y, k)"
  shows "1 \<le> y" "0 \<le> k" "k < 365 + (if is_leap y then 1 else 0)" "n = days_before_year y + k + 1"
proof -
  obtain a b c e f where d: 
    "a = (n - 1) div 146097" "b = (n - 1) mod 146097 div 36524"
    "c = (n - 1) mod 146097 mod 36524 div 1461"
    "e = (n - 1) mod 146097 mod 36524 mod 1461 div 365"
    "f = (n - 1) mod 146097 mod 36524 mod 1461 mod 365"
   and n: "n = 146097 * a + 36524 * b + 1461 * c + 365 * e + f + 1"
   and bnd: "0 \<le> a" "0 \<le> b" "b \<le> 4" "0 \<le> c" "c \<le> 24" "0 \<le> e" "e \<le> 4" "0 \<le> f" "f \<le> 364"
   and sp: "b = 4 \<longrightarrow> c = 0 \<and> e = 0 \<and> f = 0" "e = 4 \<longrightarrow> f = 0" "c = 24 \<longrightarrow> e < 4"
    using cycle_split [OF assms(1)] by metis
  have yk: "(y, k) = (if e = 4 \<or> b = 4 then (a * 400 + b * 100 + c * 4 + e, 365)
                      else (a * 400 + b * 100 + c * 4 + e + 1, f))"
    using assms(2) unfolding ord2year_def Let_def d [symmetric] by (simp split: if_splits)
  have "1 \<le> y \<and> 0 \<le> k \<and> k < 365 + (if is_leap y then 1 else 0) \<and> n = days_before_year y + k + 1"
  proof (cases "b = 4")
    case True
    with sp have "c = 0" "e = 0" "f = 0" by auto
    with True yk have "y = a * 400 + 3 * 100 + 24 * 4 + 3 + 1" "k = 365" by auto
    then show ?thesis using dby_parts [of 3 24 3 a] n True \<open>c = 0\<close> \<open>e = 0\<close> \<open>f = 0\<close> bnd by simp
  next
    case b: False
    show ?thesis
    proof (cases "e = 4")
      case True
      with sp have "f = 0" "c \<noteq> 24" by auto
      from True yk have "y = a * 400 + b * 100 + c * 4 + 3 + 1" "k = 365" by auto
      then show ?thesis using dby_parts [of b c 3 a] n True \<open>f = 0\<close> \<open>c \<noteq> 24\<close> b bnd by auto
    next
      case False
      with b yk have "y = a * 400 + b * 100 + c * 4 + e + 1" "k = f" by auto
      then show ?thesis using dby_parts [of b c e a] n False b bnd by auto
    qed
  qed
  then show "1 \<le> y" "0 \<le> k" "k < 365 + (if is_leap y then 1 else 0)" "n = days_before_year y + k + 1"
    by auto
qed

lemma dbm_cases:
  "days_before_month y 1 = 0" "days_before_month y 2 = 31"
  "days_before_month y 3 = 59 + (if is_leap y then 1 else 0)"
  "days_before_month y 4 = 90 + (if is_leap y then 1 else 0)"
  "days_before_month y 5 = 120 + (if is_leap y then 1 else 0)"
  "days_before_month y 6 = 151 + (if is_leap y then 1 else 0)"
  "days_before_month y 7 = 181 + (if is_leap y then 1 else 0)"
  "days_before_month y 8 = 212 + (if is_leap y then 1 else 0)"
  "days_before_month y 9 = 243 + (if is_leap y then 1 else 0)"
  "days_before_month y 10 = 273 + (if is_leap y then 1 else 0)"
  "days_before_month y 11 = 304 + (if is_leap y then 1 else 0)"
  "days_before_month y 12 = 334 + (if is_leap y then 1 else 0)"
  by (simp_all add: days_before_month_def month_table_def)

lemma int_1_12: "1 \<le> (q::int) \<Longrightarrow> q \<le> 12 \<Longrightarrow> q \<in> {1,2,3,4,5,6,7,8,9,10,11,12}"
  by (simp only: insert_iff empty_iff) presburger

lemma month_split:
  fixes k :: int
  assumes "0 \<le> k" "k < 365 + (if is_leap y then 1 else 0)"
    and "m = (if k < days_before_month y ((k + 50) div 32) then (k + 50) div 32 - 1 else (k + 50) div 32)"
  shows "1 \<le> m \<and> m \<le> 12 \<and> 0 \<le> k - days_before_month y m \<and>
         k - days_before_month y m < days_in_month y m"
proof -
  have q: "(k + 50) div 32 \<in> {1..12}" using assms(1,2) by (auto split: if_splits)
  then have "(k + 50) div 32 \<in> {1,2,3,4,5,6,7,8,9,10,11,12}" using int_1_12 by auto
  then show ?thesis
    using assms
    by (elim insertE; simp add: dbm_cases days_in_month_def split: if_splits; linarith?)
qed
lemma div_step: "0 < (k::int) \<Longrightarrow> y div k = (y - 1) div k + (if y mod k = 0 then 1 else 0)"
proof -
  assume k: "0 < k"
  have y: "y = k * (y div k) + y mod k" "0 \<le> y mod k" "y mod k < k" using k by simp_all
  show ?thesis
  proof (cases "y mod k = 0")
    case True
    have "(y - 1) div k = y div k - 1"
      by (rule int_div_pos_eq [where r = "k - 1"]) (use y True k in \<open>simp_all add: algebra_simps\<close>)
    with True show ?thesis by simp
  next
    case False
    have "(y - 1) div k = y div k"
      by (rule int_div_pos_eq [where r = "y mod k - 1"]) (use y False in linarith)+
    with False show ?thesis by simp
  qed
qed

lemma leap_count:
  fixes y a b c a' b' c' :: int
  assumes "a = a' + (if P then 1 else 0)" "b = b' + (if Q then 1 else 0)" "c = c' + (if R then 1 else 0)"
    and "R \<Longrightarrow> Q" "Q \<Longrightarrow> P"
  shows "y * 365 + a - b + c = (y - 1) * 365 + a' - b' + c' + 365 + (if P \<and> (\<not> Q \<or> R) then 1 else 0)"
  using assms by (cases P; cases Q; cases R; simp)

lemma dby_step: "days_before_year (y + 1) = days_before_year y + 365 + (if is_leap y then 1 else 0)"
proof -
  have m: "y mod 400 = 0 \<Longrightarrow> y mod 100 = 0" "y mod 100 = 0 \<Longrightarrow> y mod 4 = 0"
    using dvd_trans [of 100 400 y] dvd_trans [of 4 100 y] by (simp_all add: mod_eq_0_iff_dvd)
  show ?thesis
    unfolding days_before_year_def Let_def is_leap_def add_diff_cancel_right'
    by (rule leap_count [OF div_step div_step div_step m]) simp_all
qed

lemma dby_mono: "y \<le> z \<Longrightarrow> days_before_year y \<le> days_before_year z"
proof (induction z rule: int_ge_induct)
  case (step z)
  then show ?case using dby_step [of z] by (auto split: if_splits)
qed simp

lemma dby_less: "y < z \<Longrightarrow> days_before_year y + 365 + (if is_leap y then 1 else 0) \<le> days_before_year z"
  using dby_mono [of "y + 1" z] dby_step [of y] by simp

definition max_ordinal :: int where "max_ordinal = 3652059"

lemma ord2ymd_correct:
  assumes "1 \<le> n" "n \<le> max_ordinal" "ord2ymd n = (y, m, d)"
  shows "valid_ymd y m d" "ymd2ord y m d = n"
proof -
  obtain y' k where yk: "ord2year n = (y', k)" by fastforce
  note y = ord2year_correct [OF assms(1) yk]
  have eq: "y' = y" "d = k - days_before_month y m + 1"
    "m = (if k < days_before_month y ((k + 50) div 32) then (k + 50) div 32 - 1 else (k + 50) div 32)"
    using assms(3) by (auto simp: ord2ymd_def yk Let_def)
  from y eq have k: "0 \<le> k" "k < 365 + (if is_leap y then 1 else 0)" by auto
  note ms = month_split [OF k eq(3)]
  have "y \<le> 9999"
  proof (rule ccontr)
    assume "\<not> y \<le> 9999"
    then have "days_before_year 10000 \<le> days_before_year y" by (intro dby_mono) simp
    moreover have "days_before_year 10000 = 3652059" by (simp add: days_before_year_def)
    ultimately show False using y assms(2) eq(1) by (simp add: max_ordinal_def)
  qed
  with y eq ms show "valid_ymd y m d" "ymd2ord y m d = n"
    by (auto simp: valid_ymd_def ymd2ord_def)
qed

lemma dbm_step:
  assumes "1 \<le> m" "m < 12"
  shows "days_before_month y (m + 1) = days_before_month y m + days_in_month y m"
proof -
  from assms have "m \<in> {1,2,3,4,5,6,7,8,9,10,11,12} - {12}" using int_1_12 [of m] by simp
  then show ?thesis by (elim DiffE insertE) (simp_all add: dbm_cases days_in_month_def)
qed

lemma dbm_mono:
  assumes "m \<le> m'" "1 \<le> m" "m' \<le> 12"
  shows "days_before_month y m \<le> days_before_month y m'"
  using assms
proof (induction m' rule: int_ge_induct)
  case (step i)
  then show ?case using dbm_step [of i y] by (auto simp: days_in_month_def split: if_splits)
qed simp

lemma dbm_less:
  assumes "m < m'" "1 \<le> m" "m' \<le> 12"
  shows "days_before_month y m + days_in_month y m \<le> days_before_month y m'"
  using dbm_mono [of "m + 1" m' y] dbm_step [of m y] assms by simp

lemma ymd2ord_day_in_year:
  assumes "valid_ymd y m d"
  shows "1 \<le> days_before_month y m + d" "days_before_month y m + d \<le> 365 + (if is_leap y then 1 else 0)"
proof -
  have r: "1 \<le> m" "m \<le> 12" "1 \<le> d" "d \<le> days_in_month y m" using assms by (auto simp: valid_ymd_def)
  show "1 \<le> days_before_month y m + d" using dbm_mono [of 1 m y] r by (simp add: dbm_cases)
  show "days_before_month y m + d \<le> 365 + (if is_leap y then 1 else 0)"
  proof (cases "m = 12")
    case True
    then show ?thesis using r by (simp add: dbm_cases days_in_month_def)
  next
    case False
    then show ?thesis using dbm_less [of m 12 y] r by (simp add: dbm_cases split: if_splits)
  qed
qed

text \<open>Calendar dates compare like their ordinals.\<close>

lemma ymd2ord_less:
  assumes "valid_ymd y m d" "valid_ymd y' m' d'" "(y, m, d) < (y', m', d')"
  shows "ymd2ord y m d < ymd2ord y' m' d'"
proof -
  consider "y < y'" | "y = y'" "m < m'" | "y = y'" "m = m'" "d < d'"
    using assms(3) by (auto simp: order_le_less)
  then show ?thesis
  proof cases
    case 1
    then show ?thesis
      using dby_less [OF 1] ymd2ord_day_in_year [OF assms(1)] ymd2ord_day_in_year [OF assms(2)]
      by (simp add: ymd2ord_def)
  next
    case 2
    then show ?thesis
      using dbm_less [of m m' y] assms(1,2) by (simp add: ymd2ord_def valid_ymd_def)
  next
    case 3
    then show ?thesis by (simp add: ymd2ord_def)
  qed
qed

lemma ord2ymd_less:
  assumes "1 \<le> n" "n < n'" "n' \<le> max_ordinal"
  shows "ord2ymd n < ord2ymd n'"
proof -
  obtain y m d where a: "ord2ymd n = (y, m, d)" by (cases "ord2ymd n") auto
  obtain y' m' d' where b: "ord2ymd n' = (y', m', d')" by (cases "ord2ymd n'") auto
  have va: "valid_ymd y m d" "ymd2ord y m d = n" using ord2ymd_correct [OF _ _ a] assms by auto
  have vb: "valid_ymd y' m' d'" "ymd2ord y' m' d' = n'" using ord2ymd_correct [OF _ _ b] assms by auto
  have "\<not> (y', m', d') \<le> (y, m, d)"
    using ymd2ord_less [OF vb(1) va(1)] va(2) vb(2) assms(2) by (auto simp: order_le_less)
  then show ?thesis unfolding a b by (simp only: not_le)
qed

section \<open>Printing and reading digits\<close>

lemma digit_val_char: "0 \<le> d \<Longrightarrow> d \<le> 9 \<Longrightarrow> digit_val (digit_char d) = Some d"
  by (auto simp: digit_val_def digit_char_def Let_def)

lemma chr_code_digit_char: "0 \<le> d \<Longrightarrow> d \<le> 9 \<Longrightarrow> chr_code (digit_char d) = 48 + nat d"
  by (auto simp: digit_char_def)

lemma length_pad_digits [simp]: "length (pad_digits k n) = k"
  by (induction k arbitrary: n) auto

lemma pad_digits_chars: "c \<in> set (pad_digits k n) \<Longrightarrow> 48 \<le> chr_code c \<and> chr_code c \<le> 57"
proof (induction k arbitrary: n)
  case (Suc k)
  have "chr_code (digit_char (n mod 10)) = 48 + nat (n mod 10)" by (rule chr_code_digit_char) simp_all
  with Suc show ?case by (auto simp: nat_le_iff)
qed simp

lemma read_digits_append:
  "read_digits (j + k) acc s = (case read_digits j acc s of None \<Rightarrow> None | Some (a, r) \<Rightarrow> read_digits k a r)"
  by (induction j acc s rule: read_digits.induct) (auto split: option.splits)

lemma read_pad_digits_acc:
  "0 \<le> n \<Longrightarrow> n < 10 ^ k \<Longrightarrow> read_digits k acc (pad_digits k n @ s) = Some (acc * 10 ^ k + n, s)"
proof (induction k arbitrary: n acc s)
  case (Suc k)
  have "0 \<le> n div 10" "n div 10 < 10 ^ k" using Suc.prems by auto
  note IH = Suc.IH [OF this]
  have "read_digits (k + 1) acc (pad_digits k (n div 10) @ digit_char (n mod 10) # s)
        = Some ((acc * 10 ^ k + n div 10) * 10 + n mod 10, s)"
    unfolding read_digits_append IH by (simp add: digit_val_char)
  then show ?case by (simp add: algebra_simps)
qed simp

lemma read_pad_digits [iso_simps]:
  "0 \<le> n \<Longrightarrow> n < 10 ^ k \<Longrightarrow> read_digits k 0 (pad_digits k n @ s) = Some (n, s)"
  by (simp add: read_pad_digits_acc)

lemma pad_digits_hd:
  assumes "0 < k"
  obtains c r where "pad_digits k n = c # r" "48 \<le> chr_code c" "chr_code c \<le> 57"
proof (cases "pad_digits k n")
  case Nil
  then show ?thesis using assms length_pad_digits [of k n] by simp
next
  case (Cons c r)
  then show ?thesis using that pad_digits_chars [of c k n] by auto
qed

section \<open>The printed instant\<close>

definition max_instant :: int where
  "max_instant = max_ordinal * day_us"

definition iso_time_part :: "int \<Rightarrow> string" where
  "iso_time_part r =
     (let us = r mod 1000000; sec = r div 1000000
      in pad_digits 2 (sec div 3600) @ '':'' @ pad_digits 2 (sec div 60 mod 60) @ '':'' @
         pad_digits 2 (sec mod 60) @ (if us = 0 then [] else ''.'' @ pad_digits 6 us))"

lemma isoformat_split:
  "isoformat t = date_isoformat (t div day_us + 1) @ ''T'' @ iso_time_part (t mod day_us) @ ''+00:00''"
  by (simp add: isoformat_def iso_time_part_def Let_def)

lemma date_isoformat_chars:
  "c \<in> set (date_isoformat n) \<Longrightarrow> c = CHR ''-'' \<or> 48 \<le> chr_code c \<and> chr_code c \<le> 57"
  by (auto simp: date_isoformat_def split: prod.splits dest: pad_digits_chars)

lemma iso_time_part_chars:
  "c \<in> set (iso_time_part r) \<Longrightarrow> c = CHR '':'' \<or> c = CHR ''.'' \<or> 48 \<le> chr_code c \<and> chr_code c \<le> 57"
  by (auto simp: iso_time_part_def Let_def split: if_splits dest: pad_digits_chars)

lemma length_date_isoformat [simp]: "length (date_isoformat n) = 10"
  by (simp add: date_isoformat_def split: prod.splits)

lemma parse_date_isoformat:
  assumes "1 \<le> n" "n \<le> max_ordinal" "ord2ymd n = (y, m, d)"
  shows "parse_isoformat_date (date_isoformat n) = Some (y, m, d)"
proof -
  have "valid_ymd y m d" by (rule ord2ymd_correct [OF assms])
  then have r: "0 \<le> y" "y < 10 ^ 4" "0 \<le> m" "m < 10 ^ 2" "0 \<le> d" "d < 10 ^ 2"
    by (auto simp: valid_ymd_def days_in_month_def split: if_splits)
  obtain c ms where m: "pad_digits 2 m = c # ms" "48 \<le> chr_code c" "chr_code c \<le> 57"
    by (rule pad_digits_hd [of 2 m]) auto
  have cW: "c \<noteq> CHR ''W''" using m by auto
  have rd: "read_digits 2 0 (pad_digits 2 d) = Some (d, [])"
    using read_pad_digits [OF r(5,6), of "[]"] by simp
  have rm: "read_digits 2 0 (c # ms @ x) = Some (m, x)" for x
    using read_pad_digits [OF r(3,4), of x] by (simp add: m(1))
  show ?thesis
    by (simp add: parse_isoformat_date_def date_isoformat_def assms(3) read_pad_digits [OF r(1,2)] m(1) cW rd rm
             del: pad_digits.simps read_digits.simps)
qed

lemma read_iso_time:
  assumes "0 \<le> r" "r < day_us"
  defines "us \<equiv> r mod 1000000" and "sec \<equiv> r div 1000000"
  shows "read_hms 3 True [] (iso_time_part r) CHR ''+'' =
           Some ((sec div 3600, sec div 60 mod 60, sec mod 60, us), True)"
proof -
  have s: "0 \<le> sec" "sec < 86400" using assms(1,2) by (auto simp: sec_def day_us_def)
  then have r: "0 \<le> sec div 3600" "sec div 3600 < 10 ^ 2" "0 \<le> sec div 60 mod 60" "sec div 60 mod 60 < 10 ^ 2"
    "0 \<le> sec mod 60" "sec mod 60 < 10 ^ 2" by auto
  have u: "0 \<le> us" "us < 10 ^ 6" by (simp_all add: us_def)
  have e: "read_digits 2 0 (pad_digits 2 (sec mod 60)) = Some (sec mod 60, [])"
    using read_pad_digits [OF r(5,6), of "[]"] by simp
  have f: "read_digits 6 0 (pad_digits 6 us) = Some (us, [])"
    using read_pad_digits [OF u, of "[]"] by simp
  show ?thesis
    unfolding iso_time_part_def Let_def sec_def [symmetric] us_def [symmetric]
    by (simp add: numeral_3_eq_3 read_pad_digits [OF r(1,2)] read_pad_digits [OF r(3,4)]
          read_pad_digits [OF r(5,6)] e f hms_of_def read_fraction_def
          del: pad_digits.simps read_digits.simps)
qed

lemma hms_recompose: "(sec div 3600) * 3600 + (sec div 60 mod 60) * 60 + sec mod 60 = (sec::int)"
proof -
  have "sec div 3600 = sec div 60 div 60" by (simp add: zdiv_zmult2_eq [symmetric])
  moreover have "sec div 60 = 60 * (sec div 60 div 60) + sec div 60 mod 60" by simp
  moreover have "sec = 60 * (sec div 60) + sec mod 60" by simp
  ultimately show ?thesis by linarith
qed

lemma hms_bounds:
  assumes "0 \<le> (sec::int)" "sec < 86400"
  shows "sec div 3600 \<le> 23" "sec div 60 mod 60 \<le> 59" "sec mod 60 \<le> 59"
proof -
  show "sec div 3600 \<le> 23" using assms by auto
  show "sec div 60 mod 60 \<le> 59" using pos_mod_bound [of 60 "sec div 60"] by linarith
  show "sec mod 60 \<le> 59" using pos_mod_bound [of 60 sec] by linarith
qed

lemma zulu_replace_id: "CHR ''Z'' \<notin> set s \<Longrightarrow> zulu_replace s = s"
  by (induction s) auto

lemma isoformat_no_Z: "CHR ''Z'' \<notin> set (isoformat t)"
  by (auto simp: isoformat_split dest: date_isoformat_chars iso_time_part_chars)

lemma hd_date_isoformat: "hd (date_isoformat n) \<in> set (date_isoformat n)"
  by (rule hd_in_set) (metis length_date_isoformat length_0_conv zero_neq_numeral)

lemma not_space_isoformat_hd: "\<not> py_isspace (hd (isoformat t))"
proof -
  have "hd (isoformat t) = hd (date_isoformat (t div day_us + 1))"
    using length_date_isoformat [of "t div day_us + 1"]
    by (cases "date_isoformat (t div day_us + 1)") (auto simp: isoformat_split)
  then show ?thesis
    using date_isoformat_chars [OF hd_date_isoformat, of "t div day_us + 1"]
    by (auto simp: py_isspace_def Let_def)
qed

lemma py_strip_isoformat: "py_strip (isoformat t) = isoformat t"
  by (rule py_strip_id [OF _ not_space_isoformat_hd])
     (simp_all add: isoformat_split py_isspace_def)

lemma date_part_isoformat: "date_part_length (isoformat t) = Some 10"
proof -
  obtain y m d where n: "ord2ymd (t div day_us + 1) = (y, m, d)" by (cases "ord2ymd (t div day_us + 1)") auto
  obtain c ms where m: "pad_digits 2 m = c # ms" "48 \<le> chr_code c" "chr_code c \<le> 57"
    by (rule pad_digits_hd [of 2 m]) auto
  have 4: "isoformat t ! 4 = CHR ''-''"
    by (simp add: isoformat_split date_isoformat_def n nth_append del: pad_digits.simps)
  have 5: "isoformat t ! 5 = c"
    by (simp add: isoformat_split date_isoformat_def n nth_append m(1) del: pad_digits.simps)
  have len: "7 < length (isoformat t)" by (simp add: isoformat_split)
  show ?thesis using len m by (auto simp: date_part_length_def 4 5 Let_def)
qed

lemma parse_time_isoformat:
  assumes "0 \<le> r" "r < day_us"
  shows "parse_isoformat_time (iso_time_part r @ ''+00:00'') =
    Some ((r div 1000000 div 3600, r div 1000000 div 60 mod 60, r div 1000000 mod 60, r mod 1000000), Some 0)"
proof -
  have nt: "\<forall>c \<in> set (iso_time_part r). \<not> is_tz_char c"
    by (auto simp: is_tz_char_def dest: iso_time_part_chars)
  have tw: "takeWhile (\<lambda>c. \<not> is_tz_char c) (iso_time_part r @ ''+00:00'') = iso_time_part r"
    and dw: "dropWhile (\<lambda>c. \<not> is_tz_char c) (iso_time_part r @ ''+00:00'') = ''+00:00''"
    using nt by (simp_all add: takeWhile_append2 dropWhile_append2 is_tz_char_def)
  have z: "read_hms 3 True [] ''00:00'' CHR 0x00 = Some ((0, 0, 0, 0), False)" by code_simp
  show ?thesis
    by (simp add: parse_isoformat_time_def tw dw read_iso_time [OF assms] z del: read_hms.simps)
qed

theorem fromisoformat_isoformat:
  assumes "0 \<le> t" "t < max_instant"
  shows "fromisoformat (isoformat t) = Some (t, Some 0)"
proof -
  let ?n = "t div day_us + 1" and ?r = "t mod day_us"
  have day: "0 < day_us" by (simp add: day_us_def)
  have n: "1 \<le> ?n" using assms(1) day by (simp add: pos_imp_zdiv_nonneg_iff)
  have "t div day_us < max_ordinal"
    using assms(2) by (simp add: max_instant_def max_ordinal_def day_us_def)
  then have n': "?n \<le> max_ordinal" by simp
  obtain y m d where ymd: "ord2ymd ?n = (y, m, d)" by (cases "ord2ymd ?n") auto
  note v = ord2ymd_correct [OF n n' ymd]
  have r: "0 \<le> ?r" "?r < day_us" using day by simp_all
  let ?s = "?r div 1000000"
  have s: "0 \<le> ?s" "?s < 86400" using r by (auto simp: day_us_def)
  have t10: "take 10 (isoformat t) = date_isoformat ?n" "drop 11 (isoformat t) = iso_time_part ?r @ ''+00:00''"
    by (simp_all add: isoformat_split)
  have len: "10 < length (isoformat t)" by (simp add: isoformat_split)
  define h mi sc us where hms: "h = ?s div 3600" "mi = ?s div 60 mod 60" "sc = ?s mod 60" "us = ?r mod 1000000"
  have inst: "instant_of (ymd2ord y m d) (h, mi, sc, us) = t"
    by (simp only: hms instant_of_def prod.case v(2) hms_recompose add_diff_cancel_right' div_mult_mod_eq)
  have b: "h \<le> 23" "mi \<le> 59" "sc \<le> 59" unfolding hms by (rule hms_bounds [OF s])+
  have time: "parse_isoformat_time (drop (10 + 1) (isoformat t)) = Some ((h, mi, sc, us), Some 0)"
    using parse_time_isoformat [OF r] by (simp add: hms t10)
  have "\<not> length (isoformat t) < 7" "10 < length (isoformat t)" using len by auto
  then show ?thesis
    by (simp only: fromisoformat_def date_part_isoformat t10 parse_date_isoformat [OF n n' ymd]
        time inst b v(1) option.case prod.case if_True if_False simp_thms day neg_less_0_iff_less)
qed

lemma parse_iso_isoformat_aux:
  assumes "0 \<le> t" "t < max_instant"
  shows "parse_iso (Some (isoformat t)) = Some t"
proof -
  have "isoformat t \<noteq> []" by (simp add: isoformat_split)
  then show ?thesis
    by (simp add: parse_iso_def py_strip_isoformat zulu_replace_id [OF isoformat_no_Z]
        fromisoformat_isoformat [OF assms])
qed

section \<open>Text order of printed instants\<close>

lemma same_append_less [simp]: "(xs @ ys < xs @ zs) = (ys < (zs :: 'a::linorder list))"
  by (induction xs) auto

lemma append_less_left:
  "length xs = length ys \<Longrightarrow> xs < ys \<Longrightarrow> xs @ u < ys @ (v :: 'a::linorder list)"
  by (induction xs ys rule: list_induct2) auto

lemma digit_char_less: "0 \<le> a \<Longrightarrow> a < b \<Longrightarrow> b \<le> 9 \<Longrightarrow> digit_char a < digit_char b"
  by (simp add: less_char_def chr_code_digit_char)

lemma pad_digits_less:
  "0 \<le> a \<Longrightarrow> a < b \<Longrightarrow> b < 10 ^ k \<Longrightarrow> pad_digits k a < pad_digits k b"
proof (induction k arbitrary: a b)
  case (Suc k)
  show ?case
  proof (cases "a div 10 < b div 10")
    case True
    have "0 \<le> a div 10" "b div 10 < 10 ^ k" using Suc.prems by auto
    then have "pad_digits k (a div 10) < pad_digits k (b div 10)" using True Suc.IH by blast
    then show ?thesis by (simp add: append_less_left)
  next
    case False
    have "a div 10 \<le> b div 10" using Suc.prems by (intro zdiv_mono1) auto
    with False have e: "a div 10 = b div 10" by simp
    then have "a mod 10 < b mod 10"
      using div_mult_mod_eq [of a 10] div_mult_mod_eq [of b 10] Suc.prems(2) by linarith
    then have "digit_char (a mod 10) < digit_char (b mod 10)"
      by (intro digit_char_less) auto
    then show ?thesis by (simp add: e)
  qed
qed simp

lemma pad_digits_append_less:
  assumes "0 \<le> a" "b < 10 ^ k" "a < b \<or> a = b \<and> x < y"
  shows "pad_digits k a @ x < pad_digits k b @ y"
  using assms(3) pad_digits_less [OF assms(1) _ assms(2)] by (auto simp: append_less_left)

lemma date_isoformat_less:
  assumes "1 \<le> n" "n < n'" "n' \<le> max_ordinal"
  shows "date_isoformat n < date_isoformat n'"
proof -
  obtain y m d where a: "ord2ymd n = (y, m, d)" by (cases "ord2ymd n") auto
  obtain y' m' d' where b: "ord2ymd n' = (y', m', d')" by (cases "ord2ymd n'") auto
  have va: "valid_ymd y m d" using ord2ymd_correct [OF _ _ a] assms by auto
  have vb: "valid_ymd y' m' d'" using ord2ymd_correct [OF _ _ b] assms by auto
  have lt: "y < y' \<or> y = y' \<and> (m < m' \<or> m = m' \<and> d < d')"
    using ord2ymd_less [OF assms] unfolding a b by (auto simp: order_le_less)
  have r: "0 \<le> y" "y' < 10 ^ 4" "0 \<le> m" "m' < 10 ^ 2" "0 \<le> d" "d' < 10 ^ 2"
    using va vb by (auto simp: valid_ymd_def days_in_month_def split: if_splits)
  have "pad_digits 4 y @ (''-'' @ pad_digits 2 m @ ''-'' @ pad_digits 2 d) <
        pad_digits 4 y' @ (''-'' @ pad_digits 2 m' @ ''-'' @ pad_digits 2 d')"
    by (rule pad_digits_append_less [OF r(1,2)])
       (use lt pad_digits_append_less [OF r(3,4)] pad_digits_less [OF r(5) _ r(6)] in auto)
  then show ?thesis by (simp add: date_isoformat_def a b)
qed

lemma mixed_radix_less:
  fixes a b x y k :: int
  assumes "a * k + x < b * k + y" "0 \<le> x" "y < k" "0 \<le> k"
  shows "a < b \<or> a = b \<and> x < y"
proof -
  have "\<not> b < a"
  proof
    assume "b < a"
    then have "(b + 1) * k \<le> a * k" using assms by (intro mult_right_mono) auto
    then show False using assms by (simp add: algebra_simps)
  qed
  then show ?thesis using assms(1) by auto
qed

lemma iso_time_part_less:
  assumes "0 \<le> r" "r < r'" "r' < day_us"
  shows "iso_time_part r @ ''+00:00'' < iso_time_part r' @ ''+00:00''"
proof -
  define sec sec' where sec: "sec = r div 1000000" "sec' = r' div 1000000"
  define us us' where us: "us = r mod 1000000" "us' = r' mod 1000000"
  have s: "0 \<le> sec" "sec' < 86400" using assms by (auto simp: sec day_us_def)
  define h h' where h: "h = sec div 3600" "h' = sec' div 3600"
  define m m' where m: "m = sec div 60 mod 60" "m' = sec' div 60 mod 60"
  define c c' where c: "c = sec mod 60" "c' = sec' mod 60"
  have e: "r = (h * 3600 + m * 60 + c) * 1000000 + us" "r' = (h' * 3600 + m' * 60 + c') * 1000000 + us'"
    by (simp_all only: h m c hms_recompose us sec div_mult_mod_eq)
  have b: "0 \<le> h" "h' < 10 ^ 2" "0 \<le> m" "m \<le> 59" "0 \<le> m'" "m' < 10 ^ 2" "0 \<le> c" "c \<le> 59" "0 \<le> c'" "c' < 10 ^ 2"
    "0 \<le> us" "us < 10 ^ 6" "0 \<le> us'" "us' < 10 ^ 6" "m' < 60" "c' < 60" "us' < 1000000"
    using s hms_bounds(2,3) [of sec] pos_mod_bound [of 60 "sec' div 60"] pos_mod_bound [of 60 "sec'"]
    by (auto simp: h m c us)
  have lt: "h < h' \<or> h = h' \<and> (m < m' \<or> m = m' \<and> (c < c' \<or> c = c' \<and> us < us'))"
    using mixed_radix_less [of "h * 3600 + m * 60 + c" 1000000 us _ us']
      mixed_radix_less [of "h * 60 + m" 60 c "h' * 60 + m'" c']
      mixed_radix_less [of h 60 m h' m'] assms(2) b unfolding e by (auto simp: algebra_simps)
  let ?f = "\<lambda>u. (if u = 0 then [] else ''.'' @ pad_digits 6 u) @ ''+00:00''"
  have f: "?f us < ?f us'" if "us < us'"
    using that b(11) pad_digits_append_less [OF b(11,14)] by (auto simp: less_char_def)
  have "pad_digits 2 h @ '':'' @ pad_digits 2 m @ '':'' @ pad_digits 2 c @ ?f us <
        pad_digits 2 h' @ '':'' @ pad_digits 2 m' @ '':'' @ pad_digits 2 c' @ ?f us'"
    by (rule pad_digits_append_less [OF b(1,2)])
       (use lt f pad_digits_append_less [OF b(3,6)] pad_digits_append_less [OF b(7,10)] in \<open>auto simp del: append_assoc\<close>)
  then show ?thesis
    by (simp add: iso_time_part_def Let_def sec [symmetric] us [symmetric] h [symmetric] m [symmetric] c [symmetric])
qed

theorem isoformat_less:
  assumes "0 \<le> t" "t < t'" "t' < max_instant"
  shows "isoformat t < isoformat t'"
proof -
  have day: "0 < day_us" by (simp add: day_us_def)
  have n: "1 \<le> t div day_us + 1" using assms(1) day by (simp add: pos_imp_zdiv_nonneg_iff)
  have n': "t' div day_us + 1 \<le> max_ordinal"
    using assms(3) by (simp add: max_instant_def max_ordinal_def day_us_def)
  have le: "t div day_us \<le> t' div day_us" using assms(2) day by (intro zdiv_mono1) auto
  show ?thesis
  proof (cases "t div day_us = t' div day_us")
    case True
    have "t mod day_us < t' mod day_us"
      using assms(2) div_mult_mod_eq [of t day_us] div_mult_mod_eq [of t' day_us]
      unfolding True by linarith
    then have "iso_time_part (t mod day_us) @ ''+00:00'' < iso_time_part (t' mod day_us) @ ''+00:00''"
      using day by (intro iso_time_part_less) simp_all
    then show ?thesis by (simp add: isoformat_split True)
  next
    case False
    with le have "date_isoformat (t div day_us + 1) < date_isoformat (t' div day_us + 1)"
      using n n' by (intro date_isoformat_less) simp_all
    then show ?thesis unfolding isoformat_split by (intro append_less_left) simp_all
  qed
qed

lemma isoformat_le_iff:
  assumes "0 \<le> t" "t < max_instant" "0 \<le> t'" "t' < max_instant"
  shows "isoformat t \<le> isoformat t' \<longleftrightarrow> t \<le> t'"
  using isoformat_less [of t t'] isoformat_less [of t' t] assms
  by (metis linorder_not_le order_le_less order_less_le)

text \<open>A timestamp the engine stores is read back exactly.  For every UTC instant of the
  years 1 to 9999, to the microsecond, \<open>parse_iso\<close> of the stored text returns that instant;
  in particular the reader never rejects what the writer produced.\<close>
theorem stored_instant_round_trip:
  assumes "0 \<le> t" "t < max_instant"
  shows "parse_iso (Some (utcnow_iso t)) = Some t"
  using parse_iso_isoformat_aux [OF assms] by (simp add: utcnow_iso_def)

theorem stored_instant_round_trip_witness:
  "parse_iso (Some (utcnow_iso 63933418245000001)) = Some 63933418245000001"
  by (rule stored_instant_round_trip) (simp_all add: max_instant_def max_ordinal_def day_us_def)

text \<open>The text comparisons the SQL statements make on stored timestamps are comparisons of
  time.  For instants of the years 1 to 9999 the texts compare (as SQLite compares TEXT)
  exactly as the instants do, although a whole second is printed without a fraction.\<close>
theorem stored_instant_text_order:
  assumes "0 \<le> t" "t < max_instant" "0 \<le> u" "u < max_instant"
  shows "(utcnow_iso t \<le> utcnow_iso u \<longleftrightarrow> t \<le> u) \<and> (utcnow_iso t < utcnow_iso u \<longleftrightarrow> t < u)"
  using isoformat_le_iff [OF assms] isoformat_le_iff [OF assms(3,4,1,2)]
  by (simp only: utcnow_iso_def not_le [symmetric] simp_thms)

theorem stored_instant_text_order_witness:
  "(utcnow_iso 63933418245000000 \<le> utcnow_iso 63933418245000001 \<longleftrightarrow> (63933418245000000::int) \<le> 63933418245000001) \<and>
   (utcnow_iso 63933418245000000 < utcnow_iso 63933418245000001 \<longleftrightarrow> (63933418245000000::int) < 63933418245000001)"
  by (rule stored_instant_text_order) (simp_all add: max_instant_def max_ordinal_def day_us_def)

end
