(* ===== verification/Cost_Model.thy ===== *)
theory Cost_Model
  imports SO_Prelude
begin

text \<open>
  \<open>saberops/capacity/cost_model.py\<close>: the learned per-job cost model.  Percentages are
  exact rationals (\<open>float\<close> rounding is not modelled).  \<open>cost_update\<close> is the module's \<open>update\<close>
  and folds one observed sample into an exponentially weighted average; \<open>cost_estimate\<close>
  answers with the packaged prior until three samples were seen.
\<close>

named_theorems cost_simps \<open>evaluation of the cost model\<close>

datatype size_bucket = Bucket_S | Bucket_M | Bucket_L

definition bucket_value :: "size_bucket \<Rightarrow> string" where
  "bucket_value b = (case b of Bucket_S \<Rightarrow> ''S'' | Bucket_M \<Rightarrow> ''M'' | Bucket_L \<Rightarrow> ''L'')"

definition coerce_bucket :: "string \<Rightarrow> py_error + size_bucket" where
  "coerce_bucket s =
     (if s = ''S'' then Inr Bucket_S else if s = ''M'' then Inr Bucket_M
      else if s = ''L'' then Inr Bucket_L
      else Inl (ValueError ''unknown size bucket''))"

definition ALPHA :: rat where "ALPHA = 3 / 10"
definition MIN_SAMPLES :: int where "MIN_SAMPLES = 3"
definition PRIOR_SPREAD_FRACTION :: rat where "PRIOR_SPREAD_FRACTION = 1 / 2"
definition LEARNED_SPREAD_FRACTION :: rat where "LEARNED_SPREAD_FRACTION = 1 / 4"

type_synonym by_bucket = "rat \<times> rat \<times> rat"

definition PRIORS :: "(string \<times> by_bucket) list" where
  \<comment> \<open>\<open>_PRIORS\<close>, one row per window id, in the order S, M, L\<close>
  "PRIORS =
     [(''5h'', (3, 8, 15)), (''session'', (3, 8, 15)), (''daily'', (2, 5, 10)),
      (''weekly'', (1, 5 / 2, 5)), (''app-weekly'', (1, 5 / 2, 5)),
      (''monthly'', (3 / 10, 8 / 10, 15 / 10))]"

definition FALLBACK_WINDOW :: string where "FALLBACK_WINDOW = ''5h''"

definition of_bucket :: "by_bucket \<Rightarrow> size_bucket \<Rightarrow> rat" where
  "of_bucket row b = (case row of (s, m, l) \<Rightarrow>
     (case b of Bucket_S \<Rightarrow> s | Bucket_M \<Rightarrow> m | Bucket_L \<Rightarrow> l))"

definition prior_pct :: "string \<Rightarrow> size_bucket \<Rightarrow> rat" where
  "prior_pct window_id b =
     (case dict_get PRIORS (py_lower (py_strip window_id)) of
        Some row \<Rightarrow> of_bucket row b
      | None \<Rightarrow> (case dict_get PRIORS FALLBACK_WINDOW of Some row \<Rightarrow> of_bucket row b | None \<Rightarrow> 0))"

record cost_state =
  samples :: int
  ewma_pct :: "rat option"

record cost_estimate_t =
  est_pct :: rat
  est_spread :: rat
  est_learned :: bool

definition cost_update :: "cost_state option \<Rightarrow> rat \<Rightarrow> py_error + cost_state" where
  \<comment> \<open>\<open>update\<close>\<close>
  "cost_update st sample =
     (if sample < 0 then Inl (ValueError ''cost sample must be non-negative'')
      else let n = (case st of None \<Rightarrow> 0 | Some s \<Rightarrow> samples s);
               previous = (case st of None \<Rightarrow> None | Some s \<Rightarrow> ewma_pct s)
           in (case previous of
                 None \<Rightarrow> Inr \<lparr>samples = n + 1, ewma_pct = Some sample\<rparr>
               | Some p \<Rightarrow>
                   if n \<le> 0 then Inr \<lparr>samples = n + 1, ewma_pct = Some sample\<rparr>
                   else Inr \<lparr>samples = n + 1, ewma_pct = Some (ALPHA * sample + (1 - ALPHA) * p)\<rparr>))"

definition cost_estimate :: "cost_state option \<Rightarrow> string \<Rightarrow> size_bucket \<Rightarrow> cost_estimate_t" where
  "cost_estimate st window_id b =
     (let prior = prior_pct window_id b;
          from_prior = \<lparr>est_pct = prior, est_spread = PRIOR_SPREAD_FRACTION * prior, est_learned = False\<rparr>
      in case st of
           None \<Rightarrow> from_prior
         | Some s \<Rightarrow>
             (case ewma_pct s of
                None \<Rightarrow> from_prior
              | Some e \<Rightarrow>
                  if MIN_SAMPLES \<le> samples s
                  then \<lparr>est_pct = e, est_spread = LEARNED_SPREAD_FRACTION * e, est_learned = True\<rparr>
                  else from_prior))"

definition validate_route :: "string \<Rightarrow> py_error + string" where
  "validate_route route =
     (let text = py_strip route;
          err = Inl (ValueError ''route must be a non-empty provider/model id'')
      in if text = [] \<or> \<not> py_contains ''/'' text then err
         else if py_strip (py_before CHR ''/'' text) = [] \<or> py_strip (py_after CHR ''/'' text) = [] then err
         else Inr text)"

fun cost_fold :: "cost_state option \<Rightarrow> rat list \<Rightarrow> py_error + cost_state option" where
  \<comment> \<open>a history of samples folded one after the other, as successive probe intervals do\<close>
  "cost_fold st [] = Inr st"
| "cost_fold st (x # xs) =
     (case cost_update st x of Inl e \<Rightarrow> Inl e | Inr s \<Rightarrow> cost_fold (Some s) xs)"

section \<open>Bounds\<close>

lemmas cost_defs = cost_update_def cost_estimate_def ALPHA_def MIN_SAMPLES_def
  PRIOR_SPREAD_FRACTION_def LEARNED_SPREAD_FRACTION_def

lemma coerce_bucket_value [cost_simps]: "coerce_bucket (bucket_value b) = Inr b"
  by (cases b) (simp_all add: coerce_bucket_def bucket_value_def)

lemma PRIORS_range: "\<forall>r \<in> set PRIORS. \<forall>b. 0 < of_bucket (snd r) b \<and> of_bucket (snd r) b \<le> 15"
  by (auto simp: PRIORS_def of_bucket_def split: size_bucket.split)

lemma of_bucket_range:
  "dict_get PRIORS w = Some row \<Longrightarrow> 0 < of_bucket row b \<and> of_bucket row b \<le> 15"
  using PRIORS_range dict_get_Some_in [of PRIORS w row] by fastforce

lemma prior_pct_range: "0 < prior_pct w b \<and> prior_pct w b \<le> 15"
proof (cases "dict_get PRIORS (py_lower (py_strip w))")
  case None
  have "dict_get PRIORS FALLBACK_WINDOW = Some (3, 8, 15)" by (simp add: PRIORS_def FALLBACK_WINDOW_def)
  then show ?thesis using of_bucket_range [of FALLBACK_WINDOW] None by (simp add: prior_pct_def)
qed (simp add: prior_pct_def of_bucket_range)

definition cost_state_ok :: "rat \<Rightarrow> rat \<Rightarrow> cost_state option \<Rightarrow> bool" where
  \<comment> \<open>the average lies in the interval and was computed from at least one sample\<close>
  "cost_state_ok lo hi st = (case st of None \<Rightarrow> True | Some s \<Rightarrow>
     0 < samples s \<and> (case ewma_pct s of None \<Rightarrow> False | Some e \<Rightarrow> lo \<le> e \<and> e \<le> hi))"

lemma ewma_between:
  fixes x p :: rat
  assumes "lo \<le> x" "x \<le> hi" "lo \<le> p" "p \<le> hi"
  shows "lo \<le> ALPHA * x + (1 - ALPHA) * p" "ALPHA * x + (1 - ALPHA) * p \<le> hi"
  using assms by (simp_all add: ALPHA_def field_simps)

lemma cost_update_ok:
  assumes "0 \<le> lo" "lo \<le> x" "x \<le> hi" "cost_state_ok lo hi st"
  shows "\<exists>s. cost_update st x = Inr s \<and> cost_state_ok lo hi (Some s)
             \<and> samples s = (case st of None \<Rightarrow> 0 | Some t \<Rightarrow> samples t) + 1"
  using assms ewma_between
  by (auto simp: cost_update_def cost_state_ok_def Let_def split: option.splits)

lemma cost_fold_ok:
  assumes "0 \<le> lo" "\<forall>x \<in> set xs. lo \<le> x \<and> x \<le> hi" "cost_state_ok lo hi st"
  shows "\<exists>r. cost_fold st xs = Inr r \<and> cost_state_ok lo hi r
             \<and> (xs \<noteq> [] \<longrightarrow> (\<exists>s. r = Some s \<and>
                  samples s = (case st of None \<Rightarrow> 0 | Some t \<Rightarrow> samples t) + int (length xs)))"
  using assms(2,3)
proof (induction xs arbitrary: st)
  case (Cons x xs)
  obtain s where s: "cost_update st x = Inr s" "cost_state_ok lo hi (Some s)"
    "samples s = (case st of None \<Rightarrow> 0 | Some t \<Rightarrow> samples t) + 1"
    using cost_update_ok [OF assms(1) _ _ Cons.prems(2), of x] Cons.prems(1) by auto
  show ?case using Cons.IH [of "Some s"] Cons.prems(1) s
    by (cases xs) (auto split: option.splits)
qed simp

text \<open>Learning converges inside the evidence.  Folding any history of at least three
  samples that all lie in an interval (with a non-negative lower end) never raises, counts every
  sample, and leaves the average in that interval; the estimate then
  answered to admission is that average, marked as learned, with a quarter of it as spread.\<close>
theorem learned_estimate_within_samples:
  assumes "0 \<le> lo" "\<forall>x \<in> set xs. lo \<le> x \<and> x \<le> hi" "3 \<le> length xs"
  shows "\<exists>s e. cost_fold None xs = Inr (Some s) \<and> samples s = int (length xs) \<and>
           ewma_pct s = Some e \<and> lo \<le> e \<and> e \<le> hi \<and>
           cost_estimate (Some s) w b = \<lparr>est_pct = e, est_spread = e / 4, est_learned = True\<rparr>"
proof -
  have "xs \<noteq> []" using assms(3) by auto
  then obtain s where s: "cost_fold None xs = Inr (Some s)" "cost_state_ok lo hi (Some s)"
    "samples s = int (length xs)"
    using cost_fold_ok [OF assms(1,2), of None] by (auto simp: cost_state_ok_def)
  then obtain e where "ewma_pct s = Some e" "lo \<le> e" "e \<le> hi"
    by (auto simp: cost_state_ok_def split: option.splits)
  then show ?thesis using s assms(3) by (auto simp: cost_defs Let_def)
qed

theorem learned_estimate_within_samples_witness:
  "\<exists>s e. cost_fold None [2, 4, 10] = Inr (Some s) \<and> samples s = int (length [2 :: rat, 4, 10]) \<and>
           ewma_pct s = Some e \<and> 2 \<le> e \<and> e \<le> 10 \<and>
           cost_estimate (Some s) ''weekly'' Bucket_M = \<lparr>est_pct = e, est_spread = e / 4, est_learned = True\<rparr>"
  by (rule learned_estimate_within_samples) simp_all

lemma cost_estimate_range:
  assumes "cost_state_ok 0 100 st"
  shows "0 \<le> est_pct (cost_estimate st w b)" "est_pct (cost_estimate st w b) \<le> 100"
    and "0 \<le> est_spread (cost_estimate st w b)"
    and "est_spread (cost_estimate st w b) \<le> est_pct (cost_estimate st w b)"
  using assms prior_pct_range [of w b]
  by (auto simp: cost_defs Let_def cost_state_ok_def split: option.splits)

lemma validate_route_idem: "validate_route r = Inr t \<Longrightarrow> t = py_strip r \<and> t \<noteq> []"
  by (auto simp: validate_route_def Let_def split: if_splits)

end
