(* ===== verification/Exclusions.thy ===== *)
theory Exclusions
  imports Py_Time
begin

text \<open>
  \<open>saberops/capacity/exclusions.py\<close>: the pure rules on one pool exclusion (when it denies,
  when it expires, which of two wins), with the clock as an argument in microseconds.
  A row of \<open>capacity_exclusions\<close> is a record; its timestamps stay texts.
\<close>

named_theorems exclusion_simps \<open>evaluation of the exclusion rules\<close>

record exclusion_row =
  exc_id :: string
  exc_pool_id :: string
  exc_window_id :: string
  exc_model_scope :: "string option"
  exc_reason :: string
  exc_until :: "string option"
  exc_until_confidence :: string
  exc_source :: string
  exc_evidence_ref :: "string option"
  exc_run_id :: "string option"
  exc_created_at :: string
  exc_next_probe_at :: "string option"
  exc_probe_attempts :: int
  exc_cleared_at :: "string option"
  exc_cleared_by :: "string option"
  exc_legacy :: bool

datatype exclusion_status = ACTIVE | EXPIRED | PROBE_DUE | CLEARED

definition confidence_rank :: "string \<Rightarrow> int" where
  \<comment> \<open>\<open>CONFIDENCE_RANK.get(c, 0)\<close>\<close>
  "confidence_rank c =
     (if c = ''UNKNOWN'' then 0 else if c = ''HINT'' then 1 else if c = ''PARSED'' then 2
      else if c = ''EXACT'' then 3 else 0)"

definition window_duration_min :: "string \<Rightarrow> int option" where
  "window_duration_min w =
     (if w = ''5h'' then Some 300 else if w = ''daily'' then Some 1440
      else if w = ''weekly'' then Some 10080 else if w = ''monthly'' then Some 43200 else None)"

definition minutes :: "int \<Rightarrow> int" where
  \<comment> \<open>\<open>timedelta(minutes=n)\<close> in microseconds\<close>
  "minutes n = n * 60000000"

definition SKEW :: int where "SKEW = minutes 2"

definition window_cap_min :: "string \<Rightarrow> int" where
  "window_cap_min w = (case window_duration_min (py_lower w) of None \<Rightarrow> 360 | Some d \<Rightarrow> min d 360)"

definition backoff_next_probe :: "int \<Rightarrow> int \<Rightarrow> string \<Rightarrow> int" where
  "backoff_next_probe created attempts w =
     (let delay = 15 * 2 ^ nat (max 0 attempts) in created + minutes (min delay (window_cap_min w)))"

definition exc_confidence :: "exclusion_row \<Rightarrow> string" where
  \<comment> \<open>\<open>str(exc.get("until_confidence") or "UNKNOWN").upper()\<close>\<close>
  "exc_confidence e = py_upper (or_text (Some (exc_until_confidence e)) ''UNKNOWN'')"

definition exclusion_state :: "exclusion_row \<Rightarrow> int \<Rightarrow> exclusion_status" where
  "exclusion_state e now =
     (if truthy (exc_cleared_at e) then CLEARED
      else let confidence = exc_confidence e; until = parse_iso (exc_until e) in
      if confidence = ''EXACT'' \<or> confidence = ''PARSED'' then
        (case until of None \<Rightarrow> PROBE_DUE | Some u \<Rightarrow> if now < u + SKEW then ACTIVE else EXPIRED)
      else if confidence = ''HINT'' then
        (case until of
           None \<Rightarrow> (case parse_iso (exc_next_probe_at e) of
                      None \<Rightarrow> PROBE_DUE | Some n \<Rightarrow> if now < n then ACTIVE else PROBE_DUE)
         | Some u \<Rightarrow> if now < u then ACTIVE else PROBE_DUE)
      else
        (case parse_iso (exc_next_probe_at e) of
           Some n \<Rightarrow> if now < n then ACTIVE else PROBE_DUE
         | None \<Rightarrow>
             (case parse_iso (Some (exc_created_at e)) of
                None \<Rightarrow> PROBE_DUE
              | Some created \<Rightarrow>
                  if now < backoff_next_probe created (exc_probe_attempts e) (exc_window_id e)
                  then ACTIVE else PROBE_DUE)))"

definition is_excluding :: "exclusion_row \<Rightarrow> int \<Rightarrow> bool" where
  "is_excluding e now = (exclusion_state e now = ACTIVE \<or> exclusion_state e now = PROBE_DUE)"

definition merge_wins :: "exclusion_row \<Rightarrow> exclusion_row \<Rightarrow> bool" where
  "merge_wins old new =
     (let old_rank = confidence_rank (exc_confidence old); new_rank = confidence_rank (exc_confidence new) in
      if new_rank \<noteq> old_rank then old_rank < new_rank
      else case parse_iso (exc_until old) of
        None \<Rightarrow> (case parse_iso (exc_until new) of
                   None \<Rightarrow> exc_created_at old \<le> exc_created_at new
                 | Some _ \<Rightarrow> True)
      | Some ou \<Rightarrow> (case parse_iso (exc_until new) of None \<Rightarrow> False | Some nu \<Rightarrow> ou \<le> nu))"

definition model_scope_matches :: "string option \<Rightarrow> string \<Rightarrow> bool" where
  "model_scope_matches scope model =
     (case scope of None \<Rightarrow> True
      | Some s \<Rightarrow> if s = [] then True else py_contains (py_lower s) (py_lower model))"

section \<open>Expiry\<close>

lemma is_excluding_iff: "is_excluding e now \<longleftrightarrow> exclusion_state e now \<noteq> CLEARED \<and> exclusion_state e now \<noteq> EXPIRED"
  by (cases "exclusion_state e now") (simp_all add: is_excluding_def)

lemma exclusion_state_CLEARED [exclusion_simps]:
  "exclusion_state e now = CLEARED \<longleftrightarrow> truthy (exc_cleared_at e)"
  by (auto simp: exclusion_state_def Let_def split: option.splits if_splits)

lemma exclusion_state_EXPIRED [exclusion_simps]:
  "exclusion_state e now = EXPIRED \<longleftrightarrow>
     \<not> truthy (exc_cleared_at e) \<and> exc_confidence e \<in> {''EXACT'', ''PARSED''} \<and>
     (\<exists>u. parse_iso (exc_until e) = Some u \<and> u + SKEW \<le> now)"
  by (auto simp: exclusion_state_def Let_def not_less split: option.splits if_splits)

text \<open>An exclusion fails closed.  It stops denying exactly when it was cleared, or when its
  confidence is EXACT or PARSED and its parsed end lies at least the two-minute skew in the
  past; a hint, an unknown end or an unreadable timestamp never lifts it by the passing of
  time, and once it has stopped denying it never denies again at a later time.\<close>
theorem exclusion_fails_closed:
  "(is_excluding e now \<longleftrightarrow>
      \<not> truthy (exc_cleared_at e) \<and>
      \<not> (exc_confidence e \<in> {''EXACT'', ''PARSED''} \<and>
         (\<exists>u. parse_iso (exc_until e) = Some u \<and> u + minutes 2 \<le> now)))
   \<and> (is_excluding e (now + int d) \<longrightarrow> is_excluding e now)"
proof -
  have iff: "is_excluding e t \<longleftrightarrow> \<not> truthy (exc_cleared_at e) \<and>
      \<not> (exc_confidence e \<in> {''EXACT'', ''PARSED''} \<and>
         (\<exists>u. parse_iso (exc_until e) = Some u \<and> u + minutes 2 \<le> t))" for t
    unfolding is_excluding_iff exclusion_simps SKEW_def by blast
  show ?thesis unfolding iff by fastforce
qed

definition sample_exclusion :: exclusion_row where
  "sample_exclusion = \<lparr>exc_id = ''exc_1'', exc_pool_id = ''codex'', exc_window_id = ''5h'', exc_model_scope = None,
     exc_reason = ''PLAN_EXHAUSTED'', exc_until = Some ''2026-10-20T10:00:00+00:00'',
     exc_until_confidence = ''PARSED'', exc_source = ''plan-exhaustion'', exc_evidence_ref = None,
     exc_run_id = Some ''run-1'', exc_created_at = ''2026-10-20T05:00:00+00:00'', exc_next_probe_at = None,
     exc_probe_attempts = 0, exc_cleared_at = None, exc_cleared_by = None, exc_legacy = False\<rparr>"

lemma sample_exclusion_boundary:
  "is_excluding sample_exclusion 63928087319999999" "\<not> is_excluding sample_exclusion 63928087320000000"
  by code_simp+

theorem exclusion_fails_closed_witness:
  "(is_excluding sample_exclusion 63928087200000000 \<longleftrightarrow>
      \<not> truthy (exc_cleared_at sample_exclusion) \<and>
      \<not> (exc_confidence sample_exclusion \<in> {''EXACT'', ''PARSED''} \<and>
         (\<exists>u. parse_iso (exc_until sample_exclusion) = Some u \<and> u + minutes 2 \<le> 63928087200000000)))
   \<and> is_excluding sample_exclusion 63928087200000000"
proof -
  have "is_excluding sample_exclusion (63928087200000000 + int 119999999)"
    using sample_exclusion_boundary(1) by simp
  then show ?thesis
    using exclusion_fails_closed [where e = sample_exclusion and now = 63928087200000000 and d = 119999999] by blast
qed

section \<open>Backoff\<close>

lemma window_cap_min_range: "300 \<le> window_cap_min w \<and> window_cap_min w \<le> 360"
  by (auto simp: window_cap_min_def window_duration_min_def split: option.splits if_splits)

lemma backoff_ge_first: "15 \<le> 15 * (2 :: int) ^ n"
  by (simp add: one_le_power)

text \<open>The probe backoff of an exclusion of unknown length is bounded and grows.  Whatever
  the number of attempts recorded, the next probe lies at least 15 minutes and at most six
  hours (five for a 5h window) after the creation, a negative count behaves as zero, and
  more attempts never bring the probe forward.\<close>
theorem backoff_bounded_monotone:
  "created + minutes 15 \<le> backoff_next_probe created a w
   \<and> backoff_next_probe created a w \<le> created + minutes (if py_lower w = ''5h'' then 300 else 360)
   \<and> backoff_next_probe created a w \<le> backoff_next_probe created (a + int k) w
   \<and> backoff_next_probe created (- int k) w = backoff_next_probe created 0 w"
proof -
  have "15 * (2::int) ^ nat (max 0 a) \<le> 15 * 2 ^ nat (max 0 (a + int k))"
    by (intro mult_left_mono power_increasing) auto
  then have mono: "min (15 * 2 ^ nat (max 0 a)) (window_cap_min w) \<le> min (15 * 2 ^ nat (max 0 (a + int k))) (window_cap_min w)"
    by (intro min.mono order_refl)
  have cap: "window_cap_min w \<le> (if py_lower w = ''5h'' then 300 else 360)"
    using window_cap_min_range [of w] by (auto simp: window_cap_min_def window_duration_min_def)
  show ?thesis
    using mono cap window_cap_min_range [of w] backoff_ge_first [of "nat (max 0 a)"]
    by (auto simp: backoff_next_probe_def minutes_def Let_def)
qed

section \<open>Which exclusion wins\<close>

definition merge_key :: "exclusion_row \<Rightarrow> int \<times> int \<times> int \<times> string" where
  \<comment> \<open>the specification: rank first, then a known end before an unknown one, the later end,
     and the later creation when both ends are unknown\<close>
  "merge_key e = (confidence_rank (exc_confidence e),
     (case parse_iso (exc_until e) of None \<Rightarrow> (0, 0, exc_created_at e) | Some u \<Rightarrow> (1, u, [])))"

lemma merge_wins_key: "merge_wins old new \<longleftrightarrow> merge_key old \<le> merge_key new"
  by (auto simp: merge_wins_def merge_key_def Let_def order_le_less split: option.splits)

text \<open>The merge of two exclusions of one key is a comparison of keys.  \<open>merge_wins\<close> says that
  the new row replaces the old one exactly when the new row's (confidence rank, end known,
  end, creation time) is not below the old row's; so it is reflexive, total and
  transitive, and a replacement never lowers the confidence.\<close>
theorem merge_wins_total_preorder:
  "(merge_wins old new \<longleftrightarrow> merge_key old \<le> merge_key new)
   \<and> (merge_wins old new \<or> merge_wins new old)
   \<and> (merge_wins old mid \<and> merge_wins mid new \<longrightarrow> merge_wins old new)
   \<and> (merge_wins old new \<longrightarrow> confidence_rank (exc_confidence old) \<le> confidence_rank (exc_confidence new))"
proof -
  have "merge_key old \<le> merge_key new \<Longrightarrow> confidence_rank (exc_confidence old) \<le> confidence_rank (exc_confidence new)"
    by (auto simp: merge_key_def order_le_less)
  then show ?thesis unfolding merge_wins_key by (auto intro: order_trans)
qed

theorem merge_wins_total_preorder_witness:
  "(merge_wins sample_exclusion (sample_exclusion\<lparr>exc_until_confidence := ''EXACT''\<rparr>) \<longleftrightarrow>
      merge_key sample_exclusion \<le> merge_key (sample_exclusion\<lparr>exc_until_confidence := ''EXACT''\<rparr>))
   \<and> (merge_wins sample_exclusion (sample_exclusion\<lparr>exc_until_confidence := ''EXACT''\<rparr>) \<or>
      merge_wins (sample_exclusion\<lparr>exc_until_confidence := ''EXACT''\<rparr>) sample_exclusion)
   \<and> confidence_rank (exc_confidence sample_exclusion) \<le>
      confidence_rank (exc_confidence (sample_exclusion\<lparr>exc_until_confidence := ''EXACT''\<rparr>))"
proof -
  have "merge_wins sample_exclusion (sample_exclusion\<lparr>exc_until_confidence := ''EXACT''\<rparr>)" by code_simp
  then show ?thesis
    using merge_wins_total_preorder [where old = sample_exclusion and mid = sample_exclusion
      and new = "sample_exclusion\<lparr>exc_until_confidence := ''EXACT''\<rparr>"] by blast
qed

end
