(* ===== verification/Exclusion_Store.thy ===== *)
theory Exclusion_Store
  imports Exclusions
begin

text \<open>
  \<open>saberops/capacity/store.py\<close>: the tables \<open>capacity_exclusions\<close> and
  \<open>capacity_probe_runs\<close> of the owner database, as lists in insertion order, and every
  operation on them.  One operation is one committed transaction; the random part of a new
  row id is the argument \<open>fresh\<close>, and a clash with a stored id is the primary key's
  \<open>IntegrityError\<close> with nothing written.
\<close>

record probe_run =
  pr_id :: int
  pr_harness :: string
  pr_started_at :: string
  pr_ok :: bool
  pr_error_code :: "string option"

record exclusion_store =
  exclusions :: "exclusion_row list"
  probe_runs :: "probe_run list"

record exclusion_args =
  ua_pool_id :: string
  ua_window_id :: string
  ua_reason :: string
  ua_until :: "int option"
  ua_until_confidence :: string
  ua_source :: string
  ua_model_scope :: "string option"
  ua_evidence_ref :: "string option"
  ua_run_id :: "string option"

type_synonym exclusion_key = "string \<times> string \<times> string option"

abbreviation exclusion_key_of :: "exclusion_row \<Rightarrow> exclusion_key" where
  "exclusion_key_of r \<equiv> (exc_pool_id r, exc_window_id r, exc_model_scope r)"

definition norm_window :: "string \<Rightarrow> string" where
  \<comment> \<open>\<open>(window_id or "ALL").strip() or "ALL"\<close>\<close>
  "norm_window w = (let t = py_strip (if w = [] then ''ALL'' else w) in if t = [] then ''ALL'' else t)"

definition norm_scope :: "string option \<Rightarrow> string option" where
  "norm_scope s = (case s of None \<Rightarrow> None | Some t \<Rightarrow> if t = [] \<or> py_strip t = [] then None else Some (py_strip t))"

definition norm_confidence :: "string \<Rightarrow> string" where
  "norm_confidence c =
     (let t = py_upper (py_strip (if c = [] then ''UNKNOWN'' else c))
      in if t = ''EXACT'' \<or> t = ''PARSED'' \<or> t = ''HINT'' \<or> t = ''UNKNOWN'' then t else ''UNKNOWN'')"

definition store_iso :: "int option \<Rightarrow> string option" where
  \<comment> \<open>\<open>_iso\<close>\<close>
  "store_iso t = map_option isoformat t"

definition exclusions_for :: "exclusion_key \<Rightarrow> exclusion_row list \<Rightarrow> exclusion_row list" where
  "exclusions_for k rows = filter (\<lambda>r. exclusion_key_of r = k \<and> exc_cleared_at r = None) rows"

definition last_cleared :: "exclusion_key \<Rightarrow> exclusion_row list \<Rightarrow> exclusion_row option" where
  \<comment> \<open>\<open>ORDER BY cleared_at DESC LIMIT 1\<close>\<close>
  "last_cleared k rows =
     max_by (\<lambda>r. or_text (exc_cleared_at r) [])
       (filter (\<lambda>r. exclusion_key_of r = k \<and> exc_cleared_at r \<noteq> None) rows)"

definition continued_attempts :: "exclusion_key \<Rightarrow> exclusion_row list \<Rightarrow> int \<Rightarrow> int" where
  \<comment> \<open>attempts of the last row of the key when it was cleared at most 24 hours ago\<close>
  "continued_attempts k rows now =
     (case last_cleared k rows of None \<Rightarrow> 0
      | Some prev \<Rightarrow>
          (case parse_iso (exc_cleared_at prev) of None \<Rightarrow> 0
           | Some cleared \<Rightarrow> if now - cleared \<le> minutes (24 * 60) then exc_probe_attempts prev else 0))"

definition clear_rows :: "(exclusion_row \<Rightarrow> bool) \<Rightarrow> string \<Rightarrow> string \<Rightarrow> exclusion_row list \<Rightarrow> exclusion_row list" where
  \<comment> \<open>\<open>UPDATE ... SET cleared_at = ?, cleared_by = ? WHERE p\<close>\<close>
  "clear_rows p ts by rows =
     map (\<lambda>r. if p r then r\<lparr>exc_cleared_at := Some ts, exc_cleared_by := Some by\<rparr> else r) rows"

definition new_exclusion_row :: "exclusion_args \<Rightarrow> string \<Rightarrow> int \<Rightarrow> exclusion_row list \<Rightarrow> exclusion_row" where
  "new_exclusion_row a fresh now rows =
     (let pool = py_strip (ua_pool_id a); window = norm_window (ua_window_id a);
          scope = norm_scope (ua_model_scope a); confidence = norm_confidence (ua_until_confidence a);
          until = store_iso (ua_until a); k = (pool, window, scope);
          existing = exclusions_for k rows;
          attempts = (if existing = [] then continued_attempts k rows now else 0);
          probe0 = (if confidence = ''UNKNOWN'' \<or> confidence = ''HINT'' \<and> until = None
                    then store_iso (Some (backoff_next_probe now 0 window)) else None);
          probe = (if existing = [] \<and> confidence = ''UNKNOWN''
                   then store_iso (Some (backoff_next_probe now attempts window)) else probe0)
      in \<lparr>exc_id = fresh, exc_pool_id = pool, exc_window_id = window, exc_model_scope = scope,
          exc_reason = ua_reason a, exc_until = until, exc_until_confidence = confidence,
          exc_source = ua_source a, exc_evidence_ref = ua_evidence_ref a, exc_run_id = ua_run_id a,
          exc_created_at = isoformat now, exc_next_probe_at = probe, exc_probe_attempts = attempts,
          exc_cleared_at = None, exc_cleared_by = None, exc_legacy = False\<rparr>)"

definition upsert_exclusion ::
  "exclusion_args \<Rightarrow> string \<Rightarrow> int \<Rightarrow> exclusion_store \<Rightarrow> (py_error + exclusion_row) \<times> exclusion_store" where
  "upsert_exclusion a fresh now st =
     (let rows = exclusions st; new = new_exclusion_row a fresh now rows;
          existing = exclusions_for (exclusion_key_of new) rows
      in case find (\<lambda>old. \<not> merge_wins old new) existing of
           Some old \<Rightarrow> (Inr old, st)
         | None \<Rightarrow>
             if \<exists>r \<in> set rows. exc_id r = fresh then (Inl (IntegrityError ''capacity_exclusions.id''), st)
             else (Inr new, st\<lparr>exclusions :=
               clear_rows (\<lambda>r. exc_id r \<in> set (map exc_id existing)) (isoformat now) ''SUPERSEDED'' rows @ [new]\<rparr>))"

definition list_active_exclusions :: "bool \<Rightarrow> int \<Rightarrow> exclusion_store \<Rightarrow> exclusion_row list \<times> exclusion_store" where
  \<comment> \<open>the flag says that the database is open read-only\<close>
  "list_active_exclusions read_only now st =
     (let rows = sort_key (\<lambda>r. (exc_created_at r, exc_id r)) (filter (\<lambda>r. exc_cleared_at r = None) (exclusions st));
          expired = filter (\<lambda>r. exclusion_state r now = EXPIRED) rows
      in (filter (\<lambda>r. exclusion_state r now = ACTIVE \<or> exclusion_state r now = PROBE_DUE) rows,
          if read_only then st
          else st\<lparr>exclusions := clear_rows (\<lambda>r. exc_id r \<in> set (map exc_id expired))
                                 (isoformat now) ''EXPIRED'' (exclusions st)\<rparr>))"

definition clear_exclusion :: "string \<Rightarrow> string \<Rightarrow> int \<Rightarrow> exclusion_store \<Rightarrow> exclusion_store" where
  "clear_exclusion i by now st =
     st\<lparr>exclusions := clear_rows (\<lambda>r. exc_id r = i \<and> exc_cleared_at r = None) (isoformat now) by (exclusions st)\<rparr>"

definition clear_pool_exclusions ::
  "string \<Rightarrow> string option \<Rightarrow> string \<Rightarrow> int \<Rightarrow> exclusion_store \<Rightarrow> nat \<times> exclusion_store" where
  "clear_pool_exclusions pool window by now st =
     (let p = (\<lambda>r. exc_pool_id r = pool \<and> (case window of None \<Rightarrow> True | Some w \<Rightarrow> exc_window_id r = w) \<and>
                   exc_cleared_at r = None)
      in (length (filter p (exclusions st)), st\<lparr>exclusions := clear_rows p (isoformat now) by (exclusions st)\<rparr>))"

definition bump_probe_attempt :: "string \<Rightarrow> int \<Rightarrow> exclusion_store \<Rightarrow> exclusion_store" where
  "bump_probe_attempt i now st =
     (case find (\<lambda>r. exc_id r = i) (exclusions st) of None \<Rightarrow> st
      | Some e \<Rightarrow>
          (let attempts = exc_probe_attempts e + 1;
               created = (case parse_iso (Some (exc_created_at e)) of None \<Rightarrow> now | Some c \<Rightarrow> c);
               nxt = store_iso (Some (backoff_next_probe created attempts (exc_window_id e)))
           in st\<lparr>exclusions := map (\<lambda>r. if exc_id r = i then r\<lparr>exc_probe_attempts := attempts, exc_next_probe_at := nxt\<rparr> else r)
                                (exclusions st)\<rparr>))"

definition record_probe_run :: "string \<Rightarrow> bool \<Rightarrow> string option \<Rightarrow> int \<Rightarrow> exclusion_store \<Rightarrow> exclusion_store" where
  "record_probe_run harness ok err now st =
     (let i = foldr (\<lambda>r m. max (pr_id r) m) (probe_runs st) 0 + 1
      in st\<lparr>probe_runs := probe_runs st @ [\<lparr>pr_id = i, pr_harness = harness, pr_started_at = isoformat now,
                                             pr_ok = ok, pr_error_code = err\<rparr>]\<rparr>)"

definition last_probe_run :: "string \<Rightarrow> exclusion_store \<Rightarrow> probe_run option" where
  "last_probe_run harness st =
     max_by (\<lambda>r. (pr_started_at r, pr_id r)) (filter (\<lambda>r. pr_harness r = harness) (probe_runs st))"

definition probe_allowed :: "string \<Rightarrow> int \<Rightarrow> bool \<Rightarrow> exclusion_store \<Rightarrow> bool" where
  "probe_allowed harness now hint_due st =
     (if hint_due then True
      else case last_probe_run harness st of None \<Rightarrow> True
      | Some prev \<Rightarrow>
          (case parse_iso (Some (pr_started_at prev)) of None \<Rightarrow> True
           | Some started \<Rightarrow> minutes 10 \<le> now - started))"

section \<open>At most one active row per key\<close>

abbreviation exc_active :: "exclusion_row \<Rightarrow> bool" where
  "exc_active r \<equiv> exc_cleared_at r = None"

definition exclusion_inv :: "exclusion_row list \<Rightarrow> bool" where
  "exclusion_inv rows = (distinct (map exc_id rows) \<and> distinct (map exclusion_key_of (filter exc_active rows)))"

lemma map_clear_rows [simp]: "map exc_id (clear_rows p ts by rows) = map exc_id rows"
  by (induction rows) (simp_all add: clear_rows_def)

lemma clear_rows_active: "filter exc_active (clear_rows p ts by rows) = filter (\<lambda>r. exc_active r \<and> \<not> p r) rows"
  by (induction rows) (auto simp: clear_rows_def)

lemma distinct_filter_sub:
  "distinct (map f (filter P xs)) \<Longrightarrow> distinct (map f (filter (\<lambda>x. P x \<and> Q x) xs))"
  using distinct_map_filter [of f "filter P xs" Q] by (simp add: filter_filter conj_commute)

lemma clear_rows_inv: "exclusion_inv rows \<Longrightarrow> exclusion_inv (clear_rows p ts by rows)"
  by (simp add: exclusion_inv_def clear_rows_active distinct_filter_sub)

lemma exclusions_for_clear:
  "exclusions_for k (clear_rows p ts by rows) = filter (\<lambda>r. \<not> p r) (exclusions_for k rows)"
  by (induction rows) (auto simp: clear_rows_def exclusions_for_def)

lemma exclusions_for_in: "r \<in> set (exclusions_for k rows) \<longleftrightarrow> r \<in> set rows \<and> exclusion_key_of r = k \<and> exc_active r"
  by (auto simp: exclusions_for_def)

lemma exc_id_inj:
  "exclusion_inv rows \<Longrightarrow> r \<in> set rows \<Longrightarrow> s \<in> set rows \<Longrightarrow> exc_id r = exc_id s \<Longrightarrow> r = s"
  by (auto simp: exclusion_inv_def distinct_map dest: inj_onD)

lemma distinct_key_count: "distinct (map f xs) \<Longrightarrow> length (filter (\<lambda>r. f r = k) xs) \<le> 1"
proof (induction xs)
  case (Cons a xs)
  have "filter (\<lambda>r. f r = k) xs = []" if "f a = k"
    using Cons.prems that by (simp add: filter_empty_conv image_iff) metis
  then show ?case using Cons by auto
qed simp

lemma exclusions_for_le_one:
  assumes "exclusion_inv rows"
  shows "length (exclusions_for k rows) \<le> 1"
proof -
  have "exclusions_for k rows = filter (\<lambda>r. exclusion_key_of r = k) (filter exc_active rows)"
    by (simp add: exclusions_for_def conj_commute)
  then show ?thesis
    using distinct_key_count [of exclusion_key_of "filter exc_active rows" k] assms
    unfolding exclusion_inv_def by presburger
qed

lemma new_row_key [simp]:
  "exc_id (new_exclusion_row a fresh now rows) = fresh" "exc_active (new_exclusion_row a fresh now rows)"
  "exclusion_key_of (new_exclusion_row a fresh now rows) =
     (py_strip (ua_pool_id a), norm_window (ua_window_id a), norm_scope (ua_model_scope a))"
  by (simp_all add: new_exclusion_row_def Let_def)

lemma find_None_all: "find P xs = None \<longleftrightarrow> (\<forall>x \<in> set xs. \<not> P x)"
  by (auto simp: find_None_iff)

lemma find_Some_in: "find P xs = Some x \<Longrightarrow> x \<in> set xs \<and> P x"
  by (auto simp: find_Some_iff)

lemma superseded_cleared:
  assumes "exclusion_inv rows"
  shows "exclusions_for k' (clear_rows (\<lambda>r. exc_id r \<in> set (map exc_id (exclusions_for k rows))) ts by rows) =
           (if k' = k then [] else exclusions_for k' rows)"
proof (cases "k' = k")
  case True
  then show ?thesis by (auto simp: exclusions_for_clear filter_empty_conv)
next
  case False
  have "exc_id r \<notin> set (map exc_id (exclusions_for k rows))" if "r \<in> set (exclusions_for k' rows)" for r
  proof
    assume "exc_id r \<in> set (map exc_id (exclusions_for k rows))"
    then obtain s where s: "s \<in> set (exclusions_for k rows)" "exc_id r = exc_id s" by (auto simp del: set_filter)
    then have "r = s" using that exc_id_inj [OF assms] unfolding exclusions_for_in by blast
    then show False using s(1) that False unfolding exclusions_for_in by simp
  qed
  then show ?thesis using False by (simp add: exclusions_for_clear filter_id_conv del: set_map)
qed

lemma upsert_inv: "exclusion_inv (exclusions st) \<Longrightarrow> exclusion_inv (exclusions (snd (upsert_exclusion a fresh now st)))"
proof -
  assume inv: "exclusion_inv (exclusions st)"
  let ?rows = "exclusions st" and ?new = "new_exclusion_row a fresh now (exclusions st)"
  let ?c = "clear_rows (\<lambda>r. exc_id r \<in> set (map exc_id (exclusions_for (exclusion_key_of ?new) ?rows))) (isoformat now) ''SUPERSEDED'' ?rows"
  have "exclusions_for (exclusion_key_of ?new) ?c = []" using superseded_cleared [OF inv] by simp
  then have "exclusion_key_of ?new \<notin> exclusion_key_of ` set (filter exc_active ?c)"
    by (auto simp: exclusions_for_def filter_empty_conv)
  then have "exclusion_inv (?c @ [?new])" if "fresh \<notin> exc_id ` set ?rows"
    using that clear_rows_inv [OF inv] map_clear_rows [of _ _ _ ?rows]
    unfolding exclusion_inv_def by (simp add: image_iff)
  then show ?thesis using inv
    by (auto simp: upsert_exclusion_def Let_def image_iff split: option.splits)
qed

section \<open>Every reachable store\<close>

inductive exclusion_step :: "exclusion_store \<Rightarrow> exclusion_store \<Rightarrow> bool" where
  step_upsert: "exclusion_step st (snd (upsert_exclusion a fresh now st))"
| step_list: "exclusion_step st (snd (list_active_exclusions ro now st))"
| step_clear: "exclusion_step st (clear_exclusion i by now st)"
| step_clear_pool: "exclusion_step st (snd (clear_pool_exclusions pool window by now st))"
| step_bump: "exclusion_step st (bump_probe_attempt i now st)"
| step_probe: "exclusion_step st (record_probe_run harness ok err now st)"

inductive_cases exclusion_stepE: "exclusion_step st st'"

inductive exclusion_reachable :: "exclusion_store \<Rightarrow> bool" where
  reach_init: "exclusion_reachable \<lparr>exclusions = [], probe_runs = []\<rparr>"
| reach_step: "exclusion_reachable st \<Longrightarrow> exclusion_step st st' \<Longrightarrow> exclusion_reachable st'"

lemma map_same_key_inv:
  assumes "\<And>r. exc_id (f r) = exc_id r" "\<And>r. exclusion_key_of (f r) = exclusion_key_of r"
    "\<And>r. exc_cleared_at (f r) = exc_cleared_at r"
  shows "exclusion_inv (map f rows) = exclusion_inv rows"
proof -
  have "map exc_id (map f rows) = map exc_id rows" using assms(1) by simp
  moreover have "map exclusion_key_of (filter exc_active (map f rows)) = map exclusion_key_of (filter exc_active rows)"
    by (induction rows) (use assms in auto)
  ultimately show ?thesis unfolding exclusion_inv_def by presburger
qed

lemma bump_inv: "exclusion_inv (exclusions st) \<Longrightarrow> exclusion_inv (exclusions (bump_probe_attempt i now st))"
proof (cases "find (\<lambda>r. exc_id r = i) (exclusions st)")
  case (Some e)
  assume "exclusion_inv (exclusions st)"
  then show ?thesis
    by (simp add: bump_probe_attempt_def Some Let_def) (subst map_same_key_inv; simp)
qed (simp add: bump_probe_attempt_def)

lemma exclusion_step_inv: "exclusion_step st st' \<Longrightarrow> exclusion_inv (exclusions st) \<Longrightarrow> exclusion_inv (exclusions st')"
  by (erule exclusion_stepE)
     (simp_all add: upsert_inv bump_inv clear_rows_inv list_active_exclusions_def clear_exclusion_def
        clear_pool_exclusions_def record_probe_run_def Let_def)

interpretation excl_steps: stepwise exclusion_step "\<lambda>st. exclusion_inv (exclusions st)"
  by unfold_locales (rule exclusion_step_inv)

lemma reachable_inv: "exclusion_reachable st \<Longrightarrow> exclusion_inv (exclusions st)"
proof (induction rule: exclusion_reachable.induct)
  case reach_init
  then show ?case by (simp add: exclusion_inv_def)
next
  case (reach_step st st')
  then show ?case by (blast intro: exclusion_step_inv)
qed

text \<open>At most one exclusion is active per (pool, window, model scope).  In every store the
  operations can produce from the empty one, in any order and with any arguments, row ids
  are unique and no two rows that are not cleared share a key.\<close>
theorem one_active_exclusion_per_key:
  assumes "exclusion_reachable st"
  shows "distinct (map exc_id (exclusions st)) \<and> length (exclusions_for k (exclusions st)) \<le> 1"
  using reachable_inv [OF assms] exclusions_for_le_one by (auto simp: exclusion_inv_def)

definition empty_exclusions :: exclusion_store where
  "empty_exclusions = \<lparr>exclusions = [], probe_runs = []\<rparr>"

definition sample_args :: exclusion_args where
  "sample_args = \<lparr>ua_pool_id = '' codex '', ua_window_id = [], ua_reason = ''PLAN_EXHAUSTED'', ua_until = None,
     ua_until_confidence = ''hint'', ua_source = ''cli'', ua_model_scope = Some [], ua_evidence_ref = None,
     ua_run_id = None\<rparr>"

theorem one_active_exclusion_per_key_witness:
  "distinct (map exc_id (exclusions (snd (upsert_exclusion sample_args ''exc_a'' 0 empty_exclusions)))) \<and>
   length (exclusions_for (''codex'', ''ALL'', None)
     (exclusions (snd (upsert_exclusion sample_args ''exc_a'' 0 empty_exclusions)))) \<le> 1"
  unfolding empty_exclusions_def
  by (rule one_active_exclusion_per_key, rule reach_step [OF reach_init], rule step_upsert)

text \<open>An upsert leaves exactly the stronger exclusion in force.  On a store with at most one
  active row per key, a successful upsert returns the only active row of its key, this row is
  at least as strong as the offered row and as every row that was active for the key, and
  the active rows of every other key are untouched.\<close>
theorem upsert_keeps_the_stronger:
  assumes "exclusion_inv (exclusions st)" "upsert_exclusion a fresh now st = (Inr r, st')"
    "new = new_exclusion_row a fresh now (exclusions st)" "k = exclusion_key_of new"
  shows "exclusions_for k (exclusions st') = [r]
    \<and> merge_key new \<le> merge_key r
    \<and> (\<forall>old \<in> set (exclusions_for k (exclusions st)). merge_key old \<le> merge_key r)
    \<and> (\<forall>k'. k' \<noteq> k \<longrightarrow> exclusions_for k' (exclusions st') = exclusions_for k' (exclusions st))"
proof (cases "find (\<lambda>old. \<not> merge_wins old new) (exclusions_for k (exclusions st))")
  case None
  have st': "r = new" "exclusions st' = clear_rows (\<lambda>r. exc_id r \<in> set (map exc_id (exclusions_for k (exclusions st))))
      (isoformat now) ''SUPERSEDED'' (exclusions st) @ [new]"
    using assms(2) None unfolding assms(3,4) upsert_exclusion_def by (auto simp: Let_def split: if_splits)
  have e: "exclusions_for k' (exclusions st') =
      (if k' = k then [new] else exclusions_for k' (exclusions st))" for k'
  proof -
    have "exclusions_for k' (xs @ [new]) = exclusions_for k' xs @ (if k' = k then [new] else [])" for xs
      by (auto simp: exclusions_for_def assms(3,4))
    then show ?thesis unfolding st' using superseded_cleared [OF assms(1), of k' k] by simp
  qed
  show ?thesis using None unfolding e st'(1) find_None_all merge_wins_key by simp
next
  case (Some old)
  have r: "r = old" "st' = st" using assms(2) Some unfolding assms(3,4) upsert_exclusion_def by (auto simp: Let_def)
  have in_old: "old \<in> set (exclusions_for k (exclusions st))" and w: "\<not> merge_wins old new"
    using find_Some_in [OF Some] by auto
  have "exclusions_for k (exclusions st) = [old]"
    using exclusions_for_le_one [OF assms(1), of k] in_old by (cases "exclusions_for k (exclusions st)") auto
  then show ?thesis using w unfolding r merge_wins_key by simp
qed

theorem upsert_keeps_the_stronger_witness:
  "\<exists>r st'. upsert_exclusion (sample_args\<lparr>ua_until_confidence := ''EXACT''\<rparr>) ''exc_b'' 1
      (snd (upsert_exclusion sample_args ''exc_a'' 0 empty_exclusions)) = (Inr r, st')
    \<and> exclusions_for (''codex'', ''ALL'', None) (exclusions st') = [r] \<and> exc_id r = ''exc_b''"
proof -
  let ?st = "snd (upsert_exclusion sample_args ''exc_a'' 0 empty_exclusions)"
  let ?a = "sample_args\<lparr>ua_until_confidence := ''EXACT''\<rparr>"
  have inv: "exclusion_inv (exclusions ?st)" by (intro upsert_inv) (simp add: exclusion_inv_def empty_exclusions_def)
  have "(case upsert_exclusion ?a ''exc_b'' 1 ?st of (Inr r, _) \<Rightarrow> exc_id r = ''exc_b'' | _ \<Rightarrow> False)" by code_simp
  then obtain r st' where u: "upsert_exclusion ?a ''exc_b'' 1 ?st = (Inr r, st')" "exc_id r = ''exc_b''"
    by (auto split: prod.splits sum.splits)
  have k: "(''codex'', ''ALL'', None) = exclusion_key_of (new_exclusion_row ?a ''exc_b'' 1 (exclusions ?st))"
    by code_simp
  show ?thesis using upsert_keeps_the_stronger [OF inv u(1) refl k] u by blast
qed

lemma list_active_sound:
  "r \<in> set (fst (list_active_exclusions ro now st)) \<longleftrightarrow>
     r \<in> set (exclusions st) \<and> exc_active r \<and> is_excluding r now"
  by (auto simp: list_active_exclusions_def Let_def is_excluding_def)

text \<open>Listing the active exclusions changes nothing but what has run out.  The answer is
  sorted by creation time and id and holds exactly the uncleared rows that deny now; the
  rows still uncleared afterwards are exactly those that were not EXPIRED; a read-only
  listing writes nothing.\<close>
theorem list_active_exact:
  assumes "exclusion_inv (exclusions st)" "list_active_exclusions ro now st = (active, st')"
  shows "set active = {r \<in> set (exclusions st). exc_cleared_at r = None \<and> is_excluding r now}
    \<and> sorted (map (\<lambda>r. (exc_created_at r, exc_id r)) active)
    \<and> (\<not> ro \<longrightarrow> filter exc_active (exclusions st') =
                filter (\<lambda>r. exc_active r \<and> exclusion_state r now \<noteq> EXPIRED) (exclusions st))
    \<and> (ro \<longrightarrow> st' = st)"
proof -
  have id: "exc_id r \<in> exc_id ` {s \<in> set (exclusions st). exc_active s \<and> exclusion_state s now = EXPIRED} \<longleftrightarrow>
      exclusion_state r now = EXPIRED" if "r \<in> set (exclusions st)" "exc_active r" for r
    using that exc_id_inj [OF assms(1)] unfolding image_iff by blast
  have 1: "sorted (map f (filter P (sort_key f xs)))" for f :: "exclusion_row \<Rightarrow> string \<times> string" and P xs
    by (simp add: filter_sort)
  have 2: "set active = {r \<in> set (exclusions st). exc_cleared_at r = None \<and> is_excluding r now}"
    using list_active_sound [of _ ro now st] by (auto simp: assms(2))
  have 3: "filter exc_active (exclusions st') =
                filter (\<lambda>r. exc_active r \<and> exclusion_state r now \<noteq> EXPIRED) (exclusions st)" if "\<not> ro"
  proof -
    let ?E = "{s \<in> set (exclusions st). exc_active s \<and> exclusion_state s now = EXPIRED}"
    have "exclusions st' = clear_rows (\<lambda>r. exc_id r \<in> exc_id ` ?E) (isoformat now) ''EXPIRED'' (exclusions st)"
      using assms(2) that unfolding list_active_exclusions_def Let_def by auto
    then have "filter exc_active (exclusions st') = filter (\<lambda>r. exc_active r \<and> exc_id r \<notin> exc_id ` ?E) (exclusions st)"
      by (simp only: clear_rows_active)
    also have "\<dots> = filter (\<lambda>r. exc_active r \<and> exclusion_state r now \<noteq> EXPIRED) (exclusions st)"
      by (rule filter_cong) (use id in blast)+
    finally show ?thesis .
  qed
  show ?thesis using 1 2 3 assms(2) unfolding list_active_exclusions_def Let_def by auto
qed

theorem list_active_exact_witness:
  "\<exists>active st'. list_active_exclusions False 63928087320000000 \<lparr>exclusions = [sample_exclusion], probe_runs = []\<rparr> = (active, st')
     \<and> set active = {} \<and> filter exc_active (exclusions st') = []"
proof -
  have e: "exclusion_state sample_exclusion 63928087320000000 = EXPIRED" by code_simp
  obtain active st' where l: "list_active_exclusions False 63928087320000000 \<lparr>exclusions = [sample_exclusion], probe_runs = []\<rparr> = (active, st')"
    by fastforce
  have "exclusion_inv (exclusions \<lparr>exclusions = [sample_exclusion], probe_runs = []\<rparr>)" by (simp add: exclusion_inv_def)
  from list_active_exact [OF this l] e have "set active = {}" "filter exc_active (exclusions st') = []"
    by (auto simp: is_excluding_iff)
  with l show ?thesis by blast
qed

end
