(* ===== verification/Quota_Policy.thy ===== *)
theory Quota_Policy
  imports Exclusions
begin

text \<open>
  \<open>saberops/control_plane/quota_policy.py\<close> with the types it reads from
  \<open>saberops/models.py\<close>: worker candidates, quota states, pool policies, membership of a
  candidate in a pool and the red-line decision for one candidate.  A dictionary of
  policies is an association list in insertion order.  The re-construction of an already
  validated \<open>QuotaPoolPolicy\<close> inside \<open>quota_decision\<close> is the identity and is left out.
\<close>

named_theorems quota_simps \<open>evaluation of the quota policy\<close>

section \<open>Types\<close>

record worker_candidate =
  wc_provider :: string
  wc_model :: string
  wc_binding_id :: "string option"
  wc_training_required :: "string option"

datatype routing_state = RS_NORMAL | RS_DEMOTED | RS_BLOCKED

record quota_state =
  qs_provider :: string
  qs_pool :: string
  qs_remaining_percent :: "rat option"
  qs_reset_at :: "string option"
  qs_routing_state :: routing_state
  qs_updated_at :: string
  qs_pool_id :: "string option"
  qs_normalized_remaining_pct :: "rat option"
  qs_freshness :: "string option"
  qs_mode :: "string option"
  qs_red_line_pct :: "rat option"
  qs_exclusion_id :: "string option"
  qs_exclusion_until :: "string option"
  qs_exclusion_confidence :: "string option"
  qs_exclusion_model_scope :: "string option"

datatype quota_pool_mode = STRICT | RESERVE | UNENFORCED | OFF

definition quota_pool_mode_of :: "string \<Rightarrow> quota_pool_mode option" where
  \<comment> \<open>\<open>QuotaPoolMode(value)\<close> with its \<open>_missing_\<close> hook; \<open>None\<close> is the \<open>ValueError\<close>\<close>
  "quota_pool_mode_of v =
     (let c = py_upper (py_strip v) in
      if c = ''DISABLED'' then Some UNENFORCED
      else if c = ''STRICT'' then Some STRICT else if c = ''RESERVE'' then Some RESERVE
      else if c = ''UNENFORCED'' then Some UNENFORCED else if c = ''OFF'' then Some OFF else None)"

definition normalize_mode :: "string \<Rightarrow> quota_pool_mode" where
  "normalize_mode v = (case quota_pool_mode_of (py_upper (py_strip v)) of None \<Rightarrow> UNENFORCED | Some m \<Rightarrow> m)"

record quota_pool_policy =
  qp_pool_id :: string
  qp_mode :: quota_pool_mode
  qp_red_line_pct :: rat
  qp_members :: "string list"
  qp_overage_possible :: bool

definition quota_pool_policy_of ::
  "string \<Rightarrow> quota_pool_mode \<Rightarrow> rat \<Rightarrow> string list \<Rightarrow> bool \<Rightarrow> py_error + quota_pool_policy" where
  \<comment> \<open>the constructor with its \<open>__post_init__\<close> checks\<close>
  "quota_pool_policy_of pid m red mem ovr =
     (if \<not> (0 \<le> red \<and> red \<le> 100) then Inl (ValueError ''red_line_pct must be between 0 and 100'')
      else if py_strip pid = [] then Inl (ValueError ''pool_id must not be empty'')
      else Inr \<lparr>qp_pool_id = pid, qp_mode = m, qp_red_line_pct = red, qp_members = mem, qp_overage_possible = ovr\<rparr>)"

type_synonym pool_policies = "(string \<times> quota_pool_policy) list"

record quota_decision_t =
  qd_eligible :: bool
  qd_pool_id :: "string option"
  qd_remaining :: "rat option"
  qd_red_line_pct :: rat
  qd_mode :: quota_pool_mode
  qd_reason :: "string option"
  qd_reset_at :: "string option"

abbreviation QUOTA_EXCLUDED_UNTIL_RESET :: string where "QUOTA_EXCLUDED_UNTIL_RESET \<equiv> ''QUOTA_EXCLUDED_UNTIL_RESET''"
abbreviation QUOTA_EVIDENCE_REQUIRED :: string where "QUOTA_EVIDENCE_REQUIRED \<equiv> ''QUOTA_EVIDENCE_REQUIRED''"
abbreviation POOL_OFF :: string where "POOL_OFF \<equiv> ''POOL_OFF''"

section \<open>Pool membership\<close>

definition red_line_reason :: "string \<Rightarrow> string" where
  "red_line_reason pool_label =
     (let l = py_lower (py_strip pool_label) in
      if l \<in> {''5h'', ''five_hour'', ''five-hour'', ''session'', ''5-hour''} then ''RED_LINE_5H''
      else if l = ''daily'' then ''RED_LINE_DAILY'' else if l = ''weekly'' then ''RED_LINE_WEEKLY''
      else if l = ''monthly'' then ''RED_LINE_MONTHLY'' else ''RED_LINE'')"

definition candidate_provider :: "worker_candidate \<Rightarrow> string" where
  \<comment> \<open>\<open>candidate.provider.strip().lower()\<close>\<close>
  "candidate_provider c = py_lower (py_strip (wc_provider c))"

definition candidate_route :: "worker_candidate \<Rightarrow> string" where
  "candidate_route c = wc_provider c @ ''/'' @ wc_model c"

definition member_matches :: "string \<Rightarrow> worker_candidate \<Rightarrow> bool" where
  "member_matches member c =
     (let text = py_lower (py_strip member); route = py_lower (py_strip (candidate_route c)) in
      if py_endswith text ''/*'' then
        (let pre = take (length text - 2) text in
         if \<not> py_contains ''/'' pre then False
         else route = pre \<or> py_startswith route (pre @ ''/''))
      else text = route \<or> text = py_lower (py_strip (wc_model c)) \<or> text = candidate_provider c)"

definition state_pool :: "quota_state \<Rightarrow> string" where
  \<comment> \<open>\<open>getattr(state, "pool_id", None) or state.pool\<close>\<close>
  "state_pool s = or_text (qs_pool_id s) (qs_pool s)"

definition state_matches :: "quota_state \<Rightarrow> worker_candidate \<Rightarrow> quota_pool_policy \<Rightarrow> bool" where
  \<comment> \<open>\<open>_matches\<close>\<close>
  "state_matches s c p =
     (if state_pool s \<noteq> qp_pool_id p then False
      else if qp_members p \<noteq> [] then list_ex (\<lambda>m. member_matches m c) (qp_members p)
      else py_lower (qs_provider s) = py_lower (wc_provider c))"

definition pools_for :: "worker_candidate \<Rightarrow> pool_policies \<Rightarrow> string list" where
  "pools_for c policies =
     (let matched = map fst (filter (\<lambda>(pid, p). list_ex (\<lambda>m. member_matches m c) (qp_members p)) policies)
      in if policies = [] \<or> matched = [] then [candidate_provider c] else matched)"

section \<open>The decision\<close>

definition is_exclusion :: "quota_state \<Rightarrow> bool" where
  "is_exclusion s = truthy (qs_exclusion_id s)"

definition exclusion_applies :: "worker_candidate \<Rightarrow> string option \<Rightarrow> string list \<Rightarrow> quota_state \<Rightarrow> bool" where
  \<comment> \<open>the exclusion states that deny: in the binding's pool or a drawn pool, and the model in scope\<close>
  "exclusion_applies c pool_id drawn s =
     (is_exclusion s
      \<and> (case pool_id of Some p \<Rightarrow> state_pool s = p | None \<Rightarrow> state_pool s \<in> set drawn)
      \<and> model_scope_matches (qs_exclusion_model_scope s) (wc_model c))"

definition exclusion_until_raw :: "quota_state \<Rightarrow> string option" where
  "exclusion_until_raw s = (if truthy (qs_exclusion_until s) then qs_exclusion_until s else qs_reset_at s)"

fun best_exclusion :: "string option \<Rightarrow> int option \<Rightarrow> quota_state list \<Rightarrow> string option" where
  \<comment> \<open>the loop over the applying exclusions: the reset text reported and the latest parsed end\<close>
  "best_exclusion best dt [] = best"
| "best_exclusion best dt (s # ss) =
     (let raw = exclusion_until_raw s in
      if truthy raw
      then (case parse_iso raw of
              None \<Rightarrow> best_exclusion raw dt ss
            | Some u \<Rightarrow> (case dt of
                None \<Rightarrow> best_exclusion raw (Some u) ss
              | Some d \<Rightarrow> best_exclusion raw (if d < u then Some u else dt) ss))
      else best_exclusion best dt ss)"

definition exclusion_decision ::
  "pool_policies \<Rightarrow> string option \<Rightarrow> string list \<Rightarrow> quota_state list \<Rightarrow> quota_decision_t" where
  "exclusion_decision policies pool_id drawn hits =
     (let scope = (case pool_id of Some p \<Rightarrow> [p] | None \<Rightarrow> drawn);
          off = list_ex (\<lambda>pid. case dict_get policies pid of None \<Rightarrow> False | Some p \<Rightarrow> qp_mode p = OFF) scope
      in \<lparr>qd_eligible = False, qd_pool_id = (case scope of [] \<Rightarrow> None | p # _ \<Rightarrow> Some p),
          qd_remaining = Some 0, qd_red_line_pct = 15, qd_mode = (if off then OFF else UNENFORCED),
          qd_reason = Some QUOTA_EXCLUDED_UNTIL_RESET, qd_reset_at = best_exclusion None None hits\<rparr>)"

definition state_remaining :: "quota_state \<Rightarrow> rat option" where
  "state_remaining s = (case qs_normalized_remaining_pct s of Some r \<Rightarrow> Some r | None \<Rightarrow> qs_remaining_percent s)"

definition state_policy :: "pool_policies \<Rightarrow> string option \<Rightarrow> quota_state \<Rightarrow> py_error + quota_pool_policy option" where
  \<comment> \<open>the policy that governs a state; the default policy is constructed even when a
     declared one is found, so a state with a blank pool raises\<close>
  "state_policy policies pool_id s =
     (case pool_id of
        Some _ \<Rightarrow> Inr (dict_get policies (state_pool s))
      | None \<Rightarrow> (case quota_pool_policy_of (state_pool s) STRICT 15 [] False of
                   Inl e \<Rightarrow> Inl e
                 | Inr dflt \<Rightarrow> Inr (Some (case dict_get policies (state_pool s) of None \<Rightarrow> dflt | Some p \<Rightarrow> p))))"

definition own_policy :: "quota_state \<Rightarrow> quota_pool_policy \<Rightarrow> quota_pool_policy" where
  \<comment> \<open>mode and red line carried by the state itself, used when no policy is declared\<close>
  "own_policy s p =
     (if truthy (qs_mode s) then
        (case quota_pool_policy_of (state_pool s) (normalize_mode (the (qs_mode s)))
                (case qs_red_line_pct s of None \<Rightarrow> 15 | Some r \<Rightarrow> if r = 0 then 15 else r) [] False of
           Inl _ \<Rightarrow> p | Inr q \<Rightarrow> q)
      else p)"

datatype scan_result =
    Scan_raise py_error
  | Scan_deny quota_decision_t
  | Scan_end "(quota_state \<times> quota_pool_policy \<times> rat) list" "quota_pool_policy list"

fun scan_states ::
  "worker_candidate \<Rightarrow> pool_policies \<Rightarrow> string option \<Rightarrow> (quota_state \<times> quota_pool_policy \<times> rat) list
   \<Rightarrow> quota_pool_policy list \<Rightarrow> quota_state list \<Rightarrow> scan_result" where
  \<comment> \<open>the red-line loop: the matching fresh states and the policies without usable evidence\<close>
  "scan_states c policies pool_id matched nomatch [] = Scan_end (rev matched) (rev nomatch)"
| "scan_states c policies pool_id matched nomatch (s # ss) =
     (if is_exclusion s \<or> (case pool_id of None \<Rightarrow> False | Some p \<Rightarrow> state_pool s \<noteq> p)
      then scan_states c policies pool_id matched nomatch ss
      else case state_policy policies pool_id s of
        Inl e \<Rightarrow> Scan_raise e
      | Inr None \<Rightarrow> scan_states c policies pool_id matched nomatch ss
      | Inr (Some pol) \<Rightarrow>
          if \<not> state_matches s c pol then scan_states c policies pool_id matched nomatch ss
          else if qp_mode pol = OFF
          then Scan_deny \<lparr>qd_eligible = False, qd_pool_id = Some (state_pool s), qd_remaining = None,
                 qd_red_line_pct = qp_red_line_pct pol, qd_mode = OFF, qd_reason = Some POOL_OFF,
                 qd_reset_at = qs_reset_at s\<rparr>
          else
            (let fresh = py_upper (or_text (qs_freshness s) []);
                 pol' = (if policies = [] then own_policy s pol else pol)
             in case state_remaining s of
                  Some r \<Rightarrow>
                    if fresh = ''STALE'' \<or> fresh = ''UNKNOWN'' then
                      (if qp_overage_possible pol'
                       then Scan_deny \<lparr>qd_eligible = False, qd_pool_id = Some (state_pool s), qd_remaining = None,
                              qd_red_line_pct = qp_red_line_pct pol', qd_mode = qp_mode pol',
                              qd_reason = Some QUOTA_EVIDENCE_REQUIRED, qd_reset_at = qs_reset_at s\<rparr>
                       else scan_states c policies pool_id matched (pol' # nomatch) ss)
                    else scan_states c policies pool_id ((s, pol', r) # matched) nomatch ss
                | None \<Rightarrow>
                    if qp_overage_possible pol'
                    then Scan_deny \<lparr>qd_eligible = False, qd_pool_id = Some (state_pool s), qd_remaining = None,
                           qd_red_line_pct = qp_red_line_pct pol', qd_mode = qp_mode pol',
                           qd_reason = Some QUOTA_EVIDENCE_REQUIRED, qd_reset_at = qs_reset_at s\<rparr>
                    else scan_states c policies pool_id matched (pol' # nomatch) ss))"

definition red_line_decision :: "bool \<Rightarrow> quota_state \<times> quota_pool_policy \<times> rat \<Rightarrow> quota_decision_t" where
  "red_line_decision reserve_override m =
     (case m of (s, p, r) \<Rightarrow>
       (let ok = \<lparr>qd_eligible = True, qd_pool_id = Some (state_pool s), qd_remaining = Some r,
                  qd_red_line_pct = qp_red_line_pct p, qd_mode = qp_mode p, qd_reason = None,
                  qd_reset_at = qs_reset_at s\<rparr>
        in if qp_mode p = UNENFORCED then ok
           else if r < qp_red_line_pct p \<and> \<not> (qp_mode p = RESERVE \<and> reserve_override)
           then ok\<lparr>qd_eligible := False, qd_reason := Some (red_line_reason (qs_pool s))\<rparr>
           else ok))"

definition no_evidence_decision :: "quota_pool_policy list \<Rightarrow> quota_pool_policy list \<Rightarrow> quota_decision_t" where
  "no_evidence_decision drawn_policies nomatch =
     (let deny = (\<lambda>p. \<lparr>qd_eligible = False, qd_pool_id = Some (qp_pool_id p), qd_remaining = None,
                       qd_red_line_pct = qp_red_line_pct p, qd_mode = qp_mode p,
                       qd_reason = Some QUOTA_EVIDENCE_REQUIRED, qd_reset_at = None\<rparr>)
      in if list_ex qp_overage_possible drawn_policies then deny (hd drawn_policies)
         else case find qp_overage_possible nomatch of
           Some p \<Rightarrow> deny p
         | None \<Rightarrow> \<lparr>qd_eligible = True, qd_pool_id = None, qd_remaining = None, qd_red_line_pct = 15,
                    qd_mode = UNENFORCED, qd_reason = None, qd_reset_at = None\<rparr>)"

definition quota_decision ::
  "worker_candidate \<Rightarrow> quota_state list \<Rightarrow> pool_policies \<Rightarrow> bool \<Rightarrow> string option \<Rightarrow> py_error + quota_decision_t" where
  "quota_decision c states policies reserve_override pool_id =
     (let drawn = pools_for c policies; hits = filter (exclusion_applies c pool_id drawn) states in
      if hits \<noteq> [] then Inr (exclusion_decision policies pool_id drawn hits)
      else case scan_states c policies pool_id [] [] states of
        Scan_raise e \<Rightarrow> Inl e
      | Scan_deny d \<Rightarrow> Inr d
      | Scan_end matched nomatch \<Rightarrow>
          (case min_by (\<lambda>(s, p, r). r) matched of
             Some m \<Rightarrow> Inr (red_line_decision reserve_override m)
           | None \<Rightarrow> Inr (no_evidence_decision (List.map_filter (dict_get policies) drawn) nomatch)))"

section \<open>The loop, classified state by state\<close>

datatype state_class =
    Class_skip
  | Class_raise py_error
  | Class_deny quota_decision_t
  | Class_use quota_pool_policy rat
  | Class_no_evidence quota_pool_policy

definition evidence_denial :: "quota_state \<Rightarrow> quota_pool_policy \<Rightarrow> quota_decision_t" where
  "evidence_denial s p = \<lparr>qd_eligible = False, qd_pool_id = Some (state_pool s), qd_remaining = None,
     qd_red_line_pct = qp_red_line_pct p, qd_mode = qp_mode p,
     qd_reason = Some QUOTA_EVIDENCE_REQUIRED, qd_reset_at = qs_reset_at s\<rparr>"

definition off_denial :: "quota_state \<Rightarrow> quota_pool_policy \<Rightarrow> quota_decision_t" where
  "off_denial s p = \<lparr>qd_eligible = False, qd_pool_id = Some (state_pool s), qd_remaining = None,
     qd_red_line_pct = qp_red_line_pct p, qd_mode = OFF, qd_reason = Some POOL_OFF,
     qd_reset_at = qs_reset_at s\<rparr>"

definition stale_state :: "quota_state \<Rightarrow> bool" where
  "stale_state s = (py_upper (or_text (qs_freshness s) []) \<in> {''STALE'', ''UNKNOWN''} \<or> state_remaining s = None)"

definition classify_state ::
  "worker_candidate \<Rightarrow> pool_policies \<Rightarrow> string option \<Rightarrow> quota_state \<Rightarrow> state_class" where
  "classify_state c policies pool_id s =
     (if is_exclusion s \<or> (case pool_id of None \<Rightarrow> False | Some p \<Rightarrow> state_pool s \<noteq> p) then Class_skip
      else case state_policy policies pool_id s of
        Inl e \<Rightarrow> Class_raise e
      | Inr None \<Rightarrow> Class_skip
      | Inr (Some pol) \<Rightarrow>
          if \<not> state_matches s c pol then Class_skip
          else if qp_mode pol = OFF then Class_deny (off_denial s pol)
          else let pol' = (if policies = [] then own_policy s pol else pol) in
            if stale_state s
            then (if qp_overage_possible pol' then Class_deny (evidence_denial s pol') else Class_no_evidence pol')
            else Class_use pol' (the (state_remaining s)))"

lemma scan_states_Cons:
  "scan_states c policies pool_id ms ns (s # ss) =
     (case classify_state c policies pool_id s of
        Class_skip \<Rightarrow> scan_states c policies pool_id ms ns ss
      | Class_raise e \<Rightarrow> Scan_raise e
      | Class_deny d \<Rightarrow> Scan_deny d
      | Class_use p r \<Rightarrow> scan_states c policies pool_id ((s, p, r) # ms) ns ss
      | Class_no_evidence p \<Rightarrow> scan_states c policies pool_id ms (p # ns) ss)"
  by (auto simp: classify_state_def stale_state_def off_denial_def evidence_denial_def Let_def
           split: sum.splits option.splits)

definition usable_states ::
  "worker_candidate \<Rightarrow> pool_policies \<Rightarrow> string option \<Rightarrow> quota_state list \<Rightarrow> (quota_state \<times> quota_pool_policy \<times> rat) list" where
  "usable_states c policies pool_id ss =
     List.map_filter (\<lambda>s. case classify_state c policies pool_id s of Class_use p r \<Rightarrow> Some (s, p, r) | _ \<Rightarrow> None) ss"

lemma scan_states_end:
  "scan_states c policies pool_id ms ns ss = Scan_end ms' ns' \<Longrightarrow>
     ms' = rev ms @ usable_states c policies pool_id ss \<and>
     (\<forall>s \<in> set ss. \<forall>d e. classify_state c policies pool_id s \<noteq> Class_deny d \<and>
                       classify_state c policies pool_id s \<noteq> Class_raise e)"
proof (induction ss arbitrary: ms ns)
  case Nil
  then show ?case by (simp add: usable_states_def List.map_filter_def)
next
  case (Cons s ss)
  show ?case
  proof (cases "classify_state c policies pool_id s")
    case (Class_use p r)
    then have "scan_states c policies pool_id ((s, p, r) # ms) ns ss = Scan_end ms' ns'"
      using Cons.prems by (simp only: scan_states_Cons state_class.case)
    from Cons.IH [OF this] show ?thesis by (simp add: usable_states_def List.map_filter_simps Class_use)
  qed (use Cons.prems Cons.IH in \<open>auto simp: scan_states_Cons usable_states_def List.map_filter_simps simp del: scan_states.simps\<close>)
qed

lemma scan_states_deny: "scan_states c policies pool_id ms ns ss = Scan_deny d \<Longrightarrow> \<not> qd_eligible d"
proof (induction ss arbitrary: ms ns)
  case (Cons s ss)
  have "\<not> qd_eligible d'" if "classify_state c policies pool_id s = Class_deny d'" for d'
    using that by (auto simp: classify_state_def off_denial_def evidence_denial_def Let_def
        split: if_splits sum.splits option.splits)
  then show ?case
    using Cons.prems Cons.IH unfolding scan_states_Cons
    by (cases "classify_state c policies pool_id s") auto
qed simp

lemma usable_states_iff:
  "(s, p, r) \<in> set (usable_states c policies pool_id ss) \<longleftrightarrow>
     s \<in> set ss \<and> classify_state c policies pool_id s = Class_use p r"
  by (induction ss) (auto simp: usable_states_def List.map_filter_simps split: state_class.splits)

text \<open>What a positive quota decision guarantees.  If a candidate is found eligible, no
  exclusion applies to it (whatever the pool's mode and whatever the override), no state
  governing it belongs to a pool that is OFF or lacks fresh evidence in a pool that may
  overrun, and, when some fresh state governs it, the decision rests on the least remaining
  percentage of all of them: that state's policy is unenforced, or the percentage reaches its
  red line, or the pool is in reserve mode and the owner lifted the reserve.\<close>
theorem eligible_quota_decision:
  assumes "quota_decision c states policies reserve_override pool_id = Inr d" "qd_eligible d"
  shows "(\<forall>s \<in> set states. \<not> exclusion_applies c pool_id (pools_for c policies) s)
    \<and> (\<forall>s \<in> set states. \<forall>x. classify_state c policies pool_id s \<noteq> Class_deny x)
    \<and> (\<forall>s \<in> set states. \<forall>p r. classify_state c policies pool_id s = Class_use p r \<longrightarrow>
         (\<exists>s' \<in> set states. \<exists>p' r'. classify_state c policies pool_id s' = Class_use p' r' \<and> r' \<le> r
            \<and> qd_remaining d = Some r'
            \<and> (qp_mode p' = UNENFORCED \<or> qp_red_line_pct p' \<le> r' \<or> qp_mode p' = RESERVE \<and> reserve_override)))"
proof -
  let ?hits = "filter (exclusion_applies c pool_id (pools_for c policies)) states"
  have hits: "?hits = []"
    using assms by (auto simp: quota_decision_def Let_def exclusion_decision_def split: if_splits)
  obtain ms ns where e: "scan_states c policies pool_id [] [] states = Scan_end ms ns"
    using assms hits scan_states_deny
    by (cases "scan_states c policies pool_id [] [] states") (auto simp: quota_decision_def Let_def split: if_splits)
  note ms = scan_states_end [OF e]
  have use: "\<exists>s' \<in> set states. \<exists>p' r'. classify_state c policies pool_id s' = Class_use p' r' \<and> r' \<le> r
            \<and> qd_remaining d = Some r'
            \<and> (qp_mode p' = UNENFORCED \<or> qp_red_line_pct p' \<le> r' \<or> qp_mode p' = RESERVE \<and> reserve_override)"
    if "s \<in> set states" "classify_state c policies pool_id s = Class_use p r" for s p r
  proof -
    have mem: "(s, p, r) \<in> set ms" using that usable_states_iff ms by fastforce
    then obtain s' p' r' where m: "min_by (\<lambda>(s, p, r). r) ms = Some (s', p', r')"
      using min_by_some [of ms "\<lambda>(s, p, r). r"] by fastforce
    have "r' \<le> r" using min_by_le [OF m mem] by simp
    moreover have "s' \<in> set states" "classify_state c policies pool_id s' = Class_use p' r'"
      using min_by_in [OF m] ms usable_states_iff [of s' p' r'] by auto
    moreover have "d = red_line_decision reserve_override (s', p', r')"
      using assms(1) hits e m by (simp add: quota_decision_def Let_def)
    ultimately show ?thesis using assms(2)
      by (intro bexI [of _ s'] exI [of _ p'] exI [of _ r'])
         (auto simp: red_line_decision_def Let_def split: if_splits)
  qed
  show ?thesis using hits ms use by (auto simp: filter_empty_conv)
qed

definition sample_candidate :: worker_candidate where
  "sample_candidate = \<lparr>wc_provider = ''codex'', wc_model = ''gpt-5.6-terra'', wc_binding_id = None, wc_training_required = None\<rparr>"

definition sample_quota :: quota_state where
  "sample_quota = \<lparr>qs_provider = ''codex'', qs_pool = ''weekly'', qs_remaining_percent = Some 40, qs_reset_at = None,
     qs_routing_state = RS_NORMAL, qs_updated_at = ''2026-10-20T10:00:00+00:00'', qs_pool_id = Some ''chatgpt-plus'',
     qs_normalized_remaining_pct = None, qs_freshness = Some ''FRESH'', qs_mode = None, qs_red_line_pct = None,
     qs_exclusion_id = None, qs_exclusion_until = None, qs_exclusion_confidence = None,
     qs_exclusion_model_scope = None\<rparr>"

definition sample_policies :: pool_policies where
  "sample_policies = [(''chatgpt-plus'', \<lparr>qp_pool_id = ''chatgpt-plus'', qp_mode = STRICT, qp_red_line_pct = 15,
     qp_members = [''codex/*'', ''codex/gpt-5.6-terra''], qp_overage_possible = True\<rparr>)]"

theorem eligible_quota_decision_witness:
  "\<exists>d. quota_decision sample_candidate [sample_quota] sample_policies False None = Inr d \<and> qd_eligible d \<and>
     \<not> exclusion_applies sample_candidate None (pools_for sample_candidate sample_policies) sample_quota"
proof -
  have "(case quota_decision sample_candidate [sample_quota] sample_policies False None of Inr d \<Rightarrow> qd_eligible d | _ \<Rightarrow> False)"
    by code_simp
  then obtain d where d: "quota_decision sample_candidate [sample_quota] sample_policies False None = Inr d" "qd_eligible d"
    by (auto split: sum.splits)
  then show ?thesis using eligible_quota_decision [OF d] by auto
qed

section \<open>Which reset is reported\<close>

lemma best_exclusion_last:
  "best_exclusion best dt ss =
     (let xs = filter truthy (map exclusion_until_raw ss) in if xs = [] then best else last xs)"
  by (induction ss arbitrary: best dt) (auto simp: Let_def split: option.splits)

text \<open>The reset an excluded decision reports is the one of the last applying exclusion that
  carries a text, not the latest one: the loop assigns the text before it compares the
  parsed times.  With two exclusions of which the first ends later, the earlier end is
  reported.\<close>
theorem excluded_reset_is_last_not_latest:
  assumes "filter (exclusion_applies c pool_id (pools_for c policies)) states = pre @ [s]"
    "truthy (exclusion_until_raw s)"
  shows "\<exists>d. quota_decision c states policies ro pool_id = Inr d \<and> \<not> qd_eligible d \<and>
             qd_reason d = Some QUOTA_EXCLUDED_UNTIL_RESET \<and> qd_reset_at d = exclusion_until_raw s"
  using assms by (auto simp: quota_decision_def Let_def exclusion_decision_def best_exclusion_last)

definition sample_exclusion_state :: "string \<Rightarrow> string \<Rightarrow> quota_state" where
  "sample_exclusion_state i until = sample_quota\<lparr>qs_exclusion_id := Some i, qs_exclusion_until := Some until\<rparr>"

theorem excluded_reset_is_last_not_latest_witness:
  "\<exists>d. quota_decision sample_candidate
         [sample_exclusion_state ''a'' ''2026-10-21T00:00:00+00:00'', sample_exclusion_state ''b'' ''2026-10-20T00:00:00+00:00'']
         sample_policies False None = Inr d \<and> \<not> qd_eligible d \<and>
       qd_reason d = Some QUOTA_EXCLUDED_UNTIL_RESET \<and> qd_reset_at d = Some ''2026-10-20T00:00:00+00:00''"
proof -
  let ?s = "sample_exclusion_state ''a'' ''2026-10-21T00:00:00+00:00''"
  let ?t = "sample_exclusion_state ''b'' ''2026-10-20T00:00:00+00:00''"
  have "filter (exclusion_applies sample_candidate None (pools_for sample_candidate sample_policies)) [?s, ?t] = [?s] @ [?t]"
    by code_simp
  moreover have "truthy (exclusion_until_raw ?t)" "exclusion_until_raw ?t = Some ''2026-10-20T00:00:00+00:00''"
    by code_simp+
  ultimately show ?thesis using excluded_reset_is_last_not_latest by metis
qed

section \<open>Globs stop at a slash\<close>

lemma member_glob:
  assumes "py_lower (py_strip m) = pre @ ''/*''"
  shows "member_matches m c \<longleftrightarrow> CHR ''/'' \<in> set pre \<and>
    (py_lower (py_strip (candidate_route c)) = pre \<or> prefix (pre @ ''/'') (py_lower (py_strip (candidate_route c))))"
proof -
  have "py_endswith (pre @ ''/*'') ''/*''" by (simp add: py_endswith_def)
  moreover have "py_contains ''/'' pre \<longleftrightarrow> CHR ''/'' \<in> set pre"
    unfolding py_contains_iff_sublist by (induction pre) (auto simp: sublist_Cons_right)
  ultimately show ?thesis using assms by (simp add: member_matches_def Let_def py_startswith_iff_prefix)
qed

end
