(* ===== verification/Plans.thy ===== *)
theory Plans
  imports Quota_Policy
begin

text \<open>
  \<open>saberops/control_plane/plans.py\<close>: the plan registry's types and the selector grammar
  (\<open>provider\<close>, \<open>provider/model\<close>, \<open>provider/prefix/*\<close>, \<open>backend:DIRECT_API\<close>).  A malformed
  selector is a \<open>ValueError\<close>, a value of the error side.
\<close>

record account =
  ac_account_id :: string
  ac_vendor :: string
  ac_plan :: string
  ac_required_toggles :: "string list"
  ac_toggles_attested_on :: "string option"
  ac_notes :: string

record plan_window =
  win_id :: string
  win_kind :: string
  win_duration_min :: int
  win_unit :: string

record pool_member =
  pm_route :: string
  pm_multiplier :: rat

record pool_plan =
  pp_pool_id :: string
  pp_account :: "string option"
  pp_windows :: "plan_window list"
  pp_overage_possible :: bool
  pp_max_concurrent :: "int option"
  pp_members :: "pool_member list"
  pp_mode :: string
  pp_red_line_pct :: rat

record posture_record =
  po_selector :: string
  po_class :: string
  po_policy_urls :: "string list"
  po_ttl_days :: "int option"
  po_verified_on :: "string option"
  po_account :: "string option"
  po_note :: string

record plan_reserve =
  rv_pool :: string
  rv_window :: string
  rv_pct :: rat
  rv_hours :: string
  rv_days :: "string list"
  rv_tz :: string

record plan_set =
  ps_accounts :: "(string \<times> account) list"
  ps_pool_plans :: "(string \<times> pool_plan) list"
  ps_postures :: "(string \<times> posture_record) list"
  ps_reserves :: "plan_reserve list"

definition plan_set_empty :: plan_set where
  "plan_set_empty = \<lparr>ps_accounts = [], ps_pool_plans = [], ps_postures = [], ps_reserves = []\<rparr>"

definition plan_set_is_empty :: "plan_set \<Rightarrow> bool" where
  "plan_set_is_empty p = (ps_accounts p = [] \<and> ps_pool_plans p = [] \<and> ps_postures p = [] \<and> ps_reserves p = [])"

section \<open>Selectors\<close>

datatype selector_kind_t = Sel_provider | Sel_route | Sel_prefix | Sel_backend

definition provider_char :: "char \<Rightarrow> bool" where
  "provider_char c = (let n = chr_code c in (48 \<le> n \<and> n \<le> 57) \<or> (65 \<le> n \<and> n \<le> 90) \<or> (97 \<le> n \<and> n \<le> 122))"

definition provider_re :: "string \<Rightarrow> bool" where
  \<comment> \<open>\<open>_PROVIDER_RE.fullmatch\<close>: \<open>[A-Za-z0-9][A-Za-z0-9_.-]*\<close>\<close>
  "provider_re s = (case s of [] \<Rightarrow> False
     | c # cs \<Rightarrow> provider_char c \<and> list_all (\<lambda>x. provider_char x \<or> x = CHR ''_'' \<or> x = CHR ''.'' \<or> x = CHR ''-'') cs)"

definition strip_stars :: "string \<Rightarrow> string" where
  "strip_stars s = rev (dropWhile (\<lambda>c. c = CHR ''*'') (rev (dropWhile (\<lambda>c. c = CHR ''*'') s)))"

definition has_char :: "char \<Rightarrow> string \<Rightarrow> bool" where
  "has_char c s = list_ex (\<lambda>x. x = c) s"

definition selector_kind :: "string \<Rightarrow> py_error + selector_kind_t" where
  "selector_kind selector =
     (let text = py_strip selector in
      if py_startswith text ''backend:'' then
        (if text = ''backend:DIRECT_API'' then Inr Sel_backend else Inl (ValueError ''unknown backend selector''))
      else if text = [] \<or> has_char CHR ''*'' (strip_stars text) \<or> 1 < length (filter (\<lambda>c. c = CHR ''*'') text)
      then Inl (ValueError ''invalid selector (only a trailing /* glob is allowed)'')
      else if py_endswith text ''/*'' then
        (let head = take (length text - 2) text in
         if \<not> has_char CHR ''/'' head \<or> py_endswith head ''/'' \<or> py_startswith head ''/''
         then Inl (ValueError ''invalid prefix selector'')
         else let provider = py_before CHR ''/'' head; pre = py_after CHR ''/'' head in
           if \<not> provider_re provider \<or> pre = [] \<or> has_char CHR ''*'' pre
           then Inl (ValueError ''invalid prefix selector'') else Inr Sel_prefix)
      else if has_char CHR ''/'' text then
        (let provider = py_before CHR ''/'' text; model = py_after CHR ''/'' text in
         if \<not> provider_re provider \<or> model = [] \<or> py_startswith model ''/'' \<or> has_char CHR ''*'' model
         then Inl (ValueError ''invalid route selector'') else Inr Sel_route)
      else if \<not> provider_re text then Inl (ValueError ''invalid provider selector'') else Inr Sel_provider)"

definition validate_selector :: "string \<Rightarrow> bool \<Rightarrow> py_error + string" where
  \<comment> \<open>the flag is \<open>allow_backend\<close>; the error path is left out of the message\<close>
  "validate_selector selector allow_backend =
     (if py_strip selector = [] then Inl (ValueError ''selector must be a non-empty string'')
      else let text = py_strip selector in
        case selector_kind text of
          Inl e \<Rightarrow> Inl e
        | Inr k \<Rightarrow> if k = Sel_backend \<and> \<not> allow_backend
                   then Inl (ValueError ''backend: selectors are only allowed in postures'') else Inr text)"

definition selector_draws :: "selector_kind_t \<Rightarrow> string \<Rightarrow> string \<Rightarrow> string \<Rightarrow> string option \<Rightarrow> bool" where
  \<comment> \<open>the matching rule of one selector text of a known kind\<close>
  "selector_draws kind sel provider model backend =
     (let want_provider = py_lower (py_strip provider); want_model = py_lower (py_strip model);
          sel_provider = py_before CHR ''/'' sel; rest = py_after CHR ''/'' sel;
          pre = py_lower (take (length rest - 2) rest)
      in case kind of
           Sel_backend \<Rightarrow> (case backend of None \<Rightarrow> False | Some b \<Rightarrow> py_strip b = py_after CHR '':'' sel)
         | Sel_provider \<Rightarrow> py_lower sel = want_provider
         | Sel_route \<Rightarrow> py_lower sel_provider = want_provider \<and> py_lower rest = want_model
         | Sel_prefix \<Rightarrow> py_lower sel_provider = want_provider
                         \<and> (want_model = pre \<or> py_startswith want_model (pre @ ''/'')))"

definition match_route_selector :: "string \<Rightarrow> string \<Rightarrow> string \<Rightarrow> string option \<Rightarrow> py_error + bool" where
  "match_route_selector selector provider model backend =
     (case selector_kind (py_strip selector) of
        Inl e \<Rightarrow> Inl e
      | Inr k \<Rightarrow> Inr (selector_draws k (py_strip selector) provider model backend))"

section \<open>Facts about selectors\<close>

lemma selector_kind_strip [simp]: "selector_kind (py_strip s) = selector_kind s"
  by (simp add: selector_kind_def)

lemma validate_selector_ok:
  "validate_selector s b = Inr t \<Longrightarrow>
     t = py_strip s \<and> t \<noteq> [] \<and> (\<exists>k. selector_kind t = Inr k \<and> (k = Sel_backend \<longrightarrow> b))"
  by (auto simp: validate_selector_def Let_def split: if_splits sum.splits)

lemma lower_char_fixed:
  assumes "chr_code x < 65"
  shows "py_lower_char c = x \<longleftrightarrow> c = x"
proof -
  have "py_lower_char c = x \<longleftrightarrow> (of_char (py_lower_char c) :: nat) = of_char x" by (simp only: of_char_eq_iff)
  also have "\<dots> \<longleftrightarrow> (of_char c :: nat) = of_char x" using assms by (auto simp: py_lower_char_def Let_def)
  finally show ?thesis by (simp only: of_char_eq_iff)
qed

lemmas lower_char_simps [simp] = lower_char_fixed [of "CHR ''/''", simplified] lower_char_fixed [of "CHR ''*''", simplified]

lemma lower_char_self [simp]: "py_lower_char CHR ''/'' = CHR ''/''" "py_lower_char CHR ''*'' = CHR ''*''"
  by simp_all

lemma slash_in_lower [simp]: "CHR ''/'' \<in> set (py_lower s) \<longleftrightarrow> CHR ''/'' \<in> set s"
  by (simp add: py_lower_def image_iff eq_commute [where a = "CHR ''/''"])

lemma py_lower_sep [simp]: "py_lower (CHR ''/'' # s) = CHR ''/'' # py_lower s" "py_lower ''*'' = ''*''"
  by (simp_all add: py_lower_def)

lemma lower_eq_slash_star: "py_lower u = ''/*'' \<longleftrightarrow> u = ''/*''"
  by (cases u; cases "tl u") (auto simp: py_lower_def)

lemma suffix_lower: "suffix ''/*'' (py_lower t) \<longleftrightarrow> suffix ''/*'' t"
proof
  assume "suffix ''/*'' (py_lower t)"
  then obtain z where "map py_lower_char t = z @ ''/*''" by (auto simp: suffix_def py_lower_def)
  then obtain a b where t: "t = a @ b" "map py_lower_char b = ''/*''" by (auto simp: map_eq_append_conv)
  then have "b = ''/*''" using lower_eq_slash_star [of b] by (simp add: py_lower_def)
  then show "suffix ''/*'' t" using t by (simp add: suffix_def)
next
  assume "suffix ''/*'' t"
  then show "suffix ''/*'' (py_lower t)" by (auto simp: suffix_def py_lower_def)
qed

lemma split_at_char:
  assumes "CHR ''/'' \<notin> set a" "CHR ''/'' \<notin> set p"
  shows "a @ ''/'' @ b = p @ ''/'' @ m \<longleftrightarrow> a = p \<and> b = m"
    "prefix (a @ ''/'' @ b) (p @ ''/'' @ m) \<longleftrightarrow> a = p \<and> prefix b m"
proof -
  have 1: "a @ CHR ''/'' # b = p @ CHR ''/'' # m \<longleftrightarrow> a = p \<and> b = m" for b m
    using assms
  proof (induction a arbitrary: p)
    case Nil
    then show ?case by (cases p) auto
  next
    case (Cons x a)
    then show ?case by (cases p) auto
  qed
  then show "a @ ''/'' @ b = p @ ''/'' @ m \<longleftrightarrow> a = p \<and> b = m" by simp
  show "prefix (a @ ''/'' @ b) (p @ ''/'' @ m) \<longleftrightarrow> a = p \<and> prefix b m"
  proof -
    have "p @ ''/'' @ m = (a @ ''/'' @ b) @ z \<longleftrightarrow> a = p \<and> m = b @ z" for z
      using 1 [of "b @ z" m] by auto
    then show ?thesis by (auto simp: prefix_def)
  qed
qed

lemma before_after: "CHR ''/'' \<in> set t \<Longrightarrow> t = py_before CHR ''/'' t @ ''/'' @ py_after CHR ''/'' t"
  by (induction t) (auto simp: py_before_def py_after_def)

lemma before_no_char [simp]: "c \<notin> set (py_before c t)"
  by (auto simp: py_before_def dest: set_takeWhileD)

lemma before_append: "CHR ''/'' \<in> set h \<Longrightarrow> py_before CHR ''/'' (h @ x) = py_before CHR ''/'' h"
  "CHR ''/'' \<in> set h \<Longrightarrow> py_after CHR ''/'' (h @ x) = py_after CHR ''/'' h @ x"
  by (induction h) (auto simp: py_before_def py_after_def)

lemma has_char_iff [simp]: "has_char c s \<longleftrightarrow> c \<in> set s"
  by (induction s) (auto simp: has_char_def)

definition clean_route :: "string \<Rightarrow> string \<Rightarrow> bool" where
  \<comment> \<open>a provider without a slash and a model, neither empty nor padded with blanks\<close>
  "clean_route p m = (p \<noteq> [] \<and> m \<noteq> [] \<and> py_strip p = p \<and> py_strip m = m \<and> \<not> has_char CHR ''/'' p)"

lemma clean_route_strip: "clean_route p m \<Longrightarrow> py_strip (p @ ''/'' @ m) = p @ ''/'' @ m"
  using py_strip_stripped [of p] py_strip_stripped [of m]
  by (intro py_strip_id) (auto simp: clean_route_def)

lemma selector_kind_prefix:
  "selector_kind t = Inr Sel_prefix \<Longrightarrow>
     \<exists>h. py_strip t = h @ ''/*'' \<and> CHR ''/'' \<in> set h"
  by (auto simp: selector_kind_def Let_def py_endswith_iff_suffix suffix_def split: if_splits)

lemma selector_kind_route:
  "selector_kind t = Inr Sel_route \<Longrightarrow> CHR ''/'' \<in> set (py_strip t) \<and> \<not> suffix ''/*'' (py_strip t)"
  by (auto simp: selector_kind_def Let_def py_endswith_iff_suffix split: if_splits)

lemma selector_kind_provider:
  "selector_kind t = Inr Sel_provider \<Longrightarrow> CHR ''/'' \<notin> set (py_strip t)"
  by (auto simp: selector_kind_def Let_def split: if_splits)

lemma glob_drawn:
  assumes "clean_route p m" "py_strip sel = h @ ''/*''" "CHR ''/'' \<in> set h"
    "c = \<lparr>wc_provider = p, wc_model = m, wc_binding_id = bi, wc_training_required = tr\<rparr>"
  shows "member_matches sel c \<longleftrightarrow> selector_draws Sel_prefix (py_strip sel) p m backend"
proof -
  let ?a = "py_before CHR ''/'' h" and ?b = "py_after CHR ''/'' h"
  have h: "py_lower h = py_lower ?a @ ''/'' @ py_lower ?b"
    using arg_cong [OF before_after [OF assms(3)], of py_lower] by simp
  have r: "py_lower (py_strip (candidate_route c)) = py_lower p @ ''/'' @ py_lower m"
    using clean_route_strip [OF assms(1)] by (simp add: assms(4) candidate_route_def)
  have ns: "CHR ''/'' \<notin> set (py_lower p)" "CHR ''/'' \<notin> set (py_lower ?a)"
    using assms(1) by (simp_all add: clean_route_def)
  have "member_matches sel c \<longleftrightarrow>
      py_lower p @ ''/'' @ py_lower m = py_lower ?a @ ''/'' @ py_lower ?b \<or>
      prefix (py_lower ?a @ ''/'' @ (py_lower ?b @ ''/'')) (py_lower p @ ''/'' @ py_lower m)"
    using member_glob [of sel "py_lower h" c] assms(2,3) by (simp add: r h)
  also have "\<dots> \<longleftrightarrow> py_lower p = py_lower ?a \<and> (py_lower m = py_lower ?b \<or> prefix (py_lower ?b @ ''/'') (py_lower m))"
    unfolding split_at_char(2) [OF ns(2,1)] split_at_char(1) [OF ns] by auto
  finally show ?thesis
    using assms(1) by (auto simp: selector_draws_def Let_def assms(2) before_append [OF assms(3)] clean_route_def py_startswith_iff_prefix)
qed

lemma exact_drawn:
  assumes "clean_route p m" "\<not> suffix ''/*'' (py_strip sel)"
    "c = \<lparr>wc_provider = p, wc_model = m, wc_binding_id = bi, wc_training_required = tr\<rparr>"
  shows "member_matches sel c \<longleftrightarrow> py_lower (py_strip sel) = py_lower p @ ''/'' @ py_lower m \<or>
           py_lower (py_strip sel) = py_lower m \<or> py_lower (py_strip sel) = py_lower p"
  using assms clean_route_strip [OF assms(1)]
  by (auto simp: member_matches_def Let_def py_endswith_iff_suffix suffix_lower candidate_route_def
      candidate_provider_def clean_route_def)

text \<open>The two matchers of the selector grammar agree, except on a bare model name.  For a
  well-formed selector that is no backend selector and a clean route, a prefix glob draws a
  route for \<open>match_route_selector\<close> exactly when it does for the quota pools' matcher; a provider
  or provider/model selector that draws the route also matches as a pool member, and a pool
  member that matches without drawing the route spells exactly the route's model.\<close>
theorem selector_matchers_agree:
  assumes "clean_route p m" "selector_kind sel = Inr k" "k \<noteq> Sel_backend"
    "c = \<lparr>wc_provider = p, wc_model = m, wc_binding_id = bi, wc_training_required = tr\<rparr>"
  shows "\<exists>b. match_route_selector sel p m None = Inr b
     \<and> (b \<longrightarrow> member_matches sel c)
     \<and> (k = Sel_prefix \<longrightarrow> (member_matches sel c \<longleftrightarrow> b))
     \<and> (member_matches sel c \<and> \<not> b \<longrightarrow> py_lower (py_strip sel) = py_lower m)"
proof (cases k)
  case Sel_prefix
  obtain h where h: "py_strip sel = h @ ''/*''" "CHR ''/'' \<in> set h"
    using selector_kind_prefix [of sel] assms(2) Sel_prefix by auto
  show ?thesis
    using glob_drawn [OF assms(1) h assms(4), of None] assms(2)
    by (simp add: match_route_selector_def Sel_prefix)
next
  case Sel_route
  note r = selector_kind_route [OF assms(2) [unfolded Sel_route]]
  let ?t = "py_strip sel"
  let ?a = "py_before CHR ''/'' ?t" and ?b = "py_after CHR ''/'' ?t"
  have t: "py_lower ?t = py_lower ?a @ ''/'' @ py_lower ?b"
    using arg_cong [OF before_after [of ?t], of py_lower] r by simp
  have ns: "CHR ''/'' \<notin> set (py_lower ?a)" "CHR ''/'' \<notin> set (py_lower p)"
    using assms(1) by (simp_all add: clean_route_def)
  have "py_lower ?t \<noteq> py_lower p" using ns(2) t by (metis in_set_conv_decomp append_Cons append_Nil)
  then show ?thesis
    using exact_drawn [OF assms(1) _ assms(4), of sel] r assms(1,2) split_at_char(1) [OF ns]
    by (auto simp: match_route_selector_def Sel_route selector_draws_def Let_def clean_route_def t)
next
  case Sel_provider
  note r = selector_kind_provider [OF assms(2) [unfolded Sel_provider]]
  then have ns: "\<not> suffix ''/*'' (py_strip sel)" by (auto simp: suffix_def)
  have "py_lower (py_strip sel) \<noteq> py_lower p @ ''/'' @ py_lower m"
    using r slash_in_lower [of "py_strip sel"] by (metis in_set_conv_decomp append_Cons append_Nil)
  then show ?thesis
    using exact_drawn [OF assms(1) ns assms(4)] assms(1,2)
    by (auto simp: match_route_selector_def Sel_provider selector_draws_def Let_def clean_route_def)
qed (use assms in simp)

theorem selector_matchers_agree_witness:
  "\<exists>b. match_route_selector ''OpenCode/opencode-go/*'' ''opencode'' ''opencode-go-extra/m'' None = Inr b
     \<and> (b \<longrightarrow> member_matches ''OpenCode/opencode-go/*'' \<lparr>wc_provider = ''opencode'', wc_model = ''opencode-go-extra/m'', wc_binding_id = None, wc_training_required = None\<rparr>)
     \<and> (Sel_prefix = Sel_prefix \<longrightarrow> (member_matches ''OpenCode/opencode-go/*'' \<lparr>wc_provider = ''opencode'', wc_model = ''opencode-go-extra/m'', wc_binding_id = None, wc_training_required = None\<rparr> \<longleftrightarrow> b))
     \<and> (member_matches ''OpenCode/opencode-go/*'' \<lparr>wc_provider = ''opencode'', wc_model = ''opencode-go-extra/m'', wc_binding_id = None, wc_training_required = None\<rparr> \<and> \<not> b \<longrightarrow>
        py_lower (py_strip ''OpenCode/opencode-go/*'') = py_lower ''opencode-go-extra/m'')"
  by (rule selector_matchers_agree) code_simp+

end
