(* ===== verification/Posture.thy ===== *)
theory Posture
  imports Plans
begin

text \<open>
  \<open>saberops/control_plane/posture.py\<close>: the billing posture of a route.  The most specific
  matching record decides; unattended use needs a class other than B, D and X, an owner
  verification and an unexpired term.  Dates are ordinals (\<open>Py_Time\<close>).
\<close>

record posture_decision_t =
  pd_class :: "string option"
  pd_selector :: "string option"
  pd_admitted_unattended :: bool
  pd_reason :: "string option"
  pd_verified_on :: "string option"
  pd_expires_on :: "string option"
  pd_expiring_soon :: bool

abbreviation POSTURE_UNVERIFIED :: string where "POSTURE_UNVERIFIED \<equiv> ''POSTURE_UNVERIFIED''"
abbreviation POSTURE_EXPIRED :: string where "POSTURE_EXPIRED \<equiv> ''POSTURE_EXPIRED''"
abbreviation POSTURE_FORBIDDEN :: string where "POSTURE_FORBIDDEN \<equiv> ''POSTURE_FORBIDDEN''"
abbreviation POSTURE_ATTENDED_ONLY :: string where "POSTURE_ATTENDED_ONLY \<equiv> ''POSTURE_ATTENDED_ONLY''"
abbreviation POSTURE_METERED :: string where "POSTURE_METERED \<equiv> ''POSTURE_METERED''"

definition EXPIRING_SOON_DAYS :: int where "EXPIRING_SOON_DAYS = 3"

definition specificity :: "selector_kind_t \<Rightarrow> string \<Rightarrow> int \<times> int" where
  \<comment> \<open>exact route, then the longest prefix, then provider, then backend\<close>
  "specificity k selector =
     (case k of Sel_route \<Rightarrow> (3, int (length selector)) | Sel_prefix \<Rightarrow> (2, int (length selector))
      | Sel_provider \<Rightarrow> (1, int (length selector)) | Sel_backend \<Rightarrow> (0, 0))"

definition posture_matches :: "posture_record \<Rightarrow> string \<Rightarrow> string \<Rightarrow> string option \<Rightarrow> py_error + bool" where
  \<comment> \<open>\<open>_matches\<close>\<close>
  "posture_matches r provider model backend =
     (case selector_kind (po_selector r) of Inl e \<Rightarrow> Inl e
      | Inr k \<Rightarrow> Inr (selector_draws k (po_selector r) provider model backend))"

definition parse_verified :: "string option \<Rightarrow> int option" where
  "parse_verified v = (case v of None \<Rightarrow> None | Some s \<Rightarrow> date_fromisoformat s)"

fun matching_postures ::
  "string \<Rightarrow> string \<Rightarrow> string option \<Rightarrow> posture_record list \<Rightarrow> py_error + posture_record list" where
  \<comment> \<open>the candidates' comprehension, which stops at the first malformed selector\<close>
  "matching_postures p m b [] = Inr []"
| "matching_postures p m b (r # rs) =
     (case posture_matches r p m b of Inl e \<Rightarrow> Inl e
      | Inr hit \<Rightarrow> (case matching_postures p m b rs of Inl e \<Rightarrow> Inl e
          | Inr hits \<Rightarrow> Inr (if hit then r # hits else hits)))"

definition record_specificity :: "posture_record \<Rightarrow> int \<times> int" where
  \<comment> \<open>the key of \<open>max\<close>; the error branch is not reached, the comprehension has raised before\<close>
  "record_specificity r = (case selector_kind (po_selector r) of Inl _ \<Rightarrow> (0, 0) | Inr k \<Rightarrow> specificity k (po_selector r))"

definition class_reason :: "string \<Rightarrow> string option" where
  "class_reason cls = (if cls = ''B'' then Some POSTURE_ATTENDED_ONLY else if cls = ''D'' then Some POSTURE_METERED else None)"

definition record_decision :: "posture_record \<Rightarrow> int \<Rightarrow> posture_decision_t" where
  \<comment> \<open>the decision once the record is chosen\<close>
  "record_decision r today =
     (let cls = po_class r;
          base = \<lparr>pd_class = Some cls, pd_selector = Some (po_selector r), pd_admitted_unattended = False,
                  pd_reason = None, pd_verified_on = po_verified_on r, pd_expires_on = None, pd_expiring_soon = False\<rparr>
      in if cls = ''X'' then base\<lparr>pd_reason := Some POSTURE_FORBIDDEN\<rparr>
         else case parse_verified (po_verified_on r) of
           None \<Rightarrow> base\<lparr>pd_reason := Some POSTURE_UNVERIFIED\<rparr>
         | Some verified \<Rightarrow>
             (case po_ttl_days r of
                None \<Rightarrow> base\<lparr>pd_admitted_unattended := (cls \<noteq> ''B'' \<and> cls \<noteq> ''D''), pd_reason := class_reason cls\<rparr>
              | Some ttl \<Rightarrow>
                  (let expires = verified + ttl; soon = expires - today \<le> EXPIRING_SOON_DAYS;
                       dated = base\<lparr>pd_expires_on := Some (date_isoformat expires)\<rparr>
                   in if expires < today then dated\<lparr>pd_reason := Some POSTURE_EXPIRED\<rparr>
                      else if cls = ''B'' then dated\<lparr>pd_reason := Some POSTURE_ATTENDED_ONLY, pd_expiring_soon := soon\<rparr>
                      else if cls = ''D'' then dated\<lparr>pd_reason := Some POSTURE_METERED, pd_expiring_soon := soon\<rparr>
                      else dated\<lparr>pd_admitted_unattended := True, pd_expiring_soon := soon\<rparr>)))"

definition unverified_decision :: posture_decision_t where
  "unverified_decision =
     \<lparr>pd_class = None, pd_selector = None, pd_admitted_unattended = False, pd_reason = Some POSTURE_UNVERIFIED,
      pd_verified_on = None, pd_expires_on = None, pd_expiring_soon = False\<rparr>"

definition posture_decision ::
  "string \<Rightarrow> string \<Rightarrow> string option \<Rightarrow> plan_set \<Rightarrow> int \<Rightarrow> py_error + posture_decision_t" where
  "posture_decision provider model backend plans today =
     (case matching_postures provider model backend (map snd (ps_postures plans)) of
        Inl e \<Rightarrow> Inl e
      | Inr candidates \<Rightarrow>
          (case max_by record_specificity candidates of
             None \<Rightarrow> Inr unverified_decision
           | Some r \<Rightarrow> Inr (record_decision r today)))"

definition posture_status :: "posture_decision_t \<Rightarrow> string" where
  "posture_status d =
     (if pd_reason d = Some POSTURE_UNVERIFIED then ''UNVERIFIED''
      else if pd_reason d = Some POSTURE_EXPIRED then ''EXPIRED''
      else if pd_reason d = Some POSTURE_FORBIDDEN then ''FORBIDDEN''
      else if pd_reason d = Some POSTURE_ATTENDED_ONLY then ''ATTENDED_ONLY''
      else if pd_reason d = Some POSTURE_METERED then ''METERED''
      else if pd_admitted_unattended d \<and> pd_expiring_soon d then ''EXPIRING'' else ''OK'')"

section \<open>Lemmas\<close>

lemma matching_postures_spec:
  "matching_postures p m b rs = Inr hits \<Longrightarrow>
     hits = filter (\<lambda>r. posture_matches r p m b = Inr True) rs \<and> (\<forall>r \<in> set rs. \<exists>k. selector_kind (po_selector r) = Inr k)"
  by (induction rs arbitrary: hits) (auto simp: posture_matches_def split: sum.splits if_splits)

lemma record_decision_class [simp]:
  "pd_class (record_decision r today) = Some (po_class r)" "pd_selector (record_decision r today) = Some (po_selector r)"
  by (auto simp: record_decision_def Let_def split: option.splits)

definition posture_in_force :: "posture_record \<Rightarrow> int \<Rightarrow> bool" where
  \<comment> \<open>the specification: verified by the owner and within its term on the day\<close>
  "posture_in_force r today =
     (\<exists>v. parse_verified (po_verified_on r) = Some v \<and> (case po_ttl_days r of None \<Rightarrow> True | Some ttl \<Rightarrow> today \<le> v + ttl))"

lemma record_decision_admitted:
  "pd_admitted_unattended (record_decision r today) \<longleftrightarrow>
     po_class r \<notin> {''X'', ''B'', ''D''} \<and> posture_in_force r today"
  by (auto simp: record_decision_def Let_def posture_in_force_def split: option.splits)

lemma record_decision_reason:
  "pd_reason (record_decision r today) =
     (if po_class r = ''X'' then Some POSTURE_FORBIDDEN
      else if parse_verified (po_verified_on r) = None then Some POSTURE_UNVERIFIED
      else if \<not> posture_in_force r today then Some POSTURE_EXPIRED
      else class_reason (po_class r))"
  by (auto simp: record_decision_def Let_def posture_in_force_def class_reason_def split: option.splits)

lemma posture_decision_cases:
  assumes "posture_decision p m b plans today = Inr d"
  shows "(d = unverified_decision \<and> (\<forall>r \<in> set (map snd (ps_postures plans)). posture_matches r p m b \<noteq> Inr True))
    \<or> (\<exists>r \<in> set (map snd (ps_postures plans)). posture_matches r p m b = Inr True \<and> d = record_decision r today
        \<and> (\<forall>r' \<in> set (map snd (ps_postures plans)). posture_matches r' p m b = Inr True \<longrightarrow>
              record_specificity r' \<le> record_specificity r))"
proof -
  let ?rs = "map snd (ps_postures plans)"
  obtain hits where h: "matching_postures p m b ?rs = Inr hits"
    using assms by (auto simp: posture_decision_def split: sum.splits)
  have hits: "hits = filter (\<lambda>r. posture_matches r p m b = Inr True) ?rs"
    using matching_postures_spec [OF h] by blast
  show ?thesis
  proof (cases "max_by record_specificity hits")
    case None
    then have "hits = []" by simp
    then have "\<forall>r \<in> set ?rs. posture_matches r p m b \<noteq> Inr True"
      unfolding hits by (simp only: filter_empty_conv simp_thms)
    moreover have "d = unverified_decision" using assms h None by (simp add: posture_decision_def)
    ultimately show ?thesis by blast
  next
    case (Some r)
    have "r \<in> set hits" "\<And>r'. r' \<in> set hits \<Longrightarrow> record_specificity r' \<le> record_specificity r"
      using max_by_in [OF Some] max_by_ge [OF Some] by auto
    moreover have "d = record_decision r today" using assms h Some by (simp add: posture_decision_def)
    ultimately show ?thesis unfolding hits set_filter by (intro disjI2 bexI [of _ r]) auto
  qed
qed

text \<open>Unattended use is admitted only on the most specific record, in force today.  A decision
  admits an unattended route only if some record of the plan set matches it, no matching
  record is more specific, its class is none of B, D and X, its verification date parses, and
  today is not later than that date plus its term, the last day included; the reported class and
  selector are that record's.\<close>
theorem unattended_posture_sound:
  assumes "posture_decision p m b plans today = Inr d" "pd_admitted_unattended d"
  shows "\<exists>r \<in> set (map snd (ps_postures plans)).
      posture_matches r p m b = Inr True
      \<and> (\<forall>r' \<in> set (map snd (ps_postures plans)). posture_matches r' p m b = Inr True \<longrightarrow>
            record_specificity r' \<le> record_specificity r)
      \<and> po_class r \<notin> {''B'', ''D'', ''X''}
      \<and> (\<exists>v. parse_verified (po_verified_on r) = Some v \<and> (\<forall>ttl. po_ttl_days r = Some ttl \<longrightarrow> today \<le> v + ttl))
      \<and> pd_class d = Some (po_class r) \<and> pd_selector d = Some (po_selector r) \<and> pd_reason d = None"
  using posture_decision_cases [OF assms(1)]
proof
  assume "d = unverified_decision \<and> (\<forall>r \<in> set (map snd (ps_postures plans)). posture_matches r p m b \<noteq> Inr True)"
  then show ?thesis using assms(2) by (simp add: unverified_decision_def)
next
  assume "\<exists>r \<in> set (map snd (ps_postures plans)). posture_matches r p m b = Inr True \<and> d = record_decision r today
        \<and> (\<forall>r' \<in> set (map snd (ps_postures plans)). posture_matches r' p m b = Inr True \<longrightarrow>
              record_specificity r' \<le> record_specificity r)"
  then obtain r where r: "r \<in> set (map snd (ps_postures plans))" "posture_matches r p m b = Inr True"
    "d = record_decision r today"
    "\<forall>r' \<in> set (map snd (ps_postures plans)). posture_matches r' p m b = Inr True \<longrightarrow>
              record_specificity r' \<le> record_specificity r" by blast
  have "po_class r \<notin> {''X'', ''B'', ''D''}" "posture_in_force r today"
    using assms(2) unfolding r(3) record_decision_admitted by auto
  moreover from this have "pd_reason d = None"
    unfolding r(3) record_decision_reason by (auto simp: posture_in_force_def class_reason_def)
  ultimately show ?thesis using r
    by (intro bexI [of _ r]) (auto simp: posture_in_force_def split: option.splits)
qed

definition sample_posture :: "string \<Rightarrow> string \<Rightarrow> int option \<Rightarrow> string option \<Rightarrow> posture_record" where
  "sample_posture sel cls ttl ver = \<lparr>po_selector = sel, po_class = cls, po_policy_urls = [''https://x''], po_ttl_days = ttl,
     po_verified_on = ver, po_account = None, po_note = []\<rparr>"

definition sample_plans :: plan_set where
  "sample_plans = plan_set_empty\<lparr>ps_postures :=
     [(''codex'', sample_posture ''codex'' ''A'' (Some 30) (Some ''2026-10-01'')),
      (''codex/gpt-5.6-terra'', sample_posture ''codex/gpt-5.6-terra'' ''C'' (Some 30) (Some ''2026-10-01'')),
      (''codex/gpt-x'', sample_posture ''codex/gpt-x'' ''X'' None None)]\<rparr>"

definition sample_today :: int where "sample_today = ymd2ord 2026 10 31"

theorem unattended_posture_sound_witness:
  "\<exists>d. posture_decision ''codex'' ''gpt-5.6-terra'' None sample_plans sample_today = Inr d \<and> pd_admitted_unattended d
     \<and> pd_reason d = None"
proof -
  have "(case posture_decision ''codex'' ''gpt-5.6-terra'' None sample_plans sample_today of Inr d \<Rightarrow> pd_admitted_unattended d | _ \<Rightarrow> False)"
    by code_simp
  then obtain d where d: "posture_decision ''codex'' ''gpt-5.6-terra'' None sample_plans sample_today = Inr d"
    "pd_admitted_unattended d" by (auto split: sum.splits)
  then show ?thesis using unattended_posture_sound [OF d] by blast
qed

lemma sample_posture_boundary:
  "(case posture_decision ''codex'' ''gpt-5.6-terra'' None sample_plans (sample_today + 1) of
      Inr d \<Rightarrow> pd_reason d = Some POSTURE_EXPIRED | _ \<Rightarrow> False)"
  "(case posture_decision ''codex'' ''gpt-x'' None sample_plans sample_today of
      Inr d \<Rightarrow> pd_reason d = Some POSTURE_FORBIDDEN | _ \<Rightarrow> False)"
  by code_simp+

end
