(* ===== verification/Capabilities.thy ===== *)
theory Capabilities
  imports SO_Prelude
begin

text \<open>
  \<open>saberops/control_plane/capabilities.py\<close>: the closed vocabulary of factual capabilities and
  the profile of a provider or adapter.  A profile's digest (SHA-256 of its JSON) is not
  modelled.  An adapter's descriptor is a parameter: it is absent, fails (raises or returns
  no object), or declares a transport and two lists of names.
\<close>

datatype capability =
    STREAMING | LARGE_PROMPT_STDIN | RESUME | SESSION_ID | READ_ONLY | STRUCTURED_USAGE
  | REASONING_EFFORT | OUTPUT_SCHEMA | PROCESS_IDENTITY | CANCELLATION | TOOL_RESTRICTION | HOST_ACCESS

datatype provider_transport = DIRECT_CLI | DIRECT_API | GATEWAY

datatype gateway_capability =
    SUPPORTS_ACCOUNTS | GW_QUOTA | HEALTH | CIRCUIT_BREAKER | SESSION_AFFINITY | COMPRESSION

definition capability_value :: "capability \<Rightarrow> string" where
  "capability_value c = (case c of
     STREAMING \<Rightarrow> ''streaming'' | LARGE_PROMPT_STDIN \<Rightarrow> ''large_prompt_stdin'' | RESUME \<Rightarrow> ''resume''
   | SESSION_ID \<Rightarrow> ''session_id'' | READ_ONLY \<Rightarrow> ''read_only'' | STRUCTURED_USAGE \<Rightarrow> ''structured_usage''
   | REASONING_EFFORT \<Rightarrow> ''reasoning_effort'' | OUTPUT_SCHEMA \<Rightarrow> ''output_schema''
   | PROCESS_IDENTITY \<Rightarrow> ''process_identity'' | CANCELLATION \<Rightarrow> ''cancellation''
   | TOOL_RESTRICTION \<Rightarrow> ''tool_restriction'' | HOST_ACCESS \<Rightarrow> ''host_access'')"

definition all_capabilities :: "capability list" where
  "all_capabilities = [STREAMING, LARGE_PROMPT_STDIN, RESUME, SESSION_ID, READ_ONLY, STRUCTURED_USAGE,
     REASONING_EFFORT, OUTPUT_SCHEMA, PROCESS_IDENTITY, CANCELLATION, TOOL_RESTRICTION, HOST_ACCESS]"

definition capability_of :: "string \<Rightarrow> capability option" where
  "capability_of s = find (\<lambda>c. capability_value c = s) all_capabilities"

definition transport_of :: "string \<Rightarrow> provider_transport option" where
  "transport_of s = (if s = ''DIRECT_CLI'' then Some DIRECT_CLI else if s = ''DIRECT_API'' then Some DIRECT_API
     else if s = ''GATEWAY'' then Some GATEWAY else None)"

definition gateway_value :: "gateway_capability \<Rightarrow> string" where
  "gateway_value g = (case g of SUPPORTS_ACCOUNTS \<Rightarrow> ''supports_accounts'' | GW_QUOTA \<Rightarrow> ''quota'' | HEALTH \<Rightarrow> ''health''
     | CIRCUIT_BREAKER \<Rightarrow> ''circuit_breaker'' | SESSION_AFFINITY \<Rightarrow> ''session_affinity'' | COMPRESSION \<Rightarrow> ''compression'')"

definition gateway_of :: "string \<Rightarrow> gateway_capability option" where
  "gateway_of s = find (\<lambda>g. gateway_value g = s)
     [SUPPORTS_ACCOUNTS, GW_QUOTA, HEALTH, CIRCUIT_BREAKER, SESSION_AFFINITY, COMPRESSION]"

fun normalize_caps :: "string list \<Rightarrow> py_error + string list" where
  \<comment> \<open>the loop of \<open>normalize_required_capabilities\<close> before sorting\<close>
  "normalize_caps [] = Inr []"
| "normalize_caps (v # vs) =
     (case capability_of (py_lower (py_strip v)) of
        None \<Rightarrow> Inl (ValueError ''unknown required capability'')
      | Some c \<Rightarrow> (case normalize_caps vs of Inl e \<Rightarrow> Inl e | Inr cs \<Rightarrow> Inr (capability_value c # cs)))"

definition normalize_required_capabilities :: "string list \<Rightarrow> py_error + string list" where
  \<comment> \<open>a set of the values, sorted\<close>
  "normalize_required_capabilities vs =
     (case normalize_caps vs of Inl e \<Rightarrow> Inl e | Inr cs \<Rightarrow> Inr (sort (remdups cs)))"

record capability_profile =
  cp_provider :: string
  cp_transport :: provider_transport
  cp_capabilities :: "capability list"
  cp_gateway :: "gateway_capability list"

definition bare_profile :: "string \<Rightarrow> capability_profile" where
  "bare_profile p = \<lparr>cp_provider = p, cp_transport = DIRECT_CLI, cp_capabilities = [], cp_gateway = []\<rparr>"

definition packaged_profiles :: "(string \<times> capability list) list" where
  \<comment> \<open>\<open>_PROFILES\<close>; every packaged profile is a direct CLI without gateway capabilities\<close>
  "packaged_profiles =
     [(''opencode'', [STREAMING, LARGE_PROMPT_STDIN, STRUCTURED_USAGE, PROCESS_IDENTITY, CANCELLATION]),
      (''codex'', [STREAMING, LARGE_PROMPT_STDIN, READ_ONLY, STRUCTURED_USAGE, PROCESS_IDENTITY, CANCELLATION]),
      (''cline'', [STREAMING, STRUCTURED_USAGE, PROCESS_IDENTITY, CANCELLATION]),
      (''antigravity'', [STREAMING, LARGE_PROMPT_STDIN, PROCESS_IDENTITY, CANCELLATION])]"

datatype descriptor =
    No_descriptor
  | Failing_descriptor
  | Declares string "string list" "string list"

record adapter =
  ad_provider_name :: string
  ad_descriptor :: descriptor
  ad_is_live :: bool
  ad_is_available :: bool
  ad_max_prompt_bytes :: "int option"
  ad_instruction_status :: "string \<Rightarrow> string option"

fun map_all :: "('a \<Rightarrow> 'b option) \<Rightarrow> 'a list \<Rightarrow> 'b list option" where
  "map_all f [] = Some []"
| "map_all f (x # xs) = (case f x of None \<Rightarrow> None | Some y \<Rightarrow> map_option (Cons y) (map_all f xs))"

definition capability_profile_for :: "adapter option \<Rightarrow> string \<Rightarrow> capability_profile" where
  "capability_profile_for a provider =
     (let name = (if provider \<noteq> [] then provider else case a of None \<Rightarrow> [] | Some ad \<Rightarrow> ad_provider_name ad);
          normalized = py_lower (py_strip name)
      in case (case a of None \<Rightarrow> No_descriptor | Some ad \<Rightarrow> ad_descriptor ad) of
           Declares tr caps gws \<Rightarrow>
             (case (transport_of tr, map_all capability_of caps, map_all gateway_of gws) of
                (Some t, Some cs, Some gs) \<Rightarrow>
                  \<lparr>cp_provider = normalized, cp_transport = t, cp_capabilities = cs, cp_gateway = gs\<rparr>
              | _ \<Rightarrow> bare_profile normalized)
         | Failing_descriptor \<Rightarrow> bare_profile normalized
         | No_descriptor \<Rightarrow>
             (case dict_get packaged_profiles normalized of
                Some caps \<Rightarrow> \<lparr>cp_provider = normalized, cp_transport = DIRECT_CLI, cp_capabilities = caps, cp_gateway = []\<rparr>
              | None \<Rightarrow> bare_profile normalized))"

definition profile_values :: "capability_profile \<Rightarrow> string list" where
  "profile_values p = map capability_value (cp_capabilities p)"

section \<open>Lemmas\<close>

lemma all_capabilities_complete [simp]: "c \<in> set all_capabilities"
  by (cases c) (simp_all add: all_capabilities_def)

lemma capability_value_inj: "capability_value c = capability_value d \<Longrightarrow> c = d"
  by (cases c; cases d; simp add: capability_value_def)

lemma capability_of_value [simp]: "capability_of (capability_value c) = Some c"
proof -
  have "find (\<lambda>d. capability_value d = capability_value c) xs = (if c \<in> set xs then Some c else None)" for xs
    by (induction xs) (auto dest: capability_value_inj)
  then show ?thesis by (simp add: capability_of_def)
qed

lemma capability_of_Some: "capability_of s = Some c \<longleftrightarrow> s = capability_value c"
proof
  assume "capability_of s = Some c"
  then show "s = capability_value c" by (auto simp: capability_of_def find_Some_iff)
qed simp

lemma capability_value_clean [simp]: "py_lower (py_strip (capability_value c)) = capability_value c"
proof -
  have "\<forall>c \<in> set all_capabilities. py_lower (py_strip (capability_value c)) = capability_value c" by code_simp
  then show ?thesis by simp
qed

lemma normalize_caps_values:
  "normalize_caps vs = Inr cs \<Longrightarrow> cs = map (\<lambda>v. py_lower (py_strip v)) vs \<and> (\<forall>c \<in> set cs. capability_of c \<noteq> None)"
  by (induction vs arbitrary: cs) (fastforce simp: capability_of_Some split: option.splits sum.splits)+

lemma normalize_caps_canonical: "\<forall>c \<in> set cs. capability_of c \<noteq> None \<Longrightarrow> normalize_caps cs = Inr cs"
  by (induction cs) (auto simp: capability_of_Some)

lemma normalize_caps_error_iff:
  "(\<exists>e. normalize_caps vs = Inl e) \<longleftrightarrow> (\<exists>v \<in> set vs. capability_of (py_lower (py_strip v)) = None)"
  by (induction vs) (auto split: option.splits sum.splits)

lemma required_capabilities_fixed:
  assumes "normalize_required_capabilities vs = Inr cs"
  shows "normalize_required_capabilities cs = Inr cs"
proof -
  obtain ds where d: "normalize_caps vs = Inr ds" "cs = sort (remdups ds)"
    using assms by (auto simp: normalize_required_capabilities_def split: sum.splits)
  have "normalize_caps cs = Inr cs"
    using normalize_caps_values [OF d(1)] d(2) by (intro normalize_caps_canonical) simp
  moreover have "sort (remdups cs) = cs" using d(2) by (simp add: distinct_remdups_id sorted_sort_id)
  ultimately show ?thesis by (simp add: normalize_required_capabilities_def)
qed

text \<open>Required capabilities are validated to a canonical form.  A list is refused exactly when
  some entry, trimmed and lowered, is no known capability; otherwise the answer is strictly
  sorted, holds exactly the trimmed and lowered entries, all of them known, and normalising
  it again returns it unchanged.\<close>
theorem required_capabilities_canonical:
  "case normalize_required_capabilities vs of
     Inl e \<Rightarrow> \<exists>v \<in> set vs. capability_of (py_lower (py_strip v)) = None
   | Inr cs \<Rightarrow> (\<forall>v \<in> set vs. capability_of (py_lower (py_strip v)) \<noteq> None)
       \<and> sorted cs \<and> distinct cs \<and> set cs = set (map (\<lambda>v. py_lower (py_strip v)) vs)
       \<and> normalize_required_capabilities cs = Inr cs"
proof (cases "normalize_caps vs")
  case (Inl e)
  then show ?thesis using normalize_caps_error_iff [of vs] by (auto simp: normalize_required_capabilities_def)
next
  case (Inr ds)
  have r: "normalize_required_capabilities vs = Inr (sort (remdups ds))"
    using Inr by (simp add: normalize_required_capabilities_def)
  have "\<forall>v \<in> set vs. capability_of (py_lower (py_strip v)) \<noteq> None"
    using normalize_caps_error_iff [of vs] Inr by auto
  then show ?thesis using r required_capabilities_fixed [OF r] normalize_caps_values [OF Inr] by simp
qed

theorem required_capabilities_canonical_witness:
  "sorted [''read_only'', ''streaming''] \<and> normalize_required_capabilities [''read_only'', ''streaming''] = Inr [''read_only'', ''streaming'']"
proof -
  have "normalize_required_capabilities ['' Streaming '', ''READ_ONLY'', ''streaming''] = Inr [''read_only'', ''streaming'']"
    by code_simp
  with required_capabilities_canonical [of "['' Streaming '', ''READ_ONLY'', ''streaming'']"] show ?thesis by simp
qed

lemma profile_of_descriptor:
  "cp_provider (capability_profile_for a p) = py_lower (py_strip (if p \<noteq> [] then p else case a of None \<Rightarrow> [] | Some ad \<Rightarrow> ad_provider_name ad))"
  by (auto simp: capability_profile_for_def Let_def bare_profile_def split: option.splits descriptor.splits)

lemma failing_descriptor_no_capability:
  "a = Some ad \<Longrightarrow> ad_descriptor ad = Failing_descriptor \<Longrightarrow> cp_capabilities (capability_profile_for a p) = []"
  by (simp add: capability_profile_for_def Let_def bare_profile_def)

lemma invalid_descriptor_no_capability:
  "a = Some ad \<Longrightarrow> ad_descriptor ad = Declares tr caps gws \<Longrightarrow> map_all capability_of caps = None \<Longrightarrow>
     cp_capabilities (capability_profile_for a p) = []"
  by (auto simp: capability_profile_for_def Let_def bare_profile_def split: option.splits)

end
