(* ===== verification/Json_Values.thy ===== *)
theory Json_Values
  imports SO_Prelude
begin

text \<open>
  The values \<open>json.loads\<close> returns and \<open>json.dumps\<close> accepts, with the few dynamic operations the
  engine applies to them: \<open>dict.get\<close>, \<open>bool\<close>, \<open>tuple\<close>.  The JSON text itself (a library format)
  is not modelled: a column that stores it holds the value.  Objects keep insertion order.
\<close>

datatype json =
    JNull
  | JBool bool
  | JInt int
  | JFloat rat
  | JStr string
  | JList "json list"
  | JObj "(string \<times> json) list"

definition json_get :: "(string \<times> json) list \<Rightarrow> string \<Rightarrow> json" where
  \<comment> \<open>\<open>data.get(key)\<close>\<close>
  "json_get d k = (case dict_get d k of None \<Rightarrow> JNull | Some v \<Rightarrow> v)"

definition json_get_or :: "(string \<times> json) list \<Rightarrow> string \<Rightarrow> json \<Rightarrow> json" where
  \<comment> \<open>\<open>data.get(key, default)\<close>\<close>
  "json_get_or d k v0 = (case dict_get d k of None \<Rightarrow> v0 | Some v \<Rightarrow> v)"

fun json_truthy :: "json \<Rightarrow> bool" where
  "json_truthy JNull = False"
| "json_truthy (JBool b) = b"
| "json_truthy (JInt i) = (i \<noteq> 0)"
| "json_truthy (JFloat r) = (r \<noteq> 0)"
| "json_truthy (JStr s) = (s \<noteq> [])"
| "json_truthy (JList xs) = (xs \<noteq> [])"
| "json_truthy (JObj d) = (d \<noteq> [])"

fun json_tuple :: "json \<Rightarrow> py_error + json list" where
  \<comment> \<open>\<open>tuple(value)\<close>\<close>
  "json_tuple (JList xs) = Inr xs"
| "json_tuple (JStr s) = Inr (map (\<lambda>c. JStr [c]) s)"
| "json_tuple (JObj d) = Inr (map (JStr \<circ> fst) d)"
| "json_tuple v = Inl (TypeError ''object is not iterable'')"

fun json_strings :: "json list \<Rightarrow> string list option" where
  \<comment> \<open>the texts of a list that holds nothing else\<close>
  "json_strings [] = Some []"
| "json_strings (JStr s # vs) = map_option (Cons s) (json_strings vs)"
| "json_strings (v # vs) = None"

definition json_of_opt :: "string option \<Rightarrow> json" where
  "json_of_opt s = (case s of None \<Rightarrow> JNull | Some t \<Rightarrow> JStr t)"

fun json_opt_text :: "json \<Rightarrow> string option" where
  \<comment> \<open>a text or null, any other value is refused before this is used\<close>
  "json_opt_text (JStr s) = Some s"
| "json_opt_text v = None"

lemma json_strings_map [simp]: "json_strings (map JStr xs) = Some xs"
  by (induction xs) simp_all

lemma json_opt_text_of [simp]: "json_opt_text (json_of_opt s) = s"
  by (cases s) (simp_all add: json_of_opt_def)

end
