(* ===== verification/Jobs_Model.thy ===== *)
theory Jobs_Model
  imports Json_Values Cost_Model Capabilities
begin

text \<open>
  \<open>saberops/jobs/models.py\<close>: the vocabulary of the job queue, the requirements a caller states,
  and the job row with the checks its constructor makes (\<open>__post_init__\<close>).  A constructor that
  raises is the error side; \<open>job_ok\<close> is the invariant it enforces.
\<close>

section \<open>Vocabulary\<close>

datatype job_role = ORCHESTRATOR | WORKER | INTEGRATOR | SURGEON | REVIEWER
datatype job_state = QUEUED | RUNNING | SUCCEEDED | FAILED | CANCELLED
datatype waiting_reason = NEW | NO_CAPACITY | PROBE_PENDING | PREEMPTED | CONCURRENCY
datatype priority = URGENT | NORMAL | BACKGROUND
datatype effort = Effort_low | Effort_medium | Effort_high

definition role_value :: "job_role \<Rightarrow> string" where
  "role_value r = (case r of ORCHESTRATOR \<Rightarrow> ''ORCHESTRATOR'' | WORKER \<Rightarrow> ''WORKER'' | INTEGRATOR \<Rightarrow> ''INTEGRATOR''
     | SURGEON \<Rightarrow> ''SURGEON'' | REVIEWER \<Rightarrow> ''REVIEWER'')"

definition state_value :: "job_state \<Rightarrow> string" where
  "state_value s = (case s of QUEUED \<Rightarrow> ''QUEUED'' | RUNNING \<Rightarrow> ''RUNNING'' | SUCCEEDED \<Rightarrow> ''SUCCEEDED''
     | FAILED \<Rightarrow> ''FAILED'' | CANCELLED \<Rightarrow> ''CANCELLED'')"

definition waiting_value :: "waiting_reason \<Rightarrow> string" where
  "waiting_value w = (case w of NEW \<Rightarrow> ''NEW'' | NO_CAPACITY \<Rightarrow> ''NO_CAPACITY'' | PROBE_PENDING \<Rightarrow> ''PROBE_PENDING''
     | PREEMPTED \<Rightarrow> ''PREEMPTED'' | CONCURRENCY \<Rightarrow> ''CONCURRENCY'')"

definition priority_value :: "priority \<Rightarrow> string" where
  "priority_value p = (case p of URGENT \<Rightarrow> ''URGENT'' | NORMAL \<Rightarrow> ''NORMAL'' | BACKGROUND \<Rightarrow> ''BACKGROUND'')"

definition effort_value :: "effort \<Rightarrow> string" where
  "effort_value e = (case e of Effort_low \<Rightarrow> ''low'' | Effort_medium \<Rightarrow> ''medium'' | Effort_high \<Rightarrow> ''high'')"

definition role_of :: "string \<Rightarrow> job_role option" where
  "role_of s = find (\<lambda>r. role_value r = s) [ORCHESTRATOR, WORKER, INTEGRATOR, SURGEON, REVIEWER]"

definition state_of :: "string \<Rightarrow> job_state option" where
  "state_of s = find (\<lambda>r. state_value r = s) [QUEUED, RUNNING, SUCCEEDED, FAILED, CANCELLED]"

definition waiting_of :: "string \<Rightarrow> waiting_reason option" where
  "waiting_of s = find (\<lambda>r. waiting_value r = s) [NEW, NO_CAPACITY, PROBE_PENDING, PREEMPTED, CONCURRENCY]"

definition priority_of :: "string \<Rightarrow> priority option" where
  "priority_of s = find (\<lambda>r. priority_value r = s) [URGENT, NORMAL, BACKGROUND]"

definition effort_of :: "string \<Rightarrow> effort option" where
  "effort_of s = find (\<lambda>r. effort_value r = s) [Effort_low, Effort_medium, Effort_high]"

definition dispatchable :: "job_role \<Rightarrow> bool" where
  \<comment> \<open>membership in \<open>DISPATCHABLE_ROLES\<close>\<close>
  "dispatchable r = (r = WORKER)"

definition terminal_state :: "job_state \<Rightarrow> bool" where
  \<comment> \<open>membership in \<open>TERMINAL_JOB_STATES\<close>\<close>
  "terminal_state s = (s = SUCCEEDED \<or> s = FAILED \<or> s = CANCELLED)"

definition priority_rank :: "priority \<Rightarrow> int" where
  \<comment> \<open>\<open>PRIORITY_ORDER\<close>\<close>
  "priority_rank p = (case p of URGENT \<Rightarrow> 0 | NORMAL \<Rightarrow> 1 | BACKGROUND \<Rightarrow> 2)"

abbreviation NO_ROUTE_FOR_REQUIREMENTS :: string where "NO_ROUTE_FOR_REQUIREMENTS \<equiv> ''NO_ROUTE_FOR_REQUIREMENTS''"
abbreviation RUN_FAILED :: string where "RUN_FAILED \<equiv> ''RUN_FAILED''"
abbreviation RUN_MISSING :: string where "RUN_MISSING \<equiv> ''RUN_MISSING''"
abbreviation PREEMPTION_LIMIT :: string where "PREEMPTION_LIMIT \<equiv> ''PREEMPTION_LIMIT''"

definition failure_reason_known :: "string \<Rightarrow> bool" where
  \<comment> \<open>membership in \<open>FAILURE_REASONS\<close>\<close>
  "failure_reason_known r = (r = NO_ROUTE_FOR_REQUIREMENTS \<or> r = RUN_FAILED \<or> r = RUN_MISSING \<or> r = PREEMPTION_LIMIT)"

instantiation priority :: linorder
begin

definition less_eq_priority :: "priority \<Rightarrow> priority \<Rightarrow> bool" where
  "less_eq_priority p q = (priority_rank p \<le> priority_rank q)"

definition less_priority :: "priority \<Rightarrow> priority \<Rightarrow> bool" where
  "less_priority p q = (priority_rank p < priority_rank q)"

instance
  by standard (auto simp: less_eq_priority_def less_priority_def priority_rank_def split: priority.splits)

end

definition coerce_role :: "string \<Rightarrow> py_error + job_role" where
  "coerce_role s = (case role_of s of None \<Rightarrow> Inl (ValueError ''role'') | Some r \<Rightarrow> Inr r)"

definition coerce_effort :: "string option \<Rightarrow> py_error + effort option" where
  "coerce_effort s = (case s of None \<Rightarrow> Inr None
     | Some t \<Rightarrow> (case effort_of (py_lower (py_strip t)) of None \<Rightarrow> Inl (ValueError ''effort'') | Some e \<Rightarrow> Inr (Some e)))"

definition coerce_priority :: "string \<Rightarrow> py_error + priority" where
  "coerce_priority s = (case priority_of (py_upper (py_strip s)) of None \<Rightarrow> Inl (ValueError ''priority'') | Some p \<Rightarrow> Inr p)"

fun clean_family_list :: "string list \<Rightarrow> py_error + string list" where
  "clean_family_list [] = Inr []"
| "clean_family_list (raw # rest) =
     (let entry = py_strip raw in
      if entry = [] then Inl (ValueError ''entries must be non-empty strings'')
      else if entry \<noteq> py_lower entry then Inl (ValueError ''entries must be lowercase'')
      else (case clean_family_list rest of Inl e \<Rightarrow> Inl e | Inr es \<Rightarrow> Inr (entry # es)))"

section \<open>Requirements\<close>

record job_requirements =
  rq_role :: job_role
  rq_effort :: "effort option"
  rq_required_capabilities :: "string list"
  rq_read_only :: bool
  rq_family_include :: "string list"
  rq_family_exclude :: "string list"
  rq_size_hint :: "string option"

definition job_requirements_of ::
  "job_role \<Rightarrow> effort option \<Rightarrow> string list \<Rightarrow> bool \<Rightarrow> string list \<Rightarrow> string list \<Rightarrow> string option
   \<Rightarrow> py_error + job_requirements" where
  \<comment> \<open>the constructor with \<open>__post_init__\<close>\<close>
  "job_requirements_of role eff caps ro inc exc sz =
     (case normalize_required_capabilities caps of Inl e \<Rightarrow> Inl e
      | Inr caps' \<Rightarrow>
        (case clean_family_list inc of Inl e \<Rightarrow> Inl e
         | Inr inc' \<Rightarrow>
           (case clean_family_list exc of Inl e \<Rightarrow> Inl e
            | Inr exc' \<Rightarrow>
                if list_ex (\<lambda>f. f \<in> set exc') inc' then Inl (ValueError ''include and exclude must not overlap'')
                else if (case sz of None \<Rightarrow> False | Some s \<Rightarrow> s \<noteq> ''S'' \<and> s \<noteq> ''M'' \<and> s \<noteq> ''L'')
                then Inl (ValueError ''size_hint'')
                else Inr \<lparr>rq_role = role, rq_effort = eff, rq_required_capabilities = caps', rq_read_only = ro,
                          rq_family_include = inc', rq_family_exclude = exc', rq_size_hint = sz\<rparr>)))"

definition requirements_to_dict :: "job_requirements \<Rightarrow> (string \<times> json) list" where
  "requirements_to_dict r =
     [(''role'', JStr (role_value (rq_role r))),
      (''effort'', json_of_opt (map_option effort_value (rq_effort r))),
      (''required_capabilities'', JList (map JStr (rq_required_capabilities r))),
      (''read_only'', JBool (rq_read_only r)),
      (''model_family_include'', JList (map JStr (rq_family_include r))),
      (''model_family_exclude'', JList (map JStr (rq_family_exclude r))),
      (''size_hint'', json_of_opt (rq_size_hint r))]"

definition json_text_list :: "json \<Rightarrow> py_error + string list" where
  \<comment> \<open>\<open>tuple(value)\<close> whose entries must be texts: an entry of another kind is refused by the
     field's own check\<close>
  "json_text_list v = (case json_tuple v of Inl e \<Rightarrow> Inl e
     | Inr vs \<Rightarrow> (case json_strings vs of None \<Rightarrow> Inl (ValueError ''entries must be strings'') | Some ss \<Rightarrow> Inr ss))"

fun json_nullable_text :: "json \<Rightarrow> py_error + string option" where
  \<comment> \<open>a text or null; every other value fails the enumeration check it is passed to\<close>
  "json_nullable_text JNull = Inr None"
| "json_nullable_text (JStr s) = Inr (Some s)"
| "json_nullable_text v = Inl (ValueError ''unexpected value'')"

definition requirements_from_dict :: "(string \<times> json) list \<Rightarrow> py_error + job_requirements" where
  "requirements_from_dict d =
     (case json_nullable_text (json_get_or d ''role'' (JStr ''WORKER'')) of Inl e \<Rightarrow> Inl e
      | Inr None \<Rightarrow> Inl (ValueError ''role'')
      | Inr (Some role_text) \<Rightarrow>
     (case coerce_role role_text of Inl e \<Rightarrow> Inl e | Inr role \<Rightarrow>
     (case json_nullable_text (json_get d ''effort'') of Inl e \<Rightarrow> Inl e | Inr eff_text \<Rightarrow>
     (case coerce_effort eff_text of Inl e \<Rightarrow> Inl e | Inr eff \<Rightarrow>
     (case json_text_list (json_get_or d ''required_capabilities'' (JList [])) of Inl e \<Rightarrow> Inl e | Inr caps \<Rightarrow>
     (case json_text_list (json_get_or d ''model_family_include'' (JList [])) of Inl e \<Rightarrow> Inl e | Inr inc \<Rightarrow>
     (case json_text_list (json_get_or d ''model_family_exclude'' (JList [])) of Inl e \<Rightarrow> Inl e | Inr exc \<Rightarrow>
     (case json_nullable_text (json_get d ''size_hint'') of Inl e \<Rightarrow> Inl e | Inr sz \<Rightarrow>
        job_requirements_of role eff caps (json_truthy (json_get_or d ''read_only'' (JBool False))) inc exc sz))))))))"

definition requirements_ok :: "job_requirements \<Rightarrow> bool" where
  \<comment> \<open>the invariant of constructed requirements\<close>
  "requirements_ok r =
     (normalize_required_capabilities (rq_required_capabilities r) = Inr (rq_required_capabilities r)
      \<and> (\<forall>f \<in> set (rq_family_include r) \<union> set (rq_family_exclude r). f \<noteq> [] \<and> py_strip f = f \<and> py_lower f = f)
      \<and> set (rq_family_include r) \<inter> set (rq_family_exclude r) = {}
      \<and> (\<forall>s. rq_size_hint r = Some s \<longrightarrow> s \<in> {''S'', ''M'', ''L''}))"

section \<open>Jobs\<close>

record resume_from =
  rf_run_id :: string
  rf_checkpoint_sha :: string
  rf_handoff_id :: string

definition resume_from_of :: "string \<Rightarrow> string \<Rightarrow> string \<Rightarrow> py_error + resume_from" where
  "resume_from_of run sha handoff =
     (if py_strip run = [] \<or> py_strip sha = [] \<or> py_strip handoff = []
      then Inl (ValueError ''resume_from fields must be non-empty strings'')
      else Inr \<lparr>rf_run_id = run, rf_checkpoint_sha = sha, rf_handoff_id = handoff\<rparr>)"

record job =
  job_id :: string
  job_idempotency_key :: "string option"
  job_caller_id :: string
  job_repo :: string
  job_base_ref :: string
  job_base_sha :: string
  job_goal :: string
  job_acceptance :: "string option"
  job_requirements :: job_requirements
  job_priority :: priority
  job_deadline :: "string option"
  job_not_before :: "string option"
  job_state :: job_state
  job_waiting_reason :: "waiting_reason option"
  job_failure_reason :: "string option"
  job_eta :: "string option"
  job_eta_confidence :: "string option"
  job_deadline_at_risk :: bool
  job_current_run_id :: "string option"
  job_run_ids :: "string list"
  job_resume_from :: "resume_from option"
  job_preemptions :: int
  job_created_at :: string
  job_updated_at :: string
  job_request_digest :: string

definition job_check :: "job \<Rightarrow> py_error + job" where
  \<comment> \<open>\<open>Job.__post_init__\<close>\<close>
  "job_check j =
     (if job_state j = QUEUED \<and> job_waiting_reason j = None
      then Inl (ValueError ''QUEUED jobs must carry a waiting_reason'')
      else if job_state j \<noteq> QUEUED \<and> job_waiting_reason j \<noteq> None
      then Inl (ValueError ''jobs must not carry a waiting_reason'')
      else if job_state j = FAILED \<and> \<not> truthy (job_failure_reason j)
      then Inl (ValueError ''FAILED jobs must carry a failure_reason'')
      else if job_state j = FAILED \<and> \<not> failure_reason_known (or_text (job_failure_reason j) [])
      then Inl (ValueError ''unknown failure_reason'')
      else if job_state j \<noteq> FAILED \<and> job_failure_reason j \<noteq> None
      then Inl (ValueError ''jobs must not carry a failure_reason'')
      else if job_state j = QUEUED \<and> job_current_run_id j \<noteq> None
      then Inl (ValueError ''QUEUED jobs must not carry a current_run_id'')
      else if job_state j = RUNNING \<and> \<not> truthy (job_current_run_id j)
      then Inl (ValueError ''RUNNING jobs must carry a current_run_id'')
      else if job_preemptions j < 0 then Inl (ValueError ''preemptions must be >= 0'')
      else Inr j)"

definition job_ok :: "job \<Rightarrow> bool" where
  "job_ok j =
     ((job_state j = QUEUED \<longleftrightarrow> job_waiting_reason j \<noteq> None)
      \<and> (job_state j = FAILED \<longleftrightarrow> job_failure_reason j \<noteq> None)
      \<and> (\<forall>r. job_failure_reason j = Some r \<longrightarrow> failure_reason_known r)
      \<and> (job_state j = QUEUED \<longrightarrow> job_current_run_id j = None)
      \<and> (job_state j = RUNNING \<longrightarrow> truthy (job_current_run_id j))
      \<and> 0 \<le> job_preemptions j)"

lemma job_check_iff: "job_check j = Inr k \<longleftrightarrow> k = j \<and> job_ok j"
  by (cases "job_failure_reason j")
     (auto simp: job_check_def job_ok_def failure_reason_known_def)

lemma job_check_ok: "job_ok j \<Longrightarrow> job_check j = Inr j"
  by (simp add: job_check_iff)

section \<open>Requirements round trip\<close>

lemma role_of_value [simp]: "role_of (role_value r) = Some r"
  by (cases r) (simp_all add: role_of_def role_value_def)

lemma state_of_value [simp]: "state_of (state_value r) = Some r"
  by (cases r) (simp_all add: state_of_def state_value_def)

lemma waiting_of_value [simp]: "waiting_of (waiting_value r) = Some r"
  by (cases r) (simp_all add: waiting_of_def waiting_value_def)

lemma priority_of_value [simp]: "priority_of (priority_value r) = Some r"
  by (cases r) (simp_all add: priority_of_def priority_value_def)

lemma coerce_effort_value [simp]: "coerce_effort (map_option effort_value e) = Inr e"
proof (cases e)
  case (Some x)
  then show ?thesis by (cases x) (simp_all add: coerce_effort_def effort_of_def effort_value_def py_strip_def py_lstrip_def py_lower_def py_isspace_def py_lower_char_def)
qed (simp add: coerce_effort_def)

lemma coerce_priority_value [simp]: "coerce_priority (priority_value p) = Inr p"
  by (cases p) (simp_all add: coerce_priority_def priority_of_def priority_value_def py_strip_def py_lstrip_def py_upper_def py_isspace_def py_upper_char_def)

lemma state_value_inj [simp]: "state_value a = state_value b \<longleftrightarrow> a = b"
  by (metis state_of_value option.inject)

lemma waiting_value_nonempty [simp]: "waiting_value w \<noteq> []"
  by (cases w) (simp_all add: waiting_value_def)

lemma clean_family_list_ok:
  "clean_family_list fs = Inr es \<Longrightarrow> \<forall>f \<in> set es. f \<noteq> [] \<and> py_strip f = f \<and> py_lower f = f"
  by (induction fs arbitrary: es) (auto simp: Let_def split: if_splits sum.splits)

lemma clean_family_list_id:
  "\<forall>f \<in> set fs. f \<noteq> [] \<and> py_strip f = f \<and> py_lower f = f \<Longrightarrow> clean_family_list fs = Inr fs"
  by (induction fs) (auto simp: Let_def)

lemma requirements_of_ok:
  assumes "job_requirements_of role eff caps ro inc exc sz = Inr r"
  shows "requirements_ok r"
proof -
  obtain caps' inc' exc' where c: "normalize_required_capabilities caps = Inr caps'"
    "clean_family_list inc = Inr inc'" "clean_family_list exc = Inr exc'"
    "r = \<lparr>rq_role = role, rq_effort = eff, rq_required_capabilities = caps', rq_read_only = ro,
                          rq_family_include = inc', rq_family_exclude = exc', rq_size_hint = sz\<rparr>"
    "\<not> list_ex (\<lambda>f. f \<in> set exc') inc'"
    "\<not> (case sz of None \<Rightarrow> False | Some s \<Rightarrow> s \<noteq> ''S'' \<and> s \<noteq> ''M'' \<and> s \<noteq> ''L'')"
    using assms unfolding job_requirements_of_def by (auto split: sum.splits if_splits)
  then show ?thesis
    using required_capabilities_fixed [OF c(1)] clean_family_list_ok [OF c(2)] clean_family_list_ok [OF c(3)]
    by (auto simp: requirements_ok_def list_ex_iff)
qed

lemma requirements_of_id:
  assumes "requirements_ok r"
  shows "job_requirements_of (rq_role r) (rq_effort r) (rq_required_capabilities r) (rq_read_only r)
           (rq_family_include r) (rq_family_exclude r) (rq_size_hint r) = Inr r"
proof -
  have "clean_family_list (rq_family_include r) = Inr (rq_family_include r)"
    "clean_family_list (rq_family_exclude r) = Inr (rq_family_exclude r)"
    using assms by (auto simp: requirements_ok_def intro!: clean_family_list_id)
  moreover have "\<not> list_ex (\<lambda>f. f \<in> set (rq_family_exclude r)) (rq_family_include r)"
    using assms by (auto simp: requirements_ok_def list_ex_iff)
  moreover have "\<not> (case rq_size_hint r of None \<Rightarrow> False | Some s \<Rightarrow> s \<noteq> ''S'' \<and> s \<noteq> ''M'' \<and> s \<noteq> ''L'')"
    using assms by (auto simp: requirements_ok_def split: option.splits)
  ultimately show ?thesis using assms by (simp add: job_requirements_of_def requirements_ok_def)
qed

lemma json_nullable_of_opt [simp]: "json_nullable_text (json_of_opt s) = Inr s"
  by (cases s) (simp_all add: json_of_opt_def)

lemma json_text_list_map [simp]: "json_text_list (JList (map JStr xs)) = Inr xs"
  by (simp add: json_text_list_def)

lemma requirements_dict_fields:
  "json_get_or (requirements_to_dict r) ''role'' v = JStr (role_value (rq_role r))"
  "json_get (requirements_to_dict r) ''effort'' = json_of_opt (map_option effort_value (rq_effort r))"
  "json_get_or (requirements_to_dict r) ''required_capabilities'' v = JList (map JStr (rq_required_capabilities r))"
  "json_get_or (requirements_to_dict r) ''read_only'' v = JBool (rq_read_only r)"
  "json_get_or (requirements_to_dict r) ''model_family_include'' v = JList (map JStr (rq_family_include r))"
  "json_get_or (requirements_to_dict r) ''model_family_exclude'' v = JList (map JStr (rq_family_exclude r))"
  "json_get (requirements_to_dict r) ''size_hint'' = json_of_opt (rq_size_hint r)"
  by (simp_all add: requirements_to_dict_def json_get_or_def json_get_def)

lemma requirements_round_trip_aux:
  "requirements_ok r \<Longrightarrow> requirements_from_dict (requirements_to_dict r) = Inr r"
  by (simp add: requirements_from_dict_def requirements_dict_fields coerce_role_def requirements_of_id)

text \<open>Requirements survive storage.  Whatever a caller passes, requirements the constructor
  accepts are written to a document that is read back as the same requirements; no accepted
  requirement is refused, dropped or changed when its job is loaded again.\<close>
theorem requirements_round_trip:
  assumes "job_requirements_of role eff caps ro inc exc sz = Inr r"
  shows "requirements_from_dict (requirements_to_dict r) = Inr r"
  using requirements_round_trip_aux [OF requirements_of_ok [OF assms]] .

definition sample_requirements :: job_requirements where
  "sample_requirements = \<lparr>rq_role = WORKER, rq_effort = Some Effort_high, rq_required_capabilities = [''read_only'', ''streaming''],
     rq_read_only = True, rq_family_include = [''gpt''], rq_family_exclude = [''claude''], rq_size_hint = Some ''M''\<rparr>"

theorem requirements_round_trip_witness:
  "requirements_from_dict (requirements_to_dict sample_requirements) = Inr sample_requirements"
proof (rule requirements_round_trip)
  show "job_requirements_of WORKER (Some Effort_high) [''STREAMING'', ''read_only '', ''streaming''] True ['' gpt''] [''claude ''] (Some ''M'') =
      Inr sample_requirements"
    by code_simp
qed

end
