(* ===== verification/Job_Store.thy ===== *)
theory Job_Store
  imports Jobs_Model Py_Time
begin

text \<open>
  \<open>saberops/jobs/store.py\<close>: the tables \<open>jobs\<close> and \<open>job_events\<close> and the compare-and-set state
  machine.  A row holds the stored texts; \<open>row_to_job\<close> is the reader, which re-runs the job's
  constructor checks.  Each operation returns its result or error and the tables after its
  transaction.  \<open>cas\<close> is the write half of the operations that read first and write in a second
  transaction, so that another writer may come in between.
\<close>

datatype job_error =
    JobNotFound
  | JobConflict
  | JobTransition
  | IdempotencyConflict
  | JobValue py_error

record job_row =
  jr_job_id :: string
  jr_caller_id :: string
  jr_idempotency_key :: "string option"
  jr_repo :: string
  jr_base_ref :: string
  jr_base_sha :: string
  jr_goal :: string
  jr_acceptance :: "string option"
  jr_requirements :: "(string \<times> json) list"
  jr_priority :: string
  jr_deadline :: "string option"
  jr_not_before :: "string option"
  jr_state :: string
  jr_waiting_reason :: "string option"
  jr_failure_reason :: "string option"
  jr_eta :: "string option"
  jr_eta_confidence :: "string option"
  jr_deadline_at_risk :: bool
  jr_current_run_id :: "string option"
  jr_run_ids :: "string list"
  jr_resume_from :: "(string \<times> string) list option"
  jr_preemptions :: int
  jr_created_at :: string
  jr_updated_at :: string
  jr_request_digest :: string

record job_event =
  ev_job_id :: string
  ev_seq :: int
  ev_at :: string
  ev_kind :: string
  ev_from_state :: "string option"
  ev_to_state :: "string option"
  ev_payload :: "(string \<times> json) list option"

record job_db =
  db_jobs :: "job_row list"
  db_events :: "job_event list"

definition resume_to_dict :: "resume_from \<Rightarrow> (string \<times> string) list" where
  "resume_to_dict r = [(''run_id'', rf_run_id r), (''checkpoint_sha'', rf_checkpoint_sha r), (''handoff_id'', rf_handoff_id r)]"

definition resume_from_dict :: "(string \<times> string) list \<Rightarrow> py_error + resume_from" where
  "resume_from_dict d =
     (case dict_get d ''run_id'' of None \<Rightarrow> Inl (KeyError ''run_id'') | Some r \<Rightarrow>
     (case dict_get d ''checkpoint_sha'' of None \<Rightarrow> Inl (KeyError ''checkpoint_sha'') | Some c \<Rightarrow>
     (case dict_get d ''handoff_id'' of None \<Rightarrow> Inl (KeyError ''handoff_id'') | Some h \<Rightarrow> resume_from_of r c h)))"

definition job_to_columns :: "job \<Rightarrow> job_row" where
  "job_to_columns j =
     \<lparr>jr_job_id = job_id j, jr_caller_id = job_caller_id j, jr_idempotency_key = job_idempotency_key j,
      jr_repo = job_repo j, jr_base_ref = job_base_ref j, jr_base_sha = job_base_sha j, jr_goal = job_goal j,
      jr_acceptance = job_acceptance j, jr_requirements = requirements_to_dict (job_requirements j),
      jr_priority = priority_value (job_priority j), jr_deadline = job_deadline j, jr_not_before = job_not_before j,
      jr_state = state_value (job_state j), jr_waiting_reason = map_option waiting_value (job_waiting_reason j),
      jr_failure_reason = job_failure_reason j, jr_eta = job_eta j, jr_eta_confidence = job_eta_confidence j,
      jr_deadline_at_risk = job_deadline_at_risk j, jr_current_run_id = job_current_run_id j,
      jr_run_ids = job_run_ids j, jr_resume_from = map_option resume_to_dict (job_resume_from j),
      jr_preemptions = job_preemptions j, jr_created_at = job_created_at j, jr_updated_at = job_updated_at j,
      jr_request_digest = job_request_digest j\<rparr>"

definition read_resume :: "(string \<times> string) list option \<Rightarrow> py_error + resume_from option" where
  "read_resume v = (case v of None \<Rightarrow> Inr None
     | Some d \<Rightarrow> (case resume_from_dict d of Inl e \<Rightarrow> Inl e | Inr r \<Rightarrow> Inr (Some r)))"

definition read_waiting :: "string option \<Rightarrow> py_error + waiting_reason option" where
  "read_waiting v = (if truthy v then
       (case waiting_of (the v) of None \<Rightarrow> Inl (ValueError ''WaitingReason'') | Some w \<Rightarrow> Inr (Some w))
     else Inr None)"

definition row_to_job :: "job_row \<Rightarrow> py_error + job" where
  "row_to_job r =
     (case requirements_from_dict (jr_requirements r) of Inl e \<Rightarrow> Inl e | Inr req \<Rightarrow>
     (case read_resume (jr_resume_from r) of Inl e \<Rightarrow> Inl e | Inr resume \<Rightarrow>
     (case priority_of (jr_priority r) of None \<Rightarrow> Inl (ValueError ''Priority'') | Some pr \<Rightarrow>
     (case state_of (jr_state r) of None \<Rightarrow> Inl (ValueError ''JobState'') | Some st \<Rightarrow>
     (case read_waiting (jr_waiting_reason r) of Inl e \<Rightarrow> Inl e | Inr w \<Rightarrow>
        job_check
          \<lparr>job_id = jr_job_id r, job_idempotency_key = jr_idempotency_key r, job_caller_id = jr_caller_id r,
           job_repo = jr_repo r, job_base_ref = jr_base_ref r, job_base_sha = jr_base_sha r, job_goal = jr_goal r,
           job_acceptance = jr_acceptance r, job_requirements = req, job_priority = pr, job_deadline = jr_deadline r,
           job_not_before = jr_not_before r, job_state = st, job_waiting_reason = w,
           job_failure_reason = jr_failure_reason r, job_eta = jr_eta r, job_eta_confidence = jr_eta_confidence r,
           job_deadline_at_risk = jr_deadline_at_risk r, job_current_run_id = jr_current_run_id r,
           job_run_ids = jr_run_ids r, job_resume_from = resume, job_preemptions = jr_preemptions r,
           job_created_at = jr_created_at r, job_updated_at = jr_updated_at r,
           job_request_digest = jr_request_digest r\<rparr>)))))"

definition find_row :: "string \<Rightarrow> job_db \<Rightarrow> job_row option" where
  "find_row i db = find (\<lambda>r. jr_job_id r = i) (db_jobs db)"

definition load_row :: "job_row \<Rightarrow> job_error + job" where
  "load_row r = (case row_to_job r of Inl e \<Rightarrow> Inl (JobValue e) | Inr j \<Rightarrow> Inr j)"

definition next_seq :: "string \<Rightarrow> job_event list \<Rightarrow> int" where
  \<comment> \<open>\<open>COALESCE(MAX(seq), 0) + 1\<close>\<close>
  "next_seq i evs = foldr (\<lambda>e m. if ev_job_id e = i then max (ev_seq e) m else m) evs 0 + 1"

definition append_event ::
  "string \<Rightarrow> string \<Rightarrow> string \<Rightarrow> string option \<Rightarrow> string option \<Rightarrow> (string \<times> json) list option
   \<Rightarrow> job_event list \<Rightarrow> job_event list" where
  "append_event i ts kind from_s to_s payload evs =
     evs @ [\<lparr>ev_job_id = i, ev_seq = next_seq i evs, ev_at = ts, ev_kind = kind, ev_from_state = from_s,
             ev_to_state = to_s, ev_payload = payload\<rparr>]"

definition insert_job :: "job \<Rightarrow> int \<Rightarrow> job_db \<Rightarrow> (job_error + job) \<times> job_db" where
  \<comment> \<open>the primary key and the unique (caller, key) pair raise, a key of null never clashes\<close>
  "insert_job j now db =
     (let row = job_to_columns j;
          clash = (\<exists>r \<in> set (db_jobs db). jr_job_id r = jr_job_id row \<or>
                     jr_caller_id r = jr_caller_id row \<and> jr_idempotency_key r = jr_idempotency_key row
                     \<and> jr_idempotency_key row \<noteq> None);
          payload = (case job_waiting_reason j of
                       Some w \<Rightarrow> Some [(''waiting_reason'', JStr (waiting_value w))]
                     | None \<Rightarrow> (if truthy (job_failure_reason j)
                                then Some [(''failure_reason'', json_of_opt (job_failure_reason j))] else None))
      in if clash then (Inl JobConflict, db)
         else (Inr j, \<lparr>db_jobs = db_jobs db @ [row],
                       db_events = append_event (job_id j) (utcnow_iso now) ''submitted'' None
                                     (Some (state_value (job_state j))) payload (db_events db)\<rparr>))"

definition get_job :: "string \<Rightarrow> job_db \<Rightarrow> job_error + job option" where
  "get_job i db = (case find_row i db of None \<Rightarrow> Inr None
     | Some r \<Rightarrow> (case load_row r of Inl e \<Rightarrow> Inl e | Inr j \<Rightarrow> Inr (Some j)))"

definition find_by_idempotency :: "string \<Rightarrow> string \<Rightarrow> job_db \<Rightarrow> job_error + job option" where
  "find_by_idempotency caller key db =
     (case find (\<lambda>r. jr_caller_id r = caller \<and> jr_idempotency_key r = Some key) (db_jobs db) of
        None \<Rightarrow> Inr None
      | Some r \<Rightarrow> (case load_row r of Inl e \<Rightarrow> Inl e | Inr j \<Rightarrow> Inr (Some j)))"

definition row_priority_rank :: "string \<Rightarrow> int" where
  \<comment> \<open>\<open>CASE priority WHEN ... ELSE 3 END\<close>\<close>
  "row_priority_rank p = (case priority_of p of None \<Rightarrow> 3 | Some q \<Rightarrow> priority_rank q)"

fun load_rows :: "job_row list \<Rightarrow> job_error + job list" where
  "load_rows [] = Inr []"
| "load_rows (r # rs) = (case load_row r of Inl e \<Rightarrow> Inl e
     | Inr j \<Rightarrow> (case load_rows rs of Inl e \<Rightarrow> Inl e | Inr js \<Rightarrow> Inr (j # js)))"

definition list_jobs_raw :: "job_state option \<Rightarrow> nat \<Rightarrow> job_db \<Rightarrow> job_error + job list" where
  "list_jobs_raw st limit db =
     load_rows (take limit (sort_key (\<lambda>r. (row_priority_rank (jr_priority r), jr_created_at r, jr_job_id r))
       (filter (\<lambda>r. case st of None \<Rightarrow> True | Some s \<Rightarrow> jr_state r = state_value s) (db_jobs db))))"

definition list_events :: "string \<Rightarrow> job_db \<Rightarrow> job_event list" where
  "list_events i db = sort_key ev_seq (filter (\<lambda>e. ev_job_id e = i) (db_events db))"

definition update_row :: "(job_row \<Rightarrow> bool) \<Rightarrow> (job_row \<Rightarrow> job_row) \<Rightarrow> job_row list \<Rightarrow> job_row list" where
  \<comment> \<open>\<open>UPDATE jobs SET ... WHERE p\<close>\<close>
  "update_row p f rows = map (\<lambda>r. if p r then f r else r) rows"

definition read_back :: "string \<Rightarrow> job_db \<Rightarrow> (job_error + job) \<times> job_db" where
  \<comment> \<open>the row read after the commit\<close>
  "read_back i db = (case find_row i db of None \<Rightarrow> (Inl JobNotFound, db) | Some r \<Rightarrow> (load_row r, db))"

definition cas ::
  "string \<Rightarrow> job_state \<Rightarrow> (job_row \<Rightarrow> job_row) \<Rightarrow> string \<Rightarrow> job_state \<Rightarrow> (string \<times> json) list option
   \<Rightarrow> int \<Rightarrow> job_db \<Rightarrow> (job_error + job) \<times> job_db" where
  "cas i expected upd kind to_state payload now db =
     (let hit = (\<lambda>r. jr_job_id r = i \<and> jr_state r = state_value expected) in
      if \<not> list_ex hit (db_jobs db) then
        (case find_row i db of None \<Rightarrow> (Inl JobNotFound, db) | Some _ \<Rightarrow> (Inl JobConflict, db))
      else read_back i
        \<lparr>db_jobs = update_row hit (\<lambda>r. (upd r)\<lparr>jr_updated_at := utcnow_iso now\<rparr>) (db_jobs db),
         db_events = append_event i (utcnow_iso now) kind (Some (state_value expected)) (Some (state_value to_state))
                       payload (db_events db)\<rparr>)"

definition require_state :: "job \<Rightarrow> job_state list \<Rightarrow> bool" where
  "require_state j allowed = (job_state j \<in> set allowed)"

definition mark_dispatched :: "string \<Rightarrow> string \<Rightarrow> int \<Rightarrow> job_db \<Rightarrow> (job_error + job) \<times> job_db" where
  "mark_dispatched i run now db =
     (if py_strip run = [] then (Inl (JobValue (ValueError ''run_id must be a non-empty string'')), db)
      else case find_row i db of
        None \<Rightarrow> (Inl JobNotFound, db)
      | Some row \<Rightarrow>
          if jr_state row \<noteq> state_value QUEUED then (Inl JobTransition, db)
          else read_back i
            \<lparr>db_jobs = update_row (\<lambda>r. jr_job_id r = i \<and> jr_state r = state_value QUEUED)
                (\<lambda>r. r\<lparr>jr_state := state_value RUNNING, jr_waiting_reason := None,
                       jr_current_run_id := Some (py_strip run), jr_run_ids := jr_run_ids row @ [py_strip run],
                       jr_updated_at := utcnow_iso now\<rparr>) (db_jobs db),
             db_events = append_event i (utcnow_iso now) ''dispatched'' (Some (state_value QUEUED))
                (Some (state_value RUNNING)) (Some [(''run_id'', JStr (py_strip run))]) (db_events db)\<rparr>)"

definition waiting_update :: "waiting_reason \<Rightarrow> string option \<Rightarrow> string option \<Rightarrow> job_row \<Rightarrow> job_row" where
  "waiting_update want eta conf r =
     r\<lparr>jr_state := state_value QUEUED, jr_waiting_reason := Some (waiting_value want), jr_eta := eta,
       jr_eta_confidence := conf\<rparr>"

definition set_waiting_cas ::
  "string \<Rightarrow> waiting_reason \<Rightarrow> string option \<Rightarrow> string option \<Rightarrow> int \<Rightarrow> job_db \<Rightarrow> (job_error + job) \<times> job_db" where
  "set_waiting_cas i want eta conf now db =
     cas i QUEUED (waiting_update want eta conf) ''waiting'' QUEUED
       (Some [(''waiting_reason'', JStr (waiting_value want)), (''eta'', json_of_opt eta),
              (''eta_confidence'', json_of_opt conf)]) now db"

definition set_waiting ::
  "string \<Rightarrow> waiting_reason \<Rightarrow> string option \<Rightarrow> string option \<Rightarrow> int \<Rightarrow> job_db \<Rightarrow> (job_error + job) \<times> job_db" where
  "set_waiting i want eta conf now db =
     (case get_job i db of Inl e \<Rightarrow> (Inl e, db) | Inr None \<Rightarrow> (Inl JobNotFound, db)
      | Inr (Some j) \<Rightarrow>
          if require_state j [QUEUED] then set_waiting_cas i want eta conf now db else (Inl JobTransition, db))"

definition requeue_update ::
  "waiting_reason \<Rightarrow> resume_from option \<Rightarrow> string option \<Rightarrow> int \<Rightarrow> int \<Rightarrow> job_row \<Rightarrow> job_row" where
  "requeue_update want resume nb preemptions now r =
     r\<lparr>jr_state := state_value QUEUED, jr_waiting_reason := Some (waiting_value want), jr_current_run_id := None,
       jr_resume_from := map_option resume_to_dict resume, jr_not_before := nb, jr_preemptions := preemptions,
       jr_updated_at := utcnow_iso now\<rparr>"

definition bumped :: "waiting_reason \<Rightarrow> int \<Rightarrow> int" where
  "bumped want p = p + (if want = PREEMPTED then 1 else 0)"

definition requeue ::
  "string \<Rightarrow> waiting_reason \<Rightarrow> resume_from option \<Rightarrow> string option \<Rightarrow> int \<Rightarrow> job_db \<Rightarrow> (job_error + job) \<times> job_db" where
  "requeue i want resume not_before now db =
     (case find_row i db of
        None \<Rightarrow> (Inl JobNotFound, db)
      | Some row \<Rightarrow>
          if jr_state row \<noteq> state_value RUNNING then (Inl JobTransition, db)
          else let preemptions = bumped want (jr_preemptions row);
                   nb = (if not_before \<noteq> None then not_before else jr_not_before row) in
            read_back i
              \<lparr>db_jobs = update_row (\<lambda>r. jr_job_id r = i \<and> jr_state r = state_value RUNNING)
                  (requeue_update want resume nb preemptions now) (db_jobs db),
               db_events = append_event i (utcnow_iso now) ''requeued'' (Some (state_value RUNNING)) (Some (state_value QUEUED))
                  (Some [(''waiting_reason'', JStr (waiting_value want)), (''preemptions'', JInt preemptions)])
                  (db_events db)\<rparr>)"

definition requeue_exact ::
  "string \<Rightarrow> waiting_reason \<Rightarrow> string \<Rightarrow> int \<Rightarrow> resume_from option \<Rightarrow> string option \<Rightarrow> int \<Rightarrow> job_db
   \<Rightarrow> (job_error + job) \<times> job_db" where
  "requeue_exact i want expected_run expected_preemptions resume not_before now db =
     (if expected_run = [] then (Inl (JobValue (ValueError ''expected_run_id must be a non-empty string'')), db)
      else case find_row i db of
        None \<Rightarrow> (Inl JobNotFound, db)
      | Some row \<Rightarrow>
          if jr_state row \<noteq> state_value RUNNING then (Inl JobTransition, db)
          else if jr_current_run_id row \<noteq> Some expected_run \<or> jr_preemptions row \<noteq> expected_preemptions
          then (Inl JobConflict, db)
          else let preemptions = bumped want (jr_preemptions row);
                   nb = (if not_before \<noteq> None then not_before else jr_not_before row) in
            read_back i
              \<lparr>db_jobs = update_row (\<lambda>r. jr_job_id r = i \<and> jr_state r = state_value RUNNING
                    \<and> jr_current_run_id r = Some expected_run \<and> jr_preemptions r = expected_preemptions)
                  (requeue_update want resume nb preemptions now) (db_jobs db),
               db_events = append_event i (utcnow_iso now) ''requeued'' (Some (state_value RUNNING)) (Some (state_value QUEUED))
                  (Some [(''waiting_reason'', JStr (waiting_value want)), (''preemptions'', JInt preemptions),
                         (''preempted_run_id'', JStr expected_run)]) (db_events db)\<rparr>)"

definition cancel_update :: "job_row \<Rightarrow> job_row" where
  "cancel_update r = r\<lparr>jr_state := state_value CANCELLED, jr_waiting_reason := None\<rparr>"

definition cancel_cas :: "string \<Rightarrow> job_state \<Rightarrow> int \<Rightarrow> job_db \<Rightarrow> (job_error + job) \<times> job_db" where
  "cancel_cas i seen now db =
     cas i seen cancel_update ''cancelled'' CANCELLED (Some [(''from_state'', JStr (state_value seen))]) now db"

definition cancel_transition :: "string \<Rightarrow> int \<Rightarrow> job_db \<Rightarrow> (job_error + job) \<times> job_db" where
  "cancel_transition i now db =
     (case get_job i db of Inl e \<Rightarrow> (Inl e, db) | Inr None \<Rightarrow> (Inl JobNotFound, db)
      | Inr (Some j) \<Rightarrow>
          if require_state j [QUEUED, RUNNING] then cancel_cas i (job_state j) now db else (Inl JobTransition, db))"

definition reconcile_update :: "job_state \<Rightarrow> string option \<Rightarrow> job_row \<Rightarrow> job_row" where
  "reconcile_update to_state failure r =
     r\<lparr>jr_state := state_value to_state, jr_waiting_reason := None, jr_failure_reason := failure\<rparr>"

definition reconcile_cas :: "string \<Rightarrow> job_state \<Rightarrow> string option \<Rightarrow> int \<Rightarrow> job_db \<Rightarrow> (job_error + job) \<times> job_db" where
  "reconcile_cas i to_state failure now db =
     cas i RUNNING (reconcile_update to_state failure) ''reconciled'' to_state
       (Some [(''failure_reason'', json_of_opt failure)]) now db"

definition reconcile_transition ::
  "string \<Rightarrow> job_state \<Rightarrow> string option \<Rightarrow> int \<Rightarrow> job_db \<Rightarrow> (job_error + job) \<times> job_db" where
  "reconcile_transition i to_state failure now db =
     (if to_state \<noteq> SUCCEEDED \<and> to_state \<noteq> FAILED then (Inl JobTransition, db)
      else case get_job i db of Inl e \<Rightarrow> (Inl e, db) | Inr None \<Rightarrow> (Inl JobNotFound, db)
      | Inr (Some j) \<Rightarrow>
          if require_state j [RUNNING] then reconcile_cas i to_state failure now db else (Inl JobTransition, db))"

end
