(* ===== verification/Job_Machine.thy ===== *)
theory Job_Machine
  imports Job_Store
begin

text \<open>
  The abstract contract of the job store: a job is a state machine (\<open>job_edge\<close>, section D of the
  design), its row always loads, and its event log is a run of the machine.  \<open>job_step\<close> is one
  transaction of any writer with any arguments; the two-phase operations contribute their
  write half alone, so every interleaving of writers is a sequence of steps.
\<close>

section \<open>The abstract machine\<close>

inductive job_edge :: "job_state \<Rightarrow> job_state \<Rightarrow> bool" where
  edge_dispatch: "job_edge QUEUED RUNNING"
| edge_wait: "job_edge QUEUED QUEUED"
| edge_requeue: "job_edge RUNNING QUEUED"
| edge_cancel_queued: "job_edge QUEUED CANCELLED"
| edge_cancel_running: "job_edge RUNNING CANCELLED"
| edge_succeed: "job_edge RUNNING SUCCEEDED"
| edge_fail: "job_edge RUNNING FAILED"

inductive_simps job_edge_from: "job_edge s t"

lemma terminal_no_edge: "terminal_state s \<Longrightarrow> \<not> job_edge s t"
  by (auto simp: job_edge_from terminal_state_def)

definition legal_event :: "job_event \<Rightarrow> bool" where
  \<comment> \<open>a submission, or an edge of the machine\<close>
  "legal_event e =
     ((ev_from_state e = None \<and> ev_kind e = ''submitted'' \<and>
        (ev_to_state e = Some (state_value QUEUED) \<or> ev_to_state e = Some (state_value FAILED)))
      \<or> (\<exists>s t. ev_from_state e = Some (state_value s) \<and> ev_to_state e = Some (state_value t) \<and> job_edge s t))"

fun replay :: "string option \<Rightarrow> int \<Rightarrow> job_event list \<Rightarrow> (string option \<times> int) option" where
  \<comment> \<open>run the log: sequence numbers count up by one, and every event starts where the last ended\<close>
  "replay cur n [] = Some (cur, n)"
| "replay cur n (e # es) =
     (if ev_seq e = n + 1 \<and> ev_from_state e = cur \<and> legal_event e then replay (ev_to_state e) (n + 1) es else None)"

lemma replay_append:
  "replay cur n (es @ fs) = (case replay cur n es of None \<Rightarrow> None | Some (c, m) \<Rightarrow> replay c m fs)"
  by (induction es arbitrary: cur n) (auto split: option.splits)

definition events_of :: "string \<Rightarrow> job_event list \<Rightarrow> job_event list" where
  "events_of i evs = filter (\<lambda>e. ev_job_id e = i) evs"

lemma replay_count: "replay cur n es = Some (c, m) \<Longrightarrow> m = n + int (length es)"
  by (induction es arbitrary: cur n) (fastforce split: if_splits)+

lemma replay_seqs: "replay cur n es = Some (c, m) \<Longrightarrow> map ev_seq es = map (\<lambda>k. n + 1 + int k) [0..<length es]"
proof (induction es arbitrary: cur n)
  case (Cons e es)
  have "map ev_seq es = map (\<lambda>k. n + 1 + 1 + int k) [0..<length es]"
    using Cons by (auto split: if_splits)
  moreover have "[0..<length (e # es)] = 0 # map Suc [0..<length es]" by (simp add: upt_conv_Cons map_Suc_upt del: upt_Suc)
  ultimately show ?case using Cons.prems by (auto split: if_splits simp: algebra_simps)
qed simp

lemma next_seq_events: "next_seq i evs = next_seq i (events_of i evs)"
  by (induction evs) (auto simp: next_seq_def events_of_def)

lemma foldr_max_seq:
  "\<forall>e \<in> set es. ev_job_id e = i \<Longrightarrow>
     foldr (\<lambda>e m. if ev_job_id e = i then max (ev_seq e) m else m) es (b::int) = foldr max (map ev_seq es) b"
  by (induction es) auto

lemma foldr_max_base: "(0::int) \<le> b \<Longrightarrow> foldr max xs b = max (foldr max xs 0) b"
  by (induction xs) auto

lemma foldr_max_range: "foldr max (map (\<lambda>k. 1 + int k) [0..<n]) 0 = int n"
proof (induction n)
  case (Suc n)
  have "foldr max (map (\<lambda>k. 1 + int k) [0..<Suc n]) 0 = foldr max (map (\<lambda>k. 1 + int k) [0..<n]) (1 + int n)"
    by simp
  also have "\<dots> = max (int n) (1 + int n)" using foldr_max_base [of "1 + int n"] Suc by simp
  finally show ?case by simp
qed simp

lemma next_seq_replay:
  assumes "replay None 0 (events_of i evs) = Some (c, n)"
  shows "next_seq i evs = n + 1"
proof -
  have s: "map ev_seq (events_of i evs) = map (\<lambda>k. 1 + int k) [0..<length (events_of i evs)]"
    using replay_seqs [OF assms] by simp
  have "\<forall>e \<in> set (events_of i evs). ev_job_id e = i" by (simp add: events_of_def)
  then have "next_seq i (events_of i evs) = foldr max (map ev_seq (events_of i evs)) 0 + 1"
    unfolding next_seq_def by (simp only: foldr_max_seq)
  also have "\<dots> = int (length (events_of i evs)) + 1" unfolding s by (simp only: foldr_max_range)
  finally show ?thesis using replay_count [OF assms] next_seq_events [of i evs] by simp
qed

lemma events_of_append [simp]:
  "events_of i (append_event k ts kind f t p evs) =
     events_of i evs @ (if k = i then [\<lparr>ev_job_id = k, ev_seq = next_seq k evs, ev_at = ts, ev_kind = kind,
        ev_from_state = f, ev_to_state = t, ev_payload = p\<rparr>] else [])"
  by (simp add: events_of_def append_event_def)

section \<open>The row invariant\<close>

definition row_meta_ok :: "job_row \<Rightarrow> bool" where
  "row_meta_ok r = ((\<exists>q. requirements_from_dict (jr_requirements r) = Inr q) \<and> (\<exists>p. priority_of (jr_priority r) = Some p)
     \<and> (\<exists>x. read_resume (jr_resume_from r) = Inr x) \<and> 0 \<le> jr_preemptions r)"

definition row_shape_ok :: "job_row \<Rightarrow> job_state \<Rightarrow> bool" where
  "row_shape_ok r st = (case st of
     QUEUED \<Rightarrow> (\<exists>w. jr_waiting_reason r = Some (waiting_value w)) \<and> jr_failure_reason r = None \<and> jr_current_run_id r = None
   | RUNNING \<Rightarrow> jr_waiting_reason r = None \<and> jr_failure_reason r = None
       \<and> (\<exists>run. jr_current_run_id r = Some run \<and> run \<noteq> [] \<and> jr_run_ids r \<noteq> [] \<and> last (jr_run_ids r) = run)
   | FAILED \<Rightarrow> jr_waiting_reason r = None \<and> (\<exists>f. jr_failure_reason r = Some f \<and> failure_reason_known f)
   | _ \<Rightarrow> jr_waiting_reason r = None \<and> jr_failure_reason r = None)"

definition row_ok :: "job_row \<Rightarrow> bool" where
  "row_ok r = (row_meta_ok r \<and> (\<exists>st. jr_state r = state_value st \<and> row_shape_ok r st))"

lemma row_ok_state: "row_ok r \<Longrightarrow> jr_state r = state_value st \<Longrightarrow> row_shape_ok r st"
  by (auto simp: row_ok_def)

lemma read_waiting_simps [simp]:
  "read_waiting None = Inr None" "read_waiting (Some (waiting_value w)) = Inr (Some w)"
  by (simp_all add: read_waiting_def)

lemma row_ok_loads:
  assumes "row_ok r"
  shows "\<exists>j. row_to_job r = Inr j \<and> job_ok j \<and> state_value (job_state j) = jr_state r \<and> job_id j = jr_job_id r"
proof -
  obtain q p x st where m: "requirements_from_dict (jr_requirements r) = Inr q" "priority_of (jr_priority r) = Some p"
    "read_resume (jr_resume_from r) = Inr x" "0 \<le> jr_preemptions r" "jr_state r = state_value st" "row_shape_ok r st"
    using assms by (auto simp: row_ok_def row_meta_ok_def)
  obtain w where w: "read_waiting (jr_waiting_reason r) = Inr w" "(st = QUEUED) = (w \<noteq> None)"
    using m(6) by (cases st) (auto simp: row_shape_ok_def)
  let ?j = "\<lparr>job_id = jr_job_id r, job_idempotency_key = jr_idempotency_key r, job_caller_id = jr_caller_id r,
           job_repo = jr_repo r, job_base_ref = jr_base_ref r, job_base_sha = jr_base_sha r, job_goal = jr_goal r,
           job_acceptance = jr_acceptance r, job_requirements = q, job_priority = p, job_deadline = jr_deadline r,
           job_not_before = jr_not_before r, job_state = st, job_waiting_reason = w,
           job_failure_reason = jr_failure_reason r, job_eta = jr_eta r, job_eta_confidence = jr_eta_confidence r,
           job_deadline_at_risk = jr_deadline_at_risk r, job_current_run_id = jr_current_run_id r,
           job_run_ids = jr_run_ids r, job_resume_from = x, job_preemptions = jr_preemptions r,
           job_created_at = jr_created_at r, job_updated_at = jr_updated_at r,
           job_request_digest = jr_request_digest r\<rparr>"
  have ok: "job_ok ?j" using m(4,6) w(2)
    by (cases st) (auto simp: job_ok_def row_shape_ok_def truthy_def)
  then have "row_to_job r = Inr ?j" using m w(1) by (simp add: row_to_job_def job_check_ok)
  then show ?thesis using ok m(5) by (intro exI [of _ ?j]) simp
qed

section \<open>The database invariant\<close>

definition job_db_inv :: "job_db \<Rightarrow> bool" where
  "job_db_inv db =
     (distinct (map jr_job_id (db_jobs db))
      \<and> (\<forall>r \<in> set (db_jobs db). row_ok r \<and>
            (\<exists>n. replay None 0 (events_of (jr_job_id r) (db_events db)) = Some (Some (jr_state r), n)))
      \<and> (\<forall>e \<in> set (db_events db). ev_job_id e \<in> jr_job_id ` set (db_jobs db)))"

definition row_step :: "job_row \<Rightarrow> job_row \<Rightarrow> bool" where
  \<comment> \<open>what a transition keeps of a row: identity and request columns, the history of runs, the
     count of preemptions\<close>
  "row_step r r' =
     (jr_job_id r' = jr_job_id r \<and> jr_caller_id r' = jr_caller_id r \<and> jr_idempotency_key r' = jr_idempotency_key r
      \<and> jr_goal r' = jr_goal r \<and> jr_requirements r' = jr_requirements r \<and> jr_priority r' = jr_priority r
      \<and> jr_request_digest r' = jr_request_digest r \<and> jr_created_at r' = jr_created_at r
      \<and> prefix (jr_run_ids r) (jr_run_ids r') \<and> jr_preemptions r \<le> jr_preemptions r')"

lemma row_step_refl [simp]: "row_step r r" by (simp add: row_step_def)

lemma row_step_trans: "row_step a b \<Longrightarrow> row_step b c \<Longrightarrow> row_step a c"
  by (auto simp: row_step_def)

definition set_row :: "string \<Rightarrow> job_row \<Rightarrow> job_row list \<Rightarrow> job_row list" where
  "set_row i r' rows = map (\<lambda>x. if jr_job_id x = i then r' else x) rows"

definition transition_to :: "job_row \<Rightarrow> job_row \<Rightarrow> string \<Rightarrow> string \<Rightarrow> (string \<times> json) list option \<Rightarrow> job_db \<Rightarrow> job_db" where
  \<comment> \<open>the normal form of every successful operation: one row replaced, one event appended\<close>
  "transition_to r r' ts kind payload db =
     \<lparr>db_jobs = set_row (jr_job_id r) r' (db_jobs db),
      db_events = append_event (jr_job_id r) ts kind (Some (jr_state r)) (Some (jr_state r')) payload (db_events db)\<rparr>"

definition good_transition :: "job_row \<Rightarrow> job_row \<Rightarrow> bool" where
  "good_transition r r' =
     (row_step r r' \<and> row_ok r' \<and> (\<exists>s t. jr_state r = state_value s \<and> jr_state r' = state_value t \<and> job_edge s t))"

lemma find_row_Some: "find_row i db = Some r \<Longrightarrow> r \<in> set (db_jobs db) \<and> jr_job_id r = i"
  by (auto simp: find_row_def find_Some_iff)

lemma find_row_None: "find_row i db = None \<longleftrightarrow> i \<notin> jr_job_id ` set (db_jobs db)"
  by (auto simp: find_row_def find_None_iff)

lemma distinct_find:
  "distinct (map jr_job_id rows) \<Longrightarrow> r \<in> set rows \<Longrightarrow> find (\<lambda>x. jr_job_id x = jr_job_id r) rows = Some r"
  by (induction rows) (auto simp: image_iff)

lemma inv_find_row: "job_db_inv db \<Longrightarrow> r \<in> set (db_jobs db) \<Longrightarrow> find_row (jr_job_id r) db = Some r"
  by (simp add: job_db_inv_def find_row_def distinct_find)

lemma inv_row_unique:
  "job_db_inv db \<Longrightarrow> r \<in> set (db_jobs db) \<Longrightarrow> x \<in> set (db_jobs db) \<Longrightarrow> jr_job_id x = jr_job_id r \<Longrightarrow> x = r"
  using inv_find_row [of db r] inv_find_row [of db x] by simp

lemma set_row_ids [simp]: "jr_job_id r' = i \<Longrightarrow> map jr_job_id (set_row i r' rows) = map jr_job_id rows"
  by (simp add: set_row_def)

lemma set_row_members:
  "x \<in> set (set_row i r' rows) \<Longrightarrow> x = r' \<or> x \<in> set rows \<and> jr_job_id x \<noteq> i"
  by (auto simp: set_row_def split: if_splits)

lemma transition_inv:
  assumes "job_db_inv db" "r \<in> set (db_jobs db)" "good_transition r r'"
  shows "job_db_inv (transition_to r r' ts kind payload db)"
proof -
  let ?i = "jr_job_id r"
  have id: "jr_job_id r' = ?i" using assms(3) by (simp add: good_transition_def row_step_def)
  obtain s t where st: "jr_state r = state_value s" "jr_state r' = state_value t" "job_edge s t"
    using assms(3) by (auto simp: good_transition_def)
  obtain n where n: "replay None 0 (events_of ?i (db_events db)) = Some (Some (jr_state r), n)"
    using assms(1,2) by (auto simp: job_db_inv_def)
  let ?db' = "transition_to r r' ts kind payload db"
  have 1: "distinct (map jr_job_id (db_jobs ?db'))"
    using assms(1) id by (simp add: transition_to_def job_db_inv_def)
  have 2: "row_ok x \<and> (\<exists>n. replay None 0 (events_of (jr_job_id x) (db_events ?db')) = Some (Some (jr_state x), n))"
    if x: "x \<in> set (db_jobs ?db')" for x
  proof -
    from x consider "x = r'" | "x \<in> set (db_jobs db)" "jr_job_id x \<noteq> ?i"
      by (auto simp: transition_to_def dest: set_row_members)
    then show ?thesis
    proof cases
      case 1
      have "legal_event \<lparr>ev_job_id = ?i, ev_seq = n + 1, ev_at = ts, ev_kind = kind,
          ev_from_state = Some (jr_state r), ev_to_state = Some (jr_state r'), ev_payload = payload\<rparr>"
        using st by (auto simp: legal_event_def)
      then show ?thesis using 1 id assms(3) n next_seq_replay [OF n]
        by (simp add: transition_to_def good_transition_def replay_append)
    next
      case 2
      then show ?thesis using assms(1) by (auto simp: transition_to_def job_db_inv_def)
    qed
  qed
  have ids: "jr_job_id ` set (db_jobs ?db') = jr_job_id ` set (db_jobs db)"
    using arg_cong [OF set_row_ids [OF id, of "db_jobs db"], of set] by (simp add: transition_to_def)
  have 3: "\<forall>e \<in> set (db_events ?db'). ev_job_id e \<in> jr_job_id ` set (db_jobs ?db')"
    using assms(1,2) unfolding ids by (auto simp: transition_to_def append_event_def job_db_inv_def)
  show ?thesis using 1 2 3 unfolding job_db_inv_def by blast
qed

lemma update_row_set_row:
  assumes "job_db_inv db" "r \<in> set (db_jobs db)" "p r" "\<And>x. p x \<Longrightarrow> jr_job_id x = jr_job_id r"
  shows "update_row p f (db_jobs db) = set_row (jr_job_id r) (f r) (db_jobs db)"
  unfolding update_row_def set_row_def
proof (rule map_cong [OF refl])
  fix x assume x: "x \<in> set (db_jobs db)"
  show "(if p x then f x else x) = (if jr_job_id x = jr_job_id r then f r else x)"
  proof (cases "jr_job_id x = jr_job_id r")
    case True
    from inv_row_unique [OF assms(1,2) x True] show ?thesis using assms(3) by simp
  next
    case False
    then show ?thesis using assms(4) [of x] by (cases "p x") simp_all
  qed
qed

section \<open>Every operation is a transition or writes nothing\<close>

definition machine_result :: "job_db \<Rightarrow> (job_error + job) \<times> job_db \<Rightarrow> bool" where
  "machine_result db res =
     ((\<exists>e. res = (Inl e, db))
      \<or> (\<exists>r r' ts kind payload j. r \<in> set (db_jobs db) \<and> good_transition r r'
           \<and> res = (Inr j, transition_to r r' ts kind payload db) \<and> row_to_job r' = Inr j))"

lemma machine_result_error [simp]: "machine_result db (Inl e, db)"
  by (simp add: machine_result_def)

lemma find_row_transition:
  assumes "job_db_inv db" "r \<in> set (db_jobs db)" "good_transition r r'"
  shows "find_row (jr_job_id r) (transition_to r r' ts kind payload db) = Some r'"
proof -
  have id: "jr_job_id r' = jr_job_id r" using assms(3) by (simp add: good_transition_def row_step_def)
  have "r' \<in> set (db_jobs (transition_to r r' ts kind payload db))"
    using assms(2) by (auto simp: transition_to_def set_row_def image_iff)
  then show ?thesis using inv_find_row [OF transition_inv [OF assms]] id by metis
qed

lemma machine_result_intro:
  assumes "job_db_inv db" "r \<in> set (db_jobs db)" "good_transition r (f r)" "jr_state (f r) = state_value t"
    "p r" "\<And>x. p x \<Longrightarrow> jr_job_id x = jr_job_id r"
  shows "machine_result db (read_back (jr_job_id r)
     \<lparr>db_jobs = update_row p f (db_jobs db),
      db_events = append_event (jr_job_id r) ts kind (Some (jr_state r)) (Some (state_value t)) payload (db_events db)\<rparr>)"
proof -
  obtain j where j: "row_to_job (f r) = Inr j"
    using assms(3) row_ok_loads by (auto simp: good_transition_def)
  have "\<lparr>db_jobs = update_row p f (db_jobs db),
      db_events = append_event (jr_job_id r) ts kind (Some (jr_state r)) (Some (state_value t)) payload (db_events db)\<rparr>
      = transition_to r (f r) ts kind payload db"
    using update_row_set_row [OF assms(1,2), of p f, OF assms(5,6)] assms(4) by (simp add: transition_to_def)
  then show ?thesis
    using find_row_transition [OF assms(1-3)] j assms(2,3)
    unfolding machine_result_def read_back_def load_row_def
    by (intro disjI2 exI [of _ r] exI [of _ "f r"] exI [of _ ts] exI [of _ kind] exI [of _ payload] exI [of _ j]) simp
qed

lemma inv_row_ok: "job_db_inv db \<Longrightarrow> r \<in> set (db_jobs db) \<Longrightarrow> row_ok r"
  by (simp add: job_db_inv_def)

lemma dispatch_good:
  assumes "row_ok r" "jr_state r = state_value QUEUED" "run \<noteq> []"
  shows "good_transition r (r\<lparr>jr_state := state_value RUNNING, jr_waiting_reason := None,
     jr_current_run_id := Some run, jr_run_ids := jr_run_ids r @ [run], jr_updated_at := u\<rparr>)"
    (is "good_transition r ?r'")
proof -
  have "row_shape_ok ?r' RUNNING"
    using assms(3) row_ok_state [OF assms(1,2)] by (simp add: row_shape_ok_def)
  then have "row_ok ?r'" using assms(1) unfolding row_ok_def row_meta_ok_def by auto
  moreover have "row_step r ?r'" by (simp add: row_step_def)
  moreover have "jr_state ?r' = state_value RUNNING" by simp
  ultimately show ?thesis using assms(2) edge_dispatch unfolding good_transition_def by blast
qed

lemma mark_dispatched_result: "job_db_inv db \<Longrightarrow> machine_result db (mark_dispatched i run now db)"
proof -
  assume inv: "job_db_inv db"
  show ?thesis
  proof (cases "py_strip run = [] \<or> find_row i db = None")
    case False
    then obtain r where r: "find_row i db = Some r" "py_strip run \<noteq> []" by auto
    note m = find_row_Some [OF r(1)]
    show ?thesis
    proof (cases "jr_state r = state_value QUEUED")
      case True
      let ?f = "\<lambda>x. x\<lparr>jr_state := state_value RUNNING, jr_waiting_reason := None,
                       jr_current_run_id := Some (py_strip run), jr_run_ids := jr_run_ids r @ [py_strip run],
                       jr_updated_at := utcnow_iso now\<rparr>"
      have "machine_result db (read_back (jr_job_id r)
         \<lparr>db_jobs = update_row (\<lambda>x. jr_job_id x = i \<and> jr_state x = state_value QUEUED) ?f (db_jobs db),
          db_events = append_event (jr_job_id r) (utcnow_iso now) ''dispatched'' (Some (jr_state r)) (Some (state_value RUNNING))
            (Some [(''run_id'', JStr (py_strip run))]) (db_events db)\<rparr>)"
        using m True by (intro machine_result_intro [OF inv] dispatch_good inv_row_ok [OF inv] r(2)) auto
      then show ?thesis using m True r by (simp add: mark_dispatched_def)
    qed (use r in \<open>simp add: mark_dispatched_def\<close>)
  qed (auto simp: mark_dispatched_def)
qed

lemma cas_result:
  assumes "job_db_inv db" "job_edge s t"
    and "\<And>r. row_ok r \<Longrightarrow> jr_state r = state_value s \<Longrightarrow>
          good_transition r ((upd r)\<lparr>jr_updated_at := utcnow_iso now\<rparr>) \<and> jr_state (upd r) = state_value t"
  shows "machine_result db (cas i s upd kind t payload now db)"
proof (cases "find_row i db")
  case None
  then have "\<not> list_ex (\<lambda>r. jr_job_id r = i \<and> jr_state r = state_value s) (db_jobs db)"
    by (auto simp: find_row_None list_ex_iff)
  then show ?thesis using None by (simp add: cas_def)
next
  case (Some r)
  note m = find_row_Some [OF Some]
  show ?thesis
  proof (cases "jr_state r = state_value s")
    case True
    then have "list_ex (\<lambda>r. jr_job_id r = i \<and> jr_state r = state_value s) (db_jobs db)"
      using m by (auto simp: list_ex_iff)
    moreover have "machine_result db (read_back (jr_job_id r)
         \<lparr>db_jobs = update_row (\<lambda>x. jr_job_id x = i \<and> jr_state x = state_value s)
              (\<lambda>x. (upd x)\<lparr>jr_updated_at := utcnow_iso now\<rparr>) (db_jobs db),
          db_events = append_event (jr_job_id r) (utcnow_iso now) kind (Some (jr_state r)) (Some (state_value t)) payload (db_events db)\<rparr>)"
      using m True assms(3) [OF inv_row_ok [OF assms(1)], of r] by (intro machine_result_intro [OF assms(1)]) auto
    ultimately show ?thesis using m True by (simp add: cas_def)
  next
    case False
    then have "\<not> list_ex (\<lambda>r. jr_job_id r = i \<and> jr_state r = state_value s) (db_jobs db)"
      using m inv_row_unique [OF assms(1)] by (auto simp: list_ex_iff)
    then show ?thesis using Some by (simp add: cas_def)
  qed
qed

lemmas row_defs = good_transition_def row_step_def row_ok_def row_meta_ok_def

lemma set_waiting_cas_result: "job_db_inv db \<Longrightarrow> machine_result db (set_waiting_cas i want eta conf now db)"
  unfolding set_waiting_cas_def
  by (rule cas_result [OF _ edge_wait], assumption)
     (use edge_wait in \<open>fastforce simp: row_defs waiting_update_def row_shape_ok_def\<close>)

lemma cancel_cas_result:
  "job_db_inv db \<Longrightarrow> s = QUEUED \<or> s = RUNNING \<Longrightarrow> machine_result db (cancel_cas i s now db)"
  unfolding cancel_cas_def
proof (rule cas_result)
  assume s: "s = QUEUED \<or> s = RUNNING"
  then show e: "job_edge s CANCELLED" using edge_cancel_queued edge_cancel_running by blast
  fix r assume "row_ok r" "jr_state r = state_value s"
  with e s row_ok_state [OF this] show "good_transition r ((cancel_update r)\<lparr>jr_updated_at := utcnow_iso now\<rparr>) \<and> jr_state (cancel_update r) = state_value CANCELLED"
    by (auto simp: row_defs cancel_update_def row_shape_ok_def intro!: exI [of _ CANCELLED])
qed

definition reconcile_args_ok :: "job_state \<Rightarrow> string option \<Rightarrow> bool" where
  \<comment> \<open>the outcomes the callers reconcile to: success, or failure with a known reason\<close>
  "reconcile_args_ok t failure = (t = SUCCEEDED \<and> failure = None \<or> t = FAILED \<and> (\<exists>f. failure = Some f \<and> failure_reason_known f))"

lemma reconcile_cas_result:
  "job_db_inv db \<Longrightarrow> reconcile_args_ok t failure \<Longrightarrow> machine_result db (reconcile_cas i t failure now db)"
  unfolding reconcile_cas_def
proof (rule cas_result)
  assume a: "reconcile_args_ok t failure"
  then show e: "job_edge RUNNING t" using edge_succeed edge_fail by (auto simp: reconcile_args_ok_def)
  fix r assume "row_ok r" "jr_state r = state_value RUNNING"
  with e a row_ok_state [OF this]
  show "good_transition r ((reconcile_update t failure r)\<lparr>jr_updated_at := utcnow_iso now\<rparr>) \<and>
      jr_state (reconcile_update t failure r) = state_value t"
    by (auto simp: row_defs reconcile_update_def row_shape_ok_def reconcile_args_ok_def intro!: exI [of _ t])
qed

definition resume_valid :: "resume_from option \<Rightarrow> bool" where
  \<comment> \<open>a value the \<open>ResumeFrom\<close> constructor accepts\<close>
  "resume_valid v = (case v of None \<Rightarrow> True
     | Some r \<Rightarrow> resume_from_of (rf_run_id r) (rf_checkpoint_sha r) (rf_handoff_id r) = Inr r)"

lemma read_resume_to_dict: "resume_valid v \<Longrightarrow> read_resume (map_option resume_to_dict v) = Inr v"
  by (cases v) (simp_all add: resume_valid_def read_resume_def resume_from_dict_def resume_to_dict_def)

lemma requeue_good:
  assumes "row_ok r" "jr_state r = state_value RUNNING" "resume_valid resume"
  shows "good_transition r (requeue_update want resume nb (bumped want (jr_preemptions r)) now r)"
  using assms edge_requeue read_resume_to_dict [OF assms(3)]
  by (auto simp: row_defs requeue_update_def row_shape_ok_def bumped_def
      intro!: exI [of _ RUNNING] exI [of _ QUEUED])

lemma requeue_result:
  assumes "job_db_inv db" "resume_valid resume"
  shows "machine_result db (requeue i want resume nb now db)"
proof (cases "find_row i db")
  case (Some r)
  note m = find_row_Some [OF Some]
  let ?nb = "if nb \<noteq> None then nb else jr_not_before r"
  show ?thesis
  proof (cases "jr_state r = state_value RUNNING")
    case True
    have "machine_result db (read_back (jr_job_id r)
      \<lparr>db_jobs = update_row (\<lambda>x. jr_job_id x = i \<and> jr_state x = state_value RUNNING)
          (requeue_update want resume ?nb (bumped want (jr_preemptions r)) now) (db_jobs db),
       db_events = append_event (jr_job_id r) (utcnow_iso now) ''requeued'' (Some (jr_state r)) (Some (state_value QUEUED))
          (Some [(''waiting_reason'', JStr (waiting_value want)), (''preemptions'', JInt (bumped want (jr_preemptions r)))])
          (db_events db)\<rparr>)"
      using m True assms
      by (intro machine_result_intro requeue_good inv_row_ok [OF assms(1)]) (auto simp: requeue_update_def)
    then show ?thesis using m True Some by (simp add: requeue_def Let_def)
  qed (use Some in \<open>simp add: requeue_def\<close>)
qed (simp add: requeue_def)

lemma requeue_exact_result:
  assumes "job_db_inv db" "resume_valid resume"
  shows "machine_result db (requeue_exact i want run pre resume nb now db)"
proof (cases "run = [] \<or> find_row i db = None")
  case False
  then obtain r where r: "find_row i db = Some r" "run \<noteq> []" by auto
  note m = find_row_Some [OF r(1)]
  let ?nb = "if nb \<noteq> None then nb else jr_not_before r"
  show ?thesis
  proof (cases "jr_state r = state_value RUNNING \<and> jr_current_run_id r = Some run \<and> jr_preemptions r = pre")
    case True
    have "machine_result db (read_back (jr_job_id r)
      \<lparr>db_jobs = update_row (\<lambda>x. jr_job_id x = i \<and> jr_state x = state_value RUNNING
              \<and> jr_current_run_id x = Some run \<and> jr_preemptions x = pre)
          (requeue_update want resume ?nb (bumped want (jr_preemptions r)) now) (db_jobs db),
       db_events = append_event (jr_job_id r) (utcnow_iso now) ''requeued'' (Some (jr_state r)) (Some (state_value QUEUED))
          (Some [(''waiting_reason'', JStr (waiting_value want)), (''preemptions'', JInt (bumped want (jr_preemptions r))),
             (''preempted_run_id'', JStr run)])
          (db_events db)\<rparr>)"
      using m True assms
      by (intro machine_result_intro requeue_good inv_row_ok [OF assms(1)]) (auto simp: requeue_update_def)
    then show ?thesis using m True r by (simp add: requeue_exact_def Let_def)
  qed (use r in \<open>auto simp: requeue_exact_def\<close>)
qed (auto simp: requeue_exact_def)

section \<open>All writers together\<close>

definition new_job :: "job \<Rightarrow> bool" where
  \<comment> \<open>a job as it is submitted: accepted by the constructors, waiting or refused, without a run\<close>
  "new_job j = (job_ok j \<and> requirements_ok (job_requirements j) \<and> (job_state j = QUEUED \<or> job_state j = FAILED)
     \<and> job_current_run_id j = None \<and> job_run_ids j = [] \<and> job_resume_from j = None)"

inductive job_step :: "job_db \<Rightarrow> job_db \<Rightarrow> bool" where
  step_insert: "new_job j \<Longrightarrow> job_step db (snd (insert_job j now db))"
| step_dispatch: "job_step db (snd (mark_dispatched i run now db))"
| step_waiting: "job_step db (snd (set_waiting_cas i want eta conf now db))"
| step_requeue: "resume_valid resume \<Longrightarrow> job_step db (snd (requeue i want resume nb now db))"
| step_requeue_exact: "resume_valid resume \<Longrightarrow> job_step db (snd (requeue_exact i want run pre resume nb now db))"
| step_cancel: "s = QUEUED \<or> s = RUNNING \<Longrightarrow> job_step db (snd (cancel_cas i s now db))"
| step_reconcile: "reconcile_args_ok t failure \<Longrightarrow> job_step db (snd (reconcile_cas i t failure now db))"

inductive_cases job_stepE: "job_step db db'"

lemma new_row_ok:
  assumes "new_job j"
  shows "row_ok (job_to_columns j)" "jr_state (job_to_columns j) = state_value (job_state j)"
proof -
  have "row_shape_ok (job_to_columns j) (job_state j)"
    using assms by (cases "job_state j") (auto simp: new_job_def job_ok_def row_shape_ok_def job_to_columns_def)
  moreover have "row_meta_ok (job_to_columns j)"
    using assms by (auto simp: row_meta_ok_def job_to_columns_def new_job_def job_ok_def
        requirements_round_trip_aux read_resume_def)
  ultimately show "row_ok (job_to_columns j)" by (auto simp: row_ok_def job_to_columns_def)
qed (simp add: job_to_columns_def)

lemma replay_fresh: "\<forall>e \<in> set evs. ev_job_id e \<noteq> i \<Longrightarrow> events_of i evs = []"
  by (simp add: events_of_def filter_empty_conv)

lemma insert_job_cases:
  "snd (insert_job j now db) = db \<or>
   (job_id j \<notin> jr_job_id ` set (db_jobs db) \<and>
    (\<exists>payload. snd (insert_job j now db) =
      \<lparr>db_jobs = db_jobs db @ [job_to_columns j],
       db_events = append_event (job_id j) (utcnow_iso now) ''submitted'' None (Some (state_value (job_state j))) payload (db_events db)\<rparr>))"
  by (auto simp: insert_job_def Let_def job_to_columns_def)

lemma insert_row_inv:
  assumes "job_db_inv db" "row_ok r'" "jr_job_id r' \<notin> jr_job_id ` set (db_jobs db)"
    "jr_state r' = state_value QUEUED \<or> jr_state r' = state_value FAILED"
  shows "job_db_inv \<lparr>db_jobs = db_jobs db @ [r'],
     db_events = append_event (jr_job_id r') ts ''submitted'' None (Some (jr_state r')) payload (db_events db)\<rparr>"
proof -
  define i where "i = jr_job_id r'"
  define evs where "evs = append_event i ts ''submitted'' None (Some (jr_state r')) payload (db_events db)"
  have none: "events_of i (db_events db) = []"
    by (rule replay_fresh) (use assms(1,3) in \<open>unfold job_db_inv_def i_def, metis\<close>)
  have "next_seq i (db_events db) = 1" using next_seq_replay [of i "db_events db" None 0] none by simp
  then have new: "replay None 0 (events_of i evs) = Some (Some (jr_state r'), 1)"
    using none assms(4) by (auto simp: legal_event_def evs_def)
  have old: "events_of (jr_job_id r) evs = events_of (jr_job_id r) (db_events db)" if "r \<in> set (db_jobs db)" for r
    using that assms(3) by (auto simp: evs_def i_def)
  have rows: "row_ok r \<and> (\<exists>n. replay None 0 (events_of (jr_job_id r) evs) = Some (Some (jr_state r), n))"
    if "r \<in> set (db_jobs db @ [r'])" for r
  proof (cases "r \<in> set (db_jobs db)")
    case True
    then show ?thesis using assms(1) unfolding old [OF True] job_db_inv_def by blast
  next
    case False
    then have "r = r'" using that by simp
    then show ?thesis using assms(2) new i_def by blast
  qed
  have ids: "distinct (map jr_job_id (db_jobs db @ [r']))"
    using assms(1,3) by (simp add: job_db_inv_def)
  have fk: "\<forall>e \<in> set evs. ev_job_id e \<in> jr_job_id ` set (db_jobs db @ [r'])"
    using assms(1) by (simp add: evs_def append_event_def job_db_inv_def i_def)
  show ?thesis
    unfolding job_db_inv_def job_db.select_convs using rows ids fk unfolding evs_def i_def by blast
qed

lemma insert_inv:
  assumes "new_job j" "job_db_inv db"
  shows "job_db_inv (snd (insert_job j now db))"
proof -
  have id: "jr_job_id (job_to_columns j) = job_id j" by (simp add: job_to_columns_def)
  have st: "jr_state (job_to_columns j) = state_value QUEUED \<or> jr_state (job_to_columns j) = state_value FAILED"
    using new_row_ok(2) [OF assms(1)] assms(1) by (auto simp: new_job_def)
  note ins = insert_row_inv [OF assms(2) new_row_ok(1) [OF assms(1)] _ st, unfolded id new_row_ok(2) [OF assms(1)]]
  from insert_job_cases [of j now db] show ?thesis
  proof (elim disjE conjE exE)
    assume "snd (insert_job j now db) = db"
    then show ?thesis using assms(2) by simp
  next
    fix payload
    assume new: "job_id j \<notin> jr_job_id ` set (db_jobs db)" and eq: "snd (insert_job j now db) =
      \<lparr>db_jobs = db_jobs db @ [job_to_columns j],
       db_events = append_event (job_id j) (utcnow_iso now) ''submitted'' None (Some (state_value (job_state j))) payload (db_events db)\<rparr>"
    show ?thesis unfolding eq by (rule ins [OF new])
  qed
qed

lemma machine_result_inv: "job_db_inv db \<Longrightarrow> machine_result db res \<Longrightarrow> job_db_inv (snd res)"
  by (auto simp: machine_result_def transition_inv)



lemma job_step_cases:
  assumes "job_db_inv db" "job_step db db'"
  shows "(\<exists>j now. new_job j \<and> db' = snd (insert_job j now db)) \<or> (\<exists>res. machine_result db res \<and> db' = snd res)"
  using assms(2)
proof (cases rule: job_step.cases)
  case (step_insert j now)
  then show ?thesis by (intro disjI1 exI conjI)
next
  case (step_dispatch i run now)
  with mark_dispatched_result [OF assms(1)] show ?thesis by blast
next
  case (step_waiting i want eta conf now)
  with set_waiting_cas_result [OF assms(1)] show ?thesis by blast
next
  case (step_requeue resume i want nb now)
  with requeue_result [OF assms(1)] show ?thesis by blast
next
  case (step_requeue_exact resume i want run pre nb now)
  with requeue_exact_result [OF assms(1)] show ?thesis by blast
next
  case (step_cancel s i now)
  with cancel_cas_result [OF assms(1)] show ?thesis by blast
next
  case (step_reconcile t failure i now)
  with reconcile_cas_result [OF assms(1)] show ?thesis by blast
qed

lemma job_step_inv: "job_db_inv db \<Longrightarrow> job_step db db' \<Longrightarrow> job_db_inv db'"
  using job_step_cases [of db db'] insert_inv machine_result_inv by blast

interpretation job_machine: stepwise job_step job_db_inv
  by unfold_locales (rule job_step_inv)

definition empty_job_db :: job_db where
  "empty_job_db = \<lparr>db_jobs = [], db_events = []\<rparr>"

lemma empty_job_db_inv: "job_db_inv empty_job_db"
  by (simp add: job_db_inv_def empty_job_db_def)

definition keeps_rows :: "job_db \<Rightarrow> job_db \<Rightarrow> bool" where
  "keeps_rows db db' =
     (\<forall>r \<in> set (db_jobs db). \<exists>r' \<in> set (db_jobs db'). row_step r r'
        \<and> (\<forall>s. jr_state r = state_value s \<and> terminal_state s \<longrightarrow> r' = r))"

lemma keeps_rows_trans:
  assumes "keeps_rows a b" "keeps_rows b c"
  shows "keeps_rows a c"
  unfolding keeps_rows_def
proof
  fix r assume "r \<in> set (db_jobs a)"
  then obtain r1 where 1: "r1 \<in> set (db_jobs b)" "row_step r r1" "\<forall>s. jr_state r = state_value s \<and> terminal_state s \<longrightarrow> r1 = r"
    using assms(1) by (auto simp: keeps_rows_def)
  then obtain r2 where 2: "r2 \<in> set (db_jobs c)" "row_step r1 r2" "\<forall>s. jr_state r1 = state_value s \<and> terminal_state s \<longrightarrow> r2 = r1"
    using assms(2) by (auto simp: keeps_rows_def)
  have "row_step r r2" using row_step_trans 1 2 by blast
  moreover have "\<forall>s. jr_state r = state_value s \<and> terminal_state s \<longrightarrow> r2 = r" using 1(3) 2(3) by blast
  ultimately show "\<exists>r' \<in> set (db_jobs c). row_step r r' \<and> (\<forall>s. jr_state r = state_value s \<and> terminal_state s \<longrightarrow> r' = r)"
    using 2(1) by blast
qed

lemma keeps_rows_transition:
  assumes "job_db_inv db" "r \<in> set (db_jobs db)" "good_transition r r'"
  shows "keeps_rows db (transition_to r r' ts kind payload db)"
  unfolding keeps_rows_def
proof
  fix x assume x: "x \<in> set (db_jobs db)"
  show "\<exists>x' \<in> set (db_jobs (transition_to r r' ts kind payload db)). row_step x x'
      \<and> (\<forall>s. jr_state x = state_value s \<and> terminal_state s \<longrightarrow> x' = x)"
  proof (cases "jr_job_id x = jr_job_id r")
    case True
    then have "x = r" using inv_row_unique [OF assms(1,2) x] by simp
    moreover have "r' \<in> set (db_jobs (transition_to r r' ts kind payload db))"
      using assms(2) by (auto simp: transition_to_def set_row_def image_iff)
    moreover have "\<not> (jr_state r = state_value s \<and> terminal_state s)" for s
      using assms(3) terminal_no_edge by (auto simp: good_transition_def)
    ultimately show ?thesis using assms(3) by (auto simp: good_transition_def)
  next
    case False
    then have "x \<in> set (db_jobs (transition_to r r' ts kind payload db))"
      using x by (auto simp: transition_to_def set_row_def image_iff)
    then show ?thesis using row_step_refl by blast
  qed
qed

lemma keeps_rows_subset: "set (db_jobs db) \<subseteq> set (db_jobs db') \<Longrightarrow> keeps_rows db db'"
  unfolding keeps_rows_def using row_step_refl by blast

lemma job_step_keeps_rows: "job_db_inv db \<Longrightarrow> job_step db db' \<Longrightarrow> keeps_rows db db'"
proof -
  assume inv: "job_db_inv db" and s: "job_step db db'"
  have "keeps_rows db (snd (insert_job j now db))" for j now
    using insert_job_cases [of j now db] by (auto intro!: keeps_rows_subset)
  moreover have "keeps_rows db (snd res)" if "machine_result db res" for res
    using that keeps_rows_transition [OF inv] keeps_rows_subset [of db db] by (auto simp: machine_result_def)
  ultimately show ?thesis using job_step_cases [OF inv s] by blast
qed

text \<open>C27: Every stored job loads, and its event log is a run of the state machine.  After any
  sequence of transactions of any writers from the empty database, each row is read back
  without an error as a job that satisfies the constructor's invariant, job ids are unique, and
  the job's events are numbered 1, 2, ..., each starts in the state the previous one ended in, is
  a submission or a legal edge, and the last one ends in the row's state.\<close>
theorem job_log_is_a_run:
  assumes "job_step\<^sup>*\<^sup>* empty_job_db db" "r \<in> set (db_jobs db)"
  shows "(\<exists>j. row_to_job r = Inr j \<and> job_ok j \<and> state_value (job_state j) = jr_state r)
    \<and> distinct (map jr_job_id (db_jobs db))
    \<and> (\<exists>n. replay None 0 (events_of (jr_job_id r) (db_events db)) = Some (Some (jr_state r), n)
           \<and> n = int (length (events_of (jr_job_id r) (db_events db))))"
proof -
  have inv: "job_db_inv db" by (rule job_machine.steps_inv [OF assms(1) empty_job_db_inv])
  then show ?thesis
    using assms(2) row_ok_loads [of r] replay_count by (fastforce simp: job_db_inv_def)
qed

definition sample_job :: job where
  "sample_job = \<lparr>job_id = ''J1'', job_idempotency_key = Some ''k'', job_caller_id = ''cli'', job_repo = ''/r'',
     job_base_ref = ''main'', job_base_sha = ''abc'', job_goal = ''g'', job_acceptance = None,
     job_requirements = sample_requirements, job_priority = NORMAL, job_deadline = None, job_not_before = None,
     job_state = QUEUED, job_waiting_reason = Some NEW, job_failure_reason = None, job_eta = None,
     job_eta_confidence = None, job_deadline_at_risk = False, job_current_run_id = None, job_run_ids = [],
     job_resume_from = None, job_preemptions = 0, job_created_at = ''2026-10-20T10:00:00+00:00'',
     job_updated_at = ''2026-10-20T10:00:00+00:00'', job_request_digest = ''d''\<rparr>"

lemma sample_job_new: "new_job sample_job"
proof -
  have "requirements_ok sample_requirements"
    by (rule requirements_of_ok [of WORKER "Some Effort_high" "[''STREAMING'', ''read_only '', ''streaming'']" True
          "['' gpt'']" "[''claude '']" "Some ''M''"]) code_simp
  then show ?thesis by (simp add: new_job_def job_ok_def sample_job_def)
qed

definition sample_db1 :: job_db where "sample_db1 = snd (insert_job sample_job 0 empty_job_db)"
definition sample_db2 :: job_db where "sample_db2 = snd (mark_dispatched ''J1'' '' run-1 '' 1 sample_db1)"

lemma sample_db1_reach: "job_step\<^sup>*\<^sup>* empty_job_db sample_db1"
  unfolding sample_db1_def by (rule r_into_rtranclp, rule step_insert [OF sample_job_new])

lemma sample_db2_reach: "job_step\<^sup>*\<^sup>* empty_job_db sample_db2"
  unfolding sample_db2_def by (rule rtranclp.rtrancl_into_rtrancl [OF sample_db1_reach step_dispatch])

lemma sample_db2_row: "find_row ''J1'' sample_db2 \<noteq> None \<and> map jr_state (db_jobs sample_db2) = [''RUNNING'']"
  by code_simp

theorem job_log_is_a_run_witness:
  "\<exists>r \<in> set (db_jobs sample_db2). (\<exists>j. row_to_job r = Inr j \<and> job_ok j \<and> state_value (job_state j) = jr_state r)
     \<and> jr_state r = ''RUNNING''"
proof -
  obtain r where r: "find_row ''J1'' sample_db2 = Some r" using sample_db2_row by auto
  have "jr_state r = ''RUNNING''" using sample_db2_row find_row_Some [OF r] by auto
  then show ?thesis using job_log_is_a_run [OF sample_db2_reach, of r] find_row_Some [OF r] by blast
qed

text \<open>What no writer can undo.  Along any further sequence of transactions every job row stays:
  its identity, request, priority and creation time never change, its list of runs only grows
  at the end, its preemption count never falls, and a row in a terminal state is never
  changed again in any column.\<close>
theorem job_history_is_monotone:
  assumes "job_step\<^sup>*\<^sup>* empty_job_db db" "job_step\<^sup>*\<^sup>* db db'" "r \<in> set (db_jobs db)"
  shows "\<exists>r' \<in> set (db_jobs db'). jr_job_id r' = jr_job_id r \<and> jr_goal r' = jr_goal r
      \<and> jr_requirements r' = jr_requirements r \<and> jr_priority r' = jr_priority r \<and> jr_created_at r' = jr_created_at r
      \<and> prefix (jr_run_ids r) (jr_run_ids r') \<and> jr_preemptions r \<le> jr_preemptions r'
      \<and> (\<forall>s. jr_state r = state_value s \<and> terminal_state s \<longrightarrow> r' = r)"
proof -
  have inv: "job_db_inv db" by (rule job_machine.steps_inv [OF assms(1) empty_job_db_inv])
  have refl: "keeps_rows x x" for x by (rule keeps_rows_subset) simp
  have "keeps_rows db db'"
    by (rule job_machine.steps_rel [OF assms(2) inv]) (use refl keeps_rows_trans job_step_keeps_rows in blast)+
  then show ?thesis using assms(3) unfolding keeps_rows_def row_step_def by blast
qed

theorem job_history_is_monotone_witness:
  "\<exists>r' \<in> set (db_jobs (snd (requeue ''J1'' PREEMPTED None None 5 sample_db2))). jr_goal r' = ''g'' \<and> prefix [''run-1''] (jr_run_ids r')"
proof -
  obtain r where r: "find_row ''J1'' sample_db2 = Some r" using sample_db2_row by auto
  have "map (\<lambda>r. (jr_goal r, jr_run_ids r)) (db_jobs sample_db2) = [(''g'', [''run-1''])]" by code_simp
  then have "jr_goal r = ''g''" "jr_run_ids r = [''run-1'']" using find_row_Some [OF r] by auto
  moreover have "job_step\<^sup>*\<^sup>* sample_db2 (snd (requeue ''J1'' PREEMPTED None None 5 sample_db2))"
    by (rule r_into_rtranclp, rule step_requeue) (simp add: resume_valid_def)
  ultimately show ?thesis
    using job_history_is_monotone [OF sample_db2_reach _, of "snd (requeue ''J1'' PREEMPTED None None 5 sample_db2)" r]
      find_row_Some [OF r] by auto
qed

section \<open>Functional behaviour\<close>

lemma read_waiting_map [simp]: "read_waiting (map_option waiting_value w) = Inr w"
  by (cases w) simp_all

text \<open>C40: Storing a job loses nothing.  For every job the constructors accept, the row written for
  it is read back as exactly that job: requirements, state, waiting and failure reason, run
  history, resume point, deadlines and counters included.\<close>
theorem job_row_round_trip:
  assumes "job_check j = Inr j'" "requirements_ok (job_requirements j)" "resume_valid (job_resume_from j)"
  shows "row_to_job (job_to_columns j) = Inr j"
  using assms
  by (cases j) (simp add: row_to_job_def job_to_columns_def requirements_round_trip_aux read_resume_to_dict job_check_iff)

theorem job_row_round_trip_witness: "row_to_job (job_to_columns sample_job) = Inr sample_job"
proof (rule job_row_round_trip)
  show "job_check sample_job = Inr sample_job" using sample_job_new by (simp add: job_check_iff new_job_def)
  show "requirements_ok (job_requirements sample_job)" using sample_job_new by (simp add: new_job_def)
  show "resume_valid (job_resume_from sample_job)" by (simp add: sample_job_def resume_valid_def)
qed

lemma machine_result_success:
  assumes "job_db_inv db" "machine_result db (Inr j, db')"
  shows "\<exists>r r'. r \<in> set (db_jobs db) \<and> good_transition r r' \<and> row_to_job r' = Inr j \<and> find_row (jr_job_id r) db' = Some r'"
  using assms find_row_transition [OF assms(1)] by (auto simp: machine_result_def)

lemma mark_dispatched_success:
  assumes "job_db_inv db" "mark_dispatched i run now db = (Inr j, db')"
  shows "\<exists>r r'. find_row i db = Some r \<and> jr_state r = state_value QUEUED \<and> find_row i db' = Some r'
     \<and> jr_state r' = state_value RUNNING \<and> jr_current_run_id r' = Some (py_strip run)
     \<and> jr_run_ids r' = jr_run_ids r @ [py_strip run] \<and> row_to_job r' = Inr j"
proof -
  obtain r where r: "find_row i db = Some r" "jr_state r = state_value QUEUED" "py_strip run \<noteq> []"
    using assms(2) by (auto simp: mark_dispatched_def split: if_splits option.splits)
  note m = find_row_Some [OF r(1)]
  let ?f = "\<lambda>x. x\<lparr>jr_state := state_value RUNNING, jr_waiting_reason := None,
       jr_current_run_id := Some (py_strip run), jr_run_ids := jr_run_ids r @ [py_strip run],
       jr_updated_at := utcnow_iso now\<rparr>"
  have g: "good_transition r (?f r)" by (rule dispatch_good [OF inv_row_ok [OF assms(1)]]) (use m r in auto)
  let ?u = "transition_to r (?f r) (utcnow_iso now) ''dispatched'' (Some [(''run_id'', JStr (py_strip run))]) db"
  have upd: "update_row (\<lambda>x. jr_job_id x = i \<and> jr_state x = state_value QUEUED) ?f (db_jobs db) = set_row (jr_job_id r) (?f r) (db_jobs db)"
    by (rule update_row_set_row [OF assms(1)]) (use m r in auto)
  have "mark_dispatched i run now db = read_back i ?u"
    using r m upd by (simp add: mark_dispatched_def transition_to_def)
  moreover have f: "find_row i ?u = Some (?f r)" using find_row_transition [OF assms(1) _ g] m by simp
  ultimately have "(load_row (?f r), ?u) = (Inr j, db')" using assms(2) by (simp add: read_back_def)
  then have "row_to_job (?f r) = Inr j" "db' = ?u" by (auto simp: load_row_def split: sum.splits)
  then show ?thesis using f r by (intro exI [of _ r] exI [of _ "?f r"]) simp
qed

text \<open>C26: A job is dispatched once.  When a dispatch succeeds on a reachable database, the job was
  queued, it is now running the given run, which was appended to its runs, and every further
  dispatch of it on the resulting database, by whichever writer and at whatever time, is
  refused and writes nothing.\<close>
theorem dispatch_is_exclusive:
  assumes "job_step\<^sup>*\<^sup>* empty_job_db db" "mark_dispatched i run now db = (Inr j, db')"
  shows "\<exists>r. find_row i db = Some r \<and> jr_state r = ''QUEUED''
      \<and> job_state j = RUNNING \<and> job_current_run_id j = Some (py_strip run) \<and> job_run_ids j = jr_run_ids r @ [py_strip run]
      \<and> (\<forall>run' now'. \<exists>e. mark_dispatched i run' now' db' = (Inl e, db'))"
proof -
  have inv: "job_db_inv db" by (rule job_machine.steps_inv [OF assms(1) empty_job_db_inv])
  obtain r r' where r: "find_row i db = Some r" "jr_state r = state_value QUEUED" "find_row i db' = Some r'"
    "jr_state r' = state_value RUNNING" "jr_current_run_id r' = Some (py_strip run)"
    "jr_run_ids r' = jr_run_ids r @ [py_strip run]" "row_to_job r' = Inr j"
    using mark_dispatched_success [OF inv assms(2)] by blast
  have j: "state_value (job_state j) = state_value RUNNING" "job_current_run_id j = Some (py_strip run)"
    "job_run_ids j = jr_run_ids r @ [py_strip run]"
    using r(4-7) state_of_value by (auto simp: row_to_job_def job_check_iff split: sum.splits option.splits)
  have "\<exists>e. mark_dispatched i run' now' db' = (Inl e, db')" for run' now'
    using r(3,4) by (simp add: mark_dispatched_def)
  moreover have "job_state j = RUNNING" "jr_state r = ''QUEUED''" using j(1) r(2) by (simp, simp add: state_value_def)
  ultimately show ?thesis using r(1) j by blast
qed

theorem dispatch_is_exclusive_witness:
  "\<exists>j. mark_dispatched ''J1'' '' run-1 '' 1 sample_db1 = (Inr j, sample_db2) \<and> job_state j = RUNNING
     \<and> (\<exists>e. mark_dispatched ''J1'' ''run-2'' 2 sample_db2 = (Inl e, sample_db2))"
proof -
  have "(case fst (mark_dispatched ''J1'' '' run-1 '' 1 sample_db1) of Inr _ \<Rightarrow> True | _ \<Rightarrow> False)" by code_simp
  then obtain j where j: "mark_dispatched ''J1'' '' run-1 '' 1 sample_db1 = (Inr j, sample_db2)"
    by (cases "mark_dispatched ''J1'' '' run-1 '' 1 sample_db1") (auto simp: sample_db2_def split: sum.splits)
  then show ?thesis using dispatch_is_exclusive [OF sample_db1_reach j] by blast
qed

text \<open>The exact requeue is fenced to its generation.  If it succeeds on a reachable database,
  the job was running exactly the expected run with exactly the expected preemption count, is
  now queued without a run, and the count grew by one for a preemption and stayed
  otherwise; a replay of the same call is refused.  If the job runs anything else, nothing is
  written.\<close>
theorem requeue_exact_is_fenced:
  assumes "job_step\<^sup>*\<^sup>* empty_job_db db" "resume_valid resume"
  shows "case requeue_exact i want run pre resume nb now db of
      (Inr j, db') \<Rightarrow>
        (\<exists>r. find_row i db = Some r \<and> jr_state r = ''RUNNING'' \<and> jr_current_run_id r = Some run \<and> jr_preemptions r = pre)
        \<and> (\<exists>r'. find_row i db' = Some r' \<and> jr_state r' = ''QUEUED'' \<and> jr_current_run_id r' = None
             \<and> jr_preemptions r' = pre + (if want = PREEMPTED then 1 else 0))
        \<and> (\<forall>resume' nb' now'. requeue_exact i want run pre resume' nb' now' db' = (Inl JobTransition, db'))
    | (Inl e, db') \<Rightarrow> db' = db \<and>
        (\<forall>r. find_row i db = Some r \<longrightarrow> run \<noteq> [] \<longrightarrow>
             \<not> (jr_state r = ''RUNNING'' \<and> jr_current_run_id r = Some run \<and> jr_preemptions r = pre))"
proof -
  have inv: "job_db_inv db" by (rule job_machine.steps_inv [OF assms(1) empty_job_db_inv])
  show ?thesis
  proof (cases "\<exists>r. find_row i db = Some r \<and> run \<noteq> [] \<and> jr_state r = state_value RUNNING \<and> jr_current_run_id r = Some run \<and> jr_preemptions r = pre")
    case True
    then obtain r where r: "find_row i db = Some r" "run \<noteq> []" "jr_state r = state_value RUNNING"
      "jr_current_run_id r = Some run" "jr_preemptions r = pre" by blast
    note m = find_row_Some [OF r(1)]
    let ?nb = "if nb \<noteq> None then nb else jr_not_before r"
    let ?r' = "requeue_update want resume ?nb (bumped want (jr_preemptions r)) now r"
    let ?pay = "Some [(''waiting_reason'', JStr (waiting_value want)), (''preemptions'', JInt (bumped want (jr_preemptions r))),
             (''preempted_run_id'', JStr run)]"
    have g: "good_transition r ?r'" by (rule requeue_good [OF inv_row_ok [OF inv]]) (use m r assms(2) in auto)
    let ?u = "transition_to r ?r' (utcnow_iso now) ''requeued'' ?pay db"
    have upd: "update_row (\<lambda>x. jr_job_id x = i \<and> jr_state x = state_value RUNNING
              \<and> jr_current_run_id x = Some run \<and> jr_preemptions x = pre)
          (requeue_update want resume ?nb (bumped want (jr_preemptions r)) now) (db_jobs db) = set_row (jr_job_id r) ?r' (db_jobs db)"
      by (rule update_row_set_row [OF inv]) (use m r in auto)
    have st: "jr_state ?r' = state_value QUEUED" by (simp add: requeue_update_def)
    have "requeue_exact i want run pre resume nb now db = read_back i ?u"
      using r m upd st by (simp add: requeue_exact_def transition_to_def Let_def)
    moreover have f: "find_row i ?u = Some ?r'" using find_row_transition [OF inv _ g] m by simp
    moreover obtain j where "row_to_job ?r' = Inr j" using g row_ok_loads by (auto simp: good_transition_def)
    ultimately have e: "requeue_exact i want run pre resume nb now db = (Inr j, ?u)" by (simp add: read_back_def load_row_def)
    have "requeue_exact i want run pre resume' nb' now' ?u = (Inl JobTransition, ?u)" for resume' nb' now'
      using f st r(2) by (simp add: requeue_exact_def)
    then show ?thesis using r f st unfolding e by (auto simp: state_value_def requeue_update_def bumped_def)
  next
    case False
    then have "\<exists>e. requeue_exact i want run pre resume nb now db = (Inl e, db)"
      by (auto simp: requeue_exact_def split: option.splits)
    then show ?thesis using False by (auto simp: state_value_def)
  qed
qed

theorem requeue_exact_is_fenced_witness:
  "fst (requeue_exact ''J1'' PREEMPTED ''run-0'' 0 None None 9 sample_db2) = Inl JobConflict
   \<and> snd (requeue_exact ''J1'' PREEMPTED ''run-0'' 0 None None 9 sample_db2) = sample_db2"
proof -
  have "fst (requeue_exact ''J1'' PREEMPTED ''run-0'' 0 None None 9 sample_db2) = Inl JobConflict" by code_simp
  then show ?thesis
    using requeue_exact_is_fenced [OF sample_db2_reach, where resume = None and i = "''J1''" and want = PREEMPTED and run = "''run-0''" and pre = 0 and nb = None and now = 9]
    by (cases "requeue_exact ''J1'' PREEMPTED ''run-0'' 0 None None 9 sample_db2") (auto simp: resume_valid_def)
qed

lemma reconcile_unreadable_row:
  assumes "jr_state r = state_value FAILED" "jr_failure_reason r = None"
  shows "\<exists>e. row_to_job r = Inl e"
  using assms by (auto simp: row_to_job_def job_check_def split: sum.splits option.splits)

text \<open>Reconciling a running job to FAILED without a reason, which the function's default
  argument allows, commits a row nobody can read: the call itself raises after its commit,
  and every later read of the job raises too.\<close>
theorem reconcile_without_reason_breaks_the_row:
  assumes "job_step\<^sup>*\<^sup>* empty_job_db db" "find_row i db = Some r" "jr_state r = ''RUNNING''"
    "reconcile_transition i FAILED None now db = (res, db')"
  shows "(\<exists>e. res = Inl (JobValue e)) \<and> db' \<noteq> db \<and> (\<exists>e. get_job i db' = Inl (JobValue e))"
proof -
  have inv: "job_db_inv db" by (rule job_machine.steps_inv [OF assms(1) empty_job_db_inv])
  note m = find_row_Some [OF assms(2)]
  have st: "jr_state r = state_value RUNNING" using assms(3) by (simp add: state_value_def)
  obtain j where j: "row_to_job r = Inr j" "state_value (job_state j) = state_value RUNNING"
    using row_ok_loads [OF inv_row_ok [OF inv]] m st by metis
  let ?f = "\<lambda>x. (reconcile_update FAILED None x)\<lparr>jr_updated_at := utcnow_iso now\<rparr>"
  let ?db' = "\<lparr>db_jobs = set_row i (?f r) (db_jobs db),
     db_events = append_event i (utcnow_iso now) ''reconciled'' (Some (state_value RUNNING)) (Some (state_value FAILED))
       (Some [(''failure_reason'', json_of_opt None)]) (db_events db)\<rparr>"
  have "update_row (\<lambda>x. jr_job_id x = i \<and> jr_state x = state_value RUNNING) ?f (db_jobs db) = set_row (jr_job_id r) (?f r) (db_jobs db)"
    by (rule update_row_set_row [OF inv]) (use m st in auto)
  then have upd: "update_row (\<lambda>x. jr_job_id x = i \<and> jr_state x = state_value RUNNING) ?f (db_jobs db) = set_row i (?f r) (db_jobs db)"
    using m by simp
  have hit: "list_ex (\<lambda>x. jr_job_id x = i \<and> jr_state x = state_value RUNNING) (db_jobs db)"
    using m st by (auto simp: list_ex_iff)
  have c: "reconcile_transition i FAILED None now db = read_back i ?db'"
    using j assms(2) hit upd
    by (simp add: reconcile_transition_def get_job_def load_row_def require_state_def reconcile_cas_def cas_def)
  have ids: "map jr_job_id (set_row i (?f r) (db_jobs db)) = map jr_job_id (db_jobs db)"
    using m by (intro set_row_ids) (simp add: reconcile_update_def)
  have "?f r \<in> set (set_row i (?f r) (db_jobs db))" using m by (auto simp: set_row_def image_iff)
  then have f: "find_row i ?db' = Some (?f r)"
    using distinct_find [of "set_row i (?f r) (db_jobs db)" "?f r"] ids inv m
    by (simp add: find_row_def job_db_inv_def reconcile_update_def)
  obtain e where e: "row_to_job (?f r) = Inl e"
    using reconcile_unreadable_row [of "?f r"] by (auto simp: reconcile_update_def)
  have "res = Inl (JobValue e)" "db' = ?db'" using assms(4) f e unfolding c by (simp_all add: read_back_def load_row_def)
  moreover have "get_job i ?db' = Inl (JobValue e)" using f e by (simp add: get_job_def load_row_def)
  moreover have "length (db_events ?db') \<noteq> length (db_events db)" by (simp add: append_event_def)
  ultimately show ?thesis by metis
qed

theorem reconcile_without_reason_breaks_the_row_witness:
  "\<exists>res db'. reconcile_transition ''J1'' FAILED None 3 sample_db2 = (res, db') \<and> (\<exists>e. get_job ''J1'' db' = Inl (JobValue e))"
proof -
  obtain r where r: "find_row ''J1'' sample_db2 = Some r" using sample_db2_row by auto
  have "jr_state r = ''RUNNING''" using sample_db2_row find_row_Some [OF r] by auto
  moreover obtain res db' where c: "reconcile_transition ''J1'' FAILED None 3 sample_db2 = (res, db')"
    by (cases "reconcile_transition ''J1'' FAILED None 3 sample_db2") auto
  ultimately show ?thesis using reconcile_without_reason_breaks_the_row [OF sample_db2_reach r _ c] by blast
qed

end
