(* ===== verification/Job_Rows.thy ===== *)
theory Job_Rows
  imports Job_Machine
begin

text \<open>
  Row-wise facts about the operations of the job store, shared by the service and the scheduler
  loop: each operation touches the row of the job it names and no other, and what a successful
  one writes there.
\<close>

section \<open>Locality\<close>

definition only_row :: "string \<Rightarrow> job_db \<Rightarrow> job_db \<Rightarrow> bool" where
  "only_row i db db' \<longleftrightarrow> (\<forall>k. k \<noteq> i \<longrightarrow> find_row k db' = find_row k db)"

lemma only_row_refl [simp]: "only_row i db db"
  by (simp add: only_row_def)

lemma only_row_trans: "only_row i a b \<Longrightarrow> only_row i b c \<Longrightarrow> only_row i a c"
  by (simp add: only_row_def)

lemma find_update_row:
  "(\<And>x. p x \<Longrightarrow> jr_job_id x = i \<and> jr_job_id (f x) = i) \<Longrightarrow> k \<noteq> i \<Longrightarrow>
   find (\<lambda>r. jr_job_id r = k) (update_row p f rows) = find (\<lambda>r. jr_job_id r = k) rows"
  unfolding update_row_def by (induction rows) auto

lemma read_back_db [simp]: "snd (read_back i db) = db"
  by (simp add: read_back_def split: option.splits)

lemma only_row_update:
  assumes "\<And>x. p x \<Longrightarrow> jr_job_id x = i \<and> jr_job_id (f x) = i"
  shows "only_row i db \<lparr>db_jobs = update_row p f (db_jobs db), db_events = evs\<rparr>"
  by (simp add: only_row_def find_row_def find_update_row [OF assms])

lemma only_row_cas: "(\<And>r. jr_job_id (upd r) = jr_job_id r) \<Longrightarrow> only_row i db (snd (cas i s upd kind t payload now db))"
  by (cases "find_row i db") (auto simp: cas_def Let_def intro!: only_row_update)

lemma only_row_mark_dispatched: "only_row i db (snd (mark_dispatched i run now db))"
  by (auto simp: mark_dispatched_def split: option.splits intro!: only_row_update)

lemma requeue_update_id [simp]: "jr_job_id (requeue_update want resume nb p now r) = jr_job_id r"
  by (simp add: requeue_update_def)

lemma only_row_requeue: "only_row i db (snd (requeue i want resume nb now db))"
  by (auto simp: requeue_def Let_def split: option.splits intro!: only_row_update)

lemma only_row_requeue_exact: "only_row i db (snd (requeue_exact i want run pre resume nb now db))"
  by (auto simp: requeue_exact_def Let_def split: option.splits intro!: only_row_update)

lemma only_row_set_waiting: "only_row i db (snd (set_waiting i want eta conf now db))"
  by (auto simp: set_waiting_def set_waiting_cas_def waiting_update_def split: option.splits sum.splits intro!: only_row_cas)

lemma only_row_cancel: "only_row i db (snd (cancel_transition i now db))"
  by (auto simp: cancel_transition_def cancel_cas_def cancel_update_def split: option.splits sum.splits intro!: only_row_cas)

lemma only_row_reconcile: "only_row i db (snd (reconcile_transition i t failure now db))"
  by (auto simp: reconcile_transition_def reconcile_cas_def reconcile_update_def split: option.splits sum.splits intro!: only_row_cas)

section \<open>Successful writes\<close>

lemma update_success:
  assumes "job_db_inv db" "find_row i db = Some r" "good_transition r (f r)" "p r" "\<And>x. p x \<Longrightarrow> jr_job_id x = i"
    "jr_state (f r) = state_value t"
  shows "\<exists>j db'. read_back i \<lparr>db_jobs = update_row p f (db_jobs db),
      db_events = append_event i ts kind (Some (jr_state r)) (Some (state_value t)) payload (db_events db)\<rparr> = (Inr j, db')
    \<and> row_to_job (f r) = Inr j \<and> find_row i db' = Some (f r)"
proof -
  note m = find_row_Some [OF assms(2)]
  have "update_row p f (db_jobs db) = set_row (jr_job_id r) (f r) (db_jobs db)"
    by (rule update_row_set_row [OF assms(1)]) (use m assms(4,5) in auto)
  then have eq: "\<lparr>db_jobs = update_row p f (db_jobs db),
      db_events = append_event i ts kind (Some (jr_state r)) (Some (state_value t)) payload (db_events db)\<rparr>
    = transition_to r (f r) ts kind payload db" using m assms(6) by (simp add: transition_to_def)
  have f: "find_row i (transition_to r (f r) ts kind payload db) = Some (f r)"
    using find_row_transition [OF assms(1) _ assms(3)] m by simp
  obtain j where "row_to_job (f r) = Inr j" using assms(3) row_ok_loads by (auto simp: good_transition_def)
  then show ?thesis using f unfolding eq by (simp add: read_back_def load_row_def)
qed

lemma cas_success:
  assumes "job_db_inv db" "find_row i db = Some r" "jr_state r = state_value s"
    "good_transition r ((upd r)\<lparr>jr_updated_at := utcnow_iso now\<rparr>)" "jr_state (upd r) = state_value t"
  shows "\<exists>j db'. cas i s upd kind t payload now db = (Inr j, db')
    \<and> row_to_job ((upd r)\<lparr>jr_updated_at := utcnow_iso now\<rparr>) = Inr j
    \<and> find_row i db' = Some ((upd r)\<lparr>jr_updated_at := utcnow_iso now\<rparr>)"
proof -
  note m = find_row_Some [OF assms(2)]
  let ?hit = "\<lambda>r. jr_job_id r = i \<and> jr_state r = state_value s"
  have "list_ex ?hit (db_jobs db)" using m assms(3) by (auto simp: list_ex_iff)
  then show ?thesis
    using update_success [OF assms(1,2), where f = "\<lambda>r. (upd r)\<lparr>jr_updated_at := utcnow_iso now\<rparr>" and p = ?hit and t = t
        and ts = "utcnow_iso now" and kind = kind and payload = payload] m assms(3-5)
    by (simp add: cas_def)
qed

lemma get_job_loads:
  assumes "job_db_inv db" "find_row i db = Some r"
  shows "\<exists>j. get_job i db = Inr (Some j) \<and> row_to_job r = Inr j \<and> state_value (job_state j) = jr_state r"
proof -
  have "row_ok r" using inv_row_ok [OF assms(1)] find_row_Some [OF assms(2)] by blast
  then show ?thesis using row_ok_loads assms(2) by (fastforce simp: get_job_def load_row_def)
qed

lemma reconcile_success:
  assumes "job_db_inv db" "find_row i db = Some r" "jr_state r = state_value RUNNING" "reconcile_args_ok t failure"
  shows "\<exists>j db' r'. reconcile_transition i t failure now db = (Inr j, db') \<and> job_step db db' \<and>
     find_row i db' = Some r' \<and> jr_state r' = state_value t \<and> jr_failure_reason r' = failure \<and>
     row_to_job r' = Inr j \<and> jr_run_ids r' = jr_run_ids r"
proof -
  let ?r' = "(reconcile_update t failure r)\<lparr>jr_updated_at := utcnow_iso now\<rparr>"
  have ok: "row_ok r" using inv_row_ok [OF assms(1)] find_row_Some [OF assms(2)] by blast
  have e: "job_edge RUNNING t" using assms(4) edge_succeed edge_fail by (auto simp: reconcile_args_ok_def)
  have g: "good_transition r ?r'"
    using e assms(3,4) ok row_ok_state [OF ok assms(3)]
    by (auto simp: row_defs reconcile_update_def row_shape_ok_def reconcile_args_ok_def intro!: exI [of _ t])
  obtain k where k: "get_job i db = Inr (Some k)" "state_value (job_state k) = jr_state r"
    using get_job_loads [OF assms(1,2)] by blast
  have run: "job_state k = RUNNING" using k(2) assms(3) by simp
  obtain j db' where j: "reconcile_cas i t failure now db = (Inr j, db')" "row_to_job ?r' = Inr j" "find_row i db' = Some ?r'"
    using cas_success [OF assms(1-3), where upd = "reconcile_update t failure" and now = now and t = t, OF g,
        where kind = "''reconciled''" and payload = "Some [(''failure_reason'', json_of_opt failure)]"]
    unfolding reconcile_cas_def by (auto simp: reconcile_update_def)
  have "t = SUCCEEDED \<or> t = FAILED" using assms(4) by (auto simp: reconcile_args_ok_def)
  then have "reconcile_transition i t failure now db = (Inr j, db')"
    using k(1) run j(1) by (auto simp: reconcile_transition_def require_state_def)
  moreover have "job_step db db'" using step_reconcile [OF assms(4), of db i now] j(1) by simp
  ultimately show ?thesis using j(2,3)
    by (intro exI [of _ j] exI [of _ db'] exI [of _ ?r']) (simp add: reconcile_update_def)
qed

lemma requeue_success:
  assumes "job_db_inv db" "find_row i db = Some r" "jr_state r = state_value RUNNING" "resume_valid resume"
  shows "\<exists>j db' r'. requeue i want resume nb now db = (Inr j, db') \<and> job_step db db' \<and>
     find_row i db' = Some r' \<and> jr_state r' = state_value QUEUED \<and> jr_current_run_id r' = None \<and>
     jr_waiting_reason r' = Some (waiting_value want) \<and> jr_run_ids r' = jr_run_ids r"
proof -
  let ?nb = "if nb \<noteq> None then nb else jr_not_before r"
  let ?r' = "requeue_update want resume ?nb (bumped want (jr_preemptions r)) now r"
  have ok: "row_ok r" using inv_row_ok [OF assms(1)] find_row_Some [OF assms(2)] by blast
  have g: "good_transition r ?r'" by (rule requeue_good [OF ok assms(3,4)])
  obtain j db' where j: "requeue i want resume nb now db = (Inr j, db')" "find_row i db' = Some ?r'"
    using update_success [OF assms(1,2), where f = "requeue_update want resume ?nb (bumped want (jr_preemptions r)) now"
        and p = "\<lambda>r. jr_job_id r = i \<and> jr_state r = state_value RUNNING" and t = QUEUED
        and ts = "utcnow_iso now" and kind = "''requeued''"
        and payload = "Some [(''waiting_reason'', JStr (waiting_value want)), (''preemptions'', JInt (bumped want (jr_preemptions r)))]"]
      g find_row_Some [OF assms(2)] assms(2,3)
    by (fastforce simp: requeue_def Let_def requeue_update_def)
  moreover have "job_step db db'" using step_requeue [OF assms(4), of db i want nb now] j(1) by simp
  ultimately show ?thesis
    by (intro exI [of _ j] exI [of _ db'] exI [of _ ?r']) (simp add: requeue_update_def)
qed

end
