(* ===== verification/Freshness.thy ===== *)
theory Freshness
  imports Exclusions
begin

text \<open>
  \<open>saberops/capacity/freshness.py\<close> (how old an observation may be before it is stale) and the
  ledger keys of \<open>saberops/capacity/snapshot.py\<close>: a legacy (provider, pool) pair is read as a
  (pool id, window id) key.
\<close>

named_theorems freshness_simps \<open>evaluation of the freshness rules\<close>

definition window_max_age_min :: "(string \<times> int) list" where
  "window_max_age_min = [(''5h'', 20), (''daily'', 60), (''weekly'', 180), (''monthly'', 720)]"

definition DEFAULT_MAX_AGE_MIN :: int where "DEFAULT_MAX_AGE_MIN = 20"
definition OWNER_MAX_AGE_MIN :: int where "OWNER_MAX_AGE_MIN = 24 * 60"

definition parse_observed :: "string option \<Rightarrow> int option" where
  \<comment> \<open>\<open>_parse_observed\<close>\<close>
  "parse_observed v =
     (case v of None \<Rightarrow> None
      | Some text \<Rightarrow>
          if text = [] then None
          else (case fromisoformat (zulu_replace (py_strip text)) of
                  None \<Rightarrow> None
                | Some (t, None) \<Rightarrow> None
                | Some (t, Some off) \<Rightarrow> Some (t - off)))"

definition is_owner_source :: "string option \<Rightarrow> bool" where
  "is_owner_source source =
     (case source of None \<Rightarrow> True
      | Some s \<Rightarrow>
          if s = [] then True
          else let low = py_lower (py_strip s) in
            if low = [] then True
            else \<not> (py_contains ''probe'' low \<or> py_contains ''exhaustion'' low \<or> py_contains ''plan-exhaustion'' low))"

definition max_age_minutes :: "string option \<Rightarrow> string option \<Rightarrow> int" where
  "max_age_minutes window source =
     (let key = py_lower (py_strip (or_text window []));
          base = (case dict_get window_max_age_min key of None \<Rightarrow> DEFAULT_MAX_AGE_MIN | Some m \<Rightarrow> m)
      in if is_owner_source source then max base OWNER_MAX_AGE_MIN else base)"

definition freshness :: "string option \<Rightarrow> string option \<Rightarrow> string option \<Rightarrow> int \<Rightarrow> string" where
  "freshness observed_at window source now =
     (case parse_observed observed_at of
        None \<Rightarrow> ''STALE''
      | Some observed \<Rightarrow>
          let age_min = of_int (now - observed) / 60000000 :: rat in
          if age_min < 0 then ''FRESH''
          else if age_min \<le> of_int (max_age_minutes window source) then ''FRESH'' else ''STALE'')"

definition window_names :: "string list" where
  "window_names = [''5h'', ''daily'', ''weekly'', ''monthly'', ''all'']"

definition legacy_pool_and_window :: "string \<Rightarrow> string \<Rightarrow> string option \<Rightarrow> string \<times> string" where
  \<comment> \<open>the arguments are the row's \<open>provider\<close>, \<open>pool\<close> and \<open>pool_id\<close>\<close>
  "legacy_pool_and_window provider pool pool_id =
     (let pool_text = py_lower (py_strip (if pool = [] then ''ALL'' else pool));
          pool_raw = (if pool_text = [] then ''ALL'' else pool_text);
          provider_raw = py_lower (py_strip provider)
      in case pool_id of
           Some p \<Rightarrow> if py_strip p \<noteq> [] then (py_strip p, pool_raw)
                     else if pool_raw \<in> set window_names
                     then (if provider_raw = [] then ''unknown'' else provider_raw, pool_raw)
                     else (pool_raw, ''ALL'')
         | None \<Rightarrow> if pool_raw \<in> set window_names
                   then (if provider_raw = [] then ''unknown'' else provider_raw, pool_raw)
                   else (pool_raw, ''ALL''))"

section \<open>Facts\<close>

lemma parse_observed_is_parse_iso: "parse_observed v = parse_iso v"
  by (simp add: parse_observed_def parse_iso_def)

lemma max_age_bounds: "20 \<le> max_age_minutes w s \<and> max_age_minutes w s \<le> 1440"
  by (simp add: max_age_minutes_def window_max_age_min_def DEFAULT_MAX_AGE_MIN_def OWNER_MAX_AGE_MIN_def Let_def)

lemma freshness_values: "freshness o' w s now = ''FRESH'' \<or> freshness o' w s now = ''STALE''"
  by (simp add: freshness_def Let_def split: option.split)

text \<open>The age in minutes is a quotient of microseconds; the comparison is one of integers.\<close>

lemma freshness_iff:
  "freshness o' w s now = ''FRESH'' \<longleftrightarrow>
     (\<exists>t. parse_iso o' = Some t \<and> now - t \<le> minutes (max_age_minutes w s))"
proof (cases "parse_iso o'")
  case (Some t)
  have "(of_int (now - t) / 60000000 :: rat) \<le> of_int m \<longleftrightarrow> now - t \<le> minutes m" for m
  proof -
    have "(of_int (now - t) / 60000000 :: rat) \<le> of_int m \<longleftrightarrow> (of_int (now - t) :: rat) \<le> of_int (m * 60000000)"
      by (simp add: divide_le_eq)
    then show ?thesis unfolding minutes_def of_int_le_iff .
  qed
  moreover have "(of_int (now - t) / 60000000 :: rat) < 0 \<longleftrightarrow> now - t < 0"
    by (simp add: divide_less_0_iff)
  moreover have "0 \<le> minutes (max_age_minutes w s)"
    using max_age_bounds [of w s] by (simp add: minutes_def)
  ultimately show ?thesis
    using Some by (auto simp: freshness_def parse_observed_is_parse_iso Let_def)
qed (simp add: freshness_def parse_observed_is_parse_iso)

text \<open>Freshness is decided to the microsecond and only decays.  An observation is fresh
  exactly when its time can be read and its age is at most the window's limit (between twenty
  minutes and a day, never less for the owner's word than for a probe's); once stale it is
  never fresh again later.\<close>
theorem freshness_decays:
  "(freshness obs w s now = ''FRESH'' \<longleftrightarrow>
      (\<exists>t. parse_iso obs = Some t \<and> now - t \<le> minutes (max_age_minutes w s)))
   \<and> 20 \<le> max_age_minutes w s \<and> max_age_minutes w s \<le> 1440
   \<and> max_age_minutes w s \<le> max_age_minutes w None
   \<and> (freshness obs w s (now + int d) = ''FRESH'' \<longrightarrow> freshness obs w s now = ''FRESH'')"
proof -
  have "max_age_minutes w s \<le> max_age_minutes w None"
    by (simp add: max_age_minutes_def is_owner_source_def Let_def)
  then show ?thesis using max_age_bounds [of w s] by (auto simp: freshness_iff)
qed

theorem freshness_decays_witness:
  "freshness (Some ''2026-10-20T10:00:00+00:00'') (Some ''weekly'') (Some ''PROBE'') 63928098000000000 = ''FRESH''
   \<and> freshness (Some ''2026-10-20T10:00:00+00:00'') (Some ''weekly'') (Some ''PROBE'') 63928097999000000 = ''FRESH''"
proof -
  have "freshness (Some ''2026-10-20T10:00:00+00:00'') (Some ''weekly'') (Some ''PROBE'')
          63928098000000000 = ''FRESH''"
    by code_simp
  then show ?thesis
    using freshness_decays [where obs = "Some ''2026-10-20T10:00:00+00:00''" and w = "Some ''weekly''"
      and s = "Some ''PROBE''" and now = 63928097999000000 and d = 1000000] by simp
qed

lemma legacy_key_nonempty: "legacy_pool_and_window p l None \<noteq> ([], w)"
  by (auto simp: legacy_pool_and_window_def Let_def)

end
