(* ===== verification/Owner_DB.thy ===== *)
theory Owner_DB
  imports Cost_Model Exclusion_Store Quota_Policy Freshness
begin

text \<open>
  The owner database of \<open>saberops/capacity/store.py\<close> (\<open>ensure_tables\<close>): one record per table
  row, rows in insertion order, the database as a record of tables.  A transaction is a function
  on the record; an exception before the commit leaves the record unchanged.  The names of the
  tables that exist are part of the state, since reading a missing table is an error the ledger
  reacts to; \<open>ensure_tables\<close> creates them all.
\<close>

record observation =
  ob_id :: string
  ob_pool_id :: string
  ob_window_id :: string
  ob_remaining_pct :: rat
  ob_reset_at :: "string option"
  ob_observed_at :: string
  ob_source :: string
  ob_legacy_provider :: "string option"
  ob_legacy_pool :: "string option"
  ob_evidence_ref :: "string option"

record reservation_row =
  rr_id :: string
  rr_run_id :: string
  rr_job_id :: "string option"
  rr_route :: string
  rr_pool_id :: string
  rr_window_id :: string
  rr_multiplier :: rat
  rr_size_bucket :: string
  rr_cost_pct :: rat
  rr_spread_pct :: rat
  rr_state :: string
  rr_total_tokens :: "int option"
  rr_created_at :: string
  rr_settled_at :: "string option"

type_synonym cost_key = "string \<times> string \<times> string \<times> string"
  \<comment> \<open>route, pool id, window id, size bucket: the primary key of \<open>capacity_cost_model\<close>\<close>

record cost_row =
  cr_state :: cost_state
  cr_updated_at :: string

record quota_row =
  qr_remaining_percent :: rat
  qr_reset_at :: "string option"
  qr_routing_state :: routing_state
  qr_updated_at :: string

record lease_row =
  lr_lease_name :: string
  lr_holder_id :: string
  lr_acquired_at :: string
  lr_expires_at :: string
  lr_fencing_token :: int

record owner_db =
  od_tables :: "string list"
  od_read_only :: bool
  od_exclusions :: exclusion_store
  od_observations :: "observation list"
  od_reservations :: "reservation_row list"
  od_cost_model :: "(cost_key \<times> cost_row) list"
  od_quota :: "((string \<times> string) \<times> quota_row) list"
  od_leases :: "lease_row list"

definition capacity_tables :: "string list" where
  "capacity_tables =
     [''capacity_exclusions'', ''capacity_probe_runs'', ''capacity_observations'',
      ''capacity_reservations'', ''capacity_cost_model'', ''capacity_scheduler_lease'']"

definition ensure_tables :: "owner_db \<Rightarrow> owner_db" where
  "ensure_tables db = db\<lparr>od_tables := od_tables db @ filter (\<lambda>t. t \<notin> set (od_tables db)) capacity_tables\<rparr>"

definition empty_owner_db :: owner_db where
  \<comment> \<open>a fresh owner database: the quota table comes with the main schema, no capacity table yet\<close>
  "empty_owner_db =
     \<lparr>od_tables = [], od_read_only = False, od_exclusions = \<lparr>exclusions = [], probe_runs = []\<rparr>,
      od_observations = [], od_reservations = [], od_cost_model = [], od_quota = [], od_leases = []\<rparr>"

definition owner_active_exclusions :: "int \<Rightarrow> owner_db \<Rightarrow> exclusion_row list \<times> owner_db" where
  \<comment> \<open>\<open>list_active_exclusions(db, now=now)\<close> on the whole database: the tables are created unless
     it is read-only, and a missing table reads as no exclusion\<close>
  "owner_active_exclusions now db =
     (let db1 = (if od_read_only db then db else ensure_tables db) in
      if ''capacity_exclusions'' \<notin> set (od_tables db1) then ([], db1)
      else case list_active_exclusions (od_read_only db) now (od_exclusions db1) of
             (rows, ex) \<Rightarrow> (rows, db1\<lparr>od_exclusions := ex\<rparr>))"

lemma ensure_tables_simps [simp]:
  "od_exclusions (ensure_tables db) = od_exclusions db"
  "od_observations (ensure_tables db) = od_observations db"
  "od_reservations (ensure_tables db) = od_reservations db"
  "od_cost_model (ensure_tables db) = od_cost_model db"
  "od_quota (ensure_tables db) = od_quota db"
  "od_leases (ensure_tables db) = od_leases db"
  "od_read_only (ensure_tables db) = od_read_only db"
  "set (od_tables (ensure_tables db)) = set (od_tables db) \<union> set capacity_tables"
  by (auto simp: ensure_tables_def)

lemma ensure_tables_idem [simp]: "ensure_tables (ensure_tables db) = ensure_tables db"
proof -
  have "filter (\<lambda>t. t \<notin> set (od_tables (ensure_tables db))) capacity_tables = []"
    by (simp add: filter_empty_conv)
  then show ?thesis by (simp add: ensure_tables_def [of "ensure_tables db"])
qed

lemma owner_active_reservations [simp]:
  "od_reservations (snd (owner_active_exclusions now db)) = od_reservations db"
  "od_observations (snd (owner_active_exclusions now db)) = od_observations db"
  "od_cost_model (snd (owner_active_exclusions now db)) = od_cost_model db"
  "od_quota (snd (owner_active_exclusions now db)) = od_quota db"
  "od_leases (snd (owner_active_exclusions now db)) = od_leases db"
  by (simp_all add: owner_active_exclusions_def Let_def split: prod.split)

lemma owner_active_excluding:
  "r \<in> set (fst (owner_active_exclusions now db)) \<Longrightarrow> is_excluding r now"
  by (auto simp: owner_active_exclusions_def list_active_exclusions_def Let_def is_excluding_def
      split: if_splits)

end
