(* ===== verification/Ledger.thy ===== *)
theory Ledger
  imports Owner_DB Plans
begin

text \<open>
  \<open>saberops/capacity/ledger.py\<close>: owner observations, reservations of capacity, the estimate of
  what is left, and the learning of costs from probes.  Every operation is a function on the
  owner database; the random parts of new row ids are arguments.  \<open>float\<close> rounding is not
  modelled: percentages are rationals.
\<close>

named_theorems ledger_simps \<open>evaluation of the ledger operations\<close>

section \<open>Values\<close>

record ledger_estimate =
  le_pool_id :: string
  le_window_id :: string
  le_remaining_est :: "rat option"
  le_uncertainty :: rat
  le_observed_at :: "string option"
  le_source :: "string option"
  le_stale :: bool
  le_excluded_until :: "string option"

record pool_draw =
  dr_pool_id :: string
  dr_window_id :: string
  dr_multiplier :: rat

record reservation =
  rv_id :: string
  rv_run_id :: string
  rv_job_id :: "string option"
  rv_route :: string
  rv_pool_id :: string
  rv_window_id :: string
  rv_multiplier :: rat
  rv_size_bucket :: size_bucket
  rv_cost_pct :: rat
  rv_spread_pct :: rat
  rv_state :: string
  rv_total_tokens :: "int option"
  rv_created_at :: string
  rv_settled_at :: "string option"

record reserved_debt =
  rd_run_id :: string
  rd_job_id :: "string option"
  rd_pool_windows :: "(string \<times> string) list"

definition reservation_from_row :: "reservation_row \<Rightarrow> py_error + reservation" where
  "reservation_from_row r =
     (case coerce_bucket (rr_size_bucket r) of
        Inl e \<Rightarrow> Inl e
      | Inr b \<Rightarrow> Inr \<lparr>rv_id = rr_id r, rv_run_id = rr_run_id r, rv_job_id = rr_job_id r, rv_route = rr_route r,
          rv_pool_id = rr_pool_id r, rv_window_id = rr_window_id r, rv_multiplier = rr_multiplier r,
          rv_size_bucket = b, rv_cost_pct = rr_cost_pct r, rv_spread_pct = rr_spread_pct r,
          rv_state = rr_state r, rv_total_tokens = rr_total_tokens r, rv_created_at = rr_created_at r,
          rv_settled_at = (if truthy (rr_settled_at r) then rr_settled_at r else None)\<rparr>)"

fun rows_to_reservations :: "reservation_row list \<Rightarrow> py_error + reservation list" where
  "rows_to_reservations [] = Inr []"
| "rows_to_reservations (r # rs) =
     (case reservation_from_row r of Inl e \<Rightarrow> Inl e
      | Inr v \<Rightarrow> (case rows_to_reservations rs of Inl e \<Rightarrow> Inl e | Inr vs \<Rightarrow> Inr (v # vs)))"

definition row_to_quota :: "(string \<times> string) \<times> quota_row \<Rightarrow> quota_state" where
  \<comment> \<open>\<open>_row_to_quota\<close>\<close>
  "row_to_quota e =
     (case e of ((provider, pool), q) \<Rightarrow>
       \<lparr>qs_provider = provider, qs_pool = pool, qs_remaining_percent = Some (qr_remaining_percent q),
        qs_reset_at = (if truthy (qr_reset_at q) then qr_reset_at q else None),
        qs_routing_state = qr_routing_state q, qs_updated_at = qr_updated_at q, qs_pool_id = None,
        qs_normalized_remaining_pct = None, qs_freshness = None, qs_mode = None, qs_red_line_pct = None,
        qs_exclusion_id = None, qs_exclusion_until = None, qs_exclusion_confidence = None,
        qs_exclusion_model_scope = None\<rparr>)"

section \<open>The cost model table\<close>

definition load_cost_state :: "string \<Rightarrow> string \<Rightarrow> string \<Rightarrow> size_bucket \<Rightarrow> owner_db \<Rightarrow> cost_state option" where
  "load_cost_state route pool window b db =
     map_option cr_state (dict_get (od_cost_model db) (route, pool, window, bucket_value b))"

definition store_cost_state ::
  "string \<Rightarrow> string \<Rightarrow> string \<Rightarrow> size_bucket \<Rightarrow> cost_state \<Rightarrow> string \<Rightarrow> owner_db \<Rightarrow> owner_db" where
  "store_cost_state route pool window b st updated db =
     db\<lparr>od_cost_model := dict_set (od_cost_model db) (route, pool, window, bucket_value b)
                           \<lparr>cr_state = st, cr_updated_at = updated\<rparr>\<rparr>"

section \<open>Learning from probes\<close>

definition newest_first :: "observation list \<Rightarrow> observation list" where
  \<comment> \<open>\<open>ORDER BY observed_at DESC, id DESC\<close>\<close>
  "newest_first obs = rev (sort_key (\<lambda>o'. (ob_observed_at o', ob_id o')) obs)"

definition previous_probe ::
  "string \<Rightarrow> string \<Rightarrow> rat \<Rightarrow> string option \<Rightarrow> string \<Rightarrow> string option \<Rightarrow> owner_db \<Rightarrow> observation option" where
  \<comment> \<open>the newest earlier probe of the key: the loop with its \<open>continue\<close>s\<close>
  "previous_probe pool window new_pct new_reset new_iso new_row_id db =
     (let rows = newest_first (filter (\<lambda>o'. ob_pool_id o' = pool \<and> ob_window_id o' = window \<and> ob_source o' = ''PROBE'')
                                 (od_observations db));
          skip = (\<lambda>o'. new_row_id = Some (ob_id o') \<or> new_iso < ob_observed_at o' \<or> ob_id o' = [] \<or>
                    (new_row_id = None \<and> ob_observed_at o' = new_iso \<and> ob_remaining_pct o' = new_pct \<and>
                     or_text (ob_reset_at o') [] = or_text new_reset []))
      in find (\<lambda>o'. \<not> skip o') rows)"

definition reset_between :: "int \<Rightarrow> int \<Rightarrow> int option \<Rightarrow> bool" where
  "reset_between prev new reset = (case reset of None \<Rightarrow> False | Some r \<Rightarrow> prev < r \<and> r \<le> new)"

definition settled_between :: "string \<Rightarrow> string \<Rightarrow> string \<Rightarrow> string \<Rightarrow> owner_db \<Rightarrow> reservation_row list" where
  "settled_between pool window prev_iso new_iso db =
     filter (\<lambda>r. rr_pool_id r = pool \<and> rr_window_id r = window \<and> rr_state r = ''SETTLED'' \<and>
               (case rr_settled_at r of None \<Rightarrow> False | Some s \<Rightarrow> prev_iso < s \<and> s \<le> new_iso))
       (od_reservations db)"

definition probe_shares :: "rat \<Rightarrow> int option list \<Rightarrow> rat list" where
  \<comment> \<open>the drop of the remaining percentage split by tokens, or evenly\<close>
  "probe_shares delta tokens =
     (let even = map (\<lambda>_. delta / of_nat (length tokens)) tokens in
      if None \<in> set tokens then even
      else let total = sum_list (map the tokens) in
        if total \<le> 0 then even
        else map (\<lambda>t. delta * of_int (the t) / of_int total) tokens)"

fun fold_shares ::
  "string \<Rightarrow> string \<Rightarrow> string \<Rightarrow> (reservation_row \<times> rat) list \<Rightarrow> owner_db \<Rightarrow> py_error + owner_db" where
  "fold_shares pool window updated [] db = Inr db"
| "fold_shares pool window updated ((res, share) # rest) db =
     (case coerce_bucket (if rr_size_bucket res = [] then ''M'' else rr_size_bucket res) of
        Inl e \<Rightarrow> Inl e
      | Inr b \<Rightarrow>
          (case cost_update (load_cost_state (rr_route res) pool window b db) share of
             Inl e \<Rightarrow> Inl e
           | Inr st \<Rightarrow> fold_shares pool window updated rest
                          (store_cost_state (rr_route res) pool window b st updated db)))"

definition learn_from_probe ::
  "string \<Rightarrow> string \<Rightarrow> rat \<Rightarrow> string option \<Rightarrow> string \<Rightarrow> int \<Rightarrow> string option \<Rightarrow> owner_db \<Rightarrow> py_error + owner_db" where
  "learn_from_probe pool window new_pct new_reset new_iso moment new_row_id db =
     (if window = ''ALL'' then Inr db
      else let new_observed = (case parse_iso (Some new_iso) of None \<Rightarrow> moment | Some t \<Rightarrow> t) in
      case previous_probe pool window new_pct new_reset new_iso new_row_id db of
        None \<Rightarrow> Inr db
      | Some prev \<Rightarrow>
          (case parse_iso (Some (ob_observed_at prev)) of
             None \<Rightarrow> Inr db
           | Some prev_observed \<Rightarrow>
               let delta = ob_remaining_pct prev - new_pct in
               if delta \<le> 0 then Inr db
               else if reset_between prev_observed new_observed (parse_iso (ob_reset_at prev)) \<or>
                       reset_between prev_observed new_observed (parse_iso new_reset) then Inr db
               else let settled = settled_between pool window (ob_observed_at prev) new_iso db in
                 if settled = [] then Inr db
                 else fold_shares pool window (isoformat moment)
                        (zip settled (probe_shares delta (map rr_total_tokens settled))) db))"

section \<open>Observations\<close>

definition record_owner_quota ::
  "string \<Rightarrow> string \<Rightarrow> rat \<Rightarrow> string option \<Rightarrow> string \<Rightarrow> string \<Rightarrow> int \<Rightarrow> owner_db \<Rightarrow> (py_error + quota_state) \<times> owner_db" where
  "record_owner_quota provider pool pct reset_at source obs_id now db =
     (if source \<notin> {''OWNER'', ''PROBE''} then (Inl (ValueError ''source''), db)
      else if \<not> (0 \<le> pct \<and> pct \<le> 100) then (Inl (ValueError ''remaining_percent must be between 0 and 100''), db)
      else let p = py_lower (py_strip provider); l = py_lower (py_strip pool); iso = isoformat now;
               (pool_id, window_id) = legacy_pool_and_window p l None;
               db1 = ensure_tables db;
               obs = \<lparr>ob_id = obs_id, ob_pool_id = pool_id, ob_window_id = window_id, ob_remaining_pct = pct,
                      ob_reset_at = reset_at, ob_observed_at = iso, ob_source = source,
                      ob_legacy_provider = Some p, ob_legacy_pool = Some l, ob_evidence_ref = None\<rparr>;
               q = \<lparr>qr_remaining_percent = pct, qr_reset_at = reset_at, qr_routing_state = RS_NORMAL, qr_updated_at = iso\<rparr>;
               db2 = db1\<lparr>od_observations := od_observations db1 @ [obs], od_quota := dict_set (od_quota db1) (p, l) q\<rparr>
           in if obs_id \<in> ob_id ` set (od_observations db) then (Inl (IntegrityError ''capacity_observations.id''), db1)
              else case (if source = ''PROBE'' then learn_from_probe pool_id window_id pct reset_at iso now (Some obs_id) db2
                         else Inr db2) of
                     Inl e \<Rightarrow> (Inl e, db1)
                   | Inr db3 \<Rightarrow> (Inr ((row_to_quota ((p, l), q))\<lparr>qs_reset_at := reset_at\<rparr>), db3))"

definition record_probe_window_observation ::
  "string \<Rightarrow> string \<Rightarrow> rat \<Rightarrow> string option \<Rightarrow> string \<Rightarrow> string option \<Rightarrow> string \<Rightarrow> int \<Rightarrow> owner_db \<Rightarrow> (py_error + string) \<times> owner_db" where
  "record_probe_window_observation pool window pct reset_at harness evidence obs_id now db =
     (if \<not> (0 \<le> pct \<and> pct \<le> 100) then (Inl (ValueError ''remaining_percent must be between 0 and 100''), db)
      else let iso = isoformat now; db1 = ensure_tables db;
               obs = \<lparr>ob_id = obs_id, ob_pool_id = pool, ob_window_id = window, ob_remaining_pct = pct,
                      ob_reset_at = reset_at, ob_observed_at = iso, ob_source = ''PROBE'',
                      ob_legacy_provider = Some harness, ob_legacy_pool = None, ob_evidence_ref = evidence\<rparr>;
               db2 = db1\<lparr>od_observations := od_observations db1 @ [obs]\<rparr>
           in if obs_id \<in> ob_id ` set (od_observations db) then (Inl (IntegrityError ''capacity_observations.id''), db1)
              else case learn_from_probe pool window pct reset_at iso now (Some obs_id) db2 of
                     Inl e \<Rightarrow> (Inl e, db1)
                   | Inr db3 \<Rightarrow> (Inr obs_id, db3))"

definition list_owner_quota :: "owner_db \<Rightarrow> quota_state list" where
  "list_owner_quota db = map row_to_quota (sort_key fst (od_quota db))"

definition get_owner_quota :: "string \<Rightarrow> string \<Rightarrow> owner_db \<Rightarrow> quota_state option" where
  "get_owner_quota provider pool db =
     (let k = (py_lower (py_strip provider), py_lower (py_strip pool))
      in map_option (\<lambda>q. row_to_quota (k, q)) (dict_get (od_quota db) k))"

definition enable_owner_quota :: "string \<Rightarrow> string \<Rightarrow> int \<Rightarrow> owner_db \<Rightarrow> quota_state \<times> owner_db" where
  "enable_owner_quota provider pool now db =
     (let k = (py_lower (py_strip provider), py_lower (py_strip pool)); now_iso = isoformat now;
          row = dict_get (od_quota db) k;
          q = (case row of
                 None \<Rightarrow> \<lparr>qr_remaining_percent = 100, qr_reset_at = None, qr_routing_state = RS_NORMAL, qr_updated_at = now_iso\<rparr>
               | Some q0 \<Rightarrow> q0\<lparr>qr_routing_state := RS_NORMAL, qr_updated_at := now_iso\<rparr>)
      in (row_to_quota (k, q), db\<lparr>od_quota := dict_set (od_quota db) k q\<rparr>))"

section \<open>Reservations\<close>

definition reservations_of :: "string \<Rightarrow> string \<Rightarrow> string \<Rightarrow> owner_db \<Rightarrow> reservation_row list" where
  "reservations_of run pool window db =
     filter (\<lambda>r. rr_run_id r = run \<and> rr_pool_id r = pool \<and> rr_window_id r = window) (od_reservations db)"

definition new_reservation ::
  "string \<Rightarrow> string \<Rightarrow> string option \<Rightarrow> string \<Rightarrow> size_bucket \<Rightarrow> string \<Rightarrow> string \<Rightarrow> string \<Rightarrow> rat \<Rightarrow> owner_db \<Rightarrow> reservation_row" where
  "new_reservation row_id run job route b created pool window factor db =
     (let est = cost_estimate (load_cost_state route pool window b db) window b
      in \<lparr>rr_id = row_id, rr_run_id = run, rr_job_id = job, rr_route = route, rr_pool_id = pool,
          rr_window_id = window, rr_multiplier = factor, rr_size_bucket = bucket_value b,
          rr_cost_pct = est_pct est * factor, rr_spread_pct = est_spread est * factor, rr_state = ''RESERVED'',
          rr_total_tokens = None, rr_created_at = created, rr_settled_at = None\<rparr>)"

fun reserve_draws ::
  "string \<Rightarrow> string option \<Rightarrow> string \<Rightarrow> size_bucket \<Rightarrow> string \<Rightarrow> (nat \<Rightarrow> string) \<Rightarrow> pool_draw list \<Rightarrow> owner_db
     \<Rightarrow> py_error + reservation list \<times> owner_db" where
  \<comment> \<open>the loop over the draws; \<open>fresh k\<close> is the id of the \<open>k\<close>-th row that is inserted\<close>
  "reserve_draws run job route b created fresh [] db = Inr ([], db)"
| "reserve_draws run job route b created fresh (d # ds) db =
     (let pool = py_strip (dr_pool_id d); window = norm_window (dr_window_id d) in
      if pool = [] then Inl (ValueError ''draw pool_id is required'')
      else let existing = reservations_of run pool window db in
        if existing \<noteq> [] then
          (case rows_to_reservations existing of
             Inl e \<Rightarrow> Inl e
           | Inr vs \<Rightarrow> (case reserve_draws run job route b created fresh ds db of
                          Inl e \<Rightarrow> Inl e | Inr (out, db') \<Rightarrow> Inr (vs @ out, db')))
        else let row = new_reservation (fresh 0) run job route b created pool window (dr_multiplier d) db in
          if rr_id row \<in> rr_id ` set (od_reservations db) then Inl (IntegrityError ''capacity_reservations.id'')
          else (case reservation_from_row row of
                  Inl e \<Rightarrow> Inl e
                | Inr v \<Rightarrow> (case reserve_draws run job route b created (\<lambda>k. fresh (Suc k)) ds
                                    (db\<lparr>od_reservations := od_reservations db @ [row]\<rparr>) of
                               Inl e \<Rightarrow> Inl e | Inr (out, db') \<Rightarrow> Inr (v # out, db'))))"

definition reserve ::
  "string \<Rightarrow> string option \<Rightarrow> string \<Rightarrow> pool_draw list \<Rightarrow> string \<Rightarrow> (nat \<Rightarrow> string) \<Rightarrow> int \<Rightarrow> owner_db
     \<Rightarrow> (py_error + reservation list) \<times> owner_db" where
  "reserve run_id job_id route draws bucket_text fresh now db =
     (let rid = py_strip run_id in
      if rid = [] then (Inl (ValueError ''run_id is required''), db)
      else case validate_route route of
        Inl e \<Rightarrow> (Inl e, db)
      | Inr the_route \<Rightarrow>
          (case coerce_bucket bucket_text of
             Inl e \<Rightarrow> (Inl e, db)
           | Inr b \<Rightarrow>
               let db1 = ensure_tables db in
               (case reserve_draws rid job_id the_route b (isoformat now) fresh draws db1 of
                  Inl e \<Rightarrow> (Inl e, db1)
                | Inr (out, db2) \<Rightarrow> (Inr out, db2))))"

definition update_reservations ::
  "(reservation_row \<Rightarrow> bool) \<Rightarrow> (reservation_row \<Rightarrow> reservation_row) \<Rightarrow> owner_db \<Rightarrow> nat \<times> owner_db" where
  \<comment> \<open>\<open>UPDATE capacity_reservations SET f WHERE p\<close> with its row count\<close>
  "update_reservations p f db =
     (length (filter p (od_reservations db)),
      db\<lparr>od_reservations := map (\<lambda>r. if p r then f r else r) (od_reservations db)\<rparr>)"

definition settle :: "string \<Rightarrow> int option \<Rightarrow> int \<Rightarrow> owner_db \<Rightarrow> nat \<times> owner_db" where
  "settle run_id total_tokens now db =
     (let rid = py_strip run_id in
      if rid = [] then (0, db)
      else update_reservations (\<lambda>r. rr_run_id r = rid \<and> rr_state r = ''RESERVED'')
             (\<lambda>r. r\<lparr>rr_state := ''SETTLED'', rr_settled_at := Some (isoformat now), rr_total_tokens := total_tokens\<rparr>)
             (ensure_tables db))"

definition release :: "string \<Rightarrow> int \<Rightarrow> owner_db \<Rightarrow> nat \<times> owner_db" where
  "release run_id now db =
     (let rid = py_strip run_id in
      if rid = [] then (0, db)
      else update_reservations (\<lambda>r. rr_run_id r = rid \<and> rr_state r = ''RESERVED'')
             (\<lambda>r. r\<lparr>rr_state := ''RELEASED'', rr_settled_at := Some (isoformat now)\<rparr>)
             (ensure_tables db))"

fun group_debts :: "reservation_row list \<Rightarrow> (string \<times> reserved_debt) list \<Rightarrow> (string \<times> reserved_debt) list" where
  \<comment> \<open>the dictionaries \<open>by_run\<close> and \<open>jobs\<close>\<close>
  "group_debts [] acc = acc"
| "group_debts (r # rs) acc =
     group_debts rs (case dict_get acc (rr_run_id r) of
        None \<Rightarrow> dict_set acc (rr_run_id r) \<lparr>rd_run_id = rr_run_id r, rd_job_id = rr_job_id r,
                                             rd_pool_windows = [(rr_pool_id r, rr_window_id r)]\<rparr>
      | Some d \<Rightarrow> dict_set acc (rr_run_id r)
                    (d\<lparr>rd_pool_windows := rd_pool_windows d @ [(rr_pool_id r, rr_window_id r)]\<rparr>))"

definition reserved_rows_after :: "string \<Rightarrow> owner_db \<Rightarrow> reservation_row list" where
  "reserved_rows_after cursor db =
     sort_key (\<lambda>r. (rr_run_id r, rr_pool_id r, rr_window_id r))
       (filter (\<lambda>r. rr_state r = ''RESERVED'' \<and> cursor < rr_run_id r) (od_reservations db))"

definition list_reserved_debts :: "int \<Rightarrow> string option \<Rightarrow> owner_db \<Rightarrow> py_error + reserved_debt list" where
  "list_reserved_debts limit after_run_id db =
     (if limit < 1 then Inl (ValueError ''limit must be >= 1'')
      else Inr (map snd (group_debts (take (nat limit) (reserved_rows_after (or_text after_run_id []) db)) [])))"

definition release_terminal_debt ::
  "string \<Rightarrow> string option \<Rightarrow> (owner_db \<Rightarrow> bool) option \<Rightarrow> bool \<Rightarrow> int \<Rightarrow> owner_db \<Rightarrow> int \<times> owner_db" where
  \<comment> \<open>the flag says that \<open>BEGIN IMMEDIATE\<close> fails\<close>
  "release_terminal_debt run_id job_id lease_guard locked now db =
     (let rid = py_strip run_id in
      if rid = [] then (0, db)
      else let db1 = ensure_tables db in
        if locked then (0, db1)
        else if (case lease_guard of None \<Rightarrow> False | Some g \<Rightarrow> \<not> g db1) then (-1, db1)
        else (case update_reservations
                     (\<lambda>r. rr_run_id r = rid \<and> rr_state r = ''RESERVED'' \<and>
                          (case job_id of None \<Rightarrow> True | Some j \<Rightarrow> rr_job_id r = Some j))
                     (\<lambda>r. r\<lparr>rr_state := ''RELEASED'', rr_settled_at := Some (isoformat now)\<rparr>) db1 of
                (n, db2) \<Rightarrow> (int n, db2)))"

section \<open>The estimate\<close>

type_synonym window_kinds = "((string \<times> string) \<times> string) list"

definition default_window_kinds :: "plan_set option \<Rightarrow> window_kinds" where
  \<comment> \<open>\<open>_default_window_kinds\<close>; \<open>None\<close> is a policy that cannot be loaded\<close>
  "default_window_kinds plans =
     (case plans of None \<Rightarrow> []
      | Some ps \<Rightarrow>
          dict_update []
            (concat (map (\<lambda>(pid, plan). map (\<lambda>w. ((pid, win_id w),
                py_upper (if win_kind w = [] then ''UNKNOWN'' else win_kind w))) (pp_windows plan))
              (ps_pool_plans ps))))"

definition latest_observation :: "string \<Rightarrow> string \<Rightarrow> owner_db \<Rightarrow> observation option" where
  "latest_observation pool window db =
     (case newest_first (filter (\<lambda>o'. ob_pool_id o' = pool \<and> ob_window_id o' = window) (od_observations db)) of
        [] \<Rightarrow> None | o' # _ \<Rightarrow> Some o')"

definition observation_for :: "string \<Rightarrow> string \<Rightarrow> owner_db \<Rightarrow> observation option" where
  \<comment> \<open>the key's latest observation, else the pool's\<close>
  "observation_for pool window db =
     (case latest_observation pool window db of
        Some o' \<Rightarrow> Some o'
      | None \<Rightarrow> if window \<noteq> ''ALL'' then latest_observation pool ''ALL'' db else None)"

definition counted_reservations :: "string \<Rightarrow> string \<Rightarrow> string \<Rightarrow> owner_db \<Rightarrow> reservation_row list" where
  "counted_reservations pool window cutoff db =
     filter (\<lambda>r. rr_pool_id r = pool \<and> rr_window_id r = window \<and> rr_state r \<in> {''RESERVED'', ''SETTLED''} \<and>
               cutoff \<le> rr_created_at r) (od_reservations db)"

definition spent_pct :: "reservation_row list \<Rightarrow> rat" where
  "spent_pct rows = sum_list (map rr_cost_pct rows)"

definition spread_total :: "reservation_row list \<Rightarrow> rat" where
  "spread_total rows = sum_list (map rr_spread_pct rows)"

definition clamp_pct :: "rat \<Rightarrow> rat" where
  "clamp_pct x = max 0 (min 100 x)"

definition active_exclusion :: "string \<Rightarrow> string \<Rightarrow> int \<Rightarrow> owner_db \<Rightarrow> exclusion_row option \<times> owner_db" where
  \<comment> \<open>\<open>_active_exclusion\<close>\<close>
  "active_exclusion pool window now db =
     (case owner_active_exclusions now db of
        (rows, db') \<Rightarrow>
          (find (\<lambda>e. exc_pool_id e = pool \<and>
                     (let w = (if exc_window_id e = [] then ''ALL'' else exc_window_id e) in w = window \<or> w = ''ALL'') \<and>
                     is_excluding e now) rows, db'))"

definition window_kind_of :: "string \<Rightarrow> string \<Rightarrow> window_kinds \<Rightarrow> string" where
  "window_kind_of pool window kinds =
     (let k = py_upper (case dict_get kinds (pool, window) of None \<Rightarrow> ''UNKNOWN'' | Some k \<Rightarrow> k)
      in if k \<in> {''CALENDAR'', ''ROLLING'', ''UNKNOWN''} then k else ''UNKNOWN'')"

definition readable_observation :: "string \<Rightarrow> string \<Rightarrow> owner_db \<Rightarrow> observation option" where
  \<comment> \<open>an \<open>OperationalError\<close> for a missing table, of either kind, reads as no observation\<close>
  "readable_observation pool window db =
     (if ''capacity_observations'' \<notin> set (od_tables db) then None
      else if ''capacity_reservations'' \<notin> set (od_tables db) then None
      else observation_for pool window db)"

definition estimate_now ::
  "string \<Rightarrow> string \<Rightarrow> int \<Rightarrow> observation option \<Rightarrow> owner_db \<Rightarrow> ledger_estimate \<times> owner_db" where
  \<comment> \<open>the part of \<open>estimate\<close> below the window roll\<close>
  "estimate_now pool window now obs db =
     (case active_exclusion pool window now db of
        (Some e, db') \<Rightarrow>
          (\<lparr>le_pool_id = pool, le_window_id = window, le_remaining_est = Some 0, le_uncertainty = 0,
            le_observed_at = map_option ob_observed_at obs, le_source = Some ''EXHAUSTION'', le_stale = False,
            le_excluded_until = exc_until e\<rparr>, db')
      | (None, db') \<Rightarrow>
          (case obs of
             None \<Rightarrow>
               (\<lparr>le_pool_id = pool, le_window_id = window, le_remaining_est = None, le_uncertainty = 0,
                 le_observed_at = None, le_source = None, le_stale = True, le_excluded_until = None\<rparr>, db')
           | Some o' \<Rightarrow>
               let counted = counted_reservations pool window (ob_observed_at o') db;
                   source = (if ob_source o' = [] then None else Some (ob_source o'))
               in (\<lparr>le_pool_id = pool, le_window_id = window,
                    le_remaining_est = Some (clamp_pct (ob_remaining_pct o' - spent_pct counted)),
                    le_uncertainty = spread_total counted + (if ob_source o' = ''PROBE'' then 1 else 0),
                    le_observed_at = Some (ob_observed_at o'), le_source = source,
                    le_stale = (freshness (Some (ob_observed_at o')) (Some window) source now \<noteq> ''FRESH''),
                    le_excluded_until = None\<rparr>, db')))"

definition estimate :: "string \<Rightarrow> string \<Rightarrow> int \<Rightarrow> window_kinds \<Rightarrow> owner_db \<Rightarrow> ledger_estimate \<times> owner_db" where
  "estimate pool_id window_id now kinds db =
     (let pool = py_strip pool_id; window = norm_window window_id; kind = window_kind_of pool window kinds;
          obs = readable_observation pool window db;
          reset = (case obs of None \<Rightarrow> None | Some o' \<Rightarrow> parse_iso (ob_reset_at o'))
      in case (obs, reset) of
           (Some o', Some r) \<Rightarrow>
             if r \<le> now then
               (let counted = counted_reservations pool window (isoformat r) db
                in (\<lparr>le_pool_id = pool, le_window_id = window, le_remaining_est = Some (clamp_pct (100 - spent_pct counted)),
                     le_uncertainty = spread_total counted, le_observed_at = Some (ob_observed_at o'),
                     le_source = Some (ob_source o'), le_stale = (kind \<noteq> ''CALENDAR''), le_excluded_until = None\<rparr>, db))
             else estimate_now pool window now obs db
         | _ \<Rightarrow> estimate_now pool window now obs db)"

section \<open>All keys\<close>

definition observation_keys :: "owner_db \<Rightarrow> (string \<times> string) list" where
  "observation_keys db = map (\<lambda>o'. (ob_pool_id o', ob_window_id o')) (od_observations db)"

definition reservation_keys :: "owner_db \<Rightarrow> (string \<times> string) list" where
  "reservation_keys db =
     map (\<lambda>r. (rr_pool_id r, rr_window_id r))
       (filter (\<lambda>r. rr_state r \<in> {''RESERVED'', ''SETTLED''}) (od_reservations db))"

definition exclusion_keys :: "exclusion_row list \<Rightarrow> (string \<times> string) list" where
  "exclusion_keys rows =
     map (\<lambda>e. (exc_pool_id e, if exc_window_id e = [] then ''ALL'' else exc_window_id e))
       (filter (\<lambda>e. exc_pool_id e \<noteq> []) rows)"

fun estimates :: "(string \<times> string) list \<Rightarrow> int \<Rightarrow> window_kinds \<Rightarrow> owner_db \<Rightarrow> ledger_estimate list \<times> owner_db" where
  "estimates [] now kinds db = ([], db)"
| "estimates ((pool, window) # ks) now kinds db =
     (case estimate pool window now kinds db of
        (e, db1) \<Rightarrow> (case estimates ks now kinds db1 of (es, db2) \<Rightarrow> (e # es, db2)))"

definition snapshot :: "int \<Rightarrow> plan_set option \<Rightarrow> owner_db \<Rightarrow> ledger_estimate list \<times> owner_db" where
  "snapshot now plans db =
     (if ''capacity_observations'' \<notin> set (od_tables db) \<or> ''capacity_reservations'' \<notin> set (od_tables db) then ([], db)
      else case owner_active_exclusions now db of
        (rows, db1) \<Rightarrow>
          estimates (sort (remdups (observation_keys db @ reservation_keys db @ exclusion_keys rows)))
            now (default_window_kinds plans) db1)"

definition post_observation_charges :: "int \<Rightarrow> owner_db \<Rightarrow> py_error + ((string \<times> string) \<times> rat) list" where
  "post_observation_charges now db =
     (let has_obs = (''capacity_observations'' \<in> set (od_tables db));
          has_res = (''capacity_reservations'' \<in> set (od_tables db))
      in if \<not> has_obs \<and> \<not> has_res then Inr []
         else if \<not> (has_obs \<and> has_res) then Inl (OperationalError ''capacity schema partially initialized'')
         else Inr (map (\<lambda>(pool, window).
                ((pool, window),
                 spent_pct (counted_reservations pool window
                   (case observation_for pool window db of
                      None \<Rightarrow> []
                    | Some o' \<Rightarrow> (case parse_iso (ob_reset_at o') of
                                   Some r \<Rightarrow> if r \<le> now then isoformat r else ob_observed_at o'
                                 | None \<Rightarrow> ob_observed_at o')) db)))
              (remdups (observation_keys db @ reservation_keys db))))"

end
