(* ===== verification/Ledger_Laws.thy ===== *)
theory Ledger_Laws
  imports Ledger
begin

text \<open>
  What the ledger of \<open>saberops/capacity/ledger.py\<close> promises: its invariant under every
  operation, the life of a reservation, idempotence of retries, the narrowness of the settlement
  writes, the conservation of learned cost and the soundness of the estimate.
\<close>

section \<open>The invariant\<close>

definition reservation_ok :: "reservation_row \<Rightarrow> bool" where
  "reservation_ok r \<longleftrightarrow>
     rr_size_bucket r \<in> {''S'', ''M'', ''L''} \<and> rr_state r \<in> {''RESERVED'', ''SETTLED'', ''RELEASED''} \<and>
     (rr_settled_at r = None \<longleftrightarrow> rr_state r = ''RESERVED'') \<and> rr_run_id r \<noteq> [] \<and> rr_pool_id r \<noteq> []"

abbreviation reservation_key :: "reservation_row \<Rightarrow> string \<times> string \<times> string" where
  "reservation_key r \<equiv> (rr_run_id r, rr_pool_id r, rr_window_id r)"

definition reservations_ok :: "reservation_row list \<Rightarrow> bool" where
  "reservations_ok rs \<longleftrightarrow> distinct (map rr_id rs) \<and> distinct (map reservation_key rs) \<and> (\<forall>r \<in> set rs. reservation_ok r)"

definition observations_ok :: "observation list \<Rightarrow> bool" where
  "observations_ok obs \<longleftrightarrow>
     distinct (map ob_id obs) \<and> (\<forall>o' \<in> set obs. 0 \<le> ob_remaining_pct o' \<and> ob_remaining_pct o' \<le> 100)"

definition cost_model_ok :: "(cost_key \<times> cost_row) list \<Rightarrow> bool" where
  "cost_model_ok m \<longleftrightarrow>
     (\<forall>k c. dict_get m k = Some c \<longrightarrow> 0 < samples (cr_state c) \<and> (\<exists>e. ewma_pct (cr_state c) = Some e \<and> 0 \<le> e))"

definition ledger_inv :: "owner_db \<Rightarrow> bool" where
  "ledger_inv db \<longleftrightarrow> reservations_ok (od_reservations db) \<and> observations_ok (od_observations db) \<and>
     cost_model_ok (od_cost_model db) \<and> exclusion_inv (exclusions (od_exclusions db))"

lemmas ledger_inv_defs = ledger_inv_def reservations_ok_def observations_ok_def

lemma empty_ledger_inv: "ledger_inv empty_owner_db"
  by (simp add: ledger_inv_defs empty_owner_db_def cost_model_ok_def exclusion_inv_def)

lemma ensure_tables_inv [simp]: "ledger_inv (ensure_tables db) = ledger_inv db"
  by (simp add: ledger_inv_def)

lemma bucket_value_text: "bucket_value b \<in> {''S'', ''M'', ''L''}"
  by (cases b) (simp_all add: bucket_value_def)

lemma coerce_bucket_text: "s \<in> {''S'', ''M'', ''L''} \<Longrightarrow> \<exists>b. coerce_bucket s = Inr b"
  by (auto simp: coerce_bucket_def)

section \<open>Updates of reservations\<close>

text \<open>How one row may change: its identity and price never, and only while it is reserved.\<close>

definition row_moves :: "reservation_row \<Rightarrow> reservation_row \<Rightarrow> bool" where
  "row_moves r r' \<longleftrightarrow>
     rr_id r' = rr_id r \<and> rr_run_id r' = rr_run_id r \<and> rr_job_id r' = rr_job_id r \<and> rr_route r' = rr_route r \<and>
     rr_pool_id r' = rr_pool_id r \<and> rr_window_id r' = rr_window_id r \<and> rr_multiplier r' = rr_multiplier r \<and>
     rr_size_bucket r' = rr_size_bucket r \<and> rr_cost_pct r' = rr_cost_pct r \<and>
     rr_spread_pct r' = rr_spread_pct r \<and> rr_created_at r' = rr_created_at r \<and>
     (rr_state r \<noteq> ''RESERVED'' \<longrightarrow> r' = r)"

definition keeps_reservations :: "owner_db \<Rightarrow> owner_db \<Rightarrow> bool" where
  "keeps_reservations db db' \<longleftrightarrow> (\<forall>r \<in> set (od_reservations db). \<exists>r' \<in> set (od_reservations db'). row_moves r r')"

lemma row_moves_refl [simp]: "row_moves r r"
  by (simp add: row_moves_def)

lemma row_moves_fields:
  assumes "row_moves r r'"
  shows "rr_id r' = rr_id r" "rr_run_id r' = rr_run_id r" "rr_pool_id r' = rr_pool_id r"
    "rr_window_id r' = rr_window_id r" "rr_size_bucket r' = rr_size_bucket r"
  using assms by (simp_all add: row_moves_def)

lemma map_keeps: "(\<And>r. k (g r) = k r) \<Longrightarrow> map k (map g rs) = map k rs"
  by simp

lemma row_moves_trans: "row_moves r s \<Longrightarrow> row_moves s t \<Longrightarrow> row_moves r t"
  by (auto simp: row_moves_def)

lemma keeps_same: "set (od_reservations db) \<subseteq> set (od_reservations db') \<Longrightarrow> keeps_reservations db db'"
  unfolding keeps_reservations_def using row_moves_refl by blast

lemma keeps_reservations_refl: "keeps_reservations db db"
  by (simp add: keeps_same)

lemma keeps_reservations_trans:
  "keeps_reservations db1 db2 \<Longrightarrow> keeps_reservations db2 db3 \<Longrightarrow> keeps_reservations db1 db3"
  unfolding keeps_reservations_def by (meson row_moves_trans)

lemma keeps_extension:
  "od_reservations db' = od_reservations db @ new \<Longrightarrow> keeps_reservations db db'"
  by (simp add: keeps_same)

lemma update_reservations_good:
  assumes "reservations_ok (od_reservations db)" "\<And>r. p r \<Longrightarrow> rr_state r = ''RESERVED''"
    and "\<And>r. rr_state r = ''RESERVED'' \<Longrightarrow> row_moves r (f r)"
    and "\<And>r. rr_state (f r) \<in> {''SETTLED'', ''RELEASED''} \<and> rr_settled_at (f r) \<noteq> None"
    and "update_reservations p f db = (n, db')"
  shows "reservations_ok (od_reservations db')" "keeps_reservations db db'"
    "db' = db\<lparr>od_reservations := od_reservations db'\<rparr>"
proof -
  let ?g = "\<lambda>r. if p r then f r else r"
  have g: "row_moves r (?g r)" for r using assms(2,3) by auto
  have rows: "od_reservations db' = map ?g (od_reservations db)"
    using assms(5) by (auto simp: update_reservations_def)
  have "map rr_id (map ?g rs) = map rr_id rs" "map reservation_key (map ?g rs) = map reservation_key rs" for rs
    by (rule map_keeps, rule row_moves_fields [OF g], rule map_keeps) (simp add: row_moves_fields [OF g] del: if_split)
  moreover have ok: "reservation_ok (?g r)" if "reservation_ok r" for r
  proof (cases "p r")
    case True
    then have "row_moves r (f r)" using g [of r] by simp
    then show ?thesis
      using True assms(4) [of r] that row_moves_fields [of r "f r"] unfolding reservation_ok_def by auto
  qed (use that in simp)
  moreover have "\<forall>r \<in> set (map ?g rs). reservation_ok r" if "\<forall>r \<in> set rs. reservation_ok r" for rs
    using ok that unfolding set_map by blast
  ultimately show "reservations_ok (od_reservations db')"
    using assms(1) unfolding rows reservations_ok_def by metis
  show "keeps_reservations db db'" using g unfolding keeps_reservations_def rows set_map by blast
  show "db' = db\<lparr>od_reservations := od_reservations db'\<rparr>"
    using assms(5) by (auto simp: update_reservations_def)
qed

definition good_update :: "owner_db \<Rightarrow> owner_db \<Rightarrow> bool" where
  \<comment> \<open>what every ledger operation does to a good database\<close>
  "good_update db db' \<longleftrightarrow> ledger_inv db' \<and> keeps_reservations db db'"

lemma good_update_same:
  "ledger_inv db \<Longrightarrow> od_reservations db' = od_reservations db \<Longrightarrow> ledger_inv db' \<Longrightarrow> good_update db db'"
  by (simp add: good_update_def keeps_same)

lemma good_update_reservations:
  assumes "ledger_inv db" "reservations_ok (od_reservations db')" "keeps_reservations (ensure_tables db) db'"
    "db' = (ensure_tables db)\<lparr>od_reservations := od_reservations db'\<rparr>"
  shows "good_update db db'"
proof -
  have "od_observations db' = od_observations db" "od_cost_model db' = od_cost_model db"
    "od_exclusions db' = od_exclusions db"
    using arg_cong [OF assms(4), of od_observations] arg_cong [OF assms(4), of od_cost_model]
      arg_cong [OF assms(4), of od_exclusions] by simp_all
  then show ?thesis using assms(1-3) by (simp add: good_update_def ledger_inv_def keeps_reservations_def)
qed

lemma settle_good: "ledger_inv db \<Longrightarrow> good_update db (snd (settle run tokens now db))"
proof (cases "py_strip run = []")
  case False
  assume inv: "ledger_inv db"
  obtain n db' where u: "update_reservations (\<lambda>r. rr_run_id r = py_strip run \<and> rr_state r = ''RESERVED'')
     (\<lambda>r. r\<lparr>rr_state := ''SETTLED'', rr_settled_at := Some (isoformat now), rr_total_tokens := tokens\<rparr>)
     (ensure_tables db) = (n, db')" by fastforce
  have "good_update db db'"
    by (rule good_update_reservations [OF inv update_reservations_good [OF _ _ _ _ u]])
       (use inv in \<open>auto simp: row_moves_def ledger_inv_def\<close>)
  then show ?thesis using False u by (simp add: settle_def Let_def)
qed (simp add: settle_def good_update_same)

lemma release_good: "ledger_inv db \<Longrightarrow> good_update db (snd (release run now db))"
proof (cases "py_strip run = []")
  case False
  assume inv: "ledger_inv db"
  obtain n db' where u: "update_reservations (\<lambda>r. rr_run_id r = py_strip run \<and> rr_state r = ''RESERVED'')
     (\<lambda>r. r\<lparr>rr_state := ''RELEASED'', rr_settled_at := Some (isoformat now)\<rparr>)
     (ensure_tables db) = (n, db')" by fastforce
  have "good_update db db'"
    by (rule good_update_reservations [OF inv update_reservations_good [OF _ _ _ _ u]])
       (use inv in \<open>auto simp: row_moves_def ledger_inv_def\<close>)
  then show ?thesis using False u by (simp add: release_def Let_def)
qed (simp add: release_def good_update_same)

lemma release_terminal_debt_good:
  assumes inv: "ledger_inv db"
  shows "good_update db (snd (release_terminal_debt run job guard locked now db))"
proof -
  obtain n db' where u: "update_reservations (\<lambda>r. rr_run_id r = py_strip run \<and> rr_state r = ''RESERVED'' \<and>
       (case job of None \<Rightarrow> True | Some j \<Rightarrow> rr_job_id r = Some j))
     (\<lambda>r. r\<lparr>rr_state := ''RELEASED'', rr_settled_at := Some (isoformat now)\<rparr>)
     (ensure_tables db) = (n, db')" by fastforce
  have "good_update db db'"
    by (rule good_update_reservations [OF inv update_reservations_good [OF _ _ _ _ u]])
       (use inv in \<open>auto simp: row_moves_def ledger_inv_def\<close>)
  moreover have "good_update db (ensure_tables db)" using inv by (simp add: good_update_same)
  moreover have "good_update db db" using inv by (simp add: good_update_same)
  ultimately show ?thesis using u by (simp add: release_terminal_debt_def Let_def)
qed

section \<open>Reserving\<close>

lemma reservation_from_row_ok: "reservation_ok r \<Longrightarrow> \<exists>v. reservation_from_row r = Inr v"
  using coerce_bucket_text [of "rr_size_bucket r"]
  by (auto simp: reservation_ok_def reservation_from_row_def)

lemma reservations_of_append:
  "reservations_of run pool window (db\<lparr>od_reservations := od_reservations db @ new\<rparr>) =
     reservations_of run pool window db @
       filter (\<lambda>r. rr_run_id r = run \<and> rr_pool_id r = pool \<and> rr_window_id r = window) new"
  by (simp add: reservations_of_def)

lemma new_reservation_simps [simp]:
  "rr_id (new_reservation i run job route b created pool window m db) = i"
  "rr_run_id (new_reservation i run job route b created pool window m db) = run"
  "rr_job_id (new_reservation i run job route b created pool window m db) = job"
  "rr_pool_id (new_reservation i run job route b created pool window m db) = pool"
  "rr_window_id (new_reservation i run job route b created pool window m db) = window"
  "rr_state (new_reservation i run job route b created pool window m db) = ''RESERVED''"
  "rr_settled_at (new_reservation i run job route b created pool window m db) = None"
  "rr_size_bucket (new_reservation i run job route b created pool window m db) = bucket_value b"
  by (simp_all add: new_reservation_def Let_def)

definition new_rows_ok :: "string \<Rightarrow> string option \<Rightarrow> reservation_row list \<Rightarrow> bool" where
  "new_rows_ok run job new \<longleftrightarrow>
     (\<forall>r \<in> set new. rr_run_id r = run \<and> rr_job_id r = job \<and> rr_state r = ''RESERVED'' \<and> rr_settled_at r = None)"

lemma reserve_draws_appends:
  "reserve_draws run job route b created fresh ds db = Inr (out, db') \<Longrightarrow> run \<noteq> [] \<Longrightarrow>
   reservations_ok (od_reservations db) \<Longrightarrow>
   \<exists>new. db' = db\<lparr>od_reservations := od_reservations db @ new\<rparr> \<and> new_rows_ok run job new \<and>
     reservations_ok (od_reservations db') \<and>
     (\<forall>p w. reservations_of run p w db \<noteq> [] \<longrightarrow> reservations_of run p w db' = reservations_of run p w db) \<and>
     (\<forall>d \<in> set ds. reservations_of run (py_strip (dr_pool_id d)) (norm_window (dr_window_id d)) db' \<noteq> [])"
proof (induction run job route b created fresh ds db arbitrary: out db' rule: reserve_draws.induct)
  case (1 run job route b created fresh db)
  then show ?case by (intro exI [of _ "[]"]) (simp add: new_rows_ok_def)
next
  case (2 run job route b created fresh d ds db)
  let ?pool = "py_strip (dr_pool_id d)" and ?window = "norm_window (dr_window_id d)"
  let ?ex = "reservations_of run ?pool ?window db"
  have pool: "?pool \<noteq> []" using "2.prems"(1) by (auto simp: Let_def)
  show ?case
  proof (cases "?ex = []")
    case False
    then obtain vs out' where "rows_to_reservations ?ex = Inr vs"
      "reserve_draws run job route b created fresh ds db = Inr (out', db')"
      using "2.prems"(1) pool by (auto simp: Let_def split: sum.splits prod.splits)
    then obtain new where new: "db' = db\<lparr>od_reservations := od_reservations db @ new\<rparr>" "new_rows_ok run job new"
      "reservations_ok (od_reservations db')"
      "\<forall>p w. reservations_of run p w db \<noteq> [] \<longrightarrow> reservations_of run p w db' = reservations_of run p w db"
      "\<forall>d \<in> set ds. reservations_of run (py_strip (dr_pool_id d)) (norm_window (dr_window_id d)) db' \<noteq> []"
      using "2.IH"(1) [OF refl refl pool refl False _ _ "2.prems"(2,3)] by blast
    then have "reservations_of run ?pool ?window db' \<noteq> []" using False by simp
    then show ?thesis using new by (intro exI [of _ new]) simp
  next
    case True
    let ?row = "new_reservation (fresh 0) run job route b created ?pool ?window (dr_multiplier d) db"
    let ?db1 = "db\<lparr>od_reservations := od_reservations db @ [?row]\<rparr>"
    have fresh: "rr_id ?row \<notin> rr_id ` set (od_reservations db)"
      using "2.prems"(1) pool True by (auto simp: Let_def split: if_splits)
    then obtain v out' where v: "reservation_from_row ?row = Inr v"
      and rec: "reserve_draws run job route b created (\<lambda>k. fresh (Suc k)) ds ?db1 = Inr (out', db')"
      using "2.prems"(1) pool True by (auto simp: Let_def split: sum.splits prod.splits)
    have ok1: "reservation_ok ?row"
      using bucket_value_text pool "2.prems"(2) by (simp add: reservation_ok_def)
    have "reservation_key ?row \<notin> reservation_key ` set (od_reservations db)"
      using True by (auto simp: reservations_of_def filter_empty_conv)
    then have ok: "reservations_ok (od_reservations ?db1)"
      using "2.prems"(3) fresh ok1 by (auto simp: reservations_ok_def)
    obtain new where new: "db' = ?db1\<lparr>od_reservations := od_reservations ?db1 @ new\<rparr>" "new_rows_ok run job new"
      "reservations_ok (od_reservations db')"
      "\<forall>p w. reservations_of run p w ?db1 \<noteq> [] \<longrightarrow> reservations_of run p w db' = reservations_of run p w ?db1"
      "\<forall>d \<in> set ds. reservations_of run (py_strip (dr_pool_id d)) (norm_window (dr_window_id d)) db' \<noteq> []"
      using "2.IH"(2) [OF refl refl pool refl _ refl fresh v rec "2.prems"(2) ok] True by blast
    have at: "reservations_of run p w ?db1 = reservations_of run p w db @ (if p = ?pool \<and> w = ?window then [?row] else [])" for p w
      unfolding reservations_of_append by simp
    have "reservations_of run p w db' = reservations_of run p w db" if "reservations_of run p w db \<noteq> []" for p w
      using new(4) [rule_format, of p w] at [of p w] that True by (cases "p = ?pool \<and> w = ?window") auto
    moreover have "reservations_of run ?pool ?window db' \<noteq> []"
      using new(4) [rule_format, of ?pool ?window] at [of ?pool ?window] by simp
    ultimately show ?thesis
      using new(1-3,5) by (intro exI [of _ "?row # new"]) (simp add: new_rows_ok_def)
  qed
qed

lemma reserve_draws_again:
  "reserve_draws run job route b created fresh ds db = Inr (out, db') \<Longrightarrow> run \<noteq> [] \<Longrightarrow>
   reservations_ok (od_reservations db) \<Longrightarrow>
   (\<And>p w. reservations_of run p w db' \<noteq> [] \<Longrightarrow> reservations_of run p w db2 = reservations_of run p w db') \<Longrightarrow>
   reserve_draws run job2 route2 b2 created2 fresh2 ds db2 = Inr (out, db2)"
proof (induction run job route b created fresh ds db arbitrary: out db' rule: reserve_draws.induct)
  case (1 run job route b created fresh db)
  then show ?case by simp
next
  case (2 run job route b created fresh d ds db)
  let ?pool = "py_strip (dr_pool_id d)" and ?window = "norm_window (dr_window_id d)"
  let ?ex = "reservations_of run ?pool ?window db"
  have pool: "?pool \<noteq> []" using "2.prems"(1) by (auto simp: Let_def)
  have kept: "reservations_of run ?pool ?window db' \<noteq> []"
    "?ex \<noteq> [] \<Longrightarrow> reservations_of run ?pool ?window db' = ?ex"
    using reserve_draws_appends [OF "2.prems"(1-3)] by auto
  show ?case
  proof (cases "?ex = []")
    case False
    then obtain vs out' where vs: "rows_to_reservations ?ex = Inr vs" "out = vs @ out'"
      and rec: "reserve_draws run job route b created fresh ds db = Inr (out', db')"
      using "2.prems"(1) pool by (auto simp: Let_def split: sum.splits prod.splits)
    have "reserve_draws run job2 route2 b2 created2 fresh2 ds db2 = Inr (out', db2)"
      using "2.IH"(1) [OF refl refl pool refl False vs(1) rec "2.prems"(2,3)] "2.prems"(4) by blast
    moreover have "reservations_of run ?pool ?window db2 = ?ex" using kept False "2.prems"(4) by simp
    ultimately show ?thesis using False pool vs by (simp add: Let_def)
  next
    case True
    let ?row = "new_reservation (fresh 0) run job route b created ?pool ?window (dr_multiplier d) db"
    let ?db1 = "db\<lparr>od_reservations := od_reservations db @ [?row]\<rparr>"
    have fresh: "rr_id ?row \<notin> rr_id ` set (od_reservations db)"
      using "2.prems"(1) pool True by (auto simp: Let_def split: if_splits)
    then obtain v out' where v: "reservation_from_row ?row = Inr v" "out = v # out'"
      and rec: "reserve_draws run job route b created (\<lambda>k. fresh (Suc k)) ds ?db1 = Inr (out', db')"
      using "2.prems"(1) pool True by (auto simp: Let_def split: sum.splits prod.splits)
    have "reservation_key ?row \<notin> reservation_key ` set (od_reservations db)"
      using True by (auto simp: reservations_of_def filter_empty_conv)
    then have ok: "reservations_ok (od_reservations ?db1)"
      using "2.prems"(2,3) fresh pool bucket_value_text by (auto simp: reservations_ok_def reservation_ok_def)
    have "reserve_draws run job2 route2 b2 created2 fresh2 ds db2 = Inr (out', db2)"
      using "2.IH"(2) [OF refl refl pool refl _ refl fresh v(1) rec "2.prems"(2) ok] True "2.prems"(4) by blast
    moreover have "reservations_of run ?pool ?window ?db1 = [?row]"
      using True unfolding reservations_of_append by simp
    then have "reservations_of run ?pool ?window db' = [?row]"
      using reserve_draws_appends [OF rec "2.prems"(2) ok] by auto
    then have "reservations_of run ?pool ?window db2 = [?row]" using "2.prems"(4) [of ?pool ?window] by simp
    ultimately show ?thesis using pool v by (simp add: Let_def)
  qed
qed

lemma reserve_cases:
  assumes "reserve run job route draws bucket fresh now db = (res, db')" "ledger_inv db"
  shows "(\<exists>e. res = Inl e \<and> (db' = db \<or> db' = ensure_tables db)) \<or>
     (\<exists>out b r. res = Inr out \<and> py_strip run \<noteq> [] \<and>
        reserve_draws (py_strip run) job r b (isoformat now) fresh draws (ensure_tables db) = Inr (out, db'))"
  using assms(1) by (auto simp: reserve_def Let_def split: if_splits sum.splits prod.splits)

lemma reserve_good:
  assumes "ledger_inv db"
  shows "good_update db (snd (reserve run job route draws bucket fresh now db))"
proof -
  obtain res db' where r: "reserve run job route draws bucket fresh now db = (res, db')" by fastforce
  consider "db' = db \<or> db' = ensure_tables db"
    | out b rt where "py_strip run \<noteq> []"
      "reserve_draws (py_strip run) job rt b (isoformat now) fresh draws (ensure_tables db) = Inr (out, db')"
    using reserve_cases [OF r assms] by blast
  then show ?thesis
  proof cases
    case 1
    then show ?thesis using r assms by (auto intro: good_update_same)
  next
    case 2
    have ok: "reservations_ok (od_reservations (ensure_tables db))" using assms by (simp add: ledger_inv_def)
    obtain new where new: "db' = (ensure_tables db)\<lparr>od_reservations := od_reservations (ensure_tables db) @ new\<rparr>"
      "reservations_ok (od_reservations db')"
      using reserve_draws_appends [OF 2(2,1) ok] by blast
    have "od_reservations db' = od_reservations (ensure_tables db) @ new" using new(1) by simp
    then have "good_update db db'"
      using good_update_reservations [OF assms new(2) keeps_extension] new(1) by simp
    then show ?thesis using r by simp
  qed
qed

section \<open>Learning\<close>

lemma cost_model_ok_store:
  assumes "cost_model_ok (od_cost_model db)" "cost_update (load_cost_state route pool window b db) x = Inr st"
  shows "cost_model_ok (od_cost_model (store_cost_state route pool window b st updated db))"
proof -
  have "0 < samples s \<and> (\<exists>e. ewma_pct s = Some e \<and> 0 \<le> e)"
    if "load_cost_state route pool window b db = Some s" for s
    using assms(1) that by (auto simp: load_cost_state_def cost_model_ok_def)
  then have "0 < samples st \<and> (\<exists>y. ewma_pct st = Some y \<and> 0 \<le> y)"
    using assms(2) by (cases "load_cost_state route pool window b db")
      (auto simp: cost_update_def ALPHA_def Let_def split: if_splits option.splits)
  then show ?thesis using assms(1) by (auto simp: cost_model_ok_def store_cost_state_def)
qed

lemma fold_shares_good:
  "fold_shares pool window updated rs db = Inr db' \<Longrightarrow> cost_model_ok (od_cost_model db) \<Longrightarrow>
     cost_model_ok (od_cost_model db') \<and> db' = db\<lparr>od_cost_model := od_cost_model db'\<rparr>"
proof (induction rs arbitrary: db)
  case (Cons a rs)
  obtain res share where a: "a = (res, share)" by fastforce
  obtain b st where st: "cost_update (load_cost_state (rr_route res) pool window b db) share = Inr st"
    and rec: "fold_shares pool window updated rs (store_cost_state (rr_route res) pool window b st updated db) = Inr db'"
    using Cons.prems(1) a by (auto split: sum.splits)
  have "cost_model_ok (od_cost_model db') \<and>
    db' = (store_cost_state (rr_route res) pool window b st updated db)\<lparr>od_cost_model := od_cost_model db'\<rparr>"
    by (rule Cons.IH [OF rec cost_model_ok_store [OF Cons.prems(2) st]])
  then show ?case by (simp add: store_cost_state_def)
qed simp

lemma learn_good:
  assumes "learn_from_probe pool window pct reset ts moment i db = Inr db'" "cost_model_ok (od_cost_model db)"
  shows "cost_model_ok (od_cost_model db') \<and> db' = db\<lparr>od_cost_model := od_cost_model db'\<rparr>"
  using assms fold_shares_good
  by (auto simp: learn_from_probe_def Let_def split: if_splits option.splits)

lemma sum_shares: "sum_list (map (\<lambda>t. c * of_int (f t) / d) ts) = c * of_int (sum_list (map f ts)) / (d :: rat)"
  by (induction ts) (simp_all add: add_divide_distrib distrib_left)

text \<open>A probe interval is charged exactly once.  The drop of the remaining percentage is
  split over the settled reservations of the interval so that the shares add up to the whole
  drop, one share per reservation; with known token counts that are not negative no share is
  negative, and each is the reservation's part of the tokens.\<close>
theorem probe_shares_conserve:
  assumes "tokens \<noteq> []" "0 < delta"
  shows "length (probe_shares delta tokens) = length tokens \<and> sum_list (probe_shares delta tokens) = delta \<and>
    ((\<forall>n. Some n \<in> set tokens \<longrightarrow> 0 \<le> n) \<longrightarrow> (\<forall>x \<in> set (probe_shares delta tokens). 0 \<le> x)) \<and>
    (None \<notin> set tokens \<and> 0 < sum_list (map the tokens) \<longrightarrow>
       probe_shares delta tokens = map (\<lambda>t. delta * of_int (the t) / of_int (sum_list (map the tokens))) tokens)"
proof -
  let ?even = "map (\<lambda>_. delta / of_nat (length tokens)) tokens"
  let ?total = "sum_list (map the tokens)"
  have even: "sum_list ?even = delta" using assms(1) by (simp add: sum_list_triv)
  have prorata: "0 < ?total \<Longrightarrow> sum_list (map (\<lambda>t. delta * of_int (the t) / of_int ?total) tokens) = delta"
    unfolding sum_shares by simp
  have cases: "probe_shares delta tokens =
      (if None \<in> set tokens \<or> ?total \<le> 0 then ?even else map (\<lambda>t. delta * of_int (the t) / of_int ?total) tokens)"
    by (simp add: probe_shares_def Let_def)
  have nonneg: "0 \<le> x" if nn: "\<forall>n. Some n \<in> set tokens \<longrightarrow> 0 \<le> n" and xin: "x \<in> set (probe_shares delta tokens)" for x
  proof (cases "None \<in> set tokens \<or> ?total \<le> 0")
    case False
    then obtain t where t: "t \<in> set tokens" "x = delta * of_int (the t) / of_int ?total"
      using xin cases by auto
    then have "0 \<le> the t" using False nn by (metis option.exhaust_sel)
    then show ?thesis using t(2) False assms(2) by simp
  qed (use xin cases assms in auto)
  have "length (probe_shares delta tokens) = length tokens" using cases by simp
  moreover have "sum_list (probe_shares delta tokens) = delta" using cases even prorata by auto
  ultimately show ?thesis using nonneg cases by (metis linorder_not_le)
qed

theorem probe_shares_conserve_witness:
  "sum_list (probe_shares 6 [Some 100, Some 200]) = 6 \<and> probe_shares 6 [Some 100, Some 200] = [2, 4]"
proof -
  have "probe_shares 6 [Some 100, Some 200] = [2, 4]" by code_simp
  then show ?thesis
    using probe_shares_conserve [where tokens = "[Some 100, Some 200]" and delta = 6] by simp
qed

section \<open>Every reachable ledger\<close>

lemma with_observation_good:
  assumes "ledger_inv db" "i \<notin> ob_id ` set (od_observations db)" "0 \<le> ob_remaining_pct ob" "ob_remaining_pct ob \<le> 100"
    "ob_id ob = i" "od_observations db' = od_observations db @ [ob]"
    "od_reservations db' = od_reservations db" "od_cost_model db' = od_cost_model db" "od_exclusions db' = od_exclusions db"
  shows "ledger_inv db'"
  using assms by (simp add: ledger_inv_def observations_ok_def)

lemma learned_good:
  assumes "ledger_inv db1" "(if c then learn_from_probe pool window pct reset ts moment i db1 else Inr db1) = Inr db2"
  shows "ledger_inv db2 \<and> od_reservations db2 = od_reservations db1"
proof (cases c)
  case True
  then have l: "cost_model_ok (od_cost_model db2) \<and> db2 = db1\<lparr>od_cost_model := od_cost_model db2\<rparr>"
    using learn_good assms by (simp add: ledger_inv_def)
  then have "od_reservations db2 = od_reservations db1" "od_observations db2 = od_observations db1"
    "od_exclusions db2 = od_exclusions db1"
    by (metis owner_db.select_convs owner_db.surjective owner_db.update_convs(6))+
  then show ?thesis using l assms(1) by (simp add: ledger_inv_def)
qed (use assms in auto)

lemma good_update_if:
  "(c \<Longrightarrow> good_update db (snd x)) \<Longrightarrow> (\<not> c \<Longrightarrow> good_update db (snd y)) \<Longrightarrow> good_update db (snd (if c then x else y))"
  by simp

lemma record_owner_quota_good:
  assumes "ledger_inv db"
  shows "good_update db (snd (record_owner_quota provider pool pct reset source i now db))"
proof -
  have e: "good_update db db" "good_update db (ensure_tables db)" using assms by (simp_all add: good_update_same)
  obtain pid wid where key: "legacy_pool_and_window (py_lower (py_strip provider)) (py_lower (py_strip pool)) None = (pid, wid)"
    by fastforce
  define p l where "p = py_lower (py_strip provider)" and "l = py_lower (py_strip pool)"
  define ob where "ob = \<lparr>ob_id = i, ob_pool_id = pid, ob_window_id = wid, ob_remaining_pct = pct,
    ob_reset_at = reset, ob_observed_at = isoformat now, ob_source = source,
    ob_legacy_provider = Some p, ob_legacy_pool = Some l, ob_evidence_ref = None\<rparr>"
  define q where "q = \<lparr>qr_remaining_percent = pct, qr_reset_at = reset, qr_routing_state = RS_NORMAL, qr_updated_at = isoformat now\<rparr>"
  define db2 where "db2 = (ensure_tables db)\<lparr>od_observations := od_observations (ensure_tables db) @ [ob],
    od_quota := dict_set (od_quota (ensure_tables db)) (p, l) q\<rparr>"
  have eq: "record_owner_quota provider pool pct reset source i now db =
     (if source \<notin> {''OWNER'', ''PROBE''} then (Inl (ValueError ''source''), db)
      else if \<not> (0 \<le> pct \<and> pct \<le> 100) then (Inl (ValueError ''remaining_percent must be between 0 and 100''), db)
      else if i \<in> ob_id ` set (od_observations db) then (Inl (IntegrityError ''capacity_observations.id''), ensure_tables db)
      else case (if source = ''PROBE'' then learn_from_probe pid wid pct reset (isoformat now) now (Some i) db2 else Inr db2) of
             Inl e \<Rightarrow> (Inl e, ensure_tables db)
           | Inr db3 \<Rightarrow> (Inr ((row_to_quota ((p, l), q))\<lparr>qs_reset_at := reset\<rparr>), db3))"
    unfolding record_owner_quota_def Let_def key prod.case p_def l_def ob_def q_def db2_def by (rule refl)
  let ?r = "if source = ''PROBE'' then learn_from_probe pid wid pct reset (isoformat now) now (Some i) db2 else Inr db2"
  have inv2: "ledger_inv db2" if "i \<notin> ob_id ` set (od_observations db)" "0 \<le> pct \<and> pct \<le> 100"
    by (rule with_observation_good [where db = db and i = i and ob = ob]) (use assms that in \<open>simp_all add: db2_def ob_def\<close>)
  have "good_update db db3"
    if "i \<notin> ob_id ` set (od_observations db)" "0 \<le> pct \<and> pct \<le> 100"
      "(if source = ''PROBE'' then learn_from_probe pid wid pct reset (isoformat now) now (Some i) db2 else Inr db2) = Inr db3" for db3
    using learned_good [OF inv2 [OF that(1,2)] that(3)] assms by (intro good_update_same) (simp_all add: db2_def)
  then have ok: "i \<notin> ob_id ` set (od_observations db) \<Longrightarrow> 0 \<le> pct \<and> pct \<le> 100 \<Longrightarrow>
    good_update db (snd (case ?r of Inl e \<Rightarrow> (Inl e, ensure_tables db) | Inr db3 \<Rightarrow> (Inr (f db3), db3)))"
    for f :: "owner_db \<Rightarrow> quota_state"
    using e(2) by (cases ?r) (simp_all only: sum.case snd_conv simp_thms)
  show ?thesis unfolding eq by (intro good_update_if) (use e ok in \<open>simp_all only: snd_conv simp_thms not_not\<close>)
qed

lemma record_probe_good:
  assumes "ledger_inv db"
  shows "good_update db (snd (record_probe_window_observation pool window pct reset harness ev i now db))"
proof -
  have e: "good_update db db" "good_update db (ensure_tables db)" using assms by (simp_all add: good_update_same)
  define ob where "ob = \<lparr>ob_id = i, ob_pool_id = pool, ob_window_id = window, ob_remaining_pct = pct,
    ob_reset_at = reset, ob_observed_at = isoformat now, ob_source = ''PROBE'',
    ob_legacy_provider = Some harness, ob_legacy_pool = None, ob_evidence_ref = ev\<rparr>"
  define db2 where "db2 = (ensure_tables db)\<lparr>od_observations := od_observations (ensure_tables db) @ [ob]\<rparr>"
  have eq: "record_probe_window_observation pool window pct reset harness ev i now db =
     (if \<not> (0 \<le> pct \<and> pct \<le> 100) then (Inl (ValueError ''remaining_percent must be between 0 and 100''), db)
      else if i \<in> ob_id ` set (od_observations db) then (Inl (IntegrityError ''capacity_observations.id''), ensure_tables db)
      else case learn_from_probe pool window pct reset (isoformat now) now (Some i) db2 of
             Inl e \<Rightarrow> (Inl e, ensure_tables db) | Inr db3 \<Rightarrow> (Inr i, db3))"
    unfolding record_probe_window_observation_def Let_def ob_def db2_def by (rule refl)
  let ?r = "learn_from_probe pool window pct reset (isoformat now) now (Some i) db2"
  have inv2: "ledger_inv db2" if "i \<notin> ob_id ` set (od_observations db)" "0 \<le> pct \<and> pct \<le> 100"
    by (rule with_observation_good [where db = db and i = i and ob = ob]) (use assms that in \<open>simp_all add: db2_def ob_def\<close>)
  have "good_update db db3"
    if "i \<notin> ob_id ` set (od_observations db)" "0 \<le> pct \<and> pct \<le> 100"
      "learn_from_probe pool window pct reset (isoformat now) now (Some i) db2 = Inr db3" for db3
    using learned_good [where c = True, OF inv2 [OF that(1,2)]] that(3) assms
    by (intro good_update_same) (simp_all add: db2_def)
  then have ok: "i \<notin> ob_id ` set (od_observations db) \<Longrightarrow> 0 \<le> pct \<and> pct \<le> 100 \<Longrightarrow>
    good_update db (snd (case ?r of Inl e \<Rightarrow> (Inl e, ensure_tables db) | Inr db3 \<Rightarrow> (Inr (f db3), db3)))"
    for f :: "owner_db \<Rightarrow> string"
    using e(2) by (cases ?r) (simp_all only: sum.case snd_conv simp_thms)
  show ?thesis unfolding eq by (intro good_update_if) (use e ok in \<open>simp_all only: snd_conv simp_thms not_not\<close>)
qed

lemma excl_update_good:
  assumes "ledger_inv db" "exclusion_step (od_exclusions db) ex" "od_exclusions db' = ex"
    "od_reservations db' = od_reservations db" "od_observations db' = od_observations db" "od_cost_model db' = od_cost_model db"
  shows "good_update db db'"
  using assms exclusion_step_inv by (intro good_update_same) (auto simp: ledger_inv_def)

lemma owner_active_good:
  assumes "ledger_inv db"
  shows "good_update db (snd (owner_active_exclusions now db))"
proof -
  have "od_exclusions (snd (owner_active_exclusions now db)) = od_exclusions db \<or>
    od_exclusions (snd (owner_active_exclusions now db)) = snd (list_active_exclusions (od_read_only db) now (od_exclusions db))"
    by (simp add: owner_active_exclusions_def Let_def split: prod.split)
  then show ?thesis
  proof
    assume "od_exclusions (snd (owner_active_exclusions now db)) = od_exclusions db"
    then show ?thesis using assms by (intro good_update_same) (simp_all add: ledger_inv_def)
  next
    assume "od_exclusions (snd (owner_active_exclusions now db)) =
      snd (list_active_exclusions (od_read_only db) now (od_exclusions db))"
    then show ?thesis by (intro excl_update_good [OF assms step_list]) simp_all
  qed
qed

lemma good_update_trans: "good_update db1 db2 \<Longrightarrow> (ledger_inv db2 \<Longrightarrow> good_update db2 db3) \<Longrightarrow> good_update db1 db3"
  unfolding good_update_def using keeps_reservations_trans by blast

lemma estimate_state: "snd (estimate pool window now kinds db) = db \<or>
   snd (estimate pool window now kinds db) = snd (owner_active_exclusions now db)"
proof -
  have "snd (estimate_now p w now obs db) = snd (owner_active_exclusions now db)" for p w obs
    by (simp add: estimate_now_def active_exclusion_def Let_def split: prod.splits option.splits)
  then show ?thesis by (simp add: estimate_def Let_def split: option.splits)
qed

lemma estimate_good: "ledger_inv db \<Longrightarrow> good_update db (snd (estimate pool window now kinds db))"
  using estimate_state [of pool window now kinds db] owner_active_good [of db now]
  by (auto intro: good_update_same)

lemma estimates_good: "ledger_inv db \<Longrightarrow> good_update db (snd (estimates ks now kinds db))"
proof (induction ks now kinds db rule: estimates.induct)
  case (2 pool window ks now kinds db)
  have "good_update db (snd (estimate pool window now kinds db))" by (rule estimate_good [OF 2(2)])
  moreover have "ledger_inv (snd (estimate pool window now kinds db)) \<Longrightarrow>
      good_update (snd (estimate pool window now kinds db)) (snd (estimates ks now kinds (snd (estimate pool window now kinds db))))"
    using 2(1) by (metis prod.collapse)
  ultimately show ?case by (auto intro: good_update_trans split: prod.split)
qed (simp add: good_update_same)

lemma snapshot_good: "ledger_inv db \<Longrightarrow> good_update db (snd (snapshot now plans db))"
proof -
  assume inv: "ledger_inv db"
  have "good_update db (snd (estimates ks now kinds (snd (owner_active_exclusions now db))))" for ks kinds
    by (rule good_update_trans [OF owner_active_good [OF inv] estimates_good])
  then show ?thesis
    using inv by (cases "owner_active_exclusions now db") (simp add: snapshot_def good_update_same)
qed

inductive ledger_step :: "owner_db \<Rightarrow> owner_db \<Rightarrow> bool" where
  ls_reserve: "ledger_step db (snd (reserve run job route draws bucket fresh now db))"
| ls_settle: "ledger_step db (snd (settle run tokens now db))"
| ls_release: "ledger_step db (snd (release run now db))"
| ls_release_debt: "ledger_step db (snd (release_terminal_debt run job guard locked now db))"
| ls_record: "ledger_step db (snd (record_owner_quota provider pool pct reset source i now db))"
| ls_probe: "ledger_step db (snd (record_probe_window_observation pool window pct reset harness ev i now db))"
| ls_enable: "ledger_step db (snd (enable_owner_quota provider pool now db))"
| ls_estimate: "ledger_step db (snd (estimate pool window now kinds db))"
| ls_snapshot: "ledger_step db (snd (snapshot now plans db))"
| ls_exclusion: "exclusion_step (od_exclusions db) ex \<Longrightarrow> ledger_step db (db\<lparr>od_exclusions := ex\<rparr>)"
| ls_lease: "ledger_step db (db\<lparr>od_leases := ls\<rparr>)"
| ls_tables: "ledger_step db (ensure_tables db)"

inductive_cases ledger_stepE: "ledger_step db db'"

lemma ledger_step_good: "ledger_step db db' \<Longrightarrow> ledger_inv db \<Longrightarrow> good_update db db'"
proof (induction rule: ledger_step.induct)
  case (ls_enable db provider pool now)
  then show ?case by (intro good_update_same) (simp_all add: enable_owner_quota_def Let_def ledger_inv_def)
next
  case (ls_exclusion db ex)
  then show ?case by (auto intro: excl_update_good)
next
  case (ls_lease db ls)
  then show ?case by (intro good_update_same) (simp_all add: ledger_inv_def)
next
  case (ls_tables db)
  then show ?case by (intro good_update_same) simp_all
qed (simp_all add: reserve_good settle_good release_good release_terminal_debt_good record_owner_quota_good
       record_probe_good estimate_good snapshot_good)

interpretation ledger: stepwise ledger_step ledger_inv
  by unfold_locales (use ledger_step_good good_update_def in blast)

lemma ledger_steps_keep: "ledger_step\<^sup>*\<^sup>* db db' \<Longrightarrow> ledger_inv db \<Longrightarrow> keeps_reservations db db'"
  by (rule ledger.steps_rel)
     (use keeps_reservations_refl keeps_reservations_trans ledger_step_good good_update_def in blast)+

section \<open>Properties of reservations\<close>

text \<open>A reservation is all or nothing, and a retry of it is free.  If \<open>reserve\<close> fails, no
  reservation changed.  If it succeeds, only fresh reserved rows of the run were appended and
  every draw is held by exactly one row of the run; and a retry of the same draws for the run,
  with whatever job, valid route and size class and at whatever time, answers the same
  reservations and changes nothing.\<close>
theorem reserve_atomic_and_idempotent:
  assumes "ledger_inv db" "reserve run job route draws bucket fresh now db = (res, db')"
    "validate_route route' = Inr r'" "coerce_bucket bucket' = Inr b'"
  shows "case res of
     Inl e \<Rightarrow> od_reservations db' = od_reservations db
   | Inr out \<Rightarrow>
       (\<exists>new. od_reservations db' = od_reservations db @ new \<and> new_rows_ok (py_strip run) job new) \<and>
       (\<forall>d \<in> set draws.
          length (reservations_of (py_strip run) (py_strip (dr_pool_id d)) (norm_window (dr_window_id d)) db') = 1) \<and>
       reserve run job' route' draws bucket' fresh' now' db' = (Inr out, db')"
  using reserve_cases [OF assms(2,1)]
proof (elim disjE exE conjE)
  fix out b r
  assume res: "res = Inr out" and run: "py_strip run \<noteq> []"
    and rd: "reserve_draws (py_strip run) job r b (isoformat now) fresh draws (ensure_tables db) = Inr (out, db')"
  have ok: "reservations_ok (od_reservations (ensure_tables db))" using assms(1) by (simp add: ledger_inv_def)
  obtain new where new: "db' = (ensure_tables db)\<lparr>od_reservations := od_reservations (ensure_tables db) @ new\<rparr>"
    "new_rows_ok (py_strip run) job new" "reservations_ok (od_reservations db')"
    "\<forall>d \<in> set draws. reservations_of (py_strip run) (py_strip (dr_pool_id d)) (norm_window (dr_window_id d)) db' \<noteq> []"
    using reserve_draws_appends [OF rd run ok] by blast
  have tables: "ensure_tables db' = db'"
    using ensure_tables_idem [of db] unfolding new(1) ensure_tables_def by simp
  have one: "length (reservations_of (py_strip run) p w db') \<le> 1" for p w
    using distinct_key_count [of reservation_key "od_reservations db'" "(py_strip run, p, w)"] new(3)
    by (simp add: reservations_of_def reservations_ok_def)
  have "reserve_draws (py_strip run) job' r' b' (isoformat now') fresh' draws db' = Inr (out, db')"
    by (rule reserve_draws_again [OF rd run ok]) simp
  then have "reserve run job' route' draws bucket' fresh' now' db' = (Inr out, db')"
    using run assms(3,4) tables by (simp add: reserve_def Let_def)
  moreover have "length (reservations_of (py_strip run) p w db') = 1"
    if "reservations_of (py_strip run) p w db' \<noteq> []" for p w
    using one [of p w] that by (cases "reservations_of (py_strip run) p w db'") auto
  moreover have "od_reservations db' = od_reservations db @ new" using new(1) by simp
  ultimately show ?thesis using res new(2,4) by auto
qed auto

definition sample_draws :: "pool_draw list" where
  "sample_draws = [\<lparr>dr_pool_id = ''codex'', dr_window_id = ''5h'', dr_multiplier = 1\<rparr>,
     \<lparr>dr_pool_id = ''codex'', dr_window_id = ''weekly'', dr_multiplier = 1\<rparr>]"

definition sample_fresh :: "nat \<Rightarrow> string" where
  "sample_fresh k = ''res_'' @ replicate k CHR ''x''"

definition sample_owner :: owner_db where
  "sample_owner = snd (reserve ''run-1'' (Some ''J1'') ''codex/gpt'' sample_draws ''M'' sample_fresh 63928087200000000 empty_owner_db)"

lemma sample_reserve:
  "case reserve ''run-1'' (Some ''J1'') ''codex/gpt'' sample_draws ''M'' sample_fresh 63928087200000000 empty_owner_db of
     (Inr out, db) \<Rightarrow> map rv_cost_pct out = [8, 5 / 2] \<and> length (od_reservations db) = 2 | _ \<Rightarrow> False"
  by code_simp

theorem reserve_atomic_and_idempotent_witness:
  "\<exists>out. reserve ''run-1'' (Some ''J1'') ''codex/gpt'' sample_draws ''M'' sample_fresh 63928087200000000 empty_owner_db
      = (Inr out, sample_owner)
    \<and> reserve ''run-1'' None ''kimi/k2'' sample_draws ''L'' sample_fresh 63928087260000000 sample_owner = (Inr out, sample_owner)"
proof -
  obtain out where out: "reserve ''run-1'' (Some ''J1'') ''codex/gpt'' sample_draws ''M'' sample_fresh 63928087200000000 empty_owner_db
      = (Inr out, sample_owner)"
    using sample_reserve by (auto simp: sample_owner_def split: prod.splits sum.splits)
  moreover have "validate_route ''kimi/k2'' = Inr ''kimi/k2''" "coerce_bucket ''L'' = Inr Bucket_L" by code_simp+
  ultimately show ?thesis
    using reserve_atomic_and_idempotent [OF empty_ledger_inv out, of "''kimi/k2''" "''kimi/k2''" "''L''" Bucket_L]
    by simp
qed

lemma sample_owner_reachable: "ledger_step\<^sup>*\<^sup>* empty_owner_db sample_owner"
  unfolding sample_owner_def by (rule r_into_rtranclp) (rule ls_reserve)

text \<open>C29: The life of a reservation.  In every ledger reachable from the empty one the
  reservation ids are unique and each run holds at most one row per pool and window; along any
  further operations a row keeps its run, job, route, window and price, may leave the reserved
  state once, and once settled or released never changes again; it is stamped exactly when it
  is no longer reserved.\<close>
theorem reservation_lifecycle:
  assumes "ledger_step\<^sup>*\<^sup>* empty_owner_db db" "ledger_step\<^sup>*\<^sup>* db db'" "r \<in> set (od_reservations db)"
  shows "distinct (map rr_id (od_reservations db)) \<and> distinct (map reservation_key (od_reservations db)) \<and>
    (rr_settled_at r = None \<longleftrightarrow> rr_state r = ''RESERVED'') \<and>
    (\<exists>r' \<in> set (od_reservations db'). row_moves r r' \<and> rr_cost_pct r' = rr_cost_pct r \<and>
       rr_state r' \<in> {''RESERVED'', ''SETTLED'', ''RELEASED''})"
proof -
  have inv: "ledger_inv db" by (rule ledger.steps_inv [OF assms(1) empty_ledger_inv])
  have inv': "ledger_inv db'" by (rule ledger.steps_inv [OF assms(2) inv])
  obtain r' where r': "r' \<in> set (od_reservations db')" "row_moves r r'"
    using ledger_steps_keep [OF assms(2) inv] assms(3) by (auto simp: keeps_reservations_def)
  have "reservation_ok r" "reservation_ok r'"
    using inv inv' assms(3) r'(1) by (auto simp: ledger_inv_def reservations_ok_def)
  moreover have "rr_cost_pct r' = rr_cost_pct r" using r'(2) by (simp add: row_moves_def)
  moreover have "distinct (map rr_id (od_reservations db))" "distinct (map reservation_key (od_reservations db))"
    using inv by (auto simp: ledger_inv_def reservations_ok_def)
  ultimately show ?thesis using r' unfolding reservation_ok_def by blast
qed

theorem reservation_lifecycle_witness:
  "\<exists>r. r \<in> set (od_reservations sample_owner) \<and> rr_state r = ''RESERVED'' \<and>
     (\<exists>r' \<in> set (od_reservations (snd (settle ''run-1'' (Some 900) 63928087300000000 sample_owner))).
        row_moves r r' \<and> rr_cost_pct r' = rr_cost_pct r)"
proof -
  have "case od_reservations sample_owner of r # _ \<Rightarrow> rr_state r = ''RESERVED'' | [] \<Rightarrow> False" by code_simp
  then obtain r where r: "r \<in> set (od_reservations sample_owner)" "rr_state r = ''RESERVED''"
    by (auto split: list.splits)
  have "ledger_step\<^sup>*\<^sup>* sample_owner (snd (settle ''run-1'' (Some 900) 63928087300000000 sample_owner))"
    by (rule r_into_rtranclp) (rule ls_settle)
  then show ?thesis using reservation_lifecycle [OF sample_owner_reachable _ r(1)] r by blast
qed

text \<open>The settlement write for an old run is narrow.  Whatever it is given, it changes only
  reservations that are reserved, belong to the run and, when a job is named, to that job, and
  these become released; it reports how many they were; when the lease guard denies the
  write it reports -1 and no reservation changes, and a second call releases nothing.\<close>
theorem release_terminal_debt_is_narrow:
  assumes "release_terminal_debt run job guard locked now db = (n, db')"
  shows "list_all2 (\<lambda>r r'. r' = r \<or>
        rr_run_id r = py_strip run \<and> rr_state r = ''RESERVED'' \<and> (job = None \<or> rr_job_id r = job) \<and>
        r' = r\<lparr>rr_state := ''RELEASED'', rr_settled_at := Some (isoformat now)\<rparr>)
      (od_reservations db) (od_reservations db')
   \<and> (n = -1 \<longleftrightarrow> py_strip run \<noteq> [] \<and> \<not> locked \<and> (\<exists>g. guard = Some g \<and> \<not> g (ensure_tables db)))
   \<and> (n \<le> 0 \<longrightarrow> od_reservations db' = od_reservations db)
   \<and> (0 < n \<longrightarrow> fst (release_terminal_debt run job None False now' db') = 0)"
proof (cases "py_strip run = [] \<or> locked \<or> (\<exists>g. guard = Some g \<and> \<not> g (ensure_tables db))")
  case True
  then have "od_reservations db' = od_reservations db" "n = 0 \<or> n = -1"
    using assms by (auto simp: release_terminal_debt_def Let_def update_reservations_def split: if_splits option.splits)
  then show ?thesis
    using assms True by (auto simp: release_terminal_debt_def Let_def list_all2_same update_reservations_def
        split: if_splits option.splits)
next
  case False
  let ?p = "\<lambda>r. rr_run_id r = py_strip run \<and> rr_state r = ''RESERVED'' \<and> (case job of None \<Rightarrow> True | Some j \<Rightarrow> rr_job_id r = Some j)"
  let ?f = "\<lambda>r. r\<lparr>rr_state := ''RELEASED'', rr_settled_at := Some (isoformat now)\<rparr>"
  let ?g = "\<lambda>r. if ?p r then ?f r else r"
  have n: "n = int (length (filter ?p (od_reservations db)))" and rows: "od_reservations db' = map ?g (od_reservations db)"
    using assms False by (auto simp: release_terminal_debt_def Let_def update_reservations_def split: if_splits option.splits)
  have "list_all2 (\<lambda>r r'. r' = r \<or> rr_run_id r = py_strip run \<and> rr_state r = ''RESERVED'' \<and> (job = None \<or> rr_job_id r = job) \<and> r' = ?f r)
      (od_reservations db) (od_reservations db')"
    unfolding rows list_all2_map2 by (rule list_all2_refl) (simp split: option.splits)
  moreover have "od_reservations db' = od_reservations db" if "n \<le> 0"
    using that n unfolding rows by (intro map_idI) (auto simp: filter_empty_conv)
  moreover have "filter ?p (od_reservations db') = []"
    unfolding rows by (auto simp: filter_empty_conv)
  then have "fst (release_terminal_debt run job None False now' db') = 0"
    by (simp add: release_terminal_debt_def Let_def update_reservations_def)
  ultimately show ?thesis using n False by auto
qed

theorem release_terminal_debt_is_narrow_witness:
  "\<exists>n db'. release_terminal_debt ''run-1'' (Some ''J1'') (Some (\<lambda>_. True)) False 63928087300000000 sample_owner = (n, db')
     \<and> n = 2 \<and> fst (release_terminal_debt ''run-1'' (Some ''J1'') None False 63928087300000000 db') = 0"
proof -
  have two: "fst (release_terminal_debt ''run-1'' (Some ''J1'') (Some (\<lambda>_. True)) False 63928087300000000 sample_owner) = 2"
    by code_simp
  then obtain db' where r: "release_terminal_debt ''run-1'' (Some ''J1'') (Some (\<lambda>_. True)) False 63928087300000000 sample_owner = (2, db')"
    by (metis prod.collapse)
  then show ?thesis using release_terminal_debt_is_narrow [OF r, of 63928087300000000] by auto
qed

section \<open>Paging the outstanding debts\<close>

abbreviation debt_windows :: "string \<Rightarrow> reservation_row list \<Rightarrow> (string \<times> string) list" where
  "debt_windows run rs \<equiv> map (\<lambda>r. (rr_pool_id r, rr_window_id r)) (filter (\<lambda>r. rr_run_id r = run) rs)"

definition debts_shape :: "reservation_row list \<Rightarrow> (string \<times> reserved_debt) list \<Rightarrow> bool" where
  \<comment> \<open>what the grouping has built from the rows read so far\<close>
  "debts_shape rs acc \<longleftrightarrow> sorted_wrt (<) (map fst acc) \<and> set (map fst acc) = rr_run_id ` set rs \<and>
     (\<forall>(k, d) \<in> set acc. rd_run_id d = k \<and> rd_pool_windows d = debt_windows k rs)"

lemma dict_set_append: "k \<notin> fst ` set d \<Longrightarrow> dict_set d k v = d @ [(k, v)]"
  by (induction d k v rule: dict_set.induct) auto

lemma dict_set_mem:
  "(j, x) \<in> set (dict_set d k v) \<Longrightarrow> distinct (map fst d) \<Longrightarrow> (j, x) \<in> set d \<and> j \<noteq> k \<or> j = k \<and> x = v"
  by (induction d k v rule: dict_set.induct) (force split: if_splits)+

lemma debts_shape_step:
  assumes "debts_shape rs acc" "\<forall>x \<in> set rs. rr_run_id x \<le> rr_run_id r"
  shows "debts_shape (rs @ [r]) (case dict_get acc (rr_run_id r) of
        None \<Rightarrow> dict_set acc (rr_run_id r) \<lparr>rd_run_id = rr_run_id r, rd_job_id = rr_job_id r,
                                             rd_pool_windows = [(rr_pool_id r, rr_window_id r)]\<rparr>
      | Some d \<Rightarrow> dict_set acc (rr_run_id r)
                    (d\<lparr>rd_pool_windows := rd_pool_windows d @ [(rr_pool_id r, rr_window_id r)]\<rparr>))"
proof (cases "dict_get acc (rr_run_id r)")
  case None
  then have new: "rr_run_id r \<notin> fst ` set acc" by (simp add: dict_get_map_of map_of_eq_None_iff)
  then have nin: "rr_run_id r \<notin> rr_run_id ` set rs" using assms(1) by (auto simp: debts_shape_def)
  have "k < rr_run_id r" if "k \<in> set (map fst acc)" for k
  proof -
    have "k \<in> rr_run_id ` set rs" using that assms(1) unfolding debts_shape_def by blast
    then show ?thesis using assms(2) nin by (metis imageE order_le_less)
  qed
  then have "sorted_wrt (<) (map fst acc @ [rr_run_id r])"
    using assms(1) by (simp add: debts_shape_def sorted_wrt_append)
  moreover have "filter (\<lambda>x. rr_run_id x = rr_run_id r) rs = []"
    using nin by (metis (mono_tags, lifting) filter_False imageI)
  moreover have "rd_run_id x = j \<and> rd_pool_windows x = debt_windows j (rs @ [r])" if "(j, x) \<in> set acc" for j x
  proof -
    have "j \<noteq> rr_run_id r" using that new by force
    then show ?thesis using that assms(1) unfolding debts_shape_def by auto
  qed
  moreover have "set (map fst acc) = rr_run_id ` set rs" using assms(1) by (simp add: debts_shape_def)
  ultimately show ?thesis
    using None unfolding debts_shape_def by (simp add: dict_set_append [OF new]) blast
next
  case (Some d)
  have dist: "distinct (map fst acc)" using assms(1) by (simp add: debts_shape_def strict_sorted_iff)
  have inacc: "(rr_run_id r, d) \<in> set acc" by (rule dict_get_Some_in [OF Some])
  then have k: "rr_run_id r \<in> fst ` set acc" by force
  let ?d = "d\<lparr>rd_pool_windows := rd_pool_windows d @ [(rr_pool_id r, rr_window_id r)]\<rparr>"
  have "rd_run_id x = j \<and> rd_pool_windows x = debt_windows j (rs @ [r])"
    if "(j, x) \<in> set (dict_set acc (rr_run_id r) ?d)" for j x
    using dict_set_mem [OF that dist] assms(1) inacc unfolding debts_shape_def by fastforce
  moreover have "map fst (dict_set acc (rr_run_id r) ?d) = map fst acc" using k by (simp add: keys_dict_set)
  moreover have "set (map fst acc) = rr_run_id ` set (rs @ [r])"
    using assms(1) k by (auto simp: debts_shape_def)
  ultimately show ?thesis using assms(1) Some unfolding debts_shape_def by auto
qed

lemma group_debts_shape:
  "debts_shape rs acc \<Longrightarrow> sorted (map rr_run_id (rs @ ts)) \<Longrightarrow> debts_shape (rs @ ts) (group_debts ts acc)"
proof (induction ts arbitrary: rs acc)
  case (Cons r ts)
  have "\<forall>x \<in> set rs. rr_run_id x \<le> rr_run_id r" using Cons.prems(2) by (auto simp: sorted_append)
  from Cons.IH [OF debts_shape_step [OF Cons.prems(1) this]] Cons.prems(2) show ?case by simp
qed simp

lemma sorted_runs_after: "sorted (map rr_run_id (reserved_rows_after cursor db))"
proof -
  have "sorted (map (\<lambda>r. (rr_run_id r, rr_pool_id r, rr_window_id r)) (reserved_rows_after cursor db))"
    by (simp add: reserved_rows_after_def)
  then show ?thesis
    unfolding sorted_map by (rule sorted_wrt_mono_rel [rotated]) (auto simp: less_eq_prod_def)
qed

text \<open>Paging the debts hides nothing.  A page names runs in strictly ascending order, all
  after the cursor, each with the windows its reserved rows on the page hold; every run that
  holds reserved capacity after the cursor is on the page or comes after the page's last run,
  so that a caller that continues from there meets it, and the page is empty only when no
  debt is left; a limit below one is refused.\<close>
theorem debts_page_complete:
  assumes "cursor = or_text after []"
  shows "case list_reserved_debts limit after db of
     Inl e \<Rightarrow> limit < 1
   | Inr page \<Rightarrow> 1 \<le> limit \<and> length page \<le> nat limit \<and> sorted_wrt (<) (map rd_run_id page) \<and>
       (\<forall>d \<in> set page. cursor < rd_run_id d \<and> rd_pool_windows d \<noteq> [] \<and>
          rd_pool_windows d = debt_windows (rd_run_id d) (take (nat limit) (reserved_rows_after cursor db))) \<and>
       (\<forall>r \<in> set (od_reservations db). rr_state r = ''RESERVED'' \<and> cursor < rr_run_id r \<longrightarrow>
          rr_run_id r \<in> rd_run_id ` set page \<or> page \<noteq> [] \<and> rd_run_id (last page) < rr_run_id r)"
proof (cases "limit < 1")
  case False
  let ?ys = "reserved_rows_after cursor db"
  let ?ts = "take (nat limit) ?ys"
  let ?acc = "group_debts ?ts []"
  let ?page = "map snd ?acc"
  have page: "list_reserved_debts limit after db = Inr ?page"
    using False assms by (simp add: list_reserved_debts_def)
  have sorted: "sorted (map rr_run_id ?ts)"
    using sorted_runs_after [of cursor db] by (simp add: sorted_wrt_take take_map [symmetric])
  have shape: "debts_shape ?ts ?acc"
    using group_debts_shape [of "[]" "[]" ?ts] sorted by (simp add: debts_shape_def)
  then have runs: "map rd_run_id ?page = map fst ?acc" by (auto simp: debts_shape_def)
  have keys: "set (map rd_run_id ?page) = rr_run_id ` set ?ts"
    using shape unfolding runs by (simp add: debts_shape_def)
  have asc: "sorted_wrt (<) (map rd_run_id ?page)" using shape unfolding runs by (simp add: debts_shape_def)
  have "distinct (map fst ?acc)" using asc unfolding runs by (simp add: strict_sorted_iff)
  from distinct_card [OF this] have "length ?page = card (set (map fst ?acc))" by simp
  also have "\<dots> \<le> length ?ts"
    using shape unfolding debts_shape_def by (metis card_length length_map set_map)
  finally have len: "length ?page \<le> nat limit" by simp
  have each: "cursor < rd_run_id d \<and> rd_pool_windows d \<noteq> [] \<and> rd_pool_windows d = debt_windows (rd_run_id d) ?ts"
    if d: "d \<in> set ?page" for d
  proof -
    obtain k where "(k, d) \<in> set ?acc" using d by auto
    then have w: "rd_pool_windows d = debt_windows (rd_run_id d) ?ts" using shape unfolding debts_shape_def by auto
    obtain r where r: "r \<in> set ?ts" "rr_run_id r = rd_run_id d" using keys d by (metis imageE imageI list.set_map)
    then have "r \<in> set ?ys" by (meson in_set_takeD)
    then have "cursor < rd_run_id d" using r(2) by (simp add: reserved_rows_after_def)
    moreover have "debt_windows (rd_run_id d) ?ts \<noteq> []" using r by (auto simp: filter_empty_conv)
    ultimately show ?thesis using w by simp
  qed
  have all: "rr_run_id r \<in> rd_run_id ` set ?page \<or> ?page \<noteq> [] \<and> rd_run_id (last ?page) < rr_run_id r"
    if "r \<in> set (od_reservations db)" "rr_state r = ''RESERVED''" "cursor < rr_run_id r" for r
  proof (cases "rr_run_id r \<in> rr_run_id ` set ?ts")
    case True
    then have "rr_run_id r \<in> set (map rd_run_id ?page)" using keys by blast
    then show ?thesis unfolding set_map by blast
  next
    case nin: False
    have "r \<in> set ?ys" using that by (simp add: reserved_rows_after_def)
    then have "r \<in> set (drop (nat limit) ?ys)" using nin by (metis UnE append_take_drop_id imageI set_append)
    moreover have "sorted (map rr_run_id ?ts @ map rr_run_id (drop (nat limit) ?ys))"
      using sorted_runs_after [of cursor db] by (metis append_take_drop_id map_append)
    ultimately have le: "\<forall>k \<in> set (map rr_run_id ?ts). k \<le> rr_run_id r" by (auto simp: sorted_append)
    have "?ts \<noteq> []" using \<open>r \<in> set ?ys\<close> False by (cases ?ys) auto
    then have "?page \<noteq> []" using keys by (metis image_is_empty list.map_disc_iff set_empty)
    moreover from this have "rd_run_id (last ?page) \<in> rr_run_id ` set ?ts"
      using keys by (metis last_in_set list.set_map imageI)
    ultimately show ?thesis using le nin by (metis list.set_map order_le_less)
  qed
  have "1 \<le> limit" using False by simp
  then show ?thesis unfolding page sum.case using len asc each all by blast
qed (simp add: list_reserved_debts_def)

theorem debts_page_complete_witness:
  "\<exists>page. list_reserved_debts 1 (Some ''run-0'') sample_owner = Inr page \<and> map rd_run_id page = [''run-1''] \<and>
     sorted_wrt (<) (map rd_run_id page) \<and> length page \<le> 1"
proof -
  have v: "case list_reserved_debts 1 (Some ''run-0'') sample_owner of Inl _ \<Rightarrow> False | Inr page \<Rightarrow> map rd_run_id page = [''run-1'']"
    by code_simp
  then obtain page where page: "list_reserved_debts 1 (Some ''run-0'') sample_owner = Inr page"
    "map rd_run_id page = [''run-1'']"
    by (auto split: sum.splits)
  have "''run-0'' = or_text (Some ''run-0'') []" by simp
  from debts_page_complete [OF this, where limit = 1 and db = sample_owner] page show ?thesis by simp
qed

section \<open>The estimate\<close>

lemma clamp_range: "0 \<le> clamp_pct x \<and> clamp_pct x \<le> 100"
  by (simp add: clamp_pct_def)

definition window_rolled :: "observation option \<Rightarrow> int \<Rightarrow> int option" where
  \<comment> \<open>the reset of the latest observation, when it has passed\<close>
  "window_rolled obs now =
     (case obs of None \<Rightarrow> None
      | Some o' \<Rightarrow> (case parse_iso (ob_reset_at o') of None \<Rightarrow> None | Some r \<Rightarrow> if r \<le> now then Some r else None))"

definition covers :: "string \<Rightarrow> string \<Rightarrow> exclusion_row \<Rightarrow> bool" where
  \<comment> \<open>an exclusion of the pool for this window or for all\<close>
  "covers pool window e \<longleftrightarrow> exc_pool_id e = pool \<and> (exc_window_id e = window \<or> exc_window_id e = ''ALL'' \<or> exc_window_id e = [])"

lemma active_exclusion_None:
  assumes "window \<noteq> []"
  shows "fst (active_exclusion pool window now db) = None \<longleftrightarrow>
    (\<forall>e \<in> set (fst (owner_active_exclusions now db)). \<not> covers pool window e)"
proof -
  have "(let w = (if exc_window_id e = [] then ''ALL'' else exc_window_id e) in w = window \<or> w = ''ALL'') \<longleftrightarrow>
      exc_window_id e = window \<or> exc_window_id e = ''ALL'' \<or> exc_window_id e = []" for e
    using assms by (auto simp: Let_def)
  then show ?thesis
    using owner_active_excluding [of _ now db]
    by (auto simp: active_exclusion_def find_None_all covers_def split: prod.splits)
qed

lemma norm_window_nonempty [simp]: "norm_window w \<noteq> []"
  by (simp add: norm_window_def Let_def)

text \<open>What an estimate of remaining capacity rests on.  The answer lies between 0 and 100
  when there is one.  Once the reset of the latest observation has passed, it is the full
  window less what was reserved or settled since that reset, and no exclusion is consulted.
  Otherwise a live exclusion of the pool for the window or for all windows forces it to zero;
  without one it is the observed percentage less the reservations counted since, and without
  an observation it is unknown and stale.\<close>
theorem estimate_sound:
  assumes "p = py_strip pool" "w = norm_window window" "obs = readable_observation p w db"
    "estimate pool window now kinds db = (e, db')"
  shows "(\<forall>x. le_remaining_est e = Some x \<longrightarrow> 0 \<le> x \<and> x \<le> 100)
   \<and> (case window_rolled obs now of
        Some r \<Rightarrow> le_remaining_est e = Some (clamp_pct (100 - spent_pct (counted_reservations p w (isoformat r) db)))
                  \<and> le_excluded_until e = None \<and> db' = db
      | None \<Rightarrow>
          if \<exists>x \<in> set (fst (owner_active_exclusions now db)). covers p w x
          then le_remaining_est e = Some 0 \<and> \<not> le_stale e
          else (case obs of
                  None \<Rightarrow> le_remaining_est e = None \<and> le_stale e
                | Some ob \<Rightarrow> le_remaining_est e =
                    Some (clamp_pct (ob_remaining_pct ob - spent_pct (counted_reservations p w (ob_observed_at ob) db)))))"
proof (cases "window_rolled obs now")
  case None
  then have now: "estimate pool window now kinds db = estimate_now p w now obs db"
    using assms(1-3) unfolding estimate_def window_rolled_def by (auto simp: Let_def split: option.splits if_splits)
  obtain x db1 where a: "active_exclusion p w now db = (x, db1)" by fastforce
  have "x = None \<longleftrightarrow> (\<forall>e \<in> set (fst (owner_active_exclusions now db)). \<not> covers p w e)"
    using active_exclusion_None [of w p now db] a assms(2) by simp
  then show ?thesis
    using None now assms(4) a clamp_range
    by (cases x; cases obs) (auto simp: estimate_now_def Let_def)
next
  case (Some r)
  then have "estimate pool window now kinds db = (e, db) \<and> le_remaining_est e = Some (clamp_pct (100 - spent_pct (counted_reservations p w (isoformat r) db)))
    \<and> le_excluded_until e = None"
    using assms unfolding estimate_def window_rolled_def by (auto simp: Let_def split: option.splits if_splits)
  then show ?thesis using Some assms(4) clamp_range by auto
qed

definition sample_observed :: owner_db where
  "sample_observed = snd (record_probe_window_observation ''codex'' ''5h'' 60 (Some ''2026-10-20T12:00:00+00:00'')
     ''codex'' None ''obs_1'' 63928087200000000 sample_owner)"

theorem estimate_sound_witness:
  "\<exists>e db'. estimate ''codex'' ''5h'' 63928087260000000 [] sample_observed = (e, db') \<and> le_remaining_est e = Some 52"
proof -
  have v: "fst (owner_active_exclusions 63928087260000000 sample_observed) = []"
    "case readable_observation ''codex'' ''5h'' sample_observed of None \<Rightarrow> False
     | Some ob \<Rightarrow> window_rolled (Some ob) 63928087260000000 = None \<and>
         clamp_pct (ob_remaining_pct ob - spent_pct (counted_reservations ''codex'' ''5h'' (ob_observed_at ob) sample_observed)) = 52"
    by code_simp+
  have s: "''codex'' = py_strip ''codex''" "''5h'' = norm_window ''5h''" by code_simp+
  obtain e db' where e: "estimate ''codex'' ''5h'' 63928087260000000 [] sample_observed = (e, db')" by fastforce
  show ?thesis
    using estimate_sound [OF s refl e] v e by (auto split: option.splits)
qed

end
