(* ===== verification/Control_Policy.thy ===== *)
theory Control_Policy
  imports Quota_Policy Plans
begin

text \<open>
  The owner policy of \<open>saberops/control_plane/policy.py\<close>, the pools it makes effective
  (\<open>effective_quota_pools\<close> of \<open>plans.py\<close>), the retired training filter of \<open>training_policy.py\<close> and
  the frozen routing snapshot of \<open>routing_config.py\<close>.  The packaged plan document is data: the
  plan set it is read as is the argument \<open>packaged\<close>.
\<close>

named_theorems policy_simps \<open>evaluation of the owner policy\<close>

section \<open>Providers and the global ceiling\<close>

datatype provider_policy_state = PP_ALLOWED | PP_ALLOWED_WITH_WARNING | PP_DISABLED

record provider_policy =
  pv_provider :: string
  pv_state :: provider_policy_state
  pv_warning :: "string option"

record control_plane_policy =
  cpp_providers :: "(string \<times> provider_policy) list"
  cpp_quota_pools :: pool_policies
  cpp_content_hash :: string
  cpp_plans :: plan_set
  cpp_max_global :: "int option"

definition policy_provider :: "control_plane_policy \<Rightarrow> string \<Rightarrow> provider_policy" where
  \<comment> \<open>\<open>policy.provider(name)\<close>\<close>
  "policy_provider policy name =
     (let key = py_lower (py_strip name) in
      case dict_get (cpp_providers policy) key of
        Some p \<Rightarrow> p
      | None \<Rightarrow> \<lparr>pv_provider = key, pv_state = PP_ALLOWED_WITH_WARNING, pv_warning = Some ''unknown provider''\<rparr>)"

definition DEFAULT_MAX_GLOBAL_CONCURRENT :: int where "DEFAULT_MAX_GLOBAL_CONCURRENT = 15"

fun lower_limit :: "int \<Rightarrow> int option list \<Rightarrow> py_error + int" where
  \<comment> \<open>the loop over the lowering inputs\<close>
  "lower_limit effective [] = Inr effective"
| "lower_limit effective (None # vs) = lower_limit effective vs"
| "lower_limit effective (Some v # vs) =
     (if v < 1 then Inl (ValueError ''must be an int >= 1'') else lower_limit (min effective v) vs)"

definition effective_global_slot_limit ::
  "control_plane_policy \<Rightarrow> int option \<Rightarrow> int option \<Rightarrow> py_error + int" where
  "effective_global_slot_limit policy override injected =
     lower_limit (case cpp_max_global policy of None \<Rightarrow> DEFAULT_MAX_GLOBAL_CONCURRENT | Some c \<Rightarrow> c)
       [override, injected]"

section \<open>Effective pools\<close>

fun plan_pools :: "bool \<Rightarrow> (string \<times> pool_plan) list \<Rightarrow> py_error + pool_policies" where
  \<comment> \<open>the comprehension over the pool plans; an unknown mode or a bad red line raises\<close>
  "plan_pools overage [] = Inr []"
| "plan_pools overage ((pid, plan) # ps) =
     (case quota_pool_mode_of (pp_mode plan) of
        None \<Rightarrow> Inl (ValueError ''is not a valid QuotaPoolMode'')
      | Some m \<Rightarrow>
          (case quota_pool_policy_of pid m (pp_red_line_pct plan) (map pm_route (pp_members plan))
                  (overage \<and> pp_overage_possible plan) of
             Inl e \<Rightarrow> Inl e
           | Inr q \<Rightarrow> (case plan_pools overage ps of Inl e \<Rightarrow> Inl e | Inr qs \<Rightarrow> Inr ((pid, q) # qs))))"

definition effective_quota_pools :: "plan_set \<Rightarrow> control_plane_policy \<Rightarrow> bool \<Rightarrow> py_error + pool_policies" where
  "effective_quota_pools packaged policy activate_overage =
     (case plan_pools activate_overage (dict_update (ps_pool_plans packaged) (ps_pool_plans (cpp_plans policy))) of
        Inl e \<Rightarrow> Inl e
      | Inr pools \<Rightarrow>
          Inr (dict_update pools
                 (map (\<lambda>(pid, p). (pid, p\<lparr>qp_overage_possible := activate_overage \<and> qp_overage_possible p\<rparr>))
                   (cpp_quota_pools policy))))"

section \<open>Training evidence\<close>

definition is_training_permitted :: "worker_candidate \<Rightarrow> bool \<Rightarrow> string option \<Rightarrow> bool" where
  \<comment> \<open>the retired filter: it permits whatever it is given\<close>
  "is_training_permitted c training_allowed training_required = True"

definition training_excluded :: "worker_candidate \<Rightarrow> bool \<Rightarrow> string option \<Rightarrow> bool" where
  "training_excluded c training_allowed training_required =
     (\<not> is_training_permitted c training_allowed training_required)"

definition normalize_training_requirement :: "string option \<Rightarrow> string option" where
  "normalize_training_requirement v =
     (case v of None \<Rightarrow> None
      | Some s \<Rightarrow> let cleaned = py_upper (py_strip s) in
          if cleaned \<in> {''TRUE'', ''FALSE'', ''UNKNOWN''} then Some cleaned else None)"

section \<open>The routing snapshot\<close>

record routing_snapshot =
  rt_role_chains :: "(string \<times> worker_candidate list list) list"
  rt_pacing :: "(string \<times> int list) list"

definition role_key :: "string \<Rightarrow> string" where
  \<comment> \<open>\<open>_role_key\<close>; a role's own value is already trimmed and upper case\<close>
  "role_key role = py_upper (py_strip role)"

definition groups_for :: "routing_snapshot \<Rightarrow> string \<Rightarrow> py_error + worker_candidate list list" where
  "groups_for snap role =
     (case dict_get (rt_role_chains snap) (role_key role) of
        None \<Rightarrow> Inl (ValueError ''unknown routing role'') | Some gs \<Rightarrow> Inr gs)"

definition prefer_wait_minutes_for :: "routing_snapshot \<Rightarrow> string \<Rightarrow> int list" where
  "prefer_wait_minutes_for snap role =
     (case dict_get (rt_pacing snap) (role_key role) of
        Some ms \<Rightarrow> ms
      | None \<Rightarrow> (case groups_for snap role of Inl _ \<Rightarrow> [] | Inr gs \<Rightarrow> map (\<lambda>_. 0) gs))"

definition chain_for_role :: "routing_snapshot \<Rightarrow> string \<Rightarrow> py_error + worker_candidate list" where
  "chain_for_role snap role = (case groups_for snap role of Inl e \<Rightarrow> Inl e | Inr gs \<Rightarrow> Inr (concat gs))"

section \<open>Facts\<close>

lemma lower_limit_spec:
  "lower_limit c vs = Inr r \<Longrightarrow>
     r \<le> c \<and> (\<forall>v. Some v \<in> set vs \<longrightarrow> 1 \<le> v \<and> r \<le> v) \<and> (r = c \<or> Some r \<in> set vs)"
proof (induction vs arbitrary: c)
  case (Cons x vs)
  show ?case
  proof (cases x)
    case None
    then show ?thesis using Cons by auto
  next
    case (Some v)
    then have "1 \<le> v" "lower_limit (min c v) vs = Inr r" using Cons.prems by (auto split: if_splits)
    then show ?thesis using Cons.IH [of "min c v"] Some by (auto simp: min_def split: if_splits)
  qed
qed simp

lemma lower_limit_error: "(\<exists>e. lower_limit c vs = Inl e) \<longleftrightarrow> (\<exists>v < 1. Some v \<in> set vs)"
proof (induction vs arbitrary: c)
  case (Cons x vs)
  then show ?case by (cases x) auto
qed simp

text \<open>The global ceiling can only be lowered.  Whatever override and injected limit are
  given, the effective ceiling is the least of the owner's (fifteen when unset) and the given
  ones, and a given limit below one is refused instead of being read as no limit.\<close>
theorem slot_limit_lowering_only:
  assumes "owner = (case cpp_max_global policy of None \<Rightarrow> 15 | Some c \<Rightarrow> c)"
  shows "case effective_global_slot_limit policy override injected of
     Inl _ \<Rightarrow> \<exists>v < 1. override = Some v \<or> injected = Some v
   | Inr r \<Rightarrow> r \<le> owner \<and> (\<forall>v. override = Some v \<or> injected = Some v \<longrightarrow> 1 \<le> v \<and> r \<le> v) \<and>
       (r = owner \<or> override = Some r \<or> injected = Some r)"
proof (cases "effective_global_slot_limit policy override injected")
  case (Inl e)
  then have "\<exists>v < 1. Some v \<in> set [override, injected]"
    using lower_limit_error by (metis effective_global_slot_limit_def)
  then show ?thesis using Inl by auto
next
  case (Inr r)
  then have "lower_limit owner [override, injected] = Inr r"
    using assms by (simp add: effective_global_slot_limit_def DEFAULT_MAX_GLOBAL_CONCURRENT_def split: option.splits)
  from lower_limit_spec [OF this] show ?thesis using Inr by auto
qed

definition open_policy :: control_plane_policy where
  "open_policy = \<lparr>cpp_providers = [(''codex'', \<lparr>pv_provider = ''codex'', pv_state = PP_ALLOWED, pv_warning = None\<rparr>)],
     cpp_quota_pools = [], cpp_content_hash = [], cpp_plans = plan_set_empty, cpp_max_global = Some 6\<rparr>"

theorem slot_limit_lowering_only_witness:
  "\<exists>r. effective_global_slot_limit open_policy (Some 9) (Some 4) = Inr r \<and> r \<le> 6 \<and> r \<le> 4"
proof -
  have s: "6 = (case cpp_max_global open_policy of None \<Rightarrow> 15 | Some c \<Rightarrow> c)" by (simp add: open_policy_def)
  have "effective_global_slot_limit open_policy (Some 9) (Some 4) = Inr 4" by code_simp
  then show ?thesis using slot_limit_lowering_only [OF s, of "Some 9" "Some 4"] by simp
qed

lemma dict_get_update: "dict_get (dict_update d e) k = (case map_of (rev e) k of None \<Rightarrow> dict_get d k | Some v \<Rightarrow> Some v)"
  by (induction d e rule: dict_update.induct) (auto split: option.splits)

end
