(* ===== verification/Preflight.thy ===== *)
theory Preflight
  imports Control_Policy Capabilities
begin

text \<open>
  \<open>saberops/control_plane/preflight.py\<close>: the hard checks one candidate passes before every model
  call.  The keyword arguments are a record; the policy is always given.  An adapter's
  instruction hook is a function of the model: \<open>None\<close> when the adapter has none, and a hook that
  raises or answers no text is one that answers the empty text.  The digests are not modelled.
\<close>

datatype provider_readiness = PR_READY | PR_NOT_READY | PR_UNKNOWN

abbreviation PROVIDER_DISABLED :: string where "PROVIDER_DISABLED \<equiv> ''PROVIDER_DISABLED''"
abbreviation TRAINING_PERMISSION_DENIED :: string where "TRAINING_PERMISSION_DENIED \<equiv> ''TRAINING_PERMISSION_DENIED''"
abbreviation REQUIRED_CAPABILITY_UNSUPPORTED :: string where "REQUIRED_CAPABILITY_UNSUPPORTED \<equiv> ''REQUIRED_CAPABILITY_UNSUPPORTED''"
abbreviation PROVIDER_UNAVAILABLE :: string where "PROVIDER_UNAVAILABLE \<equiv> ''PROVIDER_UNAVAILABLE''"
abbreviation PROVIDER_EXECUTABLE_UNAVAILABLE :: string where "PROVIDER_EXECUTABLE_UNAVAILABLE \<equiv> ''PROVIDER_EXECUTABLE_UNAVAILABLE''"
abbreviation PROVIDER_READINESS_NOT_READY :: string where "PROVIDER_READINESS_NOT_READY \<equiv> ''PROVIDER_READINESS_NOT_READY''"
abbreviation PROVIDER_READINESS_UNKNOWN :: string where "PROVIDER_READINESS_UNKNOWN \<equiv> ''PROVIDER_READINESS_UNKNOWN''"
abbreviation GOVERNED_INSTRUCTIONS_UNSUPPORTED :: string where "GOVERNED_INSTRUCTIONS_UNSUPPORTED \<equiv> ''GOVERNED_INSTRUCTIONS_UNSUPPORTED''"

record preflight_args =
  pa_required_capabilities :: "string list"
  pa_policy :: control_plane_policy
  pa_adapter :: "adapter option"
  pa_quota_states :: "quota_state list"
  pa_training_allowed :: bool
  pa_training_required :: "string option"
  pa_reserve_override :: bool
  pa_prompt_bytes :: "int option"
  pa_binding_pool_id :: "string option"
  pa_requires_governed :: bool
  pa_readiness :: "provider_readiness option"
  pa_executable_available :: bool
  pa_explicit_unknown :: bool

record control_plane_decision =
  cd_candidate :: worker_candidate
  cd_eligible :: bool
  cd_warnings :: "string list"
  cd_warning_reasons :: "string list"
  cd_reason :: "string option"
  cd_missing :: "string list"
  cd_provider_policy :: provider_policy_state
  cd_quota :: quota_decision_t
  cd_training_permitted :: bool
  cd_reserve_override :: bool

definition compatible_instruction_statuses :: "string list" where
  "compatible_instruction_statuses = [''FULL'', ''ADAPTED'']"

definition instruction_compatibility_status :: "adapter option \<Rightarrow> string \<Rightarrow> string option" where
  "instruction_compatibility_status a model =
     (case a of None \<Rightarrow> None
      | Some ad \<Rightarrow> (case ad_instruction_status ad model of
          None \<Rightarrow> None
        | Some raw \<Rightarrow> let n = py_upper (py_strip raw) in Some (if n = [] then ''UNKNOWN'' else n)))"

definition governed_refused :: "adapter option \<Rightarrow> string \<Rightarrow> bool" where
  \<comment> \<open>evidence weaker than \<open>FULL\<close> or \<open>ADAPTED\<close>; no evidence refuses nothing\<close>
  "governed_refused a model =
     (case instruction_compatibility_status a model of None \<Rightarrow> False
      | Some st \<Rightarrow> st \<notin> set compatible_instruction_statuses)"

definition prompt_too_large :: "adapter option \<Rightarrow> int option \<Rightarrow> bool" where
  "prompt_too_large a prompt_bytes =
     (case (a, prompt_bytes) of
        (Some ad, Some n) \<Rightarrow> (case ad_max_prompt_bytes ad of None \<Rightarrow> False | Some m \<Rightarrow> m < n)
      | _ \<Rightarrow> False)"

definition missing_capabilities :: "adapter option \<Rightarrow> string \<Rightarrow> string list \<Rightarrow> int option \<Rightarrow> string list" where
  \<comment> \<open>the sorted difference of what is needed and what the profile has\<close>
  "missing_capabilities a provider required prompt_bytes =
     (let needed = required @ (if prompt_too_large a prompt_bytes then [capability_value LARGE_PROMPT_STDIN] else []);
          have_caps = profile_values (capability_profile_for a provider)
      in sort (remdups (filter (\<lambda>c. c \<notin> set have_caps) needed)))"

definition preflight_reason ::
  "preflight_args \<Rightarrow> worker_candidate \<Rightarrow> string list \<Rightarrow> quota_decision_t \<Rightarrow> string option option" where
  \<comment> \<open>\<open>None\<close> when eligible; the quota's own reason may be absent\<close>
  "preflight_reason p c missing quota =
     (let state = pv_state (policy_provider (pa_policy p) (wc_provider c));
          live = (case pa_adapter p of None \<Rightarrow> True | Some ad \<Rightarrow> ad_is_live ad) in
      if state = PP_DISABLED then Some (Some PROVIDER_DISABLED)
      else if \<not> is_training_permitted c (pa_training_allowed p) (pa_training_required p)
      then Some (Some TRAINING_PERMISSION_DENIED)
      else if missing \<noteq> [] then Some (Some REQUIRED_CAPABILITY_UNSUPPORTED)
      else if \<not> qd_eligible quota then Some (qd_reason quota)
      else if live \<and> (case pa_adapter p of None \<Rightarrow> True | Some ad \<Rightarrow> \<not> ad_is_available ad)
      then Some (Some PROVIDER_UNAVAILABLE)
      else if pa_readiness p \<noteq> None \<and> \<not> pa_executable_available p then Some (Some PROVIDER_EXECUTABLE_UNAVAILABLE)
      else if pa_readiness p = Some PR_NOT_READY then Some (Some PROVIDER_READINESS_NOT_READY)
      else if pa_readiness p = Some PR_UNKNOWN \<and> \<not> pa_explicit_unknown p then Some (Some PROVIDER_READINESS_UNKNOWN)
      else if pa_requires_governed p \<and> governed_refused (pa_adapter p) (wc_model c)
      then Some (Some GOVERNED_INSTRUCTIONS_UNSUPPORTED)
      else None)"

definition evaluate_control_plane ::
  "plan_set \<Rightarrow> preflight_args \<Rightarrow> worker_candidate \<Rightarrow> py_error + control_plane_decision" where
  "evaluate_control_plane packaged p c =
     (let prov = policy_provider (pa_policy p) (wc_provider c) in
      case normalize_required_capabilities (pa_required_capabilities p) of
        Inl e \<Rightarrow> Inl e
      | Inr required \<Rightarrow>
          (let missing = missing_capabilities (pa_adapter p) (wc_provider c) required (pa_prompt_bytes p) in
           case effective_quota_pools packaged (pa_policy p) False of
             Inl e \<Rightarrow> Inl e
           | Inr pools \<Rightarrow>
               (case quota_decision c (pa_quota_states p) pools (pa_reserve_override p) (pa_binding_pool_id p) of
                  Inl e \<Rightarrow> Inl e
                | Inr quota \<Rightarrow>
                    (let refusal = preflight_reason p c missing quota;
                         warned = (pv_state prov = PP_ALLOWED_WITH_WARNING)
                     in Inr \<lparr>cd_candidate = c, cd_eligible = (refusal = None),
                          cd_warnings = (if warned then [or_text (pv_warning prov) ''provider policy warning''] else []),
                          cd_warning_reasons = (if warned then [''PROVIDER_ALLOWED_WITH_WARNING''] else []),
                          cd_reason = (case refusal of None \<Rightarrow> None | Some r \<Rightarrow> r),
                          cd_missing = missing, cd_provider_policy = pv_state prov, cd_quota = quota,
                          cd_training_permitted = is_training_permitted c (pa_training_allowed p) (pa_training_required p),
                          cd_reserve_override = pa_reserve_override p\<rparr>))))"

fun filter_control_plane_candidates ::
  "plan_set \<Rightarrow> preflight_args \<Rightarrow> worker_candidate list \<Rightarrow> py_error + worker_candidate list" where
  "filter_control_plane_candidates packaged p [] = Inr []"
| "filter_control_plane_candidates packaged p (c # cs) =
     (case evaluate_control_plane packaged p c of
        Inl e \<Rightarrow> Inl e
      | Inr d \<Rightarrow> (case filter_control_plane_candidates packaged p cs of
          Inl e \<Rightarrow> Inl e
        | Inr ds \<Rightarrow> Inr (if cd_eligible d then c # ds else ds)))"

section \<open>Facts\<close>

lemma missing_capabilities_Nil:
  "missing_capabilities a provider required prompt_bytes = [] \<longleftrightarrow>
     set required \<subseteq> set (profile_values (capability_profile_for a provider)) \<and>
     (prompt_too_large a prompt_bytes \<longrightarrow>
        capability_value LARGE_PROMPT_STDIN \<in> set (profile_values (capability_profile_for a provider)))"
proof -
  have "sort (remdups xs) = [] \<longleftrightarrow> xs = []" for xs :: "string list"
    by (metis remdups_eq_nil_iff set_empty set_sort)
  then show ?thesis by (auto simp: missing_capabilities_def Let_def filter_empty_conv)
qed

lemma evaluate_cases:
  assumes "evaluate_control_plane packaged p c = Inr d"
  obtains required pools quota where
    "normalize_required_capabilities (pa_required_capabilities p) = Inr required"
    "effective_quota_pools packaged (pa_policy p) False = Inr pools"
    "quota_decision c (pa_quota_states p) pools (pa_reserve_override p) (pa_binding_pool_id p) = Inr quota"
    "cd_quota d = quota"
    "cd_missing d = missing_capabilities (pa_adapter p) (wc_provider c) required (pa_prompt_bytes p)"
    "cd_eligible d = (preflight_reason p c (cd_missing d) quota = None)"
  using assms by (auto simp: evaluate_control_plane_def Let_def split: sum.splits)

text \<open>What eligibility before a model call guarantees.  An eligible candidate's provider is
  not disabled, its profile has every required capability (and the large-prompt one when the
  prompt exceeds the adapter's limit), its quota decision is positive, a live adapter exists
  and is available, readiness evidence is not negative (nor unknown without the explicit
  waiver), and required instructions can be delivered.  The filter keeps exactly the eligible
  candidates in their order.\<close>
theorem preflight_sound:
  assumes "evaluate_control_plane packaged p c = Inr d" "cd_eligible d"
    "filter_control_plane_candidates packaged p cs = Inr kept"
  shows "pv_state (policy_provider (pa_policy p) (wc_provider c)) \<noteq> PP_DISABLED
    \<and> (\<exists>required. normalize_required_capabilities (pa_required_capabilities p) = Inr required \<and>
         set required \<subseteq> set (profile_values (capability_profile_for (pa_adapter p) (wc_provider c))) \<and>
         (prompt_too_large (pa_adapter p) (pa_prompt_bytes p) \<longrightarrow>
            capability_value LARGE_PROMPT_STDIN \<in> set (profile_values (capability_profile_for (pa_adapter p) (wc_provider c)))))
    \<and> qd_eligible (cd_quota d)
    \<and> (\<exists>ad. pa_adapter p = Some ad \<and> (ad_is_live ad \<longrightarrow> ad_is_available ad))
    \<and> pa_readiness p \<noteq> Some PR_NOT_READY \<and> (pa_readiness p = Some PR_UNKNOWN \<longrightarrow> pa_explicit_unknown p)
    \<and> (pa_requires_governed p \<longrightarrow> \<not> governed_refused (pa_adapter p) (wc_model c))
    \<and> kept = filter (\<lambda>x. \<exists>y. evaluate_control_plane packaged p x = Inr y \<and> cd_eligible y) cs"
proof -
  obtain required quota where r: "normalize_required_capabilities (pa_required_capabilities p) = Inr required"
    "cd_quota d = quota"
    "cd_missing d = missing_capabilities (pa_adapter p) (wc_provider c) required (pa_prompt_bytes p)"
    "preflight_reason p c (cd_missing d) quota = None"
    using evaluate_cases [OF assms(1)] assms(2) by metis
  note none = r(4) [unfolded preflight_reason_def Let_def]
  have miss: "cd_missing d = []" using none by (simp split: if_splits)
  have "\<exists>ad. pa_adapter p = Some ad \<and> (ad_is_live ad \<longrightarrow> ad_is_available ad)"
    using none by (cases "pa_adapter p") (auto split: if_splits)
  moreover have "kept = filter (\<lambda>x. \<exists>y. evaluate_control_plane packaged p x = Inr y \<and> cd_eligible y) cs"
    using assms(3) by (induction cs arbitrary: kept) (auto split: sum.splits if_splits)
  moreover have "pv_state (policy_provider (pa_policy p) (wc_provider c)) \<noteq> PP_DISABLED" "qd_eligible (cd_quota d)"
    "pa_readiness p \<noteq> Some PR_NOT_READY" "pa_readiness p = Some PR_UNKNOWN \<longrightarrow> pa_explicit_unknown p"
    "pa_requires_governed p \<longrightarrow> \<not> governed_refused (pa_adapter p) (wc_model c)"
    using none r(2) by (auto split: if_splits)
  ultimately show ?thesis
    using r(1) miss [unfolded r(3) missing_capabilities_Nil] by blast
qed

definition live_adapter :: adapter where
  "live_adapter = \<lparr>ad_provider_name = ''codex'', ad_descriptor = No_descriptor, ad_is_live = True, ad_is_available = True,
     ad_max_prompt_bytes = Some 100000, ad_instruction_status = (\<lambda>_. None)\<rparr>"

definition sample_preflight :: preflight_args where
  "sample_preflight = \<lparr>pa_required_capabilities = ['' Read_Only ''], pa_policy = open_policy, pa_adapter = Some live_adapter,
     pa_quota_states = [], pa_training_allowed = True, pa_training_required = None, pa_reserve_override = False,
     pa_prompt_bytes = Some 200000, pa_binding_pool_id = None, pa_requires_governed = True, pa_readiness = Some PR_READY,
     pa_executable_available = True, pa_explicit_unknown = False\<rparr>"

definition codex_candidate :: worker_candidate where
  "codex_candidate = \<lparr>wc_provider = ''codex'', wc_model = ''gpt-5'', wc_binding_id = None, wc_training_required = None\<rparr>"

theorem preflight_sound_witness:
  "\<exists>d. evaluate_control_plane plan_set_empty sample_preflight codex_candidate = Inr d \<and> cd_eligible d \<and> qd_eligible (cd_quota d)
     \<and> filter_control_plane_candidates plan_set_empty sample_preflight
         [codex_candidate, codex_candidate\<lparr>wc_provider := ''cline''\<rparr>] = Inr [codex_candidate]"
proof -
  have "case evaluate_control_plane plan_set_empty sample_preflight codex_candidate of Inl _ \<Rightarrow> False | Inr d \<Rightarrow> cd_eligible d"
    by code_simp
  then obtain d where d: "evaluate_control_plane plan_set_empty sample_preflight codex_candidate = Inr d" "cd_eligible d"
    by (auto split: sum.splits)
  have "filter_control_plane_candidates plan_set_empty sample_preflight
         [codex_candidate, codex_candidate\<lparr>wc_provider := ''cline''\<rparr>] = Inr [codex_candidate]" by code_simp
  then show ?thesis using preflight_sound [OF d] d by blast
qed

end
