(* ===== verification/Admission.thy ===== *)
theory Admission
  imports Preflight Posture Ledger Jobs_Model
begin

text \<open>
  \<open>saberops/capacity/admission.py\<close>: the canonical admission of one candidate route and its pace
  score.  The keyword arguments of \<open>admit\<close> are a record, the policy is always given, the
  time-zone database is the argument \<open>tzdb\<close> (the UTC offset of a zone at an instant, in
  microseconds; \<open>None\<close> for an unknown zone), and the packaged plans are the argument \<open>packaged\<close>.
  The decision's diagnostic \<open>details\<close> are not modelled; \<open>float\<close> is rational.
\<close>

named_theorems admission_simps \<open>evaluation of admission\<close>

section \<open>The decision\<close>

record admission_decision =
  dec_admitted :: bool
  dec_candidate :: worker_candidate
  dec_reason :: "string option"
  dec_pool_id :: "string option"
  dec_window :: "string option"
  dec_score :: "rat option"
  dec_needs_probe :: bool
  dec_probe_harness :: "string option"
  dec_reset_at :: "string option"
  dec_eta :: "int option"
  dec_wait_confidence :: "string option"
  dec_cost_estimate :: "rat option"
  dec_remaining_pct :: "rat option"
  dec_red_line_pct :: "rat option"
  dec_reserve_pct :: "rat option"
  dec_multiplier :: rat
  dec_drawn_pools :: "string list"
  dec_draws :: "pool_draw list"

definition plain_decision :: "bool \<Rightarrow> worker_candidate \<Rightarrow> string option \<Rightarrow> admission_decision" where
  \<comment> \<open>the constructor's defaults\<close>
  "plain_decision adm c reason =
     \<lparr>dec_admitted = adm, dec_candidate = c, dec_reason = reason, dec_pool_id = None, dec_window = None,
      dec_score = None, dec_needs_probe = False, dec_probe_harness = None, dec_reset_at = None, dec_eta = None,
      dec_wait_confidence = None, dec_cost_estimate = None, dec_remaining_pct = None, dec_red_line_pct = None,
      dec_reserve_pct = None, dec_multiplier = 1, dec_drawn_pools = [], dec_draws = []\<rparr>"

abbreviation deny :: "worker_candidate \<Rightarrow> string \<Rightarrow> admission_decision" where
  "deny c reason \<equiv> plain_decision False c (Some reason)"

type_synonym cost_states = "(cost_key \<times> cost_state) list"
type_synonym charges = "((string \<times> string) \<times> rat) list"

record admission_args =
  aa_policy :: control_plane_policy
  aa_quota_states :: "quota_state list"
  aa_requirements :: "job_requirements option"
  aa_size_bucket :: size_bucket
  aa_cost_states :: "cost_states option"
  aa_adapter :: "adapter option"
  aa_readiness :: "provider_readiness option"
  aa_executable_available :: bool
  aa_running_counts :: "(string \<times> int) list option"
  aa_global_running :: int
  aa_max_global :: "int option"
  aa_reservations :: "charges option"
  aa_explicit_override :: bool
  aa_reserve_override :: bool
  aa_binding_pool_id :: "string option"
  aa_activate_overage :: bool
  aa_training_allowed :: bool
  aa_training_required :: "string option"
  aa_prompt_bytes :: "int option"
  aa_requires_governed :: bool
  aa_db :: "owner_db option"
  aa_configured :: "bool option"

section \<open>Pace\<close>

definition MIN_HOURS_TO_RESET :: rat where "MIN_HOURS_TO_RESET = 1 / 4"

definition fallback_reset_hours :: "(string \<times> rat) list" where
  "fallback_reset_hours =
     [(''5h'', 5), (''session'', 5), (''daily'', 24), (''weekly'', 168), (''app-weekly'', 168), (''monthly'', 720)]"

definition calculate_hours_to_reset :: "string option \<Rightarrow> int \<Rightarrow> rat \<Rightarrow> rat" where
  "calculate_hours_to_reset reset_at now fallback =
     (if \<not> truthy reset_at then max fallback MIN_HOURS_TO_RESET
      else case parse_iso reset_at of
        None \<Rightarrow> max fallback MIN_HOURS_TO_RESET
      | Some dt \<Rightarrow> max (of_int (dt - now) / 3600000000) MIN_HOURS_TO_RESET)"

definition score :: "rat \<Rightarrow> rat \<Rightarrow> rat \<Rightarrow> rat \<Rightarrow> rat \<Rightarrow> py_error + rat" where
  \<comment> \<open>a rational is finite, so the NaN and infinity checks cannot fire\<close>
  "score remaining red_line rsv cost hours =
     (if hours < 0 then Inl (ValueError ''hours_to_reset must be non-negative'')
      else Inr ((remaining - red_line - rsv - cost) / max hours MIN_HOURS_TO_RESET))"

section \<open>Model families\<close>

definition family_head :: "string \<Rightarrow> string \<Rightarrow> bool" where
  \<comment> \<open>the text starts with the family, and no digit follows\<close>
  "family_head text fam =
     (py_startswith text fam \<and> (case drop (length fam) text of [] \<Rightarrow> True | c # _ \<Rightarrow> \<not> py_isdigit c))"

definition family_token :: "string \<Rightarrow> string \<Rightarrow> bool" where
  "family_token tok fam =
     (tok = fam \<or> py_startswith tok (fam @ ''-'') \<or> py_startswith tok (fam @ ''.'') \<or> py_startswith tok (fam @ ''_'') \<or>
      family_head tok fam)"

definition matches_model_family :: "worker_candidate \<Rightarrow> string \<Rightarrow> bool" where
  "matches_model_family c family =
     (let fam = py_lower (py_strip family); provider = candidate_provider c; model = py_lower (py_strip (wc_model c));
          route = provider @ ''/'' @ model; base = py_last_part CHR ''/'' model
      in if fam = [] then False
         else provider = fam \<or> model = fam \<or> route = fam \<or> base = fam \<or>
           py_startswith base (fam @ ''-'') \<or> py_startswith base (fam @ ''_'') \<or> py_startswith base (fam @ ''.'') \<or>
           family_head base fam \<or>
           list_ex (\<lambda>tok. family_token tok fam)
             (filter (\<lambda>t. t \<noteq> []) (py_split_on (\<lambda>ch. ch = CHR ''/'' \<or> ch = CHR '' '') route)))"

section \<open>Time-of-day reserves\<close>

definition weekdays :: "string list" where
  "weekdays = [''Mon'', ''Tue'', ''Wed'', ''Thu'', ''Fri'', ''Sat'', ''Sun'']"

definition time_fromisoformat :: "string \<Rightarrow> (int \<times> bool) option" where
  \<comment> \<open>\<open>time.fromisoformat\<close>: the microseconds of the day, and whether an offset was given\<close>
  "time_fromisoformat s =
     (case parse_isoformat_time (case s of c # r \<Rightarrow> if c = CHR ''T'' then r else s | [] \<Rightarrow> []) of
        None \<Rightarrow> None
      | Some ((h, m, sc, us), off) \<Rightarrow>
          if h \<le> 23 \<and> m \<le> 59 \<and> sc \<le> 59 \<and> (case off of None \<Rightarrow> True | Some z \<Rightarrow> - day_us < z \<and> z < day_us)
          then Some ((h * 3600 + m * 60 + sc) * 1000000 + us, off \<noteq> None) else None)"

definition in_hours :: "int \<Rightarrow> int \<Rightarrow> int \<Rightarrow> bool" where
  \<comment> \<open>the half-open span, over midnight when it ends before it starts\<close>
  "in_hours from until cur = (if from \<le> until then from \<le> cur \<and> cur < until else from \<le> cur \<or> cur < until)"

fun reserve_scan ::
  "(string \<Rightarrow> (int \<Rightarrow> int) option) \<Rightarrow> string \<Rightarrow> string \<Rightarrow> int \<Rightarrow> rat \<Rightarrow> plan_reserve list \<Rightarrow> py_error + rat" where
  \<comment> \<open>the loop; comparing a time with an offset to the local clock is a \<open>TypeError\<close>\<close>
  "reserve_scan tzdb pid wid now active [] = Inr active"
| "reserve_scan tzdb pid wid now active (r # rs) =
     (let skip = reserve_scan tzdb pid wid now active rs in
      if rv_pool r \<noteq> pid \<or> rv_window r \<noteq> wid then skip
      else let local = now + (case tzdb (rv_tz r) of None \<Rightarrow> 0 | Some off \<Rightarrow> off now);
               day = weekdays ! nat (ord_weekday (instant_date local))
           in if rv_days r \<noteq> [] \<and> day \<notin> set (rv_days r) then skip
              else case py_split_on (\<lambda>ch. ch = CHR ''-'') (rv_hours r) of
                [from, until] \<Rightarrow>
                  (case (time_fromisoformat from, time_fromisoformat until) of
                     (Some (s, sz), Some (u, uz)) \<Rightarrow>
                       if sz \<or> uz then Inl (TypeError ''can't compare offset-naive and offset-aware times'')
                       else if in_hours s u (local mod day_us) \<and> active < rv_pct r
                       then reserve_scan tzdb pid wid now (rv_pct r) rs
                       else skip
                   | _ \<Rightarrow> skip)
              | _ \<Rightarrow> skip)"

definition reserve_pct ::
  "(string \<Rightarrow> (int \<Rightarrow> int) option) \<Rightarrow> string \<Rightarrow> string \<Rightarrow> int \<Rightarrow> control_plane_policy \<Rightarrow> py_error + rat" where
  "reserve_pct tzdb pool window now policy =
     reserve_scan tzdb (py_strip pool) (py_strip window) now 0 (ps_reserves (cpp_plans policy))"

section \<open>Capacity configuration\<close>

definition route_cost :: "worker_candidate \<Rightarrow> string \<Rightarrow> string \<Rightarrow> size_bucket \<Rightarrow> cost_states option \<Rightarrow> rat" where
  \<comment> \<open>\<open>_get_cost_estimate\<close>\<close>
  "route_cost c pool window b costs =
     (let st = (case costs of None \<Rightarrow> None | Some m \<Rightarrow> dict_get m (py_strip (candidate_route c), pool, window, bucket_value b))
      in est_pct (cost_estimate st window b))"

definition check_capacity_tables_exist :: "owner_db option \<Rightarrow> py_error + bool" where
  "check_capacity_tables_exist db =
     (case db of None \<Rightarrow> Inr False
      | Some d \<Rightarrow>
          (let has_obs = (''capacity_observations'' \<in> set (od_tables d));
               has_res = (''capacity_reservations'' \<in> set (od_tables d))
           in if \<not> has_obs \<and> \<not> has_res then Inr False
              else if \<not> (has_obs \<and> has_res) then Inl (OperationalError ''capacity schema partially initialized'')
              else Inr True))"

definition is_capacity_subsystem_configured ::
  "owner_db option \<Rightarrow> control_plane_policy \<Rightarrow> quota_state list \<Rightarrow> bool option \<Rightarrow> py_error + bool" where
  "is_capacity_subsystem_configured db policy states explicit =
     (case explicit of Some b \<Rightarrow> Inr b
      | None \<Rightarrow>
          (let evidence = (states \<noteq> [] \<or> list_ex (\<lambda>(k, p). po_verified_on p \<noteq> None) (ps_postures (cpp_plans policy)))
           in if db = None then Inr evidence
              else case check_capacity_tables_exist db of
                Inl e \<Rightarrow> Inl e | Inr False \<Rightarrow> Inr False | Inr True \<Rightarrow> Inr evidence))"

section \<open>The stages of admit\<close>

definition return_early :: "py_error + admission_decision option \<Rightarrow> py_error + admission_decision \<Rightarrow> py_error + admission_decision" where
  \<comment> \<open>a block of checks: it raises, returns a decision, or falls through to the rest\<close>
  "return_early r rest = (case r of Inl e \<Rightarrow> Inl e | Inr (Some d) \<Rightarrow> Inr d | Inr None \<Rightarrow> rest)"

definition identity_check :: "worker_candidate \<Rightarrow> admission_decision option" where
  "identity_check c = (if wc_provider c = [] \<or> wc_model c = [] then Some (deny c ''INVALID_CANDIDATE'') else None)"

definition requirements_check ::
  "admission_args \<Rightarrow> worker_candidate \<Rightarrow> job_requirements \<Rightarrow> py_error + admission_decision option" where
  \<comment> \<open>a candidate carries no role, so the role comparison never applies\<close>
  "requirements_check a c rq =
     (let have_caps = profile_values (capability_profile_for (aa_adapter a) (wc_provider c)) in
      if rq_read_only rq \<and> capability_value READ_ONLY \<notin> set have_caps then Inr (Some (deny c ''READ_ONLY_UNSUPPORTED''))
      else case normalize_required_capabilities (rq_required_capabilities rq) of
        Inl e \<Rightarrow> Inl e
      | Inr required \<Rightarrow>
          if missing_capabilities (aa_adapter a) (wc_provider c) required (aa_prompt_bytes a) \<noteq> []
          then Inr (Some (deny c REQUIRED_CAPABILITY_UNSUPPORTED))
          else if rq_family_include rq \<noteq> [] \<and> \<not> list_ex (matches_model_family c) (rq_family_include rq)
          then Inr (Some (deny c ''MODEL_FAMILY_NOT_INCLUDED''))
          else if filter (matches_model_family c) (rq_family_exclude rq) \<noteq> []
          then Inr (Some (deny c ''MODEL_FAMILY_EXCLUDED''))
          else Inr None)"

definition governance_check :: "admission_args \<Rightarrow> worker_candidate \<Rightarrow> admission_decision option" where
  \<comment> \<open>provider policy, training, adapter, readiness and governed instructions\<close>
  "governance_check a c =
     (if pv_state (policy_provider (aa_policy a) (wc_provider c)) = PP_DISABLED then Some (deny c PROVIDER_DISABLED)
      else if \<not> is_training_permitted c (aa_training_allowed a) (aa_training_required a)
      then Some (deny c TRAINING_PERMISSION_DENIED)
      else if (case aa_adapter a of None \<Rightarrow> False | Some ad \<Rightarrow> ad_is_live ad \<and> \<not> ad_is_available ad)
      then Some (deny c PROVIDER_UNAVAILABLE)
      else if aa_readiness a \<noteq> None \<and> \<not> aa_executable_available a then Some (deny c PROVIDER_EXECUTABLE_UNAVAILABLE)
      else if aa_readiness a = Some PR_NOT_READY then Some (deny c PROVIDER_READINESS_NOT_READY)
      else if aa_readiness a = Some PR_UNKNOWN \<and> \<not> aa_explicit_override a then Some (deny c PROVIDER_READINESS_UNKNOWN)
      else if aa_requires_governed a \<and> governed_refused (aa_adapter a) (wc_model c)
      then Some (deny c GOVERNED_INSTRUCTIONS_UNSUPPORTED)
      else None)"

definition posture_check :: "admission_args \<Rightarrow> worker_candidate \<Rightarrow> int \<Rightarrow> py_error + admission_decision option" where
  "posture_check a c now =
     (case posture_decision (wc_provider c) (wc_model c) None (cpp_plans (aa_policy a)) (instant_date now) of
        Inl e \<Rightarrow> Inl e
      | Inr p \<Rightarrow> Inr (
          if pd_class p = Some ''X'' \<or> pd_reason p = Some POSTURE_FORBIDDEN then Some (deny c POSTURE_FORBIDDEN)
          else if pd_reason p = Some POSTURE_EXPIRED then Some (deny c POSTURE_EXPIRED)
          else if pd_reason p = Some POSTURE_UNVERIFIED then Some (deny c POSTURE_UNVERIFIED)
          else if aa_requirements a \<noteq> None then
            (if pd_reason p = Some POSTURE_ATTENDED_ONLY \<or> pd_reason p = Some POSTURE_METERED
             then Some (plain_decision False c (pd_reason p))
             else if pv_state (policy_provider (aa_policy a) (wc_provider c)) = PP_ALLOWED_WITH_WARNING
             then Some (deny c POSTURE_UNVERIFIED) else None)
          else if pd_reason p = Some POSTURE_ATTENDED_ONLY \<and> \<not> aa_explicit_override a then Some (deny c POSTURE_ATTENDED_ONLY)
          else if pd_reason p = Some POSTURE_METERED \<and> \<not> aa_explicit_override a then Some (deny c POSTURE_METERED)
          else None))"

definition capacity_check :: "admission_args \<Rightarrow> worker_candidate \<Rightarrow> admission_decision option" where
  \<comment> \<open>an unconfigured subsystem admits without a score; the global ceiling follows\<close>
  "capacity_check a c =
     (case is_capacity_subsystem_configured (aa_db a) (aa_policy a) (aa_quota_states a) (aa_configured a) of
        Inl e \<Rightarrow> Some (deny c QUOTA_EVIDENCE_REQUIRED)
      | Inr False \<Rightarrow> Some (plain_decision True c (Some ''unconfigured''))
      | Inr True \<Rightarrow>
          (case aa_max_global a of
             Some m \<Rightarrow> if m \<le> aa_global_running a then Some (deny c ''GLOBAL_CONCURRENCY_LIMIT'') else None
           | None \<Rightarrow> None))"

definition drawn_pools :: "admission_args \<Rightarrow> worker_candidate \<Rightarrow> pool_policies \<Rightarrow> string list" where
  "drawn_pools a c policies =
     (case aa_binding_pool_id a of
        None \<Rightarrow> pools_for c policies
      | Some b \<Rightarrow> b # map fst (filter (\<lambda>(pid, p). pid \<noteq> b \<and> list_ex (\<lambda>m. member_matches m c) (qp_members p)) policies))"

definition active_charges :: "admission_args \<Rightarrow> int \<Rightarrow> py_error + charges option" where
  \<comment> \<open>the charges given, else those of the ledger when its tables exist\<close>
  "active_charges a now =
     (case (aa_reservations a, aa_db a) of
        (None, Some db) \<Rightarrow>
          (case check_capacity_tables_exist (Some db) of
             Inl e \<Rightarrow> Inl e
           | Inr False \<Rightarrow> Inr None
           | Inr True \<Rightarrow> (case post_observation_charges now db of Inl e \<Rightarrow> Inl e | Inr m \<Rightarrow> Inr (Some m)))
      | (given, _) \<Rightarrow> Inr given)"

definition admission_exclusion :: "worker_candidate \<Rightarrow> string list \<Rightarrow> quota_state \<Rightarrow> bool" where
  "admission_exclusion c drawn s =
     (is_exclusion s \<and> (state_pool s \<in> set drawn \<or> state_pool s = py_lower (wc_provider c)) \<and>
      model_scope_matches (qs_exclusion_model_scope s) (wc_model c))"

definition exclusion_check :: "worker_candidate \<Rightarrow> string list \<Rightarrow> quota_state list \<Rightarrow> admission_decision option" where
  \<comment> \<open>the confidence is read from an attribute a quota state does not have, so it is always
     the default\<close>
  "exclusion_check c drawn states =
     map_option (\<lambda>s. let raw = exclusion_until_raw s in
         (deny c QUOTA_EXCLUDED_UNTIL_RESET)
           \<lparr>dec_pool_id := Some (state_pool s), dec_reset_at := raw, dec_eta := parse_iso raw,
            dec_wait_confidence := Some ''PARSED''\<rparr>)
       (find (admission_exclusion c drawn) states)"

section \<open>One pool and its windows\<close>

type_synonym window_score = "rat \<times> string \<times> string \<times> rat \<times> rat \<times> rat \<times> rat \<times> rat"
  \<comment> \<open>pace, pool, window, remaining, red line, reserve, projected cost, multiplier\<close>

datatype pool_outcome = Denied admission_decision | Scored "window_score list"

definition state_window :: "quota_state \<Rightarrow> string" where
  \<comment> \<open>\<open>getattr(s, "window_id", None) or getattr(s, "window", None) or "5h"\<close>: a quota state has
     neither attribute\<close>
  "state_window s = ''5h''"

fun match_window :: "(quota_state \<Rightarrow> bool) \<Rightarrow> string \<Rightarrow> quota_state option \<Rightarrow> quota_state list \<Rightarrow> quota_state option" where
  \<comment> \<open>the search for the observation of a window; one for all windows is kept until the exact one\<close>
  "match_window in_pool win found [] = found"
| "match_window in_pool win found (s # ss) =
     (if is_exclusion s \<or> \<not> in_pool s then match_window in_pool win found ss
      else let w = state_window s in
        if w = win then Some s
        else if w = ''ALL'' then match_window in_pool win (Some s) ss
        else match_window in_pool win found ss)"

definition state_in_pool :: "bool \<Rightarrow> worker_candidate \<Rightarrow> string \<Rightarrow> quota_state \<Rightarrow> bool" where
  "state_in_pool bound c pool s =
     (state_pool s = pool \<or>
      \<not> bound \<and> pool = py_lower (wc_provider c) \<and> py_lower (qs_provider s) = pool)"

definition evidence_missing :: "quota_state option \<Rightarrow> bool" where
  "evidence_missing m =
     (case m of None \<Rightarrow> True
      | Some s \<Rightarrow> py_upper (or_text (qs_freshness s) []) \<noteq> ''FRESH'' \<or> state_remaining s = None)"

definition pool_to_harness :: "(string \<times> string) list" where
  "pool_to_harness =
     [(''chatgpt-plus'', ''codex''), (''codex'', ''codex''), (''claude-pro'', ''claude''), (''claude'', ''claude''),
      (''anthropic'', ''claude''), (''opencode-go'', ''opencode-go'')]"

definition known_probe_harnesses :: "string list" where
  "known_probe_harnesses = [''codex'', ''claude'', ''opencode-go'']"

definition prior_charges :: "charges option \<Rightarrow> string \<Rightarrow> string \<Rightarrow> rat" where
  \<comment> \<open>the window's own charges; those of all windows only when it has no entry\<close>
  "prior_charges charges pool win =
     (case charges of None \<Rightarrow> 0
      | Some m \<Rightarrow> (case dict_get m (pool, win) of
          Some x \<Rightarrow> x
        | None \<Rightarrow> (case dict_get m (pool, ''ALL'') of Some x \<Rightarrow> x | None \<Rightarrow> 0)))"

definition member_multiplier :: "pool_plan option \<Rightarrow> worker_candidate \<Rightarrow> rat" where
  "member_multiplier plan c =
     (case plan of None \<Rightarrow> 1
      | Some p \<Rightarrow> (case find (\<lambda>m. member_matches (pm_route m) c) (pp_members p) of None \<Rightarrow> 1 | Some m \<Rightarrow> pm_multiplier m))"

definition window_remaining :: "quota_state option \<Rightarrow> charges option \<Rightarrow> string \<Rightarrow> string \<Rightarrow> rat" where
  \<comment> \<open>the observed percentage (100 when there is none) less the charges since\<close>
  "window_remaining m charges pool win =
     (let observed = (case m of None \<Rightarrow> 100 | Some s \<Rightarrow> (case state_remaining s of None \<Rightarrow> 100 | Some r \<Rightarrow> r))
      in max 0 (observed - prior_charges charges pool win))"

definition window_step ::
  "(string \<Rightarrow> (int \<Rightarrow> int) option) \<Rightarrow> admission_args \<Rightarrow> worker_candidate \<Rightarrow> int \<Rightarrow> charges option \<Rightarrow> quota_pool_policy
   \<Rightarrow> rat \<Rightarrow> string \<Rightarrow> string \<Rightarrow> py_error + admission_decision + window_score" where
  \<comment> \<open>the body of the loop over a pool's windows\<close>
  "window_step tzdb a c now charges pol factor pool win =
     (let matched = match_window (state_in_pool (aa_binding_pool_id a \<noteq> None) c pool) win None (aa_quota_states a) in
      if qp_overage_possible pol \<and> evidence_missing matched then
        (let harness = dict_get pool_to_harness pool;
             can_probe = (case harness of None \<Rightarrow> False | Some h \<Rightarrow> h \<in> set known_probe_harnesses)
         in Inr (Inl ((deny c QUOTA_EVIDENCE_REQUIRED)
              \<lparr>dec_pool_id := Some pool, dec_window := Some win, dec_needs_probe := can_probe,
               dec_probe_harness := (if can_probe then harness else None), dec_red_line_pct := Some (qp_red_line_pct pol)\<rparr>)))
      else
        (let remaining = window_remaining matched charges pool win;
             reset_at = (case matched of None \<Rightarrow> None | Some s \<Rightarrow> qs_reset_at s);
             projected = route_cost c pool win (aa_size_bucket a) (aa_cost_states a) * factor
         in case reserve_pct tzdb pool win now (aa_policy a) of
              Inl e \<Rightarrow> Inl e
            | Inr active \<Rightarrow>
                (let rsv = (if aa_reserve_override a \<and> qp_mode pol = RESERVE then 0 else active);
                     red_line = qp_red_line_pct pol
                 in if qp_mode pol \<noteq> UNENFORCED \<and> remaining - projected - rsv < red_line then
                      (let eta = (if truthy reset_at then parse_iso reset_at else None)
                       in Inr (Inl ((deny c (red_line_reason win))
                            \<lparr>dec_pool_id := Some pool, dec_window := Some win, dec_reset_at := reset_at, dec_eta := eta,
                             dec_wait_confidence := Some (if eta = None then ''CONSERVATIVE'' else ''PARSED''),
                             dec_cost_estimate := Some projected, dec_remaining_pct := Some remaining,
                             dec_red_line_pct := Some red_line, dec_reserve_pct := Some rsv, dec_multiplier := factor\<rparr>)))
                    else
                      (let fallback = (case dict_get fallback_reset_hours win of None \<Rightarrow> 24 | Some h \<Rightarrow> h) in
                       case score remaining red_line rsv projected (calculate_hours_to_reset reset_at now fallback) of
                         Inl e \<Rightarrow> Inl e
                       | Inr pace \<Rightarrow> Inr (Inr (pace, pool, win, remaining, red_line, rsv, projected, factor))))))"

fun window_loop ::
  "(string \<Rightarrow> py_error + admission_decision + window_score) \<Rightarrow> string list \<Rightarrow> py_error + pool_outcome" where
  "window_loop step [] = Inr (Scored [])"
| "window_loop step (w # ws) =
     (case step w of
        Inl e \<Rightarrow> Inl e
      | Inr (Inl d) \<Rightarrow> Inr (Denied d)
      | Inr (Inr sc) \<Rightarrow> (case window_loop step ws of
          Inl e \<Rightarrow> Inl e | Inr (Denied d) \<Rightarrow> Inr (Denied d) | Inr (Scored scs) \<Rightarrow> Inr (Scored (sc # scs))))"

definition plan_window_ids :: "pool_plan option \<Rightarrow> string list" where
  "plan_window_ids plan =
     (case plan of None \<Rightarrow> [''5h''] | Some p \<Rightarrow> if pp_windows p = [] then [''5h''] else map win_id (pp_windows p))"

definition pool_policy_of :: "admission_args \<Rightarrow> pool_policies \<Rightarrow> string \<Rightarrow> py_error + quota_pool_policy" where
  \<comment> \<open>the default policy is constructed even when one is declared, so a blank pool raises; an
     undeclared pool of a binding is not enforced\<close>
  "pool_policy_of a policies pool =
     (case quota_pool_policy_of pool STRICT 15 [] False of
        Inl e \<Rightarrow> Inl e
      | Inr dflt \<Rightarrow> Inr (case dict_get policies pool of
          Some p \<Rightarrow> p
        | None \<Rightarrow> if aa_binding_pool_id a \<noteq> None then dflt\<lparr>qp_mode := UNENFORCED\<rparr> else dflt))"

definition pool_step ::
  "(string \<Rightarrow> (int \<Rightarrow> int) option) \<Rightarrow> admission_args \<Rightarrow> worker_candidate \<Rightarrow> int \<Rightarrow> charges option \<Rightarrow> pool_policies
   \<Rightarrow> string \<Rightarrow> py_error + pool_outcome" where
  "pool_step tzdb a c now charges policies pool =
     (case pool_policy_of a policies pool of
        Inl e \<Rightarrow> Inl e
      | Inr pol \<Rightarrow>
          if qp_mode pol = OFF then Inr (Denied ((deny c POOL_OFF)\<lparr>dec_pool_id := Some pool\<rparr>))
          else let plan = dict_get (ps_pool_plans (cpp_plans (aa_policy a))) pool;
                   at_limit = (case (plan, aa_running_counts a) of
                     (Some p, Some counts) \<Rightarrow>
                       (case pp_max_concurrent p of None \<Rightarrow> False
                        | Some m \<Rightarrow> m \<le> (case dict_get counts pool of None \<Rightarrow> 0 | Some n \<Rightarrow> n))
                   | _ \<Rightarrow> False)
            in if at_limit then Inr (Denied ((deny c ''CONCURRENCY_LIMIT'')\<lparr>dec_pool_id := Some pool\<rparr>))
               else window_loop (window_step tzdb a c now charges pol (member_multiplier plan c) pool) (plan_window_ids plan))"

fun pool_loop :: "(string \<Rightarrow> py_error + pool_outcome) \<Rightarrow> string list \<Rightarrow> py_error + pool_outcome" where
  "pool_loop step [] = Inr (Scored [])"
| "pool_loop step (p # ps) =
     (case step p of
        Inl e \<Rightarrow> Inl e
      | Inr (Denied d) \<Rightarrow> Inr (Denied d)
      | Inr (Scored scs) \<Rightarrow> (case pool_loop step ps of
          Inl e \<Rightarrow> Inl e | Inr (Denied d) \<Rightarrow> Inr (Denied d) | Inr (Scored others) \<Rightarrow> Inr (Scored (scs @ others))))"

definition admission_draws :: "control_plane_policy \<Rightarrow> worker_candidate \<Rightarrow> string list \<Rightarrow> pool_draw list" where
  "admission_draws policy c drawn =
     concat (map (\<lambda>pid.
       let plan = dict_get (ps_pool_plans (cpp_plans policy)) pid; factor = member_multiplier plan c;
           windows = (case plan of None \<Rightarrow> [] | Some p \<Rightarrow> pp_windows p)
       in if windows = [] then [\<lparr>dr_pool_id = pid, dr_window_id = ''ALL'', dr_multiplier = factor\<rparr>]
          else map (\<lambda>w. \<lparr>dr_pool_id = pid, dr_window_id = win_id w, dr_multiplier = factor\<rparr>) windows) drawn)"

definition scored_decision :: "worker_candidate \<Rightarrow> string list \<Rightarrow> pool_draw list \<Rightarrow> window_score list \<Rightarrow> admission_decision" where
  \<comment> \<open>the least pace of all windows binds\<close>
  "scored_decision c drawn draws scores =
     (case min_by fst scores of
        None \<Rightarrow> (plain_decision True c None)
          \<lparr>dec_score := Some 100, dec_remaining_pct := Some 100, dec_red_line_pct := Some 15, dec_reserve_pct := Some 0,
           dec_cost_estimate := Some 5, dec_drawn_pools := drawn, dec_draws := draws\<rparr>
      | Some (pace, pool, win, remaining, red_line, rsv, cost, factor) \<Rightarrow> (plain_decision True c None)
          \<lparr>dec_score := Some pace, dec_pool_id := Some pool, dec_window := Some win, dec_remaining_pct := Some remaining,
           dec_red_line_pct := Some red_line, dec_reserve_pct := Some rsv, dec_cost_estimate := Some cost,
           dec_multiplier := factor, dec_drawn_pools := drawn, dec_draws := draws\<rparr>)"

definition quota_stage ::
  "(string \<Rightarrow> (int \<Rightarrow> int) option) \<Rightarrow> plan_set \<Rightarrow> admission_args \<Rightarrow> int \<Rightarrow> worker_candidate \<Rightarrow> py_error + admission_decision" where
  \<comment> \<open>pools, charges, exclusions, windows and score\<close>
  "quota_stage tzdb packaged a now c =
     (case effective_quota_pools packaged (aa_policy a) (aa_activate_overage a) of
        Inl e \<Rightarrow> Inl e
      | Inr policies \<Rightarrow>
          (let drawn = drawn_pools a c policies in
           case active_charges a now of
             Inl e \<Rightarrow> Inr (deny c QUOTA_EVIDENCE_REQUIRED)
           | Inr charges \<Rightarrow>
               (case exclusion_check c drawn (aa_quota_states a) of
                  Some d \<Rightarrow> Inr d
                | None \<Rightarrow>
                    (case pool_loop (pool_step tzdb a c now charges policies) drawn of
                       Inl e \<Rightarrow> Inl e
                     | Inr (Denied d) \<Rightarrow> Inr d
                     | Inr (Scored scores) \<Rightarrow>
                         Inr (scored_decision c drawn (admission_draws (aa_policy a) c drawn) scores)))))"

definition admit ::
  "(string \<Rightarrow> (int \<Rightarrow> int) option) \<Rightarrow> plan_set \<Rightarrow> admission_args \<Rightarrow> int \<Rightarrow> worker_candidate \<Rightarrow> py_error + admission_decision" where
  "admit tzdb packaged a now c =
     return_early (Inr (identity_check c))
       (return_early (case aa_requirements a of None \<Rightarrow> Inr None | Some rq \<Rightarrow> requirements_check a c rq)
         (return_early (Inr (governance_check a c))
           (return_early (posture_check a c now)
             (return_early (Inr (capacity_check a c))
               (quota_stage tzdb packaged a now c)))))"

section \<open>Ordering the candidates of a role\<close>

fun admit_all ::
  "(worker_candidate \<Rightarrow> py_error + admission_decision) \<Rightarrow> worker_candidate list \<Rightarrow> py_error + admission_decision list" where
  "admit_all f [] = Inr []"
| "admit_all f (c # cs) =
     (case f c of Inl e \<Rightarrow> Inl e
      | Inr d \<Rightarrow> (case admit_all f cs of Inl e \<Rightarrow> Inl e | Inr ds \<Rightarrow> Inr (d # ds)))"

definition pacing_key :: "admission_decision list \<Rightarrow> nat \<Rightarrow> bool \<times> rat \<times> int \<times> rat" where
  "pacing_key ds i =
     (dec_admitted (ds ! i), case dec_score (ds ! i) of None \<Rightarrow> 0 | Some s \<Rightarrow> s, - int i,
      - (case dec_cost_estimate (ds ! i) of None \<Rightarrow> 0 | Some x \<Rightarrow> x))"

definition order_group :: "worker_candidate list \<Rightarrow> admission_decision list \<Rightarrow> worker_candidate list" where
  \<comment> \<open>\<open>sorted(range(len(group)), key=..., reverse=True)\<close>; no two keys are equal\<close>
  "order_group cands ds = map ((!) cands) (rev (sort_key (pacing_key ds) [0..<length cands]))"

fun order_groups ::
  "(worker_candidate \<Rightarrow> py_error + admission_decision) \<Rightarrow> (string \<times> string) list \<Rightarrow> worker_candidate list list
   \<Rightarrow> py_error + worker_candidate list" where
  "order_groups f allowed [] = Inr []"
| "order_groups f allowed (g # gs) =
     (let cands = filter (\<lambda>c. (wc_provider c, wc_model c) \<in> set allowed) g in
      if cands = [] then order_groups f allowed gs
      else case admit_all f cands of
        Inl e \<Rightarrow> Inl e
      | Inr ds \<Rightarrow> (case order_groups f allowed gs of Inl e \<Rightarrow> Inl e | Inr rest \<Rightarrow> Inr (order_group cands ds @ rest)))"

definition order_candidates_for_role ::
  "(worker_candidate \<Rightarrow> py_error + admission_decision) \<Rightarrow> string \<Rightarrow> routing_snapshot option \<Rightarrow> worker_candidate list
   \<Rightarrow> py_error + worker_candidate list" where
  \<comment> \<open>the first argument is \<open>admit\<close> with the call's keyword arguments\<close>
  "order_candidates_for_role f role snap base =
     (case snap of None \<Rightarrow> Inr base
      | Some s \<Rightarrow>
          (case groups_for s role of
             Inl e \<Rightarrow> Inr base
           | Inr groups \<Rightarrow>
               if groups = [] then Inr base
               else (case order_groups f (map (\<lambda>c. (wc_provider c, wc_model c)) base) groups of
                       Inl e \<Rightarrow> Inl e
                     | Inr ordered \<Rightarrow> Inr (if ordered \<noteq> [] then ordered else base))))"

end
