(* ===== verification/Admission_Laws.thy ===== *)
theory Admission_Laws
  imports Admission
begin

text \<open>
  What an admission of \<open>saberops/capacity/admission.py\<close> guarantees: the safety checks no override
  or missing configuration skips, the quota evidence behind a positive answer, what the
  observations of windows other than 5h contribute (nothing), and the order of a role's
  candidates.
\<close>

section \<open>Peeling the stages\<close>

lemma return_early_Inr:
  "return_early r rest = Inr d \<longleftrightarrow> r = Inr (Some d) \<or> r = Inr None \<and> rest = Inr d"
  by (auto simp: return_early_def split: sum.splits option.splits)

lemma plain_decision_admitted [simp]: "dec_admitted (plain_decision b c r) = b"
  by (simp add: plain_decision_def)

lemma stages_deny:
  "identity_check c = Some d \<Longrightarrow> \<not> dec_admitted d"
  "requirements_check a c rq = Inr (Some d) \<Longrightarrow> \<not> dec_admitted d"
  "governance_check a c = Some d \<Longrightarrow> \<not> dec_admitted d"
  "posture_check a c now = Inr (Some d) \<Longrightarrow> \<not> dec_admitted d"
  by (auto simp: identity_check_def requirements_check_def governance_check_def posture_check_def Let_def
      split: if_splits sum.splits)

lemma capacity_check_Some:
  "capacity_check a c = Some d \<Longrightarrow> dec_admitted d \<Longrightarrow> d = plain_decision True c (Some ''unconfigured'') \<and>
     is_capacity_subsystem_configured (aa_db a) (aa_policy a) (aa_quota_states a) (aa_configured a) = Inr False"
  by (auto simp: capacity_check_def split: sum.splits bool.splits option.splits if_splits)

lemma admit_admitted:
  assumes "admit tzdb packaged a now c = Inr d" "dec_admitted d"
  shows "identity_check c = None" "governance_check a c = None" "posture_check a c now = Inr None"
    "\<And>rq. aa_requirements a = Some rq \<Longrightarrow> requirements_check a c rq = Inr None"
    "capacity_check a c = Some d \<or> capacity_check a c = None \<and> quota_stage tzdb packaged a now c = Inr d"
  using assms stages_deny
  by (auto simp: admit_def return_early_Inr split: option.splits)

section \<open>Safety\<close>

lemma posture_reasons:
  assumes "posture_decision p m b plans today = Inr d"
  shows "pd_reason d \<in> {None, Some POSTURE_FORBIDDEN, Some POSTURE_UNVERIFIED, Some POSTURE_EXPIRED,
           Some POSTURE_ATTENDED_ONLY, Some POSTURE_METERED}"
    "pd_reason d = None \<Longrightarrow> pd_admitted_unattended d"
  using posture_decision_cases [OF assms]
  by (auto simp: unverified_decision_def record_decision_reason record_decision_admitted class_reason_def
      posture_in_force_def split: if_splits)

lemma posture_check_None:
  assumes "posture_check a c now = Inr None"
  shows "\<exists>p. posture_decision (wc_provider c) (wc_model c) None (cpp_plans (aa_policy a)) (instant_date now) = Inr p \<and>
     pd_class p \<noteq> Some ''X'' \<and> pd_reason p \<notin> {Some POSTURE_FORBIDDEN, Some POSTURE_EXPIRED, Some POSTURE_UNVERIFIED} \<and>
     (aa_requirements a \<noteq> None \<or> \<not> aa_explicit_override a \<longrightarrow> pd_admitted_unattended p) \<and>
     (aa_requirements a \<noteq> None \<longrightarrow>
        pv_state (policy_provider (aa_policy a) (wc_provider c)) \<noteq> PP_ALLOWED_WITH_WARNING)"
proof -
  obtain p where p: "posture_decision (wc_provider c) (wc_model c) None (cpp_plans (aa_policy a)) (instant_date now) = Inr p"
    using assms by (auto simp: posture_check_def split: sum.splits)
  show ?thesis
    using assms posture_reasons [OF p] p by (auto simp: posture_check_def split: if_splits)
qed

lemma admission_safety:
  assumes "admit tzdb packaged a now c = Inr d" "dec_admitted d"
  shows "pv_state (policy_provider (aa_policy a) (wc_provider c)) \<noteq> PP_DISABLED
    \<and> (\<exists>p. posture_decision (wc_provider c) (wc_model c) None (cpp_plans (aa_policy a)) (instant_date now) = Inr p \<and>
         pd_class p \<noteq> Some ''X'' \<and>
         pd_reason p \<notin> {Some POSTURE_FORBIDDEN, Some POSTURE_EXPIRED, Some POSTURE_UNVERIFIED} \<and>
         (aa_requirements a \<noteq> None \<or> \<not> aa_explicit_override a \<longrightarrow> pd_admitted_unattended p))
    \<and> (\<forall>ad. aa_adapter a = Some ad \<longrightarrow> ad_is_live ad \<longrightarrow> ad_is_available ad)
    \<and> aa_readiness a \<noteq> Some PR_NOT_READY
    \<and> (\<forall>rq. aa_requirements a = Some rq \<longrightarrow>
         (\<exists>caps. normalize_required_capabilities (rq_required_capabilities rq) = Inr caps \<and>
            set caps \<subseteq> set (profile_values (capability_profile_for (aa_adapter a) (wc_provider c)))) \<and>
         (rq_read_only rq \<longrightarrow>
            capability_value READ_ONLY \<in> set (profile_values (capability_profile_for (aa_adapter a) (wc_provider c)))) \<and>
         (\<forall>f \<in> set (rq_family_exclude rq). \<not> matches_model_family c f))
    \<and> wc_provider c \<noteq> [] \<and> wc_model c \<noteq> []
    \<and> (aa_readiness a \<noteq> None \<longrightarrow> aa_executable_available a)
    \<and> (aa_readiness a = Some PR_UNKNOWN \<longrightarrow> aa_explicit_override a)
    \<and> (aa_requires_governed a \<longrightarrow> (\<forall>st. instruction_compatibility_status (aa_adapter a) (wc_model c) = Some st \<longrightarrow>
         st \<in> set compatible_instruction_statuses))
    \<and> (\<forall>rq. aa_requirements a = Some rq \<longrightarrow>
         pv_state (policy_provider (aa_policy a) (wc_provider c)) \<noteq> PP_ALLOWED_WITH_WARNING \<and>
         (rq_family_include rq \<noteq> [] \<longrightarrow> (\<exists>f \<in> set (rq_family_include rq). matches_model_family c f)) \<and>
         (prompt_too_large (aa_adapter a) (aa_prompt_bytes a) \<longrightarrow>
            capability_value LARGE_PROMPT_STDIN \<in> set (profile_values (capability_profile_for (aa_adapter a) (wc_provider c)))))"
proof -
  note s = admit_admitted [OF assms]
  have "pv_state (policy_provider (aa_policy a) (wc_provider c)) \<noteq> PP_DISABLED"
    "\<forall>ad. aa_adapter a = Some ad \<longrightarrow> ad_is_live ad \<longrightarrow> ad_is_available ad" "aa_readiness a \<noteq> Some PR_NOT_READY"
    "aa_readiness a \<noteq> None \<longrightarrow> aa_executable_available a" "aa_readiness a = Some PR_UNKNOWN \<longrightarrow> aa_explicit_override a"
    using s(2) by (auto simp: governance_check_def split: if_splits)
  moreover have "aa_requires_governed a \<longrightarrow> (\<forall>st. instruction_compatibility_status (aa_adapter a) (wc_model c) = Some st \<longrightarrow>
         st \<in> set compatible_instruction_statuses)"
    using s(2) by (auto simp: governance_check_def governed_refused_def split: if_splits)
  moreover have "wc_provider c \<noteq> []" "wc_model c \<noteq> []"
    using s(1) by (auto simp: identity_check_def split: if_splits)
  moreover have "((\<exists>caps. normalize_required_capabilities (rq_required_capabilities rq) = Inr caps \<and>
            set caps \<subseteq> set (profile_values (capability_profile_for (aa_adapter a) (wc_provider c)))) \<and>
         (rq_read_only rq \<longrightarrow>
            capability_value READ_ONLY \<in> set (profile_values (capability_profile_for (aa_adapter a) (wc_provider c)))) \<and>
         (\<forall>f \<in> set (rq_family_exclude rq). \<not> matches_model_family c f)) \<and>
         (rq_family_include rq \<noteq> [] \<longrightarrow> (\<exists>f \<in> set (rq_family_include rq). matches_model_family c f)) \<and>
         (prompt_too_large (aa_adapter a) (aa_prompt_bytes a) \<longrightarrow>
            capability_value LARGE_PROMPT_STDIN \<in> set (profile_values (capability_profile_for (aa_adapter a) (wc_provider c))))"
    if "aa_requirements a = Some rq" for rq
    using s(4) [OF that] missing_capabilities_Nil
    by (auto simp: requirements_check_def Let_def filter_empty_conv list_ex_iff split: if_splits sum.splits)
  ultimately show ?thesis using posture_check_None [OF s(3)] by blast
qed

text \<open>C23: No admission skips a safety check.  Whenever a route is admitted, even with the owner's
  override and even when the capacity subsystem is not configured, it names a provider and a
  model, its provider is not disabled, its posture is verified, not expired and not
  forbidden, a live adapter is available, no readiness evidence is negative, the executable
  is there whenever readiness was probed, and a governed task meets no instruction evidence
  weaker than full or adapted.  Unknown readiness passes only with the override; without the
  override, and always for a queued job, the posture admits unattended use.  A queued job's
  route besides has every capability the job requires, read-only and large prompts included,
  is in an included model family when the job names any and in no excluded one, and its
  provider is not one allowed only with a warning.\<close>
theorem admission_is_safe:
  assumes "admit tzdb packaged a now c = Inr d" "dec_admitted d"
  shows "pv_state (policy_provider (aa_policy a) (wc_provider c)) \<noteq> PP_DISABLED
    \<and> (\<exists>p. posture_decision (wc_provider c) (wc_model c) None (cpp_plans (aa_policy a)) (instant_date now) = Inr p \<and>
         pd_class p \<noteq> Some ''X'' \<and>
         pd_reason p \<notin> {Some POSTURE_FORBIDDEN, Some POSTURE_EXPIRED, Some POSTURE_UNVERIFIED} \<and>
         (aa_requirements a \<noteq> None \<or> \<not> aa_explicit_override a \<longrightarrow> pd_admitted_unattended p))
    \<and> (\<forall>ad. aa_adapter a = Some ad \<longrightarrow> ad_is_live ad \<longrightarrow> ad_is_available ad)
    \<and> aa_readiness a \<noteq> Some PR_NOT_READY
    \<and> (\<forall>rq. aa_requirements a = Some rq \<longrightarrow>
         (\<exists>caps. normalize_required_capabilities (rq_required_capabilities rq) = Inr caps \<and>
            set caps \<subseteq> set (profile_values (capability_profile_for (aa_adapter a) (wc_provider c)))) \<and>
         (rq_read_only rq \<longrightarrow>
            capability_value READ_ONLY \<in> set (profile_values (capability_profile_for (aa_adapter a) (wc_provider c)))) \<and>
         (\<forall>f \<in> set (rq_family_exclude rq). \<not> matches_model_family c f))
    \<and> wc_provider c \<noteq> [] \<and> wc_model c \<noteq> []
    \<and> (aa_readiness a \<noteq> None \<longrightarrow> aa_executable_available a)
    \<and> (aa_readiness a = Some PR_UNKNOWN \<longrightarrow> aa_explicit_override a)
    \<and> (aa_requires_governed a \<longrightarrow> (\<forall>st. instruction_compatibility_status (aa_adapter a) (wc_model c) = Some st \<longrightarrow>
         st \<in> set compatible_instruction_statuses))
    \<and> (\<forall>rq. aa_requirements a = Some rq \<longrightarrow>
         pv_state (policy_provider (aa_policy a) (wc_provider c)) \<noteq> PP_ALLOWED_WITH_WARNING \<and>
         (rq_family_include rq \<noteq> [] \<longrightarrow> (\<exists>f \<in> set (rq_family_include rq). matches_model_family c f)) \<and>
         (prompt_too_large (aa_adapter a) (aa_prompt_bytes a) \<longrightarrow>
            capability_value LARGE_PROMPT_STDIN \<in> set (profile_values (capability_profile_for (aa_adapter a) (wc_provider c)))))"
  by (rule admission_safety [OF assms])

definition verified_policy :: control_plane_policy where
  "verified_policy = open_policy\<lparr>cpp_plans := sample_plans\<lparr>ps_pool_plans :=
     [(''codex'', \<lparr>pp_pool_id = ''codex'', pp_account = None,
        pp_windows = [\<lparr>win_id = ''5h'', win_kind = ''ROLLING'', win_duration_min = 300, win_unit = ''pct''\<rparr>,
                      \<lparr>win_id = ''weekly'', win_kind = ''CALENDAR'', win_duration_min = 10080, win_unit = ''pct''\<rparr>],
        pp_overage_possible = False, pp_max_concurrent = Some 2,
        pp_members = [\<lparr>pm_route = ''codex'', pm_multiplier = 1\<rparr>], pp_mode = ''STRICT'', pp_red_line_pct = 15\<rparr>)]\<rparr>\<rparr>"

definition five_hour_state :: "rat \<Rightarrow> quota_state" where
  "five_hour_state r = \<lparr>qs_provider = ''codex'', qs_pool = ''codex'', qs_remaining_percent = Some r,
     qs_reset_at = Some ''2026-10-20T15:00:00+00:00'', qs_routing_state = RS_NORMAL,
     qs_updated_at = ''2026-10-20T10:00:00+00:00'', qs_pool_id = None, qs_normalized_remaining_pct = None,
     qs_freshness = Some ''FRESH'', qs_mode = None, qs_red_line_pct = None, qs_exclusion_id = None,
     qs_exclusion_until = None, qs_exclusion_confidence = None, qs_exclusion_model_scope = None\<rparr>"

definition sample_requirements_codex :: job_requirements where
  "sample_requirements_codex = \<lparr>rq_role = WORKER, rq_effort = None, rq_required_capabilities = [''streaming''],
     rq_read_only = True, rq_family_include = [], rq_family_exclude = [''claude''], rq_size_hint = None\<rparr>"

definition sample_admission :: "quota_state list \<Rightarrow> admission_args" where
  "sample_admission states = \<lparr>aa_policy = verified_policy, aa_quota_states = states,
     aa_requirements = Some sample_requirements_codex, aa_size_bucket = Bucket_M, aa_cost_states = None,
     aa_adapter = Some live_adapter, aa_readiness = Some PR_READY, aa_executable_available = True,
     aa_running_counts = Some [(''codex'', 1)], aa_global_running = 1, aa_max_global = Some 4,
     aa_reservations = Some [((''codex'', ''5h''), 5)], aa_explicit_override = False, aa_reserve_override = False,
     aa_binding_pool_id = None, aa_activate_overage = True, aa_training_allowed = True, aa_training_required = None,
     aa_prompt_bytes = None, aa_requires_governed = False, aa_db = None, aa_configured = Some True\<rparr>"

definition no_zones :: "string \<Rightarrow> (int \<Rightarrow> int) option" where
  "no_zones z = None"

definition codex_terra :: worker_candidate where
  "codex_terra = codex_candidate\<lparr>wc_model := ''gpt-5.6-terra''\<rparr>"

abbreviation sample_now :: int where "sample_now \<equiv> 63928087200000000"

lemma sample_admitted:
  "case admit no_zones plan_set_empty (sample_admission [five_hour_state 60]) sample_now codex_terra of
     Inl _ \<Rightarrow> False
   | Inr d \<Rightarrow> dec_admitted d \<and> dec_window d = Some ''weekly'' \<and> dec_score d = Some (165 / 336)"
  by code_simp

theorem admission_is_safe_witness:
  "\<exists>d. admit no_zones plan_set_empty (sample_admission [five_hour_state 60]) sample_now codex_terra = Inr d \<and> dec_admitted d \<and>
     aa_readiness (sample_admission [five_hour_state 60]) \<noteq> Some PR_NOT_READY"
proof -
  obtain d where d: "admit no_zones plan_set_empty (sample_admission [five_hour_state 60]) sample_now codex_terra = Inr d"
    "dec_admitted d" using sample_admitted by (auto split: sum.splits)
  then show ?thesis using admission_is_safe [OF d] by blast
qed

section \<open>Quota evidence\<close>

lemma list_all2_left: "list_all2 P xs ys \<Longrightarrow> x \<in> set xs \<Longrightarrow> \<exists>y. y \<in> set ys \<and> P x y"
  by (induction xs ys rule: list_all2_induct) auto

lemma window_loop_Scored:
  "window_loop step ws = Inr (Scored scs) \<Longrightarrow> list_all2 (\<lambda>w sc. step w = Inr (Inr sc)) ws scs"
  by (induction ws arbitrary: scs) (auto split: sum.splits pool_outcome.splits)

lemma window_loop_Denied:
  "window_loop step ws = Inr (Denied d) \<Longrightarrow> \<exists>w \<in> set ws. step w = Inr (Inl d)"
  by (induction ws) (auto split: sum.splits pool_outcome.splits)

lemma pool_loop_Scored:
  "pool_loop step ps = Inr (Scored scs) \<Longrightarrow> \<exists>parts. list_all2 (\<lambda>p part. step p = Inr (Scored part)) ps parts \<and> scs = concat parts"
proof (induction ps arbitrary: scs)
  case (Cons p ps)
  then obtain part rest where "step p = Inr (Scored part)" "pool_loop step ps = Inr (Scored rest)" "scs = part @ rest"
    by (auto split: sum.splits pool_outcome.splits)
  moreover from this Cons.IH obtain parts where "list_all2 (\<lambda>p part. step p = Inr (Scored part)) ps parts" "rest = concat parts"
    by blast
  ultimately show ?case by (intro exI [of _ "part # parts"]) simp
qed simp

lemma pool_loop_Denied:
  "pool_loop step ps = Inr (Denied d) \<Longrightarrow> \<exists>p \<in> set ps. step p = Inr (Denied d)"
  by (induction ps) (auto split: sum.splits pool_outcome.splits)

lemma window_step_deny:
  "window_step tzdb a c now charges pol f pool win = Inr (Inl d) \<Longrightarrow> \<not> dec_admitted d"
  by (auto simp: window_step_def Let_def split: if_splits sum.splits option.splits)

lemma pool_step_deny:
  "pool_step tzdb a c now charges policies pool = Inr (Denied d) \<Longrightarrow> \<not> dec_admitted d"
  using window_loop_Denied window_step_deny
  by (fastforce simp: pool_step_def Let_def split: if_splits sum.splits)

lemma exclusion_check_deny: "exclusion_check c drawn states = Some d \<Longrightarrow> \<not> dec_admitted d"
  by (auto simp: exclusion_check_def Let_def)

definition window_backed ::
  "(string \<Rightarrow> (int \<Rightarrow> int) option) \<Rightarrow> admission_args \<Rightarrow> worker_candidate \<Rightarrow> int \<Rightarrow> charges option \<Rightarrow> quota_pool_policy
   \<Rightarrow> rat \<Rightarrow> string \<Rightarrow> string \<Rightarrow> window_score \<Rightarrow> bool" where
  \<comment> \<open>what a scored window has shown, from the inputs alone: its figures, the red line held by the
     projected remainder, and the pace it leaves until the reset\<close>
  "window_backed tzdb a c now charges pol factor pool win sc =
     (let m = match_window (state_in_pool (aa_binding_pool_id a \<noteq> None) c pool) win None (aa_quota_states a);
          fallback = (case dict_get fallback_reset_hours win of None \<Rightarrow> 24 | Some h \<Rightarrow> h)
      in case sc of (pace, p, w, remaining, red_line, rsv, cost, f) \<Rightarrow>
        p = pool \<and> w = win \<and> f = factor \<and>
        remaining = window_remaining m charges pool win \<and> 0 \<le> remaining \<and>
        red_line = qp_red_line_pct pol \<and>
        cost = route_cost c pool win (aa_size_bucket a) (aa_cost_states a) * factor \<and>
        (\<exists>active. reserve_pct tzdb pool win now (aa_policy a) = Inr active \<and>
           rsv = (if aa_reserve_override a \<and> qp_mode pol = RESERVE then 0 else active)) \<and>
        (qp_mode pol \<noteq> UNENFORCED \<longrightarrow> red_line \<le> remaining - cost - rsv) \<and>
        pace = (remaining - red_line - rsv - cost) /
          calculate_hours_to_reset (case m of None \<Rightarrow> None | Some s \<Rightarrow> qs_reset_at s) now fallback \<and>
        (qp_overage_possible pol \<longrightarrow> \<not> evidence_missing m))"

definition binds :: "admission_decision \<Rightarrow> window_score \<Rightarrow> bool" where
  \<comment> \<open>the decision reports this window\<close>
  "binds d sc = (case sc of (pace, pool, win, remaining, red_line, rsv, cost, factor) \<Rightarrow>
     dec_score d = Some pace \<and> dec_pool_id d = Some pool \<and> dec_window d = Some win \<and>
     dec_remaining_pct d = Some remaining \<and> dec_red_line_pct d = Some red_line \<and> dec_reserve_pct d = Some rsv \<and>
     dec_cost_estimate d = Some cost \<and> dec_multiplier d = factor)"

lemma hours_at_least: "1 / 4 \<le> calculate_hours_to_reset r now fallback"
  by (auto simp: calculate_hours_to_reset_def MIN_HOURS_TO_RESET_def split: option.splits)

lemma score_Inr:
  assumes "score remaining red_line rsv cost (calculate_hours_to_reset r now fallback) = Inr pace"
  shows "pace = (remaining - red_line - rsv - cost) / calculate_hours_to_reset r now fallback"
proof -
  have "max (calculate_hours_to_reset r now fallback) MIN_HOURS_TO_RESET = calculate_hours_to_reset r now fallback"
    using hours_at_least [of r now fallback] by (simp add: MIN_HOURS_TO_RESET_def max_absorb1)
  then show ?thesis using assms by (simp add: score_def split: if_splits)
qed

lemma window_remaining_nonneg: "0 \<le> window_remaining m charges pool win"
  by (simp add: window_remaining_def Let_def)

lemma window_step_scored:
  assumes "window_step tzdb a c now charges pol f pool win = Inr (Inr sc)"
  shows "window_backed tzdb a c now charges pol f pool win sc"
  using assms window_remaining_nonneg
  by (auto simp: window_step_def Let_def window_backed_def dest!: score_Inr split: if_splits sum.splits)

abbreviation pool_plan_of :: "admission_args \<Rightarrow> string \<Rightarrow> pool_plan option" where
  "pool_plan_of a pool \<equiv> dict_get (ps_pool_plans (cpp_plans (aa_policy a))) pool"

definition pool_has_room :: "admission_args \<Rightarrow> string \<Rightarrow> bool" where
  \<comment> \<open>fewer runs than the pool's own ceiling, where it has one and the runs were counted\<close>
  "pool_has_room a pool \<longleftrightarrow> (\<forall>p counts m. pool_plan_of a pool = Some p \<longrightarrow> aa_running_counts a = Some counts \<longrightarrow>
     pp_max_concurrent p = Some m \<longrightarrow> (case dict_get counts pool of None \<Rightarrow> 0 | Some n \<Rightarrow> n) < m)"

lemma pool_step_scored:
  assumes "pool_step tzdb a c now charges policies pool = Inr (Scored scs)"
  obtains pol where "pool_policy_of a policies pool = Inr pol" "qp_mode pol \<noteq> OFF" "pool_has_room a pool"
    "list_all2 (window_backed tzdb a c now charges pol (member_multiplier (pool_plan_of a pool) c) pool)
      (plan_window_ids (pool_plan_of a pool)) scs"
proof -
  obtain pol where pol: "pool_policy_of a policies pool = Inr pol" "qp_mode pol \<noteq> OFF" "pool_has_room a pool"
    "window_loop (window_step tzdb a c now charges pol (member_multiplier (pool_plan_of a pool) c) pool)
       (plan_window_ids (pool_plan_of a pool)) = Inr (Scored scs)"
    using assms by (auto simp: pool_step_def pool_has_room_def Let_def split: sum.splits if_splits option.splits)
  have "list_all2 (window_backed tzdb a c now charges pol (member_multiplier (pool_plan_of a pool) c) pool)
      (plan_window_ids (pool_plan_of a pool)) scs"
    by (rule list_all2_mono [OF window_loop_Scored [OF pol(4)]]) (rule window_step_scored)
  then show ?thesis by (rule that [OF pol(1,2,3)])
qed

lemma plan_window_ids_nonempty [simp]: "plan_window_ids plan \<noteq> []"
  by (auto simp: plan_window_ids_def split: option.splits)

lemma drawn_pools_nonempty [simp]: "drawn_pools a c policies \<noteq> []"
  by (auto simp: drawn_pools_def pools_for_def Let_def split: option.splits)

lemma quota_stage_admitted:
  assumes "quota_stage tzdb packaged a now c = Inr d" "dec_admitted d"
    "effective_quota_pools packaged (aa_policy a) (aa_activate_overage a) = Inr policies"
  obtains charges parts where "active_charges a now = Inr charges"
    "exclusion_check c (drawn_pools a c policies) (aa_quota_states a) = None"
    "list_all2 (\<lambda>p part. pool_step tzdb a c now charges policies p = Inr (Scored part)) (drawn_pools a c policies) parts"
    "d = scored_decision c (drawn_pools a c policies) (admission_draws (aa_policy a) c (drawn_pools a c policies)) (concat parts)"
proof -
  have d: "exclusion_check c (drawn_pools a c policies) (aa_quota_states a) = None"
    using assms exclusion_check_deny
    by (fastforce simp: quota_stage_def Let_def split: sum.splits option.splits)
  obtain charges scores where s: "active_charges a now = Inr charges"
    "pool_loop (pool_step tzdb a c now charges policies) (drawn_pools a c policies) = Inr (Scored scores)"
    "d = scored_decision c (drawn_pools a c policies) (admission_draws (aa_policy a) c (drawn_pools a c policies)) scores"
    using assms d pool_loop_Denied pool_step_deny
    by (fastforce simp: quota_stage_def Let_def split: sum.splits pool_outcome.splits)
  then show ?thesis using that pool_loop_Scored [OF s(2)] d by blast
qed

definition drawn_window ::
  "(string \<Rightarrow> (int \<Rightarrow> int) option) \<Rightarrow> admission_args \<Rightarrow> worker_candidate \<Rightarrow> int \<Rightarrow> charges option \<Rightarrow> pool_policies
   \<Rightarrow> string \<Rightarrow> string \<Rightarrow> window_score \<Rightarrow> bool" where
  \<comment> \<open>a window of a drawn pool that is not off, with the figures it was admitted on\<close>
  "drawn_window tzdb a c now charges policies pool win sc \<longleftrightarrow>
     pool \<in> set (drawn_pools a c policies) \<and> win \<in> set (plan_window_ids (pool_plan_of a pool)) \<and>
     (\<exists>pol. pool_policy_of a policies pool = Inr pol \<and> qp_mode pol \<noteq> OFF \<and>
        window_backed tzdb a c now charges pol (member_multiplier (pool_plan_of a pool) c) pool win sc)"

lemma list_all2_partner_right: "list_all2 P xs ys \<Longrightarrow> y \<in> set ys \<Longrightarrow> \<exists>x. x \<in> set xs \<and> P x y"
  by (induction xs ys rule: list_all2_induct) auto

lemma pool_scores:
  assumes "list_all2 (\<lambda>p part. pool_step tzdb a c now charges policies p = Inr (Scored part)) (drawn_pools a c policies) parts"
  shows "pool \<in> set (drawn_pools a c policies) \<Longrightarrow> pool_has_room a pool"
    "pool \<in> set (drawn_pools a c policies) \<Longrightarrow> win \<in> set (plan_window_ids (pool_plan_of a pool)) \<Longrightarrow>
       \<exists>sc \<in> set (concat parts). drawn_window tzdb a c now charges policies pool win sc"
    "sc \<in> set (concat parts) \<Longrightarrow> \<exists>pool win. drawn_window tzdb a c now charges policies pool win sc"
    "concat parts \<noteq> []"
proof -
  have every: "\<exists>part \<in> set parts. pool_step tzdb a c now charges policies p = Inr (Scored part)"
    if "p \<in> set (drawn_pools a c policies)" for p
    using list_all2_left [OF assms that] by blast
  show room: "pool_has_room a pool" if "pool \<in> set (drawn_pools a c policies)"
    using every [OF that] pool_step_scored by blast
  show win: "\<exists>sc \<in> set (concat parts). drawn_window tzdb a c now charges policies pool win sc"
    if here: "pool \<in> set (drawn_pools a c policies)" "win \<in> set (plan_window_ids (pool_plan_of a pool))" for pool win
  proof -
    obtain part where part: "part \<in> set parts" "pool_step tzdb a c now charges policies pool = Inr (Scored part)"
      using every [OF here(1)] by blast
    obtain pol where pol: "pool_policy_of a policies pool = Inr pol" "qp_mode pol \<noteq> OFF"
      "list_all2 (window_backed tzdb a c now charges pol (member_multiplier (pool_plan_of a pool) c) pool)
        (plan_window_ids (pool_plan_of a pool)) part"
      by (rule pool_step_scored [OF part(2)])
    obtain sc where sc: "sc \<in> set part"
      "window_backed tzdb a c now charges pol (member_multiplier (pool_plan_of a pool) c) pool win sc"
      using list_all2_left [OF pol(3) here(2)] by blast
    then have "drawn_window tzdb a c now charges policies pool win sc"
      using here pol(1,2) unfolding drawn_window_def by blast
    moreover have "sc \<in> set (concat parts)" using sc(1) part(1) by auto
    ultimately show ?thesis by blast
  qed
  show "\<exists>pool win. drawn_window tzdb a c now charges policies pool win sc" if sc: "sc \<in> set (concat parts)"
  proof -
    obtain part where part: "part \<in> set parts" "sc \<in> set part" using sc by auto
    obtain p where p: "p \<in> set (drawn_pools a c policies)" "pool_step tzdb a c now charges policies p = Inr (Scored part)"
      using list_all2_partner_right [OF assms part(1)] by blast
    obtain pol where pol: "pool_policy_of a policies p = Inr pol" "qp_mode pol \<noteq> OFF"
      "list_all2 (window_backed tzdb a c now charges pol (member_multiplier (pool_plan_of a p) c) p)
        (plan_window_ids (pool_plan_of a p)) part"
      by (rule pool_step_scored [OF p(2)])
    obtain win where "win \<in> set (plan_window_ids (pool_plan_of a p))"
      "window_backed tzdb a c now charges pol (member_multiplier (pool_plan_of a p) c) p win sc"
      using list_all2_partner_right [OF pol(3) part(2)] by blast
    then have "drawn_window tzdb a c now charges policies p win sc"
      using p(1) pol(1,2) unfolding drawn_window_def by blast
    then show ?thesis by blast
  qed
  show "concat parts \<noteq> []"
    using win [OF list.set_sel(1) [OF drawn_pools_nonempty] list.set_sel(1) [OF plan_window_ids_nonempty]]
    by (metis empty_iff list.set(1))
qed

text \<open>C24: A scored admission is backed by every window it draws.  When a route is admitted by a
  configured subsystem, the global ceiling is not reached, no exclusion of the drawn pools (or
  of the provider) covers its model, no drawn pool is OFF or at its own ceiling of counted
  runs, and in every window of every drawn pool the observed percentage less the charges
  since, the projected cost and the active reserve holds the red line unless the pool is
  unenforced, with fresh evidence where the pool may overrun.  The score is the pace (the
  margin over the hours to the reset) of one of these windows, whose figures are the ones
  the decision reports, and the least of all.\<close>
theorem admission_respects_quota:
  assumes "admit tzdb packaged a now c = Inr d" "dec_admitted d" "dec_reason d \<noteq> Some ''unconfigured''"
    "effective_quota_pools packaged (aa_policy a) (aa_activate_overage a) = Inr policies"
  shows "(\<forall>m. aa_max_global a = Some m \<longrightarrow> aa_global_running a < m)
    \<and> dec_drawn_pools d = drawn_pools a c policies
    \<and> (\<forall>s \<in> set (aa_quota_states a). \<not> admission_exclusion c (dec_drawn_pools d) s)
    \<and> (\<forall>pool \<in> set (dec_drawn_pools d). pool_has_room a pool)
    \<and> (\<exists>charges least. active_charges a now = Inr charges \<and> binds d least \<and>
         (\<exists>pool win. drawn_window tzdb a c now charges policies pool win least) \<and>
         (\<forall>pool \<in> set (dec_drawn_pools d). \<forall>win \<in> set (plan_window_ids (pool_plan_of a pool)).
            \<exists>sc. drawn_window tzdb a c now charges policies pool win sc \<and> fst least \<le> fst sc))"
proof -
  note s = admit_admitted [OF assms(1,2)]
  have "d \<noteq> plain_decision True c (Some ''unconfigured'')" using assms(3) by (auto simp: plain_decision_def)
  then have cap: "capacity_check a c = None" "quota_stage tzdb packaged a now c = Inr d"
    using s(5) capacity_check_Some [OF _ assms(2)] by auto
  obtain charges parts where q: "active_charges a now = Inr charges"
    "exclusion_check c (drawn_pools a c policies) (aa_quota_states a) = None"
    "list_all2 (\<lambda>p part. pool_step tzdb a c now charges policies p = Inr (Scored part)) (drawn_pools a c policies) parts"
    "d = scored_decision c (drawn_pools a c policies) (admission_draws (aa_policy a) c (drawn_pools a c policies)) (concat parts)"
    by (rule quota_stage_admitted [OF cap(2) assms(2,4)])
  note p = pool_scores [OF q(3)]
  obtain m where m: "min_by fst (concat parts) = Some m" using min_by_some [OF p(4)] by blast
  have d: "binds d m" "dec_drawn_pools d = drawn_pools a c policies"
    using m unfolding q(4) scored_decision_def by (simp_all add: binds_def split: prod.split)
  have low: "fst m \<le> fst sc" if "sc \<in> set (concat parts)" for sc using min_by_le [OF m that] .
  have every: "\<exists>sc. drawn_window tzdb a c now charges policies pool win sc \<and> fst m \<le> fst sc"
    if "pool \<in> set (drawn_pools a c policies)" "win \<in> set (plan_window_ids (pool_plan_of a pool))" for pool win
    using p(2) [OF that] low by blast
  have ceiling: "\<forall>m. aa_max_global a = Some m \<longrightarrow> aa_global_running a < m"
    using cap(1) by (auto simp: capacity_check_def split: sum.splits bool.splits if_splits)
  have open_pools: "\<forall>s \<in> set (aa_quota_states a). \<not> admission_exclusion c (drawn_pools a c policies) s"
    using q(2) by (simp add: exclusion_check_def find_None_all)
  have "\<exists>pool win. drawn_window tzdb a c now charges policies pool win m"
    by (rule p(3)) (rule min_by_in [OF m])
  then have "\<exists>charges least. active_charges a now = Inr charges \<and> binds d least \<and>
         (\<exists>pool win. drawn_window tzdb a c now charges policies pool win least) \<and>
         (\<forall>pool \<in> set (drawn_pools a c policies). \<forall>win \<in> set (plan_window_ids (pool_plan_of a pool)).
            \<exists>sc. drawn_window tzdb a c now charges policies pool win sc \<and> fst least \<le> fst sc)"
    using q(1) d(1) every by blast
  moreover have "\<forall>pool \<in> set (drawn_pools a c policies). pool_has_room a pool" using p(1) by blast
  ultimately show ?thesis
    using ceiling open_pools unfolding d(2) by (intro conjI refl)
qed

theorem admission_respects_quota_witness:
  "\<exists>d policies charges least pool win. admit no_zones plan_set_empty (sample_admission [five_hour_state 60]) sample_now codex_terra = Inr d \<and>
     dec_admitted d \<and> dec_drawn_pools d = drawn_pools (sample_admission [five_hour_state 60]) codex_terra policies \<and>
     binds d least \<and> drawn_window no_zones (sample_admission [five_hour_state 60]) codex_terra sample_now charges policies pool win least"
proof -
  have "case admit no_zones plan_set_empty (sample_admission [five_hour_state 60]) sample_now codex_terra of
     Inl _ \<Rightarrow> False | Inr d \<Rightarrow> dec_admitted d \<and> dec_reason d = None" by code_simp
  then obtain d where d: "admit no_zones plan_set_empty (sample_admission [five_hour_state 60]) sample_now codex_terra = Inr d"
    "dec_admitted d" "dec_reason d \<noteq> Some ''unconfigured''" by (auto split: sum.splits)
  have "case effective_quota_pools plan_set_empty (aa_policy (sample_admission [five_hour_state 60]))
      (aa_activate_overage (sample_admission [five_hour_state 60])) of Inl _ \<Rightarrow> False | Inr _ \<Rightarrow> True" by code_simp
  then obtain policies where p: "effective_quota_pools plan_set_empty (aa_policy (sample_admission [five_hour_state 60]))
      (aa_activate_overage (sample_admission [five_hour_state 60])) = Inr policies" by (auto split: sum.splits)
  show ?thesis using admission_respects_quota [OF d p] d by blast
qed

section \<open>Windows without evidence\<close>

text \<open>Only a window called 5h sees an observation.  A quota state carries no window, and
  admission reads every one as a 5h observation; so for any other window of a pool (weekly,
  monthly, ...) the answer does not depend on what was observed: with no overage possible it
  is reckoned from the full 100 percent, and where the pool may overrun it is refused for
  missing evidence whatever was observed.\<close>
theorem only_5h_windows_have_evidence:
  assumes "win \<noteq> ''5h''"
  shows "(qp_overage_possible pol \<longrightarrow>
       (\<exists>d. window_step tzdb a c now charges pol f pool win = Inr (Inl d) \<and> dec_reason d = Some QUOTA_EVIDENCE_REQUIRED))
   \<and> window_step tzdb a c now charges pol f pool win = window_step tzdb (a\<lparr>aa_quota_states := states\<rparr>) c now charges pol f pool win
   \<and> (\<forall>sc. window_step tzdb a c now charges pol f pool win = Inr (Inr sc) \<longrightarrow>
        fst (snd (snd (snd sc))) = max 0 (100 - prior_charges charges pool win))"
proof -
  have none: "match_window P win None ss = None" for P ss
    using assms by (induction ss) (auto simp: state_window_def Let_def)
  have "window_step tzdb a c now charges pol f pool win = window_step tzdb (a\<lparr>aa_quota_states := states\<rparr>) c now charges pol f pool win"
    unfolding window_step_def none Let_def by (simp cong: sum.case_cong if_cong)
  moreover have "\<exists>d. window_step tzdb a c now charges pol f pool win = Inr (Inl d) \<and> dec_reason d = Some QUOTA_EVIDENCE_REQUIRED"
    if "qp_overage_possible pol"
    using that by (simp add: window_step_def none Let_def evidence_missing_def plain_decision_def)
  moreover have "fst (snd (snd (snd sc))) = max 0 (100 - prior_charges charges pool win)"
    if "window_step tzdb a c now charges pol f pool win = Inr (Inr sc)" for sc
    using that by (auto simp: window_step_def none Let_def window_remaining_def split: if_splits sum.splits)
  ultimately show ?thesis by blast
qed

definition weekly_state :: quota_state where
  "weekly_state = (five_hour_state 3)\<lparr>qs_pool := ''weekly'', qs_pool_id := Some ''codex''\<rparr>"

theorem only_5h_windows_have_evidence_witness:
  "window_step no_zones (sample_admission [weekly_state]) codex_terra sample_now None
      \<lparr>qp_pool_id = ''codex'', qp_mode = STRICT, qp_red_line_pct = 15, qp_members = [], qp_overage_possible = False\<rparr> 1 ''codex'' ''weekly''
    = window_step no_zones (sample_admission []) codex_terra sample_now None
      \<lparr>qp_pool_id = ''codex'', qp_mode = STRICT, qp_red_line_pct = 15, qp_members = [], qp_overage_possible = False\<rparr> 1 ''codex'' ''weekly''"
proof -
  have ne: "''weekly'' \<noteq> ''5h''" by simp
  have "sample_admission [] = (sample_admission [weekly_state])\<lparr>aa_quota_states := []\<rparr>"
    by (simp add: sample_admission_def)
  then show ?thesis using only_5h_windows_have_evidence [OF ne] by metis
qed

section \<open>The order of a role's candidates\<close>

lemma admit_all_length: "admit_all f cs = Inr ds \<Longrightarrow> list_all2 (\<lambda>c d. f c = Inr d) cs ds"
  by (induction cs arbitrary: ds) (auto split: sum.splits)

definition well_ordered :: "(worker_candidate \<Rightarrow> py_error + admission_decision) \<Rightarrow> worker_candidate list \<Rightarrow> bool" where
  \<comment> \<open>admitted before refused, and by falling score\<close>
  "well_ordered f cs \<longleftrightarrow> sorted_wrt (\<lambda>x y. \<exists>d e. f x = Inr d \<and> f y = Inr e \<and>
     (dec_admitted e, case dec_score e of None \<Rightarrow> 0 | Some s \<Rightarrow> s) \<le> (dec_admitted d, case dec_score d of None \<Rightarrow> 0 | Some s \<Rightarrow> s)) cs"

lemma order_group_spec:
  assumes "admit_all f cands = Inr ds"
  shows "mset (order_group cands ds) = mset cands" "well_ordered f (order_group cands ds)"
proof -
  let ?is = "rev (sort_key (pacing_key ds) [0..<length cands])"
  have "mset (map ((!) cands) ?is) = image_mset ((!) cands) (mset [0..<length cands])" by simp
  also have "\<dots> = mset cands" by (metis map_nth mset_map)
  finally show "mset (order_group cands ds) = mset cands" by (simp add: order_group_def)
  have all: "f (cands ! i) = Inr (ds ! i)" if "i < length cands" for i
    using admit_all_length [OF assms] that by (simp add: list_all2_conv_all_nth)
  have "sorted_wrt (\<lambda>i j. pacing_key ds j \<le> pacing_key ds i) ?is"
    using sorted_sort_key [of "pacing_key ds" "[0..<length cands]"] unfolding sorted_map sorted_wrt_rev .
  then have "sorted_wrt (\<lambda>i j. \<exists>d e. f (cands ! i) = Inr d \<and> f (cands ! j) = Inr e \<and>
     (dec_admitted e, case dec_score e of None \<Rightarrow> 0 | Some s \<Rightarrow> s) \<le> (dec_admitted d, case dec_score d of None \<Rightarrow> 0 | Some s \<Rightarrow> s)) ?is"
  proof (rule sorted_wrt_mono_rel [rotated])
    fix i j
    assume "i \<in> set ?is" "j \<in> set ?is" and le: "pacing_key ds j \<le> pacing_key ds i"
    then have "f (cands ! i) = Inr (ds ! i)" "f (cands ! j) = Inr (ds ! j)" using all by auto
    moreover have "(dec_admitted (ds ! j), case dec_score (ds ! j) of None \<Rightarrow> 0 | Some s \<Rightarrow> s) \<le>
        (dec_admitted (ds ! i), case dec_score (ds ! i) of None \<Rightarrow> 0 | Some s \<Rightarrow> s)"
      using le by (auto simp: pacing_key_def less_eq_prod_def)
    ultimately show "\<exists>d e. f (cands ! i) = Inr d \<and> f (cands ! j) = Inr e \<and>
      (dec_admitted e, case dec_score e of None \<Rightarrow> 0 | Some s \<Rightarrow> s) \<le> (dec_admitted d, case dec_score d of None \<Rightarrow> 0 | Some s \<Rightarrow> s)"
      by blast
  qed
  then show "well_ordered f (order_group cands ds)"
    by (simp add: well_ordered_def order_group_def sorted_wrt_map)
qed

lemma order_groups_spec:
  "order_groups f allowed gs = Inr out \<Longrightarrow>
     \<exists>parts. out = concat parts \<and> (\<forall>p \<in> set parts. well_ordered f p) \<and>
       list_all2 (\<lambda>g p. mset p = mset (filter (\<lambda>c. (wc_provider c, wc_model c) \<in> set allowed) g)) gs parts"
proof (induction gs arbitrary: out)
  case (Cons g gs)
  let ?c = "filter (\<lambda>c. (wc_provider c, wc_model c) \<in> set allowed) g"
  obtain head rest where h: "out = head @ rest" "order_groups f allowed gs = Inr rest"
    "mset head = mset ?c" "well_ordered f head"
  proof (cases "?c = []")
    case True
    then show thesis using Cons.prems that [of "[]" out] by (simp add: well_ordered_def)
  next
    case False
    then obtain ds rest where "admit_all f ?c = Inr ds" "order_groups f allowed gs = Inr rest" "out = order_group ?c ds @ rest"
      using Cons.prems by (auto simp: Let_def split: sum.splits)
    then show thesis using that order_group_spec by blast
  qed
  then obtain parts where "rest = concat parts" "\<forall>p \<in> set parts. well_ordered f p"
    "list_all2 (\<lambda>g p. mset p = mset (filter (\<lambda>c. (wc_provider c, wc_model c) \<in> set allowed) g)) gs parts"
    using Cons.IH by blast
  then show ?case using h by (intro exI [of _ "head # parts"]) simp
qed simp

text \<open>Ordering a role's candidates loses and invents nothing.  The answer is the base list
  when the role has no usable routing; otherwise it is the concatenation, in the routing's
  order of the fallback groups, of permutations of each group's allowed candidates, in each
  of which every admitted candidate comes before every refused one and the scores fall.\<close>
theorem ordering_respects_groups:
  assumes "order_candidates_for_role f role (Some snap) base = Inr out" "groups_for snap role = Inr groups"
  shows "out = base \<or>
    (\<exists>parts. out = concat parts \<and> (\<forall>p \<in> set parts. well_ordered f p) \<and>
       list_all2 (\<lambda>g p. mset p = mset (filter (\<lambda>c. (wc_provider c, wc_model c) \<in> (\<lambda>c. (wc_provider c, wc_model c)) ` set base) g))
         groups parts)"
  using assms order_groups_spec [of f "map (\<lambda>c. (wc_provider c, wc_model c)) base" groups]
  by (auto simp: order_candidates_for_role_def split: sum.splits if_splits)

definition sample_decision :: "worker_candidate \<Rightarrow> py_error + admission_decision" where
  "sample_decision c = Inr ((plain_decision (wc_provider c \<noteq> ''cline'') c None)\<lparr>dec_score := Some (of_nat (length (wc_model c)))\<rparr>)"

definition sample_snapshot :: routing_snapshot where
  "sample_snapshot = \<lparr>rt_role_chains = [(''WORKER'', [[codex_candidate\<lparr>wc_provider := ''cline''\<rparr>, codex_candidate, codex_terra], [codex_candidate]])],
     rt_pacing = [(''WORKER'', [0, 30])]\<rparr>"

theorem ordering_respects_groups_witness:
  "\<exists>out. order_candidates_for_role sample_decision ''worker'' (Some sample_snapshot)
       [codex_candidate, codex_terra, codex_candidate\<lparr>wc_provider := ''cline''\<rparr>] = Inr out \<and>
     out = [codex_terra, codex_candidate, codex_candidate\<lparr>wc_provider := ''cline''\<rparr>, codex_candidate] \<and>
     (\<exists>parts. out = concat parts)"
proof -
  let ?base = "[codex_candidate, codex_terra, codex_candidate\<lparr>wc_provider := ''cline''\<rparr>]"
  have o: "order_candidates_for_role sample_decision ''worker'' (Some sample_snapshot) ?base =
      Inr [codex_terra, codex_candidate, codex_candidate\<lparr>wc_provider := ''cline''\<rparr>, codex_candidate]" by code_simp
  have g: "groups_for sample_snapshot ''worker'' =
      Inr [[codex_candidate\<lparr>wc_provider := ''cline''\<rparr>, codex_candidate, codex_terra], [codex_candidate]]" by code_simp
  have "[codex_terra, codex_candidate, codex_candidate\<lparr>wc_provider := ''cline''\<rparr>, codex_candidate] \<noteq> ?base" by simp
  then show ?thesis using ordering_respects_groups [OF o g] o by blast
qed

end
