(* ===== verification/Scheduler.thy ===== *)
theory Scheduler
  imports Admission
begin

text \<open>
  \<open>saberops/capacity/scheduler.py\<close>: the pure pacing scheduler.  One call decides every queued job
  in priority order against a simulated occupancy that each dispatch of the batch raises.  The
  loop over the jobs, the loop over a job's groups and the choice in one group are separate
  definitions; the state the batch threads is the record \<open>batch\<close>.  The clock is an argument, and
  a \<open>ValueError\<close> of an admission ends the call.
\<close>

section \<open>Decisions\<close>

record dispatch_decision =
  ds_job :: job
  ds_candidate :: worker_candidate
  ds_pool_id :: "string option"
  ds_binding_window :: "string option"
  ds_score :: rat
  ds_cost_estimate :: rat
  ds_multiplier :: rat
  ds_drawn_pools :: "string list"
  ds_draws :: "pool_draw list"

datatype wait_details =
    No_details
  | Held_until "string option"
  | Ceiling_reached int int
  | No_route
  | Unsupported_role string
  | Below_pace "rat option" rat
  | Preferred_wait int

record wait_decision =
  wd_job :: job
  wd_reason :: string
  wd_eta :: "int option"
  wd_confidence :: "string option"
  wd_candidate :: "worker_candidate option"
  wd_pool_id :: "string option"
  wd_binding_window :: "string option"
  wd_details :: wait_details

record probe_decision =
  pb_pool_id :: string
  pb_harness :: string
  pb_reason :: string

datatype scheduler_decision = Dispatch dispatch_decision | Wait wait_decision | Probe probe_decision

definition plain_wait :: "job \<Rightarrow> waiting_reason \<Rightarrow> wait_details \<Rightarrow> wait_decision" where
  "plain_wait j reason details =
     \<lparr>wd_job = j, wd_reason = waiting_value reason, wd_eta = None, wd_confidence = None, wd_candidate = None,
      wd_pool_id = None, wd_binding_window = None, wd_details = details\<rparr>"

definition wait_on :: "job \<Rightarrow> waiting_reason \<Rightarrow> admission_decision \<Rightarrow> wait_details \<Rightarrow> wait_decision" where
  \<comment> \<open>a wait that carries the estimate of an admission decision\<close>
  "wait_on j reason d details =
     \<lparr>wd_job = j, wd_reason = waiting_value reason, wd_eta = dec_eta d, wd_confidence = dec_wait_confidence d,
      wd_candidate = Some (dec_candidate d), wd_pool_id = dec_pool_id d, wd_binding_window = dec_window d,
      wd_details = details\<rparr>"

definition rat_or_zero :: "rat option \<Rightarrow> rat" where
  "rat_or_zero x = (case x of None \<Rightarrow> 0 | Some v \<Rightarrow> v)"

definition dispatch_of :: "job \<Rightarrow> admission_decision \<Rightarrow> dispatch_decision" where
  "dispatch_of j d =
     \<lparr>ds_job = j, ds_candidate = dec_candidate d, ds_pool_id = dec_pool_id d, ds_binding_window = dec_window d,
      ds_score = rat_or_zero (dec_score d), ds_cost_estimate = rat_or_zero (dec_cost_estimate d),
      ds_multiplier = dec_multiplier d, ds_drawn_pools = dec_drawn_pools d, ds_draws = dec_draws d\<rparr>"

section \<open>The order of the queue\<close>

definition far_future :: int where
  \<comment> \<open>\<open>datetime.max\<close>, the last microsecond of the year 9999\<close>
  "far_future = max_instant - 1"

definition job_sort_key :: "job \<Rightarrow> int \<times> int \<times> int \<times> string \<times> string" where
  "job_sort_key j =
     (priority_rank (job_priority j),
      if truthy (job_deadline j) then 0 else 1,
      if truthy (job_deadline j) then (case parse_iso (job_deadline j) of None \<Rightarrow> far_future | Some t \<Rightarrow> t) else far_future,
      job_created_at j, job_id j)"

section \<open>The call's arguments and the simulated occupancy\<close>

datatype readiness_key = Route_key string string | Provider_key string

record readiness =
  rd_state :: "provider_readiness option"
  rd_executable_available :: bool

record schedule_args =
  sa_routing :: routing_snapshot
  sa_policy :: control_plane_policy
  sa_quota_states :: "quota_state list"
  sa_cost_states :: "cost_states option"
  sa_global_limit :: "int option"
  sa_min_pace :: rat
  sa_readiness :: "(readiness_key \<times> readiness) list"

record batch =
  ba_running :: "(string \<times> int) list"
  ba_reservations :: charges
  ba_global :: int
  ba_probes :: "(string \<times> probe_decision) list"

definition readiness_of :: "schedule_args \<Rightarrow> worker_candidate \<Rightarrow> readiness option" where
  "readiness_of a c =
     (case dict_get (sa_readiness a) (Route_key (wc_provider c) (wc_model c)) of
        Some r \<Rightarrow> Some r
      | None \<Rightarrow> dict_get (sa_readiness a) (Provider_key (wc_provider c)))"

definition schedule_admission ::
  "(string \<Rightarrow> (int \<Rightarrow> int) option) \<Rightarrow> plan_set \<Rightarrow> schedule_args \<Rightarrow> batch \<Rightarrow> job \<Rightarrow> size_bucket \<Rightarrow> int
   \<Rightarrow> worker_candidate \<Rightarrow> py_error + admission_decision" where
  \<comment> \<open>the call of \<open>admit\<close>; the keyword arguments left out have their defaults\<close>
  "schedule_admission tzdb packaged a b j bucket now c =
     (let rd = readiness_of a c in
      admit tzdb packaged
        \<lparr>aa_policy = sa_policy a, aa_quota_states = sa_quota_states a, aa_requirements = Some (job_requirements j),
         aa_size_bucket = bucket, aa_cost_states = sa_cost_states a, aa_adapter = None,
         aa_readiness = (case rd of None \<Rightarrow> None | Some r \<Rightarrow> rd_state r),
         aa_executable_available = (case rd of None \<Rightarrow> True | Some r \<Rightarrow> rd_executable_available r),
         aa_running_counts = Some (ba_running b), aa_global_running = ba_global b, aa_max_global = sa_global_limit a,
         aa_reservations = Some (ba_reservations b), aa_explicit_override = False, aa_reserve_override = False,
         aa_binding_pool_id = None, aa_activate_overage = True, aa_training_allowed = True,
         aa_training_required = None, aa_prompt_bytes = None, aa_requires_governed = False, aa_db = None,
         aa_configured = None\<rparr> now c)"

section \<open>The choice in one group\<close>

datatype group_choice = Chosen admission_decision | Waits wait_decision | Next_group

definition list_index :: "'a list \<Rightarrow> 'a \<Rightarrow> nat" where
  \<comment> \<open>\<open>xs.index(x)\<close>; a decision carries the candidate it was asked for, so it is there\<close>
  "list_index xs x = length (takeWhile (\<lambda>y. y \<noteq> x) xs)"

definition dispatch_key :: "worker_candidate list \<Rightarrow> admission_decision \<Rightarrow> rat \<times> int \<times> rat" where
  "dispatch_key grp d =
     (rat_or_zero (dec_score d), - int (list_index grp (dec_candidate d)), - rat_or_zero (dec_cost_estimate d))"

definition known_eta :: "admission_decision \<Rightarrow> bool" where
  "known_eta d = (dec_eta d \<noteq> None \<and> (dec_wait_confidence d = Some ''EXACT'' \<or> dec_wait_confidence d = Some ''PARSED''))"

definition eta_or_far :: "admission_decision \<Rightarrow> int" where
  "eta_or_far d = (case dec_eta d of None \<Rightarrow> far_future | Some t \<Rightarrow> t)"

definition choose_admitted ::
  "job \<Rightarrow> rat \<Rightarrow> worker_candidate list \<Rightarrow> admission_decision list \<Rightarrow> group_choice" where
  \<comment> \<open>the block for a group with an admitted candidate; \<open>max\<close> of the empty list is not reached\<close>
  "choose_admitted j min_pace grp admitted =
     (let eligible = (if job_priority j = BACKGROUND then filter (\<lambda>d. min_pace \<le> rat_or_zero (dec_score d)) admitted
                      else admitted)
      in if eligible = [] then
           (case max_by (\<lambda>d. rat_or_zero (dec_score d)) admitted of
              None \<Rightarrow> Next_group
            | Some d \<Rightarrow> Waits (wait_on j NO_CAPACITY d (Below_pace (dec_score d) min_pace)))
         else (case max_by (dispatch_key grp) eligible of None \<Rightarrow> Next_group | Some d \<Rightarrow> Chosen d))"

definition choose_wait :: "job \<Rightarrow> int \<Rightarrow> int \<Rightarrow> admission_decision list \<Rightarrow> group_choice" where
  \<comment> \<open>no candidate of the group was admitted: a known end soon enough is preferred to the next group\<close>
  "choose_wait j now prefer ds =
     (if prefer \<le> 0 then Next_group
      else case min_by eta_or_far (filter (\<lambda>d. known_eta d \<and> eta_or_far d \<le> now + minutes prefer) ds) of
        None \<Rightarrow> Next_group
      | Some d \<Rightarrow> Waits (wait_on j NO_CAPACITY d (Preferred_wait prefer)))"

definition choose_in_group ::
  "job \<Rightarrow> rat \<Rightarrow> int \<Rightarrow> int \<Rightarrow> worker_candidate list \<Rightarrow> admission_decision list \<Rightarrow> group_choice" where
  "choose_in_group j min_pace now prefer grp ds =
     (let admitted = filter dec_admitted ds in
      if admitted \<noteq> [] then choose_admitted j min_pace grp admitted else choose_wait j now prefer ds)"

fun group_loop ::
  "(worker_candidate \<Rightarrow> py_error + admission_decision) \<Rightarrow> job \<Rightarrow> rat \<Rightarrow> int \<Rightarrow> int list \<Rightarrow> worker_candidate list list
   \<Rightarrow> py_error + group_choice \<times> admission_decision list list" where
  \<comment> \<open>the loop over the fallback groups; the pacing list may be shorter than the groups\<close>
  "group_loop adm j min_pace now pacing [] = Inr (Next_group, [])"
| "group_loop adm j min_pace now pacing (g # gs) =
     (case admit_all adm g of
        Inl e \<Rightarrow> Inl e
      | Inr ds \<Rightarrow>
          (case choose_in_group j min_pace now (case pacing of [] \<Rightarrow> 0 | p # _ \<Rightarrow> p) g ds of
             Next_group \<Rightarrow> (case group_loop adm j min_pace now (drop 1 pacing) gs of
                 Inl e \<Rightarrow> Inl e | Inr (choice, rest) \<Rightarrow> Inr (choice, ds # rest))
           | choice \<Rightarrow> Inr (choice, [ds])))"

section \<open>After a dispatch, after every group failed\<close>

definition booked_pools :: "admission_decision \<Rightarrow> string list" where
  \<comment> \<open>\<open>all_drawn\<close>\<close>
  "booked_pools d =
     (if dec_drawn_pools d \<noteq> [] then dec_drawn_pools d else if truthy (dec_pool_id d) then [the (dec_pool_id d)] else [])"

definition count_pool :: "string \<Rightarrow> (string \<times> int) list \<Rightarrow> (string \<times> int) list" where
  "count_pool p m = dict_set m p ((case dict_get m p of None \<Rightarrow> 0 | Some n \<Rightarrow> n) + 1)"

definition charge_draw ::
  "admission_decision \<Rightarrow> size_bucket \<Rightarrow> cost_states option \<Rightarrow> pool_draw \<Rightarrow> charges \<Rightarrow> charges" where
  "charge_draw d bucket costs w m =
     (let k = (dr_pool_id w, dr_window_id w);
          cost = route_cost (dec_candidate d) (dr_pool_id w) (dr_window_id w) bucket costs * dr_multiplier w
      in dict_set m k ((case dict_get m k of None \<Rightarrow> 0 | Some x \<Rightarrow> x) + cost))"

definition book_dispatch :: "schedule_args \<Rightarrow> size_bucket \<Rightarrow> admission_decision \<Rightarrow> batch \<Rightarrow> batch" where
  "book_dispatch a bucket d b =
     b\<lparr>ba_running := fold count_pool (booked_pools d) (ba_running b),
       ba_global := ba_global b + 1,
       ba_reservations := fold (charge_draw d bucket (sa_cost_states a)) (dec_draws d) (ba_reservations b)\<rparr>"

definition note_probe :: "admission_decision \<Rightarrow> (string \<times> probe_decision) list \<Rightarrow> (string \<times> probe_decision) list" where
  \<comment> \<open>one probe per harness, for the first pool that asked\<close>
  "note_probe d ps =
     (if dec_needs_probe d \<and> truthy (dec_probe_harness d) \<and> truthy (dec_pool_id d) then
        (let h = the (dec_probe_harness d) in
         if dict_get ps h = None
         then dict_set ps h \<lparr>pb_pool_id = the (dec_pool_id d), pb_harness = h, pb_reason = QUOTA_EVIDENCE_REQUIRED\<rparr>
         else ps)
      else ps)"

definition concurrency_denial :: "admission_decision \<Rightarrow> bool" where
  "concurrency_denial d = (dec_reason d = Some ''CONCURRENCY_LIMIT'' \<or> dec_reason d = Some ''GLOBAL_CONCURRENCY_LIMIT'')"

definition exhausted_wait ::
  "job \<Rightarrow> (string \<times> probe_decision) list \<Rightarrow> admission_decision list list \<Rightarrow> wait_decision" where
  \<comment> \<open>the earliest known end of any denial, else the first denial; the first argument after the
     job is the batch's probes, whatever job asked for them\<close>
  "exhausted_wait j probes groups =
     (let denials = concat groups;
          first_dec = (case groups of (d # _) # _ \<Rightarrow> Some d | _ \<Rightarrow> None);
          chosen = (case min_by eta_or_far (filter known_eta denials) of Some d \<Rightarrow> Some d | None \<Rightarrow> first_dec);
          reason = (if probes \<noteq> [] then PROBE_PENDING
                    else if list_ex concurrency_denial denials then CONCURRENCY else NO_CAPACITY)
      in case chosen of None \<Rightarrow> plain_wait j reason No_details | Some d \<Rightarrow> wait_on j reason d No_details)"

section \<open>One job, the batch\<close>

definition job_groups :: "schedule_args \<Rightarrow> batch \<Rightarrow> job \<Rightarrow> int \<Rightarrow> wait_decision + worker_candidate list list" where
  \<comment> \<open>the checks before the groups: the delay, the global ceiling, the role and its chain\<close>
  "job_groups a b j now =
     (let nb = (if truthy (job_not_before j) then parse_iso (job_not_before j) else None);
          role = rq_role (job_requirements j)
      in if (case nb of None \<Rightarrow> False | Some t \<Rightarrow> now < t)
         then Inl ((plain_wait j NEW (Held_until (job_not_before j)))\<lparr>wd_eta := nb, wd_confidence := Some ''EXACT''\<rparr>)
         else if (case sa_global_limit a of None \<Rightarrow> False | Some l \<Rightarrow> l \<le> ba_global b)
         then Inl (plain_wait j CONCURRENCY (Ceiling_reached (ba_global b) (the (sa_global_limit a))))
         else if \<not> dispatchable role then Inl (plain_wait j NO_CAPACITY (Unsupported_role (role_value role)))
         else case groups_for (sa_routing a) (role_value role) of
           Inl e \<Rightarrow> Inl (plain_wait j NO_CAPACITY No_route)
         | Inr gs \<Rightarrow> if gs = [] then Inl (plain_wait j NO_CAPACITY No_route) else Inr gs)"

definition requirement_bucket :: "job_requirements \<Rightarrow> py_error + size_bucket" where
  \<comment> \<open>\<open>size_hint or "M"\<close>; the requirements' constructor allows no other letter\<close>
  "requirement_bucket rq = coerce_bucket (or_text (rq_size_hint rq) ''M'')"

definition decide_job ::
  "(string \<Rightarrow> (int \<Rightarrow> int) option) \<Rightarrow> plan_set \<Rightarrow> schedule_args \<Rightarrow> int \<Rightarrow> batch \<Rightarrow> job
   \<Rightarrow> py_error + scheduler_decision \<times> batch" where
  "decide_job tzdb packaged a now b j =
     (case job_groups a b j now of
        Inl w \<Rightarrow> Inr (Wait w, b)
      | Inr gs \<Rightarrow>
          (case requirement_bucket (job_requirements j) of
             Inl e \<Rightarrow> Inl e
           | Inr bucket \<Rightarrow>
               (case group_loop (schedule_admission tzdb packaged a b j bucket now) j (sa_min_pace a) now
                       (prefer_wait_minutes_for (sa_routing a) (role_value (rq_role (job_requirements j)))) gs of
                  Inl e \<Rightarrow> Inl e
                | Inr (Chosen d, _) \<Rightarrow> Inr (Dispatch (dispatch_of j d), book_dispatch a bucket d b)
                | Inr (Waits w, _) \<Rightarrow> Inr (Wait w, b)
                | Inr (Next_group, groups) \<Rightarrow>
                    (let probes = fold note_probe (concat groups) (ba_probes b)
                     in Inr (Wait (exhausted_wait j probes groups), b\<lparr>ba_probes := probes\<rparr>)))))"

fun decide_jobs ::
  "(batch \<Rightarrow> job \<Rightarrow> py_error + scheduler_decision \<times> batch) \<Rightarrow> batch \<Rightarrow> job list
   \<Rightarrow> py_error + scheduler_decision list \<times> batch" where
  "decide_jobs f b [] = Inr ([], b)"
| "decide_jobs f b (j # js) =
     (case f b j of
        Inl e \<Rightarrow> Inl e
      | Inr (d, b') \<Rightarrow> (case decide_jobs f b' js of Inl e \<Rightarrow> Inl e | Inr (ds, b'') \<Rightarrow> Inr (d # ds, b'')))"

definition initial_batch :: "(string \<times> int) list \<Rightarrow> charges \<Rightarrow> job list \<Rightarrow> batch" where
  "initial_batch counts charges running =
     \<lparr>ba_running = counts, ba_reservations = charges, ba_global = int (length running), ba_probes = []\<rparr>"

definition schedule ::
  "(string \<Rightarrow> (int \<Rightarrow> int) option) \<Rightarrow> plan_set \<Rightarrow> schedule_args \<Rightarrow> int \<Rightarrow> (string \<times> int) list \<Rightarrow> charges
   \<Rightarrow> job list \<Rightarrow> job list \<Rightarrow> py_error + scheduler_decision list" where
  "schedule tzdb packaged a now counts charges running queued =
     (case decide_jobs (decide_job tzdb packaged a now) (initial_batch counts charges running)
             (sort_key job_sort_key queued) of
        Inl e \<Rightarrow> Inl e
      | Inr (ds, b) \<Rightarrow> Inr (map (Probe \<circ> snd) (ba_probes b) @ ds))"

end
