(* ===== verification/Scheduler_Laws.thy ===== *)
theory Scheduler_Laws
  imports Scheduler Admission_Laws
begin

text \<open>
  What the scheduler of \<open>saberops/capacity/scheduler.py\<close> promises.  Its admissions are reached
  through the interface \<open>admitter\<close>: a decision names the candidate it was asked for, and an
  admitted one draws no pool that is at its ceiling.  The interface is interpreted on the calls
  of \<open>admit\<close> the scheduler makes.
\<close>

section \<open>The interface to admission\<close>

definition pool_count :: "(string \<times> int) list \<Rightarrow> string \<Rightarrow> int" where
  "pool_count m p = (case dict_get m p of None \<Rightarrow> 0 | Some n \<Rightarrow> n)"

definition pool_limit :: "control_plane_policy \<Rightarrow> string \<Rightarrow> int option" where
  "pool_limit policy p = Option.bind (dict_get (ps_pool_plans (cpp_plans policy)) p) pp_max_concurrent"

locale admitter =
  fixes adm :: "worker_candidate \<Rightarrow> py_error + admission_decision"
    and counts :: "(string \<times> int) list" and limit :: "string \<Rightarrow> int option"
  assumes adm_candidate: "adm c = Inr d \<Longrightarrow> dec_candidate d = c"
    and adm_below: "adm c = Inr d \<Longrightarrow> dec_admitted d \<Longrightarrow> p \<in> set (booked_pools d) \<Longrightarrow> limit p = Some m \<Longrightarrow>
      pool_count counts p < m"
begin

lemma admit_all_in:
  assumes "admit_all adm cs = Inr ds" "d \<in> set ds"
  shows "dec_candidate d \<in> set cs \<and> adm (dec_candidate d) = Inr d"
proof -
  have "list_all2 (\<lambda>d c. adm c = Inr d) ds cs"
    using admit_all_length [OF assms(1)] by (simp add: list_all2_conv_all_nth)
  then obtain c where "c \<in> set cs" "adm c = Inr d" using list_all2_left [of _ ds cs d] assms(2) by blast
  then show ?thesis using adm_candidate by auto
qed

lemma chosen_spec:
  assumes "admit_all adm g = Inr ds" "choose_in_group j pace now prefer g ds = Chosen d"
  shows "d \<in> set ds \<and> dec_admitted d \<and> dec_candidate d \<in> set g \<and> adm (dec_candidate d) = Inr d
    \<and> (job_priority j = BACKGROUND \<longrightarrow> pace \<le> rat_or_zero (dec_score d))
    \<and> (\<forall>e \<in> set ds. dec_admitted e \<longrightarrow> rat_or_zero (dec_score e) \<le> rat_or_zero (dec_score d))"
proof -
  let ?adm = "filter dec_admitted ds"
  let ?el = "if job_priority j = BACKGROUND then filter (\<lambda>d. pace \<le> rat_or_zero (dec_score d)) ?adm else ?adm"
  have "max_by (dispatch_key g) ?el = Some d"
    using assms(2) by (auto simp: choose_in_group_def choose_admitted_def choose_wait_def Let_def
        split: if_splits option.splits)
  note m = max_by_in [OF this] max_by_ge [OF this]
  have d: "d \<in> set ds" "dec_admitted d" "job_priority j = BACKGROUND \<longrightarrow> pace \<le> rat_or_zero (dec_score d)"
    using m(1) by (auto split: if_splits)
  have "rat_or_zero (dec_score e) \<le> rat_or_zero (dec_score d)" if "e \<in> set ds" "dec_admitted e" for e
  proof (cases "e \<in> set ?el")
    case True
    then show ?thesis using m(2) [of e] by (auto simp: dispatch_key_def less_eq_prod_def)
  next
    case False
    then have "job_priority j = BACKGROUND" "rat_or_zero (dec_score e) < pace"
      using that by (auto split: if_splits)
    then show ?thesis using d(3) by simp
  qed
  then show ?thesis using d admit_all_in [OF assms(1) d(1)] by blast
qed

lemma group_loop_chosen:
  assumes "group_loop adm j pace now pacing gs = Inr (Chosen d, groups)"
  obtains earlier g ds later where "gs = earlier @ g # later" "admit_all adm g = Inr ds" "d \<in> set ds"
    "dec_admitted d" "dec_candidate d \<in> set g" "adm (dec_candidate d) = Inr d"
    "job_priority j = BACKGROUND \<longrightarrow> pace \<le> rat_or_zero (dec_score d)"
    "\<forall>e \<in> set ds. dec_admitted e \<longrightarrow> rat_or_zero (dec_score e) \<le> rat_or_zero (dec_score d)"
    "\<forall>h \<in> set earlier. \<exists>es. admit_all adm h = Inr es \<and> (\<forall>e \<in> set es. \<not> dec_admitted e)"
  using assms
proof (induction gs arbitrary: pacing groups thesis)
  case (Cons g gs)
  obtain ds where ds: "admit_all adm g = Inr ds" using Cons.prems(2) by (auto split: sum.splits)
  let ?p = "case pacing of [] \<Rightarrow> 0 | p # _ \<Rightarrow> p"
  show ?case
  proof (cases "choose_in_group j pace now ?p g ds")
    case (Chosen e)
    then have "e = d" using Cons.prems(2) ds by simp
    then show ?thesis using chosen_spec [OF ds] Chosen ds Cons.prems(1) [of "[]" g gs ds] by auto
  next
    case Next_group
    then have none: "\<forall>e \<in> set ds. \<not> dec_admitted e"
      by (auto simp: choose_in_group_def choose_admitted_def Let_def filter_empty_conv split: if_splits option.splits)
    obtain rest where "group_loop adm j pace now (drop 1 pacing) gs = Inr (Chosen d, rest)"
      using Cons.prems(2) ds Next_group by (auto split: sum.splits)
    then show ?thesis
    proof (rule Cons.IH [rotated])
      fix earlier h es later
      assume r: "gs = earlier @ h # later" "admit_all adm h = Inr es" "d \<in> set es"
        "dec_admitted d" "dec_candidate d \<in> set h" "adm (dec_candidate d) = Inr d"
        "job_priority j = BACKGROUND \<longrightarrow> pace \<le> rat_or_zero (dec_score d)"
        "\<forall>e \<in> set es. dec_admitted e \<longrightarrow> rat_or_zero (dec_score e) \<le> rat_or_zero (dec_score d)"
        "\<forall>h \<in> set earlier. \<exists>es. admit_all adm h = Inr es \<and> (\<forall>e \<in> set es. \<not> dec_admitted e)"
      show ?thesis
        by (rule Cons.prems(1) [of "g # earlier" h later es]) (use r ds none in auto)
    qed
  qed (use Cons.prems(2) ds in auto)
qed simp

end

lemma plain_decision_fields [simp]:
  "dec_candidate (plain_decision b c r) = c" "dec_drawn_pools (plain_decision b c r) = []"
  "dec_pool_id (plain_decision b c r) = None" "dec_reason (plain_decision b c r) = r"
  by (simp_all add: plain_decision_def)

lemma stages_candidate:
  "identity_check c = Some d \<Longrightarrow> dec_candidate d = c"
  "requirements_check a c rq = Inr (Some d) \<Longrightarrow> dec_candidate d = c"
  "governance_check a c = Some d \<Longrightarrow> dec_candidate d = c"
  "posture_check a c now = Inr (Some d) \<Longrightarrow> dec_candidate d = c"
  "capacity_check a c = Some d \<Longrightarrow> dec_candidate d = c"
  "exclusion_check c drawn states = Some d \<Longrightarrow> dec_candidate d = c"
  "window_step tzdb a c now charges pol f pool win = Inr (Inl d) \<Longrightarrow> dec_candidate d = c"
  "dec_candidate (scored_decision c drawn draws scs) = c"
  by (auto simp: identity_check_def requirements_check_def governance_check_def posture_check_def capacity_check_def
      exclusion_check_def window_step_def scored_decision_def Let_def
      split: if_splits sum.splits option.splits bool.splits)

lemma pool_step_candidate:
  "pool_step tzdb a c now charges policies pool = Inr (Denied d) \<Longrightarrow> dec_candidate d = c"
  using window_loop_Denied stages_candidate(7)
  by (fastforce simp: pool_step_def Let_def split: if_splits sum.splits)

lemma quota_stage_candidate: "quota_stage tzdb packaged a now c = Inr d \<Longrightarrow> dec_candidate d = c"
  using pool_loop_Denied pool_step_candidate stages_candidate(6)
  by (fastforce simp: quota_stage_def Let_def stages_candidate(8) split: sum.splits option.splits pool_outcome.splits)

lemma admit_candidate: "admit tzdb packaged a now c = Inr d \<Longrightarrow> dec_candidate d = c"
  using stages_candidate quota_stage_candidate
  by (auto simp: admit_def return_early_Inr split: option.splits)

lemma scored_decision_pools: "dec_drawn_pools (scored_decision c drawn draws scs) = drawn"
  by (auto simp: scored_decision_def split: option.splits prod.splits)

lemma admit_below_limit:
  assumes "admit tzdb packaged a now c = Inr d" "dec_admitted d" "p \<in> set (booked_pools d)"
    "pool_limit (aa_policy a) p = Some m" "aa_running_counts a = Some counts"
  shows "pool_count counts p < m"
proof -
  from admit_admitted(5) [OF assms(1,2)] show ?thesis
  proof
    assume "capacity_check a c = Some d"
    then have "d = plain_decision True c (Some ''unconfigured'')" using capacity_check_Some [OF _ assms(2)] by blast
    then show ?thesis using assms(3) by (simp add: booked_pools_def)
  next
    assume q: "capacity_check a c = None \<and> quota_stage tzdb packaged a now c = Inr d"
    then obtain policies where "effective_quota_pools packaged (aa_policy a) (aa_activate_overage a) = Inr policies"
      by (auto simp: quota_stage_def split: sum.splits)
    from q [THEN conjunct2] assms(2) this show ?thesis
    proof (rule quota_stage_admitted)
      fix charges parts
      assume r: "list_all2 (\<lambda>p part. pool_step tzdb a c now charges policies p = Inr (Scored part)) (drawn_pools a c policies) parts"
        "d = scored_decision c (drawn_pools a c policies) (admission_draws (aa_policy a) c (drawn_pools a c policies)) (concat parts)"
      have "p \<in> set (drawn_pools a c policies)"
        using assms(3) by (simp add: booked_pools_def scored_decision_pools r(2))
      then obtain part where "pool_step tzdb a c now charges policies p = Inr (Scored part)"
        using list_all2_left [OF r(1)] by blast
      then show ?thesis using assms(4,5)
        by (auto simp: pool_step_def Let_def pool_limit_def pool_count_def bind_eq_Some_conv
            split: sum.splits if_splits option.splits)
    qed
  qed
qed

interpretation admits: admitter "schedule_admission tzdb packaged a b j bucket now" "ba_running b" "pool_limit (sa_policy a)"
  for tzdb packaged a b j bucket now
proof
  fix c d assume adm: "schedule_admission tzdb packaged a b j bucket now c = Inr d"
  then show "dec_candidate d = c" using admit_candidate by (auto simp: schedule_admission_def Let_def)
  fix p m assume "dec_admitted d" "p \<in> set (booked_pools d)" "pool_limit (sa_policy a) p = Some m"
  then show "pool_count (ba_running b) p < m"
    using adm [unfolded schedule_admission_def Let_def, THEN admit_below_limit] by simp
qed

section \<open>One job\<close>

fun decision_job :: "scheduler_decision \<Rightarrow> job option" where
  "decision_job (Dispatch d) = Some (ds_job d)"
| "decision_job (Wait w) = Some (wd_job w)"
| "decision_job (Probe p) = None"

lemma wait_jobs [simp]:
  "wd_job (plain_wait j r x) = j" "wd_job (wait_on j r d x) = j" "wd_job (exhausted_wait j ps gs) = j"
  "ds_job (dispatch_of j d) = j"
  by (simp_all add: plain_wait_def wait_on_def exhausted_wait_def dispatch_of_def Let_def split: option.split)

lemma choose_waits_job: "choose_in_group j pace now prefer g ds = Waits w \<Longrightarrow> wd_job w = j"
  by (auto simp: choose_in_group_def choose_admitted_def choose_wait_def Let_def split: if_splits option.splits)

lemma group_loop_waits_job: "group_loop adm j pace now pacing gs = Inr (Waits w, r) \<Longrightarrow> wd_job w = j"
proof (induction gs arbitrary: pacing r)
  case (Cons g gs)
  then show ?case
    using choose_waits_job by (auto split: sum.splits group_choice.splits prod.splits)
qed simp

lemma job_groups_job: "job_groups a b j now = Inl w \<Longrightarrow> wd_job w = j"
  by (auto simp: job_groups_def Let_def split: if_splits sum.splits)

abbreviation role_pacing :: "schedule_args \<Rightarrow> job \<Rightarrow> int list" where
  "role_pacing a j \<equiv> prefer_wait_minutes_for (sa_routing a) (role_value (rq_role (job_requirements j)))"

lemma decide_job_cases [consumes 1, case_names wait dispatch]:
  assumes "decide_job tzdb packaged a now b j = Inr (d, b')"
  obtains w ds where "d = Wait w" "wd_job w = j" "ba_running b' = ba_running b" "ba_global b' = ba_global b"
    "ba_reservations b' = ba_reservations b" "ba_probes b' = fold note_probe ds (ba_probes b)"
  | gs bucket x groups where "d = Dispatch (dispatch_of j x)" "b' = book_dispatch a bucket x b"
    "job_groups a b j now = Inr gs" "requirement_bucket (job_requirements j) = Inr bucket"
    "group_loop (schedule_admission tzdb packaged a b j bucket now) j (sa_min_pace a) now (role_pacing a j) gs =
       Inr (Chosen x, groups)"
proof (cases "job_groups a b j now")
  case (Inl w)
  then show ?thesis using assms job_groups_job that(1) [of w "[]"] by (auto simp: decide_job_def)
next
  case (Inr gs)
  then obtain bucket where bucket: "requirement_bucket (job_requirements j) = Inr bucket"
    using assms by (auto simp: decide_job_def split: sum.splits)
  then obtain choice groups where loop:
    "group_loop (schedule_admission tzdb packaged a b j bucket now) j (sa_min_pace a) now (role_pacing a j) gs = Inr (choice, groups)"
    using assms Inr by (auto simp: decide_job_def split: sum.splits)
  show ?thesis
  proof (cases choice)
    case (Waits w)
    then show ?thesis using assms Inr bucket loop group_loop_waits_job that(1) [of w "[]"] by (auto simp: decide_job_def)
  next
    case Next_group
    then show ?thesis using assms Inr bucket loop that(1) [of _ "concat groups"] by (auto simp: decide_job_def Let_def)
  qed (use assms Inr bucket loop that(2) in \<open>auto simp: decide_job_def\<close>)
qed

lemma decide_job_names: "decide_job tzdb packaged a now b j = Inr (d, b') \<Longrightarrow> decision_job d = Some j"
  by (erule decide_job_cases) simp_all

section \<open>Every queued job is decided once\<close>

definition probes_ok :: "(string \<times> probe_decision) list \<Rightarrow> bool" where
  "probes_ok ps = (distinct (map fst ps) \<and> list_all (\<lambda>q. pb_harness (snd q) = fst q) ps)"

lemma list_all_dict_set: "list_all P q \<Longrightarrow> P (k, v) \<Longrightarrow> list_all P (dict_set q k v)"
  by (induction q k v rule: dict_set.induct) auto

lemma note_probe_ok: "probes_ok ps \<Longrightarrow> probes_ok (note_probe d ps)"
  by (simp add: note_probe_def probes_ok_def Let_def distinct_dict_set list_all_dict_set)

lemma note_probes_ok: "probes_ok ps \<Longrightarrow> probes_ok (fold note_probe ds ps)"
  by (induction ds arbitrary: ps) (simp_all add: note_probe_ok)

lemma probes_ok_step:
  assumes "decide_job tzdb packaged a now b j = Inr (d, b')" "probes_ok (ba_probes b)"
  shows "probes_ok (ba_probes b')"
  using assms(1)
proof (cases rule: decide_job_cases)
  case (wait w ds)
  then show ?thesis using assms(2) note_probes_ok by simp
next
  case dispatch
  then show ?thesis using assms(2) by (simp add: book_dispatch_def)
qed

lemma decide_jobs_names:
  "decide_jobs (decide_job tzdb packaged a now) b js = Inr (ds, b') \<Longrightarrow> probes_ok (ba_probes b) \<Longrightarrow>
     map decision_job ds = map Some js \<and> probes_ok (ba_probes b')"
proof (induction js arbitrary: b ds)
  case (Cons j js)
  then show ?case using decide_job_names probes_ok_step by (fastforce split: sum.splits)
qed simp

lemma schedule_split:
  assumes "schedule tzdb packaged a now counts charges running queued = Inr ds"
  obtains decs b where "ds = map (Probe \<circ> snd) (ba_probes b) @ decs"
    "decide_jobs (decide_job tzdb packaged a now) (initial_batch counts charges running) (sort_key job_sort_key queued) = Inr (decs, b)"
  using assms by (auto simp: schedule_def split: sum.splits)

text \<open>The scheduler decides every queued job exactly once, in its order.  A call that
  returns answers first with probes, at most one per harness, and then with one dispatch or wait per
  queued job: the same jobs, sorted by priority, deadline presence, deadline, creation time and
  id, those with equal keys in the order they were given.\<close>
theorem schedule_decides_every_job:
  assumes "schedule tzdb packaged a now counts charges running queued = Inr ds"
  shows "\<exists>probes decs. ds = map Probe probes @ decs \<and> distinct (map pb_harness probes)
    \<and> map decision_job decs = map Some (sort_key job_sort_key queued)
    \<and> mset (map decision_job decs) = mset (map Some queued)"
  using assms
proof (rule schedule_split)
  fix decs b
  assume s: "ds = map (Probe \<circ> snd) (ba_probes b) @ decs"
    "decide_jobs (decide_job tzdb packaged a now) (initial_batch counts charges running) (sort_key job_sort_key queued) = Inr (decs, b)"
  have n: "map decision_job decs = map Some (sort_key job_sort_key queued)" "probes_ok (ba_probes b)"
    using decide_jobs_names [OF s(2)] by (auto simp: probes_ok_def initial_batch_def)
  have "map fst (ba_probes b) = map pb_harness (map snd (ba_probes b))"
    using n(2) by (simp add: probes_ok_def list_all_iff)
  then have "distinct (map pb_harness (map snd (ba_probes b)))"
    using n(2) unfolding probes_ok_def by metis
  moreover have "mset (map decision_job decs) = mset (map Some queued)" unfolding n(1) by simp
  ultimately show ?thesis using s(1) n(1) by (intro exI [of _ "map snd (ba_probes b)"] exI [of _ decs]) simp
qed

section \<open>Ceilings\<close>

definition dispatch_pools :: "dispatch_decision \<Rightarrow> string list" where
  \<comment> \<open>the pools a dispatch occupies\<close>
  "dispatch_pools x =
     (if ds_drawn_pools x \<noteq> [] then ds_drawn_pools x else if truthy (ds_pool_id x) then [the (ds_pool_id x)] else [])"

fun draws_pool :: "string \<Rightarrow> scheduler_decision \<Rightarrow> bool" where
  "draws_pool p (Dispatch x) = (p \<in> set (dispatch_pools x))"
| "draws_pool p _ = False"

fun is_dispatch :: "scheduler_decision \<Rightarrow> bool" where
  "is_dispatch (Dispatch x) = True"
| "is_dispatch _ = False"

lemma dispatch_pools_of [simp]: "dispatch_pools (dispatch_of j d) = booked_pools d"
  by (simp add: dispatch_pools_def booked_pools_def dispatch_of_def)

lemma pool_count_booked: "pool_count (fold count_pool ps m) p = pool_count m p + int (count_list ps p)"
  by (induction ps arbitrary: m) (auto simp: count_pool_def pool_count_def split: option.splits)

lemma book_dispatch_fields [simp]:
  "ba_global (book_dispatch a bucket d b) = ba_global b + 1"
  "ba_running (book_dispatch a bucket d b) = fold count_pool (booked_pools d) (ba_running b)"
  by (simp_all add: book_dispatch_def)

lemma decide_jobs_pool:
  assumes "pool_limit (sa_policy a) p = Some m"
  shows "decide_jobs (decide_job tzdb packaged a now) b js = Inr (ds, b') \<Longrightarrow> n = length (filter (draws_pool p) ds) \<Longrightarrow>
    0 < n \<Longrightarrow> pool_count (ba_running b) p + int n \<le> m"
proof (induction js arbitrary: b ds n)
  case (Cons j js)
  obtain d c rest where d: "decide_job tzdb packaged a now b j = Inr (d, c)"
    "decide_jobs (decide_job tzdb packaged a now) c js = Inr (rest, b')" "ds = d # rest"
    using Cons.prems(1) by (auto split: sum.splits)
  let ?n = "length (filter (draws_pool p) rest)"
  note IH = Cons.IH [OF d(2) refl]
  from d(1) show ?case
  proof (cases rule: decide_job_cases)
    case (wait w ds)
    then show ?thesis using IH Cons.prems(2,3) d(3) by simp
  next
    case (dispatch gs bucket x groups)
    from dispatch(5) obtain e where x: "dec_admitted x" "schedule_admission tzdb packaged a b j bucket now e = Inr x"
      by (rule admits.group_loop_chosen)
    have below: "pool_count (ba_running b) p < m" if "p \<in> set (booked_pools x)"
      using admits.adm_below [OF x(2,1) that assms] .
    show ?thesis
    proof (cases "p \<in> set (booked_pools x)")
      case True
      then have "1 \<le> count_list (booked_pools x) p" by (meson count_list_0_iff less_one not_le)
      then show ?thesis
        using True IH below Cons.prems(2) d(3) dispatch(1,2) by (cases "?n = 0") (auto simp: pool_count_booked)
    next
      case False
      then show ?thesis
        using IH Cons.prems(2,3) d(3) dispatch(1,2) by (auto simp: pool_count_booked)
    qed
  qed
qed simp

lemma decide_jobs_global:
  "decide_jobs (decide_job tzdb packaged a now) b js = Inr (ds, b') \<Longrightarrow> sa_global_limit a = Some l \<Longrightarrow>
    ba_global b + int (length (filter is_dispatch ds)) \<le> max (ba_global b) l"
proof (induction js arbitrary: b ds)
  case (Cons j js)
  obtain d c rest where d: "decide_job tzdb packaged a now b j = Inr (d, c)"
    "decide_jobs (decide_job tzdb packaged a now) c js = Inr (rest, b')" "ds = d # rest"
    using Cons.prems(1) by (auto split: sum.splits)
  from d(1) show ?case
  proof (cases rule: decide_job_cases)
    case wait
    then show ?thesis using Cons.IH [OF d(2) Cons.prems(2)] d(3) by simp
  next
    case (dispatch gs bucket x groups)
    then have "ba_global b < l" using Cons.prems(2) by (auto simp: job_groups_def Let_def split: if_splits)
    then show ?thesis using Cons.IH [OF d(2) Cons.prems(2)] d(3) dispatch(1,2) by simp
  qed
qed simp

text \<open>C25: No batch passes a ceiling.  Counting the running jobs the caller gave, a call dispatches at
  most up to the global limit, and for every pool with a concurrency limit that it dispatches
  to at all, the pool's running count and the dispatches of this call that draw the pool stay
  within the limit together.\<close>
theorem schedule_respects_ceilings:
  assumes "schedule tzdb packaged a now counts charges running queued = Inr ds"
  shows "(\<forall>l. sa_global_limit a = Some l \<longrightarrow>
      int (length running) + int (length (filter is_dispatch ds)) \<le> max (int (length running)) l)
    \<and> (\<forall>p m n. pool_limit (sa_policy a) p = Some m \<longrightarrow> n = length (filter (draws_pool p) ds) \<longrightarrow> 0 < n \<longrightarrow>
         pool_count counts p + int n \<le> m)"
  using assms
proof (rule schedule_split)
  fix decs b
  assume s: "ds = map (Probe \<circ> snd) (ba_probes b) @ decs"
    "decide_jobs (decide_job tzdb packaged a now) (initial_batch counts charges running) (sort_key job_sort_key queued) = Inr (decs, b)"
  have f: "filter is_dispatch ds = filter is_dispatch decs" "filter (draws_pool p) ds = filter (draws_pool p) decs" for p
    using s(1) by (simp_all add: filter_empty_conv)
  show ?thesis
    using decide_jobs_global [OF s(2)] decide_jobs_pool [OF _ s(2)] unfolding f by (simp add: initial_batch_def)
qed

section \<open>Where a dispatch comes from\<close>

definition dispatch_justified ::
  "(string \<Rightarrow> (int \<Rightarrow> int) option) \<Rightarrow> plan_set \<Rightarrow> schedule_args \<Rightarrow> int \<Rightarrow> batch \<Rightarrow> dispatch_decision \<Rightarrow> bool" where
  \<comment> \<open>the reference: the best admitted candidate of the first group that has one, under the occupancy \<open>b\<close>\<close>
  "dispatch_justified tzdb packaged a now b x =
     (\<exists>gs earlier g later bucket d. groups_for (sa_routing a) (role_value WORKER) = Inr gs \<and> gs = earlier @ g # later \<and>
        (let adm = schedule_admission tzdb packaged a b (ds_job x) bucket now in
         x = dispatch_of (ds_job x) d \<and> ds_candidate x \<in> set g \<and> adm (ds_candidate x) = Inr d \<and> dec_admitted d \<and>
         (\<forall>h \<in> set earlier. \<forall>c \<in> set h. \<exists>e. adm c = Inr e \<and> \<not> dec_admitted e) \<and>
         (\<forall>c \<in> set g. \<exists>e. adm c = Inr e \<and> (dec_admitted e \<longrightarrow> rat_or_zero (dec_score e) \<le> ds_score x)) \<and>
         (job_priority (ds_job x) = BACKGROUND \<longrightarrow> sa_min_pace a \<le> ds_score x)))"

lemma admit_all_each:
  "admit_all f cs = Inr ds \<Longrightarrow> c \<in> set cs \<Longrightarrow> \<exists>d \<in> set ds. f c = Inr d"
  by (induction cs arbitrary: ds) (auto split: sum.splits)

lemma dispatch_of_fields [simp]:
  "ds_candidate (dispatch_of j d) = dec_candidate d" "ds_score (dispatch_of j d) = rat_or_zero (dec_score d)"
  by (simp_all add: dispatch_of_def)

lemma decide_job_justified:
  assumes "decide_job tzdb packaged a now b j = Inr (Dispatch x, b')"
  shows "dispatch_justified tzdb packaged a now b x \<and> ds_job x = j
    \<and> (\<forall>nb. truthy (job_not_before j) \<longrightarrow> parse_iso (job_not_before j) = Some nb \<longrightarrow> nb \<le> now)
    \<and> rq_role (job_requirements j) = WORKER"
  using assms
proof (cases rule: decide_job_cases)
  case (dispatch gs bucket d groups)
  have g: "groups_for (sa_routing a) (role_value WORKER) = Inr gs" "rq_role (job_requirements j) = WORKER"
    "\<forall>nb. truthy (job_not_before j) \<longrightarrow> parse_iso (job_not_before j) = Some nb \<longrightarrow> nb \<le> now"
    using dispatch(3) by (auto simp: job_groups_def Let_def dispatchable_def split: if_splits sum.splits)
  from dispatch(5) show ?thesis
  proof (rule admits.group_loop_chosen)
    fix earlier h ds later
    let ?adm = "schedule_admission tzdb packaged a b j bucket now"
    assume l: "gs = earlier @ h # later" "admit_all ?adm h = Inr ds" "d \<in> set ds"
      "dec_admitted d" "dec_candidate d \<in> set h" "?adm (dec_candidate d) = Inr d"
      "job_priority j = BACKGROUND \<longrightarrow> sa_min_pace a \<le> rat_or_zero (dec_score d)"
      "\<forall>e \<in> set ds. dec_admitted e \<longrightarrow> rat_or_zero (dec_score e) \<le> rat_or_zero (dec_score d)"
      "\<forall>h \<in> set earlier. \<exists>es. admit_all ?adm h = Inr es \<and> (\<forall>e \<in> set es. \<not> dec_admitted e)"
    have x: "x = dispatch_of j d" using dispatch(1) by simp
    have "\<forall>k \<in> set earlier. \<forall>c \<in> set k. \<exists>e. ?adm c = Inr e \<and> \<not> dec_admitted e"
      using l(9) admit_all_each by blast
    moreover have "\<forall>c \<in> set h. \<exists>e. ?adm c = Inr e \<and> (dec_admitted e \<longrightarrow> rat_or_zero (dec_score e) \<le> rat_or_zero (dec_score d))"
      using l(2,8) admit_all_each by blast
    ultimately have "dispatch_justified tzdb packaged a now b x"
      unfolding dispatch_justified_def Let_def x
      by (intro exI [of _ gs] exI [of _ earlier] exI [of _ h] exI [of _ later] exI [of _ bucket] exI [of _ d])
         (simp add: g(1) l(1,4-7))
    then show ?thesis using g(2,3) x by simp
  qed
qed simp

lemma decide_job_mono:
  "decide_job tzdb packaged a now b j = Inr (d, c) \<Longrightarrow>
     ba_global b \<le> ba_global c \<and> pool_count (ba_running b) p \<le> pool_count (ba_running c) p"
  by (erule decide_job_cases) (simp_all add: pool_count_booked)

lemma decide_jobs_provenance:
  "decide_jobs (decide_job tzdb packaged a now) b js = Inr (ds, b') \<Longrightarrow> Dispatch x \<in> set ds \<Longrightarrow>
    \<exists>c c' j. decide_job tzdb packaged a now c j = Inr (Dispatch x, c') \<and> j \<in> set js \<and>
      ba_global b \<le> ba_global c \<and> (\<forall>p. pool_count (ba_running b) p \<le> pool_count (ba_running c) p)"
proof (induction js arbitrary: b ds)
  case (Cons j js)
  obtain d c rest where d: "decide_job tzdb packaged a now b j = Inr (d, c)"
    "decide_jobs (decide_job tzdb packaged a now) c js = Inr (rest, b')" "ds = d # rest"
    using Cons.prems(1) by (auto split: sum.splits)
  show ?case
  proof (cases "d = Dispatch x")
    case True
    then show ?thesis using d(1) by (intro exI [of _ b] exI [of _ c] exI [of _ j]) simp
  next
    case False
    then have "Dispatch x \<in> set rest" using Cons.prems(2) d(3) by simp
    from Cons.IH [OF d(2) this] decide_job_mono [OF d(1)] show ?thesis by (meson list.set_intros(2) order_trans)
  qed
qed simp

text \<open>C22: Every dispatch is the right choice for its job.  A dispatched job is a queued worker job
  whose delay has passed, and its candidate is the best admitted one of the first fallback
  group with an admitted candidate, every earlier group having been refused entirely, under an
  occupancy that counts at least the running jobs and pools the caller gave; a background job
  also keeps the minimum pace.  Its provider is not disabled, its posture admits unattended
  use, and its provider has every capability the job requires.\<close>
theorem dispatches_are_justified:
  assumes "schedule tzdb packaged a now counts charges running queued = Inr ds" "Dispatch x \<in> set ds"
  shows "ds_job x \<in> set queued \<and> rq_role (job_requirements (ds_job x)) = WORKER
    \<and> (\<forall>nb. truthy (job_not_before (ds_job x)) \<longrightarrow> parse_iso (job_not_before (ds_job x)) = Some nb \<longrightarrow> nb \<le> now)
    \<and> (\<exists>b. int (length running) \<le> ba_global b \<and> (\<forall>p. pool_count counts p \<le> pool_count (ba_running b) p) \<and>
         dispatch_justified tzdb packaged a now b x)
    \<and> pv_state (policy_provider (sa_policy a) (wc_provider (ds_candidate x))) \<noteq> PP_DISABLED
    \<and> (\<exists>p. posture_decision (wc_provider (ds_candidate x)) (wc_model (ds_candidate x)) None (cpp_plans (sa_policy a))
              (instant_date now) = Inr p \<and> pd_admitted_unattended p)
    \<and> (\<exists>caps. normalize_required_capabilities (rq_required_capabilities (job_requirements (ds_job x))) = Inr caps \<and>
         set caps \<subseteq> set (profile_values (capability_profile_for None (wc_provider (ds_candidate x)))))"
  using assms(1)
proof (rule schedule_split)
  fix decs b
  assume s: "ds = map (Probe \<circ> snd) (ba_probes b) @ decs"
    "decide_jobs (decide_job tzdb packaged a now) (initial_batch counts charges running) (sort_key job_sort_key queued) = Inr (decs, b)"
  have "Dispatch x \<in> set decs" using assms(2) s(1) by auto
  from decide_jobs_provenance [OF s(2) this] obtain c c' j where
    c: "decide_job tzdb packaged a now c j = Inr (Dispatch x, c')" "j \<in> set queued"
      "int (length running) \<le> ba_global c" "\<forall>p. pool_count counts p \<le> pool_count (ba_running c) p"
    by (auto simp: initial_batch_def)
  note j = decide_job_justified [OF c(1)]
  then obtain bucket d where d: "schedule_admission tzdb packaged a c (ds_job x) bucket now (ds_candidate x) = Inr d"
    "dec_admitted d" by (auto simp: dispatch_justified_def Let_def)
  note safe = admission_safety [OF d(1) [unfolded schedule_admission_def Let_def] d(2)]
  have "ds_job x \<in> set queued" "rq_role (job_requirements (ds_job x)) = WORKER" using j c(2) by auto
  then show ?thesis using j c(3,4) safe by auto
qed

section \<open>Examples\<close>

definition plain_requirements :: job_requirements where
  "plain_requirements = sample_requirements_codex\<lparr>rq_required_capabilities := [], rq_family_exclude := []\<rparr>"

definition queued_job :: "string \<Rightarrow> priority \<Rightarrow> string \<Rightarrow> job" where
  "queued_job i prio created =
     \<lparr>job_id = i, job_idempotency_key = None, job_caller_id = ''cli'', job_repo = ''/r'', job_base_ref = ''HEAD'',
      job_base_sha = ''abc'', job_goal = ''g'', job_acceptance = None, job_requirements = plain_requirements,
      job_priority = prio, job_deadline = None, job_not_before = None, job_state = QUEUED,
      job_waiting_reason = Some NEW, job_failure_reason = None, job_eta = None, job_eta_confidence = None,
      job_deadline_at_risk = False, job_current_run_id = None, job_run_ids = [], job_resume_from = None,
      job_preemptions = 0, job_created_at = created, job_updated_at = created, job_request_digest = ''d''\<rparr>"

definition sample_schedule :: schedule_args where
  "sample_schedule = \<lparr>sa_routing = \<lparr>rt_role_chains = [(''WORKER'', [[codex_terra]])], rt_pacing = []\<rparr>,
     sa_policy = verified_policy, sa_quota_states = [five_hour_state 60], sa_cost_states = None,
     sa_global_limit = Some 4, sa_min_pace = 4,
     sa_readiness = [(Provider_key ''codex'', \<lparr>rd_state = Some PR_READY, rd_executable_available = True\<rparr>)]\<rparr>"

definition sample_queue :: "job list" where
  "sample_queue = [queued_job ''B'' NORMAL ''2026-10-20T09:00:00+00:00'', queued_job ''A'' URGENT ''2026-10-20T10:00:00+00:00'']"

definition sample_batch :: "py_error + scheduler_decision list" where
  "sample_batch = schedule no_zones plan_set_empty sample_schedule sample_now [(''codex'', 1)] [] [] sample_queue"

fun one_then_wait :: "scheduler_decision list \<Rightarrow> bool" where
  "one_then_wait [Dispatch x, Wait w] =
     (job_id (ds_job x) = ''A'' \<and> ds_candidate x = codex_terra \<and> job_id (wd_job w) = ''B'' \<and> wd_reason w = ''CONCURRENCY'')"
| "one_then_wait _ = False"

fun_cases one_then_waitE: "one_then_wait ds"

lemma sample_batch_value: "case sample_batch of Inl _ \<Rightarrow> False | Inr ds \<Rightarrow> one_then_wait ds"
  unfolding sample_batch_def by code_simp

lemma sample_batch_shape:
  obtains x w where "sample_batch = Inr [Dispatch x, Wait w]" "ds_candidate x = codex_terra"
  using sample_batch_value by (auto split: sum.splits elim!: one_then_waitE)

theorem schedule_decides_every_job_witness:
  "\<exists>ds. sample_batch = Inr ds \<and> (\<exists>probes decs. ds = map Probe probes @ decs \<and>
     map decision_job decs = map Some (sort_key job_sort_key sample_queue))"
proof -
  obtain x w where s: "sample_batch = Inr [Dispatch x, Wait w]" by (rule sample_batch_shape)
  show ?thesis using s schedule_decides_every_job [OF s [unfolded sample_batch_def]] by blast
qed

theorem schedule_respects_ceilings_witness:
  "\<exists>ds. sample_batch = Inr ds \<and> length (filter is_dispatch ds) = 1 \<and>
     pool_count [(''codex'', 1)] ''codex'' + int (length (filter (draws_pool ''codex'') ds)) \<le> 2"
proof -
  obtain x w where s: "sample_batch = Inr [Dispatch x, Wait w]" by (rule sample_batch_shape)
  have l: "pool_limit (sa_policy sample_schedule) ''codex'' = Some 2" by code_simp
  note c = schedule_respects_ceilings [OF s [unfolded sample_batch_def]]
  then have "pool_count [(''codex'', 1)] ''codex'' + int (length (filter (draws_pool ''codex'') [Dispatch x, Wait w])) \<le> 2"
    using l by (cases "filter (draws_pool ''codex'') [Dispatch x, Wait w] = []") (auto simp: pool_count_def)
  then show ?thesis using s by (intro exI [of _ "[Dispatch x, Wait w]"] conjI) simp_all
qed

theorem dispatches_are_justified_witness:
  "\<exists>x. (\<exists>ds. sample_batch = Inr ds \<and> Dispatch x \<in> set ds) \<and> ds_job x \<in> set sample_queue \<and> ds_candidate x = codex_terra"
proof -
  obtain x w where s: "sample_batch = Inr [Dispatch x, Wait w]" "ds_candidate x = codex_terra" by (rule sample_batch_shape)
  have "Dispatch x \<in> set [Dispatch x, Wait w]" by simp
  note d = dispatches_are_justified [OF s(1) [unfolded sample_batch_def] this]
  then show ?thesis using s by (intro exI [of _ x]) (auto intro: exI [of _ "[Dispatch x, Wait w]"])
qed

end
