(* ===== verification/Lease.thy ===== *)
theory Lease
  imports Owner_DB
begin

text \<open>
  The single-instance scheduler lease of \<open>saberops/capacity/loop.py\<close>: acquire, renew, release and
  the two checks, on the table \<open>capacity_scheduler_lease\<close> (primary key: the lease's name).  Each
  operation is one \<open>BEGIN IMMEDIATE\<close> transaction; a database that refuses the lock answers
  \<open>None\<close> or \<open>False\<close> and writes nothing, which \<open>Dispatch_Loop\<close> models where the loop makes the calls.  The
  time to live is in microseconds.  The abstract table of leases at the end is the contract.
\<close>

section \<open>Operations\<close>

record scheduler_lease =
  ls_lease_name :: string
  ls_holder_id :: string
  ls_fencing_token :: int
  ls_acquired_at :: string
  ls_expires_at :: string

definition DEFAULT_LEASE_NAME :: string where "DEFAULT_LEASE_NAME = ''scheduler''"
definition DEFAULT_LEASE_TTL :: int where "DEFAULT_LEASE_TTL = 30000000"

definition lease_of_row :: "lease_row \<Rightarrow> scheduler_lease" where
  "lease_of_row r = \<lparr>ls_lease_name = lr_lease_name r, ls_holder_id = lr_holder_id r,
     ls_fencing_token = lr_fencing_token r, ls_acquired_at = lr_acquired_at r, ls_expires_at = lr_expires_at r\<rparr>"

definition lease_row_of :: "string \<Rightarrow> owner_db \<Rightarrow> lease_row option" where
  \<comment> \<open>\<open>SELECT ... WHERE lease_name = ?\<close>\<close>
  "lease_row_of name db = find (\<lambda>r. lr_lease_name r = name) (od_leases db)"

definition update_leases :: "(lease_row \<Rightarrow> bool) \<Rightarrow> (lease_row \<Rightarrow> lease_row) \<Rightarrow> owner_db \<Rightarrow> owner_db" where
  "update_leases p f db = db\<lparr>od_leases := map (\<lambda>r. if p r then f r else r) (od_leases db)\<rparr>"

definition row_expired :: "lease_row \<Rightarrow> int \<Rightarrow> bool" where
  \<comment> \<open>a row whose end cannot be read counts as expired\<close>
  "row_expired r now = (case parse_iso (Some (lr_expires_at r)) of None \<Rightarrow> True | Some e \<Rightarrow> e \<le> now)"

definition acquire_lease ::
  "string \<Rightarrow> int \<Rightarrow> string \<Rightarrow> int \<Rightarrow> owner_db \<Rightarrow> (py_error + scheduler_lease option) \<times> owner_db" where
  "acquire_lease holder_id ttl name now db0 =
     (let db = ensure_tables db0; holder = py_strip holder_id; until = isoformat (now + ttl) in
      if holder = [] then (Inl (ValueError ''holder_id must be a non-empty string''), db)
      else case lease_row_of name db of
        None \<Rightarrow>
          (let row = \<lparr>lr_lease_name = name, lr_holder_id = holder, lr_acquired_at = isoformat now,
                      lr_expires_at = until, lr_fencing_token = 1\<rparr>
           in (Inr (Some (lease_of_row row)), db\<lparr>od_leases := od_leases db @ [row]\<rparr>))
      | Some row \<Rightarrow>
          if lr_holder_id row = holder then
            (Inr (Some (lease_of_row (row\<lparr>lr_expires_at := until\<rparr>))),
             update_leases (\<lambda>r. lr_lease_name r = name \<and> lr_holder_id r = holder \<and>
                                lr_fencing_token r = lr_fencing_token row)
               (\<lambda>r. r\<lparr>lr_expires_at := until\<rparr>) db)
          else if row_expired row now then
            (let taken = (\<lambda>r. r\<lparr>lr_holder_id := holder, lr_acquired_at := isoformat now, lr_expires_at := until,
                                lr_fencing_token := lr_fencing_token row + 1\<rparr>)
             in (Inr (Some (lease_of_row (taken row))),
                 update_leases (\<lambda>r. lr_lease_name r = name \<and> lr_fencing_token r = lr_fencing_token row) taken db))
          else (Inr None, db))"

definition lease_owns :: "scheduler_lease \<Rightarrow> lease_row \<Rightarrow> bool" where
  \<comment> \<open>the condition of the statements: name, holder and token\<close>
  "lease_owns l r =
     (lr_lease_name r = ls_lease_name l \<and> lr_holder_id r = ls_holder_id l \<and> lr_fencing_token r = ls_fencing_token l)"

definition renew_lease :: "scheduler_lease \<Rightarrow> int \<Rightarrow> int \<Rightarrow> owner_db \<Rightarrow> scheduler_lease option \<times> owner_db" where
  "renew_lease l ttl now db0 =
     (let db = ensure_tables db0; until = isoformat (now + ttl) in
      if list_ex (lease_owns l) (od_leases db)
      then (Some (l\<lparr>ls_expires_at := until\<rparr>), update_leases (lease_owns l) (\<lambda>r. r\<lparr>lr_expires_at := until\<rparr>) db)
      else (None, db))"

definition release_lease :: "scheduler_lease \<Rightarrow> owner_db \<Rightarrow> bool \<times> owner_db" where
  "release_lease l db0 =
     (let db = ensure_tables db0 in
      (list_ex (lease_owns l) (od_leases db),
       db\<lparr>od_leases := filter (\<lambda>r. \<not> lease_owns l r) (od_leases db)\<rparr>))"

definition lease_still_valid :: "scheduler_lease \<Rightarrow> int \<Rightarrow> owner_db \<Rightarrow> bool" where
  \<comment> \<open>the check inside an open transaction\<close>
  "lease_still_valid l now db =
     (case lease_row_of (ls_lease_name l) db of
        None \<Rightarrow> False
      | Some r \<Rightarrow> lr_holder_id r = ls_holder_id l \<and> lr_fencing_token r = ls_fencing_token l \<and> \<not> row_expired r now)"

definition check_lease :: "scheduler_lease \<Rightarrow> int \<Rightarrow> owner_db \<Rightarrow> bool \<times> owner_db" where
  "check_lease l now db = (lease_still_valid l now (ensure_tables db), ensure_tables db)"

section \<open>The abstract table of leases\<close>

text \<open>What the lease promises: per name a holder, a fencing token and an end, if any.  An end that
  cannot be read is \<open>None\<close> and never holds.\<close>

type_synonym lease_table = "string \<Rightarrow> (string \<times> int \<times> int option) option"

definition holds_until :: "int option \<Rightarrow> int \<Rightarrow> bool" where
  "holds_until e now = (case e of None \<Rightarrow> False | Some t \<Rightarrow> now < t)"

definition spec_acquire :: "string \<Rightarrow> int \<Rightarrow> string \<Rightarrow> int \<Rightarrow> lease_table \<Rightarrow> int option \<times> lease_table" where
  "spec_acquire holder until name now m =
     (case m name of
        None \<Rightarrow> (Some 1, m(name \<mapsto> (holder, 1, Some until)))
      | Some (h, k, e) \<Rightarrow>
          if h = holder then (Some k, m(name \<mapsto> (h, k, Some until)))
          else if holds_until e now then (None, m)
          else (Some (k + 1), m(name \<mapsto> (holder, k + 1, Some until))))"

definition spec_owns :: "scheduler_lease \<Rightarrow> lease_table \<Rightarrow> bool" where
  "spec_owns l m = (case m (ls_lease_name l) of None \<Rightarrow> False
     | Some (h, k, e) \<Rightarrow> h = ls_holder_id l \<and> k = ls_fencing_token l)"

definition spec_renew :: "scheduler_lease \<Rightarrow> int \<Rightarrow> lease_table \<Rightarrow> bool \<times> lease_table" where
  "spec_renew l until m =
     (if spec_owns l m then (True, m(ls_lease_name l \<mapsto> (ls_holder_id l, ls_fencing_token l, Some until))) else (False, m))"

definition spec_release :: "scheduler_lease \<Rightarrow> lease_table \<Rightarrow> bool \<times> lease_table" where
  "spec_release l m = (if spec_owns l m then (True, m(ls_lease_name l := None)) else (False, m))"

definition spec_check :: "scheduler_lease \<Rightarrow> int \<Rightarrow> lease_table \<Rightarrow> bool" where
  "spec_check l now m = (case m (ls_lease_name l) of None \<Rightarrow> False
     | Some (h, k, e) \<Rightarrow> h = ls_holder_id l \<and> k = ls_fencing_token l \<and> holds_until e now)"

definition row_entry :: "lease_row \<Rightarrow> string \<times> int \<times> int option" where
  "row_entry r = (lr_holder_id r, lr_fencing_token r, parse_iso (Some (lr_expires_at r)))"

definition lease_abs :: "owner_db \<Rightarrow> lease_table" where
  "lease_abs db name = map_option row_entry (lease_row_of name db)"

definition lease_inv :: "owner_db \<Rightarrow> bool" where
  \<comment> \<open>the primary key\<close>
  "lease_inv db = distinct (map lr_lease_name (od_leases db))"

section \<open>Rows under the primary key\<close>

lemma lease_row_of_ensure [simp]: "lease_row_of name (ensure_tables db) = lease_row_of name db"
  by (simp add: lease_row_of_def)

lemma lease_abs_ensure [simp]: "lease_abs (ensure_tables db) = lease_abs db"
  by (simp add: lease_abs_def fun_eq_iff)

lemma lease_inv_ensure [simp]: "lease_inv (ensure_tables db) = lease_inv db"
  by (simp add: lease_inv_def)

lemma find_update_key:
  assumes "distinct (map key rows)" "\<And>r. key (f r) = key r" "find (\<lambda>r. key r = k) rows = Some row"
    "\<And>r. r \<in> set rows \<Longrightarrow> p r \<longleftrightarrow> key r = k \<and> q r" "q row"
  shows "find (\<lambda>r. key r = n) (map (\<lambda>r. if p r then f r else r) rows) =
    (if n = k then Some (f row) else find (\<lambda>r. key r = n) rows)"
  using assms(1,3,4)
proof (induction rows)
  case (Cons a rows)
  have rest: "p r \<longleftrightarrow> key r = k \<and> q r" if "r \<in> set rows" for r using Cons.prems(3) that by simp
  show ?case
  proof (cases "key a = k")
    case True
    then have a: "a = row" "p a" using Cons.prems(2,3) assms(5) by auto
    have "find (\<lambda>r. key r = n) (map (\<lambda>r. if p r then f r else r) rows) = find (\<lambda>r. key r = n) rows"
    proof -
      have "\<not> p r" if "r \<in> set rows" for r using rest that True Cons.prems(1) by (auto simp: image_iff)
      then have "map (\<lambda>r. if p r then f r else r) rows = rows" by (simp add: map_idI)
      then show ?thesis by simp
    qed
    then show ?thesis using True a assms(2) by simp
  next
    case False
    then have "find (\<lambda>r. key r = k) rows = Some row" "\<not> p a" using Cons.prems(2,3) by auto
    then show ?thesis using False Cons.IH Cons.prems(1) rest by (cases "n = k") auto
  qed
qed simp

lemma lease_row_update:
  assumes "lease_inv db" "lease_row_of k db = Some row" "\<And>r. lr_lease_name (f r) = lr_lease_name r"
    "\<And>r. p r \<longleftrightarrow> lr_lease_name r = k \<and> q r" "q row"
  shows "lease_row_of n (update_leases p f db) = (if n = k then Some (f row) else lease_row_of n db)"
  using find_update_key [of lr_lease_name "od_leases db" f k row p q n] assms
  by (simp add: lease_row_of_def update_leases_def lease_inv_def)

lemma lease_row_name: "lease_row_of k db = Some row \<Longrightarrow> lr_lease_name row = k"
  by (auto simp: lease_row_of_def find_Some_iff)

lemma lease_owner_row:
  assumes "lease_inv db"
  shows "list_ex (lease_owns l) (od_leases db) \<longleftrightarrow>
    (\<exists>r. lease_row_of (ls_lease_name l) db = Some r \<and> lr_holder_id r = ls_holder_id l \<and> lr_fencing_token r = ls_fencing_token l)"
proof
  assume "list_ex (lease_owns l) (od_leases db)"
  then obtain r where r: "r \<in> set (od_leases db)" "lease_owns l r" by (auto simp: list_ex_iff)
  then have "find (\<lambda>r. lr_lease_name r = ls_lease_name l) (od_leases db) \<noteq> None"
    by (auto simp: find_None_all lease_owns_def)
  then obtain s where s: "lease_row_of (ls_lease_name l) db = Some s" by (auto simp: lease_row_of_def)
  then have "s \<in> set (od_leases db)" "lr_lease_name s = lr_lease_name r"
    using r(2) by (auto simp: lease_row_of_def lease_owns_def dest: find_Some_in)
  then have "s = r" using assms r(1) by (auto simp: lease_inv_def distinct_map dest: inj_onD)
  then show "\<exists>r. lease_row_of (ls_lease_name l) db = Some r \<and> lr_holder_id r = ls_holder_id l \<and> lr_fencing_token r = ls_fencing_token l"
    using s r(2) by (auto simp: lease_owns_def)
next
  assume "\<exists>r. lease_row_of (ls_lease_name l) db = Some r \<and> lr_holder_id r = ls_holder_id l \<and> lr_fencing_token r = ls_fencing_token l"
  then show "list_ex (lease_owns l) (od_leases db)"
    by (auto simp: list_ex_iff lease_row_of_def lease_owns_def dest: find_Some_in)
qed

lemma update_leases_inv: "(\<And>r. lr_lease_name (f r) = lr_lease_name r) \<Longrightarrow> lease_inv db \<Longrightarrow> lease_inv (update_leases p f db)"
proof -
  assume n: "\<And>r. lr_lease_name (f r) = lr_lease_name r" and i: "lease_inv db"
  have "map lr_lease_name (map (\<lambda>r. if p r then f r else r) rows) = map lr_lease_name rows" for rows
    by (simp add: n)
  then show ?thesis using i unfolding lease_inv_def update_leases_def by (metis owner_db.select_convs(8) owner_db.surjective owner_db.update_convs(8))
qed

lemma lease_insert:
  assumes "lease_row_of k db = None" "lr_lease_name row = k"
  shows "lease_row_of n (db\<lparr>od_leases := od_leases db @ [row]\<rparr>) = (if n = k then Some row else lease_row_of n db)"
    "lease_inv db \<Longrightarrow> lease_inv (db\<lparr>od_leases := od_leases db @ [row]\<rparr>)"
proof -
  have f: "find P (xs @ [x]) = (case find P xs of None \<Rightarrow> if P x then Some x else None | Some y \<Rightarrow> Some y)"
    for P and x :: lease_row and xs by (induction xs) auto
  show "lease_row_of n (db\<lparr>od_leases := od_leases db @ [row]\<rparr>) = (if n = k then Some row else lease_row_of n db)"
    using assms by (auto simp: lease_row_of_def f split: option.splits)
  show "lease_inv db \<Longrightarrow> lease_inv (db\<lparr>od_leases := od_leases db @ [row]\<rparr>)"
    using assms by (auto simp: lease_inv_def lease_row_of_def find_None_all)
qed

lemma release_row:
  "lease_inv db \<Longrightarrow> lease_row_of n (db\<lparr>od_leases := filter (\<lambda>r. \<not> lease_owns l r) (od_leases db)\<rparr>) =
     (case lease_row_of n db of None \<Rightarrow> None | Some r \<Rightarrow> if lease_owns l r then None else Some r)"
  "lease_inv db \<Longrightarrow> lease_inv (db\<lparr>od_leases := filter (\<lambda>r. \<not> lease_owns l r) (od_leases db)\<rparr>)"
proof -
  assume i: "lease_inv db"
  show "lease_inv (db\<lparr>od_leases := filter (\<lambda>r. \<not> lease_owns l r) (od_leases db)\<rparr>)"
    using i by (simp add: lease_inv_def distinct_map_filter)
  have "distinct (map lr_lease_name rows) \<Longrightarrow>
    find (\<lambda>r. lr_lease_name r = n) (filter (\<lambda>r. \<not> lease_owns l r) rows) =
     (case find (\<lambda>r. lr_lease_name r = n) rows of None \<Rightarrow> None | Some r \<Rightarrow> if lease_owns l r then None else Some r)" for rows
  proof (induction rows)
    case (Cons a rows)
    have "find (\<lambda>r. lr_lease_name r = n) rows = None" if "lr_lease_name a = n"
      using Cons.prems that by (auto simp: find_None_all) (metis imageI)
    then show ?case using Cons by (auto split: option.splits)
  qed simp
  then show "lease_row_of n (db\<lparr>od_leases := filter (\<lambda>r. \<not> lease_owns l r) (od_leases db)\<rparr>) =
     (case lease_row_of n db of None \<Rightarrow> None | Some r \<Rightarrow> if lease_owns l r then None else Some r)"
    using i by (simp add: lease_row_of_def lease_inv_def)
qed

section \<open>Refinement\<close>

lemma acquire_refines:
  assumes "lease_inv db" "0 \<le> now + ttl" "now + ttl < max_instant" "py_strip holder \<noteq> []"
  obtains r db' where "acquire_lease holder ttl name now db = (Inr r, db')"
    "(map_option ls_fencing_token r, lease_abs db') = spec_acquire (py_strip holder) (now + ttl) name now (lease_abs db)"
    "lease_inv db'" "\<And>l. r = Some l \<Longrightarrow> ls_lease_name l = name \<and> ls_holder_id l = py_strip holder"
proof -
  let ?d = "ensure_tables db" and ?h = "py_strip holder" and ?u = "isoformat (now + ttl)"
  have p: "parse_iso (Some ?u) = Some (now + ttl)" by (rule parse_iso_isoformat_aux [OF assms(2,3)])
  have i: "lease_inv ?d" using assms(1) by simp
  show ?thesis
  proof (cases "lease_row_of name db")
    case None
    let ?row = "\<lparr>lr_lease_name = name, lr_holder_id = ?h, lr_acquired_at = isoformat now, lr_expires_at = ?u, lr_fencing_token = 1\<rparr>"
    note ins = lease_insert [of name ?d ?row]
    show ?thesis
      by (rule that [of "Some (lease_of_row ?row)" "?d\<lparr>od_leases := od_leases ?d @ [?row]\<rparr>"])
         (use None assms(1,4) ins p in \<open>auto simp: acquire_lease_def Let_def lease_of_row_def spec_acquire_def
            lease_abs_def row_entry_def fun_eq_iff\<close>)
  next
    case (Some row)
    then have row: "lease_row_of name ?d = Some row" "lr_lease_name row = name" using lease_row_name by auto
    let ?p1 = "\<lambda>r. lr_lease_name r = name \<and> lr_holder_id r = ?h \<and> lr_fencing_token r = lr_fencing_token row"
    let ?f1 = "\<lambda>r. r\<lparr>lr_expires_at := ?u\<rparr>"
    let ?p2 = "\<lambda>r. lr_lease_name r = name \<and> lr_fencing_token r = lr_fencing_token row"
    let ?f2 = "\<lambda>r. r\<lparr>lr_holder_id := ?h, lr_acquired_at := isoformat now, lr_expires_at := ?u,
                     lr_fencing_token := lr_fencing_token row + 1\<rparr>"
    consider (same) "lr_holder_id row = ?h" | (taken) "lr_holder_id row \<noteq> ?h" "row_expired row now"
      | (held) "lr_holder_id row \<noteq> ?h" "\<not> row_expired row now" by blast
    then show ?thesis
    proof cases
      case same
      have u: "lease_row_of n (update_leases ?p1 ?f1 ?d) = (if n = name then Some (?f1 row) else lease_row_of n ?d)" for n
        using same by (intro lease_row_update [OF i row(1), of ?f1 ?p1 "\<lambda>r. lr_holder_id r = ?h \<and> lr_fencing_token r = lr_fencing_token row"]) auto
      show ?thesis
        by (rule that [of "Some (lease_of_row (?f1 row))" "update_leases ?p1 ?f1 ?d"])
           (use same row u p assms(1,4) Some in \<open>auto simp: acquire_lease_def Let_def lease_of_row_def spec_acquire_def
              lease_abs_def row_entry_def fun_eq_iff intro!: update_leases_inv\<close>)
    next
      case taken
      have u: "lease_row_of n (update_leases ?p2 ?f2 ?d) = (if n = name then Some (?f2 row) else lease_row_of n ?d)" for n
        by (intro lease_row_update [OF i row(1), of ?f2 ?p2 "\<lambda>r. lr_fencing_token r = lr_fencing_token row"]) auto
      have e: "\<not> holds_until (parse_iso (Some (lr_expires_at row))) now"
        using taken(2) by (auto simp: row_expired_def holds_until_def split: option.splits)
      show ?thesis
        by (rule that [of "Some (lease_of_row (?f2 row))" "update_leases ?p2 ?f2 ?d"])
           (use taken row u p e assms(1,4) Some in \<open>auto simp: acquire_lease_def Let_def lease_of_row_def spec_acquire_def
              lease_abs_def row_entry_def fun_eq_iff intro!: update_leases_inv\<close>)
    next
      case held
      have e: "holds_until (parse_iso (Some (lr_expires_at row))) now"
        using held(2) by (auto simp: row_expired_def holds_until_def split: option.splits)
      show ?thesis
        by (rule that [of None ?d])
           (use held row e assms(1,4) Some in \<open>auto simp: acquire_lease_def Let_def spec_acquire_def lease_abs_def row_entry_def\<close>)
    qed
  qed
qed

lemma spec_owns_abs: "lease_inv db \<Longrightarrow> spec_owns l (lease_abs db) \<longleftrightarrow> list_ex (lease_owns l) (od_leases db)"
  by (simp add: spec_owns_def lease_abs_def lease_owner_row row_entry_def split: option.split)

lemma renew_refines:
  assumes "lease_inv db" "0 \<le> now + ttl" "now + ttl < max_instant"
  shows "(fst (renew_lease l ttl now db) \<noteq> None, lease_abs (snd (renew_lease l ttl now db))) =
      spec_renew l (now + ttl) (lease_abs db)"
    "lease_inv (snd (renew_lease l ttl now db))"
proof -
  let ?d = "ensure_tables db" and ?u = "isoformat (now + ttl)"
  let ?f = "\<lambda>r. r\<lparr>lr_expires_at := ?u\<rparr>"
  have p: "parse_iso (Some ?u) = Some (now + ttl)" by (rule parse_iso_isoformat_aux [OF assms(2,3)])
  have "lease_inv (update_leases (lease_owns l) ?f ?d)"
    by (rule update_leases_inv) (use assms(1) in simp_all)
  then show "lease_inv (snd (renew_lease l ttl now db))" using assms(1) by (simp add: renew_lease_def Let_def)
  show "(fst (renew_lease l ttl now db) \<noteq> None, lease_abs (snd (renew_lease l ttl now db))) =
      spec_renew l (now + ttl) (lease_abs db)"
  proof (cases "list_ex (lease_owns l) (od_leases db)")
    case True
    then obtain row where row: "lease_row_of (ls_lease_name l) ?d = Some row" "lr_holder_id row = ls_holder_id l"
      "lr_fencing_token row = ls_fencing_token l" using lease_owner_row [OF assms(1)] by auto
    have u: "lease_row_of n (update_leases (lease_owns l) ?f ?d) = (if n = ls_lease_name l then Some (?f row) else lease_row_of n ?d)" for n
      by (rule lease_row_update [of ?d _ _ ?f "lease_owns l"
            "\<lambda>r. lr_holder_id r = ls_holder_id l \<and> lr_fencing_token r = ls_fencing_token l"])
         (use assms(1) row in \<open>auto simp: lease_owns_def\<close>)
    show ?thesis using True u row p
      by (auto simp: renew_lease_def Let_def spec_renew_def spec_owns_abs [OF assms(1)] lease_abs_def row_entry_def fun_eq_iff)
  next
    case False
    then show ?thesis by (simp add: renew_lease_def spec_renew_def spec_owns_abs [OF assms(1)])
  qed
qed

lemma release_refines:
  assumes "lease_inv db"
  shows "(fst (release_lease l db), lease_abs (snd (release_lease l db))) = spec_release l (lease_abs db)"
    "lease_inv (snd (release_lease l db))"
proof -
  let ?d = "ensure_tables db"
  note rel = release_row(1) [of ?d _ l] release_row(2) [of ?d l]
  show "lease_inv (snd (release_lease l db))" using assms rel(2) by (simp add: release_lease_def Let_def)
  have own: "lease_owns l r \<longleftrightarrow> n = ls_lease_name l \<and> lr_holder_id r = ls_holder_id l \<and> lr_fencing_token r = ls_fencing_token l"
    if "lease_row_of n db = Some r" for n r using lease_row_name [OF that] by (auto simp: lease_owns_def)
  have "lease_abs (snd (release_lease l db)) n = snd (spec_release l (lease_abs db)) n" for n
    using assms rel(1) own [of n] own [of "ls_lease_name l"]
    by (auto simp: release_lease_def Let_def spec_release_def spec_owns_def lease_abs_def row_entry_def split: option.splits)
  then show "(fst (release_lease l db), lease_abs (snd (release_lease l db))) = spec_release l (lease_abs db)"
    using spec_owns_abs [OF assms, of l] by (auto simp: release_lease_def Let_def spec_release_def fun_eq_iff)
qed

lemma valid_refines: "lease_still_valid l now db = spec_check l now (lease_abs db)"
  by (auto simp: lease_still_valid_def spec_check_def lease_abs_def row_entry_def row_expired_def holds_until_def
      split: option.splits)

text \<open>C28: The lease table refines its abstract contract.  With one row per name, each of the four
  operations answers and changes the table exactly as the abstract table does: the first
  claim of a name gets token one, its holder keeps it and its token, another holder is
  refused before the end and afterwards takes it with the next token, only the exact holder
  and token renew or release, and a check passes for them alone before the end.\<close>
theorem lease_refines_contract:
  assumes "lease_inv db" "0 \<le> now + ttl" "now + ttl < max_instant"
  shows "(\<forall>holder name. py_strip holder \<noteq> [] \<longrightarrow>
      (case acquire_lease holder ttl name now db of
         (Inl e, _) \<Rightarrow> False
       | (Inr r, db') \<Rightarrow> lease_inv db' \<and> (map_option ls_fencing_token r, lease_abs db') =
           spec_acquire (py_strip holder) (now + ttl) name now (lease_abs db)))
    \<and> (case renew_lease l ttl now db of
         (r, db') \<Rightarrow> lease_inv db' \<and> (r \<noteq> None, lease_abs db') = spec_renew l (now + ttl) (lease_abs db))
    \<and> (case release_lease l db of
         (b, db') \<Rightarrow> lease_inv db' \<and> (b, lease_abs db') = spec_release l (lease_abs db))
    \<and> check_lease l now db = (spec_check l now (lease_abs db), ensure_tables db)"
proof -
  have "case acquire_lease holder ttl name now db of (Inl e, _) \<Rightarrow> False
       | (Inr r, db') \<Rightarrow> lease_inv db' \<and> (map_option ls_fencing_token r, lease_abs db') =
           spec_acquire (py_strip holder) (now + ttl) name now (lease_abs db)"
    if "py_strip holder \<noteq> []" for holder name
    by (rule acquire_refines [OF assms that, of name]) simp
  moreover have "check_lease l now db = (spec_check l now (lease_abs db), ensure_tables db)"
    by (simp add: check_lease_def valid_refines)
  ultimately show ?thesis
    using renew_refines [OF assms, of l] release_refines [OF assms(1), of l] by (simp add: case_prod_beta)
qed

section \<open>Fencing\<close>

inductive claim_step :: "owner_db \<Rightarrow> owner_db \<Rightarrow> bool" where
  claim_acquire: "0 \<le> now + ttl \<Longrightarrow> now + ttl < max_instant \<Longrightarrow>
    claim_step db (snd (acquire_lease holder ttl name now db))"
| claim_renew: "0 \<le> now + ttl \<Longrightarrow> now + ttl < max_instant \<Longrightarrow> claim_step db (snd (renew_lease l ttl now db))"
| claim_check: "claim_step db (snd (check_lease l now db))"

definition token_le :: "lease_table \<Rightarrow> lease_table \<Rightarrow> bool" where
  \<comment> \<open>no claim is lost, tokens do not fall, and the holder changes only with the token\<close>
  "token_le m m' = (\<forall>name h k e. m name = Some (h, k, e) \<longrightarrow>
     (\<exists>h' k' e'. m' name = Some (h', k', e') \<and> k \<le> k' \<and> (k' = k \<longrightarrow> h' = h)))"

lemma token_le_refl: "token_le m m"
  by (simp add: token_le_def)

lemma token_le_trans:
  assumes "token_le m m'" "token_le m' m''"
  shows "token_le m m''"
  unfolding token_le_def
proof (intro allI impI)
  fix name h k e assume "m name = Some (h, k, e)"
  then obtain h' k' e' where a: "m' name = Some (h', k', e')" "k \<le> k'" "k' = k \<longrightarrow> h' = h"
    using assms(1) unfolding token_le_def by blast
  then obtain h'' k'' e'' where "m'' name = Some (h'', k'', e'')" "k' \<le> k''" "k'' = k' \<longrightarrow> h'' = h'"
    using assms(2) unfolding token_le_def by blast
  then show "\<exists>h' k' e'. m'' name = Some (h', k', e') \<and> k \<le> k' \<and> (k' = k \<longrightarrow> h' = h)"
    using a(2,3) by (intro exI [of _ h''] exI [of _ k''] exI [of _ e'']) auto
qed

lemma spec_token_le:
  "token_le m (snd (spec_acquire holder until name now m))" "token_le m (snd (spec_renew l until m))"
  by (auto simp: token_le_def spec_acquire_def spec_renew_def spec_owns_def split: option.splits prod.splits)

lemma acquire_blank: "py_strip holder = [] \<Longrightarrow> snd (acquire_lease holder ttl name now db) = ensure_tables db"
  by (simp add: acquire_lease_def Let_def)

lemma claim_step_table:
  assumes "lease_inv db" "claim_step db db'"
  shows "lease_inv db' \<and> token_le (lease_abs db) (lease_abs db')"
  using assms(2)
proof cases
  case (claim_acquire now ttl holder name)
  show ?thesis
  proof (cases "py_strip holder = []")
    case True
    then show ?thesis using claim_acquire(1) assms(1) by (simp add: acquire_blank token_le_refl)
  next
    case False
    show ?thesis
      by (rule acquire_refines [OF assms(1) claim_acquire(2,3) False, of name])
         (use claim_acquire(1) spec_token_le(1) in \<open>metis snd_conv\<close>)
  qed
next
  case (claim_renew now ttl l)
  then show ?thesis
    using renew_refines [OF assms(1) claim_renew(2,3), of l] spec_token_le(2) by (metis snd_conv)
next
  case (claim_check l now)
  then show ?thesis using assms(1) by (simp add: check_lease_def token_le_refl)
qed

interpretation claims: stepwise claim_step lease_inv
  by unfold_locales (use claim_step_table in blast)

lemma claims_token_le: "claim_step\<^sup>*\<^sup>* db db' \<Longrightarrow> lease_inv db \<Longrightarrow> token_le (lease_abs db) (lease_abs db')"
  by (rule claims.steps_rel [where R = "\<lambda>s t. token_le (lease_abs s) (lease_abs t)"])
     (auto intro: token_le_refl token_le_trans dest: claim_step_table)

lemma spec_check_owns: "spec_check l now m \<Longrightarrow> spec_owns l m"
  by (auto simp: spec_check_def spec_owns_def split: option.splits)

lemma superseded:
  assumes "token_le m m1" "token_le m1 m2" "spec_owns l m" "\<not> spec_owns l m1"
  shows "\<not> spec_owns l m2"
proof -
  obtain e where m: "m (ls_lease_name l) = Some (ls_holder_id l, ls_fencing_token l, e)"
    using assms(3) by (auto simp: spec_owns_def split: option.splits)
  then obtain h1 k1 e1 where m1: "m1 (ls_lease_name l) = Some (h1, k1, e1)" "ls_fencing_token l \<le> k1"
    "k1 = ls_fencing_token l \<longrightarrow> h1 = ls_holder_id l"
    using assms(1) unfolding token_le_def by blast
  then have "ls_fencing_token l < k1" using assms(4) by (auto simp: spec_owns_def)
  moreover obtain h2 k2 e2 where "m2 (ls_lease_name l) = Some (h2, k2, e2)" "k1 \<le> k2"
    using assms(2) m1(1) unfolding token_le_def by blast
  ultimately show ?thesis by (auto simp: spec_owns_def)
qed

text \<open>The lease is exclusive and fenced.  At every reachable table at most one holder and token
  of a name passes the check, at whatever times they look; and once a lease that was in force
  has been taken over, no later sequence of claims, renewals and checks makes it valid again,
  so a scheduler that lost its lease stays locked out however late it looks.\<close>
theorem lease_exclusive_and_fenced:
  assumes "lease_inv db" "claim_step\<^sup>*\<^sup>* db db1" "claim_step\<^sup>*\<^sup>* db1 db2"
  shows "(\<forall>l l' t t'. lease_still_valid l t db2 \<longrightarrow> lease_still_valid l' t' db2 \<longrightarrow> ls_lease_name l = ls_lease_name l' \<longrightarrow>
       ls_holder_id l = ls_holder_id l' \<and> ls_fencing_token l = ls_fencing_token l')
    \<and> (\<forall>l t. list_ex (lease_owns l) (od_leases db) \<longrightarrow> \<not> list_ex (lease_owns l) (od_leases db1) \<longrightarrow>
         \<not> lease_still_valid l t db2)"
proof -
  have i1: "lease_inv db1" by (rule claims.steps_inv [OF assms(2,1)])
  have "\<not> lease_still_valid l t db2"
    if "list_ex (lease_owns l) (od_leases db)" "\<not> list_ex (lease_owns l) (od_leases db1)" for l t
    using superseded [OF claims_token_le [OF assms(2,1)] claims_token_le [OF assms(3) i1]] that spec_check_owns
    unfolding spec_owns_abs [OF assms(1), symmetric] spec_owns_abs [OF i1, symmetric] valid_refines by blast
  moreover have "ls_holder_id l = ls_holder_id l' \<and> ls_fencing_token l = ls_fencing_token l'"
    if "lease_still_valid l t db2" "lease_still_valid l' t' db2" "ls_lease_name l = ls_lease_name l'" for l l' t t'
    using that by (auto simp: lease_still_valid_def split: option.splits)
  ultimately show ?thesis by blast
qed

section \<open>Examples\<close>

abbreviation lease_time :: int where "lease_time \<equiv> 63928087200000000"

definition first_lease :: scheduler_lease where
  "first_lease = \<lparr>ls_lease_name = ''scheduler'', ls_holder_id = ''a'', ls_fencing_token = 1,
     ls_acquired_at = isoformat lease_time, ls_expires_at = isoformat (lease_time + DEFAULT_LEASE_TTL)\<rparr>"

definition leased_db :: owner_db where
  "leased_db = snd (acquire_lease '' a '' DEFAULT_LEASE_TTL DEFAULT_LEASE_NAME lease_time empty_owner_db)"

definition taken_db :: owner_db where
  "taken_db = snd (acquire_lease ''b'' DEFAULT_LEASE_TTL DEFAULT_LEASE_NAME (lease_time + 40000000) leased_db)"

lemma lease_examples:
  "lease_inv leased_db" "fst (acquire_lease '' a '' DEFAULT_LEASE_TTL DEFAULT_LEASE_NAME lease_time empty_owner_db) = Inr (Some first_lease)"
  "lease_still_valid first_lease lease_time leased_db" "list_ex (lease_owns first_lease) (od_leases leased_db)"
  "\<not> list_ex (lease_owns first_lease) (od_leases taken_db)"
  "fst (acquire_lease ''b'' DEFAULT_LEASE_TTL DEFAULT_LEASE_NAME (lease_time + 20000000) leased_db) = Inr None"
  by code_simp+

theorem lease_refines_contract_witness:
  "(True, lease_abs (snd (renew_lease first_lease DEFAULT_LEASE_TTL lease_time leased_db))) =
     spec_renew first_lease (lease_time + DEFAULT_LEASE_TTL) (lease_abs leased_db)"
proof -
  have t: "0 \<le> lease_time + DEFAULT_LEASE_TTL" "lease_time + DEFAULT_LEASE_TTL < max_instant"
    by (simp_all add: DEFAULT_LEASE_TTL_def max_instant_def max_ordinal_def day_us_def)
  have r: "fst (renew_lease first_lease DEFAULT_LEASE_TTL lease_time leased_db) \<noteq> None"
    using lease_examples(4) by (simp add: renew_lease_def Let_def)
  from lease_refines_contract [OF lease_examples(1) t, of first_lease] r show ?thesis
    by (auto simp: case_prod_beta)
qed

theorem lease_exclusive_and_fenced_witness:
  "\<not> lease_still_valid first_lease lease_time taken_db \<and> claim_step\<^sup>*\<^sup>* leased_db taken_db"
proof -
  have "claim_step leased_db taken_db"
    unfolding taken_db_def
    by (rule claim_acquire) (simp_all add: DEFAULT_LEASE_TTL_def max_instant_def max_ordinal_def day_us_def)
  then have s: "claim_step\<^sup>*\<^sup>* leased_db taken_db" by blast
  from lease_exclusive_and_fenced [OF lease_examples(1) s rtranclp.rtrancl_refl]
  show ?thesis using lease_examples(4,5) s by blast
qed

lemma release_restarts_tokens:
  \<comment> \<open>a release deletes the row: the next claim starts at token one again, and a lease that had
     been taken over passes the check once more\<close>
  "case acquire_lease ''b'' DEFAULT_LEASE_TTL DEFAULT_LEASE_NAME (lease_time + 40000000) leased_db of
     (Inr (Some l), db) \<Rightarrow> ls_fencing_token l = 2 \<and> \<not> lease_still_valid first_lease (lease_time + 50000000) db \<and>
       (case acquire_lease ''a'' DEFAULT_LEASE_TTL DEFAULT_LEASE_NAME (lease_time + 50000000) (snd (release_lease l db)) of
          (Inr (Some l'), db') \<Rightarrow> ls_fencing_token l' = 1 \<and> lease_still_valid first_lease (lease_time + 50000000) db'
        | _ \<Rightarrow> False)
   | _ \<Rightarrow> False"
  by code_simp

end
