(* ===== verification/Probes.thy ===== *)
theory Probes
  imports Ledger_Laws
begin

text \<open>
  \<open>saberops/capacity/probes.py\<close>: which pools a harness probes, what one reading does to the owner
  database, and the run of the due probes.  The usage readers start external programs, so a
  reading is a parameter: \<open>pe_read\<close> says for a harness what the attempt to read gave, \<open>pe_installed\<close>
  whether a probe or an executable is there, \<open>pe_in_time\<close> whether the deadline has not passed.  A
  pool's members are the texts a probe can match (\<open>pool_selectors\<close>).  Every operation on the
  database swallows its exceptions, as the code does; row ids and the clock of \<open>set_quota\<close> are
  part of the parameters.  The audit table \<open>quota_observations\<close> is not modelled.
\<close>

named_theorems probe_simps \<open>evaluation of the probe operations\<close>

section \<open>Harnesses and pools\<close>

definition harness_provider :: "(string \<times> string) list" where
  "harness_provider = [(''codex'', ''codex''), (''claude'', ''anthropic''), (''opencode-go'', ''opencode'')]"

definition registered_harnesses :: "string list" where
  "registered_harnesses = [''codex'', ''claude'', ''opencode-go'']"

definition provider_of_harness :: "string \<Rightarrow> string" where
  "provider_of_harness h = (case dict_get harness_provider h of None \<Rightarrow> h | Some p \<Rightarrow> p)"

definition duration_to_window :: "rat option \<Rightarrow> string" where
  "duration_to_window duration =
     (case duration of
        None \<Rightarrow> ''monthly''
      | Some m \<Rightarrow>
          if \<bar>m - 300\<bar> < 1 then ''5h''
          else if \<bar>m - 1440\<bar> < 1 then ''daily''
          else if \<bar>m - 10080\<bar> < 1 then ''weekly''
          else if 40000 \<le> m then ''monthly'' else ''ALL'')"

type_synonym pool_selectors = "(string \<times> string list) list"
  \<comment> \<open>per pool, the member selectors that are texts or carry a route text\<close>

definition policy_selectors :: "pool_policies \<Rightarrow> pool_selectors" where
  \<comment> \<open>the members of a quota pool policy are texts\<close>
  "policy_selectors policies = map (\<lambda>(pid, p). (pid, qp_members p)) policies"

definition member_hit :: "string \<Rightarrow> string \<Rightarrow> bool" where
  "member_hit harness sel =
     (let text = py_lower (py_strip sel); prov = py_lower (provider_of_harness harness) in
      if harness = ''opencode-go'' then
        (let pre = prov @ ''/opencode-go''
         in text = prov \<or> text = pre \<or> text = pre @ ''/*'' \<or> py_startswith text (pre @ ''/''))
      else text = prov \<or> py_startswith text (prov @ ''/''))"

definition pools_for_probe :: "string \<Rightarrow> pool_selectors \<Rightarrow> string list" where
  "pools_for_probe harness pools =
     (let matched = map fst (filter (\<lambda>(pid, sels). list_ex (member_hit harness) sels) pools)
      in if pools = [] \<or> matched = [] then [provider_of_harness harness] else matched)"

definition exclusion_maps_to_harness :: "exclusion_row \<Rightarrow> string \<Rightarrow> pool_selectors \<Rightarrow> bool" where
  "exclusion_maps_to_harness e harness pools =
     (exc_source e = harness \<or> exc_pool_id e \<noteq> [] \<and> exc_pool_id e \<in> set (pools_for_probe harness pools))"

section \<open>Store operations on the owner database\<close>

definition with_exclusions :: "(exclusion_store \<Rightarrow> exclusion_store) \<Rightarrow> owner_db \<Rightarrow> owner_db" where
  "with_exclusions f db = (let d = ensure_tables db in d\<lparr>od_exclusions := f (od_exclusions d)\<rparr>)"

section \<open>One reading\<close>

type_synonym probe_window = "string \<times> rat \<times> int option \<times> string"
  \<comment> \<open>window id, remaining percentage, reset, confidence of the reset\<close>

record probe_ids =
  pi_observation :: "nat \<Rightarrow> nat \<Rightarrow> string"
  pi_exclusion :: "nat \<Rightarrow> nat \<Rightarrow> string"
  pi_quota :: "nat \<Rightarrow> string"

fun each_indexed :: "(nat \<Rightarrow> 'a \<Rightarrow> 's \<Rightarrow> 's) \<Rightarrow> nat \<Rightarrow> 'a list \<Rightarrow> 's \<Rightarrow> 's" where
  \<comment> \<open>a loop with the position of its element\<close>
  "each_indexed f i [] s = s"
| "each_indexed f i (x # xs) s = each_indexed f (Suc i) xs (f i x s)"

definition probe_exclusion :: "string \<Rightarrow> string option \<Rightarrow> string \<Rightarrow> probe_window \<Rightarrow> exclusion_args" where
  "probe_exclusion harness run_id pool w =
     (case w of (window, remaining, reset, confidence) \<Rightarrow>
        \<lparr>ua_pool_id = pool, ua_window_id = window, ua_reason = ''PROBE_ZERO'', ua_until = reset,
         ua_until_confidence = confidence, ua_source = harness, ua_model_scope = None,
         ua_evidence_ref = None, ua_run_id = run_id\<rparr>)"

definition observe_window ::
  "string \<Rightarrow> string option \<Rightarrow> probe_ids \<Rightarrow> int \<Rightarrow> string list \<Rightarrow> nat \<Rightarrow> probe_window \<Rightarrow> owner_db \<Rightarrow> owner_db" where
  \<comment> \<open>the per-window observation of every pool\<close>
  "observe_window harness run_id ids now pools i w db =
     (case w of (window, remaining, reset, confidence) \<Rightarrow>
        each_indexed (\<lambda>j pool db. snd (record_probe_window_observation pool window remaining (map_option isoformat reset)
            harness run_id (pi_observation ids i j) now db)) 0 pools db)"

definition exclude_window ::
  "string \<Rightarrow> string option \<Rightarrow> probe_ids \<Rightarrow> int \<Rightarrow> string list \<Rightarrow> nat \<Rightarrow> probe_window \<Rightarrow> owner_db \<Rightarrow> owner_db" where
  \<comment> \<open>an empty window excludes its pools, a window with remaining usage lifts them\<close>
  "exclude_window harness run_id ids now pools i w db =
     (case w of (window, remaining, reset, confidence) \<Rightarrow>
        if remaining \<le> 0 then
          each_indexed (\<lambda>j pool. with_exclusions (\<lambda>st. snd (upsert_exclusion (probe_exclusion harness run_id pool w)
              (pi_exclusion ids i j) now st))) 0 pools db
        else if window = ''ALL'' then db
        else fold (\<lambda>pool. with_exclusions (\<lambda>st. snd (clear_pool_exclusions pool (Some window) ''PROBE'' now st))) pools db)"

definition window_effect ::
  "string \<Rightarrow> string option \<Rightarrow> probe_ids \<Rightarrow> int \<Rightarrow> string list \<Rightarrow> nat \<Rightarrow> probe_window \<Rightarrow> owner_db \<Rightarrow> owner_db" where
  "window_effect harness run_id ids now pools i w db =
     exclude_window harness run_id ids now pools i w (observe_window harness run_id ids now pools i w db)"

definition least_window :: "probe_window list \<Rightarrow> probe_window option" where
  "least_window ws = min_by (\<lambda>w. fst (snd w)) ws"

definition quota_rows_effect ::
  "string \<Rightarrow> probe_ids \<Rightarrow> int \<Rightarrow> string list \<Rightarrow> probe_window list \<Rightarrow> owner_db \<Rightarrow> owner_db" where
  \<comment> \<open>one quota row per pool with the least remaining percentage; \<open>set_quota\<close> reads its own clock\<close>
  "quota_rows_effect harness ids wall pools ws db =
     (case least_window ws of
        None \<Rightarrow> db
      | Some (window, remaining, reset, confidence) \<Rightarrow>
          each_indexed (\<lambda>j pool db. snd (record_owner_quota (provider_of_harness harness) pool remaining
              (map_option isoformat reset) ''PROBE'' (pi_quota ids j) wall db)) 0 pools db)"

definition lift_all_windows :: "int \<Rightarrow> string list \<Rightarrow> probe_window list \<Rightarrow> owner_db \<Rightarrow> owner_db" where
  "lift_all_windows now pools ws db =
     (if ws \<noteq> [] \<and> list_all (\<lambda>w. 0 < fst (snd w)) ws
      then fold (\<lambda>pool. with_exclusions (\<lambda>st. snd (clear_pool_exclusions pool (Some ''ALL'') ''PROBE'' now st))) pools db
      else db)"

definition handle_probe_result ::
  "string \<Rightarrow> probe_window list \<Rightarrow> string option \<Rightarrow> probe_ids \<Rightarrow> int \<Rightarrow> int \<Rightarrow> pool_selectors \<Rightarrow> owner_db \<Rightarrow> owner_db" where
  "handle_probe_result harness ws run_id ids wall now selectors db =
     (let pools = pools_for_probe harness selectors
      in lift_all_windows now pools ws
           (quota_rows_effect harness ids wall pools ws
             (each_indexed (window_effect harness run_id ids now pools) 0 ws db)))"

section \<open>The due probes\<close>

datatype probe_reading =
    Disabled_under_test
  | No_executable
  | Read_failed
  | Read_windows "probe_window list"

record probe_env =
  pe_installed :: "string \<Rightarrow> bool"
  pe_read :: "string \<Rightarrow> probe_reading"
  pe_in_time :: "string \<Rightarrow> bool"
  pe_ids :: "string \<Rightarrow> probe_ids"
  pe_wall :: int

datatype probe_outcome = Not_due | Rate_limited | Test_disabled | Missing_executable | Ran | Failed_probe

definition due_harness :: "exclusion_row list \<Rightarrow> pool_selectors \<Rightarrow> int \<Rightarrow> string \<Rightarrow> bool" where
  "due_harness active selectors now h =
     list_ex (\<lambda>e. exclusion_state e now = PROBE_DUE \<and> exclusion_maps_to_harness e h selectors) active"

definition hint_due_harness :: "exclusion_row list \<Rightarrow> pool_selectors \<Rightarrow> int \<Rightarrow> string \<Rightarrow> bool" where
  \<comment> \<open>a hint whose end has come is probed at once\<close>
  "hint_due_harness active selectors now h =
     list_ex (\<lambda>e. exclusion_state e now = PROBE_DUE \<and> exclusion_maps_to_harness e h selectors \<and>
       py_upper (or_text (Some (exc_until_confidence e)) []) = ''HINT'' \<and>
       (case parse_iso (exc_until e) of None \<Rightarrow> False | Some u \<Rightarrow> u \<le> now)) active"

definition run_probe ::
  "probe_env \<Rightarrow> pool_selectors \<Rightarrow> int \<Rightarrow> string \<Rightarrow> owner_db \<Rightarrow> probe_outcome \<times> owner_db" where
  \<comment> \<open>the attempt at one harness; only an attempt that was made is recorded\<close>
  "run_probe env selectors now h db =
     (case pe_read env h of
        Disabled_under_test \<Rightarrow> (Test_disabled, db)
      | No_executable \<Rightarrow> (Missing_executable, db)
      | Read_failed \<Rightarrow>
          (Failed_probe, with_exclusions (record_probe_run h False (Some ''PROBE_FAILED'') now) db)
      | Read_windows ws \<Rightarrow>
          (Ran, with_exclusions (record_probe_run h True None now)
             (handle_probe_result h ws None (pe_ids env h) (pe_wall env) now selectors db)))"

fun probe_loop ::
  "probe_env \<Rightarrow> pool_selectors \<Rightarrow> string list \<Rightarrow> (string \<Rightarrow> bool) \<Rightarrow> (string \<Rightarrow> bool) \<Rightarrow> int \<Rightarrow> string list
   \<Rightarrow> owner_db \<Rightarrow> (string \<times> probe_outcome) list \<times> owner_db" where
  "probe_loop env selectors forced due hint now [] db = ([], db)"
| "probe_loop env selectors forced due hint now (h # hs) db =
     (if \<not> pe_in_time env h then ([], db)
      else let (outcome, db1) =
             (if h \<notin> set forced \<and> \<not> due h then (Not_due, db)
              else if h \<notin> set forced \<and> \<not> probe_allowed h now (hint h) (od_exclusions db) then (Rate_limited, db)
              else run_probe env selectors now h db);
             (rest, db2) = probe_loop env selectors forced due hint now hs db1
           in ((h, outcome) # rest, db2))"

definition run_due_probes ::
  "probe_env \<Rightarrow> pool_selectors \<Rightarrow> string list \<Rightarrow> int \<Rightarrow> owner_db \<Rightarrow> (string \<times> probe_outcome) list \<times> owner_db" where
  "run_due_probes env selectors force now db =
     (let (active, db1) = owner_active_exclusions now (ensure_tables db);
          forced = filter (\<lambda>h. h \<noteq> []) (map py_strip force)
      in probe_loop env selectors forced (due_harness active selectors now) (hint_due_harness active selectors now)
           now registered_harnesses db1)"

definition probe_available_for :: "probe_env \<Rightarrow> pool_selectors \<Rightarrow> exclusion_row \<Rightarrow> bool" where
  "probe_available_for env selectors e =
     list_ex (\<lambda>h. exclusion_maps_to_harness e h selectors \<and> pe_installed env h) registered_harnesses"

end
