(* ===== verification/Probe_Laws.thy ===== *)
theory Probe_Laws
  imports Probes
begin

text \<open>
  What a probe of \<open>saberops/capacity/probes.py\<close> may do to the exclusions: an exclusion is lifted
  only by a positive reading of its own window (of every window, for one of all windows), of a
  pool of the probed harness; every change of the database is a sequence of ledger steps.  The
  operations on exclusions reach the owner database through the interface \<open>lifting\<close>.
\<close>

section \<open>Observations leave the exclusions alone\<close>

lemma fold_shares_exclusions: "fold_shares pool window u rs db = Inr db' \<Longrightarrow> od_exclusions db' = od_exclusions db"
  by (induction pool window u rs db rule: fold_shares.induct)
     (auto simp: store_cost_state_def split: sum.splits)

lemma learn_exclusions: "learn_from_probe pool window p r i m n db = Inr db' \<Longrightarrow> od_exclusions db' = od_exclusions db"
  by (auto simp: learn_from_probe_def Let_def dest: fold_shares_exclusions split: option.splits if_splits)

lemma observation_exclusions [simp]:
  "od_exclusions (snd (record_probe_window_observation pool window pct reset h ev i now db)) = od_exclusions db"
  "od_exclusions (snd (record_owner_quota provider pool pct reset source i now db)) = od_exclusions db"
proof -
  show "od_exclusions (snd (record_probe_window_observation pool window pct reset h ev i now db)) = od_exclusions db"
    by (auto simp: record_probe_window_observation_def Let_def dest: learn_exclusions split: sum.splits)
  show "od_exclusions (snd (record_owner_quota provider pool pct reset source i now db)) = od_exclusions db"
    by (auto simp: record_owner_quota_def Let_def dest: learn_exclusions split: sum.splits prod.splits if_splits)
qed

section \<open>Lifting an exclusion\<close>

definition excluded_key :: "exclusion_key \<Rightarrow> owner_db \<Rightarrow> bool" where
  "excluded_key k db = (exclusions_for k (exclusions (od_exclusions db)) \<noteq> [])"

lemma upsert_keeps_keys:
  assumes "exclusion_inv (exclusions st)" "exclusions_for k (exclusions st) \<noteq> []"
  shows "exclusions_for k (exclusions (snd (upsert_exclusion a fresh now st))) \<noteq> []"
proof -
  let ?new = "new_exclusion_row a fresh now (exclusions st)"
  let ?c = "clear_rows (\<lambda>r. exc_id r \<in> set (map exc_id (exclusions_for (exclusion_key_of ?new) (exclusions st))))
              (isoformat now) ''SUPERSEDED'' (exclusions st)"
  have "exclusions_for k (?c @ [?new]) \<noteq> []"
  proof (cases "k = exclusion_key_of ?new")
    case True
    then have "?new \<in> set (exclusions_for k (?c @ [?new]))"
      by (simp only: exclusions_for_in) (simp del: set_filter)
    then show ?thesis by auto
  next
    case False
    then have "exclusions_for k ?c = exclusions_for k (exclusions st)"
      using superseded_cleared [OF assms(1), of k "exclusion_key_of ?new"] by simp
    then show ?thesis using assms(2) by (simp add: exclusions_for_def)
  qed
  then show ?thesis using assms(2) by (auto simp: upsert_exclusion_def Let_def split: option.split)
qed

lemma clear_pool_keys:
  "exclusions_for (p, w, s) (exclusions (snd (clear_pool_exclusions pool (Some win) by now st))) =
     (if p = pool \<and> w = win then [] else exclusions_for (p, w, s) (exclusions st))"
  by (cases "p = pool \<and> w = win")
     (auto simp: clear_pool_exclusions_def Let_def exclusions_for_clear filter_empty_conv filter_id_conv exclusions_for_in
       simp del: set_filter)

text \<open>The interface: an operation on the owner database that is a sequence of ledger steps and lifts
  at most the keys of a given set.\<close>

locale lifting =
  fixes op :: "owner_db \<Rightarrow> owner_db" and may_lift :: "exclusion_key \<Rightarrow> bool"
  assumes op_steps: "ledger_step\<^sup>*\<^sup>* db (op db)"
    and op_lifts: "ledger_inv db \<Longrightarrow> excluded_key k db \<Longrightarrow> \<not> may_lift k \<Longrightarrow> excluded_key k (op db)"
begin

lemma op_inv: "ledger_inv db \<Longrightarrow> ledger_inv (op db)"
  by (rule ledger.steps_inv [OF op_steps])

lemma op_keeps: "ledger_inv db \<Longrightarrow> keeps_reservations db (op db)"
  by (rule ledger_steps_keep [OF op_steps])

end

definition lifts_only :: "(exclusion_key \<Rightarrow> bool) \<Rightarrow> owner_db \<Rightarrow> owner_db \<Rightarrow> bool" where
  "lifts_only P db db' = (ledger_step\<^sup>*\<^sup>* db db' \<and>
     (ledger_inv db \<longrightarrow> (\<forall>k. excluded_key k db \<longrightarrow> \<not> P k \<longrightarrow> excluded_key k db')))"

lemma lifts_only_refl: "lifts_only P db db"
  by (simp add: lifts_only_def)

lemma lifts_only_trans: "lifts_only P db db' \<Longrightarrow> lifts_only P db' db'' \<Longrightarrow> lifts_only P db db''"
  unfolding lifts_only_def using ledger.steps_inv by (meson rtranclp_trans)

lemma each_lifts:
  "(\<And>i x t. x \<in> set xs \<Longrightarrow> lifts_only P t (f i x t)) \<Longrightarrow> lifts_only P s (each_indexed f k xs s)"
proof (induction xs arbitrary: s k)
  case (Cons x xs)
  show ?case by (simp, rule lifts_only_trans [OF Cons.prems Cons.IH]) (use Cons.prems in auto)
qed (simp add: lifts_only_refl)

lemma fold_lifts: "(\<And>x t. x \<in> set xs \<Longrightarrow> lifts_only P t (f x t)) \<Longrightarrow> lifts_only P s (fold f xs s)"
proof (induction xs arbitrary: s)
  case (Cons x xs)
  show ?case by (simp, rule lifts_only_trans [OF Cons.prems Cons.IH]) (use Cons.prems in auto)
qed (simp add: lifts_only_refl)

lemma lifts_only_mono: "lifts_only P db db' \<Longrightarrow> (\<And>k. P k \<Longrightarrow> Q k) \<Longrightarrow> lifts_only Q db db'"
  unfolding lifts_only_def by blast

lemma lifts_onlyD: "lifts_only P db db' \<Longrightarrow> ledger_inv db \<Longrightarrow> excluded_key k db \<Longrightarrow> \<not> excluded_key k db' \<Longrightarrow> P k"
  unfolding lifts_only_def by blast

lemma lifts_step: "ledger_step db db' \<Longrightarrow> od_exclusions db' = od_exclusions db \<Longrightarrow> lifts_only P db db'"
  by (auto simp: lifts_only_def excluded_key_def)

lemma with_exclusions_steps:
  assumes "exclusion_step (od_exclusions db) (f (od_exclusions db))"
  shows "ledger_step\<^sup>*\<^sup>* db (with_exclusions f db)"
proof -
  have "ledger_step (ensure_tables db) ((ensure_tables db)\<lparr>od_exclusions := f (od_exclusions db)\<rparr>)"
    by (rule ls_exclusion) (use assms in simp)
  then show ?thesis using ls_tables [of db] by (simp add: with_exclusions_def Let_def)
qed

lemma with_exclusions_lifts:
  assumes "\<And>st. exclusion_step st (f st)"
    "\<And>st k. exclusion_inv (exclusions st) \<Longrightarrow> exclusions_for k (exclusions st) \<noteq> [] \<Longrightarrow> \<not> P k \<Longrightarrow>
      exclusions_for k (exclusions (f st)) \<noteq> []"
  shows "lifts_only P db (with_exclusions f db)"
proof -
  have "excluded_key k (with_exclusions f db)" if "ledger_inv db" "excluded_key k db" "\<not> P k" for k
    using that assms(2) by (simp add: excluded_key_def with_exclusions_def Let_def ledger_inv_def)
  then show ?thesis using with_exclusions_steps [of db f] assms(1) by (auto simp: lifts_only_def)
qed

section \<open>A reading lifts its own windows\<close>

definition probe_may_lift :: "string list \<Rightarrow> probe_window list \<Rightarrow> exclusion_key \<Rightarrow> bool" where
  "probe_may_lift pools ws k =
     (case k of (p, w, s) \<Rightarrow> p \<in> set pools \<and>
        (if w = ''ALL'' then ws \<noteq> [] \<and> list_all (\<lambda>x. 0 < fst (snd x)) ws
         else list_ex (\<lambda>x. fst x = w \<and> 0 < fst (snd x)) ws))"

lemma upsert_lifts: "lifts_only P db (with_exclusions (\<lambda>st. snd (upsert_exclusion a fresh now st)) db)"
  by (rule with_exclusions_lifts) (use step_upsert upsert_keeps_keys in auto)

lemma clear_lifts:
  assumes "\<And>s. P (pool, win, s)"
  shows "lifts_only P db (with_exclusions (\<lambda>st. snd (clear_pool_exclusions pool (Some win) by now st)) db)"
proof (rule with_exclusions_lifts)
  fix st :: exclusion_store and k :: exclusion_key
  assume "exclusions_for k (exclusions st) \<noteq> []" "\<not> P k"
  then show "exclusions_for k (exclusions (snd (clear_pool_exclusions pool (Some win) by now st))) \<noteq> []"
    using assms by (cases k) (auto simp: clear_pool_keys)
qed (rule step_clear_pool)

lemma record_run_lifts: "lifts_only P db (with_exclusions (record_probe_run h ok err now) db)"
proof (rule with_exclusions_lifts)
  fix st show "exclusion_step st (record_probe_run h ok err now st)" by (rule step_probe)
qed (simp add: record_probe_run_def Let_def)

lemma observe_lifts: "lifts_only P db (observe_window h run ids now pools i w db)"
proof -
  obtain win r z c where w: "w = (win, r, z, c)" by (cases w) auto
  show ?thesis unfolding w observe_window_def prod.case
    by (rule each_lifts, rule lifts_step) (simp_all add: ls_probe)
qed

lemma quota_rows_lifts: "lifts_only P db (quota_rows_effect h ids wall pools ws db)"
proof (cases "least_window ws")
  case (Some w)
  obtain win r z c where w: "w = (win, r, z, c)" by (cases w) auto
  show ?thesis unfolding quota_rows_effect_def Some w option.case prod.case
    by (rule each_lifts, rule lifts_step) (simp_all add: ls_record)
qed (simp add: quota_rows_effect_def lifts_only_refl)

lemma exclude_lifts:
  assumes "w \<in> set ws"
  shows "lifts_only (probe_may_lift pools ws) db (exclude_window h run ids now pools i w db)"
proof -
  obtain win r z c where w: "w = (win, r, z, c)" by (cases w) auto
  have lift: "probe_may_lift pools ws (pool, win, s)" if "pool \<in> set pools" "\<not> r \<le> 0" "win \<noteq> ''ALL''" for pool s
    using that assms w by (force simp: probe_may_lift_def list_ex_iff)
  have up: "lifts_only (probe_may_lift pools ws) db (each_indexed (\<lambda>j pool. with_exclusions
        (\<lambda>st. snd (upsert_exclusion (probe_exclusion h run pool w) (pi_exclusion ids i j) now st))) 0 pools db)"
    by (rule each_lifts) (rule upsert_lifts)
  have down: "lifts_only (probe_may_lift pools ws) db
        (fold (\<lambda>pool. with_exclusions (\<lambda>st. snd (clear_pool_exclusions pool (Some win) ''PROBE'' now st))) pools db)"
    if "\<not> r \<le> 0" "win \<noteq> ''ALL''"
    by (rule fold_lifts, rule clear_lifts, rule lift) (use that in auto)
  show ?thesis
    using up down lifts_only_refl [of _ db] unfolding exclude_window_def by (simp add: w)
qed

lemma handle_lifts:
  "lifts_only (probe_may_lift (pools_for_probe h selectors) ws) db (handle_probe_result h ws run ids wall now selectors db)"
proof -
  let ?pools = "pools_for_probe h selectors"
  let ?P = "probe_may_lift ?pools ws"
  have windows: "lifts_only ?P db (each_indexed (window_effect h run ids now ?pools) 0 ws db)"
    unfolding window_effect_def
    by (rule each_lifts, rule lifts_only_trans [OF observe_lifts exclude_lifts])
  have all: "lifts_only ?P d (lift_all_windows now ?pools ws d)" for d
  proof (cases "ws \<noteq> [] \<and> list_all (\<lambda>w. 0 < fst (snd w)) ws")
    case True
    then have "lifts_only ?P d (fold (\<lambda>pool. with_exclusions
        (\<lambda>st. snd (clear_pool_exclusions pool (Some ''ALL'') ''PROBE'' now st))) ?pools d)"
      by (intro fold_lifts clear_lifts) (simp add: probe_may_lift_def)
    then show ?thesis using True by (simp add: lift_all_windows_def)
  qed (auto simp: lift_all_windows_def lifts_only_refl)
  show ?thesis
    unfolding handle_probe_result_def Let_def
    by (rule lifts_only_trans [OF lifts_only_trans [OF windows quota_rows_lifts] all])
qed

interpretation probe_result: lifting "handle_probe_result h ws run ids wall now selectors"
  "probe_may_lift (pools_for_probe h selectors) ws" for h ws run ids wall now selectors
  by unfold_locales (use handle_lifts lifts_only_def in blast)+

definition probed :: "probe_env \<Rightarrow> pool_selectors \<Rightarrow> string list \<Rightarrow> exclusion_row list \<Rightarrow> int \<Rightarrow> exclusion_key \<Rightarrow> bool" where
  \<comment> \<open>a registered harness, forced or due, was read and its reading may lift the key\<close>
  "probed env selectors force active now k =
     (\<exists>h ws. h \<in> set registered_harnesses \<and> (h \<in> set (map py_strip force) \<or> due_harness active selectors now h) \<and>
        pe_read env h = Read_windows ws \<and> probe_may_lift (pools_for_probe h selectors) ws k)"

lemma probe_loop_lifts:
  assumes "set hs \<subseteq> set registered_harnesses"
  shows "lifts_only (probed env selectors force active now) db
    (snd (probe_loop env selectors (filter (\<lambda>h. h \<noteq> []) (map py_strip force)) (due_harness active selectors now) hint now hs db))"
  using assms
proof (induction hs arbitrary: db)
  case (Cons h hs)
  let ?P = "probed env selectors force active now"
  let ?forced = "filter (\<lambda>h. h \<noteq> []) (map py_strip force)"
  have run: "lifts_only ?P db (snd (run_probe env selectors now h db))"
    if "h \<in> set ?forced \<or> due_harness active selectors now h"
  proof (cases "pe_read env h")
    case (Read_windows ws)
    have "lifts_only ?P db (handle_probe_result h ws None (pe_ids env h) (pe_wall env) now selectors db)"
      by (rule lifts_only_mono [OF handle_lifts]) (use Cons.prems that Read_windows in \<open>auto simp: probed_def\<close>)
    from lifts_only_trans [OF this record_run_lifts] show ?thesis using Read_windows by (simp add: run_probe_def)
  qed (simp_all add: run_probe_def lifts_only_refl record_run_lifts)
  have step: "lifts_only ?P db (snd (if h \<notin> set ?forced \<and> \<not> due_harness active selectors now h then (Not_due, db)
              else if h \<notin> set ?forced \<and> \<not> probe_allowed h now (hint h) (od_exclusions db) then (Rate_limited, db)
              else run_probe env selectors now h db))"
    using run lifts_only_refl by auto
  show ?case
  proof (cases "pe_in_time env h")
    case True
    then show ?thesis
      using lifts_only_trans [OF step Cons.IH] Cons.prems by (simp add: case_prod_beta)
  qed (simp add: lifts_only_refl)
qed (simp add: lifts_only_refl)

lemma clear_expired_keeps:
  assumes "exclusion_inv (exclusions st)" "r \<in> set (exclusions_for k (exclusions st))" "is_excluding r now"
  shows "r \<in> set (exclusions_for k (exclusions (snd (list_active_exclusions ro now st))))"
proof -
  have r: "r \<in> set (exclusions st)" using assms(2) exclusions_for_in by blast
  have "exclusion_state r now \<noteq> EXPIRED" using assms(3) by (auto simp: is_excluding_def)
  then have "exc_id r \<notin> exc_id ` {s \<in> set (exclusions st). exc_cleared_at s = None \<and> exclusion_state s now = EXPIRED}"
    using exc_id_inj [OF assms(1) r] by auto
  then show ?thesis
    using assms(2) by (auto simp: list_active_exclusions_def Let_def exclusions_for_clear)
qed

lemma owner_active_keeps:
  assumes "ledger_inv db" "r \<in> set (exclusions_for k (exclusions (od_exclusions db)))" "is_excluding r now"
  shows "r \<in> set (exclusions_for k (exclusions (od_exclusions (snd (owner_active_exclusions now db)))))"
  using assms clear_expired_keeps [of "od_exclusions db" r k now]
  by (auto simp: owner_active_exclusions_def Let_def ledger_inv_def split: prod.split) (metis snd_conv)+

lemma owner_active_inv: "ledger_inv db \<Longrightarrow> ledger_inv (snd (owner_active_exclusions now db))"
proof -
  assume inv: "ledger_inv db"
  have "exclusion_inv (exclusions (od_exclusions (snd (owner_active_exclusions now db))))"
    using inv exclusion_step_inv [OF step_list]
    by (auto simp: owner_active_exclusions_def Let_def ledger_inv_def split: prod.split) (metis snd_conv)+
  then show ?thesis using inv by (simp add: ledger_inv_def)
qed

text \<open>A probe run lifts only what it read.  If an exclusion that denied before the run is gone
  after it, then a registered harness that was forced or due was read, the exclusion's pool is
  one this harness probes, and the reading shows remaining usage in the exclusion's own
  window, or in every window it read when the exclusion covers all windows; a failed,
  missing, rate-limited or undue probe lifts nothing.\<close>
theorem probes_lift_only_what_they_read:
  assumes "ledger_inv db" "r \<in> set (exclusions_for k (exclusions (od_exclusions db)))" "is_excluding r now"
    "exclusions_for k (exclusions (od_exclusions (snd (run_due_probes env selectors force now db)))) = []"
  shows "\<exists>h ws. h \<in> set registered_harnesses \<and>
      (h \<in> set (map py_strip force) \<or> due_harness (fst (owner_active_exclusions now (ensure_tables db))) selectors now h) \<and>
      pe_read env h = Read_windows ws \<and> fst k \<in> set (pools_for_probe h selectors) \<and>
      (if fst (snd k) = ''ALL'' then ws \<noteq> [] \<and> (\<forall>(w, left, x) \<in> set ws. 0 < left)
       else (\<exists>left x. (fst (snd k), left, x) \<in> set ws \<and> 0 < left))"
proof -
  obtain active db1 where a: "owner_active_exclusions now (ensure_tables db) = (active, db1)"
    by (cases "owner_active_exclusions now (ensure_tables db)") auto
  have inv: "ledger_inv (ensure_tables db)" using assms(1) by simp
  have "r \<in> set (exclusions_for k (exclusions (od_exclusions db1)))" "ledger_inv db1"
    using owner_active_keeps [OF inv _ assms(3), of k] owner_active_inv [OF inv, of now] assms(2) a by auto
  then have "excluded_key k db1" "ledger_inv db1" by (auto simp: excluded_key_def)
  moreover have "\<not> excluded_key k (snd (run_due_probes env selectors force now db))"
    using assms(4) by (simp add: excluded_key_def)
  ultimately have "probed env selectors force active now k"
    using lifts_onlyD [OF probe_loop_lifts [OF subset_refl, of env selectors force active now db1
          "hint_due_harness active selectors now"]]
    by (simp add: run_due_probes_def a)
  then obtain h ws where h: "h \<in> set registered_harnesses" "h \<in> set (map py_strip force) \<or> due_harness active selectors now h"
    "pe_read env h = Read_windows ws" "probe_may_lift (pools_for_probe h selectors) ws k"
    by (auto simp: probed_def)
  have "(if fst (snd k) = ''ALL'' then ws \<noteq> [] \<and> (\<forall>(w, left, x) \<in> set ws. 0 < left)
       else (\<exists>left x. (fst (snd k), left, x) \<in> set ws \<and> 0 < left))" "fst k \<in> set (pools_for_probe h selectors)"
    using h(4) by (cases k; force simp: probe_may_lift_def list_all_iff list_ex_iff split: if_splits)+
  then show ?thesis using h(1-3) unfolding a fst_conv by blast
qed

section \<open>The scheduler's forced probes\<close>

definition plan_selectors :: "(string \<times> pool_plan) list \<Rightarrow> pool_selectors" where
  \<comment> \<open>the members of a pool plan are objects that are neither texts nor dictionaries\<close>
  "plan_selectors plans = map (\<lambda>(pid, p). (pid, [])) plans"

lemma plan_objects_match_nothing: "pools_for_probe h (plan_selectors plans) = [provider_of_harness h]"
proof -
  have "filter (\<lambda>(pid, sels). list_ex (member_hit h) sels) (plan_selectors plans) = []"
    by (auto simp: plan_selectors_def filter_empty_conv)
  then show ?thesis by (simp add: pools_for_probe_def)
qed

section \<open>Examples\<close>

definition sample_ids :: probe_ids where
  "sample_ids = \<lparr>pi_observation = (\<lambda>i j. ''obs''), pi_exclusion = (\<lambda>i j. ''exc''), pi_quota = (\<lambda>j. ''q'')\<rparr>"

definition sample_probe_env :: probe_env where
  "sample_probe_env = \<lparr>pe_installed = (\<lambda>h. h = ''codex''),
     pe_read = (\<lambda>h. if h = ''codex'' then Read_windows [(''5h'', 80, None, ''EXACT'')] else No_executable),
     pe_in_time = (\<lambda>h. True), pe_ids = (\<lambda>h. sample_ids), pe_wall = 63928087320000000\<rparr>"

definition hinted_exclusion :: exclusion_row where
  "hinted_exclusion = sample_exclusion\<lparr>exc_until_confidence := ''HINT''\<rparr>"

definition excluded_db :: owner_db where
  "excluded_db = empty_owner_db\<lparr>od_exclusions := \<lparr>exclusions = [hinted_exclusion], probe_runs = []\<rparr>\<rparr>"

lemma excluded_db_facts:
  "hinted_exclusion \<in> set (exclusions_for (''codex'', ''5h'', None) (exclusions (od_exclusions excluded_db)))"
  "is_excluding hinted_exclusion 63928087320000000"
  by code_simp+

lemma sample_probe_run:
  "exclusions_for (''codex'', ''5h'', None)
     (exclusions (od_exclusions (snd (run_due_probes sample_probe_env [] [] 63928087320000000 excluded_db)))) = []"
proof -
  let ?now = "63928087320000000 :: int" and ?db = "ensure_tables excluded_db"
  have a: "owner_active_exclusions ?now ?db = ([hinted_exclusion], ?db)" by code_simp
  have due: "due_harness [hinted_exclusion] [] ?now ''codex''" "\<not> due_harness [hinted_exclusion] [] ?now ''claude''"
    "\<not> due_harness [hinted_exclusion] [] ?now ''opencode-go''" by code_simp+
  have ok: "probe_allowed ''codex'' ?now (hint_due_harness [hinted_exclusion] [] ?now ''codex'') (od_exclusions excluded_db)"
    "pe_in_time sample_probe_env h" for h by code_simp+
  have "exclusions_for (''codex'', ''5h'', None)
     (exclusions (od_exclusions (snd (run_probe sample_probe_env [] ?now ''codex'' ?db)))) = []" by code_simp
  then show ?thesis
    by (simp add: run_due_probes_def a registered_harnesses_def due ok case_prod_beta)
qed

lemma excluded_db_inv: "ledger_inv excluded_db"
  by (simp add: excluded_db_def empty_owner_db_def ledger_inv_defs cost_model_ok_def exclusion_inv_def)

theorem probes_lift_only_what_they_read_witness:
  "\<exists>h ws. pe_read sample_probe_env h = Read_windows ws \<and> ''codex'' \<in> set (pools_for_probe h [])"
  using probes_lift_only_what_they_read [OF excluded_db_inv excluded_db_facts sample_probe_run] by auto

end
