(* ===== verification/Snapshot.thy ===== *)
theory Snapshot
  imports Probe_Laws
begin

text \<open>
  \<open>saberops/capacity/snapshot.py\<close>: the seam every routing path reads quota through.  It runs the
  due probes, refreshes the stored quota rows, and turns every exclusion that still denies,
  stored or read from an empty legacy row, into a synthesized quota state, except an
  unprobeable due exclusion of a pool whose policy excludes overage.  The pool policies are an
  argument: the caller's, or those the loader gives.
\<close>

section \<open>Legacy rows\<close>

definition legacy_exclusion_from_row :: "quota_state \<Rightarrow> int \<Rightarrow> exclusion_row option" where
  "legacy_exclusion_from_row row now =
     (if qs_remaining_percent row \<noteq> Some 0 then None
      else let (pool_id, window_id) = legacy_pool_and_window (qs_provider row) (qs_pool row) (qs_pool_id row);
               base = \<lparr>exc_id = ''legacy:'' @ qs_provider row @ '':'' @ qs_pool row, exc_pool_id = pool_id,
                       exc_window_id = window_id, exc_model_scope = None, exc_reason = ''LEGACY_ROW'', exc_until = None,
                       exc_until_confidence = ''UNKNOWN'', exc_source = ''legacy-row'', exc_evidence_ref = None,
                       exc_run_id = None, exc_created_at = [], exc_next_probe_at = None, exc_probe_attempts = 0,
                       exc_cleared_at = None, exc_cleared_by = None, exc_legacy = True\<rparr>
           in case parse_iso (qs_reset_at row) of
                Some reset \<Rightarrow>
                  Some (base\<lparr>exc_until := Some (isoformat reset), exc_until_confidence := ''EXACT'',
                             exc_created_at := (if qs_updated_at row = [] then isoformat now else qs_updated_at row)\<rparr>)
              | None \<Rightarrow>
                  (let anchor = (case parse_iso (Some (qs_updated_at row)) of None \<Rightarrow> now | Some t \<Rightarrow> t)
                   in Some (base\<lparr>exc_created_at := isoformat anchor,
                                 exc_next_probe_at := Some (isoformat (backoff_next_probe anchor 0 window_id))\<rparr>)))"

section \<open>The seam\<close>

definition refresh_row :: "int \<Rightarrow> quota_state \<Rightarrow> quota_state" where
  \<comment> \<open>the freshness of a row; a block whose reset has passed comes back as normal and stale\<close>
  "refresh_row now row =
     (let fresh = row\<lparr>qs_freshness := Some (freshness (Some (qs_updated_at row)) (Some (qs_pool row)) None now)\<rparr>
      in case parse_iso (qs_reset_at row) of
           None \<Rightarrow> fresh
         | Some reset \<Rightarrow>
             if (qs_routing_state row = RS_BLOCKED \<or> qs_routing_state row = RS_DEMOTED) \<and> reset \<le> now
             then fresh\<lparr>qs_routing_state := RS_NORMAL, qs_freshness := Some ''STALE''\<rparr> else fresh)"

definition text_or :: "string \<Rightarrow> string \<Rightarrow> string" where
  "text_or s d = (if s = [] then d else s)"

definition exclusion_quota_state :: "int \<Rightarrow> exclusion_row \<Rightarrow> quota_state" where
  "exclusion_quota_state now e =
     \<lparr>qs_provider = text_or (exc_source e) ''exclusion'', qs_pool = text_or (exc_window_id e) ''ALL'',
      qs_remaining_percent = Some 0, qs_reset_at = exc_until e, qs_routing_state = RS_NORMAL,
      qs_updated_at = text_or (exc_created_at e) (isoformat now), qs_pool_id = Some (exc_pool_id e),
      qs_normalized_remaining_pct = Some 0, qs_freshness = Some ''FRESH'', qs_mode = None, qs_red_line_pct = None,
      qs_exclusion_id = Some (exc_id e), qs_exclusion_until = exc_until e,
      qs_exclusion_confidence = Some (text_or (exc_until_confidence e) ''UNKNOWN''),
      qs_exclusion_model_scope = exc_model_scope e\<rparr>"

definition clears_without_probe :: "probe_env \<Rightarrow> pool_policies \<Rightarrow> int \<Rightarrow> exclusion_row \<Rightarrow> bool" where
  \<comment> \<open>due, no harness can probe it, and the pool's known policy says that overage is impossible\<close>
  "clears_without_probe env policies now e =
     (exclusion_state e now = PROBE_DUE \<and> \<not> probe_available_for env (policy_selectors policies) e \<and>
      (case dict_get policies (exc_pool_id e) of None \<Rightarrow> False | Some p \<Rightarrow> \<not> qp_overage_possible p))"

fun surface_exclusions ::
  "probe_env \<Rightarrow> pool_policies \<Rightarrow> int \<Rightarrow> exclusion_row list \<Rightarrow> owner_db \<Rightarrow> quota_state list \<times> owner_db" where
  "surface_exclusions env policies now [] db = ([], db)"
| "surface_exclusions env policies now (e # es) db =
     (if \<not> is_excluding e now then surface_exclusions env policies now es db
      else if clears_without_probe env policies now e then
        surface_exclusions env policies now es
          (if exc_legacy e \<or> exc_id e = [] then db
           else with_exclusions (clear_exclusion (exc_id e) ''EXPIRED_NO_PROBE'' now) db)
      else case surface_exclusions env policies now es db of
             (states, db') \<Rightarrow> (exclusion_quota_state now e # states, db'))"

definition probed_db :: "probe_env \<Rightarrow> pool_policies \<Rightarrow> bool \<Rightarrow> int \<Rightarrow> owner_db \<Rightarrow> owner_db" where
  \<comment> \<open>the first step: the due probes, when asked for\<close>
  "probed_db env policies run_probes now db =
     (if run_probes then snd (run_due_probes env (policy_selectors policies) [] now (ensure_tables db)) else ensure_tables db)"

definition effective_quota_states ::
  "probe_env \<Rightarrow> pool_policies \<Rightarrow> bool \<Rightarrow> int \<Rightarrow> owner_db \<Rightarrow> quota_state list \<times> owner_db" where
  "effective_quota_states env policies run_probes now db =
     (let db1 = probed_db env policies run_probes now db;
          rows = map (refresh_row now) (list_owner_quota db1);
          (active, db2) = owner_active_exclusions now db1;
          legacy = concat (map (\<lambda>r. case legacy_exclusion_from_row r now of None \<Rightarrow> [] | Some e \<Rightarrow> [e]) rows);
          (states, db3) = surface_exclusions env policies now (active @ legacy) db2
      in (rows @ states, db3))"

end
