(* ===== verification/Snapshot_Laws.thy ===== *)
theory Snapshot_Laws
  imports Snapshot Scheduler_Laws
begin

text \<open>
  The composition of the seam of \<open>saberops/capacity/snapshot.py\<close> with the admission that reads its
  states: a stored exclusion reaches the decision, and the seam itself is a sequence of ledger
  steps, so that it keeps the ledger's invariant.
\<close>

section \<open>Every exclusion that denies is surfaced\<close>

lemma surface_covers:
  "e \<in> set es \<Longrightarrow> is_excluding e now \<Longrightarrow> \<not> clears_without_probe env policies now e \<Longrightarrow>
     exclusion_quota_state now e \<in> set (fst (surface_exclusions env policies now es db))"
proof (induction es arbitrary: db)
  case (Cons a es)
  then show ?case by (cases "e = a") (auto simp: case_prod_beta)
qed simp

lemma seam_covers:
  assumes "effective_quota_states env policies rp now db = (states, db')"
    "e \<in> set (fst (owner_active_exclusions now (probed_db env policies rp now db)))"
    "\<not> clears_without_probe env policies now e"
  shows "exclusion_quota_state now e \<in> set states"
proof -
  have "is_excluding e now" by (rule owner_active_excluding [OF assms(2)])
  then show ?thesis
    using assms by (auto simp: effective_quota_states_def Let_def split: prod.splits)
      (metis (no_types, lifting) UnI1 fst_conv set_append surface_covers)
qed

lemma exclusion_state_fields:
  "exc_id e \<noteq> [] \<Longrightarrow> is_exclusion (exclusion_quota_state now e)"
  "exc_pool_id e \<noteq> [] \<Longrightarrow> state_pool (exclusion_quota_state now e) = exc_pool_id e"
  "qs_exclusion_model_scope (exclusion_quota_state now e) = exc_model_scope e"
  by (simp_all add: exclusion_quota_state_def is_exclusion_def state_pool_def)

lemma admitted_no_exclusion:
  assumes "admit tzdb packaged a t c = Inr d" "dec_admitted d" "s \<in> set (aa_quota_states a)" "is_exclusion s"
    "state_pool s \<in> set (dec_drawn_pools d)"
  shows "\<not> model_scope_matches (qs_exclusion_model_scope s) (wc_model c)"
  using admit_admitted(5) [OF assms(1,2)]
proof
  assume "capacity_check a c = Some d"
  then have "d = plain_decision True c (Some ''unconfigured'')" using capacity_check_Some [OF _ assms(2)] by blast
  then show ?thesis using assms(5) by simp
next
  assume q: "capacity_check a c = None \<and> quota_stage tzdb packaged a t c = Inr d"
  then obtain policies where "effective_quota_pools packaged (aa_policy a) (aa_activate_overage a) = Inr policies"
    by (auto simp: quota_stage_def split: sum.splits)
  from q [THEN conjunct2] assms(2) this show ?thesis
  proof (rule quota_stage_admitted)
    fix charges parts
    assume r: "exclusion_check c (drawn_pools a c policies) (aa_quota_states a) = None"
      "d = scored_decision c (drawn_pools a c policies) (admission_draws (aa_policy a) c (drawn_pools a c policies)) (concat parts)"
    have "state_pool s \<in> set (drawn_pools a c policies)" using assms(5) by (simp add: r(2) scored_decision_pools)
    then show ?thesis
      using r(1) assms(3,4) by (auto simp: exclusion_check_def find_None_all admission_exclusion_def)
  qed
qed

section \<open>The seam as ledger steps\<close>

lemma owner_active_steps: "ledger_step\<^sup>*\<^sup>* db (snd (owner_active_exclusions now db))"
proof -
  have e: "ledger_step d (d\<lparr>od_exclusions := snd (list_active_exclusions ro now (od_exclusions d))\<rparr>)" for d ro
    by (rule ls_exclusion, rule step_list)
  define d where "d = (if od_read_only db then db else ensure_tables db)"
  have d: "ledger_step\<^sup>*\<^sup>* db d" using ls_tables by (auto simp: d_def)
  have "snd (owner_active_exclusions now db) = d \<or>
    snd (owner_active_exclusions now db) = d\<lparr>od_exclusions := snd (list_active_exclusions (od_read_only db) now (od_exclusions d))\<rparr>"
    by (auto simp: owner_active_exclusions_def Let_def d_def case_prod_beta)
  then show ?thesis using d rtranclp.rtrancl_into_rtrancl [OF d e] by metis
qed

lemma surface_steps: "ledger_step\<^sup>*\<^sup>* db (snd (surface_exclusions env policies now es db))"
proof (induction es arbitrary: db)
  case (Cons e es)
  have "ledger_step\<^sup>*\<^sup>* db (with_exclusions (clear_exclusion (exc_id e) ''EXPIRED_NO_PROBE'' now) db)"
    by (rule with_exclusions_steps, rule step_clear)
  from rtranclp_trans [OF this Cons.IH] show ?case using Cons.IH [of db] by (simp add: case_prod_beta)
qed simp

lemma probed_db_steps: "ledger_step\<^sup>*\<^sup>* db (probed_db env policies rp now db)"
proof -
  let ?db = "ensure_tables db"
  obtain active db1 where a: "owner_active_exclusions now ?db = (active, db1)"
    by (cases "owner_active_exclusions now ?db") auto
  have "ledger_step\<^sup>*\<^sup>* db ?db" using ls_tables by blast
  moreover have "ledger_step\<^sup>*\<^sup>* ?db db1" using owner_active_steps [of ?db now] a by simp
  moreover have "ledger_step\<^sup>*\<^sup>* db1 (snd (run_due_probes env (policy_selectors policies) [] now ?db))"
    using probe_loop_lifts [OF subset_refl, of env "policy_selectors policies" "[]" active now db1]
    by (simp add: run_due_probes_def a lifts_only_def)
  ultimately show ?thesis by (auto simp: probed_db_def intro: rtranclp_trans)
qed

lemma seam_steps: "ledger_step\<^sup>*\<^sup>* db (snd (effective_quota_states env policies rp now db))"
proof -
  let ?d = "probed_db env policies rp now db"
  have "ledger_step\<^sup>*\<^sup>* ?d (snd (surface_exclusions env policies now es (snd (owner_active_exclusions now ?d))))" for es
    using rtranclp_trans [OF owner_active_steps surface_steps] .
  from rtranclp_trans [OF probed_db_steps this] show ?thesis
    by (simp add: effective_quota_states_def Let_def case_prod_beta)
qed

text \<open>A stored exclusion reaches every admission.  Let the routing seam read the owner database
  and a candidate be admitted over the states it answered.  Then no exclusion that still denied
  when the seam listed them covers the model in a pool the admission draws, unless the seam's
  no-probe rule dropped it: it is due, no registered harness can probe it, and its pool's known
  policy excludes overage.\<close>
theorem exclusions_reach_admission:
  assumes "effective_quota_states env policies run_probes now db = (states, db')"
    and "e \<in> set (fst (owner_active_exclusions now (probed_db env policies run_probes now db)))"
    and "exc_id e \<noteq> []" "exc_pool_id e \<noteq> []"
    and "admit tzdb packaged (a\<lparr>aa_quota_states := states\<rparr>) t c = Inr d" "dec_admitted d"
    and "exc_pool_id e \<in> set (dec_drawn_pools d)" "model_scope_matches (exc_model_scope e) (wc_model c)"
  shows "clears_without_probe env policies now e"
proof (rule ccontr)
  assume "\<not> clears_without_probe env policies now e"
  then have "exclusion_quota_state now e \<in> set states" by (rule seam_covers [OF assms(1,2)])
  then show False
    using admitted_no_exclusion [OF assms(5,6), of "exclusion_quota_state now e"] exclusion_state_fields [where e = e] assms(3,4,7,8)
    by simp
qed

definition no_probe_env :: probe_env where
  "no_probe_env = sample_probe_env\<lparr>pe_installed := (\<lambda>h. False)\<rparr>"

definition codex_pool_policies :: pool_policies where
  "codex_pool_policies = [(''codex'', \<lparr>qp_pool_id = ''codex'', qp_mode = STRICT, qp_red_line_pct = 15,
     qp_members = [''codex''], qp_overage_possible = False\<rparr>)]"

lemma seam_sample:
  "fst (effective_quota_states no_probe_env codex_pool_policies False 63928087320000000 excluded_db) = []"
  "hinted_exclusion \<in> set (fst (owner_active_exclusions 63928087320000000
     (probed_db no_probe_env codex_pool_policies False 63928087320000000 excluded_db)))"
  by code_simp+

lemma seam_sample_admitted:
  "case admit no_zones plan_set_empty ((sample_admission [])\<lparr>aa_quota_states := []\<rparr>) 63928087320000000 codex_terra of
     Inl _ \<Rightarrow> False | Inr d \<Rightarrow> dec_admitted d \<and> ''codex'' \<in> set (dec_drawn_pools d)"
  by code_simp

theorem exclusions_reach_admission_witness:
  "clears_without_probe no_probe_env codex_pool_policies 63928087320000000 hinted_exclusion"
proof -
  obtain db' where s: "effective_quota_states no_probe_env codex_pool_policies False 63928087320000000 excluded_db = ([], db')"
    using seam_sample(1) by (cases "effective_quota_states no_probe_env codex_pool_policies False 63928087320000000 excluded_db") simp
  obtain d where d: "admit no_zones plan_set_empty ((sample_admission [])\<lparr>aa_quota_states := []\<rparr>) 63928087320000000 codex_terra = Inr d"
    "dec_admitted d" "''codex'' \<in> set (dec_drawn_pools d)" using seam_sample_admitted by (auto split: sum.splits)
  show ?thesis
    by (rule exclusions_reach_admission [OF s seam_sample(2) _ _ d(1,2)])
       (use d(3) in \<open>simp_all add: hinted_exclusion_def sample_exclusion_def model_scope_matches_def\<close>)
qed

end
