(* ===== verification/Job_Ids.thy ===== *)
theory Job_Ids
  imports SO_Prelude "HOL-Library.Word"
begin

text \<open>
  \<open>saberops/jobs/ids.py\<close>: the 26-character identifier of a job, 48 bits of milliseconds and 80
  random bits in Crockford's base 32.  The random bytes are an argument; the milliseconds are
  those of the exact instant (the code computes them through a float, which may differ in the
  last one), and the shifts and masks are those of unbounded integers.
\<close>

section \<open>The identifier\<close>

definition CROCKFORD :: string where
  "CROCKFORD = ''0123456789ABCDEFGHJKMNPQRSTVWXYZ''"

definition unix_epoch :: int where
  \<comment> \<open>1970-01-01 in microseconds since the first day of the year one\<close>
  "unix_epoch = 719162 * 86400000000"

definition job_millis :: "int \<Rightarrow> int" where
  \<comment> \<open>\<open>int(timestamp * 1000)\<close> truncates towards zero before the mask of 48 bits\<close>
  "job_millis now =
     (let us = now - unix_epoch; ms = (if 0 \<le> us then us div 1000 else - ((- us) div 1000))
      in ms mod 2 ^ 48)"

definition bytes_value :: "8 word list \<Rightarrow> int" where
  \<comment> \<open>\<open>int.from_bytes(raw, "big")\<close>\<close>
  "bytes_value bs = foldl (\<lambda>acc b. acc * 256 + uint b) 0 bs"

definition ulid_value :: "int \<Rightarrow> 8 word list \<Rightarrow> int" where
  "ulid_value now raw = push_bit 80 (job_millis now) + bytes_value raw"

definition ulid_shifts :: "nat list" where
  \<comment> \<open>\<open>range(125, -1, -5)\<close>\<close>
  "ulid_shifts = map (\<lambda>i. 125 - 5 * i) [0..<26]"

definition ulid_text :: "int \<Rightarrow> string" where
  "ulid_text v = map (\<lambda>s. CROCKFORD ! nat (take_bit 5 (drop_bit s v))) ulid_shifts"

definition new_job_id :: "int \<Rightarrow> 8 word list \<Rightarrow> py_error + string" where
  "new_job_id now raw =
     (if length raw \<noteq> 10 then Inl (ValueError ''rand(10) must return 10 bytes'') else Inr (ulid_text (ulid_value now raw)))"

section \<open>Reading it back\<close>

definition crockford_value :: "char \<Rightarrow> nat" where
  "crockford_value c = length (takeWhile (\<lambda>d. d \<noteq> c) CROCKFORD)"

definition ulid_read :: "string \<Rightarrow> int" where
  "ulid_read s = foldl (\<lambda>acc c. acc * 32 + int (crockford_value c)) 0 s"

fun base32 :: "nat \<Rightarrow> int \<Rightarrow> string" where
  \<comment> \<open>the digits of a number, most significant first: the reference\<close>
  "base32 0 v = []"
| "base32 (Suc k) v = base32 k (v div 32) @ [CROCKFORD ! nat (v mod 32)]"

lemma drop_bit_digit: "drop_bit (s + 5) v = drop_bit s (v div 32)" for v :: int
proof -
  have "v div (32 * 2 ^ s) = v div 32 div 2 ^ s" by (rule zdiv_zmult2_eq) simp
  then show ?thesis by (simp add: drop_bit_eq_div power_add mult.commute)
qed

lemma ulid_digits: "map (\<lambda>s. CROCKFORD ! nat (take_bit 5 (drop_bit s v))) (map (\<lambda>i. 5 * (k - Suc i)) [0..<k]) = base32 k v"
proof (induction k arbitrary: v)
  case (Suc k)
  have "map (\<lambda>i. 5 * (Suc k - Suc i)) [0..<k] = map (\<lambda>s. s + 5) (map (\<lambda>i. 5 * (k - Suc i)) [0..<k])"
    by (auto simp: Suc_diff_le)
  then have "map (\<lambda>s. CROCKFORD ! nat (take_bit 5 (drop_bit s v))) (map (\<lambda>i. 5 * (Suc k - Suc i)) [0..<Suc k]) =
     map (\<lambda>s. CROCKFORD ! nat (take_bit 5 (drop_bit (s + 5) v))) (map (\<lambda>i. 5 * (k - Suc i)) [0..<k])
       @ [CROCKFORD ! nat (take_bit 5 v)]"
    by simp
  also have "map (\<lambda>s. CROCKFORD ! nat (take_bit 5 (drop_bit (s + 5) v))) (map (\<lambda>i. 5 * (k - Suc i)) [0..<k]) =
     base32 k (v div 32)"
    unfolding drop_bit_digit by (rule Suc.IH)
  finally show ?case by (simp add: take_bit_eq_mod)
qed simp

lemma ulid_text_base32: "ulid_text v = base32 26 v"
proof -
  have "ulid_shifts = map (\<lambda>i. 5 * (26 - Suc i)) [0..<26]" by code_simp
  then show ?thesis using ulid_digits [of v 26] by (simp only: ulid_text_def)
qed

lemma length_base32 [simp]: "length (base32 k v) = k"
  by (induction k arbitrary: v) simp_all

lemma crockford_table:
  "map (\<lambda>i. crockford_value (CROCKFORD ! i)) [0..<32] = [0..<32]" "sorted_wrt (<) CROCKFORD" "length CROCKFORD = 32"
  by code_simp+

lemma crockford_digits: "i < 32 \<Longrightarrow> crockford_value (CROCKFORD ! i) = i"
  using crockford_table(1) by (auto simp: list_eq_iff_nth_eq)

lemma crockford_sorted: "i < j \<Longrightarrow> j < 32 \<Longrightarrow> CROCKFORD ! i < CROCKFORD ! j"
  using crockford_table(2,3) by (simp add: sorted_wrt_iff_nth_less)

lemma millis_bound: "us < 2 ^ 48 * 1000 \<Longrightarrow> us div 1000 < (2 ^ 48 :: int)"
  using div_mult_mod_eq [of us 1000] pos_mod_sign [of 1000 us] by linarith

lemma read_base32: "0 \<le> v \<Longrightarrow> v < 32 ^ k \<Longrightarrow> ulid_read (base32 k v) = v"
proof (induction k arbitrary: v)
  case (Suc k)
  have d: "crockford_value (CROCKFORD ! nat (v mod 32)) = nat (v mod 32)"
    using crockford_digits by auto
  have "0 \<le> v div 32" "v div 32 < 32 ^ k" using Suc.prems by auto
  then show ?case using Suc.IH [of "v div 32"] d by (simp add: ulid_read_def)
qed (simp add: ulid_read_def)

lemma same_prefix_less: "(xs @ ys < xs @ zs) = (ys < (zs :: 'a::linorder list))"
  by (induction xs) auto

lemma prefix_less: "length xs = length ys \<Longrightarrow> xs < ys \<Longrightarrow> xs @ u < ys @ (v :: 'a::linorder list)"
  by (induction xs ys rule: list_induct2) auto

lemma base32_less: "0 \<le> v \<Longrightarrow> v < w \<Longrightarrow> w < 32 ^ k \<Longrightarrow> base32 k v < base32 k w"
proof (induction k arbitrary: v w)
  case (Suc k)
  show ?case
  proof (cases "v div 32 < w div 32")
    case True
    have "0 \<le> v div 32" "w div 32 < 32 ^ k" using Suc.prems by auto
    then show ?thesis using Suc.IH True by (simp add: prefix_less)
  next
    case False
    have "v div 32 \<le> w div 32" using Suc.prems by (intro zdiv_mono1) auto
    with False have e: "v div 32 = w div 32" by simp
    then have "v mod 32 < w mod 32"
      using div_mult_mod_eq [of v 32] div_mult_mod_eq [of w 32] Suc.prems(2) by linarith
    then have "CROCKFORD ! nat (v mod 32) < CROCKFORD ! nat (w mod 32)"
      using crockford_sorted by auto
    then show ?thesis by (simp add: e same_prefix_less)
  qed
qed simp

lemma bytes_bound: "0 \<le> bytes_value bs \<and> bytes_value bs < 256 ^ length bs"
proof (induction bs rule: rev_induct)
  case (snoc b bs)
  have "uint b < 256" using uint_lt2p [of b] by simp
  then show ?case using snoc by (simp add: bytes_value_def)
qed (simp add: bytes_value_def)

lemma ulid_value_bound:
  assumes "length raw = 10"
  shows "0 \<le> ulid_value now raw \<and> ulid_value now raw < 32 ^ 26"
proof -
  have "0 \<le> job_millis now" "job_millis now < 2 ^ 48" by (simp_all add: job_millis_def Let_def)
  then show ?thesis using bytes_bound [of raw] assms by (simp add: ulid_value_def push_bit_eq_mult)
qed

text \<open>Job ids are faithful and ordered by time.  An id of ten random bytes has 26 characters
  from which its milliseconds and random bits are read back, so that two ids are equal only
  for the same millisecond and the same bytes; and an id of a later millisecond is the greater
  text, which is what the deterministic order of the queue and the store rests on.  Any
  other number of bytes is refused.\<close>
theorem job_ids_ordered:
  assumes "unix_epoch \<le> now" "now < unix_epoch + 2 ^ 48 * 1000" "now' < unix_epoch + 2 ^ 48 * 1000"
    and "length raw = 10" "length raw' = 10"
  shows "\<exists>i j. new_job_id now raw = Inr i \<and> new_job_id now' raw' = Inr j \<and> length i = 26
    \<and> ulid_read i = ((now - unix_epoch) div 1000) * 2 ^ 80 + bytes_value raw
    \<and> ((now - unix_epoch) div 1000 < (now' - unix_epoch) div 1000 \<longrightarrow> i < j)
    \<and> (length raw'' \<noteq> 10 \<longrightarrow> (\<exists>e. new_job_id now raw'' = Inl e))"
proof -
  let ?m = "(now - unix_epoch) div 1000" and ?m' = "(now' - unix_epoch) div 1000"
  have m: "job_millis now = ?m" using assms(1,2) by (simp add: job_millis_def Let_def pos_imp_zdiv_nonneg_iff millis_bound)
  note b = bytes_bound [of raw] bytes_bound [of raw'] ulid_value_bound [OF assms(4), of now] ulid_value_bound [OF assms(5), of now']
  have "ulid_text (ulid_value now raw) < ulid_text (ulid_value now' raw')" if lt: "?m < ?m'"
  proof -
    have "unix_epoch \<le> now'" using lt assms(1) by (smt (verit) pos_imp_zdiv_nonneg_iff zdiv_mono1)
    then have "job_millis now' = ?m'" using assms(3) by (simp add: job_millis_def Let_def pos_imp_zdiv_nonneg_iff millis_bound)
    then have "ulid_value now raw < ulid_value now' raw'"
      using lt m b(1,2) assms(4,5) by (simp add: ulid_value_def push_bit_eq_mult)
    then show ?thesis using b(3,4) base32_less by (simp add: ulid_text_base32)
  qed
  moreover have "ulid_read (ulid_text (ulid_value now raw)) = ?m * 2 ^ 80 + bytes_value raw"
    using read_base32 [of "ulid_value now raw" 26] b(3) m by (simp add: ulid_text_base32 ulid_value_def push_bit_eq_mult)
  ultimately show ?thesis using assms(4,5) by (simp add: new_job_id_def ulid_text_base32)
qed

theorem job_ids_ordered_witness:
  "\<exists>i j. new_job_id 63928087200000000 (replicate 10 255) = Inr i \<and> new_job_id 63928087200001000 (replicate 10 0) = Inr j \<and> i < j"
proof -
  have "unix_epoch \<le> 63928087200000000" "(63928087200000000 :: int) < unix_epoch + 2 ^ 48 * 1000"
    "(63928087200001000 :: int) < unix_epoch + 2 ^ 48 * 1000"
    "(63928087200000000 - unix_epoch) div 1000 < (63928087200001000 - unix_epoch) div 1000"
    by (simp_all add: unix_epoch_def)
  with job_ids_ordered [of 63928087200000000 63928087200001000 "replicate 10 255" "replicate 10 0" "[]"]
  show ?thesis by auto
qed

end
