(* ===== verification/Job_Service.thy ===== *)
theory Job_Service
  imports Job_Machine Ledger_Laws Control_Policy
begin

text \<open>
  \<open>saberops/jobs/service.py\<close> and \<open>saberops/jobs/feasibility.py\<close>: submission, cancellation, the
  capacity view, the reconciliation of running jobs and the settlement of the capacity old runs
  still hold.  The state is the record \<open>world\<close> (job tables and capacity tables of the owner
  database).  What the service asks of others is a parameter: git and the hash of a submission,
  the status of a run, the coordinator that completes a preemption, the authentication of a
  preemption receipt.  Waking the scheduler is not modelled.
\<close>

record world =
  w_jobs :: job_db
  w_owner :: owner_db

section \<open>Feasibility\<close>

definition role_candidates :: "routing_snapshot \<Rightarrow> job_role \<Rightarrow> py_error + (string \<times> string) list" where
  \<comment> \<open>the chain without later duplicates\<close>
  "role_candidates snap role =
     (case chain_for_role snap (role_value role) of
        Inl e \<Rightarrow> Inl e
      | Inr chain \<Rightarrow> Inr (rev (foldl (\<lambda>acc k. if k \<in> set acc then acc else k # acc) []
          (map (\<lambda>c. (wc_provider c, wc_model c)) chain))))"

definition needed_capabilities :: "job_requirements \<Rightarrow> string list" where
  "needed_capabilities rq =
     (if rq_read_only rq then capability_value READ_ONLY # rq_required_capabilities rq else rq_required_capabilities rq)"

definition provider_serves :: "job_requirements \<Rightarrow> string \<Rightarrow> bool" where
  "provider_serves rq provider =
     list_all (\<lambda>cap. cap \<in> set (profile_values (capability_profile_for None provider))) (needed_capabilities rq)"

definition feasible :: "job_requirements \<Rightarrow> routing_snapshot \<Rightarrow> py_error + bool" where
  "feasible rq snap =
     (if \<not> dispatchable (rq_role rq) then Inr False
      else case role_candidates snap WORKER of
        Inl e \<Rightarrow> Inl e
      | Inr cands \<Rightarrow> Inr (list_ex (\<lambda>(provider, model). provider_serves rq provider) cands))"

section \<open>Submission\<close>

record submit_args =
  sj_repo :: string
  sj_goal :: string
  sj_acceptance :: "string option"
  sj_base_ref :: string
  sj_requirements :: "job_requirements option"
  sj_priority :: string
  sj_deadline :: "string option"
  sj_not_before :: "string option"
  sj_key :: "string option"
  sj_caller :: string

record submit_env =
  se_repo :: "string \<Rightarrow> py_error + string"
  se_base_sha :: "string \<Rightarrow> string \<Rightarrow> py_error + string"
  se_digest :: "(string \<times> json) list \<Rightarrow> string"

record submission =
  sb_caller :: string
  sb_key :: "string option"
  sb_goal :: string
  sb_acceptance :: "string option"
  sb_requirements :: job_requirements
  sb_priority :: priority
  sb_repo :: string
  sb_base_ref :: string
  sb_base_sha :: string
  sb_deadline :: "string option"
  sb_not_before :: "string option"
  sb_digest :: string

definition parse_aware_instant :: "string option \<Rightarrow> py_error + string option" where
  \<comment> \<open>\<open>_parse_aware_instant\<close>: normalised to UTC, a naive or unreadable text refused\<close>
  "parse_aware_instant raw =
     (case raw of
        None \<Rightarrow> Inr None
      | Some r \<Rightarrow>
          if py_strip r = [] then Inl (ValueError ''must be a timezone-aware ISO-8601 instant'')
          else (case fromisoformat (py_strip r) of
                  None \<Rightarrow> Inl (ValueError ''must be timezone-aware ISO-8601'')
                | Some (t, None) \<Rightarrow> Inl (ValueError ''must be timezone-aware ISO-8601'')
                | Some (t, Some off) \<Rightarrow> Inr (Some (isoformat (t - off)))))"

definition default_requirements :: job_requirements where
  \<comment> \<open>\<open>JobRequirements()\<close>\<close>
  "default_requirements = \<lparr>rq_role = WORKER, rq_effort = None, rq_required_capabilities = [], rq_read_only = False,
     rq_family_include = [], rq_family_exclude = [], rq_size_hint = None\<rparr>"

definition blank_to_none :: "string option \<Rightarrow> string option" where
  "blank_to_none v = (case v of None \<Rightarrow> None | Some s \<Rightarrow> if py_strip s = [] then None else Some (py_strip s))"

definition canonical_request :: "submission \<Rightarrow> (string \<times> json) list" where
  \<comment> \<open>the document \<open>_request_digest\<close> hashes\<close>
  "canonical_request s =
     [(''acceptance'', json_of_opt (sb_acceptance s)), (''base_ref'', JStr (sb_base_ref s)),
      (''caller_id'', JStr (sb_caller s)), (''deadline'', json_of_opt (sb_deadline s)), (''goal'', JStr (sb_goal s)),
      (''not_before'', json_of_opt (sb_not_before s)), (''priority'', JStr (priority_value (sb_priority s))),
      (''repo'', JStr (sb_repo s)), (''requirements'', JObj (requirements_to_dict (sb_requirements s)))]"

definition prepare_submission :: "submit_env \<Rightarrow> submit_args \<Rightarrow> py_error + submission" where
  \<comment> \<open>the checks of \<open>submit_job\<close> before it reads the database, in their order\<close>
  "prepare_submission env a =
     (if py_strip (sj_caller a) = [] then Inl (ValueError ''caller_id must be a non-empty string'')
      else if (case sj_key a of None \<Rightarrow> False | Some k \<Rightarrow> py_strip k = [])
      then Inl (ValueError ''idempotency_key must be a non-empty string when given'')
      else if py_strip (sj_goal a) = [] then Inl (ValueError ''goal must be a non-empty string'')
      else (case coerce_priority (sj_priority a) of Inl e \<Rightarrow> Inl e | Inr prio \<Rightarrow>
           (case se_repo env (sj_repo a) of Inl e \<Rightarrow> Inl e | Inr repo \<Rightarrow>
           (let ref = (if py_strip (sj_base_ref a) = [] then ''HEAD'' else py_strip (sj_base_ref a)) in
           (case se_base_sha env repo ref of Inl e \<Rightarrow> Inl e | Inr sha \<Rightarrow>
           (case parse_aware_instant (sj_deadline a) of Inl e \<Rightarrow> Inl e | Inr deadline \<Rightarrow>
           (case parse_aware_instant (sj_not_before a) of Inl e \<Rightarrow> Inl e | Inr nb \<Rightarrow>
             (let s = \<lparr>sb_caller = py_strip (sj_caller a), sb_key = map_option py_strip (sj_key a),
                       sb_goal = py_strip (sj_goal a), sb_acceptance = blank_to_none (sj_acceptance a),
                       sb_requirements = (case sj_requirements a of None \<Rightarrow> default_requirements | Some r \<Rightarrow> r),
                       sb_priority = prio, sb_repo = repo, sb_base_ref = ref, sb_base_sha = sha,
                       sb_deadline = deadline, sb_not_before = nb, sb_digest = []\<rparr>
              in Inr (s\<lparr>sb_digest := se_digest env (canonical_request s)\<rparr>)))))))))"

definition submitted_job :: "submission \<Rightarrow> bool \<Rightarrow> string \<Rightarrow> int \<Rightarrow> job" where
  "submitted_job s ok jid now =
     \<lparr>job_id = jid, job_idempotency_key = sb_key s, job_caller_id = sb_caller s, job_repo = sb_repo s,
      job_base_ref = sb_base_ref s, job_base_sha = sb_base_sha s, job_goal = sb_goal s, job_acceptance = sb_acceptance s,
      job_requirements = sb_requirements s, job_priority = sb_priority s, job_deadline = sb_deadline s,
      job_not_before = sb_not_before s, job_state = (if ok then QUEUED else FAILED),
      job_waiting_reason = (if ok then Some NEW else None),
      job_failure_reason = (if ok then None else Some NO_ROUTE_FOR_REQUIREMENTS), job_eta = None,
      job_eta_confidence = None, job_deadline_at_risk = False, job_current_run_id = None, job_run_ids = [],
      job_resume_from = None, job_preemptions = 0, job_created_at = utcnow_iso now, job_updated_at = utcnow_iso now,
      job_request_digest = sb_digest s\<rparr>"

definition known_submission :: "submission \<Rightarrow> job_db \<Rightarrow> job_error + job option" where
  \<comment> \<open>the lookup of the idempotency key\<close>
  "known_submission s db = (case sb_key s of None \<Rightarrow> Inr None | Some k \<Rightarrow> find_by_idempotency (sb_caller s) k db)"

definition insert_submission :: "submission \<Rightarrow> job \<Rightarrow> int \<Rightarrow> job_db \<Rightarrow> (job_error + job \<times> bool) \<times> job_db" where
  \<comment> \<open>the insert; a conflict is read once more, since another submission may have come first\<close>
  "insert_submission s j now db =
     (case insert_job j now db of
        (Inr _, db') \<Rightarrow> (Inr (j, True), db')
      | (Inl JobConflict, db') \<Rightarrow>
          (case known_submission s db' of
             Inl e \<Rightarrow> (Inl e, db')
           | Inr None \<Rightarrow> (Inl JobConflict, db')
           | Inr (Some k) \<Rightarrow> if job_request_digest k = sb_digest s then (Inr (k, False), db') else (Inl IdempotencyConflict, db'))
      | (Inl e, db') \<Rightarrow> (Inl e, db'))"

definition submit_job ::
  "submit_env \<Rightarrow> submit_args \<Rightarrow> routing_snapshot \<Rightarrow> string \<Rightarrow> int \<Rightarrow> job_db \<Rightarrow> (job_error + job \<times> bool) \<times> job_db" where
  \<comment> \<open>the job and whether this call created it\<close>
  "submit_job env a snap jid now db =
     (case prepare_submission env a of
        Inl e \<Rightarrow> (Inl (JobValue e), db)
      | Inr s \<Rightarrow>
          (case known_submission s db of
             Inl e \<Rightarrow> (Inl e, db)
           | Inr (Some k) \<Rightarrow>
               if job_request_digest k = sb_digest s then (Inr (k, False), db) else (Inl IdempotencyConflict, db)
           | Inr None \<Rightarrow>
               (case feasible (sb_requirements s) snap of
                  Inl e \<Rightarrow> (Inl (JobValue e), db)
                | Inr ok \<Rightarrow>
                    (case job_check (submitted_job s ok jid now) of
                       Inl e \<Rightarrow> (Inl (JobValue e), db)
                     | Inr j \<Rightarrow> insert_submission s j now db))))"

section \<open>Listing, cancelling, the capacity view\<close>

definition coerce_state :: "string option \<Rightarrow> py_error + job_state option" where
  "coerce_state v =
     (case v of None \<Rightarrow> Inr None
      | Some s \<Rightarrow> (case state_of (py_upper (py_strip s)) of None \<Rightarrow> Inl (ValueError ''state'') | Some st \<Rightarrow> Inr (Some st)))"

definition list_jobs :: "string option \<Rightarrow> int \<Rightarrow> job_db \<Rightarrow> job_error + job list" where
  "list_jobs state limit db =
     (case coerce_state state of
        Inl e \<Rightarrow> Inl (JobValue e)
      | Inr st \<Rightarrow> if limit < 1 then Inl (JobValue (ValueError ''limit must be >= 1'')) else list_jobs_raw st (nat limit) db)"

definition current_answer :: "string \<Rightarrow> job_db \<Rightarrow> job_error + job \<times> bool" where
  \<comment> \<open>the job as it is now, not cancelled by this call\<close>
  "current_answer i db =
     (case get_job i db of Inl e \<Rightarrow> Inl e | Inr None \<Rightarrow> Inl JobNotFound | Inr (Some j) \<Rightarrow> Inr (j, False))"

definition cancel_attempt :: "string \<Rightarrow> int \<Rightarrow> job_db \<Rightarrow> (job_error + job \<times> bool) \<times> job_db" where
  "cancel_attempt i now db =
     (case cancel_transition i now db of
        (Inr j, db') \<Rightarrow> (Inr (j, True), db')
      | (Inl JobConflict, db') \<Rightarrow> (current_answer i db', db')
      | (Inl JobTransition, db') \<Rightarrow> (current_answer i db', db')
      | (Inl e, db') \<Rightarrow> (Inl e, db'))"

definition cancel_job :: "string \<Rightarrow> (string \<Rightarrow> bool) \<Rightarrow> int \<Rightarrow> world \<Rightarrow> (job_error + job \<times> bool) \<times> world" where
  \<comment> \<open>\<open>run_canceller\<close> is asked first for a running job; its reservation goes with the cancellation\<close>
  "cancel_job i run_canceller now w =
     (case get_job i (w_jobs w) of
        Inl e \<Rightarrow> (Inl e, w)
      | Inr None \<Rightarrow> (Inl JobNotFound, w)
      | Inr (Some j) \<Rightarrow>
          if job_state j = QUEUED then
            (case cancel_attempt i now (w_jobs w) of (r, db) \<Rightarrow> (r, w\<lparr>w_jobs := db\<rparr>))
          else if job_state j = RUNNING then
            (let run = or_text (job_current_run_id j) [] in
             if run_canceller run then
               (case cancel_attempt i now (w_jobs w) of
                  (Inr (k, True), db) \<Rightarrow> (Inr (k, True), w\<lparr>w_jobs := db, w_owner := snd (release run now (w_owner w))\<rparr>)
                | (r, db) \<Rightarrow> (r, w\<lparr>w_jobs := db\<rparr>))
             else (current_answer i (w_jobs w), w))
          else (Inr (j, False), w))"

definition capacity_view :: "int \<Rightarrow> plan_set option \<Rightarrow> world \<Rightarrow> ledger_estimate list \<times> world" where
  \<comment> \<open>\<open>capacity\<close>: the eight fields of an estimate, sorted by pool and window\<close>
  "capacity_view now plans w =
     (case snapshot now plans (w_owner w) of
        (es, od) \<Rightarrow> (sort_key (\<lambda>e. (le_pool_id e, le_window_id e)) es, w\<lparr>w_owner := od\<rparr>))"

definition service_requeue ::
  "string \<Rightarrow> waiting_reason \<Rightarrow> resume_from option \<Rightarrow> string option \<Rightarrow> int \<Rightarrow> job_db \<Rightarrow> (job_error + job) \<times> job_db" where
  "service_requeue i reason resume not_before now db =
     (case parse_aware_instant not_before of
        Inl e \<Rightarrow> (Inl (JobValue e), db) | Inr nb \<Rightarrow> requeue i reason resume nb now db)"

definition requeue_preemption ::
  "string \<Rightarrow> string \<Rightarrow> int \<Rightarrow> resume_from option \<Rightarrow> string option \<Rightarrow> int \<Rightarrow> job_db \<Rightarrow> (job_error + job) \<times> job_db" where
  "requeue_preemption i expected_run expected_preemptions resume not_before now db =
     (case parse_aware_instant not_before of
        Inl e \<Rightarrow> (Inl (JobValue e), db)
      | Inr nb \<Rightarrow> requeue_exact i PREEMPTED expected_run expected_preemptions resume nb now db)"

section \<open>Reconciling running jobs\<close>

datatype run_status = Run_pending | Run_running | Run_completed | Run_failed | Run_orphaned | Run_preempted

record reconcile_change =
  rc_job_id :: string
  rc_run_id :: string
  rc_to_state :: job_state
  rc_failure :: "string option"
  rc_job :: job

type_synonym preemption_tail = "job \<Rightarrow> string \<Rightarrow> job_db \<Rightarrow> job option \<times> job_db"
  \<comment> \<open>\<open>complete_preemption\<close>: the requeued job when the caller owns the tail, \<open>None\<close> otherwise\<close>

definition reconcile_job ::
  "(string \<Rightarrow> run_status option) \<Rightarrow> preemption_tail \<Rightarrow> int \<Rightarrow> job \<Rightarrow> job_db
   \<Rightarrow> (job_error + reconcile_change option) \<times> job_db" where
  \<comment> \<open>the body of the loop\<close>
  "reconcile_job run_status tail now j db =
     (case job_current_run_id j of
        None \<Rightarrow> (Inr None, db)
      | Some run \<Rightarrow>
          let finish = (\<lambda>to_state failure.
            case reconcile_transition (job_id j) to_state failure now db of
              (Inr k, db') \<Rightarrow> (Inr (Some \<lparr>rc_job_id = job_id j, rc_run_id = run, rc_to_state = to_state,
                                        rc_failure = failure, rc_job = k\<rparr>), db')
            | (Inl JobConflict, db') \<Rightarrow> (Inr None, db')
            | (Inl JobTransition, db') \<Rightarrow> (Inr None, db')
            | (Inl e, db') \<Rightarrow> (Inl e, db'))
          in case run_status run of
               None \<Rightarrow> finish FAILED (Some RUN_MISSING)
             | Some Run_completed \<Rightarrow> finish SUCCEEDED None
             | Some Run_failed \<Rightarrow> finish FAILED (Some RUN_FAILED)
             | Some Run_preempted \<Rightarrow>
                 (case tail j run db of
                    (None, db') \<Rightarrow> (Inr None, db')
                  | (Some k, db') \<Rightarrow> (Inr (Some \<lparr>rc_job_id = job_id j, rc_run_id = run, rc_to_state = QUEUED,
                                               rc_failure = None, rc_job = k\<rparr>), db'))
             | _ \<Rightarrow> (Inr None, db))"

fun reconcile_loop ::
  "(string \<Rightarrow> run_status option) \<Rightarrow> preemption_tail \<Rightarrow> int \<Rightarrow> job list \<Rightarrow> job_db
   \<Rightarrow> (job_error + reconcile_change list) \<times> job_db" where
  "reconcile_loop run_status tail now [] db = (Inr [], db)"
| "reconcile_loop run_status tail now (j # js) db =
     (case reconcile_job run_status tail now j db of
        (Inl e, db') \<Rightarrow> (Inl e, db')
      | (Inr change, db') \<Rightarrow>
          (case reconcile_loop run_status tail now js db' of
             (Inl e, db'') \<Rightarrow> (Inl e, db'')
           | (Inr rest, db'') \<Rightarrow> (Inr ((case change of None \<Rightarrow> [] | Some c \<Rightarrow> [c]) @ rest), db'')))"

definition job_scan_limit :: nat where "job_scan_limit = 100000"

definition reconcile_jobs ::
  "(string \<Rightarrow> run_status option) \<Rightarrow> preemption_tail \<Rightarrow> int \<Rightarrow> job_db \<Rightarrow> (job_error + reconcile_change list) \<times> job_db" where
  "reconcile_jobs run_status tail now db =
     (case list_jobs_raw (Some RUNNING) job_scan_limit db of
        Inl e \<Rightarrow> (Inl e, db)
      | Inr js \<Rightarrow> reconcile_loop run_status tail now js db)"

section \<open>The mapping of a job to a run\<close>

record dispatch_spec =
  sp_job_id :: string
  sp_task :: string
  sp_repo_path :: string
  sp_required_capabilities :: "string list"
  sp_base_ref :: string
  sp_base_sha :: string
  sp_effort :: "effort option"
  sp_size_hint :: "string option"
  sp_resume_from :: "resume_from option"

definition line_break :: string where "line_break = [char_of (10 :: nat)]"

definition job_dispatch_spec :: "job \<Rightarrow> dispatch_spec" where
  \<comment> \<open>the request's routing mode is always automatic and its other options are unset\<close>
  "job_dispatch_spec j =
     \<lparr>sp_job_id = job_id j,
      sp_task = (if truthy (job_acceptance j)
                 then job_goal j @ line_break @ line_break @ ''Acceptance:'' @ line_break @ the (job_acceptance j) else job_goal j),
      sp_repo_path = job_repo j, sp_required_capabilities = sort (remdups (needed_capabilities (job_requirements j))),
      sp_base_ref = job_base_ref j, sp_base_sha = job_base_sha j, sp_effort = rq_effort (job_requirements j),
      sp_size_hint = rq_size_hint (job_requirements j), sp_resume_from = job_resume_from j\<rparr>"

section \<open>Settling the capacity of old runs\<close>

datatype receipt = Authentic | Refused string | Unreadable

record debt_env =
  de_resolved :: "string \<Rightarrow> run_status option"
    \<comment> \<open>the status of the run in the database that owns it; \<open>None\<close> when it cannot be resolved\<close>
  de_injected :: "(string \<Rightarrow> run_status option option) option"
    \<comment> \<open>the caller's lookup, if any; the outer \<open>None\<close> is a lookup that raises\<close>
  de_authenticate :: "string \<Rightarrow> job \<Rightarrow> int \<Rightarrow> receipt"
    \<comment> \<open>\<open>authenticate_prepared_transaction\<close> with the preemptions expected before\<close>
  de_failures :: "string \<Rightarrow> string list option"
    \<comment> \<open>the reasons of the run's failure events; \<open>None\<close> when they cannot be read\<close>

definition run_has_authentic_receipt :: "debt_env \<Rightarrow> string \<Rightarrow> job \<Rightarrow> bool" where
  "run_has_authentic_receipt env run j =
     (let consumed = \<not> (job_state j = RUNNING \<and> job_current_run_id j = Some run);
          before = job_preemptions j - (if consumed then 1 else 0)
      in if before < 0 then False
         else case de_authenticate env run j before of
           Authentic \<Rightarrow> True
         | Unreadable \<Rightarrow> False
         | Refused detail \<Rightarrow>
             detail = ''decision_missing'' \<and>
             (case de_failures env run of None \<Rightarrow> False | Some reasons \<Rightarrow> PREEMPTION_LIMIT \<in> set reasons))"

definition terminal_run_status :: "debt_env \<Rightarrow> string \<Rightarrow> run_status option" where
  \<comment> \<open>the run's own row decides; a lookup that raises or contradicts it fails closed\<close>
  "terminal_run_status env run =
     (case de_resolved env run of
        None \<Rightarrow> None
      | Some st \<Rightarrow>
          (case de_injected env of
             None \<Rightarrow> Some st
           | Some f \<Rightarrow> (case f run of
               None \<Rightarrow> None
             | Some None \<Rightarrow> Some st
             | Some (Some st') \<Rightarrow> if st' = st then Some st else None)))"

definition settleable :: "debt_env \<Rightarrow> job_db \<Rightarrow> string \<Rightarrow> string option \<Rightarrow> bool" where
  \<comment> \<open>the checks of one debt, in order; the order does not matter to the answer\<close>
  "settleable env jobs run job =
     (de_resolved env run \<noteq> None \<and>
      terminal_run_status env run \<notin> {None, Some Run_running, Some Run_pending, Some Run_completed} \<and>
      (case job of
         None \<Rightarrow> False
       | Some i \<Rightarrow>
           (case get_job i jobs of
              Inr (Some j) \<Rightarrow>
                run \<in> set (job_run_ids j) \<and> \<not> (job_state j = RUNNING \<and> job_current_run_id j = Some run) \<and>
                run_has_authentic_receipt env run j
            | _ \<Rightarrow> False)))"

record settlement =
  st_scanned :: int
  st_released :: int
  st_skipped :: int

definition settle_debt ::
  "debt_env \<Rightarrow> (owner_db \<Rightarrow> bool) option \<Rightarrow> int \<Rightarrow> job_db \<Rightarrow> reserved_debt \<Rightarrow> settlement \<times> owner_db \<Rightarrow> settlement \<times> owner_db" where
  "settle_debt env guard now jobs d acc =
     (case acc of (st, db) \<Rightarrow>
        let st1 = st\<lparr>st_scanned := st_scanned st + 1\<rparr> in
        if \<not> settleable env jobs (rd_run_id d) (rd_job_id d) then (st1\<lparr>st_skipped := st_skipped st1 + 1\<rparr>, db)
        else (case release_terminal_debt (rd_run_id d) (rd_job_id d) guard False now db of
                (n, db') \<Rightarrow> if n < 0 then (st1\<lparr>st_skipped := st_skipped st1 + 1\<rparr>, db')
                           else (st1\<lparr>st_released := st_released st1 + n\<rparr>, db')))"

fun settle_pages ::
  "nat \<Rightarrow> debt_env \<Rightarrow> (owner_db \<Rightarrow> bool) option \<Rightarrow> int \<Rightarrow> int \<Rightarrow> job_db \<Rightarrow> string option \<Rightarrow> settlement \<times> owner_db
   \<Rightarrow> (py_error + settlement \<times> owner_db) option" where
  \<comment> \<open>the \<open>while True\<close>; \<open>None\<close> is a loop that has not ended within the fuel\<close>
  "settle_pages 0 env guard page_size now jobs cursor acc = None"
| "settle_pages (Suc fuel) env guard page_size now jobs cursor acc =
     (case list_reserved_debts page_size cursor (snd acc) of
        Inl e \<Rightarrow> Some (Inl e)
      | Inr page \<Rightarrow>
          if page = [] then Some (Inr acc)
          else let acc' = fold (settle_debt env guard now jobs) page acc in
            if int (length page) < page_size then Some (Inr acc')
            else settle_pages fuel env guard page_size now jobs (Some (rd_run_id (last page))) acc')"

definition settle_preemption_debts ::
  "debt_env \<Rightarrow> (owner_db \<Rightarrow> bool) option \<Rightarrow> int \<Rightarrow> int \<Rightarrow> world \<Rightarrow> (py_error + settlement \<times> owner_db) option" where
  \<comment> \<open>the fuel is one more than the number of reservation rows\<close>
  "settle_preemption_debts env guard page_size now w =
     settle_pages (Suc (length (od_reservations (w_owner w)))) env guard page_size now (w_jobs w) None
       (\<lparr>st_scanned = 0, st_released = 0, st_skipped = 0\<rparr>, w_owner w)"

section \<open>Interrupted preemptions\<close>

datatype interrupted = No_transaction | Blocked_transaction | Open_transaction

record recovery_env =
  re_status :: "world \<Rightarrow> string \<Rightarrow> run_status option"
  re_classify :: "world \<Rightarrow> string \<Rightarrow> job \<Rightarrow> interrupted option"
    \<comment> \<open>\<open>classify_preemption_transaction\<close> at that moment; \<open>None\<close> when it raises\<close>
  re_recover :: "string \<Rightarrow> world \<Rightarrow> world"
    \<comment> \<open>\<open>recover\<close>, whose exceptions are dropped\<close>

definition interrupted_kind :: "recovery_env \<Rightarrow> world \<Rightarrow> job \<Rightarrow> (interrupted \<times> string) option" where
  "interrupted_kind env w j =
     (if \<not> truthy (job_current_run_id j) then None
      else let run = the (job_current_run_id j) in
        if re_status env w run \<noteq> Some Run_running then None
        else case re_classify env w run j of
          None \<Rightarrow> None | Some No_transaction \<Rightarrow> None | Some k \<Rightarrow> Some (k, run))"

fun recover_interrupted ::
  "recovery_env \<Rightarrow> job list \<Rightarrow> string list \<Rightarrow> string list \<Rightarrow> world \<Rightarrow> (string list \<times> string list) \<times> world" where
  \<comment> \<open>each job is classified in the state the recoveries before it have left\<close>
  "recover_interrupted env [] pending blocked w = ((pending, blocked), w)"
| "recover_interrupted env (j # js) pending blocked w =
     (case interrupted_kind env w j of
        None \<Rightarrow> recover_interrupted env js pending blocked w
      | Some (k, run) \<Rightarrow>
          if k = Blocked_transaction then recover_interrupted env js pending (blocked @ [run]) w
          else recover_interrupted env js (pending @ [run]) blocked (re_recover env run w))"

definition scan_interrupted :: "recovery_env \<Rightarrow> world \<Rightarrow> (string list \<times> string list) \<times> world" where
  \<comment> \<open>the pending and the blocked runs; an unreadable job table is read as no job\<close>
  "scan_interrupted env w =
     recover_interrupted env
       (case list_jobs_raw (Some RUNNING) job_scan_limit (w_jobs w) of Inl e \<Rightarrow> [] | Inr js \<Rightarrow> js) [] [] w"

record preemption_reconciliation =
  pq_settlement :: settlement
  pq_pending :: "string list"
  pq_blocked :: "string list"

definition reconcile_preemptions ::
  "debt_env \<Rightarrow> recovery_env option \<Rightarrow> (owner_db \<Rightarrow> bool) option \<Rightarrow> int \<Rightarrow> int \<Rightarrow> world
   \<Rightarrow> (py_error + preemption_reconciliation \<times> world) option" where
  \<comment> \<open>without a recovery entry point only the settlement runs\<close>
  "reconcile_preemptions denv renv guard page_size now w =
     (case settle_preemption_debts denv guard page_size now w of
        None \<Rightarrow> None
      | Some (Inl e) \<Rightarrow> Some (Inl e)
      | Some (Inr (st, db)) \<Rightarrow>
          (case renv of
             None \<Rightarrow> Some (Inr (\<lparr>pq_settlement = st, pq_pending = [], pq_blocked = []\<rparr>, w\<lparr>w_owner := db\<rparr>))
           | Some re \<Rightarrow>
               (case scan_interrupted re (w\<lparr>w_owner := db\<rparr>) of ((pending, blocked), w') \<Rightarrow>
                  Some (Inr (\<lparr>pq_settlement = st, pq_pending = pending, pq_blocked = blocked\<rparr>, w')))))"

end
