(* ===== verification/Job_Service_Laws.thy ===== *)
theory Job_Service_Laws
  imports Job_Service Job_Rows
begin

text \<open>
  What the job service guarantees: an idempotency key names one job for ever, the settlement of
  old capacity always ends and frees only what a terminal, authenticated run still holds, and
  the reconciliation follows the status of the runs.
\<close>

section \<open>Idempotency keys\<close>

definition keys_unique :: "job_db \<Rightarrow> bool" where
  "keys_unique db =
     (\<forall>r \<in> set (db_jobs db). \<forall>x \<in> set (db_jobs db).
        jr_caller_id r = jr_caller_id x \<and> jr_idempotency_key r = jr_idempotency_key x \<and> jr_idempotency_key x \<noteq> None
        \<longrightarrow> r = x)"

definition service_inv :: "job_db \<Rightarrow> bool" where
  "service_inv db = (job_db_inv db \<and> keys_unique db)"

lemma keys_unique_transition:
  assumes "keys_unique db" "r \<in> set (db_jobs db)" "good_transition r r'"
  shows "keys_unique (transition_to r r' ts kind payload db)"
proof -
  have "\<exists>y \<in> set (db_jobs db). jr_caller_id x = jr_caller_id y \<and> jr_idempotency_key x = jr_idempotency_key y \<and>
      x = (if jr_job_id y = jr_job_id r then r' else y)"
    if "x \<in> set (db_jobs (transition_to r r' ts kind payload db))" for x
  proof -
    from that obtain y where y: "y \<in> set (db_jobs db)" "x = (if jr_job_id y = jr_job_id r then r' else y)"
      by (auto simp: transition_to_def set_row_def)
    show ?thesis
    proof (cases "jr_job_id y = jr_job_id r")
      case True
      then show ?thesis using assms(2,3) y by (auto simp: good_transition_def row_step_def)
    qed (use y in auto)
  qed
  then show ?thesis using assms(1) unfolding keys_unique_def by metis
qed

lemma keys_unique_insert:
  assumes "keys_unique db"
  shows "keys_unique (snd (insert_job j now db))"
proof -
  let ?row = "job_to_columns j"
  have "jr_job_id ?row = job_id j" "jr_caller_id ?row = job_caller_id j" "jr_idempotency_key ?row = job_idempotency_key j"
    by (simp_all add: job_to_columns_def)
  then show ?thesis
    using assms by (auto simp: insert_job_def Let_def keys_unique_def)
qed

lemma service_step: "service_inv db \<Longrightarrow> job_step db db' \<Longrightarrow> service_inv db'"
proof -
  assume inv: "service_inv db" and s: "job_step db db'"
  then have 1: "job_db_inv db" "keys_unique db" by (simp_all add: service_inv_def)
  have "keys_unique (snd res)" if "machine_result db res" for res
    using that 1(2) keys_unique_transition [OF 1(2)] by (auto simp: machine_result_def)
  then have "keys_unique db'" using job_step_cases [OF 1(1) s] keys_unique_insert [OF 1(2)] by blast
  then show ?thesis using job_step_inv [OF 1(1) s] by (simp add: service_inv_def)
qed

interpretation service: stepwise job_step service_inv
  by unfold_locales (rule service_step)

lemma empty_service_inv: "service_inv empty_job_db"
  using empty_job_db_inv by (simp add: service_inv_def keys_unique_def) (simp add: empty_job_db_def)

lemma row_to_job_fields:
  assumes "row_to_job r = Inr j"
  shows "job_id j = jr_job_id r" "job_request_digest j = jr_request_digest r"
    "job_current_run_id j = jr_current_run_id r" "state_of (jr_state r) = Some (job_state j)"
    "job_run_ids j = jr_run_ids r" "job_preemptions j = jr_preemptions r"
  using assms by (auto simp: row_to_job_def job_check_iff split: sum.splits option.splits)

lemma rows_persist: "job_step\<^sup>*\<^sup>* db db' \<Longrightarrow> job_db_inv db \<Longrightarrow> keeps_rows db db'"
proof (rule job_machine.steps_rel)
  show "keeps_rows s s" for s by (rule keeps_rows_subset) simp
qed (use keeps_rows_trans job_step_keeps_rows in blast)+

lemma find_key:
  assumes "service_inv db" "r \<in> set (db_jobs db)" "jr_idempotency_key r = Some k"
  shows "\<exists>j. find_by_idempotency (jr_caller_id r) k db = Inr (Some j) \<and> row_to_job r = Inr j"
proof -
  have "find (\<lambda>x. jr_caller_id x = jr_caller_id r \<and> jr_idempotency_key x = Some k) (db_jobs db) \<noteq> None"
    using assms(2,3) by (auto simp: find_None_iff)
  then obtain x where x: "find (\<lambda>x. jr_caller_id x = jr_caller_id r \<and> jr_idempotency_key x = Some k) (db_jobs db) = Some x"
    by blast
  then have "x \<in> set (db_jobs db) \<and> jr_caller_id x = jr_caller_id r \<and> jr_idempotency_key x = Some k"
    by (auto simp: find_Some_iff)
  then have "x = r" using assms unfolding service_inv_def keys_unique_def by auto
  moreover have "row_ok r" using assms(1,2) inv_row_ok unfolding service_inv_def by blast
  ultimately show ?thesis using row_ok_loads x by (fastforce simp: find_by_idempotency_def load_row_def)
qed

section \<open>Submission\<close>

lemma find_append_new: "find p xs = None \<Longrightarrow> find p (xs @ [x]) = (if p x then Some x else None)"
  by (induction xs) (auto split: if_splits)

definition holds_key :: "submission \<Rightarrow> string \<Rightarrow> job_db \<Rightarrow> bool" where
  \<comment> \<open>the job with this id was submitted with this caller, key and digest\<close>
  "holds_key s i db =
     (\<exists>r \<in> set (db_jobs db). jr_job_id r = i \<and> jr_caller_id r = sb_caller s \<and> jr_idempotency_key r = sb_key s
        \<and> jr_request_digest r = sb_digest s)"

lemma holds_key_persists: "holds_key s i db \<Longrightarrow> job_db_inv db \<Longrightarrow> job_step\<^sup>*\<^sup>* db db' \<Longrightarrow> holds_key s i db'"
proof -
  assume h: "holds_key s i db" and inv: "job_db_inv db" and st: "job_step\<^sup>*\<^sup>* db db'"
  from h obtain r where r: "r \<in> set (db_jobs db)" "jr_job_id r = i" "jr_caller_id r = sb_caller s"
    "jr_idempotency_key r = sb_key s" "jr_request_digest r = sb_digest s" by (auto simp: holds_key_def)
  obtain r' where "r' \<in> set (db_jobs db')" "row_step r r'"
    using rows_persist [OF st inv] r(1) unfolding keeps_rows_def by blast
  then show ?thesis using r by (auto simp: holds_key_def row_step_def)
qed

lemma resubmission:
  assumes "service_inv db" "holds_key s i db" "sb_key s \<noteq> None"
    and "prepare_submission env a = Inr s'" "sb_caller s' = sb_caller s" "sb_key s' = sb_key s"
  shows "if sb_digest s' = sb_digest s then \<exists>k. submit_job env a snap jid now db = (Inr (k, False), db) \<and> job_id k = i
         else submit_job env a snap jid now db = (Inl IdempotencyConflict, db)"
proof -
  from assms(2) obtain r where r: "r \<in> set (db_jobs db)" "jr_job_id r = i" "jr_caller_id r = sb_caller s"
    "jr_idempotency_key r = sb_key s" "jr_request_digest r = sb_digest s" by (auto simp: holds_key_def)
  obtain k where k: "sb_key s = Some k" using assms(3) by blast
  obtain j where j: "find_by_idempotency (jr_caller_id r) k db = Inr (Some j)" "row_to_job r = Inr j"
    using find_key [OF assms(1) r(1)] r(4) k by auto
  then have "known_submission s' db = Inr (Some j)" using assms(5,6) r(3) k by (simp add: known_submission_def)
  then show ?thesis
    using assms(4) row_to_job_fields(1,2) [OF j(2)] r(2,5) by (simp add: submit_job_def)
qed

lemma default_requirements_ok: "requirements_ok default_requirements"
  by (rule requirements_of_ok [of WORKER None "[]" False "[]" "[]" None]) code_simp

lemma prepared_requirements:
  assumes "prepare_submission env a = Inr s" "\<And>q. sj_requirements a = Some q \<Longrightarrow> requirements_ok q"
  shows "requirements_ok (sb_requirements s)"
  using assms default_requirements_ok
  by (auto simp: prepare_submission_def Let_def split: if_splits sum.splits option.splits)

lemma submitted_job_fields [simp]:
  "job_id (submitted_job s ok jid now) = jid" "job_request_digest (submitted_job s ok jid now) = sb_digest s"
  "job_caller_id (submitted_job s ok jid now) = sb_caller s" "job_idempotency_key (submitted_job s ok jid now) = sb_key s"
  "job_state (submitted_job s ok jid now) = (if ok then QUEUED else FAILED)"
  by (simp_all add: submitted_job_def)

lemma submitted_job_new:
  "job_check (submitted_job s ok jid now) = Inr j \<Longrightarrow> requirements_ok (sb_requirements s) \<Longrightarrow> new_job j"
  by (auto simp: job_check_iff new_job_def submitted_job_def)

definition stored_new :: "submission \<Rightarrow> bool \<Rightarrow> string \<Rightarrow> int \<Rightarrow> job \<Rightarrow> job_db \<Rightarrow> job_db \<Rightarrow> bool" where
  \<comment> \<open>this call inserted the job, queued or refused\<close>
  "stored_new s ok jid now j db db' \<longleftrightarrow>
     j = submitted_job s ok jid now \<and> new_job j \<and> (Inr j, db') = insert_job j now db"

lemma submit_shape:
  assumes "prepare_submission env a = Inr s" "submit_job env a snap jid now db = (res, db')"
    "requirements_ok (sb_requirements s)"
  shows "(\<exists>e. res = Inl e \<and> db' = db)
    \<or> (\<exists>j. res = Inr (j, False) \<and> db' = db \<and> known_submission s db = Inr (Some j) \<and> job_request_digest j = sb_digest s)
    \<or> (\<exists>j ok. res = Inr (j, True) \<and> feasible (sb_requirements s) snap = Inr ok \<and> stored_new s ok jid now j db db')"
proof (cases "known_submission s db")
  case (Inl e)
  then show ?thesis using assms(1,2) by (auto simp: submit_job_def)
next
  case known: (Inr known)
  show ?thesis
  proof (cases known)
    case (Some k)
    then show ?thesis using assms(1,2) known by (auto simp: submit_job_def split: if_splits)
  next
    case None
    show ?thesis
    proof (cases "feasible (sb_requirements s) snap")
      case (Inl e)
      then show ?thesis using assms(1,2) known None by (auto simp: submit_job_def)
    next
      case (Inr ok)
      show ?thesis
      proof (cases "job_check (submitted_job s ok jid now)")
        case (Inl e)
        then show ?thesis using assms(1,2) known None Inr by (auto simp: submit_job_def)
      next
        case j: (Inr j)
        then have eq: "j = submitted_job s ok jid now" by (simp add: job_check_iff)
        have "insert_submission s j now db = (res, db')" using assms(1,2) known None Inr j by (simp add: submit_job_def)
        moreover have "(insert_job j now db = (Inl JobConflict, db)) \<or> (\<exists>d. insert_job j now db = (Inr j, d))"
          by (simp add: insert_job_def Let_def)
        ultimately show ?thesis
          using known None Inr eq submitted_job_new [OF j assms(3)]
          by (auto simp: insert_submission_def stored_new_def)
      qed
    qed
  qed
qed

lemma stored_new_effect:
  assumes "stored_new s ok jid now j db db'"
  shows "job_step db db'" "holds_key s jid db'" "find_row jid db = None"
    "find_row jid db' = Some (job_to_columns j)"
proof -
  have j: "j = submitted_job s ok jid now" "new_job j" "insert_job j now db = (Inr j, db')"
    using assms by (auto simp: stored_new_def)
  show "job_step db db'" using step_insert [OF j(2), of db now] j(3) by simp
  have ids: "job_id j = jid" "jr_job_id (job_to_columns j) = jid" using j(1) by (simp_all add: job_to_columns_def)
  have new: "jid \<notin> jr_job_id ` set (db_jobs db)" "db_jobs db' = db_jobs db @ [job_to_columns j]"
    using j(3) ids by (auto simp: insert_job_def Let_def split: if_splits)
  then show "find_row jid db = None" by (simp add: find_row_None)
  then show "find_row jid db' = Some (job_to_columns j)"
    using new(2) ids by (simp add: find_row_def find_append_new)
  have "jr_caller_id (job_to_columns j) = sb_caller s" "jr_idempotency_key (job_to_columns j) = sb_key s"
    "jr_request_digest (job_to_columns j) = sb_digest s"
    using j(1) by (simp_all add: job_to_columns_def)
  then show "holds_key s jid db'" unfolding holds_key_def using new(2) ids by auto
qed

lemma known_holds_key:
  assumes "known_submission s db = Inr (Some j)" "job_request_digest j = sb_digest s"
  shows "holds_key s (job_id j) db \<and> sb_key s \<noteq> None"
proof -
  obtain k where k: "sb_key s = Some k" using assms(1) by (auto simp: known_submission_def split: option.splits)
  then obtain r where r: "find (\<lambda>r. jr_caller_id r = sb_caller s \<and> jr_idempotency_key r = Some k) (db_jobs db) = Some r"
    "row_to_job r = Inr j"
    using assms(1) by (auto simp: known_submission_def find_by_idempotency_def load_row_def split: option.splits sum.splits)
  then have "r \<in> set (db_jobs db) \<and> jr_caller_id r = sb_caller s \<and> jr_idempotency_key r = Some k"
    by (auto simp: find_Some_iff)
  then show ?thesis using row_to_job_fields(1,2) [OF r(2)] k assms(2) unfolding holds_key_def by auto
qed

text \<open>C30: An idempotency key names one job for ever.  On a reachable database a submission that
  fails writes nothing; one that succeeds answers either the job stored under the key or a new
  row, queued if a route could serve it and failed otherwise, and in both cases every later
  submission with the same caller and key, from any client and after any writers, creates
  nothing: the same request is answered with the same job, another request is refused.\<close>
theorem submission_is_idempotent:
  assumes "job_step\<^sup>*\<^sup>* empty_job_db db" "\<And>q. sj_requirements a = Some q \<Longrightarrow> requirements_ok q"
    "prepare_submission env a = Inr s" "submit_job env a snap jid now db = (res, db')"
  shows "case res of
      Inl e \<Rightarrow> db' = db
    | Inr (j, created) \<Rightarrow>
        (if created then job_id j = jid \<and> find_row jid db = None \<and> find_row jid db' = Some (job_to_columns j)
                       \<and> feasible (sb_requirements s) snap = Inr (job_state j = QUEUED)
                       \<and> (job_state j \<noteq> QUEUED \<longrightarrow> job_state j = FAILED \<and> job_failure_reason j = Some NO_ROUTE_FOR_REQUIREMENTS)
         else db' = db)
        \<and> (sb_key s \<noteq> None \<longrightarrow>
            (\<forall>later env' a' s' snap' jid' now'.
               job_step\<^sup>*\<^sup>* db' later \<and> prepare_submission env' a' = Inr s' \<and> sb_caller s' = sb_caller s \<and> sb_key s' = sb_key s \<longrightarrow>
               (if sb_digest s' = sb_digest s
                then \<exists>k. submit_job env' a' snap' jid' now' later = (Inr (k, False), later) \<and> job_id k = job_id j
                else submit_job env' a' snap' jid' now' later = (Inl IdempotencyConflict, later))))"
proof -
  have inv: "service_inv db" by (rule service.steps_inv [OF assms(1) empty_service_inv])
  have later: "if sb_digest s' = sb_digest s
               then \<exists>k. submit_job env' a' snap' jid' now' x = (Inr (k, False), x) \<and> job_id k = i
               else submit_job env' a' snap' jid' now' x = (Inl IdempotencyConflict, x)"
    if "job_step\<^sup>*\<^sup>* db db'" "holds_key s i db'" "sb_key s \<noteq> None" "job_step\<^sup>*\<^sup>* db' x"
      "prepare_submission env' a' = Inr s'" "sb_caller s' = sb_caller s" "sb_key s' = sb_key s"
    for i x env' a' s' snap' jid' now'
  proof -
    have inv': "service_inv db'" by (rule service.steps_inv [OF that(1) inv])
    have "service_inv x" by (rule service.steps_inv [OF that(4) inv'])
    moreover have "holds_key s i x" using holds_key_persists [OF that(2) _ that(4)] inv' by (simp add: service_inv_def)
    ultimately show ?thesis using resubmission that(3,5,6,7) by blast
  qed
  have ok: "requirements_ok (sb_requirements s)" using prepared_requirements [OF assms(3)] assms(2) by blast
  from submit_shape [OF assms(3,4) ok] show ?thesis
  proof (elim disjE exE conjE)
    fix j ok assume j: "res = Inr (j, True)" "feasible (sb_requirements s) snap = Inr ok" "stored_new s ok jid now j db db'"
    note e = stored_new_effect [OF j(3)]
    have "j = submitted_job s ok jid now" using j(3) by (simp add: stored_new_def)
    then show ?thesis using j(1,2) e(3,4) later [OF r_into_rtranclp [of job_step, OF e(1)] e(2)]
      by (cases ok) (simp_all add: submitted_job_def)
  next
    fix j assume j: "res = Inr (j, False)" "db' = db" "known_submission s db = Inr (Some j)" "job_request_digest j = sb_digest s"
    then show ?thesis using known_holds_key [OF j(3,4)] later [of "job_id j"] by simp
  qed simp
qed

definition sample_submit_env :: submit_env where
  "sample_submit_env = \<lparr>se_repo = Inr, se_base_sha = (\<lambda>_ _. Inr ''abc''),
     se_digest = (\<lambda>doc. case dict_get doc ''goal'' of Some (JStr g) \<Rightarrow> g | _ \<Rightarrow> [])\<rparr>"

definition sample_submit :: submit_args where
  "sample_submit = \<lparr>sj_repo = ''/r'', sj_goal = '' fix '', sj_acceptance = Some '' '', sj_base_ref = [], sj_requirements = None,
     sj_priority = ''urgent '', sj_deadline = Some ''2026-10-20T10:00:00+02:00'', sj_not_before = None, sj_key = Some ''k'',
     sj_caller = ''cli''\<rparr>"

definition sample_routes :: routing_snapshot where
  "sample_routes = \<lparr>rt_role_chains = [(''WORKER'', [[\<lparr>wc_provider = ''codex'', wc_model = ''terra'', wc_binding_id = None,
      wc_training_required = None\<rparr>]])], rt_pacing = []\<rparr>"

lemma sample_submission:
  "case prepare_submission sample_submit_env sample_submit of Inl _ \<Rightarrow> False
   | Inr s \<Rightarrow> sb_key s = Some ''k'' \<and> sb_deadline s = Some ''2026-10-20T08:00:00+00:00'' \<and> sb_acceptance s = None"
  "case fst (submit_job sample_submit_env sample_submit sample_routes ''J1'' 0 empty_job_db) of Inl _ \<Rightarrow> False
   | Inr (j, created) \<Rightarrow> created \<and> job_state j = QUEUED"
  by code_simp+

theorem submission_is_idempotent_witness:
  "\<exists>j db k. submit_job sample_submit_env sample_submit sample_routes ''J1'' 0 empty_job_db = (Inr (j, True), db) \<and> job_id j = ''J1''
     \<and> submit_job sample_submit_env sample_submit sample_routes ''J2'' 60 db = (Inr (k, False), db) \<and> job_id k = ''J1''"
proof -
  obtain s where s: "prepare_submission sample_submit_env sample_submit = Inr s" "sb_key s = Some ''k''"
    using sample_submission(1) by (auto split: sum.splits)
  obtain j db where j: "submit_job sample_submit_env sample_submit sample_routes ''J1'' 0 empty_job_db = (Inr (j, True), db)"
    using sample_submission(2) by (cases "submit_job sample_submit_env sample_submit sample_routes ''J1'' 0 empty_job_db")
      (auto split: sum.splits)
  have "job_step\<^sup>*\<^sup>* empty_job_db empty_job_db" "job_step\<^sup>*\<^sup>* db db" by simp_all
  moreover have "\<And>q. sj_requirements sample_submit = Some q \<Longrightarrow> requirements_ok q" by (simp add: sample_submit_def)
  ultimately show ?thesis using submission_is_idempotent [OF _ _ s(1) j] s j by fastforce
qed

section \<open>Settling old capacity\<close>

definition free_row :: "(string \<Rightarrow> string option \<Rightarrow> bool) \<Rightarrow> int \<Rightarrow> reservation_row \<Rightarrow> reservation_row \<Rightarrow> bool" where
  \<comment> \<open>a row left alone, or a reserved one released for a run and job the predicate accepts\<close>
  "free_row ok now r r' \<longleftrightarrow>
     r' = r \<or> rr_state r = ''RESERVED'' \<and> r' = r\<lparr>rr_state := ''RELEASED'', rr_settled_at := Some (isoformat now)\<rparr> \<and>
       (\<exists>run. py_strip run = rr_run_id r \<and> ok run (rr_job_id r))"

definition frees :: "(string \<Rightarrow> string option \<Rightarrow> bool) \<Rightarrow> int \<Rightarrow> owner_db \<Rightarrow> owner_db \<Rightarrow> bool" where
  "frees ok now db db' \<longleftrightarrow> list_all2 (free_row ok now) (od_reservations db) (od_reservations db')"

definition reserved_count :: "owner_db \<Rightarrow> nat" where
  "reserved_count db = length (filter (\<lambda>r. rr_state r = ''RESERVED'') (od_reservations db))"

lemma frees_refl [simp]: "frees ok now db db"
  by (simp add: frees_def list_all2_same free_row_def)

lemma frees_trans: "frees ok now a b \<Longrightarrow> frees ok now b c \<Longrightarrow> frees ok now a c"
  unfolding frees_def by (rule list_all2_trans) (auto simp: free_row_def)

definition may_free :: "debt_env \<Rightarrow> (owner_db \<Rightarrow> bool) option \<Rightarrow> job_db \<Rightarrow> string \<Rightarrow> string option \<Rightarrow> bool" where
  \<comment> \<open>the debt passes every check and the lease guard, if any, can agree\<close>
  "may_free env guard jobs run job \<longleftrightarrow> settleable env jobs run job \<and> (\<forall>g. guard = Some g \<longrightarrow> (\<exists>db. g db))"

lemma release_terminal_debt_rows:
  assumes "release_terminal_debt run (Some j) guard False now db = (n, db')" "settleable env jobs run (Some j)"
  shows "frees (may_free env guard jobs) now db db'" "int (reserved_count db) = int (reserved_count db') + max 0 n"
proof -
  let ?p = "\<lambda>r. rr_run_id r = py_strip run \<and> rr_state r = ''RESERVED'' \<and> rr_job_id r = Some j"
  let ?f = "\<lambda>r. if ?p r then r\<lparr>rr_state := ''RELEASED'', rr_settled_at := Some (isoformat now)\<rparr> else r"
  have shape: "od_reservations db' = od_reservations db \<and> n \<le> 0 \<or>
     od_reservations db' = map ?f (od_reservations db) \<and> n = int (length (filter ?p (od_reservations db)))
       \<and> (\<forall>g. guard = Some g \<longrightarrow> g (ensure_tables db))"
    using assms(1) by (auto simp: release_terminal_debt_def Let_def update_reservations_def split: if_splits option.splits)
  show "frees (may_free env guard jobs) now db db'"
    using shape
  proof (elim disjE conjE)
    assume "od_reservations db' = map ?f (od_reservations db)" and g: "\<forall>g. guard = Some g \<longrightarrow> g (ensure_tables db)"
    moreover have "may_free env guard jobs run (Some j)" using assms(2) g by (auto simp: may_free_def)
    then have "list_all2 (free_row (may_free env guard jobs) now) rs (map ?f rs)" for rs
      unfolding list_all2_map2 by (intro list_all2_refl) (auto simp: free_row_def)
    ultimately show ?thesis by (simp add: frees_def)
  qed (simp add: frees_def list_all2_same free_row_def)
  have count: "length (filter (\<lambda>r. rr_state r = ''RESERVED'') rs) =
      length (filter (\<lambda>r. rr_state r = ''RESERVED'') (map ?f rs)) + length (filter ?p rs)" for rs
    by (induction rs) auto
  show "int (reserved_count db) = int (reserved_count db') + max 0 n"
    using shape count [of "od_reservations db"] unfolding reserved_count_def by (elim disjE conjE) simp_all
qed

definition settle_rel ::
  "debt_env \<Rightarrow> (owner_db \<Rightarrow> bool) option \<Rightarrow> job_db \<Rightarrow> int \<Rightarrow> settlement \<times> owner_db \<Rightarrow> settlement \<times> owner_db \<Rightarrow> bool" where
  \<comment> \<open>what settling some debts does to the counters and the rows\<close>
  "settle_rel env guard jobs now a b \<longleftrightarrow>
     frees (may_free env guard jobs) now (snd a) (snd b) \<and>
     st_released (fst b) - st_released (fst a) = int (reserved_count (snd a)) - int (reserved_count (snd b))"

lemma settle_rel_refl: "settle_rel env guard jobs now a a"
  by (simp add: settle_rel_def)

lemma settle_rel_trans:
  "settle_rel env guard jobs now a b \<Longrightarrow> settle_rel env guard jobs now b c \<Longrightarrow> settle_rel env guard jobs now a c"
  unfolding settle_rel_def using frees_trans by auto

lemma settle_debt_rel: "settle_rel env guard jobs now acc (settle_debt env guard now jobs d acc)"
proof -
  obtain st db where acc: "acc = (st, db)" by fastforce
  show ?thesis
  proof (cases "settleable env jobs (rd_run_id d) (rd_job_id d)")
    case True
    then obtain j where j: "rd_job_id d = Some j" by (auto simp: settleable_def split: option.splits)
    obtain n db' where r: "release_terminal_debt (rd_run_id d) (Some j) guard False now db = (n, db')" by fastforce
    show ?thesis
      using True j release_terminal_debt_rows [OF r, of env jobs] unfolding acc settle_debt_def settle_rel_def
      by (simp add: r Let_def)
  next
    case False
    then show ?thesis by (simp add: acc settle_debt_def settle_rel_def Let_def)
  qed
qed

lemma settle_page_rel: "settle_rel env guard jobs now acc (fold (settle_debt env guard now jobs) page acc)"
proof (induction page arbitrary: acc)
  case (Cons d page)
  show ?case using settle_rel_trans [OF settle_debt_rel Cons.IH] by simp
qed (simp add: settle_rel_refl)

definition debts_left :: "string \<Rightarrow> owner_db \<Rightarrow> nat" where
  \<comment> \<open>the measure of the loop\<close>
  "debts_left cursor db = length (filter (\<lambda>r. rr_state r = ''RESERVED'' \<and> cursor < rr_run_id r) (od_reservations db))"

lemma frees_debts_left: "frees ok now db db' \<Longrightarrow> debts_left c db' \<le> debts_left c db"
  unfolding frees_def debts_left_def by (induction rule: list_all2_induct) (auto simp: free_row_def)

lemma length_filter_strict:
  "x \<in> set xs \<Longrightarrow> Q x \<Longrightarrow> \<not> P x \<Longrightarrow> (\<And>y. P y \<Longrightarrow> Q y) \<Longrightarrow> length (filter P xs) < length (filter Q xs)"
proof (induction xs)
  case (Cons a xs)
  have "length (filter P xs) \<le> length (filter Q xs)" using Cons.prems(4) by (induction xs) auto
  then show ?case using Cons by auto
qed simp

lemma debts_left_after:
  assumes "r \<in> set (reserved_rows_after cursor db)"
  shows "debts_left (rr_run_id r) db < debts_left cursor db"
proof -
  have r: "r \<in> set (od_reservations db)" "rr_state r = ''RESERVED''" "cursor < rr_run_id r"
    using assms by (simp_all add: reserved_rows_after_def)
  show ?thesis
    unfolding debts_left_def by (rule length_filter_strict [OF r(1)]) (use r in auto)
qed

lemma debts_page_rows:
  assumes "list_reserved_debts limit after db = Inr page" "d \<in> set page"
  shows "\<exists>r \<in> set (reserved_rows_after (or_text after []) db). rr_run_id r = rd_run_id d"
proof -
  let ?ts = "take (nat limit) (reserved_rows_after (or_text after []) db)"
  have page: "page = map snd (group_debts ?ts [])"
    using assms(1) by (auto simp: list_reserved_debts_def split: if_splits)
  have "sorted (map rr_run_id ?ts)" using sorted_runs_after by (simp add: sorted_wrt_take take_map [symmetric])
  then have shape: "debts_shape ?ts (group_debts ?ts [])"
    using group_debts_shape [of "[]" "[]" ?ts] by (simp add: debts_shape_def)
  obtain k where k: "(k, d) \<in> set (group_debts ?ts [])" using assms(2) unfolding page by auto
  then have "k \<in> set (map fst (group_debts ?ts []))" by force
  moreover have "set (map fst (group_debts ?ts [])) = rr_run_id ` set ?ts" "rd_run_id d = k"
    using shape k unfolding debts_shape_def by blast+
  ultimately obtain r where "r \<in> set ?ts" "rr_run_id r = rd_run_id d" by auto
  then show ?thesis by (meson in_set_takeD)
qed

lemma or_text_cursor: "or_text (Some x) [] = x"
  by (simp add: or_text_def)

lemma settle_pages_end:
  assumes "1 \<le> page_size" "debts_left (or_text cursor []) (snd acc) < fuel"
  shows "\<exists>acc'. settle_pages fuel env guard page_size now jobs cursor acc = Some (Inr acc') \<and>
           settle_rel env guard jobs now acc acc'"
  using assms(2)
proof (induction fuel arbitrary: cursor acc)
  case (Suc fuel)
  obtain page where page: "list_reserved_debts page_size cursor (snd acc) = Inr page"
    using assms(1) by (simp add: list_reserved_debts_def)
  let ?acc = "fold (settle_debt env guard now jobs) page acc"
  have rel: "settle_rel env guard jobs now acc ?acc" by (rule settle_page_rel)
  show ?case
  proof (cases "page = [] \<or> int (length page) < page_size")
    case True
    then show ?thesis using page rel settle_rel_refl by (auto simp del: split_paired_Ex)
  next
    case False
    then obtain r where r: "r \<in> set (reserved_rows_after (or_text cursor []) (snd acc))" "rr_run_id r = rd_run_id (last page)"
      using debts_page_rows [OF page, of "last page"] by auto
    have "debts_left (rd_run_id (last page)) (snd ?acc) \<le> debts_left (rd_run_id (last page)) (snd acc)"
      using rel frees_debts_left unfolding settle_rel_def by blast
    also have "\<dots> < debts_left (or_text cursor []) (snd acc)" using debts_left_after [OF r(1)] r(2) by simp
    finally have "debts_left (or_text (Some (rd_run_id (last page))) []) (snd ?acc) < fuel"
      using Suc.prems by (simp add: or_text_cursor)
    from Suc.IH [OF this] show ?thesis using page False settle_rel_trans [OF rel] by (auto simp del: split_paired_Ex)
  qed
qed simp

lemma settlement_ends:
  assumes "1 \<le> page_size"
  shows "\<exists>st db. settle_preemption_debts env guard page_size now w = Some (Inr (st, db)) \<and>
     settle_rel env guard (w_jobs w) now (\<lparr>st_scanned = 0, st_released = 0, st_skipped = 0\<rparr>, w_owner w) (st, db)"
proof -
  let ?init = "(\<lparr>st_scanned = 0, st_released = 0, st_skipped = 0\<rparr>, w_owner w)"
  have "debts_left (or_text None []) (snd ?init) < Suc (length (od_reservations (w_owner w)))"
    by (simp add: debts_left_def less_Suc_eq_le)
  from settle_pages_end [OF assms this, of env guard now "w_jobs w"]
  obtain acc' where "settle_preemption_debts env guard page_size now w = Some (Inr acc')"
    "settle_rel env guard (w_jobs w) now ?init acc'"
    unfolding settle_preemption_debts_def by blast
  then show ?thesis by (cases acc') blast
qed

text \<open>C31: Settling the old capacity always ends.  Whatever the reservations, the runs and the lease
  guard answer, the page loop returns within one round per reservation row and one more, and it
  reports exactly the number of rows that stopped being reserved; only a page size below one
  is refused.\<close>
theorem settlement_terminates:
  "if page_size < 1
   then settle_preemption_debts env guard page_size now w = Some (Inl (ValueError ''limit must be >= 1''))
   else \<exists>st db. settle_preemption_debts env guard page_size now w = Some (Inr (st, db))
          \<and> st_released st = int (reserved_count (w_owner w)) - int (reserved_count db)"
proof (cases "page_size < 1")
  case False
  then show ?thesis using settlement_ends [of page_size env guard now w] unfolding settle_rel_def by auto
qed (simp add: settle_preemption_debts_def list_reserved_debts_def)

text \<open>Settlement frees only what is provably over.  Each reservation is left as it is or goes
  from reserved to released, and then its run ended without completing according to the
  database that owns it, uncontradicted by the caller's lookup; it belongs to a stored job that
  dispatched this very run, is not running it any more and authenticates its preemption; under
  a guard that always denies nothing changes.\<close>
theorem settlement_frees_only_settled:
  assumes "settle_preemption_debts env guard page_size now w = Some (Inr (st, db))"
  shows "list_all2 (\<lambda>r r'. r' = r \<or>
       rr_state r = ''RESERVED'' \<and> r' = r\<lparr>rr_state := ''RELEASED'', rr_settled_at := Some (isoformat now)\<rparr> \<and>
       (\<exists>run i j. py_strip run = rr_run_id r \<and> rr_job_id r = Some i \<and> get_job i (w_jobs w) = Inr (Some j) \<and>
          de_resolved env run \<in> {Some Run_failed, Some Run_orphaned, Some Run_preempted} \<and>
          terminal_run_status env run = de_resolved env run \<and>
          run \<in> set (job_run_ids j) \<and> \<not> (job_state j = RUNNING \<and> job_current_run_id j = Some run) \<and>
          run_has_authentic_receipt env run j))
     (od_reservations (w_owner w)) (od_reservations db)
   \<and> (\<forall>g. guard = Some g \<and> (\<forall>d. \<not> g d) \<longrightarrow> od_reservations db = od_reservations (w_owner w))"
proof -
  have "1 \<le> page_size"
    using assms by (cases "page_size < 1") (simp_all add: settle_preemption_debts_def list_reserved_debts_def)
  then have f: "frees (may_free env guard (w_jobs w)) now (w_owner w) db"
    using settlement_ends [of page_size env guard now w] assms by (auto simp: settle_rel_def)
  have s: "\<exists>i j. job = Some i \<and> get_job i (w_jobs w) = Inr (Some j) \<and>
          de_resolved env run \<in> {Some Run_failed, Some Run_orphaned, Some Run_preempted} \<and>
          terminal_run_status env run = de_resolved env run \<and>
          run \<in> set (job_run_ids j) \<and> \<not> (job_state j = RUNNING \<and> job_current_run_id j = Some run) \<and>
          run_has_authentic_receipt env run j" if "may_free env guard (w_jobs w) run job" for run job
  proof -
    have ok: "settleable env (w_jobs w) run job" using that by (simp add: may_free_def)
    then obtain i j where "job = Some i" "get_job i (w_jobs w) = Inr (Some j)" "run \<in> set (job_run_ids j)"
      "\<not> (job_state j = RUNNING \<and> job_current_run_id j = Some run)" "run_has_authentic_receipt env run j"
      by (auto simp: settleable_def split: option.splits sum.splits)
    moreover have t: "terminal_run_status env run = de_resolved env run"
      using ok by (auto simp: settleable_def terminal_run_status_def split: option.splits if_splits)
    obtain st where st: "de_resolved env run = Some st" using ok by (auto simp: settleable_def)
    have "de_resolved env run \<in> {Some Run_failed, Some Run_orphaned, Some Run_preempted}"
      using ok t st by (cases st) (auto simp: settleable_def)
    ultimately show ?thesis using t by blast
  qed
  have "od_reservations db = od_reservations (w_owner w)" if "guard = Some g" "\<forall>d. \<not> g d" for g
  proof -
    have "list_all2 (\<lambda>r r'. r' = r) (od_reservations (w_owner w)) (od_reservations db)"
      using f unfolding frees_def by (rule list_all2_mono) (use that in \<open>auto simp: free_row_def may_free_def\<close>)
    then show ?thesis by (auto simp: list_all2_conv_all_nth intro: nth_equalityI)
  qed
  moreover have "list_all2 (free_row (may_free env guard (w_jobs w)) now) (od_reservations (w_owner w)) (od_reservations db)"
    using f by (simp add: frees_def)
  then have "list_all2 (\<lambda>r r'. r' = r \<or>
       rr_state r = ''RESERVED'' \<and> r' = r\<lparr>rr_state := ''RELEASED'', rr_settled_at := Some (isoformat now)\<rparr> \<and>
       (\<exists>run i j. py_strip run = rr_run_id r \<and> rr_job_id r = Some i \<and> get_job i (w_jobs w) = Inr (Some j) \<and>
          de_resolved env run \<in> {Some Run_failed, Some Run_orphaned, Some Run_preempted} \<and>
          terminal_run_status env run = de_resolved env run \<and>
          run \<in> set (job_run_ids j) \<and> \<not> (job_state j = RUNNING \<and> job_current_run_id j = Some run) \<and>
          run_has_authentic_receipt env run j)) (od_reservations (w_owner w)) (od_reservations db)"
    by (rule list_all2_mono) (use s in \<open>unfold free_row_def, blast\<close>)
  ultimately show ?thesis by blast
qed

definition sample_debt_env :: debt_env where
  "sample_debt_env = \<lparr>de_resolved = (\<lambda>run. if run = ''run-1'' then Some Run_preempted else None), de_injected = None,
     de_authenticate = (\<lambda>_ _ _. Authentic), de_failures = (\<lambda>_. None)\<rparr>"

definition sample_world :: world where
  \<comment> \<open>run-1 was preempted: its job is queued again, its two windows are still reserved\<close>
  "sample_world = \<lparr>w_jobs = snd (requeue ''J1'' PREEMPTED None None 5 sample_db2), w_owner = sample_owner\<rparr>"

definition busy_world :: world where
  \<comment> \<open>another run, which cannot be resolved, comes first and holds two windows\<close>
  "busy_world = sample_world\<lparr>w_owner :=
     snd (reserve ''run-0'' None ''codex/gpt'' sample_draws ''S'' (\<lambda>k. ''old_'' @ replicate k CHR ''x'') 63928087100000000 sample_owner)\<rparr>"

definition settled_summary :: "(py_error + settlement \<times> owner_db) option \<Rightarrow> (int \<times> int \<times> string list) option" where
  "settled_summary x = (case x of Some (Inr (st, db)) \<Rightarrow> Some (st_scanned st, st_released st, map rr_state (od_reservations db))
     | _ \<Rightarrow> None)"

lemma sample_settlement:
  "settled_summary (settle_preemption_debts sample_debt_env (Some (\<lambda>_. True)) 200 63928087300000000 sample_world)
     = Some (1, 2, [''RELEASED'', ''RELEASED''])"
  by code_simp

theorem settlement_frees_only_settled_witness:
  "\<exists>st db. settle_preemption_debts sample_debt_env (Some (\<lambda>_. True)) 200 63928087300000000 sample_world = Some (Inr (st, db))
     \<and> map rr_state (od_reservations db) = [''RELEASED'', ''RELEASED'']
     \<and> length (od_reservations sample_owner) = length (od_reservations db)"
proof -
  obtain st db where s: "settle_preemption_debts sample_debt_env (Some (\<lambda>_. True)) 200 63928087300000000 sample_world = Some (Inr (st, db))"
    using settlement_ends [of 200] by fastforce
  have "length (od_reservations (w_owner sample_world)) = length (od_reservations db)"
    using settlement_frees_only_settled [OF s] list_all2_lengthD by blast
  moreover have "map rr_state (od_reservations db) = [''RELEASED'', ''RELEASED'']"
    using sample_settlement unfolding s by (simp add: settled_summary_def)
  ultimately show ?thesis using s by (simp add: sample_world_def)
qed

text \<open>The loop compares the number of runs on a page with the limit, which counts rows: a run with
  two windows makes a full page look short, and the debts behind it wait.\<close>
lemma settlement_stops_early:
  "settled_summary (settle_preemption_debts sample_debt_env None 2 63928087300000000 busy_world)
     = Some (1, 0, [''RESERVED'', ''RESERVED'', ''RESERVED'', ''RESERVED''])"
  "settled_summary (settle_preemption_debts sample_debt_env None 200 63928087300000000 busy_world)
     = Some (2, 2, [''RELEASED'', ''RELEASED'', ''RESERVED'', ''RESERVED''])"
  by code_simp+

section \<open>Reconciliation\<close>

definition reconcile_verdict :: "run_status option \<Rightarrow> (job_state \<times> string option) option" where
  \<comment> \<open>what the status of its run decides about a running job\<close>
  "reconcile_verdict st =
     (case st of None \<Rightarrow> Some (FAILED, Some RUN_MISSING) | Some Run_completed \<Rightarrow> Some (SUCCEEDED, None)
      | Some Run_failed \<Rightarrow> Some (FAILED, Some RUN_FAILED) | _ \<Rightarrow> None)"

lemma verdict_args_ok: "reconcile_verdict st = Some (t, f) \<Longrightarrow> reconcile_args_ok t f"
  by (auto simp: reconcile_verdict_def reconcile_args_ok_def failure_reason_known_def split: option.splits run_status.splits)

definition row_outcome :: "(string \<Rightarrow> run_status option) \<Rightarrow> job_row \<Rightarrow> job_row option \<Rightarrow> bool" where
  "row_outcome run_status r found =
     (case reconcile_verdict (run_status (the (jr_current_run_id r))) of
        Some (t, f) \<Rightarrow> (\<exists>r'. found = Some r' \<and> jr_state r' = state_value t \<and> jr_failure_reason r' = f \<and> jr_run_ids r' = jr_run_ids r)
      | None \<Rightarrow> run_status (the (jr_current_run_id r)) \<noteq> Some Run_preempted \<longrightarrow> found = Some r)"

definition change_ok :: "(string \<Rightarrow> run_status option) \<Rightarrow> job_row \<Rightarrow> reconcile_change \<Rightarrow> bool" where
  "change_ok run_status r c =
     (rc_job_id c = jr_job_id r \<and> jr_current_run_id r = Some (rc_run_id c) \<and>
      (reconcile_verdict (run_status (rc_run_id c)) = Some (rc_to_state c, rc_failure c) \<or>
       run_status (rc_run_id c) = Some Run_preempted \<and> rc_to_state c = QUEUED))"

definition tail_ok :: "preemption_tail \<Rightarrow> bool" where
  \<comment> \<open>the coordinator writes through the job store and only to the job it completes\<close>
  "tail_ok tail \<longleftrightarrow> (\<forall>j run d. job_step\<^sup>*\<^sup>* d (snd (tail j run d)) \<and> only_row (job_id j) d (snd (tail j run d)))"

lemma reconcile_job_verdict:
  assumes "job_current_run_id j = Some run" "reconcile_verdict (run_status run) = Some (t, f)"
    "reconcile_transition (job_id j) t f now d = (Inr k, d')"
  shows "reconcile_job run_status tail now j d =
     (Inr (Some \<lparr>rc_job_id = job_id j, rc_run_id = run, rc_to_state = t, rc_failure = f, rc_job = k\<rparr>), d')"
proof -
  have "run_status run = None \<or> run_status run = Some Run_completed \<or> run_status run = Some Run_failed"
    using assms(2) by (auto simp: reconcile_verdict_def split: option.splits run_status.splits)
  then show ?thesis using assms by (elim disjE) (auto simp: reconcile_job_def reconcile_verdict_def)
qed

lemma reconcile_job_effect:
  assumes "job_db_inv d" "find_row (job_id j) d = Some r" "row_to_job r = Inr j" "jr_state r = state_value RUNNING" "tail_ok tail"
  shows "\<exists>c d'. reconcile_job run_status tail now j d = (Inr c, d') \<and> job_step\<^sup>*\<^sup>* d d' \<and> only_row (job_id j) d d' \<and>
     row_outcome run_status r (find_row (job_id j) d') \<and> (\<forall>x. c = Some x \<longrightarrow> change_ok run_status r x)"
proof -
  note m = find_row_Some [OF assms(2)]
  have "row_ok r" using inv_row_ok [OF assms(1)] m by blast
  from row_ok_state [OF this assms(4)] obtain run where run: "jr_current_run_id r = Some run"
    by (auto simp: row_shape_ok_def)
  then have jrun: "job_current_run_id j = Some run" using row_to_job_fields(3) [OF assms(3)] by simp
  show ?thesis
  proof (cases "reconcile_verdict (run_status run)")
    case (Some v)
    obtain t f where v: "v = (t, f)" by fastforce
    obtain k d' r' where k: "reconcile_transition (job_id j) t f now d = (Inr k, d')" "job_step d d'" "find_row (job_id j) d' = Some r'"
      "jr_state r' = state_value t" "jr_failure_reason r' = f" "jr_run_ids r' = jr_run_ids r"
      using reconcile_success [OF assms(1,2,4) verdict_args_ok] Some v by metis
    have "only_row (job_id j) d d'" using only_row_reconcile [of "job_id j" d t f now] k(1) by simp
    moreover have "row_outcome run_status r (find_row (job_id j) d')" using Some v k run by (simp add: row_outcome_def)
    moreover have "change_ok run_status r \<lparr>rc_job_id = job_id j, rc_run_id = run, rc_to_state = t, rc_failure = f, rc_job = k\<rparr>"
      using Some v run m by (simp add: change_ok_def)
    ultimately show ?thesis
      using reconcile_job_verdict [OF jrun, of run_status, OF Some [unfolded v] k(1), of tail] k(2) by blast
  next
    case None
    have out: "row_outcome run_status r (find_row (job_id j) d')" if "d' = d \<or> run_status run = Some Run_preempted" for d'
      using that None run assms(2) by (auto simp: row_outcome_def)
    show ?thesis
    proof (cases "run_status run = Some Run_preempted")
      case True
      obtain x d' where t: "tail j run d = (x, d')" by fastforce
      have st: "job_step\<^sup>*\<^sup>* d d'" "only_row (job_id j) d d'" using assms(5) t unfolding tail_ok_def by (metis snd_conv)+
      have "\<exists>c. reconcile_job run_status tail now j d = (Inr c, d') \<and> (\<forall>x. c = Some x \<longrightarrow> change_ok run_status r x)"
        using True jrun t run m by (cases x) (auto simp: reconcile_job_def change_ok_def)
      then show ?thesis using st out True by blast
    next
      case False
      then have "reconcile_job run_status tail now j d = (Inr None, d)"
        using None jrun by (auto simp: reconcile_job_def reconcile_verdict_def split: option.splits run_status.splits)
      then show ?thesis using out [of d] by auto
    qed
  qed
qed

lemma reconcile_loop_effect:
  assumes "job_db_inv d" "distinct (map job_id js)" "tail_ok tail"
    "\<forall>j \<in> set js. \<exists>r. find_row (job_id j) d = Some r \<and> row_to_job r = Inr j \<and> jr_state r = state_value RUNNING"
  shows "\<exists>cs d'. reconcile_loop run_status tail now js d = (Inr cs, d') \<and> job_step\<^sup>*\<^sup>* d d' \<and>
     (\<forall>k. k \<notin> job_id ` set js \<longrightarrow> find_row k d' = find_row k d) \<and>
     (\<forall>j r. j \<in> set js \<and> find_row (job_id j) d = Some r \<longrightarrow> row_outcome run_status r (find_row (job_id j) d')) \<and>
     (\<forall>c \<in> set cs. rc_job_id c \<in> job_id ` set js \<and>
        (\<exists>r. find_row (rc_job_id c) d = Some r \<and> jr_state r = state_value RUNNING \<and> change_ok run_status r c))"
  using assms(1,2,4)
proof (induction js arbitrary: d)
  case (Cons j js)
  then obtain r where r: "find_row (job_id j) d = Some r" "row_to_job r = Inr j" "jr_state r = state_value RUNNING" by auto
  obtain c d1 where c: "reconcile_job run_status tail now j d = (Inr c, d1)" "job_step\<^sup>*\<^sup>* d d1" "only_row (job_id j) d d1"
    "row_outcome run_status r (find_row (job_id j) d1)" "\<forall>x. c = Some x \<longrightarrow> change_ok run_status r x"
    using reconcile_job_effect [OF Cons.prems(1) r assms(3), of run_status now] by blast
  have other: "find_row (job_id k) d1 = find_row (job_id k) d" if "k \<in> set js" for k
    using c(3) that Cons.prems(2) unfolding only_row_def by (auto simp: image_iff)
  have inv1: "job_db_inv d1" by (rule job_machine.steps_inv [OF c(2) Cons.prems(1)])
  have rest: "\<forall>k \<in> set js. \<exists>r. find_row (job_id k) d1 = Some r \<and> row_to_job r = Inr k \<and> jr_state r = state_value RUNNING"
    using Cons.prems(3) other by simp
  obtain cs d2 where cs: "reconcile_loop run_status tail now js d1 = (Inr cs, d2)" "job_step\<^sup>*\<^sup>* d1 d2"
    "\<forall>k. k \<notin> job_id ` set js \<longrightarrow> find_row k d2 = find_row k d1"
    "\<forall>k r. k \<in> set js \<and> find_row (job_id k) d1 = Some r \<longrightarrow> row_outcome run_status r (find_row (job_id k) d2)"
    "\<forall>c \<in> set cs. rc_job_id c \<in> job_id ` set js \<and>
       (\<exists>r. find_row (rc_job_id c) d1 = Some r \<and> jr_state r = state_value RUNNING \<and> change_ok run_status r c)"
    using Cons.IH [OF inv1 _ rest] Cons.prems(2) by auto
  have frame: "\<forall>k. k \<notin> job_id ` set (j # js) \<longrightarrow> find_row k d2 = find_row k d"
    using cs(3) c(3) by (simp add: only_row_def)
  have rows: "\<forall>k r. k \<in> set (j # js) \<and> find_row (job_id k) d = Some r \<longrightarrow> row_outcome run_status r (find_row (job_id k) d2)"
  proof (intro allI impI)
    fix k r' assume k: "k \<in> set (j # js) \<and> find_row (job_id k) d = Some r'"
    show "row_outcome run_status r' (find_row (job_id k) d2)"
    proof (cases "k \<in> set js")
      case True
      then show ?thesis using cs(4) other k by metis
    next
      case False
      then have "k = j" "job_id j \<notin> job_id ` set js" using k Cons.prems(2) by auto
      then show ?thesis using cs(3) c(4) k r(1) by simp
    qed
  qed
  have late: "rc_job_id x \<in> job_id ` set (j # js) \<and>
      (\<exists>r. find_row (rc_job_id x) d = Some r \<and> jr_state r = state_value RUNNING \<and> change_ok run_status r x)"
    if "x \<in> set (case c of None \<Rightarrow> [] | Some c \<Rightarrow> [c]) \<union> set cs" for x
  proof (cases "x \<in> set cs")
    case True
    then show ?thesis using cs(5) other by fastforce
  next
    case False
    then have "c = Some x" using that by (auto split: option.splits)
    then have "change_ok run_status r x" using c(5) by blast
    then show ?thesis using r find_row_Some [OF r(1)] by (auto simp: change_ok_def)
  qed
  have "reconcile_loop run_status tail now (j # js) d = (Inr ((case c of None \<Rightarrow> [] | Some c \<Rightarrow> [c]) @ cs), d2)"
    using c(1) cs(1) by simp
  then show ?case using rtranclp_trans [OF c(2) cs(2)] frame rows late unfolding set_append [symmetric] by blast
qed simp

lemma load_rows_ok:
  "\<forall>r \<in> set rs. row_ok r \<Longrightarrow> \<exists>js. load_rows rs = Inr js \<and> list_all2 (\<lambda>r j. row_to_job r = Inr j) rs js"
proof (induction rs)
  case (Cons r rs)
  then obtain j js where "row_to_job r = Inr j" "load_rows rs = Inr js" "list_all2 (\<lambda>r j. row_to_job r = Inr j) rs js"
    using row_ok_loads by force
  then show ?case by (auto simp: load_row_def)
qed simp

lemma list_all2_right: "list_all2 P xs ys \<Longrightarrow> y \<in> set ys \<Longrightarrow> (\<And>x. x \<in> set xs \<Longrightarrow> P x y \<Longrightarrow> thesis) \<Longrightarrow> thesis"
  by (induction rule: list_all2_induct) auto

lemma loaded_ids: "list_all2 (\<lambda>r j. row_to_job r = Inr j) rs js \<Longrightarrow> map job_id js = map jr_job_id rs"
  by (induction rule: list_all2_induct) (simp_all add: row_to_job_fields)

lemma list_jobs_ok:
  assumes "job_db_inv db"
  shows "\<exists>js rs. list_jobs_raw (Some st) n db = Inr js \<and> list_all2 (\<lambda>r j. row_to_job r = Inr j) rs js \<and>
     distinct (map job_id js) \<and> (\<forall>r \<in> set rs. r \<in> set (db_jobs db) \<and> jr_state r = state_value st) \<and>
     (length (filter (\<lambda>r. jr_state r = state_value st) (db_jobs db)) \<le> n \<longrightarrow>
        (\<forall>r \<in> set (db_jobs db). jr_state r = state_value st \<longrightarrow> r \<in> set rs))"
proof -
  let ?f = "filter (\<lambda>r. jr_state r = state_value st) (db_jobs db)"
  let ?s = "sort_key (\<lambda>r. (row_priority_rank (jr_priority r), jr_created_at r, jr_job_id r)) ?f"
  let ?rs = "take n ?s"
  have sub: "r \<in> set (db_jobs db) \<and> jr_state r = state_value st" if "r \<in> set ?rs" for r
    using in_set_takeD [OF that] by simp
  then have "\<forall>r \<in> set ?rs. row_ok r" using inv_row_ok [OF assms] by blast
  then obtain js where js: "load_rows ?rs = Inr js" "list_all2 (\<lambda>r j. row_to_job r = Inr j) ?rs js"
    using load_rows_ok by blast
  have "distinct (map jr_job_id (db_jobs db))" using assms by (simp add: job_db_inv_def)
  then have "inj_on jr_job_id (set ?f)" "distinct ?f" by (auto simp: distinct_map intro: inj_on_subset)
  then have "distinct (map jr_job_id ?s)" by (simp add: distinct_map)
  then have "distinct (take n (map jr_job_id ?s))" by (rule distinct_take)
  then have "distinct (map jr_job_id ?rs)" by (simp only: take_map)
  then have "distinct (map job_id js)" by (simp add: loaded_ids [OF js(2)])
  moreover have "r \<in> set ?rs" if "length ?f \<le> n" "r \<in> set (db_jobs db)" "jr_state r = state_value st" for r
    using that by simp
  moreover have "list_jobs_raw (Some st) n db = Inr js" using js(1) by (simp add: list_jobs_raw_def)
  ultimately show ?thesis using js(2) sub by blast
qed

text \<open>Reconciliation follows the runs and nothing else.  On a reachable database a pass never
  fails; every running job whose run completed succeeds, every one whose run failed or is missing
  fails with that reason, a job whose run is pending, running or orphaned and every job that is
  not running are left exactly as they were; each reported change names a job that was running
  that run, with the state the run's status decides.\<close>
theorem reconcile_follows_runs:
  assumes "job_step\<^sup>*\<^sup>* empty_job_db db" "tail_ok tail"
    "length (filter (\<lambda>r. jr_state r = state_value RUNNING) (db_jobs db)) \<le> job_scan_limit"
  shows "\<exists>cs db'. reconcile_jobs run_status tail now db = (Inr cs, db') \<and> job_step\<^sup>*\<^sup>* db db' \<and>
     (\<forall>i r. find_row i db = Some r \<longrightarrow>
        (if jr_state r = state_value RUNNING then row_outcome run_status r (find_row i db') else find_row i db' = Some r)) \<and>
     (\<forall>c \<in> set cs. \<exists>r. find_row (rc_job_id c) db = Some r \<and> jr_state r = state_value RUNNING \<and> change_ok run_status r c)"
proof -
  have inv: "job_db_inv db" by (rule job_machine.steps_inv [OF assms(1) empty_job_db_inv])
  obtain js rs where js: "list_jobs_raw (Some RUNNING) job_scan_limit db = Inr js" "list_all2 (\<lambda>r j. row_to_job r = Inr j) rs js"
    "distinct (map job_id js)" "\<forall>r \<in> set rs. r \<in> set (db_jobs db) \<and> jr_state r = state_value RUNNING"
    "\<forall>r \<in> set (db_jobs db). jr_state r = state_value RUNNING \<longrightarrow> r \<in> set rs"
    using list_jobs_ok [OF inv, of RUNNING job_scan_limit] assms(3) by blast
  have ids: "job_id ` set js = jr_job_id ` set rs" using loaded_ids [OF js(2)] by (metis list.set_map)
  have rows: "\<forall>j \<in> set js. \<exists>r. find_row (job_id j) db = Some r \<and> row_to_job r = Inr j \<and> jr_state r = state_value RUNNING"
  proof
    fix j assume "j \<in> set js"
    then obtain r where r: "r \<in> set rs" "row_to_job r = Inr j" by (rule list_all2_right [OF js(2)])
    then have "find_row (job_id j) db = Some r" using js(4) inv_find_row [OF inv] row_to_job_fields(1) by metis
    then show "\<exists>r. find_row (job_id j) db = Some r \<and> row_to_job r = Inr j \<and> jr_state r = state_value RUNNING"
      using r js(4) by blast
  qed
  obtain cs db' where cs: "reconcile_loop run_status tail now js db = (Inr cs, db')" "job_step\<^sup>*\<^sup>* db db'"
    "\<forall>k. k \<notin> job_id ` set js \<longrightarrow> find_row k db' = find_row k db"
    "\<forall>j r. j \<in> set js \<and> find_row (job_id j) db = Some r \<longrightarrow> row_outcome run_status r (find_row (job_id j) db')"
    "\<forall>c \<in> set cs. \<exists>r. find_row (rc_job_id c) db = Some r \<and> jr_state r = state_value RUNNING \<and> change_ok run_status r c"
    using reconcile_loop_effect [OF inv js(3) assms(2) rows, of run_status now] by blast
  have each: "if jr_state r = state_value RUNNING then row_outcome run_status r (find_row i db') else find_row i db' = Some r"
    if r: "find_row i db = Some r" for i r
  proof (cases "jr_state r = state_value RUNNING")
    case True
    then have "r \<in> set rs" using js(5) find_row_Some [OF r] by blast
    then have "i \<in> job_id ` set js" using ids find_row_Some [OF r] by blast
    then show ?thesis using True cs(4) r by auto
  next
    case False
    then have "i \<notin> job_id ` set js" using rows r by fastforce
    then show ?thesis using False cs(3) r by simp
  qed
  have "reconcile_jobs run_status tail now db = (Inr cs, db')" using js(1) cs(1) by (simp add: reconcile_jobs_def)
  then show ?thesis using cs(2,5) each by blast
qed

definition no_tail :: preemption_tail where
  "no_tail = (\<lambda>_ _ d. (None, d))"

theorem reconcile_follows_runs_witness:
  "\<exists>cs db'. reconcile_jobs (\<lambda>_. Some Run_failed) no_tail 9 sample_db2 = (Inr cs, db') \<and>
     (\<exists>r. find_row ''J1'' db' = Some r \<and> jr_state r = ''FAILED'' \<and> jr_failure_reason r = Some RUN_FAILED)"
proof -
  obtain r where r: "find_row ''J1'' sample_db2 = Some r" "jr_state r = ''RUNNING''"
    using sample_db2_row find_row_Some by fastforce
  have "tail_ok no_tail" by (simp add: tail_ok_def no_tail_def)
  moreover have "length (filter (\<lambda>r. jr_state r = state_value RUNNING) (db_jobs sample_db2)) \<le> length (db_jobs sample_db2)"
    by (rule length_filter_le)
  moreover have "length (db_jobs sample_db2) = 1" using sample_db2_row by (metis length_map length_Cons list.size(3) One_nat_def)
  ultimately show ?thesis
    using reconcile_follows_runs [OF sample_db2_reach, of no_tail "\<lambda>_. Some Run_failed" 9] r
    by (fastforce simp: job_scan_limit_def row_outcome_def reconcile_verdict_def state_value_def)
qed

end
