(* ===== verification/Lease_Frame.thy ===== *)
theory Lease_Frame
  imports Lease Ledger_Laws Snapshot_Laws
begin

text \<open>
  The frame of the lease table: only the lease's own operations write it, and they keep it well
  formed.  Every operation of the ledger, of the probes and of the quota snapshot leaves the rows of
  \<open>capacity_scheduler_lease\<close> as they are; acquire, renew and release keep one row per name and
  positive fencing tokens, and a lease that was claimed is in the table.
\<close>

named_theorems lease_frame

section \<open>The ledger\<close>

lemma settle_leases [lease_frame]: "od_leases (snd (settle run tokens now db)) = od_leases db"
  by (simp add: settle_def update_reservations_def Let_def)

lemma release_leases [lease_frame]: "od_leases (snd (release run now db)) = od_leases db"
  by (simp add: release_def update_reservations_def Let_def)

lemma release_debt_leases [lease_frame]: "od_leases (snd (release_terminal_debt run job guard locked now db)) = od_leases db"
  by (simp add: release_terminal_debt_def update_reservations_def Let_def)

lemma reserve_draws_leases:
  "reserve_draws run job route b created fresh ds db = Inr (out, db') \<Longrightarrow> od_leases db' = od_leases db"
  by (induction run job route b created fresh ds db arbitrary: out db' rule: reserve_draws.induct)
     (auto simp: Let_def split: if_splits sum.splits prod.splits)

lemma reserve_leases [lease_frame]: "od_leases (snd (reserve run job route draws bucket fresh now db)) = od_leases db"
  by (auto simp: reserve_def Let_def dest!: reserve_draws_leases split: sum.splits prod.splits)

lemma fold_shares_leases: "fold_shares pool window updated xs db = Inr db' \<Longrightarrow> od_leases db' = od_leases db"
  by (induction pool window updated xs db rule: fold_shares.induct)
     (auto simp: store_cost_state_def split: sum.splits)

lemma learn_leases: "learn_from_probe pool window pct reset stamp moment i db = Inr db' \<Longrightarrow> od_leases db' = od_leases db"
  by (auto simp: learn_from_probe_def Let_def dest!: fold_shares_leases split: if_splits option.splits)

lemma record_quota_leases [lease_frame]:
  "od_leases (snd (record_owner_quota provider pool pct reset source i now db)) = od_leases db"
  by (auto simp: record_owner_quota_def Let_def dest!: learn_leases split: option.splits sum.splits prod.splits)

lemma record_window_leases [lease_frame]:
  "od_leases (snd (record_probe_window_observation pool window pct reset harness ev i now db)) = od_leases db"
  by (auto simp: record_probe_window_observation_def Let_def dest!: learn_leases split: option.splits sum.splits prod.splits)

section \<open>Probes and snapshots\<close>

lemma with_exclusions_leases [lease_frame]: "od_leases (with_exclusions f db) = od_leases db"
  by (simp add: with_exclusions_def Let_def)

lemma each_indexed_leases:
  "(\<And>i x s. od_leases (f i x s) = od_leases s) \<Longrightarrow> od_leases (each_indexed f i xs s) = od_leases s"
  by (induction f i xs s rule: each_indexed.induct) simp_all

lemma fold_leases: "(\<And>x s. od_leases (f x s) = od_leases s) \<Longrightarrow> od_leases (fold f xs s) = od_leases s"
  by (induction xs arbitrary: s) simp_all

lemma window_effect_leases: "od_leases (window_effect harness run ids now pools i w db) = od_leases db"
  by (cases w) (simp add: window_effect_def exclude_window_def observe_window_def each_indexed_leases fold_leases lease_frame)

lemma handle_probe_leases [lease_frame]:
  "od_leases (handle_probe_result harness ws run ids wall now selectors db) = od_leases db"
  by (simp add: handle_probe_result_def lift_all_windows_def quota_rows_effect_def each_indexed_leases fold_leases
      window_effect_leases lease_frame Let_def split: option.split prod.split)

lemma run_probe_leases: "od_leases (snd (run_probe env selectors now h db)) = od_leases db"
  by (simp add: run_probe_def lease_frame split: probe_reading.split)

lemma probe_loop_leases: "od_leases (snd (probe_loop env selectors forced due hint now hs db)) = od_leases db"
  by (induction hs arbitrary: db) (simp_all add: run_probe_leases Let_def case_prod_beta)

lemma due_probes_leases [lease_frame]: "od_leases (snd (run_due_probes env selectors force now db)) = od_leases db"
  by (simp add: run_due_probes_def probe_loop_leases case_prod_beta Let_def)

lemma surface_leases [lease_frame]: "od_leases (snd (surface_exclusions env policies now es db)) = od_leases db"
  by (induction env policies now es db rule: surface_exclusions.induct) (simp_all add: lease_frame case_prod_beta)

lemma seam_leases [lease_frame]: "od_leases (snd (effective_quota_states env policies rp now db)) = od_leases db"
  by (simp add: effective_quota_states_def probed_db_def lease_frame Let_def case_prod_beta)

section \<open>The lease's own operations\<close>

definition leases_ok :: "lease_row list \<Rightarrow> bool" where
  \<comment> \<open>one row per name, and tokens count from one\<close>
  "leases_ok ls \<longleftrightarrow> distinct (map lr_lease_name ls) \<and> (\<forall>r \<in> set ls. 1 \<le> lr_fencing_token r)"

inductive lease_op :: "owner_db \<Rightarrow> owner_db \<Rightarrow> bool" where
  lo_acquire: "lease_op db (snd (acquire_lease holder ttl name now db))"
| lo_renew: "lease_op db (snd (renew_lease l ttl now db))"
| lo_release: "lease_op db (snd (release_lease l db))"

lemma update_leases_ok:
  assumes "leases_ok (od_leases db)" "\<And>r. lr_lease_name (f r) = lr_lease_name r"
    "\<And>r. 1 \<le> lr_fencing_token r \<Longrightarrow> 1 \<le> lr_fencing_token (f r)"
  shows "leases_ok (od_leases (update_leases p f db))"
proof -
  have "map lr_lease_name (map (\<lambda>r. if p r then f r else r) rows) = map lr_lease_name rows" for rows
    using assms(2) by simp
  then have "distinct (map lr_lease_name (map (\<lambda>r. if p r then f r else r) (od_leases db)))"
    using assms(1) unfolding leases_ok_def by metis
  then show ?thesis using assms(1,3) by (auto simp: leases_ok_def update_leases_def)
qed

lemma lease_op_ok: "lease_op db db' \<Longrightarrow> leases_ok (od_leases db) \<Longrightarrow> leases_ok (od_leases db')"
proof (induction rule: lease_op.induct)
  case (lo_acquire db holder ttl name now)
  then show ?case
    by (auto simp: acquire_lease_def Let_def intro!: update_leases_ok split: option.split)
       (force simp: leases_ok_def lease_row_of_def find_None_all dest: find_Some_in)+
next
  case (lo_renew db l ttl now)
  then show ?case by (auto simp: renew_lease_def Let_def intro!: update_leases_ok)
next
  case (lo_release db l)
  then show ?case by (auto simp: release_lease_def Let_def leases_ok_def distinct_map_filter)
qed

lemma lease_op_frame:
  assumes "lease_op db db'"
  shows "\<exists>ls. db' = (ensure_tables db)\<lparr>od_leases := ls\<rparr>"
proof -
  have "db' = ensure_tables db \<or> (\<exists>ls. db' = (ensure_tables db)\<lparr>od_leases := ls\<rparr>)"
    using assms
    by cases (auto simp: acquire_lease_def renew_lease_def release_lease_def update_leases_def Let_def split: option.splits)
  moreover have "ensure_tables db = (ensure_tables db)\<lparr>od_leases := od_leases (ensure_tables db)\<rparr>" by simp
  ultimately show ?thesis by metis
qed

lemma updated_in_table: "r \<in> set (od_leases db) \<Longrightarrow> p r \<Longrightarrow> lease_owns l (f r) \<Longrightarrow> list_ex (lease_owns l) (od_leases (update_leases p f db))"
  by (auto simp: update_leases_def list_ex_iff)

lemma acquired_in_table:
  assumes "acquire_lease holder ttl name now db = (Inr (Some l), db')"
  shows "list_ex (lease_owns l) (od_leases db')"
proof (cases "lease_row_of name (ensure_tables db)")
  case None
  then show ?thesis
    using assms by (auto simp: acquire_lease_def Let_def lease_owns_def lease_of_row_def split: if_splits)
next
  case (Some row)
  then have row: "row \<in> set (od_leases (ensure_tables db))" "lr_lease_name row = name"
    by (auto simp: lease_row_of_def find_Some_iff)
  show ?thesis
    using assms Some row(2)
    by (auto simp: acquire_lease_def Let_def lease_owns_def lease_of_row_def split: if_splits
        intro!: updated_in_table [OF row(1)])
qed

end
