(* ===== verification/Dispatch_Loop.thy ===== *)
theory Dispatch_Loop
  imports Job_Service Scheduler Snapshot Lease Probe_Laws
begin

text \<open>
  The scheduler loop of \<open>saberops/capacity/loop.py\<close>: \<open>scheduler_tick\<close> and \<open>run_scheduler_loop\<close> on the
  record \<open>world\<close>.  What the tick reads from outside is the record \<open>tick_env\<close>: the clock and the ids
  it draws, the status and the existence of runs, the launcher, the probes, the routes and the
  policy, and the reads of the database that fail.  The clock is read again before every check
  of the lease; what other processes wrote up to a reading is \<open>tk_others\<close>, so that a lease can be
  lost between two steps.  During one settlement pass the clock is read once.
\<close>

section \<open>The tick's surroundings and its result\<close>

datatype read_point = Read_null_runs | Read_running | Read_reserved | Read_debts | Read_charges | Read_pools string

record tick_env =
  tk_now :: int
  tk_clock :: "nat \<Rightarrow> int"
  tk_others :: "nat \<Rightarrow> world \<Rightarrow> world"
  tk_launch_guard :: "string option"
  tk_status :: "string \<Rightarrow> run_status option"
  tk_readable :: "read_point \<Rightarrow> bool"
  tk_tail :: preemption_tail
  tk_debts :: debt_env
  tk_recovery :: recovery_env
  tk_seam_env :: probe_env
  tk_seam_policies :: pool_policies
  tk_probe_env :: probe_env
  tk_policy :: control_plane_policy
  tk_routes :: routing_snapshot
  tk_override :: "int option"
  tk_slot_limit :: "int option"
  tk_min_pace :: rat
  tk_readiness :: "(string \<Rightarrow> readiness option) option"
    \<comment> \<open>the readiness service; the inner \<open>None\<close> is a call that raises\<close>
  tk_run_id :: "nat \<Rightarrow> string"
  tk_row_ids :: "string \<Rightarrow> nat \<Rightarrow> string"
  tk_launch :: "job \<Rightarrow> dispatch_decision \<Rightarrow> string \<Rightarrow> world \<Rightarrow> bool \<times> world"
    \<comment> \<open>the launcher; \<open>False\<close> when it raises\<close>
  tk_run_exists :: "string \<Rightarrow> bool"
    \<comment> \<open>the run is found after a failed launch, or cannot be looked up\<close>
  tk_zones :: "string \<Rightarrow> (int \<Rightarrow> int) option"
  tk_packaged :: plan_set

record tick_result =
  tr_ran :: bool
  tr_reason :: "string option"
  tr_changes :: "reconcile_change list"
  tr_dispatched :: int
  tr_probed :: int
  tr_waited :: int
  tr_decisions :: "scheduler_decision list"
  tr_preemption_settled :: int
  tr_preemption_pending :: "string list"
  tr_preemption_blocked :: "string list"
  tr_legacy_running :: "string list"
  tr_unresolved_running :: "string list"
  tr_storage_reason :: "string option"

definition held :: "string \<Rightarrow> tick_result" where
  \<comment> \<open>\<open>TickResult(ran=False, reason=...)\<close>\<close>
  "held reason =
     \<lparr>tr_ran = False, tr_reason = Some reason, tr_changes = [], tr_dispatched = 0, tr_probed = 0, tr_waited = 0,
      tr_decisions = [], tr_preemption_settled = 0, tr_preemption_pending = [], tr_preemption_blocked = [],
      tr_legacy_running = [], tr_unresolved_running = [], tr_storage_reason = None\<rparr>"

record tick_state =
  ts_world :: world
  ts_reads :: nat
  ts_runs :: nat
  ts_dispatched :: int
  ts_probed :: int
  ts_waited :: int

definition start_tick :: "world \<Rightarrow> tick_state" where
  "start_tick w = \<lparr>ts_world = w, ts_reads = 0, ts_runs = 0, ts_dispatched = 0, ts_probed = 0, ts_waited = 0\<rparr>"

abbreviation set_jobs :: "job_db \<Rightarrow> tick_state \<Rightarrow> tick_state" where
  "set_jobs db s \<equiv> s\<lparr>ts_world := (ts_world s)\<lparr>w_jobs := db\<rparr>\<rparr>"

abbreviation set_owner :: "owner_db \<Rightarrow> tick_state \<Rightarrow> tick_state" where
  "set_owner db s \<equiv> s\<lparr>ts_world := (ts_world s)\<lparr>w_owner := db\<rparr>\<rparr>"

definition read_clock :: "tick_env \<Rightarrow> tick_state \<Rightarrow> int \<times> tick_state" where
  \<comment> \<open>\<open>_current_moment()\<close>, and what the other processes have written by then\<close>
  "read_clock e s =
     (tk_clock e (ts_reads s), s\<lparr>ts_world := tk_others e (ts_reads s) (ts_world s), ts_reads := ts_reads s + 1\<rparr>)"

definition lease_ok :: "tick_env \<Rightarrow> scheduler_lease \<Rightarrow> tick_state \<Rightarrow> bool \<times> tick_state" where
  "lease_ok e l s =
     (case read_clock e s of (t, s1) \<Rightarrow>
        (case check_lease l t (w_owner (ts_world s1)) of (b, db) \<Rightarrow> (b, set_owner db s1)))"

section \<open>The running jobs must be accounted for\<close>

definition null_run_row :: "job_row \<Rightarrow> bool" where
  "null_run_row r = (jr_state r = state_value RUNNING \<and> \<not> truthy (jr_current_run_id r))"

definition reserved_run_ids :: "owner_db \<Rightarrow> string set" where
  "reserved_run_ids db = rr_run_id ` {r \<in> set (od_reservations db). rr_state r = ''RESERVED''}"

definition legacy_job :: "owner_db \<Rightarrow> job \<Rightarrow> bool" where
  "legacy_job db j = (\<not> truthy (job_current_run_id j) \<or> the (job_current_run_id j) \<notin> reserved_run_ids db)"

definition running_check :: "tick_env \<Rightarrow> world \<Rightarrow> job_error + tick_result option" where
  \<comment> \<open>step 0: a hold, or \<open>None\<close> when every running job has a reservation and a visible run\<close>
  "running_check e w =
     (let nulls = map jr_job_id (filter null_run_row (db_jobs (w_jobs w))) in
      if \<not> tk_readable e Read_null_runs then Inr (Some (held ''ledger_read_error''))
      else if nulls \<noteq> [] then Inr (Some ((held ''legacy_running_without_reservation'')\<lparr>tr_legacy_running := nulls\<rparr>))
      else if \<not> tk_readable e Read_running then Inr (Some (held ''ledger_read_error''))
      else case list_jobs_raw (Some RUNNING) job_scan_limit (w_jobs w) of
        Inl err \<Rightarrow> Inl err
      | Inr js \<Rightarrow>
          if js \<noteq> [] \<and> \<not> tk_readable e Read_reserved then Inr (Some (held ''ledger_read_error''))
          else let legacy = map job_id (filter (legacy_job (w_owner w)) js);
                   unresolved = map job_id (filter (\<lambda>j. \<not> legacy_job (w_owner w) j \<and>
                                  tk_status e (the (job_current_run_id j)) = None) js)
            in if legacy \<noteq> [] then Inr (Some ((held ''legacy_running_without_reservation'')\<lparr>tr_legacy_running := legacy\<rparr>))
               else if unresolved \<noteq> []
               then Inr (Some ((held ''running_run_status_unresolved'')\<lparr>tr_unresolved_running := unresolved\<rparr>))
               else Inr None)"

section \<open>Reconciliation\<close>

definition settle_change :: "int \<Rightarrow> reconcile_change \<Rightarrow> owner_db \<Rightarrow> owner_db" where
  \<comment> \<open>a run that succeeded is settled, any other end releases\<close>
  "settle_change now c db =
     (if rc_to_state c = SUCCEEDED then snd (settle (rc_run_id c) None now db)
      else if rc_to_state c = FAILED \<or> rc_to_state c = CANCELLED \<or> rc_to_state c = QUEUED
      then snd (release (rc_run_id c) now db) else db)"

definition preemption_pass ::
  "tick_env \<Rightarrow> scheduler_lease \<Rightarrow> tick_state \<Rightarrow> preemption_reconciliation option \<times> tick_state" where
  \<comment> \<open>step 1b; any other exception drops the result\<close>
  "preemption_pass e l s =
     (case read_clock e s of (t, s1) \<Rightarrow>
        (case reconcile_preemptions ((tk_debts e)\<lparr>de_injected := Some (\<lambda>run. Some (tk_status e run))\<rparr>)
               (Some (tk_recovery e)) (Some (lease_still_valid l t)) 200 (tk_now e) (ts_world s1) of
           Some (Inr (p, w)) \<Rightarrow> (Some p, s1\<lparr>ts_world := w\<rparr>)
         | _ \<Rightarrow> (None, s1)))"

section \<open>The inputs of the decision\<close>

definition load_all_cost_states :: "owner_db \<Rightarrow> cost_states" where
  "load_all_cost_states db = map (\<lambda>(k, c). (k, cr_state c)) (od_cost_model db)"

definition run_pools :: "string \<Rightarrow> owner_db \<Rightarrow> string list" where
  \<comment> \<open>\<open>SELECT DISTINCT pool_id ... WHERE run_id = ? AND state = 'RESERVED'\<close>\<close>
  "run_pools run db = remdups (map rr_pool_id (filter (\<lambda>r. rr_run_id r = run \<and> rr_state r = ''RESERVED'') (od_reservations db)))"

fun running_counts :: "tick_env \<Rightarrow> owner_db \<Rightarrow> job list \<Rightarrow> (string \<times> int) list \<Rightarrow> (string \<times> int) list option" where
  \<comment> \<open>\<open>None\<close> is a read that fails\<close>
  "running_counts e db [] acc = Some acc"
| "running_counts e db (j # js) acc =
     (if \<not> truthy (job_current_run_id j) then running_counts e db js acc
      else let run = the (job_current_run_id j) in
        if \<not> tk_readable e (Read_pools run) then None
        else running_counts e db js (fold count_pool (run_pools run db) acc))"

fun note_readiness ::
  "(string \<Rightarrow> readiness option) \<Rightarrow> worker_candidate list \<Rightarrow> (readiness_key \<times> readiness) list
   \<Rightarrow> (readiness_key \<times> readiness) list" where
  \<comment> \<open>one role's candidates; a call that raises ends the role\<close>
  "note_readiness service [] m = m"
| "note_readiness service (c # cs) m =
     (if dict_get m (Provider_key (wc_provider c)) \<noteq> None then note_readiness service cs m
      else case service (wc_provider c) of
        None \<Rightarrow> m
      | Some r \<Rightarrow> note_readiness service cs (dict_set m (Provider_key (wc_provider c)) r))"

definition readiness_map :: "tick_env \<Rightarrow> (readiness_key \<times> readiness) list" where
  "readiness_map e =
     (case tk_readiness e of
        None \<Rightarrow> []
      | Some service \<Rightarrow>
          fold (\<lambda>role m. case groups_for (tk_routes e) role of Inl _ \<Rightarrow> m | Inr gs \<Rightarrow> note_readiness service (concat gs) m)
            [''worker'', ''surgeon''] [])"

definition tick_schedule_args :: "tick_env \<Rightarrow> quota_state list \<Rightarrow> cost_states \<Rightarrow> int \<Rightarrow> schedule_args" where
  "tick_schedule_args e quotas costs limit =
     \<lparr>sa_routing = tk_routes e, sa_policy = tk_policy e, sa_quota_states = quotas, sa_cost_states = Some costs,
      sa_global_limit = Some limit, sa_min_pace = tk_min_pace e, sa_readiness = readiness_map e\<rparr>"

section \<open>Carrying out a decision\<close>

definition exec_wait :: "tick_env \<Rightarrow> wait_decision \<Rightarrow> tick_state \<Rightarrow> tick_state" where
  \<comment> \<open>a reason the job store does not know is stored as \<open>NO_CAPACITY\<close>; a refused write is skipped\<close>
  "exec_wait e d s =
     (let reason = (case waiting_of (wd_reason d) of None \<Rightarrow> NO_CAPACITY | Some r \<Rightarrow> r)
      in case set_waiting (job_id (wd_job d)) reason (map_option isoformat (wd_eta d)) (wd_confidence d) (tk_now e)
                (w_jobs (ts_world s)) of
           (Inl _, db) \<Rightarrow> set_jobs db s
         | (Inr _, db) \<Rightarrow> (set_jobs db s)\<lparr>ts_waited := ts_waited s + 1\<rparr>)"

definition exec_probe :: "tick_env \<Rightarrow> probe_decision \<Rightarrow> tick_state \<Rightarrow> tick_state" where
  "exec_probe e d s =
     (set_owner (snd (run_due_probes (tk_probe_env e) (plan_selectors (ps_pool_plans (cpp_plans (tk_policy e))))
                        [pb_harness d] (tk_now e) (w_owner (ts_world s)))) s)
       \<lparr>ts_probed := ts_probed s + 1\<rparr>"

definition tick_draws :: "tick_env \<Rightarrow> dispatch_decision \<Rightarrow> pool_draw list" where
  \<comment> \<open>the decision's draws, or one per declared window of the drawn pools\<close>
  "tick_draws e d =
     (if ds_draws d \<noteq> [] then ds_draws d
      else let pools = (if ds_drawn_pools d \<noteq> [] then ds_drawn_pools d
                        else if truthy (ds_pool_id d) then [the (ds_pool_id d)] else []);
               factor = (if ds_multiplier d = 0 then 1 else ds_multiplier d)
        in concat (map (\<lambda>pid.
             let windows = (case dict_get (ps_pool_plans (cpp_plans (tk_policy e))) pid of None \<Rightarrow> [] | Some p \<Rightarrow> pp_windows p)
             in if windows = [] then [\<lparr>dr_pool_id = pid, dr_window_id = ''ALL'', dr_multiplier = factor\<rparr>]
                else map (\<lambda>v. \<lparr>dr_pool_id = pid, dr_window_id = win_id v, dr_multiplier = factor\<rparr>) windows) pools))"

definition route_text :: "worker_candidate \<Rightarrow> string" where
  \<comment> \<open>\<open>route_str\<close>\<close>
  "route_text c = wc_provider c @ ''/'' @ wc_model c"

definition requeue_now :: "tick_env \<Rightarrow> string \<Rightarrow> tick_state \<Rightarrow> tick_state" where
  \<comment> \<open>the requeue of a compensation; its exceptions are dropped\<close>
  "requeue_now e i s =
     (case read_clock e s of (t, s1) \<Rightarrow> set_jobs (snd (requeue i NO_CAPACITY None None t (w_jobs (ts_world s1)))) s1)"

definition release_now :: "tick_env \<Rightarrow> string \<Rightarrow> tick_state \<Rightarrow> tick_state" where
  "release_now e run s =
     (case read_clock e s of (t, s1) \<Rightarrow> set_owner (snd (release run t (w_owner (ts_world s1)))) s1)"

definition compensate :: "tick_env \<Rightarrow> string \<Rightarrow> string \<Rightarrow> tick_state \<Rightarrow> tick_state" where
  "compensate e run i s = requeue_now e i (release_now e run s)"

datatype dispatch_outcome =
    No_lease
  | Claim_refused
  | Claim_raised job_error
  | Lost_before_reserve
  | Reserve_failed
  | Lost_before_launch
  | Launched
  | Launch_kept
  | Launch_undone

definition launch_step ::
  "tick_env \<Rightarrow> scheduler_lease \<Rightarrow> dispatch_decision \<Rightarrow> string \<Rightarrow> job \<Rightarrow> tick_state \<Rightarrow> dispatch_outcome \<times> tick_state" where
  \<comment> \<open>steps D and E, on a job that is running the run and holds its reservation\<close>
  "launch_step e l d run j s =
     (case lease_ok e l s of
        (False, s1) \<Rightarrow> (Lost_before_launch, compensate e run (job_id (ds_job d)) s1)
      | (True, s1) \<Rightarrow>
          (case tk_launch e j d run (ts_world s1) of
             (True, w) \<Rightarrow> (Launched, s1\<lparr>ts_world := w, ts_dispatched := ts_dispatched s1 + 1\<rparr>)
           | (False, w) \<Rightarrow>
               if tk_run_exists e run then (Launch_kept, s1\<lparr>ts_world := w\<rparr>)
               else (Launch_undone, compensate e run (job_id (ds_job d)) (s1\<lparr>ts_world := w\<rparr>))))"

definition reserve_step ::
  "tick_env \<Rightarrow> scheduler_lease \<Rightarrow> dispatch_decision \<Rightarrow> string \<Rightarrow> job \<Rightarrow> tick_state \<Rightarrow> dispatch_outcome \<times> tick_state" where
  \<comment> \<open>steps B and C, on a job that is running the run\<close>
  "reserve_step e l d run j s =
     (let i = job_id (ds_job d) in
      case lease_ok e l s of
        (False, s1) \<Rightarrow> (Lost_before_reserve, requeue_now e i s1)
      | (True, s1) \<Rightarrow>
          (case reserve run (Some i) (route_text (ds_candidate d)) (tick_draws e d)
                  (or_text (rq_size_hint (job_requirements (ds_job d))) ''M'') (tk_row_ids e run) (tk_now e)
                  (w_owner (ts_world s1)) of
             (Inl _, db) \<Rightarrow> (Reserve_failed, compensate e run i (set_owner db s1))
           | (Inr _, db) \<Rightarrow> launch_step e l d run j (set_owner db s1)))"

definition exec_dispatch ::
  "tick_env \<Rightarrow> scheduler_lease \<Rightarrow> dispatch_decision \<Rightarrow> tick_state \<Rightarrow> dispatch_outcome \<times> tick_state" where
  "exec_dispatch e l d s =
     (case lease_ok e l s of
        (False, s1) \<Rightarrow> (No_lease, s1)
      | (True, s1) \<Rightarrow>
          let run = tk_run_id e (ts_runs s1); s2 = s1\<lparr>ts_runs := ts_runs s1 + 1\<rparr> in
          (case mark_dispatched (job_id (ds_job d)) run (tk_now e) (w_jobs (ts_world s2)) of
             (Inl err, db) \<Rightarrow>
               (if err = JobConflict \<or> err = JobTransition \<or> err = JobNotFound then Claim_refused else Claim_raised err,
                set_jobs db s2)
           | (Inr j, db) \<Rightarrow> reserve_step e l d run j (set_jobs db s2)))"

fun exec_decisions ::
  "tick_env \<Rightarrow> scheduler_lease \<Rightarrow> scheduler_decision list \<Rightarrow> tick_state \<Rightarrow> job_error option \<times> tick_state" where
  \<comment> \<open>step 4; a lost lease ends the loop, an exception of the claim ends the tick\<close>
  "exec_decisions e l [] s = (None, s)"
| "exec_decisions e l (Probe p # ds) s = exec_decisions e l ds (exec_probe e p s)"
| "exec_decisions e l (Wait d # ds) s = exec_decisions e l ds (exec_wait e d s)"
| "exec_decisions e l (Dispatch d # ds) s =
     (case exec_dispatch e l d s of
        (Claim_raised err, s1) \<Rightarrow> (Some err, s1)
      | (No_lease, s1) \<Rightarrow> (None, s1)
      | (Lost_before_reserve, s1) \<Rightarrow> (None, s1)
      | (Lost_before_launch, s1) \<Rightarrow> (None, s1)
      | (_, s1) \<Rightarrow> exec_decisions e l ds s1)"

section \<open>The tick\<close>

definition ran_result ::
  "reconcile_change list \<Rightarrow> preemption_reconciliation option \<Rightarrow> scheduler_decision list \<Rightarrow> tick_state \<Rightarrow> tick_result" where
  "ran_result cs recon ds s =
     \<lparr>tr_ran = True, tr_reason = None, tr_changes = cs, tr_dispatched = ts_dispatched s, tr_probed = ts_probed s,
      tr_waited = ts_waited s, tr_decisions = ds,
      tr_preemption_settled = (case recon of None \<Rightarrow> 0 | Some p \<Rightarrow> st_released (pq_settlement p)),
      tr_preemption_pending = (case recon of None \<Rightarrow> [] | Some p \<Rightarrow> pq_pending p),
      tr_preemption_blocked = (case recon of None \<Rightarrow> [] | Some p \<Rightarrow> pq_blocked p),
      tr_legacy_running = [], tr_unresolved_running = [], tr_storage_reason = None\<rparr>"

definition tick_decide ::
  "tick_env \<Rightarrow> scheduler_lease \<Rightarrow> reconcile_change list \<Rightarrow> preemption_reconciliation option \<Rightarrow> tick_state
   \<Rightarrow> (job_error + tick_result) \<times> tick_state" where
  \<comment> \<open>steps 2 to 4\<close>
  "tick_decide e l cs recon s =
     (let now = tk_now e in
      case list_jobs_raw (Some QUEUED) job_scan_limit (w_jobs (ts_world s)) of Inl err \<Rightarrow> (Inl err, s) | Inr queued \<Rightarrow>
     (case list_jobs_raw (Some RUNNING) job_scan_limit (w_jobs (ts_world s)) of Inl err \<Rightarrow> (Inl err, s) | Inr running \<Rightarrow>
     (case effective_global_slot_limit (tk_policy e) (tk_override e) (tk_slot_limit e) of
        Inl _ \<Rightarrow> (Inr (held ''invalid_global_concurrency''), s)
      | Inr limit \<Rightarrow>
     (case effective_quota_states (tk_seam_env e) (tk_seam_policies e) True now (w_owner (ts_world s)) of
        (quotas, db1) \<Rightarrow>
     (let db = ensure_tables db1; s1 = set_owner db s in
      case (if tk_readable e Read_charges then post_observation_charges now db else Inl (OperationalError ''read'')) of
        Inl _ \<Rightarrow> (Inr (held ''ledger_read_error''), s1)
      | Inr charges \<Rightarrow>
     (case running_counts e db running [] of
        None \<Rightarrow> (Inr (held ''ledger_read_error''), s1)
      | Some counts \<Rightarrow>
     (case schedule (tk_zones e) (tk_packaged e) (tick_schedule_args e quotas (load_all_cost_states db) limit) now
             counts charges running queued of
        Inl err \<Rightarrow> (Inl (JobValue err), s1)
      | Inr ds \<Rightarrow>
          (case exec_decisions e l ds s1 of
             (Some err, s2) \<Rightarrow> (Inl err, s2)
           | (None, s2) \<Rightarrow> (Inr (ran_result cs recon ds s2), s2)))))))))"

definition tick_run :: "tick_env \<Rightarrow> scheduler_lease \<Rightarrow> tick_state \<Rightarrow> (job_error + tick_result) \<times> tick_state" where
  \<comment> \<open>steps 1 to 4\<close>
  "tick_run e l s =
     (case reconcile_jobs (tk_status e) (tk_tail e) (tk_now e) (w_jobs (ts_world s)) of
        (Inl err, db) \<Rightarrow> (Inl err, set_jobs db s)
      | (Inr cs, db) \<Rightarrow>
          let s1 = set_jobs db s;
              s2 = set_owner (fold (settle_change (tk_now e)) cs (w_owner (ts_world s1))) s1
          in if \<not> tk_readable e Read_debts then (Inr (held ''ledger_read_error''), s2)
             else case preemption_pass e l s2 of (recon, s3) \<Rightarrow> tick_decide e l cs recon s3)"

definition scheduler_tick :: "tick_env \<Rightarrow> scheduler_lease \<Rightarrow> world \<Rightarrow> (job_error + tick_result) \<times> world" where
  "scheduler_tick e l w =
     (case lease_ok e l (start_tick w) of
        (False, s) \<Rightarrow> (Inr (held ''lost_lease''), ts_world s)
      | (True, s) \<Rightarrow>
          (case tk_launch_guard e of
             Some reason \<Rightarrow> (Inr ((held ''storage_infra'')\<lparr>tr_storage_reason := Some reason\<rparr>), ts_world s)
           | None \<Rightarrow>
               (case running_check e (ts_world s) of
                  Inl err \<Rightarrow> (Inl err, ts_world s)
                | Inr (Some hold) \<Rightarrow> (Inr hold, ts_world s)
                | Inr None \<Rightarrow> (case tick_run e l s of (r, s') \<Rightarrow> (r, ts_world s')))))"

section \<open>The loop\<close>

datatype maintenance_answer =
    Maintenance_reason "string option"
  | Maintenance_infra string
  | Maintenance_os_error
  | Maintenance_raises py_error
    \<comment> \<open>any other exception, as the \<open>ValueError\<close> of a malformed collection policy\<close>

definition invoke_storage_maintenance :: "maintenance_answer \<Rightarrow> py_error + string option" where
  \<comment> \<open>storage failures become a reason; other exceptions pass through\<close>
  "invoke_storage_maintenance a =
     (case a of Maintenance_reason r \<Rightarrow> Inr r | Maintenance_infra code \<Rightarrow> Inr (Some code)
      | Maintenance_os_error \<Rightarrow> Inr (Some ''STORAGE_MAINTENANCE_OS_ERROR'') | Maintenance_raises err \<Rightarrow> Inl err)"

datatype lease_call = Claim_call | Renew_call nat | Release_call

record loop_env =
  lo_holder :: string
  lo_ttl :: int
  lo_once :: bool
  lo_start :: int
    \<comment> \<open>the time of the start\<close>
  lo_now :: "nat \<Rightarrow> int"
    \<comment> \<open>the time of each round\<close>
  lo_stop :: "nat \<Rightarrow> bool"
    \<comment> \<open>the stop event before each round\<close>
  lo_maintenance :: "(nat \<Rightarrow> maintenance_answer) option"
    \<comment> \<open>storage maintenance, if any: its answer at the start (0) and in each round\<close>
  lo_interval :: int
  lo_tick :: "nat \<Rightarrow> tick_env"
  lo_locked :: "lease_call \<Rightarrow> bool"
    \<comment> \<open>whether the database refuses the \<open>BEGIN IMMEDIATE\<close> of this call\<close>
  lo_others :: "nat \<Rightarrow> world \<Rightarrow> world"
    \<comment> \<open>what other processes write before each round\<close>

definition storage_held :: "string \<Rightarrow> tick_result" where
  "storage_held reason = (held ''storage_infra'')\<lparr>tr_storage_reason := Some reason\<rparr>"

definition claim_lease :: "loop_env \<Rightarrow> world \<Rightarrow> (py_error + scheduler_lease option) \<times> owner_db" where
  \<comment> \<open>\<open>acquire_lease\<close>; a refused lock answers \<open>None\<close>, after the check of the holder\<close>
  "claim_lease env w =
     (if lo_locked env Claim_call \<and> py_strip (lo_holder env) \<noteq> [] then (Inr None, ensure_tables (w_owner w))
      else acquire_lease (lo_holder env) (lo_ttl env) DEFAULT_LEASE_NAME (lo_start env) (w_owner w))"

definition heartbeat :: "loop_env \<Rightarrow> nat \<Rightarrow> scheduler_lease \<Rightarrow> world \<Rightarrow> scheduler_lease option \<times> owner_db" where
  "heartbeat env k l w =
     (if lo_locked env (Renew_call k) then (None, ensure_tables (w_owner w))
      else renew_lease l (lo_ttl env) (lo_now env k) (w_owner w))"

definition release_world :: "loop_env \<Rightarrow> scheduler_lease \<Rightarrow> world \<Rightarrow> world" where
  \<comment> \<open>a refused lock leaves the row\<close>
  "release_world env l w =
     w\<lparr>w_owner := (if lo_locked env Release_call then ensure_tables (w_owner w) else snd (release_lease l (w_owner w)))\<rparr>"

definition startup_maintenance :: "loop_env \<Rightarrow> py_error + string option" where
  "startup_maintenance env =
     (case lo_maintenance env of None \<Rightarrow> Inr None | Some m \<Rightarrow> invoke_storage_maintenance (m 0))"

definition periodic_maintenance :: "loop_env \<Rightarrow> nat \<Rightarrow> int option \<Rightarrow> (py_error + string option) \<times> int option" where
  \<comment> \<open>the pass of a round, when it is due: its reason and the time of the next\<close>
  "periodic_maintenance env k due =
     (case lo_maintenance env of
        None \<Rightarrow> (Inr None, due)
      | Some m \<Rightarrow>
          if (case due of None \<Rightarrow> True | Some t \<Rightarrow> t \<le> lo_now env k)
          then (invoke_storage_maintenance (m (Suc k)), Some (lo_now env k + lo_interval env)) else (Inr None, due))"

fun loop_rounds ::
  "nat \<Rightarrow> loop_env \<Rightarrow> nat \<Rightarrow> scheduler_lease \<Rightarrow> int option \<Rightarrow> tick_result option \<Rightarrow> world
   \<Rightarrow> ((job_error + tick_result option) \<times> scheduler_lease \<times> world) option" where
  \<comment> \<open>the \<open>while not stop.is_set()\<close>; \<open>None\<close> is a loop that still runs after the fuel\<close>
  "loop_rounds 0 env k l due last_tick w = None"
| "loop_rounds (Suc fuel) env k l due last_tick w0 =
     (let w = lo_others env k w0 in
      if lo_stop env k then Some (Inr last_tick, l, w)
      else case heartbeat env k l w of
        (None, db) \<Rightarrow> Some (Inr last_tick, l, w\<lparr>w_owner := db\<rparr>)
      | (Some l', db) \<Rightarrow>
          (case periodic_maintenance env k due of
             (Inl err, due') \<Rightarrow> Some (Inl (JobValue err), l', w\<lparr>w_owner := db\<rparr>)
           | (Inr (Some reason), due') \<Rightarrow> Some (Inr (Some (storage_held reason)), l', w\<lparr>w_owner := db\<rparr>)
           | (Inr None, due') \<Rightarrow>
               (case scheduler_tick ((lo_tick env k)\<lparr>tk_now := lo_now env k\<rparr>) l' (w\<lparr>w_owner := db\<rparr>) of
                  (Inl err, w') \<Rightarrow> Some (Inl err, l', w')
                | (Inr r, w') \<Rightarrow>
                    if \<not> tr_ran r then Some (Inr (Some r), l', w')
                    else loop_rounds fuel env (Suc k) l' due' (Some r) w')))"

definition run_scheduler_loop ::
  "nat \<Rightarrow> loop_env \<Rightarrow> world \<Rightarrow> ((job_error + tick_result option) \<times> world) option" where
  \<comment> \<open>the startup pass runs before any \<open>try\<close>: an exception of it skips the release\<close>
  "run_scheduler_loop fuel env w =
     (case claim_lease env w of
        (Inl err, db) \<Rightarrow> Some (Inl (JobValue err), w\<lparr>w_owner := db\<rparr>)
      | (Inr None, db) \<Rightarrow>
          Some (Inr (if lo_once env then Some (held ''lease_held_by_other'') else None), w\<lparr>w_owner := db\<rparr>)
      | (Inr (Some l), db) \<Rightarrow>
          let w1 = w\<lparr>w_owner := db\<rparr> in
          (case startup_maintenance env of
             Inl err \<Rightarrow> Some (Inl (JobValue err), w1)
           | Inr (Some reason) \<Rightarrow> Some (Inr (Some (storage_held reason)), release_world env l w1)
           | Inr None \<Rightarrow>
               if lo_once env then
                 (case scheduler_tick ((lo_tick env 0)\<lparr>tk_now := lo_start env\<rparr>) l w1 of
                    (r, w2) \<Rightarrow> Some (case r of Inl err \<Rightarrow> Inl err | Inr t \<Rightarrow> Inr (Some t), release_world env l w2))
               else
                 (case loop_rounds fuel env 0 l (map_option (\<lambda>_. lo_start env + lo_interval env) (lo_maintenance env)) None w1 of
                    None \<Rightarrow> None
                  | Some (r, l', w2) \<Rightarrow> Some (r, release_world env l' w2))))"

end
