(* ===== verification/Dispatch_Laws.thy ===== *)
theory Dispatch_Laws
  imports Dispatch_Loop Job_Service_Laws Lease_Frame
begin

text \<open>
  What the scheduler loop guarantees: it writes only through the operations of the job store, the
  ledger and the lease, it holds before anything is touched when a running job is not accounted
  for, one dispatch is carried out as a whole or undone whatever other processes do to other
  rows meanwhile, and the loop gives its lease back unless the startup pass raises or the
  database refuses the release.
\<close>

section \<open>The tick is made of the writers' steps\<close>

inductive world_step :: "world \<Rightarrow> world \<Rightarrow> bool" where
  ws_jobs: "job_step (w_jobs w) db \<Longrightarrow> world_step w (w\<lparr>w_jobs := db\<rparr>)"
| ws_owner: "ledger_step\<^sup>*\<^sup>* (w_owner w) db \<Longrightarrow> od_leases db = od_leases (w_owner w) \<Longrightarrow> world_step w (w\<lparr>w_owner := db\<rparr>)"
| ws_lease: "lease_op (w_owner w) db \<Longrightarrow> world_step w (w\<lparr>w_owner := db\<rparr>)"

definition world_inv :: "world \<Rightarrow> bool" where
  \<comment> \<open>the invariants of the jobs, of the ledger and of the leases\<close>
  "world_inv w \<longleftrightarrow> service_inv (w_jobs w) \<and> ledger_inv (w_owner w) \<and> leases_ok (od_leases (w_owner w))"

lemma lease_op_ledger: "lease_op db db' \<Longrightarrow> ledger_step\<^sup>*\<^sup>* db db'"
proof -
  assume "lease_op db db'"
  then obtain ls where "db' = (ensure_tables db)\<lparr>od_leases := ls\<rparr>" using lease_op_frame by blast
  moreover have "ledger_step db (ensure_tables db)" by (rule ls_tables)
  moreover have "ledger_step (ensure_tables db) ((ensure_tables db)\<lparr>od_leases := ls\<rparr>)" by (rule ls_lease)
  ultimately show ?thesis by (meson r_into_rtranclp rtranclp.rtrancl_into_rtrancl)
qed

lemma world_step_inv:
  assumes "world_inv w" "world_step w w'"
  shows "world_inv w'"
  using assms(2,1)
proof cases
  case (ws_owner db)
  then show ?thesis using assms(1) ledger.steps_inv [OF ws_owner(2)] by (simp add: world_inv_def)
next
  case (ws_lease db)
  then show ?thesis
    using assms(1) ledger.steps_inv [OF lease_op_ledger [OF ws_lease(2)]] lease_op_ok by (simp add: world_inv_def)
qed (auto simp: world_inv_def intro: service_step)

interpretation worlds: stepwise world_step world_inv
  by unfold_locales (rule world_step_inv)

lemma jobs_steps: "job_step\<^sup>*\<^sup>* (w_jobs w) db \<Longrightarrow> world_step\<^sup>*\<^sup>* w (w\<lparr>w_jobs := db\<rparr>)"
proof (induction rule: rtranclp_induct)
  case (step y z)
  have "world_step (w\<lparr>w_jobs := y\<rparr>) (w\<lparr>w_jobs := y\<rparr>\<lparr>w_jobs := z\<rparr>)" by (rule ws_jobs) (simp add: step.hyps)
  then show ?case using step.IH by simp
qed simp

lemma owner_steps: "ledger_step\<^sup>*\<^sup>* (w_owner w) db \<Longrightarrow> od_leases db = od_leases (w_owner w) \<Longrightarrow> world_step\<^sup>*\<^sup>* w (w\<lparr>w_owner := db\<rparr>)"
  by (rule r_into_rtranclp) (rule ws_owner)

lemma world_steps_parts:
  "world_step\<^sup>*\<^sup>* w w' \<Longrightarrow> job_step\<^sup>*\<^sup>* (w_jobs w) (w_jobs w') \<and> ledger_step\<^sup>*\<^sup>* (w_owner w) (w_owner w')"
proof (induction rule: rtranclp_induct)
  case (step y z)
  from step.hyps(2) show ?case
    using step.IH by cases (auto intro: rtranclp.rtrancl_into_rtrancl rtranclp_trans dest: lease_op_ledger)
qed simp

definition moves :: "tick_state \<Rightarrow> tick_state \<Rightarrow> bool" where
  "moves s s' \<longleftrightarrow> world_step\<^sup>*\<^sup>* (ts_world s) (ts_world s')"

lemma moves_refl [simp]: "moves s s"
  by (simp add: moves_def)

lemma moves_trans: "moves a b \<Longrightarrow> moves b c \<Longrightarrow> moves a c"
  unfolding moves_def by (rule rtranclp_trans)

lemma moves_same: "ts_world s' = ts_world s \<Longrightarrow> moves s s'"
  by (simp add: moves_def)

lemma moves_jobs: "job_step\<^sup>*\<^sup>* (w_jobs (ts_world s)) db \<Longrightarrow> moves s (set_jobs db s)"
  by (simp add: moves_def jobs_steps)

lemma moves_owner:
  "ledger_step\<^sup>*\<^sup>* (w_owner (ts_world s)) db \<Longrightarrow> od_leases db = od_leases (w_owner (ts_world s)) \<Longrightarrow> moves s (set_owner db s)"
  by (simp add: moves_def owner_steps)

definition env_ok :: "tick_env \<Rightarrow> bool" where
  \<comment> \<open>the other processes, the recovery, the launcher and the coordinator write through the same operations\<close>
  "env_ok e \<longleftrightarrow> (\<forall>k w. world_step\<^sup>*\<^sup>* w (tk_others e k w)) \<and> (\<forall>run w. world_step\<^sup>*\<^sup>* w (re_recover (tk_recovery e) run w)) \<and>
     (\<forall>j d run w. world_step\<^sup>*\<^sup>* w (snd (tk_launch e j d run w))) \<and> tail_ok (tk_tail e)"

lemma read_clock_moves: "env_ok e \<Longrightarrow> moves s (snd (read_clock e s))"
  by (simp add: read_clock_def moves_def env_ok_def)

lemma lease_ok_moves:
  assumes "env_ok e"
  shows "moves s (snd (lease_ok e l s))"
proof -
  obtain t s1 where r: "read_clock e s = (t, s1)" by fastforce
  have "moves s s1" using read_clock_moves [OF assms, of s] r by simp
  moreover have "moves s1 (set_owner (ensure_tables (w_owner (ts_world s1))) s1)"
    by (rule moves_owner) (use ls_tables in \<open>blast, simp\<close>)
  ultimately show ?thesis using moves_trans by (simp add: lease_ok_def r check_lease_def)
qed

lemma set_waiting_step: "job_step\<^sup>*\<^sup>* db (snd (set_waiting i want eta conf now db))"
  using step_waiting [of db i want eta conf now]
  by (auto simp: set_waiting_def split: sum.splits option.splits)

lemma requeue_plain_step: "job_step\<^sup>*\<^sup>* db (snd (requeue i want None nb now db))"
  using step_requeue [of None db i want nb now] by (auto simp: resume_valid_def)

lemma exec_wait_moves: "moves s (exec_wait e d s)"
proof -
  let ?r = "case waiting_of (wd_reason d) of None \<Rightarrow> NO_CAPACITY | Some r \<Rightarrow> r"
  obtain x db where x: "set_waiting (job_id (wd_job d)) ?r (map_option isoformat (wd_eta d)) (wd_confidence d) (tk_now e)
      (w_jobs (ts_world s)) = (x, db)" by fastforce
  have "moves s (set_jobs db s)"
    using set_waiting_step [of "w_jobs (ts_world s)" "job_id (wd_job d)" ?r "map_option isoformat (wd_eta d)"
        "wd_confidence d" "tk_now e"] x by (intro moves_jobs) simp
  moreover have "ts_world (exec_wait e d s) = ts_world (set_jobs db s)"
    unfolding exec_wait_def Let_def x by (cases x) simp_all
  ultimately show ?thesis by (simp add: moves_def)
qed

lemma due_probes_steps: "ledger_step\<^sup>*\<^sup>* db (snd (run_due_probes env selectors force now db))"
proof -
  let ?db = "ensure_tables db"
  obtain active db1 where a: "owner_active_exclusions now ?db = (active, db1)"
    by (cases "owner_active_exclusions now ?db") auto
  have "ledger_step\<^sup>*\<^sup>* db ?db" using ls_tables by blast
  moreover have "ledger_step\<^sup>*\<^sup>* ?db db1" using owner_active_steps [of ?db now] a by simp
  moreover have "ledger_step\<^sup>*\<^sup>* db1 (snd (run_due_probes env selectors force now db))"
    using probe_loop_lifts [OF subset_refl, of env selectors force active now db1]
    by (simp add: run_due_probes_def a lifts_only_def)
  ultimately show ?thesis by (auto intro: rtranclp_trans)
qed

lemma exec_probe_moves: "moves s (exec_probe e d s)"
  using owner_steps [OF due_probes_steps due_probes_leases, of "ts_world s"] by (simp add: moves_def exec_probe_def)

lemma requeue_now_moves:
  assumes "env_ok e"
  shows "moves s (requeue_now e i s)"
proof -
  obtain t s1 where r: "read_clock e s = (t, s1)" by fastforce
  have "moves s s1" using read_clock_moves [OF assms, of s] r by simp
  moreover have "moves s1 (requeue_now e i s)"
    unfolding requeue_now_def r by (simp add: moves_jobs requeue_plain_step)
  ultimately show ?thesis by (rule moves_trans)
qed

lemma release_now_moves:
  assumes "env_ok e"
  shows "moves s (release_now e run s)"
proof -
  obtain t s1 where r: "read_clock e s = (t, s1)" by fastforce
  have "moves s s1" using read_clock_moves [OF assms, of s] r by simp
  moreover have "ledger_step\<^sup>*\<^sup>* (w_owner (ts_world s1)) (snd (release run t (w_owner (ts_world s1))))"
    using ls_release by blast
  then have "moves s1 (release_now e run s)" unfolding release_now_def r by (simp add: moves_owner lease_frame)
  ultimately show ?thesis by (rule moves_trans)
qed

lemma compensate_moves: "env_ok e \<Longrightarrow> moves s (compensate e run i s)"
  unfolding compensate_def by (rule moves_trans [OF release_now_moves requeue_now_moves])

lemma launch_step_moves:
  assumes "env_ok e"
  shows "moves s (snd (launch_step e l d run j s))"
proof -
  obtain ok s1 where ok: "lease_ok e l s = (ok, s1)" by fastforce
  have 1: "moves s s1" using lease_ok_moves [OF assms, of s l] ok by simp
  obtain fine w where w: "tk_launch e j d run (ts_world s1) = (fine, w)" by fastforce
  have 2: "moves s1 (s1\<lparr>ts_world := w\<rparr>)"
    using assms w unfolding env_ok_def moves_def by (metis snd_conv tick_state.select_convs(1) tick_state.surjective tick_state.update_convs(1))
  have "moves s1 (snd (launch_step e l d run j s))"
    using 2 moves_trans [OF 2 compensate_moves [OF assms]] compensate_moves [OF assms]
    by (auto simp: launch_step_def ok w moves_def split: bool.splits)
  then show ?thesis by (rule moves_trans [OF 1])
qed

lemma reserve_step_moves:
  assumes "env_ok e"
  shows "moves s (snd (reserve_step e l d run j s))"
proof -
  obtain ok s1 where ok: "lease_ok e l s = (ok, s1)" by fastforce
  have 1: "moves s s1" using lease_ok_moves [OF assms, of s l] ok by simp
  let ?r = "reserve run (Some (job_id (ds_job d))) (route_text (ds_candidate d)) (tick_draws e d)
      (or_text (rq_size_hint (job_requirements (ds_job d))) ''M'') (tk_row_ids e run) (tk_now e) (w_owner (ts_world s1))"
  obtain x db where x: "?r = (x, db)" by fastforce
  have "ledger_step (w_owner (ts_world s1)) (snd ?r)" by (rule ls_reserve)
  then have 2: "moves s1 (set_owner db s1)"
    using x reserve_leases [of run "Some (job_id (ds_job d))" "route_text (ds_candidate d)" "tick_draws e d"
        "or_text (rq_size_hint (job_requirements (ds_job d))) ''M''" "tk_row_ids e run" "tk_now e" "w_owner (ts_world s1)"]
    by (intro moves_owner) auto
  have "moves s1 (snd (reserve_step e l d run j s))"
    using moves_trans [OF 2 compensate_moves [OF assms]] moves_trans [OF 2 launch_step_moves [OF assms]] requeue_now_moves [OF assms]
    by (cases ok; cases x) (simp_all add: reserve_step_def ok x Let_def)
  then show ?thesis by (rule moves_trans [OF 1])
qed

lemma exec_dispatch_moves:
  assumes "env_ok e"
  shows "moves s (snd (exec_dispatch e l d s))"
proof -
  obtain ok s1 where ok: "lease_ok e l s = (ok, s1)" by fastforce
  have 1: "moves s s1" using lease_ok_moves [OF assms, of s l] ok by simp
  let ?run = "tk_run_id e (ts_runs s1)"
  let ?s2 = "s1\<lparr>ts_runs := ts_runs s1 + 1\<rparr>"
  obtain x db where x: "mark_dispatched (job_id (ds_job d)) ?run (tk_now e) (w_jobs (ts_world ?s2)) = (x, db)" by fastforce
  have "job_step (w_jobs (ts_world ?s2)) db" using step_dispatch [of "w_jobs (ts_world ?s2)"] x by (metis snd_conv)
  then have "moves ?s2 (set_jobs db ?s2)" by (intro moves_jobs) auto
  then have 2: "moves s1 (set_jobs db ?s2)" by (simp add: moves_def)
  have "moves s1 (snd (exec_dispatch e l d s))"
    using 2 moves_trans [OF 2 reserve_step_moves [OF assms]] x
    by (cases ok; cases x) (simp_all add: exec_dispatch_def ok Let_def)
  then show ?thesis by (rule moves_trans [OF 1])
qed

lemma exec_decisions_moves: "env_ok e \<Longrightarrow> moves s (snd (exec_decisions e l ds s))"
proof (induction e l ds s rule: exec_decisions.induct)
  case (4 e l d ds s)
  obtain out s1 where out: "exec_dispatch e l d s = (out, s1)" by fastforce
  have "moves s (snd (exec_dispatch e l d s))" by (rule exec_dispatch_moves [OF \<open>env_ok e\<close>])
  then have 1: "moves s s1" by (simp add: out)
  have "moves s1 (snd (exec_decisions e l ds s1))" if "out \<in> {Claim_refused, Reserve_failed, Launched, Launch_kept, Launch_undone}"
    using 4 that out by auto
  then show ?case using 1 moves_trans [OF 1] by (cases out) (simp_all add: out)
qed (auto intro: moves_trans exec_probe_moves exec_wait_moves)

lemma finish_snd:
  "snd (case p of (Inr k, db') \<Rightarrow> (Inr (g k), db') | (Inl JobConflict, db') \<Rightarrow> (Inr None, db')
          | (Inl JobTransition, db') \<Rightarrow> (Inr None, db') | (Inl e, db') \<Rightarrow> (Inl e, db')) = snd p"
proof (cases p)
  case (Pair x d)
  show ?thesis
  proof (cases x)
    case (Inl e)
    then show ?thesis using Pair by (cases e) simp_all
  qed (simp add: Pair)
qed

lemma reconcile_job_snd:
  "job_current_run_id j = Some run \<Longrightarrow> snd (reconcile_job st tail now j db) =
     (case st run of None \<Rightarrow> snd (reconcile_transition (job_id j) FAILED (Some RUN_MISSING) now db)
      | Some Run_completed \<Rightarrow> snd (reconcile_transition (job_id j) SUCCEEDED None now db)
      | Some Run_failed \<Rightarrow> snd (reconcile_transition (job_id j) FAILED (Some RUN_FAILED) now db)
      | Some Run_preempted \<Rightarrow> snd (tail j run db) | _ \<Rightarrow> db)"
  by (simp add: reconcile_job_def Let_def finish_snd split: option.split run_status.split)
     (auto split: prod.splits option.splits)

lemma tail_loop_steps:
  assumes "tail_ok tail"
  shows "job_step\<^sup>*\<^sup>* db (snd (reconcile_loop st tail now js db))"
proof (induction js arbitrary: db)
  case (Cons j js)
  have one: "job_step\<^sup>*\<^sup>* d (snd (reconcile_transition i t f now d))" if "reconcile_args_ok t f" for i t f d
    using step_reconcile [OF that, of d i now] by (auto simp: reconcile_transition_def split: sum.splits option.splits)
  have args: "reconcile_args_ok FAILED (Some RUN_MISSING)" "reconcile_args_ok FAILED (Some RUN_FAILED)" "reconcile_args_ok SUCCEEDED None"
    by (simp_all add: reconcile_args_ok_def failure_reason_known_def)
  have t: "job_step\<^sup>*\<^sup>* d (snd (tail k run d))" for k run d using assms by (simp add: tail_ok_def)
  obtain c d where c: "reconcile_job st tail now j db = (c, d)" by fastforce
  have "job_step\<^sup>*\<^sup>* db (snd (reconcile_job st tail now j db))"
  proof (cases "job_current_run_id j")
    case (Some run)
    then show ?thesis using one [OF args(1)] one [OF args(2)] one [OF args(3)] t
      by (auto simp: reconcile_job_snd split: option.splits run_status.splits)
  qed (simp add: reconcile_job_def)
  then have "job_step\<^sup>*\<^sup>* db d" by (simp add: c)
  then show ?case
    using rtranclp_trans [OF \<open>job_step\<^sup>*\<^sup>* db d\<close> Cons.IH [of d]]
    by (auto simp: c split: sum.splits prod.splits)
qed simp

lemma reconcile_steps: "tail_ok tail \<Longrightarrow> job_step\<^sup>*\<^sup>* db (snd (reconcile_jobs st tail now db))"
  by (auto simp: reconcile_jobs_def tail_loop_steps split: sum.splits)

lemma settle_changes_leases: "od_leases (fold (settle_change now) cs db) = od_leases db"
  by (rule fold_leases) (simp add: settle_change_def lease_frame)

lemma settle_changes_steps: "ledger_step\<^sup>*\<^sup>* db (fold (settle_change now) cs db)"
proof (induction cs arbitrary: db)
  case (Cons c cs)
  have "ledger_step\<^sup>*\<^sup>* db (settle_change now c db)"
    using ls_settle [of db "rc_run_id c" None now] ls_release [of db "rc_run_id c" now] by (auto simp: settle_change_def)
  then show ?case using rtranclp_trans [OF _ Cons.IH] by simp
qed simp

lemma settle_debt_steps: "ledger_step\<^sup>*\<^sup>* (snd acc) (snd (settle_debt env guard now jobs d acc))"
proof -
  obtain st db where acc: "acc = (st, db)" by fastforce
  obtain n db' where r: "release_terminal_debt (rd_run_id d) (rd_job_id d) guard False now db = (n, db')" by fastforce
  have "ledger_step db db'" using ls_release_debt [of db "rd_run_id d" "rd_job_id d" guard False now] r by simp
  then show ?thesis by (auto simp: acc settle_debt_def r Let_def)
qed

lemma settle_debt_leases: "od_leases (snd (settle_debt env guard now jobs d acc)) = od_leases (snd acc)"
proof -
  obtain st db where acc: "acc = (st, db)" by fastforce
  obtain n db' where r: "release_terminal_debt (rd_run_id d) (rd_job_id d) guard False now db = (n, db')" by fastforce
  have "od_leases db' = od_leases db" using release_debt_leases [of "rd_run_id d" "rd_job_id d" guard False now db] r by simp
  then show ?thesis by (auto simp: acc settle_debt_def r Let_def)
qed

lemma settle_page_leases: "od_leases (snd (fold (settle_debt env guard now jobs) page acc)) = od_leases (snd acc)"
  by (induction page arbitrary: acc) (simp_all add: settle_debt_leases)

lemma settle_page_steps: "ledger_step\<^sup>*\<^sup>* (snd acc) (snd (fold (settle_debt env guard now jobs) page acc))"
proof (induction page arbitrary: acc)
  case (Cons d page)
  show ?case using rtranclp_trans [OF settle_debt_steps Cons.IH] by simp
qed simp

lemma settle_pages_steps:
  "settle_pages fuel env guard n now jobs cursor acc = Some (Inr acc') \<Longrightarrow>
     ledger_step\<^sup>*\<^sup>* (snd acc) (snd acc') \<and> od_leases (snd acc') = od_leases (snd acc)"
proof (induction fuel arbitrary: cursor acc)
  case (Suc fuel)
  obtain page where page: "list_reserved_debts n cursor (snd acc) = Inr page" using Suc.prems by (auto split: sum.splits)
  let ?acc = "fold (settle_debt env guard now jobs) page acc"
  have "ledger_step\<^sup>*\<^sup>* (snd acc) (snd ?acc)" by (rule settle_page_steps)
  moreover have "acc' = acc \<or> acc' = ?acc \<or> ledger_step\<^sup>*\<^sup>* (snd ?acc) (snd acc') \<and> od_leases (snd acc') = od_leases (snd ?acc)"
    using Suc.prems Suc.IH page by (auto simp: Let_def split: if_splits)
  moreover have "od_leases (snd ?acc) = od_leases (snd acc)" by (rule settle_page_leases)
  ultimately show ?case by (auto intro: rtranclp_trans)
qed simp

lemma recover_interrupted_steps:
  assumes "env_ok e"
  shows "world_step\<^sup>*\<^sup>* w (snd (recover_interrupted (tk_recovery e) js pending blocked w))"
proof (induction js arbitrary: pending blocked w)
  case (Cons j js)
  have "world_step\<^sup>*\<^sup>* w (re_recover (tk_recovery e) run w)" for run using assms by (simp add: env_ok_def)
  from rtranclp_trans [OF this Cons.IH] show ?case using Cons.IH by (simp split: option.split prod.split)
qed simp

lemma preemption_pass_moves:
  assumes "env_ok e"
  shows "moves s (snd (preemption_pass e l s))"
proof -
  obtain t s1 where r: "read_clock e s = (t, s1)" by fastforce
  have 1: "moves s s1" using read_clock_moves [OF assms, of s] r by simp
  let ?rp = "reconcile_preemptions ((tk_debts e)\<lparr>de_injected := Some (\<lambda>run. Some (tk_status e run))\<rparr>)
               (Some (tk_recovery e)) (Some (lease_still_valid l t)) 200 (tk_now e) (ts_world s1)"
  have "world_step\<^sup>*\<^sup>* (ts_world s1) w" if rp: "?rp = Some (Inr (p, w))" for p w
  proof -
    let ?sp = "settle_preemption_debts ((tk_debts e)\<lparr>de_injected := Some (\<lambda>run. Some (tk_status e run))\<rparr>)
        (Some (lease_still_valid l t)) 200 (tk_now e) (ts_world s1)"
    have "(1 :: int) \<le> 200" by simp
    from settlement_ends [OF this] obtain x where x: "?sp = Some (Inr x)" by blast
    obtain st db where st: "?sp = Some (Inr (st, db))" "w = snd (scan_interrupted (tk_recovery e) ((ts_world s1)\<lparr>w_owner := db\<rparr>))"
      using rp x by (cases x) (auto simp: reconcile_preemptions_def case_prod_beta)
    have "world_step\<^sup>*\<^sup>* (ts_world s1) ((ts_world s1)\<lparr>w_owner := db\<rparr>)"
      using settle_pages_steps [OF st(1) [unfolded settle_preemption_debts_def]] by (intro owner_steps) simp_all
    moreover have "world_step\<^sup>*\<^sup>* ((ts_world s1)\<lparr>w_owner := db\<rparr>) w" using assms st(2) by (simp add: scan_interrupted_def recover_interrupted_steps)
    ultimately show ?thesis by (rule rtranclp_trans)
  qed
  then have "moves s1 (snd (preemption_pass e l s))"
    unfolding preemption_pass_def r by (auto simp: moves_def split: option.splits sum.splits prod.splits)
  then show ?thesis by (rule moves_trans [OF 1])
qed

lemma tick_decide_moves:
  assumes "env_ok e"
  shows "moves s (snd (tick_decide e l cs recon s))"
proof -
  obtain quotas db1 where q: "effective_quota_states (tk_seam_env e) (tk_seam_policies e) True (tk_now e) (w_owner (ts_world s)) = (quotas, db1)"
    by fastforce
  have "ledger_step\<^sup>*\<^sup>* (w_owner (ts_world s)) db1"
    using seam_steps [of "w_owner (ts_world s)" "tk_seam_env e" "tk_seam_policies e" True "tk_now e"] q by simp
  then have "ledger_step\<^sup>*\<^sup>* (w_owner (ts_world s)) (ensure_tables db1)" using ls_tables by (rule rtranclp.rtrancl_into_rtrancl)
  moreover have "od_leases (ensure_tables db1) = od_leases (w_owner (ts_world s))"
    using seam_leases [of "tk_seam_env e" "tk_seam_policies e" True "tk_now e" "w_owner (ts_world s)"] q by simp
  ultimately have 1: "moves s (set_owner (ensure_tables db1) s)" by (rule moves_owner)
  have 2: "moves s (snd (exec_decisions e l ds (set_owner (ensure_tables db1) s)))" for ds
    by (rule moves_trans [OF 1 exec_decisions_moves [OF assms]])
  have 3: "moves s s2" if "exec_decisions e l ds (set_owner (ensure_tables db1) s) = (x, s2)" for ds x s2
    using 2 [of ds] that by simp
  show ?thesis
    unfolding tick_decide_def Let_def q
    using 1 by (auto split: sum.splits option.splits prod.splits dest: 3)
qed

lemma tick_run_moves:
  assumes "env_ok e"
  shows "moves s (snd (tick_run e l s))"
proof -
  obtain x db where x: "reconcile_jobs (tk_status e) (tk_tail e) (tk_now e) (w_jobs (ts_world s)) = (x, db)" by fastforce
  have "job_step\<^sup>*\<^sup>* (w_jobs (ts_world s)) db"
    using reconcile_steps [of "tk_tail e" "w_jobs (ts_world s)" "tk_status e" "tk_now e"] assms x by (simp add: env_ok_def)
  then have 1: "moves s (set_jobs db s)" by (rule moves_jobs)
  let ?s2 = "\<lambda>cs. set_owner (fold (settle_change (tk_now e)) cs (w_owner (ts_world (set_jobs db s)))) (set_jobs db s)"
  have 2: "moves s (?s2 cs)" for cs
    by (rule moves_trans [OF 1 moves_owner [OF settle_changes_steps settle_changes_leases]])
  have 3: "moves s (snd (tick_decide e l cs recon s3))" if "preemption_pass e l (?s2 cs) = (recon, s3)" for cs recon s3
    using moves_trans [OF moves_trans [OF 2 preemption_pass_moves [OF assms]] tick_decide_moves [OF assms]] that by (metis snd_conv)
  show ?thesis
  proof (cases x)
    case (Inr cs)
    obtain recon s3 where "preemption_pass e l (?s2 cs) = (recon, s3)" by fastforce
    then show ?thesis using 2 [of cs] 3 Inr by (auto simp: tick_run_def x Let_def)
  qed (use 1 in \<open>simp add: tick_run_def x\<close>)
qed

lemma tick_steps:
  assumes "env_ok e"
  shows "world_step\<^sup>*\<^sup>* w (snd (scheduler_tick e l w))"
proof -
  obtain ok s where ok: "lease_ok e l (start_tick w) = (ok, s)" by fastforce
  have 1: "moves (start_tick w) s" using lease_ok_moves [OF assms, of "start_tick w" l] ok by simp
  have 2: "moves (start_tick w) (snd (tick_run e l s))" by (rule moves_trans [OF 1 tick_run_moves [OF assms]])
  have "world_step\<^sup>*\<^sup>* w (ts_world s)" "world_step\<^sup>*\<^sup>* w (ts_world (snd (tick_run e l s)))"
    using 1 2 by (simp_all add: moves_def start_tick_def)
  then show ?thesis
    by (auto simp: scheduler_tick_def ok split: bool.splits option.splits sum.splits prod.splits)
qed

section \<open>Holding before anything is touched\<close>

definition unaccounted :: "tick_env \<Rightarrow> world \<Rightarrow> job_row \<Rightarrow> bool" where
  \<comment> \<open>a running job without a run, without reserved capacity, or whose run nobody can see\<close>
  "unaccounted e w r \<longleftrightarrow> jr_state r = state_value RUNNING \<and>
     (\<not> truthy (jr_current_run_id r) \<or> the (jr_current_run_id r) \<notin> reserved_run_ids (w_owner w) \<or>
      tk_status e (the (jr_current_run_id r)) = None)"

definition holds_back :: "job_error + tick_result \<Rightarrow> bool" where
  \<comment> \<open>the tick raised, or it reports that it did not run\<close>
  "holds_back x = (case x of Inl _ \<Rightarrow> True | Inr t \<Rightarrow> \<not> tr_ran t \<and> tr_reason t \<noteq> None \<and> tr_dispatched t = 0)"

lemma held_holds_back [simp]:
  "holds_back (Inr (held reason))" "holds_back (Inr ((held reason)\<lparr>tr_legacy_running := xs\<rparr>))"
  "holds_back (Inr ((held reason)\<lparr>tr_unresolved_running := xs\<rparr>))" "holds_back (Inr ((held reason)\<lparr>tr_storage_reason := x\<rparr>))"
  "holds_back (Inl err)"
  by (simp_all add: holds_back_def held_def)

lemma load_rows_all2: "load_rows rs = Inr js \<Longrightarrow> list_all2 (\<lambda>r j. row_to_job r = Inr j) rs js"
  by (induction rs arbitrary: js) (auto simp: load_row_def split: sum.splits)

lemma list_all2_partner: "list_all2 P xs ys \<Longrightarrow> x \<in> set xs \<Longrightarrow> \<exists>y \<in> set ys. P x y"
  by (induction rule: list_all2_induct) auto

lemma running_check_holds:
  assumes "r \<in> set (db_jobs (w_jobs w))" "unaccounted e w r"
    "length (filter (\<lambda>r. jr_state r = state_value RUNNING) (db_jobs (w_jobs w))) \<le> job_scan_limit"
  shows "case running_check e w of Inl err \<Rightarrow> True | Inr None \<Rightarrow> False | Inr (Some hold) \<Rightarrow> holds_back (Inr hold)"
proof (cases "truthy (jr_current_run_id r)")
  case False
  then have "r \<in> set (filter null_run_row (db_jobs (w_jobs w)))"
    using assms(1,2) by (simp add: null_run_row_def unaccounted_def)
  then have "map jr_job_id (filter null_run_row (db_jobs (w_jobs w))) \<noteq> []" by (metis map_is_Nil_conv list.set(1) empty_iff)
  then show ?thesis by (simp add: running_check_def Let_def)
next
  case True
  show ?thesis
  proof (cases "list_jobs_raw (Some RUNNING) job_scan_limit (w_jobs w)")
    case (Inl err)
    then show ?thesis by (simp add: running_check_def Let_def)
  next
    case (Inr js)
    obtain rs where rs: "list_all2 (\<lambda>r j. row_to_job r = Inr j) rs js" "r \<in> set rs"
      using Inr assms(1,2,3) load_rows_all2 [of _ js] by (fastforce simp: list_jobs_raw_def unaccounted_def)
    then obtain j where j: "j \<in> set js" "row_to_job r = Inr j" using list_all2_partner [OF rs] by blast
    then have run: "job_current_run_id j = jr_current_run_id r" using row_to_job_fields(3) by blast
    have "job_id j \<in> set (map job_id (filter (legacy_job (w_owner w)) js)) \<or>
       job_id j \<in> set (map job_id (filter (\<lambda>j. \<not> legacy_job (w_owner w) j \<and> tk_status e (the (job_current_run_id j)) = None) js))"
      using j(1) assms(2) True run unfolding unaccounted_def legacy_job_def by auto
    then have "map job_id (filter (legacy_job (w_owner w)) js) \<noteq> [] \<or>
       map job_id (filter (\<lambda>j. \<not> legacy_job (w_owner w) j \<and> tk_status e (the (job_current_run_id j)) = None) js) \<noteq> []"
      by (metis empty_iff list.set(1))
    then show ?thesis using Inr by (auto simp: running_check_def Let_def)
  qed
qed

lemma lease_ok_world:
  "lease_ok e l s = (ok, s') \<Longrightarrow>
     ok = lease_still_valid l (tk_clock e (ts_reads s)) (w_owner (tk_others e (ts_reads s) (ts_world s))) \<and>
     s' = s\<lparr>ts_world := (tk_others e (ts_reads s) (ts_world s))\<lparr>w_owner := ensure_tables (w_owner (tk_others e (ts_reads s) (ts_world s)))\<rparr>,
            ts_reads := ts_reads s + 1\<rparr>"
  by (auto simp: lease_ok_def read_clock_def check_lease_def lease_still_valid_def)

text \<open>C20: The tick fails closed.  When at its first reading of the clock the scheduler does not hold a
  valid lease, the launch guard objects, or some running job has no run, no reserved capacity or
  a run whose status cannot be seen, the tick reports that it did not run (or raises), nothing is
  dispatched, and the databases are left as they were found, but for the tables being created.\<close>
theorem tick_fails_closed:
  assumes "found = tk_others e 0 w"
    "length (filter (\<lambda>r. jr_state r = state_value RUNNING) (db_jobs (w_jobs found))) \<le> job_scan_limit"
    "\<not> lease_still_valid l (tk_clock e 0) (w_owner found) \<or> tk_launch_guard e \<noteq> None \<or>
     (\<exists>r \<in> set (db_jobs (w_jobs found)). unaccounted e found r)"
  shows "\<exists>x. scheduler_tick e l w = (x, found\<lparr>w_owner := ensure_tables (w_owner found)\<rparr>) \<and> holds_back x"
proof -
  obtain ok s where ok: "lease_ok e l (start_tick w) = (ok, s)" by fastforce
  have s: "ok = lease_still_valid l (tk_clock e 0) (w_owner found)" "ts_world s = found\<lparr>w_owner := ensure_tables (w_owner found)\<rparr>"
    using lease_ok_world [OF ok] assms(1) by (simp_all add: start_tick_def)
  show ?thesis
  proof (cases "ok \<and> tk_launch_guard e = None")
    case False
    then show ?thesis using s(2) by (cases ok) (auto simp: scheduler_tick_def ok)
  next
    case True
    then obtain r where r: "r \<in> set (db_jobs (w_jobs (ts_world s)))" "unaccounted e (ts_world s) r"
      using assms(3) s by (auto simp: unaccounted_def reserved_run_ids_def)
    have "length (filter (\<lambda>r. jr_state r = state_value RUNNING) (db_jobs (w_jobs (ts_world s)))) \<le> job_scan_limit"
      using assms(2) s(2) by simp
    from running_check_holds [OF r this] show ?thesis
      using True s(2) by (auto simp: scheduler_tick_def ok split: sum.splits option.splits)
  qed
qed

section \<open>One dispatch\<close>

definition run_rows :: "string \<Rightarrow> owner_db \<Rightarrow> reservation_row list" where
  "run_rows run db = filter (\<lambda>x. rr_run_id x = run) (od_reservations db)"

definition other_rows :: "string \<Rightarrow> owner_db \<Rightarrow> reservation_row list" where
  "other_rows run db = filter (\<lambda>x. rr_run_id x \<noteq> run) (od_reservations db)"

definition apart :: "string \<Rightarrow> string \<Rightarrow> world \<Rightarrow> world \<Rightarrow> bool" where
  \<comment> \<open>the job's row and the run's reservations are the same in both worlds\<close>
  "apart i run w w' \<longleftrightarrow> find_row i (w_jobs w') = find_row i (w_jobs w) \<and> run_rows run (w_owner w') = run_rows run (w_owner w)"

definition others_apart :: "tick_env \<Rightarrow> nat \<Rightarrow> string \<Rightarrow> string \<Rightarrow> bool" where
  \<comment> \<open>rely: from reading \<open>n\<close> on, other processes leave this job's row and this run's reservations alone;
     the lease, the other jobs and the other reservations are theirs to write\<close>
  "others_apart e n i run \<longleftrightarrow> (\<forall>k \<ge> n. \<forall>w. apart i run w (tk_others e k w))"

definition launch_apart :: "tick_env \<Rightarrow> string \<Rightarrow> string \<Rightarrow> bool" where
  \<comment> \<open>so does a launch that raises and leaves no run behind\<close>
  "launch_apart e i run \<longleftrightarrow>
     (\<forall>j d w. \<not> fst (tk_launch e j d run w) \<and> \<not> tk_run_exists e run \<longrightarrow> apart i run w (snd (tk_launch e j d run w)))"

inductive attempt_step :: "tick_env \<Rightarrow> string \<Rightarrow> string \<Rightarrow> world \<Rightarrow> world \<Rightarrow> bool" for e i run where
  \<comment> \<open>guarantee: between two steps of other processes, only this job's row and this run's
     reservations are written\<close>
  at_job: "job_step (w_jobs w) db \<Longrightarrow> only_row i (w_jobs w) db \<Longrightarrow> attempt_step e i run w (w\<lparr>w_jobs := db\<rparr>)"
| at_reservations: "other_rows run ((w_owner w)\<lparr>od_reservations := rs\<rparr>) = other_rows run (w_owner w) \<Longrightarrow>
     attempt_step e i run w (w\<lparr>w_owner := (ensure_tables (w_owner w))\<lparr>od_reservations := rs\<rparr>\<rparr>)"
| at_other: "attempt_step e i run w (tk_others e k w)"

abbreviation attempt :: "tick_env \<Rightarrow> string \<Rightarrow> string \<Rightarrow> world \<Rightarrow> world \<Rightarrow> bool" where
  "attempt e i run \<equiv> (attempt_step e i run)\<^sup>*\<^sup>*"

definition runs_here :: "string \<Rightarrow> string \<Rightarrow> job_row \<Rightarrow> job \<Rightarrow> world \<Rightarrow> bool" where
  \<comment> \<open>the job's row, found queued as \<open>r\<close>, runs the run, and \<open>j\<close> is what that row loads as\<close>
  "runs_here i run r j w \<longleftrightarrow>
     (\<exists>r1. find_row i (w_jobs w) = Some r1 \<and> jr_state r1 = state_value RUNNING \<and> jr_current_run_id r1 = Some run \<and>
           jr_run_ids r1 = jr_run_ids r @ [run] \<and> row_to_job r1 = Inr j)"

definition waits_again :: "string \<Rightarrow> string \<Rightarrow> job_row \<Rightarrow> world \<Rightarrow> bool" where
  \<comment> \<open>the job is queued for capacity again; the run that was tried stays in its history\<close>
  "waits_again i run r w \<longleftrightarrow>
     (\<exists>r'. find_row i (w_jobs w) = Some r' \<and> jr_state r' = state_value QUEUED \<and>
           jr_waiting_reason r' = Some (waiting_value NO_CAPACITY) \<and> jr_current_run_id r' = None \<and>
           jr_run_ids r' = jr_run_ids r @ [run])"

definition books_draw :: "string \<Rightarrow> string \<Rightarrow> owner_db \<Rightarrow> pool_draw \<Rightarrow> bool" where
  "books_draw run i db d \<longleftrightarrow>
     (\<exists>x \<in> set (run_rows run db). rr_job_id x = Some i \<and> rr_state x = ''RESERVED'' \<and>
        rr_pool_id x = py_strip (dr_pool_id d) \<and> rr_window_id x = norm_window (dr_window_id d))"

definition stage :: "tick_env \<Rightarrow> string \<Rightarrow> string \<Rightarrow> job_row \<Rightarrow> job \<Rightarrow> world \<Rightarrow> world \<Rightarrow> bool" where
  \<comment> \<open>a world between the claim and the launch of an attempt that began in \<open>base\<close>\<close>
  "stage e i run r j base w \<longleftrightarrow> attempt e i run base w \<and> world_inv w \<and> runs_here i run r j w"

lemma rows_ensure [simp]:
  "run_rows run (ensure_tables db) = run_rows run db" "other_rows run (ensure_tables db) = other_rows run db"
  by (simp_all add: run_rows_def other_rows_def)

lemma lease_valid_tables [simp]: "lease_still_valid l t (ensure_tables db) = lease_still_valid l t db"
  by (simp add: lease_still_valid_def lease_row_of_def)

lemma run_rows_reserved: "run \<in> reserved_run_ids db \<longleftrightarrow> (\<exists>x \<in> set (run_rows run db). rr_state x = ''RESERVED'')"
  by (auto simp: reserved_run_ids_def run_rows_def)

lemma tables_same: "(ensure_tables db)\<lparr>od_reservations := od_reservations db\<rparr> = ensure_tables db"
  by (cases db) (simp add: ensure_tables_def)

lemma runs_here_apart: "runs_here i run r j w \<Longrightarrow> apart i run w w' \<Longrightarrow> runs_here i run r j w'"
  by (simp add: runs_here_def apart_def)

lemma stage_read:
  assumes "stage e i run r j base w" "env_ok e" "others_apart e n i run" "n \<le> k"
  shows "stage e i run r j base (tk_others e k w) \<and> run_rows run (w_owner (tk_others e k w)) = run_rows run (w_owner w)"
proof -
  have a: "apart i run w (tk_others e k w)" using assms(3,4) by (simp add: others_apart_def)
  have "attempt e i run base (tk_others e k w)"
    using assms(1) at_other [of e i run w k] by (auto simp: stage_def intro: rtranclp.rtrancl_into_rtrancl)
  moreover have "world_inv (tk_others e k w)"
    using assms(1,2) worlds.steps_inv [of w "tk_others e k w"] by (simp add: stage_def env_ok_def)
  ultimately show ?thesis using assms(1) runs_here_apart [OF _ a] a by (auto simp: stage_def apart_def)
qed

lemma stage_reservations:
  assumes "stage e i run r j base w" "world_inv (w\<lparr>w_owner := (ensure_tables (w_owner w))\<lparr>od_reservations := rs\<rparr>\<rparr>)"
    "other_rows run ((w_owner w)\<lparr>od_reservations := rs\<rparr>) = other_rows run (w_owner w)"
  shows "stage e i run r j base (w\<lparr>w_owner := (ensure_tables (w_owner w))\<lparr>od_reservations := rs\<rparr>\<rparr>)"
  using assms(1,2) at_reservations [OF assms(3), of e i]
  by (auto simp: stage_def runs_here_def intro: rtranclp.rtrancl_into_rtrancl)

lemma stage_tables:
  assumes "stage e i run r j base w"
  shows "stage e i run r j base (w\<lparr>w_owner := ensure_tables (w_owner w)\<rparr>)"
proof -
  have "world_inv (w\<lparr>w_owner := ensure_tables (w_owner w)\<rparr>)"
    using assms by (simp add: stage_def world_inv_def ledger_inv_def)
  then show ?thesis
    using stage_reservations [OF assms, of "od_reservations (ensure_tables (w_owner w))"]
    by (simp add: other_rows_def tables_same)
qed

lemma stage_lease:
  assumes "stage e i run r j base (ts_world s)" "env_ok e" "others_apart e n i run" "n \<le> ts_reads s" "lease_ok e l s = (ok, s1)"
  shows "stage e i run r j base (ts_world s1)" "run_rows run (w_owner (ts_world s1)) = run_rows run (w_owner (ts_world s))"
    "ok = lease_still_valid l (tk_clock e (ts_reads s)) (w_owner (ts_world s1))" "ts_reads s1 = ts_reads s + 1"
  using lease_ok_world [OF assms(5)] stage_read [OF assms(1-4)] stage_tables by auto

lemma requeue_now_effect:
  assumes "stage e i run r j base (ts_world s)" "env_ok e" "others_apart e n i run" "n \<le> ts_reads s"
  shows "attempt e i run base (ts_world (requeue_now e i s)) \<and> waits_again i run r (ts_world (requeue_now e i s)) \<and>
    run_rows run (w_owner (ts_world (requeue_now e i s))) = run_rows run (w_owner (ts_world s))"
proof -
  let ?w = "tk_others e (ts_reads s) (ts_world s)" and ?t = "tk_clock e (ts_reads s)"
  let ?db = "snd (requeue i NO_CAPACITY None None ?t (w_jobs ?w))"
  have st: "stage e i run r j base ?w" "run_rows run (w_owner ?w) = run_rows run (w_owner (ts_world s))"
    using stage_read [OF assms] by simp_all
  have w: "ts_world (requeue_now e i s) = ?w\<lparr>w_jobs := ?db\<rparr>" by (simp add: requeue_now_def read_clock_def)
  obtain r1 where r1: "find_row i (w_jobs ?w) = Some r1" "jr_state r1 = state_value RUNNING" "jr_run_ids r1 = jr_run_ids r @ [run]"
    using st(1) by (auto simp: stage_def runs_here_def)
  have inv: "job_db_inv (w_jobs ?w)" using st(1) by (simp add: stage_def world_inv_def service_inv_def)
  have "resume_valid None" by (simp add: resume_valid_def)
  from requeue_success [OF inv r1(1,2) this, of NO_CAPACITY None ?t]
  have "job_step (w_jobs ?w) ?db" "waits_again i run r (?w\<lparr>w_jobs := ?db\<rparr>)" using r1(3) by (auto simp: waits_again_def)
  moreover have "attempt_step e i run ?w (?w\<lparr>w_jobs := ?db\<rparr>)"
    by (rule at_job) (use \<open>job_step (w_jobs ?w) ?db\<close> only_row_requeue in \<open>blast+\<close>)
  ultimately show ?thesis
    using st unfolding w stage_def by (auto intro: rtranclp.rtrancl_into_rtrancl)
qed

lemma owner_set: "w_owner (w\<lparr>w_owner := db\<rparr>) = db"
  by simp

lemma released_ids:
  "(\<And>y. rr_run_id (f y) = run \<Longrightarrow> rr_state (f y) \<noteq> ''RESERVED'') \<Longrightarrow> run \<notin> reserved_run_ids (db\<lparr>od_reservations := map f xs\<rparr>)"
  by (auto simp: reserved_run_ids_def)

lemma release_now_effect:
  assumes "stage e i run r j base (ts_world s)" "env_ok e" "others_apart e n i run" "n \<le> ts_reads s" "py_strip run = run" "run \<noteq> []"
  shows "stage e i run r j base (ts_world (release_now e run s)) \<and> run \<notin> reserved_run_ids (w_owner (ts_world (release_now e run s))) \<and>
    ts_reads (release_now e run s) = ts_reads s + 1"
proof -
  let ?w = "tk_others e (ts_reads s) (ts_world s)" and ?t = "tk_clock e (ts_reads s)"
  let ?f = "\<lambda>x. if rr_run_id x = run \<and> rr_state x = ''RESERVED'' then x\<lparr>rr_state := ''RELEASED'', rr_settled_at := Some (isoformat ?t)\<rparr> else x"
  let ?rs = "map ?f (od_reservations (w_owner ?w))"
  have st: "stage e i run r j base ?w" using stage_read [OF assms(1-4)] by simp
  have w: "ts_world (release_now e run s) = ?w\<lparr>w_owner := (ensure_tables (w_owner ?w))\<lparr>od_reservations := ?rs\<rparr>\<rparr>"
    using assms(5,6) by (simp add: release_now_def read_clock_def release_def update_reservations_def)
  have "moves s (release_now e run s)" by (rule release_now_moves [OF assms(2)])
  then have "world_inv (ts_world (release_now e run s))"
    using assms(1) worlds.steps_inv by (auto simp: stage_def moves_def)
  moreover have "filter (\<lambda>x. rr_run_id x \<noteq> run) (map ?f xs) = filter (\<lambda>x. rr_run_id x \<noteq> run) xs" for xs
    by (induction xs) auto
  ultimately have "stage e i run r j base (ts_world (release_now e run s))"
    unfolding w by (intro stage_reservations [OF st]) (simp_all add: other_rows_def)
  moreover have "run \<notin> reserved_run_ids (w_owner (ts_world (release_now e run s)))"
    unfolding w owner_set by (rule released_ids) (simp split: if_splits)
  moreover have "ts_reads (release_now e run s) = ts_reads s + 1" by (simp add: release_now_def read_clock_def)
  ultimately show ?thesis by blast
qed

definition gives_up :: "tick_env \<Rightarrow> string \<Rightarrow> string \<Rightarrow> job_row \<Rightarrow> world \<Rightarrow> world \<Rightarrow> bool" where
  "gives_up e i run r w w' \<longleftrightarrow> attempt e i run w w' \<and> waits_again i run r w' \<and> run \<notin> reserved_run_ids (w_owner w')"

lemma compensate_effect:
  assumes "stage e i run r j base (ts_world s)" "env_ok e" "others_apart e n i run" "n \<le> ts_reads s" "py_strip run = run" "run \<noteq> []"
  shows "gives_up e i run r base (ts_world (compensate e run i s))"
proof -
  note rel = release_now_effect [OF assms]
  have "n \<le> ts_reads (release_now e run s)" using rel assms(4) by simp
  with requeue_now_effect [OF conjunct1 [OF rel] assms(2,3)] rel
  show ?thesis by (simp add: gives_up_def compensate_def run_rows_reserved)
qed

lemma reserve_effect:
  assumes "reserve run (Some i) route draws bucket ids now db = (res, db')" "ledger_inv db"
    "py_strip run = run" "run_rows run db = []"
  shows "(\<exists>rs. db' = db \<or> db' = (ensure_tables db)\<lparr>od_reservations := rs\<rparr> \<and> other_rows run (db\<lparr>od_reservations := rs\<rparr>) = other_rows run db) \<and>
    (\<forall>out. res = Inr out \<longrightarrow> (\<forall>x \<in> set draws. books_draw run i db' x))"
  using reserve_cases [OF assms(1,2)]
proof (elim disjE exE conjE)
  fix err assume "db' = ensure_tables db" "res = Inl err"
  then show ?thesis
    by (intro conjI exI [of _ "od_reservations (ensure_tables db)"]) (simp_all add: other_rows_def)
next
  fix out b r assume r: "res = Inr out" "py_strip run \<noteq> []"
    "reserve_draws (py_strip run) (Some i) r b (isoformat now) ids draws (ensure_tables db) = Inr (out, db')"
  have ok: "reservations_ok (od_reservations (ensure_tables db))" using assms(2) by (simp add: ledger_inv_def)
  obtain new where new: "db' = (ensure_tables db)\<lparr>od_reservations := od_reservations (ensure_tables db) @ new\<rparr>"
    "new_rows_ok run (Some i) new"
    "\<forall>d \<in> set draws. reservations_of run (py_strip (dr_pool_id d)) (norm_window (dr_window_id d)) db' \<noteq> []"
    using reserve_draws_appends [OF r(3) r(2) ok] assms(3) by auto
  have "books_draw run i db' x" if "x \<in> set draws" for x
  proof -
    obtain y where y: "y \<in> set (reservations_of run (py_strip (dr_pool_id x)) (norm_window (dr_window_id x)) db')"
      using new(3) \<open>x \<in> set draws\<close> by (meson last_in_set)
    then have "y \<in> set (od_reservations db')" "rr_run_id y = run" by (auto simp: reservations_of_def)
    moreover have "y \<notin> set (od_reservations db)" using \<open>rr_run_id y = run\<close> assms(4) by (auto simp: run_rows_def filter_empty_conv)
    ultimately have "y \<in> set new" using new(1) by simp
    then show ?thesis using y new(2) by (auto simp: books_draw_def new_rows_ok_def reservations_of_def run_rows_def)
  qed
  moreover have "other_rows run (db\<lparr>od_reservations := od_reservations (ensure_tables db) @ new\<rparr>) = other_rows run db"
    using new(2) by (auto simp: other_rows_def new_rows_ok_def filter_empty_conv)
  ultimately show ?thesis using new(1) r(1) by blast
qed auto

definition ready_to_launch ::
  "tick_env \<Rightarrow> scheduler_lease \<Rightarrow> nat \<Rightarrow> dispatch_decision \<Rightarrow> string \<Rightarrow> job_row \<Rightarrow> job \<Rightarrow> world \<Rightarrow> bool" where
  \<comment> \<open>the lease is valid at this reading, the job runs the run, every draw is reserved for it\<close>
  "ready_to_launch e l k d run r j w \<longleftrightarrow>
     lease_still_valid l (tk_clock e k) (w_owner w) \<and> runs_here (job_id (ds_job d)) run r j w \<and>
     (\<forall>x \<in> set (tick_draws e d). books_draw run (job_id (ds_job d)) (w_owner w) x)"

definition after_claim ::
  "tick_env \<Rightarrow> scheduler_lease \<Rightarrow> nat \<Rightarrow> dispatch_decision \<Rightarrow> string \<Rightarrow> job_row \<Rightarrow> world \<Rightarrow> dispatch_outcome \<Rightarrow> world \<Rightarrow> bool" where
  \<comment> \<open>what the outcomes after a claim promise; \<open>n\<close> is the number of the first reading\<close>
  "after_claim e l n d run r base out w' \<longleftrightarrow>
     (let i = job_id (ds_job d); reached = (\<lambda>w. attempt e i run base w);
          lost = (\<lambda>k. \<exists>w1. reached w1 \<and> \<not> lease_still_valid l (tk_clock e k) (w_owner w1) \<and> gives_up e i run r w1 w');
          launched = (\<lambda>fine w2. \<exists>j w1. reached w1 \<and> ready_to_launch e l (n + 2) d run r j w1 \<and> tk_launch e j d run w1 = (fine, w2))
      in case out of
        Lost_before_reserve \<Rightarrow> lost (n + 1)
      | Reserve_failed \<Rightarrow> gives_up e i run r base w'
      | Lost_before_launch \<Rightarrow> lost (n + 2)
      | Launched \<Rightarrow> launched True w'
      | Launch_kept \<Rightarrow> tk_run_exists e run \<and> launched False w'
      | Launch_undone \<Rightarrow> \<not> tk_run_exists e run \<and> (\<exists>w2. launched False w2 \<and> gives_up e i run r w2 w')
      | _ \<Rightarrow> False)"

lemma launch_step_effect:
  assumes "stage e i run r j base (ts_world s)" "i = job_id (ds_job d)" "env_ok e" "others_apart e (n + 1) i run" "launch_apart e i run"
    "ts_reads s = n + 2" "py_strip run = run" "run \<noteq> []" "\<forall>x \<in> set (tick_draws e d). books_draw run i (w_owner (ts_world s)) x"
    "launch_step e l d run j s = (out, s')"
  shows "after_claim e l n d run r base out (ts_world s')"
proof -
  obtain ok s1 where ok: "lease_ok e l s = (ok, s1)" by fastforce
  have reads: "n + 1 \<le> ts_reads s" using assms(6) by simp
  note le = stage_lease [OF assms(1,3,4) reads ok]
  let ?w1 = "ts_world s1"
  have reached: "attempt e i run base ?w1" using le(1) by (simp add: stage_def)
  have reads1: "n + 1 \<le> ts_reads s1" using le(4) reads by simp
  have own: "stage e i run r j ?w1 ?w1" using le(1) by (simp add: stage_def)
  show ?thesis
  proof (cases ok)
    case False
    then have o: "out = Lost_before_launch" "s' = compensate e run i s1" using assms(2,10) by (simp_all add: launch_step_def ok)
    have "gives_up e i run r ?w1 (ts_world (compensate e run i s1))"
      by (rule compensate_effect [OF own assms(3,4) reads1 assms(7,8)])
    then show ?thesis using o reached False le(3) assms(2,6) by (auto simp: after_claim_def Let_def)
  next
    case True
    obtain fine w where w: "tk_launch e j d run ?w1 = (fine, w)" by fastforce
    have ready: "ready_to_launch e l (n + 2) d run r j ?w1"
      using True le(1-3) assms(2,6,9) by (simp add: ready_to_launch_def stage_def books_draw_def)
    have launched: "\<exists>j w1. attempt e i run base w1 \<and> ready_to_launch e l (n + 2) d run r j w1 \<and> tk_launch e j d run w1 = (fine, w)"
      using reached ready w by blast
    have undone: "gives_up e i run r w (ts_world (compensate e run i (s1\<lparr>ts_world := w\<rparr>)))" if "\<not> fine" "\<not> tk_run_exists e run"
    proof -
      have a: "apart i run ?w1 w" using assms(5) that w unfolding launch_apart_def by (metis fst_conv snd_conv)
      have "world_step\<^sup>*\<^sup>* ?w1 w" using assms(3) w unfolding env_ok_def by (metis snd_conv)
      then have "world_inv w" using le(1) worlds.steps_inv by (auto simp: stage_def)
      then have "stage e i run r j w (ts_world (s1\<lparr>ts_world := w\<rparr>))" using le(1) runs_here_apart [OF _ a] by (simp add: stage_def)
      moreover have "n + 1 \<le> ts_reads (s1\<lparr>ts_world := w\<rparr>)" using reads1 by simp
      ultimately show ?thesis using compensate_effect [OF _ assms(3,4) _ assms(7,8)] by blast
    qed
    have shape: "(out, s') = (if fine then (Launched, s1\<lparr>ts_world := w, ts_dispatched := ts_dispatched s1 + 1\<rparr>)
        else if tk_run_exists e run then (Launch_kept, s1\<lparr>ts_world := w\<rparr>)
        else (Launch_undone, compensate e run i (s1\<lparr>ts_world := w\<rparr>)))"
      using assms(2,10) True by (auto simp: launch_step_def ok w split: bool.splits)
    consider "fine" | "\<not> fine" "tk_run_exists e run" | "\<not> fine" "\<not> tk_run_exists e run" by blast
    then show ?thesis
      by cases (use shape launched undone assms(2) in \<open>auto simp: after_claim_def Let_def\<close>)
  qed
qed

lemma reserve_step_effect:
  assumes "stage e i run r j base (ts_world s)" "i = job_id (ds_job d)" "env_ok e" "others_apart e (n + 1) i run" "launch_apart e i run"
    "ts_reads s = n + 1" "py_strip run = run" "run \<noteq> []" "run_rows run (w_owner (ts_world s)) = []"
    "reserve_step e l d run j s = (out, s')"
  shows "after_claim e l n d run r base out (ts_world s')"
proof -
  obtain ok s1 where ok: "lease_ok e l s = (ok, s1)" by fastforce
  have reads: "n + 1 \<le> ts_reads s" using assms(6) by simp
  note le = stage_lease [OF assms(1,3,4) reads ok]
  let ?w1 = "ts_world s1"
  have reached: "attempt e i run base ?w1" using le(1) by (simp add: stage_def)
  have reads1: "n + 1 \<le> ts_reads s1" using le(4) reads by simp
  have own: "stage e i run r j ?w1 ?w1" using le(1) by (simp add: stage_def)
  show ?thesis
  proof (cases ok)
    case False
    then have o: "out = Lost_before_reserve" "s' = requeue_now e i s1" using assms(2,10) by (simp_all add: reserve_step_def ok)
    have "gives_up e i run r ?w1 (ts_world s')"
      using requeue_now_effect [OF own assms(3,4) reads1] le(2) assms(9) o by (simp add: gives_up_def run_rows_reserved)
    then show ?thesis using o reached False le(3) assms(2,6) by (auto simp: after_claim_def Let_def)
  next
    case True
    let ?r = "reserve run (Some i) (route_text (ds_candidate d)) (tick_draws e d)
      (or_text (rq_size_hint (job_requirements (ds_job d))) ''M'') (tk_row_ids e run) (tk_now e) (w_owner ?w1)"
    obtain res db where res: "?r = (res, db)" by fastforce
    have inv: "ledger_inv (w_owner ?w1)" "run_rows run (w_owner ?w1) = []"
      using le(1,2) assms(9) by (simp_all add: stage_def world_inv_def)
    note eff = reserve_effect [OF res inv(1) assms(7) inv(2)]
    have "ledger_step (w_owner ?w1) (snd ?r)" by (rule ls_reserve)
    then have "world_step\<^sup>*\<^sup>* ?w1 (?w1\<lparr>w_owner := db\<rparr>)"
      using res reserve_leases [of run "Some i" "route_text (ds_candidate d)" "tick_draws e d"
        "or_text (rq_size_hint (job_requirements (ds_job d))) ''M''" "tk_row_ids e run" "tk_now e" "w_owner ?w1"]
      by (intro owner_steps) auto
    then have "world_inv (?w1\<lparr>w_owner := db\<rparr>)" using le(1) worlds.steps_inv by (auto simp: stage_def)
    then have st: "stage e i run r j base (?w1\<lparr>w_owner := db\<rparr>)"
      using eff stage_reservations [OF le(1)] le(1) by auto
    show ?thesis
    proof (cases res)
      case (Inl err)
      then have o: "out = Reserve_failed" "s' = compensate e run i (set_owner db s1)"
        using assms(2,10) True res by (simp_all add: reserve_step_def ok Let_def)
      have "stage e i run r j base (ts_world (set_owner db s1))" "n + 1 \<le> ts_reads (set_owner db s1)" using st reads1 by simp_all
      from compensate_effect [OF this(1) assms(3,4) this(2) assms(7,8)]
      show ?thesis using o assms(2) by (simp add: after_claim_def Let_def)
    next
      case (Inr v)
      have step: "launch_step e l d run j (set_owner db s1) = (out, s')"
        using assms(2,10) True Inr res by (simp add: reserve_step_def ok Let_def)
      have pre: "stage e i run r j base (ts_world (set_owner db s1))" "ts_reads (set_owner db s1) = n + 2"
        "\<forall>x \<in> set (tick_draws e d). books_draw run i (w_owner (ts_world (set_owner db s1))) x"
        using st eff Inr le(4) assms(6) by simp_all
      show ?thesis by (rule launch_step_effect [OF pre(1) assms(2-5) pre(2) assms(7,8) pre(3) step])
    qed
  qed
qed

definition dispatch_spec_ok ::
  "tick_env \<Rightarrow> scheduler_lease \<Rightarrow> dispatch_decision \<Rightarrow> tick_state \<Rightarrow> dispatch_outcome \<Rightarrow> tick_state \<Rightarrow> bool" where
  \<comment> \<open>what each outcome of a dispatch promises\<close>
  "dispatch_spec_ok e l d s out s' \<longleftrightarrow>
     (let n = ts_reads s; run = tk_run_id e (ts_runs s); i = job_id (ds_job d); found = tk_others e n (ts_world s);
          base = found\<lparr>w_owner := ensure_tables (w_owner found)\<rparr>; w' = ts_world s';
          valid = lease_still_valid l (tk_clock e n) (w_owner found);
          refused = (\<lambda>err. fst (mark_dispatched i run (tk_now e) (w_jobs found)) = Inl err)
      in case out of
        No_lease \<Rightarrow> \<not> valid \<and> w' = base
      | Claim_refused \<Rightarrow> valid \<and> (refused JobConflict \<or> refused JobTransition \<or> refused JobNotFound) \<and> w' = base
      | Claim_raised err \<Rightarrow> valid \<and> refused err \<and> w' = base
      | _ \<Rightarrow> valid \<and> (\<exists>r. find_row i (w_jobs found) = Some r \<and> jr_state r = state_value QUEUED \<and>
                after_claim e l n d run r base out w'))"

text \<open>C1: A dispatch is carried out as a whole or given up as a whole.  The run id is fresh, and from the claim
  on other processes leave this job's row and this run's reservations alone, as does a launch
  that raises and leaves no run; everything else, the lease included, other processes may write
  at every reading of the clock.  Then an attempt without a valid
  lease, or whose claim is refused, writes nothing but missing tables.  A claimed attempt writes
  only this job's row and this run's reservations.  It reaches the launcher only in a state
  where the lease is valid at that reading, the job's row runs exactly this run, every pool
  window of the decision is reserved for it, and the job handed over is the one that row loads as.
  An attempt that finds the lease lost before the reservation or before the launch, whose
  reservation fails, or whose launch raises and leaves no run, ends with the job queued for
  capacity, the run kept in its history, and no capacity reserved for the run.\<close>
theorem dispatch_whole_or_undone:
  assumes "world_inv (ts_world s)" "env_ok e" "run = tk_run_id e (ts_runs s)" "i = job_id (ds_job d)"
    "others_apart e (ts_reads s + 1) i run" "launch_apart e i run" "py_strip run = run" "run \<noteq> []"
    "run_rows run (w_owner (tk_others e (ts_reads s) (ts_world s))) = []" "exec_dispatch e l d s = (out, s')"
  shows "dispatch_spec_ok e l d s out s'"
proof -
  let ?found = "tk_others e (ts_reads s) (ts_world s)"
  let ?base = "?found\<lparr>w_owner := ensure_tables (w_owner ?found)\<rparr>"
  obtain ok s1 where ok: "lease_ok e l s = (ok, s1)" by fastforce
  have s1: "ok = lease_still_valid l (tk_clock e (ts_reads s)) (w_owner ?found)" "ts_world s1 = ?base"
    "ts_reads s1 = ts_reads s + 1" "ts_runs s1 = ts_runs s"
    using lease_ok_world [OF ok] by simp_all
  let ?s2 = "s1\<lparr>ts_runs := ts_runs s1 + 1\<rparr>"
  obtain x db where x: "mark_dispatched i run (tk_now e) (w_jobs ?found) = (x, db)" by fastforce
  have "world_step\<^sup>*\<^sup>* (ts_world s) ?found" using assms(2) by (simp add: env_ok_def)
  then have inv: "world_inv ?found" by (rule worlds.steps_inv [OF _ assms(1)])
  then have jobs: "job_db_inv (w_jobs ?found)" by (simp add: world_inv_def service_inv_def)
  show ?thesis
  proof (cases ok)
    case False
    then have "out = No_lease" "s' = s1" using assms(10) by (simp_all add: exec_dispatch_def ok)
    then show ?thesis using False s1 by (simp add: dispatch_spec_ok_def Let_def)
  next
    case True
    show ?thesis
    proof (cases x)
      case (Inl err)
      then have "db = w_jobs ?found" using mark_dispatched_result [OF jobs, of i run "tk_now e"] x by (auto simp: machine_result_def)
      then have "out = (if err = JobConflict \<or> err = JobTransition \<or> err = JobNotFound then Claim_refused else Claim_raised err)"
        "ts_world s' = ?base"
        using assms(3,4,10) x Inl True s1 by (auto simp: exec_dispatch_def ok Let_def split: if_splits)
      then show ?thesis using x Inl True s1(1) assms(3,4) by (auto simp: dispatch_spec_ok_def Let_def)
    next
      case (Inr j)
      have step: "reserve_step e l d run j (set_jobs db ?s2) = (out, s')"
        using assms(3,4,10) x Inr True s1 by (simp add: exec_dispatch_def ok Let_def)
      obtain r where r: "find_row i (w_jobs ?found) = Some r" "jr_state r = state_value QUEUED" "runs_here i run r j (?base\<lparr>w_jobs := db\<rparr>)"
        using mark_dispatched_success [OF jobs x [unfolded Inr]] assms(7) by (auto simp: runs_here_def)
      have w2: "ts_world (set_jobs db ?s2) = ?base\<lparr>w_jobs := db\<rparr>" using s1(2) by simp
      have js: "job_step (w_jobs ?base) db" using step_dispatch [of "w_jobs ?found" i run "tk_now e"] x by simp
      have "attempt_step e i run ?base (?base\<lparr>w_jobs := db\<rparr>)"
        by (rule at_job [OF js]) (use only_row_mark_dispatched [of i "w_jobs ?found" run "tk_now e"] x in simp)
      moreover have "world_inv (?base\<lparr>w_jobs := db\<rparr>)"
        using world_step_inv [OF _ ws_jobs [OF js]] inv by (simp add: world_inv_def)
      ultimately have "stage e i run r j ?base (ts_world (set_jobs db ?s2))" using r(3) w2 by (simp add: stage_def r_into_rtranclp)
      moreover have "ts_reads (set_jobs db ?s2) = ts_reads s + 1" "run_rows run (w_owner (ts_world (set_jobs db ?s2))) = []"
        using s1(3) w2 assms(9) by simp_all
      ultimately have "after_claim e l (ts_reads s) d run r ?base out (ts_world s')"
        using reserve_step_effect [OF _ assms(4,2,5,6) _ assms(7,8) _ step] by blast
      then show ?thesis
        using r(1,2) True s1(1) assms(3,4)
        by (cases out) (auto simp: dispatch_spec_ok_def Let_def after_claim_def)
    qed
  qed
qed

section \<open>The loop\<close>

definition loop_ok :: "loop_env \<Rightarrow> bool" where
  "loop_ok env \<longleftrightarrow> (\<forall>k. env_ok (lo_tick env k)) \<and> (\<forall>k w. world_step\<^sup>*\<^sup>* w (lo_others env k w))"

lemma env_ok_now [simp]: "env_ok (e\<lparr>tk_now := t\<rparr>) = env_ok e"
  by (simp add: env_ok_def)

lemma tables_step: "world_step\<^sup>*\<^sup>* w (w\<lparr>w_owner := ensure_tables (w_owner w)\<rparr>)"
  by (rule owner_steps) (use ls_tables in \<open>blast, simp\<close>)

lemma lease_op_step: "lease_op (w_owner w) db \<Longrightarrow> world_step\<^sup>*\<^sup>* w (w\<lparr>w_owner := db\<rparr>)"
  by (rule r_into_rtranclp) (rule ws_lease)

lemma claim_lease_moves: "claim_lease env w = (a, db) \<Longrightarrow> world_step\<^sup>*\<^sup>* w (w\<lparr>w_owner := db\<rparr>)"
  using lease_op_step [OF lo_acquire, of w "lo_holder env" "lo_ttl env" DEFAULT_LEASE_NAME "lo_start env"] tables_step
  by (auto simp: claim_lease_def split: if_splits)

lemma heartbeat_moves: "heartbeat env k l w = (x, db) \<Longrightarrow> world_step\<^sup>*\<^sup>* w (w\<lparr>w_owner := db\<rparr>)"
  using lease_op_step [OF lo_renew, of w l "lo_ttl env" "lo_now env k"] tables_step
  by (auto simp: heartbeat_def split: if_splits)

lemma release_world_steps: "world_step\<^sup>*\<^sup>* w (release_world env l w)"
  using lease_op_step [OF lo_release, of w l] tables_step by (simp add: release_world_def)

lemma renewed_owns: "heartbeat env k l w = (Some l', db') \<Longrightarrow> lease_owns l' = lease_owns l"
  by (auto simp: heartbeat_def renew_lease_def lease_owns_def fun_eq_iff Let_def split: if_splits)

lemma loop_rounds_effect:
  assumes "loop_rounds fuel env k l due t w = Some (r, l', w')"
  shows "lease_owns l' = lease_owns l \<and> (loop_ok env \<longrightarrow> world_step\<^sup>*\<^sup>* w w')"
  using assms
proof (induction fuel arbitrary: k l due t w)
  case (Suc fuel)
  let ?w = "lo_others env k w"
  have 0: "world_step\<^sup>*\<^sup>* w ?w" if "loop_ok env" using that by (simp add: loop_ok_def)
  show ?case
  proof (cases "lo_stop env k")
    case True
    then show ?thesis using Suc.prems 0 by simp
  next
    case run: False
    obtain x db where x: "heartbeat env k l ?w = (x, db)" by fastforce
    have 1: "world_step\<^sup>*\<^sup>* ?w (?w\<lparr>w_owner := db\<rparr>)" by (rule heartbeat_moves [OF x])
    show ?thesis
    proof (cases x)
      case None
      then show ?thesis using Suc.prems run x 0 1 by (auto intro: rtranclp_trans)
    next
      case (Some l1)
      have own: "lease_owns l1 = lease_owns l" using renewed_owns x Some by blast
      obtain m due' where m: "periodic_maintenance env k due = (m, due')" by fastforce
      obtain y w1 where y: "scheduler_tick ((lo_tick env k)\<lparr>tk_now := lo_now env k\<rparr>) l1 (?w\<lparr>w_owner := db\<rparr>) = (y, w1)" by fastforce
      have 2: "world_step\<^sup>*\<^sup>* (?w\<lparr>w_owner := db\<rparr>) w1" if "loop_ok env"
        using tick_steps [of "(lo_tick env k)\<lparr>tk_now := lo_now env k\<rparr>" "?w\<lparr>w_owner := db\<rparr>" l1] that y by (simp add: loop_ok_def)
      have 3: "world_step\<^sup>*\<^sup>* w (?w\<lparr>w_owner := db\<rparr>)" "world_step\<^sup>*\<^sup>* w w1" if "loop_ok env"
        using rtranclp_trans [OF 0 1] rtranclp_trans [OF rtranclp_trans [OF 0 1] 2] that by blast+
      consider (raised) err where "m = Inl err" | (reason) reason where "m = Inr (Some reason)" | (none) "m = Inr None"
        by (metis sum.exhaust option.exhaust)
      then show ?thesis
      proof cases
        case (raised err)
        then show ?thesis using Suc.prems run x Some own m 3(1) by auto
      next
        case (reason why)
        then show ?thesis using Suc.prems run x Some own m 3(1) by auto
      next
        case none
        show ?thesis
        proof (cases y)
          case (Inl err)
          then show ?thesis using Suc.prems run x Some own m none y 3(2) by auto
        next
          case (Inr res)
          show ?thesis
          proof (cases "tr_ran res")
            case True
            then have "loop_rounds fuel env (Suc k) l1 due' (Some res) w1 = Some (r, l', w')"
              using Suc.prems run x Some m none y Inr by simp
            from Suc.IH [OF this] show ?thesis using own 3(2) by (auto intro: rtranclp_trans)
          next
            case False
            then show ?thesis using Suc.prems run x Some own m none y Inr 3(2) by auto
          qed
        qed
      qed
    qed
  qed
qed simp

lemma released: "lo_locked env Release_call \<or> \<not> list_ex (lease_owns l) (od_leases (w_owner (release_world env l w)))"
  by (auto simp: release_world_def release_lease_def Let_def list_ex_iff)

lemma loop_cases:
  assumes "run_scheduler_loop fuel env w = Some (r, w')" "claim_lease env w = (a, db)"
  shows "(\<forall>l. a \<noteq> Inr (Some l)) \<and> w' = w\<lparr>w_owner := db\<rparr> \<or>
    (\<exists>l err. a = Inr (Some l) \<and> startup_maintenance env = Inl err \<and> r = Inl (JobValue err) \<and> w' = w\<lparr>w_owner := db\<rparr>) \<or>
    (\<exists>l l' w1 m. a = Inr (Some l) \<and> startup_maintenance env = Inr m \<and> lease_owns l' = lease_owns l \<and> w' = release_world env l' w1 \<and>
       (loop_ok env \<longrightarrow> world_step\<^sup>*\<^sup>* (w\<lparr>w_owner := db\<rparr>) w1))"
proof (cases "\<exists>l. a = Inr (Some l)")
  case False
  then show ?thesis using assms by (auto simp: run_scheduler_loop_def split: sum.splits option.splits)
next
  case True
  then obtain l where l: "a = Inr (Some l)" by blast
  let ?w = "w\<lparr>w_owner := db\<rparr>"
  show ?thesis
  proof (cases "startup_maintenance env")
    case (Inl err)
    then show ?thesis using assms l by (simp add: run_scheduler_loop_def)
  next
    case m: (Inr m)
    let ?due = "map_option (\<lambda>_. lo_start env + lo_interval env) (lo_maintenance env)"
    obtain x w2 where x: "scheduler_tick ((lo_tick env 0)\<lparr>tk_now := lo_start env\<rparr>) l ?w = (x, w2)" by fastforce
    have tick: "world_step\<^sup>*\<^sup>* ?w w2" if "loop_ok env"
      using tick_steps [of "(lo_tick env 0)\<lparr>tk_now := lo_start env\<rparr>" ?w l] that x by (simp add: loop_ok_def)
    have "w' = release_world env l ?w \<or> w' = release_world env l w2 \<or>
       (\<exists>r l' w1. loop_rounds fuel env 0 l ?due None ?w = Some (r, l', w1) \<and> w' = release_world env l' w1)"
      using assms l x m by (auto simp: run_scheduler_loop_def Let_def split: option.splits if_splits)
    then show ?thesis using l m tick loop_rounds_effect by blast
  qed
qed

text \<open>C19: The scheduler process keeps the world.  From databases that satisfy the invariants, and with
  other processes, launcher and coordinator that write through the same operations, whatever a
  process of the loop does, in one tick or in many, ends in databases that satisfy them again: every job
  loads and its log is a run of its state machine, keys stay unique, terminal rows and the
  identity of every job stay, no reservation is lost or leaves an end state, and there is at most
  one lease row per name, with a positive fencing token.\<close>
theorem scheduler_keeps_the_world:
  assumes "loop_ok env" "world_inv w" "run_scheduler_loop fuel env w = Some (r, w')"
  shows "world_inv w' \<and> keeps_rows (w_jobs w) (w_jobs w') \<and> keeps_reservations (w_owner w) (w_owner w')"
proof -
  obtain a db where a: "claim_lease env w = (a, db)" by fastforce
  have claimed: "world_step\<^sup>*\<^sup>* w (w\<lparr>w_owner := db\<rparr>)" by (rule claim_lease_moves [OF a])
  have "world_step\<^sup>*\<^sup>* (w\<lparr>w_owner := db\<rparr>) w'"
    using loop_cases [OF assms(3) a] assms(1) release_world_steps rtranclp_trans by fastforce
  with claimed have steps: "world_step\<^sup>*\<^sup>* w w'" by (rule rtranclp_trans)
  have inv: "job_db_inv (w_jobs w)" "ledger_inv (w_owner w)" using assms(2) by (simp_all add: world_inv_def service_inv_def)
  show ?thesis
    using worlds.steps_inv [OF steps assms(2)] world_steps_parts [OF steps] rows_persist inv ledger_steps_keep by blast
qed

text \<open>C21: The loop gives its lease back.  A process that could not claim the lease ends with the jobs,
  the reservations and the leases it found.  One that claimed it leaves no lease row with its
  name, holder and token, whether it was stopped, held, found the storage unfit, lost the lease or
  ended with an exception of the tick or of a periodic maintenance pass, with two exceptions:
  when the maintenance pass at the start raises anything but a storage failure, that exception
  ends the process before any round and the claimed row stays; and a release whose transaction
  the database refuses to begin changes nothing but creating missing tables.\<close>
theorem loop_gives_its_lease_back:
  assumes "run_scheduler_loop fuel env w = Some (r, w')"
  shows "case claim_lease env w of
      (Inr (Some l), db) \<Rightarrow>
        (case startup_maintenance env of
           Inl err \<Rightarrow> r = Inl (JobValue err) \<and> w' = w\<lparr>w_owner := db\<rparr> \<and> list_ex (lease_owns l) (od_leases (w_owner w'))
         | Inr _ \<Rightarrow>
             (\<exists>l' w1. lease_owns l' = lease_owns l \<and>
                w' = (if lo_locked env Release_call then w1\<lparr>w_owner := ensure_tables (w_owner w1)\<rparr>
                      else w1\<lparr>w_owner := snd (release_lease l' (w_owner w1))\<rparr>)) \<and>
             (\<not> lo_locked env Release_call \<longrightarrow> \<not> list_ex (lease_owns l) (od_leases (w_owner w'))))
    | (_, db) \<Rightarrow> w' = w\<lparr>w_owner := ensure_tables (w_owner w)\<rparr>"
proof -
  obtain a db where a: "claim_lease env w = (a, db)" by fastforce
  have unclaimed: "db = ensure_tables (w_owner w)" if "\<forall>l. a \<noteq> Inr (Some l)"
    using a that by (auto simp: claim_lease_def acquire_lease_def Let_def split: if_splits option.splits)
  from loop_cases [OF assms a] show ?thesis
  proof (elim disjE exE conjE)
    assume "\<forall>l. a \<noteq> Inr (Some l)" "w' = w\<lparr>w_owner := db\<rparr>"
    then show ?thesis using a unclaimed by (auto split: sum.splits option.splits)
  next
    fix l err assume l: "a = Inr (Some l)" "startup_maintenance env = Inl err" "r = Inl (JobValue err)" "w' = w\<lparr>w_owner := db\<rparr>"
    then have "list_ex (lease_owns l) (od_leases db)"
      using a acquired_in_table by (auto simp: claim_lease_def split: if_splits)
    then show ?thesis using a l by simp
  next
    fix l l' w1 m assume l: "a = Inr (Some l)" "startup_maintenance env = Inr m" "lease_owns l' = lease_owns l" "w' = release_world env l' w1"
    have "\<not> lo_locked env Release_call \<longrightarrow> \<not> list_ex (lease_owns l) (od_leases (w_owner w'))"
      using released [of env l' w1] l(3,4) by auto
    moreover have "w' = (if lo_locked env Release_call then w1\<lparr>w_owner := ensure_tables (w_owner w1)\<rparr>
        else w1\<lparr>w_owner := snd (release_lease l' (w_owner w1))\<rparr>)" using l(4) by (simp add: release_world_def)
    ultimately show ?thesis using a l(1-3) by auto
  qed
qed

lemma loop_rounds_stop: "k \<le> n \<Longrightarrow> n < k + fuel \<Longrightarrow> lo_stop env n \<Longrightarrow> \<exists>x. loop_rounds fuel env k l due t w = Some x"
proof (induction fuel arbitrary: k l due t w)
  case (Suc fuel)
  show ?case
  proof (cases "lo_stop env k")
    case True
    then show ?thesis by simp
  next
    case False
    then have "Suc k \<le> n" using Suc.prems by (metis le_neq_implies_less less_eq_Suc_le)
    then have "\<exists>x. loop_rounds fuel env (Suc k) l1 d1 t1 w1 = Some x" for l1 d1 t1 w1
      using Suc.IH [of "Suc k"] Suc.prems by simp
    then show ?thesis using False by (auto simp: Let_def split: prod.splits option.splits sum.splits)
  qed
qed simp

lemma loop_returns:
  assumes "lo_once env \<or> lo_stop env n"
  shows "\<exists>r w'. run_scheduler_loop (Suc n) env w = Some (r, w')"
proof -
  have never: "(loop_rounds (Suc n) env 0 l due t w1 = None) = False" if "lo_stop env n" for l due t w1
    using loop_rounds_stop [of 0 n "Suc n" env] that by (metis add_0 lessI option.distinct(1) zero_le)
  have "run_scheduler_loop (Suc n) env w \<noteq> None"
    using assms by (auto simp: run_scheduler_loop_def Let_def never simp del: loop_rounds.simps not_None_eq split: prod.splits sum.splits option.splits)
  then show ?thesis by auto
qed

text \<open>The loop ends when it is told to.  If the stop event is set before some round, the loop
  returns after at most that many rounds, and a single-shot run returns without any.\<close>
theorem loop_returns_when_stopped:
  assumes "lo_once env \<or> lo_stop env n"
  shows "\<exists>r w'. run_scheduler_loop (Suc n) env w = Some (r, w')"
  by (rule loop_returns [OF assms])

section \<open>Examples\<close>

definition sample_tick_env :: tick_env where
  "sample_tick_env = \<lparr>tk_now = lease_time, tk_clock = (\<lambda>k. lease_time + int k), tk_others = (\<lambda>_ w. w), tk_launch_guard = None,
     tk_status = (\<lambda>_. Some Run_running), tk_readable = (\<lambda>_. True), tk_tail = no_tail, tk_debts = sample_debt_env,
     tk_recovery = \<lparr>re_status = (\<lambda>_ _. None), re_classify = (\<lambda>_ _ _. None), re_recover = (\<lambda>_ w. w)\<rparr>,
     tk_seam_env = no_probe_env, tk_seam_policies = [], tk_probe_env = no_probe_env, tk_policy = open_policy, tk_routes = sample_routes,
     tk_override = None, tk_slot_limit = None, tk_min_pace = 4, tk_readiness = None, tk_run_id = (\<lambda>k. ''run-9''),
     tk_row_ids = (\<lambda>run k. run @ replicate (Suc k) CHR ''x''), tk_launch = (\<lambda>_ _ _ w. (False, w)), tk_run_exists = (\<lambda>_. False),
     tk_zones = no_zones, tk_packaged = plan_set_empty\<rparr>"

definition busy_leased :: world where
  \<comment> \<open>the lease is held, J1 runs run-1, and nothing is reserved for it\<close>
  "busy_leased = \<lparr>w_jobs = sample_db2, w_owner = leased_db\<rparr>"

definition queued_leased :: world where
  "queued_leased = \<lparr>w_jobs = sample_db1, w_owner = leased_db\<rparr>"

definition sample_dispatch :: dispatch_decision where
  "sample_dispatch = \<lparr>ds_job = sample_job, ds_candidate = codex_terra, ds_pool_id = Some ''codex'', ds_binding_window = Some ''5h'',
     ds_score = 10, ds_cost_estimate = 5, ds_multiplier = 1, ds_drawn_pools = [''codex''], ds_draws = sample_draws\<rparr>"

definition sample_loop :: loop_env where
  "sample_loop = \<lparr>lo_holder = ''a'', lo_ttl = DEFAULT_LEASE_TTL, lo_once = True, lo_start = lease_time, lo_now = (\<lambda>k. lease_time + int k),
     lo_stop = (\<lambda>k. k = 3), lo_maintenance = Some (\<lambda>_. Maintenance_reason None), lo_interval = 3600000000,
     lo_tick = (\<lambda>_. sample_tick_env), lo_locked = (\<lambda>_. False), lo_others = (\<lambda>_ w. w)\<rparr>"

lemma sample_env_ok: "env_ok sample_tick_env" "loop_ok sample_loop"
  by (auto simp: env_ok_def loop_ok_def sample_tick_env_def sample_loop_def tail_ok_def no_tail_def)

lemma leased_inv: "ledger_inv leased_db"
proof -
  have "ledger_step\<^sup>*\<^sup>* empty_owner_db leased_db" unfolding leased_db_def by (rule lease_op_ledger) (rule lo_acquire)
  then show ?thesis by (rule ledger.steps_inv) (rule empty_ledger_inv)
qed

lemma leased_leases: "leases_ok (od_leases leased_db)"
  by code_simp

lemma sample_worlds_inv: "world_inv busy_leased" "world_inv queued_leased"
  using service.steps_inv [OF sample_db2_reach empty_service_inv] service.steps_inv [OF sample_db1_reach empty_service_inv] leased_inv leased_leases
  by (simp_all add: world_inv_def busy_leased_def queued_leased_def)

theorem tick_fails_closed_witness:
  "\<exists>x. scheduler_tick sample_tick_env first_lease busy_leased = (x, busy_leased\<lparr>w_owner := ensure_tables leased_db\<rparr>) \<and> holds_back x"
proof -
  obtain r where r: "find_row ''J1'' sample_db2 = Some r" "jr_state r = ''RUNNING''"
    using sample_db2_row find_row_Some by fastforce
  have f: "busy_leased = tk_others sample_tick_env 0 busy_leased" by (simp add: sample_tick_env_def)
  have "length (db_jobs sample_db2) = 1" using sample_db2_row by (metis length_map length_Cons list.size(3) One_nat_def)
  then have l: "length (filter (\<lambda>r. jr_state r = state_value RUNNING) (db_jobs (w_jobs busy_leased))) \<le> job_scan_limit"
    using length_filter_le [of "\<lambda>r. jr_state r = state_value RUNNING" "db_jobs sample_db2"] by (simp add: busy_leased_def job_scan_limit_def)
  have "od_reservations leased_db = []" by code_simp
  then have "unaccounted sample_tick_env busy_leased r"
    using r(2) by (simp add: unaccounted_def busy_leased_def reserved_run_ids_def state_value_def)
  then have "\<exists>r \<in> set (db_jobs (w_jobs busy_leased)). unaccounted sample_tick_env busy_leased r"
    using find_row_Some [OF r(1)] by (auto simp: busy_leased_def)
  then show ?thesis using tick_fails_closed [OF f l, of first_lease] by (simp add: busy_leased_def)
qed

definition paused_env :: tick_env where
  \<comment> \<open>the process stalls for a minute before it would launch, and another scheduler takes the lease\<close>
  "paused_env = sample_tick_env\<lparr>tk_clock := (\<lambda>k. lease_time + (if k < 2 then int k else 60000000)),
     tk_others := (\<lambda>k w. if k = 2 then w\<lparr>w_owner := snd (acquire_lease ''b'' DEFAULT_LEASE_TTL DEFAULT_LEASE_NAME
       (lease_time + 50000000) (w_owner w))\<rparr> else w)\<rparr>"

lemma lease_op_apart: "lease_op (w_owner w) db \<Longrightarrow> apart i run w (w\<lparr>w_owner := db\<rparr>)"
  by (drule lease_op_frame) (auto simp: apart_def run_rows_def)

lemma paused_env_ok: "env_ok paused_env" "others_apart paused_env n i run" "launch_apart paused_env i run"
proof -
  have s: "world_step\<^sup>*\<^sup>* w (w\<lparr>w_owner := snd (acquire_lease h ttl nm t (w_owner w))\<rparr>)" for h ttl nm t and w :: world
    by (rule lease_op_step) (rule lo_acquire)
  have a: "apart i run w (w\<lparr>w_owner := snd (acquire_lease h ttl nm t (w_owner w))\<rparr>)" for h ttl nm t and w :: world
    by (rule lease_op_apart) (rule lo_acquire)
  show "env_ok paused_env" using sample_env_ok(1) s by (simp add: env_ok_def paused_env_def)
  show "others_apart paused_env n i run" using a by (simp add: others_apart_def paused_env_def) (simp add: apart_def)
  show "launch_apart paused_env i run" by (simp add: launch_apart_def paused_env_def sample_tick_env_def apart_def)
qed

lemma paused_outcome: "fst (exec_dispatch paused_env first_lease sample_dispatch (start_tick queued_leased)) = Lost_before_launch"
  by code_simp

theorem dispatch_whole_or_undone_witness:
  "\<exists>s' r w1. exec_dispatch paused_env first_lease sample_dispatch (start_tick queued_leased) = (Lost_before_launch, s')
     \<and> \<not> lease_still_valid first_lease (lease_time + 60000000) (w_owner w1)
     \<and> find_row ''J1'' sample_db1 = Some r \<and> gives_up paused_env ''J1'' ''run-9'' r w1 (ts_world s')"
proof -
  obtain s' where e: "exec_dispatch paused_env first_lease sample_dispatch (start_tick queued_leased) = (Lost_before_launch, s')"
    using paused_outcome by (metis prod.collapse)
  have run: "''run-9'' = tk_run_id paused_env (ts_runs (start_tick queued_leased))" by (simp add: paused_env_def sample_tick_env_def)
  have i: "''J1'' = job_id (ds_job sample_dispatch)" by code_simp
  have strip: "py_strip ''run-9'' = ''run-9''" "(''run-9'' :: string) \<noteq> []" by code_simp+
  have fresh: "run_rows ''run-9'' (w_owner (tk_others paused_env (ts_reads (start_tick queued_leased)) (ts_world (start_tick queued_leased)))) = []"
    by code_simp
  have inv: "world_inv (ts_world (start_tick queued_leased))" using sample_worlds_inv(2) by (simp add: start_tick_def)
  have at_start: "ts_reads (start_tick queued_leased) = 0" "ts_world (start_tick queued_leased) = queued_leased"
    "tk_others paused_env 0 queued_leased = queued_leased" "tk_clock paused_env (Suc (Suc 0)) = lease_time + 60000000" "w_jobs queued_leased = sample_db1"
    by (simp_all add: start_tick_def paused_env_def sample_tick_env_def queued_leased_def)
  from dispatch_whole_or_undone [OF inv paused_env_ok(1) run i paused_env_ok(2,3) strip fresh e]
  obtain r w1 where "\<not> lease_still_valid first_lease (lease_time + 60000000) (w_owner w1)" "find_row ''J1'' sample_db1 = Some r"
    "gives_up paused_env ''J1'' ''run-9'' r w1 (ts_world s')"
    unfolding dispatch_spec_ok_def after_claim_def Let_def run [symmetric] i [symmetric] at_start dispatch_outcome.case
    by (auto simp: at_start)
  with e show ?thesis by blast
qed

lemma sample_loop_returns:
  obtains r w' where "run_scheduler_loop (Suc 3) sample_loop queued_leased = Some (r, w')"
proof -
  have "lo_once sample_loop \<or> lo_stop sample_loop 3" by (simp add: sample_loop_def)
  from loop_returns [OF this] show ?thesis using that by blast
qed

theorem scheduler_keeps_the_world_witness:
  "\<exists>r w'. run_scheduler_loop (Suc 3) sample_loop queued_leased = Some (r, w') \<and> world_inv w' \<and> keeps_rows sample_db1 (w_jobs w')"
proof -
  obtain r w' where w: "run_scheduler_loop (Suc 3) sample_loop queued_leased = Some (r, w')" by (rule sample_loop_returns)
  from scheduler_keeps_the_world [OF sample_env_ok(2) sample_worlds_inv(2) w] w show ?thesis by (simp add: queued_leased_def)
qed

theorem loop_gives_its_lease_back_witness:
  "\<exists>r w' l. run_scheduler_loop (Suc 3) sample_loop queued_leased = Some (r, w') \<and> ls_holder_id l = ''a'' \<and>
     \<not> list_ex (lease_owns l) (od_leases (w_owner w'))"
proof -
  obtain r w' where w: "run_scheduler_loop (Suc 3) sample_loop queued_leased = Some (r, w')" by (rule sample_loop_returns)
  have "case fst (claim_lease sample_loop queued_leased) of Inr (Some l) \<Rightarrow> ls_holder_id l = ''a'' | _ \<Rightarrow> False"
    by code_simp
  moreover have "startup_maintenance sample_loop = Inr None" "\<not> lo_locked sample_loop Release_call"
    by (simp_all add: startup_maintenance_def sample_loop_def invoke_storage_maintenance_def)
  ultimately show ?thesis using loop_gives_its_lease_back [OF w] w by (auto split: sum.splits option.splits)
qed

theorem loop_returns_when_stopped_witness:
  "\<exists>r w'. run_scheduler_loop 4 (sample_loop\<lparr>lo_once := False\<rparr>) queued_leased = Some (r, w')"
proof -
  have "lo_once (sample_loop\<lparr>lo_once := False\<rparr>) \<or> lo_stop (sample_loop\<lparr>lo_once := False\<rparr>) 3" by (simp add: sample_loop_def)
  from loop_returns_when_stopped [OF this, of queued_leased] show ?thesis by (simp add: eval_nat_numeral)
qed

end
