(* ===== verification/Run_Store.thy ===== *)
theory Run_Store
  imports Job_Service
begin

text \<open>
  The tables of the run database of \<open>saberops/db.py\<close> that the preemption protocol works on (runs,
  attempts, worker checkpoints, events, handoffs, execution owners) and their operations, with
  the process identities of \<open>saberops/ownership.py\<close> an execution owner is fenced by.  Each operation
  is one transaction.  A foreign key or a primary key that refuses an insert is the result
  \<open>None\<close>.  What the operating system reports of a process is the record \<open>os_view\<close>.
\<close>

section \<open>Process identities and their liveness\<close>

record process_identity =
  pi_host :: string
  pi_boot_id :: "string option"
  pi_pid :: int
  pi_start_ticks :: "int option"
  pi_session_id :: "int option"
  pi_group_id :: "int option"

datatype liveness = Live | Dead | Unknown

datatype proc_stat =
    No_such_process
  | Stat_unreadable
  | Proc_stat string "int option"
    \<comment> \<open>the state letter and the start time; \<open>None\<close> when it is not a number\<close>

record os_view =
  ov_host :: string
  ov_boot_id :: "string option"
  ov_stat :: "int \<Rightarrow> proc_stat"

definition probe_liveness :: "os_view \<Rightarrow> process_identity option \<Rightarrow> liveness" where
  "probe_liveness os ident =
     (case ident of
        None \<Rightarrow> Unknown
      | Some p \<Rightarrow>
          if pi_pid p \<le> 0 then Unknown
          else if pi_host p \<noteq> [] \<and> pi_host p \<noteq> ov_host os then Unknown
          else if truthy (pi_boot_id p) \<and> truthy (ov_boot_id os) \<and> pi_boot_id p \<noteq> ov_boot_id os then Dead
          else (case ov_stat os (pi_pid p) of
              Stat_unreadable \<Rightarrow> Unknown
            | No_such_process \<Rightarrow> Dead
            | Proc_stat st start \<Rightarrow>
                if st = ''Z'' \<or> st = ''X'' \<or> st = ''x'' then Dead
                else if pi_start_ticks p = None then Unknown
                else if start = None then Unknown
                else if start \<noteq> pi_start_ticks p then Dead
                else Live))"

section \<open>Reservation tokens\<close>

definition OWNER_ENV_ID :: string where "OWNER_ENV_ID = ''ORCH_EXECUTION_OWNER_ID''"

definition OWNER_ENV_GENERATION :: string where "OWNER_ENV_GENERATION = ''ORCH_EXECUTION_OWNER_GENERATION''"

definition ascii_decimal :: "string \<Rightarrow> bool" where
  \<comment> \<open>\<open>s.isascii() and s.isdigit()\<close>\<close>
  "ascii_decimal s \<longleftrightarrow> s \<noteq> [] \<and> list_all (\<lambda>c. chr_code c < 128 \<and> py_isdigit c) s"

definition decimal_value :: "string \<Rightarrow> int" where
  \<comment> \<open>\<open>int(s)\<close> of ASCII digits\<close>
  "decimal_value s = fold (\<lambda>c acc. acc * 10 + (int (chr_code c) - 48)) s 0"

definition parse_owner_generation_env :: "(string \<Rightarrow> string option) \<Rightarrow> int option" where
  "parse_owner_generation_env source =
     (let raw = py_strip (or_text (source OWNER_ENV_GENERATION) []) in
      if \<not> ascii_decimal raw then None
      else let generation = decimal_value raw in if 0 < generation then Some generation else None)"

definition parse_owner_reservation :: "(string \<Rightarrow> string option) \<Rightarrow> (string \<times> int) option" where
  "parse_owner_reservation source =
     (let owner = py_strip (or_text (source OWNER_ENV_ID) []) in
      if owner = [] then None
      else let raw = py_strip (or_text (source OWNER_ENV_GENERATION) []) in
        if \<not> ascii_decimal raw then None
        else let generation = decimal_value raw in
          if generation \<le> 0 then None else Some (owner, generation))"

section \<open>The tables\<close>

definition terminal_run :: "run_status \<Rightarrow> bool" where
  "terminal_run st \<longleftrightarrow> st = Run_completed \<or> st = Run_failed \<or> st = Run_orphaned \<or> st = Run_preempted"

datatype owner_state = Claimed | Cancelling | Released

datatype attempt_status = At_pending | At_running | At_success | At_failed | At_timeout

record run_row =
  rn_id :: string
  rn_status :: run_status
  rn_project_id :: "string option"
  rn_team_parent :: "string option"
    \<comment> \<open>\<open>parallel_parent_run_id\<close> of the stored configuration, when it is a text\<close>
  rn_completed_at :: "string option"
  rn_final_attempt_id :: "string option"
  rn_result_summary :: "string option"

record attempt_row =
  at_id :: string
  at_run_id :: string
  at_number :: int
  at_worktree_path :: string
  at_status :: attempt_status
  at_worker_error :: "string option"
  at_completed_at :: "string option"
  at_interruption :: "string option"

record checkpoint_row =
  ck_id :: string
  ck_run_id :: string
  ck_source_attempt_id :: string
  ck_source_base_sha :: string
  ck_checkpoint_sha :: string
  ck_reason :: string
  ck_changed_paths :: "string list"
  ck_created_at :: string
  ck_handoff_id :: "string option"

record run_event =
  rv_run_id :: string
  rv_attempt_id :: "string option"
  rv_type :: string
  rv_payload :: "(string \<times> json) list option"
  rv_created_at :: string

record handoff_row =
  ho_id :: string
  ho_run_id :: string
  ho_kind :: string
  ho_version :: int
  ho_content :: string
  ho_created_at :: string

record owner_row =
  eo_run_id :: string
  eo_project_id :: "string option"
  eo_owner_id :: string
  eo_generation :: int
  eo_state :: owner_state
  eo_identity :: process_identity
  eo_claimed_at :: string
  eo_heartbeat_at :: "string option"
  eo_released_at :: "string option"
  eo_release_reason :: "string option"
  eo_cancel_agent :: "process_identity option"

record run_db =
  rb_runs :: "run_row list"
  rb_attempts :: "attempt_row list"
  rb_checkpoints :: "checkpoint_row list"
  rb_events :: "run_event list"
  rb_handoffs :: "handoff_row list"
  rb_owners :: "owner_row list"

definition empty_run_db :: run_db where
  "empty_run_db = \<lparr>rb_runs = [], rb_attempts = [], rb_checkpoints = [], rb_events = [], rb_handoffs = [], rb_owners = []\<rparr>"

section \<open>Runs, attempts and events\<close>

definition get_run :: "string \<Rightarrow> run_db \<Rightarrow> run_row option" where
  "get_run run db = find (\<lambda>r. rn_id r = run) (rb_runs db)"

definition update_run_row :: "string \<Rightarrow> (run_row \<Rightarrow> run_row) \<Rightarrow> run_db \<Rightarrow> run_db" where
  "update_run_row run f db = db\<lparr>rb_runs := map (\<lambda>r. if rn_id r = run then f r else r) (rb_runs db)\<rparr>"

definition update_run ::
  "string \<Rightarrow> run_status \<Rightarrow> string option \<Rightarrow> string option \<Rightarrow> string option \<Rightarrow> run_db \<Rightarrow> run_db" where
  "update_run run status completed final summary =
     update_run_row run (\<lambda>r. r\<lparr>rn_status := status, rn_completed_at := completed, rn_final_attempt_id := final,
                              rn_result_summary := summary\<rparr>)"

definition get_attempt :: "string \<Rightarrow> run_db \<Rightarrow> attempt_row option" where
  "get_attempt i db = find (\<lambda>a. at_id a = i) (rb_attempts db)"

definition get_attempts_for_run :: "string \<Rightarrow> run_db \<Rightarrow> attempt_row list" where
  "get_attempts_for_run run db = sort_key at_number (filter (\<lambda>a. at_run_id a = run) (rb_attempts db))"

definition live_attempt :: "string \<Rightarrow> attempt_row \<Rightarrow> bool" where
  "live_attempt run a \<longleftrightarrow> at_run_id a = run \<and> (at_status a = At_running \<or> at_status a = At_pending)"

definition record_event ::
  "string \<Rightarrow> string \<Rightarrow> (string \<times> json) list option \<Rightarrow> string \<Rightarrow> run_db \<Rightarrow> run_db option" where
  \<comment> \<open>without an attempt, as the callers here have it\<close>
  "record_event run ev payload now db =
     (if get_run run db = None then None
      else Some (db\<lparr>rb_events := rb_events db @ [\<lparr>rv_run_id = run, rv_attempt_id = None, rv_type = ev,
                                                 rv_payload = payload, rv_created_at = now\<rparr>]\<rparr>))"

definition get_events_by_type :: "string \<Rightarrow> string \<Rightarrow> run_db \<Rightarrow> run_event list" where
  "get_events_by_type run ev db = filter (\<lambda>e. rv_run_id e = run \<and> rv_type e = ev) (rb_events db)"

section \<open>Handoffs and worker checkpoints\<close>

definition get_handoff :: "string \<Rightarrow> run_db \<Rightarrow> handoff_row option" where
  "get_handoff i db = find (\<lambda>h. ho_id h = i) (rb_handoffs db)"

definition next_handoff_version :: "string \<Rightarrow> string \<Rightarrow> run_db \<Rightarrow> int" where
  "next_handoff_version run kind db =
     fold max (map ho_version (filter (\<lambda>h. ho_run_id h = run \<and> ho_kind h = kind) (rb_handoffs db))) 0 + 1"

definition create_handoff :: "handoff_row \<Rightarrow> run_db \<Rightarrow> run_db option" where
  "create_handoff h db =
     (if get_run (ho_run_id h) db = None \<or>
         list_ex (\<lambda>k. ho_id k = ho_id h \<or>
                      (ho_run_id k = ho_run_id h \<and> ho_kind k = ho_kind h \<and> ho_version k = ho_version h)) (rb_handoffs db)
      then None else Some (db\<lparr>rb_handoffs := rb_handoffs db @ [h]\<rparr>))"

definition create_worker_checkpoint :: "checkpoint_row \<Rightarrow> run_db \<Rightarrow> run_db option" where
  "create_worker_checkpoint c db =
     (if get_run (ck_run_id c) db = None \<or> get_attempt (ck_source_attempt_id c) db = None \<or>
         list_ex (\<lambda>k. ck_id k = ck_id c) (rb_checkpoints db)
      then None else Some (db\<lparr>rb_checkpoints := rb_checkpoints db @ [c]\<rparr>))"

definition get_worker_checkpoints_for_run :: "string \<Rightarrow> run_db \<Rightarrow> checkpoint_row list" where
  "get_worker_checkpoints_for_run run db = sort_key ck_created_at (filter (\<lambda>c. ck_run_id c = run) (rb_checkpoints db))"

definition get_latest_worker_checkpoint :: "string \<Rightarrow> run_db \<Rightarrow> checkpoint_row option" where
  \<comment> \<open>among rows of one time SQLite may return any; the first is taken\<close>
  "get_latest_worker_checkpoint run db = max_by ck_created_at (filter (\<lambda>c. ck_run_id c = run) (rb_checkpoints db))"

definition get_worker_checkpoint_by_sha :: "string \<Rightarrow> string \<Rightarrow> run_db \<Rightarrow> checkpoint_row option" where
  "get_worker_checkpoint_by_sha run sha db =
     find (\<lambda>c. ck_run_id c = run \<and> ck_checkpoint_sha c = sha) (rb_checkpoints db)"

section \<open>Execution owners\<close>

definition is_active :: "owner_row \<Rightarrow> bool" where
  "is_active ow = (eo_state ow = Claimed \<or> eo_state ow = Cancelling)"

definition owner_liveness :: "os_view \<Rightarrow> owner_row \<Rightarrow> liveness" where
  "owner_liveness os ow = (if \<not> is_active ow then Dead else probe_liveness os (Some (eo_identity ow)))"

definition get_execution_owner :: "string \<Rightarrow> run_db \<Rightarrow> owner_row option" where
  "get_execution_owner run db = find (\<lambda>ow. eo_run_id ow = run) (rb_owners db)"

definition put_owner :: "owner_row \<Rightarrow> run_db \<Rightarrow> run_db" where
  \<comment> \<open>\<open>INSERT ... ON CONFLICT(run_id) DO UPDATE\<close>\<close>
  "put_owner ow db =
     db\<lparr>rb_owners := (if get_execution_owner (eo_run_id ow) db = None then rb_owners db @ [ow]
                     else map (\<lambda>k. if eo_run_id k = eo_run_id ow then ow else k) (rb_owners db))\<rparr>"

datatype owner_error = Owner_unknown_run | Owner_run_terminal | Owner_conflict string | Owner_invalid

record claim_args =
  cl_identity :: process_identity
  cl_owner_id :: "string option"
  cl_expect_owner_id :: "string option"
  cl_expect_generation :: "int option"
  cl_project_id :: "string option"
  cl_fresh :: string
    \<comment> \<open>the random id drawn when no owner id is given\<close>

definition team_stopping :: "run_row \<Rightarrow> run_db \<Rightarrow> bool" where
  "team_stopping r db =
     (truthy (rn_team_parent r) \<and>
      (case get_run (the (rn_team_parent r)) db of
         None \<Rightarrow> True
       | Some p \<Rightarrow> rn_status p \<noteq> Run_running \<or>
           (case get_execution_owner (the (rn_team_parent r)) db of None \<Rightarrow> False | Some ow \<Rightarrow> eo_state ow = Cancelling)))"

definition same_process :: "process_identity \<Rightarrow> process_identity \<Rightarrow> bool" where
  "same_process p q \<longleftrightarrow> pi_host p = pi_host q \<and> pi_pid p = pi_pid q \<and> pi_start_ticks p = pi_start_ticks q \<and> pi_start_ticks q \<noteq> None"

definition reserved_for_us :: "claim_args \<Rightarrow> owner_row \<Rightarrow> bool" where
  "reserved_for_us a ow \<longleftrightarrow> cl_expect_owner_id a = Some (eo_owner_id ow) \<and> cl_expect_generation a = Some (eo_generation ow)"

definition claim_token :: "os_view \<Rightarrow> claim_args \<Rightarrow> string \<Rightarrow> owner_row option \<Rightarrow> owner_error + string \<times> int \<times> string" where
  \<comment> \<open>the owner id, the generation and the claim time the row gets\<close>
  "claim_token os a now existing =
     (let drawn = or_text (cl_owner_id a) (cl_fresh a) in
      case existing of
        None \<Rightarrow> Inr (drawn, 1, now)
      | Some inc \<Rightarrow>
          if eo_state inc = Cancelling \<and> probe_liveness os (eo_cancel_agent inc) \<noteq> Dead
          then Inl (Owner_conflict ''being cancelled'')
          else if (cl_expect_owner_id a \<noteq> None \<or> cl_expect_generation a \<noteq> None) \<and> \<not> reserved_for_us a inc
          then Inl (Owner_conflict ''reservation does not match'')
          else if same_process (eo_identity inc) (cl_identity a) \<or> reserved_for_us a inc
          then Inr (eo_owner_id inc, eo_generation inc, eo_claimed_at inc)
          else if is_active inc \<and> probe_liveness os (Some (eo_identity inc)) \<noteq> Dead
          then Inl (Owner_conflict ''already owned'')
          else Inr (drawn, eo_generation inc + 1, now))"

definition claim_execution_owner ::
  "os_view \<Rightarrow> claim_args \<Rightarrow> string \<Rightarrow> string \<Rightarrow> run_db \<Rightarrow> (owner_error + owner_row) \<times> run_db" where
  "claim_execution_owner os a now run db =
     (case get_run run db of
        None \<Rightarrow> (Inl Owner_unknown_run, db)
      | Some r \<Rightarrow>
          if terminal_run (rn_status r) then (Inl Owner_run_terminal, db)
          else if team_stopping r db then (Inl (Owner_conflict ''parent team is stopping''), db)
          else (case claim_token os a now (get_execution_owner run db) of
              Inl e \<Rightarrow> (Inl e, db)
            | Inr (owner, generation, claimed_at) \<Rightarrow>
                let ow = \<lparr>eo_run_id = run,
                         eo_project_id = (if truthy (cl_project_id a) then cl_project_id a else rn_project_id r),
                         eo_owner_id = owner, eo_generation = generation, eo_state = Claimed,
                         eo_identity = cl_identity a, eo_claimed_at = claimed_at, eo_heartbeat_at = Some now,
                         eo_released_at = None, eo_release_reason = None, eo_cancel_agent = None\<rparr>
                in (Inr ow, put_owner ow db)))"

definition owned_as :: "string \<Rightarrow> string \<Rightarrow> int \<Rightarrow> owner_state list \<Rightarrow> owner_row \<Rightarrow> bool" where
  \<comment> \<open>the \<open>WHERE\<close> clause of the fenced updates\<close>
  "owned_as run owner generation states ow \<longleftrightarrow>
     eo_run_id ow = run \<and> eo_owner_id ow = owner \<and> eo_generation ow = generation \<and> eo_state ow \<in> set states"

definition update_owners :: "(owner_row \<Rightarrow> bool) \<Rightarrow> (owner_row \<Rightarrow> owner_row) \<Rightarrow> run_db \<Rightarrow> run_db" where
  "update_owners P f db = db\<lparr>rb_owners := map (\<lambda>ow. if P ow then f ow else ow) (rb_owners db)\<rparr>"

definition adopt_execution_owner_identity ::
  "string \<Rightarrow> string \<Rightarrow> int \<Rightarrow> process_identity \<Rightarrow> string \<Rightarrow> run_db \<Rightarrow> bool \<times> run_db" where
  "adopt_execution_owner_identity run owner generation ident now db =
     (let P = owned_as run owner generation [Claimed] in
      (list_ex P (rb_owners db), update_owners P (\<lambda>ow. ow\<lparr>eo_identity := ident, eo_heartbeat_at := Some now\<rparr>) db))"

definition released_as :: "string \<Rightarrow> string \<Rightarrow> owner_row \<Rightarrow> owner_row" where
  "released_as now reason ow =
     ow\<lparr>eo_state := Released, eo_released_at := Some now, eo_release_reason := Some reason, eo_cancel_agent := None\<rparr>"

definition release_execution_owner ::
  "string \<Rightarrow> string \<Rightarrow> int \<Rightarrow> string \<Rightarrow> string \<Rightarrow> run_db \<Rightarrow> (owner_error + bool) \<times> run_db" where
  "release_execution_owner run owner generation reason now db =
     (if owner = [] then (Inl Owner_invalid, db)
      else let P = owned_as run owner generation [Claimed] in
        (Inr (list_ex P (rb_owners db)), update_owners P (released_as now reason) db))"

definition fenced_owner_row :: "string \<Rightarrow> (string \<times> int) option \<Rightarrow> owner_state list \<Rightarrow> run_db \<Rightarrow> bool" where
  \<comment> \<open>without a token: that no row asserts ownership; the callers give both halves or none\<close>
  "fenced_owner_row run token states db =
     (case token of
        None \<Rightarrow> (case get_execution_owner run db of None \<Rightarrow> True | Some ow \<Rightarrow> \<not> is_active ow)
      | Some (owner, generation) \<Rightarrow>
          (case get_execution_owner run db of None \<Rightarrow> False | Some ow \<Rightarrow> owned_as run owner generation states ow))"

definition release_token :: "string \<Rightarrow> (string \<times> int) option \<Rightarrow> string \<Rightarrow> string \<Rightarrow> run_db \<Rightarrow> run_db" where
  "release_token run token now reason db =
     (case token of
        None \<Rightarrow> db
      | Some (owner, generation) \<Rightarrow>
          update_owners (owned_as run owner generation [Claimed, Cancelling, Released]) (released_as now reason) db)"

definition terminalize_run_fenced ::
  "string \<Rightarrow> (string \<times> int) option \<Rightarrow> run_status \<Rightarrow> string \<Rightarrow> string \<Rightarrow> owner_state list \<Rightarrow> string \<Rightarrow> string option
     \<Rightarrow> string \<Rightarrow> run_db \<Rightarrow> string list option \<times> run_db" where
  \<comment> \<open>the receipt is given by its \<open>failed_attempts\<close>; its other entries repeat the arguments\<close>
  "terminalize_run_fenced run token status summary attempt_reason states release_reason completed now db =
     (case get_run run db of
        None \<Rightarrow> (None, db)
      | Some r \<Rightarrow>
          if terminal_run (rn_status r) \<or> \<not> fenced_owner_row run token states db then (None, db)
          else (Some (map at_id (filter (live_attempt run) (rb_attempts db))),
                release_token run token now release_reason
                  (update_run_row run (\<lambda>r. r\<lparr>rn_status := status, rn_result_summary := Some summary, rn_completed_at := completed\<rparr>)
                    (db\<lparr>rb_attempts := map (\<lambda>a. if live_attempt run a
                       then a\<lparr>at_status := At_failed, at_worker_error := Some attempt_reason, at_completed_at := Some now\<rparr>
                       else a) (rb_attempts db)\<rparr>))))"

definition terminalize_preemption_fenced ::
  "string \<Rightarrow> (string \<times> int) option \<Rightarrow> string \<Rightarrow> owner_state list \<Rightarrow> string option \<Rightarrow> string \<Rightarrow> run_db \<Rightarrow> bool \<times> run_db" where
  \<comment> \<open>whether a receipt is returned\<close>
  "terminalize_preemption_fenced run token summary states completed now db =
     (case get_run run db of
        None \<Rightarrow> (False, db)
      | Some r \<Rightarrow>
          if rn_status r \<noteq> Run_running \<or> \<not> fenced_owner_row run token states db \<or>
             list_ex (live_attempt run) (rb_attempts db)
          then (False, db)
          else (True, release_token run token now ''preempted''
                  (update_run_row run (\<lambda>r. r\<lparr>rn_status := Run_preempted, rn_result_summary := Some summary,
                                            rn_completed_at := completed\<rparr>) db)))"

definition begin_execution_cancellation ::
  "os_view \<Rightarrow> string \<Rightarrow> string \<Rightarrow> int \<Rightarrow> process_identity \<Rightarrow> run_db \<Rightarrow> bool \<times> run_db" where
  "begin_execution_cancellation os run owner generation agent db =
     (case get_run run db of
        None \<Rightarrow> (False, db)
      | Some r \<Rightarrow>
          if terminal_run (rn_status r) then (False, db)
          else (case get_execution_owner run db of
              None \<Rightarrow> (False, db)
            | Some inc \<Rightarrow>
                if eo_owner_id inc \<noteq> owner \<or> eo_generation inc \<noteq> generation \<or> \<not> is_active inc then (False, db)
                else if eo_state inc = Cancelling \<and> probe_liveness os (eo_cancel_agent inc) \<noteq> Dead \<and>
                  \<not> (case eo_cancel_agent inc of None \<Rightarrow> False
                      | Some p \<Rightarrow> pi_host p = pi_host agent \<and> pi_pid p = pi_pid agent \<and> pi_start_ticks p = pi_start_ticks agent)
                then (False, db)
                else (True, update_owners (owned_as run owner generation [Claimed, Cancelling, Released])
                              (\<lambda>ow. ow\<lparr>eo_state := Cancelling, eo_cancel_agent := Some agent\<rparr>) db)))"

definition abort_execution_cancellation :: "string \<Rightarrow> string \<Rightarrow> int \<Rightarrow> run_db \<Rightarrow> bool \<times> run_db" where
  "abort_execution_cancellation run owner generation db =
     (let P = owned_as run owner generation [Cancelling] in
      (list_ex P (rb_owners db), update_owners P (\<lambda>ow. ow\<lparr>eo_state := Claimed, eo_cancel_agent := None\<rparr>) db))"

end
