(* ===== verification/Run_Store_Laws.thy ===== *)
theory Run_Store_Laws
  imports Run_Store
begin

text \<open>
  What the execution owners of \<open>saberops/db.py\<close> guarantee: a claim is taken over only from an owner
  that is released or provably dead, generations never fall, and a token of a superseded
  generation writes nothing any more, whatever happened since.
\<close>

section \<open>Reading after writing\<close>

lemma find_map_same:
  assumes "\<And>x. P (f x) = P x"
  shows "find P (map f xs) = map_option f (find P xs)"
  using assms by (induction xs) auto

lemma find_append_single: "find P (xs @ [x]) = (case find P xs of None \<Rightarrow> if P x then Some x else None | Some y \<Rightarrow> Some y)"
  by (induction xs) auto

lemma find_put:
  "find (\<lambda>x. key x = r) (map (\<lambda>x. if key x = key y then y else x) xs) =
     (if r = key y then (if find (\<lambda>x. key x = key y) xs = None then None else Some y) else find (\<lambda>x. key x = r) xs)"
  by (induction xs) auto

lemma find_unique: "distinct (map key xs) \<Longrightarrow> y \<in> set xs \<Longrightarrow> find (\<lambda>x. key x = key y) xs = Some y"
  by (induction xs) auto

lemma find_SomeD: "find P xs = Some x \<Longrightarrow> x \<in> set xs \<and> P x"
  by (induction xs) (auto split: if_splits)

lemma owner_Some: "get_execution_owner run db = Some o' \<Longrightarrow> o' \<in> set (rb_owners db) \<and> eo_run_id o' = run"
  unfolding get_execution_owner_def by (drule find_SomeD) simp

lemma owner_update:
  assumes "\<And>ow. eo_run_id (f ow) = eo_run_id ow"
  shows "get_execution_owner run (update_owners P f db) = map_option (\<lambda>ow. if P ow then f ow else ow) (get_execution_owner run db)"
  unfolding get_execution_owner_def update_owners_def using assms by (simp add: find_map_same)

lemma owner_put: "get_execution_owner run (put_owner o' db) = (if run = eo_run_id o' then Some o' else get_execution_owner run db)"
proof (cases "find (\<lambda>ow. eo_run_id ow = eo_run_id o') (rb_owners db)")
  case None
  then show ?thesis by (auto simp: put_owner_def get_execution_owner_def find_append_single split: option.splits)
next
  case (Some k)
  then show ?thesis by (simp add: put_owner_def get_execution_owner_def find_put [where key = eo_run_id])
qed

section \<open>The owner of a run only moves forward\<close>

definition follows :: "owner_row \<Rightarrow> owner_row \<Rightarrow> bool" where
  \<comment> \<open>the same generation of the same owner, or a later one\<close>
  "follows o1 o2 \<longleftrightarrow> eo_generation o1 < eo_generation o2 \<or> (eo_generation o1 = eo_generation o2 \<and> eo_owner_id o1 = eo_owner_id o2)"

definition owners_follow :: "run_db \<Rightarrow> run_db \<Rightarrow> bool" where
  "owners_follow db db' \<longleftrightarrow> (\<forall>run o1. get_execution_owner run db = Some o1 \<longrightarrow> (\<exists>o2. get_execution_owner run db' = Some o2 \<and> follows o1 o2))"

lemma follows_refl: "follows o1 o1"
  by (simp add: follows_def)

lemma follows_trans: "follows o1 o2 \<Longrightarrow> follows o2 o3 \<Longrightarrow> follows o1 o3"
  by (auto simp: follows_def)

lemma owners_follow_refl: "owners_follow db db"
  by (simp add: owners_follow_def follows_refl)

lemma owners_follow_trans: "owners_follow a b \<Longrightarrow> owners_follow b c \<Longrightarrow> owners_follow a c"
  unfolding owners_follow_def by (blast intro: follows_trans)

text \<open>Every operation moves the owner rows in one of three ways.\<close>

definition keeps_token :: "(owner_row \<Rightarrow> owner_row) \<Rightarrow> bool" where
  "keeps_token f \<longleftrightarrow> (\<forall>ow. eo_run_id (f ow) = eo_run_id ow \<and> eo_owner_id (f ow) = eo_owner_id ow \<and> eo_generation (f ow) = eo_generation ow)"

inductive owner_move :: "run_db \<Rightarrow> run_db \<Rightarrow> bool" where
  kept: "rb_owners db' = rb_owners db \<Longrightarrow> owner_move db db'"
| updated: "rb_owners db' = rb_owners (update_owners P f db) \<Longrightarrow> keeps_token f \<Longrightarrow> owner_move db db'"
| put: "rb_owners db' = rb_owners (put_owner o' db) \<Longrightarrow>
    (\<And>inc. get_execution_owner (eo_run_id o') db = Some inc \<Longrightarrow> follows inc o') \<Longrightarrow> owner_move db db'"

definition one_owner_per_run :: "run_db \<Rightarrow> bool" where
  "one_owner_per_run db \<longleftrightarrow> distinct (map eo_run_id (rb_owners db))"

lemma owner_same: "rb_owners db' = rb_owners db \<Longrightarrow> get_execution_owner run db' = get_execution_owner run db"
  by (simp add: get_execution_owner_def)

lemma one_owner_update:
  assumes "keeps_token f" "one_owner_per_run db"
  shows "one_owner_per_run (update_owners P f db)"
proof -
  have "map eo_run_id (rb_owners (update_owners P f db)) = map eo_run_id (rb_owners db)"
    using assms(1) by (simp add: update_owners_def keeps_token_def)
  then show ?thesis using assms(2) by (simp add: one_owner_per_run_def)
qed

lemma one_owner_put:
  assumes "one_owner_per_run db"
  shows "one_owner_per_run (put_owner o' db)"
proof (cases "get_execution_owner (eo_run_id o') db")
  case None
  then have "eo_run_id o' \<notin> eo_run_id ` set (rb_owners db)" by (auto simp: get_execution_owner_def find_None_iff)
  with None assms show ?thesis by (simp add: one_owner_per_run_def put_owner_def)
next
  case (Some k)
  then have "map eo_run_id (rb_owners (put_owner o' db)) = map eo_run_id (rb_owners db)" by (auto simp: put_owner_def)
  then show ?thesis using assms by (simp only: one_owner_per_run_def)
qed

lemma owner_move_one: "owner_move db db' \<Longrightarrow> one_owner_per_run db \<Longrightarrow> one_owner_per_run db'"
proof (induction rule: owner_move.induct)
  case (updated db' P f db)
  from one_owner_update [OF updated(2,3), of P] updated(1) show ?case by (simp add: one_owner_per_run_def)
next
  case (put db' o' db)
  from one_owner_put [OF put(3), of o'] put(1) show ?case by (simp add: one_owner_per_run_def)
qed (simp add: one_owner_per_run_def)

lemma owner_move_follows: "owner_move db db' \<Longrightarrow> owners_follow db db'"
proof (induction rule: owner_move.induct)
  case (kept db' db)
  then show ?case by (simp add: owners_follow_def owner_same [OF kept] follows_refl)
next
  case (updated db' P f db)
  have "get_execution_owner run db' = map_option (\<lambda>ow. if P ow then f ow else ow) (get_execution_owner run db)" for run
    using updated(2) owner_update [of f run P db] by (simp add: keeps_token_def owner_same [OF updated(1)])
  with updated(2) show ?case by (simp add: owners_follow_def follows_def keeps_token_def)
next
  case (put db' o' db)
  have "get_execution_owner run db' = (if run = eo_run_id o' then Some o' else get_execution_owner run db)" for run
    using owner_same [OF put(1)] by (simp add: owner_put)
  with put(2) show ?case by (simp add: owners_follow_def follows_refl)
qed

lemma moves_released: "keeps_token (released_as now reason)"
  by (simp add: keeps_token_def released_as_def)

lemma moves_release_token: "rb_owners db = rb_owners db0 \<Longrightarrow> owner_move db0 (release_token run token now reason db)"
proof (cases token)
  case (Some t)
  assume "rb_owners db = rb_owners db0"
  with Some show ?thesis
    by (cases t) (auto simp: release_token_def update_owners_def intro!: owner_move.updated [OF _ moves_released [of now reason]])
qed (simp add: release_token_def owner_move.kept)

inductive owner_step :: "run_db \<Rightarrow> run_db \<Rightarrow> bool" where
  claims: "claim_execution_owner os a now run db = (r, db') \<Longrightarrow> owner_step db db'"
| adopts: "adopt_execution_owner_identity run owner g ident now db = (ok, db') \<Longrightarrow> owner_step db db'"
| releases: "release_execution_owner run owner g reason now db = (r', db') \<Longrightarrow> owner_step db db'"
| terminalizes: "terminalize_run_fenced run token st summary reason states rel fin now db = (r'', db') \<Longrightarrow> owner_step db db'"
| preempts: "terminalize_preemption_fenced run token summary states fin now db = (ok, db') \<Longrightarrow> owner_step db db'"
| cancels: "begin_execution_cancellation os run owner g agent db = (ok, db') \<Longrightarrow> owner_step db db'"
| aborts: "abort_execution_cancellation run owner g db = (ok, db') \<Longrightarrow> owner_step db db'"
| others: "rb_owners db' = rb_owners db \<Longrightarrow> owner_step db db'"

lemma claim_token_follows:
  assumes "claim_token os a now (Some inc) = Inr (i, g, c)"
  shows "eo_generation inc < g \<or> (g = eo_generation inc \<and> i = eo_owner_id inc)"
  using assms by (auto simp: claim_token_def Let_def split: if_splits)

lemma claim_moves:
  assumes "claim_execution_owner os a now run db = (res, db')"
  shows "owner_move db db'"
proof (cases "db' = db")
  case False
  with assms obtain r i g c p where "claim_token os a now (get_execution_owner run db) = Inr (i, g, c)"
    and "db' = put_owner \<lparr>eo_run_id = run, eo_project_id = p, eo_owner_id = i, eo_generation = g, eo_state = Claimed,
        eo_identity = cl_identity a, eo_claimed_at = c, eo_heartbeat_at = Some now, eo_released_at = None,
        eo_release_reason = None, eo_cancel_agent = None\<rparr> db"
    by (auto simp: claim_execution_owner_def Let_def split: option.splits if_splits sum.splits)
  then show ?thesis by (auto simp: follows_def dest: claim_token_follows intro!: owner_move.put [OF refl])
qed (simp add: owner_move.kept)

lemma fenced_moves:
  "adopt_execution_owner_identity run owner g ident now db = (ok, db') \<Longrightarrow> owner_move db db'"
  "release_execution_owner run owner g reason now db = (r', db') \<Longrightarrow> owner_move db db'"
  "abort_execution_cancellation run owner g db = (ok, db') \<Longrightarrow> owner_move db db'"
  by (auto simp: adopt_execution_owner_identity_def release_execution_owner_def abort_execution_cancellation_def Let_def
      keeps_token_def intro: owner_move.kept owner_move.updated [OF refl] moves_released split: if_splits)

lemma cancel_moves: "begin_execution_cancellation os run owner g agent db = (ok, db') \<Longrightarrow> owner_move db db'"
  by (auto simp: begin_execution_cancellation_def keeps_token_def intro: owner_move.kept owner_move.updated [OF refl]
      split: option.splits if_splits)

lemma terminal_moves:
  "terminalize_run_fenced run token st summary reason states rel fin now db = (r'', db') \<Longrightarrow> owner_move db db'"
  "terminalize_preemption_fenced run token summary states fin now db = (ok, db') \<Longrightarrow> owner_move db db'"
  by (auto simp: terminalize_run_fenced_def terminalize_preemption_fenced_def update_run_row_def
      intro: owner_move.kept moves_release_token split: option.splits if_splits)

lemma owner_step_moves: "owner_step db db' \<Longrightarrow> owner_move db db'"
  by (induction rule: owner_step.induct)
     (blast intro: claim_moves fenced_moves cancel_moves terminal_moves owner_move.kept)+

interpretation owners: stepwise owner_step one_owner_per_run
  by unfold_locales (rule owner_move_one [OF owner_step_moves])

lemma owner_steps_follow: "owner_step\<^sup>*\<^sup>* db db' \<Longrightarrow> one_owner_per_run db \<Longrightarrow> owners_follow db db'"
  by (rule owners.steps_rel [OF _ _ owners_follow_refl owners_follow_trans owner_move_follows [OF owner_step_moves]])

section \<open>A superseded token is powerless\<close>

definition refuses_token :: "string \<Rightarrow> string \<Rightarrow> int \<Rightarrow> run_db \<Rightarrow> bool" where
  \<comment> \<open>no fenced operation with this token changes anything or reports success\<close>
  "refuses_token run owner g db \<longleftrightarrow>
     (\<forall>st summary reason states rel fin now.
        terminalize_run_fenced run (Some (owner, g)) st summary reason states rel fin now db = (None, db)) \<and>
     (\<forall>summary states fin now. terminalize_preemption_fenced run (Some (owner, g)) summary states fin now db = (False, db)) \<and>
     (\<forall>reason now. \<exists>r. release_execution_owner run owner g reason now db = (r, db) \<and> r \<noteq> Inr True) \<and>
     (\<forall>ident now. adopt_execution_owner_identity run owner g ident now db = (False, db)) \<and>
     (\<forall>os agent. begin_execution_cancellation os run owner g agent db = (False, db)) \<and>
     abort_execution_cancellation run owner g db = (False, db)"

lemma one_owner_found: "one_owner_per_run db \<Longrightarrow> o' \<in> set (rb_owners db) \<Longrightarrow> get_execution_owner (eo_run_id o') db = Some o'"
  by (simp add: one_owner_per_run_def get_execution_owner_def find_unique)

lemma update_owners_none: "\<not> list_ex P (rb_owners db) \<Longrightarrow> update_owners P f db = db"
  by (simp add: update_owners_def list_ex_iff map_idI)

lemma other_token_refused:
  assumes "one_owner_per_run db" "get_execution_owner run db = Some o'" "eo_owner_id o' \<noteq> owner \<or> eo_generation o' \<noteq> g"
  shows "refuses_token run owner g db"
proof -
  have none: "\<not> list_ex (owned_as run owner g states) (rb_owners db)" for states
    using one_owner_found [OF assms(1)] assms(2,3) by (force simp: owned_as_def list_ex_iff)
  have fence: "\<not> fenced_owner_row run (Some (owner, g)) states db" for states
    using assms(2,3) by (auto simp: fenced_owner_row_def owned_as_def)
  show ?thesis
    using assms(2,3) none [THEN update_owners_none] none fence
    by (auto simp: refuses_token_def terminalize_run_fenced_def terminalize_preemption_fenced_def release_execution_owner_def
        adopt_execution_owner_identity_def begin_execution_cancellation_def abort_execution_cancellation_def Let_def split: option.splits)
qed

text \<open>C6: A superseded owner is powerless.  Once the run has a later owner than the holder of a token,
  no later step gives the token back its power: every fenced operation with it, terminalization,
  release, adoption, cancellation and its abort, is refused and writes nothing.\<close>
theorem superseded_owner_is_powerless:
  assumes "one_owner_per_run db" "get_execution_owner run db = Some now_owner"
    "g < eo_generation now_owner \<or> (g = eo_generation now_owner \<and> owner \<noteq> eo_owner_id now_owner)"
    "owner_step\<^sup>*\<^sup>* db db'"
  shows "refuses_token run owner g db'"
proof -
  obtain o2 where o2: "get_execution_owner run db' = Some o2" "follows now_owner o2"
    using owner_steps_follow [OF assms(4,1), unfolded owners_follow_def, rule_format, OF assms(2)] by blast
  have "eo_owner_id o2 \<noteq> owner \<or> eo_generation o2 \<noteq> g"
  proof (rule ccontr)
    assume "\<not> ?thesis"
    with o2(2) have "eo_generation now_owner < g \<or> (eo_generation now_owner = g \<and> eo_owner_id now_owner = owner)"
      by (simp add: follows_def)
    with assms(3) show False by (elim disjE conjE) simp_all
  qed
  then show ?thesis using other_token_refused [OF owners.steps_inv [OF assms(4,1)] o2(1)] by blast
qed

section \<open>Claims\<close>

text \<open>A claim is exclusive.  A refused claim writes nothing.  A granted one is for a run that is not
  terminal and touches no other run; it keeps the generation only for the process that holds it or
  the holder of its reservation token, and otherwise starts the next generation after an owner that
  was released or is provably dead, and whose cancellation, if one was under way, is dead too.\<close>
theorem claim_is_exclusive:
  assumes "claim_execution_owner os a now run db = (res, db')"
  shows "case res of
      Inl e \<Rightarrow> db' = db
    | Inr new \<Rightarrow>
        (\<exists>r. get_run run db = Some r \<and> \<not> terminal_run (rn_status r)) \<and>
        (\<forall>other. get_execution_owner other db' = (if other = run then Some new else get_execution_owner other db)) \<and>
        eo_state new = Claimed \<and> eo_identity new = cl_identity a \<and>
        (case get_execution_owner run db of
           None \<Rightarrow> eo_generation new = 1
         | Some inc \<Rightarrow>
             (if eo_generation new = eo_generation inc
              then eo_owner_id new = eo_owner_id inc \<and> (same_process (eo_identity inc) (cl_identity a) \<or> reserved_for_us a inc)
              else eo_generation new = eo_generation inc + 1 \<and> owner_liveness os inc = Dead) \<and>
             (eo_state inc = Cancelling \<longrightarrow> probe_liveness os (eo_cancel_agent inc) = Dead))"
  using assms
  by (auto simp: claim_execution_owner_def claim_token_def Let_def owner_put owner_liveness_def
      split: option.splits if_splits sum.splits prod.splits)

section \<open>Examples\<close>

definition sample_process :: "int \<Rightarrow> process_identity" where
  "sample_process pid = \<lparr>pi_host = ''host'', pi_boot_id = Some ''boot'', pi_pid = pid, pi_start_ticks = Some (pid + 100),
     pi_session_id = Some pid, pi_group_id = Some pid\<rparr>"

definition sample_os :: os_view where
  \<comment> \<open>process 7 runs, process 5 is gone\<close>
  "sample_os = \<lparr>ov_host = ''host'', ov_boot_id = Some ''boot'',
     ov_stat = (\<lambda>pid. if pid = 7 then Proc_stat ''S'' (Some 107) else No_such_process)\<rparr>"

definition sample_claim :: "int \<Rightarrow> string \<Rightarrow> claim_args" where
  "sample_claim pid owner = \<lparr>cl_identity = sample_process pid, cl_owner_id = Some owner, cl_expect_owner_id = None,
     cl_expect_generation = None, cl_project_id = None, cl_fresh = ''fresh''\<rparr>"

definition one_run_db :: run_db where
  "one_run_db = empty_run_db\<lparr>rb_runs := [\<lparr>rn_id = ''run-1'', rn_status = Run_running, rn_project_id = None, rn_team_parent = None,
     rn_completed_at = None, rn_final_attempt_id = None, rn_result_summary = None\<rparr>]\<rparr>"

definition owned_run_db :: run_db where
  "owned_run_db = snd (claim_execution_owner sample_os (sample_claim 5 ''a'') ''t0'' ''run-1'' one_run_db)"

definition retaken_run_db :: run_db where
  "retaken_run_db = snd (claim_execution_owner sample_os (sample_claim 7 ''b'') ''t1'' ''run-1'' owned_run_db)"

theorem superseded_owner_is_powerless_witness:
  "refuses_token ''run-1'' ''a'' 1 (snd (terminalize_run_fenced ''run-1'' (Some (''a'', 1)) Run_failed ''late'' ''late'' [Claimed] ''x'' None ''t2'' retaken_run_db))"
proof -
  have one: "one_owner_per_run retaken_run_db" by code_simp
  obtain o2 where o2: "get_execution_owner ''run-1'' retaken_run_db = Some o2" "eo_generation o2 = 2"
  proof -
    have "map_option eo_generation (get_execution_owner ''run-1'' retaken_run_db) = Some 2" by code_simp
    then show ?thesis using that by auto
  qed
  have "owner_step\<^sup>*\<^sup>* retaken_run_db
      (snd (terminalize_run_fenced ''run-1'' (Some (''a'', 1)) Run_failed ''late'' ''late'' [Claimed] ''x'' None ''t2'' retaken_run_db))"
    by (rule r_into_rtranclp, rule owner_step.terminalizes [OF prod.collapse [symmetric]])
  then show ?thesis using superseded_owner_is_powerless [OF one o2(1), of 1 "''a''"] o2(2) by simp
qed

theorem claim_is_exclusive_witness:
  "\<exists>new. claim_execution_owner sample_os (sample_claim 7 ''b'') ''t1'' ''run-1'' owned_run_db = (Inr new, retaken_run_db)
     \<and> eo_generation new = 2 \<and> get_execution_owner ''run-1'' retaken_run_db = Some new"
proof -
  have "case fst (claim_execution_owner sample_os (sample_claim 7 ''b'') ''t1'' ''run-1'' owned_run_db) of
      Inr new \<Rightarrow> eo_generation new = 2 | Inl e \<Rightarrow> False"
    by code_simp
  then obtain new where "fst (claim_execution_owner sample_os (sample_claim 7 ''b'') ''t1'' ''run-1'' owned_run_db) = Inr new"
    and g: "eo_generation new = 2"
    by (cases "fst (claim_execution_owner sample_os (sample_claim 7 ''b'') ''t1'' ''run-1'' owned_run_db)") auto
  then have new: "claim_execution_owner sample_os (sample_claim 7 ''b'') ''t1'' ''run-1'' owned_run_db = (Inr new, retaken_run_db)"
    by (simp add: retaken_run_db_def prod_eq_iff)
  from claim_is_exclusive [OF new] new g show ?thesis by simp
qed

end
