(* ===== verification/Checkpoint_Refs.thy ===== *)
theory Checkpoint_Refs
  imports Run_Store_Laws Decimal_Text
begin

text \<open>
  The engine-owned checkpoint refs of \<open>saberops/git.py\<close>
  (\<open>refs/saberops/checkpoints/<job>/<n>\<close>) and the proof of \<open>saberops/preemption.py\<close> that a worktree
  belongs to a repository.  The repository is the record \<open>git_repo\<close>: the commit objects, the refs
  by full name, the worktrees by path.  What git and the file system answer about paths is the
  record \<open>git_shell\<close>; git objects never change, so ancestry is a fixed relation on shas.
\<close>

section \<open>Decimal text\<close>

definition py_int :: "string \<Rightarrow> int option" where
  \<comment> \<open>\<open>int(s)\<close>; \<open>None\<close> is \<open>ValueError\<close>\<close>
  "py_int s =
     (let t = py_strip s;
          negative = py_startswith t ''-'';
          u = (if negative \<or> py_startswith t ''+'' then tl t else t);
          parts = py_split_on (\<lambda>c. c = CHR ''_'') u
      in if parts \<noteq> [] \<and> list_all ascii_decimal parts
         then Some ((if negative then - 1 else 1) * decimal_value (concat parts)) else None)"

section \<open>Names\<close>

definition sha_ok :: "string \<Rightarrow> bool" where
  \<comment> \<open>\<open>validate_candidate_sha\<close> accepts\<close>
  "sha_ok s \<longleftrightarrow> length s = 40 \<and> list_all (\<lambda>c. c \<in> set ''0123456789abcdef'') s"

definition CHECKPOINT_REF_PREFIX :: string where "CHECKPOINT_REF_PREFIX = ''refs/saberops/checkpoints/''"

definition MAX_CHECKPOINT_INDEX :: int where "MAX_CHECKPOINT_INDEX = 64"

definition job_id_char :: "char \<Rightarrow> bool" where
  "job_id_char c \<longleftrightarrow> (let n = chr_code c in
     (48 \<le> n \<and> n \<le> 57) \<or> (65 \<le> n \<and> n \<le> 90) \<or> (97 \<le> n \<and> n \<le> 122) \<or> n = 95 \<or> n = 45)"

definition job_id_exact :: "string \<Rightarrow> bool" where
  "job_id_exact s \<longleftrightarrow> s \<noteq> [] \<and> length s \<le> 64 \<and> list_all job_id_char s"

definition job_id_re :: "string \<Rightarrow> bool" where
  \<comment> \<open>the \<open>$\<close> of the pattern also matches before a final newline\<close>
  "job_id_re s \<longleftrightarrow> job_id_exact s \<or> (s \<noteq> [] \<and> last s = char_of (10 :: nat) \<and> job_id_exact (butlast s))"

definition checkpoint_dir :: "string \<Rightarrow> string" where
  "checkpoint_dir job = CHECKPOINT_REF_PREFIX @ job @ ''/''"

definition checkpoint_ref_name :: "string \<Rightarrow> int \<Rightarrow> string" where
  "checkpoint_ref_name job index = checkpoint_dir job @ int_text index"

definition validate_checkpoint_ref :: "string \<Rightarrow> int \<Rightarrow> string option" where
  \<comment> \<open>the search for dangerous characters only refuses the final newline the pattern let through\<close>
  "validate_checkpoint_ref job index =
     (if job_id_exact job \<and> 0 \<le> index \<and> index \<le> MAX_CHECKPOINT_INDEX then Some (checkpoint_ref_name job index) else None)"

section \<open>The repository\<close>

datatype git_ref = Direct string | Symbolic string

record worktree =
  wt_head :: "string option"
  wt_changed :: "string list"

record git_repo =
  gr_commits :: "string list"
  gr_refs :: "(string \<times> git_ref) list"
  gr_worktrees :: "(string \<times> worktree) list"

datatype ref_state = Ref_symbolic string | Ref_direct string | Ref_absent

definition commit_exists :: "git_repo \<Rightarrow> string \<Rightarrow> bool option" where
  \<comment> \<open>\<open>None\<close> when the sha is malformed and the call raises\<close>
  "commit_exists g sha = (if \<not> sha_ok sha then None else Some (sha \<in> set (gr_commits g)))"

definition checkpoint_ref_state :: "git_repo \<Rightarrow> string \<Rightarrow> ref_state" where
  "checkpoint_ref_state g ref =
     (case dict_get (gr_refs g) ref of
        None \<Rightarrow> Ref_absent
      | Some (Symbolic target) \<Rightarrow> Ref_symbolic target
      | Some (Direct sha) \<Rightarrow> if sha \<in> set (gr_commits g) then Ref_direct sha else Ref_absent)"

definition read_checkpoint_ref :: "git_repo \<Rightarrow> string \<Rightarrow> int \<Rightarrow> string option option" where
  \<comment> \<open>the outer \<open>None\<close> is \<open>CandidatePublicationError\<close>\<close>
  "read_checkpoint_ref g job index =
     (case validate_checkpoint_ref job index of
        None \<Rightarrow> None
      | Some ref \<Rightarrow> (case checkpoint_ref_state g ref of
          Ref_symbolic t \<Rightarrow> None | Ref_direct sha \<Rightarrow> Some (Some sha) | Ref_absent \<Rightarrow> Some None))"

fun collect_refs :: "(string \<times> git_ref) list \<Rightarrow> string \<Rightarrow> (string \<times> git_ref) list \<Rightarrow> (int \<times> string) list \<Rightarrow> (int \<times> string) list option" where
  \<comment> \<open>the loop over the lines of \<open>for-each-ref\<close>, which omits dangling symbolic refs\<close>
  "collect_refs all pattern [] out = Some out"
| "collect_refs all pattern ((name, r) # rest) out =
     (if \<not> py_startswith name pattern then collect_refs all pattern rest out
      else case r of
        Symbolic target \<Rightarrow> if dict_get all target = None then collect_refs all pattern rest out else None
      | Direct sha \<Rightarrow>
          (case py_int (drop (length pattern) name) of
             None \<Rightarrow> collect_refs all pattern rest out
           | Some index \<Rightarrow>
               collect_refs all pattern rest
                 (if 0 \<le> index \<and> index \<le> MAX_CHECKPOINT_INDEX \<and> sha_ok sha then dict_set out index sha else out)))"

definition list_checkpoint_refs :: "git_repo \<Rightarrow> string \<Rightarrow> (int \<times> string) list option" where
  "list_checkpoint_refs g job =
     (if \<not> job_id_re job then None
      else collect_refs (gr_refs g) (checkpoint_dir job) (sort_key fst (gr_refs g)) [])"

definition anchor_checkpoint_ref :: "git_repo \<Rightarrow> string \<Rightarrow> int \<Rightarrow> string \<Rightarrow> (string \<times> git_repo) option" where
  "anchor_checkpoint_ref g job index sha =
     (case validate_checkpoint_ref job index of
        None \<Rightarrow> None
      | Some ref \<Rightarrow>
          if \<not> sha_ok sha \<or> sha \<notin> set (gr_commits g) then None
          else (case checkpoint_ref_state g ref of
              Ref_symbolic t \<Rightarrow> None
            | Ref_direct current \<Rightarrow> if current = sha then Some (ref, g) else None
            | Ref_absent \<Rightarrow>
                if dict_get (gr_refs g) ref \<noteq> None then None
                else Some (ref, g\<lparr>gr_refs := dict_set (gr_refs g) ref (Direct sha)\<rparr>)))"

definition next_checkpoint_index :: "(int \<times> string) list \<Rightarrow> int" where
  "next_checkpoint_index existing = (if existing = [] then 0 else fold max (map fst existing) 0 + 1)"

definition anchor_verified_ref :: "git_repo \<Rightarrow> string \<Rightarrow> string \<Rightarrow> ((string \<times> int) \<times> git_repo) option" where
  \<comment> \<open>\<open>None\<close> when it raises\<close>
  "anchor_verified_ref g job sha =
     (case list_checkpoint_refs g job of
        None \<Rightarrow> None
      | Some existing \<Rightarrow>
          (case find (\<lambda>(i, s). s = sha) (sort_key fst existing) of
             Some (i, s) \<Rightarrow> Some ((checkpoint_ref_name job i, i), g)
           | None \<Rightarrow>
               let index = next_checkpoint_index existing in
               if MAX_CHECKPOINT_INDEX < index then None
               else (case anchor_checkpoint_ref g job index sha of
                   None \<Rightarrow> None | Some (ref, g') \<Rightarrow> Some ((ref, index), g'))))"

section \<open>The worktree of an attempt\<close>

record git_shell =
  gs_resolve :: "string \<Rightarrow> string option"
    \<comment> \<open>\<open>Path.resolve\<close>; \<open>None\<close> is \<open>OSError\<close>\<close>
  gs_is_dir :: "string \<Rightarrow> bool"
  gs_common_dir :: "string \<Rightarrow> string option"
    \<comment> \<open>the output of \<open>git rev-parse --git-common-dir\<close>; \<open>None\<close> when the call fails\<close>
  gs_toplevel :: "string \<Rightarrow> string option"
  gs_worktree_list :: "string \<Rightarrow> string option"
  gs_ancestor :: "string \<Rightarrow> string \<Rightarrow> bool"

definition py_linebreak :: "char \<Rightarrow> bool" where
  "py_linebreak c \<longleftrightarrow> (let n = chr_code c in (10 \<le> n \<and> n \<le> 13) \<or> (28 \<le> n \<and> n \<le> 30) \<or> n = 133)"

definition git_common_dir :: "git_shell \<Rightarrow> string \<Rightarrow> string option" where
  "git_common_dir sh path =
     (case gs_common_dir sh path of
        None \<Rightarrow> None
      | Some out \<Rightarrow> let t = py_strip out in
          if t = [] then None else gs_resolve sh (if py_startswith t ''/'' then t else path @ ''/'' @ t))"

definition git_worktree_root :: "git_shell \<Rightarrow> string \<Rightarrow> string option" where
  "git_worktree_root sh path =
     (case gs_toplevel sh path of
        None \<Rightarrow> None | Some out \<Rightarrow> let t = py_strip out in if t = [] then None else gs_resolve sh t)"

fun worktree_roots :: "git_shell \<Rightarrow> string list \<Rightarrow> string list option" where
  "worktree_roots sh [] = Some []"
| "worktree_roots sh (line # ls) =
     (if \<not> py_startswith line ''worktree '' then worktree_roots sh ls
      else let raw = py_strip (drop 9 line) in
        if raw = [] then None
        else case gs_resolve sh raw of None \<Rightarrow> None | Some p \<Rightarrow> map_option (Cons p) (worktree_roots sh ls))"

definition registered_worktree_roots :: "git_shell \<Rightarrow> string \<Rightarrow> string list option" where
  "registered_worktree_roots sh repo =
     (case gs_worktree_list sh repo of
        None \<Rightarrow> None
      | Some out \<Rightarrow>
          (case worktree_roots sh (py_split_on py_linebreak out) of
             None \<Rightarrow> None | Some roots \<Rightarrow> if roots = [] then None else Some roots))"

definition verified_worktree_root :: "git_shell \<Rightarrow> string \<Rightarrow> string \<Rightarrow> string option" where
  "verified_worktree_root sh repo candidate =
     (case gs_resolve sh candidate of
        None \<Rightarrow> None
      | Some resolved \<Rightarrow>
          if \<not> gs_is_dir sh resolved then None
          else if git_common_dir sh repo = None then None
          else if git_common_dir sh resolved \<noteq> git_common_dir sh repo then None
          else if git_worktree_root sh resolved \<noteq> Some resolved then None
          else (case registered_worktree_roots sh repo of
              None \<Rightarrow> None | Some roots \<Rightarrow> if resolved \<in> set roots then Some resolved else None))"

section \<open>Decimal text reads back\<close>

lemma digit_char_code: "0 \<le> d \<Longrightarrow> d < 10 \<Longrightarrow> chr_code (digit_char d) = (48 + nat d :: nat)"
  by (simp add: digit_char_def of_char_of)

lemma decimal_value_append: "decimal_value (s @ [c]) = decimal_value s * 10 + (int (chr_code c) - 48)"
  by (simp add: decimal_value_def)

lemma ascii_digit: "0 \<le> d \<Longrightarrow> d < 10 \<Longrightarrow> chr_code (digit_char d) < (128 :: nat) \<and> py_isdigit (digit_char d)"
  by (simp add: digit_char_code py_isdigit_def Let_def) linarith

lemma nat_text_reads: "decimal_value (nat_text n) = int n \<and> ascii_decimal (nat_text n)"
proof (induction n rule: nat_text.induct)
  case (1 n)
  show ?case
  proof (cases "n < 10")
    case True
    then show ?thesis
      using ascii_digit [of "int n"] by (simp add: nat_text.simps [of n] decimal_value_def ascii_decimal_def digit_char_code)
  next
    case False
    have "0 \<le> int (n mod 10)" "int (n mod 10) < 10" by simp_all
    with 1 [OF False] False ascii_digit [of "int (n mod 10)"] show ?thesis
      by (simp add: nat_text.simps [of n] decimal_value_append ascii_decimal_def digit_char_code) presburger
  qed
qed

lemma split_no_underscore: "list_all (\<lambda>c. c \<noteq> CHR ''_'') s \<Longrightarrow> py_split_on (\<lambda>c. c = CHR ''_'') s = [s]"
  by (induction s) auto

lemma digit_plain:
  assumes "py_isdigit c"
  shows "\<not> py_isspace c" "c \<noteq> CHR ''_''" "c \<noteq> CHR ''-''" "c \<noteq> CHR ''+''"
  using assms by (auto simp: py_isdigit_def py_isspace_def Let_def)

lemma ascii_decimal_strip:
  assumes "ascii_decimal s"
  shows "py_strip s = s"
proof -
  have "s \<noteq> []" "\<not> py_isspace (hd s)" "\<not> py_isspace (last s)"
    using assms digit_plain(1) by (auto simp: ascii_decimal_def list_all_iff)
  then show ?thesis by (rule py_strip_id)
qed

lemma py_int_decimal:
  assumes "ascii_decimal s"
  shows "py_int s = Some (decimal_value s)"
proof -
  have "s \<noteq> []" and d: "list_all py_isdigit s" using assms by (auto simp: ascii_decimal_def list_all_iff)
  then obtain c t where s: "s = c # t" by (cases s) auto
  have "list_all (\<lambda>c. c \<noteq> CHR ''_'') s" using d digit_plain(2) by (auto simp: list_all_iff)
  moreover have "c \<noteq> CHR ''-''" "c \<noteq> CHR ''+''" using d s digit_plain(3,4) by auto
  ultimately show ?thesis
    using assms s by (simp add: py_int_def Let_def ascii_decimal_strip split_no_underscore py_startswith_def)
qed

lemma py_int_text [simp]: "0 \<le> i \<Longrightarrow> py_int (int_text i) = Some i"
  using nat_text_reads [of "nat i"] by (simp add: int_text_def py_int_decimal)

lemma int_text_inject: "0 \<le> i \<Longrightarrow> 0 \<le> j \<Longrightarrow> int_text i = int_text j \<longleftrightarrow> i = j"
  by (metis py_int_text option.inject)

section \<open>What the listing sees\<close>

definition engine_refs :: "git_repo \<Rightarrow> string \<Rightarrow> bool" where
  \<comment> \<open>the checkpoint namespace of the job holds only what the engine writes there\<close>
  "engine_refs g job \<longleftrightarrow>
     job_id_exact job \<and> distinct (map fst (gr_refs g)) \<and>
     (\<forall>(name, r) \<in> set (gr_refs g). py_startswith name (checkpoint_dir job) \<longrightarrow>
        (\<exists>i sha. name = checkpoint_ref_name job i \<and> 0 \<le> i \<and> i \<le> MAX_CHECKPOINT_INDEX \<and> r = Direct sha \<and>
                 sha_ok sha \<and> sha \<in> set (gr_commits g)))"

lemma collect_refs_exact:
  assumes "distinct (map fst refs)"
    "\<forall>(name, r) \<in> set refs. py_startswith name pat \<longrightarrow>
       (\<exists>i sha. name = pat @ int_text i \<and> 0 \<le> i \<and> i \<le> MAX_CHECKPOINT_INDEX \<and> r = Direct sha \<and> sha_ok sha)"
  shows "\<exists>out'. collect_refs all pat refs out = Some out' \<and>
    (\<forall>i s. 0 \<le> i \<longrightarrow> (dict_get out' i = Some s \<longleftrightarrow>
       (pat @ int_text i, Direct s) \<in> set refs \<or> (pat @ int_text i \<notin> fst ` set refs \<and> dict_get out i = Some s))) \<and>
    (\<forall>i. i < 0 \<longrightarrow> dict_get out' i = dict_get out i) \<and> (distinct (map fst out) \<longrightarrow> distinct (map fst out'))"
  using assms
proof (induction refs arbitrary: out)
  case (Cons e rest)
  obtain name r where e: "e = (name, r)" by fastforce
  have rest: "distinct (map fst rest)" "\<forall>(name, r) \<in> set rest. py_startswith name pat \<longrightarrow>
       (\<exists>i sha. name = pat @ int_text i \<and> 0 \<le> i \<and> i \<le> MAX_CHECKPOINT_INDEX \<and> r = Direct sha \<and> sha_ok sha)"
    using Cons.prems by auto
  show ?case
  proof (cases "py_startswith name pat")
    case False
    then have "pat @ int_text i \<noteq> name" for i by (auto simp: py_text)
    with Cons.IH [OF rest, of out] False show ?thesis by (simp add: e)
  next
    case True
    then obtain j sha where j: "name = pat @ int_text j" "0 \<le> j" "j \<le> MAX_CHECKPOINT_INDEX" "r = Direct sha" "sha_ok sha"
      using Cons.prems(2) e by auto
    have fresh: "pat @ int_text j \<notin> fst ` set rest" using Cons.prems(1) j(1) e by force
    obtain out' where out': "collect_refs all pat rest (dict_set out j sha) = Some out'"
      "\<forall>i s. 0 \<le> i \<longrightarrow> (dict_get out' i = Some s \<longleftrightarrow> (pat @ int_text i, Direct s) \<in> set rest \<or>
         (pat @ int_text i \<notin> fst ` set rest \<and> dict_get (dict_set out j sha) i = Some s))"
      "\<forall>i. i < 0 \<longrightarrow> dict_get out' i = dict_get (dict_set out j sha) i"
      "distinct (map fst (dict_set out j sha)) \<longrightarrow> distinct (map fst out')"
      using Cons.IH [OF rest, of "dict_set out j sha"] by blast
    have "dict_get out' i = Some s \<longleftrightarrow> (pat @ int_text i, Direct s) \<in> set (e # rest) \<or>
         (pat @ int_text i \<notin> fst ` set (e # rest) \<and> dict_get out i = Some s)" if "0 \<le> i" for i s
      using out'(2) that fresh j e int_text_inject [OF that j(2)] by (cases "i = j") (force simp: image_iff)+
    with out'(1,3,4) True j show ?thesis by (simp add: e distinct_dict_set)
  qed
qed simp

lemma listing_exact:
  assumes "engine_refs g job"
  shows "\<exists>ex. list_checkpoint_refs g job = Some ex \<and> distinct (map fst ex) \<and>
    (\<forall>i s. dict_get ex i = Some s \<longleftrightarrow> 0 \<le> i \<and> dict_get (gr_refs g) (checkpoint_ref_name job i) = Some (Direct s))"
proof -
  let ?refs = "sort_key fst (gr_refs g)"
  have "\<forall>(name, r) \<in> set ?refs. py_startswith name (checkpoint_dir job) \<longrightarrow>
       (\<exists>i sha. name = checkpoint_dir job @ int_text i \<and> 0 \<le> i \<and> i \<le> MAX_CHECKPOINT_INDEX \<and> r = Direct sha \<and> sha_ok sha)"
    using assms by (fastforce simp: engine_refs_def checkpoint_ref_name_def)
  moreover have "distinct (map fst ?refs)"
    using assms by (simp add: engine_refs_def distinct_map)
  ultimately obtain ex where ex: "collect_refs (gr_refs g) (checkpoint_dir job) ?refs [] = Some ex"
    "\<forall>i s. 0 \<le> i \<longrightarrow> (dict_get ex i = Some s \<longleftrightarrow> (checkpoint_dir job @ int_text i, Direct s) \<in> set ?refs \<or>
       (checkpoint_dir job @ int_text i \<notin> fst ` set ?refs \<and> dict_get ([] :: (int \<times> string) list) i = Some s))"
    "\<forall>i. i < 0 \<longrightarrow> dict_get ex i = dict_get [] i" "distinct (map fst ex)"
    using collect_refs_exact [of ?refs "checkpoint_dir job" "gr_refs g" "[]"] by auto
  have "distinct (map fst (gr_refs g))" using assms by (simp add: engine_refs_def)
  then have "(n, v) \<in> set (gr_refs g) \<longleftrightarrow> dict_get (gr_refs g) n = Some v" for n v
    by (simp add: dict_get_map_of)
  with ex have "dict_get ex i = Some s \<longleftrightarrow> 0 \<le> i \<and> dict_get (gr_refs g) (checkpoint_ref_name job i) = Some (Direct s)" for i s
    by (cases "0 \<le> i") (auto simp: checkpoint_ref_name_def)
  moreover have "job_id_re job" using assms by (simp add: engine_refs_def job_id_re_def)
  ultimately show ?thesis using ex(1,4) by (simp add: list_checkpoint_refs_def)
qed

lemma listing_member:
  assumes "engine_refs g job" "list_checkpoint_refs g job = Some ex"
  shows "(i, s) \<in> set ex \<longleftrightarrow> 0 \<le> i \<and> dict_get (gr_refs g) (checkpoint_ref_name job i) = Some (Direct s)"
  using listing_exact [OF assms(1)] assms(2) by (auto simp: dict_get_map_of)

section \<open>Anchoring\<close>

lemma engine_direct:
  assumes "engine_refs g job" "0 \<le> i" "dict_get (gr_refs g) (checkpoint_ref_name job i) = Some (Direct s)"
  shows "i \<le> MAX_CHECKPOINT_INDEX" "sha_ok s" "s \<in> set (gr_commits g)"
proof -
  have "(checkpoint_ref_name job i, Direct s) \<in> set (gr_refs g)" using assms(3) by (rule dict_get_Some_in)
  moreover have "py_startswith (checkpoint_ref_name job i) (checkpoint_dir job)" by (simp add: py_text checkpoint_ref_name_def)
  ultimately obtain j where "checkpoint_ref_name job i = checkpoint_ref_name job j" "0 \<le> j" "j \<le> MAX_CHECKPOINT_INDEX"
    "sha_ok s" "s \<in> set (gr_commits g)"
    using assms(1) by (fastforce simp: engine_refs_def)
  then show "i \<le> MAX_CHECKPOINT_INDEX" "sha_ok s" "s \<in> set (gr_commits g)"
    using int_text_inject [OF assms(2), of j] by (simp_all add: checkpoint_ref_name_def)
qed

lemma reads_direct:
  assumes "engine_refs g job" "0 \<le> i" "dict_get (gr_refs g) (checkpoint_ref_name job i) = Some (Direct s)"
  shows "read_checkpoint_ref g job i = Some (Some s)"
  using engine_direct [OF assms] assms
  by (simp add: read_checkpoint_ref_def validate_checkpoint_ref_def checkpoint_ref_state_def engine_refs_def)

lemma dict_set_members: "(n, r) \<in> set (dict_set d k v) \<Longrightarrow> (n, r) \<in> set d \<or> (n = k \<and> r = v)"
  by (induction d k v rule: dict_set.induct) (auto split: if_splits)

lemma engine_refs_anchor:
  assumes "engine_refs g job" "0 \<le> i" "i \<le> MAX_CHECKPOINT_INDEX" "sha_ok sha" "sha \<in> set (gr_commits g)"
  shows "engine_refs (g\<lparr>gr_refs := dict_set (gr_refs g) (checkpoint_ref_name job i) (Direct sha)\<rparr>) job"
  using assms by (fastforce simp: engine_refs_def distinct_dict_set dest: dict_set_members)

lemma anchor_fresh:
  assumes "engine_refs g job" "list_checkpoint_refs g job = Some ex" "sha \<notin> snd ` set ex"
    "anchor_checkpoint_ref g job i sha = Some (ref, g')"
  shows "ref = checkpoint_ref_name job i \<and> 0 \<le> i \<and> i \<le> MAX_CHECKPOINT_INDEX \<and> sha_ok sha \<and> sha \<in> set (gr_commits g) \<and>
    dict_get (gr_refs g) ref = None \<and> g' = g\<lparr>gr_refs := dict_set (gr_refs g) ref (Direct sha)\<rparr>"
proof -
  from assms(4) have i: "ref = checkpoint_ref_name job i" "0 \<le> i" "i \<le> MAX_CHECKPOINT_INDEX" "sha_ok sha" "sha \<in> set (gr_commits g)"
    by (auto simp: anchor_checkpoint_ref_def validate_checkpoint_ref_def split: if_splits ref_state.splits option.splits)
  have "checkpoint_ref_state g ref \<noteq> Ref_direct sha"
    using assms(3) listing_member [OF assms(1,2), of i sha] i(1,2)
    by (force simp: checkpoint_ref_state_def split: option.splits git_ref.splits if_splits)
  with i assms(4) show ?thesis
    by (auto simp: anchor_checkpoint_ref_def validate_checkpoint_ref_def split: if_splits ref_state.splits option.splits)
qed

definition anchored_at :: "git_repo \<Rightarrow> string \<Rightarrow> string \<Rightarrow> int \<Rightarrow> string \<Rightarrow> git_repo \<Rightarrow> bool" where
  \<comment> \<open>the sha is read back under the ref, no other ref changed, and asking again changes nothing\<close>
  "anchored_at g job ref i sha g' \<longleftrightarrow>
     ref = checkpoint_ref_name job i \<and> 0 \<le> i \<and> i \<le> MAX_CHECKPOINT_INDEX \<and>
     read_checkpoint_ref g' job i = Some (Some sha) \<and>
     (\<forall>r v. dict_get (gr_refs g) r = Some v \<longrightarrow> dict_get (gr_refs g') r = Some v) \<and>
     (\<forall>r. r \<noteq> ref \<longrightarrow> dict_get (gr_refs g') r = dict_get (gr_refs g) r) \<and>
     gr_commits g' = gr_commits g \<and> gr_worktrees g' = gr_worktrees g \<and> engine_refs g' job \<and>
     anchor_verified_ref g' job sha = Some ((ref, i), g')"

lemma find_sorted_member:
  "find P (sort_key f xs) = Some x \<Longrightarrow> x \<in> set xs \<and> P x"
  "find P (sort_key f xs) = None \<Longrightarrow> y \<in> set xs \<Longrightarrow> \<not> P y"
  by (auto simp: find_None_iff dest!: find_SomeD)

lemma fresh_listing:
  assumes "engine_refs g job" "engine_refs g' job" "list_checkpoint_refs g job = Some ex" "list_checkpoint_refs g' job = Some ex'"
    "sha \<notin> snd ` set ex" "g' = g\<lparr>gr_refs := dict_set (gr_refs g) (checkpoint_ref_name job i) (Direct sha)\<rparr>" "0 \<le> i"
  shows "(k, sha) \<in> set ex' \<longleftrightarrow> k = i"
proof -
  have got: "dict_get (gr_refs g') r = (if r = checkpoint_ref_name job i then Some (Direct sha) else dict_get (gr_refs g) r)" for r
    by (simp add: assms(6))
  show ?thesis
  proof
    assume "(k, sha) \<in> set ex'"
    then have k: "0 \<le> k" "dict_get (gr_refs g') (checkpoint_ref_name job k) = Some (Direct sha)"
      using listing_member [OF assms(2,4)] by blast+
    moreover have "(k, sha) \<notin> set ex" using assms(5) by force
    ultimately have "checkpoint_ref_name job k = checkpoint_ref_name job i"
      using got listing_member [OF assms(1,3), of k sha] by (metis (mono_tags))
    then show "k = i" using k(1) assms(7) int_text_inject [of k i] by (simp add: checkpoint_ref_name_def)
  next
    assume "k = i"
    then show "(k, sha) \<in> set ex'" using listing_member [OF assms(2,4)] got assms(7) by simp
  qed
qed

lemma anchor_is_create_only_aux:
  assumes "engine_refs g job" "anchor_verified_ref g job sha = Some ((ref, i), g')"
  shows "anchored_at g job ref i sha g'"
proof -
  obtain ex where ex: "list_checkpoint_refs g job = Some ex" using listing_exact [OF assms(1)] by blast
  show ?thesis
  proof (cases "find (\<lambda>(i, s). s = sha) (sort_key fst ex)")
    case (Some e)
    obtain j s where e: "e = (j, s)" by fastforce
    then have *: "s = sha" "(j, sha) \<in> set ex" "g' = g" "ref = checkpoint_ref_name job j" "i = j"
      using find_sorted_member(1) [OF Some] assms(2) ex Some by (auto simp: anchor_verified_ref_def)
    then have "0 \<le> j" "dict_get (gr_refs g) (checkpoint_ref_name job j) = Some (Direct sha)"
      using listing_member [OF assms(1) ex] by auto
    with * assms reads_direct [OF assms(1)] engine_direct [OF assms(1)] show ?thesis by (simp add: anchored_at_def)
  next
    case None
    have fresh: "(k, s) \<in> set ex \<Longrightarrow> s \<noteq> sha" for k s using find_sorted_member(2) [OF None] by fastforce
    have a: "anchor_checkpoint_ref g job i sha = Some (ref, g')"
      using assms(2) ex None by (auto simp: anchor_verified_ref_def Let_def split: if_splits option.splits prod.splits)
    have nin: "sha \<notin> snd ` set ex" using fresh by force
    note new = anchor_fresh [OF assms(1) ex nin a]
    have i: "0 \<le> i" using new by blast
    from new have g': "g' = g\<lparr>gr_refs := dict_set (gr_refs g) (checkpoint_ref_name job i) (Direct sha)\<rparr>"
      and refs: "engine_refs g' job" using engine_refs_anchor [OF assms(1), of i sha] by simp_all
    obtain ex' where ex': "list_checkpoint_refs g' job = Some ex'" using listing_exact [OF refs] by blast
    have got: "dict_get (gr_refs g') r = (if r = checkpoint_ref_name job i then Some (Direct sha) else dict_get (gr_refs g) r)" for r
      by (simp add: g')
    have mem: "(k, sha) \<in> set ex' \<longleftrightarrow> k = i" for k
      by (rule fresh_listing [OF assms(1) refs ex ex' nin g' i])
    have "find (\<lambda>(i, s). s = sha) (sort_key fst ex') = Some (i, sha)"
    proof (cases "find (\<lambda>(i, s). s = sha) (sort_key fst ex')")
      case None
      then show ?thesis using find_sorted_member(2) [OF None, of "(i, sha)"] mem [of i] by auto
    next
      case (Some p)
      then show ?thesis using find_sorted_member(1) [OF Some] mem by (cases p) auto
    qed
    then have "anchor_verified_ref g' job sha = Some ((ref, i), g')"
      using ex' new by (simp add: anchor_verified_ref_def)
    moreover have "read_checkpoint_ref g' job i = Some (Some sha)"
      using reads_direct [OF refs, of i sha] got new by simp
    moreover have "gr_commits g' = gr_commits g" "gr_worktrees g' = gr_worktrees g" by (simp_all add: g')
    ultimately show ?thesis
      using new refs got unfolding anchored_at_def by (metis option.distinct(1))
  qed
qed

text \<open>Anchoring a checkpoint is create-only.  In a namespace that holds only engine refs, a
  successful anchor names a bounded ref of the job that reads back the very commit, leaves every
  other ref, commit and worktree as it was, and is repeated without any change.\<close>
theorem anchor_is_create_only:
  assumes "engine_refs g job" "anchor_verified_ref g job sha = Some ((ref, i), g')"
  shows "anchored_at g job ref i sha g'"
  by (rule anchor_is_create_only_aux [OF assms])

section \<open>Examples\<close>

definition sample_sha :: "char \<Rightarrow> string" where
  "sample_sha c = replicate 40 c"

definition sample_repo :: git_repo where
  "sample_repo = \<lparr>gr_commits = [sample_sha CHR ''a'', sample_sha CHR ''b''],
     gr_refs = [(''refs/heads/main'', Direct (sample_sha CHR ''a'')), (checkpoint_ref_name ''J1'' 0, Direct (sample_sha CHR ''a''))],
     gr_worktrees = []\<rparr>"

lemma sample_engine_refs: "engine_refs sample_repo ''J1''"
proof -
  have "job_id_exact ''J1''" "distinct (map fst (gr_refs sample_repo))" "sha_ok (sample_sha CHR ''a'')"
    "\<not> py_startswith ''refs/heads/main'' (checkpoint_dir ''J1'')" by code_simp+
  then show ?thesis
    by (auto simp: engine_refs_def sample_repo_def MAX_CHECKPOINT_INDEX_def intro!: exI [of _ "0 :: int"])
qed

theorem anchor_is_create_only_witness:
  "\<exists>g'. anchor_verified_ref sample_repo ''J1'' (sample_sha CHR ''b'') = Some ((checkpoint_ref_name ''J1'' 1, 1), g')
     \<and> anchored_at sample_repo ''J1'' (checkpoint_ref_name ''J1'' 1) 1 (sample_sha CHR ''b'') g'"
proof -
  have "map_option fst (anchor_verified_ref sample_repo ''J1'' (sample_sha CHR ''b'')) = Some (checkpoint_ref_name ''J1'' 1, 1)"
    by code_simp
  then obtain g' where "anchor_verified_ref sample_repo ''J1'' (sample_sha CHR ''b'') = Some ((checkpoint_ref_name ''J1'' 1, 1), g')"
    by auto
  with anchor_is_create_only [OF sample_engine_refs this] show ?thesis by blast
qed

end
