(* ===== verification/Preemption.thy ===== *)
theory Preemption
  imports Checkpoint_Refs
begin

text \<open>
  \<open>saberops/preemption.py\<close>, the evidence: the decision receipt and the prepared intent a preemption
  leaves behind as run events, their authentication against the durable state, and what counts as
  genuine quota exhaustion.  The state is the record \<open>pre_world\<close>: the job tables, the capacity
  tables, the run database and the repository of the job.  A call that raises is a \<open>call_site\<close> of
  \<open>pe_fails\<close>; it then raises every time during the operation.
\<close>

section \<open>State and surroundings\<close>

record pre_world =
  pw_jobs :: job_db
  pw_owner :: owner_db
  pw_runs :: run_db
  pw_git :: git_repo

datatype call_site =
    On_run | On_attempts | On_attempt | On_checkpoints | On_latest_checkpoint | On_checkpoint_by_sha
  | On_events string | On_record string | On_job | On_running_jobs | On_queued_jobs | On_all_jobs
  | On_owner | On_handoff | On_handoffs | On_stage | On_commit_exists | On_read_ref | On_list_refs | On_anchor
  | On_worktree | On_inspect | On_terminalize | On_update_run | On_requeue | On_fail_job | On_release

datatype commit_result = Commit_raises | Commit_unread string | Commit_made string
  \<comment> \<open>\<open>git commit\<close> fails, makes a commit whose id cannot be read, or makes a commit\<close>

record pre_env =
  pe_fails :: "call_site \<Rightarrow> bool"
  pe_shell :: git_shell
  pe_text :: "json \<Rightarrow> string"
    \<comment> \<open>\<open>str\<close> of a JSON value that is not a text\<close>
  pe_commit :: commit_result
  pe_now :: int
  pe_stamp :: string
    \<comment> \<open>\<open>current_iso_timestamp\<close>\<close>
  pe_full_id :: string
  pe_capsule_id :: string
  pe_full_content :: string
  pe_capsule_content :: string
  pe_checkpoint_id :: string

abbreviation QUOTA_EXHAUSTED :: string where "QUOTA_EXHAUSTED \<equiv> ''QUOTA_EXHAUSTED''"

abbreviation PREPARATION_EVENT :: string where "PREPARATION_EVENT \<equiv> ''preemption_preparing''"

abbreviation INTENT_EVENT :: string where "INTENT_EVENT \<equiv> ''preemption_committed''"

abbreviation RUN_PREEMPTED_EVENT :: string where "RUN_PREEMPTED_EVENT \<equiv> ''run_preempted''"

definition DEFAULT_MAX_PREEMPTIONS :: int where "DEFAULT_MAX_PREEMPTIONS = 5"

definition DECISION_VERSION :: int where "DECISION_VERSION = 1"

definition INTENT_VERSION :: int where "INTENT_VERSION = 2"

section \<open>Reading the run database\<close>

definition attempt_status_value :: "attempt_status \<Rightarrow> string" where
  "attempt_status_value st =
     (case st of At_pending \<Rightarrow> ''PENDING'' | At_running \<Rightarrow> ''RUNNING'' | At_success \<Rightarrow> ''SUCCESS''
      | At_failed \<Rightarrow> ''FAILED'' | At_timeout \<Rightarrow> ''TIMEOUT'')"

definition read_attempts :: "pre_env \<Rightarrow> string \<Rightarrow> pre_world \<Rightarrow> attempt_row list option" where
  "read_attempts env run w = (if pe_fails env On_attempts then None else Some (get_attempts_for_run run (pw_runs w)))"

definition attempts_or_none :: "pre_env \<Rightarrow> string \<Rightarrow> pre_world \<Rightarrow> attempt_row list" where
  "attempts_or_none env run w = (case read_attempts env run w of None \<Rightarrow> [] | Some as \<Rightarrow> as)"

definition attempt_snapshot :: "pre_env \<Rightarrow> string \<Rightarrow> pre_world \<Rightarrow> string list \<times> string list" where
  "attempt_snapshot env run w =
     (map at_id (attempts_or_none env run w), map (attempt_status_value \<circ> at_status) (attempts_or_none env run w))"

definition event_payloads :: "pre_env \<Rightarrow> string \<Rightarrow> string \<Rightarrow> pre_world \<Rightarrow> (string \<times> json) list list" where
  "event_payloads env run ev w =
     (if pe_fails env (On_events ev) then []
      else map (\<lambda>e. case rv_payload e of None \<Rightarrow> [] | Some d \<Rightarrow> d) (get_events_by_type run ev (pw_runs w)))"

definition payload_for :: "pre_env \<Rightarrow> string \<Rightarrow> string \<Rightarrow> string \<Rightarrow> pre_world \<Rightarrow> (string \<times> json) list option" where
  "payload_for env run ev job w = find (\<lambda>d. json_get d ''job_id'' = JStr job) (event_payloads env run ev w)"

definition decision_payload :: "pre_env \<Rightarrow> string \<Rightarrow> string \<Rightarrow> pre_world \<Rightarrow> (string \<times> json) list option" where
  "decision_payload env run job w = payload_for env run PREPARATION_EVENT job w"

definition intent_payload :: "pre_env \<Rightarrow> string \<Rightarrow> string \<Rightarrow> pre_world \<Rightarrow> (string \<times> json) list option" where
  "intent_payload env run job w = payload_for env run INTENT_EVENT job w"

definition log_event :: "pre_env \<Rightarrow> string \<Rightarrow> string \<Rightarrow> (string \<times> json) list \<Rightarrow> pre_world \<Rightarrow> pre_world option" where
  \<comment> \<open>\<open>db.record_event\<close>; \<open>None\<close> when it raises\<close>
  "log_event env run ev payload w =
     (if pe_fails env (On_record ev) then None
      else map_option (\<lambda>r. w\<lparr>pw_runs := r\<rparr>) (record_event run ev (Some payload) (pe_stamp env) (pw_runs w)))"

definition try_log :: "pre_env \<Rightarrow> string \<Rightarrow> string \<Rightarrow> (string \<times> json) list \<Rightarrow> pre_world \<Rightarrow> pre_world" where
  "try_log env run ev payload w = (case log_event env run ev payload w of None \<Rightarrow> w | Some w' \<Rightarrow> w')"

section \<open>Python conversions of JSON values\<close>

definition json_text :: "(json \<Rightarrow> string) \<Rightarrow> json \<Rightarrow> string" where
  "json_text text v = (case v of JStr s \<Rightarrow> s | _ \<Rightarrow> text v)"

definition json_int :: "json \<Rightarrow> int option" where
  \<comment> \<open>\<open>int(v)\<close>; \<open>None\<close> is \<open>TypeError\<close> or \<open>ValueError\<close>\<close>
  "json_int v =
     (case v of JInt i \<Rightarrow> Some i | JBool b \<Rightarrow> Some (if b then 1 else 0)
      | JFloat r \<Rightarrow> Some (if r < 0 then - \<lfloor>- r\<rfloor> else \<lfloor>r\<rfloor>) | JStr s \<Rightarrow> py_int s | _ \<Rightarrow> None)"

definition json_nonempty_text :: "json \<Rightarrow> string option" where
  \<comment> \<open>\<open>v if isinstance(v, str) and v else None\<close>\<close>
  "json_nonempty_text v = (case v of JStr s \<Rightarrow> if s = [] then None else Some s | _ \<Rightarrow> None)"

definition json_only_int :: "json \<Rightarrow> int option" where
  \<comment> \<open>\<open>int(v) if isinstance(v, int) else None\<close>\<close>
  "json_only_int v = (case v of JInt i \<Rightarrow> Some i | JBool b \<Rightarrow> Some (if b then 1 else 0) | _ \<Rightarrow> None)"

definition json_texts :: "(json \<Rightarrow> string) \<Rightarrow> json \<Rightarrow> string list" where
  "json_texts text v = (case v of JList vs \<Rightarrow> map (json_text text) vs | _ \<Rightarrow> [])"

section \<open>The decision receipt\<close>

record preemption_decision =
  pd_run_id :: string
  pd_job_id :: string
  pd_before :: int
  pd_base_sha :: string
  pd_repo :: string
  pd_attempt_ids :: "string list"
  pd_attempt_states :: "string list"
  pd_owner_id :: "string option"
  pd_owner_generation :: "int option"
  pd_decision_ref :: "string option"
  pd_version :: int

definition json_of_opt_int :: "int option \<Rightarrow> json" where
  "json_of_opt_int v = (case v of None \<Rightarrow> JNull | Some i \<Rightarrow> JInt i)"

definition decision_to_payload :: "preemption_decision \<Rightarrow> (string \<times> json) list" where
  "decision_to_payload d =
     [(''version'', JInt (pd_version d)), (''run_id'', JStr (pd_run_id d)), (''job_id'', JStr (pd_job_id d)),
      (''preemptions_before'', JInt (pd_before d)), (''base_sha'', JStr (pd_base_sha d)), (''repo'', JStr (pd_repo d)),
      (''source_attempt_ids'', JList (map JStr (pd_attempt_ids d))),
      (''source_attempt_states'', JList (map JStr (pd_attempt_states d))),
      (''owner_id'', json_of_opt (pd_owner_id d)), (''owner_generation'', json_of_opt_int (pd_owner_generation d)),
      (''decision_ref'', json_of_opt (pd_decision_ref d))]"

definition decision_from_payload ::
  "(json \<Rightarrow> string) \<Rightarrow> (string \<times> json) list \<Rightarrow> py_error + preemption_decision option" where
  \<comment> \<open>the version is converted outside the \<open>try\<close>, so a malformed one raises\<close>
  "decision_from_payload text p =
     (case (dict_get p ''run_id'', dict_get p ''job_id'', dict_get p ''preemptions_before'',
            dict_get p ''base_sha'', dict_get p ''repo'') of
        (Some run_v, Some job_v, Some before_v, Some base_v, Some repo_v) \<Rightarrow>
          (case json_int before_v of
             None \<Rightarrow> Inr None
           | Some before \<Rightarrow>
               let run = json_text text run_v; job = json_text text job_v in
               if run = [] \<or> job = [] \<or> before < 0 then Inr None
               else let v = json_get p ''version'' in
                 (case (if json_truthy v then json_int v else Some 1) of
                    None \<Rightarrow> Inl (ValueError ''invalid literal for int()'')
                  | Some version \<Rightarrow>
                      Inr (Some \<lparr>pd_run_id = run, pd_job_id = job, pd_before = before, pd_base_sha = json_text text base_v,
                                pd_repo = json_text text repo_v,
                                pd_attempt_ids = json_texts text (json_get p ''source_attempt_ids''),
                                pd_attempt_states = json_texts text (json_get p ''source_attempt_states''),
                                pd_owner_id = json_nonempty_text (json_get p ''owner_id''),
                                pd_owner_generation = json_only_int (json_get p ''owner_generation''),
                                pd_decision_ref = json_nonempty_text (json_get p ''decision_ref''),
                                pd_version = version\<rparr>)))
      | _ \<Rightarrow> Inr None)"

definition build_preemption_decision ::
  "pre_env \<Rightarrow> string \<Rightarrow> job \<Rightarrow> string option \<Rightarrow> int option \<Rightarrow> string option \<Rightarrow> pre_world \<Rightarrow> preemption_decision" where
  "build_preemption_decision env run j owner generation decision_ref w =
     \<lparr>pd_run_id = run, pd_job_id = job_id j, pd_before = job_preemptions j, pd_base_sha = job_base_sha j,
      pd_repo = job_repo j, pd_attempt_ids = fst (attempt_snapshot env run w),
      pd_attempt_states = snd (attempt_snapshot env run w), pd_owner_id = owner, pd_owner_generation = generation,
      pd_decision_ref = decision_ref, pd_version = DECISION_VERSION\<rparr>"

definition record_preparation_decision :: "pre_env \<Rightarrow> preemption_decision \<Rightarrow> pre_world \<Rightarrow> bool \<times> pre_world" where
  "record_preparation_decision env d w =
     (if decision_payload env (pd_run_id d) (pd_job_id d) w \<noteq> None then (False, w)
      else case log_event env (pd_run_id d) PREPARATION_EVENT (decision_to_payload d) w of
        None \<Rightarrow> (False, w) | Some w' \<Rightarrow> (True, w'))"

section \<open>Prepared artifacts\<close>

record prepared_artifacts =
  ar_checkpoint_sha :: string
  ar_checkpoint_ref :: string
  ar_handoff_id :: string
  ar_not_before :: "string option"
  ar_preemptions_next :: "int option"

definition parse_checkpoint_ref :: "string \<Rightarrow> string \<Rightarrow> py_error + int option" where
  \<comment> \<open>\<open>isdigit\<close> also accepts superscripts, which \<open>int\<close> refuses\<close>
  "parse_checkpoint_ref ref job =
     (if \<not> py_startswith ref (checkpoint_dir job) then Inr None
      else let suffix = drop (length (checkpoint_dir job)) ref in
        if suffix = [] \<or> \<not> list_all py_isdigit suffix then Inr None
        else case py_int suffix of
          None \<Rightarrow> Inl (ValueError ''invalid literal for int()'')
        | Some i \<Rightarrow> Inr (if 0 \<le> i \<and> i \<le> MAX_CHECKPOINT_INDEX then Some i else None))"

definition commit_known :: "pre_env \<Rightarrow> string \<Rightarrow> pre_world \<Rightarrow> bool option" where
  \<comment> \<open>\<open>GitManager.commit_exists\<close>; \<open>None\<close> when it raises\<close>
  "commit_known env sha w = (if pe_fails env On_commit_exists then None else commit_exists (pw_git w) sha)"

definition verify_prepared_artifacts ::
  "pre_env \<Rightarrow> string \<Rightarrow> job \<Rightarrow> (string \<times> json) list \<Rightarrow> int \<Rightarrow> pre_world \<Rightarrow> py_error + string + prepared_artifacts" where
  \<comment> \<open>\<open>Inr (Inl detail)\<close> is \<open>(None, detail)\<close>\<close>
  "verify_prepared_artifacts env run j p before w =
     (case (json_nonempty_text (json_get p ''checkpoint_sha''), json_nonempty_text (json_get p ''checkpoint_ref''),
            json_nonempty_text (json_get p ''handoff_id'')) of
        (None, _, _) \<Rightarrow> Inr (Inl ''missing_sha'')
      | (Some sha, None, _) \<Rightarrow> Inr (Inl ''missing_ref'')
      | (Some sha, Some ref, None) \<Rightarrow> Inr (Inl ''missing_handoff'')
      | (Some sha, Some ref, Some handoff) \<Rightarrow>
          if commit_known env sha w \<noteq> Some True then Inr (Inl ''unreachable_sha'')
          else case parse_checkpoint_ref ref (job_id j) of
            Inl e \<Rightarrow> Inl e
          | Inr None \<Rightarrow> Inr (Inl ''malformed_ref'')
          | Inr (Some index) \<Rightarrow>
              if pe_fails env On_read_ref then Inr (Inl ''ref_read_failed'')
              else case read_checkpoint_ref (pw_git w) (job_id j) index of
                None \<Rightarrow> Inr (Inl ''symbolic_ref'')
              | Some anchored \<Rightarrow>
                  if anchored \<noteq> Some sha then Inr (Inl ''ref_mismatch'')
                  else if pe_fails env On_handoff then Inr (Inl ''handoff_read_failed'')
                  else if (case get_handoff handoff (pw_runs w) of None \<Rightarrow> True | Some h \<Rightarrow> ho_run_id h \<noteq> run)
                  then Inr (Inl ''handoff_mismatch'')
                  else let next_v = json_get p ''preemptions_next'' in
                    if next_v \<noteq> JNull \<and> json_int next_v = None then Inr (Inl ''malformed_count'')
                    else if next_v \<noteq> JNull \<and> json_int next_v \<noteq> Some (before + 1) then Inr (Inl ''count_mismatch'')
                    else Inr (Inr \<lparr>ar_checkpoint_sha = sha, ar_checkpoint_ref = ref, ar_handoff_id = handoff,
                                  ar_not_before = json_nonempty_text (json_get p ''not_before''),
                                  ar_preemptions_next = (if next_v = JNull then None else json_int next_v)\<rparr>))"

section \<open>Authentication\<close>

definition decision_owner_binding :: "pre_env \<Rightarrow> string \<Rightarrow> preemption_decision \<Rightarrow> pre_world \<Rightarrow> string option" where
  \<comment> \<open>\<open>None\<close> is \<open>(True, "ok")\<close>, a detail is \<open>(False, detail)\<close>\<close>
  "decision_owner_binding env run d w =
     (case (pd_owner_id d, pd_owner_generation d) of
        (Some owner, Some generation) \<Rightarrow>
          if pe_fails env On_owner then Some ''owner_unreadable''
          else (case get_execution_owner run (pw_runs w) of
              None \<Rightarrow> Some ''owner_missing''
            | Some ow \<Rightarrow>
                if eo_owner_id ow \<noteq> owner then Some ''owner_id_mismatch''
                else if eo_generation ow \<noteq> generation then Some ''owner_generation_mismatch''
                else None)
      | _ \<Rightarrow> Some ''owner_unbound'')"

definition authenticate_decision ::
  "pre_env \<Rightarrow> string \<Rightarrow> job \<Rightarrow> preemption_decision \<Rightarrow> int \<Rightarrow> pre_world \<Rightarrow> string option" where
  "authenticate_decision env run j d before w =
     (if pd_run_id d \<noteq> run \<or> pd_job_id d \<noteq> job_id j then Some ''decision_mismatched''
      else if pd_version d < DECISION_VERSION then Some ''decision_version''
      else if \<not> truthy (pd_decision_ref d) then Some ''decision_ref_missing''
      else if pd_repo d \<noteq> job_repo j then Some ''decision_repo_mismatch''
      else if pd_base_sha d \<noteq> job_base_sha j then Some ''decision_base_mismatch''
      else if pd_before d \<noteq> before then Some ''decision_count''
      else if pd_attempt_ids d \<noteq> fst (attempt_snapshot env run w) then Some ''decision_source_attempts_changed''
      else if pd_attempt_states d \<noteq> snd (attempt_snapshot env run w) then Some ''decision_source_states_changed''
      else decision_owner_binding env run d w)"

definition intent_matches_decision :: "(string \<times> json) list \<Rightarrow> preemption_decision \<Rightarrow> string option" where
  "intent_matches_decision p d =
     (case json_int (json_get_or p ''preemptions_before'' (JInt (- 1))) of
        None \<Rightarrow> Some ''intent_count_malformed''
      | Some before \<Rightarrow>
          if before \<noteq> pd_before d then Some ''intent_count_mismatch''
          else if json_nonempty_text (json_get p ''owner_id'') \<noteq> pd_owner_id d \<or>
                  json_only_int (json_get p ''owner_generation'') \<noteq> pd_owner_generation d
          then Some ''intent_owner_mismatch'' else None)"

record authenticated_transaction =
  tx_ok :: bool
  tx_detail :: string
  tx_decision :: "preemption_decision option"
  tx_artifacts :: "prepared_artifacts option"

definition tx_refused :: "string \<Rightarrow> preemption_decision option \<Rightarrow> authenticated_transaction" where
  "tx_refused detail d = \<lparr>tx_ok = False, tx_detail = detail, tx_decision = d, tx_artifacts = None\<rparr>"

definition authenticate_prepared_transaction ::
  "pre_env \<Rightarrow> string \<Rightarrow> job \<Rightarrow> int \<Rightarrow> pre_world \<Rightarrow> py_error + authenticated_transaction" where
  "authenticate_prepared_transaction env run j before w =
     (let intent = intent_payload env run (job_id j) w in
      case decision_payload env run (job_id j) w of
        None \<Rightarrow> Inr (tx_refused (if intent \<noteq> None then ''legacy_intent_without_decision'' else ''decision_missing'') None)
      | Some raw \<Rightarrow>
          (case decision_from_payload (pe_text env) raw of
             Inl e \<Rightarrow> Inl e
           | Inr None \<Rightarrow> Inr (tx_refused ''decision_malformed'' None)
           | Inr (Some d) \<Rightarrow>
               (case authenticate_decision env run j d before w of
                  Some detail \<Rightarrow> Inr (tx_refused (''decision_unauthenticated:'' @ detail) (Some d))
                | None \<Rightarrow>
                    (case intent of
                       None \<Rightarrow> Inr \<lparr>tx_ok = True, tx_detail = ''decision_authenticated'', tx_decision = Some d, tx_artifacts = None\<rparr>
                     | Some p \<Rightarrow>
                         (case verify_prepared_artifacts env run j p before w of
                            Inl e \<Rightarrow> Inl e
                          | Inr (Inl detail) \<Rightarrow> Inr (tx_refused (''intent_unverified:'' @ detail) (Some d))
                          | Inr (Inr artifacts) \<Rightarrow>
                              (case intent_matches_decision p d of
                                 Some detail \<Rightarrow> Inr (tx_refused detail (Some d))
                               | None \<Rightarrow> Inr \<lparr>tx_ok = True, tx_detail = ''transaction_authenticated'', tx_decision = Some d,
                                            tx_artifacts = Some artifacts\<rparr>))))))"

datatype transaction_state = Tx_none | Tx_preparing | Tx_prepared | Tx_blocked

definition classify_preemption_transaction ::
  "pre_env \<Rightarrow> string \<Rightarrow> job \<Rightarrow> pre_world \<Rightarrow> py_error + transaction_state \<times> authenticated_transaction" where
  "classify_preemption_transaction env run j w =
     (case authenticate_prepared_transaction env run j (job_preemptions j) w of
        Inl e \<Rightarrow> Inl e
      | Inr tx \<Rightarrow>
          Inr (if tx_ok tx then (if tx_artifacts tx \<noteq> None then Tx_prepared else Tx_preparing)
               else if tx_detail tx = ''decision_missing'' then Tx_none else Tx_blocked, tx))"

section \<open>Jobs of a run\<close>

definition find_job_for_run :: "pre_env \<Rightarrow> string \<Rightarrow> pre_world \<Rightarrow> job option option" where
  \<comment> \<open>the outer \<open>None\<close> when the listing raises\<close>
  "find_job_for_run env run w =
     (if run = [] then Some None
      else if pe_fails env On_running_jobs then None
      else case list_jobs_raw (Some RUNNING) job_scan_limit (pw_jobs w) of
        Inl e \<Rightarrow> None | Inr js \<Rightarrow> Some (find (\<lambda>j. job_current_run_id j = Some run) js))"

definition resumes_from :: "string \<Rightarrow> job \<Rightarrow> bool" where
  "resumes_from run j \<longleftrightarrow> (case job_resume_from j of None \<Rightarrow> False | Some r \<Rightarrow> rf_run_id r = run)"

definition find_preempted_job_for_run :: "pre_env \<Rightarrow> string \<Rightarrow> pre_world \<Rightarrow> job option option" where
  "find_preempted_job_for_run env run w =
     (if run = [] then Some None
      else if pe_fails env On_queued_jobs then None
      else case list_jobs_raw (Some QUEUED) job_scan_limit (pw_jobs w) of
        Inl e \<Rightarrow> None
      | Inr js \<Rightarrow> Some (find (\<lambda>j. job_waiting_reason j = Some PREEMPTED \<and> resumes_from run j) js))"

definition find_any_job_for_run :: "pre_env \<Rightarrow> string \<Rightarrow> pre_world \<Rightarrow> job option" where
  "find_any_job_for_run env run w =
     (if run = [] \<or> pe_fails env On_all_jobs then None
      else case list_jobs_raw None job_scan_limit (pw_jobs w) of
        Inl e \<Rightarrow> None
      | Inr js \<Rightarrow>
          (case find (\<lambda>j. job_current_run_id j = Some run) js of
             Some j \<Rightarrow> Some j
           | None \<Rightarrow>
               (case find (\<lambda>j. job_waiting_reason j = Some PREEMPTED \<and> resumes_from run j) js of
                  Some j \<Rightarrow> Some j
                | None \<Rightarrow> find (\<lambda>j. run \<in> set (job_run_ids j)) js)))"

section \<open>The quota evidence\<close>

definition quota_interrupted :: "attempt_row \<Rightarrow> bool" where
  "quota_interrupted a \<longleftrightarrow> at_interruption a = Some QUOTA_EXHAUSTED"

definition has_genuine_quota_signal :: "pre_env \<Rightarrow> string \<Rightarrow> pre_world \<Rightarrow> bool" where
  "has_genuine_quota_signal env run w \<longleftrightarrow>
     list_ex quota_interrupted (attempts_or_none env run w) \<or>
     (\<not> pe_fails env On_checkpoints \<and> list_ex (\<lambda>c. ck_reason c = QUOTA_EXHAUSTED) (get_worker_checkpoints_for_run run (pw_runs w))) \<or>
     event_payloads env run ''quota_exhaustion_recorded'' w \<noteq> []"

definition has_no_eligible_evidence :: "pre_env \<Rightarrow> string \<Rightarrow> pre_world \<Rightarrow> bool" where
  "has_no_eligible_evidence env run w =
     (case read_attempts env run w of
        None \<Rightarrow> False
      | Some as \<Rightarrow>
          if list_ex (\<lambda>a. \<not> quota_interrupted a \<and> at_status a \<noteq> At_success) as then False
          else if event_payloads env run ''no_eligible_candidate'' w \<noteq> [] then True
          else as \<noteq> [] \<and> list_all quota_interrupted as)"

definition reset_evidence :: "(json \<Rightarrow> string) \<Rightarrow> (string \<times> json) list \<Rightarrow> string option" where
  \<comment> \<open>the reset one recorded exhaustion gives, if it is evidence\<close>
  "reset_evidence text p =
     (let v = json_get p ''until_confidence'';
          confidence = py_upper (if json_truthy v then json_text text v else []);
          raw = (if json_truthy (json_get p ''until'') then json_get p ''until'' else json_get p ''reset_at'')
      in if confidence \<noteq> ''EXACT'' \<and> confidence \<noteq> ''PARSED'' then None
         else case json_nonempty_text raw of
           None \<Rightarrow> None
         | Some u \<Rightarrow> (case fromisoformat u of Some (t, Some off) \<Rightarrow> Some u | _ \<Rightarrow> None))"

definition quota_reset_eta :: "pre_env \<Rightarrow> string \<Rightarrow> pre_world \<Rightarrow> string option" where
  \<comment> \<open>each qualifying record replaces the one before\<close>
  "quota_reset_eta env run w =
     fold (\<lambda>p best. case reset_evidence (pe_text env) p of None \<Rightarrow> best | Some u \<Rightarrow> Some u)
       (event_payloads env run ''quota_exhaustion_recorded'' w) None"

definition latest_checkpoint_sha :: "pre_env \<Rightarrow> string \<Rightarrow> pre_world \<Rightarrow> string option" where
  "latest_checkpoint_sha env run w =
     (if pe_fails env On_latest_checkpoint then None
      else case get_latest_worker_checkpoint run (pw_runs w) of
        None \<Rightarrow> None
      | Some c \<Rightarrow> if ck_checkpoint_sha c = [] then None else Some (ck_checkpoint_sha c))"

end
