(* ===== verification/Preemption_Protocol.thy ===== *)
theory Preemption_Protocol
  imports Preemption
begin

text \<open>
  \<open>saberops/preemption.py\<close>, the protocol: \<open>complete_preemption\<close> with its ordered writes (decision,
  checkpoint commit, handoffs, anchor ref, checkpoint row, intent, terminal run, requeued job,
  released capacity), the failure at the preemption bound, and \<open>prepare_resume\<close>, which stages the
  checkpoint into the next run.  Each write is a definition of its own, so that the states a crash
  can leave behind have names.
\<close>

section \<open>The commit to anchor\<close>

definition attempt_worktree_path :: "pre_env \<Rightarrow> string \<Rightarrow> pre_world \<Rightarrow> string option" where
  "attempt_worktree_path env run w =
     (case attempts_or_none env run w of
        [] \<Rightarrow> None
      | as \<Rightarrow> if at_worktree_path (last as) = [] then None else Some (at_worktree_path (last as)))"

definition worktree_at :: "string \<Rightarrow> git_repo \<Rightarrow> worktree" where
  "worktree_at path g = (case dict_get (gr_worktrees g) path of None \<Rightarrow> \<lparr>wt_head = None, wt_changed = []\<rparr> | Some t \<Rightarrow> t)"

definition commit_worktree :: "string \<Rightarrow> string \<Rightarrow> git_repo \<Rightarrow> git_repo" where
  \<comment> \<open>\<open>git add -A; git commit\<close>: the new commit is the head and nothing is changed\<close>
  "commit_worktree path sha g =
     g\<lparr>gr_commits := sha # gr_commits g,
       gr_worktrees := dict_set (gr_worktrees g) path \<lparr>wt_head = Some sha, wt_changed = []\<rparr>\<rparr>"

definition create_checkpoint_commit :: "pre_env \<Rightarrow> string \<Rightarrow> pre_world \<Rightarrow> string option option \<times> pre_world" where
  \<comment> \<open>the outer \<open>None\<close> when it raises; called on a changed worktree\<close>
  "create_checkpoint_commit env path w =
     (if wt_changed (worktree_at path (pw_git w)) = [] then (Some None, w)
      else case pe_commit env of
        Commit_raises \<Rightarrow> (None, w)
      | Commit_unread sha \<Rightarrow> (Some None, w\<lparr>pw_git := commit_worktree path sha (pw_git w)\<rparr>)
      | Commit_made sha \<Rightarrow> (Some (Some sha), w\<lparr>pw_git := commit_worktree path sha (pw_git w)\<rparr>))"

definition snapshot_worktree :: "pre_env \<Rightarrow> string \<Rightarrow> string \<Rightarrow> string option \<Rightarrow> pre_world \<Rightarrow> string option \<times> pre_world" where
  \<comment> \<open>the branch for a changed worktree\<close>
  "snapshot_worktree env repo path recorded w =
     (if verified_worktree_root (pe_shell env) repo path = None then (None, w)
      else case create_checkpoint_commit env path w of
        (Some (Some sha), w') \<Rightarrow>
          (if sha_ok sha \<and> commit_known env sha w' = Some True \<and>
              (case recorded of None \<Rightarrow> True | Some r \<Rightarrow> gs_ancestor (pe_shell env) r sha)
           then Some sha else None, w')
      | (_, w') \<Rightarrow> (None, w'))"

definition head_anchor :: "pre_env \<Rightarrow> string option \<Rightarrow> string option \<Rightarrow> pre_world \<Rightarrow> string option" where
  \<comment> \<open>the branch for a clean worktree\<close>
  "head_anchor env head recorded w =
     (case head of
        None \<Rightarrow> recorded
      | Some h \<Rightarrow>
          if \<not> sha_ok h then None
          else (case recorded of
              Some r \<Rightarrow> if h = r then Some r
                        else if gs_ancestor (pe_shell env) r h then Some h
                        else if gs_ancestor (pe_shell env) h r then Some r else None
            | None \<Rightarrow> if commit_known env h w = Some True then Some h else None))"

fun first_known_commit :: "pre_env \<Rightarrow> pre_world \<Rightarrow> string option list \<Rightarrow> string option" where
  "first_known_commit env w [] = None"
| "first_known_commit env w (c # cs) =
     (if \<not> truthy c \<or> \<not> sha_ok (the c) then first_known_commit env w cs
      else case commit_known env (the c) w of
        None \<Rightarrow> None | Some known \<Rightarrow> if known then c else first_known_commit env w cs)"

definition resolve_anchor_sha ::
  "pre_env \<Rightarrow> string \<Rightarrow> string \<Rightarrow> job \<Rightarrow> string option \<Rightarrow> string option \<Rightarrow> pre_world \<Rightarrow> string option \<times> pre_world" where
  "resolve_anchor_sha env repo run j worktree_path base_sha w =
     (let latest = latest_checkpoint_sha env run w in
      if latest \<noteq> None \<and> commit_known env (the latest) w = None then (None, w)
      else let recorded = (if latest \<noteq> None \<and> commit_known env (the latest) w = Some True then latest else None);
               hint = (if truthy worktree_path then worktree_path else attempt_worktree_path env run w)
        in case hint of
          None \<Rightarrow> (if recorded \<noteq> None then recorded else first_known_commit env w [base_sha, Some (job_base_sha j)], w)
        | Some h \<Rightarrow>
            if pe_fails env On_worktree then (None, w)
            else (case verified_worktree_root (pe_shell env) repo h of
                None \<Rightarrow> (None, w)
              | Some path \<Rightarrow>
                  if pe_fails env On_inspect then (None, w)
                  else if wt_changed (worktree_at path (pw_git w)) \<noteq> [] then snapshot_worktree env repo path recorded w
                  else (head_anchor env (wt_head (worktree_at path (pw_git w))) recorded w, w)))"

section \<open>Handoffs and the checkpoint row\<close>

definition new_handoff :: "string \<Rightarrow> string \<Rightarrow> string \<Rightarrow> string \<Rightarrow> string \<Rightarrow> run_db \<Rightarrow> handoff_row" where
  "new_handoff i run kind content stamp db =
     \<lparr>ho_id = i, ho_run_id = run, ho_kind = kind, ho_version = next_handoff_version run kind db, ho_content = content,
      ho_created_at = stamp\<rparr>"

definition create_handoffs :: "pre_env \<Rightarrow> string \<Rightarrow> pre_world \<Rightarrow> string option \<times> pre_world" where
  \<comment> \<open>\<open>saberops/handoff.py\<close>; the id of the capsule, \<open>None\<close> when it raises.  The contents are built from
     the run's state by pure formatting and are given.\<close>
  "create_handoffs env run w =
     (if pe_fails env On_handoffs then (None, w)
      else let full = new_handoff (pe_full_id env) run ''handoff_full'' (pe_full_content env) (pe_stamp env) (pw_runs w) in
        case create_handoff full (pw_runs w) of
          None \<Rightarrow> (None, w)
        | Some r1 \<Rightarrow>
            let capsule = new_handoff (pe_capsule_id env) run ''handoff_resume_capsule'' (pe_capsule_content env) (pe_stamp env) r1;
                w1 = w\<lparr>pw_runs := r1\<rparr> in
            (case create_handoff capsule r1 of
               None \<Rightarrow> (None, w1)
             | Some r2 \<Rightarrow>
                 let w2 = w\<lparr>pw_runs := r2\<rparr> in
                 (case log_event env run ''checkpoint_created''
                         [(''full_version'', JInt (ho_version full)), (''capsule_version'', JInt (ho_version capsule))] w2 of
                    None \<Rightarrow> (None, w2) | Some w3 \<Rightarrow> (Some (ho_id capsule), w3))))"

definition or_quota :: "string \<Rightarrow> string" where
  "or_quota reason = (if reason = [] then QUOTA_EXHAUSTED else reason)"

definition checkpoint_source :: "pre_env \<Rightarrow> string \<Rightarrow> pre_world \<Rightarrow> string \<times> string \<times> string list" where
  \<comment> \<open>source attempt, reason and changed paths of the row to record\<close>
  "checkpoint_source env run w =
     (let from_latest = (case (if pe_fails env On_latest_checkpoint then None else get_latest_worker_checkpoint run (pw_runs w)) of
            None \<Rightarrow> ([], QUOTA_EXHAUSTED, [])
          | Some c \<Rightarrow> (ck_source_attempt_id c, or_quota (ck_reason c), ck_changed_paths c))
      in if fst from_latest \<noteq> [] then from_latest
         else case attempts_or_none env run w of
           [] \<Rightarrow> from_latest
         | as \<Rightarrow> (at_id (last as), or_text (at_interruption (last as)) (fst (snd from_latest)), snd (snd from_latest)))"

definition ensure_old_checkpoint_row :: "pre_env \<Rightarrow> string \<Rightarrow> job \<Rightarrow> string \<Rightarrow> string \<Rightarrow> pre_world \<Rightarrow> pre_world" where
  "ensure_old_checkpoint_row env run j sha handoff w =
     (if pe_fails env On_checkpoint_by_sha \<or> get_worker_checkpoint_by_sha run sha (pw_runs w) \<noteq> None then w
      else case checkpoint_source env run w of (source, reason, changed) \<Rightarrow>
        if source = [] \<or> pe_fails env On_stage then w
        else (case create_worker_checkpoint
                \<lparr>ck_id = pe_checkpoint_id env, ck_run_id = run, ck_source_attempt_id = source,
                 ck_source_base_sha = job_base_sha j, ck_checkpoint_sha = sha, ck_reason = reason,
                 ck_changed_paths = changed, ck_created_at = isoformat (pe_now env), ck_handoff_id = Some handoff\<rparr> (pw_runs w) of
            None \<Rightarrow> w | Some r \<Rightarrow> w\<lparr>pw_runs := r\<rparr>))"

section \<open>Outcomes\<close>

record preemption_outcome =
  po_owned :: bool
  po_detail :: string
  po_status :: "run_status option"
  po_summary :: string
  po_job :: "job option"
  po_checkpoint_sha :: "string option"
  po_checkpoint_ref :: "string option"
  po_handoff_id :: "string option"
  po_preemptions :: "int option"
  po_not_before :: "string option"
  po_limit_reached :: bool

definition declined :: "string \<Rightarrow> job option \<Rightarrow> preemption_outcome" where
  \<comment> \<open>\<open>owned=False\<close>\<close>
  "declined detail j =
     \<lparr>po_owned = False, po_detail = detail, po_status = None, po_summary = [], po_job = j, po_checkpoint_sha = None,
      po_checkpoint_ref = None, po_handoff_id = None, po_preemptions = None, po_not_before = None, po_limit_reached = False\<rparr>"

record prepared =
  pp_sha :: string
  pp_ref :: string
  pp_handoff :: string

record pre_args =
  pa_run_id :: string
  pa_repo :: string
    \<comment> \<open>the resolved repository path\<close>
  pa_job_id :: "string option"
  pa_worktree :: "string option"
  pa_base_sha :: "string option"
  pa_owner_id :: "string option"
  pa_generation :: "int option"
  pa_decision_ref :: "string option"
  pa_recovering :: bool
  pa_max :: int

definition pa_token :: "pre_args \<Rightarrow> (string \<times> int) option" where
  \<comment> \<open>the fencing token, when both halves are given\<close>
  "pa_token a = (case (pa_owner_id a, pa_generation a) of (Some i, Some g) \<Rightarrow> Some (i, g) | _ \<Rightarrow> None)"

definition terminalize_preempted :: "pre_env \<Rightarrow> pre_args \<Rightarrow> string \<Rightarrow> pre_world \<Rightarrow> (bool \<times> bool \<times> string) \<times> pre_world" where
  "terminalize_preempted env a summary w =
     (if pe_fails env On_run then ((False, False, ''run_lookup_failed''), w)
      else case get_run (pa_run_id a) (pw_runs w) of
        None \<Rightarrow> ((False, False, ''no_run''), w)
      | Some r \<Rightarrow>
          if rn_status r = Run_preempted then ((True, False, ''already_preempted''), w)
          else if terminal_run (rn_status r) then ((False, False, ''run_terminal_other''), w)
          else if rn_status r \<noteq> Run_running then ((False, False, ''run_not_running''), w)
          else (case pa_token a of
              Some t \<Rightarrow>
                if pe_fails env On_terminalize then ((False, False, ''fenced_terminalize_failed''), w)
                else (case terminalize_preemption_fenced (pa_run_id a) (Some t) summary [Claimed]
                            (Some (isoformat (pe_now env))) (pe_stamp env) (pw_runs w) of
                    (False, db) \<Rightarrow> ((False, False, ''fenced_terminalize_refused''), w\<lparr>pw_runs := db\<rparr>)
                  | (True, db) \<Rightarrow> ((True, True, ''transitioned''), w\<lparr>pw_runs := db\<rparr>))
            | None \<Rightarrow>
                if pa_recovering a then ((False, False, ''fencing_required''), w)
                else if pe_fails env On_update_run then ((False, False, ''update_failed''), w)
                else ((True, True, ''transitioned''),
                      w\<lparr>pw_runs := update_run (pa_run_id a) Run_preempted (Some (isoformat (pe_now env))) None (Some summary) (pw_runs w)\<rparr>)))"

section \<open>The preemption bound\<close>

definition limit_summary :: "job \<Rightarrow> int \<Rightarrow> string" where
  "limit_summary j bound =
     ''Job '' @ job_id j @ '' reached the preemption bound ('' @ int_text (job_preemptions j) @ ''/'' @ int_text bound @
     ''): PREEMPTION_LIMIT. Quota exhaustion recurred with no admitted fallback route; not requeueing again.''"

datatype limit_run = Limit_refused | Limit_raised | Limit_failed_run | Limit_not_running

definition fail_run_at_limit :: "pre_env \<Rightarrow> pre_args \<Rightarrow> job \<Rightarrow> pre_world \<Rightarrow> limit_run \<times> pre_world" where
  \<comment> \<open>the \<open>try\<close> block on the run\<close>
  "fail_run_at_limit env a j w =
     (let summary = limit_summary j (pa_max a); run = pa_run_id a;
          log = (\<lambda>w'. case log_event env run ''run_failed''
                   [(''summary'', JStr summary), (''reason'', JStr PREEMPTION_LIMIT),
                    (''preemptions'', JInt (job_preemptions j)), (''max_preemptions'', JInt (pa_max a))] w' of
                 None \<Rightarrow> (Limit_raised, w') | Some w'' \<Rightarrow> (Limit_failed_run, w''))
      in if pe_fails env On_run then (Limit_raised, w)
         else case get_run run (pw_runs w) of
           None \<Rightarrow> (Limit_not_running, w)
         | Some r \<Rightarrow>
             if rn_status r \<noteq> Run_running then (Limit_not_running, w)
             else (case pa_token a of
                 Some t \<Rightarrow>
                   if pe_fails env On_terminalize then (Limit_raised, w)
                   else (case terminalize_run_fenced run (Some t) Run_failed summary (''preemption limit: '' @ summary) [Claimed]
                               ''preemption_limit'' (Some (isoformat (pe_now env))) (pe_stamp env) (pw_runs w) of
                       (None, db) \<Rightarrow> (Limit_refused, w\<lparr>pw_runs := db\<rparr>)
                     | (Some failed, db) \<Rightarrow> log (w\<lparr>pw_runs := db\<rparr>))
               | None \<Rightarrow>
                   if pe_fails env On_update_run then (Limit_raised, w)
                   else log (w\<lparr>pw_runs := update_run run Run_failed (Some (isoformat (pe_now env))) None (Some summary) (pw_runs w)\<rparr>)))"

definition fail_job_at_limit :: "pre_env \<Rightarrow> job \<Rightarrow> pre_world \<Rightarrow> job option \<times> pre_world" where
  "fail_job_at_limit env j w =
     (if pe_fails env On_job then (None, w)
      else case get_job (job_id j) (pw_jobs w) of
        Inr (Some fresh) \<Rightarrow>
          if job_state fresh = RUNNING \<and> \<not> pe_fails env On_fail_job then
            (case reconcile_transition (job_id j) FAILED (Some PREEMPTION_LIMIT) (pe_now env) (pw_jobs w) of
               (Inl e, db) \<Rightarrow> (None, w\<lparr>pw_jobs := db\<rparr>) | (Inr k, db) \<Rightarrow> (Some k, w\<lparr>pw_jobs := db\<rparr>))
          else (None, w)
      | _ \<Rightarrow> (None, w))"

definition settle_run :: "pre_env \<Rightarrow> string \<Rightarrow> job \<Rightarrow> pre_world \<Rightarrow> pre_world" where
  \<comment> \<open>\<open>release_terminal_debt\<close>, its failure ignored\<close>
  "settle_run env run j w =
     w\<lparr>pw_owner := snd (release_terminal_debt run (Some (job_id j)) None (pe_fails env On_release) (pe_now env) (pw_owner w))\<rparr>"

definition fail_at_limit :: "pre_env \<Rightarrow> pre_args \<Rightarrow> job \<Rightarrow> pre_world \<Rightarrow> preemption_outcome \<times> pre_world" where
  "fail_at_limit env a j w =
     (case fail_run_at_limit env a j w of
        (res, w1) \<Rightarrow>
          if res = Limit_refused then (declined ''limit_fence_refused'' (Some j), w1)
          else if res = Limit_raised \<and> pa_token a \<noteq> None then (declined ''limit_terminalize_failed'' (Some j), w1)
          else if res = Limit_not_running \<and> pa_token a \<noteq> None then (declined ''limit_fence_refused'' (Some j), w1)
          else (case fail_job_at_limit env j w1 of
              (failed, w2) \<Rightarrow>
                (\<lparr>po_owned = True, po_detail = ''preemption_limit'', po_status = Some Run_failed,
                  po_summary = limit_summary j (pa_max a), po_job = Some (case failed of None \<Rightarrow> j | Some k \<Rightarrow> k),
                  po_checkpoint_sha = None, po_checkpoint_ref = None, po_handoff_id = None,
                  po_preemptions = Some (job_preemptions j), po_not_before = None, po_limit_reached = True\<rparr>,
                 settle_run env (pa_run_id a) j w2)))"

section \<open>Who is preempted\<close>

definition run_gate :: "pre_env \<Rightarrow> pre_args \<Rightarrow> pre_world \<Rightarrow> preemption_outcome + bool" where
  \<comment> \<open>the first checks; \<open>Inr\<close> says whether the run is already \<open>PREEMPTED\<close>\<close>
  "run_gate env a w =
     (if pe_fails env On_run then Inl (declined ''run_lookup_failed'' None)
      else case get_run (pa_run_id a) (pw_runs w) of
        None \<Rightarrow> Inl (declined ''no_run'' None)
      | Some r \<Rightarrow>
          if rn_status r = Run_preempted then Inr True
          else if rn_status r \<noteq> Run_running then Inl (declined ''run_not_running'' None)
          else if \<not> has_genuine_quota_signal env (pa_run_id a) w then Inl (declined ''no_quota_signal'' None)
          else if \<not> has_no_eligible_evidence env (pa_run_id a) w then Inl (declined ''eligible_candidate_remains'' None)
          else Inr False)"

definition lookup_job :: "pre_env \<Rightarrow> pre_args \<Rightarrow> bool \<Rightarrow> pre_world \<Rightarrow> job option option" where
  "lookup_job env a already w =
     (case pa_job_id a of
        Some i \<Rightarrow>
          if pe_fails env On_job then None
          else (case get_job i (pw_jobs w) of Inl e \<Rightarrow> None | Inr j \<Rightarrow> Some j)
      | None \<Rightarrow>
          (case find_job_for_run env (pa_run_id a) w of
             None \<Rightarrow> None
           | Some (Some j) \<Rightarrow> Some (Some j)
           | Some None \<Rightarrow> if already then find_preempted_job_for_run env (pa_run_id a) w else Some None))"

definition already_preempted :: "string \<Rightarrow> job \<Rightarrow> resume_from \<Rightarrow> preemption_outcome" where
  "already_preempted run j r =
     \<lparr>po_owned = True, po_detail = ''already_preempted'', po_status = Some Run_preempted,
      po_summary = ''Run '' @ run @ '' already preempted for job '' @ job_id j @ ''.'', po_job = Some j,
      po_checkpoint_sha = Some (rf_checkpoint_sha r), po_checkpoint_ref = None, po_handoff_id = Some (rf_handoff_id r),
      po_preemptions = Some (job_preemptions j), po_not_before = job_not_before j, po_limit_reached = False\<rparr>"

definition owning_job :: "pre_env \<Rightarrow> pre_args \<Rightarrow> pre_world \<Rightarrow> preemption_outcome + job" where
  \<comment> \<open>the job that runs the run, or the outcome that ends the call without a write\<close>
  "owning_job env a w =
     (case run_gate env a w of
        Inl out \<Rightarrow> Inl out
      | Inr already \<Rightarrow>
          (case lookup_job env a already w of
             None \<Rightarrow> Inl (declined ''job_lookup_failed'' None)
           | Some None \<Rightarrow>
               Inl (case find_any_job_for_run env (pa_run_id a) w of
                  Some related \<Rightarrow> declined ''job_not_owned'' (Some related) | None \<Rightarrow> declined ''no_job'' None)
           | Some (Some j) \<Rightarrow>
               if job_state j = QUEUED \<and> job_waiting_reason j = Some PREEMPTED then
                 Inl (case job_resume_from j of
                   Some r \<Rightarrow> if rf_run_id r = pa_run_id a then already_preempted (pa_run_id a) j r else declined ''job_not_owned'' (Some j)
                 | None \<Rightarrow> declined ''job_not_owned'' (Some j))
               else if job_state j \<noteq> RUNNING \<or> job_current_run_id j \<noteq> Some (pa_run_id a)
               then Inl (declined ''job_not_owned'' (Some j))
               else Inr j))"

section \<open>Preparing\<close>

definition decision_step :: "pre_env \<Rightarrow> pre_args \<Rightarrow> job \<Rightarrow> pre_world \<Rightarrow> (py_error + preemption_outcome option) \<times> pre_world" where
  \<comment> \<open>the durable decision; \<open>Inr None\<close> goes on\<close>
  "decision_step env a j w =
     (case authenticate_prepared_transaction env (pa_run_id a) j (job_preemptions j) w of
        Inl e \<Rightarrow> (Inl e, w)
      | Inr tx \<Rightarrow>
          if \<not> tx_ok tx \<and> tx_detail tx \<noteq> ''decision_missing''
          then (Inr (Some (declined (''decision_not_authenticated:'' @ tx_detail tx) (Some j))), w)
          else if \<not> tx_ok tx \<and> pa_recovering a then (Inr (Some (declined ''recovery_without_decision'' (Some j))), w)
          else (case record_preparation_decision env
                  (build_preemption_decision env (pa_run_id a) j (pa_owner_id a) (pa_generation a) (pa_decision_ref a) w) w of
              (written, w1) \<Rightarrow>
                (if \<not> written \<and> decision_payload env (pa_run_id a) (job_id j) w1 = None
                 then Inr (Some (declined ''decision_not_durable'' (Some j))) else Inr None, w1)))"

definition anchor_step :: "pre_env \<Rightarrow> string \<Rightarrow> string \<Rightarrow> pre_world \<Rightarrow> string option \<times> pre_world" where
  \<comment> \<open>\<open>_anchor_verified_ref\<close>; \<open>None\<close> when it raises\<close>
  "anchor_step env job sha w =
     (if pe_fails env On_list_refs \<or> pe_fails env On_anchor then (None, w)
      else case anchor_verified_ref (pw_git w) job sha of
        None \<Rightarrow> (None, w) | Some ((ref, index), g) \<Rightarrow> (Some ref, w\<lparr>pw_git := g\<rparr>))"

definition intent_of :: "pre_env \<Rightarrow> pre_args \<Rightarrow> job \<Rightarrow> prepared \<Rightarrow> string option \<Rightarrow> (string \<times> json) list" where
  "intent_of env a j p not_before =
     [(''version'', JInt INTENT_VERSION), (''job_id'', JStr (job_id j)), (''checkpoint_sha'', JStr (pp_sha p)),
      (''checkpoint_ref'', JStr (pp_ref p)), (''handoff_id'', JStr (pp_handoff p)), (''not_before'', json_of_opt not_before),
      (''preemptions_before'', JInt (job_preemptions j)), (''preemptions_next'', JInt (job_preemptions j + 1)),
      (''owner_id'', json_of_opt (pa_owner_id a)), (''owner_generation'', json_of_opt_int (pa_generation a))]"

definition intent_step ::
  "pre_env \<Rightarrow> pre_args \<Rightarrow> job \<Rightarrow> prepared \<Rightarrow> string option \<Rightarrow> pre_world \<Rightarrow> (preemption_outcome + prepared) \<times> pre_world" where
  "intent_step env a j p not_before w =
     (case log_event env (pa_run_id a) INTENT_EVENT (intent_of env a j p not_before) w of
        None \<Rightarrow> (Inl (declined ''intent_failed'' (Some j)), w) | Some w' \<Rightarrow> (Inr p, w'))"

definition prepare_artifacts ::
  "pre_env \<Rightarrow> pre_args \<Rightarrow> job \<Rightarrow> string option \<Rightarrow> pre_world \<Rightarrow> (preemption_outcome + prepared) \<times> pre_world" where
  \<comment> \<open>from the checkpoint commit to the intent\<close>
  "prepare_artifacts env a j not_before w1 =
     (case resolve_anchor_sha env (pa_repo a) (pa_run_id a) j (pa_worktree a) (pa_base_sha a) w1 of
        (None, w2) \<Rightarrow> (Inl (declined ''no_anchor'' (Some j)), w2)
      | (Some sha, w2) \<Rightarrow>
          (case create_handoffs env (pa_run_id a) w2 of
             (None, w3) \<Rightarrow> (Inl (declined ''capsule_failed'' (Some j)), w3)
           | (Some handoff, w3) \<Rightarrow>
               (case anchor_step env (job_id j) sha w3 of
                  (None, w4) \<Rightarrow> (Inl (declined ''ref_failed'' (Some j)), w4)
                | (Some ref, w4) \<Rightarrow>
                    intent_step env a j \<lparr>pp_sha = sha, pp_ref = ref, pp_handoff = handoff\<rparr> not_before
                      (ensure_old_checkpoint_row env (pa_run_id a) j sha handoff w4))))"

definition prepare_preemption ::
  "pre_env \<Rightarrow> pre_args \<Rightarrow> job \<Rightarrow> string option \<Rightarrow> pre_world \<Rightarrow> (py_error + preemption_outcome + prepared) \<times> pre_world" where
  \<comment> \<open>an authentic intent is reused, otherwise the artifacts are prepared\<close>
  "prepare_preemption env a j not_before w =
     (if intent_payload env (pa_run_id a) (job_id j) w \<noteq> None then
        (case authenticate_prepared_transaction env (pa_run_id a) j (job_preemptions j) w of
           Inl e \<Rightarrow> (Inl e, w)
         | Inr tx \<Rightarrow>
             (case (tx_ok tx, tx_artifacts tx) of
                (True, Some r) \<Rightarrow>
                  (Inr (Inr \<lparr>pp_sha = ar_checkpoint_sha r, pp_ref = ar_checkpoint_ref r, pp_handoff = ar_handoff_id r\<rparr>), w)
              | _ \<Rightarrow> (Inr (Inl (declined (''intent_not_authenticated:'' @ tx_detail tx) (Some j))), w)))
      else case decision_step env a j w of
        (Inl e, w1) \<Rightarrow> (Inl e, w1)
      | (Inr (Some out), w1) \<Rightarrow> (Inr (Inl out), w1)
      | (Inr None, w1) \<Rightarrow> (case prepare_artifacts env a j not_before w1 of (r, w2) \<Rightarrow> (Inr r, w2)))"

section \<open>Finishing\<close>

definition preempted_summary :: "string \<Rightarrow> job \<Rightarrow> prepared \<Rightarrow> string" where
  "preempted_summary run j p =
     ''Run '' @ run @ '' PREEMPTED: genuine quota exhaustion with no admitted fallback route. WIP anchored at '' @ pp_ref p @
     '' ('' @ take 12 (pp_sha p) @ ''); job '' @ job_id j @ '' requeued with resume capsule.''"

definition preempted_outcome ::
  "string \<Rightarrow> string \<Rightarrow> prepared \<Rightarrow> string \<Rightarrow> job \<Rightarrow> int \<Rightarrow> string option \<Rightarrow> preemption_outcome" where
  "preempted_outcome detail summary p run j n not_before =
     \<lparr>po_owned = True, po_detail = detail, po_status = Some Run_preempted, po_summary = summary, po_job = Some j,
      po_checkpoint_sha = Some (pp_sha p), po_checkpoint_ref = Some (pp_ref p), po_handoff_id = Some (pp_handoff p),
      po_preemptions = Some n, po_not_before = not_before, po_limit_reached = False\<rparr>"

definition requeue_step :: "pre_env \<Rightarrow> pre_args \<Rightarrow> job \<Rightarrow> resume_from \<Rightarrow> string option \<Rightarrow> pre_world \<Rightarrow> job option \<times> pre_world" where
  "requeue_step env a j resume not_before w =
     (if pe_fails env On_requeue then (None, w)
      else case requeue_exact (job_id j) PREEMPTED (pa_run_id a) (job_preemptions j) (Some resume) not_before (pe_now env) (pw_jobs w) of
        (Inl e, db) \<Rightarrow> (None, w\<lparr>pw_jobs := db\<rparr>) | (Inr k, db) \<Rightarrow> (Some k, w\<lparr>pw_jobs := db\<rparr>))"

definition announce_preempted :: "pre_env \<Rightarrow> pre_args \<Rightarrow> job \<Rightarrow> prepared \<Rightarrow> string option \<Rightarrow> pre_world \<Rightarrow> pre_world" where
  "announce_preempted env a j p not_before =
     try_log env (pa_run_id a) RUN_PREEMPTED_EVENT
       [(''summary'', JStr (preempted_summary (pa_run_id a) j p)), (''job_id'', JStr (job_id j)),
        (''checkpoint_sha'', JStr (pp_sha p)), (''checkpoint_ref'', JStr (pp_ref p)), (''handoff_id'', JStr (pp_handoff p)),
        (''not_before'', json_of_opt not_before)]"

definition requeue_and_settle ::
  "pre_env \<Rightarrow> pre_args \<Rightarrow> job \<Rightarrow> prepared \<Rightarrow> string option \<Rightarrow> pre_world \<Rightarrow> preemption_outcome \<times> pre_world" where
  "requeue_and_settle env a j p not_before w =
     (let run = pa_run_id a; summary = preempted_summary run j p in
      case resume_from_of run (pp_sha p) (pp_handoff p) of
        Inl e \<Rightarrow> (preempted_outcome ''resume_malformed'' summary p run j (job_preemptions j) not_before, w)
      | Inr resume \<Rightarrow>
          (case requeue_step env a j resume not_before w of
             (None, w1) \<Rightarrow>
               (let w2 = settle_run env run j w1;
                    current = (if pe_fails env On_job then None
                               else case get_job (job_id j) (pw_jobs w2) of Inr (Some k) \<Rightarrow> Some k | _ \<Rightarrow> None)
                in (preempted_outcome ''job_raced'' summary p run (case current of None \<Rightarrow> j | Some k \<Rightarrow> k) (job_preemptions j) not_before, w2))
           | (Some k, w1) \<Rightarrow>
               (preempted_outcome ''preempted'' summary p run k (job_preemptions k) (job_not_before k), settle_run env run j w1)))"

definition finish_preemption ::
  "pre_env \<Rightarrow> pre_args \<Rightarrow> job \<Rightarrow> prepared \<Rightarrow> string option \<Rightarrow> pre_world \<Rightarrow> preemption_outcome \<times> pre_world" where
  \<comment> \<open>from the terminal run on\<close>
  "finish_preemption env a j p not_before w =
     (case terminalize_preempted env a (preempted_summary (pa_run_id a) j p) w of
        ((ok, transitioned, detail), w1) \<Rightarrow>
          if \<not> ok then (declined detail (Some j), w1)
          else requeue_and_settle env a j p not_before
                 (if transitioned then announce_preempted env a j p not_before w1 else w1))"

section \<open>The coordinator\<close>

definition complete_preemption :: "pre_env \<Rightarrow> pre_args \<Rightarrow> pre_world \<Rightarrow> (py_error + preemption_outcome) \<times> pre_world" where
  "complete_preemption env a w =
     (case owning_job env a w of
        Inl out \<Rightarrow> (Inr out, w)
      | Inr j \<Rightarrow>
          if pa_max a \<le> job_preemptions j then (case fail_at_limit env a j w of (out, w') \<Rightarrow> (Inr out, w'))
          else let not_before = quota_reset_eta env (pa_run_id a) w in
            (case prepare_preemption env a j not_before w of
               (Inl e, w1) \<Rightarrow> (Inl e, w1)
             | (Inr (Inl out), w1) \<Rightarrow> (Inr out, w1)
             | (Inr (Inr p), w1) \<Rightarrow> (case finish_preemption env a j p not_before w1 of (out, w2) \<Rightarrow> (Inr out, w2))))"

definition finish_interrupted_preemption ::
  "pre_env \<Rightarrow> string \<Rightarrow> job \<Rightarrow> string \<Rightarrow> string option \<Rightarrow> int option \<Rightarrow> int \<Rightarrow> pre_world \<Rightarrow> (py_error + preemption_outcome) \<times> pre_world" where
  "finish_interrupted_preemption env run j repo owner generation bound =
     complete_preemption env \<lparr>pa_run_id = run, pa_repo = repo, pa_job_id = Some (job_id j), pa_worktree = None,
       pa_base_sha = Some (job_base_sha j), pa_owner_id = owner, pa_generation = generation, pa_decision_ref = None,
       pa_recovering = True, pa_max = bound\<rparr>"

end
