(* ===== verification/Preemption_Laws.thy ===== *)
theory Preemption_Laws
  imports Preemption_Protocol Job_Service_Laws
begin

text \<open>
  What \<open>complete_preemption\<close> guarantees: a call that declines writes no job and no reservation, a call
  that preempts moves exactly one job from its running generation to the queue and counts once,
  only on durable quota evidence and behind a verified anchor, and a replay changes nothing.
\<close>

section \<open>What the preparing steps leave alone\<close>

definition untouched :: "pre_world \<Rightarrow> pre_world \<Rightarrow> bool" where
  \<comment> \<open>jobs, capacity, runs, attempts and owners are as they were\<close>
  "untouched w w' \<longleftrightarrow> pw_jobs w' = pw_jobs w \<and> pw_owner w' = pw_owner w \<and> rb_runs (pw_runs w') = rb_runs (pw_runs w) \<and>
     rb_attempts (pw_runs w') = rb_attempts (pw_runs w) \<and> rb_owners (pw_runs w') = rb_owners (pw_runs w)"

lemma untouched_refl [simp]: "untouched w w"
  by (simp add: untouched_def)

lemma untouched_trans: "untouched a b \<Longrightarrow> untouched b c \<Longrightarrow> untouched a c"
  by (simp add: untouched_def)

lemma untouched_log: "log_event env run ev p w = Some w' \<Longrightarrow> untouched w w'"
  by (auto simp: log_event_def record_event_def untouched_def split: if_splits)

lemma untouched_try_log [simp]: "untouched w (try_log env run ev p w)"
  by (auto simp: try_log_def untouched_log split: option.splits)

lemma untouched_git [simp]: "untouched w (w\<lparr>pw_git := g\<rparr>)"
  by (simp add: untouched_def)

lemma untouched_decision: "record_preparation_decision env d w = (ok, w') \<Longrightarrow> untouched w w'"
  by (auto simp: record_preparation_decision_def untouched_log split: if_splits option.splits)

lemma untouched_decision_step: "decision_step env a j w = (r, w') \<Longrightarrow> untouched w w'"
  by (auto simp: decision_step_def untouched_decision split: sum.splits if_splits prod.splits)

lemma untouched_resolve: "resolve_anchor_sha env repo run j wt base w = (r, w') \<Longrightarrow> untouched w w'"
  by (auto simp: resolve_anchor_sha_def snapshot_worktree_def create_checkpoint_commit_def Let_def
      split: if_splits option.splits commit_result.splits prod.splits)

lemma untouched_create_handoff: "create_handoff h db = Some db' \<Longrightarrow>
    rb_runs db' = rb_runs db \<and> rb_attempts db' = rb_attempts db \<and> rb_owners db' = rb_owners db \<and> rb_events db' = rb_events db \<and>
    rb_checkpoints db' = rb_checkpoints db \<and> rb_handoffs db' = rb_handoffs db @ [h]"
  by (auto simp: create_handoff_def split: if_splits)

lemma untouched_handoffs: "create_handoffs env run w = (r, w') \<Longrightarrow> untouched w w'"
  by (auto simp: create_handoffs_def Let_def untouched_def log_event_def record_event_def
      dest!: untouched_create_handoff split: if_splits option.splits)

lemma untouched_anchor: "anchor_step env job sha w = (r, w') \<Longrightarrow> untouched w w'"
  by (auto simp: anchor_step_def split: if_splits option.splits prod.splits)

lemma untouched_row [simp]: "untouched w (ensure_old_checkpoint_row env run j sha h w)"
  by (auto simp: ensure_old_checkpoint_row_def create_worker_checkpoint_def untouched_def split: prod.splits option.splits if_splits)

lemma untouched_intent: "intent_step env a j p nb w = (r, w') \<Longrightarrow> untouched w w'"
  by (auto simp: intent_step_def untouched_log split: option.splits)

lemma untouched_artifacts:
  assumes "prepare_artifacts env a j nb w = (r, w')"
  shows "untouched w w'"
proof -
  obtain s w2 where s: "resolve_anchor_sha env (pa_repo a) (pa_run_id a) j (pa_worktree a) (pa_base_sha a) w = (s, w2)" by fastforce
  obtain h w3 where h: "create_handoffs env (pa_run_id a) w2 = (h, w3)" by fastforce
  obtain x w4 where x: "anchor_step env (job_id j) (the s) w3 = (x, w4)" by fastforce
  note u2 = untouched_resolve [OF s]
  note u3 = untouched_trans [OF u2 untouched_handoffs [OF h]]
  note u4 = untouched_trans [OF u3 untouched_anchor [OF x]]
  show ?thesis
  proof (cases "\<exists>sha hid ref. s = Some sha \<and> h = Some hid \<and> x = Some ref")
    case True
    then obtain sha hid ref where "s = Some sha" "h = Some hid" "x = Some ref" by blast
    then have "intent_step env a j \<lparr>pp_sha = sha, pp_ref = ref, pp_handoff = hid\<rparr> nb
        (ensure_old_checkpoint_row env (pa_run_id a) j sha hid w4) = (r, w')"
      using assms s h x by (simp add: prepare_artifacts_def)
    from untouched_trans [OF untouched_trans [OF u4 untouched_row] untouched_intent [OF this]] show ?thesis .
  next
    case False
    then have "w' = w2 \<or> w' = w3 \<or> w' = w4"
      using assms s h x by (auto simp: prepare_artifacts_def split: option.splits)
    then show ?thesis using u2 u3 u4 by (elim disjE) simp_all
  qed
qed

lemma prepare_fresh:
  assumes "intent_payload env (pa_run_id a) (job_id j) w = None"
  shows "prepare_preemption env a j nb w =
    (case decision_step env a j w of
       (Inl e, w1) \<Rightarrow> (Inl e, w1)
     | (Inr (Some out), w1) \<Rightarrow> (Inr (Inl out), w1)
     | (Inr None, w1) \<Rightarrow> (case prepare_artifacts env a j nb w1 of (r, w2) \<Rightarrow> (Inr r, w2)))"
  using assms by (simp add: prepare_preemption_def)

lemma prepare_reuses:
  assumes "intent_payload env (pa_run_id a) (job_id j) w \<noteq> None"
  shows "snd (prepare_preemption env a j nb w) = w"
  using assms by (simp add: prepare_preemption_def split: sum.splits option.splits bool.splits)

lemma untouched_prepare:
  assumes "prepare_preemption env a j nb w = (r, w')"
  shows "untouched w w'"
proof (cases "intent_payload env (pa_run_id a) (job_id j) w")
  case None
  obtain d w1 where d: "decision_step env a j w = (d, w1)" by fastforce
  obtain x w2 where x: "prepare_artifacts env a j nb w1 = (x, w2)" by fastforce
  have "w' = w1 \<or> w' = w2"
    using assms d x by (auto simp: prepare_fresh [OF None] split: sum.splits option.splits)
  then show ?thesis
    using untouched_decision_step [OF d] untouched_trans [OF untouched_decision_step [OF d] untouched_artifacts [OF x]] by blast
next
  case (Some p)
  then show ?thesis using prepare_reuses [of env a j w nb] assms by simp
qed

section \<open>The terminal run\<close>

lemma terminalize_keeps:
  assumes "terminalize_preempted env a summary w = ((ok, transitioned, detail), w')"
  shows "pw_jobs w' = pw_jobs w" "pw_owner w' = pw_owner w" "pw_git w' = pw_git w"
    "rb_events (pw_runs w') = rb_events (pw_runs w)" "rb_handoffs (pw_runs w') = rb_handoffs (pw_runs w)"
    "rb_attempts (pw_runs w') = rb_attempts (pw_runs w)" "\<not> ok \<Longrightarrow> w' = w"
  using assms
  by (auto simp: terminalize_preempted_def terminalize_preemption_fenced_def release_token_def update_owners_def update_run_row_def
      update_run_def split: if_splits option.splits prod.splits)

lemma get_run_update:
  "get_run i (update_run_row run f db) = map_option (\<lambda>r. if rn_id r = run then f r else r) (get_run i db)"
  if "\<And>r. rn_id (f r) = rn_id r"
  unfolding get_run_def update_run_row_def by (simp add: that find_map_same)

lemma get_run_id: "get_run i db = Some r \<Longrightarrow> rn_id r = i"
  unfolding get_run_def by (drule find_SomeD) simp

lemma get_run_release [simp]: "get_run i (release_token run token now reason db) = get_run i db"
  by (simp add: release_token_def get_run_def update_owners_def split: option.splits prod.splits)

lemma get_run_other:
  "get_run i (update_run_row run f db) = get_run i db" if "i \<noteq> run" "\<And>r. rn_id (f r) = rn_id r"
  using get_run_update [of f i run db, OF that(2)] that(1) get_run_id [of i db] by (cases "get_run i db") auto

definition run_status_of :: "string \<Rightarrow> pre_world \<Rightarrow> run_status option" where
  "run_status_of run w = map_option rn_status (get_run run (pw_runs w))"

lemma untouched_status: "untouched w w' \<Longrightarrow> run_status_of run w' = run_status_of run w"
  by (simp add: untouched_def run_status_of_def get_run_def)

lemma terminalize_ok:
  assumes "terminalize_preempted env a summary w = ((True, transitioned, detail), w')"
  shows "run_status_of (pa_run_id a) w' = Some Run_preempted"
    "if transitioned then run_status_of (pa_run_id a) w = Some Run_running else w' = w"
  using assms
  by (auto simp: terminalize_preempted_def terminalize_preemption_fenced_def run_status_of_def get_run_update update_run_def
      dest: get_run_id split: if_splits option.splits prod.splits)

section \<open>The requeued job\<close>

lemma requeue_exact_success:
  assumes "job_db_inv db" "find_row i db = Some r" "jr_state r = state_value RUNNING" "jr_current_run_id r = Some run" "run \<noteq> []"
    "resume_valid resume"
  shows "\<exists>j db'. requeue_exact i want run (jr_preemptions r) resume nb now db = (Inr j, db') \<and> job_step db db' \<and>
     (let r' = requeue_update want resume (if nb \<noteq> None then nb else jr_not_before r) (bumped want (jr_preemptions r)) now r
      in find_row i db' = Some r' \<and> row_to_job r' = Inr j)"
proof -
  let ?nb = "if nb \<noteq> None then nb else jr_not_before r"
  let ?r' = "requeue_update want resume ?nb (bumped want (jr_preemptions r)) now r"
  have ok: "row_ok r" using inv_row_ok [OF assms(1)] find_row_Some [OF assms(2)] by blast
  have g: "good_transition r ?r'" by (rule requeue_good [OF ok assms(3,6)])
  have st: "jr_state ?r' = state_value QUEUED" by (simp add: requeue_update_def)
  obtain j db' where j: "requeue_exact i want run (jr_preemptions r) resume nb now db = (Inr j, db')"
    "row_to_job ?r' = Inr j" "find_row i db' = Some ?r'"
    using update_success [OF assms(1,2), where f = "requeue_update want resume ?nb (bumped want (jr_preemptions r)) now"
        and p = "\<lambda>x. jr_job_id x = i \<and> jr_state x = state_value RUNNING \<and> jr_current_run_id x = Some run \<and> jr_preemptions x = jr_preemptions r"
        and t = QUEUED and ts = "utcnow_iso now" and kind = "''requeued''"
        and payload = "Some [(''waiting_reason'', JStr (waiting_value want)), (''preemptions'', JInt (bumped want (jr_preemptions r))),
             (''preempted_run_id'', JStr run)]", OF g _ _ st]
      find_row_Some [OF assms(2)] assms(2-5)
    by (fastforce simp: requeue_exact_def Let_def)
  moreover have "job_step db db'"
    using step_requeue_exact [OF assms(6), of db i want run "jr_preemptions r" nb now] j(1) by simp
  ultimately show ?thesis by (auto simp: Let_def)
qed

lemma requeue_exact_needs:
  assumes "requeue_exact i want run pre resume nb now db = (Inr j, db')"
  shows "\<exists>r. find_row i db = Some r \<and> jr_state r = state_value RUNNING \<and> jr_current_run_id r = Some run \<and> jr_preemptions r = pre \<and> run \<noteq> []"
  using assms by (auto simp: requeue_exact_def split: if_splits option.splits)

lemma requeue_exact_refused:
  assumes "job_db_inv db" "resume_valid resume" "requeue_exact i want run pre resume nb now db = (Inl e, db')"
  shows "db' = db"
proof (rule ccontr)
  assume "db' \<noteq> db"
  then obtain r where r: "find_row i db = Some r" "jr_state r = state_value RUNNING" "jr_current_run_id r = Some run"
    "jr_preemptions r = pre" "run \<noteq> []"
    using assms(3) by (auto simp: requeue_exact_def split: if_splits option.splits)
  from requeue_exact_success [OF assms(1) r(1-3,5) assms(2), of want nb now] r(4) assms(3) show False by simp
qed

lemma loaded_fields:
  assumes "row_to_job r = Inr j"
  shows "job_id j = jr_job_id r" "state_value (job_state j) = jr_state r" "job_current_run_id j = jr_current_run_id r"
    "job_preemptions j = jr_preemptions r" "job_not_before j = jr_not_before r" "job_repo j = jr_repo r"
    "job_base_sha j = jr_base_sha r" "read_resume (jr_resume_from r) = Inr (job_resume_from j)"
    "read_waiting (jr_waiting_reason r) = Inr (job_waiting_reason j)" "job_run_ids j = jr_run_ids r"
  using assms by (auto simp: row_to_job_def job_check_iff state_of_def state_value_def split: sum.splits option.splits if_splits)

lemma reconcile_keeps_count:
  assumes "find_row i db = Some r" "find_row i (snd (reconcile_transition i t f now db)) = Some r'"
  shows "jr_preemptions r' = jr_preemptions r"
proof -
  let ?p = "\<lambda>r. jr_job_id r = i \<and> jr_state r = state_value RUNNING"
  let ?f = "\<lambda>r. (reconcile_update t f r)\<lparr>jr_updated_at := utcnow_iso now\<rparr>"
  have "find (\<lambda>r. jr_job_id r = i) (update_row ?p ?f rows)
      = map_option (\<lambda>r. if ?p r then ?f r else r) (find (\<lambda>r. jr_job_id r = i) rows)" for rows
    unfolding update_row_def by (rule find_map_same) (simp add: reconcile_update_def)
  then show ?thesis
    using assms by (auto simp: reconcile_transition_def reconcile_cas_def cas_def Let_def find_row_def reconcile_update_def
        split: if_splits sum.splits option.splits)
qed

section \<open>The owning job\<close>

lemma loaded_row: "list_all2 (\<lambda>r j. row_to_job r = Inr j) rs js \<Longrightarrow> j \<in> set js \<Longrightarrow> \<exists>r \<in> set rs. row_to_job r = Inr j"
  by (induction rule: list_all2_induct) auto

lemma lookup_loads:
  assumes "job_db_inv (pw_jobs w)" "lookup_job env a already w = Some (Some j)"
  shows "\<exists>r. find_row (job_id j) (pw_jobs w) = Some r \<and> row_to_job r = Inr j"
proof -
  have listed: "\<exists>r. find_row (job_id j) (pw_jobs w) = Some r \<and> row_to_job r = Inr j"
    if listed: "list_jobs_raw (Some st) n (pw_jobs w) = Inr js" and member: "j \<in> set js" for st n js
  proof -
    obtain js' rs where "list_jobs_raw (Some st) n (pw_jobs w) = Inr js'" and rs: "list_all2 (\<lambda>r j. row_to_job r = Inr j) rs js'"
      "\<forall>r \<in> set rs. r \<in> set (db_jobs (pw_jobs w)) \<and> jr_state r = state_value st"
      using list_jobs_ok [OF assms(1), of st n] by blast
    with listed have "js' = js" by simp
    note rs = rs [unfolded this]
    obtain r where r: "r \<in> set rs" "row_to_job r = Inr j" using loaded_row [OF rs(1) member] by blast
    then have "find_row (jr_job_id r) (pw_jobs w) = Some r" using rs(2) inv_find_row [OF assms(1)] by blast
    then show ?thesis using r(2) loaded_fields(1) [OF r(2)] by auto
  qed
  show ?thesis
  proof (cases "pa_job_id a")
    case (Some i)
    with assms(2) have g: "get_job i (pw_jobs w) = Inr (Some j)" by (auto simp: lookup_job_def split: if_splits sum.splits)
    then obtain r where r: "find_row i (pw_jobs w) = Some r" "row_to_job r = Inr j"
      by (auto simp: get_job_def load_row_def split: option.splits sum.splits)
    then show ?thesis using loaded_fields(1) [OF r(2)] find_row_Some [OF r(1)] by simp
  next
    case None
    with assms(2) obtain st js where "list_jobs_raw (Some st) job_scan_limit (pw_jobs w) = Inr js" "j \<in> set js"
      by (auto simp: lookup_job_def find_job_for_run_def find_preempted_job_for_run_def
          split: if_splits sum.splits option.splits dest!: find_SomeD)
    then show ?thesis by (rule listed)
  qed
qed

lemma owning_job_row:
  assumes "job_db_inv (pw_jobs w)" "owning_job env a w = Inr j"
  shows "\<exists>r. find_row (job_id j) (pw_jobs w) = Some r \<and> row_to_job r = Inr j \<and> jr_state r = state_value RUNNING \<and>
     jr_current_run_id r = Some (pa_run_id a)"
proof -
  obtain already where "lookup_job env a already w = Some (Some j)" and j: "job_state j = RUNNING" "job_current_run_id j = Some (pa_run_id a)"
    using assms(2) by (auto simp: owning_job_def split: sum.splits option.splits if_splits)
  then obtain r where r: "find_row (job_id j) (pw_jobs w) = Some r" "row_to_job r = Inr j" using lookup_loads [OF assms(1)] by blast
  with j loaded_fields(2,3) [OF r(2)] show ?thesis by auto
qed

lemma owning_job_gate:
  assumes "owning_job env a w = Inr j"
  shows "\<exists>already. run_gate env a w = Inr already"
  using assms by (auto simp: owning_job_def split: sum.splits)

lemma gate_evidence:
  assumes "run_gate env a w = Inr already"
  shows "run_status_of (pa_run_id a) w = Some (if already then Run_preempted else Run_running)"
    "\<not> already \<Longrightarrow> has_genuine_quota_signal env (pa_run_id a) w \<and> has_no_eligible_evidence env (pa_run_id a) w"
  using assms by (auto simp: run_gate_def run_status_of_def split: if_splits option.splits)

lemma unowned_outcome:
  assumes "owning_job env a w = Inl out"
  shows "\<not> po_owned out \<or> (po_detail out = ''already_preempted'' \<and> \<not> po_limit_reached out)"
  using assms
  by (auto simp: owning_job_def run_gate_def declined_def already_preempted_def split: sum.splits option.splits if_splits)

section \<open>The contract\<close>

definition requeued_once :: "pre_args \<Rightarrow> preemption_outcome \<Rightarrow> pre_world \<Rightarrow> pre_world \<Rightarrow> bool" where
  \<comment> \<open>one job moved from the run to the queue, with one more preemption and the capsule to resume from\<close>
  "requeued_once a out w w' \<longleftrightarrow>
     (\<exists>i r r' sha handoff.
        find_row i (pw_jobs w) = Some r \<and> jr_state r = state_value RUNNING \<and> jr_current_run_id r = Some (pa_run_id a) \<and>
        jr_preemptions r < pa_max a \<and> job_step (pw_jobs w) (pw_jobs w') \<and> only_row i (pw_jobs w) (pw_jobs w') \<and>
        find_row i (pw_jobs w') = Some r' \<and> jr_state r' = state_value QUEUED \<and>
        jr_waiting_reason r' = Some (waiting_value PREEMPTED) \<and> jr_current_run_id r' = None \<and>
        jr_preemptions r' = jr_preemptions r + 1 \<and> (\<exists>k. po_job out = Some k \<and> row_to_job r' = Inr k) \<and>
        jr_resume_from r' = Some (resume_to_dict \<lparr>rf_run_id = pa_run_id a, rf_checkpoint_sha = sha, rf_handoff_id = handoff\<rparr>) \<and>
        po_checkpoint_sha out = Some sha \<and> po_handoff_id out = Some handoff \<and> po_preemptions out = Some (jr_preemptions r'))"

definition failed_at_bound :: "pre_env \<Rightarrow> pre_args \<Rightarrow> preemption_outcome \<Rightarrow> pre_world \<Rightarrow> pre_world \<Rightarrow> bool" where
  \<comment> \<open>the run ends failed, and the one job at the bound is failed for it with its count kept and
     reported, unless the job cannot be read or written, when no job moves\<close>
  "failed_at_bound env a out w w' \<longleftrightarrow>
     (\<exists>i r. find_row i (pw_jobs w) = Some r \<and> jr_state r = state_value RUNNING \<and> jr_current_run_id r = Some (pa_run_id a) \<and>
        pa_max a \<le> jr_preemptions r \<and> po_preemptions out = Some (jr_preemptions r) \<and>
        (if pe_fails env On_job \<or> pe_fails env On_fail_job then pw_jobs w' = pw_jobs w
         else only_row i (pw_jobs w) (pw_jobs w') \<and>
           (\<exists>r' k. find_row i (pw_jobs w') = Some r' \<and> jr_state r' = state_value FAILED \<and>
              jr_failure_reason r' = Some PREEMPTION_LIMIT \<and> jr_preemptions r' = jr_preemptions r \<and>
              row_to_job r' = Inr k \<and> po_job out = Some k))) \<and>
     (pa_token a \<noteq> None \<or> run_status_of (pa_run_id a) w = Some Run_running \<and> \<not> pe_fails env On_update_run \<longrightarrow>
        run_status_of (pa_run_id a) w' = Some Run_failed)"

definition preemption_contract ::
  "pre_env \<Rightarrow> pre_args \<Rightarrow> pre_world \<Rightarrow> py_error + preemption_outcome \<Rightarrow> pre_world \<Rightarrow> bool" where
  "preemption_contract env a w res w' \<longleftrightarrow>
     (case res of
        Inl e \<Rightarrow> untouched w w'
      | Inr out \<Rightarrow>
          if \<not> po_owned out then pw_jobs w' = pw_jobs w \<and> pw_owner w' = pw_owner w
          else if po_limit_reached out then failed_at_bound env a out w w'
          else if po_detail out = ''preempted'' then requeued_once a out w w' \<and> run_status_of (pa_run_id a) w' = Some Run_preempted
          else pw_jobs w' = pw_jobs w)"

definition bound_enforceable :: "pre_env \<Rightarrow> pre_args \<Rightarrow> pre_world \<Rightarrow> bool" where
  \<comment> \<open>a call without a token, or the owner's call for the running run with nothing failing\<close>
  "bound_enforceable env a w \<longleftrightarrow> pa_token a = None \<or>
     run_status_of (pa_run_id a) w = Some Run_running \<and>
     fenced_owner_row (pa_run_id a) (pa_token a) [Claimed] (pw_runs w) \<and> (\<forall>s. \<not> pe_fails env s)"

lemma fail_run_keeps:
  assumes "fail_run_at_limit env a j w = (res, w')"
  shows "pw_jobs w' = pw_jobs w \<and> pw_owner w' = pw_owner w"
  using assms
  by (auto simp: fail_run_at_limit_def Let_def log_event_def split: if_splits option.splits prod.splits)

lemma status_log: "log_event env run ev p w = Some w' \<Longrightarrow> run_status_of i w' = run_status_of i w"
  by (rule untouched_status [OF untouched_log])

lemma status_failed:
  "run_status_of run w \<noteq> None \<Longrightarrow>
     run_status_of run (w\<lparr>pw_runs := update_run run Run_failed c f s (pw_runs w)\<rparr>) = Some Run_failed"
proof -
  assume "run_status_of run w \<noteq> None"
  then obtain r where "get_run run (pw_runs w) = Some r" by (auto simp: run_status_of_def)
  then show ?thesis using get_run_id by (simp add: run_status_of_def update_run_def get_run_update)
qed

lemma status_terminalized:
  assumes "terminalize_run_fenced run t Run_failed s why states rel c now (pw_runs w) = (Some failed, db)"
  shows "run_status_of run (w\<lparr>pw_runs := db\<rparr>) = Some Run_failed"
proof -
  obtain r where r: "get_run run (pw_runs w) = Some r"
    using assms by (auto simp: terminalize_run_fenced_def split: option.splits)
  then have "get_run run ((pw_runs w)\<lparr>rb_attempts := xs\<rparr>) = Some r" for xs by (simp add: get_run_def)
  then show ?thesis
    using assms r get_run_id [OF r]
    by (auto simp: terminalize_run_fenced_def run_status_of_def get_run_update split: if_splits)
qed

lemma fail_run_ends:
  assumes "fail_run_at_limit env a j w = (res, w')"
    "pa_token a \<noteq> None \<and> res = Limit_failed_run \<or>
     pa_token a = None \<and> run_status_of (pa_run_id a) w = Some Run_running \<and> \<not> pe_fails env On_run \<and> \<not> pe_fails env On_update_run"
  shows "run_status_of (pa_run_id a) w' = Some Run_failed"
  using assms status_failed [of "pa_run_id a" w]
  by (auto simp: fail_run_at_limit_def Let_def run_status_of_def [of "pa_run_id a" w] dest!: status_log [where i = "pa_run_id a"] status_terminalized
      split: if_splits option.splits prod.splits)

lemma fail_run_enforced:
  assumes "fail_run_at_limit env a j w = (res, w')" "bound_enforceable env a w" "pa_token a \<noteq> None"
  shows "res = Limit_failed_run"
proof -
  obtain t where t: "pa_token a = Some t" using assms(3) by blast
  obtain r where r: "get_run (pa_run_id a) (pw_runs w) = Some r" "rn_status r = Run_running"
    using assms(2) t by (auto simp: bound_enforceable_def run_status_of_def)
  obtain failed db where f: "terminalize_run_fenced (pa_run_id a) (Some t) Run_failed (limit_summary j (pa_max a))
      (''preemption limit: '' @ limit_summary j (pa_max a)) [Claimed] ''preemption_limit'' (Some (isoformat (pe_now env))) (pe_stamp env)
      (pw_runs w) = (Some failed, db)"
    using r assms(2) t by (simp add: terminalize_run_fenced_def bound_enforceable_def terminal_run_def)
  have "run_status_of (pa_run_id a) (w\<lparr>pw_runs := db\<rparr>) = Some Run_failed" by (rule status_terminalized [OF f])
  then have "get_run (pa_run_id a) db \<noteq> None" by (auto simp: run_status_of_def)
  then show ?thesis
    using assms(1,2) t r f by (auto simp: fail_run_at_limit_def bound_enforceable_def log_event_def record_event_def Let_def)
qed

lemma fail_job_rows:
  assumes "job_db_inv (pw_jobs w)" "find_row (job_id j) (pw_jobs w) = Some r" "jr_state r = state_value RUNNING"
    "fail_job_at_limit env j w = (k, w')"
  shows "pw_owner w' = pw_owner w \<and> pw_runs w' = pw_runs w \<and>
    (if pe_fails env On_job \<or> pe_fails env On_fail_job then pw_jobs w' = pw_jobs w
     else only_row (job_id j) (pw_jobs w) (pw_jobs w') \<and>
       (\<exists>r' k'. k = Some k' \<and> find_row (job_id j) (pw_jobs w') = Some r' \<and> jr_state r' = state_value FAILED \<and>
          jr_failure_reason r' = Some PREEMPTION_LIMIT \<and> jr_preemptions r' = jr_preemptions r \<and> row_to_job r' = Inr k'))"
proof (cases "pe_fails env On_job \<or> pe_fails env On_fail_job")
  case False
  let ?call = "reconcile_transition (job_id j) FAILED (Some PREEMPTION_LIMIT) (pe_now env) (pw_jobs w)"
  obtain fresh where fresh: "get_job (job_id j) (pw_jobs w) = Inr (Some fresh)" "job_state fresh = RUNNING"
    using get_job_loads [OF assms(1,2)] assms(3) by auto
  have ok: "reconcile_args_ok FAILED (Some PREEMPTION_LIMIT)" by (simp add: reconcile_args_ok_def failure_reason_known_def)
  from reconcile_success [OF assms(1-3) ok, of "pe_now env"] obtain k' db' r' where
    c: "?call = (Inr k', db')" "find_row (job_id j) db' = Some r'" "jr_state r' = state_value FAILED"
       "jr_failure_reason r' = Some PREEMPTION_LIMIT" "row_to_job r' = Inr k'" by blast
  have res: "k = Some k'" "w' = w\<lparr>pw_jobs := db'\<rparr>"
    using assms(4) fresh False c(1) by (simp_all add: fail_job_at_limit_def)
  have "only_row (job_id j) (pw_jobs w) db'" using only_row_reconcile [of "job_id j" "pw_jobs w" FAILED "Some PREEMPTION_LIMIT" "pe_now env"] c(1) by simp
  moreover have "jr_preemptions r' = jr_preemptions r"
    using reconcile_keeps_count [OF assms(2), of FAILED "Some PREEMPTION_LIMIT" "pe_now env" r'] c(1,2) by simp
  ultimately show ?thesis using False c res by simp
qed (use assms(4) in \<open>auto simp: fail_job_at_limit_def split: option.splits sum.splits if_splits\<close>)

definition runs_for :: "pre_args \<Rightarrow> job \<Rightarrow> job_row \<Rightarrow> pre_world \<Rightarrow> bool" where
  \<comment> \<open>the row of the job that runs the run\<close>
  "runs_for a j r w \<longleftrightarrow> job_db_inv (pw_jobs w) \<and> find_row (job_id j) (pw_jobs w) = Some r \<and> row_to_job r = Inr j \<and>
     jr_state r = state_value RUNNING \<and> jr_current_run_id r = Some (pa_run_id a)"

lemma runs_for_jobs: "pw_jobs w' = pw_jobs w \<Longrightarrow> runs_for a j r w' = runs_for a j r w"
  by (simp add: runs_for_def)

lemma runs_for_count: "runs_for a j r w \<Longrightarrow> job_preemptions j = jr_preemptions r"
  using loaded_fields(4) by (simp add: runs_for_def)

lemma owning_job_runs: "job_db_inv (pw_jobs w) \<Longrightarrow> owning_job env a w = Inr j \<Longrightarrow> \<exists>r. runs_for a j r w"
  using owning_job_row by (fastforce simp: runs_for_def)

lemma resume_made:
  assumes "resume_from_of run sha handoff = Inr resume"
  shows "resume = \<lparr>rf_run_id = run, rf_checkpoint_sha = sha, rf_handoff_id = handoff\<rparr>" "resume_valid (Some resume)" "run \<noteq> []"
  using assms by (auto simp: resume_from_of_def resume_valid_def split: if_splits)

lemma requeue_step_rows:
  assumes "runs_for a j r w" "resume_valid (Some resume)" "requeue_step env a j resume nb w = (x, w1)"
  shows "case x of
      None \<Rightarrow> w1 = w
    | Some k \<Rightarrow> w1 = w\<lparr>pw_jobs := pw_jobs w1\<rparr> \<and> job_step (pw_jobs w) (pw_jobs w1) \<and> only_row (job_id j) (pw_jobs w) (pw_jobs w1) \<and>
        (\<exists>r'. find_row (job_id j) (pw_jobs w1) = Some r' \<and> row_to_job r' = Inr k \<and>
           r' = requeue_update PREEMPTED (Some resume) (if nb \<noteq> None then nb else jr_not_before r) (jr_preemptions r + 1) (pe_now env) r)"
proof -
  let ?call = "requeue_exact (job_id j) PREEMPTED (pa_run_id a) (job_preemptions j) (Some resume) nb (pe_now env) (pw_jobs w)"
  have inv: "job_db_inv (pw_jobs w)" and r: "find_row (job_id j) (pw_jobs w) = Some r" "jr_state r = state_value RUNNING"
    "jr_current_run_id r = Some (pa_run_id a)" and n: "job_preemptions j = jr_preemptions r"
    using assms(1) loaded_fields(4) [of r j] by (auto simp: runs_for_def)
  show ?thesis
  proof (cases x)
    case None
    then have "w1 = w \<or> (\<exists>e. fst ?call = Inl e \<and> w1 = w\<lparr>pw_jobs := snd ?call\<rparr>)"
      using assms(3) by (auto simp: requeue_step_def split: if_splits sum.splits prod.splits)
    moreover have "snd ?call = pw_jobs w" if "fst ?call = Inl e" for e
      using requeue_exact_refused [OF inv assms(2)] that by (metis prod.collapse)
    ultimately show ?thesis using None by auto
  next
    case (Some k)
    then have e: "?call = (Inr k, pw_jobs w1)" and w1: "w1 = w\<lparr>pw_jobs := pw_jobs w1\<rparr>"
      using assms(3) by (auto simp: requeue_step_def split: if_splits sum.splits prod.splits)
    have run: "pa_run_id a \<noteq> []" using requeue_exact_needs [OF e] by blast
    from requeue_exact_success [OF inv r run assms(2), of PREEMPTED nb "pe_now env"] e n
    show ?thesis using w1 Some only_row_requeue_exact [of "job_id j" "pw_jobs w" PREEMPTED "pa_run_id a" "job_preemptions j" "Some resume" nb "pe_now env"]
      by (auto simp: Let_def bumped_def)
  qed
qed

lemma settle_keeps [simp]: "pw_jobs (settle_run env run j w) = pw_jobs w" "pw_runs (settle_run env run j w) = pw_runs w"
    "pw_git (settle_run env run j w) = pw_git w"
  by (simp_all add: settle_run_def)

lemma requeue_and_settle_rows:
  assumes "runs_for a j r w" "jr_preemptions r < pa_max a" "requeue_and_settle env a j p nb w = (out, w')"
  shows "po_owned out \<and> \<not> po_limit_reached out \<and> pw_runs w' = pw_runs w \<and>
    (if po_detail out = ''preempted'' then requeued_once a out w w' else pw_jobs w' = pw_jobs w)"
proof (cases "resume_from_of (pa_run_id a) (pp_sha p) (pp_handoff p)")
  case (Inl e)
  then show ?thesis using assms(3) by (auto simp: requeue_and_settle_def Let_def preempted_outcome_def)
next
  case (Inr resume)
  note res = resume_made [OF Inr]
  obtain x w1 where x: "requeue_step env a j resume nb w = (x, w1)" by fastforce
  note rows = requeue_step_rows [OF assms(1) res(2) x]
  show ?thesis
  proof (cases x)
    case None
    then show ?thesis using assms(3) Inr x rows by (auto simp: requeue_and_settle_def Let_def preempted_outcome_def)
  next
    case (Some k)
    with rows obtain r' where w1: "w1 = w\<lparr>pw_jobs := pw_jobs w1\<rparr>" "job_step (pw_jobs w) (pw_jobs w1)"
      "only_row (job_id j) (pw_jobs w) (pw_jobs w1)" "find_row (job_id j) (pw_jobs w1) = Some r'" "row_to_job r' = Inr k"
      "r' = requeue_update PREEMPTED (Some resume) (if nb \<noteq> None then nb else jr_not_before r) (jr_preemptions r + 1) (pe_now env) r"
      by auto
    have out: "out = preempted_outcome ''preempted'' (preempted_summary (pa_run_id a) j p) p (pa_run_id a) k (job_preemptions k) (job_not_before k)"
      "w' = settle_run env (pa_run_id a) j w1"
      using assms(3) Inr x Some by (auto simp: requeue_and_settle_def Let_def)
    have "requeued_once a out w w'"
      unfolding requeued_once_def
      using assms(1,2) w1 out res(1) loaded_fields(4) [OF w1(5)]
      by (intro exI [of _ "job_id j"] exI [of _ r] exI [of _ r'] exI [of _ "pp_sha p"] exI [of _ "pp_handoff p"])
         (simp add: runs_for_def requeue_update_def preempted_outcome_def)
    moreover have "pw_runs w1 = pw_runs w" by (subst w1(1)) simp
    ultimately show ?thesis using out by (simp add: preempted_outcome_def)
  qed
qed

lemma requeued_once_from:
  assumes "requeued_once a out w1 w'" "pw_jobs w1 = pw_jobs w"
  shows "requeued_once a out w w'"
  using assms by (simp add: requeued_once_def)

lemma finish_rows:
  assumes "runs_for a j r w" "jr_preemptions r < pa_max a" "finish_preemption env a j p nb w = (out, w')"
  shows "if \<not> po_owned out then w' = w
    else \<not> po_limit_reached out \<and> run_status_of (pa_run_id a) w' = Some Run_preempted \<and>
      (if po_detail out = ''preempted'' then requeued_once a out w w' else pw_jobs w' = pw_jobs w)"
proof -
  obtain ok t d w1 where t: "terminalize_preempted env a (preempted_summary (pa_run_id a) j p) w = ((ok, t, d), w1)"
    by (metis prod.collapse)
  note keeps = terminalize_keeps [OF t]
  show ?thesis
  proof (cases ok)
    case False
    then show ?thesis using assms(3) t keeps(7) by (auto simp: finish_preemption_def declined_def)
  next
    case True
    let ?w2 = "if t then announce_preempted env a j p nb w1 else w1"
    have e: "requeue_and_settle env a j p nb ?w2 = (out, w')" using assms(3) t True by (simp add: finish_preemption_def)
    have u: "untouched w1 ?w2" by (simp add: announce_preempted_def)
    have jobs: "pw_jobs ?w2 = pw_jobs w" using u keeps(1) by (simp add: untouched_def)
    note rows = requeue_and_settle_rows [OF assms(1) [folded runs_for_jobs [OF jobs]] assms(2) e]
    have t': "terminalize_preempted env a (preempted_summary (pa_run_id a) j p) w = ((True, t, d), w1)" using t True by simp
    have "run_status_of (pa_run_id a) w1 = Some Run_preempted" by (rule terminalize_ok(1) [OF t'])
    then have "run_status_of (pa_run_id a) w' = Some Run_preempted"
      using rows untouched_status [OF u] by (simp add: run_status_of_def)
    with rows jobs requeued_once_from [OF _ jobs] show ?thesis by (simp split: if_splits)
  qed
qed

lemma limit_rows:
  assumes "runs_for a j r w" "pa_max a \<le> jr_preemptions r" "fail_at_limit env a j w = (out, w')" "\<not> pe_fails env On_run"
  shows "if \<not> po_owned out then pw_jobs w' = pw_jobs w \<and> pw_owner w' = pw_owner w
    else po_limit_reached out \<and> failed_at_bound env a out w w'"
    "bound_enforceable env a w \<Longrightarrow> po_owned out"
proof -
  obtain res w1 where f: "fail_run_at_limit env a j w = (res, w1)" by fastforce
  obtain k w2 where k: "fail_job_at_limit env j w1 = (k, w2)" by fastforce
  note keeps = fail_run_keeps [OF f]
  have runs: "runs_for a j r w1" using assms(1) runs_for_jobs [of w1 w a j r] keeps by simp
  then have runs': "job_db_inv (pw_jobs w1)" "find_row (job_id j) (pw_jobs w1) = Some r" "jr_state r = state_value RUNNING"
    by (simp_all add: runs_for_def)
  note rows = fail_job_rows [OF runs' k]
  show "po_owned out" if e: "bound_enforceable env a w"
  proof (cases "pa_token a")
    case None
    then have "res \<noteq> Limit_refused" using f by (auto simp: fail_run_at_limit_def Let_def split: if_splits option.splits)
    then show ?thesis using assms(3) f k None by (auto simp: fail_at_limit_def)
  next
    case (Some t)
    then have "res = Limit_failed_run" using fail_run_enforced [OF f e] by simp
    then show ?thesis using assms(3) f k by (auto simp: fail_at_limit_def)
  qed
  show "if \<not> po_owned out then pw_jobs w' = pw_jobs w \<and> pw_owner w' = pw_owner w
    else po_limit_reached out \<and> failed_at_bound env a out w w'"
  proof (cases "po_owned out")
    case False
    then show ?thesis using assms(3) f k keeps by (auto simp: fail_at_limit_def declined_def split: if_splits)
  next
    case True
    then have out: "po_limit_reached out" "w' = settle_run env (pa_run_id a) j w2" "po_preemptions out = Some (job_preemptions j)"
      "po_job out = Some (case k of None \<Rightarrow> j | Some k' \<Rightarrow> k')" "pa_token a \<noteq> None \<Longrightarrow> res = Limit_failed_run"
      using assms(3) f k by (cases res; auto simp: fail_at_limit_def declined_def split: if_splits)+
    have "run_status_of (pa_run_id a) w1 = Some Run_failed"
      if "pa_token a \<noteq> None \<or> run_status_of (pa_run_id a) w = Some Run_running \<and> \<not> pe_fails env On_update_run"
      by (rule fail_run_ends [OF f]) (use out(5) that assms(4) in \<open>cases "pa_token a", simp_all\<close>)
    then have "pa_token a \<noteq> None \<or> run_status_of (pa_run_id a) w = Some Run_running \<and> \<not> pe_fails env On_update_run \<longrightarrow>
        run_status_of (pa_run_id a) w' = Some Run_failed"
      using rows out(2) by (simp add: run_status_of_def)
    moreover have jobs: "pw_jobs w' = pw_jobs w2" using out(2) by simp
    moreover have "if pe_fails env On_job \<or> pe_fails env On_fail_job then pw_jobs w' = pw_jobs w
         else only_row (job_id j) (pw_jobs w) (pw_jobs w') \<and>
           (\<exists>r' k. find_row (job_id j) (pw_jobs w') = Some r' \<and> jr_state r' = state_value FAILED \<and>
              jr_failure_reason r' = Some PREEMPTION_LIMIT \<and> jr_preemptions r' = jr_preemptions r \<and>
              row_to_job r' = Inr k \<and> po_job out = Some k)"
    proof (cases "pe_fails env On_job \<or> pe_fails env On_fail_job")
      case False
      then obtain r' k' where "k = Some k'" "find_row (job_id j) (pw_jobs w2) = Some r'" "jr_state r' = state_value FAILED"
          "jr_failure_reason r' = Some PREEMPTION_LIMIT" "jr_preemptions r' = jr_preemptions r" "row_to_job r' = Inr k'"
          "only_row (job_id j) (pw_jobs w1) (pw_jobs w2)" using rows by auto
      then show ?thesis using False keeps out(4) jobs by auto
    qed (use rows keeps jobs in simp)
    moreover have "find_row (job_id j) (pw_jobs w) = Some r" "jr_state r = state_value RUNNING" "jr_current_run_id r = Some (pa_run_id a)"
      using assms(1) by (simp_all add: runs_for_def)
    moreover have "po_preemptions out = Some (jr_preemptions r)" using out(3) runs_for_count [OF assms(1)] by simp
    ultimately have "failed_at_bound env a out w w'"
      unfolding failed_at_bound_def using assms(2) by blast
    with True out(1) show ?thesis by simp
  qed
qed

lemma complete_cases:
  assumes "complete_preemption env a w = (res, w')"
  obtains (unowned) out where "owning_job env a w = Inl out" "res = Inr out" "w' = w"
  | (limit) j out where "owning_job env a w = Inr j" "pa_max a \<le> job_preemptions j" "fail_at_limit env a j w = (out, w')" "res = Inr out"
  | (prepared) j p w1 out where "owning_job env a w = Inr j" "job_preemptions j < pa_max a"
      "prepare_preemption env a j (quota_reset_eta env (pa_run_id a) w) w = (Inr (Inr p), w1)"
      "finish_preemption env a j p (quota_reset_eta env (pa_run_id a) w) w1 = (out, w')" "res = Inr out"
  | (stopped) j x where "owning_job env a w = Inr j" "job_preemptions j < pa_max a"
      "prepare_preemption env a j (quota_reset_eta env (pa_run_id a) w) w = (x, w')"
      "(\<exists>e. x = Inl e \<and> res = Inl e) \<or> (\<exists>out. x = Inr (Inl out) \<and> res = Inr out)"
proof (cases "owning_job env a w")
  case (Inl out)
  with assms have "res = Inr out" "w' = w" by (simp_all add: complete_preemption_def)
  then show ?thesis by (rule unowned [OF Inl])
next
  case (Inr j)
  obtain x w1 where x: "prepare_preemption env a j (quota_reset_eta env (pa_run_id a) w) w = (x, w1)" by fastforce
  show ?thesis
  proof (cases "pa_max a \<le> job_preemptions j")
    case True
    obtain out w2 where "fail_at_limit env a j w = (out, w2)" by fastforce
    with assms Inr True have "fail_at_limit env a j w = (out, w')" "res = Inr out" by (simp_all add: complete_preemption_def)
    then show ?thesis by (rule limit [OF Inr True])
  next
    case False
    then have n: "job_preemptions j < pa_max a" by simp
    consider (raised) e where "x = Inl e" | (ended) out where "x = Inr (Inl out)" | (ready) p where "x = Inr (Inr p)"
      by (metis sum.exhaust)
    then show ?thesis
    proof cases
      case (ready p)
      obtain out w2 where f: "finish_preemption env a j p (quota_reset_eta env (pa_run_id a) w) w1 = (out, w2)" by fastforce
      with assms Inr n x ready have "w2 = w'" "res = Inr out" by (simp_all add: complete_preemption_def)
      with f show ?thesis using prepared [OF Inr n x [unfolded ready]] by blast
    next
      case (raised e)
      with assms Inr n x have "w1 = w'" "res = Inl e" by (simp_all add: complete_preemption_def)
      then show ?thesis using stopped [OF Inr n, of x] x raised by blast
    next
      case (ended out)
      with assms Inr n x have "w1 = w'" "res = Inr out" by (simp_all add: complete_preemption_def)
      then show ?thesis using stopped [OF Inr n, of x] x ended by blast
    qed
  qed
qed

lemma stopped_declined:
  assumes "prepare_preemption env a j nb w = (Inr (Inl out), w')"
  shows "\<not> po_owned out"
  using assms
  by (auto simp: prepare_preemption_def decision_step_def prepare_artifacts_def intent_step_def declined_def
      split: if_splits sum.splits option.splits prod.splits bool.splits)

lemma owning_job_reads: "owning_job env a w = Inr j \<Longrightarrow> \<not> pe_fails env On_run"
  by (auto simp: owning_job_def run_gate_def)

lemma complete_contract:
  assumes "job_db_inv (pw_jobs w)" "complete_preemption env a w = (res, w')"
  shows "preemption_contract env a w res w'"
  using assms(2)
proof (cases rule: complete_cases)
  case (unowned out)
  then show ?thesis using unowned_outcome [OF unowned(1)] by (auto simp: preemption_contract_def)
next
  case (limit j out)
  then obtain r where r: "runs_for a j r w" using owning_job_runs [OF assms(1)] by blast
  have "pa_max a \<le> jr_preemptions r" using limit(2) runs_for_count [OF r] by simp
  from limit_rows(1) [OF r this limit(3) owning_job_reads [OF limit(1)]] limit(4)
  show ?thesis by (simp add: preemption_contract_def split: if_splits)
next
  case (prepared j p w1 out)
  then obtain r where r: "runs_for a j r w" using owning_job_runs [OF assms(1)] by blast
  have u: "untouched w w1" by (rule untouched_prepare [OF prepared(3)])
  then have jobs: "pw_jobs w1 = pw_jobs w" "pw_owner w1 = pw_owner w" by (simp_all add: untouched_def)
  have n: "jr_preemptions r < pa_max a" using runs_for_count [OF r] prepared(2) by simp
  from finish_rows [OF r [folded runs_for_jobs [OF jobs(1)]] n prepared(4)] requeued_once_from [OF _ jobs(1)] jobs prepared(5)
  show ?thesis by (auto simp: preemption_contract_def split: if_splits)
next
  case (stopped j x)
  then show ?thesis using untouched_prepare [OF stopped(3)] stopped_declined
    by (auto simp: preemption_contract_def untouched_def)
qed

lemma bound_enforced:
  assumes "job_db_inv (pw_jobs w)" "complete_preemption env a w = (res, w')" "owning_job env a w = Inr j"
    "pa_max a \<le> job_preemptions j" "bound_enforceable env a w"
  shows "\<exists>out. res = Inr out \<and> po_owned out \<and> po_limit_reached out"
proof -
  obtain r where r: "runs_for a j r w" using owning_job_runs [OF assms(1,3)] by blast
  obtain out w2 where f: "fail_at_limit env a j w = (out, w2)" by fastforce
  have "pa_max a \<le> jr_preemptions r" using assms(4) runs_for_count [OF r] by simp
  note rows = limit_rows [OF r this f owning_job_reads [OF assms(3)]]
  have "res = Inr out" using assms(2-4) f by (simp add: complete_preemption_def)
  then show ?thesis using rows(1) rows(2) [OF assms(5)] by simp
qed

text \<open>C3: A preemption is exact.  An outcome the coordinator does not own, and an exception, leave
  every job and every reservation as they were.  An outcome it calls preempted moved exactly one
  job, which was running exactly this run below the bound, to the queue with exactly one more
  preemption and the capsule to resume from, and the run is terminal.  An outcome at the bound
  fails exactly the job of the run, its count kept, with the reason of the bound, unless the job
  cannot be read or written at that moment, when no job moves; under an owner token, or for a
  running run that can be written, the run then is failed too.  Every further outcome it owns
  moves no job.  The bound is enforced: for a job at the bound a call without a token, or the
  claimed owner's call for a running run with nothing failing, ends with the outcome of the
  bound.\<close>
theorem preemption_is_exact:
  assumes "job_db_inv (pw_jobs w)" "complete_preemption env a w = (res, w')"
  shows "preemption_contract env a w res w' \<and>
    (\<forall>j. owning_job env a w = Inr j \<longrightarrow> pa_max a \<le> job_preemptions j \<longrightarrow> bound_enforceable env a w \<longrightarrow>
       (\<exists>out. res = Inr out \<and> po_owned out \<and> po_limit_reached out))"
  using complete_contract [OF assms] bound_enforced [OF assms] by blast

end
