(* ===== verification/Preemption_Recovery.thy ===== *)
theory Preemption_Recovery
  imports Preemption_Laws
begin

text \<open>
  Evidence and recovery of a preemption.  A run becomes \<open>PREEMPTED\<close> only with genuine quota evidence,
  behind a recorded decision and a verified anchor; and from every state a crash can leave behind,
  the recovery that holds the dead owner's token completes the same preemption and counts it once.
\<close>

section \<open>What the preparing steps leave behind\<close>

definition receipt_recorded :: "string \<Rightarrow> string \<Rightarrow> pre_world \<Rightarrow> bool" where
  "receipt_recorded run job w \<longleftrightarrow>
     (\<exists>e \<in> set (rb_events (pw_runs w)). rv_run_id e = run \<and> rv_type e = PREPARATION_EVENT \<and>
        (\<exists>d. rv_payload e = Some d \<and> json_get d ''job_id'' = JStr job))"

definition capsule_of :: "string \<Rightarrow> string \<Rightarrow> pre_world \<Rightarrow> bool" where
  "capsule_of run handoff w \<longleftrightarrow> (\<exists>h. get_handoff handoff (pw_runs w) = Some h \<and> ho_run_id h = run)"

definition anchored :: "string \<Rightarrow> prepared \<Rightarrow> pre_world \<Rightarrow> bool" where
  "anchored job p w \<longleftrightarrow>
     (\<exists>i. parse_checkpoint_ref (pp_ref p) job = Inr (Some i) \<and> read_checkpoint_ref (pw_git w) job i = Some (Some (pp_sha p)))"

definition intent_recorded :: "string \<Rightarrow> string \<Rightarrow> prepared \<Rightarrow> pre_world \<Rightarrow> bool" where
  \<comment> \<open>an intent of the run for the job that names exactly this commit, ref and capsule\<close>
  "intent_recorded run job p w \<longleftrightarrow>
     (\<exists>e \<in> set (rb_events (pw_runs w)). rv_run_id e = run \<and> rv_type e = INTENT_EVENT \<and>
        (\<exists>d. rv_payload e = Some d \<and> json_get d ''job_id'' = JStr job \<and> json_get d ''checkpoint_sha'' = JStr (pp_sha p) \<and>
           json_get d ''checkpoint_ref'' = JStr (pp_ref p) \<and> json_get d ''handoff_id'' = JStr (pp_handoff p)))"

definition keeps_evidence :: "pre_world \<Rightarrow> pre_world \<Rightarrow> bool" where
  \<comment> \<open>events and handoffs are only appended, refs and commits only added\<close>
  "keeps_evidence w w' \<longleftrightarrow>
     prefix (rb_events (pw_runs w)) (rb_events (pw_runs w')) \<and> prefix (rb_handoffs (pw_runs w)) (rb_handoffs (pw_runs w')) \<and>
     (\<forall>r v. dict_get (gr_refs (pw_git w)) r = Some v \<longrightarrow> dict_get (gr_refs (pw_git w')) r = Some v) \<and>
     set (gr_commits (pw_git w)) \<subseteq> set (gr_commits (pw_git w'))"

lemma keeps_evidence_refl [simp]: "keeps_evidence w w"
  by (simp add: keeps_evidence_def)

lemma keeps_evidence_trans: "keeps_evidence a b \<Longrightarrow> keeps_evidence b c \<Longrightarrow> keeps_evidence a c"
  by (auto simp: keeps_evidence_def intro: prefix_order.trans)

lemma keeps_receipt: "keeps_evidence w w' \<Longrightarrow> receipt_recorded run job w \<Longrightarrow> receipt_recorded run job w'"
  by (auto simp: keeps_evidence_def receipt_recorded_def prefix_def)

lemma keeps_intended: "keeps_evidence w w' \<Longrightarrow> intent_recorded run job p w \<Longrightarrow> intent_recorded run job p w'"
  unfolding keeps_evidence_def intent_recorded_def prefix_def by fastforce

lemma find_prefix: "find P xs = Some x \<Longrightarrow> find P (xs @ ys) = Some x"
  by (induction xs) (auto split: if_splits)

lemma keeps_capsule: "keeps_evidence w w' \<Longrightarrow> capsule_of run h w \<Longrightarrow> capsule_of run h w'"
  unfolding keeps_evidence_def capsule_of_def get_handoff_def prefix_def by (metis find_prefix)

lemma read_ref_direct:
  "read_checkpoint_ref g job i = Some (Some sha) \<longleftrightarrow>
     (\<exists>ref. validate_checkpoint_ref job i = Some ref \<and> dict_get (gr_refs g) ref = Some (Direct sha) \<and> sha \<in> set (gr_commits g))"
  by (auto simp: read_checkpoint_ref_def checkpoint_ref_state_def split: option.splits git_ref.splits)

lemma keeps_anchored: "keeps_evidence w w' \<Longrightarrow> anchored job p w \<Longrightarrow> anchored job p w'"
  unfolding keeps_evidence_def anchored_def read_ref_direct by blast

lemma keeps_log: "log_event env run ev p w = Some w' \<Longrightarrow> keeps_evidence w w'"
  by (auto simp: log_event_def record_event_def keeps_evidence_def split: if_splits)

lemma keeps_try_log [simp]: "keeps_evidence w (try_log env run ev p w)"
  by (auto simp: try_log_def keeps_log split: option.splits)

lemma keeps_decision_step: "decision_step env a j w = (r, w') \<Longrightarrow> keeps_evidence w w'"
  by (auto simp: decision_step_def record_preparation_decision_def keeps_log
      split: sum.splits if_splits prod.splits option.splits)

lemma keeps_commit: "keeps_evidence w (w\<lparr>pw_git := commit_worktree path sha (pw_git w)\<rparr>)"
  by (auto simp: keeps_evidence_def commit_worktree_def)

lemma keeps_resolve: "resolve_anchor_sha env repo run j wt base w = (r, w') \<Longrightarrow> keeps_evidence w w'"
  by (auto simp: resolve_anchor_sha_def snapshot_worktree_def create_checkpoint_commit_def Let_def keeps_commit
      split: if_splits option.splits commit_result.splits prod.splits)

lemma keeps_handoffs: "create_handoffs env run w = (r, w') \<Longrightarrow> keeps_evidence w w'"
  by (auto simp: create_handoffs_def Let_def keeps_evidence_def log_event_def record_event_def
      dest!: untouched_create_handoff split: if_splits option.splits)

lemma keeps_anchor: "engine_refs (pw_git w) job \<Longrightarrow> anchor_step env job sha w = (r, w') \<Longrightarrow> keeps_evidence w w'"
  by (auto simp: anchor_step_def keeps_evidence_def anchored_at_def dest: anchor_is_create_only_aux
      split: if_splits option.splits prod.splits)

lemma keeps_row [simp]: "keeps_evidence w (ensure_old_checkpoint_row env run j sha h w)"
  by (auto simp: ensure_old_checkpoint_row_def create_worker_checkpoint_def keeps_evidence_def split: prod.splits option.splits if_splits)

lemma keeps_intent: "intent_step env a j p nb w = (r, w') \<Longrightarrow> keeps_evidence w w'"
  by (auto simp: intent_step_def keeps_log split: option.splits)

section \<open>A prepared preemption is verified\<close>

lemma decision_payload_recorded: "decision_payload env run job w \<noteq> None \<Longrightarrow> receipt_recorded run job w"
proof -
  assume "decision_payload env run job w \<noteq> None"
  then obtain d where "d \<in> set (event_payloads env run PREPARATION_EVENT w)" "json_get d ''job_id'' = JStr job"
    by (auto simp: decision_payload_def payload_for_def dest!: find_SomeD)
  then show ?thesis
    by (force simp: receipt_recorded_def event_payloads_def get_events_by_type_def json_get_def split: if_splits option.splits)
qed

lemma decision_names_job: "json_get (decision_to_payload d) ''job_id'' = JStr (pd_job_id d)"
  by (simp add: decision_to_payload_def json_get_def)

lemma decision_step_recorded:
  assumes "decision_step env a j w = (Inr None, w1)"
  shows "receipt_recorded (pa_run_id a) (job_id j) w1"
proof -
  let ?d = "build_preemption_decision env (pa_run_id a) j (pa_owner_id a) (pa_generation a) (pa_decision_ref a) w"
  obtain ok w2 where r: "record_preparation_decision env ?d w = (ok, w2)" by fastforce
  with assms have "w2 = w1" and "ok \<or> decision_payload env (pa_run_id a) (job_id j) w1 \<noteq> None"
    by (auto simp: decision_step_def split: sum.splits if_splits)
  moreover have "receipt_recorded (pa_run_id a) (job_id j) w2" if "ok"
    using r that decision_names_job [of ?d]
    by (auto simp: record_preparation_decision_def log_event_def record_event_def receipt_recorded_def build_preemption_decision_def
        split: if_splits option.splits)
  ultimately show ?thesis using decision_payload_recorded by blast
qed

lemma created_capsule:
  assumes "create_handoffs env run w = (Some h, w')"
  shows "capsule_of run h w' \<and> h = pe_capsule_id env"
proof -
  obtain f r1 c r2 where f: "create_handoff f (pw_runs w) = Some r1" and c: "create_handoff c r1 = Some r2"
    and h: "h = ho_id c" "ho_id c = pe_capsule_id env" "ho_run_id c = run" and e: "rb_handoffs (pw_runs w') = rb_handoffs r2"
    using assms by (auto simp: create_handoffs_def Let_def new_handoff_def log_event_def record_event_def split: if_splits option.splits)
  have "\<forall>k \<in> set (rb_handoffs r1). ho_id k \<noteq> ho_id c" using c by (auto simp: create_handoff_def list_ex_iff split: if_splits)
  then have "find (\<lambda>k. ho_id k = ho_id c) (rb_handoffs r1) = None" by (auto simp: find_None_iff)
  then show ?thesis using untouched_create_handoff [OF c] e h by (simp add: capsule_of_def get_handoff_def find_append_single)
qed

lemma parse_ref_name:
  assumes "0 \<le> i" "i \<le> MAX_CHECKPOINT_INDEX"
  shows "parse_checkpoint_ref (checkpoint_ref_name job i) job = Inr (Some i)"
proof -
  have "int_text i \<noteq> [] \<and> list_all py_isdigit (int_text i)"
    using nat_text_reads [of "nat i"] assms(1) by (auto simp: int_text_def ascii_decimal_def list_all_iff)
  then show ?thesis using assms by (simp add: parse_checkpoint_ref_def checkpoint_ref_name_def py_text Let_def)
qed

lemma anchor_step_anchored:
  assumes "engine_refs (pw_git w) job" "anchor_step env job sha w = (Some ref, w')"
  shows "anchored job \<lparr>pp_sha = sha, pp_ref = ref, pp_handoff = h\<rparr> w' \<and> engine_refs (pw_git w') job"
proof -
  obtain i g where g: "anchor_verified_ref (pw_git w) job sha = Some ((ref, i), g)" "w' = w\<lparr>pw_git := g\<rparr>"
    using assms(2) by (auto simp: anchor_step_def split: if_splits option.splits prod.splits)
  from anchor_is_create_only_aux [OF assms(1) g(1)] g(2) show ?thesis
    by (auto simp: anchored_at_def anchored_def parse_ref_name)
qed

lemma engine_refs_more:
  assumes "engine_refs g job" "gr_refs g' = gr_refs g" "set (gr_commits g) \<subseteq> set (gr_commits g')"
  shows "engine_refs g' job"
  using assms unfolding engine_refs_def by (fastforce split: prod.splits)

lemma resolve_refs: "resolve_anchor_sha env repo run j wt base w = (r, w') \<Longrightarrow> gr_refs (pw_git w') = gr_refs (pw_git w)"
  by (auto simp: resolve_anchor_sha_def snapshot_worktree_def create_checkpoint_commit_def Let_def commit_worktree_def
      split: if_splits option.splits commit_result.splits prod.splits)

lemma handoffs_git: "create_handoffs env run w = (r, w') \<Longrightarrow> pw_git w' = pw_git w"
  by (auto simp: create_handoffs_def Let_def log_event_def split: if_splits option.splits)

lemma log_git: "log_event env run ev p w = Some w' \<Longrightarrow> pw_git w' = pw_git w"
  by (auto simp: log_event_def split: if_splits)

lemma decision_step_git: "decision_step env a j w = (r, w') \<Longrightarrow> pw_git w' = pw_git w"
  by (auto simp: decision_step_def record_preparation_decision_def log_git split: sum.splits if_splits prod.splits option.splits)

definition prepared_well :: "string \<Rightarrow> string \<Rightarrow> prepared \<Rightarrow> pre_world \<Rightarrow> bool" where
  "prepared_well run job p w \<longleftrightarrow> receipt_recorded run job w \<and> anchored job p w \<and> capsule_of run (pp_handoff p) w"

lemma keeps_prepared: "keeps_evidence w w' \<Longrightarrow> prepared_well run job p w \<Longrightarrow> prepared_well run job p w'"
  using keeps_receipt keeps_anchored keeps_capsule by (simp add: prepared_well_def)

lemma artifacts_chain:
  assumes "prepare_artifacts env a j nb w1 = (Inr p, w6)"
  obtains w2 w3 w4 where
    "resolve_anchor_sha env (pa_repo a) (pa_run_id a) j (pa_worktree a) (pa_base_sha a) w1 = (Some (pp_sha p), w2)"
    "create_handoffs env (pa_run_id a) w2 = (Some (pp_handoff p), w3)" "anchor_step env (job_id j) (pp_sha p) w3 = (Some (pp_ref p), w4)"
    "intent_step env a j p nb (ensure_old_checkpoint_row env (pa_run_id a) j (pp_sha p) (pp_handoff p) w4) = (Inr p, w6)"
proof -
  obtain s w2 where s: "resolve_anchor_sha env (pa_repo a) (pa_run_id a) j (pa_worktree a) (pa_base_sha a) w1 = (s, w2)" by fastforce
  obtain h w3 where h: "create_handoffs env (pa_run_id a) w2 = (h, w3)" by fastforce
  obtain x w4 where x: "anchor_step env (job_id j) (the s) w3 = (x, w4)" by fastforce
  have "\<exists>sha hid ref. s = Some sha \<and> h = Some hid \<and> x = Some ref"
    using assms s h x by (auto simp: prepare_artifacts_def split: option.splits)
  then obtain sha hid ref where e: "s = Some sha" "h = Some hid" "x = Some ref" by blast
  have i: "intent_step env a j \<lparr>pp_sha = sha, pp_ref = ref, pp_handoff = hid\<rparr> nb
      (ensure_old_checkpoint_row env (pa_run_id a) j sha hid w4) = (Inr p, w6)"
    using assms s h x e by (simp add: prepare_artifacts_def)
  then have "p = \<lparr>pp_sha = sha, pp_ref = ref, pp_handoff = hid\<rparr>" by (auto simp: intent_step_def split: option.splits)
  with s h x e i show ?thesis using that [of w2 w3 w4] by simp
qed

lemma artifacts_well:
  assumes "engine_refs (pw_git w1) (job_id j)" "prepare_artifacts env a j nb w1 = (Inr p, w6)"
  shows "anchored (job_id j) p w6 \<and> capsule_of (pa_run_id a) (pp_handoff p) w6 \<and> keeps_evidence w1 w6"
proof -
  obtain w2 w3 w4 where
    s: "resolve_anchor_sha env (pa_repo a) (pa_run_id a) j (pa_worktree a) (pa_base_sha a) w1 = (Some (pp_sha p), w2)"
    and h: "create_handoffs env (pa_run_id a) w2 = (Some (pp_handoff p), w3)"
    and x: "anchor_step env (job_id j) (pp_sha p) w3 = (Some (pp_ref p), w4)"
    and i: "intent_step env a j p nb (ensure_old_checkpoint_row env (pa_run_id a) j (pp_sha p) (pp_handoff p) w4) = (Inr p, w6)"
    by (rule artifacts_chain [OF assms(2)])
  note k2 = keeps_resolve [OF s]
  note k3 = keeps_handoffs [OF h]
  have refs: "engine_refs (pw_git w3) (job_id j)"
    using engine_refs_more [OF assms(1) resolve_refs [OF s]] k2 handoffs_git [OF h] by (simp add: keeps_evidence_def)
  note k4 = keeps_anchor [OF refs x]
  note k6 = keeps_evidence_trans [OF keeps_row keeps_intent [OF i]]
  have "anchored (job_id j) p w4"
    using anchor_step_anchored [OF refs x, of "pp_handoff p"] by (cases p) simp
  moreover have "capsule_of (pa_run_id a) (pp_handoff p) w3" using created_capsule [OF h] by blast
  ultimately show ?thesis
    using keeps_anchored [OF k6] keeps_capsule [OF keeps_evidence_trans [OF k4 k6]]
      keeps_evidence_trans [OF keeps_evidence_trans [OF k2 k3] keeps_evidence_trans [OF k4 k6]] by blast
qed

lemma reused_well:
  assumes "authenticate_prepared_transaction env run j before w = Inr tx" "tx_ok tx" "tx_artifacts tx = Some r"
  shows "prepared_well run (job_id j) \<lparr>pp_sha = ar_checkpoint_sha r, pp_ref = ar_checkpoint_ref r, pp_handoff = ar_handoff_id r\<rparr> w"
proof -
  from assms obtain q where d: "decision_payload env run (job_id j) w \<noteq> None" and q: "verify_prepared_artifacts env run j q before w = Inr (Inr r)"
    by (auto simp: authenticate_prepared_transaction_def tx_refused_def Let_def split: option.splits sum.splits)
  from q show ?thesis
    using decision_payload_recorded [OF d]
    by (auto simp: verify_prepared_artifacts_def prepared_well_def anchored_def capsule_of_def Let_def
        split: option.splits sum.splits if_splits)
qed

lemma prepare_well:
  assumes "engine_refs (pw_git w) (job_id j)" "prepare_preemption env a j nb w = (Inr (Inr p), w1)"
  shows "prepared_well (pa_run_id a) (job_id j) p w1"
proof (cases "intent_payload env (pa_run_id a) (job_id j) w")
  case None
  then obtain w0 where d: "decision_step env a j w = (Inr None, w0)" and x: "prepare_artifacts env a j nb w0 = (Inr p, w1)"
    using assms(2) by (auto simp: prepare_fresh split: sum.splits option.splits prod.splits)
  have refs: "engine_refs (pw_git w0) (job_id j)" using assms(1) decision_step_git [OF d] by simp
  from artifacts_well [OF refs x] keeps_receipt decision_step_recorded [OF d] show ?thesis by (auto simp: prepared_well_def)
next
  case (Some q)
  with assms(2) reused_well show ?thesis
    by (auto simp: prepare_preemption_def split: sum.splits option.splits bool.splits)
qed

lemma intent_payload_recorded:
  assumes "intent_payload env run job w = Some d" "json_get d ''checkpoint_sha'' = JStr (pp_sha p)"
    "json_get d ''checkpoint_ref'' = JStr (pp_ref p)" "json_get d ''handoff_id'' = JStr (pp_handoff p)"
  shows "intent_recorded run job p w"
proof -
  have d: "d \<in> set (event_payloads env run INTENT_EVENT w)" "json_get d ''job_id'' = JStr job"
    using assms(1) by (auto simp: intent_payload_def payload_for_def dest!: find_SomeD)
  then obtain e where e: "e \<in> set (rb_events (pw_runs w))" "rv_run_id e = run" "rv_type e = INTENT_EVENT"
      "d = (case rv_payload e of None \<Rightarrow> [] | Some d \<Rightarrow> d)"
    by (auto simp: event_payloads_def get_events_by_type_def split: if_splits)
  moreover have "rv_payload e = Some d" using e(4) d(2) by (cases "rv_payload e") (simp_all add: json_get_def)
  ultimately show ?thesis unfolding intent_recorded_def using d(2) assms(2-4) by blast
qed

lemma written_intent_fields:
  "json_get (intent_of env a j p nb) ''job_id'' = JStr (job_id j)"
  "json_get (intent_of env a j p nb) ''checkpoint_sha'' = JStr (pp_sha p)"
  "json_get (intent_of env a j p nb) ''checkpoint_ref'' = JStr (pp_ref p)"
  "json_get (intent_of env a j p nb) ''handoff_id'' = JStr (pp_handoff p)"
  "json_get (intent_of env a j p nb) ''not_before'' = json_of_opt nb"
  "json_get_or (intent_of env a j p nb) ''preemptions_before'' v = JInt (job_preemptions j)"
  "json_get (intent_of env a j p nb) ''preemptions_next'' = JInt (job_preemptions j + 1)"
  "json_get (intent_of env a j p nb) ''owner_id'' = json_of_opt (pa_owner_id a)"
  "json_get (intent_of env a j p nb) ''owner_generation'' = json_of_opt_int (pa_generation a)"
  by (simp_all add: intent_of_def json_get_def json_get_or_def)

lemma intent_step_recorded:
  assumes "intent_step env a j p nb w = (Inr q, w')"
  shows "intent_recorded (pa_run_id a) (job_id j) p w'"
  using assms
  by (auto simp: intent_step_def log_event_def record_event_def intent_recorded_def written_intent_fields
      split: option.splits if_splits)

lemma nonempty_text: "json_nonempty_text v = Some s \<Longrightarrow> v = JStr s"
  by (auto simp: json_nonempty_text_def split: json.splits if_splits)

lemma reused_intended:
  assumes "authenticate_prepared_transaction env run j before w = Inr tx" "tx_ok tx" "tx_artifacts tx = Some r"
  shows "intent_recorded run (job_id j) \<lparr>pp_sha = ar_checkpoint_sha r, pp_ref = ar_checkpoint_ref r, pp_handoff = ar_handoff_id r\<rparr> w"
proof -
  from assms obtain q where q: "intent_payload env run (job_id j) w = Some q" "verify_prepared_artifacts env run j q before w = Inr (Inr r)"
    by (auto simp: authenticate_prepared_transaction_def tx_refused_def Let_def split: option.splits sum.splits)
  have "json_nonempty_text (json_get q ''checkpoint_sha'') = Some (ar_checkpoint_sha r)"
    "json_nonempty_text (json_get q ''checkpoint_ref'') = Some (ar_checkpoint_ref r)"
    "json_nonempty_text (json_get q ''handoff_id'') = Some (ar_handoff_id r)"
    using q(2) by (auto simp: verify_prepared_artifacts_def Let_def split: option.splits sum.splits if_splits)
  then show ?thesis using intent_payload_recorded [OF q(1)] nonempty_text by simp
qed

lemma prepare_intended:
  assumes "prepare_preemption env a j nb w = (Inr (Inr p), w1)"
  shows "intent_recorded (pa_run_id a) (job_id j) p w1"
proof (cases "intent_payload env (pa_run_id a) (job_id j) w")
  case None
  then obtain w0 where x: "prepare_artifacts env a j nb w0 = (Inr p, w1)"
    using assms by (auto simp: prepare_fresh split: sum.splits option.splits prod.splits)
  then show ?thesis by (rule artifacts_chain) (rule intent_step_recorded)
next
  case (Some q)
  with assms reused_intended show ?thesis
    by (auto simp: prepare_preemption_def split: sum.splits option.splits bool.splits)
qed

section \<open>What makes a run preempted\<close>

lemma fenced_untouched: "untouched w w' \<Longrightarrow> fenced_owner_row run t st (pw_runs w') = fenced_owner_row run t st (pw_runs w)"
  unfolding untouched_def fenced_owner_row_def get_execution_owner_def by (elim conjE) (simp only:)

lemma terminalize_fenced:
  assumes "terminalize_preempted env a summary w = ((True, True, detail), w')"
  shows "case pa_token a of None \<Rightarrow> \<not> pa_recovering a
    | Some t \<Rightarrow> fenced_owner_row (pa_run_id a) (Some t) [Claimed] (pw_runs w) \<and> \<not> list_ex (live_attempt (pa_run_id a)) (rb_attempts (pw_runs w))"
  using assms
  by (auto simp: terminalize_preempted_def terminalize_preemption_fenced_def split: if_splits option.splits prod.splits)

lemma keeps_terminalize: "terminalize_preempted env a summary w = ((ok, t, d), w') \<Longrightarrow> keeps_evidence w w'"
  using terminalize_keeps [of env a summary w ok t d w'] by (simp add: keeps_evidence_def)

lemma requeue_and_settle_keeps:
  assumes "requeue_and_settle env a j p nb w = (out, w')"
  shows "pw_runs w' = pw_runs w" "pw_git w' = pw_git w"
  using assms
  by (auto simp: requeue_and_settle_def requeue_step_def Let_def split: sum.splits option.splits prod.splits if_splits)

lemma finish_ends:
  assumes "finish_preemption env a j p nb w = (out, w')" "run_status_of (pa_run_id a) w = Some Run_running"
    "run_status_of (pa_run_id a) w' = Some Run_preempted"
  shows "keeps_evidence w w' \<and> po_owned out \<and> po_checkpoint_sha out = Some (pp_sha p) \<and> po_checkpoint_ref out = Some (pp_ref p) \<and>
    po_handoff_id out = Some (pp_handoff p) \<and>
    (\<exists>d w1. terminalize_preempted env a (preempted_summary (pa_run_id a) j p) w = ((True, True, d), w1))"
proof -
  obtain ok t d w1 where t: "terminalize_preempted env a (preempted_summary (pa_run_id a) j p) w = ((ok, t, d), w1)"
    by (metis prod.collapse)
  have ok: "ok" using assms t terminalize_keeps(7) [OF t] by (auto simp: finish_preemption_def split: if_splits)
  let ?w2 = "if t then announce_preempted env a j p nb w1 else w1"
  have e: "requeue_and_settle env a j p nb ?w2 = (out, w')" using assms(1) t ok by (simp add: finish_preemption_def)
  note kept = requeue_and_settle_keeps [OF e]
  have t': "t"
    using terminalize_ok(2) [OF t [unfolded eqTrueI [OF ok]]] assms(2,3) kept by (auto simp: run_status_of_def split: if_splits)
  have "keeps_evidence w1 ?w2" by (simp add: announce_preempted_def)
  then have "keeps_evidence w ?w2" using keeps_evidence_trans [OF keeps_terminalize [OF t]] by blast
  moreover have "po_owned out \<and> po_checkpoint_sha out = Some (pp_sha p) \<and> po_checkpoint_ref out = Some (pp_ref p) \<and>
      po_handoff_id out = Some (pp_handoff p)"
    using e by (auto simp: requeue_and_settle_def preempted_outcome_def Let_def split: sum.splits option.splits prod.splits)
  ultimately show ?thesis using kept t ok t' by (simp add: keeps_evidence_def)
qed

lemma get_run_only_runs: "rb_runs db = rb_runs db' \<Longrightarrow> get_run i db = get_run i db'"
  by (simp add: get_run_def)

lemma status_set:
  assumes "\<And>r. rn_id (f r) = rn_id r" "\<And>r. rn_status (f r) = st" "rb_runs db = rb_runs db'"
  shows "map_option rn_status (get_run i (update_run_row i f db)) = map_option (\<lambda>_. st) (get_run i db')"
  using get_run_update [of f i i db] get_run_only_runs [OF assms(3), of i] get_run_id [of i db'] assms(1,2)
  by (cases "get_run i db'") simp_all

lemma terminalize_run_status:
  assumes "terminalize_run_fenced run token st summary reason states why completed now db = (x, db')"
  shows "map_option rn_status (get_run run db') \<in> {map_option rn_status (get_run run db), Some st}"
proof -
  define db1 where "db1 = db\<lparr>rb_attempts := map (\<lambda>a. if live_attempt run a
     then a\<lparr>at_status := At_failed, at_worker_error := Some reason, at_completed_at := Some now\<rparr> else a) (rb_attempts db)\<rparr>"
  define f where "f = (\<lambda>r :: run_row. r\<lparr>rn_status := st, rn_result_summary := Some summary, rn_completed_at := completed\<rparr>)"
  have "db' = db \<or> db' = release_token run token now why (update_run_row run f db1)"
    using assms by (auto simp: terminalize_run_fenced_def db1_def f_def split: option.splits if_splits)
  moreover have "map_option rn_status (get_run run (update_run_row run f db1)) = map_option (\<lambda>_. st) (get_run run db)"
    by (rule status_set) (simp_all add: f_def db1_def)
  ultimately show ?thesis by (cases "get_run run db") auto
qed

lemma update_run_status:
  "map_option rn_status (get_run run (update_run run st completed final summary db)) \<in> {map_option rn_status (get_run run db), Some st}"
proof -
  have "map_option rn_status (get_run run (update_run run st completed final summary db)) = map_option (\<lambda>_. st) (get_run run db)"
    unfolding update_run_def by (rule status_set) simp_all
  then show ?thesis by (cases "get_run run db") auto
qed

lemma log_status: "log_event env run ev p w = Some w' \<Longrightarrow> run_status_of i w' = run_status_of i w"
  using untouched_status [OF untouched_log] .

lemma fail_run_status:
  assumes "fail_run_at_limit env a j w = (res, w')" "run_status_of (pa_run_id a) w = Some Run_running"
  shows "run_status_of (pa_run_id a) w' \<noteq> Some Run_preempted"
proof -
  have "run_status_of (pa_run_id a) w' \<in> {Some Run_running, Some Run_failed}"
  proof (cases "w' = w")
    case False
    obtain x db1 where x: "terminalize_run_fenced (pa_run_id a) (pa_token a) Run_failed (limit_summary j (pa_max a))
        (''preemption limit: '' @ limit_summary j (pa_max a)) [Claimed] ''preemption_limit'' (Some (isoformat (pe_now env))) (pe_stamp env)
        (pw_runs w) = (x, db1)" by fastforce
    define db2 where "db2 = update_run (pa_run_id a) Run_failed (Some (isoformat (pe_now env))) None (Some (limit_summary j (pa_max a))) (pw_runs w)"
    have "run_status_of (pa_run_id a) w' = run_status_of (pa_run_id a) (w\<lparr>pw_runs := db1\<rparr>) \<or>
        run_status_of (pa_run_id a) w' = run_status_of (pa_run_id a) (w\<lparr>pw_runs := db2\<rparr>)"
      using assms(1) False x
      by (auto simp: fail_run_at_limit_def Let_def db2_def dest: log_status split: if_splits option.splits prod.splits)
    moreover have "run_status_of (pa_run_id a) (w\<lparr>pw_runs := db1\<rparr>) \<in> {Some Run_running, Some Run_failed}"
      using terminalize_run_status [OF x] assms(2) by (auto simp: run_status_of_def)
    moreover have "run_status_of (pa_run_id a) (w\<lparr>pw_runs := db2\<rparr>) \<in> {Some Run_running, Some Run_failed}"
      using update_run_status [of "pa_run_id a" Run_failed _ _ _ "pw_runs w"] assms(2) unfolding db2_def
      by (metis (no_types, lifting) insert_iff pre_world.select_convs(3) pre_world.surjective pre_world.update_convs(3) run_status_of_def singletonD)
    ultimately show ?thesis by (elim disjE) simp_all
  qed (use assms(2) in simp)
  then show ?thesis by auto
qed

lemma limit_status:
  assumes "fail_at_limit env a j w = (out, w')" "run_status_of (pa_run_id a) w = Some Run_running"
  shows "run_status_of (pa_run_id a) w' \<noteq> Some Run_preempted"
proof -
  obtain res w1 where f: "fail_run_at_limit env a j w = (res, w1)" by fastforce
  obtain k w2 where k: "fail_job_at_limit env j w1 = (k, w2)" by fastforce
  have "pw_runs w2 = pw_runs w1" using k by (auto simp: fail_job_at_limit_def split: if_splits sum.splits option.splits prod.splits)
  then have "pw_runs w' = pw_runs w1" using assms(1) f k by (auto simp: fail_at_limit_def split: if_splits)
  then show ?thesis using fail_run_status [OF f assms(2)] by (simp add: run_status_of_def)
qed

text \<open>C5: A preemption needs durable evidence.  A running run becomes preempted only with a genuine quota
  signal and evidence that no candidate remained, for a running job of exactly this run below its
  bound; and either under the claimed token of the run's owner with no attempt alive, or by a
  call that carries no token, which only a call outside a recovery may do.  Behind it stand a
  recorded decision of the job and a recorded intent, and the commit, the ref and the capsule
  that intent names are the ones the outcome reports: the ref is an engine checkpoint ref of the
  job at that commit, and the capsule belongs to the run.\<close>
theorem preemption_needs_evidence:
  assumes "run_status_of (pa_run_id a) w = Some Run_running" "complete_preemption env a w = (res, w')"
    "run_status_of (pa_run_id a) w' = Some Run_preempted" "\<And>j. owning_job env a w = Inr j \<Longrightarrow> engine_refs (pw_git w) (job_id j)"
  shows "has_genuine_quota_signal env (pa_run_id a) w \<and> has_no_eligible_evidence env (pa_run_id a) w \<and>
    (case pa_token a of None \<Rightarrow> \<not> pa_recovering a
     | Some t \<Rightarrow> fenced_owner_row (pa_run_id a) (Some t) [Claimed] (pw_runs w) \<and>
         \<not> list_ex (live_attempt (pa_run_id a)) (rb_attempts (pw_runs w))) \<and>
    (\<exists>j p out. owning_job env a w = Inr j \<and> job_preemptions j < pa_max a \<and> prepared_well (pa_run_id a) (job_id j) p w' \<and>
       intent_recorded (pa_run_id a) (job_id j) p w' \<and> res = Inr out \<and> po_owned out \<and>
       po_checkpoint_sha out = Some (pp_sha p) \<and> po_checkpoint_ref out = Some (pp_ref p) \<and> po_handoff_id out = Some (pp_handoff p))"
  using assms(2)
proof (cases rule: complete_cases)
  case (unowned out)
  then show ?thesis using assms(1,3) by simp
next
  case (limit j out)
  then show ?thesis using limit_status [OF limit(3) assms(1)] assms(3) by simp
next
  case (stopped j x)
  then show ?thesis using untouched_status [OF untouched_prepare [OF stopped(3)]] assms(1,3) by simp
next
  case (prepared j p w1 out)
  have u: "untouched w w1" by (rule untouched_prepare [OF prepared(3)])
  have "run_status_of (pa_run_id a) w1 = Some Run_running" using untouched_status [OF u] assms(1) by simp
  from finish_ends [OF prepared(4) this assms(3)] obtain d w2 where k: "keeps_evidence w1 w'"
    and out: "po_owned out" "po_checkpoint_sha out = Some (pp_sha p)" "po_checkpoint_ref out = Some (pp_ref p)"
      "po_handoff_id out = Some (pp_handoff p)"
    and t: "terminalize_preempted env a (preempted_summary (pa_run_id a) j p) w1 = ((True, True, d), w2)" by blast
  obtain already where g: "run_gate env a w = Inr already" using owning_job_gate [OF prepared(1)] by blast
  then have "\<not> already" using gate_evidence(1) [OF g] assms(1) by (simp split: if_splits)
  with gate_evidence(2) [OF g] have ev: "has_genuine_quota_signal env (pa_run_id a) w" "has_no_eligible_evidence env (pa_run_id a) w" by simp_all
  have well: "prepared_well (pa_run_id a) (job_id j) p w'" "intent_recorded (pa_run_id a) (job_id j) p w'"
    by (rule keeps_prepared [OF k prepare_well [OF assms(4) [OF prepared(1)] prepared(3)]])
       (rule keeps_intended [OF k prepare_intended [OF prepared(3)]])
  have fence: "case pa_token a of None \<Rightarrow> \<not> pa_recovering a
     | Some t \<Rightarrow> fenced_owner_row (pa_run_id a) (Some t) [Claimed] (pw_runs w) \<and> \<not> list_ex (live_attempt (pa_run_id a)) (rb_attempts (pw_runs w))"
    using terminalize_fenced [OF t] fenced_untouched [OF u, of "pa_run_id a" "pa_token a"] u
    by (cases "pa_token a") (auto simp: untouched_def)
  show ?thesis using ev fence prepared(1,2,5) well out by blast
qed

section \<open>A replay\<close>

lemma queued_capsule:
  assumes "row_to_job r = Inr k" "jr_state r = state_value QUEUED" "jr_waiting_reason r = Some (waiting_value PREEMPTED)"
    "jr_resume_from r = Some (resume_to_dict res)"
  shows "job_state k = QUEUED \<and> job_waiting_reason k = Some PREEMPTED \<and> job_resume_from k = Some res"
proof -
  note f = loaded_fields [OF assms(1)]
  have "job_state k = QUEUED" using f(2) assms(2) by (cases "job_state k") (simp_all add: state_value_def)
  moreover have "job_waiting_reason k = Some PREEMPTED"
    using f(9) assms(3) by (auto simp: read_waiting_def waiting_value_def waiting_of_def truthy_def)
  moreover have "job_resume_from k = Some res"
    using f(8) assms(4) by (cases res) (auto simp: read_resume_def resume_from_dict_def resume_to_dict_def resume_from_of_def split: if_splits)
  ultimately show ?thesis by simp
qed

lemma limit_detail:
  assumes "complete_preemption env a w = (Inr out, w')" "po_owned out" "po_limit_reached out"
  shows "po_detail out = ''preemption_limit''"
  using assms(1)
proof (cases rule: complete_cases)
  case (unowned o')
  then show ?thesis using unowned_outcome [OF unowned(1)] assms(2,3) by auto
next
  case (limit j o')
  then show ?thesis using assms(2) by (auto simp: fail_at_limit_def declined_def split: prod.splits if_splits)
next
  case (prepared j p w1 o')
  then have "finish_preemption env a j p (quota_reset_eta env (pa_run_id a) w) w1 = (out, w')" by simp
  then show ?thesis
    using assms(3) by (auto simp: finish_preemption_def requeue_and_settle_def preempted_outcome_def declined_def Let_def
        split: prod.splits if_splits sum.splits option.splits)
next
  case (stopped j x)
  then have "prepare_preemption env a j (quota_reset_eta env (pa_run_id a) w) w = (Inr (Inl out), w')" by auto
  then show ?thesis using stopped_declined assms(2) by blast
qed

text \<open>A replay converges.  After a call that preempted, a second call for the same run and job, in
  any surroundings where the two rows can be read, writes nothing and answers with the same count
  and the same capsule.\<close>
theorem preemption_replay_converges:
  assumes "job_db_inv (pw_jobs w)" "complete_preemption env a w = (Inr out, w')" "po_owned out" "po_detail out = ''preempted''"
    "po_job out = Some j" "pa_run_id a' = pa_run_id a" "pa_job_id a' = Some (job_id j)"
    "\<not> pe_fails env' On_run" "\<not> pe_fails env' On_job"
  shows "\<exists>again. complete_preemption env' a' w' = (Inr again, w') \<and> po_owned again \<and> po_detail again = ''already_preempted'' \<and>
    po_status again = Some Run_preempted \<and> po_job again = po_job out \<and> po_checkpoint_sha again = po_checkpoint_sha out \<and>
    po_handoff_id again = po_handoff_id out \<and> po_preemptions again = po_preemptions out"
proof -
  have "\<not> po_limit_reached out" using limit_detail [OF assms(2,3)] assms(4) by auto
  with complete_contract [OF assms(1,2)] assms(3,4)
  have "requeued_once a out w w'" and st: "run_status_of (pa_run_id a) w' = Some Run_preempted"
    by (simp_all add: preemption_contract_def)
  then obtain i r' sha handoff where r': "find_row i (pw_jobs w') = Some r'" "jr_state r' = state_value QUEUED"
      "jr_waiting_reason r' = Some (waiting_value PREEMPTED)" "row_to_job r' = Inr j"
      "jr_resume_from r' = Some (resume_to_dict \<lparr>rf_run_id = pa_run_id a, rf_checkpoint_sha = sha, rf_handoff_id = handoff\<rparr>)"
      "po_checkpoint_sha out = Some sha" "po_handoff_id out = Some handoff" "po_preemptions out = Some (jr_preemptions r')"
    using assms(5) by (auto simp: requeued_once_def)
  note j = queued_capsule [OF r'(4,2,3,5)]
  have "job_id j = i" using loaded_fields(1) [OF r'(4)] find_row_Some [OF r'(1)] by simp
  then have got: "get_job (job_id j) (pw_jobs w') = Inr (Some j)" using r'(1,4) by (simp add: get_job_def load_row_def)
  have gate: "run_gate env' a' w' = Inr True"
    using st assms(6,8) by (auto simp: run_gate_def run_status_of_def)
  have "owning_job env' a' w' = Inl (already_preempted (pa_run_id a) j \<lparr>rf_run_id = pa_run_id a, rf_checkpoint_sha = sha, rf_handoff_id = handoff\<rparr>)"
    using gate got assms(6,7,9) j by (simp add: owning_job_def lookup_job_def)
  then show ?thesis
    using r'(6-8) assms(5) loaded_fields(4) [OF r'(4)] by (simp add: complete_preemption_def already_preempted_def)
qed

end
