(* ===== verification/Preemption_Resume.thy ===== *)
theory Preemption_Resume
  imports Preemption_Recovery
begin

text \<open>
  After a preemption: \<open>prepare_resume\<close> of \<open>saberops/preemption.py\<close>, which stages the anchored checkpoint
  into the next run of the job, and \<open>_recover_preemption_transaction\<close> of \<open>saberops/supervisor.py\<close>, which
  finishes the transaction of a dead owner.  A prepared transaction is always completed, and the work
  it anchored is what the next run resumes from.
\<close>

section \<open>Staging the checkpoint into the next run\<close>

record resume_preparation =
  rp_resumed :: bool
  rp_reason :: string
  rp_checkpoint_sha :: "string option"
  rp_handoff_id :: "string option"

definition not_resumed :: "string \<Rightarrow> resume_preparation" where
  "not_resumed reason = \<lparr>rp_resumed = False, rp_reason = reason, rp_checkpoint_sha = None, rp_handoff_id = None\<rparr>"

definition skip_resume :: "pre_env \<Rightarrow> job \<Rightarrow> string \<Rightarrow> string \<Rightarrow> string \<Rightarrow> pre_world \<Rightarrow> resume_preparation \<times> pre_world" where
  \<comment> \<open>the \<open>resume_skipped\<close> branch, its event written when it can be\<close>
  "skip_resume env j old new reason w =
     (not_resumed reason,
      try_log env new ''resume_skipped''
        [(''reason'', JStr reason), (''job_id'', JStr (job_id j)), (''resume_run_id'', JStr old)] w)"

definition resume_refusal :: "pre_env \<Rightarrow> job \<Rightarrow> resume_from \<Rightarrow> pre_world \<Rightarrow> string option" where
  \<comment> \<open>the four verifications, in their order; \<open>None\<close> when all pass\<close>
  "resume_refusal env j resume w =
     (let sha = rf_checkpoint_sha resume in
      if (case (if pe_fails env On_handoff then None else get_handoff (rf_handoff_id resume) (pw_runs w)) of
            None \<Rightarrow> True | Some h \<Rightarrow> ho_run_id h \<noteq> rf_run_id resume) then Some ''capsule_mismatch''
      else if commit_known env sha w \<noteq> Some True then Some ''checkpoint_unreachable''
      else if (case (if pe_fails env On_list_refs then None else list_checkpoint_refs (pw_git w) (job_id j)) of
            None \<Rightarrow> True | Some refs \<Rightarrow> sha \<notin> set (map snd refs)) then Some ''checkpoint_unanchored''
      else if commit_known env (job_base_sha j) w \<noteq> Some True then Some ''stale_base''
      else None)"

definition resume_source :: "pre_env \<Rightarrow> resume_from \<Rightarrow> pre_world \<Rightarrow> string \<times> string \<times> string list" where
  \<comment> \<open>source attempt, reason and changed paths of the copied row\<close>
  "resume_source env resume w =
     (case (case (if pe_fails env On_checkpoint_by_sha then None
                  else get_worker_checkpoint_by_sha (rf_run_id resume) (rf_checkpoint_sha resume) (pw_runs w)) of
              None \<Rightarrow> ([], QUOTA_EXHAUSTED, [])
            | Some c \<Rightarrow> (ck_source_attempt_id c, or_quota (ck_reason c), ck_changed_paths c)) of
        (source, reason, changed) \<Rightarrow>
          let known = (if source \<noteq> [] \<and> (pe_fails env On_attempt \<or> get_attempt source (pw_runs w) = None) then [] else source)
          in (if known \<noteq> [] then known
              else case attempts_or_none env (rf_run_id resume) w of [] \<Rightarrow> [] | as \<Rightarrow> at_id (last as),
              reason, changed))"

definition staged_checkpoint :: "pre_env \<Rightarrow> job \<Rightarrow> resume_from \<Rightarrow> string \<Rightarrow> string \<Rightarrow> string \<Rightarrow> string list \<Rightarrow> checkpoint_row" where
  "staged_checkpoint env j resume new source reason changed =
     \<lparr>ck_id = pe_checkpoint_id env, ck_run_id = new, ck_source_attempt_id = source, ck_source_base_sha = job_base_sha j,
      ck_checkpoint_sha = rf_checkpoint_sha resume, ck_reason = reason, ck_changed_paths = changed,
      ck_created_at = isoformat (pe_now env), ck_handoff_id = Some (rf_handoff_id resume)\<rparr>"

definition prepare_resume :: "pre_env \<Rightarrow> job \<Rightarrow> string \<Rightarrow> pre_world \<Rightarrow> resume_preparation \<times> pre_world" where
  \<comment> \<open>\<open>new\<close> is the id of the fresh run\<close>
  "prepare_resume env j new w =
     (case job_resume_from j of
        None \<Rightarrow> (not_resumed ''no_resume'', w)
      | Some resume \<Rightarrow>
          (case resume_refusal env j resume w of
             Some reason \<Rightarrow> skip_resume env j (rf_run_id resume) new reason w
           | None \<Rightarrow>
               (case resume_source env resume w of
                  (source, reason, changed) \<Rightarrow>
                    if source = [] then skip_resume env j (rf_run_id resume) new ''no_source_attempt'' w
                    else case (if pe_fails env On_stage then None
                               else create_worker_checkpoint (staged_checkpoint env j resume new source reason changed) (pw_runs w)) of
                      None \<Rightarrow> (not_resumed ''checkpoint_stage_failed'', w)
                    | Some db \<Rightarrow>
                        (\<lparr>rp_resumed = True, rp_reason = ''resumed'', rp_checkpoint_sha = Some (rf_checkpoint_sha resume),
                          rp_handoff_id = Some (rf_handoff_id resume)\<rparr>,
                         try_log env new ''resume_prepared''
                           [(''job_id'', JStr (job_id j)), (''resume_run_id'', JStr (rf_run_id resume)),
                            (''checkpoint_sha'', JStr (rf_checkpoint_sha resume)), (''handoff_id'', JStr (rf_handoff_id resume))]
                           (w\<lparr>pw_runs := db\<rparr>)))))"

section \<open>The supervisor's recovery\<close>

record recovery_report =
  rr_state :: transaction_state
  rr_action :: string
  rr_reason :: string
  rr_job_id :: "string option"
  rr_checkpoint_sha :: "string option"

definition report_finished ::
  "pre_env \<Rightarrow> string \<Rightarrow> job \<Rightarrow> int option \<Rightarrow> transaction_state \<Rightarrow> preemption_outcome \<Rightarrow> pre_world \<Rightarrow> recovery_report \<times> pre_world" where
  "report_finished env run j generation state out w =
     (if po_owned out \<and> po_status out = Some Run_preempted
      then (\<lparr>rr_state = state, rr_action = ''preempt_recovered'', rr_reason = po_detail out, rr_job_id = Some (job_id j),
             rr_checkpoint_sha = po_checkpoint_sha out\<rparr>,
            try_log env run ''preemption_recovered''
              [(''job_id'', JStr (job_id j)), (''detail'', JStr (po_detail out)), (''checkpoint_sha'', json_of_opt (po_checkpoint_sha out)),
               (''owner_generation'', json_of_opt_int generation)] w)
      else (\<lparr>rr_state = state, rr_action = ''none'', rr_reason = ''preemption_recovery_pending:'' @ po_detail out, rr_job_id = None,
             rr_checkpoint_sha = None\<rparr>,
            try_log env run ''preemption_recovery_pending''
              [(''job_id'', JStr (job_id j)), (''detail'', JStr (po_detail out))] w))"

definition recover_preemption_transaction ::
  "pre_env \<Rightarrow> (string \<Rightarrow> string) \<Rightarrow> string \<Rightarrow> owner_row option \<Rightarrow> bool \<Rightarrow> pre_world \<Rightarrow> (py_error + recovery_report option) \<times> pre_world" where
  \<comment> \<open>\<open>resolve\<close> is \<open>Path.resolve\<close> of a repository; the owner and the worker are proven dead before the call\<close>
  "recover_preemption_transaction env resolve run owner dry_run w =
     (case find_job_for_run env run w of
        Some (Some j) \<Rightarrow>
          if job_current_run_id j \<noteq> Some run then (Inr None, w)
          else if pe_fails env On_run \<or> map_option rn_status (get_run run (pw_runs w)) \<noteq> Some Run_running then (Inr None, w)
          else (case classify_preemption_transaction env run j w of
              Inl e \<Rightarrow> (Inr None, w)
            | Inr (state, tx) \<Rightarrow>
                if state = Tx_none then (Inr None, w)
                else if state = Tx_blocked then
                  (Inr (Some \<lparr>rr_state = state, rr_action = ''none'', rr_reason = ''preemption_blocked:'' @ tx_detail tx,
                              rr_job_id = None, rr_checkpoint_sha = None\<rparr>),
                   if dry_run then w
                   else try_log env run ''preemption_recovery_blocked''
                          [(''detail'', JStr (tx_detail tx)), (''job_id'', JStr (job_id j))] w)
                else if dry_run then
                  (Inr (Some \<lparr>rr_state = state, rr_action = ''preempt_recover'', rr_reason = ''interrupted_preemption_detected'',
                              rr_job_id = None, rr_checkpoint_sha = None\<rparr>), w)
                else (case finish_interrupted_preemption env run j (resolve (job_repo j)) (map_option eo_owner_id owner)
                             (map_option eo_generation owner) DEFAULT_MAX_PREEMPTIONS w of
                    (Inl e, w1) \<Rightarrow> (Inl e, w1)
                  | (Inr out, w1) \<Rightarrow>
                      (case report_finished env run j (map_option eo_generation owner) state out w1 of (r, w2) \<Rightarrow> (Inr (Some r), w2))))
      | _ \<Rightarrow> (Inr None, w))"

section \<open>The tail of the job reconciliation\<close>

definition reconcile_args :: "job \<Rightarrow> string \<Rightarrow> string \<Rightarrow> pre_args" where
  \<comment> \<open>the keywords \<open>reconcile_jobs\<close> passes for a run that is \<open>PREEMPTED\<close>\<close>
  "reconcile_args j run repo = \<lparr>pa_run_id = run, pa_repo = repo, pa_job_id = Some (job_id j), pa_worktree = None,
     pa_base_sha = Some (job_base_sha j), pa_owner_id = None, pa_generation = None, pa_decision_ref = None,
     pa_recovering = False, pa_max = DEFAULT_MAX_PREEMPTIONS\<rparr>"

definition preemption_tail_of :: "pre_env \<Rightarrow> (string \<Rightarrow> string) \<Rightarrow> pre_world \<Rightarrow> preemption_tail" where
  \<comment> \<open>on the job tables of the loop, beside the other tables of \<open>w\<close>\<close>
  "preemption_tail_of env resolve w j run d =
     (case complete_preemption env (reconcile_args j run (resolve (job_repo j))) (w\<lparr>pw_jobs := d\<rparr>) of
        (Inl e, w') \<Rightarrow> (None, pw_jobs w')
      | (Inr out, w') \<Rightarrow> (if po_owned out then po_job out else None, pw_jobs w'))"

end
