(* ===== verification/Preemption_Resume_Laws.thy ===== *)
theory Preemption_Resume_Laws
  imports Preemption_Resume
begin

text \<open>
  Liveness of the preemption: once the intent is durable the recovery completes it, and what was
  anchored is what the next run of the job starts from.
\<close>

section \<open>Completing a prepared transaction\<close>

definition reliable :: "pre_env \<Rightarrow> bool" where
  \<comment> \<open>no call raises\<close>
  "reliable env \<longleftrightarrow> (\<forall>s. \<not> pe_fails env s)"

lemma reliable_call [simp]: "reliable env \<Longrightarrow> \<not> pe_fails env s"
  by (simp add: reliable_def)

lemma terminalize_completes:
  assumes "reliable env" "run_status_of (pa_run_id a) w = Some Run_running" "pa_token a = Some t"
    "fenced_owner_row (pa_run_id a) (Some t) [Claimed] (pw_runs w)" "\<not> list_ex (live_attempt (pa_run_id a)) (rb_attempts (pw_runs w))"
  obtains w1 where "terminalize_preempted env a summary w = ((True, True, ''transitioned''), w1)"
proof -
  obtain r where r: "get_run (pa_run_id a) (pw_runs w) = Some r" "rn_status r = Run_running"
    using assms(2) by (auto simp: run_status_of_def)
  obtain db where "terminalize_preemption_fenced (pa_run_id a) (Some t) summary [Claimed] (Some (isoformat (pe_now env))) (pe_stamp env)
      (pw_runs w) = (True, db)"
    using r assms(4,5) by (simp add: terminalize_preemption_fenced_def)
  with r assms(1,3) have "terminalize_preempted env a summary w = ((True, True, ''transitioned''), w\<lparr>pw_runs := db\<rparr>)"
    by (simp add: terminalize_preempted_def terminal_run_def)
  then show ?thesis by (rule that)
qed

lemma requeue_completes:
  assumes "reliable env" "runs_for a j r w" "pa_run_id a \<noteq> []" "resume_valid (Some resume)"
  obtains k w1 where "requeue_step env a j resume nb w = (Some k, w1)"
proof -
  have r: "job_db_inv (pw_jobs w)" "find_row (job_id j) (pw_jobs w) = Some r" "jr_state r = state_value RUNNING"
    "jr_current_run_id r = Some (pa_run_id a)" using assms(2) by (simp_all add: runs_for_def)
  obtain k db where "requeue_exact (job_id j) PREEMPTED (pa_run_id a) (jr_preemptions r) (Some resume) nb (pe_now env) (pw_jobs w) = (Inr k, db)"
    using requeue_exact_success [OF r assms(3,4)] by blast
  then show ?thesis using that assms(1) runs_for_count [OF assms(2)] by (simp add: requeue_step_def)
qed

definition requeued_row :: "pre_world \<Rightarrow> pre_world \<Rightarrow> string \<Rightarrow> resume_from \<Rightarrow> bool" where
  \<comment> \<open>the job waits in the queue with one more preemption and the capsule\<close>
  "requeued_row w w' i resume \<longleftrightarrow>
     (\<exists>r r'. find_row i (pw_jobs w) = Some r \<and> find_row i (pw_jobs w') = Some r' \<and> jr_state r' = state_value QUEUED \<and>
        jr_waiting_reason r' = Some (waiting_value PREEMPTED) \<and> jr_current_run_id r' = None \<and>
        jr_preemptions r' = jr_preemptions r + 1 \<and> jr_resume_from r' = Some (resume_to_dict resume))"

lemma requeue_step_row:
  assumes "runs_for a j r w" "resume_valid (Some resume)" "requeue_step env a j resume nb w = (Some k, w1)"
  shows "requeued_row w w1 (job_id j) resume \<and> pw_runs w1 = pw_runs w"
proof -
  have "w1 = w\<lparr>pw_jobs := pw_jobs w1\<rparr>" and x: "find_row (job_id j) (pw_jobs w1) = Some (requeue_update PREEMPTED (Some resume)
      (if nb \<noteq> None then nb else jr_not_before r) (jr_preemptions r + 1) (pe_now env) r)"
    using requeue_step_rows [OF assms] by auto
  then have "pw_runs w1 = pw_runs w" by (metis pre_world.select_convs(3) pre_world.surjective pre_world.update_convs(1))
  with x assms(1) show ?thesis by (simp add: requeued_row_def runs_for_def requeue_update_def)
qed

lemma requeue_and_settle_completes:
  assumes "reliable env" "runs_for a j r w" "resume_from_of (pa_run_id a) (pp_sha p) (pp_handoff p) = Inr resume"
  obtains out w' k where "requeue_and_settle env a j p nb w = (out, w')" "po_owned out" "po_detail out = ''preempted''"
    "po_status out = Some Run_preempted" "po_checkpoint_sha out = Some (pp_sha p)" "po_job out = Some k"
    "pw_runs w' = pw_runs w" "requeued_row w w' (job_id j) resume"
proof -
  note res = resume_made [OF assms(3)]
  obtain k w1 where k: "requeue_step env a j resume nb w = (Some k, w1)"
    by (rule requeue_completes [OF assms(1,2) res(3,2)])
  note row = requeue_step_row [OF assms(2) res(2) k]
  let ?out = "preempted_outcome ''preempted'' (preempted_summary (pa_run_id a) j p) p (pa_run_id a) k (job_preemptions k) (job_not_before k)"
  have "requeue_and_settle env a j p nb w = (?out, settle_run env (pa_run_id a) j w1)"
    using k assms(3) by (simp add: requeue_and_settle_def Let_def)
  moreover have "requeued_row w (settle_run env (pa_run_id a) j w1) (job_id j) resume" using row by (simp add: requeued_row_def)
  ultimately show ?thesis using that [of ?out "settle_run env (pa_run_id a) j w1" k] row by (simp add: preempted_outcome_def)
qed

lemma finish_completes:
  assumes "reliable env" "runs_for a j r w" "run_status_of (pa_run_id a) w = Some Run_running" "pa_token a = Some t"
    "fenced_owner_row (pa_run_id a) (Some t) [Claimed] (pw_runs w)" "\<not> list_ex (live_attempt (pa_run_id a)) (rb_attempts (pw_runs w))"
    "resume_from_of (pa_run_id a) (pp_sha p) (pp_handoff p) = Inr resume"
  obtains out w' where "finish_preemption env a j p nb w = (out, w')" "po_owned out" "po_detail out = ''preempted''"
    "po_status out = Some Run_preempted" "po_checkpoint_sha out = Some (pp_sha p)"
    "run_status_of (pa_run_id a) w' = Some Run_preempted" "requeued_row w w' (job_id j) resume"
proof -
  obtain w1 where t: "terminalize_preempted env a (preempted_summary (pa_run_id a) j p) w = ((True, True, ''transitioned''), w1)"
    by (rule terminalize_completes [OF assms(1,3-6)])
  let ?w2 = "announce_preempted env a j p nb w1"
  have u: "untouched w1 ?w2" by (simp add: announce_preempted_def)
  have jobs: "pw_jobs ?w2 = pw_jobs w" using u terminalize_keeps(1) [OF t] by (simp add: untouched_def)
  have r2: "runs_for a j r ?w2" using assms(2) runs_for_jobs [OF jobs] by blast
  obtain out w' k where o': "requeue_and_settle env a j p nb ?w2 = (out, w')" "po_owned out" "po_detail out = ''preempted''"
    "po_status out = Some Run_preempted" "po_checkpoint_sha out = Some (pp_sha p)" "po_job out = Some k"
    "pw_runs w' = pw_runs ?w2" "requeued_row ?w2 w' (job_id j) resume"
    by (rule requeue_and_settle_completes [OF assms(1) r2 assms(7)])
  have f: "finish_preemption env a j p nb w = (out, w')" using t o'(1) by (simp add: finish_preemption_def)
  have "run_status_of (pa_run_id a) w' = Some Run_preempted"
    using terminalize_ok(1) [OF t] untouched_status [OF u] o'(7) by (simp add: run_status_of_def)
  moreover have "requeued_row w w' (job_id j) resume" using o'(8) jobs by (simp add: requeued_row_def)
  ultimately show ?thesis using that [OF f] o' by simp
qed

lemma found_job_runs:
  assumes "job_db_inv (pw_jobs w)" "find_job_for_run env run w = Some (Some j)" "pa_run_id a = run"
  shows "\<exists>r. runs_for a j r w" "job_state j = RUNNING" "job_current_run_id j = Some run" "run \<noteq> []"
    "get_job (job_id j) (pw_jobs w) = Inr (Some j)"
proof -
  obtain js where js: "list_jobs_raw (Some RUNNING) job_scan_limit (pw_jobs w) = Inr js" "j \<in> set js"
    and run: "job_current_run_id j = Some run" "run \<noteq> []"
    using assms(2) by (auto simp: find_job_for_run_def split: if_splits sum.splits dest!: find_SomeD)
  obtain js' rs where l: "list_jobs_raw (Some RUNNING) job_scan_limit (pw_jobs w) = Inr js'"
    and rs: "list_all2 (\<lambda>r j. row_to_job r = Inr j) rs js'" "\<forall>r \<in> set rs. r \<in> set (db_jobs (pw_jobs w)) \<and> jr_state r = state_value RUNNING"
    using list_jobs_ok [OF assms(1), of RUNNING job_scan_limit] by blast
  have "js' = js" using l js(1) by simp
  then obtain r where r: "r \<in> set rs" "row_to_job r = Inr j" using loaded_row [OF rs(1), of j] js(2) by blast
  have row: "find_row (job_id j) (pw_jobs w) = Some r"
    using rs(2) r inv_find_row [OF assms(1)] loaded_fields(1) [OF r(2)] by simp
  note f = loaded_fields [OF r(2)]
  have st: "jr_state r = state_value RUNNING" using rs(2) r(1) by blast
  show "job_state j = RUNNING" using f(2) st by simp
  show "job_current_run_id j = Some run" "run \<noteq> []" by (rule run)+
  show "get_job (job_id j) (pw_jobs w) = Inr (Some j)" using row r(2) by (simp add: get_job_def load_row_def)
  show "\<exists>r. runs_for a j r w" using assms(1,3) row r(2) st f(3) run by (auto simp: runs_for_def)
qed

definition recovery_args :: "string \<Rightarrow> job \<Rightarrow> string \<Rightarrow> owner_row \<Rightarrow> pre_args" where
  "recovery_args run j repo ow = \<lparr>pa_run_id = run, pa_repo = repo, pa_job_id = Some (job_id j), pa_worktree = None,
     pa_base_sha = Some (job_base_sha j), pa_owner_id = Some (eo_owner_id ow), pa_generation = Some (eo_generation ow),
     pa_decision_ref = None, pa_recovering = True, pa_max = DEFAULT_MAX_PREEMPTIONS\<rparr>"

lemma recovery_fields [simp]:
  "pa_run_id (recovery_args run j repo ow) = run" "pa_max (recovery_args run j repo ow) = DEFAULT_MAX_PREEMPTIONS"
  "pa_job_id (recovery_args run j repo ow) = Some (job_id j)"
  "pa_token (recovery_args run j repo ow) = Some (eo_owner_id ow, eo_generation ow)"
  by (simp_all add: recovery_args_def pa_token_def)

lemma finish_interrupted_args:
  "finish_interrupted_preemption env run j repo (Some (eo_owner_id ow)) (Some (eo_generation ow)) DEFAULT_MAX_PREEMPTIONS w =
     complete_preemption env (recovery_args run j repo ow) w"
  by (simp add: finish_interrupted_preemption_def recovery_args_def)

lemma prepared_reused:
  assumes "classify_preemption_transaction env (pa_run_id a) j w = Inr (Tx_prepared, tx)" "tx_artifacts tx = Some r"
  shows "prepare_preemption env a j nb w =
    (Inr (Inr \<lparr>pp_sha = ar_checkpoint_sha r, pp_ref = ar_checkpoint_ref r, pp_handoff = ar_handoff_id r\<rparr>), w)"
proof -
  have x: "authenticate_prepared_transaction env (pa_run_id a) j (job_preemptions j) w = Inr tx" "tx_ok tx"
    using assms(1) by (auto simp: classify_preemption_transaction_def split: sum.splits if_splits)
  moreover have "intent_payload env (pa_run_id a) (job_id j) w \<noteq> None"
    using x assms(2) by (auto simp: authenticate_prepared_transaction_def tx_refused_def Let_def split: option.splits sum.splits)
  ultimately show ?thesis using assms(2) by (simp add: prepare_preemption_def)
qed

definition recoverable :: "pre_env \<Rightarrow> string \<Rightarrow> job \<Rightarrow> owner_row \<Rightarrow> pre_world \<Rightarrow> bool" where
  \<comment> \<open>the run the dead owner was preempting: its row, its evidence, no attempt alive, its job below the bound\<close>
  "recoverable env run j ow w \<longleftrightarrow>
     find_job_for_run env run w = Some (Some j) \<and> run_status_of run w = Some Run_running \<and>
     has_genuine_quota_signal env run w \<and> has_no_eligible_evidence env run w \<and>
     get_execution_owner run (pw_runs w) = Some ow \<and> eo_state ow = Claimed \<and>
     \<not> list_ex (live_attempt run) (rb_attempts (pw_runs w)) \<and> job_preemptions j < DEFAULT_MAX_PREEMPTIONS"

lemma prepared_preemption_completes_aux:
  assumes "job_db_inv (pw_jobs w)" "reliable env" "recoverable env run j ow w"
    "classify_preemption_transaction env run j w = Inr (Tx_prepared, tx)" "tx_artifacts tx = Some arts"
    "resume_from_of run (ar_checkpoint_sha arts) (ar_handoff_id arts) = Inr resume"
  shows "\<exists>w' report. recover_preemption_transaction env resolve run (Some ow) False w = (Inr (Some report), w') \<and>
    rr_action report = ''preempt_recovered'' \<and> rr_checkpoint_sha report = Some (ar_checkpoint_sha arts) \<and>
    run_status_of run w' = Some Run_preempted \<and> requeued_row w w' (job_id j) resume"
proof -
  let ?a = "recovery_args run j (resolve (job_repo j)) ow"
  let ?p = "\<lparr>pp_sha = ar_checkpoint_sha arts, pp_ref = ar_checkpoint_ref arts, pp_handoff = ar_handoff_id arts\<rparr>"
  let ?nb = "quota_reset_eta env run w"
  note rec = assms(3) [unfolded recoverable_def]
  have found: "find_job_for_run env run w = Some (Some j)" using rec by blast
  note job = found_job_runs [OF assms(1) found, of ?a, simplified]
  obtain r where r: "runs_for ?a j r w" using job(1) by blast
  have own: "owning_job env ?a w = Inr j"
    using rec job assms(2) by (auto simp: owning_job_def run_gate_def lookup_job_def run_status_of_def)
  have prep: "prepare_preemption env ?a j ?nb w = (Inr (Inr ?p), w)"
    by (rule prepared_reused) (use assms(4,5) in simp_all)
  have fence: "fenced_owner_row (pa_run_id ?a) (Some (eo_owner_id ow, eo_generation ow)) [Claimed] (pw_runs w)"
    using rec by (auto simp: fenced_owner_row_def owned_as_def get_execution_owner_def dest: find_SomeD)
  obtain out w1 where f: "finish_preemption env ?a j ?p ?nb w = (out, w1)" and out: "po_owned out" "po_detail out = ''preempted''"
      "po_status out = Some Run_preempted" "po_checkpoint_sha out = Some (ar_checkpoint_sha arts)"
      "run_status_of run w1 = Some Run_preempted" "requeued_row w w1 (job_id j) resume"
    using finish_completes [OF assms(2) r _ _ fence, of ?p resume ?nb] rec assms(6) by auto
  have "complete_preemption env ?a w = (Inr out, w1)"
    using own prep f rec by (simp add: complete_preemption_def)
  then have "recover_preemption_transaction env resolve run (Some ow) False w =
      (case report_finished env run j (Some (eo_generation ow)) Tx_prepared out w1 of (r, w2) \<Rightarrow> (Inr (Some r), w2))"
    using found job rec assms(2,4)
    by (simp add: recover_preemption_transaction_def finish_interrupted_args run_status_of_def)
  moreover obtain report w2 where rep: "report_finished env run j (Some (eo_generation ow)) Tx_prepared out w1 = (report, w2)" by fastforce
  moreover have "untouched w1 w2" "rr_action report = ''preempt_recovered''" "rr_checkpoint_sha report = Some (ar_checkpoint_sha arts)"
    using rep out by (auto simp: report_finished_def)
  ultimately show ?thesis using out untouched_status [of w1 w2] by (auto simp: requeued_row_def untouched_def)
qed

text \<open>Recovery is live.  When the owner of a run died after its preemption was prepared, the supervisor's
  recovery, its calls not failing, completes exactly that preemption: the run is terminal, its job waits
  in the queue counted once more, with the capsule and checkpoint the dead owner had verified.\<close>
theorem prepared_preemption_completes:
  assumes "job_db_inv (pw_jobs w)" "reliable env" "recoverable env run j ow w"
    "classify_preemption_transaction env run j w = Inr (Tx_prepared, tx)" "tx_artifacts tx = Some arts"
    "resume_from_of run (ar_checkpoint_sha arts) (ar_handoff_id arts) = Inr resume"
  shows "\<exists>w' report. recover_preemption_transaction env resolve run (Some ow) False w = (Inr (Some report), w') \<and>
    rr_action report = ''preempt_recovered'' \<and> rr_checkpoint_sha report = Some (ar_checkpoint_sha arts) \<and>
    run_status_of run w' = Some Run_preempted \<and> requeued_row w w' (job_id j) resume"
  by (rule prepared_preemption_completes_aux [OF assms])

section \<open>What the next run starts from\<close>

lemma finish_keeps:
  assumes "finish_preemption env a j p nb w = (out, w')"
  shows "keeps_evidence w w'"
proof -
  obtain ok t d w1 where t: "terminalize_preempted env a (preempted_summary (pa_run_id a) j p) w = ((ok, t, d), w1)"
    by (metis prod.collapse)
  note k = keeps_terminalize [OF t]
  show ?thesis
  proof (cases ok)
    case False
    then show ?thesis using assms t k by (simp add: finish_preemption_def)
  next
    case True
    let ?w2 = "if t then announce_preempted env a j p nb w1 else w1"
    have e: "requeue_and_settle env a j p nb ?w2 = (out, w')" using assms t True by (simp add: finish_preemption_def)
    have "keeps_evidence w1 ?w2" by (simp add: announce_preempted_def)
    then have "keeps_evidence w ?w2" by (rule keeps_evidence_trans [OF k])
    then show ?thesis using requeue_and_settle_keeps [OF e] by (simp add: keeps_evidence_def)
  qed
qed

lemma finish_capsule:
  assumes "finish_preemption env a j p nb w = (out, w')" "po_owned out" "po_detail out = ''preempted''" "po_job out = Some k"
  shows "po_checkpoint_sha out = Some (pp_sha p) \<and> po_handoff_id out = Some (pp_handoff p)"
  using assms
  by (auto simp: finish_preemption_def requeue_and_settle_def preempted_outcome_def declined_def Let_def
      split: prod.splits if_splits sum.splits option.splits)

lemma read_back_id: "read_back i db = (Inr k, db') \<Longrightarrow> job_id k = i"
  by (auto simp: read_back_def get_job_def load_row_def dest!: find_row_Some loaded_fields(1) split: option.splits sum.splits)

lemma requeue_step_id:
  assumes "requeue_step env a j resume nb w = (Some k, w1)"
  shows "job_id k = job_id j"
proof -
  obtain db where "requeue_exact (job_id j) PREEMPTED (pa_run_id a) (job_preemptions j) (Some resume) nb (pe_now env) (pw_jobs w) = (Inr k, db)"
    using assms by (auto simp: requeue_step_def split: if_splits sum.splits prod.splits)
  then show ?thesis by (auto simp: requeue_exact_def Let_def dest: read_back_id split: if_splits option.splits)
qed

lemma finish_job:
  assumes "finish_preemption env a j p nb w = (out, w')" "po_owned out" "po_detail out = ''preempted''" "po_job out = Some k"
  shows "job_id k = job_id j"
  using assms
  by (auto simp: finish_preemption_def requeue_and_settle_def preempted_outcome_def declined_def Let_def dest: requeue_step_id
      split: prod.splits if_splits sum.splits option.splits)

lemma preempted_prepared:
  assumes "job_db_inv (pw_jobs w)" "complete_preemption env a w = (Inr out, w')" "po_owned out" "po_detail out = ''preempted''"
    "po_job out = Some k" "engine_refs (pw_git w) (job_id k)"
  obtains p where "prepared_well (pa_run_id a) (job_id k) p w'"
    "job_resume_from k = Some \<lparr>rf_run_id = pa_run_id a, rf_checkpoint_sha = pp_sha p, rf_handoff_id = pp_handoff p\<rparr>"
    "po_checkpoint_sha out = Some (pp_sha p)" "po_handoff_id out = Some (pp_handoff p)"
proof -
  have "\<not> po_limit_reached out" using limit_detail [OF assms(2,3)] assms(4) by auto
  with complete_contract [OF assms(1,2)] assms(3,4) have "requeued_once a out w w'" by (simp add: preemption_contract_def)
  then obtain i r r' sha handoff where r: "find_row i (pw_jobs w') = Some r'" "jr_state r' = state_value QUEUED"
      "jr_waiting_reason r' = Some (waiting_value PREEMPTED)" "row_to_job r' = Inr k"
      "jr_resume_from r' = Some (resume_to_dict \<lparr>rf_run_id = pa_run_id a, rf_checkpoint_sha = sha, rf_handoff_id = handoff\<rparr>)"
      "po_checkpoint_sha out = Some sha" "po_handoff_id out = Some handoff"
      "find_row i (pw_jobs w) = Some r" "jr_current_run_id r = Some (pa_run_id a)"
    using assms(5) by (auto simp: requeued_once_def)
  from assms(2) show ?thesis
  proof (cases rule: complete_cases)
    case (prepared j p w1 o')
    then have f: "finish_preemption env a j p (quota_reset_eta env (pa_run_id a) w) w1 = (out, w')" by simp
    have "job_id j = job_id k" using finish_job [OF f assms(3-5)] by simp
    then have "prepared_well (pa_run_id a) (job_id k) p w1" using prepare_well [OF _ prepared(3)] assms(6) by simp
    from keeps_prepared [OF finish_keeps [OF f] this] queued_capsule [OF r(4,2,3,5)] finish_capsule [OF f assms(3-5)] r(6,7)
    show ?thesis using that [of p] by simp
  next
    case (unowned o')
    then show ?thesis using unowned_outcome [OF unowned(1)] assms(3,4) by auto
  next
    case (limit j o')
    then show ?thesis using assms(3,4) by (auto simp: fail_at_limit_def declined_def split: prod.splits if_splits)
  next
    case (stopped j x)
    then have "prepare_preemption env a j (quota_reset_eta env (pa_run_id a) w) w = (Inr (Inl out), w')" by auto
    then show ?thesis using stopped_declined assms(3) by blast
  qed
qed

lemma anchored_listed:
  assumes "engine_refs g job" "anchored job p w" "pw_git w = g"
  shows "\<exists>refs. list_checkpoint_refs g job = Some refs \<and> pp_sha p \<in> set (map snd refs)" "sha_ok (pp_sha p)" "pp_sha p \<in> set (gr_commits g)"
proof -
  obtain i ref where i: "parse_checkpoint_ref (pp_ref p) job = Inr (Some i)" "validate_checkpoint_ref job i = Some ref"
      "dict_get (gr_refs g) ref = Some (Direct (pp_sha p))"
    using assms(2,3) by (auto simp: anchored_def read_ref_direct)
  then have d: "0 \<le> i" "dict_get (gr_refs g) (checkpoint_ref_name job i) = Some (Direct (pp_sha p))"
    by (auto simp: validate_checkpoint_ref_def split: if_splits)
  obtain refs where refs: "list_checkpoint_refs g job = Some refs" using listing_exact [OF assms(1)] by blast
  then have "(i, pp_sha p) \<in> set refs" using listing_member [OF assms(1) refs] d by simp
  then show "\<exists>refs. list_checkpoint_refs g job = Some refs \<and> pp_sha p \<in> set (map snd refs)" using refs by force
  show "sha_ok (pp_sha p)" "pp_sha p \<in> set (gr_commits g)" using engine_direct [OF assms(1) d] by blast+
qed

definition resumable :: "string \<Rightarrow> job \<Rightarrow> string \<Rightarrow> pre_world \<Rightarrow> bool" where
  \<comment> \<open>the new run has its row, the base commit is there, attempts have names, and the row id is fresh\<close>
  "resumable new k i w \<longleftrightarrow>
     get_run new (pw_runs w) \<noteq> None \<and> commit_exists (pw_git w) (job_base_sha k) = Some True \<and>
     (\<forall>a \<in> set (rb_attempts (pw_runs w)). at_id a \<noteq> []) \<and> (\<forall>c \<in> set (rb_checkpoints (pw_runs w)). ck_id c \<noteq> i)"

definition has_source :: "string \<Rightarrow> string \<Rightarrow> pre_world \<Rightarrow> bool" where
  \<comment> \<open>an attempt the copied checkpoint can be attributed to: the one its row names, or any of the old run\<close>
  "has_source old sha w \<longleftrightarrow> get_attempts_for_run old (pw_runs w) \<noteq> [] \<or>
     (case get_worker_checkpoint_by_sha old sha (pw_runs w) of None \<Rightarrow> False
      | Some c \<Rightarrow> ck_source_attempt_id c \<noteq> [] \<and> get_attempt (ck_source_attempt_id c) (pw_runs w) \<noteq> None)"

lemma resume_source_known:
  assumes "reliable env" "\<forall>a \<in> set (rb_attempts (pw_runs w)). at_id a \<noteq> []" "resume_source env resume w = (source, reason, changed)"
  shows "if has_source (rf_run_id resume) (rf_checkpoint_sha resume) w
    then source \<noteq> [] \<and> get_attempt source (pw_runs w) \<noteq> None else source = []"
proof -
  let ?as = "get_attempts_for_run (rf_run_id resume) (pw_runs w)"
  have as: "attempts_or_none env (rf_run_id resume) w = ?as" using assms(1) by (simp add: attempts_or_none_def read_attempts_def)
  have tail: "at_id (last ?as) \<noteq> [] \<and> get_attempt (at_id (last ?as)) (pw_runs w) \<noteq> None" if "?as \<noteq> []"
  proof -
    have "last ?as \<in> set ?as" using that by simp
    then have m: "last ?as \<in> set (rb_attempts (pw_runs w))" by (simp add: get_attempts_for_run_def)
    then have "get_attempt (at_id (last ?as)) (pw_runs w) \<noteq> None" by (auto simp: get_attempt_def find_None_iff)
    then show ?thesis using assms(2) m by blast
  qed
  show ?thesis
  proof (cases "get_worker_checkpoint_by_sha (rf_run_id resume) (rf_checkpoint_sha resume) (pw_runs w)")
    case None
    then show ?thesis using assms(1,3) as tail by (auto simp: resume_source_def has_source_def Let_def split: list.splits)
  next
    case (Some c)
    then show ?thesis
      using assms(1,3) as tail
      by (cases "ck_source_attempt_id c \<noteq> [] \<and> get_attempt (ck_source_attempt_id c) (pw_runs w) \<noteq> None")
        (auto simp: resume_source_def has_source_def Let_def split: list.splits if_splits)
  qed
qed

lemma resume_accepted:
  assumes "reliable env" "engine_refs (pw_git w) (job_id k)" "prepared_well run (job_id k) p w"
    "commit_exists (pw_git w) (job_base_sha k) = Some True"
  shows "resume_refusal env k \<lparr>rf_run_id = run, rf_checkpoint_sha = pp_sha p, rf_handoff_id = pp_handoff p\<rparr> w = None"
proof -
  have "anchored (job_id k) p w" "capsule_of run (pp_handoff p) w" using assms(3) by (simp_all add: prepared_well_def)
  moreover obtain refs where "list_checkpoint_refs (pw_git w) (job_id k) = Some refs" "pp_sha p \<in> set (map snd refs)"
    using anchored_listed(1) [OF assms(2) calculation(1) refl] by blast
  moreover have "commit_exists (pw_git w) (pp_sha p) = Some True"
    using anchored_listed(2,3) [OF assms(2) calculation(1) refl] by (simp add: commit_exists_def)
  ultimately show ?thesis
    using assms(1,4) by (auto simp: resume_refusal_def Let_def commit_known_def capsule_of_def simp del: set_map)
qed

text \<open>C4: Preempted work is resumed.  Whenever a call preempted a run, in any later state that kept what was
  recorded, when the next run of the job has its own row and the base commit is there, the
  verifications of that run pass.  If an attempt is known to attribute the work to (one of the old
  run, or the one the old run's checkpoint row names), the next run starts from exactly the
  checkpoint and capsule of the preemption, and the checkpoint row of the new run names them.
  Otherwise, as after a preemption before any worker was launched, nothing is staged and the
  next run is a fresh launch, with exactly that reason.\<close>
theorem preempted_work_resumes:
  assumes "job_db_inv (pw_jobs w)" "complete_preemption env a w = (Inr out, w1)" "po_owned out" "po_detail out = ''preempted''"
    "po_job out = Some k" "engine_refs (pw_git w) (job_id k)"
    "keeps_evidence w1 w2" "engine_refs (pw_git w2) (job_id k)" "reliable env2"
    "resumable new k (pe_checkpoint_id env2) w2"
  shows "\<exists>sha handoff w3. po_checkpoint_sha out = Some sha \<and> po_handoff_id out = Some handoff \<and>
    (if has_source (pa_run_id a) sha w2
     then prepare_resume env2 k new w2 =
         (\<lparr>rp_resumed = True, rp_reason = ''resumed'', rp_checkpoint_sha = Some sha, rp_handoff_id = Some handoff\<rparr>, w3) \<and>
       (\<exists>c \<in> set (get_worker_checkpoints_for_run new (pw_runs w3)). ck_checkpoint_sha c = sha \<and>
          ck_handoff_id c = Some handoff \<and> ck_source_base_sha c = job_base_sha k \<and>
          get_attempt (ck_source_attempt_id c) (pw_runs w3) \<noteq> None)
     else prepare_resume env2 k new w2 = (not_resumed ''no_source_attempt'', w3) \<and>
       rb_checkpoints (pw_runs w3) = rb_checkpoints (pw_runs w2) \<and> untouched w2 w3)"
proof -
  obtain p where p: "prepared_well (pa_run_id a) (job_id k) p w1"
    "job_resume_from k = Some \<lparr>rf_run_id = pa_run_id a, rf_checkpoint_sha = pp_sha p, rf_handoff_id = pp_handoff p\<rparr>"
    "po_checkpoint_sha out = Some (pp_sha p)" "po_handoff_id out = Some (pp_handoff p)"
    by (rule preempted_prepared [OF assms(1-6)])
  let ?resume = "\<lparr>rf_run_id = pa_run_id a, rf_checkpoint_sha = pp_sha p, rf_handoff_id = pp_handoff p\<rparr>"
  have ok: "get_run new (pw_runs w2) \<noteq> None" "commit_exists (pw_git w2) (job_base_sha k) = Some True"
      "\<forall>a \<in> set (rb_attempts (pw_runs w2)). at_id a \<noteq> []"
      "\<not> list_ex (\<lambda>c. ck_id c = pe_checkpoint_id env2) (rb_checkpoints (pw_runs w2))"
    using assms(10) by (auto simp: resumable_def list_ex_iff)
  obtain source reason changed where src: "resume_source env2 ?resume w2 = (source, reason, changed)" by (metis prod.collapse)
  note known = resume_source_known [OF assms(9) ok(3) src]
  note passed = resume_accepted [OF assms(9,8) keeps_prepared [OF assms(7) p(1)] ok(2)]
  show ?thesis
  proof (cases "has_source (pa_run_id a) (pp_sha p) w2")
    case True
    with known have src_ok: "source \<noteq> []" "get_attempt source (pw_runs w2) \<noteq> None" by simp_all
    define c where "c = staged_checkpoint env2 k ?resume new source reason changed"
    define db where "db = (pw_runs w2)\<lparr>rb_checkpoints := rb_checkpoints (pw_runs w2) @ [c]\<rparr>"
    have "create_worker_checkpoint c (pw_runs w2) = Some db"
      using ok(1,4) src_ok by (simp add: create_worker_checkpoint_def c_def staged_checkpoint_def db_def)
    with passed src src_ok assms(9) p
    have run: "prepare_resume env2 k new w2 =
      (\<lparr>rp_resumed = True, rp_reason = ''resumed'', rp_checkpoint_sha = Some (pp_sha p), rp_handoff_id = Some (pp_handoff p)\<rparr>,
       try_log env2 new ''resume_prepared''
         [(''job_id'', JStr (job_id k)), (''resume_run_id'', JStr (pa_run_id a)),
          (''checkpoint_sha'', JStr (pp_sha p)), (''handoff_id'', JStr (pp_handoff p))] (w2\<lparr>pw_runs := db\<rparr>))"
      (is "_ = (_, ?w3)") by (simp add: prepare_resume_def c_def)
    have "rb_checkpoints (pw_runs ?w3) = rb_checkpoints db" "rb_attempts (pw_runs ?w3) = rb_attempts db"
      by (auto simp: try_log_def log_event_def record_event_def split: option.splits if_splits)
    then have "c \<in> set (get_worker_checkpoints_for_run new (pw_runs ?w3))" "get_attempt (ck_source_attempt_id c) (pw_runs ?w3) \<noteq> None"
      using src_ok(2) by (simp_all add: get_worker_checkpoints_for_run_def get_attempt_def db_def c_def staged_checkpoint_def)
    moreover have "ck_checkpoint_sha c = pp_sha p" "ck_handoff_id c = Some (pp_handoff p)" "ck_source_base_sha c = job_base_sha k"
      by (simp_all add: c_def staged_checkpoint_def)
    ultimately show ?thesis using p(3,4) run True by auto
  next
    case False
    with known have "source = []" by simp
    with passed src p have run: "prepare_resume env2 k new w2 = skip_resume env2 k (pa_run_id a) new ''no_source_attempt'' w2"
      by (simp add: prepare_resume_def)
    then show ?thesis
      using p(3,4) False by (auto simp: skip_resume_def try_log_def log_event_def record_event_def untouched_def split: option.splits if_splits)
  qed
qed

section \<open>The tail of the job reconciliation\<close>

lemma reconcile_transition_steps: "reconcile_args_ok t f \<Longrightarrow> job_step\<^sup>*\<^sup>* db (snd (reconcile_transition i t f now db))"
  using step_reconcile [of t f db i now] by (auto simp: reconcile_transition_def split: sum.splits option.splits)

lemma owning_job_id: "owning_job env a w = Inr j \<Longrightarrow> pa_job_id a = Some i \<Longrightarrow> job_id j = i"
  by (auto simp: owning_job_def lookup_job_def get_job_def load_row_def dest!: find_row_Some loaded_fields(1)
      split: sum.splits option.splits if_splits)

lemma fail_job_steps:
  assumes "fail_job_at_limit env j w = (k, w')"
  shows "job_step\<^sup>*\<^sup>* (pw_jobs w) (pw_jobs w') \<and> only_row (job_id j) (pw_jobs w) (pw_jobs w')"
proof -
  let ?d = "snd (reconcile_transition (job_id j) FAILED (Some PREEMPTION_LIMIT) (pe_now env) (pw_jobs w))"
  have "w' = w \<or> pw_jobs w' = ?d"
    using assms by (auto simp: fail_job_at_limit_def split: if_splits option.splits sum.splits prod.splits)
  moreover have "job_step\<^sup>*\<^sup>* (pw_jobs w) ?d"
    by (rule reconcile_transition_steps) (simp add: reconcile_args_ok_def failure_reason_known_def)
  moreover have "only_row (job_id j) (pw_jobs w) ?d" by (rule only_row_reconcile)
  ultimately show ?thesis by auto
qed

lemma limit_steps:
  assumes "fail_at_limit env a j w = (out, w')"
  shows "job_step\<^sup>*\<^sup>* (pw_jobs w) (pw_jobs w') \<and> only_row (job_id j) (pw_jobs w) (pw_jobs w')"
proof -
  obtain res w1 where f: "fail_run_at_limit env a j w = (res, w1)" by fastforce
  obtain k w2 where k: "fail_job_at_limit env j w1 = (k, w2)" by fastforce
  have "pw_jobs w' = pw_jobs w1 \<or> pw_jobs w' = pw_jobs w2"
    using assms f k by (auto simp: fail_at_limit_def split: if_splits)
  then show ?thesis using fail_job_steps [OF k] fail_run_keeps [OF f] by auto
qed

lemma requeue_step_steps:
  assumes "requeue_step env a j resume nb w = (k, w')" "resume_valid (Some resume)"
  shows "job_step\<^sup>*\<^sup>* (pw_jobs w) (pw_jobs w') \<and> only_row (job_id j) (pw_jobs w) (pw_jobs w')"
proof -
  let ?d = "snd (requeue_exact (job_id j) PREEMPTED (pa_run_id a) (job_preemptions j) (Some resume) nb (pe_now env) (pw_jobs w))"
  have "w' = w \<or> pw_jobs w' = ?d" using assms(1) by (auto simp: requeue_step_def split: if_splits sum.splits prod.splits)
  then show ?thesis using step_requeue_exact [OF assms(2)] only_row_requeue_exact by auto
qed

lemma finish_steps:
  assumes "finish_preemption env a j p nb w = (out, w')"
  shows "job_step\<^sup>*\<^sup>* (pw_jobs w) (pw_jobs w') \<and> only_row (job_id j) (pw_jobs w) (pw_jobs w')"
proof -
  obtain ok t d w1 where t: "terminalize_preempted env a (preempted_summary (pa_run_id a) j p) w = ((ok, t, d), w1)"
    by (metis prod.collapse)
  let ?w2 = "if t then announce_preempted env a j p nb w1 else w1"
  have u: "untouched w1 ?w2" by (simp add: announce_preempted_def)
  have jobs: "pw_jobs ?w2 = pw_jobs w" "pw_jobs w1 = pw_jobs w" using u terminalize_keeps(1) [OF t] by (simp_all add: untouched_def)
  show ?thesis
  proof (cases "ok \<and> (\<exists>resume. resume_from_of (pa_run_id a) (pp_sha p) (pp_handoff p) = Inr resume)")
    case True
    then obtain resume where res: "resume_from_of (pa_run_id a) (pp_sha p) (pp_handoff p) = Inr resume" by blast
    obtain k w3 where k: "requeue_step env a j resume nb ?w2 = (k, w3)" by fastforce
    have "pw_jobs w' = pw_jobs w3"
      using assms t True res k by (auto simp: finish_preemption_def requeue_and_settle_def Let_def split: option.splits)
    then show ?thesis using requeue_step_steps [OF k resume_made(2) [OF res]] jobs(1) by (simp del: if_split)
  next
    case False
    then have "pw_jobs w' = pw_jobs ?w2 \<or> pw_jobs w' = pw_jobs w1"
      using assms t by (cases ok) (auto simp: finish_preemption_def requeue_and_settle_def Let_def split: sum.splits if_splits)
    then show ?thesis using jobs by auto
  qed
qed

lemma complete_steps:
  assumes "complete_preemption env a w = (res, w')" "pa_job_id a = Some i"
  shows "job_step\<^sup>*\<^sup>* (pw_jobs w) (pw_jobs w') \<and> only_row i (pw_jobs w) (pw_jobs w')"
  using assms(1)
proof (cases rule: complete_cases)
  case (limit j out)
  then show ?thesis using limit_steps owning_job_id [OF limit(1) assms(2)] by blast
next
  case (prepared j p w1 out)
  have "pw_jobs w1 = pw_jobs w" using untouched_prepare [OF prepared(3)] by (simp add: untouched_def)
  then show ?thesis using finish_steps [OF prepared(4)] owning_job_id [OF prepared(1) assms(2)] by simp
next
  case (stopped j x)
  then show ?thesis using untouched_prepare [OF stopped(3)] by (simp add: untouched_def)
qed simp

text \<open>C18: The coordinator is a proper tail of the reconciliation.  Whatever fails around it, all it writes to
  the job tables are transactions of the job store, and only to the row of the job it was called for,
  which is what the job service and the scheduler loop rely on.\<close>
theorem coordinator_is_a_tail: "tail_ok (preemption_tail_of env resolve w)"
  unfolding tail_ok_def
proof (intro allI)
  fix j run d
  obtain res w' where c: "complete_preemption env (reconcile_args j run (resolve (job_repo j))) (w\<lparr>pw_jobs := d\<rparr>) = (res, w')" by fastforce
  then have "snd (preemption_tail_of env resolve w j run d) = pw_jobs w'"
    by (simp add: preemption_tail_of_def split: sum.split)
  then show "job_step\<^sup>*\<^sup>* d (snd (preemption_tail_of env resolve w j run d)) \<and> only_row (job_id j) d (snd (preemption_tail_of env resolve w j run d))"
    using complete_steps [OF c, of "job_id j"] by (simp add: reconcile_args_def)
qed

text \<open>The reconciliation completes what a crash cut.  When a run is already preempted but its job still runs
  it and the prepared transaction verifies, the job reconciliation, its calls not failing, requeues that
  job exactly once more counted, with the prepared capsule, and reports the move.\<close>
theorem reconcile_completes_preemption:
  assumes "job_db_inv (pw_jobs w)" "reliable env" "run_status_of run w = Some Run_preempted"
    "find_row (job_id j) (pw_jobs w) = Some r" "row_to_job r = Inr j" "jr_state r = state_value RUNNING"
    "jr_current_run_id r = Some run" "job_preemptions j < DEFAULT_MAX_PREEMPTIONS"
    "classify_preemption_transaction env run j w = Inr (Tx_prepared, tx)" "tx_artifacts tx = Some arts"
    "resume_from_of run (ar_checkpoint_sha arts) (ar_handoff_id arts) = Inr resume"
  shows "\<exists>change d. reconcile_job (\<lambda>i. run_status_of i w) (preemption_tail_of env resolve w) now j (pw_jobs w) = (Inr (Some change), d) \<and>
    rc_job_id change = job_id j \<and> rc_to_state change = QUEUED \<and> requeued_row w (w\<lparr>pw_jobs := d\<rparr>) (job_id j) resume"
proof -
  let ?a = "reconcile_args j run (resolve (job_repo j))"
  let ?p = "\<lparr>pp_sha = ar_checkpoint_sha arts, pp_ref = ar_checkpoint_ref arts, pp_handoff = ar_handoff_id arts\<rparr>"
  let ?nb = "quota_reset_eta env run w"
  have a: "pa_run_id ?a = run" "pa_job_id ?a = Some (job_id j)" "pa_max ?a = DEFAULT_MAX_PREEMPTIONS" "pa_token ?a = None"
    by (simp_all add: reconcile_args_def pa_token_def)
  have r: "runs_for ?a j r w" using assms(1,4-7) by (simp add: runs_for_def a)
  note f = loaded_fields [OF assms(5)]
  have j: "job_state j = RUNNING" "job_current_run_id j = Some run" using f(2,3) assms(6,7) by simp_all
  have "get_job (job_id j) (pw_jobs w) = Inr (Some j)" using assms(4,5) by (simp add: get_job_def load_row_def)
  then have own: "owning_job env ?a w = Inr j"
    using assms(2,3) j a by (auto simp: owning_job_def run_gate_def lookup_job_def run_status_of_def)
  have prep: "prepare_preemption env ?a j ?nb w = (Inr (Inr ?p), w)" by (rule prepared_reused) (use assms(9,10) a in simp_all)
  have t: "terminalize_preempted env ?a (preempted_summary run j ?p) w = ((True, False, ''already_preempted''), w)"
    using assms(2,3) a by (auto simp: terminalize_preempted_def run_status_of_def)
  have res: "resume_from_of (pa_run_id ?a) (pp_sha ?p) (pp_handoff ?p) = Inr resume" using assms(11) a by simp
  obtain out w1 k where o': "requeue_and_settle env ?a j ?p ?nb w = (out, w1)" "po_owned out" "po_detail out = ''preempted''"
      "po_status out = Some Run_preempted" "po_checkpoint_sha out = Some (pp_sha ?p)" "po_job out = Some k"
      "pw_runs w1 = pw_runs w" "requeued_row w w1 (job_id j) resume"
    by (rule requeue_and_settle_completes [OF assms(2) r res])
  have "complete_preemption env ?a w = (Inr out, w1)"
    using own prep t o'(1) assms(8) a by (simp add: complete_preemption_def finish_preemption_def)
  then have "preemption_tail_of env resolve w j run (pw_jobs w) = (Some k, pw_jobs w1)"
    using o' by (simp add: preemption_tail_of_def)
  then show ?thesis using assms(3) j(2) o'(8) by (simp add: reconcile_job_def requeued_row_def)
qed

end
