(* ===== verification/Preemption_Crash.thy ===== *)
theory Preemption_Crash
  imports Preemption_Resume_Laws
begin

text \<open>
  Crash safety of the preemption: a decision reads back from its receipt as it was written, and a
  preparation that reached its intent is recognised as prepared by whoever comes after the crash,
  with exactly the artifacts it verified.
\<close>

section \<open>The receipt reads back\<close>

definition decision_wellformed :: "preemption_decision \<Rightarrow> bool" where
  "decision_wellformed d \<longleftrightarrow> pd_run_id d \<noteq> [] \<and> pd_job_id d \<noteq> [] \<and> 0 \<le> pd_before d \<and> pd_version d \<noteq> 0 \<and>
     pd_owner_id d \<noteq> Some [] \<and> pd_decision_ref d \<noteq> Some []"

lemma json_of_opt_text: "s \<noteq> Some [] \<Longrightarrow> json_nonempty_text (json_of_opt s) = s"
  by (cases s) (auto simp: json_of_opt_def json_nonempty_text_def)

lemma json_of_opt_number [simp]: "json_only_int (json_of_opt_int n) = n"
  by (cases n) (simp_all add: json_of_opt_int_def json_only_int_def)

lemma json_texts_read [simp]: "json_texts text (JList (map JStr ss)) = ss"
  by (simp add: json_texts_def comp_def json_text_def)

lemma decision_round_trip_aux:
  assumes "decision_wellformed d"
  shows "decision_from_payload text (decision_to_payload d) = Inr (Some d)"
  using assms
  by (cases d) (simp add: decision_from_payload_def decision_to_payload_def decision_wellformed_def json_get_def json_text_def
      json_int_def  json_of_opt_text Let_def)

text \<open>A decision survives its receipt.  The event payload written for a well-formed decision reads back
  as that decision, whatever the string conversion of other values does.\<close>
theorem decision_round_trip:
  assumes "decision_wellformed d"
  shows "decision_from_payload text (decision_to_payload d) = Inr (Some d)"
  by (rule decision_round_trip_aux [OF assms])

section \<open>Events of a preparation\<close>

definition same_events :: "string \<Rightarrow> pre_world \<Rightarrow> pre_world \<Rightarrow> bool" where
  "same_events ev w w' \<longleftrightarrow> (\<forall>run. get_events_by_type run ev (pw_runs w') = get_events_by_type run ev (pw_runs w))"

lemma same_events_refl [simp]: "same_events ev w w"
  by (simp add: same_events_def)

lemma same_events_trans: "same_events ev a b \<Longrightarrow> same_events ev b c \<Longrightarrow> same_events ev a c"
  by (simp add: same_events_def)

lemma same_events_log: "log_event env run ev' p w = Some w' \<Longrightarrow> ev' \<noteq> ev \<Longrightarrow> same_events ev w w'"
  by (auto simp: log_event_def record_event_def same_events_def get_events_by_type_def split: if_splits)

lemma same_events_runs: "rb_events (pw_runs w') = rb_events (pw_runs w) \<Longrightarrow> same_events ev w w'"
  by (simp add: same_events_def get_events_by_type_def)

lemma same_events_resolve: "resolve_anchor_sha env repo run j wt base w = (r, w') \<Longrightarrow> same_events ev w w'"
  by (auto simp: resolve_anchor_sha_def snapshot_worktree_def create_checkpoint_commit_def Let_def same_events_def
      split: if_splits option.splits commit_result.splits prod.splits)

lemma same_events_handoffs:
  "create_handoffs env run w = (r, w') \<Longrightarrow> ev \<noteq> ''checkpoint_created'' \<Longrightarrow> same_events ev w w'"
  by (auto simp: create_handoffs_def Let_def same_events_def get_events_by_type_def log_event_def record_event_def
      dest!: untouched_create_handoff split: if_splits option.splits)

lemma same_events_anchor: "anchor_step env job sha w = (r, w') \<Longrightarrow> same_events ev w w'"
  by (auto simp: anchor_step_def same_events_def split: if_splits option.splits prod.splits)

lemma same_events_row [simp]: "same_events ev w (ensure_old_checkpoint_row env run j sha h w)"
  by (rule same_events_runs)
     (auto simp: ensure_old_checkpoint_row_def create_worker_checkpoint_def split: prod.splits option.splits if_splits)

lemma payload_same: "same_events ev w w' \<Longrightarrow> payload_for env run ev job w' = payload_for env run ev job w"
  by (simp add: same_events_def payload_for_def event_payloads_def)

lemma payload_appended:
  assumes "log_event env0 run ev p w = Some w'" "json_get p ''job_id'' = JStr job" "payload_for env run ev job w = None"
    "\<not> pe_fails env (On_events ev)"
  shows "payload_for env run ev job w' = Some p"
  using assms
  by (auto simp: log_event_def record_event_def payload_for_def event_payloads_def get_events_by_type_def find_append_single split: if_splits)

section \<open>A preparation is recognised\<close>

definition fenced_call :: "pre_env \<Rightarrow> pre_args \<Rightarrow> job \<Rightarrow> pre_world \<Rightarrow> bool" where
  \<comment> \<open>the call of the owner itself, with its decision reference; events and attempts can be read\<close>
  "fenced_call env a j w \<longleftrightarrow>
     (\<exists>ow. get_execution_owner (pa_run_id a) (pw_runs w) = Some ow \<and> pa_owner_id a = Some (eo_owner_id ow) \<and>
        pa_generation a = Some (eo_generation ow) \<and> eo_owner_id ow \<noteq> []) \<and>
     truthy (pa_decision_ref a) \<and> pa_run_id a \<noteq> [] \<and> job_id j \<noteq> [] \<and> 0 \<le> job_preemptions j \<and>
     \<not> pe_fails env On_attempts \<and> \<not> pe_fails env (On_events PREPARATION_EVENT) \<and> \<not> pe_fails env (On_events INTENT_EVENT)"

lemma payload_readable:
  assumes "\<not> pe_fails env (On_events ev)" "reliable env2"
  shows "payload_for env2 run ev job w = payload_for env run ev job w"
  using assms by (simp add: payload_for_def event_payloads_def)

lemma snapshot_readable:
  assumes "\<not> pe_fails env On_attempts" "reliable env2"
  shows "attempt_snapshot env2 run w = attempt_snapshot env run w"
  using assms by (simp add: attempt_snapshot_def attempts_or_none_def read_attempts_def)

lemma authenticate_reliable:
  assumes "authenticate_decision env run j d before w = None" "\<not> pe_fails env On_attempts" "reliable env2"
  shows "authenticate_decision env2 run j d before w = None"
  using assms snapshot_readable [OF assms(2,3), of run w]
  by (auto simp: authenticate_decision_def decision_owner_binding_def split: if_splits option.splits)

lemma untouched_reads:
  assumes "untouched w w'"
  shows "attempt_snapshot env run w' = attempt_snapshot env run w" "get_execution_owner run (pw_runs w') = get_execution_owner run (pw_runs w)"
  using assms
  by (simp_all add: untouched_def attempt_snapshot_def attempts_or_none_def read_attempts_def get_attempts_for_run_def get_execution_owner_def)

lemma authenticate_untouched:
  assumes "untouched w w'"
  shows "authenticate_decision env run j d before w' = authenticate_decision env run j d before w"
  unfolding authenticate_decision_def decision_owner_binding_def untouched_reads [OF assms] ..

lemma built_authentic:
  assumes "fenced_call env a j w" "reliable env2"
  shows "authenticate_decision env2 (pa_run_id a) j
      (build_preemption_decision env (pa_run_id a) j (pa_owner_id a) (pa_generation a) (pa_decision_ref a) w) (job_preemptions j) w = None"
    "decision_wellformed (build_preemption_decision env (pa_run_id a) j (pa_owner_id a) (pa_generation a) (pa_decision_ref a) w)"
proof -
  have s: "attempt_snapshot env2 (pa_run_id a) w = attempt_snapshot env (pa_run_id a) w"
    using snapshot_readable assms by (simp add: fenced_call_def)
  show "authenticate_decision env2 (pa_run_id a) j
      (build_preemption_decision env (pa_run_id a) j (pa_owner_id a) (pa_generation a) (pa_decision_ref a) w) (job_preemptions j) w = None"
    using assms by (auto simp: authenticate_decision_def build_preemption_decision_def s decision_owner_binding_def fenced_call_def)
  show "decision_wellformed (build_preemption_decision env (pa_run_id a) j (pa_owner_id a) (pa_generation a) (pa_decision_ref a) w)"
    using assms(1) by (auto simp: decision_wellformed_def build_preemption_decision_def fenced_call_def DECISION_VERSION_def truthy_def)
qed

definition decided :: "pre_env \<Rightarrow> pre_args \<Rightarrow> job \<Rightarrow> preemption_decision \<Rightarrow> pre_world \<Rightarrow> bool" where
  \<comment> \<open>the first receipt of the job reads as this authentic decision\<close>
  "decided env a j d w \<longleftrightarrow>
     (\<exists>raw. decision_payload env (pa_run_id a) (job_id j) w = Some raw \<and> decision_from_payload (pe_text env) raw = Inr (Some d)) \<and>
     authenticate_decision env (pa_run_id a) j d (job_preemptions j) w = None"

lemma decision_step_decides:
  assumes "decision_step env a j w = (Inr None, w1)" "fenced_call env a j w" "intent_payload env (pa_run_id a) (job_id j) w = None"
    "reliable env2" "pe_text env2 = pe_text env"
  shows "\<exists>d. decided env2 a j d w1" "same_events INTENT_EVENT w w1"
proof -
  let ?d = "build_preemption_decision env (pa_run_id a) j (pa_owner_id a) (pa_generation a) (pa_decision_ref a) w"
  have read: "\<not> pe_fails env On_attempts" "\<not> pe_fails env (On_events PREPARATION_EVENT)" using assms(2) by (simp_all add: fenced_call_def)
  obtain tx where tx: "authenticate_prepared_transaction env (pa_run_id a) j (job_preemptions j) w = Inr tx"
    using assms(1) by (auto simp: decision_step_def split: sum.splits)
  obtain ok where rec: "record_preparation_decision env ?d w = (ok, w1)"
      "ok \<or> decision_payload env (pa_run_id a) (job_id j) w1 \<noteq> None"
    using assms(1) tx by (auto simp: decision_step_def split: if_splits prod.splits)
  have id: "pd_run_id ?d = pa_run_id a" "pd_job_id ?d = job_id j" by (simp_all add: build_preemption_decision_def)
  have "(\<exists>d. decided env2 a j d w1) \<and> same_events INTENT_EVENT w w1"
  proof (cases "decision_payload env (pa_run_id a) (job_id j) w")
    case None
    then have log: "log_event env (pa_run_id a) PREPARATION_EVENT (decision_to_payload ?d) w = Some w1"
      using rec by (auto simp: record_preparation_decision_def id split: option.splits)
    have fresh: "payload_for env2 (pa_run_id a) PREPARATION_EVENT (job_id j) w = None"
      using None payload_readable [OF read(2) assms(4)] by (simp add: decision_payload_def)
    have "decision_payload env2 (pa_run_id a) (job_id j) w1 = Some (decision_to_payload ?d)"
      unfolding decision_payload_def
      by (rule payload_appended [OF log _ fresh]) (use assms(4) in \<open>simp_all add: decision_names_job id\<close>)
    then have "decided env2 a j ?d w1"
      using built_authentic [OF assms(2,4)] decision_round_trip_aux authenticate_untouched [OF untouched_log [OF log]]
      by (simp add: decided_def)
    then show ?thesis using same_events_log [OF log] by auto
  next
    case (Some raw)
    then have w1: "w1 = w" using rec by (simp add: record_preparation_decision_def id)
    have "tx_ok tx"
      using assms(1,3) tx Some
      by (auto simp: decision_step_def authenticate_prepared_transaction_def tx_refused_def Let_def
          split: if_splits option.splits sum.splits)
    then obtain d where "decision_from_payload (pe_text env) raw = Inr (Some d)" "authenticate_decision env (pa_run_id a) j d (job_preemptions j) w = None"
      using tx Some by (auto simp: authenticate_prepared_transaction_def tx_refused_def Let_def split: option.splits sum.splits)
    then have "decided env2 a j d w1"
      using Some payload_readable [OF read(2) assms(4)] authenticate_reliable [OF _ read(1) assms(4)] assms(5) w1
      by (auto simp: decided_def decision_payload_def)
    then show ?thesis using w1 by auto
  qed
  then show "\<exists>d. decided env2 a j d w1" "same_events INTENT_EVENT w w1" by blast+
qed

lemma decided_same:
  assumes "untouched w w'" "same_events PREPARATION_EVENT w w'" "decided env a j d w"
  shows "decided env a j d w'"
  using assms authenticate_untouched [OF assms(1)] payload_same [OF assms(2)] by (simp add: decided_def decision_payload_def)

lemma artifacts_events:
  assumes "prepare_artifacts env a j nb w1 = (Inr p, w6)"
  obtains w5 where "untouched w1 w5" "same_events PREPARATION_EVENT w1 w5" "same_events INTENT_EVENT w1 w5"
    "log_event env (pa_run_id a) INTENT_EVENT (intent_of env a j p nb) w5 = Some w6"
proof -
  obtain w2 w3 w4 where
    s: "resolve_anchor_sha env (pa_repo a) (pa_run_id a) j (pa_worktree a) (pa_base_sha a) w1 = (Some (pp_sha p), w2)"
    and h: "create_handoffs env (pa_run_id a) w2 = (Some (pp_handoff p), w3)"
    and x: "anchor_step env (job_id j) (pp_sha p) w3 = (Some (pp_ref p), w4)"
    and i: "intent_step env a j p nb (ensure_old_checkpoint_row env (pa_run_id a) j (pp_sha p) (pp_handoff p) w4) = (Inr p, w6)"
    by (rule artifacts_chain [OF assms])
  let ?w5 = "ensure_old_checkpoint_row env (pa_run_id a) j (pp_sha p) (pp_handoff p) w4"
  have "untouched w1 ?w5"
    using untouched_trans [OF untouched_trans [OF untouched_resolve [OF s] untouched_handoffs [OF h]]
        untouched_trans [OF untouched_anchor [OF x] untouched_row]] .
  moreover have same: "same_events ev w1 ?w5" if "ev \<noteq> ''checkpoint_created''" for ev
    using same_events_trans [OF same_events_trans [OF same_events_resolve [OF s] same_events_handoffs [OF h that]]
        same_events_trans [OF same_events_anchor [OF x] same_events_row]] .
  moreover have "log_event env (pa_run_id a) INTENT_EVENT (intent_of env a j p nb) ?w5 = Some w6"
    using i by (auto simp: intent_step_def split: option.splits)
  ultimately show ?thesis using that [of ?w5] same [of PREPARATION_EVENT] same [of INTENT_EVENT] by simp
qed

definition artifacts_of :: "prepared \<Rightarrow> prepared_artifacts \<Rightarrow> bool" where
  "artifacts_of p r \<longleftrightarrow> ar_checkpoint_sha r = pp_sha p \<and> ar_checkpoint_ref r = pp_ref p \<and> ar_handoff_id r = pp_handoff p"

lemma written_intent_verifies:
  assumes "reliable env2" "engine_refs (pw_git w) (job_id j)" "anchored (job_id j) p w" "capsule_of run (pp_handoff p) w" "pp_handoff p \<noteq> []"
  shows "\<exists>r. verify_prepared_artifacts env2 run j (intent_of env a j p nb) (job_preemptions j) w = Inr (Inr r) \<and> artifacts_of p r"
proof -
  obtain i where i: "parse_checkpoint_ref (pp_ref p) (job_id j) = Inr (Some i)" "read_checkpoint_ref (pw_git w) (job_id j) i = Some (Some (pp_sha p))"
    using assms(3) by (auto simp: anchored_def)
  obtain h where h: "get_handoff (pp_handoff p) (pw_runs w) = Some h" "ho_run_id h = run" using assms(4) by (auto simp: capsule_of_def)
  note sha = anchored_listed(2,3) [OF assms(2,3) refl]
  have "pp_sha p \<noteq> []" using sha(1) by (auto simp: sha_ok_def)
  moreover have "pp_ref p \<noteq> []" using i(1) by (auto simp: parse_checkpoint_ref_def py_startswith_def checkpoint_dir_def split: if_splits)
  ultimately show ?thesis
    using assms(1,5) i h sha
    by (simp add: verify_prepared_artifacts_def written_intent_fields json_nonempty_text_def commit_known_def commit_exists_def
        json_int_def artifacts_of_def Let_def)
qed

lemma written_intent_matches:
  assumes "authenticate_decision env2 (pa_run_id a) j d (job_preemptions j) w = None" "fenced_call env a j w"
  shows "intent_matches_decision (intent_of env a j p nb) d = None"
proof -
  obtain ow where ow: "get_execution_owner (pa_run_id a) (pw_runs w) = Some ow" "pa_owner_id a = Some (eo_owner_id ow)"
    "pa_generation a = Some (eo_generation ow)" "eo_owner_id ow \<noteq> []" using assms(2) by (auto simp: fenced_call_def)
  have "pd_before d = job_preemptions j" "pd_owner_id d = pa_owner_id a" "pd_owner_generation d = pa_generation a"
    using assms(1) ow by (auto simp: authenticate_decision_def decision_owner_binding_def split: if_splits option.splits)
  then show ?thesis using ow by (simp add: intent_matches_decision_def written_intent_fields json_int_def json_of_opt_text)
qed

lemma fenced_call_untouched: "untouched w w' \<Longrightarrow> fenced_call env a j w' = fenced_call env a j w"
  using untouched_reads(2) by (simp add: fenced_call_def)

lemma row_git [simp]: "pw_git (ensure_old_checkpoint_row env run j sha h w) = pw_git w"
  by (auto simp: ensure_old_checkpoint_row_def split: prod.splits option.splits)

lemma intent_git: "intent_step env a j p nb w = (r, w') \<Longrightarrow> pw_git w' = pw_git w"
  by (auto simp: intent_step_def log_git split: option.splits)

lemma artifacts_refs:
  assumes "engine_refs (pw_git w1) (job_id j)" "prepare_artifacts env a j nb w1 = (Inr p, w6)"
  shows "engine_refs (pw_git w6) (job_id j) \<and> pp_handoff p = pe_capsule_id env"
proof -
  obtain w2 w3 w4 where
    s: "resolve_anchor_sha env (pa_repo a) (pa_run_id a) j (pa_worktree a) (pa_base_sha a) w1 = (Some (pp_sha p), w2)"
    and h: "create_handoffs env (pa_run_id a) w2 = (Some (pp_handoff p), w3)"
    and x: "anchor_step env (job_id j) (pp_sha p) w3 = (Some (pp_ref p), w4)"
    and i: "intent_step env a j p nb (ensure_old_checkpoint_row env (pa_run_id a) j (pp_sha p) (pp_handoff p) w4) = (Inr p, w6)"
    by (rule artifacts_chain [OF assms(2)])
  have "engine_refs (pw_git w3) (job_id j)"
    using engine_refs_more [OF assms(1) resolve_refs [OF s]] keeps_resolve [OF s] handoffs_git [OF h] by (simp add: keeps_evidence_def)
  from anchor_step_anchored [OF this x] intent_git [OF i] created_capsule [OF h] show ?thesis by simp
qed

lemma prepare_refs:
  assumes "engine_refs (pw_git w) (job_id j)" "prepare_preemption env a j nb w = (Inr (Inr p), w1)"
  shows "engine_refs (pw_git w1) (job_id j)"
proof (cases "intent_payload env (pa_run_id a) (job_id j) w")
  case None
  then obtain w0 where d: "decision_step env a j w = (Inr None, w0)" and x: "prepare_artifacts env a j nb w0 = (Inr p, w1)"
    using assms(2) by (auto simp: prepare_fresh split: sum.splits option.splits prod.splits)
  then show ?thesis using artifacts_refs [OF _ x] assms(1) decision_step_git [OF d] by simp
next
  case (Some q)
  then show ?thesis using assms prepare_reuses [of env a j w nb] by simp
qed

lemma preparation_recognised:
  assumes "prepare_preemption env a j nb w = (Inr (Inr p), w1)" "intent_payload env (pa_run_id a) (job_id j) w = None"
    "fenced_call env a j w" "engine_refs (pw_git w) (job_id j)" "pp_handoff p \<noteq> []"
    "reliable env2" "pe_text env2 = pe_text env"
  shows "intent_payload env2 (pa_run_id a) (job_id j) w1 = Some (intent_of env a j p nb)"
    "\<exists>tx r. classify_preemption_transaction env2 (pa_run_id a) j w1 = Inr (Tx_prepared, tx) \<and> tx_artifacts tx = Some r \<and> artifacts_of p r"
proof -
  obtain w0 where d: "decision_step env a j w = (Inr None, w0)" and x: "prepare_artifacts env a j nb w0 = (Inr p, w1)"
    using assms(1,2) by (auto simp: prepare_fresh split: sum.splits option.splits prod.splits)
  obtain dec where dec: "decided env2 a j dec w0" using decision_step_decides(1) [OF d assms(3,2,6,7)] by blast
  have same0: "same_events INTENT_EVENT w w0" by (rule decision_step_decides(2) [OF d assms(3,2,6,7)])
  obtain w5 where w5: "untouched w0 w5" "same_events PREPARATION_EVENT w0 w5" "same_events INTENT_EVENT w0 w5"
    "log_event env (pa_run_id a) INTENT_EVENT (intent_of env a j p nb) w5 = Some w1"
    by (rule artifacts_events [OF x])
  have u: "untouched w0 w1" using untouched_trans [OF w5(1) untouched_log [OF w5(4)]] .
  have "same_events PREPARATION_EVENT w0 w1" using same_events_trans [OF w5(2) same_events_log [OF w5(4)]] by simp
  then have dec1: "decided env2 a j dec w1" by (rule decided_same [OF u _ dec])
  have read: "\<not> pe_fails env (On_events INTENT_EVENT)" using assms(3) by (simp add: fenced_call_def)
  have "payload_for env2 (pa_run_id a) INTENT_EVENT (job_id j) w5 = None"
    using assms(2) payload_same [OF same_events_trans [OF same0 w5(3)]] payload_readable [OF read assms(6)]
    by (simp add: intent_payload_def)
  then show intent: "intent_payload env2 (pa_run_id a) (job_id j) w1 = Some (intent_of env a j p nb)"
    unfolding intent_payload_def
    by (intro payload_appended [OF w5(4)]) (simp_all add: written_intent_fields assms(6))
  have well: "prepared_well (pa_run_id a) (job_id j) p w1" by (rule prepare_well [OF assms(4,1)])
  obtain r where r: "verify_prepared_artifacts env2 (pa_run_id a) j (intent_of env a j p nb) (job_preemptions j) w1 = Inr (Inr r)"
    "artifacts_of p r"
    using written_intent_verifies [OF assms(6) prepare_refs [OF assms(4,1)] _ _ assms(5), of "pa_run_id a" env a nb] well
    unfolding prepared_well_def by blast
  have "untouched w w1" using untouched_trans [OF untouched_decision_step [OF d] u] .
  then have "fenced_call env a j w1" using assms(3) fenced_call_untouched by blast
  with dec1 written_intent_matches have "intent_matches_decision (intent_of env a j p nb) dec = None" by (auto simp: decided_def)
  with dec1 intent r show "\<exists>tx r. classify_preemption_transaction env2 (pa_run_id a) j w1 = Inr (Tx_prepared, tx) \<and> tx_artifacts tx = Some r \<and> artifacts_of p r"
    by (auto simp: decided_def classify_preemption_transaction_def authenticate_prepared_transaction_def Let_def)
qed

section \<open>Recovery after a crash\<close>

lemma recoverable_kept:
  assumes "recoverable env run j ow w" "reliable env" "untouched w w'"
    "same_events ''quota_exhaustion_recorded'' w w'" "same_events ''no_eligible_candidate'' w w'"
    "set (rb_checkpoints (pw_runs w)) \<subseteq> set (rb_checkpoints (pw_runs w'))"
  shows "recoverable env run j ow w'"
proof -
  have "set (get_worker_checkpoints_for_run run (pw_runs w)) \<subseteq> set (get_worker_checkpoints_for_run run (pw_runs w'))"
    using assms(6) by (auto simp: get_worker_checkpoints_for_run_def)
  then have rows: "list_ex (\<lambda>c. ck_reason c = QUOTA_EXHAUSTED) (get_worker_checkpoints_for_run run (pw_runs w)) \<Longrightarrow>
      list_ex (\<lambda>c. ck_reason c = QUOTA_EXHAUSTED) (get_worker_checkpoints_for_run run (pw_runs w'))"
    by (auto simp: list_ex_iff)
  have reads: "attempts_or_none env run w' = attempts_or_none env run w" "read_attempts env run w' = read_attempts env run w"
    "find_job_for_run env run w' = find_job_for_run env run w"
    using assms(3) by (simp_all add: untouched_def attempts_or_none_def read_attempts_def get_attempts_for_run_def find_job_for_run_def)
  have ev: "event_payloads env run ''quota_exhaustion_recorded'' w' = event_payloads env run ''quota_exhaustion_recorded'' w"
    "event_payloads env run ''no_eligible_candidate'' w' = event_payloads env run ''no_eligible_candidate'' w"
    using assms(4,5) by (simp_all add: same_events_def event_payloads_def)
  have "has_genuine_quota_signal env run w \<Longrightarrow> has_genuine_quota_signal env run w'"
    unfolding has_genuine_quota_signal_def reads ev using rows by blast
  moreover have "has_no_eligible_evidence env run w' = has_no_eligible_evidence env run w"
    unfolding has_no_eligible_evidence_def reads ev ..
  ultimately show ?thesis
    using assms(1,3) reads untouched_status [OF assms(3)] untouched_reads(2) [OF assms(3)] by (simp add: recoverable_def untouched_def)
qed

definition gathers :: "pre_world \<Rightarrow> pre_world \<Rightarrow> bool" where
  \<comment> \<open>checkpoint rows are only added, and the two kinds of quota evidence are as they were\<close>
  "gathers w w' \<longleftrightarrow> set (rb_checkpoints (pw_runs w)) \<subseteq> set (rb_checkpoints (pw_runs w')) \<and>
     same_events ''quota_exhaustion_recorded'' w w' \<and> same_events ''no_eligible_candidate'' w w'"

lemma gathers_refl [simp]: "gathers w w"
  by (simp add: gathers_def)

lemma gathers_trans: "gathers a b \<Longrightarrow> gathers b c \<Longrightarrow> gathers a c"
  by (auto simp: gathers_def intro: same_events_trans)

lemma gathers_log: "log_event env run ev p w = Some w' \<Longrightarrow> ev \<noteq> ''quota_exhaustion_recorded'' \<Longrightarrow> ev \<noteq> ''no_eligible_candidate'' \<Longrightarrow> gathers w w'"
  using same_events_log [of env run ev p w w'] by (auto simp: gathers_def log_event_def record_event_def split: if_splits)

lemma gathers_decision: "decision_step env a j w = (r, w') \<Longrightarrow> gathers w w'"
  by (auto simp: decision_step_def record_preparation_decision_def gathers_log
      split: sum.splits if_splits prod.splits option.splits)

lemma gathers_resolve: "resolve_anchor_sha env repo run j wt base w = (r, w') \<Longrightarrow> gathers w w'"
  using same_events_resolve [of env repo run j wt base w r w']
  by (auto simp: gathers_def resolve_anchor_sha_def snapshot_worktree_def create_checkpoint_commit_def Let_def
      split: if_splits option.splits commit_result.splits prod.splits)

lemma gathers_handoffs: "create_handoffs env run w = (r, w') \<Longrightarrow> gathers w w'"
  using same_events_handoffs [of env run w r w']
  by (auto simp: gathers_def create_handoffs_def Let_def log_event_def record_event_def
      dest!: untouched_create_handoff split: if_splits option.splits)

lemma gathers_anchor: "anchor_step env job sha w = (r, w') \<Longrightarrow> gathers w w'"
  using same_events_anchor [of env job sha w r w']
  by (auto simp: anchor_step_def gathers_def split: if_splits option.splits prod.splits)

lemma gathers_row: "gathers w (ensure_old_checkpoint_row env run j sha h w)"
  by (auto simp: gathers_def) (auto simp: ensure_old_checkpoint_row_def create_worker_checkpoint_def split: prod.splits option.splits if_splits)

lemma gathers_prepare:
  assumes "prepare_preemption env a j nb w = (Inr (Inr p), w1)" "intent_payload env (pa_run_id a) (job_id j) w = None"
  shows "gathers w w1"
proof -
  obtain w0 where d: "decision_step env a j w = (Inr None, w0)" and x: "prepare_artifacts env a j nb w0 = (Inr p, w1)"
    using assms by (auto simp: prepare_fresh split: sum.splits option.splits prod.splits)
  obtain w2 w3 w4 where
    s: "resolve_anchor_sha env (pa_repo a) (pa_run_id a) j (pa_worktree a) (pa_base_sha a) w0 = (Some (pp_sha p), w2)"
    and h: "create_handoffs env (pa_run_id a) w2 = (Some (pp_handoff p), w3)"
    and y: "anchor_step env (job_id j) (pp_sha p) w3 = (Some (pp_ref p), w4)"
    and i: "intent_step env a j p nb (ensure_old_checkpoint_row env (pa_run_id a) j (pp_sha p) (pp_handoff p) w4) = (Inr p, w1)"
    by (rule artifacts_chain [OF x])
  have "gathers (ensure_old_checkpoint_row env (pa_run_id a) j (pp_sha p) (pp_handoff p) w4) w1"
    using i gathers_log by (auto simp: intent_step_def split: option.splits)
  then show ?thesis
    using gathers_trans [OF gathers_trans [OF gathers_decision [OF d] gathers_resolve [OF s]]
        gathers_trans [OF gathers_handoffs [OF h] gathers_trans [OF gathers_anchor [OF y] gathers_row]]] gathers_trans by blast
qed

lemma terminalize_failed_detail:
  assumes "complete_preemption env a w = (Inr out, w1)" "po_detail out = ''fenced_terminalize_failed''" "owning_job env a w = Inr j"
  obtains p where "prepare_preemption env a j (quota_reset_eta env (pa_run_id a) w) w = (Inr (Inr p), w1)"
  using assms(1)
proof (cases rule: complete_cases)
  case (unowned o')
  then show ?thesis using assms(3) by simp
next
  case (limit k o')
  then show ?thesis using assms(2) by (auto simp: fail_at_limit_def declined_def split: prod.splits if_splits)
next
  case (prepared k p w0 o')
  then have f: "finish_preemption env a k p (quota_reset_eta env (pa_run_id a) w) w0 = (out, w1)" by simp
  obtain ok t d w2 where t: "terminalize_preempted env a (preempted_summary (pa_run_id a) k p) w0 = ((ok, t, d), w2)"
    by (metis prod.collapse)
  have "\<not> ok"
    using f t assms(2)
    by (auto simp: finish_preemption_def requeue_and_settle_def preempted_outcome_def Let_def split: sum.splits option.splits prod.splits)
  then have "w1 = w0" using f t terminalize_keeps(7) [OF t] by (simp add: finish_preemption_def)
  then show ?thesis using prepared(1,3) assms(3) that by simp
next
  case (stopped k x)
  then have "prepare_preemption env a k (quota_reset_eta env (pa_run_id a) w) w = (Inr (Inl out), w1)" by auto
  then show ?thesis
    using assms(2)
    by (auto simp: prepare_preemption_def decision_step_def prepare_artifacts_def intent_step_def declined_def
        split: if_splits sum.splits option.splits prod.splits bool.splits)
qed

lemma prepare_capsule:
  assumes "engine_refs (pw_git w) (job_id j)" "prepare_preemption env a j nb w = (Inr (Inr p), w1)"
    "intent_payload env (pa_run_id a) (job_id j) w = None"
  shows "pp_handoff p = pe_capsule_id env"
proof -
  obtain w0 where d: "decision_step env a j w = (Inr None, w0)" and x: "prepare_artifacts env a j nb w0 = (Inr p, w1)"
    using assms(2,3) by (auto simp: prepare_fresh split: sum.splits option.splits prod.splits)
  then show ?thesis using artifacts_refs [OF _ x] assms(1) decision_step_git [OF d] by simp
qed

lemma sha_strip: "sha_ok s \<Longrightarrow> py_strip s \<noteq> []"
proof -
  assume s: "sha_ok s"
  then have ne: "s \<noteq> []" by (auto simp: sha_ok_def)
  have "list_all (\<lambda>c. \<not> py_isspace c) ''0123456789abcdef''" by code_simp
  then have "\<forall>c \<in> set s. \<not> py_isspace c" using s unfolding sha_ok_def list_all_iff by blast
  then have "py_strip s = s" using ne by (intro py_strip_id) simp_all
  with ne show ?thesis by simp
qed

text \<open>C2: A crash before the end of the run loses nothing.  When the owner's own call prepared everything but the
  write that ends the run did not happen, the supervisor's recovery after the owner's death completes
  that preemption with the very artifacts of the dead call: the commit, ref and capsule that call
  prepared are the ones its recorded intent names, the recovery reports that commit, the run is
  terminal, and the job waits in the queue counted exactly once more, to resume from exactly that
  commit and capsule.\<close>
theorem crashed_preemption_recovers:
  assumes "job_db_inv (pw_jobs w)" "owning_job env a w = Inr j" "complete_preemption env a w = (Inr out, w1)"
    "po_detail out = ''fenced_terminalize_failed''" "fenced_call env a j w" "intent_payload env (pa_run_id a) (job_id j) w = None"
    "engine_refs (pw_git w) (job_id j)" "py_strip (pa_run_id a) \<noteq> []" "py_strip (pe_capsule_id env) \<noteq> []"
    "reliable env2" "pe_text env2 = pe_text env" "recoverable env2 (pa_run_id a) j ow w"
  shows "\<exists>p w2 report. prepare_preemption env a j (quota_reset_eta env (pa_run_id a) w) w = (Inr (Inr p), w1) \<and>
    intent_payload env2 (pa_run_id a) (job_id j) w1 = Some (intent_of env a j p (quota_reset_eta env (pa_run_id a) w)) \<and>
    prepared_well (pa_run_id a) (job_id j) p w1 \<and>
    recover_preemption_transaction env2 resolve (pa_run_id a) (Some ow) False w1 = (Inr (Some report), w2) \<and>
    rr_action report = ''preempt_recovered'' \<and> rr_checkpoint_sha report = Some (pp_sha p) \<and>
    run_status_of (pa_run_id a) w2 = Some Run_preempted \<and>
    requeued_row w w2 (job_id j) \<lparr>rf_run_id = pa_run_id a, rf_checkpoint_sha = pp_sha p, rf_handoff_id = pp_handoff p\<rparr>"
proof -
  obtain p where prep: "prepare_preemption env a j (quota_reset_eta env (pa_run_id a) w) w = (Inr (Inr p), w1)"
    by (rule terminalize_failed_detail [OF assms(3,4,2)])
  have u: "untouched w w1" by (rule untouched_prepare [OF prep])
  have well: "prepared_well (pa_run_id a) (job_id j) p w1" by (rule prepare_well [OF assms(7) prep])
  have refs: "engine_refs (pw_git w1) (job_id j)" by (rule prepare_refs [OF assms(7) prep])
  have sha: "sha_ok (pp_sha p)" using anchored_listed(2) [OF refs _ refl] well by (simp add: prepared_well_def)
  have capsule: "pp_handoff p = pe_capsule_id env" by (rule prepare_capsule [OF assms(7) prep assms(6)])
  have "pp_handoff p \<noteq> []" using assms(9) capsule by auto
  note known = preparation_recognised [OF prep assms(6,5,7) this assms(10,11)]
  from known(2) obtain tx r where
    tx: "classify_preemption_transaction env2 (pa_run_id a) j w1 = Inr (Tx_prepared, tx)" "tx_artifacts tx = Some r" "artifacts_of p r"
    by blast
  let ?resume = "\<lparr>rf_run_id = pa_run_id a, rf_checkpoint_sha = pp_sha p, rf_handoff_id = pp_handoff p\<rparr>"
  have res: "resume_from_of (pa_run_id a) (ar_checkpoint_sha r) (ar_handoff_id r) = Inr ?resume"
    using tx(3) assms(8,9) capsule sha_strip [OF sha] by (simp add: resume_from_of_def artifacts_of_def)
  have rec: "recoverable env2 (pa_run_id a) j ow w1"
    using recoverable_kept [OF assms(12,10) u] gathers_prepare [OF prep assms(6)] by (simp add: gathers_def)
  have inv: "job_db_inv (pw_jobs w1)" using assms(1) u by (simp add: untouched_def)
  have "\<exists>w2 report. recover_preemption_transaction env2 resolve (pa_run_id a) (Some ow) False w1 = (Inr (Some report), w2) \<and>
      rr_action report = ''preempt_recovered'' \<and> rr_checkpoint_sha report = Some (pp_sha p) \<and>
      run_status_of (pa_run_id a) w2 = Some Run_preempted \<and> requeued_row w w2 (job_id j) ?resume"
    using prepared_preemption_completes_aux [OF inv assms(10) rec tx(1,2) res] tx(3) u
    by (auto simp: artifacts_of_def requeued_row_def untouched_def)
  with prep known(1) well show ?thesis by blast
qed

section \<open>A decision that binds nobody\<close>

lemma unbound_refused:
  assumes "decision_payload env run (job_id j) w = Some (decision_to_payload d)" "decision_wellformed d" "pd_decision_ref d = None"
  shows "\<exists>tx. authenticate_prepared_transaction env run j before w = Inr tx \<and> \<not> tx_ok tx \<and> tx_detail tx \<noteq> ''decision_missing''"
  using assms decision_round_trip_aux [OF assms(2), of "pe_text env"]
  by (auto simp: authenticate_prepared_transaction_def authenticate_decision_def tx_refused_def truthy_def Let_def)

text \<open>A decision without its reference blocks.  When the first receipt of a run and job was written by a
  call that named no decision reference, nobody can continue: the transaction classifies as blocked and
  every further call for the running job, below its bound, declines and writes nothing.\<close>
theorem unbound_decision_blocks:
  assumes "owning_job env a w = Inr j" "job_preemptions j < pa_max a"
    "decision_payload env (pa_run_id a) (job_id j) w = Some (decision_to_payload d)" "decision_wellformed d" "pd_decision_ref d = None"
  shows "(\<exists>out. complete_preemption env a w = (Inr out, w) \<and> \<not> po_owned out) \<and>
    (\<exists>tx. classify_preemption_transaction env (pa_run_id a) j w = Inr (Tx_blocked, tx))"
proof -
  obtain tx where tx: "authenticate_prepared_transaction env (pa_run_id a) j (job_preemptions j) w = Inr tx" "\<not> tx_ok tx"
    "tx_detail tx \<noteq> ''decision_missing''" using unbound_refused [OF assms(3-5)] by blast
  then have "classify_preemption_transaction env (pa_run_id a) j w = Inr (Tx_blocked, tx)"
    by (simp add: classify_preemption_transaction_def)
  moreover have "\<exists>out. prepare_preemption env a j nb w = (Inr (Inl out), w) \<and> \<not> po_owned out" for nb
    using tx by (simp add: prepare_preemption_def decision_step_def declined_def)
  then obtain out where "prepare_preemption env a j (quota_reset_eta env (pa_run_id a) w) w = (Inr (Inl out), w)" "\<not> po_owned out" by blast
  then have "complete_preemption env a w = (Inr out, w) \<and> \<not> po_owned out"
    using assms(1,2) by (simp add: complete_preemption_def)
  ultimately show ?thesis by blast
qed

end
