(* ===== verification/Preemption_Samples.thy ===== *)
theory Preemption_Samples
  imports Preemption_Crash
begin

text \<open>
  A run of one job in a small repository whose provider ran dry, and the properties of the preemption
  at that state.
\<close>

definition dry_attempt :: attempt_row where
  "dry_attempt = \<lparr>at_id = ''at-1'', at_run_id = ''run-1'', at_number = 1, at_worktree_path = ''/wt'', at_status = At_failed,
     at_worker_error = None, at_completed_at = Some ''t'', at_interruption = Some QUOTA_EXHAUSTED\<rparr>"

definition dry_job :: job where
  "dry_job = sample_job\<lparr>job_base_sha := sample_sha CHR ''a''\<rparr>"

definition dry_jobs :: job_db where
  "dry_jobs = snd (mark_dispatched ''J1'' ''run-1'' 1 (snd (insert_job dry_job 0 empty_job_db)))"

definition dry_world :: pre_world where
  "dry_world = \<lparr>pw_jobs = dry_jobs, pw_owner = empty_owner_db,
     pw_runs = owned_run_db\<lparr>rb_attempts := [dry_attempt]\<rparr>,
     pw_git = sample_repo\<lparr>gr_worktrees := [(''/wt'', \<lparr>wt_head = Some (sample_sha CHR ''b''), wt_changed = []\<rparr>)]\<rparr>\<rparr>"

definition dry_shell :: git_shell where
  "dry_shell = \<lparr>gs_resolve = Some, gs_is_dir = (\<lambda>_. True), gs_common_dir = (\<lambda>_. Some ''/repo/.git''), gs_toplevel = Some,
     gs_worktree_list = (\<lambda>_. Some ''worktree /wt''), gs_ancestor = (\<lambda>_ _. False)\<rparr>"

definition dry_env :: pre_env where
  "dry_env = \<lparr>pe_fails = (\<lambda>_. False), pe_shell = dry_shell, pe_text = (\<lambda>_. ''?''), pe_commit = Commit_raises, pe_now = 5,
     pe_stamp = ''t2'', pe_full_id = ''h1'', pe_capsule_id = ''h2'', pe_full_content = ''full'', pe_capsule_content = ''capsule'',
     pe_checkpoint_id = ''c1''\<rparr>"

definition dry_args :: pre_args where
  "dry_args = \<lparr>pa_run_id = ''run-1'', pa_repo = ''/repo'', pa_job_id = Some ''J1'', pa_worktree = None, pa_base_sha = None,
     pa_owner_id = Some ''a'', pa_generation = Some 1, pa_decision_ref = Some ''decision-1'', pa_recovering = False, pa_max = 5\<rparr>"

lemma dry_preempts:
  "case fst (complete_preemption dry_env dry_args dry_world) of
     Inl e \<Rightarrow> False
   | Inr out \<Rightarrow> po_owned out \<and> po_detail out = ''preempted'' \<and> map_option job_id (po_job out) = Some ''J1'' \<and>
       po_checkpoint_sha out = Some (sample_sha CHR ''b'')"
  by code_simp

lemma dry_result:
  obtains out w' j where "complete_preemption dry_env dry_args dry_world = (Inr out, w')" "po_owned out" "po_detail out = ''preempted''"
    "po_job out = Some j" "job_id j = ''J1''" "po_checkpoint_sha out = Some (sample_sha CHR ''b'')" "\<not> po_limit_reached out"
proof -
  obtain res w' where r: "complete_preemption dry_env dry_args dry_world = (res, w')" by fastforce
  with dry_preempts obtain out where "res = Inr out" "po_owned out" "po_detail out = ''preempted''"
    "map_option job_id (po_job out) = Some ''J1''" "po_checkpoint_sha out = Some (sample_sha CHR ''b'')"
    by (auto split: sum.splits)
  with r that limit_detail [of dry_env dry_args dry_world out w'] show ?thesis by fastforce
qed

lemma dry_job_new: "new_job dry_job"
  using sample_job_new unfolding new_job_def job_ok_def by (simp add: dry_job_def sample_job_def)

lemma dry_inv: "job_db_inv (pw_jobs dry_world)"
proof -
  have q: "job_step\<^sup>*\<^sup>* empty_job_db (snd (insert_job dry_job 0 empty_job_db))"
    by (rule r_into_rtranclp, rule step_insert [OF dry_job_new])
  have "job_step\<^sup>*\<^sup>* empty_job_db dry_jobs"
    unfolding dry_jobs_def by (rule rtranclp.rtrancl_into_rtrancl [OF q step_dispatch])
  from job_machine.steps_inv [OF this empty_job_db_inv] show ?thesis by (simp add: dry_world_def)
qed

lemma dry_running: "run_status_of ''run-1'' dry_world = Some Run_running" "pa_run_id dry_args = ''run-1''"
  by code_simp+

lemma dry_refs: "owning_job dry_env dry_args dry_world = Inr j \<Longrightarrow> engine_refs (pw_git dry_world) (job_id j)"
proof -
  assume o: "owning_job dry_env dry_args dry_world = Inr j"
  have "case owning_job dry_env dry_args dry_world of Inl out \<Rightarrow> False | Inr j \<Rightarrow> job_id j = ''J1''" by code_simp
  with o have "job_id j = ''J1''" by simp
  then show ?thesis using engine_refs_more [OF sample_engine_refs, of "pw_git dry_world"] by (simp add: dry_world_def)
qed

definition bound_args :: pre_args where
  \<comment> \<open>the same call with no preemption left\<close>
  "bound_args = dry_args\<lparr>pa_max := 0\<rparr>"

lemma bound_owning: "case owning_job dry_env bound_args dry_world of Inl out \<Rightarrow> False | Inr j \<Rightarrow> job_preemptions j = 0"
  by code_simp

lemma bound_owner: "bound_enforceable dry_env bound_args dry_world"
proof -
  have "run_status_of (pa_run_id bound_args) dry_world = Some Run_running"
    "fenced_owner_row (pa_run_id bound_args) (pa_token bound_args) [Claimed] (pw_runs dry_world)" by code_simp+
  then show ?thesis by (simp add: bound_enforceable_def dry_env_def)
qed

theorem preemption_is_exact_witness:
  "(\<exists>out w'. complete_preemption dry_env dry_args dry_world = (Inr out, w') \<and> requeued_once dry_args out dry_world w'
     \<and> run_status_of ''run-1'' w' = Some Run_preempted) \<and>
   (\<exists>out w'. complete_preemption dry_env bound_args dry_world = (Inr out, w') \<and> failed_at_bound dry_env bound_args out dry_world w')"
proof -
  obtain out w' j where r: "complete_preemption dry_env dry_args dry_world = (Inr out, w')" "po_owned out" "po_detail out = ''preempted''"
      "\<not> po_limit_reached out" by (rule dry_result)
  obtain j where j: "owning_job dry_env bound_args dry_world = Inr j" "job_preemptions j = 0"
    using bound_owning by (auto split: sum.splits)
  obtain res w2 where b: "complete_preemption dry_env bound_args dry_world = (res, w2)" by fastforce
  have "\<exists>out. res = Inr out \<and> po_owned out \<and> po_limit_reached out"
    using preemption_is_exact [OF dry_inv b] j bound_owner by (simp add: bound_args_def)
  then obtain out2 where "res = Inr out2" "failed_at_bound dry_env bound_args out2 dry_world w2"
    using preemption_is_exact [OF dry_inv b] by (auto simp: preemption_contract_def)
  with b preemption_is_exact [OF dry_inv r(1)] r show ?thesis by (auto simp: preemption_contract_def dry_running(2))
qed

theorem preemption_needs_evidence_witness:
  "\<exists>out w' p. complete_preemption dry_env dry_args dry_world = (Inr out, w') \<and> prepared_well ''run-1'' ''J1'' p w'"
proof -
  obtain out w' j where r: "complete_preemption dry_env dry_args dry_world = (Inr out, w')" "po_owned out" "po_detail out = ''preempted''"
      "\<not> po_limit_reached out" by (rule dry_result)
  have st: "run_status_of (pa_run_id dry_args) w' = Some Run_preempted"
    using complete_contract [OF dry_inv r(1)] r by (simp add: preemption_contract_def)
  have id: "case owning_job dry_env dry_args dry_world of Inl out \<Rightarrow> False | Inr j \<Rightarrow> job_id j = ''J1''" by code_simp
  from preemption_needs_evidence [OF _ r(1) st dry_refs] dry_running obtain j p where
    "owning_job dry_env dry_args dry_world = Inr j" "prepared_well ''run-1'' (job_id j) p w'" by auto
  with id r(1) show ?thesis by auto
qed

theorem preemption_replay_converges_witness:
  "\<exists>w' again. complete_preemption dry_env dry_args w' = (Inr again, w') \<and> po_detail again = ''already_preempted''
     \<and> po_checkpoint_sha again = Some (sample_sha CHR ''b'')"
proof -
  obtain out w' j where r: "complete_preemption dry_env dry_args dry_world = (Inr out, w')" "po_owned out" "po_detail out = ''preempted''"
    "po_job out = Some j" "job_id j = ''J1''" "po_checkpoint_sha out = Some (sample_sha CHR ''b'')"
    by (rule dry_result)
  have "pa_job_id dry_args = Some (job_id j)" "\<not> pe_fails dry_env On_run" "\<not> pe_fails dry_env On_job"
    using r(5) by (simp_all add: dry_args_def dry_env_def)
  from preemption_replay_converges [OF dry_inv r(1-4) refl this] r(6) show ?thesis by auto
qed

section \<open>A crash before the run is terminal\<close>

definition crash_env :: pre_env where
  \<comment> \<open>the call that would end the run does not return\<close>
  "crash_env = dry_env\<lparr>pe_fails := (\<lambda>s. s = On_terminalize)\<rparr>"

lemma found_if_unique:
  assumes "runs_for a j r w" "reliable env" "pa_run_id a \<noteq> []" "length (db_jobs (pw_jobs w)) \<le> job_scan_limit"
    "\<forall>q \<in> set (db_jobs (pw_jobs w)). jr_current_run_id q = Some (pa_run_id a) \<longrightarrow> q = r"
  shows "find_job_for_run env (pa_run_id a) w = Some (Some j)"
proof -
  have r: "job_db_inv (pw_jobs w)" "find_row (job_id j) (pw_jobs w) = Some r" "row_to_job r = Inr j" "jr_state r = state_value RUNNING"
    "jr_current_run_id r = Some (pa_run_id a)" using assms(1) by (simp_all add: runs_for_def)
  have "length (filter (\<lambda>r. jr_state r = state_value RUNNING) (db_jobs (pw_jobs w))) \<le> job_scan_limit"
    using assms(4) length_filter_le [of "\<lambda>r. jr_state r = state_value RUNNING" "db_jobs (pw_jobs w)"] by linarith
  with list_jobs_ok [OF r(1), of RUNNING job_scan_limit] obtain js rs where
    js: "list_jobs_raw (Some RUNNING) job_scan_limit (pw_jobs w) = Inr js" "list_all2 (\<lambda>r j. row_to_job r = Inr j) rs js"
    "\<forall>q \<in> set rs. q \<in> set (db_jobs (pw_jobs w))" "r \<in> set rs"
    using find_row_Some [OF r(2)] r(4) by blast
  have only: "k = j" if m: "k \<in> set js" and c: "job_current_run_id k = Some (pa_run_id a)" for k
  proof -
    obtain q where q: "q \<in> set rs" "row_to_job q = Inr k" using loaded_row [OF js(2) m] by blast
    then have "q = r" using assms(5) js(3) loaded_fields(3) [OF q(2)] c by simp
    with q(2) r(3) show ?thesis by simp
  qed
  have "j \<in> set js"
  proof -
    obtain n where n: "n < length rs" "rs ! n = r" using js(4) by (auto simp: in_set_conv_nth)
    with list_all2_nthD [OF js(2) n(1)] r(3) list_all2_lengthD [OF js(2)] show ?thesis by (auto simp: in_set_conv_nth)
  qed
  moreover have "job_current_run_id j = Some (pa_run_id a)" using loaded_fields(3) [OF r(3)] r(5) by simp
  ultimately obtain k where k: "find (\<lambda>j. job_current_run_id j = Some (pa_run_id a)) js = Some k"
    by (metis (mono_tags, lifting) find_None_iff not_None_eq)
  then have "k = j" using only find_SomeD [OF k] by blast
  with k js(1) assms(2,3) show ?thesis by (simp add: find_job_for_run_def)
qed

definition dry_facts :: "job \<Rightarrow> bool" where
  "dry_facts j \<longleftrightarrow> job_id j = ''J1'' \<and> job_preemptions j = 0 \<and> map jr_current_run_id (db_jobs dry_jobs) = [Some ''run-1'']"

lemma dry_owning: "case owning_job crash_env dry_args dry_world of Inl out \<Rightarrow> False | Inr j \<Rightarrow> dry_facts j"
  by code_simp

lemma dry_owner:
  "case get_execution_owner ''run-1'' (pw_runs dry_world) of
     None \<Rightarrow> False | Some ow \<Rightarrow> eo_owner_id ow = ''a'' \<and> eo_generation ow = 1 \<and> eo_state ow = Claimed"
  by code_simp

lemma dry_crash:
  "case fst (complete_preemption crash_env dry_args dry_world) of Inl e \<Rightarrow> False | Inr out \<Rightarrow> po_detail out = ''fenced_terminalize_failed''"
  by code_simp

lemma dry_evidence:
  "has_genuine_quota_signal dry_env ''run-1'' dry_world" "has_no_eligible_evidence dry_env ''run-1'' dry_world"
  "\<not> list_ex (live_attempt ''run-1'') (rb_attempts (pw_runs dry_world))" "intent_payload crash_env ''run-1'' ''J1'' dry_world = None"
  "py_strip ''run-1'' \<noteq> []" "py_strip ''h2'' \<noteq> []"
  by code_simp+

lemma dry_reliable: "reliable dry_env" "pe_text dry_env = pe_text crash_env" "pe_capsule_id crash_env = ''h2''"
  by (simp_all add: reliable_def dry_env_def crash_env_def)

lemma dry_crash_setting:
  obtains out w1 j ow where "complete_preemption crash_env dry_args dry_world = (Inr out, w1)" "po_detail out = ''fenced_terminalize_failed''"
    "owning_job crash_env dry_args dry_world = Inr j" "job_id j = ''J1''" "fenced_call crash_env dry_args j dry_world"
    "recoverable dry_env ''run-1'' j ow dry_world" "engine_refs (pw_git dry_world) (job_id j)"
proof -
  obtain j where j: "owning_job crash_env dry_args dry_world = Inr j" "job_id j = ''J1''" "job_preemptions j = 0"
      "map jr_current_run_id (db_jobs dry_jobs) = [Some ''run-1'']"
    using dry_owning by (auto simp: dry_facts_def split: sum.splits)
  obtain res w1 where r: "complete_preemption crash_env dry_args dry_world = (res, w1)" by fastforce
  with dry_crash obtain out where out: "res = Inr out" "po_detail out = ''fenced_terminalize_failed''" by (auto split: sum.splits)
  obtain ow where ow: "get_execution_owner ''run-1'' (pw_runs dry_world) = Some ow" "eo_owner_id ow = ''a''" "eo_generation ow = 1"
      "eo_state ow = Claimed" using dry_owner by (auto split: option.splits)
  have args: "pa_run_id dry_args = ''run-1''" "pa_owner_id dry_args = Some ''a''" "pa_generation dry_args = Some 1"
    "pa_decision_ref dry_args = Some ''decision-1''" by (simp_all add: dry_args_def)
  have "fenced_call crash_env dry_args j dry_world"
    using ow j by (simp add: fenced_call_def args crash_env_def truthy_def)
  moreover obtain row where row: "runs_for dry_args j row dry_world" using owning_job_runs [OF dry_inv j(1)] by blast
  have one: "length (db_jobs (pw_jobs dry_world)) = 1"
  proof -
    have "length (map jr_current_run_id (db_jobs dry_jobs)) = 1" unfolding j(4) by simp
    then show ?thesis by (simp add: dry_world_def)
  qed
  then obtain q where q: "db_jobs (pw_jobs dry_world) = [q]" by (metis One_nat_def length_0_conv length_Suc_conv)
  have "row \<in> set (db_jobs (pw_jobs dry_world))" using row find_row_Some by (auto simp: runs_for_def)
  then have "find_job_for_run dry_env ''run-1'' dry_world = Some (Some j)"
    using found_if_unique [OF row dry_reliable(1)] q one by (simp add: args job_scan_limit_def)
  then have "recoverable dry_env ''run-1'' j ow dry_world"
    using dry_evidence(1-3) dry_running(1) ow j(3) by (simp add: recoverable_def DEFAULT_MAX_PREEMPTIONS_def)
  moreover have "engine_refs (pw_git dry_world) (job_id j)"
    using engine_refs_more [OF sample_engine_refs, of "pw_git dry_world"] j(2) by (simp add: dry_world_def)
  ultimately show ?thesis using that r out j(1,2) by blast
qed

theorem crashed_preemption_recovers_witness:
  "\<exists>w1 w2 report ow. recover_preemption_transaction dry_env id ''run-1'' (Some ow) False w1 = (Inr (Some report), w2)
     \<and> rr_action report = ''preempt_recovered'' \<and> run_status_of ''run-1'' w2 = Some Run_preempted"
proof -
  obtain out w1 j ow where c: "complete_preemption crash_env dry_args dry_world = (Inr out, w1)" "po_detail out = ''fenced_terminalize_failed''"
    "owning_job crash_env dry_args dry_world = Inr j" "job_id j = ''J1''" "fenced_call crash_env dry_args j dry_world"
    "recoverable dry_env ''run-1'' j ow dry_world" "engine_refs (pw_git dry_world) (job_id j)"
    by (rule dry_crash_setting)
  from crashed_preemption_recovers [OF dry_inv c(3,1,2,5) _ c(7) _ _ dry_reliable(1,2), of ow id] c(4,6) dry_evidence(4-6) dry_reliable(3)
  show ?thesis by (auto simp: dry_running(2))
qed

lemma dry_prepared:
  obtains w1 j ow tx r where "classify_preemption_transaction dry_env ''run-1'' j w1 = Inr (Tx_prepared, tx)" "tx_artifacts tx = Some r"
    "resume_from_of ''run-1'' (ar_checkpoint_sha r) (ar_handoff_id r)
      = Inr \<lparr>rf_run_id = ''run-1'', rf_checkpoint_sha = ar_checkpoint_sha r, rf_handoff_id = ar_handoff_id r\<rparr>"
    "recoverable dry_env ''run-1'' j ow w1" "job_db_inv (pw_jobs w1)" "owning_job crash_env dry_args dry_world = Inr j"
    "pw_jobs w1 = pw_jobs dry_world"
proof -
  obtain out w1 j ow where c: "complete_preemption crash_env dry_args dry_world = (Inr out, w1)" "po_detail out = ''fenced_terminalize_failed''"
    "owning_job crash_env dry_args dry_world = Inr j" "job_id j = ''J1''" "fenced_call crash_env dry_args j dry_world"
    "recoverable dry_env ''run-1'' j ow dry_world" "engine_refs (pw_git dry_world) (job_id j)"
    by (rule dry_crash_setting)
  obtain p where prep: "prepare_preemption crash_env dry_args j (quota_reset_eta crash_env (pa_run_id dry_args) dry_world) dry_world = (Inr (Inr p), w1)"
    by (rule terminalize_failed_detail [OF c(1-3)])
  have fresh: "intent_payload crash_env (pa_run_id dry_args) (job_id j) dry_world = None"
    using dry_evidence(4) c(4) by (simp add: dry_running(2))
  note u = untouched_prepare [OF prep]
  have capsule: "pp_handoff p = ''h2''" using prepare_capsule [OF c(7) prep fresh] dry_reliable(3) by simp
  then obtain tx r where tx: "classify_preemption_transaction dry_env ''run-1'' j w1 = Inr (Tx_prepared, tx)" "tx_artifacts tx = Some r"
      "artifacts_of p r"
    using preparation_recognised(2) [OF prep fresh c(5,7) _ dry_reliable(1,2)] by (auto simp: dry_running(2))
  have rec: "recoverable dry_env ''run-1'' j ow w1"
    using recoverable_kept [OF c(6) dry_reliable(1) u] gathers_prepare [OF prep fresh] by (simp add: gathers_def)
  have inv: "job_db_inv (pw_jobs w1)" "pw_jobs w1 = pw_jobs dry_world" using dry_inv u by (simp_all add: untouched_def)
  have "sha_ok (pp_sha p)"
    using anchored_listed(2) [OF prepare_refs [OF c(7) prep] _ refl] prepare_well [OF c(7) prep] by (simp add: prepared_well_def)
  then have "resume_from_of ''run-1'' (ar_checkpoint_sha r) (ar_handoff_id r)
      = Inr \<lparr>rf_run_id = ''run-1'', rf_checkpoint_sha = ar_checkpoint_sha r, rf_handoff_id = ar_handoff_id r\<rparr>"
    using tx(3) capsule sha_strip dry_evidence(5,6) by (simp add: resume_from_of_def artifacts_of_def)
  with tx(1,2) rec inv c(3) show ?thesis using that by blast
qed

theorem prepared_preemption_completes_witness:
  "\<exists>j ow w1 w2 report. recover_preemption_transaction dry_env id ''run-1'' (Some ow) False w1 = (Inr (Some report), w2)
     \<and> rr_action report = ''preempt_recovered'' \<and> run_status_of ''run-1'' w2 = Some Run_preempted"
proof -
  obtain w1 j ow tx r where p: "classify_preemption_transaction dry_env ''run-1'' j w1 = Inr (Tx_prepared, tx)" "tx_artifacts tx = Some r"
    "resume_from_of ''run-1'' (ar_checkpoint_sha r) (ar_handoff_id r)
      = Inr \<lparr>rf_run_id = ''run-1'', rf_checkpoint_sha = ar_checkpoint_sha r, rf_handoff_id = ar_handoff_id r\<rparr>"
    "recoverable dry_env ''run-1'' j ow w1" "job_db_inv (pw_jobs w1)" "owning_job crash_env dry_args dry_world = Inr j"
    "pw_jobs w1 = pw_jobs dry_world"
    by (rule dry_prepared)
  from prepared_preemption_completes [OF p(5) dry_reliable(1) p(4,1,2,3), of id] show ?thesis by blast
qed

section \<open>A crash after the run is terminal\<close>

definition ended :: "pre_world \<Rightarrow> pre_world" where
  \<comment> \<open>only the status of the runs differs\<close>
  "ended w = w\<lparr>pw_runs := (pw_runs w)\<lparr>rb_runs := map (\<lambda>r. r\<lparr>rn_status := Run_preempted\<rparr>) (rb_runs (pw_runs w))\<rparr>\<rparr>"

lemma ended_classified: "classify_preemption_transaction env run j (ended w) = classify_preemption_transaction env run j w"
proof -
  have reads: "event_payloads env run ev (ended w) = event_payloads env run ev w" "attempt_snapshot env run (ended w) = attempt_snapshot env run w"
      "get_execution_owner run (pw_runs (ended w)) = get_execution_owner run (pw_runs w)" "pw_git (ended w) = pw_git w"
      "get_handoff i (pw_runs (ended w)) = get_handoff i (pw_runs w)" for ev i
    by (simp_all add: ended_def event_payloads_def get_events_by_type_def attempt_snapshot_def attempts_or_none_def read_attempts_def
        get_attempts_for_run_def get_execution_owner_def get_handoff_def)
  show ?thesis
    unfolding classify_preemption_transaction_def authenticate_prepared_transaction_def decision_payload_def intent_payload_def
      payload_for_def verify_prepared_artifacts_def commit_known_def authenticate_decision_def decision_owner_binding_def reads ..
qed

lemma ended_status: "run_status_of run w \<noteq> None \<Longrightarrow> run_status_of run (ended w) = Some Run_preempted"
  by (auto simp: run_status_of_def get_run_def ended_def find_map_same)

theorem reconcile_completes_preemption_witness:
  "\<exists>w j change d. reconcile_job (\<lambda>i. run_status_of i w) (preemption_tail_of dry_env id w) 9 j (pw_jobs w) = (Inr (Some change), d)
     \<and> rc_to_state change = QUEUED"
proof -
  obtain w1 j ow tx r where p: "classify_preemption_transaction dry_env ''run-1'' j w1 = Inr (Tx_prepared, tx)" "tx_artifacts tx = Some r"
    "resume_from_of ''run-1'' (ar_checkpoint_sha r) (ar_handoff_id r)
      = Inr \<lparr>rf_run_id = ''run-1'', rf_checkpoint_sha = ar_checkpoint_sha r, rf_handoff_id = ar_handoff_id r\<rparr>"
    "recoverable dry_env ''run-1'' j ow w1" "job_db_inv (pw_jobs w1)" "owning_job crash_env dry_args dry_world = Inr j"
    "pw_jobs w1 = pw_jobs dry_world"
    by (rule dry_prepared)
  obtain row where row: "runs_for dry_args j row dry_world" using owning_job_runs [OF dry_inv p(6)] by blast
  have jobs: "pw_jobs (ended w1) = pw_jobs dry_world" using p(7) by (simp add: ended_def)
  have st: "run_status_of ''run-1'' (ended w1) = Some Run_preempted" using ended_status p(4) by (simp add: recoverable_def)
  have n: "job_preemptions j < DEFAULT_MAX_PREEMPTIONS" using p(4) by (simp add: recoverable_def)
  have f: "find_row (job_id j) (pw_jobs (ended w1)) = Some row" "row_to_job row = Inr j" "jr_state row = state_value RUNNING"
    "jr_current_run_id row = Some ''run-1''" "job_db_inv (pw_jobs (ended w1))"
    using row dry_inv by (simp_all add: jobs runs_for_def dry_running(2))
  from reconcile_completes_preemption [OF f(5) dry_reliable(1) st f(1-4) n p(1) [folded ended_classified [of dry_env "''run-1''" j w1]] p(2,3),
      of id 9] show ?thesis by blast
qed

section \<open>The next run\<close>

definition next_of :: "pre_world \<Rightarrow> pre_world" where
  "next_of w = w\<lparr>pw_runs := (pw_runs w)\<lparr>rb_runs := rb_runs (pw_runs w) @ [\<lparr>rn_id = ''run-2'', rn_status = Run_running,
     rn_project_id = None, rn_team_parent = None, rn_completed_at = None, rn_final_attempt_id = None, rn_result_summary = None\<rparr>]\<rparr>\<rparr>"

definition next_env :: pre_env where
  "next_env = dry_env\<lparr>pe_checkpoint_id := ''c2''\<rparr>"

definition next_facts :: "preemption_outcome \<Rightarrow> pre_world \<Rightarrow> bool" where
  "next_facts out w =
     (case po_job out of None \<Rightarrow> False
      | Some k \<Rightarrow> resumable ''run-2'' k ''c2'' w \<and> has_source ''run-1'' (sample_sha CHR ''b'') w \<and>
          gr_refs (pw_git w) = dict_set (gr_refs sample_repo) (checkpoint_ref_name ''J1'' 1) (Direct (sample_sha CHR ''b'')) \<and>
          gr_commits (pw_git w) = gr_commits sample_repo)"

lemma next_resumable:
  "case complete_preemption dry_env dry_args dry_world of (Inl e, w) \<Rightarrow> False | (Inr out, w) \<Rightarrow> next_facts out (next_of w)"
  by code_simp

theorem preempted_work_resumes_witness:
  "\<exists>k w w3 rp. prepare_resume next_env k ''run-2'' (next_of w) = (rp, w3) \<and> rp_resumed rp \<and> rp_checkpoint_sha rp = Some (sample_sha CHR ''b'')"
proof -
  obtain out w' k where r: "complete_preemption dry_env dry_args dry_world = (Inr out, w')" "po_owned out" "po_detail out = ''preempted''"
    "po_job out = Some k" "job_id k = ''J1''" "po_checkpoint_sha out = Some (sample_sha CHR ''b'')" by (rule dry_result)
  have facts: "next_facts out (next_of w')" using next_resumable r(1) by simp
  have id: "pa_run_id dry_args = ''run-1''" "pe_checkpoint_id next_env = ''c2''" by (simp_all add: dry_args_def next_env_def)
  have rel: "reliable next_env" by (simp add: reliable_def next_env_def dry_env_def)
  have keeps: "keeps_evidence w' (next_of w')" using r(1) by (simp add: keeps_evidence_def next_of_def)
  have refs0: "engine_refs (pw_git dry_world) (job_id k)"
    using engine_refs_more [OF sample_engine_refs, of "pw_git dry_world"] r(5) by (simp add: dry_world_def)
  have sha: "sha_ok (sample_sha CHR ''b'')" "sample_sha CHR ''b'' \<in> set (gr_commits sample_repo)" by code_simp+
  have refs: "engine_refs (pw_git (next_of w')) (job_id k)"
    using engine_refs_more [OF engine_refs_anchor [OF sample_engine_refs _ _ sha, of 1], of "pw_git (next_of w')"] facts r(4,5)
    by (simp add: next_facts_def MAX_CHECKPOINT_INDEX_def)
  have res: "resumable ''run-2'' k (pe_checkpoint_id next_env) (next_of w')"
    using facts r(4) by (simp add: next_facts_def id)
  have src: "has_source (pa_run_id dry_args) (sample_sha CHR ''b'') (next_of w')" using facts r(4) by (simp add: next_facts_def id)
  from preempted_work_resumes [OF dry_inv r(1-4) refs0 keeps refs rel res] r(6) src show ?thesis by fastforce
qed

section \<open>A receipt without a reference\<close>

definition unbound_decision :: preemption_decision where
  \<comment> \<open>what a call without token and reference records\<close>
  "unbound_decision = \<lparr>pd_run_id = ''run-1'', pd_job_id = ''J1'', pd_before = 0, pd_base_sha = sample_sha CHR ''a'', pd_repo = ''/r'',
     pd_attempt_ids = [''at-1''], pd_attempt_states = [''FAILED''], pd_owner_id = None, pd_owner_generation = None,
     pd_decision_ref = None, pd_version = DECISION_VERSION\<rparr>"

definition unbound_world :: pre_world where
  "unbound_world = try_log dry_env ''run-1'' PREPARATION_EVENT (decision_to_payload unbound_decision) dry_world"

lemma unbound_owning: "case owning_job dry_env dry_args unbound_world of Inl out \<Rightarrow> False | Inr j \<Rightarrow> job_id j = ''J1'' \<and> job_preemptions j = 0"
  by code_simp

lemma unbound_payload: "decision_payload dry_env ''run-1'' ''J1'' unbound_world = Some (decision_to_payload unbound_decision)"
proof -
  have "log_event dry_env ''run-1'' PREPARATION_EVENT (decision_to_payload unbound_decision) dry_world \<noteq> None" by code_simp
  then have "log_event dry_env ''run-1'' PREPARATION_EVENT (decision_to_payload unbound_decision) dry_world = Some unbound_world"
    by (auto simp: unbound_world_def try_log_def)
  moreover have "payload_for dry_env ''run-1'' PREPARATION_EVENT ''J1'' dry_world = None" by code_simp
  ultimately show ?thesis
    unfolding decision_payload_def using decision_names_job [of unbound_decision] dry_reliable(1)
    by (intro payload_appended) (simp_all add: unbound_decision_def)
qed

theorem unbound_decision_blocks_witness:
  "\<exists>out. complete_preemption dry_env dry_args unbound_world = (Inr out, unbound_world) \<and> \<not> po_owned out"
proof -
  obtain j where j: "owning_job dry_env dry_args unbound_world = Inr j" "job_id j = ''J1''" "job_preemptions j = 0"
    using unbound_owning by (auto split: sum.splits)
  have "decision_wellformed unbound_decision" "pd_decision_ref unbound_decision = None"
    by (simp_all add: decision_wellformed_def unbound_decision_def DECISION_VERSION_def)
  from unbound_decision_blocks [OF j(1) _ _ this] j(2,3) unbound_payload show ?thesis by (simp add: dry_args_def)
qed

section \<open>Which reset is reported\<close>

definition dry_until :: "string \<Rightarrow> run_event" where
  "dry_until u = \<lparr>rv_run_id = ''run-1'', rv_attempt_id = None, rv_type = ''quota_exhaustion_recorded'',
     rv_payload = Some [(''until'', JStr u), (''until_confidence'', JStr ''EXACT'')], rv_created_at = ''t''\<rparr>"

text \<open>Documented as the latest reset, it is the one recorded last.\<close>
lemma reset_is_last_recorded:
  "quota_reset_eta dry_env ''run-1''
     (dry_world\<lparr>pw_runs := owned_run_db\<lparr>rb_events := [dry_until ''2026-05-02T00:00:00+00:00'', dry_until ''2026-05-01T00:00:00+00:00'']\<rparr>\<rparr>)
   = Some ''2026-05-01T00:00:00+00:00''"
  by code_simp

end
