(* ===== verification/Loop_Laws.thy ===== *)
theory Loop_Laws
  imports SO_Prelude
begin

text \<open>
  Facts about loops that the planning theories share: invariants of a fold, counting with two
  maxima (\<open>tally\<close>), options collected from a list, and lists cut into groups.
\<close>

section \<open>Folds\<close>

lemma foldl_invariant:
  assumes "I acc" "\<And>acc x. x \<in> set xs \<Longrightarrow> I acc \<Longrightarrow> I (f acc x)"
  shows "I (foldl f acc xs)"
  using assms by (induction xs arbitrary: acc) auto

lemma foldl_prefix_invariant:
  assumes "I [] acc" "\<And>ys acc x. x \<in> set xs \<Longrightarrow> I ys acc \<Longrightarrow> I (ys @ [x]) (f acc x)"
  shows "I xs (foldl f acc xs)"
  using assms(2)
proof (induction xs rule: rev_induct)
  case (snoc x xs)
  then show ?case by simp
qed (simp add: assms(1))

section \<open>Counting per project\<close>

text \<open>The two counters that the projection and the waves keep while they collect tasks: the list of
  projects and the number of tasks per project, both inside a maximum.\<close>

definition tally :: "('x \<Rightarrow> string) \<Rightarrow> int \<Rightarrow> int \<Rightarrow> string list \<Rightarrow> (string \<Rightarrow> int) \<Rightarrow> 'x list \<Rightarrow> bool" where
  "tally project most each projects counts xs \<longleftrightarrow>
     distinct projects \<and> set projects = project ` set xs \<and> int (length projects) \<le> most \<and>
     (\<forall>p. counts p = int (length (filter (\<lambda>x. project x = p) xs)) \<and> counts p \<le> each)"

lemma tally_Nil: "0 \<le> most \<Longrightarrow> 0 \<le> each \<Longrightarrow> tally project most each [] (\<lambda>_. 0) []"
  by (simp add: tally_def)

lemma tally_add:
  assumes "tally project most each projects counts xs" "counts (project x) < each"
    "project x \<in> set projects \<or> int (length projects) < most"
  shows "tally project most each (if project x \<in> set projects then projects else projects @ [project x])
     (counts(project x := counts (project x) + 1)) (xs @ [x])"
proof -
  let ?counts = "counts(project x := counts (project x) + 1)"
  have "?counts p = int (length (filter (\<lambda>y. project y = p) (xs @ [x]))) \<and> ?counts p \<le> each" for p
  proof -
    have "counts p = int (length (filter (\<lambda>y. project y = p) xs))" "counts p \<le> each"
      using assms(1) unfolding tally_def by blast+
    then show ?thesis using assms(2) by (cases "project x = p") auto
  qed
  moreover have "distinct projects" "set projects = project ` set xs" "int (length projects) \<le> most"
    using assms(1) by (auto simp: tally_def)
  then have "let ps = if project x \<in> set projects then projects else projects @ [project x]
      in distinct ps \<and> set ps = project ` set (xs @ [x]) \<and> int (length ps) \<le> most"
    using assms(3) by (auto simp: insert_absorb)
  ultimately show ?thesis unfolding tally_def Let_def by blast
qed

lemma tally_bounds:
  assumes "tally project most each projects counts xs"
  shows "int (card (project ` set xs)) \<le> most" "int (length (filter (\<lambda>x. project x = p) xs)) \<le> each"
    "card (project ` set xs) = length projects" "counts p = int (length (filter (\<lambda>x. project x = p) xs))"
    "p \<in> set projects \<longleftrightarrow> p \<in> project ` set xs"
  using assms distinct_card [of projects] unfolding tally_def by metis+

section \<open>Lists of options\<close>

lemma those_map_Some [simp]: "those (map (\<lambda>x. Some (f x)) xs) = Some (map f xs)"
  by (induction xs) simp_all

lemma those_map_total:
  assumes "\<And>x. x \<in> set xs \<Longrightarrow> f x = Some (g x)"
  shows "those (map f xs) = Some (map g xs)"
  using assms by (induction xs) auto

lemma those_map_cong_Some:
  assumes "those (map f xs) = Some ys" "\<And>x y. x \<in> set xs \<Longrightarrow> f x = Some y \<Longrightarrow> g x = Some y"
  shows "those (map g xs) = Some ys"
  using assms by (induction xs arbitrary: ys) (auto split: option.splits)

section \<open>Groups\<close>

lemma mset_partition:
  assumes "distinct ds" "\<And>x. x \<in> set xs \<Longrightarrow> g x \<in> set ds"
  shows "mset (concat (map (\<lambda>d. filter (\<lambda>x. g x = d) xs) ds)) = mset xs"
  using assms
proof (induction ds arbitrary: xs)
  case (Cons d ds)
  let ?rest = "filter (\<lambda>x. g x \<noteq> d) xs"
  have "filter (\<lambda>x. g x = e) xs = filter (\<lambda>x. g x = e) ?rest" if "e \<in> set ds" for e
    using Cons.prems(1) that by (auto simp: filter_filter intro: filter_cong)
  then have same: "map (\<lambda>e. filter (\<lambda>x. g x = e) xs) ds = map (\<lambda>e. filter (\<lambda>x. g x = e) ?rest) ds"
    by (intro map_cong refl)
  have "mset (concat (map (\<lambda>e. filter (\<lambda>x. g x = e) ?rest) ds)) = mset ?rest"
    by (rule Cons.IH) (use Cons.prems in auto)
  then have "mset (concat (map (\<lambda>e. filter (\<lambda>x. g x = e) xs) (d # ds))) = mset (filter (\<lambda>x. g x = d) xs) + mset ?rest"
    unfolding list.map concat.simps mset_append same by (rule arg_cong)
  also have "\<dots> = mset xs" using multiset_partition [of "mset xs" "\<lambda>x. g x = d"] by (simp add: mset_filter)
  finally show ?case .
next
  case Nil
  then show ?case by (cases xs) auto
qed

lemma concat_split:
  assumes "concat xss = A @ w # B"
  obtains xs1 ys zs xs2 where "xss = xs1 @ (ys @ w # zs) # xs2" "A = concat xs1 @ ys"
  using assms
proof (induction xss arbitrary: A thesis)
  case (Cons xs xss)
  have split: "xs @ concat xss = A @ w # B" using Cons.prems(2) by simp
  show ?case
  proof (cases "length xs \<le> length A")
    case True
    then obtain A' where A: "A = xs @ A'" "concat xss = A' @ w # B"
      using split by (auto simp: append_eq_append_conv_if) (metis append_take_drop_id)
    show ?thesis
    proof (rule Cons.IH [OF _ A(2)])
      fix xs1 ys zs xs2 assume "xss = xs1 @ (ys @ w # zs) # xs2" "A' = concat xs1 @ ys"
      then show ?thesis using Cons.prems(1) [of "xs # xs1" ys zs xs2] A(1) by simp
    qed
  next
    case False
    then obtain zs where "xs = A @ w # zs"
      using split by (auto simp: append_eq_append_conv2 append_eq_Cons_conv)
    then show ?thesis using Cons.prems(1) [of "[]" A zs xss] by simp
  qed
qed simp

end
