(* ===== verification/Task_Refs.thy ===== *)
theory Task_Refs
  imports SO_Prelude
begin

text \<open>
  Task identities and declared write scopes, shared by the wave planner
  (\<open>wave_plan_optimizer.py\<close>), the ready frontier (\<open>ready_frontier.py\<close>) and the parallel team
  (\<open>parallel_work.py\<close>).

  \<^item> \<open>TaskRef\<close> with the order of its key \<open>(project_id, task_id)\<close>.
  \<^item> \<open>canonical_scope\<close>: the repo-relative form of a scope; \<open>PurePosixPath\<close> is modelled on relative
    and absolute texts.
  \<^item> \<open>path_owned\<close> and \<open>scopes_overlap\<close>, and what they decide about the files two scopes name
    (\<open>scope_files\<close> is the reference meaning of a scope).
\<close>

section \<open>Task identities\<close>

datatype task_ref = TaskRef (ref_project: string) (ref_task: string)

instantiation task_ref :: linorder
begin

definition less_eq_task_ref :: "task_ref \<Rightarrow> task_ref \<Rightarrow> bool" where
  "less_eq_task_ref x y = ((ref_project x, ref_task x) \<le> (ref_project y, ref_task y))"

definition less_task_ref :: "task_ref \<Rightarrow> task_ref \<Rightarrow> bool" where
  "less_task_ref x y = ((ref_project x, ref_task x) < (ref_project y, ref_task y))"

instance
proof
  fix x y z :: task_ref
  show "(x < y) = (x \<le> y \<and> \<not> y \<le> x)"
    unfolding less_eq_task_ref_def less_task_ref_def by (rule less_le_not_le)
  show "x \<le> x" by (simp add: less_eq_task_ref_def)
  show "x \<le> y \<Longrightarrow> y \<le> z \<Longrightarrow> x \<le> z"
    unfolding less_eq_task_ref_def by (rule order_trans)
  show "x \<le> y \<Longrightarrow> y \<le> x \<Longrightarrow> x = y"
    unfolding less_eq_task_ref_def by (drule (1) antisym) (simp add: task_ref.expand)
  show "x \<le> y \<or> y \<le> x" unfolding less_eq_task_ref_def by (rule linear)
qed

end

definition ref_clean :: "task_ref \<Rightarrow> task_ref" where
  \<comment> \<open>both parts through \<open>_clean_text\<close>\<close>
  "ref_clean r = TaskRef (py_strip (ref_project r)) (py_strip (ref_task r))"

definition ref_is_valid :: "task_ref \<Rightarrow> bool" where
  "ref_is_valid r = (py_strip (ref_project r) \<noteq> [] \<and> py_strip (ref_task r) \<noteq> [])"

lemma ref_clean_idem [simp]: "ref_clean (ref_clean r) = ref_clean r"
  by (simp add: ref_clean_def)

lemma ref_clean_valid [simp]: "ref_is_valid (ref_clean r) = ref_is_valid r"
  by (simp add: ref_clean_def ref_is_valid_def)

section \<open>Write scopes\<close>

abbreviation subtree_mark :: string where "subtree_mark \<equiv> ''/**''"

definition base_scope :: "string \<Rightarrow> string" where
  "base_scope s = (if py_endswith s subtree_mark then take (length s - 3) s else s)"

definition path_owned :: "string \<Rightarrow> string \<Rightarrow> bool" where
  "path_owned path scope =
     (path = scope \<or> py_endswith scope subtree_mark \<and> py_startswith path (take (length scope - 2) scope))"

definition scopes_overlap :: "string list \<Rightarrow> string list \<Rightarrow> bool" where
  "scopes_overlap left right =
     list_ex (\<lambda>a. list_ex (\<lambda>b. path_owned (base_scope a) b \<or> path_owned (base_scope b) a) right) left"

definition posix_parts :: "string \<Rightarrow> string list" where
  \<comment> \<open>the parts of a path without its root: \<open>PurePosixPath\<close> drops empty parts and single dots\<close>
  "posix_parts s = filter (\<lambda>p. p \<noteq> [] \<and> p \<noteq> ''.'') (py_split_on (\<lambda>c. c = CHR ''/'') s)"

definition posix_is_absolute :: "string \<Rightarrow> bool" where
  "posix_is_absolute s = py_startswith s ''/''"

fun join_slash :: "string list \<Rightarrow> string" where
  "join_slash [] = []"
| "join_slash [p] = p"
| "join_slash (p # q # ps) = p @ ''/'' @ join_slash (q # ps)"

definition as_posix :: "string \<Rightarrow> string" where
  \<comment> \<open>\<open>as_posix\<close> of a relative path\<close>
  "as_posix s = (if posix_parts s = [] then ''.'' else join_slash (posix_parts s))"

definition is_glob_char :: "char \<Rightarrow> bool" where
  "is_glob_char c = (c \<in> set ''*?[]'')"

definition canonical_scope :: "string \<Rightarrow> string option" where
  "canonical_scope raw =
     (let text = py_strip raw in
      if text = [] \<or> CHR 0x5C \<in> set text \<or> CHR 0x00 \<in> set text then None
      else let subtree = py_endswith text subtree_mark;
               literal = (if subtree then take (length text - 3) text else text)
           in if literal = [] \<or> list_ex is_glob_char literal then None
              else if posix_is_absolute literal \<or> ''..'' \<in> set (posix_parts literal) then None
              else let canonical = as_posix literal
                   in if canonical \<in> {[], ''.''} then None
                      else Some (if subtree then canonical @ subtree_mark else canonical))"

section \<open>What two scopes name\<close>

definition scope_files :: "string \<Rightarrow> string set" where
  \<comment> \<open>reference meaning: a plain scope names one path, \<open>p/**\<close> names \<open>p\<close> and all below it\<close>
  "scope_files s = (if py_endswith s subtree_mark
     then {q. q = base_scope s \<or> prefix (base_scope s @ ''/'') q} else {s})"

lemma subtree_ends [simp]: "py_endswith (p @ subtree_mark) subtree_mark"
  by (simp add: py_endswith_def)

lemma subtree_base [simp]: "base_scope (p @ subtree_mark) = p"
  unfolding base_scope_def using subtree_ends by simp

lemma subtree_files [simp]: "scope_files (p @ subtree_mark) = {q. q = p \<or> prefix (p @ ''/'') q}"
  unfolding scope_files_def subtree_base using subtree_ends by simp

lemma subtree_cases:
  obtains (plain) "\<not> py_endswith s subtree_mark" "base_scope s = s" "scope_files s = {s}"
  | (subtree) p where "s = p @ subtree_mark"
  by (cases "py_endswith s subtree_mark")
     (auto simp: base_scope_def scope_files_def py_endswith_iff_suffix suffix_def)

lemma path_owned_subtree: "path_owned q (p @ subtree_mark) \<longleftrightarrow> q = p @ subtree_mark \<or> prefix (p @ ''/'') q"
  unfolding path_owned_def using subtree_ends by (simp add: py_startswith_iff_prefix)

lemma path_owned_plain: "\<not> py_endswith s subtree_mark \<Longrightarrow> path_owned q s \<longleftrightarrow> q = s"
  by (simp add: path_owned_def)

lemma proper_subpath: "prefix (p @ ''/'') q \<Longrightarrow> p \<noteq> q"
  by (auto simp: prefix_def)

lemma nested_subtrees:
  assumes "prefix (p @ ''/'') x" "prefix (q @ ''/'') x" "p \<noteq> q"
  shows "prefix (p @ ''/'') q \<or> prefix (q @ ''/'') p"
proof -
  consider "prefix (p @ ''/'') (q @ ''/'')" | "prefix (q @ ''/'') (p @ ''/'')"
    using prefix_same_cases [OF assms(1,2)] by blast
  then show ?thesis using assms(3) by cases (auto simp: prefix_snoc)
qed

lemma subtree_pair:
  "path_owned p (q @ subtree_mark) \<or> path_owned q (p @ subtree_mark) \<longleftrightarrow>
   prefix (q @ ''/'') p \<or> prefix (p @ ''/'') q"
  unfolding path_owned_subtree by (auto simp: prefix_def)

lemma subtree_meet:
  "{x. x = p \<or> prefix (p @ ''/'') x} \<inter> {x. x = q \<or> prefix (q @ ''/'') x} \<noteq> {} \<longleftrightarrow>
   p = q \<or> prefix (q @ ''/'') p \<or> prefix (p @ ''/'') q"
  using nested_subtrees [of p _ q] by blast

lemma scope_pair_exact:
  "path_owned (base_scope a) b \<or> path_owned (base_scope b) a \<longleftrightarrow>
   scope_files a \<inter> scope_files b \<noteq> {} \<and> \<not> (a = b \<and> py_endswith a subtree_mark)"
proof (cases a rule: subtree_cases)
  case a: plain
  show ?thesis
  proof (cases b rule: subtree_cases)
    case b: plain
    then show ?thesis using a by (auto simp: path_owned_plain)
  next
    case (subtree q)
    have "path_owned a (q @ subtree_mark) \<or> path_owned q a \<longleftrightarrow> a = q \<or> prefix (q @ ''/'') a"
      using a(1) subtree_ends [of q] unfolding path_owned_subtree path_owned_plain [OF a(1)] by auto
    then show ?thesis unfolding subtree subtree_base subtree_files a(2,3) using a(1) by auto
  qed
next
  case (subtree p)
  note p = this
  show ?thesis
  proof (cases b rule: subtree_cases)
    case b: plain
    have "path_owned p b \<or> path_owned b (p @ subtree_mark) \<longleftrightarrow> b = p \<or> prefix (p @ ''/'') b"
      using b(1) subtree_ends [of p] unfolding path_owned_subtree path_owned_plain [OF b(1)] by auto
    then show ?thesis unfolding p subtree_base subtree_files b(2,3) using b(1) subtree_ends by blast
  next
    case (subtree q)
    show ?thesis
      unfolding p subtree subtree_base subtree_files subtree_pair subtree_meet
      using proper_subpath by auto
  qed
qed

text \<open>Two scope lists overlap exactly when a scope of the one and a scope of the other name a
  common path, except that two equal subtree scopes never overlap: the test compares the base of
  one scope with the other scope, and \<open>src\<close> lies neither at nor below \<open>src/\<close>.\<close>

theorem scopes_overlap_exact:
  "scopes_overlap left right \<longleftrightarrow>
   (\<exists>a \<in> set left. \<exists>b \<in> set right.
      scope_files a \<inter> scope_files b \<noteq> {} \<and> \<not> (a = b \<and> py_endswith a subtree_mark))"
  by (simp only: scopes_overlap_def list_ex_iff scope_pair_exact)

definition scopes_clear :: "string list \<Rightarrow> string list \<Rightarrow> bool" where
  \<comment> \<open>no path is named by both, except through one subtree scope that both declare\<close>
  "scopes_clear left right \<longleftrightarrow> (\<forall>a \<in> set left. \<forall>b \<in> set right.
     scope_files a \<inter> scope_files b = {} \<or> a = b \<and> py_endswith a subtree_mark)"

lemma no_overlap_iff: "\<not> scopes_overlap left right \<longleftrightarrow> scopes_clear left right"
  unfolding scopes_overlap_def list_ex_iff scope_pair_exact scopes_clear_def by blast

lemma scopes_overlap_sym: "scopes_overlap left right = scopes_overlap right left"
  unfolding scopes_overlap_def list_ex_iff by blast

lemma scopes_overlap_Nil [simp]: "\<not> scopes_overlap [] ss" "\<not> scopes_overlap ss []"
  by (simp_all add: scopes_overlap_def list_ex_iff)

lemma equal_subtrees_do_not_overlap: "\<not> scopes_overlap [''src/**''] [''src/**'']"
  by code_simp

end
