(* ===== verification/Dep_Graph.thy ===== *)
theory Dep_Graph
  imports SO_Prelude "HOL-Library.While_Combinator"
begin

text \<open>
  Dependency graphs: Kahn's algorithm and the depth-first cycle search, as the wave planner and
  the ready frontier run them, over any linearly ordered type of nodes.

  \<^item> \<open>release\<close>, \<open>kahn_step\<close>, \<open>kahn\<close>: the loop of \<open>_topological_order\<close>; the heap of keys is a sorted
    list, from which the least key is taken first.
  \<^item> \<open>dep_edges\<close> is the reference relation; \<open>kahn_ordered\<close> and \<open>kahn_complete\<close> say that the loop
    ends, that its output lists dependencies first, and that it is complete exactly on acyclic
    graphs.
  \<^item> The locale \<open>ordering\<close> is the interface of a topological order: induction along it, and the
    equation of a table that is filled in that order.
\<close>

section \<open>The loops\<close>

fun release :: "'a::linorder list \<Rightarrow> ('a \<Rightarrow> int) \<Rightarrow> 'a list \<Rightarrow> ('a \<Rightarrow> int) \<times> 'a list" where
  \<comment> \<open>\<open>for dependent in dependents[ref]\<close>\<close>
  "release [] indegree heap = (indegree, heap)"
| "release (d # ds) indegree heap =
     (let indegree' = indegree(d := indegree d - 1)
      in release ds indegree' (if indegree' d = 0 then insort d heap else heap))"

type_synonym 'a kahn_state = "('a \<Rightarrow> int) \<times> 'a list \<times> 'a list"

definition kahn_step :: "('a::linorder \<Rightarrow> 'a list) \<Rightarrow> 'a kahn_state \<Rightarrow> 'a kahn_state" where
  "kahn_step dependents st =
     (let (indegree, heap, ordered) = st;
          ref = hd heap;
          (indegree', heap') = release (dependents ref) indegree (tl heap)
      in (indegree', heap', ordered @ [ref]))"

definition dependents_of :: "'a list \<Rightarrow> ('a \<Rightarrow> 'a list) \<Rightarrow> 'a \<Rightarrow> 'a list" where
  "dependents_of nodes deps d = concat (map (\<lambda>r. map (\<lambda>_. r) (filter (\<lambda>x. x = d) (deps r))) nodes)"

definition kahn_init :: "'a::linorder list \<Rightarrow> ('a \<Rightarrow> 'a list) \<Rightarrow> 'a kahn_state" where
  "kahn_init nodes deps =
     (let indegree = (\<lambda>r. int (length (deps r))) in (indegree, sort (filter (\<lambda>r. indegree r = 0) nodes), []))"

definition kahn :: "'a::linorder list \<Rightarrow> ('a \<Rightarrow> 'a list) \<Rightarrow> 'a kahn_state option" where
  "kahn nodes deps =
     while_option (\<lambda>(_, heap, _). heap \<noteq> []) (kahn_step (dependents_of nodes deps)) (kahn_init nodes deps)"

section \<open>The reference relation\<close>

definition dep_edges :: "'a list \<Rightarrow> ('a \<Rightarrow> 'a list) \<Rightarrow> ('a \<times> 'a) set" where
  \<comment> \<open>\<open>(d, r)\<close>: the node \<open>r\<close> depends on \<open>d\<close>\<close>
  "dep_edges nodes deps = {(d, r). r \<in> set nodes \<and> d \<in> set (deps r)}"

definition graph_closed :: "'a list \<Rightarrow> ('a \<Rightarrow> 'a list) \<Rightarrow> bool" where
  "graph_closed nodes deps \<longleftrightarrow> distinct nodes \<and> (\<forall>r \<in> set nodes. set (deps r) \<subseteq> set nodes)"

definition deps_first :: "('a \<Rightarrow> 'a list) \<Rightarrow> 'a list \<Rightarrow> bool" where
  "deps_first deps xs \<longleftrightarrow> (\<forall>i < length xs. set (deps (xs ! i)) \<subseteq> set (take i xs))"

lemma deps_first_Nil [simp]: "deps_first deps []"
  by (simp add: deps_first_def)

lemma deps_first_snoc [simp]:
  "deps_first deps (xs @ [x]) \<longleftrightarrow> deps_first deps xs \<and> set (deps x) \<subseteq> set xs"
  by (auto simp: deps_first_def nth_append less_Suc_eq)

lemma deps_first_split: "deps_first deps (ys @ r # zs) \<Longrightarrow> set (deps r) \<subseteq> set ys"
  unfolding deps_first_def by (drule spec [of _ "length ys"]) simp

lemma deps_first_closed:
  assumes "deps_first deps xs" "r \<in> set xs" "d \<in> set (deps r)"
  shows "d \<in> set xs"
proof -
  from assms(2) obtain i where "i < length xs" "r = xs ! i" by (auto simp: in_set_conv_nth)
  then have "d \<in> set (take i xs)" using assms(1,3) unfolding deps_first_def by blast
  then show ?thesis by (rule in_set_takeD)
qed

lemma deps_first_append: "deps_first deps (ys @ zs) \<Longrightarrow> deps_first deps ys"
  by (induction zs rule: rev_induct) (simp_all flip: append_assoc)

section \<open>The release loop\<close>

lemma count_dependents:
  "count_list (dependents_of nodes deps d) r = count_list nodes r * count_list (deps r) d"
proof (induction nodes)
  case (Cons x nodes)
  have "count_list (map (\<lambda>_. x) ys) r = (if x = r then length ys else 0)" for ys :: "'a list"
    by (induction ys) auto
  moreover have "length (filter (\<lambda>y. y = d) ys) = count_list ys d" for ys
    by (induction ys) auto
  ultimately show ?case using Cons by (auto simp: dependents_of_def algebra_simps)
qed (simp add: dependents_of_def)

lemma set_dependents: "r \<in> set (dependents_of nodes deps d) \<longleftrightarrow> r \<in> set nodes \<and> d \<in> set (deps r)"
  by (auto simp: dependents_of_def)

lemma count_first:
  assumes "\<forall>r. int (count_list (d # ds) r) \<le> f r"
  shows "\<forall>r. int (count_list ds r) \<le> (f(d := f d - 1)) r"
proof
  fix r
  show "int (count_list ds r) \<le> (f(d := f d - 1)) r"
    using assms [THEN spec, of r] by (cases "r = d") auto
qed

lemma release_counts:
  "fst (release ds indegree heap) = (\<lambda>r. indegree r - int (count_list ds r))"
  by (induction ds arbitrary: indegree heap) (auto simp: Let_def fun_eq_iff)

lemma release_set:
  assumes "\<forall>r. int (count_list ds r) \<le> indegree r"
  shows "set (snd (release ds indegree heap)) =
    set heap \<union> {r \<in> set ds. indegree r = int (count_list ds r)}"
  using assms
proof (induction ds arbitrary: indegree heap)
  case (Cons d ds)
  let ?ind = "indegree(d := indegree d - 1)"
  let ?heap = "if ?ind d = 0 then insort d heap else heap"
  note le = count_first [OF Cons.prems]
  have "set (snd (release (d # ds) indegree heap)) =
      set ?heap \<union> {r \<in> set ds. ?ind r = int (count_list ds r)}"
    unfolding release.simps Let_def by (rule Cons.IH [OF le])
  also have "\<dots> = set heap \<union> {r \<in> set (d # ds). indegree r = int (count_list (d # ds) r)}"
  proof -
    have "d \<in> set ds \<longleftrightarrow> 0 < count_list ds d" using count_list_0_iff [of ds d] by (cases "count_list ds d") auto
    moreover have "int (count_list ds d) \<le> ?ind d" using le by blast
    ultimately show ?thesis by (auto simp: set_insort_key split: if_splits)
  qed
  finally show ?case .
qed simp

lemma release_distinct:
  assumes "\<forall>r. int (count_list ds r) \<le> indegree r" "distinct heap" "set heap \<inter> set ds = {}"
  shows "distinct (snd (release ds indegree heap))"
  using assms
proof (induction ds arbitrary: indegree heap)
  case (Cons d ds)
  let ?ind = "indegree(d := indegree d - 1)"
  let ?heap = "if ?ind d = 0 then insort d heap else heap"
  note le = count_first [OF Cons.prems(1)]
  have "?ind d = 0 \<Longrightarrow> d \<notin> set ds" using le [THEN spec, of d] by (auto simp: count_list_0_iff)
  then have "distinct ?heap" "set ?heap \<inter> set ds = {}"
    using Cons.prems by (auto simp: distinct_insort set_insort_key)
  then show ?case unfolding release.simps Let_def by (rule Cons.IH [OF le])
qed simp

section \<open>Kahn's loop\<close>

definition kahn_inv :: "'a::linorder list \<Rightarrow> ('a \<Rightarrow> 'a list) \<Rightarrow> 'a kahn_state \<Rightarrow> bool" where
  "kahn_inv nodes deps st \<longleftrightarrow> (case st of (indegree, heap, ordered) \<Rightarrow>
     distinct (ordered @ heap) \<and> set (ordered @ heap) \<subseteq> set nodes \<and>
     (\<forall>r \<in> set nodes. indegree r = int (length (filter (\<lambda>d. d \<notin> set ordered) (deps r)))) \<and>
     (\<forall>r. 0 \<le> indegree r) \<and>
     (\<forall>r \<in> set nodes. r \<in> set (ordered @ heap) \<longleftrightarrow> set (deps r) \<subseteq> set ordered) \<and>
     deps_first deps ordered)"

lemma length_filter_0 [simp]: "length (filter P xs) = 0 \<longleftrightarrow> (\<forall>x \<in> set xs. \<not> P x)"
  by (simp add: filter_empty_conv)

lemma kahn_inv_init: "distinct nodes \<Longrightarrow> kahn_inv nodes deps (kahn_init nodes deps)"
  by (auto simp: kahn_inv_def kahn_init_def Let_def)

lemma filter_out_count:
  "d \<notin> S \<Longrightarrow> length (filter (\<lambda>x. x \<notin> S) xs) =
     length (filter (\<lambda>x. x \<notin> insert d S) xs) + count_list xs d"
  by (induction xs) auto

lemma count_list_distinct: "distinct xs \<Longrightarrow> count_list xs x = (if x \<in> set xs then 1 else 0)"
  by (induction xs) auto

lemma kahn_inv_step:
  assumes "graph_closed nodes deps" "kahn_inv nodes deps st" "fst (snd st) \<noteq> []"
  shows "kahn_inv nodes deps (kahn_step (dependents_of nodes deps) st)"
proof -
  obtain indegree x heap ordered where st: "st = (indegree, x # heap, ordered)"
    using assms(3) by (metis list.exhaust prod.collapse)
  let ?ds = "dependents_of nodes deps x" and ?out = "ordered @ [x]"
  let ?rest = "\<lambda>r. length (filter (\<lambda>d. d \<notin> set ?out) (deps r))"
  note inv = assms(2) [unfolded kahn_inv_def st prod.case]
  have nodes: "distinct nodes" using assms(1) by (simp add: graph_closed_def)
  have cnt: "count_list ?ds r = (if r \<in> set nodes then count_list (deps r) x else 0)" for r
    using nodes by (simp add: count_dependents count_list_distinct)
  have out: "x \<notin> set ordered" "x \<in> set nodes" "set (deps x) \<subseteq> set ordered" using inv by auto
  have split: "indegree r = int (?rest r) + int (count_list (deps r) x)" if "r \<in> set nodes" for r
    using inv that filter_out_count [OF out(1), of "deps r"] by (simp add: Un_commute)
  have le: "\<forall>r. int (count_list ?ds r) \<le> indegree r"
  proof
    fix r show "int (count_list ?ds r) \<le> indegree r"
      using inv split [of r] by (cases "r \<in> set nodes") (simp_all only: cnt if_True if_False, auto)
  qed
  obtain indegree' heap' where rel: "release ?ds indegree heap = (indegree', heap')" by fastforce
  have ind: "indegree' r = indegree r - int (count_list ?ds r)" for r
    using release_counts [of ?ds indegree heap] by (simp add: rel)
  have fresh: "set heap \<inter> set ?ds = {}"
  proof -
    have "r \<notin> set ?ds" if "r \<in> set heap" for r
      using inv that out(1) by (auto simp: set_dependents)
    then show ?thesis by blast
  qed
  have heap': "set heap' = set heap \<union> {r \<in> set ?ds. indegree r = int (count_list ?ds r)}"
    using release_set [OF le, of heap] by (simp add: rel)
  have new: "r \<in> set heap' \<longleftrightarrow> r \<in> set heap \<or> x \<in> set (deps r) \<and> set (deps r) \<subseteq> set ?out"
    if "r \<in> set nodes" for r
  proof -
    have "?rest r = 0 \<longleftrightarrow> set (deps r) \<subseteq> set ?out" by (auto simp: filter_empty_conv)
    then show ?thesis using split [OF that] that unfolding heap' set_dependents cnt by auto
  qed
  have "distinct heap'" using release_distinct [OF le _ fresh] inv by (simp add: rel)
  moreover have "set heap' \<subseteq> set nodes" using inv by (auto simp: heap' set_dependents)
  moreover have "set ?out \<inter> set heap' = {}"
  proof -
    have "r \<notin> set heap'" if "r \<in> set ?out" for r
    proof -
      have "r \<in> set nodes" "r \<notin> set heap" "set (deps r) \<subseteq> set ordered" using inv that by auto
      then show ?thesis using new out(1) by auto
    qed
    then show ?thesis by blast
  qed
  moreover have "r \<in> set ?out \<or> r \<in> set heap' \<longleftrightarrow> set (deps r) \<subseteq> set ?out" if "r \<in> set nodes" for r
    using inv that new [OF that] out by auto
  moreover have "indegree' r = int (?rest r)" if "r \<in> set nodes" for r
    using split [OF that] that by (simp add: ind cnt)
  moreover have "0 \<le> indegree' r" for r using le by (simp add: ind)
  ultimately show ?thesis
    using inv out by (simp add: st kahn_step_def rel kahn_inv_def)
qed

lemma kahn_terminates:
  assumes "graph_closed nodes deps"
  obtains indegree ordered where "kahn nodes deps = Some (indegree, [], ordered)"
    "kahn_inv nodes deps (indegree, [], ordered)"
proof -
  let ?go = "\<lambda>(_, heap, _). heap \<noteq> []" and ?step = "kahn_step (dependents_of nodes deps)"
  let ?left = "\<lambda>(_, _, ordered). length nodes - length ordered"
  have start: "kahn_inv nodes deps (kahn_init nodes deps)"
    using assms by (simp add: kahn_inv_init graph_closed_def)
  have keep: "kahn_inv nodes deps (?step st)" if "kahn_inv nodes deps st" "?go st" for st
    using kahn_inv_step [OF assms that(1)] that(2) by (auto split: prod.splits)
  have less: "?left (?step st) < ?left st" if "kahn_inv nodes deps st" "?go st" for st
  proof -
    obtain i h ys where st: "st = (i, h, ys)" by (cases st) auto
    have "distinct (ys @ h)" "set (ys @ h) \<subseteq> set nodes" using that(1) by (auto simp: kahn_inv_def st)
    then have "length (ys @ h) \<le> length nodes"
      using card_mono [of "set nodes" "set (ys @ h)"] card_length [of nodes] distinct_card [of "ys @ h"]
      by (metis List.finite_set order_trans)
    moreover have "h \<noteq> []" using that(2) by (simp add: st)
    ultimately show ?thesis by (cases h) (auto simp: st kahn_step_def Let_def split: prod.splits)
  qed
  obtain st where st: "kahn nodes deps = Some st"
    unfolding kahn_def
    using measure_while_option_Some [where P = "kahn_inv nodes deps" and b = ?go and c = ?step and f = ?left]
      keep less start by blast
  have "\<not> ?go st" using while_option_stop [OF st [unfolded kahn_def]] .
  moreover have "kahn_inv nodes deps st"
    using while_option_rule [where P = "kahn_inv nodes deps", OF _ st [unfolded kahn_def] start] keep by blast
  ultimately show ?thesis using st that by (cases st) auto
qed

lemma deps_first_acyclic:
  assumes "deps_first deps xs" "distinct xs" "set xs = set nodes"
  shows "acyclic (dep_edges nodes deps)"
proof -
  define pos where "pos r = (THE i. i < length xs \<and> xs ! i = r)" for r
  have pos: "pos (xs ! i) = i" if "i < length xs" for i
    unfolding pos_def using that assms(2) by (intro the_equality) (auto simp: nth_eq_iff_index_eq)
  have "pos d < pos r" if "(d, r) \<in> dep_edges nodes deps" for d r
  proof -
    from that assms(3) have r: "r \<in> set xs" "d \<in> set (deps r)" by (auto simp: dep_edges_def)
    then obtain i where i: "i < length xs" "r = xs ! i" "d \<in> set (deps (xs ! i))"
      by (metis in_set_conv_nth)
    then have "d \<in> set (take i xs)" using assms(1) by (auto simp: deps_first_def)
    then obtain j where "j < i" "d = xs ! j" by (auto simp: in_set_conv_nth)
    then show ?thesis using i pos by simp
  qed
  then have "dep_edges nodes deps \<subseteq> measure pos" by auto
  then show ?thesis using wf_subset wf_measure wf_acyclic by metis
qed

lemma dep_edges_finite: "graph_closed nodes deps \<Longrightarrow> finite (dep_edges nodes deps)"
  by (rule finite_subset [of _ "set nodes \<times> set nodes"]) (auto simp: dep_edges_def graph_closed_def)

theorem kahn_complete:
  assumes "graph_closed nodes deps" "kahn nodes deps = Some (indegree, heap, ordered)"
  shows "distinct ordered" "deps_first deps ordered" "set ordered \<subseteq> set nodes"
    and "length ordered = length nodes \<longleftrightarrow> acyclic (dep_edges nodes deps)"
    and "length ordered = length nodes \<longleftrightarrow> set ordered = set nodes"
proof -
  have inv: "kahn_inv nodes deps (indegree, [], ordered)"
    using kahn_terminates [OF assms(1)] assms(2) by (metis Pair_inject option.inject)
  then show out: "distinct ordered" "deps_first deps ordered" "set ordered \<subseteq> set nodes"
    by (auto simp: kahn_inv_def)
  have nodes: "distinct nodes" using assms(1) by (simp add: graph_closed_def)
  show all: "length ordered = length nodes \<longleftrightarrow> set ordered = set nodes"
    using card_subset_eq [of "set nodes" "set ordered"] out(3) distinct_card [OF out(1)] distinct_card [OF nodes]
    by auto
  have "set ordered = set nodes" if ac: "acyclic (dep_edges nodes deps)"
  proof (rule ccontr)
    assume "set ordered \<noteq> set nodes"
    then obtain u where u: "u \<in> set nodes - set ordered" using out(3) by blast
    have "wf (dep_edges nodes deps)" using finite_acyclic_wf dep_edges_finite [OF assms(1)] ac by blast
    from wfE_min [OF this u] obtain m where m: "m \<in> set nodes - set ordered"
      and least: "\<And>d. (d, m) \<in> dep_edges nodes deps \<Longrightarrow> d \<notin> set nodes - set ordered" by metis
    have "\<not> set (deps m) \<subseteq> set ordered" using inv m by (auto simp: kahn_inv_def)
    then obtain d where "d \<in> set (deps m)" "d \<notin> set ordered" by blast
    then show False using least [of d] m assms(1) by (auto simp: dep_edges_def graph_closed_def)
  qed
  then show "length ordered = length nodes \<longleftrightarrow> acyclic (dep_edges nodes deps)"
    using all deps_first_acyclic [OF out(2,1)] by blast
qed

section \<open>Along a topological order\<close>

text \<open>A table filled along an order that lists dependencies first: every entry is computed from
  the final entries of its dependencies.\<close>

definition fill :: "(('a \<Rightarrow> 'b) \<Rightarrow> 'a \<Rightarrow> 'b) \<Rightarrow> 'a list \<Rightarrow> ('a \<Rightarrow> 'b) \<Rightarrow> 'a \<Rightarrow> 'b" where
  "fill f xs t = fold (\<lambda>r t. t(r := f t r)) xs t"

lemma fill_simps [simp]: "fill f [] t = t" "fill f (xs @ [r]) t = (fill f xs t)(r := f (fill f xs t) r)"
  by (simp_all add: fill_def)

lemma fill_eq:
  assumes "deps_first deps xs" "distinct xs" "r \<in> set xs"
    and cong: "\<And>r t t'. (\<And>d. d \<in> set (deps r) \<Longrightarrow> t d = t' d) \<Longrightarrow> f t r = f t' r"
  shows "fill f xs t r = f (fill f xs t) r"
  using assms(1-3)
proof (induction xs arbitrary: r rule: rev_induct)
  case (snoc x xs)
  let ?t = "fill f xs t" and ?t' = "fill f (xs @ [x]) t"
  have "x \<notin> set xs" using snoc.prems by simp
  then have same: "?t d = ?t' d" if "d \<in> set xs" for d using that by auto
  show ?case
  proof (cases "r = x")
    case True
    have "f ?t x = f ?t' x"
    proof (rule cong)
      fix d assume "d \<in> set (deps x)"
      then have "d \<in> set xs" using snoc.prems(1) by auto
      then show "?t d = ?t' d" by (rule same)
    qed
    then show ?thesis unfolding True fill_simps fun_upd_same .
  next
    case False
    then have r: "r \<in> set xs" using snoc.prems by simp
    have "set (deps r) \<subseteq> set xs" using snoc.prems(1) r deps_first_closed by fastforce
    then have "f ?t r = f ?t' r" by (intro cong same) blast
    moreover have "?t r = f ?t r" using snoc.IH [of r] snoc.prems r by simp
    moreover have "?t' r = ?t r" using False by simp
    ultimately show ?thesis by (simp only:)
  qed
qed simp

locale ordering =
  fixes ok :: "'g \<Rightarrow> bool" and order :: "'g \<Rightarrow> 'r list option"
    and nodes :: "'g \<Rightarrow> 'r list" and deps :: "'g \<Rightarrow> 'r \<Rightarrow> 'r list"
  assumes order_set: "ok g \<Longrightarrow> order g = Some xs \<Longrightarrow> set xs = set (nodes g)"
    and order_distinct: "ok g \<Longrightarrow> order g = Some xs \<Longrightarrow> distinct xs"
    and order_deps: "ok g \<Longrightarrow> order g = Some xs \<Longrightarrow> deps_first (deps g) xs"
begin

lemma order_acyclic: "ok g \<Longrightarrow> order g = Some xs \<Longrightarrow> acyclic (dep_edges (nodes g) (deps g))"
  by (rule deps_first_acyclic [OF order_deps order_distinct order_set])

lemma order_closed:
  assumes "ok g" "order g = Some xs" "r \<in> set (nodes g)" "d \<in> set (deps g r)"
  shows "d \<in> set (nodes g)"
proof -
  have "r \<in> set xs" using assms(3) order_set [OF assms(1,2)] by simp
  then have "d \<in> set xs" by (rule deps_first_closed [OF order_deps [OF assms(1,2)] _ assms(4)])
  then show ?thesis using order_set [OF assms(1,2)] by simp
qed

lemma order_induct:
  assumes "ok g" "order g = Some xs" "r \<in> set (nodes g)"
    and step: "\<And>r. r \<in> set (nodes g) \<Longrightarrow> (\<And>d. d \<in> set (deps g r) \<Longrightarrow> Q d) \<Longrightarrow> Q r"
  shows "Q r"
proof -
  have "\<forall>r \<in> set ys. Q r" if "deps_first (deps g) ys" "set ys \<subseteq> set (nodes g)" for ys
    using that by (induction ys rule: rev_induct) (auto intro: step)
  then show ?thesis using order_deps order_set assms(1-3) by blast
qed

lemma order_fill:
  assumes "ok g" "order g = Some xs" "r \<in> set (nodes g)"
    and "\<And>r t t'. (\<And>d. d \<in> set (deps g r) \<Longrightarrow> t d = t' d) \<Longrightarrow> f t r = f t' r"
  shows "fill f xs t r = f (fill f xs t) r"
proof (rule fill_eq)
  show "deps_first (deps g) xs" "distinct xs" "r \<in> set xs"
    using order_deps order_distinct order_set assms(1-3) by blast+
qed (rule assms(4))

end

end
