(* ===== verification/Cycle_Search.thy ===== *)
theory Cycle_Search
  imports Dep_Graph
begin

text \<open>
  The depth-first cycle search of the ready frontier (\<open>_has_cycle\<close> of \<open>ready_frontier.py\<close>).

  \<open>search\<close> is the loop over a list of nodes with the body of \<open>walk\<close> inlined: \<open>visiting\<close> is the
  set of nodes on the current path (\<open>walk\<close> restores it before it returns \<open>False\<close>, so it is passed
  down), \<open>finished\<close> is the growing set \<open>done\<close>.  The outer loop over the sorted index and the
  inner loop over the edges of a node are the same function.  \<open>has_cycle_iff\<close> says that the
  search decides acyclicity.
\<close>

function search :: "'a list \<Rightarrow> ('a \<Rightarrow> 'a list) \<Rightarrow> 'a list \<Rightarrow> 'a set \<Rightarrow> 'a set \<Rightarrow> bool \<times> 'a set" where
  "search nodes deps [] visiting finished = (False, finished)"
| "search nodes deps (x # xs) visiting finished =
     (if x \<notin> set nodes \<or> x \<in> finished then search nodes deps xs visiting finished
      else if x \<in> visiting then (True, finished)
      else case search nodes deps (deps x) (insert x visiting) finished of
             (True, finished') \<Rightarrow> (True, finished')
           | (False, finished') \<Rightarrow> search nodes deps xs visiting (insert x finished'))"
  by pat_completeness auto

termination
proof (relation "measures [\<lambda>(nodes, deps, xs, visiting, finished). card (set nodes - visiting),
                           \<lambda>(nodes, deps, xs, visiting, finished). length xs]", goal_cases)
  case (3 nodes deps x xs visiting finished)
  then have "set nodes - insert x visiting \<subset> set nodes - visiting" by auto
  then have "card (set nodes - insert x visiting) < card (set nodes - visiting)"
    by (intro psubset_card_mono) simp_all
  then show ?case by simp
qed auto

definition has_cycle :: "'a::linorder list \<Rightarrow> ('a \<Rightarrow> 'a list) \<Rightarrow> bool" where
  "has_cycle nodes deps = fst (search nodes deps (sort nodes) {} {})"

lemma search_sound:
  assumes "fst (search nodes deps xs visiting finished)"
    and "\<And>x v. x \<in> set xs \<Longrightarrow> v \<in> visiting \<Longrightarrow> (x, v) \<in> (dep_edges nodes deps)\<^sup>+"
  shows "\<exists>x. (x, x) \<in> (dep_edges nodes deps)\<^sup>+"
  using assms
proof (induction nodes deps xs visiting finished rule: search.induct)
  case (2 nodes deps x xs visiting finished)
  let ?E = "dep_edges nodes deps"
  obtain b fin where rec: "search nodes deps (deps x) (insert x visiting) finished = (b, fin)" by fastforce
  consider (skip) "x \<notin> set nodes \<or> x \<in> finished" | (found) "x \<in> set nodes" "x \<notin> finished" "x \<in> visiting"
    | (down) "x \<in> set nodes" "x \<notin> finished" "x \<notin> visiting" by blast
  then show ?case
  proof cases
    case skip
    then have "fst (search nodes deps xs visiting finished)" using 2(4) by simp
    then show ?thesis using 2(1) [OF skip] 2(5) by (simp add: list.set_intros)
  next
    case found
    then show ?thesis using 2(5) [of x x] by auto
  next
    case down
    have below: "(y, v) \<in> ?E\<^sup>+" if "y \<in> set (deps x)" "v \<in> insert x visiting" for y v
    proof -
      have yx: "(y, x) \<in> ?E" using that(1) down by (simp add: dep_edges_def)
      show ?thesis
      proof (cases "v = x")
        case False
        then have "(x, v) \<in> ?E\<^sup>+" using 2(5) that(2) by auto
        then show ?thesis using yx by (rule trancl_into_trancl2 [rotated])
      qed (use yx in auto)
    qed
    show ?thesis
    proof (cases b)
      case True
      show ?thesis by (rule 2(2)) (use down rec True below in auto)
    next
      case False
      have "fst (search nodes deps xs visiting (insert x fin))" using 2(4) down rec False by simp
      then show ?thesis using 2(3) [of b fin] down rec False 2(5) by auto
    qed
  qed
qed simp

definition settled :: "'a list \<Rightarrow> ('a \<Rightarrow> 'a list) \<Rightarrow> 'a set \<Rightarrow> bool" where
  \<comment> \<open>a set of nodes that can be listed with dependencies first\<close>
  "settled nodes deps S \<longleftrightarrow> (\<exists>ys. distinct ys \<and> deps_first deps ys \<and> set ys = S \<and> S \<subseteq> set nodes)"

lemma settled_insert:
  assumes "settled nodes deps S" "x \<in> set nodes" "set (deps x) \<subseteq> S"
  shows "settled nodes deps (insert x S)"
proof (cases "x \<in> S")
  case False
  obtain ys where "distinct ys" "deps_first deps ys" "set ys = S" "S \<subseteq> set nodes"
    using assms(1) by (auto simp: settled_def)
  then show ?thesis using assms(2,3) False unfolding settled_def by (intro exI [of _ "ys @ [x]"]) auto
qed (use assms in \<open>simp add: insert_absorb\<close>)

lemma search_complete:
  assumes "search nodes deps xs visiting finished = (False, fin)"
    and "graph_closed nodes deps" "settled nodes deps finished"
  shows "settled nodes deps fin \<and> finished \<subseteq> fin \<and> set xs \<inter> set nodes \<subseteq> fin"
  using assms
proof (induction nodes deps xs visiting finished arbitrary: fin rule: search.induct)
  case (2 nodes deps x xs visiting finished)
  obtain b mid where rec: "search nodes deps (deps x) (insert x visiting) finished = (b, mid)" by fastforce
  consider (skip) "x \<notin> set nodes \<or> x \<in> finished" | (found) "x \<in> set nodes" "x \<notin> finished" "x \<in> visiting"
    | (down) "x \<in> set nodes" "x \<notin> finished" "x \<notin> visiting" by blast
  then show ?case
  proof cases
    case skip
    then have "search nodes deps xs visiting finished = (False, fin)" using 2(4) by simp
    then show ?thesis using 2(1) [OF skip _ 2(5,6)] skip by auto
  next
    case found
    then show ?thesis using 2(4) by simp
  next
    case down
    then have b: "\<not> b" using 2(4) rec by auto
    have mid: "settled nodes deps mid" "finished \<subseteq> mid" "set (deps x) \<inter> set nodes \<subseteq> mid"
      using 2(2) [OF _ _ _ 2(5,6)] down rec b by auto
    have "set (deps x) \<subseteq> mid" using mid(3) 2(5) down by (auto simp: graph_closed_def)
    then have ins: "settled nodes deps (insert x mid)" using settled_insert mid(1) down by metis
    have "search nodes deps xs visiting (insert x mid) = (False, fin)" using 2(4) down rec b by simp
    then show ?thesis using 2(3) [of b mid fin] down rec b ins mid(2) 2(5) by auto
  qed
qed auto

theorem has_cycle_iff:
  assumes "graph_closed nodes deps"
  shows "has_cycle nodes deps \<longleftrightarrow> \<not> acyclic (dep_edges nodes deps)"
proof
  assume "has_cycle nodes deps"
  then show "\<not> acyclic (dep_edges nodes deps)"
    using search_sound [of nodes deps "sort nodes" "{}" "{}"] by (auto simp: has_cycle_def acyclic_def)
next
  assume cyc: "\<not> acyclic (dep_edges nodes deps)"
  show "has_cycle nodes deps"
  proof (rule ccontr)
    assume "\<not> has_cycle nodes deps"
    then obtain fin where "search nodes deps (sort nodes) {} {} = (False, fin)"
      by (cases "search nodes deps (sort nodes) {} {}") (auto simp: has_cycle_def)
    moreover have "settled nodes deps {}" by (auto simp: settled_def)
    ultimately have "settled nodes deps fin" "set nodes \<subseteq> fin"
      using search_complete [OF _ assms] by fastforce+
    then obtain ys where "distinct ys" "deps_first deps ys" "set ys = set nodes"
      by (auto simp: settled_def)
    then show False using cyc deps_first_acyclic by blast
  qed
qed

end
