(* ===== verification/Ready_Frontier.thy ===== *)
theory Ready_Frontier
  imports Task_Refs Cycle_Search Decimal_Text Json_Values
begin

text \<open>
  The ready-frontier projection of \<open>ready_frontier.py\<close>: a complete snapshot of per-project plans
  is validated fail-closed (\<open>frontier_validate\<close>) and projected to the tasks that may start now and
  the reasoned holds of all others (\<open>frontier_project\<close>), with the run report made from it.

  The dictionary of validated rows is the association list \<open>frontier_index\<close>, keyed by
  \<open>TaskRef\<close> (the code keeps one dictionary per project and joins them; every use sorts).  Statuses
  and kinds stay normalized texts, as in the code.
\<close>

section \<open>Enumerations\<close>

datatype task_kind = CHILD_TASK | PLAN_WRAPPER | WAVE_WRAPPER | ORCHESTRATOR_TURN

fun task_kind_value :: "task_kind \<Rightarrow> string" where
  "task_kind_value CHILD_TASK = ''child_task''"
| "task_kind_value PLAN_WRAPPER = ''plan_wrapper''"
| "task_kind_value WAVE_WRAPPER = ''wave_wrapper''"
| "task_kind_value ORCHESTRATOR_TURN = ''orchestrator_turn''"

datatype task_status =
    ST_PENDING | ST_READY | ST_RUNNING | ST_BLOCKED | ST_OWNER_WAIT | ST_RESOURCE_WAIT
  | ST_COMPLETED | ST_FAILED | ST_SKIPPED

fun task_status_value :: "task_status \<Rightarrow> string" where
  "task_status_value ST_PENDING = ''pending''"
| "task_status_value ST_READY = ''ready''"
| "task_status_value ST_RUNNING = ''running''"
| "task_status_value ST_BLOCKED = ''blocked''"
| "task_status_value ST_OWNER_WAIT = ''owner_wait''"
| "task_status_value ST_RESOURCE_WAIT = ''resource_wait''"
| "task_status_value ST_COMPLETED = ''completed''"
| "task_status_value ST_FAILED = ''failed''"
| "task_status_value ST_SKIPPED = ''skipped''"

definition KIND_VALUES :: "string list" where
  "KIND_VALUES = map task_kind_value [CHILD_TASK, PLAN_WRAPPER, WAVE_WRAPPER, ORCHESTRATOR_TURN]"

definition STATUS_VALUES :: "string list" where
  "STATUS_VALUES = map task_status_value
     [ST_PENDING, ST_READY, ST_RUNNING, ST_BLOCKED, ST_OWNER_WAIT, ST_RESOURCE_WAIT, ST_COMPLETED, ST_FAILED, ST_SKIPPED]"

definition STARTABLE_STATUSES :: "string list" where
  "STARTABLE_STATUSES = map task_status_value [ST_PENDING, ST_READY]"

definition INCAPACITATED_STATUSES :: "string list" where
  "INCAPACITATED_STATUSES = map task_status_value [ST_BLOCKED, ST_FAILED, ST_SKIPPED]"

datatype frontier_reason =
    FR_ELIGIBLE
  | INVALID_LIMIT | MISSING_IDENTITY | UNKNOWN_TASK_KIND | UNKNOWN_TASK_STATUS
  | UNKNOWN_SNAPSHOT_SOURCE | INCOMPLETE_SNAPSHOT | UNSAFE_WRITE_SCOPE | OWNER_MISMATCH
  | CONFLICTING_TASK_IDENTITY | MISSING_DEPENDENCY | MISSING_INTEGRATION_PREREQUISITE
  | CYCLIC_DEPENDENCY | CYCLIC_INTEGRATION_PREREQUISITE
  | COORDINATION_RECORD | TASK_RUNNING | TASK_TERMINAL | TASK_BLOCKED | OWNER_WAIT | RESOURCE_WAIT
  | DEPENDENCY_BLOCKED | DEPENDENCY_PENDING | WRITE_SCOPE_CONFLICT | CAPACITY_WAIT

definition FRONTIER_REASONS :: "frontier_reason list" where
  \<comment> \<open>the enumeration order, which \<open>_REASON_INDEX\<close> numbers\<close>
  "FRONTIER_REASONS =
     [FR_ELIGIBLE, INVALID_LIMIT, MISSING_IDENTITY, UNKNOWN_TASK_KIND, UNKNOWN_TASK_STATUS,
      UNKNOWN_SNAPSHOT_SOURCE, INCOMPLETE_SNAPSHOT, UNSAFE_WRITE_SCOPE, OWNER_MISMATCH,
      CONFLICTING_TASK_IDENTITY, MISSING_DEPENDENCY, MISSING_INTEGRATION_PREREQUISITE,
      CYCLIC_DEPENDENCY, CYCLIC_INTEGRATION_PREREQUISITE,
      COORDINATION_RECORD, TASK_RUNNING, TASK_TERMINAL, TASK_BLOCKED, OWNER_WAIT, RESOURCE_WAIT,
      DEPENDENCY_BLOCKED, DEPENDENCY_PENDING, WRITE_SCOPE_CONFLICT, CAPACITY_WAIT]"

fun frontier_reason_value :: "frontier_reason \<Rightarrow> string" where
  "frontier_reason_value FR_ELIGIBLE = ''eligible''"
| "frontier_reason_value INVALID_LIMIT = ''invalid_limit''"
| "frontier_reason_value MISSING_IDENTITY = ''missing_identity''"
| "frontier_reason_value UNKNOWN_TASK_KIND = ''unknown_task_kind''"
| "frontier_reason_value UNKNOWN_TASK_STATUS = ''unknown_task_status''"
| "frontier_reason_value UNKNOWN_SNAPSHOT_SOURCE = ''unknown_snapshot_source''"
| "frontier_reason_value INCOMPLETE_SNAPSHOT = ''incomplete_snapshot''"
| "frontier_reason_value UNSAFE_WRITE_SCOPE = ''unsafe_write_scope''"
| "frontier_reason_value OWNER_MISMATCH = ''owner_mismatch''"
| "frontier_reason_value CONFLICTING_TASK_IDENTITY = ''conflicting_task_identity''"
| "frontier_reason_value MISSING_DEPENDENCY = ''missing_dependency''"
| "frontier_reason_value MISSING_INTEGRATION_PREREQUISITE = ''missing_integration_prerequisite''"
| "frontier_reason_value CYCLIC_DEPENDENCY = ''cyclic_dependency''"
| "frontier_reason_value CYCLIC_INTEGRATION_PREREQUISITE = ''cyclic_integration_prerequisite''"
| "frontier_reason_value COORDINATION_RECORD = ''coordination_record''"
| "frontier_reason_value TASK_RUNNING = ''task_running''"
| "frontier_reason_value TASK_TERMINAL = ''task_terminal''"
| "frontier_reason_value TASK_BLOCKED = ''task_blocked''"
| "frontier_reason_value OWNER_WAIT = ''owner_wait''"
| "frontier_reason_value RESOURCE_WAIT = ''resource_wait''"
| "frontier_reason_value DEPENDENCY_BLOCKED = ''dependency_blocked''"
| "frontier_reason_value DEPENDENCY_PENDING = ''dependency_pending''"
| "frontier_reason_value WRITE_SCOPE_CONFLICT = ''write_scope_conflict''"
| "frontier_reason_value CAPACITY_WAIT = ''capacity_wait''"

definition ordered_reasons :: "frontier_reason list \<Rightarrow> frontier_reason list" where
  \<comment> \<open>the distinct reasons in enumeration order\<close>
  "ordered_reasons collected = filter (\<lambda>r. r \<in> set collected) FRONTIER_REASONS"

section \<open>Inputs\<close>

record plan_task =
  pt_task_id :: string
  pt_phase :: string
  pt_status :: string
  pt_kind :: string
  pt_title :: string
  pt_display_step :: "string option"
  pt_start :: "task_ref list"
  pt_integrate :: "task_ref list"
  pt_owns :: "string list"

record project_plan =
  pp_project_id :: string
  pp_tasks :: "plan_task list"

record frontier_snapshot =
  fs_owner_id :: string
  fs_source :: string
  fs_complete :: bool
  fs_projects :: "project_plan list"

record frontier_limits =
  fl_active_projects :: int
  fl_child_slots :: int

definition default_frontier_limits :: frontier_limits where
  "default_frontier_limits = \<lparr>fl_active_projects = 3, fl_child_slots = 5\<rparr>"

definition py_normalized :: "string \<Rightarrow> string" where
  "py_normalized s = py_lower (py_strip s)"

definition clean_scopes :: "string list \<Rightarrow> string list \<times> bool" where
  \<comment> \<open>canonical scopes without duplicates, and whether every scope was safe\<close>
  "clean_scopes scopes =
     foldl (\<lambda>(cleaned, safe) scope.
       case canonical_scope scope of
         None \<Rightarrow> if py_strip scope = [] then (cleaned, safe) else (cleaned, False)
       | Some c \<Rightarrow> (if c \<in> set cleaned then cleaned else cleaned @ [c], safe)) ([], True) scopes"

section \<open>Validation\<close>

record validated_task =
  vt_project_id :: string
  vt_task_id :: string
  vt_phase :: string
  vt_kind :: string
  vt_status :: string
  vt_display_step :: "string option"
  vt_title :: string
  vt_start :: "task_ref list"
  vt_integrate :: "task_ref list"
  vt_owns :: "string list"

type_synonym frontier_index = "(task_ref \<times> validated_task) list"

definition vt_ref :: "validated_task \<Rightarrow> task_ref" where
  "vt_ref row = TaskRef (vt_project_id row) (vt_task_id row)"

definition validated_row :: "string \<Rightarrow> plan_task \<Rightarrow> validated_task" where
  "validated_row project task =
     \<lparr>vt_project_id = project, vt_task_id = py_strip (pt_task_id task), vt_phase = py_strip (pt_phase task),
      vt_kind = py_normalized (pt_kind task), vt_status = py_normalized (pt_status task),
      vt_display_step = (case pt_display_step task of None \<Rightarrow> None
         | Some s \<Rightarrow> if py_strip s = [] then None else Some (py_strip s)),
      vt_title = py_strip (pt_title task), vt_start = pt_start task, vt_integrate = pt_integrate task,
      vt_owns = fst (clean_scopes (pt_owns task))\<rparr>"

definition when_reason :: "bool \<Rightarrow> 'r \<Rightarrow> 'r list" where
  "when_reason b r = (if b then [r] else [])"

definition validate_task ::
  "string \<Rightarrow> frontier_reason list \<times> frontier_index \<Rightarrow> plan_task \<Rightarrow> frontier_reason list \<times> frontier_index" where
  "validate_task project acc task =
     (let (reasons, index) = acc; task_id = py_strip (pt_task_id task)
      in if task_id = [] then (reasons @ [MISSING_IDENTITY], index)
         else let row = validated_row project task;
                  reasons' = reasons
                    @ when_reason (vt_kind row \<notin> set KIND_VALUES) UNKNOWN_TASK_KIND
                    @ when_reason (vt_status row \<notin> set STATUS_VALUES) UNKNOWN_TASK_STATUS
                    @ when_reason (\<not> snd (clean_scopes (pt_owns task))) UNSAFE_WRITE_SCOPE;
                  ref = TaskRef project task_id
              in case dict_get index ref of
                   Some existing \<Rightarrow>
                     if existing \<noteq> row then (reasons' @ [CONFLICTING_TASK_IDENTITY], index)
                     else (reasons', dict_set index ref row)
                 | None \<Rightarrow> (reasons', dict_set index ref row))"

definition validate_project ::
  "frontier_reason list \<times> frontier_index \<Rightarrow> project_plan \<Rightarrow> frontier_reason list \<times> frontier_index" where
  "validate_project acc project =
     (let (reasons, index) = acc; project_id = py_strip (pp_project_id project)
      in if project_id = [] then (reasons @ [MISSING_IDENTITY], index)
         else foldl (validate_task project_id) acc (pp_tasks project))"

definition sorted_rows :: "frontier_index \<Rightarrow> validated_task list" where
  \<comment> \<open>\<open>sorted(index.values(), key=sort_key)\<close>\<close>
  "sorted_rows index = sort_key vt_ref (map snd index)"

definition ref_missing :: "frontier_index \<Rightarrow> task_ref \<Rightarrow> bool" where
  "ref_missing index dep = (\<not> ref_is_valid dep \<or> dict_get index dep = None)"

definition reference_reasons :: "frontier_index \<Rightarrow> frontier_reason list" where
  "reference_reasons index =
     concat (map (\<lambda>row.
        map (\<lambda>_. MISSING_DEPENDENCY) (filter (ref_missing index) (vt_start row)) @
        map (\<lambda>_. MISSING_INTEGRATION_PREREQUISITE) (filter (ref_missing index) (vt_integrate row)))
      (sorted_rows index))"

definition row_edges :: "(validated_task \<Rightarrow> task_ref list) \<Rightarrow> frontier_index \<Rightarrow> task_ref \<Rightarrow> task_ref list" where
  \<comment> \<open>\<open>edges(index[ref])\<close>, asked only for keys of the index\<close>
  "row_edges edges index ref = (case dict_get index ref of Some row \<Rightarrow> edges row | None \<Rightarrow> [])"

definition index_has_cycle :: "frontier_index \<Rightarrow> (validated_task \<Rightarrow> task_ref list) \<Rightarrow> bool" where
  "index_has_cycle index edges = has_cycle (map fst index) (row_edges edges index)"

definition snapshot_reasons :: "frontier_snapshot \<Rightarrow> frontier_limits \<Rightarrow> frontier_reason list" where
  "snapshot_reasons snapshot limits =
     when_reason (fl_active_projects limits < 1 \<or> fl_child_slots limits < 1) INVALID_LIMIT @
     when_reason (py_normalized (fs_source snapshot) \<noteq> ''owner_db'') UNKNOWN_SNAPSHOT_SOURCE @
     when_reason (\<not> fs_complete snapshot) INCOMPLETE_SNAPSHOT @
     when_reason (py_strip (fs_owner_id snapshot) = []) MISSING_IDENTITY"

definition frontier_validate ::
  "frontier_snapshot \<Rightarrow> frontier_limits \<Rightarrow> frontier_reason list \<times> frontier_index" where
  "frontier_validate snapshot limits =
     (let (reasons, index) = foldl validate_project (snapshot_reasons snapshot limits, []) (fs_projects snapshot);
          reasons = reasons @ reference_reasons index
      in if reasons \<noteq> [] then (reasons, index)
         else (when_reason (index_has_cycle index vt_start) CYCLIC_DEPENDENCY @
               when_reason (index_has_cycle index vt_integrate) CYCLIC_INTEGRATION_PREREQUISITE, index))"

section \<open>Holds\<close>

definition dependency_hold :: "validated_task \<Rightarrow> frontier_index \<Rightarrow> frontier_reason option" where
  "dependency_hold row index =
     (let statuses = map (\<lambda>dep. vt_status (the (dict_get index dep))) (vt_start row);
          open_ones = filter (\<lambda>s. s \<noteq> task_status_value ST_COMPLETED) statuses
      in if list_ex (\<lambda>s. s \<in> set INCAPACITATED_STATUSES) open_ones then Some DEPENDENCY_BLOCKED
         else if open_ones \<noteq> [] then Some DEPENDENCY_PENDING else None)"

definition status_hold_table :: "(string \<times> frontier_reason) list" where
  "status_hold_table =
     [(task_status_value ST_RUNNING, TASK_RUNNING), (task_status_value ST_COMPLETED, TASK_TERMINAL),
      (task_status_value ST_FAILED, TASK_TERMINAL), (task_status_value ST_SKIPPED, TASK_TERMINAL),
      (task_status_value ST_BLOCKED, TASK_BLOCKED), (task_status_value ST_OWNER_WAIT, OWNER_WAIT),
      (task_status_value ST_RESOURCE_WAIT, RESOURCE_WAIT)]"

definition status_hold :: "validated_task \<Rightarrow> frontier_reason option" where
  \<comment> \<open>the rows of a valid index have a known status, so the table always answers\<close>
  "status_hold row =
     (if vt_kind row \<noteq> task_kind_value CHILD_TASK then Some COORDINATION_RECORD
      else if vt_status row \<in> set STARTABLE_STATUSES then None
      else Some (the (dict_get status_hold_table (vt_status row))))"

section \<open>Projection\<close>

record eligible_task =
  et_project_id :: string
  et_task_id :: string
  et_phase :: string
  et_display_step :: "string option"
  et_title :: string
  et_owns :: "string list"
  et_integrate :: "task_ref list"

record held_task =
  ht_project_id :: string
  ht_task_id :: string
  ht_phase :: string
  ht_display_step :: "string option"
  ht_status :: string
  ht_kind :: string
  ht_reasons :: "frontier_reason list"

definition et_ref :: "eligible_task \<Rightarrow> task_ref" where
  "et_ref t = TaskRef (et_project_id t) (et_task_id t)"

definition ht_ref :: "held_task \<Rightarrow> task_ref" where
  "ht_ref t = TaskRef (ht_project_id t) (ht_task_id t)"

definition eligible_of_row :: "validated_task \<Rightarrow> eligible_task" where
  "eligible_of_row row =
     \<lparr>et_project_id = vt_project_id row, et_task_id = vt_task_id row, et_phase = vt_phase row,
      et_display_step = vt_display_step row, et_title = vt_title row, et_owns = vt_owns row,
      et_integrate = vt_integrate row\<rparr>"

definition held_of_row :: "validated_task \<times> frontier_reason list \<Rightarrow> held_task" where
  "held_of_row h = (case h of (row, reasons) \<Rightarrow>
     \<lparr>ht_project_id = vt_project_id row, ht_task_id = vt_task_id row, ht_phase = vt_phase row,
      ht_display_step = vt_display_step row, ht_status = vt_status row, ht_kind = vt_kind row,
      ht_reasons = ordered_reasons reasons\<rparr>)"

record pass_state =
  ps_eligible :: "eligible_task list"
  ps_held :: "(validated_task \<times> frontier_reason list) list"
  ps_projects :: "string list"
  ps_counts :: "string \<Rightarrow> int"
  ps_reserved :: "string \<Rightarrow> string list list"

definition running_writer :: "validated_task \<Rightarrow> bool" where
  "running_writer row =
     (vt_kind row = task_kind_value CHILD_TASK \<and> vt_status row = task_status_value ST_RUNNING \<and> vt_owns row \<noteq> [])"

definition reserve_scopes :: "(string \<Rightarrow> string list list) \<Rightarrow> validated_task \<Rightarrow> string \<Rightarrow> string list list" where
  "reserve_scopes reserved row = reserved(vt_project_id row := reserved (vt_project_id row) @ [vt_owns row])"

definition reserve_running :: "validated_task list \<Rightarrow> string \<Rightarrow> string list list" where
  \<comment> \<open>pass 1\<close>
  "reserve_running rows = foldl reserve_scopes (\<lambda>_. []) (filter running_writer rows)"

definition at_capacity :: "frontier_limits \<Rightarrow> pass_state \<Rightarrow> validated_task \<Rightarrow> bool" where
  "at_capacity limits st row =
     (let p = vt_project_id row
      in p \<notin> set (ps_projects st) \<and> fl_active_projects limits \<le> int (length (ps_projects st))
         \<or> fl_child_slots limits \<le> ps_counts st p)"

definition scope_taken :: "pass_state \<Rightarrow> validated_task \<Rightarrow> bool" where
  "scope_taken st row = list_ex (scopes_overlap (vt_owns row)) (ps_reserved st (vt_project_id row))"

definition hold_row :: "pass_state \<Rightarrow> validated_task \<Rightarrow> frontier_reason list \<Rightarrow> pass_state" where
  "hold_row st row reasons = st\<lparr>ps_held := ps_held st @ [(row, reasons)]\<rparr>"

definition accept_row :: "pass_state \<Rightarrow> validated_task \<Rightarrow> pass_state" where
  "accept_row st row =
     (let p = vt_project_id row
      in st\<lparr>ps_eligible := ps_eligible st @ [eligible_of_row row],
            ps_projects := (if p \<in> set (ps_projects st) then ps_projects st else ps_projects st @ [p]),
            ps_counts := (ps_counts st)(p := ps_counts st p + 1),
            ps_reserved := (if vt_owns row \<noteq> [] then reserve_scopes (ps_reserved st) row else ps_reserved st)\<rparr>)"

definition project_row :: "frontier_index \<Rightarrow> frontier_limits \<Rightarrow> pass_state \<Rightarrow> validated_task \<Rightarrow> pass_state" where
  \<comment> \<open>pass 2, one row\<close>
  "project_row index limits st row =
     (case status_hold row of
        Some reason \<Rightarrow> hold_row st row [reason]
      | None \<Rightarrow>
          (case dependency_hold row index of
             Some reason \<Rightarrow> hold_row st row [reason]
           | None \<Rightarrow>
               (let reasons = when_reason (at_capacity limits st row) CAPACITY_WAIT @
                              when_reason (scope_taken st row) WRITE_SCOPE_CONFLICT
                in if reasons \<noteq> [] then hold_row st row reasons else accept_row st row)))"

definition pass_start :: "validated_task list \<Rightarrow> pass_state" where
  "pass_start rows = \<lparr>ps_eligible = [], ps_held = [], ps_projects = [], ps_counts = (\<lambda>_. 0),
     ps_reserved = reserve_running rows\<rparr>"

definition run_passes :: "frontier_index \<Rightarrow> frontier_limits \<Rightarrow> pass_state" where
  "run_passes index limits =
     (let rows = sorted_rows index in foldl (project_row index limits) (pass_start rows) rows)"

definition frontier_project ::
  "frontier_index \<Rightarrow> frontier_limits \<Rightarrow> eligible_task list \<times> held_task list \<times> string list" where
  "frontier_project index limits =
     (let st = run_passes index limits
      in (ps_eligible st, map held_of_row (ps_held st), sort (remdups (map vt_project_id (sorted_rows index)))))"

datatype projection_status = PROJECTED | DENIED

fun projection_status_value :: "projection_status \<Rightarrow> string" where
  "projection_status_value PROJECTED = ''PROJECTED''"
| "projection_status_value DENIED = ''DENIED''"

record frontier_projection =
  fp_status :: projection_status
  fp_reasons :: "frontier_reason list"
  fp_eligible :: "eligible_task list"
  fp_held :: "held_task list"
  fp_project_order :: "string list"
  fp_limits :: frontier_limits
  fp_counts_authoritative :: bool
  fp_detail :: string

definition frontier_denied :: "frontier_reason list \<Rightarrow> frontier_limits \<Rightarrow> frontier_projection" where
  "frontier_denied reasons limits =
     \<lparr>fp_status = DENIED, fp_reasons = ordered_reasons reasons, fp_eligible = [], fp_held = [],
      fp_project_order = [], fp_limits = limits, fp_counts_authoritative = False,
      fp_detail = ''denied: snapshot could not be fully validated (fail closed)''\<rparr>"

definition project_ready_frontier :: "frontier_snapshot \<Rightarrow> frontier_limits \<Rightarrow> frontier_projection" where
  "project_ready_frontier snapshot limits =
     (case frontier_validate snapshot limits of (reasons, index) \<Rightarrow>
        if reasons \<noteq> [] then frontier_denied reasons limits
        else (case frontier_project index limits of (eligible, held, order) \<Rightarrow>
          \<lparr>fp_status = PROJECTED, fp_reasons = [FR_ELIGIBLE], fp_eligible = eligible, fp_held = held,
           fp_project_order = order, fp_limits = limits, fp_counts_authoritative = True,
           fp_detail = ''projected: '' @ int_text (int (length eligible)) @ '' eligible, '' @
             int_text (int (length held)) @ '' held (limits '' @ int_text (fl_active_projects limits) @
             ''x'' @ int_text (fl_child_slots limits) @ '')''\<rparr>))"

end
