(* ===== verification/Ready_Frontier_Laws.thy ===== *)
theory Ready_Frontier_Laws
  imports Ready_Frontier Loop_Laws
begin

text \<open>
  What the ready frontier promises: a projection exists exactly for a complete, well-formed and
  acyclic snapshot; every row is then reported exactly once; what is eligible may really start
  (dependencies completed, no shared write scope, inside the owner's maxima); and what is held is
  held for a reason that still holds of the result.
\<close>

lemma when_reason_simps [simp]:
  "when_reason b r = [] \<longleftrightarrow> \<not> b" "set (when_reason b r) = (if b then {r} else {})"
  by (simp_all add: when_reason_def)

section \<open>Validation\<close>

text \<open>The rows of a snapshot, as the validation normalises them.\<close>

definition snapshot_rows :: "project_plan list \<Rightarrow> (string \<times> plan_task) list" where
  "snapshot_rows projects = concat (map (\<lambda>p. map (Pair (py_strip (pp_project_id p))) (pp_tasks p)) projects)"

definition row_sound :: "string \<Rightarrow> plan_task \<Rightarrow> bool" where
  "row_sound project task \<longleftrightarrow> project \<noteq> [] \<and> py_strip (pt_task_id task) \<noteq> [] \<and>
     vt_kind (validated_row project task) \<in> set KIND_VALUES \<and>
     vt_status (validated_row project task) \<in> set STATUS_VALUES \<and>
     snd (clean_scopes (pt_owns task))"

definition index_wf :: "frontier_index \<Rightarrow> bool" where
  "index_wf index \<longleftrightarrow> distinct (map fst index) \<and> (\<forall>(ref, row) \<in> set index. vt_ref row = ref)"

lemma vt_ref_validated [simp]: "vt_ref (validated_row p t) = TaskRef p (py_strip (pt_task_id t))"
  by (simp add: vt_ref_def validated_row_def)

lemma set_dict_set:
  "distinct (map fst d) \<Longrightarrow> set (dict_set d k v) = {(j, w) \<in> set d. j \<noteq> k} \<union> {(k, v)}"
  by (induction d k v rule: dict_set.induct) (auto simp: image_iff)

lemma index_wf_set: "index_wf index \<Longrightarrow> vt_ref row = ref \<Longrightarrow> index_wf (dict_set index ref row)"
  by (auto simp: index_wf_def distinct_dict_set set_dict_set)

text \<open>Validation state after a list of rows: whenever no reason was collected, every row so far is
  sound and the index holds exactly these rows.\<close>

definition validated :: "(string \<times> plan_task) list \<Rightarrow> frontier_reason list \<times> frontier_index \<Rightarrow> bool" where
  "validated rows acc \<longleftrightarrow> index_wf (snd acc) \<and>
     (fst acc = [] \<longrightarrow> (\<forall>(p, t) \<in> set rows. row_sound p t) \<and>
        snd ` set (snd acc) = (\<lambda>(p, t). validated_row p t) ` set rows)"

lemma dict_get_in_set: "distinct (map fst d) \<Longrightarrow> dict_get d k = Some v \<longleftrightarrow> (k, v) \<in> set d"
  by (simp add: dict_get_map_of)

lemma validated_task_step:
  assumes "validated rows acc" "project \<noteq> []"
  shows "validated (rows @ [(project, task)]) (validate_task project acc task)"
proof -
  obtain reasons index where acc: "acc = (reasons, index)" by fastforce
  let ?id = "py_strip (pt_task_id task)" and ?row = "validated_row project task"
  let ?ref = "TaskRef project ?id"
  have wf: "index_wf index" using assms(1) by (simp add: validated_def acc)
  then have dist: "distinct (map fst index)" by (simp add: index_wf_def)
  have put: "index_wf (dict_set index ?ref ?row)" by (rule index_wf_set [OF wf]) simp
  have rows: "snd ` set (dict_set index ?ref ?row) = insert ?row (snd ` set index)"
    if "dict_get index ?ref \<in> {None, Some ?row}"
    using that dist by (auto simp: set_dict_set dict_get_in_set image_iff dict_get_map_of map_of_eq_None_iff)
      (metis (no_types, lifting) map_of_is_SomeI option.inject)+
  consider (blank) "?id = []" | (clash) old where "?id \<noteq> []" "dict_get index ?ref = Some old" "old \<noteq> ?row"
    | (ok) "?id \<noteq> []" "dict_get index ?ref \<in> {None, Some ?row}" by (cases "dict_get index ?ref") auto
  then show ?thesis
  proof cases
    case ok
    let ?more = "when_reason (vt_kind ?row \<notin> set KIND_VALUES) UNKNOWN_TASK_KIND
       @ when_reason (vt_status ?row \<notin> set STATUS_VALUES) UNKNOWN_TASK_STATUS
       @ when_reason (\<not> snd (clean_scopes (pt_owns task))) UNSAFE_WRITE_SCOPE"
    have step: "validate_task project (reasons, index) task = (reasons @ ?more, dict_set index ?ref ?row)"
      using ok by (auto simp: validate_task_def Let_def)
    have old: "reasons = [] \<Longrightarrow> (\<forall>(p, t) \<in> set rows. row_sound p t) \<and>
        snd ` set index = (\<lambda>(p, t). validated_row p t) ` set rows"
      using assms(1) by (simp add: validated_def acc)
    show ?thesis
      unfolding validated_def acc step fst_conv snd_conv
    proof (intro conjI impI put)
      assume none: "reasons @ ?more = []"
      then show "\<forall>(p, t) \<in> set (rows @ [(project, task)]). row_sound p t"
        using old ok(1) assms(2) by (auto simp: row_sound_def)
      show "snd ` set (dict_set index ?ref ?row) = (\<lambda>(p, t). validated_row p t) ` set (rows @ [(project, task)])"
        unfolding rows [OF ok(2)] using none old by simp
    qed
  qed (use wf in \<open>auto simp: validated_def validate_task_def acc Let_def\<close>)
qed

lemma validated_tasks:
  assumes "validated rows acc" "project \<noteq> []"
  shows "validated (rows @ map (Pair project) tasks) (foldl (validate_task project) acc tasks)"
  using assms(1)
proof (induction tasks arbitrary: rows acc)
  case (Cons t ts)
  then show ?case using validated_task_step [OF Cons.prems assms(2), of t] by fastforce
qed simp

lemma validated_projects:
  assumes "validated rows acc"
  shows "validated (rows @ snapshot_rows projects) (foldl validate_project acc projects)"
  using assms
proof (induction projects arbitrary: rows acc)
  case (Cons p ps)
  let ?rows = "rows @ map (Pair (py_strip (pp_project_id p))) (pp_tasks p)"
  have "validated ?rows (validate_project acc p)"
  proof (cases "py_strip (pp_project_id p) = []")
    case True
    then show ?thesis using Cons.prems by (auto simp: validate_project_def validated_def split: prod.splits)
  next
    case False
    then show ?thesis
      using validated_tasks [OF Cons.prems False, of "pp_tasks p"]
      by (simp add: validate_project_def split: prod.splits)
  qed
  from Cons.IH [OF this] show ?case by (simp add: snapshot_rows_def)
qed (simp add: snapshot_rows_def)

lemma validated_start: "validated [] (reasons, [])"
  by (simp add: validated_def index_wf_def)

lemma validate_project_eq:
  "validate_project acc p =
     (if py_strip (pp_project_id p) = [] then (fst acc @ [MISSING_IDENTITY], snd acc)
      else foldl (validate_task (py_strip (pp_project_id p))) acc (pp_tasks p))"
  by (simp add: validate_project_def Let_def case_prod_beta)

lemma reasons_kept:
  assumes "fst (validate_task project acc task) = []"
  shows "fst acc = []"
proof (rule ccontr)
  assume ne: "fst acc \<noteq> []"
  obtain reasons index where acc: "acc = (reasons, index)" by fastforce
  show False
  proof (cases "dict_get index (TaskRef project (py_strip (pt_task_id task)))")
    case None
    then show False using assms ne by (simp add: acc validate_task_def Let_def split: if_splits)
  next
    case (Some row)
    then show False using assms ne by (simp add: acc validate_task_def Let_def split: if_splits)
  qed
qed

lemma reasons_kept_tasks: "fst (foldl (validate_task project) acc tasks) = [] \<Longrightarrow> fst acc = []"
proof (induction tasks arbitrary: acc)
  case (Cons t ts)
  then have "fst (validate_task project acc t) = []" by (simp only: foldl_Cons)
  then show ?case by (rule reasons_kept)
qed simp

lemma reasons_kept_projects:
  "fst (foldl validate_project acc projects) = [] \<Longrightarrow>
   fst acc = [] \<and> (\<forall>p \<in> set projects. py_strip (pp_project_id p) \<noteq> [])"
proof (induction projects arbitrary: acc)
  case (Cons p ps)
  have start: "fst (validate_project acc p) = []" "\<forall>p \<in> set ps. py_strip (pp_project_id p) \<noteq> []"
    using Cons.IH [of "validate_project acc p"] Cons.prems unfolding foldl_Cons by blast+
  have "py_strip (pp_project_id p) \<noteq> []" using start(1) by (auto simp: validate_project_eq)
  moreover from this have "fst acc = []"
    using start(1) reasons_kept_tasks [of "py_strip (pp_project_id p)" acc "pp_tasks p"]
    by (simp add: validate_project_eq)
  ultimately show ?case using start(2) by simp
qed simp

definition rows_agree :: "(string \<times> plan_task) list \<Rightarrow> bool" where
  \<comment> \<open>records with one identity are aliases\<close>
  "rows_agree rows \<longleftrightarrow> (\<forall>(p, t) \<in> set rows. \<forall>(q, u) \<in> set rows.
     p = q \<and> py_strip (pt_task_id t) = py_strip (pt_task_id u) \<longrightarrow> validated_row p t = validated_row q u)"

lemma validate_task_silent:
  assumes "validated rows ([], index)" "row_sound p t"
    and agree: "\<And>q u. (q, u) \<in> set rows \<Longrightarrow> TaskRef q (py_strip (pt_task_id u)) = TaskRef p (py_strip (pt_task_id t)) \<Longrightarrow>
      validated_row q u = validated_row p t"
  shows "fst (validate_task p ([], index) t) = []"
proof -
  let ?ref = "TaskRef p (py_strip (pt_task_id t))"
  have sound: "py_strip (pt_task_id t) \<noteq> []" "vt_kind (validated_row p t) \<in> set KIND_VALUES"
    "vt_status (validated_row p t) \<in> set STATUS_VALUES" "snd (clean_scopes (pt_owns t))"
    using assms(2) by (auto simp: row_sound_def)
  show ?thesis
  proof (cases "dict_get index ?ref")
    case None
    then show ?thesis using sound by (simp add: validate_task_def Let_def when_reason_def)
  next
    case (Some old)
    then have old: "(?ref, old) \<in> set index" by (rule dict_get_Some_in)
    then have "vt_ref old = ?ref" using assms(1) by (auto simp: validated_def index_wf_def)
    moreover have "old \<in> (\<lambda>(p, t). validated_row p t) ` set rows"
      using old assms(1) by (force simp: validated_def)
    ultimately have "old = validated_row p t" using agree by (auto simp: case_prod_beta)
    then show ?thesis using sound Some by (simp add: validate_task_def Let_def when_reason_def)
  qed
qed

lemma validate_tasks_silent:
  assumes "validated rows ([], index)" "p \<noteq> []"
    and "\<forall>t \<in> set tasks. row_sound p t" "rows_agree (rows @ map (Pair p) tasks)"
  shows "fst (foldl (validate_task p) ([], index) tasks) = []"
  using assms
proof (induction tasks arbitrary: rows index)
  case (Cons t ts)
  have "fst (validate_task p ([], index) t) = []"
    using Cons.prems by (intro validate_task_silent) (auto simp: rows_agree_def)
  then obtain index' where step: "validate_task p ([], index) t = ([], index')"
    by (cases "validate_task p ([], index) t") auto
  have "validated (rows @ [(p, t)]) ([], index')"
    using validated_task_step [OF Cons.prems(1,2), of t] step by simp
  from Cons.IH [OF this Cons.prems(2)] show ?case using Cons.prems(3,4) step by simp
qed simp

lemma rows_agree_mono: "rows_agree rows \<Longrightarrow> set rows' \<subseteq> set rows \<Longrightarrow> rows_agree rows'"
  unfolding rows_agree_def by blast

lemma validate_projects_silent:
  assumes "validated rows ([], index)" "\<forall>p \<in> set projects. py_strip (pp_project_id p) \<noteq> []"
    and "\<forall>(p, t) \<in> set (snapshot_rows projects). row_sound p t" "rows_agree (rows @ snapshot_rows projects)"
  shows "fst (foldl validate_project ([], index) projects) = []"
  using assms
proof (induction projects arbitrary: rows index)
  case (Cons p ps)
  let ?id = "py_strip (pp_project_id p)" and ?new = "map (Pair (py_strip (pp_project_id p))) (pp_tasks p)"
  have ne: "?id \<noteq> []" using Cons.prems(2) by simp
  have "fst (foldl (validate_task ?id) ([], index) (pp_tasks p)) = []"
  proof (rule validate_tasks_silent [OF Cons.prems(1) ne])
    show "\<forall>t \<in> set (pp_tasks p). row_sound ?id t" using Cons.prems(3) by (auto simp: snapshot_rows_def)
    show "rows_agree (rows @ ?new)"
      by (rule rows_agree_mono [OF Cons.prems(4)]) (auto simp: snapshot_rows_def)
  qed
  then obtain index' where step: "validate_project ([], index) p = ([], index')"
    using ne by (cases "validate_project ([], index) p") (simp add: validate_project_eq)
  have "validated (rows @ ?new) ([], index')"
    using validated_tasks [OF Cons.prems(1) ne, of "pp_tasks p"] step ne by (simp add: validate_project_eq)
  from Cons.IH [OF this] show ?case using Cons.prems step by (simp add: snapshot_rows_def ball_Un)
qed simp

section \<open>The projection exists exactly for sound snapshots\<close>

definition row_ref :: "string \<times> plan_task \<Rightarrow> task_ref" where
  "row_ref r = TaskRef (fst r) (py_strip (pt_task_id (snd r)))"

definition plan_edges :: "(plan_task \<Rightarrow> task_ref list) \<Rightarrow> (string \<times> plan_task) list \<Rightarrow> (task_ref \<times> task_ref) set" where
  "plan_edges edges rows = {(d, row_ref r) | d r. r \<in> set rows \<and> d \<in> set (edges (snd r))}"

definition snapshot_sound :: "frontier_snapshot \<Rightarrow> frontier_limits \<Rightarrow> bool" where
  "snapshot_sound snapshot limits \<longleftrightarrow> (let rows = snapshot_rows (fs_projects snapshot) in
     1 \<le> fl_active_projects limits \<and> 1 \<le> fl_child_slots limits \<and>
     py_normalized (fs_source snapshot) = ''owner_db'' \<and> fs_complete snapshot \<and>
     py_strip (fs_owner_id snapshot) \<noteq> [] \<and>
     (\<forall>p \<in> set (fs_projects snapshot). py_strip (pp_project_id p) \<noteq> []) \<and>
     (\<forall>(p, t) \<in> set rows. row_sound p t) \<and> rows_agree rows \<and>
     (\<forall>r \<in> set rows. \<forall>d \<in> set (pt_start (snd r)) \<union> set (pt_integrate (snd r)).
        ref_is_valid d \<and> d \<in> row_ref ` set rows) \<and>
     acyclic (plan_edges pt_start rows) \<and> acyclic (plan_edges pt_integrate rows))"

lemma index_key: "index_wf index \<Longrightarrow> (k, row) \<in> set index \<Longrightarrow> k = vt_ref row"
  unfolding index_wf_def by fast

lemma index_keys: "index_wf index \<Longrightarrow> fst ` set index = vt_ref ` snd ` set index"
  unfolding image_image by (rule image_cong) (use index_key in auto)

lemma rows_agree_validated:
  assumes "validated rows ([], index)"
  shows "rows_agree rows"
proof -
  have "validated_row p t = validated_row q u"
    if "(p, t) \<in> set rows" "(q, u) \<in> set rows" "p = q" "py_strip (pt_task_id t) = py_strip (pt_task_id u)" for p t q u
  proof -
    have "\<exists>k. (k, validated_row p t) \<in> set index" "\<exists>k. (k, validated_row q u) \<in> set index"
      using assms that(1,2) by (force simp: validated_def image_iff)+
    then obtain j k where jk: "(j, validated_row p t) \<in> set index" "(k, validated_row q u) \<in> set index" by blast
    have wf: "index_wf index" using assms by (simp add: validated_def)
    have "j = k" using index_key [OF wf jk(1)] index_key [OF wf jk(2)] that(3,4) by simp
    then show ?thesis using jk wf unfolding index_wf_def by (metis eq_key_imp_eq_value)
  qed
  then show ?thesis unfolding rows_agree_def by fast
qed

lemma validated_keys:
  assumes "validated rows ([], index)"
  shows "fst ` set index = row_ref ` set rows"
proof -
  have "fst ` set index = vt_ref ` (\<lambda>(p, t). validated_row p t) ` set rows"
    using assms index_keys by (simp add: validated_def)
  also have "\<dots> = row_ref ` set rows"
    unfolding image_image by (rule image_cong) (auto simp: row_ref_def)
  finally show ?thesis .
qed

lemma index_lookup:
  assumes "index_wf index" "(r, row) \<in> set index"
  shows "dict_get index r = Some row"
  using assms by (simp add: index_wf_def dict_get_in_set)

lemma index_edges:
  assumes "validated rows ([], index)" "\<And>p t. edges (validated_row p t) = raw t"
  shows "dep_edges (map fst index) (row_edges edges index) = plan_edges raw rows"
proof -
  have wf: "index_wf index" using assms(1) by (simp add: validated_def)
  have "(d, r) \<in> dep_edges (map fst index) (row_edges edges index) \<longleftrightarrow>
      (\<exists>row. (r, row) \<in> set index \<and> d \<in> set (edges row))" for d r
    using index_lookup [OF wf] by (auto simp: dep_edges_def row_edges_def split: option.splits
        dest: dict_get_Some_in intro: rev_image_eqI)
  also have "\<dots> d r \<longleftrightarrow> (\<exists>row \<in> snd ` set index. r = vt_ref row \<and> d \<in> set (edges row))" for d r
  proof
    assume "\<exists>row. (r, row) \<in> set index \<and> d \<in> set (edges row)"
    then show "\<exists>row \<in> snd ` set index. r = vt_ref row \<and> d \<in> set (edges row)"
      using index_key [OF wf] by (force intro: rev_image_eqI)
  next
    assume "\<exists>row \<in> snd ` set index. r = vt_ref row \<and> d \<in> set (edges row)"
    then obtain k row where "(k, row) \<in> set index" "r = vt_ref row" "d \<in> set (edges row)" by auto
    then show "\<exists>row. (r, row) \<in> set index \<and> d \<in> set (edges row)" using index_key [OF wf] by blast
  qed
  also have "\<dots> d r \<longleftrightarrow> (d, r) \<in> plan_edges raw rows" for d r
  proof -
    have "snd ` set index = (\<lambda>(p, t). validated_row p t) ` set rows" using assms(1) by (simp add: validated_def)
    moreover have "(d, r) \<in> plan_edges raw rows \<longleftrightarrow> (\<exists>x \<in> set rows. r = row_ref x \<and> d \<in> set (raw (snd x)))"
      unfolding plan_edges_def by blast
    ultimately show ?thesis using assms(2) by (simp add: row_ref_def case_prod_beta)
  qed
  finally show ?thesis by auto
qed

lemma index_closed:
  assumes "index_wf index" "\<And>row d. row \<in> snd ` set index \<Longrightarrow> d \<in> set (edges row) \<Longrightarrow> d \<in> fst ` set index"
  shows "graph_closed (map fst index) (row_edges edges index)"
  using assms index_lookup [OF assms(1)] by (force simp: graph_closed_def index_wf_def row_edges_def)

lemma set_sorted_rows [simp]: "set (sorted_rows index) = snd ` set index"
  by (simp add: sorted_rows_def)

lemma reference_reasons_iff:
  assumes "validated rows ([], index)"
  shows "reference_reasons index = [] \<longleftrightarrow>
    (\<forall>r \<in> set rows. \<forall>d \<in> set (pt_start (snd r)) \<union> set (pt_integrate (snd r)). ref_is_valid d \<and> d \<in> row_ref ` set rows)"
proof -
  have miss: "ref_missing index d \<longleftrightarrow> \<not> (ref_is_valid d \<and> d \<in> row_ref ` set rows)" for d
    using validated_keys [OF assms] by (simp add: ref_missing_def dict_get_map_of map_of_eq_None_iff)
  have "reference_reasons index = [] \<longleftrightarrow>
      (\<forall>row \<in> snd ` set index. \<forall>d \<in> set (vt_start row) \<union> set (vt_integrate row). \<not> ref_missing index d)"
    by (auto simp: reference_reasons_def filter_empty_conv)
  also have "\<dots> \<longleftrightarrow> (\<forall>r \<in> set rows. \<forall>d \<in> set (pt_start (snd r)) \<union> set (pt_integrate (snd r)). \<not> ref_missing index d)"
  proof -
    have "snd ` set index = (\<lambda>(p, t). validated_row p t) ` set rows" using assms by (simp add: validated_def)
    then show ?thesis by (simp add: case_prod_beta validated_row_def)
  qed
  finally show ?thesis by (simp add: miss)
qed

lemma frontier_validate_start:
  obtains reasons index where
    "foldl validate_project (snapshot_reasons snapshot limits, []) (fs_projects snapshot) = (reasons, index)"
    "validated (snapshot_rows (fs_projects snapshot)) (reasons, index)"
  using validated_projects [OF validated_start, of "fs_projects snapshot" "snapshot_reasons snapshot limits"]
  by (cases "foldl validate_project (snapshot_reasons snapshot limits, []) (fs_projects snapshot)") auto

lemma index_has_cycle_iff:
  assumes "validated rows ([], index)" "reference_reasons index = []"
  shows "index_has_cycle index vt_start \<longleftrightarrow> \<not> acyclic (plan_edges pt_start rows)"
    and "index_has_cycle index vt_integrate \<longleftrightarrow> \<not> acyclic (plan_edges pt_integrate rows)"
proof -
  have wf: "index_wf index" and rows: "snd ` set index = (\<lambda>(p, t). validated_row p t) ` set rows"
    using assms(1) by (simp_all add: validated_def)
  note refs = reference_reasons_iff [OF assms(1), THEN iffD1, OF assms(2)]
  have known: "d \<in> fst ` set index"
    if row: "row \<in> snd ` set index" and d: "d \<in> set (vt_start row) \<union> set (vt_integrate row)" for row d
  proof -
    from row rows obtain r where "r \<in> set rows" "row = validated_row (fst r) (snd r)" by (auto simp: case_prod_beta)
    then show ?thesis using refs d unfolding validated_keys [OF assms(1)] by (simp add: validated_row_def)
  qed
  have start: "graph_closed (map fst index) (row_edges vt_start index)"
    by (rule index_closed [OF wf]) (use known in blast)
  have integrate: "graph_closed (map fst index) (row_edges vt_integrate index)"
    by (rule index_closed [OF wf]) (use known in blast)
  have raw: "vt_start (validated_row p t) = pt_start t" "vt_integrate (validated_row p t) = pt_integrate t" for p t
    by (simp_all add: validated_row_def)
  show "index_has_cycle index vt_start \<longleftrightarrow> \<not> acyclic (plan_edges pt_start rows)"
    unfolding index_has_cycle_def has_cycle_iff [OF start] index_edges [where raw = pt_start, OF assms(1) raw(1)] ..
  show "index_has_cycle index vt_integrate \<longleftrightarrow> \<not> acyclic (plan_edges pt_integrate rows)"
    unfolding index_has_cycle_def has_cycle_iff [OF integrate]
      index_edges [where raw = pt_integrate, OF assms(1) raw(2)] ..
qed

lemma frontier_validate_iff:
  "fst (frontier_validate snapshot limits) = [] \<longleftrightarrow> snapshot_sound snapshot limits"
proof -
  let ?rows = "snapshot_rows (fs_projects snapshot)"
  obtain reasons index where fold:
      "foldl validate_project (snapshot_reasons snapshot limits, []) (fs_projects snapshot) = (reasons, index)"
    and val: "validated ?rows (reasons, index)" by (rule frontier_validate_start)
  have start: "snapshot_reasons snapshot limits = [] \<longleftrightarrow>
      1 \<le> fl_active_projects limits \<and> 1 \<le> fl_child_slots limits \<and>
      py_normalized (fs_source snapshot) = ''owner_db'' \<and> fs_complete snapshot \<and> py_strip (fs_owner_id snapshot) \<noteq> []"
    by (auto simp: snapshot_reasons_def)
  have silent: "reasons = [] \<longleftrightarrow> snapshot_reasons snapshot limits = [] \<and>
      (\<forall>p \<in> set (fs_projects snapshot). py_strip (pp_project_id p) \<noteq> []) \<and>
      (\<forall>(p, t) \<in> set ?rows. row_sound p t) \<and> rows_agree ?rows" (is "_ \<longleftrightarrow> ?R")
  proof
    assume none: "reasons = []"
    then have "validated ?rows ([], index)" using val by simp
    then show ?R
      using reasons_kept_projects [of "(snapshot_reasons snapshot limits, [])" "fs_projects snapshot"] fold none
        rows_agree_validated by (auto simp: validated_def)
  next
    assume R: ?R
    then show "reasons = []"
      using validate_projects_silent [of "[]" "[]" "fs_projects snapshot"] validated_start [of "[]"] fold by auto
  qed
  show ?thesis
  proof (cases "reasons = [] \<and> reference_reasons index = []")
    case True
    then have "validated ?rows ([], index)" using val by simp
    note cyc = index_has_cycle_iff [OF this conjunct2 [OF True]] and refs = reference_reasons_iff [OF this]
    have "fst (frontier_validate snapshot limits) =
        when_reason (index_has_cycle index vt_start) CYCLIC_DEPENDENCY @
        when_reason (index_has_cycle index vt_integrate) CYCLIC_INTEGRATION_PREREQUISITE"
      using True by (simp add: frontier_validate_def fold Let_def del: foldl_Cons foldl_Nil)
    then show ?thesis
      using True start silent refs cyc by (simp add: snapshot_sound_def Let_def)
  next
    case False
    then have "fst (frontier_validate snapshot limits) \<noteq> []"
      by (auto simp: frontier_validate_def fold Let_def)
    moreover have "\<not> snapshot_sound snapshot limits"
    proof
      assume sound: "snapshot_sound snapshot limits"
      then have "reasons = []" using silent start by (simp add: snapshot_sound_def Let_def)
      moreover from this have "reference_reasons index = []"
        using reference_reasons_iff [of ?rows index] val sound by (simp add: snapshot_sound_def Let_def)
      ultimately show False using False by simp
    qed
    ultimately show ?thesis by simp
  qed
qed

lemma frontier_validate_index:
  assumes "frontier_validate snapshot limits = ([], index)"
  shows "validated (snapshot_rows (fs_projects snapshot)) ([], index)" "reference_reasons index = []"
proof -
  obtain reasons index' where fold:
      "foldl validate_project (snapshot_reasons snapshot limits, []) (fs_projects snapshot) = (reasons, index')"
    and val: "validated (snapshot_rows (fs_projects snapshot)) (reasons, index')" by (rule frontier_validate_start)
  have "reasons = [] \<and> reference_reasons index' = [] \<and> index' = index"
    using assms by (auto simp: frontier_validate_def fold Let_def split: if_splits)
  then show "validated (snapshot_rows (fs_projects snapshot)) ([], index)" "reference_reasons index = []"
    using val by auto
qed

end
