(* ===== verification/Ready_Projection.thy ===== *)
theory Ready_Projection
  imports Ready_Frontier_Laws
begin

text \<open>
  The two passes of the ready frontier: the invariant of the pass over the sorted rows
  (\<open>pass_inv\<close>), and what it says of a projection: every row once, eligible tasks may start together,
  the owner's maxima hold, and a task that could start is held only by capacity or by a writer that
  the result shows.
\<close>

section \<open>Reservations of running writers\<close>

lemma reserve_scopes_apply:
  "reserve_scopes reserved row p = reserved p @ (if vt_project_id row = p then [vt_owns row] else [])"
  by (simp add: reserve_scopes_def)

lemma foldl_reserve:
  "foldl reserve_scopes reserved rows p = reserved p @ map vt_owns (filter (\<lambda>r. vt_project_id r = p) rows)"
  by (induction rows arbitrary: reserved) (auto simp: reserve_scopes_apply)

lemma reserve_running_apply:
  "reserve_running rows p = map vt_owns (filter (\<lambda>r. running_writer r \<and> vt_project_id r = p) rows)"
  unfolding reserve_running_def foldl_reserve by (simp add: conj_commute)

section \<open>The invariant\<close>

definition may_start :: "frontier_index \<Rightarrow> validated_task \<Rightarrow> bool" where
  "may_start index row \<longleftrightarrow> status_hold row = None \<and> dependency_hold row index = None"

definition eligible_scopes :: "pass_state \<Rightarrow> string \<Rightarrow> string list list" where
  "eligible_scopes st p = map et_owns (filter (\<lambda>e. et_project_id e = p \<and> et_owns e \<noteq> []) (ps_eligible st))"

definition books_ok :: "frontier_limits \<Rightarrow> validated_task list \<Rightarrow> pass_state \<Rightarrow> bool" where
  \<comment> \<open>the counters and reservations are those of the eligible list\<close>
  "books_ok limits rows st \<longleftrightarrow>
     tally et_project_id (fl_active_projects limits) (fl_child_slots limits)
       (ps_projects st) (ps_counts st) (ps_eligible st) \<and>
     (\<forall>p. ps_reserved st p = reserve_running rows p @ eligible_scopes st p)"

definition disjoint_tasks :: "eligible_task \<Rightarrow> eligible_task \<Rightarrow> bool" where
  "disjoint_tasks e f \<longleftrightarrow> (et_project_id e = et_project_id f \<longrightarrow> \<not> scopes_overlap (et_owns e) (et_owns f))"

definition writers_exclusive :: "validated_task list \<Rightarrow> pass_state \<Rightarrow> bool" where
  "writers_exclusive rows st \<longleftrightarrow> sorted_wrt disjoint_tasks (ps_eligible st) \<and>
     (\<forall>e \<in> set (ps_eligible st). \<forall>r \<in> set rows.
        running_writer r \<and> vt_project_id r = et_project_id e \<longrightarrow> \<not> scopes_overlap (et_owns e) (vt_owns r))"

definition hold_justified ::
  "frontier_index \<Rightarrow> frontier_limits \<Rightarrow> pass_state \<Rightarrow> validated_task \<times> frontier_reason list \<Rightarrow> bool" where
  "hold_justified index limits st h \<longleftrightarrow> (case h of (row, reasons) \<Rightarrow>
     (\<exists>r. status_hold row = Some r \<and> reasons = [r]) \<or>
     (\<exists>r. status_hold row = None \<and> dependency_hold row index = Some r \<and> reasons = [r]) \<or>
     may_start index row \<and> reasons \<noteq> [] \<and> set reasons \<subseteq> {CAPACITY_WAIT, WRITE_SCOPE_CONFLICT} \<and>
       (CAPACITY_WAIT \<in> set reasons \<longrightarrow> at_capacity limits st row) \<and>
       (WRITE_SCOPE_CONFLICT \<in> set reasons \<longrightarrow> scope_taken st row))"

definition pass_inv ::
  "frontier_index \<Rightarrow> frontier_limits \<Rightarrow> validated_task list \<Rightarrow> validated_task list \<Rightarrow> pass_state \<Rightarrow> bool" where
  "pass_inv index limits rows seen st \<longleftrightarrow>
     mset (map et_ref (ps_eligible st)) + mset (map (vt_ref \<circ> fst) (ps_held st)) = mset (map vt_ref seen) \<and>
     set (ps_eligible st) \<subseteq> eligible_of_row ` {row \<in> set seen. may_start index row} \<and>
     fst ` set (ps_held st) \<subseteq> set seen \<and>
     books_ok limits rows st \<and> writers_exclusive rows st \<and>
     (\<forall>h \<in> set (ps_held st). hold_justified index limits st h)"

lemma et_fields [simp]:
  "et_ref (eligible_of_row row) = vt_ref row" "et_project_id (eligible_of_row row) = vt_project_id row"
  "et_owns (eligible_of_row row) = vt_owns row"
  by (simp_all add: et_ref_def vt_ref_def eligible_of_row_def)

lemma hold_row_fields [simp]:
  "ps_eligible (hold_row st row rs) = ps_eligible st" "ps_held (hold_row st row rs) = ps_held st @ [(row, rs)]"
  "ps_projects (hold_row st row rs) = ps_projects st" "ps_counts (hold_row st row rs) = ps_counts st"
  "ps_reserved (hold_row st row rs) = ps_reserved st"
  by (simp_all add: hold_row_def)

lemma hold_row_same [simp]:
  "at_capacity limits (hold_row st row rs) r = at_capacity limits st r"
  "scope_taken (hold_row st row rs) r = scope_taken st r"
  "hold_justified index limits (hold_row st row rs) h = hold_justified index limits st h"
  "books_ok limits rows (hold_row st row rs) = books_ok limits rows st"
  "writers_exclusive rows (hold_row st row rs) = writers_exclusive rows st"
  by (simp_all add: at_capacity_def scope_taken_def hold_justified_def books_ok_def writers_exclusive_def
      eligible_scopes_def split: prod.splits)

lemma accept_row_fields [simp]:
  "ps_eligible (accept_row st row) = ps_eligible st @ [eligible_of_row row]" "ps_held (accept_row st row) = ps_held st"
  "ps_projects (accept_row st row) =
     (if vt_project_id row \<in> set (ps_projects st) then ps_projects st else ps_projects st @ [vt_project_id row])"
  "ps_counts (accept_row st row) = (ps_counts st)(vt_project_id row := ps_counts st (vt_project_id row) + 1)"
  "ps_reserved (accept_row st row) p =
     ps_reserved st p @ (if vt_project_id row = p \<and> vt_owns row \<noteq> [] then [vt_owns row] else [])"
  by (simp_all add: accept_row_def Let_def reserve_scopes_apply)

lemma at_capacity_accept:
  assumes "\<not> at_capacity limits st row" "at_capacity limits st r"
  shows "at_capacity limits (accept_row st row) r"
  using assms by (auto simp: at_capacity_def Let_def)

lemma scope_taken_accept: "scope_taken st r \<Longrightarrow> scope_taken (accept_row st row) r"
  by (simp add: scope_taken_def)

lemma hold_justified_accept:
  "\<not> at_capacity limits st row \<Longrightarrow> hold_justified index limits st h \<Longrightarrow>
   hold_justified index limits (accept_row st row) h"
  unfolding hold_justified_def using at_capacity_accept [of limits st row] scope_taken_accept [of st]
  by (auto split: prod.splits)

lemma books_ok_accept:
  assumes "books_ok limits rows st" "\<not> at_capacity limits st row"
  shows "books_ok limits rows (accept_row st row)"
proof -
  let ?st = "accept_row st row"
  have "tally et_project_id (fl_active_projects limits) (fl_child_slots limits)
      (ps_projects ?st) (ps_counts ?st) (ps_eligible ?st)"
    using tally_add [of et_project_id _ _ _ _ _ "eligible_of_row row"] assms
    unfolding books_ok_def at_capacity_def Let_def accept_row_fields et_fields by (metis not_le)
  moreover have "ps_reserved ?st p = reserve_running rows p @ eligible_scopes ?st p" for p
    using assms(1) by (simp add: books_ok_def eligible_scopes_def)
  ultimately show ?thesis unfolding books_ok_def by blast
qed

lemma writers_exclusive_accept:
  assumes "books_ok limits rows st" "writers_exclusive rows st" "\<not> scope_taken st row"
  shows "writers_exclusive rows (accept_row st row)"
proof -
  let ?p = "vt_project_id row"
  have free: "\<not> scopes_overlap (vt_owns row) s" if "s \<in> set (ps_reserved st ?p)" for s
    using assms(3) that by (auto simp: scope_taken_def list_ex_iff)
  have reserved: "ps_reserved st ?p = reserve_running rows ?p @ eligible_scopes st ?p"
    using assms(1) by (simp add: books_ok_def)
  have "disjoint_tasks e (eligible_of_row row)" if "e \<in> set (ps_eligible st)" for e
  proof (cases "et_project_id e = ?p \<and> et_owns e \<noteq> []")
    case True
    then have "et_owns e \<in> set (ps_reserved st ?p)" using that by (auto simp: reserved eligible_scopes_def)
    then show ?thesis using free scopes_overlap_sym by (simp add: disjoint_tasks_def)
  qed (auto simp: disjoint_tasks_def)
  moreover have "\<not> scopes_overlap (vt_owns row) (vt_owns r)"
    if "r \<in> set rows" "running_writer r" "vt_project_id r = ?p" for r
    using free [of "vt_owns r"] that by (auto simp: reserved reserve_running_apply)
  ultimately show ?thesis using assms(2) by (auto simp: writers_exclusive_def sorted_wrt_append)
qed

lemma project_row_inv:
  assumes inv: "pass_inv index limits rows seen st"
  shows "pass_inv index limits rows (seen @ [row]) (project_row index limits st row)"
proof -
  have hold: "pass_inv index limits rows (seen @ [row]) (hold_row st row rs)"
    if "hold_justified index limits st (row, rs)" for rs
    using inv that by (auto simp: pass_inv_def)
  consider (self) r where "status_hold row = Some r"
    | (dep) r where "status_hold row = None" "dependency_hold row index = Some r"
    | (startable) "may_start index row"
    by (cases "status_hold row"; cases "dependency_hold row index") (auto simp: may_start_def)
  then show ?thesis
  proof cases
    case self
    then show ?thesis using hold by (simp add: project_row_def hold_justified_def)
  next
    case dep
    then show ?thesis using hold by (simp add: project_row_def hold_justified_def)
  next
    case startable
    let ?rs = "when_reason (at_capacity limits st row) CAPACITY_WAIT @
        when_reason (scope_taken st row) WRITE_SCOPE_CONFLICT"
    have step: "project_row index limits st row = (if ?rs \<noteq> [] then hold_row st row ?rs else accept_row st row)"
      using startable by (simp add: project_row_def may_start_def)
    show ?thesis
    proof (cases "?rs = []")
      case False
      have "hold_justified index limits st (row, ?rs)"
        using startable False by (auto simp: hold_justified_def split: if_splits)
      then show ?thesis using hold False unfolding step by simp
    next
      case True
      then have free: "\<not> at_capacity limits st row" "\<not> scope_taken st row" by auto
      have "pass_inv index limits rows (seen @ [row]) (accept_row st row)"
        using inv startable books_ok_accept [OF _ free(1)] writers_exclusive_accept [OF _ _ free(2)]
          hold_justified_accept [OF free(1)]
        by (auto simp: pass_inv_def)
      then show ?thesis using True unfolding step by simp
    qed
  qed
qed

lemma run_passes_inv:
  assumes "0 \<le> fl_active_projects limits" "0 \<le> fl_child_slots limits"
  shows "pass_inv index limits (sorted_rows index) (sorted_rows index) (run_passes index limits)"
proof -
  let ?rows = "sorted_rows index"
  have "pass_inv index limits ?rows [] (pass_start ?rows)"
    using assms by (simp add: pass_inv_def pass_start_def books_ok_def tally_Nil writers_exclusive_def eligible_scopes_def)
  then show ?thesis
    unfolding run_passes_def Let_def
    by (rule foldl_prefix_invariant [where I = "\<lambda>ys st. pass_inv index limits ?rows ys st"])
       (rule project_row_inv)
qed

section \<open>What a projection says\<close>

lemma projected_cases:
  assumes "fp_status (project_ready_frontier snapshot limits) = PROJECTED"
  obtains index where
    "validated (snapshot_rows (fs_projects snapshot)) ([], index)" "reference_reasons index = []"
    "pass_inv index limits (sorted_rows index) (sorted_rows index) (run_passes index limits)"
    "fp_eligible (project_ready_frontier snapshot limits) = ps_eligible (run_passes index limits)"
    "fp_held (project_ready_frontier snapshot limits) = map held_of_row (ps_held (run_passes index limits))"
proof -
  obtain reasons index where val: "frontier_validate snapshot limits = (reasons, index)" by fastforce
  then have none: "reasons = []"
    using assms by (auto simp: project_ready_frontier_def frontier_denied_def split: if_splits)
  then have "fst (frontier_validate snapshot limits) = []" using val by simp
  then have "snapshot_sound snapshot limits" by (simp add: frontier_validate_iff)
  then have "0 \<le> fl_active_projects limits" "0 \<le> fl_child_slots limits"
    by (auto simp: snapshot_sound_def Let_def)
  note pass = run_passes_inv [OF this, of index]
  show ?thesis
    by (rule that [OF frontier_validate_index [OF val [unfolded none]] pass])
       (simp_all add: project_ready_frontier_def val none frontier_project_def Let_def)
qed

text \<open>C7: The frontier fails closed exactly: a snapshot is projected if and only if it comes complete from the
  owner database with positive limits, every project and task has an identity, a known kind and
  status and safe scopes, records with one identity agree, every dependency and prerequisite names a
  task of the snapshot, and neither kind of edge has a cycle.  A denied projection reports no task
  and claims no authority.\<close>

theorem frontier_fails_closed:
  "(fp_status (project_ready_frontier snapshot limits) = PROJECTED \<longleftrightarrow> snapshot_sound snapshot limits) \<and>
   (fp_status (project_ready_frontier snapshot limits) = PROJECTED \<or>
    fp_eligible (project_ready_frontier snapshot limits) = [] \<and>
    fp_held (project_ready_frontier snapshot limits) = [] \<and>
    fp_counts_authoritative (project_ready_frontier snapshot limits) = False)"
proof -
  obtain reasons index where val: "frontier_validate snapshot limits = (reasons, index)" by fastforce
  then have sound: "snapshot_sound snapshot limits \<longleftrightarrow> reasons = []"
    using frontier_validate_iff [of snapshot limits] by simp
  show ?thesis
  proof (cases "reasons = []")
    case True
    then show ?thesis using sound by (simp add: project_ready_frontier_def val split: prod.splits)
  next
    case False
    then show ?thesis using sound by (simp add: project_ready_frontier_def val frontier_denied_def)
  qed
qed

lemma held_ref [simp]: "ht_ref (held_of_row h) = vt_ref (fst h)"
  by (simp add: held_of_row_def ht_ref_def vt_ref_def split: prod.splits)

lemma held_refs [simp]: "ht_ref \<circ> held_of_row = vt_ref \<circ> fst"
  by (simp add: fun_eq_iff)

lemma mset_sorted_rows:
  assumes "index_wf index"
  shows "mset (map vt_ref (sorted_rows index)) = mset_set (fst ` set index)"
proof -
  have "vt_ref (snd x) = fst x" if "x \<in> set index" for x
    using index_key [OF assms, of "fst x" "snd x"] that by simp
  then have keys: "map (\<lambda>x. vt_ref (snd x)) index = map fst index" by simp
  have "mset (map vt_ref (sorted_rows index)) = mset (map (\<lambda>x. vt_ref (snd x)) index)"
    by (simp add: sorted_rows_def image_mset.compositionality comp_def)
  then have "mset (map vt_ref (sorted_rows index)) = mset (map fst index)" unfolding keys .
  then show ?thesis
    using assms mset_set_set [of "map fst index"] by (simp add: index_wf_def)
qed

text \<open>C37: A projection loses no task and reports none twice: the eligible and the held tasks together are,
  counted with multiplicity, the identities of the snapshot.\<close>

theorem frontier_reports_each_task_once:
  assumes "fp_status (project_ready_frontier snapshot limits) = PROJECTED"
  shows "mset (map et_ref (fp_eligible (project_ready_frontier snapshot limits)) @
               map ht_ref (fp_held (project_ready_frontier snapshot limits))) =
         mset_set (row_ref ` set (snapshot_rows (fs_projects snapshot)))"
  using assms
proof (rule projected_cases)
  fix index
  let ?st = "run_passes index limits"
  assume val: "validated (snapshot_rows (fs_projects snapshot)) ([], index)"
    and inv: "pass_inv index limits (sorted_rows index) (sorted_rows index) ?st"
    and out: "fp_eligible (project_ready_frontier snapshot limits) = ps_eligible ?st"
      "fp_held (project_ready_frontier snapshot limits) = map held_of_row (ps_held ?st)"
  have wf: "index_wf index" using val by (simp add: validated_def)
  have "map ht_ref (map held_of_row (ps_held ?st)) = map (vt_ref \<circ> fst) (ps_held ?st)"
    by (simp add: comp_def)
  then have "mset (map et_ref (ps_eligible ?st) @ map ht_ref (map held_of_row (ps_held ?st))) =
      mset (map vt_ref (sorted_rows index))"
    using inv unfolding pass_inv_def mset_append by simp
  then show ?thesis
    unfolding out mset_sorted_rows [OF wf] validated_keys [OF val] .
qed

lemma status_hold_none:
  "status_hold row = None \<longleftrightarrow> vt_kind row = ''child_task'' \<and> vt_status row \<in> set STARTABLE_STATUSES"
  by (simp add: status_hold_def)

lemma dependency_hold_none:
  "dependency_hold row index = None \<longleftrightarrow>
   (\<forall>d \<in> set (vt_start row). vt_status (the (dict_get index d)) = ''completed'')"
  by (auto simp: dependency_hold_def Let_def filter_empty_conv list_ex_iff INCAPACITATED_STATUSES_def)

definition deps_completed :: "(string \<times> plan_task) list \<Rightarrow> plan_task \<Rightarrow> bool" where
  "deps_completed rows t \<longleftrightarrow> (\<forall>d \<in> set (pt_start t). \<exists>(q, u) \<in> set rows.
     row_ref (q, u) = d \<and> py_normalized (pt_status u) = ''completed'')"

definition startable :: "(string \<times> plan_task) list \<Rightarrow> plan_task \<Rightarrow> bool" where
  "startable rows t \<longleftrightarrow> py_normalized (pt_kind t) = ''child_task'' \<and>
     py_normalized (pt_status t) \<in> {''pending'', ''ready''} \<and> deps_completed rows t"

lemma may_start_iff:
  assumes "validated rows ([], index)" "reference_reasons index = []" "(p, t) \<in> set rows"
  shows "may_start index (validated_row p t) \<longleftrightarrow> startable rows t"
proof -
  have wf: "index_wf index" and img: "snd ` set index = (\<lambda>(p, t). validated_row p t) ` set rows"
    using assms(1) by (simp_all add: validated_def)
  have dep: "vt_status (the (dict_get index d)) = s \<longleftrightarrow>
      (\<exists>(q, u) \<in> set rows. row_ref (q, u) = d \<and> py_normalized (pt_status u) = s)" if "d \<in> set (pt_start t)" for d s
  proof -
    have known: "d \<in> row_ref ` set rows" using reference_reasons_iff [OF assms(1)] assms(2,3) that by force
    then obtain row where row: "dict_get index d = Some row"
      using validated_keys [OF assms(1)] by (metis dict_get_map_of not_None_eq map_of_eq_None_iff)
    have at_d: "validated_row q u = row" if "(q, u) \<in> set rows" "row_ref (q, u) = d" for q u
    proof -
      have "validated_row q u \<in> snd ` set index" using that(1) img by force
      then obtain k where k: "(k, validated_row q u) \<in> set index" by auto
      have "k = d" using index_key [OF wf k] that(2) by (simp add: row_ref_def)
      then show ?thesis using index_lookup [OF wf k] row by simp
    qed
    have status: "vt_status (validated_row q u) = py_normalized (pt_status u)" for q u
      by (simp add: validated_row_def)
    have "vt_status row = s \<longleftrightarrow> (\<exists>(q, u) \<in> set rows. row_ref (q, u) = d \<and> py_normalized (pt_status u) = s)"
    proof
      assume s: "vt_status row = s"
      obtain q u where qu: "(q, u) \<in> set rows" "row_ref (q, u) = d" using known by auto
      then have "py_normalized (pt_status u) = s" using at_d [OF qu] s status by metis
      then show "\<exists>(q, u) \<in> set rows. row_ref (q, u) = d \<and> py_normalized (pt_status u) = s" using qu by blast
    next
      assume "\<exists>(q, u) \<in> set rows. row_ref (q, u) = d \<and> py_normalized (pt_status u) = s"
      then obtain q u where qu: "(q, u) \<in> set rows" "row_ref (q, u) = d" "py_normalized (pt_status u) = s" by blast
      then show "vt_status row = s" using at_d [OF qu(1,2)] status by metis
    qed
    then show ?thesis by (simp add: row)
  qed
  have raw: "vt_start (validated_row p t) = pt_start t" "vt_kind (validated_row p t) = py_normalized (pt_kind t)"
    "vt_status (validated_row p t) = py_normalized (pt_status t)" by (simp_all add: validated_row_def)
  show ?thesis
    unfolding may_start_def status_hold_none dependency_hold_none startable_def deps_completed_def raw
    using dep by (simp add: STARTABLE_STATUSES_def)
qed

lemma validated_rowE:
  assumes "validated rows ([], index)" "row \<in> snd ` set index"
  obtains p t where "(p, t) \<in> set rows" "row = validated_row p t"
proof -
  have "row \<in> (\<lambda>(p, t). validated_row p t) ` set rows" using assms by (simp add: validated_def)
  then show ?thesis using that by auto
qed

lemma validated_rowI: "validated rows ([], index) \<Longrightarrow> (p, t) \<in> set rows \<Longrightarrow> validated_row p t \<in> snd ` set index"
  unfolding validated_def by force

text \<open>C8: An eligible task may really start: it is a child task of the snapshot that is pending or ready,
  with the canonical scopes it declares, and every task it has a START dependency on is completed in
  the snapshot.\<close>

theorem eligible_tasks_may_start:
  assumes "fp_status (project_ready_frontier snapshot limits) = PROJECTED"
    and "e \<in> set (fp_eligible (project_ready_frontier snapshot limits))"
  shows "\<exists>(p, t) \<in> set (snapshot_rows (fs_projects snapshot)).
    et_ref e = row_ref (p, t) \<and> et_owns e = fst (clean_scopes (pt_owns t)) \<and>
    startable (snapshot_rows (fs_projects snapshot)) t"
  using assms(1)
proof (rule projected_cases)
  fix index
  let ?rows = "snapshot_rows (fs_projects snapshot)"
  assume val: "validated ?rows ([], index)" and refs: "reference_reasons index = []"
    and inv: "pass_inv index limits (sorted_rows index) (sorted_rows index) (run_passes index limits)"
    and out: "fp_eligible (project_ready_frontier snapshot limits) = ps_eligible (run_passes index limits)"
  have "set (ps_eligible (run_passes index limits)) \<subseteq>
      eligible_of_row ` {row \<in> snd ` set index. may_start index row}"
    using inv by (simp add: pass_inv_def)
  then obtain row where row: "row \<in> snd ` set index" "may_start index row" "e = eligible_of_row row"
    using assms(2) unfolding out by blast
  obtain p t where pt: "(p, t) \<in> set ?rows" "row = validated_row p t"
    using row(1) by (rule validated_rowE [OF val])
  then have "startable ?rows t" using row(2) may_start_iff [OF val refs] by simp
  moreover have "et_ref e = row_ref (p, t)" "et_owns e = fst (clean_scopes (pt_owns t))"
    by (simp_all add: row(3) pt(2) row_ref_def) (simp add: validated_row_def)
  ultimately show ?thesis using pt(1) by blast
qed

text \<open>C9: Eligible tasks may run side by side: two eligible tasks of one project, and an eligible task and a
  running child task of its project, declare no scope that names a common path (one subtree scope
  declared by both is the exception the overlap test makes).\<close>

theorem eligible_tasks_share_no_scope:
  assumes "fp_status (project_ready_frontier snapshot limits) = PROJECTED"
  shows "sorted_wrt (\<lambda>e f. et_project_id e = et_project_id f \<longrightarrow> scopes_clear (et_owns e) (et_owns f))
           (fp_eligible (project_ready_frontier snapshot limits)) \<and>
         (\<forall>e \<in> set (fp_eligible (project_ready_frontier snapshot limits)).
            \<forall>(p, t) \<in> set (snapshot_rows (fs_projects snapshot)).
              p = et_project_id e \<and> py_normalized (pt_kind t) = ''child_task'' \<and>
              py_normalized (pt_status t) = ''running'' \<longrightarrow>
              scopes_clear (et_owns e) (fst (clean_scopes (pt_owns t))))"
  using assms
proof (rule projected_cases)
  fix index
  let ?st = "run_passes index limits"
  assume val: "validated (snapshot_rows (fs_projects snapshot)) ([], index)"
    and inv: "pass_inv index limits (sorted_rows index) (sorted_rows index) ?st"
    and out: "fp_eligible (project_ready_frontier snapshot limits) = ps_eligible ?st"
  have excl: "writers_exclusive (sorted_rows index) ?st" using inv by (simp add: pass_inv_def)
  have "scopes_clear (et_owns e) (fst (clean_scopes (pt_owns t)))"
    if "e \<in> set (ps_eligible ?st)" "(et_project_id e, t) \<in> set (snapshot_rows (fs_projects snapshot))"
      "py_normalized (pt_kind t) = ''child_task''" "py_normalized (pt_status t) = ''running''" for e t
  proof (cases "fst (clean_scopes (pt_owns t)) = []")
    case False
    let ?row = "validated_row (et_project_id e) t"
    have "?row \<in> set (sorted_rows index)" "running_writer ?row" "vt_project_id ?row = et_project_id e"
      using validated_rowI [OF val that(2)] that(3,4) False by (simp_all add: running_writer_def validated_row_def)
    then have "\<not> scopes_overlap (et_owns e) (vt_owns ?row)"
      using excl that(1) unfolding writers_exclusive_def by blast
    then show ?thesis by (simp add: no_overlap_iff validated_row_def)
  qed (simp add: scopes_clear_def)
  moreover have "sorted_wrt disjoint_tasks (ps_eligible ?st)" using excl by (simp add: writers_exclusive_def)
  ultimately show ?thesis unfolding out disjoint_tasks_def no_overlap_iff by blast
qed

text \<open>A projection stays inside the owner's maxima: the eligible tasks belong to at most as many projects
  as may be active, and no project has more of them than it has child slots.\<close>

theorem frontier_respects_limits:
  assumes "fp_status (project_ready_frontier snapshot limits) = PROJECTED"
  shows "int (card (et_project_id ` set (fp_eligible (project_ready_frontier snapshot limits))))
           \<le> fl_active_projects limits \<and>
         int (length (filter (\<lambda>e. et_project_id e = p) (fp_eligible (project_ready_frontier snapshot limits))))
           \<le> fl_child_slots limits"
  using assms
proof (rule projected_cases)
  fix index
  let ?st = "run_passes index limits"
  assume inv: "pass_inv index limits (sorted_rows index) (sorted_rows index) ?st"
    and out: "fp_eligible (project_ready_frontier snapshot limits) = ps_eligible ?st"
  have books: "books_ok limits (sorted_rows index) ?st" using inv by (simp add: pass_inv_def)
  then show ?thesis unfolding out books_ok_def using tally_bounds(1,2) by blast
qed

text \<open>Nothing that could start is left out without cause: a held task that is startable is held because
  the eligible tasks of its project use all its child slots, or the eligible projects use all active
  projects and its own is not among them, or because it overlaps a scope of an eligible task or of a
  running child task of its project.\<close>

theorem startable_tasks_are_held_for_cause:
  assumes "fp_status (project_ready_frontier snapshot limits) = PROJECTED"
    and "(p, t) \<in> set (snapshot_rows (fs_projects snapshot))" "startable (snapshot_rows (fs_projects snapshot)) t"
    and "h \<in> set (fp_held (project_ready_frontier snapshot limits))" "ht_ref h = row_ref (p, t)"
  shows "(let E = fp_eligible (project_ready_frontier snapshot limits) in
     int (length (filter (\<lambda>e. et_project_id e = p) E)) = fl_child_slots limits \<or>
     p \<notin> et_project_id ` set E \<and> int (card (et_project_id ` set E)) = fl_active_projects limits \<or>
     (\<exists>e \<in> set E. et_project_id e = p \<and> scopes_overlap (fst (clean_scopes (pt_owns t))) (et_owns e)) \<or>
     (\<exists>(q, u) \<in> set (snapshot_rows (fs_projects snapshot)). q = p \<and>
        py_normalized (pt_kind u) = ''child_task'' \<and> py_normalized (pt_status u) = ''running'' \<and>
        scopes_overlap (fst (clean_scopes (pt_owns t))) (fst (clean_scopes (pt_owns u)))))"
  using assms(1)
proof (rule projected_cases)
  fix index
  let ?st = "run_passes index limits" and ?rows = "snapshot_rows (fs_projects snapshot)"
  assume val: "validated ?rows ([], index)" and refs: "reference_reasons index = []"
    and inv: "pass_inv index limits (sorted_rows index) (sorted_rows index) ?st"
    and out: "fp_eligible (project_ready_frontier snapshot limits) = ps_eligible ?st"
      "fp_held (project_ready_frontier snapshot limits) = map held_of_row (ps_held ?st)"
  have books: "books_ok limits (sorted_rows index) ?st" using inv by (simp add: pass_inv_def)
  have wf: "index_wf index" using val by (simp add: validated_def)
  obtain row reasons where held: "(row, reasons) \<in> set (ps_held ?st)" "ht_ref h = vt_ref row"
    using assms(4) unfolding out by auto
  have "row \<in> snd ` set index" using inv held(1) by (force simp: pass_inv_def)
  then obtain q u where qu: "(q, u) \<in> set ?rows" "row = validated_row q u" by (rule validated_rowE [OF val])
  have "rows_agree ?rows" using rows_agree_validated [OF val] .
  then have row: "row = validated_row p t"
    using qu assms(2,5) held(2) unfolding rows_agree_def by (auto simp: row_ref_def)
  then have start: "may_start index row" using may_start_iff [OF val refs assms(2)] assms(3) by simp
  have "hold_justified index limits ?st (row, reasons)" using inv held(1) by (simp add: pass_inv_def)
  then have "at_capacity limits ?st row \<or> scope_taken ?st row"
    using start by (cases reasons) (auto simp: hold_justified_def may_start_def)
  moreover have proj: "vt_project_id row = p" "vt_owns row = fst (clean_scopes (pt_owns t))"
    by (simp_all add: row validated_row_def)
  moreover note tally = tally_bounds [OF conjunct1 [OF books [unfolded books_ok_def]]]
  ultimately consider (capacity) "at_capacity limits ?st row"
    | (eligible) e where "e \<in> set (ps_eligible ?st)" "et_project_id e = p" "scopes_overlap (vt_owns row) (et_owns e)"
    | (running) r where "r \<in> snd ` set index" "running_writer r" "vt_project_id r = p" "scopes_overlap (vt_owns row) (vt_owns r)"
    using books by (auto simp: scope_taken_def list_ex_iff books_ok_def reserve_running_apply eligible_scopes_def)
  then show ?thesis
  proof cases
    case capacity
    then have "p \<notin> et_project_id ` set (ps_eligible ?st) \<and>
        fl_active_projects limits \<le> int (card (et_project_id ` set (ps_eligible ?st))) \<or>
        fl_child_slots limits \<le> int (length (filter (\<lambda>e. et_project_id e = p) (ps_eligible ?st)))"
      unfolding at_capacity_def Let_def proj tally(3-5) .
    then show ?thesis
      using tally(1) tally(2) [of p] unfolding out Let_def by (metis order_antisym)
  next
    case eligible
    then show ?thesis unfolding out Let_def using proj by auto
  next
    case running
    obtain q u where qu: "(q, u) \<in> set ?rows" "r = validated_row q u"
      using running(1) by (rule validated_rowE [OF val])
    have "q = p" "py_normalized (pt_kind u) = ''child_task''" "py_normalized (pt_status u) = ''running''"
      "scopes_overlap (fst (clean_scopes (pt_owns t))) (fst (clean_scopes (pt_owns u)))"
      using running(2-4) by (simp_all add: qu(2) proj(2)) (simp_all add: validated_row_def running_writer_def)
    then show ?thesis unfolding Let_def using qu(1) by blast
  qed
qed

end
