(* ===== verification/Ready_Waves.thy ===== *)
theory Ready_Waves
  imports Ready_Frontier
begin

text \<open>
  The chained waves of \<open>ready_frontier.py\<close>: \<open>schedule_chained_waves\<close> places every schedulable child
  task of stored plans in a numbered wave, and the run report of one projection.

  \<^item> The recursion \<open>task_level\<close> of the code memoises; here it is \<open>task_level\<close> with fuel, \<open>None\<close> when
    the fuel does not suffice.  The fuel is the number of schedulable tasks plus one, which suffices
    on every acyclic graph.
  \<^item> The loop that cuts a layer into waves is \<open>layer_waves\<close>, \<open>None\<close> if it never ends (it ends when
    both maxima are positive); \<open>NeverReturns\<close> is not an exception but these two cases.
\<close>

datatype wave_schedule_error =
    InvalidWaveLimits
  | ProjectWithoutIdentity
  | TaskWithoutIdentity
  | UnknownTaskKind string string string
  | UnknownTaskStatus string string string
  | ConflictingWaveRow string string
  | UnknownDependency task_ref task_ref
  | StartCycle
  | NoWaveExecutes task_ref string
  | BlockedBehind task_ref task_ref string
  | NeverReturns

type_synonym wave_index = "(task_ref \<times> plan_task) list"

definition SATISFIED_STATUSES :: "string list" where
  "SATISFIED_STATUSES = map task_status_value [ST_COMPLETED, ST_SKIPPED]"

definition SCHEDULABLE_STATUSES :: "string list" where
  "SCHEDULABLE_STATUSES = map task_status_value [ST_PENDING, ST_READY, ST_RUNNING]"

record scheduled_task =
  sc_project_id :: string
  sc_task_id :: string
  sc_phase :: string
  sc_title :: string
  sc_running :: bool

record scheduled_wave =
  sw_index :: int
  sw_tasks :: "scheduled_task list"

definition sc_ref :: "scheduled_task \<Rightarrow> task_ref" where
  "sc_ref t = TaskRef (sc_project_id t) (sc_task_id t)"

section \<open>Reading the plans\<close>

definition wave_row :: "plan_task \<Rightarrow> plan_task" where
  "wave_row task =
     \<lparr>pt_task_id = py_strip (pt_task_id task), pt_phase = py_strip (pt_phase task),
      pt_status = py_normalized (pt_status task), pt_kind = py_normalized (pt_kind task),
      pt_title = py_strip (pt_title task), pt_display_step = None, pt_start = pt_start task,
      pt_integrate = pt_integrate task, pt_owns = pt_owns task\<rparr>"

definition wave_task :: "string \<Rightarrow> wave_index \<Rightarrow> plan_task \<Rightarrow> wave_schedule_error + wave_index" where
  "wave_task project index task =
     (let row = wave_row task; task_id = pt_task_id row; ref = TaskRef project task_id
      in if task_id = [] then Inl TaskWithoutIdentity
         else if pt_kind row \<noteq> task_kind_value CHILD_TASK then
           (if pt_kind row \<notin> set KIND_VALUES then Inl (UnknownTaskKind (pt_kind task) project task_id) else Inr index)
         else if pt_status row \<notin> set STATUS_VALUES then Inl (UnknownTaskStatus (pt_status task) project task_id)
         else case dict_get index ref of
                Some existing \<Rightarrow> if existing \<noteq> row then Inl (ConflictingWaveRow project task_id)
                                 else Inr (dict_set index ref row)
              | None \<Rightarrow> Inr (dict_set index ref row))"

fun wave_tasks :: "string \<Rightarrow> plan_task list \<Rightarrow> wave_index \<Rightarrow> wave_schedule_error + wave_index" where
  "wave_tasks project [] index = Inr index"
| "wave_tasks project (t # ts) index =
     (case wave_task project index t of Inl e \<Rightarrow> Inl e | Inr index' \<Rightarrow> wave_tasks project ts index')"

fun wave_plans :: "project_plan list \<Rightarrow> wave_index \<Rightarrow> wave_schedule_error + wave_index" where
  "wave_plans [] index = Inr index"
| "wave_plans (p # ps) index =
     (let project = py_strip (pp_project_id p)
      in if project = [] then Inl ProjectWithoutIdentity
         else case wave_tasks project (pp_tasks p) index of Inl e \<Rightarrow> Inl e | Inr index' \<Rightarrow> wave_plans ps index')"

definition wave_deps :: "wave_index \<Rightarrow> task_ref \<Rightarrow> task_ref list" where
  "wave_deps index ref = (case dict_get index ref of Some row \<Rightarrow> pt_start row | None \<Rightarrow> [])"

definition dep_pairs :: "wave_index \<Rightarrow> (task_ref \<times> task_ref) list" where
  \<comment> \<open>every START edge, rows in identity order\<close>
  "dep_pairs index = concat (map (\<lambda>(ref, row). map (Pair ref) (pt_start row)) (sort_key fst index))"

definition dangling :: "wave_index \<Rightarrow> task_ref \<times> task_ref \<Rightarrow> bool" where
  "dangling index edge = (\<not> ref_is_valid (snd edge) \<or> dict_get index (snd edge) = None)"

fun schedulable_rows :: "wave_index \<Rightarrow> wave_schedule_error + wave_index" where
  "schedulable_rows [] = Inr []"
| "schedulable_rows ((ref, row) # index) =
     (if pt_status row \<in> set SATISFIED_STATUSES then schedulable_rows index
      else if pt_status row \<notin> set SCHEDULABLE_STATUSES then Inl (NoWaveExecutes ref (pt_status row))
      else case schedulable_rows index of Inl e \<Rightarrow> Inl e | Inr rows \<Rightarrow> Inr ((ref, row) # rows))"

definition behind_blocker :: "wave_index \<Rightarrow> wave_index \<Rightarrow> task_ref \<times> task_ref \<Rightarrow> bool" where
  "behind_blocker index schedulable edge =
     (pt_status (the (dict_get index (snd edge))) \<notin> set SATISFIED_STATUSES \<and> dict_get schedulable (snd edge) = None)"

definition read_plans :: "project_plan list \<Rightarrow> wave_schedule_error + wave_index \<times> wave_index" where
  \<comment> \<open>all validation: the index and its schedulable rows\<close>
  "read_plans projects =
     (case wave_plans projects [] of
        Inl e \<Rightarrow> Inl e
      | Inr index \<Rightarrow>
          (case find (dangling index) (dep_pairs index) of
             Some (ref, dep) \<Rightarrow> Inl (UnknownDependency ref dep)
           | None \<Rightarrow>
               if has_cycle (map fst index) (wave_deps index) then Inl StartCycle
               else case schedulable_rows index of
                      Inl e \<Rightarrow> Inl e
                    | Inr schedulable \<Rightarrow>
                        (case find (behind_blocker index schedulable) (dep_pairs schedulable) of
                           Some (ref, dep) \<Rightarrow> Inl (BlockedBehind ref dep (pt_status (the (dict_get index dep))))
                         | None \<Rightarrow> Inr (index, schedulable))))"

section \<open>Layers\<close>

definition open_deps :: "wave_index \<Rightarrow> task_ref \<Rightarrow> task_ref list" where
  "open_deps schedulable ref = filter (\<lambda>d. dict_get schedulable d \<noteq> None) (wave_deps schedulable ref)"

definition next_level :: "nat list \<Rightarrow> nat" where
  "next_level levels = (if levels = [] then 0 else Max (set levels) + 1)"

fun task_level :: "nat \<Rightarrow> wave_index \<Rightarrow> task_ref \<Rightarrow> nat option" where
  "task_level 0 schedulable ref = None"
| "task_level (Suc n) schedulable ref =
     map_option next_level (those (map (task_level n schedulable) (open_deps schedulable ref)))"

definition levels_of :: "wave_index \<Rightarrow> (task_ref \<times> nat) list option" where
  "levels_of schedulable =
     those (map (\<lambda>ref. map_option (Pair ref) (task_level (Suc (length schedulable)) schedulable ref))
       (sort (map fst schedulable)))"

fun next_chunk :: "frontier_limits \<Rightarrow> task_ref list \<Rightarrow> string list \<Rightarrow> (string \<Rightarrow> int) \<Rightarrow> task_ref list \<Rightarrow>
    task_ref list \<times> task_ref list" where
  "next_chunk limits [] projects counts chunk = (chunk, [])"
| "next_chunk limits (r # rs) projects counts chunk =
     (let p = ref_project r
      in if fl_child_slots limits \<le> counts p \<or>
            p \<notin> set projects \<and> fl_active_projects limits \<le> int (length projects)
         then (chunk, r # rs)
         else next_chunk limits rs (if p \<in> set projects then projects else projects @ [p])
                (counts(p := counts p + 1)) (chunk @ [r]))"

partial_function (option) layer_waves :: "frontier_limits \<Rightarrow> task_ref list \<Rightarrow> task_ref list list option" where
  "layer_waves limits pending =
     (if pending = [] then Some []
      else case next_chunk limits pending [] (\<lambda>_. 0) [] of
             (chunk, rest) \<Rightarrow> Option.bind (layer_waves limits rest) (\<lambda>waves. Some (chunk # waves)))"

declare layer_waves.simps [code]

definition is_running :: "wave_index \<Rightarrow> task_ref \<Rightarrow> bool" where
  "is_running schedulable ref =
     (case dict_get schedulable ref of Some row \<Rightarrow> pt_status row = task_status_value ST_RUNNING | None \<Rightarrow> False)"

definition pending_at :: "wave_index \<Rightarrow> (task_ref \<times> nat) list \<Rightarrow> nat \<Rightarrow> task_ref list" where
  "pending_at schedulable levels depth =
     filter (\<lambda>r. \<not> is_running schedulable r) (sort (map fst (filter (\<lambda>(r, l). l = depth) levels)))"

definition scheduled_of :: "wave_index \<Rightarrow> bool \<Rightarrow> task_ref \<Rightarrow> scheduled_task" where
  "scheduled_of schedulable running ref =
     (let row = the (dict_get schedulable ref)
      in \<lparr>sc_project_id = ref_project ref, sc_task_id = ref_task ref, sc_phase = pt_phase row,
          sc_title = pt_title row, sc_running = running\<rparr>)"

fun number_waves :: "int \<Rightarrow> scheduled_task list list \<Rightarrow> scheduled_wave list" where
  \<comment> \<open>\<open>index=len(waves)\<close> at each append\<close>
  "number_waves i [] = []"
| "number_waves i (w # ws) = \<lparr>sw_index = i, sw_tasks = w\<rparr> # number_waves (i + 1) ws"

definition wave_groups :: "frontier_limits \<Rightarrow> wave_index \<Rightarrow> (bool \<times> task_ref list) list option" where
  \<comment> \<open>the running wave, if any, and the waves of each layer\<close>
  "wave_groups limits schedulable =
     (case levels_of schedulable of
        None \<Rightarrow> None
      | Some levels \<Rightarrow>
          (let running = sort (filter (is_running schedulable) (map fst schedulable));
               depths = sort (remdups (map snd levels))
           in case those (map (\<lambda>d. layer_waves limits (pending_at schedulable levels d)) depths) of
                None \<Rightarrow> None
              | Some layers \<Rightarrow>
                  Some ((if running \<noteq> [] then [(True, running)] else []) @ map (Pair False) (concat layers))))"

definition schedule_chained_waves ::
  "project_plan list \<Rightarrow> frontier_limits \<Rightarrow> wave_schedule_error + scheduled_wave list" where
  "schedule_chained_waves projects limits =
     (if fl_active_projects limits < 1 \<or> fl_child_slots limits < 1 then Inl InvalidWaveLimits
      else case read_plans projects of
             Inl e \<Rightarrow> Inl e
           | Inr (index, schedulable) \<Rightarrow>
               (case wave_groups limits schedulable of
                  None \<Rightarrow> Inl NeverReturns
                | Some groups \<Rightarrow>
                    Inr (number_waves 0 (map (\<lambda>(running, refs). map (scheduled_of schedulable running) refs) groups))))"

section \<open>The run report\<close>

record held_summary =
  hs_project_id :: string
  hs_task_id :: string
  hs_status :: string
  hs_reason_codes :: "string list"

record plan_run_report =
  rr_plan_version :: string
  rr_project_ids :: "string list"
  rr_generated_at :: string
  rr_status :: string
  rr_eligible :: "task_ref list"
  rr_running :: "task_ref list"
  rr_held :: "held_summary list"
  rr_wave_count :: int
  rr_active_projects_limit :: int
  rr_child_slots_limit :: int
  rr_detail :: string

definition held_summary_of :: "held_task \<Rightarrow> held_summary" where
  "held_summary_of t = \<lparr>hs_project_id = ht_project_id t, hs_task_id = ht_task_id t, hs_status = ht_status t,
     hs_reason_codes = map frontier_reason_value (ht_reasons t)\<rparr>"

fun join_comma :: "string list \<Rightarrow> string" where
  "join_comma [] = []"
| "join_comma [s] = s"
| "join_comma (s # t # ss) = s @ '', '' @ join_comma (t # ss)"

definition build_plan_run_report :: "frontier_projection \<Rightarrow> string \<Rightarrow> string \<Rightarrow> int \<Rightarrow> plan_run_report" where
  "build_plan_run_report projection plan_version generated_at wave_count =
     (let version = (if py_strip plan_version = [] then ''unknown'' else py_strip plan_version);
          running = filter (\<lambda>t. TASK_RUNNING \<in> set (ht_reasons t)) (fp_held projection);
          held = filter (\<lambda>t. TASK_RUNNING \<notin> set (ht_reasons t)) (fp_held projection);
          denied = fp_status projection \<noteq> PROJECTED
      in \<lparr>rr_plan_version = version, rr_project_ids = fp_project_order projection,
          rr_generated_at = generated_at, rr_status = projection_status_value (fp_status projection),
          rr_eligible = (if denied then [] else map et_ref (fp_eligible projection)),
          rr_running = (if denied then [] else map ht_ref running),
          rr_held = (if denied then [] else map held_summary_of held),
          rr_wave_count = wave_count,
          rr_active_projects_limit = fl_active_projects (fp_limits projection),
          rr_child_slots_limit = fl_child_slots (fp_limits projection),
          rr_detail =
            (if denied then ''denied: '' @ join_comma (map frontier_reason_value (fp_reasons projection))
             else ''projected: '' @ int_text (int (length (fp_eligible projection))) @ '' eligible, '' @
               int_text (int (length running)) @ '' running, '' @ int_text (int (length held)) @
               '' held (plan '' @ version @ '', '' @ int_text wave_count @ '' waves)'')\<rparr>)"

definition ref_json :: "task_ref \<Rightarrow> json" where
  "ref_json r = JObj [(''project_id'', JStr (ref_project r)), (''task_id'', JStr (ref_task r))]"

definition report_json :: "plan_run_report \<Rightarrow> (string \<times> json) list" where
  \<comment> \<open>\<open>to_dict\<close>\<close>
  "report_json r =
     [(''plan_version'', JStr (rr_plan_version r)), (''project_ids'', JList (map JStr (rr_project_ids r))),
      (''generated_at'', JStr (rr_generated_at r)), (''status'', JStr (rr_status r)),
      (''eligible'', JList (map ref_json (rr_eligible r))), (''running'', JList (map ref_json (rr_running r))),
      (''held'', JList (map (\<lambda>i. JObj [(''project_id'', JStr (hs_project_id i)), (''task_id'', JStr (hs_task_id i)),
         (''status'', JStr (hs_status i)), (''reason_codes'', JList (map JStr (hs_reason_codes i)))]) (rr_held r))),
      (''wave_count'', JInt (rr_wave_count r)),
      (''limits'', JObj [(''active_projects'', JInt (rr_active_projects_limit r)),
         (''child_slots_per_project'', JInt (rr_child_slots_limit r))]),
      (''detail'', JStr (rr_detail r))]"

end
