(* ===== verification/Ready_Waves_Laws.thy ===== *)
theory Ready_Waves_Laws
  imports Ready_Waves Ready_Projection
begin

text \<open>
  The chained waves: the scheduler returns for every input, its waves hold every schedulable task
  once, start no task before its START dependencies, and keep the owner's maxima in every wave
  that is not the report of running work.  The run report repeats a projection exactly.
\<close>

section \<open>Orders of acyclic graphs\<close>

lemma acyclic_order:
  fixes nodes :: "'a::linorder list"
  assumes "graph_closed nodes deps" "acyclic (dep_edges nodes deps)"
  obtains ys where "distinct ys" "deps_first deps ys" "set ys = set nodes"
proof -
  obtain indegree ordered where run: "kahn nodes deps = Some (indegree, [], ordered)"
    using kahn_terminates [OF assms(1)] by metis
  then show ?thesis using kahn_complete [OF assms(1) run] assms(2) that by blast
qed

section \<open>Levels\<close>

lemma task_level_mono: "task_level n s r = Some l \<Longrightarrow> n \<le> m \<Longrightarrow> task_level m s r = Some l"
proof (induction n arbitrary: m r l)
  case (Suc n)
  obtain m' where m: "m = Suc m'" "n \<le> m'" using Suc.prems(2) by (cases m) auto
  obtain ls where ls: "those (map (task_level n s) (open_deps s r)) = Some ls" "l = next_level ls"
    using Suc.prems(1) by auto
  have "those (map (task_level m' s) (open_deps s r)) = Some ls"
    by (rule those_map_cong_Some [OF ls(1)]) (rule Suc.IH [OF _ m(2)])
  then show ?case by (simp add: m ls(2))
qed simp

lemma task_level_along:
  assumes "deps_first (open_deps s) ys" "i < length ys"
  shows "\<exists>l. task_level (Suc i) s (ys ! i) = Some l"
  using assms(2)
proof (induction i rule: less_induct)
  case (less i)
  have "\<exists>l. task_level i s d = Some l" if "d \<in> set (open_deps s (ys ! i))" for d
  proof -
    have "d \<in> set (take i ys)" using assms(1) less.prems that by (auto simp: deps_first_def)
    then obtain j where j: "j < i" "d = ys ! j" by (auto simp: in_set_conv_nth)
    then obtain l where "task_level (Suc j) s d = Some l" using less by fastforce
    then show ?thesis using j(1) task_level_mono [of "Suc j" s d l i] by auto
  qed
  then have "\<And>d. d \<in> set (open_deps s (ys ! i)) \<Longrightarrow> task_level i s d = Some (the (task_level i s d))" by fastforce
  from those_map_total [where f = "task_level i s", OF this] show ?case by simp
qed

definition level_in :: "wave_index \<Rightarrow> task_ref \<Rightarrow> nat" where
  "level_in s r = the (task_level (Suc (length s)) s r)"

lemma wave_deps_closed: "set (open_deps s r) \<subseteq> fst ` set s"
  by (auto simp: open_deps_def dict_get_map_of map_of_eq_None_iff)

lemma open_deps_subset: "set (open_deps s r) \<subseteq> set (wave_deps s r)"
  by (auto simp: open_deps_def)

lemma levels_exist:
  assumes "distinct (map fst s)" "acyclic (dep_edges (map fst s) (open_deps s))"
  shows "r \<in> fst ` set s \<Longrightarrow> task_level (Suc (length s)) s r = Some (level_in s r)"
    and "r \<in> fst ` set s \<Longrightarrow> d \<in> set (open_deps s r) \<Longrightarrow> level_in s d < level_in s r"
proof -
  have closed: "graph_closed (map fst s) (open_deps s)"
    using assms(1) wave_deps_closed by (simp add: graph_closed_def)
  obtain ys where ys: "distinct ys" "deps_first (open_deps s) ys" "set ys = set (map fst s)"
    using acyclic_order [OF closed assms(2)] .
  have len: "length ys = length s"
    using distinct_card [OF ys(1)] distinct_card [OF assms(1)] ys(3) by simp
  have early: "\<exists>l. task_level (length s) s r = Some l" if "r \<in> fst ` set s" for r
  proof -
    from that ys(3) obtain i where i: "i < length ys" "r = ys ! i" by (metis in_set_conv_nth list.set_map)
    then obtain l where "task_level (Suc i) s r = Some l" using task_level_along [OF ys(2)] by blast
    then show ?thesis using task_level_mono [of "Suc i" s r l "length s"] i(1) len by auto
  qed
  show all: "task_level (Suc (length s)) s r = Some (level_in s r)" if r: "r \<in> fst ` set s" for r
    using early [OF r] task_level_mono [of "length s" s r _ "Suc (length s)"] by (auto simp: level_in_def)
  assume r: "r \<in> fst ` set s" and d: "d \<in> set (open_deps s r)"
  have same: "task_level (length s) s x = Some (level_in s x)" if "x \<in> set (open_deps s r)" for x
  proof -
    have x: "x \<in> fst ` set s" using that wave_deps_closed by blast
    then obtain l where l: "task_level (length s) s x = Some l" using early by blast
    then have "task_level (Suc (length s)) s x = Some l" by (rule task_level_mono) simp
    then have "l = level_in s x" using all [OF x] by (metis option.inject)
    then show ?thesis using l by simp
  qed
  have "level_in s r = next_level (map (level_in s) (open_deps s r))"
    using all [OF r] those_map_total [where f = "task_level (length s) s", OF same] by simp
  moreover have "level_in s d \<le> Max (set (map (level_in s) (open_deps s r)))" using d by (intro Max_ge) auto
  moreover have "open_deps s r \<noteq> []" using d by auto
  ultimately show "level_in s d < level_in s r" by (simp add: next_level_def)
qed

lemma levels_of_eq:
  assumes "distinct (map fst s)" "acyclic (dep_edges (map fst s) (open_deps s))"
  shows "levels_of s = Some (map (\<lambda>r. (r, level_in s r)) (sort (map fst s)))"
  unfolding levels_of_def
  by (rule those_map_total) (use levels_exist(1) [OF assms] in auto)

section \<open>Cutting a layer into waves\<close>

definition wave_fits :: "frontier_limits \<Rightarrow> task_ref list \<Rightarrow> bool" where
  "wave_fits limits refs \<longleftrightarrow>
     int (card (ref_project ` set refs)) \<le> fl_active_projects limits \<and>
     (\<forall>p. int (length (filter (\<lambda>r. ref_project r = p) refs)) \<le> fl_child_slots limits)"

lemma tally_fits:
  "tally ref_project (fl_active_projects limits) (fl_child_slots limits) projects counts chunk \<Longrightarrow> wave_fits limits chunk"
  unfolding wave_fits_def using tally_bounds(1,2) by blast

lemma next_chunk_spec:
  assumes "next_chunk limits pending projects counts chunk = (out, rest)" "tally ref_project (fl_active_projects limits) (fl_child_slots limits) projects counts chunk"
  shows "out @ rest = chunk @ pending \<and> wave_fits limits out \<and> length chunk \<le> length out"
  using assms
proof (induction limits pending projects counts chunk arbitrary: out rest rule: next_chunk.induct)
  case (2 limits r rs projects counts chunk)
  let ?stop = "fl_child_slots limits \<le> counts (ref_project r) \<or>
      ref_project r \<notin> set projects \<and> fl_active_projects limits \<le> int (length projects)"
  show ?case
  proof (cases ?stop)
    case True
    then show ?thesis using 2(2) tally_fits [OF 2(3)] by (auto simp: Let_def)
  next
    case False
    let ?ps = "if ref_project r \<in> set projects then projects else projects @ [ref_project r]"
      and ?cs = "counts(ref_project r := counts (ref_project r) + 1)"
    have tally: "tally ref_project (fl_active_projects limits) (fl_child_slots limits) ?ps ?cs (chunk @ [r])"
      by (rule tally_add [OF 2(3)]) (use False in linarith)+
    have "next_chunk limits rs ?ps ?cs (chunk @ [r]) = (out, rest)"
      using 2(2) unfolding next_chunk.simps Let_def if_not_P [OF False] .
    from 2(1) [OF refl False this tally] show ?thesis by simp
  qed
qed (auto dest: tally_fits)

lemma first_chunk:
  assumes "1 \<le> fl_active_projects limits" "1 \<le> fl_child_slots limits" "pending \<noteq> []"
  obtains out rest where "next_chunk limits pending [] (\<lambda>_. 0) [] = (out, rest)" "out \<noteq> []"
    "out @ rest = pending" "wave_fits limits out"
proof -
  obtain r rs where p: "pending = r # rs" using assms(3) by (cases pending) auto
  have books: "tally ref_project (fl_active_projects limits) (fl_child_slots limits)
      [ref_project r] ((\<lambda>_. 0)(ref_project r := 1)) [r]"
    using tally_add [OF tally_Nil, of "fl_active_projects limits" "fl_child_slots limits" ref_project r] assms(1,2)
    by simp
  obtain out rest where out: "next_chunk limits pending [] (\<lambda>_. 0) [] = (out, rest)" by fastforce
  then have "next_chunk limits rs [ref_project r] ((\<lambda>_. 0)(ref_project r := 1)) [r] = (out, rest)"
    using assms(1,2) by (simp add: p Let_def)
  from next_chunk_spec [OF this books] show ?thesis using that [OF out] p by (cases out) auto
qed

lemma layer_waves_spec:
  assumes "1 \<le> fl_active_projects limits" "1 \<le> fl_child_slots limits"
  shows "\<exists>waves. layer_waves limits pending = Some waves \<and> concat waves = pending \<and> (\<forall>w \<in> set waves. wave_fits limits w)"
proof (induction pending rule: length_induct)
  case (1 pending)
  show ?case
  proof (cases "pending = []")
    case False
    obtain out rest where chunk: "next_chunk limits pending [] (\<lambda>_. 0) [] = (out, rest)" "out \<noteq> []"
      "out @ rest = pending" "wave_fits limits out" by (rule first_chunk [OF assms False])
    have "length (out @ rest) = length pending" by (simp only: chunk(3))
    then have "length rest < length pending" using chunk(2) by (cases out) auto
    then obtain waves where "layer_waves limits rest = Some waves" "concat waves = rest"
      "\<forall>w \<in> set waves. wave_fits limits w" using 1 by blast
    then show ?thesis using chunk False by (subst layer_waves.simps) auto
  qed (subst layer_waves.simps, simp)
qed

section \<open>Reading the plans\<close>

definition wave_index_wf :: "wave_index \<Rightarrow> bool" where
  "wave_index_wf index \<longleftrightarrow> distinct (map fst index) \<and> (\<forall>(ref, row) \<in> set index. ref_task ref = pt_task_id row)"

text \<open>The child tasks of the plans, as the reader normalises them.\<close>

definition child_rows :: "(string \<times> plan_task) list \<Rightarrow> (task_ref \<times> plan_task) set" where
  "child_rows rows = {(row_ref (p, t), wave_row t) | p t. (p, t) \<in> set rows \<and>
     py_normalized (pt_kind t) = task_kind_value CHILD_TASK}"

lemma wave_row_fields [simp]:
  "pt_task_id (wave_row t) = py_strip (pt_task_id t)" "pt_kind (wave_row t) = py_normalized (pt_kind t)"
  "pt_status (wave_row t) = py_normalized (pt_status t)" "pt_start (wave_row t) = pt_start t"
  by (simp_all add: wave_row_def)

lemma child_rows_Nil [simp]: "child_rows [] = {}"
  by (simp add: child_rows_def)

lemma child_rowsI:
  "(p, t) \<in> set rows \<Longrightarrow> py_normalized (pt_kind t) = ''child_task'' \<Longrightarrow> (row_ref (p, t), wave_row t) \<in> child_rows rows"
  unfolding child_rows_def task_kind_value.simps by blast

lemma child_rows_append: "child_rows (xs @ ys) = child_rows xs \<union> child_rows ys"
  unfolding child_rows_def by auto

lemma child_rows_single:
  "child_rows [(p, t)] = (if py_normalized (pt_kind t) = task_kind_value CHILD_TASK
     then {(row_ref (p, t), wave_row t)} else {})"
  unfolding child_rows_def by auto

lemma wave_task_spec:
  assumes "wave_task project index t = Inr index'" "distinct (map fst index)"
  shows "distinct (map fst index') \<and> set index' = set index \<union> child_rows [(project, t)]"
proof -
  let ?ref = "TaskRef project (py_strip (pt_task_id t))"
  consider (other) "py_normalized (pt_kind t) \<noteq> task_kind_value CHILD_TASK" "index' = index"
    | (put) "py_normalized (pt_kind t) = task_kind_value CHILD_TASK" "index' = dict_set index ?ref (wave_row t)"
        "dict_get index ?ref \<in> {None, Some (wave_row t)}"
    using assms(1) by (auto simp: wave_task_def Let_def split: if_splits option.splits)
  then show ?thesis
  proof cases
    case put
    have "distinct (map fst index')" using assms(2) by (simp add: put(2) distinct_dict_set)
    moreover have "w = wave_row t" if "(?ref, w) \<in> set index" for w
    proof -
      have "dict_get index ?ref = Some w" using dict_get_in_set [OF assms(2)] that by blast
      then show ?thesis using put(3) by simp
    qed
    then have "set index' = set index \<union> child_rows [(project, t)]"
      by (auto simp: put(1,2) set_dict_set [OF assms(2)] child_rows_single row_ref_def)
    ultimately show ?thesis by blast
  qed (use assms in \<open>simp_all add: child_rows_single\<close>)
qed

lemma wave_tasks_spec:
  assumes "wave_tasks project ts index = Inr index'" "distinct (map fst index)"
  shows "distinct (map fst index') \<and> set index' = set index \<union> child_rows (map (Pair project) ts)"
  using assms
proof (induction ts arbitrary: index)
  case (Cons t ts)
  obtain mid where mid: "wave_task project index t = Inr mid" "wave_tasks project ts mid = Inr index'"
    using Cons.prems(1) by (auto split: sum.splits)
  note spec = conjunct1 [OF wave_task_spec [OF mid(1) Cons.prems(2)]] conjunct2 [OF wave_task_spec [OF mid(1) Cons.prems(2)]]
  have "child_rows (map (Pair project) (t # ts)) = child_rows [(project, t)] \<union> child_rows (map (Pair project) ts)"
    using child_rows_append [of "[(project, t)]" "map (Pair project) ts"] by simp
  then show ?case using Cons.IH [OF mid(2) spec(1)] spec(2) by (simp add: Un_assoc)
qed simp

lemma wave_plans_spec:
  assumes "wave_plans ps index = Inr index'" "distinct (map fst index)"
  shows "distinct (map fst index') \<and> set index' = set index \<union> child_rows (snapshot_rows ps)"
  using assms
proof (induction ps arbitrary: index)
  case (Cons p ps)
  let ?project = "py_strip (pp_project_id p)"
  obtain mid where mid: "wave_tasks ?project (pp_tasks p) index = Inr mid" "wave_plans ps mid = Inr index'"
    using Cons.prems(1) by (auto simp: Let_def split: sum.splits if_splits)
  note spec = wave_tasks_spec [OF mid(1) Cons.prems(2)]
  have "distinct (map fst mid)" using spec by simp
  from Cons.IH [OF mid(2) this] spec show ?case
    by (simp add: snapshot_rows_def child_rows_append Un_assoc)
qed (simp add: snapshot_rows_def)

lemma schedulable_rows_spec:
  "schedulable_rows index = Inr rows \<Longrightarrow>
   rows = filter (\<lambda>(ref, row). pt_status row \<notin> set SATISFIED_STATUSES) index \<and>
   (\<forall>(ref, row) \<in> set rows. pt_status row \<in> set SCHEDULABLE_STATUSES)"
  by (induction index arbitrary: rows rule: schedulable_rows.induct) (auto split: if_splits sum.splits)

lemma dep_pairs_set: "(r, d) \<in> set (dep_pairs index) \<longleftrightarrow> (\<exists>row. (r, row) \<in> set index \<and> d \<in> set (pt_start row))"
  by (auto simp: dep_pairs_def)

lemma wave_deps_lookup: "distinct (map fst index) \<Longrightarrow> (r, row) \<in> set index \<Longrightarrow> wave_deps index r = pt_start row"
  using dict_get_in_set [of index r row] by (simp add: wave_deps_def)

lemma wave_graph_closed:
  assumes "distinct (map fst index)" "find (dangling index) (dep_pairs index) = None"
  shows "graph_closed (map fst index) (wave_deps index)"
proof -
  have "d \<in> fst ` set index" if "(r, row) \<in> set index" "d \<in> set (wave_deps index r)" for r row d
  proof -
    have "(r, d) \<in> set (dep_pairs index)"
      using that wave_deps_lookup [OF assms(1) that(1)] by (auto simp: dep_pairs_set)
    then have "\<not> dangling index (r, d)" using assms(2) by (simp add: find_None_iff)
    then show ?thesis by (simp add: dangling_def dict_get_map_of map_of_eq_None_iff)
  qed
  then show ?thesis using assms(1) by (auto simp: graph_closed_def)
qed

definition wave_table :: "project_plan list \<Rightarrow> wave_index \<Rightarrow> wave_index \<Rightarrow> bool" where
  \<comment> \<open>what a successful reading returns\<close>
  "wave_table projects index s \<longleftrightarrow>
     distinct (map fst index) \<and> set index = child_rows (snapshot_rows projects) \<and>
     distinct (map fst s) \<and> set s = {(r, row) \<in> set index. pt_status row \<notin> set SATISFIED_STATUSES} \<and>
     (\<forall>(r, row) \<in> set s. pt_status row \<in> set SCHEDULABLE_STATUSES) \<and>
     (\<forall>(r, row) \<in> set s. \<forall>d \<in> set (pt_start row). d \<in> fst ` set index) \<and>
     acyclic (dep_edges (map fst s) (open_deps s))"

lemma read_plans_table:
  assumes "read_plans projects = Inr (index, s)"
  shows "wave_table projects index s"
proof -
  from assms have plans: "wave_plans projects [] = Inr index"
    and found: "find (dangling index) (dep_pairs index) = None"
    and cyc: "\<not> has_cycle (map fst index) (wave_deps index)"
    and rows: "schedulable_rows index = Inr s"
    by (auto simp: read_plans_def split: sum.splits option.splits if_splits)
  have dist: "distinct (map fst index)" and img: "set index = child_rows (snapshot_rows projects)"
    using wave_plans_spec [OF plans] by simp_all
  note closed = wave_graph_closed [OF dist found]
  have s: "s = filter (\<lambda>(r, row). pt_status row \<notin> set SATISFIED_STATUSES) index"
    and ok: "\<forall>(r, row) \<in> set s. pt_status row \<in> set SCHEDULABLE_STATUSES"
    using schedulable_rows_spec [OF rows] by blast+
  have dist_s: "distinct (map fst s)" unfolding s using dist by (rule distinct_map_filter)
  have sub: "set s \<subseteq> set index" by (auto simp: s)
  have same: "wave_deps s r = wave_deps index r" if r: "r \<in> fst ` set s" for r
  proof -
    obtain row where row: "(r, row) \<in> set s" using r by auto
    then have "(r, row) \<in> set index" using sub by blast
    then show ?thesis using row by (simp add: wave_deps_lookup [OF dist_s] wave_deps_lookup [OF dist])
  qed
  have "d \<in> fst ` set index" if "(r, row) \<in> set s" "d \<in> set (pt_start row)" for r row d
  proof -
    have "(r, row) \<in> set index" using that(1) sub by blast
    then have "r \<in> set (map fst index)" "wave_deps index r = pt_start row"
      using wave_deps_lookup [OF dist] by force+
    then show ?thesis using closed that(2) unfolding graph_closed_def by fastforce
  qed
  moreover have "acyclic (dep_edges (map fst s) (open_deps s))"
  proof (rule acyclic_subset)
    show "acyclic (dep_edges (map fst index) (wave_deps index))" using has_cycle_iff [OF closed] cyc by blast
    show "dep_edges (map fst s) (open_deps s) \<subseteq> dep_edges (map fst index) (wave_deps index)"
    proof (rule subrelI)
      fix d r assume "(d, r) \<in> dep_edges (map fst s) (open_deps s)"
      then have r: "r \<in> fst ` set s" and "d \<in> set (wave_deps s r)"
        using open_deps_subset by (auto simp: dep_edges_def)
      moreover have "r \<in> fst ` set index" using r sub by blast
      ultimately show "(d, r) \<in> dep_edges (map fst index) (wave_deps index)"
        using same [OF r] by (simp add: dep_edges_def)
    qed
  qed
  ultimately have "(\<forall>(r, row) \<in> set s. \<forall>d \<in> set (pt_start row). d \<in> fst ` set index) \<and>
      acyclic (dep_edges (map fst s) (open_deps s))" by blast
  moreover have "set s = {(r, row) \<in> set index. pt_status row \<notin> set SATISFIED_STATUSES}" by (auto simp: s)
  ultimately show ?thesis unfolding wave_table_def by (intro conjI dist img dist_s ok) simp_all
qed

section \<open>The waves\<close>

definition layer :: "wave_index \<Rightarrow> nat \<Rightarrow> task_ref list" where
  \<comment> \<open>the tasks of one level that are not running, in identity order\<close>
  "layer s d = filter (\<lambda>r. level_in s r = d) (filter (\<lambda>r. \<not> is_running s r) (sort (map fst s)))"

definition depths :: "wave_index \<Rightarrow> nat list" where
  "depths s = sort (remdups (map (level_in s) (sort (map fst s))))"

definition layer_cut :: "frontier_limits \<Rightarrow> wave_index \<Rightarrow> nat \<Rightarrow> task_ref list list" where
  "layer_cut limits s d = the (layer_waves limits (layer s d))"

definition running_refs :: "wave_index \<Rightarrow> task_ref list" where
  "running_refs s = sort (filter (is_running s) (map fst s))"

lemma sort_filter_levels:
  "sort (map fst (filter (\<lambda>(r, l). l = d) (map (\<lambda>r. (r, f r)) (sort xs)))) = filter (\<lambda>r. f r = d) (sort xs)"
proof -
  have "map fst (filter (\<lambda>(r, l). l = d) (map (\<lambda>r. (r, f r)) ys)) = filter (\<lambda>r. f r = d) ys" for ys
    by (induction ys) auto
  then show ?thesis by (simp add: sorted_sort_id sorted_filter [where f = "\<lambda>x. x", simplified])
qed

lemma pending_at_layer: "pending_at s (map (\<lambda>r. (r, level_in s r)) (sort (map fst s))) d = layer s d"
  unfolding pending_at_def sort_filter_levels layer_def by (simp add: conj_commute)

lemma layer_cut_spec:
  assumes "1 \<le> fl_active_projects limits" "1 \<le> fl_child_slots limits"
  shows "layer_waves limits (layer s d) = Some (layer_cut limits s d)" "concat (layer_cut limits s d) = layer s d"
    "w \<in> set (layer_cut limits s d) \<Longrightarrow> wave_fits limits w"
  using layer_waves_spec [OF assms, of "layer s d"] by (auto simp: layer_cut_def)

lemma wave_groups_eq:
  assumes "wave_table projects index s" "1 \<le> fl_active_projects limits" "1 \<le> fl_child_slots limits"
  shows "wave_groups limits s =
    Some ((if running_refs s \<noteq> [] then [(True, running_refs s)] else []) @
          map (Pair False) (concat (map (layer_cut limits s) (depths s))))"
proof -
  have "levels_of s = Some (map (\<lambda>r. (r, level_in s r)) (sort (map fst s)))"
    using assms(1) by (intro levels_of_eq) (simp_all add: wave_table_def)
  moreover have "those (map (\<lambda>d. layer_waves limits (layer s d)) (depths s)) = Some (map (layer_cut limits s) (depths s))"
    by (rule those_map_total) (rule layer_cut_spec(1) [OF assms(2,3)])
  moreover have "snd \<circ> (\<lambda>r. (r, level_in s r)) = level_in s" by (simp add: fun_eq_iff)
  ultimately show ?thesis
    by (simp add: wave_groups_def pending_at_layer running_refs_def depths_def Let_def)
qed

definition layer_waves_of :: "frontier_limits \<Rightarrow> wave_index \<Rightarrow> task_ref list list" where
  "layer_waves_of limits s = concat (map (layer_cut limits s) (depths s))"

lemma set_depths: "r \<in> fst ` set s \<Longrightarrow> level_in s r \<in> set (depths s)"
  by (auto simp: depths_def)

lemma layers_content:
  assumes "1 \<le> fl_active_projects limits" "1 \<le> fl_child_slots limits"
  shows "concat (layer_waves_of limits s) = concat (map (layer s) (depths s))"
proof -
  have "concat (concat (map (layer_cut limits s) ds)) = concat (map (layer s) ds)" for ds
    by (induction ds) (simp_all add: layer_cut_spec(2) [OF assms])
  then show ?thesis by (simp add: layer_waves_of_def)
qed

lemma groups_cover:
  assumes "1 \<le> fl_active_projects limits" "1 \<le> fl_child_slots limits"
  shows "mset (running_refs s @ concat (layer_waves_of limits s)) = mset (map fst s)"
proof -
  let ?idle = "filter (\<lambda>r. \<not> is_running s r) (sort (map fst s))"
  have "mset (concat (map (layer s) (depths s))) = mset ?idle"
    unfolding layer_def by (rule mset_partition) (auto simp: depths_def intro: set_depths)
  then show ?thesis
    unfolding layers_content [OF assms] mset_append
    using multiset_partition [of "mset (map fst s)" "is_running s"] by (simp add: running_refs_def mset_filter)
qed

lemma earlier_layers:
  assumes table: "wave_table projects index s" and lim: "1 \<le> fl_active_projects limits" "1 \<le> fl_child_slots limits"
    and split: "layer_waves_of limits s = A @ w # B" and r: "r \<in> set w"
    and d: "d \<in> set (open_deps s r)" "\<not> is_running s d"
  shows "d \<in> set (concat A)"
proof -
  obtain xs1 ys zs xs2 where xss: "map (layer_cut limits s) (depths s) = xs1 @ (ys @ w # zs) # xs2"
    and A: "A = concat xs1 @ ys"
    using split unfolding layer_waves_of_def by (rule concat_split)
  obtain ds1 e ds2 where ds: "depths s = ds1 @ e # ds2" "xs1 = map (layer_cut limits s) ds1"
    "ys @ w # zs = layer_cut limits s e"
    using xss by (auto simp: map_eq_append_conv append_eq_map_conv Cons_eq_map_conv)
  have "r \<in> set (concat (ys @ w # zs))" using r by simp
  then have "r \<in> set (layer s e)" unfolding ds(3) layer_cut_spec(2) [OF lim] .
  then have re: "level_in s r = e" "r \<in> fst ` set s" by (auto simp: layer_def)
  have dk: "d \<in> fst ` set s" using d(1) wave_deps_closed by blast
  have "level_in s d < e"
    using levels_exist(2) [of s r d] table re d(1) by (simp add: wave_table_def)
  moreover have "sorted (depths s)" "level_in s d \<in> set (depths s)"
    using set_depths [OF dk] by (simp_all add: depths_def)
  ultimately have "level_in s d \<in> set ds1" by (auto simp: ds(1) sorted_append)
  moreover have "d \<in> set (layer s (level_in s d))" using dk d(2) by (simp add: layer_def)
  then have "d \<in> set (concat (layer_cut limits s (level_in s d)))" by (simp only: layer_cut_spec(2) [OF lim])
  ultimately show ?thesis by (auto simp: A ds(2))
qed

section \<open>What the scheduler returns\<close>

lemma number_waves_nth:
  "i < length ws \<Longrightarrow> number_waves k ws ! i = \<lparr>sw_index = k + int i, sw_tasks = ws ! i\<rparr>"
proof (induction ws arbitrary: i k)
  case (Cons w ws)
  then show ?case by (cases i) simp_all
qed simp

lemma length_number_waves [simp]: "length (number_waves k ws) = length ws"
  by (induction ws arbitrary: k) simp_all

lemma number_waves_tasks: "map sw_tasks (number_waves k ws) = ws"
  by (induction ws arbitrary: k) simp_all

lemma scheduled_of_fields [simp]:
  "sc_ref (scheduled_of s b r) = r" "sc_running (scheduled_of s b r) = b"
  by (cases r) (simp_all add: scheduled_of_def sc_ref_def Let_def)

definition wave_list :: "frontier_limits \<Rightarrow> wave_index \<Rightarrow> (bool \<times> task_ref list) list" where
  "wave_list limits s = (if running_refs s \<noteq> [] then [(True, running_refs s)] else []) @
     map (Pair False) (layer_waves_of limits s)"

lemma scheduled_cases:
  assumes "schedule_chained_waves projects limits = Inr ws"
  obtains index s where "wave_table projects index s"
    "1 \<le> fl_active_projects limits" "1 \<le> fl_child_slots limits"
    "ws = number_waves 0 (map (\<lambda>(running, refs). map (scheduled_of s running) refs) (wave_list limits s))"
proof -
  from assms have lim: "1 \<le> fl_active_projects limits" "1 \<le> fl_child_slots limits"
    by (auto simp: schedule_chained_waves_def split: if_splits)
  from assms obtain index s where read: "read_plans projects = Inr (index, s)"
    by (auto simp: schedule_chained_waves_def split: if_splits sum.splits)
  note table = read_plans_table [OF read]
  have "wave_groups limits s = Some (wave_list limits s)"
    using wave_groups_eq [OF table lim] by (simp add: wave_list_def layer_waves_of_def)
  then show ?thesis using that [OF table lim] assms lim read by (simp add: schedule_chained_waves_def)
qed

text \<open>C39: The wave scheduler returns on every input: whatever the plans and the limits are, it gives waves
  or raises one of its errors; neither the recursion on levels nor the loop that cuts a layer runs on
  for ever.\<close>

theorem wave_scheduler_returns: "schedule_chained_waves projects limits \<noteq> Inl NeverReturns"
proof
  assume never: "schedule_chained_waves projects limits = Inl NeverReturns"
  have raised: "read_plans projects \<noteq> Inl NeverReturns"
  proof -
    have 1: "wave_task p index t \<noteq> Inl NeverReturns" for p index t
      by (auto simp: wave_task_def Let_def split: option.splits)
    have 2: "wave_tasks p ts index \<noteq> Inl NeverReturns" for p ts index
      using 1 by (induction ts arbitrary: index) (auto split: sum.splits)
    have 3: "wave_plans ps index \<noteq> Inl NeverReturns" for ps index
      using 2 by (induction ps arbitrary: index) (auto simp: Let_def split: sum.splits)
    have 4: "schedulable_rows index \<noteq> Inl NeverReturns" for index
      by (induction index rule: schedulable_rows.induct) (auto split: sum.splits)
    show ?thesis using 3 4 by (auto simp: read_plans_def split: sum.splits option.splits)
  qed
  from never have lim: "1 \<le> fl_active_projects limits" "1 \<le> fl_child_slots limits"
    by (auto simp: schedule_chained_waves_def split: if_splits)
  show False
  proof (cases "read_plans projects")
    case (Inl e)
    then show False using never raised lim by (simp add: schedule_chained_waves_def)
  next
    case (Inr out)
    obtain index s where "out = (index, s)" by fastforce
    then have read: "read_plans projects = Inr (index, s)" using Inr by simp
    then show False
      using never lim wave_groups_eq [OF read_plans_table [OF read] lim] by (simp add: schedule_chained_waves_def)
  qed
qed

definition schedulable_refs :: "(string \<times> plan_task) list \<Rightarrow> task_ref set" where
  \<comment> \<open>the child tasks that are pending, ready or running\<close>
  "schedulable_refs rows = {row_ref (p, t) | p t. (p, t) \<in> set rows \<and>
     py_normalized (pt_kind t) = ''child_task'' \<and> py_normalized (pt_status t) \<in> {''pending'', ''ready'', ''running''}}"

lemma table_keys:
  assumes "wave_table projects index s"
  shows "fst ` set s = schedulable_refs (snapshot_rows projects)"
proof -
  have s: "set s = {(r, row) \<in> child_rows (snapshot_rows projects). pt_status row \<notin> set SATISFIED_STATUSES}"
    and ok: "\<forall>(r, row) \<in> set s. pt_status row \<in> set SCHEDULABLE_STATUSES"
    using assms by (auto simp: wave_table_def)
  have sets: "set SATISFIED_STATUSES = {''completed'', ''skipped''}"
    "set SCHEDULABLE_STATUSES = {''pending'', ''ready'', ''running''}"
    by (auto simp: SATISFIED_STATUSES_def SCHEDULABLE_STATUSES_def)
  show ?thesis
  proof (intro equalityI subsetI)
    fix r assume "r \<in> fst ` set s"
    then obtain row where row: "(r, row) \<in> set s" by auto
    then have "(r, row) \<in> child_rows (snapshot_rows projects)" "pt_status row \<in> {''pending'', ''ready'', ''running''}"
      using s ok sets(2) by auto
    then obtain p t where "(p, t) \<in> set (snapshot_rows projects)" "r = row_ref (p, t)"
      "py_normalized (pt_kind t) = ''child_task''" "py_normalized (pt_status t) \<in> {''pending'', ''ready'', ''running''}"
      by (auto simp: child_rows_def)
    then show "r \<in> schedulable_refs (snapshot_rows projects)" unfolding schedulable_refs_def by blast
  next
    fix r assume "r \<in> schedulable_refs (snapshot_rows projects)"
    then obtain p t where pt: "(p, t) \<in> set (snapshot_rows projects)" "r = row_ref (p, t)"
      "py_normalized (pt_kind t) = task_kind_value CHILD_TASK"
      "py_normalized (pt_status t) \<in> {''pending'', ''ready'', ''running''}"
      by (auto simp: schedulable_refs_def)
    then have "(r, wave_row t) \<in> child_rows (snapshot_rows projects)" unfolding child_rows_def by blast
    moreover have "pt_status (wave_row t) \<notin> set SATISFIED_STATUSES" using pt(4) by (auto simp: sets(1))
    ultimately have "(r, wave_row t) \<in> set s" using s by simp
    then show "r \<in> fst ` set s" by force
  qed
qed

text \<open>C38: The waves hold exactly the schedulable work: counted with multiplicity, the tasks of all waves
  are the child tasks of the plans that are pending, ready or running, each in one wave.\<close>

theorem waves_hold_all_work_once:
  assumes "schedule_chained_waves projects limits = Inr ws"
  shows "mset (map sc_ref (concat (map sw_tasks ws))) = mset_set (schedulable_refs (snapshot_rows projects))"
  using assms
proof (rule scheduled_cases)
  fix index s
  assume table: "wave_table projects index s"
    and lim: "1 \<le> fl_active_projects limits" "1 \<le> fl_child_slots limits"
    and ws: "ws = number_waves 0 (map (\<lambda>(running, refs). map (scheduled_of s running) refs) (wave_list limits s))"
  have refs: "map sc_ref (concat (map (\<lambda>(running, refs). map (scheduled_of s running) refs) gs)) = concat (map snd gs)" for gs
    by (induction gs) (auto simp: comp_def)
  have "concat (map snd (wave_list limits s)) = running_refs s @ concat (layer_waves_of limits s)"
    by (simp add: wave_list_def comp_def)
  then have "mset (map sc_ref (concat (map sw_tasks ws))) = mset (map fst s)"
    unfolding ws number_waves_tasks refs using groups_cover [OF lim] by simp
  also have "\<dots> = mset_set (fst ` set s)"
    using table mset_set_set [of "map fst s"] by (simp add: wave_table_def)
  finally show ?thesis unfolding table_keys [OF table] .
qed

lemma wave_nth:
  assumes "ws = number_waves 0 (map (\<lambda>(running, refs). map (scheduled_of s running) refs) gs)" "i < length ws"
  shows "sw_tasks (ws ! i) = map (scheduled_of s (fst (gs ! i))) (snd (gs ! i))" "sw_index (ws ! i) = int i"
    "i < length gs"
  using assms number_waves_nth [of i "map (\<lambda>(running, refs). map (scheduled_of s running) refs) gs" 0]
  by (simp_all add: case_prod_beta)

lemma wave_list_nth:
  assumes "i < length (wave_list limits s)"
  obtains (running) "i = 0" "wave_list limits s ! i = (True, running_refs s)" "running_refs s \<noteq> []"
  | (idle) A w B where "layer_waves_of limits s = A @ w # B" "wave_list limits s ! i = (False, w)"
      "take i (wave_list limits s) = (if running_refs s \<noteq> [] then [(True, running_refs s)] else []) @ map (Pair False) A"
proof -
  let ?L = "layer_waves_of limits s"
  define k where "k = (if running_refs s \<noteq> [] then 1 else 0 :: nat)"
  consider "i < k" | "k \<le> i" by linarith
  then show ?thesis
  proof cases
    case 1
    then show ?thesis using running by (auto simp: k_def wave_list_def split: if_splits)
  next
    case 2
    then have j: "i - k < length ?L" using assms by (auto simp: wave_list_def k_def split: if_splits)
    have "?L = take (i - k) ?L @ ?L ! (i - k) # drop (Suc (i - k)) ?L" by (rule id_take_nth_drop [OF j])
    moreover have "wave_list limits s ! i = (False, ?L ! (i - k))"
      using 2 j by (auto simp: wave_list_def k_def nth_append)
    moreover have "take i (wave_list limits s) =
        (if running_refs s \<noteq> [] then [(True, running_refs s)] else []) @ map (Pair False) (take (i - k) ?L)"
      using 2 by (auto simp: wave_list_def k_def take_map take_Cons')
    ultimately show ?thesis by (rule idle)
  qed
qed

lemma in_earlier_wave:
  assumes ws: "ws = number_waves 0 (map (\<lambda>(running, refs). map (scheduled_of s running) refs) gs)"
    and "i < length ws" "g \<in> set (take i gs)" "d \<in> set (snd g)"
  shows "\<exists>j < i. d \<in> sc_ref ` set (sw_tasks (ws ! j))"
proof -
  from assms(3) obtain j where j: "j < i" "g = gs ! j" by (auto simp: in_set_conv_nth)
  then have "sw_tasks (ws ! j) = map (scheduled_of s (fst g)) (snd g)" using wave_nth(1) [OF ws, of j] assms(2) by simp
  then have "d \<in> sc_ref ` set (sw_tasks (ws ! j))" using assms(4) by (simp add: image_image)
  then show ?thesis using j(1) by blast
qed

text \<open>C17: Finishing a wave unlocks the next: whatever task of a plan a wave holds as work to start, each of
  its START dependencies is completed or skipped already or sits in an earlier wave.\<close>

theorem waves_respect_dependencies:
  assumes "schedule_chained_waves projects limits = Inr ws"
    and "i < length ws" "t \<in> set (sw_tasks (ws ! i))" "sc_running t = False"
    and "(p, u) \<in> set (snapshot_rows projects)" "py_normalized (pt_kind u) = ''child_task''"
    and "row_ref (p, u) = sc_ref t" "d \<in> set (pt_start u)"
  shows "(\<exists>(q, v) \<in> set (snapshot_rows projects). row_ref (q, v) = d \<and>
            py_normalized (pt_status v) \<in> {''completed'', ''skipped''}) \<or>
         (\<exists>j < i. d \<in> sc_ref ` set (sw_tasks (ws ! j)))"
  using assms(1)
proof (rule scheduled_cases)
  fix index s
  assume table: "wave_table projects index s"
    and lim: "1 \<le> fl_active_projects limits" "1 \<le> fl_child_slots limits"
    and ws: "ws = number_waves 0 (map (\<lambda>(running, refs). map (scheduled_of s running) refs) (wave_list limits s))"
  note nth = wave_nth [OF ws assms(2)]
  have dist: "distinct (map fst index)" "distinct (map fst s)" and img: "set index = child_rows (snapshot_rows projects)"
    and s: "set s = {(r, row) \<in> set index. pt_status row \<notin> set SATISFIED_STATUSES}"
    using table by (simp_all add: wave_table_def)
  obtain A w B where layers: "layer_waves_of limits s = A @ w # B" "wave_list limits s ! i = (False, w)"
    and before: "take i (wave_list limits s) =
      (if running_refs s \<noteq> [] then [(True, running_refs s)] else []) @ map (Pair False) A"
    using wave_list_nth [OF nth(3)] assms(3,4) nth(1) by (metis fst_conv in_set_conv_nth length_map nth_map scheduled_of_fields(2))
  have r: "sc_ref t \<in> set w" using assms(3) by (auto simp: nth(1) layers(2))
  have "concat (layer_waves_of limits s) = concat A @ w @ concat B" by (simp add: layers(1))
  then have "sc_ref t \<in> set (map fst s)"
    using r groups_cover [OF lim, of s] by (metis UnCI set_append set_mset_mset)
  then obtain row where row: "(sc_ref t, row) \<in> set s" by auto
  have "(sc_ref t, wave_row u) \<in> set index"
    unfolding img using child_rowsI [OF assms(5,6)] assms(7) by simp
  then have "row = wave_row u" using row s dist(1) eq_key_imp_eq_value [of index] by auto
  then have deps: "wave_deps s (sc_ref t) = pt_start u" using wave_deps_lookup [OF dist(2) row] by simp
  have "\<forall>(r, row) \<in> set s. \<forall>d \<in> set (pt_start row). d \<in> fst ` set index"
    using table unfolding wave_table_def by blast
  then have "\<forall>d \<in> set (pt_start row). d \<in> fst ` set index" using row by blast
  then have "d \<in> fst ` set index" using assms(8) \<open>row = wave_row u\<close> by simp
  then obtain v where v: "(d, v) \<in> set index" by auto
  then obtain q x where x: "(q, x) \<in> set (snapshot_rows projects)" "row_ref (q, x) = d" "v = wave_row x"
    unfolding img child_rows_def by auto
  show ?thesis
  proof (cases "pt_status v \<in> set SATISFIED_STATUSES")
    case True
    then have "py_normalized (pt_status x) \<in> {''completed'', ''skipped''}" using x(3) by (simp add: SATISFIED_STATUSES_def)
    then show ?thesis using x(1,2) by blast
  next
    case False
    then have "(d, v) \<in> set s" using s v by simp
    then have open_d: "d \<in> set (open_deps s (sc_ref t))"
      using assms(8) dict_get_in_set [OF dist(2)] by (auto simp: open_deps_def deps)
    have "\<exists>g \<in> set (take i (wave_list limits s)). d \<in> set (snd g)"
    proof (cases "is_running s d")
      case True
      then have "d \<in> set (running_refs s)" using \<open>(d, v) \<in> set s\<close> by (force simp: running_refs_def)
      then show ?thesis unfolding before by (cases "running_refs s") auto
    next
      case False
      have "d \<in> set (concat A)" by (rule earlier_layers [OF table lim layers(1) r open_d False])
      then obtain x where "x \<in> set A" "d \<in> set x" by auto
      then show ?thesis unfolding before by (intro bexI [of _ "(False, x)"]) simp_all
    qed
    then show ?thesis using in_earlier_wave [OF ws assms(2)] by blast
  qed
qed

text \<open>Every wave of work to start fits the owner's maxima, and the waves are numbered in order.\<close>

theorem waves_fit_limits:
  assumes "schedule_chained_waves projects limits = Inr ws" "i < length ws"
  shows "sw_index (ws ! i) = int i \<and>
    (list_all sc_running (sw_tasks (ws ! i)) \<or> wave_fits limits (map sc_ref (sw_tasks (ws ! i))))"
  using assms(1)
proof (rule scheduled_cases)
  fix index s
  assume lim: "1 \<le> fl_active_projects limits" "1 \<le> fl_child_slots limits"
    and ws: "ws = number_waves 0 (map (\<lambda>(running, refs). map (scheduled_of s running) refs) (wave_list limits s))"
  note nth = wave_nth [OF ws assms(2)]
  show ?thesis
    using nth(3)
  proof (cases rule: wave_list_nth)
    case running
    then show ?thesis using nth(1,2) by (simp add: list_all_iff)
  next
    case (idle A w B)
    have "w \<in> set (layer_waves_of limits s)" by (simp add: idle(1))
    then have "wave_fits limits w" using layer_cut_spec(3) [OF lim] by (auto simp: layer_waves_of_def)
    then show ?thesis using nth(1,2) by (simp add: idle(2) comp_def)
  qed
qed

end
