(* ===== verification/Ready_Samples.thy ===== *)
theory Ready_Samples
  imports Ready_Waves_Laws
begin

text \<open>
  A concrete plan of two projects and what the frontier and the waves make of it: the witnesses of
  the frontier properties, and the one point where the two functions disagree (a skipped dependency).
\<close>

definition sample_task :: "string \<Rightarrow> string \<Rightarrow> task_ref list \<Rightarrow> string list \<Rightarrow> plan_task" where
  "sample_task name status deps owns =
     \<lparr>pt_task_id = name, pt_phase = ''01'', pt_status = status, pt_kind = ''child_task'', pt_title = name,
      pt_display_step = None, pt_start = deps, pt_integrate = [], pt_owns = owns\<rparr>"

definition sample_plans :: "project_plan list" where
  "sample_plans =
     [\<lparr>pp_project_id = ''p'', pp_tasks =
         [sample_task ''a'' ''completed'' [] [], sample_task ''b'' ''pending'' [TaskRef ''p'' ''a''] [''src/api/**''],
          sample_task ''c'' ''running'' [] [''docs/**''], sample_task ''d'' '' Ready '' [] [''docs/x''],
          sample_task ''e'' ''pending'' [TaskRef ''p'' ''b''] []]\<rparr>,
      \<lparr>pp_project_id = ''q'', pp_tasks = [sample_task ''f'' ''ready'' [] [''docs/x'']]\<rparr>]"

definition sample_snapshot :: frontier_snapshot where
  "sample_snapshot = \<lparr>fs_owner_id = ''owner'', fs_source = ''owner_db'', fs_complete = True, fs_projects = sample_plans\<rparr>"

lemmas sample_defs = sample_snapshot_def sample_plans_def sample_task_def

lemma sample_projected: "fp_status (project_ready_frontier sample_snapshot default_frontier_limits) = PROJECTED"
  by code_simp

lemma sample_eligible:
  "map et_ref (fp_eligible (project_ready_frontier sample_snapshot default_frontier_limits)) =
   [TaskRef ''p'' ''b'', TaskRef ''q'' ''f'']"
  by code_simp

lemma sample_held:
  "map (\<lambda>h. (ht_ref h, ht_reasons h)) (fp_held (project_ready_frontier sample_snapshot default_frontier_limits)) =
   [(TaskRef ''p'' ''a'', [TASK_TERMINAL]), (TaskRef ''p'' ''c'', [TASK_RUNNING]),
    (TaskRef ''p'' ''d'', [WRITE_SCOPE_CONFLICT]), (TaskRef ''p'' ''e'', [DEPENDENCY_PENDING])]"
  by code_simp

lemma sample_waves:
  "map_sum id (map (\<lambda>w. map sc_ref (sw_tasks w))) (schedule_chained_waves sample_plans default_frontier_limits) =
   Inr [[TaskRef ''p'' ''c''], [TaskRef ''p'' ''b'', TaskRef ''p'' ''d'', TaskRef ''q'' ''f''], [TaskRef ''p'' ''e'']]"
  by code_simp

abbreviation sample_frontier :: frontier_projection where
  "sample_frontier \<equiv> project_ready_frontier sample_snapshot default_frontier_limits"

lemma sample_rows: "fs_projects sample_snapshot = sample_plans"
  by (simp add: sample_snapshot_def)

lemma sample_row_members:
  "(''p'', sample_task ''c'' ''running'' [] [''docs/**'']) \<in> set (snapshot_rows sample_plans)"
  "(''p'', sample_task ''d'' '' Ready '' [] [''docs/x'']) \<in> set (snapshot_rows sample_plans)"
  "(''p'', sample_task ''e'' ''pending'' [TaskRef ''p'' ''b''] []) \<in> set (snapshot_rows sample_plans)"
  by (simp_all add: sample_plans_def snapshot_rows_def) code_simp+

text \<open>Witnesses of the frontier properties.\<close>

theorem frontier_reports_each_task_once_witness:
  "mset (map et_ref (fp_eligible sample_frontier) @ map ht_ref (fp_held sample_frontier)) =
   mset_set (row_ref ` set (snapshot_rows (fs_projects sample_snapshot)))"
  by (rule frontier_reports_each_task_once [OF sample_projected])

definition sample_first :: eligible_task where
  "sample_first = hd (fp_eligible sample_frontier)"

lemma sample_first_in: "sample_first \<in> set (fp_eligible sample_frontier)"
  using sample_eligible by (cases "fp_eligible sample_frontier") (auto simp: sample_first_def)

lemma sample_first_fields: "et_project_id sample_first = ''p''" "et_owns sample_first = [''src/api/**'']"
  by code_simp+

theorem eligible_tasks_may_start_witness:
  "\<exists>(p, t) \<in> set (snapshot_rows (fs_projects sample_snapshot)).
    et_ref sample_first = row_ref (p, t) \<and> et_owns sample_first = fst (clean_scopes (pt_owns t)) \<and>
    startable (snapshot_rows (fs_projects sample_snapshot)) t"
  by (rule eligible_tasks_may_start [OF sample_projected sample_first_in])

theorem eligible_tasks_share_no_scope_witness: "scopes_clear [''src/api/**''] [''docs/**'']"
proof -
  let ?c = "sample_task ''c'' ''running'' [] [''docs/**'']"
  have c: "py_normalized (pt_kind ?c) = ''child_task''" "py_normalized (pt_status ?c) = ''running''"
    "fst (clean_scopes (pt_owns ?c)) = [''docs/**'']" by code_simp+
  have all: "\<forall>(p, t) \<in> set (snapshot_rows sample_plans). p = et_project_id sample_first \<and>
      py_normalized (pt_kind t) = ''child_task'' \<and> py_normalized (pt_status t) = ''running'' \<longrightarrow>
      scopes_clear (et_owns sample_first) (fst (clean_scopes (pt_owns t)))"
    using conjunct2 [OF eligible_tasks_share_no_scope [OF sample_projected]] sample_first_in
    unfolding sample_rows by (rule bspec)
  have "scopes_clear (et_owns sample_first) (fst (clean_scopes (pt_owns ?c)))"
    by (rule mp [OF bspec [OF all sample_row_members(1), unfolded prod.case]])
       (intro conjI c(1,2) sample_first_fields(1) [symmetric])
  then show ?thesis by (simp only: c(3) sample_first_fields(2))
qed

theorem frontier_respects_limits_witness:
  "int (card (et_project_id ` set (fp_eligible sample_frontier))) \<le> fl_active_projects default_frontier_limits \<and>
   int (length (filter (\<lambda>e. et_project_id e = ''p'') (fp_eligible sample_frontier)))
     \<le> fl_child_slots default_frontier_limits"
  by (rule frontier_respects_limits [OF sample_projected])

definition sample_held_d :: held_task where
  "sample_held_d = fp_held sample_frontier ! 2"

lemma sample_held_d_in: "sample_held_d \<in> set (fp_held sample_frontier)"
proof -
  have "length (map (\<lambda>h. (ht_ref h, ht_reasons h)) (fp_held sample_frontier)) = 4" unfolding sample_held by simp
  then show ?thesis unfolding sample_held_d_def by (intro nth_mem) simp
qed

theorem startable_tasks_are_held_for_cause_witness:
  "\<exists>(q, u) \<in> set (snapshot_rows sample_plans). q = ''p'' \<and> py_normalized (pt_kind u) = ''child_task'' \<and>
     py_normalized (pt_status u) = ''running'' \<and> scopes_overlap [''docs/x''] (fst (clean_scopes (pt_owns u)))"
proof -
  let ?d = "sample_task ''d'' '' Ready '' [] [''docs/x'']" and ?E = "fp_eligible sample_frontier"
  have start: "startable (snapshot_rows (fs_projects sample_snapshot)) ?d" by code_simp
  have ref: "ht_ref sample_held_d = row_ref (''p'', ?d)" by code_simp
  have row: "(''p'', ?d) \<in> set (snapshot_rows (fs_projects sample_snapshot))"
    using sample_row_members(2) by (simp only: sample_rows)
  have c: "fst (clean_scopes (pt_owns ?d)) = [''docs/x'']" by code_simp
  have slots: "int (length (filter (\<lambda>e. et_project_id e = ''p'') ?E)) = 1"
    "fl_child_slots default_frontier_limits = 5" by code_simp+
  have active: "int (card (et_project_id ` set ?E)) = 2" "fl_active_projects default_frontier_limits = 3" by code_simp+
  have clear: "list_all (\<lambda>e. \<not> (et_project_id e = ''p'' \<and> scopes_overlap [''docs/x''] (et_owns e))) ?E" by code_simp
  show ?thesis
    using startable_tasks_are_held_for_cause [OF sample_projected row start sample_held_d_in ref]
    unfolding Let_def slots active c sample_rows using clear by (auto simp: list_all_iff)
qed

definition sample_wave_list :: "scheduled_wave list" where
  "sample_wave_list = projr (schedule_chained_waves sample_plans default_frontier_limits)"

lemma sample_scheduled: "schedule_chained_waves sample_plans default_frontier_limits = Inr sample_wave_list"
  using sample_waves unfolding sample_wave_list_def
  by (cases "schedule_chained_waves sample_plans default_frontier_limits") simp_all

lemma sample_wave_refs:
  "map (\<lambda>w. map sc_ref (sw_tasks w)) sample_wave_list =
   [[TaskRef ''p'' ''c''], [TaskRef ''p'' ''b'', TaskRef ''p'' ''d'', TaskRef ''q'' ''f''], [TaskRef ''p'' ''e'']]"
  using sample_waves unfolding sample_scheduled by simp

lemma sample_wave_length: "length sample_wave_list = 3"
  using arg_cong [OF sample_wave_refs, of length] by simp

theorem waves_hold_all_work_once_witness:
  "mset (map sc_ref (concat (map sw_tasks sample_wave_list))) = mset_set (schedulable_refs (snapshot_rows sample_plans))"
  by (rule waves_hold_all_work_once [OF sample_scheduled])

theorem waves_respect_dependencies_witness:
  "(\<exists>(q, v) \<in> set (snapshot_rows sample_plans). row_ref (q, v) = TaskRef ''p'' ''b'' \<and>
      py_normalized (pt_status v) \<in> {''completed'', ''skipped''}) \<or>
   (\<exists>j < 2. TaskRef ''p'' ''b'' \<in> sc_ref ` set (sw_tasks (sample_wave_list ! j)))"
proof (rule waves_respect_dependencies [OF sample_scheduled _ _ _ sample_row_members(3)])
  let ?t = "hd (sw_tasks (sample_wave_list ! 2))"
  show "2 < length sample_wave_list" by (simp add: sample_wave_length)
  have refs: "map sc_ref (sw_tasks (sample_wave_list ! 2)) = [TaskRef ''p'' ''e'']"
    using arg_cong [OF sample_wave_refs, of "\<lambda>ws. ws ! 2"] by (simp add: sample_wave_length)
  then show "?t \<in> set (sw_tasks (sample_wave_list ! 2))" by (cases "sw_tasks (sample_wave_list ! 2)") auto
  show "row_ref (''p'', sample_task ''e'' ''pending'' [TaskRef ''p'' ''b''] []) = sc_ref ?t"
    using refs by (cases "sw_tasks (sample_wave_list ! 2)") (auto simp: row_ref_def sample_task_def, code_simp)
  show "sc_running ?t = False" by code_simp
  show "py_normalized (pt_kind (sample_task ''e'' ''pending'' [TaskRef ''p'' ''b''] [])) = ''child_task''" by code_simp
  show "TaskRef ''p'' ''b'' \<in> set (pt_start (sample_task ''e'' ''pending'' [TaskRef ''p'' ''b''] []))" by (simp add: sample_task_def)
qed

theorem waves_fit_limits_witness:
  "sw_index (sample_wave_list ! 1) = int 1 \<and>
   (list_all sc_running (sw_tasks (sample_wave_list ! 1)) \<or>
    wave_fits default_frontier_limits (map sc_ref (sw_tasks (sample_wave_list ! 1))))"
  by (rule waves_fit_limits [OF sample_scheduled]) (simp add: sample_wave_length)

section \<open>Skipped dependencies\<close>

definition skipped_plans :: "project_plan list" where
  "skipped_plans = [\<lparr>pp_project_id = ''p'', pp_tasks =
     [sample_task ''a'' ''skipped'' [] [], sample_task ''b'' ''pending'' [TaskRef ''p'' ''a''] []]\<rparr>]"

text \<open>The two functions of the module read a skipped dependency differently: the scheduler puts the
  dependent into the first wave, the frontier holds it as blocked, so the wave never starts.\<close>

lemma skipped_dependency_disagreement:
  "map_sum id (map (\<lambda>w. map sc_ref (sw_tasks w))) (schedule_chained_waves skipped_plans default_frontier_limits) =
     Inr [[TaskRef ''p'' ''b'']] \<and>
   map (\<lambda>h. (ht_ref h, ht_reasons h)) (fp_held (project_ready_frontier
     \<lparr>fs_owner_id = ''owner'', fs_source = ''owner_db'', fs_complete = True, fs_projects = skipped_plans\<rparr>
     default_frontier_limits)) =
     [(TaskRef ''p'' ''a'', [TASK_TERMINAL]), (TaskRef ''p'' ''b'', [DEPENDENCY_BLOCKED])]"
  by code_simp

end
