(* ===== verification/Slot_Policy.thy ===== *)
theory Slot_Policy
  imports Decimal_Text
begin

text \<open>
  The child-slot admission policy of \<open>project_slot_policy.py\<close>: one pure decision,
  \<open>evaluate_slot_admission\<close>, on an observed snapshot of slots, with its fixed precedence
  (structural denials, conflicting records, candidate checks, the two maxima).

  Limits are integers; a caller that passes an object of another type is not modelled.  Dictionaries
  keep insertion order as association lists.
\<close>

section \<open>Enumerations\<close>

datatype slot_state = SLOT_RESERVED | SLOT_EXECUTING | SLOT_QUEUED | SLOT_BLOCKED | SLOT_TERMINAL

fun slot_state_value :: "slot_state \<Rightarrow> string" where
  "slot_state_value SLOT_RESERVED = ''reserved''"
| "slot_state_value SLOT_EXECUTING = ''executing''"
| "slot_state_value SLOT_QUEUED = ''queued''"
| "slot_state_value SLOT_BLOCKED = ''blocked''"
| "slot_state_value SLOT_TERMINAL = ''terminal''"

definition SLOT_STATE_VALUES :: "string list" where
  "SLOT_STATE_VALUES = map slot_state_value [SLOT_RESERVED, SLOT_EXECUTING, SLOT_QUEUED, SLOT_BLOCKED, SLOT_TERMINAL]"

definition OCCUPYING_VALUES :: "string list" where
  "OCCUPYING_VALUES = map slot_state_value [SLOT_RESERVED, SLOT_EXECUTING]"

definition SLOT_KIND_VALUES :: "string list" where
  "SLOT_KIND_VALUES = [''child_task'', ''plan_wrapper'', ''wave_wrapper'', ''orchestrator_turn'']"

datatype admission_status = SA_ADMITTED | SA_REJECTED | SA_DENIED

datatype admission_reason =
    SR_ADMITTED | SR_NON_OCCUPYING_CANDIDATE
  | SR_PROJECT_LIMIT_REACHED | SR_PROJECT_SLOT_LIMIT_REACHED
  | SR_INVALID_LIMIT | SR_MISSING_IDENTITY | SR_UNKNOWN_SLOT_KIND | SR_UNKNOWN_SLOT_STATE
  | SR_UNKNOWN_SNAPSHOT_SOURCE | SR_INCOMPLETE_SNAPSHOT | SR_OWNER_MISMATCH
  | SR_CONFLICTING_SLOT_RECORD | SR_CONFLICTING_PROJECT_IDENTITY | SR_CONFLICTING_TASK_IDENTITY
  | SR_CANDIDATE_NOT_CHILD_TASK | SR_SLOT_ALREADY_ACTIVE

definition ADMISSION_REASONS :: "admission_reason list" where
  \<comment> \<open>the enumeration order\<close>
  "ADMISSION_REASONS =
     [SR_ADMITTED, SR_NON_OCCUPYING_CANDIDATE, SR_PROJECT_LIMIT_REACHED, SR_PROJECT_SLOT_LIMIT_REACHED,
      SR_INVALID_LIMIT, SR_MISSING_IDENTITY, SR_UNKNOWN_SLOT_KIND, SR_UNKNOWN_SLOT_STATE,
      SR_UNKNOWN_SNAPSHOT_SOURCE, SR_INCOMPLETE_SNAPSHOT, SR_OWNER_MISMATCH, SR_CONFLICTING_SLOT_RECORD,
      SR_CONFLICTING_PROJECT_IDENTITY, SR_CONFLICTING_TASK_IDENTITY, SR_CANDIDATE_NOT_CHILD_TASK,
      SR_SLOT_ALREADY_ACTIVE]"

definition DENIED_REASONS :: "admission_reason list" where
  "DENIED_REASONS =
     [SR_INVALID_LIMIT, SR_MISSING_IDENTITY, SR_UNKNOWN_SLOT_KIND, SR_UNKNOWN_SLOT_STATE,
      SR_UNKNOWN_SNAPSHOT_SOURCE, SR_INCOMPLETE_SNAPSHOT, SR_OWNER_MISMATCH, SR_CONFLICTING_SLOT_RECORD,
      SR_CONFLICTING_PROJECT_IDENTITY, SR_CONFLICTING_TASK_IDENTITY, SR_CANDIDATE_NOT_CHILD_TASK,
      SR_SLOT_ALREADY_ACTIVE]"

definition REJECTED_REASONS :: "admission_reason list" where
  "REJECTED_REASONS = [SR_PROJECT_LIMIT_REACHED, SR_PROJECT_SLOT_LIMIT_REACHED]"

definition STRUCTURAL_REASONS :: "admission_reason list" where
  "STRUCTURAL_REASONS =
     [SR_INVALID_LIMIT, SR_MISSING_IDENTITY, SR_UNKNOWN_SLOT_KIND, SR_UNKNOWN_SLOT_STATE,
      SR_UNKNOWN_SNAPSHOT_SOURCE, SR_INCOMPLETE_SNAPSHOT, SR_OWNER_MISMATCH]"

definition ordered_admission_reasons :: "admission_reason list \<Rightarrow> admission_reason list" where
  "ordered_admission_reasons collected = filter (\<lambda>r. r \<in> set collected) ADMISSION_REASONS"

section \<open>Records\<close>

record slot_limits =
  sl_active_projects :: int
  sl_child_slots :: int

definition default_slot_limits :: slot_limits where
  "default_slot_limits = \<lparr>sl_active_projects = 3, sl_child_slots = 5\<rparr>"

definition slot_ceiling :: "slot_limits \<Rightarrow> int" where
  \<comment> \<open>\<open>derived_global_ceiling\<close>\<close>
  "slot_ceiling limits =
     (if 1 \<le> sl_active_projects limits \<and> 1 \<le> sl_child_slots limits
      then sl_active_projects limits * sl_child_slots limits else 0)"

definition reported_limit :: "int \<Rightarrow> int" where
  "reported_limit value = (if 1 \<le> value then value else 0)"

record slot_record =
  so_project_id :: string
  so_task_id :: string
  so_slot_id :: string
  so_kind :: string
  so_state :: string

record slot_snapshot =
  sn_owner_id :: string
  sn_source :: string
  sn_complete :: bool
  sn_slots :: "slot_record list"

record slot_request =
  sq_owner_id :: string
  sq_candidate :: slot_record
  sq_limits :: slot_limits

record slot_counts =
  ct_active_projects :: int
  ct_occupied :: int
  ct_by_project :: "(string \<times> int) list"
  ct_candidate_project :: int
  ct_project_limit :: int
  ct_slots_limit :: int
  ct_ceiling :: int
  ct_excluded :: int

record slot_decision =
  sd_status :: admission_status
  sd_reasons :: "admission_reason list"
  sd_counts :: slot_counts
  sd_counts_authoritative :: bool
  sd_detail :: string

definition sd_reason :: "slot_decision \<Rightarrow> admission_reason" where
  "sd_reason d = hd (sd_reasons d)"

definition sd_admitted :: "slot_decision \<Rightarrow> bool" where
  "sd_admitted d = (sd_status d = SA_ADMITTED \<and> sd_reason d = SR_ADMITTED)"

definition sd_occupies_slot :: "slot_decision \<Rightarrow> bool" where
  "sd_occupies_slot d = (sd_status d = SA_ADMITTED \<and> sd_reason d = SR_ADMITTED)"

section \<open>Helpers\<close>

definition identity_text :: "string \<Rightarrow> string option" where
  "identity_text s = (if py_strip s = [] then None else Some (py_strip s))"

definition slot_token :: "string \<Rightarrow> string" where
  \<comment> \<open>\<open>_normalized\<close>\<close>
  "slot_token s = py_lower (py_strip s)"

definition slot_identity :: "slot_record \<Rightarrow> (string \<times> string \<times> string) option" where
  "slot_identity r =
     (let p = py_strip (so_project_id r); t = py_strip (so_task_id r); s = py_strip (so_slot_id r)
      in if p = [] \<or> t = [] \<or> s = [] then None else Some (p, t, s))"

definition slot_occupies :: "slot_record \<Rightarrow> bool" where
  \<comment> \<open>\<open>_ValidatedRecord.occupies\<close>, on normalised rows\<close>
  "slot_occupies r = (so_kind r = ''child_task'' \<and> so_state r \<in> set OCCUPYING_VALUES)"

definition status_for :: "admission_reason list \<Rightarrow> admission_status" where
  "status_for reasons =
     (if list_ex (\<lambda>r. r \<in> set DENIED_REASONS) reasons then SA_DENIED
      else if list_ex (\<lambda>r. r \<in> set REJECTED_REASONS) reasons then SA_REJECTED else SA_ADMITTED)"

definition count_or_zero :: "(string \<times> int) list \<Rightarrow> string \<Rightarrow> int" where
  "count_or_zero d p = (case dict_get d p of Some n \<Rightarrow> n | None \<Rightarrow> 0)"

definition make_counts :: "slot_limits \<Rightarrow> (string \<times> int) list \<Rightarrow> string \<Rightarrow> int \<Rightarrow> slot_counts" where
  "make_counts limits occupied candidate_project excluded =
     (let ordered = sort_key fst occupied
      in \<lparr>ct_active_projects = int (length ordered), ct_occupied = sum_list (map snd ordered),
          ct_by_project = ordered, ct_candidate_project = count_or_zero occupied candidate_project,
          ct_project_limit = reported_limit (sl_active_projects limits),
          ct_slots_limit = reported_limit (sl_child_slots limits),
          ct_ceiling = slot_ceiling limits, ct_excluded = excluded\<rparr>)"

definition empty_counts :: "slot_limits \<Rightarrow> string \<Rightarrow> slot_counts" where
  "empty_counts limits candidate_project = make_counts limits [] candidate_project 0"

definition make_decision :: "admission_reason list \<Rightarrow> slot_counts \<Rightarrow> bool \<Rightarrow> string \<Rightarrow> slot_decision" where
  "make_decision reasons counts authoritative detail =
     \<lparr>sd_status = status_for reasons, sd_reasons = reasons, sd_counts = counts,
      sd_counts_authoritative = authoritative, sd_detail = detail\<rparr>"

section \<open>Validation\<close>

definition reason_if :: "bool \<Rightarrow> admission_reason \<Rightarrow> admission_reason list" where
  "reason_if b r = (if b then [r] else [])"

definition request_reasons :: "slot_request \<Rightarrow> slot_snapshot \<Rightarrow> admission_reason list" where
  "request_reasons request snapshot =
     (let limits = sq_limits request; candidate = sq_candidate request
      in reason_if (sl_active_projects limits < 1 \<or> sl_child_slots limits < 1) SR_INVALID_LIMIT @
         reason_if (slot_identity candidate = None) SR_MISSING_IDENTITY @
         reason_if (slot_token (so_kind candidate) \<notin> set SLOT_KIND_VALUES) SR_UNKNOWN_SLOT_KIND @
         reason_if (slot_token (so_state candidate) \<notin> set SLOT_STATE_VALUES) SR_UNKNOWN_SLOT_STATE @
         reason_if (slot_token (sn_source snapshot) \<noteq> ''owner_db'') SR_UNKNOWN_SNAPSHOT_SOURCE @
         reason_if (\<not> sn_complete snapshot) SR_INCOMPLETE_SNAPSHOT @
         (case (identity_text (sn_owner_id snapshot), identity_text (sq_owner_id request)) of
            (Some a, Some b) \<Rightarrow> reason_if (a \<noteq> b) SR_OWNER_MISMATCH
          | _ \<Rightarrow> [SR_MISSING_IDENTITY]))"

definition normalized_slot :: "slot_record \<Rightarrow> slot_record" where
  "normalized_slot r =
     \<lparr>so_project_id = py_strip (so_project_id r), so_task_id = py_strip (so_task_id r),
      so_slot_id = py_strip (so_slot_id r), so_kind = slot_token (so_kind r), so_state = slot_token (so_state r)\<rparr>"

definition record_reasons :: "slot_record \<Rightarrow> admission_reason list" where
  "record_reasons r =
     (if slot_identity r = None then [SR_MISSING_IDENTITY]
      else reason_if (slot_token (so_kind r) \<notin> set SLOT_KIND_VALUES) SR_UNKNOWN_SLOT_KIND @
           reason_if (slot_token (so_state r) \<notin> set SLOT_STATE_VALUES) SR_UNKNOWN_SLOT_STATE)"

definition validated_slots :: "slot_record list \<Rightarrow> slot_record list" where
  "validated_slots records = map normalized_slot (filter (\<lambda>r. slot_identity r \<noteq> None) records)"

section \<open>Collapsing aliases\<close>

record slot_books =
  sb_reasons :: "admission_reason list"
  sb_unique :: "slot_record list"
  sb_by_slot :: "(string \<times> slot_record) list"
  sb_task_slot :: "((string \<times> string) \<times> string) list"

definition collapse_row :: "slot_books \<Rightarrow> slot_record \<Rightarrow> slot_books" where
  "collapse_row b row =
     (case dict_get (sb_by_slot b) (so_slot_id row) of
        Some existing \<Rightarrow>
          b\<lparr>sb_reasons := sb_reasons b @
               (if so_project_id existing \<noteq> so_project_id row then [SR_CONFLICTING_PROJECT_IDENTITY]
                else if existing \<noteq> row then [SR_CONFLICTING_SLOT_RECORD] else [])\<rparr>
      | None \<Rightarrow>
          (let key = (so_project_id row, so_task_id row);
               clash = (case dict_get (sb_task_slot b) key of
                          Some prior \<Rightarrow> prior \<noteq> so_slot_id row | None \<Rightarrow> False)
           in \<lparr>sb_reasons = sb_reasons b @ reason_if clash SR_CONFLICTING_TASK_IDENTITY,
               sb_unique = sb_unique b @ [row],
               sb_by_slot = dict_set (sb_by_slot b) (so_slot_id row) row,
               sb_task_slot = (if clash then sb_task_slot b
                               else dict_set (sb_task_slot b) key (so_slot_id row))\<rparr>))"

definition collapse_slots :: "slot_record list \<Rightarrow> slot_books" where
  "collapse_slots rows =
     foldl collapse_row \<lparr>sb_reasons = [], sb_unique = [], sb_by_slot = [], sb_task_slot = []\<rparr> rows"

definition occupied_by_project :: "slot_record list \<Rightarrow> (string \<times> int) list" where
  "occupied_by_project rows =
     foldl (\<lambda>d row. dict_set d (so_project_id row) (count_or_zero d (so_project_id row) + 1)) [] (filter slot_occupies rows)"

section \<open>The decision\<close>

definition quoted :: "string \<Rightarrow> string" where
  \<comment> \<open>\<open>!r\<close> of a text without quotes, backslashes and control characters\<close>
  "quoted s = [CHR 0x27] @ s @ [CHR 0x27]"

definition decide_candidate ::
  "slot_limits \<Rightarrow> slot_record \<Rightarrow> slot_books \<Rightarrow> slot_counts \<Rightarrow> (string \<times> int) list \<Rightarrow> slot_decision" where
  \<comment> \<open>the candidate-side resolution; the candidate is normalised\<close>
  "decide_candidate limits c books counts occupied =
     (let p = so_project_id c; occupies = so_state c \<in> set OCCUPYING_VALUES;
          verdict = (\<lambda>reason detail. make_decision [reason] counts True detail)
      in if so_kind c \<noteq> ''child_task'' then
           verdict SR_CANDIDATE_NOT_CHILD_TASK ''denied: candidate is not a child task and cannot occupy a slot''
         else if occupies \<and>
             ((case dict_get (sb_by_slot books) (so_slot_id c) of Some r \<Rightarrow> slot_occupies r | None \<Rightarrow> False) \<or>
              (case dict_get (sb_task_slot books) (p, so_task_id c) of Some s \<Rightarrow> s \<noteq> so_slot_id c | None \<Rightarrow> False)) then
           verdict SR_SLOT_ALREADY_ACTIVE
             (''denied: slot '' @ quoted (so_slot_id c) @ '' is already reserved or executing'')
         else if \<not> occupies then
           verdict SR_NON_OCCUPYING_CANDIDATE
             (''admitted: non-occupying child state consumes no execution slot '' @
              ''and is not permission to spawn a child process'')
         else if dict_get occupied p \<noteq> None then
           (if sl_child_slots limits \<le> ct_candidate_project counts then
              verdict SR_PROJECT_SLOT_LIMIT_REACHED
                (''rejected: project '' @ quoted p @ '' already has '' @ int_text (ct_candidate_project counts) @
                 '' executing child slots (limit '' @ int_text (sl_child_slots limits) @ '')'')
            else verdict SR_ADMITTED (''admitted: project '' @ quoted p @ '' may occupy one child slot''))
         else if sl_active_projects limits \<le> ct_active_projects counts then
           verdict SR_PROJECT_LIMIT_REACHED
             (''rejected: '' @ int_text (ct_active_projects counts) @
              '' projects already have executing child slots (limit '' @ int_text (sl_active_projects limits) @ '')'')
         else verdict SR_ADMITTED (''admitted: project '' @ quoted p @ '' may occupy one child slot''))"

definition evaluate_slot_admission :: "slot_request \<Rightarrow> slot_snapshot \<Rightarrow> slot_decision" where
  "evaluate_slot_admission request snapshot =
     (let limits = sq_limits request; candidate = normalized_slot (sq_candidate request);
          candidate_project = (case slot_identity (sq_candidate request) of Some (p, _, _) \<Rightarrow> p | None \<Rightarrow> []);
          reasons = request_reasons request snapshot @ concat (map record_reasons (sn_slots snapshot))
      in if list_ex (\<lambda>r. r \<in> set STRUCTURAL_REASONS) reasons then
           make_decision (ordered_admission_reasons reasons) (empty_counts limits candidate_project) False
             ''denied: snapshot or request could not be fully validated''
         else let books = collapse_slots (validated_slots (sn_slots snapshot))
              in if reasons @ sb_reasons books \<noteq> [] then
                   make_decision (ordered_admission_reasons (reasons @ sb_reasons books))
                     (empty_counts limits candidate_project) False
                     ''denied: conflicting or malformed slot identity in snapshot''
                 else let occupied = occupied_by_project (sb_unique books);
                          excluded = int (length (filter (\<lambda>r. \<not> slot_occupies r) (sb_unique books)))
                      in decide_candidate limits candidate books
                           (make_counts limits occupied candidate_project excluded) occupied)"

end
