(* ===== verification/Slot_Policy_Laws.thy ===== *)
theory Slot_Policy_Laws
  imports Slot_Policy Loop_Laws
begin

text \<open>
  What the child-slot policy promises: launch authority only for a sound request on a sound
  snapshot with room in both maxima, and, for every sequence of admissions, reservations and
  releases, that the occupied slots stay inside the maxima.
\<close>

lemma reason_if_simps [simp]:
  "reason_if b r = [] \<longleftrightarrow> \<not> b" "set (reason_if b r) = (if b then {r} else {})"
  by (simp_all add: reason_if_def)

section \<open>Collapsed rows\<close>

definition books_of :: "slot_record list \<Rightarrow> slot_books \<Rightarrow> bool" where
  \<comment> \<open>without a conflict the books list the rows once, by slot and by task\<close>
  "books_of rows b \<longleftrightarrow> (sb_reasons b = [] \<longrightarrow>
     distinct (map so_slot_id (sb_unique b)) \<and> set (sb_unique b) = set rows \<and>
     (\<forall>i r. dict_get (sb_by_slot b) i = Some r \<longleftrightarrow> r \<in> set rows \<and> so_slot_id r = i) \<and>
     (\<forall>p t i. dict_get (sb_task_slot b) (p, t) = Some i \<longleftrightarrow>
        (\<exists>r \<in> set rows. so_project_id r = p \<and> so_task_id r = t \<and> so_slot_id r = i)))"

lemma collapse_row_kept: "sb_reasons (collapse_row b row) = [] \<Longrightarrow> sb_reasons b = []"
  by (auto simp: collapse_row_def Let_def split: option.splits)

lemma collapse_row_books:
  assumes "books_of rows b"
  shows "books_of (rows @ [row]) (collapse_row b row)"
  unfolding books_of_def
proof (rule impI)
  assume none: "sb_reasons (collapse_row b row) = []"
  then have "sb_reasons b = []" by (rule collapse_row_kept)
  then have dist: "distinct (map so_slot_id (sb_unique b))" and uniq: "set (sb_unique b) = set rows"
    and by_slot: "\<And>i r. dict_get (sb_by_slot b) i = Some r \<longleftrightarrow> r \<in> set rows \<and> so_slot_id r = i"
    and by_task: "\<And>p t i. dict_get (sb_task_slot b) (p, t) = Some i \<longleftrightarrow>
        (\<exists>r \<in> set rows. so_project_id r = p \<and> so_task_id r = t \<and> so_slot_id r = i)"
    using assms unfolding books_of_def by blast+
  let ?b = "collapse_row b row" and ?id = "so_slot_id row" and ?key = "(so_project_id row, so_task_id row)"
  show "distinct (map so_slot_id (sb_unique ?b)) \<and> set (sb_unique ?b) = set (rows @ [row]) \<and>
     (\<forall>i r. dict_get (sb_by_slot ?b) i = Some r \<longleftrightarrow> r \<in> set (rows @ [row]) \<and> so_slot_id r = i) \<and>
     (\<forall>p t i. dict_get (sb_task_slot ?b) (p, t) = Some i \<longleftrightarrow>
        (\<exists>r \<in> set (rows @ [row]). so_project_id r = p \<and> so_task_id r = t \<and> so_slot_id r = i))"
  proof (cases "dict_get (sb_by_slot b) ?id")
    case (Some old)
    then have "old = row" using none by (auto simp: collapse_row_def split: if_splits)
    then have mem: "row \<in> set rows" using Some by_slot by blast
    have same: "sb_unique ?b = sb_unique b" "sb_by_slot ?b = sb_by_slot b" "sb_task_slot ?b = sb_task_slot b"
      by (simp_all add: collapse_row_def Some)
    have "set (rows @ [row]) = set rows" using mem by auto
    then show ?thesis unfolding same using dist uniq by_slot by_task by simp
  next
    case None
    then have fresh: "\<And>r. r \<in> set rows \<Longrightarrow> so_slot_id r \<noteq> ?id" using by_slot by (metis option.distinct(1))
    have free: "dict_get (sb_task_slot b) ?key = None"
    proof (rule ccontr)
      assume "dict_get (sb_task_slot b) ?key \<noteq> None"
      then obtain i where i: "dict_get (sb_task_slot b) ?key = Some i" by blast
      then obtain r where "r \<in> set rows" "so_slot_id r = i" using by_task by blast
      then have "i \<noteq> ?id" using fresh by blast
      then show False using none i None by (simp add: collapse_row_def Let_def)
    qed
    have new: "sb_unique ?b = sb_unique b @ [row]" "sb_by_slot ?b = dict_set (sb_by_slot b) ?id row"
      "sb_task_slot ?b = dict_set (sb_task_slot b) ?key ?id"
      by (simp_all add: collapse_row_def None free Let_def)
    show ?thesis
    proof (intro conjI allI)
      have "?id \<notin> so_slot_id ` set rows" using fresh by (metis imageE)
      then show "distinct (map so_slot_id (sb_unique ?b))" using dist uniq by (simp add: new)
      show "set (sb_unique ?b) = set (rows @ [row])" using uniq by (simp add: new)
      fix i r
      show "dict_get (sb_by_slot ?b) i = Some r \<longleftrightarrow> r \<in> set (rows @ [row]) \<and> so_slot_id r = i"
        using by_slot [of i r] fresh by (auto simp: new)
    next
      fix p t i
      have "(p, t) = ?key \<Longrightarrow> \<not> (\<exists>r \<in> set rows. so_project_id r = p \<and> so_task_id r = t \<and> so_slot_id r = i)"
        using free by_task [of p t i] by simp
      then show "dict_get (sb_task_slot ?b) (p, t) = Some i \<longleftrightarrow>
          (\<exists>r \<in> set (rows @ [row]). so_project_id r = p \<and> so_task_id r = t \<and> so_slot_id r = i)"
        using by_task [of p t i] by (auto simp: new)
    qed
  qed
qed

lemma collapse_slots_books: "books_of rows (collapse_slots rows)"
  unfolding collapse_slots_def
  by (rule foldl_prefix_invariant [where I = books_of]) (simp add: books_of_def, rule collapse_row_books)

lemma books_ofD:
  assumes "books_of rows b" "sb_reasons b = []"
  shows "distinct (map so_slot_id (sb_unique b))" "set (sb_unique b) = set rows"
    and "dict_get (sb_by_slot b) i = Some r \<longleftrightarrow> r \<in> set rows \<and> so_slot_id r = i"
    and "dict_get (sb_task_slot b) (p, t) = Some j \<longleftrightarrow>
      (\<exists>r \<in> set rows. so_project_id r = p \<and> so_task_id r = t \<and> so_slot_id r = j)"
  using assms unfolding books_of_def by blast+

section \<open>Counting occupied slots\<close>

lemma occupied_counts:
  assumes "foldl (\<lambda>d row. dict_set d (so_project_id row) (count_or_zero d (so_project_id row) + 1)) d0 rows = d"
    "\<And>p. dict_get d0 p = (if n0 p = 0 then None else Some (int (n0 p)))" "distinct (map fst d0)"
  shows "dict_get d p = (let n = n0 p + length (filter (\<lambda>r. so_project_id r = p) rows)
           in if n = 0 then None else Some (int n)) \<and> distinct (map fst d)"
  using assms
proof (induction rows arbitrary: d0 n0)
  case (Cons r rows)
  let ?q = "so_project_id r"
  let ?d1 = "dict_set d0 ?q (count_or_zero d0 ?q + 1)" and ?n1 = "n0(?q := n0 ?q + 1)"
  have "dict_get ?d1 p = (if ?n1 p = 0 then None else Some (int (?n1 p)))" for p
    using Cons.prems(2) [of ?q] Cons.prems(2) [of p] by (simp add: count_or_zero_def)
  moreover have "distinct (map fst ?d1)" using Cons.prems(3) by (rule distinct_dict_set)
  ultimately have "dict_get d p = (let n = ?n1 p + length (filter (\<lambda>r. so_project_id r = p) rows)
      in if n = 0 then None else Some (int n)) \<and> distinct (map fst d)"
    using Cons.IH [of ?d1 ?n1] Cons.prems(1) by simp
  then show ?case by (simp add: Let_def split: if_splits)
qed (simp add: Let_def)

lemma occupied_by_project_spec:
  "dict_get (occupied_by_project rows) p =
     (let n = length (filter (\<lambda>r. slot_occupies r \<and> so_project_id r = p) rows) in if n = 0 then None else Some (int n))"
  "distinct (map fst (occupied_by_project rows))"
proof -
  have "dict_get (occupied_by_project rows) p =
      (let n = 0 + length (filter (\<lambda>r. so_project_id r = p) (filter slot_occupies rows))
       in if n = 0 then None else Some (int n)) \<and> distinct (map fst (occupied_by_project rows))" for p
    by (rule occupied_counts [where ?n0.0 = "\<lambda>_. 0" and ?d0.0 = "[]"]) (simp_all add: occupied_by_project_def)
  then show "dict_get (occupied_by_project rows) p =
     (let n = length (filter (\<lambda>r. slot_occupies r \<and> so_project_id r = p) rows) in if n = 0 then None else Some (int n))"
    "distinct (map fst (occupied_by_project rows))" by (simp_all add: conj_commute)
qed

text \<open>The slots a snapshot shows as occupied: pairs of project and slot.\<close>

definition occupied_slots :: "slot_record list \<Rightarrow> (string \<times> string) set" where
  "occupied_slots records = {(so_project_id r, so_slot_id r) | r. r \<in> set (validated_slots records) \<and> slot_occupies r}"

lemma finite_occupied [simp]: "finite (occupied_slots records)"
proof -
  have "occupied_slots records = (\<lambda>r. (so_project_id r, so_slot_id r)) ` {r \<in> set (validated_slots records). slot_occupies r}"
    by (auto simp: occupied_slots_def)
  then show ?thesis by simp
qed

definition slots_of :: "slot_record list \<Rightarrow> string \<Rightarrow> string set" where
  "slots_of records p = {i. (p, i) \<in> occupied_slots records}"

definition active_of :: "slot_record list \<Rightarrow> string set" where
  "active_of records = fst ` occupied_slots records"

lemma unique_counts:
  assumes "books_of (validated_slots records) b" "sb_reasons b = []"
  shows "int (length (filter (\<lambda>r. slot_occupies r \<and> so_project_id r = p) (sb_unique b))) = int (card (slots_of records p))"
    and "set (map fst (occupied_by_project (sb_unique b))) = active_of records"
proof -
  note dist = books_ofD(1) [OF assms] and uniq = books_ofD(2) [OF assms]
  let ?rows = "\<lambda>p. filter (\<lambda>r. slot_occupies r \<and> so_project_id r = p) (sb_unique b)"
  have img: "slots_of records p = so_slot_id ` set (?rows p)" for p
    by (auto simp: slots_of_def occupied_slots_def uniq)
  have "distinct (map so_slot_id (?rows p))" for p using dist by (rule distinct_map_filter)
  then show "int (length (?rows p)) = int (card (slots_of records p))"
    unfolding img set_map [symmetric] distinct_card [OF \<open>\<And>p. distinct (map so_slot_id (?rows p))\<close>] by simp
  have "q \<in> set (map fst (occupied_by_project (sb_unique b))) \<longleftrightarrow> ?rows q \<noteq> []" for q
  proof -
    have "q \<in> set (map fst (occupied_by_project (sb_unique b))) \<longleftrightarrow>
        dict_get (occupied_by_project (sb_unique b)) q \<noteq> None"
      by (simp add: dict_get_map_of map_of_eq_None_iff)
    then show ?thesis unfolding occupied_by_project_spec(1) Let_def by simp
  qed
  moreover have "?rows q \<noteq> [] \<longleftrightarrow> q \<in> active_of records" for q
    by (auto simp: active_of_def occupied_slots_def uniq filter_empty_conv image_iff)
  ultimately show "set (map fst (occupied_by_project (sb_unique b))) = active_of records" by blast
qed

section \<open>Sound requests and snapshots\<close>

definition slots_agree :: "slot_record list \<Rightarrow> bool" where
  \<comment> \<open>one record per slot and one slot per task\<close>
  "slots_agree rows \<longleftrightarrow> (\<forall>r \<in> set rows. \<forall>r' \<in> set rows.
     (so_slot_id r = so_slot_id r' \<longrightarrow> r = r') \<and>
     (so_project_id r = so_project_id r' \<and> so_task_id r = so_task_id r' \<longrightarrow> so_slot_id r = so_slot_id r'))"

lemma slots_agreeD:
  assumes "slots_agree rows" "r \<in> set rows" "r' \<in> set rows"
  shows "so_slot_id r = so_slot_id r' \<Longrightarrow> r = r'"
    and "so_project_id r = so_project_id r' \<Longrightarrow> so_task_id r = so_task_id r' \<Longrightarrow> so_slot_id r = so_slot_id r'"
  using assms unfolding slots_agree_def by blast+

lemma slots_agree_mono: "slots_agree rows \<Longrightarrow> set rows' \<subseteq> set rows \<Longrightarrow> slots_agree rows'"
  unfolding slots_agree_def by blast

lemma collapse_agree_step:
  assumes "books_of rows b" "sb_reasons b = []" "slots_agree (rows @ [row])"
  shows "sb_reasons (collapse_row b row) = []"
proof (cases "dict_get (sb_by_slot b) (so_slot_id row)")
  case (Some old)
  then have old: "old \<in> set rows" "so_slot_id old = so_slot_id row" using books_ofD(3) [OF assms(1,2)] by simp_all
  then have "old = row" using slots_agreeD(1) [OF assms(3), of old row] by simp
  then show ?thesis using Some assms(2) by (simp add: collapse_row_def)
next
  case None
  have "prior = so_slot_id row" if prior: "dict_get (sb_task_slot b) (so_project_id row, so_task_id row) = Some prior" for prior
  proof -
    obtain r where r: "r \<in> set rows" "so_project_id r = so_project_id row" "so_task_id r = so_task_id row" "so_slot_id r = prior"
      using books_ofD(4) [OF assms(1,2)] prior by blast
    then have "so_slot_id r = so_slot_id row" using slots_agreeD(2) [OF assms(3), of r row] by simp
    then show ?thesis using r(4) by simp
  qed
  then show ?thesis using None assms(2) by (auto simp: collapse_row_def Let_def split: option.splits)
qed

lemma collapse_agrees: "sb_reasons (collapse_slots rows) = [] \<longleftrightarrow> slots_agree rows"
proof
  assume none: "sb_reasons (collapse_slots rows) = []"
  let ?b = "collapse_slots rows"
  note by_slot = books_ofD(3) [OF collapse_slots_books none] and by_task = books_ofD(4) [OF collapse_slots_books none]
  show "slots_agree rows"
    unfolding slots_agree_def
  proof (intro ballI conjI impI)
    fix r r' assume r: "r \<in> set rows" "r' \<in> set rows"
    show "r = r'" if "so_slot_id r = so_slot_id r'"
      using by_slot [of "so_slot_id r" r] by_slot [of "so_slot_id r" r'] r that by simp
    show "so_slot_id r = so_slot_id r'" if same: "so_project_id r = so_project_id r' \<and> so_task_id r = so_task_id r'"
    proof -
      let ?get = "dict_get (sb_task_slot ?b) (so_project_id r, so_task_id r)"
      have "?get = Some (so_slot_id r)" unfolding by_task using r(1) by blast
      moreover have "?get = Some (so_slot_id r')" unfolding by_task using r(2) same by metis
      ultimately show ?thesis by simp
    qed
  qed
next
  assume "slots_agree rows"
  then show "sb_reasons (collapse_slots rows) = []"
  proof (induction rows rule: rev_induct)
    case (snoc row rows)
    have "slots_agree rows" using snoc.prems by (rule slots_agree_mono) auto
    then have "sb_reasons (collapse_slots rows) = []" by (rule snoc.IH)
    moreover have "collapse_slots (rows @ [row]) = collapse_row (collapse_slots rows) row" by (simp add: collapse_slots_def)
    ultimately show ?case using collapse_agree_step [OF collapse_slots_books _ snoc.prems] by simp
  qed (simp add: collapse_slots_def)
qed

definition record_sound :: "slot_record \<Rightarrow> bool" where
  "record_sound r \<longleftrightarrow> py_strip (so_project_id r) \<noteq> [] \<and> py_strip (so_task_id r) \<noteq> [] \<and> py_strip (so_slot_id r) \<noteq> [] \<and>
     slot_token (so_kind r) \<in> set SLOT_KIND_VALUES \<and> slot_token (so_state r) \<in> set SLOT_STATE_VALUES"

definition slots_sound :: "slot_request \<Rightarrow> slot_snapshot \<Rightarrow> bool" where
  "slots_sound request snapshot \<longleftrightarrow>
     1 \<le> sl_active_projects (sq_limits request) \<and> 1 \<le> sl_child_slots (sq_limits request) \<and>
     record_sound (sq_candidate request) \<and> (\<forall>r \<in> set (sn_slots snapshot). record_sound r) \<and>
     slot_token (sn_source snapshot) = ''owner_db'' \<and> sn_complete snapshot \<and>
     py_strip (sn_owner_id snapshot) \<noteq> [] \<and> py_strip (sn_owner_id snapshot) = py_strip (sq_owner_id request) \<and>
     slots_agree (validated_slots (sn_slots snapshot))"

lemma slot_identity_None: "slot_identity r = None \<longleftrightarrow>
  py_strip (so_project_id r) = [] \<or> py_strip (so_task_id r) = [] \<or> py_strip (so_slot_id r) = []"
  by (simp add: slot_identity_def Let_def)

lemma record_reasons_Nil: "record_reasons r = [] \<longleftrightarrow> record_sound r"
  by (auto simp: record_reasons_def record_sound_def slot_identity_None)

lemma owner_reasons_Nil:
  "(case (identity_text a, identity_text b) of (Some x, Some y) \<Rightarrow> reason_if (x \<noteq> y) SR_OWNER_MISMATCH
     | _ \<Rightarrow> [SR_MISSING_IDENTITY]) = [] \<longleftrightarrow> py_strip a \<noteq> [] \<and> py_strip a = py_strip b"
  by (simp add: identity_text_def)

lemma request_reasons_Nil:
  "request_reasons request snapshot = [] \<longleftrightarrow>
     1 \<le> sl_active_projects (sq_limits request) \<and> 1 \<le> sl_child_slots (sq_limits request) \<and>
     record_sound (sq_candidate request) \<and>
     slot_token (sn_source snapshot) = ''owner_db'' \<and> sn_complete snapshot \<and>
     py_strip (sn_owner_id snapshot) \<noteq> [] \<and> py_strip (sn_owner_id snapshot) = py_strip (sq_owner_id request)"
  unfolding request_reasons_def Let_def append_is_Nil_conv reason_if_simps slot_identity_None owner_reasons_Nil
  unfolding record_sound_def de_Morgan_disj not_not not_less by satx

lemma reasons_structural:
  "set (request_reasons request snapshot @ concat (map record_reasons records)) \<subseteq> set STRUCTURAL_REASONS"
proof -
  have 1: "set (record_reasons r) \<subseteq> set STRUCTURAL_REASONS" for r
    by (simp add: record_reasons_def STRUCTURAL_REASONS_def)
  have 2: "set (case (identity_text a, identity_text b) of (Some x, Some y) \<Rightarrow> reason_if (x \<noteq> y) SR_OWNER_MISMATCH
     | _ \<Rightarrow> [SR_MISSING_IDENTITY]) \<subseteq> set STRUCTURAL_REASONS" for a b
    by (simp add: identity_text_def STRUCTURAL_REASONS_def)
  have 3: "set (reason_if c r) \<subseteq> set STRUCTURAL_REASONS" if "r \<in> set STRUCTURAL_REASONS" for c r
    using that by simp
  have "set (request_reasons request snapshot) \<subseteq> set STRUCTURAL_REASONS"
    unfolding request_reasons_def Let_def set_append
    by (intro Un_least 2 3) (simp_all add: STRUCTURAL_REASONS_def)
  then show ?thesis using 1 by auto
qed

lemma all_admission_reasons: "r \<in> set ADMISSION_REASONS"
  by (cases r) (simp_all add: ADMISSION_REASONS_def)

lemma denied_status:
  "r \<in> set reasons \<Longrightarrow> r \<in> set DENIED_REASONS \<Longrightarrow> status_for (ordered_admission_reasons reasons) = SA_DENIED"
  using all_admission_reasons [of r] by (auto simp: status_for_def ordered_admission_reasons_def list_ex_iff)

lemma conflict_reasons:
  "set (sb_reasons (collapse_slots rows)) \<subseteq>
     {SR_CONFLICTING_SLOT_RECORD, SR_CONFLICTING_PROJECT_IDENTITY, SR_CONFLICTING_TASK_IDENTITY}"
  unfolding collapse_slots_def
  by (rule foldl_invariant) (auto simp: collapse_row_def Let_def split: option.splits if_splits)

text \<open>Every unsound request or snapshot is denied without authority over the counts; a sound one is
  decided on the candidate.\<close>

lemma unsound_is_denied:
  assumes "\<not> slots_sound request snapshot"
  shows "sd_status (evaluate_slot_admission request snapshot) = SA_DENIED \<and>
    sd_counts_authoritative (evaluate_slot_admission request snapshot) = False"
proof -
  let ?rs = "request_reasons request snapshot @ concat (map record_reasons (sn_slots snapshot))"
  let ?cs = "sb_reasons (collapse_slots (validated_slots (sn_slots snapshot)))"
  have struct: "set STRUCTURAL_REASONS \<subseteq> set DENIED_REASONS" by (auto simp: STRUCTURAL_REASONS_def DENIED_REASONS_def)
  show ?thesis
  proof (cases "?rs = []")
    case False
    then obtain r where r: "r \<in> set ?rs" by (metis last_in_set)
    then have "r \<in> set STRUCTURAL_REASONS" using reasons_structural by blast
    then have "list_ex (\<lambda>r. r \<in> set STRUCTURAL_REASONS) ?rs" "r \<in> set DENIED_REASONS"
      using r struct by (auto simp: list_ex_iff)
    then show ?thesis
      using denied_status [OF r] by (simp add: evaluate_slot_admission_def Let_def make_decision_def)
  next
    case True
    then have "request_reasons request snapshot = []" "\<forall>r \<in> set (sn_slots snapshot). record_sound r"
      by (auto simp: record_reasons_Nil)
    then have "?cs \<noteq> []"
      using assms collapse_agrees by (auto simp: slots_sound_def request_reasons_Nil)
    then obtain r where r: "r \<in> set ?cs" by (metis last_in_set)
    then have "r \<in> set DENIED_REASONS" using conflict_reasons by (fastforce simp: DENIED_REASONS_def)
    then have "status_for (ordered_admission_reasons ?cs) = SA_DENIED" using denied_status [OF r] by blast
    then show ?thesis
      using \<open>?cs \<noteq> []\<close> unfolding evaluate_slot_admission_def Let_def True make_decision_def by simp
  qed
qed

section \<open>Launch authority\<close>

definition room_for :: "slot_limits \<Rightarrow> slot_record list \<Rightarrow> string \<Rightarrow> bool" where
  "room_for limits records p \<longleftrightarrow>
     (if p \<in> active_of records then int (card (slots_of records p)) < sl_child_slots limits
      else int (card (active_of records)) < sl_active_projects limits)"

definition slot_free :: "slot_record list \<Rightarrow> slot_record \<Rightarrow> bool" where
  \<comment> \<open>the slot is not occupied and the task has no other slot\<close>
  "slot_free records c \<longleftrightarrow> so_slot_id c \<notin> snd ` occupied_slots records \<and>
     (\<forall>r \<in> set (validated_slots records).
        so_project_id r = so_project_id c \<and> so_task_id r = so_task_id c \<longrightarrow> so_slot_id r = so_slot_id c)"

lemma status_for_single [simp]:
  "status_for [SR_ADMITTED] = SA_ADMITTED" "status_for [SR_NON_OCCUPYING_CANDIDATE] = SA_ADMITTED"
  by (simp_all add: status_for_def DENIED_REASONS_def REJECTED_REASONS_def)

lemma verdict_admitted [simp]: "sd_admitted (make_decision [r] counts b detail) \<longleftrightarrow> r = SR_ADMITTED"
  by (auto simp: sd_admitted_def sd_reason_def make_decision_def)

lemma sound_decision:
  assumes "slots_sound request snapshot"
  shows "evaluate_slot_admission request snapshot =
    (let c = normalized_slot (sq_candidate request); books = collapse_slots (validated_slots (sn_slots snapshot));
         occupied = occupied_by_project (sb_unique books);
         excluded = int (length (filter (\<lambda>r. \<not> slot_occupies r) (sb_unique books)))
     in decide_candidate (sq_limits request) c books
          (make_counts (sq_limits request) occupied (so_project_id c) excluded) occupied)"
proof -
  have none: "request_reasons request snapshot @ concat (map record_reasons (sn_slots snapshot)) = []"
    using assms by (auto simp: slots_sound_def request_reasons_Nil record_reasons_Nil)
  have agree: "sb_reasons (collapse_slots (validated_slots (sn_slots snapshot))) = []"
    using assms by (simp add: slots_sound_def collapse_agrees)
  have "record_sound (sq_candidate request)" using assms by (simp add: slots_sound_def)
  then have "(case slot_identity (sq_candidate request) of Some (p, _, _) \<Rightarrow> p | None \<Rightarrow> []) =
      so_project_id (normalized_slot (sq_candidate request))"
    by (simp add: record_sound_def slot_identity_def normalized_slot_def Let_def)
  then show ?thesis unfolding evaluate_slot_admission_def Let_def none agree by simp
qed

lemma admitted_iff:
  "sd_admitted (evaluate_slot_admission request snapshot) \<longleftrightarrow>
     slots_sound request snapshot \<and> slot_occupies (normalized_slot (sq_candidate request)) \<and>
     slot_free (sn_slots snapshot) (normalized_slot (sq_candidate request)) \<and>
     room_for (sq_limits request) (sn_slots snapshot) (so_project_id (normalized_slot (sq_candidate request)))"
proof (cases "slots_sound request snapshot")
  case False
  then show ?thesis using unsound_is_denied [OF False] by (simp add: sd_admitted_def)
next
  case True
  let ?c = "normalized_slot (sq_candidate request)" and ?rows = "validated_slots (sn_slots snapshot)"
  let ?books = "collapse_slots ?rows"
  let ?occ = "occupied_by_project (sb_unique ?books)"
  have none: "sb_reasons ?books = []" using True by (simp add: slots_sound_def collapse_agrees)
  note books = books_ofD [OF collapse_slots_books none] and counts = unique_counts [OF collapse_slots_books none]
  have taken: "(case dict_get (sb_by_slot ?books) i of Some r \<Rightarrow> slot_occupies r | None \<Rightarrow> False) \<longleftrightarrow>
      i \<in> snd ` occupied_slots (sn_slots snapshot)" for i
  proof -
    have "(case dict_get (sb_by_slot ?books) i of Some r \<Rightarrow> slot_occupies r | None \<Rightarrow> False) \<longleftrightarrow>
        (\<exists>r. dict_get (sb_by_slot ?books) i = Some r \<and> slot_occupies r)" by (simp split: option.splits)
    then show ?thesis unfolding books(3) by (force simp: occupied_slots_def)
  qed
  have other: "(case dict_get (sb_task_slot ?books) (p, t) of Some s \<Rightarrow> s \<noteq> i | None \<Rightarrow> False) \<longleftrightarrow>
      (\<exists>r \<in> set ?rows. so_project_id r = p \<and> so_task_id r = t \<and> so_slot_id r \<noteq> i)" for p t i
  proof -
    have "(case dict_get (sb_task_slot ?books) (p, t) of Some s \<Rightarrow> s \<noteq> i | None \<Rightarrow> False) \<longleftrightarrow>
        (\<exists>s. dict_get (sb_task_slot ?books) (p, t) = Some s \<and> s \<noteq> i)" by (simp split: option.splits)
    then show ?thesis unfolding books(4) by blast
  qed
  have active: "dict_get ?occ p \<noteq> None \<longleftrightarrow> p \<in> active_of (sn_slots snapshot)" for p
    unfolding counts(2) [symmetric] by (simp add: dict_get_map_of map_of_eq_None_iff)
  have in_project: "count_or_zero ?occ p = int (card (slots_of (sn_slots snapshot) p))"
    if "p \<in> active_of (sn_slots snapshot)" for p
  proof -
    have "count_or_zero ?occ p = int (length (filter (\<lambda>r. slot_occupies r \<and> so_project_id r = p) (sb_unique ?books)))"
      using occupied_by_project_spec(1) [of "sb_unique ?books" p] by (simp add: count_or_zero_def Let_def)
    then show ?thesis unfolding counts(1) .
  qed
  have n_active: "int (length (sort_key fst ?occ)) = int (card (active_of (sn_slots snapshot)))"
    unfolding counts(2) [symmetric] using occupied_by_project_spec(2) by (metis distinct_card length_map length_sort)
  have occupies: "slot_occupies ?c \<longleftrightarrow> so_kind ?c = ''child_task'' \<and> so_state ?c \<in> set OCCUPYING_VALUES"
    by (simp add: slot_occupies_def)
  show ?thesis
    unfolding sound_decision [OF True] Let_def decide_candidate_def taken other active occupies
    using True in_project [of "so_project_id ?c"] n_active
    by (auto simp: make_counts_def Let_def room_for_def slot_free_def)
qed

text \<open>C32: Launch authority is given exactly when it is due: the request and the snapshot are sound, the
  candidate is a child task to be reserved or executed, its slot is not occupied and its task has no
  other slot, and the project has a free child slot (a project that is not active yet needs a free
  place among the active projects).\<close>

theorem slot_admission_exact:
  "sd_admitted (evaluate_slot_admission request snapshot) \<longleftrightarrow>
     slots_sound request snapshot \<and> slot_occupies (normalized_slot (sq_candidate request)) \<and>
     slot_free (sn_slots snapshot) (normalized_slot (sq_candidate request)) \<and>
     room_for (sq_limits request) (sn_slots snapshot) (so_project_id (normalized_slot (sq_candidate request)))"
  by (rule admitted_iff)

end
