(* ===== verification/Slot_Steps.thy ===== *)
theory Slot_Steps
  imports Slot_Policy_Laws
begin

text \<open>
  The child slots over time.  A step registers an admitted candidate under its slot id, or lets
  occupied slots go (a child ends, a reservation is dropped, a record is rewritten without
  occupying more).  Every reachable list of records stays inside the two maxima.
\<close>

definition owner_request :: "string \<Rightarrow> slot_limits \<Rightarrow> slot_record \<Rightarrow> slot_request" where
  "owner_request owner limits c = \<lparr>sq_owner_id = owner, sq_candidate = c, sq_limits = limits\<rparr>"

definition owner_snapshot :: "string \<Rightarrow> slot_record list \<Rightarrow> slot_snapshot" where
  "owner_snapshot owner records =
     \<lparr>sn_owner_id = owner, sn_source = ''owner_db'', sn_complete = True, sn_slots = records\<rparr>"

definition register_slot :: "slot_record list \<Rightarrow> slot_record \<Rightarrow> slot_record list" where
  "register_slot records c = filter (\<lambda>r. py_strip (so_slot_id r) \<noteq> py_strip (so_slot_id c)) records @ [c]"

inductive slot_step :: "string \<Rightarrow> slot_limits \<Rightarrow> slot_record list \<Rightarrow> slot_record list \<Rightarrow> bool"
  for owner limits where
  admit: "sd_admitted (evaluate_slot_admission (owner_request owner limits c) (owner_snapshot owner records)) \<Longrightarrow>
    slot_step owner limits records (register_slot records c)"
| leave: "occupied_slots records' \<subseteq> occupied_slots records \<Longrightarrow> slot_step owner limits records records'"

inductive_cases slot_stepE: "slot_step owner limits records records'"

definition slots_inside :: "slot_limits \<Rightarrow> slot_record list \<Rightarrow> bool" where
  "slots_inside limits records \<longleftrightarrow>
     int (card (active_of records)) \<le> sl_active_projects limits \<and>
     (\<forall>p. int (card (slots_of records p)) \<le> sl_child_slots limits)"

lemma finite_slots [simp]: "finite (slots_of records p)" "finite (active_of records)"
proof -
  have "slots_of records p \<subseteq> snd ` occupied_slots records" by (force simp: slots_of_def)
  then show "finite (slots_of records p)" by (rule finite_subset) simp
  show "finite (active_of records)" by (simp add: active_of_def)
qed

lemma validated_append: "validated_slots (xs @ ys) = validated_slots xs @ validated_slots ys"
  by (simp add: validated_slots_def)

lemma occupied_append: "occupied_slots (xs @ ys) = occupied_slots xs \<union> occupied_slots ys"
  by (auto simp: occupied_slots_def validated_append)

lemma occupied_filter: "occupied_slots (filter P xs) \<subseteq> occupied_slots xs"
  by (auto simp: occupied_slots_def validated_slots_def)

lemma occupied_single:
  "record_sound c \<Longrightarrow> occupied_slots [c] \<subseteq> {(so_project_id (normalized_slot c), so_slot_id (normalized_slot c))}"
  by (auto simp: occupied_slots_def validated_slots_def)

lemma inside_mono:
  assumes "slots_inside limits records" "occupied_slots records' \<subseteq> occupied_slots records"
  shows "slots_inside limits records'"
proof -
  have "active_of records' \<subseteq> active_of records" using assms(2) by (auto simp: active_of_def)
  then have "card (active_of records') \<le> card (active_of records)" by (intro card_mono) simp_all
  moreover have "card (slots_of records' p) \<le> card (slots_of records p)" for p
  proof (rule card_mono)
    show "slots_of records' p \<subseteq> slots_of records p" using assms(2) by (auto simp: slots_of_def)
  qed simp
  ultimately show ?thesis using assms(1) unfolding slots_inside_def
    by (meson of_nat_mono order_trans)
qed

lemma inside_insert:
  assumes "slots_inside limits records" "room_for limits records p" "1 \<le> sl_child_slots limits"
    "occupied_slots records' \<subseteq> insert (p, i) (occupied_slots records)"
  shows "slots_inside limits records'"
proof -
  note inside = assms(1) [unfolded slots_inside_def] and room = assms(2) [unfolded room_for_def]
  have "active_of records' \<subseteq> insert p (active_of records)" using assms(4) by (force simp: active_of_def)
  then have "card (active_of records') \<le> card (insert p (active_of records))" by (intro card_mono) simp_all
  also have "int \<dots> \<le> sl_active_projects limits"
    using inside room by (cases "p \<in> active_of records") (simp_all add: insert_absorb)
  finally have active: "int (card (active_of records')) \<le> sl_active_projects limits" by simp
  have "int (card (slots_of records' q)) \<le> sl_child_slots limits" for q
  proof (cases "q = p")
    case True
    have "slots_of records' p \<subseteq> insert i (slots_of records p)" using assms(4) by (auto simp: slots_of_def)
    then have "card (slots_of records' p) \<le> card (insert i (slots_of records p))" by (intro card_mono) simp_all
    then have le: "card (slots_of records' p) \<le> Suc (card (slots_of records p))"
      using card_insert_le_m1 [of "Suc (card (slots_of records p))" "slots_of records p" i] by simp
    show ?thesis
    proof (cases "p \<in> active_of records")
      case False
      then have "slots_of records p = {}" by (force simp: slots_of_def active_of_def)
      then show ?thesis using le assms(3) True by simp
    qed (use le room True in simp)
  next
    case False
    then have "slots_of records' q \<subseteq> slots_of records q" using assms(4) by (auto simp: slots_of_def)
    then have "card (slots_of records' q) \<le> card (slots_of records q)" by (intro card_mono) simp_all
    then show ?thesis using inside by (meson of_nat_mono order_trans)
  qed
  then show ?thesis using active unfolding slots_inside_def by blast
qed

interpretation slot_life: stepwise "slot_step owner limits" "slots_inside limits" for owner limits
proof
  fix records records' assume inside: "slots_inside limits records" and step: "slot_step owner limits records records'"
  show "slots_inside limits records'"
    using step
  proof (rule slot_stepE)
    assume "occupied_slots records' \<subseteq> occupied_slots records"
    with inside show ?thesis by (rule inside_mono)
  next
    fix c assume new: "records' = register_slot records c"
      and "sd_admitted (evaluate_slot_admission (owner_request owner limits c) (owner_snapshot owner records))"
    then have sound: "slots_sound (owner_request owner limits c) (owner_snapshot owner records)"
      and room: "room_for limits records (so_project_id (normalized_slot c))"
      unfolding admitted_iff by (simp_all add: owner_request_def owner_snapshot_def)
    have "record_sound c" "1 \<le> sl_child_slots limits"
      using sound by (simp_all add: slots_sound_def owner_request_def)
    then have "occupied_slots records' \<subseteq>
        insert (so_project_id (normalized_slot c), so_slot_id (normalized_slot c)) (occupied_slots records)"
      using occupied_single [of c] occupied_filter [of _ records] unfolding new register_slot_def occupied_append by blast
    then show ?thesis using inside_insert [OF inside room] \<open>1 \<le> sl_child_slots limits\<close> by blast
  qed
qed

text \<open>C16: Over any sequence of admissions, reservations and releases of child slots, the number of
  active projects and the number of occupied slots of every project stay inside the owner maxima,
  when each launch was admitted on the records of its time.\<close>

theorem slots_stay_inside_maxima:
  assumes "slots_inside limits records" "(slot_step owner limits)\<^sup>*\<^sup>* records records'"
  shows "slots_inside limits records'"
  using assms(2,1) by (rule slot_life.steps_inv)

section \<open>Samples\<close>

definition sample_slot :: "string \<Rightarrow> string \<Rightarrow> string \<Rightarrow> string \<Rightarrow> slot_record" where
  "sample_slot p t i state =
     \<lparr>so_project_id = p, so_task_id = t, so_slot_id = i, so_kind = ''child_task'', so_state = state\<rparr>"

definition tight_limits :: slot_limits where
  "tight_limits = \<lparr>sl_active_projects = 1, sl_child_slots = 2\<rparr>"

lemma slots_stay_inside_maxima_witness:
  "slots_inside tight_limits [sample_slot ''p'' ''t'' ''s'' ''executing'']"
proof -
  have start: "slots_inside tight_limits []"
    by (simp add: slots_inside_def active_of_def slots_of_def occupied_slots_def validated_slots_def tight_limits_def)
  have "sd_admitted (evaluate_slot_admission (owner_request ''o'' tight_limits (sample_slot ''p'' ''t'' ''s'' ''executing''))
      (owner_snapshot ''o'' []))"
    by code_simp
  then have "slot_step ''o'' tight_limits [] (register_slot [] (sample_slot ''p'' ''t'' ''s'' ''executing''))"
    by (rule slot_step.admit)
  then have "(slot_step ''o'' tight_limits)\<^sup>*\<^sup>* [] [sample_slot ''p'' ''t'' ''s'' ''executing'']"
    by (simp add: register_slot_def r_into_rtranclp)
  then show ?thesis by (rule slots_stay_inside_maxima [OF start])
qed

text \<open>The check against occupied slots asks for an occupied slot of the same id only: a candidate
  may take the slot id of a queued record of another project, and the records that result conflict,
  so that every later request is denied.\<close>

lemma foreign_slot_id_is_admitted:
  "sd_admitted (evaluate_slot_admission
     (owner_request ''o'' tight_limits (sample_slot ''p'' ''t'' ''s'' ''executing''))
     (owner_snapshot ''o'' [sample_slot ''q'' ''u'' ''s'' ''queued'']))"
  "sd_reasons (evaluate_slot_admission
     (owner_request ''o'' tight_limits (sample_slot ''p'' ''t2'' ''s2'' ''executing''))
     (owner_snapshot ''o'' [sample_slot ''q'' ''u'' ''s'' ''queued'', sample_slot ''p'' ''t'' ''s'' ''executing''])) =
   [SR_CONFLICTING_PROJECT_IDENTITY]"
  by code_simp+

end
