(* ===== verification/Wave_Graph.thy ===== *)
theory Wave_Graph
  imports Dep_Graph Task_Refs Cost_Model
begin

text \<open>
  The task graph of the wave planner (\<open>wave_plan_optimizer.py\<close>): plan nodes, the owner maxima,
  the fail-closed canonicalisation (\<open>canon_index\<close>), the topological order, the weights of a task,
  the critical path and the removal of redundant START edges.

  \<^item> \<open>plan_error\<close> has one constructor per \<open>raise WavePlanError\<close>; \<open>Diverges\<close> is no exception but a
    loop that never returns.
  \<^item> The dictionary \<open>index\<close> is the association list \<open>node_index\<close> in insertion order; numbers that the
    code holds as \<open>float\<close> are rationals.
  \<^item> \<open>try_bind\<close> passes an exception on.
\<close>

named_theorems plan_results \<open>facts about results that may be exceptions\<close>

datatype plan_error =
    UnknownSize string
  | NotPositive string
  | NegativeLimit string
  | UnsafeScope string
  | MalformedRef task_ref string task_ref
  | DependsOnItself task_ref
  | NodeWithoutIdentity
  | NegativeField task_ref string
  | DuplicateTask task_ref
  | UnknownTask task_ref task_ref
  | CyclicStart
  | BadWave task_ref
  | WavesNotExact
  | WaveOrder task_ref int task_ref int
  | Unschedulable
  | NegativeBoundary
  | PlanWithoutIdentity
  | UnknownKind string
  | TaskWithoutId string
  | Diverges

definition try_bind :: "'e + 'a \<Rightarrow> ('a \<Rightarrow> 'e + 'b) \<Rightarrow> 'e + 'b" where
  "try_bind r f = (case r of Inl e \<Rightarrow> Inl e | Inr x \<Rightarrow> f x)"

lemma try_bind_simps [simp]: "try_bind (Inl e) f = Inl e" "try_bind (Inr x) f = f x"
  by (simp_all add: try_bind_def)

lemma try_bind_Inr [plan_results]: "try_bind r f = Inr y \<longleftrightarrow> (\<exists>x. r = Inr x \<and> f x = Inr y)"
  by (cases r) simp_all

section \<open>Nodes and limits\<close>

record plan_node =
  pn_project_id :: string
  pn_task_id :: string
  pn_size :: string
  pn_title :: string
  pn_phase :: string
  pn_start :: "task_ref list"
  pn_integrate :: "task_ref list"
  pn_owns :: "string list"
  pn_barrier :: bool
  pn_heavy_gate :: bool
  pn_checklist :: int
  pn_duration :: "rat option"
  pn_integration :: "rat option"

type_synonym node_index = "(task_ref \<times> plan_node) list"

definition pn_ref :: "plan_node \<Rightarrow> task_ref" where
  "pn_ref n = TaskRef (py_strip (pn_project_id n)) (py_strip (pn_task_id n))"

definition graph_refs :: "plan_node list \<Rightarrow> task_ref list" where
  \<comment> \<open>\<open>TaskGraph.refs\<close>; a \<open>TaskGraph\<close> is the list of its nodes\<close>
  "graph_refs nodes = sort (map pn_ref nodes)"

record plan_limits =
  lim_active_projects :: int
  lim_workers :: int
  lim_heavy_gates :: int
  lim_window :: string
  lim_units :: rat
  lim_fixed_cost :: rat
  lim_barrier_units :: rat
  lim_max_rounds :: int
  lim_min_gain :: rat
  lim_enforce_gates :: bool
  lim_serialize :: bool

definition default_plan_limits :: plan_limits where
  "default_plan_limits =
     \<lparr>lim_active_projects = 3, lim_workers = 5, lim_heavy_gates = 2, lim_window = ''5h'', lim_units = 1,
      lim_fixed_cost = 1, lim_barrier_units = 1, lim_max_rounds = 3, lim_min_gain = 1 / 10,
      lim_enforce_gates = True, lim_serialize = True\<rparr>"

definition coerce_size :: "string \<Rightarrow> plan_error + string" where
  "coerce_size value =
     (let t = py_upper (py_strip value)
      in if t \<in> {''S'', ''M'', ''L''} then Inr t else Inl (UnknownSize value))"

section \<open>Canonical nodes\<close>

fun canonical_refs ::
  "task_ref \<Rightarrow> string \<Rightarrow> bool \<Rightarrow> task_ref list \<Rightarrow> task_ref list \<Rightarrow> plan_error + task_ref list" where
  \<comment> \<open>\<open>_canonical_refs\<close>; the last argument is \<open>seen\<close>\<close>
  "canonical_refs owner field self_check [] seen = Inr (sort seen)"
| "canonical_refs owner field self_check (dep # raw) seen =
     (let ref = ref_clean dep
      in if \<not> ref_is_valid ref then Inl (MalformedRef owner field dep)
         else if self_check \<and> ref = owner then Inl (DependsOnItself owner)
         else canonical_refs owner field self_check raw (if ref \<in> set seen then seen else seen @ [ref]))"

fun canonical_scopes :: "string list \<Rightarrow> string list \<Rightarrow> plan_error + string list" where
  \<comment> \<open>\<open>_canonical_scopes\<close>; the second argument is \<open>cleaned\<close>\<close>
  "canonical_scopes [] cleaned = Inr cleaned"
| "canonical_scopes (scope # scopes) cleaned =
     (case canonical_scope scope of
        None \<Rightarrow> if py_strip scope = [] then canonical_scopes scopes cleaned else Inl (UnsafeScope scope)
      | Some c \<Rightarrow> canonical_scopes scopes (if c \<in> set cleaned then cleaned else cleaned @ [c]))"

definition negative :: "rat option \<Rightarrow> bool" where
  "negative d = (case d of None \<Rightarrow> False | Some x \<Rightarrow> x < 0)"

definition canonical_node :: "plan_node \<Rightarrow> plan_error + plan_node" where
  "canonical_node node =
     (let project = py_strip (pn_project_id node); task = py_strip (pn_task_id node); owner = TaskRef project task
      in if project = [] \<or> task = [] then Inl NodeWithoutIdentity
         else try_bind (canonical_refs owner ''START dependency'' True (pn_start node) []) (\<lambda>start.
              try_bind (canonical_refs owner ''integration prerequisite'' False (pn_integrate node) []) (\<lambda>integrate.
              if pn_checklist node < 0 then Inl (NegativeField owner ''checklist_items'')
              else if negative (pn_duration node) then Inl (NegativeField owner ''duration'')
              else if negative (pn_integration node) then Inl (NegativeField owner ''integration_duration'')
              else try_bind (coerce_size (pn_size node)) (\<lambda>size_text.
                   try_bind (canonical_scopes (pn_owns node) []) (\<lambda>owns.
                   Inr (node\<lparr>pn_project_id := project, pn_task_id := task, pn_size := size_text,
                             pn_title := py_strip (pn_title node), pn_phase := py_strip (pn_phase node),
                             pn_start := start, pn_integrate := integrate, pn_owns := owns\<rparr>))))))"

section \<open>The validated index\<close>

definition check_limits :: "plan_limits \<Rightarrow> plan_error option" where
  "check_limits l =
     (if lim_active_projects l < 1 then Some (NotPositive ''active_projects'')
      else if lim_workers l < 1 then Some (NotPositive ''workers_per_project'')
      else if lim_heavy_gates l < 1 then Some (NotPositive ''heavy_gate_slots'')
      else if lim_max_rounds l < 1 then Some (NotPositive ''max_rounds'')
      else if lim_min_gain l < 0 then Some (NegativeLimit ''min_gain'')
      else if lim_units l \<le> 0 then Some (NegativeLimit ''units_per_cost_pct'')
      else if lim_fixed_cost l < 0 then Some (NegativeLimit ''fixed_cost_per_task'')
      else if lim_barrier_units l < 0 then Some (NegativeLimit ''barrier_integration_units'')
      else None)"

fun index_nodes :: "plan_node list \<Rightarrow> node_index \<Rightarrow> plan_error + node_index" where
  "index_nodes [] index = Inr index"
| "index_nodes (node # nodes) index =
     try_bind (canonical_node node) (\<lambda>canonical.
       let ref = pn_ref canonical
       in if dict_get index ref \<noteq> None then Inl (DuplicateTask ref)
          else index_nodes nodes (index @ [(ref, canonical)]))"

definition unknown_dependency :: "node_index \<Rightarrow> (task_ref \<times> task_ref) option" where
  \<comment> \<open>the first START edge whose target is no node\<close>
  "unknown_dependency index =
     List.find (\<lambda>(ref, dep). dict_get index dep = None)
       (concat (map (\<lambda>(ref, node). map (Pair ref) (pn_start node)) index))"

definition start_of :: "node_index \<Rightarrow> task_ref \<Rightarrow> task_ref list" where
  "start_of index ref = (case dict_get index ref of Some n \<Rightarrow> pn_start n | None \<Rightarrow> [])"

definition topological_order :: "node_index \<Rightarrow> plan_error + task_ref list" where
  \<comment> \<open>\<open>_topological_order\<close>; it is called on indexes without unknown dependencies only\<close>
  "topological_order index =
     (case kahn (map fst index) (start_of index) of
        None \<Rightarrow> Inl Diverges
      | Some (_, _, ordered) \<Rightarrow>
          if length ordered \<noteq> length index then Inl CyclicStart else Inr ordered)"

definition canon_index :: "plan_node list \<Rightarrow> plan_limits \<Rightarrow> plan_error + node_index" where
  "canon_index graph limits =
     (case check_limits limits of
        Some e \<Rightarrow> Inl e
      | None \<Rightarrow>
          try_bind (index_nodes graph []) (\<lambda>index.
          case unknown_dependency index of
            Some (ref, dep) \<Rightarrow> Inl (UnknownTask ref dep)
          | None \<Rightarrow> try_bind (topological_order index) (\<lambda>_. Inr index)))"

definition graph_from_index :: "node_index \<Rightarrow> plan_node list" where
  "graph_from_index index = sort_key (\<lambda>n. (pn_project_id n, pn_task_id n)) (map snd index)"

definition limits_or_default :: "plan_limits option \<Rightarrow> plan_limits" where
  "limits_or_default limits = (case limits of Some l \<Rightarrow> l | None \<Rightarrow> default_plan_limits)"

definition validate_graph :: "plan_node list \<Rightarrow> plan_limits option \<Rightarrow> plan_error + unit" where
  "validate_graph graph limits = try_bind (canon_index graph (limits_or_default limits)) (\<lambda>_. Inr ())"

definition canonicalize_graph :: "plan_node list \<Rightarrow> plan_limits option \<Rightarrow> plan_error + plan_node list" where
  "canonicalize_graph graph limits =
     try_bind (canon_index graph (limits_or_default limits)) (\<lambda>index. Inr (graph_from_index index))"

section \<open>Weights\<close>

definition size_pct :: "plan_node \<Rightarrow> plan_limits \<Rightarrow> rat" where
  \<comment> \<open>the prior of the size, which \<open>cost_model\<close> coerces; canonical nodes have a known size\<close>
  "size_pct node limits = prior_pct (lim_window limits) (projr (coerce_bucket (pn_size node)))"

definition node_duration :: "plan_node \<Rightarrow> plan_limits \<Rightarrow> rat" where
  "node_duration node limits =
     (case pn_duration node of Some d \<Rightarrow> d | None \<Rightarrow> size_pct node limits * lim_units limits)"

definition node_integration :: "plan_node \<Rightarrow> plan_limits \<Rightarrow> rat" where
  "node_integration node limits =
     (case pn_integration node of
        Some d \<Rightarrow> d | None \<Rightarrow> if pn_barrier node then lim_barrier_units limits else 0)"

definition provider_pct :: "plan_node \<Rightarrow> plan_limits \<Rightarrow> rat" where
  "provider_pct node limits = size_pct node limits"

definition max_or :: "'a::linorder \<Rightarrow> 'a list \<Rightarrow> 'a" where
  \<comment> \<open>\<open>max(xs, default=d)\<close>\<close>
  "max_or d xs = (if xs = [] then d else Max (set xs))"

section \<open>Critical path and redundant edges\<close>

definition index_node :: "node_index \<Rightarrow> task_ref \<Rightarrow> plan_node" where
  \<comment> \<open>\<open>index[ref]\<close>, used on keys of the index only\<close>
  "index_node index ref = the (dict_get index ref)"

definition chain_entry :: "node_index \<Rightarrow> plan_limits \<Rightarrow> (task_ref \<Rightarrow> rat) \<Rightarrow> task_ref \<Rightarrow> rat" where
  "chain_entry index limits chain ref =
     (let node = index_node index ref
      in node_duration node limits + node_integration node limits + max_or 0 (map chain (start_of index ref)))"

definition critical_path :: "node_index \<Rightarrow> plan_limits \<Rightarrow> plan_error + rat" where
  \<comment> \<open>\<open>_critical_path\<close>\<close>
  "critical_path index limits =
     try_bind (topological_order index) (\<lambda>order.
       Inr (max_or 0 (map (fill (chain_entry index limits) order (\<lambda>_. 0)) order)))"

definition compute_critical_path :: "plan_node list \<Rightarrow> plan_limits option \<Rightarrow> plan_error + rat" where
  "compute_critical_path graph limits =
     (let bound = limits_or_default limits in try_bind (canon_index graph bound) (\<lambda>index. critical_path index bound))"

definition ancestors_entry :: "node_index \<Rightarrow> (task_ref \<Rightarrow> task_ref set) \<Rightarrow> task_ref \<Rightarrow> task_ref set" where
  "ancestors_entry index ancestors ref = (\<Union>dep \<in> set (start_of index ref). insert dep (ancestors dep))"

definition plan_ancestors :: "node_index \<Rightarrow> plan_error + (task_ref \<Rightarrow> task_ref set)" where
  \<comment> \<open>\<open>_ancestors\<close>; \<open>remove_redundant_dependencies\<close> repeats its loop\<close>
  "plan_ancestors index =
     try_bind (topological_order index) (\<lambda>order. Inr (fill (ancestors_entry index) order (\<lambda>_. {})))"

record dependency_reduction =
  dr_graph :: "plan_node list"
  dr_removed :: "(task_ref \<times> task_ref) list"

definition edge_redundant :: "(task_ref \<Rightarrow> task_ref set) \<Rightarrow> task_ref list \<Rightarrow> task_ref \<Rightarrow> bool" where
  "edge_redundant ancestors start dep = list_ex (\<lambda>other. other \<noteq> dep \<and> dep \<in> ancestors other) start"

definition prune_node :: "(task_ref \<Rightarrow> task_ref set) \<Rightarrow> plan_node \<Rightarrow> plan_node" where
  "prune_node ancestors node =
     node\<lparr>pn_start := filter (\<lambda>dep. \<not> edge_redundant ancestors (pn_start node) dep) (pn_start node)\<rparr>"

definition prune_index :: "(task_ref \<Rightarrow> task_ref set) \<Rightarrow> node_index \<Rightarrow> node_index" where
  "prune_index ancestors index = map (\<lambda>(ref, node). (ref, prune_node ancestors node)) index"

definition redundant_edges :: "(task_ref \<Rightarrow> task_ref set) \<Rightarrow> node_index \<Rightarrow> (task_ref \<times> task_ref) list" where
  "redundant_edges ancestors index =
     concat (map (\<lambda>(ref, node). map (Pair ref) (filter (edge_redundant ancestors (pn_start node)) (pn_start node))) index)"

definition remove_redundant_dependencies ::
  "plan_node list \<Rightarrow> plan_limits option \<Rightarrow> plan_error + dependency_reduction" where
  "remove_redundant_dependencies graph limits =
     try_bind (canon_index graph (limits_or_default limits)) (\<lambda>index.
     try_bind (plan_ancestors index) (\<lambda>ancestors.
       Inr \<lparr>dr_graph = graph_from_index (prune_index ancestors index),
            dr_removed = sort (redundant_edges ancestors index)\<rparr>))"

end
