(* ===== verification/Wave_Graph_Laws.thy ===== *)
theory Wave_Graph_Laws
  imports Wave_Graph Loop_Laws
begin

text \<open>
  What the task graph of the wave planner promises: which graphs are accepted, that the topological
  order lists dependencies first, that the critical path is the weight of the longest chain, and
  that the removal of redundant edges keeps reachability and the critical path and leaves no
  redundant edge.
\<close>

section \<open>Canonical nodes\<close>

definition refs_ok :: "task_ref \<Rightarrow> bool \<Rightarrow> task_ref list \<Rightarrow> bool" where
  "refs_ok owner self_check raw \<longleftrightarrow> (\<forall>d \<in> set raw. ref_is_valid d \<and> (self_check \<longrightarrow> ref_clean d \<noteq> owner))"

lemma canonical_refs_spec:
  "(\<exists>ys. canonical_refs owner field chk raw seen = Inr ys) \<longleftrightarrow> refs_ok owner chk raw"
  "canonical_refs owner field chk raw seen = Inr ys \<Longrightarrow> distinct seen \<Longrightarrow>
     distinct ys \<and> sorted ys \<and> set ys = set seen \<union> ref_clean ` set raw"
  by (induction owner field chk raw seen rule: canonical_refs.induct)
     (auto simp: Let_def refs_ok_def split: if_splits)

definition scopes_ok :: "string list \<Rightarrow> bool" where
  "scopes_ok scopes \<longleftrightarrow> (\<forall>s \<in> set scopes. py_strip s = [] \<or> canonical_scope s \<noteq> None)"

lemma canonical_scopes_spec: "(\<exists>ys. canonical_scopes scopes cleaned = Inr ys) \<longleftrightarrow> scopes_ok scopes"
  by (induction scopes cleaned rule: canonical_scopes.induct)
     (auto simp: scopes_ok_def split: option.splits)

definition size_ok :: "string \<Rightarrow> bool" where
  "size_ok s \<longleftrightarrow> py_upper (py_strip s) \<in> {''S'', ''M'', ''L''}"

lemma coerce_size_Inr: "coerce_size s = Inr t \<longleftrightarrow> size_ok s \<and> t = py_upper (py_strip s)"
  by (auto simp: coerce_size_def size_ok_def Let_def)

definition node_ok :: "plan_node \<Rightarrow> bool" where
  "node_ok n \<longleftrightarrow>
     py_strip (pn_project_id n) \<noteq> [] \<and> py_strip (pn_task_id n) \<noteq> [] \<and>
     refs_ok (pn_ref n) True (pn_start n) \<and> refs_ok (pn_ref n) False (pn_integrate n) \<and>
     0 \<le> pn_checklist n \<and> \<not> negative (pn_duration n) \<and> \<not> negative (pn_integration n) \<and>
     size_ok (pn_size n) \<and> scopes_ok (pn_owns n)"

definition node_canonical :: "plan_node \<Rightarrow> bool" where
  \<comment> \<open>what canonicalisation leaves behind\<close>
  "node_canonical n \<longleftrightarrow>
     pn_ref n = TaskRef (pn_project_id n) (pn_task_id n) \<and> ref_is_valid (pn_ref n) \<and>
     distinct (pn_start n) \<and> 0 \<le> pn_checklist n \<and>
     \<not> negative (pn_duration n) \<and> \<not> negative (pn_integration n) \<and> pn_size n \<in> {''S'', ''M'', ''L''}"

lemma canonical_node_exists: "(\<exists>m. canonical_node n = Inr m) \<longleftrightarrow> node_ok n"
proof -
  let ?c = "canonical_refs (pn_ref n)"
  have "(\<exists>m. canonical_node n = Inr m) \<longleftrightarrow>
      py_strip (pn_project_id n) \<noteq> [] \<and> py_strip (pn_task_id n) \<noteq> [] \<and>
      (\<exists>s. ?c ''START dependency'' True (pn_start n) [] = Inr s) \<and>
      (\<exists>i. ?c ''integration prerequisite'' False (pn_integrate n) [] = Inr i) \<and>
      0 \<le> pn_checklist n \<and> \<not> negative (pn_duration n) \<and> \<not> negative (pn_integration n) \<and>
      (\<exists>t. coerce_size (pn_size n) = Inr t) \<and> (\<exists>o'. canonical_scopes (pn_owns n) [] = Inr o')"
    by (auto simp: canonical_node_def Let_def plan_results pn_ref_def)
  then show ?thesis unfolding canonical_refs_spec canonical_scopes_spec coerce_size_Inr node_ok_def by blast
qed

lemma canonical_node_fields:
  assumes "canonical_node n = Inr m"
  shows "pn_ref m = pn_ref n" "node_canonical m" "set (pn_start m) = ref_clean ` set (pn_start n)"
    "pn_duration m = pn_duration n" "pn_integration m = pn_integration n" "pn_barrier m = pn_barrier n"
    "pn_size m = py_upper (py_strip (pn_size n))" "canonical_scopes (pn_owns n) [] = Inr (pn_owns m)"
proof -
  obtain s i t ow where parts: "py_strip (pn_project_id n) \<noteq> []" "py_strip (pn_task_id n) \<noteq> []"
    "canonical_refs (pn_ref n) ''START dependency'' True (pn_start n) [] = Inr s"
    "0 \<le> pn_checklist n" "\<not> negative (pn_duration n)" "\<not> negative (pn_integration n)"
    "coerce_size (pn_size n) = Inr t" "canonical_scopes (pn_owns n) [] = Inr ow"
    and m: "m = n\<lparr>pn_project_id := py_strip (pn_project_id n), pn_task_id := py_strip (pn_task_id n), pn_size := t,
        pn_title := py_strip (pn_title n), pn_phase := py_strip (pn_phase n),
        pn_start := s, pn_integrate := i, pn_owns := ow\<rparr>"
    using assms by (auto simp: canonical_node_def Let_def plan_results pn_ref_def split: if_splits)
  have t: "t = py_upper (py_strip (pn_size n))" "t \<in> {''S'', ''M'', ''L''}"
    using parts(7) by (auto simp: coerce_size_Inr size_ok_def)
  have s: "distinct s" "set s = ref_clean ` set (pn_start n)"
    using canonical_refs_spec(2) [OF parts(3)] by simp_all
  show "pn_ref m = pn_ref n" "pn_duration m = pn_duration n" "pn_integration m = pn_integration n"
    "pn_barrier m = pn_barrier n" by (simp_all add: m pn_ref_def)
  show "set (pn_start m) = ref_clean ` set (pn_start n)" "pn_size m = py_upper (py_strip (pn_size n))"
    "canonical_scopes (pn_owns n) [] = Inr (pn_owns m)"
    using s(2) t(1) parts(8) by (simp_all add: m)
  show "node_canonical m"
    using parts s(1) t(2) by (simp add: m node_canonical_def pn_ref_def ref_is_valid_def)
qed

lemma canonical_size [simp]:
  "t \<in> {''S'', ''M'', ''L''} \<Longrightarrow> py_upper (py_strip t) = t"
  by (elim insertE emptyE) (simp_all, code_simp+)

section \<open>The index\<close>

lemma dict_get_None: "dict_get d k = None \<longleftrightarrow> k \<notin> set (map fst d)"
  by (simp add: dict_get_map_of map_of_eq_None_iff)

definition plan_edges :: "plan_node list \<Rightarrow> (task_ref \<times> task_ref) set" where
  \<comment> \<open>\<open>(d, r)\<close>: the task \<open>r\<close> of the graph may start only after \<open>d\<close>\<close>
  "plan_edges graph = {(ref_clean d, pn_ref n) | d n. n \<in> set graph \<and> d \<in> set (pn_start n)}"

lemma index_nodes_spec:
  assumes "distinct (map fst index)"
  shows "(\<exists>i. index_nodes graph index = Inr i) \<longleftrightarrow>
     (\<forall>n \<in> set graph. node_ok n) \<and> distinct (map fst index @ map pn_ref graph)"
  using assms
proof (induction graph arbitrary: index)
  case (Cons n graph)
  show ?case
  proof (cases "canonical_node n")
    case (Inl e)
    then have "\<not> node_ok n" unfolding canonical_node_exists [symmetric] by simp
    then show ?thesis using Inl by simp
  next
    case (Inr m)
    then have ok: "node_ok n" and ref: "pn_ref m = pn_ref n"
      using canonical_node_exists canonical_node_fields(1) by auto
    show ?thesis
    proof (cases "pn_ref n \<in> set (map fst index)")
      case True
      then show ?thesis using Inr ref dict_get_None [of index "pn_ref n"] by (auto simp: Let_def)
    next
      case False
      then have "distinct (map fst (index @ [(pn_ref n, m)]))" using Cons.prems by auto
      from Cons.IH [OF this] show ?thesis
        using Inr ref False dict_get_None [of index "pn_ref n"] ok by (auto simp: Let_def)
    qed
  qed
qed simp

lemma index_nodes_result:
  assumes "index_nodes graph index = Inr i"
  shows "\<exists>ms. i = index @ map (\<lambda>m. (pn_ref m, m)) ms \<and> list_all2 (\<lambda>n m. canonical_node n = Inr m) graph ms"
  using assms
proof (induction graph arbitrary: index)
  case (Cons n graph)
  from Cons.prems obtain m where m: "canonical_node n = Inr m"
    and rest: "index_nodes graph (index @ [(pn_ref m, m)]) = Inr i"
    by (auto simp: plan_results Let_def split: if_splits)
  from Cons.IH [OF rest] obtain ms where "i = (index @ [(pn_ref m, m)]) @ map (\<lambda>m. (pn_ref m, m)) ms"
    "list_all2 (\<lambda>n m. canonical_node n = Inr m) graph ms" by blast
  then show ?case using m by (intro exI [of _ "m # ms"]) simp
qed simp

definition index_of :: "plan_node list \<Rightarrow> node_index" where
  "index_of ms = map (\<lambda>m. (pn_ref m, m)) ms"

definition index_closed :: "node_index \<Rightarrow> bool" where
  "index_closed index \<longleftrightarrow> graph_closed (map fst index) (start_of index)"

definition index_edges :: "node_index \<Rightarrow> (task_ref \<times> task_ref) set" where
  "index_edges index = dep_edges (map fst index) (start_of index)"

lemma index_of_keys [simp]: "map fst (index_of ms) = map pn_ref ms"
  by (simp add: index_of_def)

lemma index_of_get:
  assumes "distinct (map pn_ref ms)" "m \<in> set ms"
  shows "dict_get (index_of ms) (pn_ref m) = Some m"
  using assms unfolding index_of_def dict_get_map_of by (force simp: map_of_eq_Some_iff comp_def)

lemma index_of_start:
  "distinct (map pn_ref ms) \<Longrightarrow> m \<in> set ms \<Longrightarrow> start_of (index_of ms) (pn_ref m) = pn_start m"
  by (simp add: start_of_def index_of_get)

lemma index_of_edges:
  assumes "distinct (map pn_ref ms)"
  shows "index_edges (index_of ms) = {(d, pn_ref m) | d m. m \<in> set ms \<and> d \<in> set (pn_start m)}"
  using index_of_start [OF assms] by (auto simp: index_edges_def dep_edges_def)

lemma unknown_dependency_None:
  assumes "distinct (map pn_ref ms)"
  shows "unknown_dependency (index_of ms) = None \<longleftrightarrow> index_closed (index_of ms)"
proof -
  have "unknown_dependency (index_of ms) = None \<longleftrightarrow>
      (\<forall>m \<in> set ms. \<forall>d \<in> set (pn_start m). d \<in> set (map pn_ref ms))"
    unfolding unknown_dependency_def find_None_iff
    using dict_get_None [of "index_of ms"] by (auto simp: index_of_def) blast
  also have "\<dots> \<longleftrightarrow> index_closed (index_of ms)"
    using index_of_start [OF assms] assms by (auto simp: index_closed_def graph_closed_def)
  finally show ?thesis .
qed

section \<open>The topological order\<close>

lemma topological_order_spec:
  assumes "index_closed index"
  shows "(\<exists>xs. topological_order index = Inr xs) \<longleftrightarrow> acyclic (index_edges index)"
    and "topological_order index = Inr xs \<Longrightarrow>
      distinct xs \<and> set xs = set (map fst index) \<and> deps_first (start_of index) xs"
proof -
  note closed = assms [unfolded index_closed_def]
  obtain indegree ordered where k: "kahn (map fst index) (start_of index) = Some (indegree, [], ordered)"
    using kahn_terminates [OF closed] by metis
  note facts = kahn_complete [OF closed k]
  show "(\<exists>xs. topological_order index = Inr xs) \<longleftrightarrow> acyclic (index_edges index)"
    using facts(4) by (simp add: topological_order_def k index_edges_def)
  show "distinct xs \<and> set xs = set (map fst index) \<and> deps_first (start_of index) xs"
    if "topological_order index = Inr xs"
    using that facts by (auto simp: topological_order_def k split: if_splits)
qed

interpretation plan_order: ordering index_closed
  "\<lambda>index. case topological_order index of Inr xs \<Rightarrow> Some xs | Inl _ \<Rightarrow> None" "map fst" start_of
proof
  fix index xs
  assume closed: "index_closed index"
    and order: "(case topological_order index of Inr xs \<Rightarrow> Some xs | Inl _ \<Rightarrow> None) = Some xs"
  then have "topological_order index = Inr xs" by (simp split: sum.splits)
  from topological_order_spec(2) [OF closed this]
  show "set xs = set (map fst index)" "distinct xs" "deps_first (start_of index) xs" by simp_all
qed

lemma order_option: "topological_order index = Inr xs \<Longrightarrow>
  (case topological_order index of Inr xs \<Rightarrow> Some xs | Inl _ \<Rightarrow> None) = Some xs"
  by simp

lemmas index_induct = plan_order.order_induct [OF _ order_option]
lemmas index_fill = plan_order.order_fill [OF _ order_option]

section \<open>Accepted graphs\<close>

definition limits_ok :: "plan_limits \<Rightarrow> bool" where
  "limits_ok l \<longleftrightarrow> 1 \<le> lim_active_projects l \<and> 1 \<le> lim_workers l \<and> 1 \<le> lim_heavy_gates l \<and> 1 \<le> lim_max_rounds l \<and>
     0 \<le> lim_min_gain l \<and> 0 < lim_units l \<and> 0 \<le> lim_fixed_cost l \<and> 0 \<le> lim_barrier_units l"

lemma check_limits_None: "check_limits l = None \<longleftrightarrow> limits_ok l"
  by (auto simp: check_limits_def limits_ok_def)

definition canonical_index :: "node_index \<Rightarrow> bool" where
  \<comment> \<open>what \<open>canon_index\<close> returns\<close>
  "canonical_index index \<longleftrightarrow>
     (\<exists>ms. index = index_of ms \<and> distinct (map pn_ref ms) \<and> (\<forall>m \<in> set ms. node_canonical m)) \<and>
     index_closed index \<and> acyclic (index_edges index)"

lemma canonical_keys:
  "list_all2 (\<lambda>n m. canonical_node n = Inr m) graph ms \<Longrightarrow> map pn_ref ms = map pn_ref graph"
  by (induction rule: list_all2_induct) (auto dest: canonical_node_fields(1))

lemma canonical_edges:
  assumes "list_all2 (\<lambda>n m. canonical_node n = Inr m) graph ms" "distinct (map pn_ref ms)"
  shows "index_edges (index_of ms) = plan_edges graph"
proof -
  have "plan_edges graph = {(d, pn_ref m) | d m. m \<in> set ms \<and> d \<in> set (pn_start m)}"
    using assms(1)
  proof (induction rule: list_all2_induct)
    case (Cons n graph m ms)
    have "plan_edges (n # graph) = (\<lambda>d. (ref_clean d, pn_ref n)) ` set (pn_start n) \<union> plan_edges graph"
      by (auto simp: plan_edges_def)
    also have "(\<lambda>d. (ref_clean d, pn_ref n)) ` set (pn_start n) = (\<lambda>d. (d, pn_ref m)) ` set (pn_start m)"
      unfolding canonical_node_fields(3) [OF Cons(1)] canonical_node_fields(1) [OF Cons(1)] image_image ..
    finally show ?case unfolding Cons.IH by auto
  qed (simp add: plan_edges_def)
  then show ?thesis using index_of_edges [OF assms(2)] by simp
qed

lemma canon_index_result:
  assumes "canon_index graph limits = Inr index"
  obtains ms where "index = index_of ms" "list_all2 (\<lambda>n m. canonical_node n = Inr m) graph ms"
    "distinct (map pn_ref ms)" "map pn_ref ms = map pn_ref graph" "canonical_index index"
    "index_edges index = plan_edges graph" "limits_ok limits"
proof -
  from assms have limits: "limits_ok limits"
    and nodes: "index_nodes graph [] = Inr index"
    and rest: "(case unknown_dependency index of Some (ref, dep) \<Rightarrow> Inl (UnknownTask ref dep)
      | None \<Rightarrow> try_bind (topological_order index) (\<lambda>_. Inr index)) = Inr index"
    by (auto simp: canon_index_def plan_results check_limits_None split: option.splits)
  from rest have known: "unknown_dependency index = None" and order: "\<exists>xs. topological_order index = Inr xs"
    by (cases "unknown_dependency index", auto simp: plan_results)+
  obtain ms where ms: "index = index_of ms" "list_all2 (\<lambda>n m. canonical_node n = Inr m) graph ms"
    using index_nodes_result [OF nodes] unfolding index_of_def append_Nil by blast
  have refs: "map pn_ref ms = map pn_ref graph"
    using ms(2) by (rule canonical_keys)
  have dist: "distinct (map pn_ref ms)" using index_nodes_spec [of "[]" graph] nodes by (simp add: refs)
  have canonical: "\<forall>m \<in> set ms. node_canonical m"
    using ms(2) by (induction rule: list_all2_induct) (auto dest: canonical_node_fields(2))
  have closed: "index_closed index" using unknown_dependency_None [OF dist] known ms(1) by simp
  have acyclic: "acyclic (index_edges index)" using topological_order_spec(1) [OF closed] order by (rule iffD1)
  have "canonical_index index"
    unfolding canonical_index_def by (intro conjI exI [of _ ms] ms(1) dist canonical closed acyclic)
  from that [OF ms dist refs this _ limits] show thesis using canonical_edges [OF ms(2) dist] ms(1) by simp
qed

definition graph_ok :: "plan_node list \<Rightarrow> bool" where
  "graph_ok graph \<longleftrightarrow> (\<forall>n \<in> set graph. node_ok n) \<and> distinct (map pn_ref graph) \<and>
     fst ` plan_edges graph \<subseteq> pn_ref ` set graph \<and> acyclic (plan_edges graph)"

lemma index_closed_edges:
  assumes "list_all2 (\<lambda>n m. canonical_node n = Inr m) graph ms" "distinct (map pn_ref ms)"
  shows "index_closed (index_of ms) \<longleftrightarrow> fst ` plan_edges graph \<subseteq> pn_ref ` set graph"
proof -
  have refs: "pn_ref ` set ms = pn_ref ` set graph"
    using arg_cong [OF canonical_keys [OF assms(1)], of set] by simp
  have "index_closed (index_of ms) \<longleftrightarrow> fst ` index_edges (index_of ms) \<subseteq> pn_ref ` set ms"
  proof -
    have "graph_closed nodes deps \<longleftrightarrow> distinct nodes \<and> fst ` dep_edges nodes deps \<subseteq> set nodes"
      for nodes and deps :: "task_ref \<Rightarrow> task_ref list"
    proof -
      have "fst ` dep_edges nodes deps = (\<Union>r \<in> set nodes. set (deps r))" by (force simp: dep_edges_def)
      then show ?thesis by (auto simp: graph_closed_def)
    qed
    then show ?thesis using assms(2) by (simp add: index_closed_def index_edges_def)
  qed
  then show ?thesis unfolding canonical_edges [OF assms] refs .
qed

text \<open>C36: Graph validation is fail-closed and exact: a graph is accepted exactly when the owner maxima
  are positive, every node is well formed (identity, dependencies that are valid and not itself,
  non-negative numbers, a known size, safe write scopes), no task is listed twice, every START
  dependency is a task of the graph and the START edges are acyclic.\<close>

theorem graph_accepted_iff:
  "validate_graph graph (Some limits) = Inr () \<longleftrightarrow> limits_ok limits \<and> graph_ok graph"
proof -
  have ok: "validate_graph graph (Some limits) = Inr () \<longleftrightarrow> (\<exists>index. canon_index graph limits = Inr index)"
    by (auto simp: validate_graph_def limits_or_default_def plan_results)
  show ?thesis
  proof
    assume "validate_graph graph (Some limits) = Inr ()"
    then obtain index where index: "canon_index graph limits = Inr index" using ok by blast
    then have nodes: "\<exists>i. index_nodes graph [] = Inr i"
      by (auto simp: canon_index_def plan_results split: option.splits)
    from canon_index_result [OF index] obtain ms where ms: "index = index_of ms"
      "list_all2 (\<lambda>n m. canonical_node n = Inr m) graph ms" "distinct (map pn_ref ms)"
      and canonical: "canonical_index index" and edges: "index_edges index = plan_edges graph" and limits: "limits_ok limits" .
    have "index_closed (index_of ms)" "acyclic (plan_edges graph)"
      using canonical edges ms(1) by (simp_all add: canonical_index_def)
    then have "graph_ok graph"
      using nodes unfolding index_nodes_spec [of "[]", simplified] index_closed_edges [OF ms(2,3)] graph_ok_def by blast
    then show "limits_ok limits \<and> graph_ok graph" using limits by blast
  next
    assume good: "limits_ok limits \<and> graph_ok graph"
    then obtain index where nodes: "index_nodes graph [] = Inr index"
      using index_nodes_spec [of "[]" graph] by (auto simp: graph_ok_def)
    obtain ms where ms: "index = index_of ms" "list_all2 (\<lambda>n m. canonical_node n = Inr m) graph ms"
      using index_nodes_result [OF nodes] unfolding index_of_def append_Nil by blast
    have dist: "distinct (map pn_ref ms)"
      using canonical_keys [OF ms(2)] good by (simp add: graph_ok_def)
    have closed: "index_closed index" using good index_closed_edges [OF ms(2) dist] ms(1) by (simp add: graph_ok_def)
    then have "\<exists>xs. topological_order index = Inr xs"
      using topological_order_spec(1) [OF closed] canonical_edges [OF ms(2) dist] ms(1) good by (simp add: graph_ok_def)
    then have "canon_index graph limits = Inr index"
      using nodes unknown_dependency_None [OF dist] closed ms(1) good
      by (auto simp: canon_index_def check_limits_None [symmetric])
    then show "validate_graph graph (Some limits) = Inr ()" using ok by blast
  qed
qed

end
