(* ===== verification/Wave_Reduction.thy ===== *)
theory Wave_Reduction
  imports Wave_Graph_Laws
begin

text \<open>
  The critical path of a task graph and the removal of redundant START edges.

  \<^item> \<open>chain_of\<close> is the reference notion: a list of tasks in which each depends on the one before.
    \<open>critical_path\<close> is the greatest weight of a chain.
  \<^item> \<open>remove_redundant_dependencies\<close> computes the transitive reduction: reachability stays, no edge
    left is implied by the others, and the critical path stays.
\<close>

section \<open>Chains\<close>

definition chain_of :: "(task_ref \<times> task_ref) set \<Rightarrow> task_ref set \<Rightarrow> task_ref list \<Rightarrow> bool" where
  "chain_of E K xs \<longleftrightarrow> set xs \<subseteq> K \<and> successively (\<lambda>d r. (d, r) \<in> E) xs"

definition chain_weight :: "(task_ref \<Rightarrow> rat) \<Rightarrow> task_ref list \<Rightarrow> rat" where
  "chain_weight w xs = sum_list (map w xs)"

definition longest_chain :: "(task_ref \<times> task_ref) set \<Rightarrow> task_ref set \<Rightarrow> (task_ref \<Rightarrow> rat) \<Rightarrow> rat \<Rightarrow> bool" where
  "longest_chain E K w c \<longleftrightarrow>
     (\<exists>xs. chain_of E K xs \<and> chain_weight w xs = c) \<and> (\<forall>xs. chain_of E K xs \<longrightarrow> chain_weight w xs \<le> c)"

lemma chain_simps [simp]:
  "chain_of E K []" "chain_weight w [] = 0"
  "chain_of E K [r] \<longleftrightarrow> r \<in> K" "chain_weight w [r] = w r"
  "chain_of E K (xs @ [r]) \<longleftrightarrow> chain_of E K xs \<and> r \<in> K \<and> (xs = [] \<or> (last xs, r) \<in> E)"
  "chain_weight w (xs @ [r]) = chain_weight w xs + w r"
  by (auto simp: chain_of_def chain_weight_def successively_append_iff)

lemma longest_chain_unique: "longest_chain E K w c \<Longrightarrow> longest_chain E K w c' \<Longrightarrow> c = c'"
  unfolding longest_chain_def by (metis antisym)

lemma max_or_facts:
  "x \<in> set xs \<Longrightarrow> x \<le> max_or d xs" "xs \<noteq> [] \<Longrightarrow> max_or d xs \<in> set xs" "max_or d [] = d"
  by (auto simp: max_or_def intro: Max_in)

lemma max_or_nonneg: "(\<And>x. x \<in> set xs \<Longrightarrow> 0 \<le> x) \<Longrightarrow> 0 \<le> max_or 0 (xs :: rat list)"
  using max_or_facts(2) [of xs 0] by (cases "xs = []") (auto simp: max_or_facts(3))

lemma longest_chain_of_table:
  fixes w chain :: "task_ref \<Rightarrow> rat"
  assumes order: "deps_first deps order" "distinct order"
    and entry: "\<And>r. r \<in> set order \<Longrightarrow> chain r = w r + max_or 0 (map chain (deps r))"
    and nonneg: "\<And>r. r \<in> set order \<Longrightarrow> 0 \<le> w r"
  shows "longest_chain (dep_edges order deps) (set order) w (max_or 0 (map chain order))"
proof -
  let ?E = "dep_edges order deps" and ?K = "set order"
  have induct: "\<forall>r \<in> set ys. Q r" if "deps_first deps ys"
    and "\<And>r. r \<in> set ys \<Longrightarrow> (\<And>d. d \<in> set (deps r) \<Longrightarrow> d \<in> set ys \<and> Q d) \<Longrightarrow> Q r" for Q ys
  proof -
    have "deps_first deps zs \<Longrightarrow> prefix zs ys \<Longrightarrow> \<forall>r \<in> set zs. Q r" for zs
    proof (induction zs rule: rev_induct)
      case (snoc z zs)
      then have "\<forall>r \<in> set zs. Q r" "prefix zs ys" "set (deps z) \<subseteq> set zs"
        by (auto dest: append_prefixD)
      moreover have "z \<in> set ys" "set zs \<subseteq> set ys" using snoc.prems(2) by (auto simp: prefix_def)
      ultimately show ?case using that(2) [of z] by auto
    qed simp
    then show ?thesis using that(1) by blast
  qed
  have pos: "\<forall>r \<in> ?K. 0 \<le> chain r"
  proof (rule induct [OF order(1)])
    fix r assume r: "r \<in> ?K" and "\<And>d. d \<in> set (deps r) \<Longrightarrow> d \<in> ?K \<and> 0 \<le> chain d"
    then have "0 \<le> max_or 0 (map chain (deps r))" by (intro max_or_nonneg) auto
    then show "0 \<le> chain r" using entry [OF r] nonneg [OF r] by simp
  qed
  have least: "w r \<le> chain r" if "r \<in> ?K" for r
  proof -
    have "0 \<le> max_or 0 (map chain (deps r))"
      using pos deps_first_closed [OF order(1) that] by (intro max_or_nonneg) auto
    then show ?thesis using entry [OF that] by simp
  qed
  have upper: "chain_weight w xs \<le> chain (last xs)" if "chain_of ?E ?K xs" "xs \<noteq> []" for xs
    using that
  proof (induction xs rule: rev_induct)
    case (snoc r xs)
    then have r: "r \<in> ?K" by simp
    show ?case
    proof (cases "xs = []")
      case True
      then show ?thesis using least [OF r] by (simp add: chain_weight_def)
    next
      case False
      then have IH: "chain_weight w xs \<le> chain (last xs)" and edge: "last xs \<in> set (deps r)"
        using snoc by (auto simp: dep_edges_def)
      have "chain (last xs) \<le> max_or 0 (map chain (deps r))" using edge by (intro max_or_facts) simp
      then show ?thesis using IH entry [OF r] by simp
    qed
  qed simp
  have reach: "\<forall>r \<in> ?K. \<exists>xs. chain_of ?E ?K xs \<and> xs \<noteq> [] \<and> last xs = r \<and> chain_weight w xs = chain r"
  proof (rule induct [OF order(1)])
    fix r assume r: "r \<in> ?K" and IH: "\<And>d. d \<in> set (deps r) \<Longrightarrow> d \<in> ?K \<and>
      (\<exists>xs. chain_of ?E ?K xs \<and> xs \<noteq> [] \<and> last xs = d \<and> chain_weight w xs = chain d)"
    show "\<exists>xs. chain_of ?E ?K xs \<and> xs \<noteq> [] \<and> last xs = r \<and> chain_weight w xs = chain r"
    proof (cases "deps r = []")
      case True
      then show ?thesis using r entry [OF r] by (intro exI [of _ "[] @ [r]"]) (simp add: max_or_facts(3))
    next
      case False
      then have "max_or 0 (map chain (deps r)) \<in> chain ` set (deps r)"
        using max_or_facts(2) [of "map chain (deps r)" 0] by simp
      then obtain d where d: "d \<in> set (deps r)" "max_or 0 (map chain (deps r)) = chain d" by blast
      then obtain xs where xs: "chain_of ?E ?K xs" "xs \<noteq> []" "last xs = d" "chain_weight w xs = chain d"
        using IH by blast
      then show ?thesis using r d entry [OF r]
        by (intro exI [of _ "xs @ [r]"]) (auto simp: dep_edges_def)
    qed
  qed
  show ?thesis
  proof (cases "order = []")
    case True
    then show ?thesis
      by (auto simp: longest_chain_def max_or_facts(3) chain_of_def chain_weight_def intro!: exI [of _ "[]"])
  next
    case False
    let ?c = "max_or 0 (map chain order)"
    have "?c \<in> chain ` ?K" using max_or_facts(2) [of "map chain order" 0] False by simp
    then obtain r where r: "r \<in> ?K" "?c = chain r" by blast
    then obtain top where "chain_of ?E ?K top" "chain_weight w top = ?c" using reach by metis
    moreover have "chain_weight w xs \<le> ?c" if "chain_of ?E ?K xs" for xs
    proof (cases "xs = []")
      case True
      then show ?thesis using pos r by simp
    next
      case False
      then have "last xs \<in> ?K" using that by (auto simp: chain_of_def)
      then have "chain (last xs) \<le> ?c" by (intro max_or_facts) simp
      then show ?thesis using upper [OF that False] by simp
    qed
    ultimately show ?thesis unfolding longest_chain_def by blast
  qed
qed

section \<open>The critical path\<close>

definition task_weight :: "node_index \<Rightarrow> plan_limits \<Rightarrow> task_ref \<Rightarrow> rat" where
  "task_weight index limits r =
     node_duration (index_node index r) limits + node_integration (index_node index r) limits"

lemma node_weights_nonneg:
  assumes "node_canonical n" "limits_ok limits"
  shows "0 \<le> node_duration n limits" "0 \<le> node_integration n limits"
proof -
  have "0 < size_pct n limits" by (simp add: size_pct_def prior_pct_range)
  then show "0 \<le> node_duration n limits"
    using assms by (auto simp: node_duration_def node_canonical_def negative_def limits_ok_def split: option.splits)
  show "0 \<le> node_integration n limits"
    using assms by (auto simp: node_integration_def node_canonical_def negative_def limits_ok_def split: option.splits)
qed

lemma canonical_index_node:
  assumes "canonical_index index" "r \<in> set (map fst index)"
  shows "dict_get index r = Some (index_node index r)" "node_canonical (index_node index r)"
    "pn_ref (index_node index r) = r" "start_of index r = pn_start (index_node index r)"
proof -
  obtain ms where ms: "index = index_of ms" "distinct (map pn_ref ms)" "\<forall>m \<in> set ms. node_canonical m"
    using assms(1) unfolding canonical_index_def by blast
  then obtain m where m: "m \<in> set ms" "r = pn_ref m" using assms(2) by auto
  note get = index_of_get [OF ms(2) m(1), folded ms(1) m(2)]
  show "dict_get index r = Some (index_node index r)" "node_canonical (index_node index r)"
    "pn_ref (index_node index r) = r" "start_of index r = pn_start (index_node index r)"
    using get m ms(3) by (simp_all add: index_node_def start_of_def)
qed

lemma dep_edges_cong: "set nodes = set nodes' \<Longrightarrow> dep_edges nodes deps = dep_edges nodes' deps"
  by (simp add: dep_edges_def)

lemma critical_path_longest:
  assumes "canonical_index index" "limits_ok limits"
  shows "\<exists>c. critical_path index limits = Inr c \<and>
    longest_chain (index_edges index) (set (map fst index)) (task_weight index limits) c"
proof -
  have closed: "index_closed index" using assms(1) by (simp add: canonical_index_def)
  obtain order where order: "topological_order index = Inr order"
    using topological_order_spec(1) [OF closed] assms(1) by (auto simp: canonical_index_def)
  note facts = topological_order_spec(2) [OF closed order]
  let ?t = "fill (chain_entry index limits) order (\<lambda>_. 0)"
  have "?t r = task_weight index limits r + max_or 0 (map ?t (start_of index r))" if "r \<in> set order" for r
  proof -
    have "?t r = chain_entry index limits ?t r"
    proof (rule index_fill [OF closed order])
      show "r \<in> set (map fst index)" using that facts by simp
      show "chain_entry index limits t r = chain_entry index limits t' r"
        if "\<And>d. d \<in> set (start_of index r) \<Longrightarrow> t d = t' d" for r t t'
        using that by (simp add: chain_entry_def cong: map_cong)
    qed
    then show ?thesis by (simp only: chain_entry_def Let_def task_weight_def)
  qed
  moreover have "0 \<le> task_weight index limits r" if "r \<in> set order" for r
    using node_weights_nonneg [OF canonical_index_node(2) [OF assms(1)] assms(2)] that facts
    by (simp add: task_weight_def)
  ultimately have "longest_chain (dep_edges order (start_of index)) (set order) (task_weight index limits)
      (max_or 0 (map ?t order))"
    using facts by (intro longest_chain_of_table) auto
  moreover have "dep_edges order (start_of index) = index_edges index"
    using facts by (simp add: index_edges_def dep_edges_def)
  ultimately show ?thesis using facts by (simp add: critical_path_def order)
qed

text \<open>C33: The critical path of an accepted graph is the greatest weight of a chain of tasks in which
  each task depends on the one before it, weights including the integration of barriers.\<close>

theorem critical_path_is_longest_chain:
  assumes "canon_index graph limits = Inr index"
  shows "\<exists>c. critical_path index limits = Inr c \<and>
    longest_chain (plan_edges graph) (pn_ref ` set graph) (task_weight index limits) c"
proof -
  from assms obtain ms where ms: "index = index_of ms" "map pn_ref ms = map pn_ref graph"
    and facts: "canonical_index index" "index_edges index = plan_edges graph" "limits_ok limits"
    by (rule canon_index_result)
  have "set (map fst index) = pn_ref ` set graph" using ms by (metis index_of_keys set_map)
  then show ?thesis using critical_path_longest [OF facts(1,3)] facts(2) by simp
qed

section \<open>Redundant edges\<close>

lemma trancl_last_step: "(x, r) \<in> E\<^sup>+ \<longleftrightarrow> (\<exists>d. (d, r) \<in> E \<and> (x = d \<or> (x, d) \<in> E\<^sup>+))"
  by (metis trancl.simps)

definition implied_edges :: "('a \<times> 'a) set \<Rightarrow> ('a \<times> 'a) set" where
  \<comment> \<open>the edges \<open>(d, r)\<close> such that \<open>r\<close> has another direct predecessor reachable from \<open>d\<close>\<close>
  "implied_edges E = {(d, r) \<in> E. \<exists>x. (x, r) \<in> E \<and> (d, x) \<in> E\<^sup>+}"

lemma reduction_reaches:
  assumes "finite E" "acyclic E" "(d, r) \<in> E\<^sup>+"
  shows "(d, r) \<in> (E - implied_edges E)\<^sup>+"
  using assms(3)
proof (induction "card {x. (d, x) \<in> E\<^sup>+ \<and> (x, r) \<in> E\<^sup>+}" arbitrary: d r rule: less_induct)
  case less
  let ?between = "\<lambda>d r. {x. (d, x) \<in> E\<^sup>+ \<and> (x, r) \<in> E\<^sup>+}"
  have fin: "finite (?between d r)" for d r
  proof (rule finite_subset)
    show "?between d r \<subseteq> Range (E\<^sup>+)" by blast
    show "finite (Range (E\<^sup>+))" using assms(1) by (simp add: finite_Range)
  qed
  have ac: "(x, x) \<notin> E\<^sup>+" for x using assms(2) by (simp add: acyclic_def)
  show ?case
  proof (cases "\<exists>x. (d, x) \<in> E\<^sup>+ \<and> (x, r) \<in> E\<^sup>+")
    case True
    then obtain x where x: "(d, x) \<in> E\<^sup>+" "(x, r) \<in> E\<^sup>+" by blast
    have "?between d x \<subset> ?between d r" "?between x r \<subset> ?between d r"
      using x ac by (auto intro: trancl_trans)
    then have "card (?between d x) < card (?between d r)" "card (?between x r) < card (?between d r)"
      using fin by (simp_all add: psubset_card_mono)
    then have "(d, x) \<in> (E - implied_edges E)\<^sup>+" "(x, r) \<in> (E - implied_edges E)\<^sup>+"
      using less.hyps x by blast+
    then show ?thesis by (rule trancl_trans)
  next
    case False
    then have "(d, r) \<in> E" using less.prems trancl_last_step [of d r E] by blast
    then show ?thesis using False by (auto simp: implied_edges_def)
  qed
qed

lemma reduction_minimal:
  assumes "acyclic E" "(d, r) \<in> E - implied_edges E"
  shows "(d, r) \<notin> (E - implied_edges E - {(d, r)})\<^sup>+"
proof
  let ?E = "E - implied_edges E - {(d, r)}"
  assume "(d, r) \<in> ?E\<^sup>+"
  then obtain x where x: "(x, r) \<in> ?E" "d = x \<or> (d, x) \<in> ?E\<^sup>+"
    using trancl_last_step [of d r ?E] by blast
  then have "(d, x) \<in> ?E\<^sup>+" by blast
  then have "(d, x) \<in> E\<^sup>+" by (rule trancl_mono) blast
  then show False using assms(2) x(1) by (auto simp: implied_edges_def)
qed

lemma reduction_trancl:
  assumes "finite E" "acyclic E"
  shows "(E - implied_edges E)\<^sup>+ = E\<^sup>+"
proof
  show "(E - implied_edges E)\<^sup>+ \<subseteq> E\<^sup>+" using trancl_mono [of _ "E - implied_edges E" E] by auto
  show "E\<^sup>+ \<subseteq> (E - implied_edges E)\<^sup>+" using reduction_reaches [OF assms] by auto
qed

lemma plan_ancestors_spec:
  assumes "canonical_index index"
  obtains ancestors where "plan_ancestors index = Inr ancestors"
    "\<And>r. r \<in> set (map fst index) \<Longrightarrow> ancestors r = {d. (d, r) \<in> (index_edges index)\<^sup>+}"
proof -
  have closed: "index_closed index" using assms by (simp add: canonical_index_def)
  obtain order where order: "topological_order index = Inr order"
    using topological_order_spec(1) [OF closed] assms by (auto simp: canonical_index_def)
  let ?a = "fill (ancestors_entry index) order (\<lambda>_. {})"
  have "?a r = {d. (d, r) \<in> (index_edges index)\<^sup>+}" if "r \<in> set (map fst index)" for r
  proof (rule index_induct [OF closed order that])
    fix r assume r: "r \<in> set (map fst index)"
      and IH: "\<And>d. d \<in> set (start_of index r) \<Longrightarrow> ?a d = {x. (x, d) \<in> (index_edges index)\<^sup>+}"
    have "?a r = ancestors_entry index ?a r"
    proof (rule index_fill [OF closed order r])
      show "ancestors_entry index t r = ancestors_entry index t' r"
        if "\<And>d. d \<in> set (start_of index r) \<Longrightarrow> t d = t' d" for r t t'
        using that by (simp add: ancestors_entry_def)
    qed
    also have "\<dots> = (\<Union>d \<in> set (start_of index r). insert d {x. (x, d) \<in> (index_edges index)\<^sup>+})"
      unfolding ancestors_entry_def [of index ?a r] by (intro SUP_cong refl) (simp only: IH)
    also have "\<dots> = {x. \<exists>d. (d, r) \<in> index_edges index \<and> (x = d \<or> (x, d) \<in> (index_edges index)\<^sup>+)}"
      using r by (auto simp: index_edges_def dep_edges_def)
    finally show "?a r = {d. (d, r) \<in> (index_edges index)\<^sup>+}" unfolding trancl_last_step [of _ r] .
  qed
  moreover have "plan_ancestors index = Inr ?a" by (simp add: plan_ancestors_def order)
  ultimately show thesis using that by blast
qed

lemma edge_redundant_spec:
  assumes "canonical_index index" "r \<in> set (map fst index)"
    "\<And>r. r \<in> set (map fst index) \<Longrightarrow> ancestors r = {d. (d, r) \<in> (index_edges index)\<^sup>+}"
  shows "d \<in> set (start_of index r) \<and> edge_redundant ancestors (start_of index r) d \<longleftrightarrow>
    (d, r) \<in> implied_edges (index_edges index)"
proof -
  let ?E = "index_edges index"
  have edge: "x \<in> set (start_of index r) \<longleftrightarrow> (x, r) \<in> ?E" for x
    using assms(2) by (simp add: index_edges_def dep_edges_def)
  have key: "x \<in> set (map fst index)" if "(x, r) \<in> ?E" for x
  proof -
    have "index_closed index" using assms(1) by (simp add: canonical_index_def)
    then show ?thesis using that assms(2) by (auto simp: index_closed_def graph_closed_def index_edges_def dep_edges_def)
  qed
  have ac: "(x, x) \<notin> ?E\<^sup>+" for x using assms(1) by (simp add: canonical_index_def acyclic_def)
  have "edge_redundant ancestors (start_of index r) d \<longleftrightarrow> (\<exists>x. (x, r) \<in> ?E \<and> x \<noteq> d \<and> (d, x) \<in> ?E\<^sup>+)"
    unfolding edge_redundant_def list_ex_iff using edge key assms(3) by blast
  also have "\<dots> \<longleftrightarrow> (\<exists>x. (x, r) \<in> ?E \<and> (d, x) \<in> ?E\<^sup>+)" using ac by blast
  finally show ?thesis using edge by (auto simp: implied_edges_def)
qed

lemma prune_node_fields [simp]:
  "pn_ref (prune_node ancestors m) = pn_ref m" "pn_size (prune_node ancestors m) = pn_size m"
  "pn_duration (prune_node ancestors m) = pn_duration m" "pn_integration (prune_node ancestors m) = pn_integration m"
  "pn_barrier (prune_node ancestors m) = pn_barrier m"
  "set (pn_start (prune_node ancestors m)) =
     {d \<in> set (pn_start m). \<not> edge_redundant ancestors (pn_start m) d}"
  by (simp_all add: prune_node_def pn_ref_def)

lemma pruned_nodes: "set (graph_from_index (prune_index ancestors (index_of ms))) = prune_node ancestors ` set ms"
  by (simp add: graph_from_index_def prune_index_def index_of_def image_image)

lemma removed_pairs:
  "set (redundant_edges ancestors (index_of ms)) =
     (\<Union>m \<in> set ms. Pair (pn_ref m) ` {d \<in> set (pn_start m). edge_redundant ancestors (pn_start m) d})"
  by (simp add: redundant_edges_def index_of_def)

lemma reduced_edges:
  assumes "canon_index graph limits = Inr index"
    "\<And>r. r \<in> set (map fst index) \<Longrightarrow> ancestors r = {d. (d, r) \<in> (index_edges index)\<^sup>+}"
  shows "plan_edges (graph_from_index (prune_index ancestors index)) = plan_edges graph - implied_edges (plan_edges graph)"
    and "set (redundant_edges ancestors index) = {(r, d). (d, r) \<in> implied_edges (plan_edges graph)}"
proof -
  from assms(1) obtain ms where ms: "index = index_of ms" "distinct (map pn_ref ms)"
    and facts: "canonical_index index" "index_edges index = plan_edges graph" by (rule canon_index_result)
  have implied: "d \<in> set (pn_start m) \<and> edge_redundant ancestors (pn_start m) d \<longleftrightarrow>
      (d, pn_ref m) \<in> implied_edges (plan_edges graph)" if "m \<in> set ms" for m d
  proof -
    have "pn_ref m \<in> set (map fst index)" using that by (simp add: ms(1))
    from edge_redundant_spec [OF facts(1) this assms(2)]
    show ?thesis unfolding facts(2) unfolding ms(1) index_of_start [OF ms(2) that] .
  qed
  have edges: "(d, r) \<in> plan_edges graph \<longleftrightarrow> (\<exists>m \<in> set ms. r = pn_ref m \<and> d \<in> set (pn_start m))" for d r
    unfolding facts(2) [symmetric] ms(1) index_of_edges [OF ms(2)] by blast
  have clean: "ref_clean d = d" if "m \<in> set ms" "d \<in> set (pn_start m)" for m d
    using edges [of d "pn_ref m"] that by (auto simp: plan_edges_def)
  have "(d, r) \<in> plan_edges (graph_from_index (prune_index ancestors index)) \<longleftrightarrow>
      (\<exists>m \<in> set ms. r = pn_ref m \<and> d \<in> set (pn_start m) \<and> \<not> edge_redundant ancestors (pn_start m) d)" for d r
  proof -
    have "plan_edges (graph_from_index (prune_index ancestors index)) =
        (\<Union>m \<in> set ms. (\<lambda>d. (ref_clean d, pn_ref m)) ` {d \<in> set (pn_start m). \<not> edge_redundant ancestors (pn_start m) d})"
    proof -
      have "plan_edges ns = (\<Union>n \<in> set ns. (\<lambda>d. (ref_clean d, pn_ref n)) ` set (pn_start n))" for ns
        by (auto simp: plan_edges_def)
      then show ?thesis unfolding ms(1) by (simp add: pruned_nodes)
    qed
    also have "\<dots> = (\<Union>m \<in> set ms. (\<lambda>d. (d, pn_ref m)) ` {d \<in> set (pn_start m). \<not> edge_redundant ancestors (pn_start m) d})"
      using clean by (intro SUP_cong image_cong refl) auto
    finally show ?thesis by auto
  qed
  moreover have "(\<exists>m \<in> set ms. r = pn_ref m \<and> d \<in> set (pn_start m) \<and> \<not> edge_redundant ancestors (pn_start m) d) \<longleftrightarrow>
      (d, r) \<in> plan_edges graph - implied_edges (plan_edges graph)" for d r
  proof -
    have "d \<in> set (pn_start m) \<and> \<not> edge_redundant ancestors (pn_start m) d \<longleftrightarrow>
        d \<in> set (pn_start m) \<and> (d, r) \<notin> implied_edges (plan_edges graph)" if "m \<in> set ms" "r = pn_ref m" for m
      using implied [OF that(1), of d] unfolding that(2) by argo
    then show ?thesis unfolding Diff_iff edges by blast
  qed
  ultimately have "(d, r) \<in> plan_edges (graph_from_index (prune_index ancestors index)) \<longleftrightarrow>
      (d, r) \<in> plan_edges graph - implied_edges (plan_edges graph)" for d r by (simp only:)
  then show "plan_edges (graph_from_index (prune_index ancestors index)) = plan_edges graph - implied_edges (plan_edges graph)"
    by (intro set_eqI) (metis surj_pair)
  have "(r, d) \<in> set (redundant_edges ancestors index) \<longleftrightarrow> (d, r) \<in> implied_edges (plan_edges graph)" for r d
  proof -
    have "(r, d) \<in> set (redundant_edges ancestors index) \<longleftrightarrow>
        (\<exists>m \<in> set ms. r = pn_ref m \<and> d \<in> set (pn_start m) \<and> edge_redundant ancestors (pn_start m) d)"
      unfolding ms(1) removed_pairs by auto
    also have "\<dots> \<longleftrightarrow> (d, r) \<in> implied_edges (plan_edges graph)"
    proof -
      have "implied_edges (plan_edges graph) \<subseteq> plan_edges graph" by (auto simp: implied_edges_def)
      then show ?thesis using implied edges [of d r] by blast
    qed
    finally show ?thesis .
  qed
  then show "set (redundant_edges ancestors index) = {(r, d). (d, r) \<in> implied_edges (plan_edges graph)}" by auto
qed

lemma plan_edges_finite: "finite (plan_edges graph)"
proof -
  have "plan_edges graph = (\<Union>n \<in> set graph. (\<lambda>d. (ref_clean d, pn_ref n)) ` set (pn_start n))"
    by (auto simp: plan_edges_def)
  then show ?thesis by simp
qed

lemma reduction_result:
  assumes "canon_index graph limits = Inr index"
  obtains red ancestors where "remove_redundant_dependencies graph (Some limits) = Inr red"
    "dr_graph red = graph_from_index (prune_index ancestors index)"
    "plan_edges (dr_graph red) = plan_edges graph - implied_edges (plan_edges graph)"
    "set (dr_removed red) = {(r, d). (d, r) \<in> implied_edges (plan_edges graph)}"
proof -
  have "canonical_index index" using assms by (rule canon_index_result)
  then obtain ancestors where a: "plan_ancestors index = Inr ancestors"
    "\<And>r. r \<in> set (map fst index) \<Longrightarrow> ancestors r = {d. (d, r) \<in> (index_edges index)\<^sup>+}"
    using plan_ancestors_spec by metis
  then have "remove_redundant_dependencies graph (Some limits) =
      Inr \<lparr>dr_graph = graph_from_index (prune_index ancestors index), dr_removed = sort (redundant_edges ancestors index)\<rparr>"
    by (simp add: remove_redundant_dependencies_def limits_or_default_def assms)
  from that [OF this] show thesis using reduced_edges [OF assms a(2)] by simp
qed

text \<open>C11: Removing redundant dependencies computes the transitive reduction: every accepted graph is
  reduced, which tasks must precede which does not change, the removed pairs are exactly the edges
  that are gone, and no remaining edge is implied by the other remaining ones.\<close>

theorem redundant_removal_is_transitive_reduction:
  assumes "validate_graph graph (Some limits) = Inr ()"
  shows "\<exists>red. remove_redundant_dependencies graph (Some limits) = Inr red \<and>
    (plan_edges (dr_graph red))\<^sup>+ = (plan_edges graph)\<^sup>+ \<and>
    set (dr_removed red) = {(r, d). (d, r) \<in> plan_edges graph \<and> (d, r) \<notin> plan_edges (dr_graph red)} \<and>
    (\<forall>e \<in> plan_edges (dr_graph red). e \<notin> (plan_edges (dr_graph red) - {e})\<^sup>+)"
proof -
  obtain index where index: "canon_index graph limits = Inr index"
    using assms by (auto simp: validate_graph_def limits_or_default_def plan_results)
  from index obtain ms where "canonical_index index" "index_edges index = plan_edges graph" by (rule canon_index_result)
  then have ac: "acyclic (plan_edges graph)" by (simp add: canonical_index_def)
  from index obtain red ancestors where red: "remove_redundant_dependencies graph (Some limits) = Inr red"
    "plan_edges (dr_graph red) = plan_edges graph - implied_edges (plan_edges graph)"
    "set (dr_removed red) = {(r, d). (d, r) \<in> implied_edges (plan_edges graph)}"
    by (rule reduction_result)
  have "implied_edges (plan_edges graph) \<subseteq> plan_edges graph" by (auto simp: implied_edges_def)
  then have "set (dr_removed red) = {(r, d). (d, r) \<in> plan_edges graph \<and> (d, r) \<notin> plan_edges (dr_graph red)}"
    unfolding red by auto
  moreover have "e \<notin> (plan_edges (dr_graph red) - {e})\<^sup>+" if "e \<in> plan_edges (dr_graph red)" for e
    using that reduction_minimal [OF ac] unfolding red by (cases e) blast
  moreover have "(plan_edges (dr_graph red))\<^sup>+ = (plan_edges graph)\<^sup>+"
    unfolding red using plan_edges_finite ac by (rule reduction_trancl)
  ultimately show ?thesis using red(1) by blast
qed

section \<open>The critical path of the reduced graph\<close>

lemma chain_to_successor:
  assumes "(d, r) \<in> E\<^sup>+" "E \<subseteq> K \<times> K" "\<And>x. x \<in> K \<Longrightarrow> 0 \<le> w x" "chain_of E K ys" "ys \<noteq> []" "last ys = d"
  shows "\<exists>zs. chain_of E K zs \<and> zs \<noteq> [] \<and> last zs = r \<and> chain_weight w ys + w r \<le> chain_weight w zs"
  using assms(1)
proof (induction rule: trancl_induct)
  case (base r)
  then show ?case using assms by (intro exI [of _ "ys @ [r]"]) auto
next
  case (step x r)
  then obtain zs where "chain_of E K zs" "zs \<noteq> []" "last zs = x" "chain_weight w ys + w x \<le> chain_weight w zs" by blast
  moreover have "x \<in> K" "r \<in> K" using step(2) assms(2) by auto
  ultimately show ?case using step(2) assms(3) [of x] by (intro exI [of _ "zs @ [r]"]) auto
qed

lemma longest_chain_trancl:
  assumes "longest_chain E K w c" "E \<subseteq> E'\<^sup>+" "E' \<subseteq> E" "E \<subseteq> K \<times> K" "\<And>x. x \<in> K \<Longrightarrow> 0 \<le> w x"
  shows "longest_chain E' K w c"
proof -
  have shrink: "chain_of E K xs" if "chain_of E' K xs" for xs
    using that assms(3) unfolding chain_of_def by (auto intro: successively_mono)
  have extend: "\<exists>ys. chain_of E' K ys \<and> ys \<noteq> [] \<and> last ys = last xs \<and> chain_weight w xs \<le> chain_weight w ys"
    if "chain_of E K xs" "xs \<noteq> []" for xs
    using that
  proof (induction xs rule: rev_induct)
    case (snoc r xs)
    show ?case
    proof (cases "xs = []")
      case True
      then show ?thesis using snoc.prems by (intro exI [of _ "[r]"]) simp
    next
      case False
      then obtain ys where ys: "chain_of E' K ys" "ys \<noteq> []" "last ys = last xs" "chain_weight w xs \<le> chain_weight w ys"
        using snoc by auto
      have "(last xs, r) \<in> E'\<^sup>+" using snoc.prems False assms(2) by auto
      moreover have "E' \<subseteq> K \<times> K" using assms(3,4) by blast
      ultimately obtain zs where "chain_of E' K zs" "zs \<noteq> []" "last zs = r" "chain_weight w ys + w r \<le> chain_weight w zs"
        using chain_to_successor [of "last xs" r E' K w ys] assms(5) ys(1,2,3) by blast
      then show ?thesis using ys(4) by (intro exI [of _ zs]) simp
    qed
  qed simp
  from assms(1) obtain xs where xs: "chain_of E K xs" "chain_weight w xs = c"
    and upper: "\<And>xs. chain_of E K xs \<Longrightarrow> chain_weight w xs \<le> c" unfolding longest_chain_def by blast
  have "\<exists>ys. chain_of E' K ys \<and> chain_weight w ys = c"
  proof (cases "xs = []")
    case True
    then show ?thesis using xs(2) by (intro exI [of _ "[]"]) simp
  next
    case False
    then obtain ys where "chain_of E' K ys" "c \<le> chain_weight w ys" using extend [OF xs(1)] xs(2) by blast
    then show ?thesis using upper shrink by (metis antisym)
  qed
  then show ?thesis using upper shrink unfolding longest_chain_def by blast
qed

lemma canon_index_node:
  assumes "canon_index graph limits = Inr index" "n \<in> set graph"
  shows "canonical_node n = Inr (index_node index (pn_ref n))"
proof -
  from assms(1) obtain ms where ms: "index = index_of ms" "list_all2 (\<lambda>n m. canonical_node n = Inr m) graph ms"
    "distinct (map pn_ref ms)" by (rule canon_index_result)
  have "\<exists>m \<in> set ms. canonical_node n = Inr m" using ms(2) assms(2) by (induction rule: list_all2_induct) auto
  then obtain m where m: "m \<in> set ms" "canonical_node n = Inr m" by blast
  then have "index_node index (pn_ref n) = m"
    using index_of_get [OF ms(3) m(1)] canonical_node_fields(1) [OF m(2)] by (simp add: index_node_def ms(1))
  then show ?thesis using m(2) by simp
qed

lemma same_weight:
  assumes "canonical_node (prune_node ancestors m) = Inr m'" "node_canonical m"
  shows "node_duration m' limits = node_duration m limits" "node_integration m' limits = node_integration m limits"
proof -
  have "pn_size m' = pn_size m" using canonical_node_fields(7) [OF assms(1)] assms(2) by (simp add: node_canonical_def)
  then have "size_pct m' limits = size_pct m limits" by (simp add: size_pct_def)
  then show "node_duration m' limits = node_duration m limits" "node_integration m' limits = node_integration m limits"
    using canonical_node_fields(4-6) [OF assms(1)]
    by (simp_all add: node_duration_def node_integration_def split: option.split)
qed

lemma reduced_weight:
  assumes "canonical_index index" "index = index_of ms" "distinct (map pn_ref ms)"
    "canon_index (graph_from_index (prune_index ancestors index)) limits = Inr index'" "r \<in> set (map fst index)"
  shows "task_weight index' limits r = task_weight index limits r"
proof -
  obtain m where m: "m \<in> set ms" "r = pn_ref m" using assms(5) unfolding assms(2) index_of_keys by auto
  have node: "index_node index r = m" using index_of_get [OF assms(3) m(1)] m(2) by (simp add: index_node_def assms(2))
  have "prune_node ancestors m \<in> set (graph_from_index (prune_index ancestors index))"
    using m(1) unfolding assms(2) pruned_nodes by (rule imageI)
  then have "canonical_node (prune_node ancestors m) = Inr (index_node index' (pn_ref (prune_node ancestors m)))"
    by (rule canon_index_node [OF assms(4)])
  moreover have "pn_ref (prune_node ancestors m) = r" by (simp add: m(2))
  moreover have "node_canonical m" using canonical_index_node(2) [OF assms(1,5)] node by simp
  ultimately show ?thesis using same_weight by (simp add: task_weight_def node)
qed

lemma chain_weight_cong:
  "(\<And>r. r \<in> K \<Longrightarrow> w' r = w r) \<Longrightarrow> chain_of E K xs \<Longrightarrow> chain_weight w' xs = chain_weight w xs"
  unfolding chain_weight_def chain_of_def by (intro arg_cong [of _ _ sum_list] map_cong) auto

lemma longest_chain_cong: "(\<And>r. r \<in> K \<Longrightarrow> w' r = w r) \<Longrightarrow> longest_chain E K w' c \<Longrightarrow> longest_chain E K w c"
  using chain_weight_cong [of K w' w E] unfolding longest_chain_def by metis

text \<open>Removing redundant dependencies never changes the critical path.\<close>

theorem reduction_keeps_critical_path:
  assumes "remove_redundant_dependencies graph (Some limits) = Inr red"
    "compute_critical_path (dr_graph red) (Some limits) = Inr c"
  shows "compute_critical_path graph (Some limits) = Inr c"
proof -
  obtain index where index: "canon_index graph limits = Inr index"
    using assms(1) by (auto simp: remove_redundant_dependencies_def limits_or_default_def plan_results)
  obtain index' where index': "canon_index (dr_graph red) limits = Inr index'" and c: "critical_path index' limits = Inr c"
    using assms(2) by (auto simp: compute_critical_path_def limits_or_default_def plan_results Let_def)
  from index obtain ms where ms: "index = index_of ms" "distinct (map pn_ref ms)" "map pn_ref ms = map pn_ref graph"
    and facts: "canonical_index index" "index_edges index = plan_edges graph" "limits_ok limits" by (rule canon_index_result)
  obtain ancestors where red: "dr_graph red = graph_from_index (prune_index ancestors index)"
    "plan_edges (dr_graph red) = plan_edges graph - implied_edges (plan_edges graph)"
    using reduction_result [OF index] assms(1) by (metis sum.inject(2))
  let ?K = "set (map fst index)" and ?E = "plan_edges graph"
  have keys: "set (map fst index') = ?K"
  proof -
    have "set (map fst index') = pn_ref ` set (dr_graph red)"
      by (rule canon_index_result [OF index']) (metis index_of_keys set_map)
    also have "\<dots> = pn_ref ` set ms"
      unfolding red(1) ms(1) pruned_nodes image_image by simp
    finally show ?thesis by (simp add: ms(1))
  qed
  have "canonical_index index'" "index_edges index' = ?E - implied_edges ?E"
    using index' red(2) by (auto elim: canon_index_result)
  then have longest': "longest_chain (?E - implied_edges ?E) ?K (task_weight index' limits) c"
    using critical_path_longest [of index' limits] facts(3) c keys by auto
  have weight: "task_weight index' limits r = task_weight index limits r" if "r \<in> ?K" for r
    using reduced_weight [OF facts(1) ms(1,2) index' [unfolded red(1)] that] .
  obtain c0 where c0: "critical_path index limits = Inr c0" "longest_chain ?E ?K (task_weight index limits) c0"
    using critical_path_longest [OF facts(1,3)] facts(2) by auto
  have "?E \<subseteq> ?K \<times> ?K"
    using facts(1) by (auto simp: facts(2) [symmetric] canonical_index_def index_closed_def graph_closed_def
        index_edges_def dep_edges_def)
  moreover have "?E \<subseteq> (?E - implied_edges ?E)\<^sup>+"
    using reduction_trancl [OF plan_edges_finite] facts by (auto simp: canonical_index_def)
  moreover have "0 \<le> task_weight index limits r" if "r \<in> ?K" for r
    using node_weights_nonneg [OF canonical_index_node(2) [OF facts(1) that] facts(3)] by (simp add: task_weight_def)
  ultimately have "longest_chain (?E - implied_edges ?E) ?K (task_weight index limits) c0"
    using longest_chain_trancl [OF c0(2)] by blast
  moreover have "longest_chain (?E - implied_edges ?E) ?K (task_weight index limits) c"
    using weight longest' by (rule longest_chain_cong)
  ultimately have "c0 = c" by (rule longest_chain_unique)
  then show ?thesis using c0(1) index by (simp add: compute_critical_path_def limits_or_default_def)
qed

end
