(* ===== verification/Wave_Packing.thy ===== *)
theory Wave_Packing
  imports Wave_Graph Ready_Waves
begin

text \<open>
  Deriving waves (\<open>wave_plan_optimizer.py\<close>): the greedy packing with its search for a free wave,
  the barrier fence, the compaction to consecutive numbers, and the check of proposed waves.

  \<^item> \<open>first_free\<close> is the \<open>while True\<close> search of \<open>_pack_waves\<close>, \<open>None\<close> if it never ends; the
    dictionary \<open>members\<close> is read off \<open>wave\<close>, whose insertion order it shares (\<open>occupants\<close>).
  \<^item> \<open>fence_rounds\<close> has the code's own bound, the number of tasks plus two, as its first argument.
  \<^item> \<open>wave_proposal\<close> distinguishes the three kinds of argument \<open>waves\<close> may have.
\<close>

type_synonym wave_map = "(task_ref \<times> int) list"

definition wave_of :: "wave_map \<Rightarrow> task_ref \<Rightarrow> int" where
  \<comment> \<open>\<open>wave[ref]\<close>, used on keys only\<close>
  "wave_of wave ref = the (dict_get wave ref)"

section \<open>Packing\<close>

definition occupants :: "wave_map \<Rightarrow> int \<Rightarrow> task_ref list" where
  "occupants wave c = map fst (filter (\<lambda>(_, w). w = c) wave)"

definition scopes_conflict :: "node_index \<Rightarrow> task_ref \<Rightarrow> task_ref \<Rightarrow> bool" where
  "scopes_conflict index left right = scopes_overlap (pn_owns (index_node index left)) (pn_owns (index_node index right))"

definition wave_refuses :: "node_index \<Rightarrow> plan_limits \<Rightarrow> wave_map \<Rightarrow> task_ref \<Rightarrow> int \<Rightarrow> bool" where
  "wave_refuses index limits wave ref candidate =
     (let others = occupants wave candidate;
          conflict = list_ex (scopes_conflict index ref) others;
          project_count = int (length (filter (\<lambda>r. ref_project r = ref_project ref) others));
          projects = remdups (map ref_project others);
          too_many_projects = ref_project ref \<notin> set projects \<and> lim_active_projects limits \<le> int (length projects)
      in conflict \<or> lim_workers limits \<le> project_count \<or> too_many_projects)"

partial_function (option) first_free :: "(int \<Rightarrow> bool) \<Rightarrow> int \<Rightarrow> int option" where
  "first_free refuses candidate = (if refuses candidate then first_free refuses (candidate + 1) else Some candidate)"

declare first_free.simps [code]

definition earliest_wave :: "node_index \<Rightarrow> (task_ref \<Rightarrow> int) \<Rightarrow> wave_map \<Rightarrow> task_ref \<Rightarrow> int" where
  "earliest_wave index floors wave ref = max (max_or (- 1) (map (wave_of wave) (start_of index ref)) + 1) (floors ref)"

fun pack_refs ::
  "node_index \<Rightarrow> plan_limits \<Rightarrow> (task_ref \<Rightarrow> int) \<Rightarrow> task_ref list \<Rightarrow> wave_map \<Rightarrow> wave_map option" where
  "pack_refs index limits floors [] wave = Some wave"
| "pack_refs index limits floors (ref # refs) wave =
     (case first_free (wave_refuses index limits wave ref) (earliest_wave index floors wave ref) of
        None \<Rightarrow> None
      | Some candidate \<Rightarrow> pack_refs index limits floors refs (wave @ [(ref, candidate)]))"

definition pack_waves :: "node_index \<Rightarrow> plan_limits \<Rightarrow> (task_ref \<Rightarrow> int) \<Rightarrow> plan_error + wave_map" where
  "pack_waves index limits floors =
     try_bind (topological_order index) (\<lambda>order.
       case pack_refs index limits floors order [] of None \<Rightarrow> Inl Diverges | Some wave \<Rightarrow> Inr wave)"

section \<open>The barrier fence\<close>

definition fence_required ::
  "(task_ref \<Rightarrow> task_ref set) \<Rightarrow> task_ref list \<Rightarrow> wave_map \<Rightarrow> task_ref \<Rightarrow> int" where
  "fence_required ancestors barriers waves ref =
     max_or 0 (0 # map (\<lambda>b. wave_of waves b + 1) (filter (\<lambda>b. ref \<noteq> b \<and> ref \<notin> ancestors b) barriers))"

definition raise_floor :: "node_index \<Rightarrow> (task_ref \<Rightarrow> int) \<Rightarrow> (task_ref \<Rightarrow> int) \<Rightarrow> task_ref \<Rightarrow> int" where
  "raise_floor index required floors ref =
     (if ref \<in> set (map fst index) \<and> floors ref < required ref then required ref else floors ref)"

fun fence_rounds ::
  "nat \<Rightarrow> node_index \<Rightarrow> plan_limits \<Rightarrow> (task_ref \<Rightarrow> task_ref set) \<Rightarrow> task_ref list \<Rightarrow>
   (task_ref \<Rightarrow> int) \<Rightarrow> wave_map \<Rightarrow> plan_error + wave_map" where
  "fence_rounds 0 index limits ancestors barriers floors waves = Inr waves"
| "fence_rounds (Suc k) index limits ancestors barriers floors waves =
     (let required = fence_required ancestors barriers waves
      in if list_ex (\<lambda>ref. floors ref < required ref) (map fst index) then
           (let floors' = raise_floor index required floors
            in try_bind (pack_waves index limits floors') (\<lambda>waves'.
                 fence_rounds k index limits ancestors barriers floors' waves'))
         else Inr waves)"

definition barrier_refs :: "node_index \<Rightarrow> task_ref list" where
  "barrier_refs index = map fst (filter (\<lambda>(_, node). pn_barrier node) index)"

definition fence_waves :: "node_index \<Rightarrow> plan_limits \<Rightarrow> plan_error + wave_map" where
  "fence_waves index limits =
     (if barrier_refs index = [] then pack_waves index limits (\<lambda>_. 0)
      else try_bind (plan_ancestors index) (\<lambda>ancestors.
           try_bind (pack_waves index limits (\<lambda>_. 0)) (\<lambda>waves.
             fence_rounds (length index + 2) index limits ancestors (barrier_refs index) (\<lambda>_. 0) waves)))"

section \<open>Waves\<close>

record opt_wave =
  ow_index :: int
  ow_tasks :: "task_ref list"

definition wave_values :: "wave_map \<Rightarrow> int list" where
  "wave_values wave = sort (remdups (map snd wave))"

definition compact_waves :: "wave_map \<Rightarrow> opt_wave list" where
  "compact_waves wave =
     map (\<lambda>(position, value). \<lparr>ow_index = int position, ow_tasks = sort (occupants wave value)\<rparr>)
       (enumerate 0 (wave_values wave))"

definition mapping_to_waves :: "wave_map \<Rightarrow> opt_wave list" where
  "mapping_to_waves wave =
     map (\<lambda>value. \<lparr>ow_index = value, ow_tasks = sort (occupants wave value)\<rparr>) (wave_values wave)"

definition derive_from_index :: "node_index \<Rightarrow> plan_limits \<Rightarrow> plan_error + opt_wave list" where
  "derive_from_index index limits = try_bind (fence_waves index limits) (\<lambda>wave. Inr (compact_waves wave))"

definition derive_waves :: "plan_node list \<Rightarrow> plan_limits option \<Rightarrow> plan_error + opt_wave list" where
  "derive_waves graph limits =
     (let bound = limits_or_default limits in try_bind (canon_index graph bound) (\<lambda>index. derive_from_index index bound))"

definition waves_to_mapping :: "opt_wave list \<Rightarrow> wave_map" where
  "waves_to_mapping waves =
     foldl (\<lambda>m w. foldl (\<lambda>m ref. dict_set m ref (ow_index w)) m (ow_tasks w)) [] waves"

definition from_scheduled_waves :: "scheduled_wave list \<Rightarrow> opt_wave list" where
  "from_scheduled_waves waves =
     map (\<lambda>w. \<lparr>ow_index = sw_index w, ow_tasks = sort (map sc_ref (sw_tasks w))\<rparr>) waves"

definition offset_waves :: "opt_wave list \<Rightarrow> int \<Rightarrow> opt_wave list" where
  "offset_waves waves base_wave = map (\<lambda>w. \<lparr>ow_index = ow_index w + base_wave, ow_tasks = ow_tasks w\<rparr>) waves"

section \<open>Proposed waves\<close>

datatype wave_proposal = NoProposal | ByTask wave_map | ByWaves "opt_wave list"

definition given_waves :: "node_index \<Rightarrow> wave_map \<Rightarrow> wave_map" where
  "given_waves index waves =
     concat (map (\<lambda>(ref, _). case dict_get waves ref of Some v \<Rightarrow> [(ref, v)] | None \<Rightarrow> []) index)"

definition proposed_waves :: "node_index \<Rightarrow> plan_limits \<Rightarrow> wave_proposal \<Rightarrow> plan_error + wave_map" where
  "proposed_waves index limits proposal =
     (case proposal of
        NoProposal \<Rightarrow> try_bind (derive_from_index index limits) (\<lambda>waves. Inr (waves_to_mapping waves))
      | ByTask waves \<Rightarrow>
          (case List.find (\<lambda>(_, v). v < 0) (given_waves index waves) of
             Some (ref, _) \<Rightarrow> Inl (BadWave ref)
           | None \<Rightarrow> try_bind (derive_from_index index limits) (\<lambda>derived.
               Inr (foldl (\<lambda>m (ref, v). if dict_get m ref = None then m @ [(ref, v)] else m)
                      (given_waves index waves) (waves_to_mapping derived))))
      | ByWaves waves \<Rightarrow>
          (if set (map fst (waves_to_mapping waves)) = set (map fst index) then Inr (waves_to_mapping waves)
           else Inl WavesNotExact))"

definition late_dependency :: "node_index \<Rightarrow> wave_map \<Rightarrow> (task_ref \<times> task_ref) option" where
  "late_dependency index proposed =
     List.find (\<lambda>(ref, dep). wave_of proposed ref \<le> wave_of proposed dep)
       (concat (map (\<lambda>(ref, node). map (Pair ref) (pn_start node)) index))"

definition coerce_wave_of :: "node_index \<Rightarrow> plan_limits \<Rightarrow> wave_proposal \<Rightarrow> plan_error + wave_map" where
  "coerce_wave_of index limits proposal =
     (case proposal of
        NoProposal \<Rightarrow> proposed_waves index limits NoProposal
      | _ \<Rightarrow> try_bind (proposed_waves index limits proposal) (\<lambda>proposed.
          case late_dependency index proposed of
            Some (ref, dep) \<Rightarrow> Inl (WaveOrder ref (wave_of proposed ref) dep (wave_of proposed dep))
          | None \<Rightarrow> Inr proposed))"

section \<open>Overlaps inside a wave\<close>

record scope_overlap =
  ov_left :: task_ref
  ov_right :: task_ref
  ov_left_scopes :: "string list"
  ov_right_scopes :: "string list"

fun overlap_pairs :: "node_index \<Rightarrow> task_ref list \<Rightarrow> scope_overlap list" where
  "overlap_pairs index [] = []"
| "overlap_pairs index (left # refs) =
     map (\<lambda>right. \<lparr>ov_left = left, ov_right = right, ov_left_scopes = pn_owns (index_node index left),
                   ov_right_scopes = pn_owns (index_node index right)\<rparr>)
       (filter (scopes_conflict index left) refs) @ overlap_pairs index refs"

definition detect_overlaps :: "node_index \<Rightarrow> wave_map \<Rightarrow> scope_overlap list" where
  "detect_overlaps index wave = concat (map (\<lambda>value. overlap_pairs index (sort (occupants wave value))) (wave_values wave))"

definition detect_scope_overlaps ::
  "plan_node list \<Rightarrow> wave_proposal \<Rightarrow> plan_limits option \<Rightarrow> plan_error + scope_overlap list" where
  "detect_scope_overlaps graph proposal limits =
     (let bound = limits_or_default limits
      in try_bind (canon_index graph bound) (\<lambda>index.
         try_bind (coerce_wave_of index bound proposal) (\<lambda>wave. Inr (detect_overlaps index wave))))"

end
