(* ===== verification/Wave_Packing_Laws.thy ===== *)
theory Wave_Packing_Laws
  imports Wave_Packing Wave_Reduction
begin

text \<open>
  What derived waves promise: the search for a free wave ends, every task gets exactly one wave,
  after the waves of its dependencies and inside the owner maxima, without overlapping scopes in
  one wave; a single barrier fences all tasks that it does not depend on.
\<close>

section \<open>The search for a free wave\<close>

lemma first_free_ends:
  assumes "\<not> refuses (c + int k)"
  shows "\<exists>d. first_free refuses c = Some d \<and> c \<le> d \<and> \<not> refuses d \<and> (\<forall>e. c \<le> e \<and> e < d \<longrightarrow> refuses e)"
  using assms
proof (induction k arbitrary: c)
  case 0
  then show ?case by (intro exI [of _ c]) (auto simp: first_free.simps)
next
  case (Suc k)
  show ?case
  proof (cases "refuses c")
    case True
    have "\<not> refuses (c + 1 + int k)" using Suc.prems by (simp add: algebra_simps)
    then obtain d where d: "first_free refuses (c + 1) = Some d" "c + 1 \<le> d" "\<not> refuses d"
      "\<forall>e. c + 1 \<le> e \<and> e < d \<longrightarrow> refuses e" using Suc.IH by blast
    have "refuses e" if "c \<le> e" "e < d" for e using d(4) True that by (cases "e = c") auto
    moreover have "first_free refuses c = Some d" using True d(1) by (subst first_free.simps) simp
    ultimately show ?thesis using d(2,3) by (intro exI [of _ d]) simp
  next
    case False
    then show ?thesis by (intro exI [of _ c]) (auto simp: first_free.simps)
  qed
qed

lemma occupants_set: "set (occupants wave c) = {r. (r, c) \<in> set wave}"
  by (force simp: occupants_def)

lemma occupants_snoc [simp]: "occupants (wave @ [(r, c)]) c' = occupants wave c' @ (if c = c' then [r] else [])"
  by (simp add: occupants_def)

lemma occupants_Nil [simp]: "occupants [] c = []"
  by (simp add: occupants_def)

lemma occupants_keys: "set (occupants wave c) \<subseteq> set (map fst wave)"
  by (force simp: occupants_set)

lemma wave_of_in: "distinct (map fst wave) \<Longrightarrow> (r, v) \<in> set wave \<Longrightarrow> wave_of wave r = v"
  by (simp add: wave_of_def dict_get_map_of)

lemma wave_of_key: "distinct (map fst wave) \<Longrightarrow> r \<in> set (map fst wave) \<Longrightarrow> (r, wave_of wave r) \<in> set wave"
  by (auto simp: wave_of_in)

lemma wave_of_snoc:
  assumes "distinct (map fst (wave @ [(r, c)]))"
  shows "wave_of (wave @ [(r, c)]) r = c"
    and "d \<in> set (map fst wave) \<Longrightarrow> wave_of (wave @ [(r, c)]) d = wave_of wave d"
proof -
  show "wave_of (wave @ [(r, c)]) r = c" using assms by (rule wave_of_in) simp
  show "wave_of (wave @ [(r, c)]) d = wave_of wave d" if "d \<in> set (map fst wave)"
  proof (rule wave_of_in [OF assms])
    show "(d, wave_of wave d) \<in> set (wave @ [(r, c)])"
      using wave_of_key [of wave d] assms that by simp
  qed
qed

section \<open>Packed waves\<close>

definition group_ok :: "node_index \<Rightarrow> plan_limits \<Rightarrow> task_ref list \<Rightarrow> bool" where
  \<comment> \<open>the tasks of one wave respect both maxima and own disjoint scopes\<close>
  "group_ok index limits xs \<longleftrightarrow>
     int (card (ref_project ` set xs)) \<le> lim_active_projects limits \<and>
     (\<forall>p. int (length (filter (\<lambda>r. ref_project r = p) xs)) \<le> lim_workers limits) \<and>
     (\<forall>r \<in> set xs. \<forall>r' \<in> set xs. r \<noteq> r' \<longrightarrow> \<not> scopes_conflict index r r')"

definition packed ::
  "node_index \<Rightarrow> plan_limits \<Rightarrow> (task_ref \<Rightarrow> int) \<Rightarrow> task_ref set \<Rightarrow> wave_map \<Rightarrow> bool" where
  \<comment> \<open>the tasks of \<open>Z\<close> have no minimum, so no wave below one of them is empty\<close>
  "packed index limits floors Z wave \<longleftrightarrow>
     distinct (map fst wave) \<and>
     (\<forall>(r, v) \<in> set wave. floors r \<le> v \<and> 0 \<le> v \<and>
        (\<forall>d \<in> set (start_of index r). d \<in> set (map fst wave) \<and> wave_of wave d < v)) \<and>
     (\<forall>c. group_ok index limits (occupants wave c)) \<and>
     (\<forall>(r, v) \<in> set wave. r \<in> Z \<longrightarrow> (\<forall>c. 0 \<le> c \<and> c < v \<longrightarrow> occupants wave c \<noteq> []))"

lemma packedD:
  assumes "packed index limits floors Z wave"
  shows "distinct (map fst wave)" "group_ok index limits (occupants wave c)"
    and "(r, v) \<in> set wave \<Longrightarrow> floors r \<le> v"
    and "(r, v) \<in> set wave \<Longrightarrow> 0 \<le> v"
    and "(r, v) \<in> set wave \<Longrightarrow> d \<in> set (start_of index r) \<Longrightarrow> d \<in> set (map fst wave) \<and> wave_of wave d < v"
    and "(r, v) \<in> set wave \<Longrightarrow> r \<in> Z \<Longrightarrow> 0 \<le> e \<Longrightarrow> e < v \<Longrightarrow> occupants wave e \<noteq> []"
  using assms unfolding packed_def by fast+

lemma scopes_conflict_sym: "scopes_conflict index left right = scopes_conflict index right left"
  unfolding scopes_conflict_def by (rule scopes_overlap_sym)

lemma refuses_occupied:
  assumes "limits_ok limits" "wave_refuses index limits wave ref c"
  shows "occupants wave c \<noteq> []"
  using assms by (auto simp: wave_refuses_def Let_def limits_ok_def)

lemma admitted_group:
  assumes "group_ok index limits (occupants wave c)" "\<not> wave_refuses index limits wave ref c"
  shows "group_ok index limits (occupants wave c @ [ref])"
proof -
  let ?xs = "occupants wave c" and ?projects = "remdups (map ref_project (occupants wave c))"
  note old = assms(1) [unfolded group_ok_def] and new = assms(2) [unfolded wave_refuses_def Let_def]
  have len: "card (ref_project ` set ?xs) = length ?projects" by (simp add: length_remdups_card_conv)
  have "card (ref_project ` set (?xs @ [ref])) =
      (if ref_project ref \<in> ref_project ` set ?xs then card (ref_project ` set ?xs) else Suc (card (ref_project ` set ?xs)))"
    by (simp add: card_insert_if)
  then have "int (card (ref_project ` set (?xs @ [ref]))) \<le> lim_active_projects limits"
    using old new len by (cases "ref_project ref \<in> ref_project ` set ?xs") auto
  moreover have "int (length (filter (\<lambda>r. ref_project r = p) (?xs @ [ref]))) \<le> lim_workers limits" for p
    using old new by (cases "p = ref_project ref") auto
  moreover have "\<not> scopes_conflict index r r'" if mem: "r \<in> set (?xs @ [ref])" "r' \<in> set (?xs @ [ref])" "r \<noteq> r'" for r r'
  proof -
    have free: "\<not> scopes_conflict index ref x" if "x \<in> set ?xs" for x using new that by (auto simp: list_ex_iff)
    consider "r \<in> set ?xs" "r' \<in> set ?xs" | "r = ref" "r' \<in> set ?xs" | "r' = ref" "r \<in> set ?xs"
      using mem by auto
    then show ?thesis using old free scopes_conflict_sym [of index r r'] mem(3) by cases auto
  qed
  ultimately show ?thesis unfolding group_ok_def by blast
qed

lemma packed_step:
  assumes limits: "limits_ok limits" and packed: "packed index limits floors Z wave"
    and ref: "ref \<notin> set (map fst wave)" "set (start_of index ref) \<subseteq> set (map fst wave)"
    and Z: "\<And>r. r \<in> Z \<Longrightarrow> floors r = 0 \<and> set (start_of index r) \<subseteq> Z"
  obtains c where "first_free (wave_refuses index limits wave ref) (earliest_wave index floors wave ref) = Some c"
    "packed index limits floors Z (wave @ [(ref, c)])"
proof -
  let ?refuses = "wave_refuses index limits wave ref" and ?start = "earliest_wave index floors wave ref"
  let ?deps = "map (wave_of wave) (start_of index ref)"
  have beyond: "\<exists>k. \<not> ?refuses (?start + int k)"
  proof -
    let ?top = "max_or 0 (map snd wave)"
    have "occupants wave e = []" if e: "?top < e" for e
    proof -
      have "v \<le> ?top" if "(r, v) \<in> set wave" for r v using that by (intro max_or_facts(1)) force
      then have "(r, e) \<notin> set wave" for r using e not_le by blast
      then have "set (occupants wave e) = {}" unfolding occupants_set by simp
      then show ?thesis by simp
    qed
    then have free: "\<not> ?refuses e" if "?top < e" for e using refuses_occupied [OF limits] that by blast
    have above: "low < start + int (nat (low - start + 1))" for low start :: int by arith
    show ?thesis by (rule exI, rule free, rule above)
  qed
  then obtain k where "\<not> ?refuses (?start + int k)" ..
  from first_free_ends [of ?refuses ?start, OF this] obtain c where c: "first_free ?refuses ?start = Some c" "?start \<le> c" "\<not> ?refuses c"
    and upto: "\<forall>e. ?start \<le> e \<and> e < c \<longrightarrow> ?refuses e" by (elim exE conjE)
  have dep: "wave_of wave d < ?start" if "d \<in> set (start_of index ref)" for d
  proof -
    have "wave_of wave d \<le> max_or (- 1) ?deps" using that by (intro max_or_facts(1)) simp
    then show ?thesis by (simp add: earliest_wave_def)
  qed
  have depnn: "- 1 \<le> max_or (- 1) ?deps"
  proof (cases "?deps = []")
    case False
    then obtain d where "d \<in> set (start_of index ref)" "max_or (- 1) ?deps = wave_of wave d"
      using max_or_facts(2) [of ?deps "- 1"] by auto
    then show ?thesis using packedD(4) [OF packed] wave_of_key [OF packedD(1) [OF packed], of d] ref(2) by fastforce
  qed (simp add: max_or_facts(3))
  have start: "0 \<le> ?start" "floors ref \<le> ?start" using depnn by (simp_all add: earliest_wave_def)
  have dist: "distinct (map fst (wave @ [(ref, c)]))" using packedD(1) [OF packed] ref(1) by simp
  note same = wave_of_snoc [OF dist]
  have "packed index limits floors Z (wave @ [(ref, c)])"
    unfolding packed_def
  proof (intro conjI dist allI ballI)
    fix e show "group_ok index limits (occupants (wave @ [(ref, c)]) e)"
      using packedD(2) [OF packed] admitted_group [OF packedD(2) [OF packed] c(3)] by auto
  next
    fix x assume "x \<in> set (wave @ [(ref, c)])"
    then obtain r v where x: "x = (r, v)" and "(r, v) \<in> set wave \<or> r = ref \<and> v = c"
      by (metis Pair_inject Un_iff empty_iff empty_set list.set(2) insert_iff set_append surj_pair)
    then show "case x of (r, v) \<Rightarrow> floors r \<le> v \<and> 0 \<le> v \<and> (\<forall>d\<in>set (start_of index r).
        d \<in> set (map fst (wave @ [(ref, c)])) \<and> wave_of (wave @ [(ref, c)]) d < v)"
    proof (elim disjE)
      assume old: "(r, v) \<in> set wave"
      have "d \<in> set (map fst wave) \<and> wave_of (wave @ [(ref, c)]) d < v" if "d \<in> set (start_of index r)" for d
        using packedD(5) [OF packed old that] same(2) by simp
      then show ?thesis using packedD(3,4) [OF packed old] by (simp add: x)
    next
      assume new: "r = ref \<and> v = c"
      have "d \<in> set (map fst wave) \<and> wave_of (wave @ [(ref, c)]) d < c" if "d \<in> set (start_of index ref)" for d
      proof -
        have "d \<in> set (map fst wave)" using that ref(2) by blast
        then show ?thesis using same(2) [of d] dep [OF that] c(2) by simp
      qed
      then show ?thesis using start c(2) new by (simp add: x)
    qed
  next
    fix x assume "x \<in> set (wave @ [(ref, c)])"
    then obtain r v where x: "x = (r, v)" and mem: "(r, v) \<in> set wave \<or> r = ref \<and> v = c"
      by (metis Pair_inject Un_iff empty_iff empty_set list.set(2) insert_iff set_append surj_pair)
    have "occupants wave e \<noteq> []" if r: "r \<in> Z" and e: "0 \<le> e" "e < v" for e
      using mem
    proof (elim disjE)
      assume "(r, v) \<in> set wave"
      then show ?thesis using packedD(6) [OF packed] that by blast
    next
      assume new: "r = ref \<and> v = c"
      show ?thesis
      proof (cases "?start \<le> e")
        case True
        then show ?thesis using refuses_occupied [OF limits] upto e(2) new by blast
      next
        case False
        then have "e \<le> max_or (- 1) ?deps" using Z [OF r] e(1) new by (simp add: earliest_wave_def)
        then have "?deps \<noteq> []" using e(1) by (auto simp: max_or_facts(3))
        then obtain d where d: "d \<in> set (start_of index ref)" "e \<le> wave_of wave d"
          using max_or_facts(2) [of ?deps "- 1"] \<open>e \<le> max_or (- 1) ?deps\<close> by auto
        then have key: "(d, wave_of wave d) \<in> set wave"
          using wave_of_key [OF packedD(1) [OF packed]] ref(2) by blast
        have "d \<in> Z" using Z [OF r] d(1) new by blast
        show ?thesis
        proof (cases "e = wave_of wave d")
          case True
          then have "d \<in> set (occupants wave e)" using key by (simp add: occupants_set)
          then show ?thesis by auto
        next
          case False
          then show ?thesis using packedD(6) [OF packed key \<open>d \<in> Z\<close> e(1)] d(2) by simp
        qed
      qed
    qed
    then show "case x of (r, v) \<Rightarrow> r \<in> Z \<longrightarrow> (\<forall>e. 0 \<le> e \<and> e < v \<longrightarrow> occupants (wave @ [(ref, c)]) e \<noteq> [])"
      by (simp add: x)
  qed
  then show thesis using that c(1) by blast
qed

lemma pack_refs_spec:
  assumes limits: "limits_ok limits"
    and Z: "\<And>r. r \<in> Z \<Longrightarrow> floors r = 0 \<and> set (start_of index r) \<subseteq> Z"
    and "packed index limits floors Z wave" "distinct (map fst wave @ refs)"
    "deps_first (start_of index) (map fst wave @ refs)"
  shows "\<exists>wave'. pack_refs index limits floors refs wave = Some wave' \<and> packed index limits floors Z wave' \<and>
    map fst wave' = map fst wave @ refs"
  using assms(3-)
proof (induction refs arbitrary: wave)
  case (Cons ref refs)
  have "ref \<notin> set (map fst wave)" using Cons.prems(2) by auto
  moreover have "set (start_of index ref) \<subseteq> set (map fst wave)" using Cons.prems(3) by (rule deps_first_split)
  ultimately obtain c where c: "first_free (wave_refuses index limits wave ref) (earliest_wave index floors wave ref) = Some c"
    "packed index limits floors Z (wave @ [(ref, c)])"
    using packed_step [OF limits Cons.prems(1) _ _ Z] by blast
  have "distinct (map fst (wave @ [(ref, c)]) @ refs)" "deps_first (start_of index) (map fst (wave @ [(ref, c)]) @ refs)"
    using Cons.prems by simp_all
  from Cons.IH [OF c(2) this] show ?case using c(1) by simp
qed simp

lemma pack_waves_spec:
  assumes "canonical_index index" "limits_ok limits" "\<And>r. r \<in> Z \<Longrightarrow> floors r = 0 \<and> set (start_of index r) \<subseteq> Z"
  shows "\<exists>wave. pack_waves index limits floors = Inr wave \<and> packed index limits floors Z wave \<and>
    set (map fst wave) = set (map fst index)"
proof -
  have closed: "index_closed index" using assms(1) by (simp add: canonical_index_def)
  obtain order where order: "topological_order index = Inr order"
    using topological_order_spec(1) [OF closed] assms(1) by (auto simp: canonical_index_def)
  note facts = topological_order_spec(2) [OF closed order]
  have "packed index limits floors Z []"
    using assms(2) by (simp add: packed_def group_ok_def limits_ok_def)
  from pack_refs_spec [OF assms(2,3) this, of order] facts
  show ?thesis by (auto simp: pack_waves_def order)
qed

section \<open>The barrier fence\<close>

text \<open>Whatever the barriers are, the rounds end with packed waves.\<close>

lemma fence_rounds_packed:
  assumes "canonical_index index" "limits_ok limits" "packed index limits floors {} waves"
    "set (map fst waves) = set (map fst index)"
  shows "\<exists>waves' floors'. fence_rounds k index limits ancestors barriers floors waves = Inr waves' \<and>
    packed index limits floors' {} waves' \<and> set (map fst waves') = set (map fst index)"
  using assms(3,4)
proof (induction k arbitrary: floors waves)
  case (Suc k)
  let ?floors = "raise_floor index (fence_required ancestors barriers waves) floors"
  obtain waves' where w: "pack_waves index limits ?floors = Inr waves'" "packed index limits ?floors {} waves'"
    "set (map fst waves') = set (map fst index)"
    using pack_waves_spec [OF assms(1,2), of "{}" ?floors] by auto
  show ?case using Suc.IH [OF w(2,3)] w(1) Suc.prems by (auto simp: Let_def)
qed auto

lemma packed_low:
  \<comment> \<open>a task without minima, its dependencies included, gets a wave below the number of tasks\<close>
  assumes packed: "packed index limits floors Z wave" and r: "(r, v) \<in> set wave" "r \<in> Z"
  shows "v < int (length wave)"
proof -
  have "{0..v} \<subseteq> snd ` set wave"
  proof
    fix c assume c: "c \<in> {0..v}"
    show "c \<in> snd ` set wave"
    proof (cases "c = v")
      case True
      then show ?thesis using r(1) by force
    next
      case False
      then have "occupants wave c \<noteq> []" using packedD(6) [OF packed r] c by simp
      then obtain x where "x \<in> set (occupants wave c)" by (metis last_in_set)
      then show ?thesis by (force simp: occupants_set)
    qed
  qed
  then have "card {0..v} \<le> card (snd ` set wave)" by (intro card_mono) simp_all
  also have "\<dots> \<le> length wave" using card_image_le [of "set wave" snd] card_length [of wave] by simp
  finally show ?thesis using packedD(4) [OF packed r(1)] by simp
qed

definition fenced :: "node_index \<Rightarrow> (task_ref \<Rightarrow> task_ref set) \<Rightarrow> task_ref \<Rightarrow> wave_map \<Rightarrow> bool" where
  "fenced index ancestors b wave \<longleftrightarrow>
     (\<forall>r \<in> set (map fst index). r \<noteq> b \<and> r \<notin> ancestors b \<longrightarrow> wave_of wave b < wave_of wave r)"

lemma required_single:
  "fence_required ancestors [b] waves r = (if r = b \<or> r \<in> ancestors b then 0 else max 0 (wave_of waves b + 1))"
  by (simp add: fence_required_def max_or_def)

text \<open>With one barrier the rounds reach the fixpoint: each round that changes something moves the
  fence up, and the barrier, which has no minimum itself, stays below the number of tasks.\<close>

lemma single_fence:
  assumes index: "canonical_index index" "limits_ok limits"
    and b: "b \<in> set (map fst index)" "\<And>r. r \<in> insert b (ancestors b) \<Longrightarrow> set (start_of index r) \<subseteq> ancestors b"
    and waves: "packed index limits floors (insert b (ancestors b)) waves" "set (map fst waves) = set (map fst index)"
    and floors: "\<And>r. floors r = (if r \<in> set (map fst index) \<and> r \<noteq> b \<and> r \<notin> ancestors b then height else 0)" "0 \<le> height"
      "height \<le> int (length index)"
    and fuel: "int (length index) - height < int k"
  shows "\<exists>waves'. fence_rounds k index limits ancestors [b] floors waves = Inr waves' \<and> fenced index ancestors b waves'"
  using waves floors fuel
proof (induction k arbitrary: floors waves height)
  case (Suc k)
  let ?Z = "insert b (ancestors b)" and ?K = "set (map fst index)"
  let ?required = "fence_required ancestors [b] waves"
  note packed = Suc.prems(1) and keys = Suc.prems(2) and floors = Suc.prems(3)
  have dist: "distinct (map fst waves)" by (rule packedD(1) [OF packed])
  have entry: "(r, wave_of waves r) \<in> set waves" if "r \<in> ?K" for r
    using wave_of_key [OF dist, of r] that keys by simp
  have low: "0 \<le> wave_of waves b" using packedD(4) [OF packed entry [OF b(1)]] .
  show ?case
  proof (cases "list_ex (\<lambda>r. floors r < ?required r) (map fst index)")
    case False
    have "fenced index ancestors b waves"
      unfolding fenced_def
    proof (intro ballI impI)
      fix r assume r: "r \<in> ?K" "r \<noteq> b \<and> r \<notin> ancestors b"
      then have "?required r \<le> floors r" using False by (auto simp: list_ex_iff)
      also have "\<dots> \<le> wave_of waves r" using packedD(3) [OF packed entry [OF r(1)]] .
      finally show "wave_of waves b < wave_of waves r" using r(2) low by (simp add: required_single)
    qed
    then show ?thesis using False by simp
  next
    case True
    then obtain r where r: "r \<in> ?K" "floors r < ?required r" by (auto simp: list_ex_iff)
    let ?height = "wave_of waves b + 1" and ?floors = "raise_floor index ?required floors"
    have higher: "height < ?height"
      using r floors [of r] Suc.prems(4) by (auto simp: required_single split: if_splits)
    have new: "?floors r = (if r \<in> ?K \<and> r \<noteq> b \<and> r \<notin> ancestors b then ?height else 0)" for r
      using floors [of r] higher low Suc.prems(4) by (auto simp: raise_floor_def required_single)
    have "length waves \<le> length index"
      using dist keys card_length [of "map fst index"] distinct_card [of "map fst waves"] by simp
    then have top: "?height \<le> int (length index)"
      using packed_low [OF packed entry [OF b(1)]] by simp
    then have fuel: "int (length index) - ?height < int k" using Suc.prems(6) higher by simp
    have Z: "?floors r = 0 \<and> set (start_of index r) \<subseteq> ?Z" if "r \<in> ?Z" for r
      using b(2) [OF that] that unfolding new by auto
    obtain waves' where w: "pack_waves index limits ?floors = Inr waves'" "packed index limits ?floors ?Z waves'"
      "set (map fst waves') = ?K"
      using pack_waves_spec [OF index Z] by blast
    from Suc.IH [OF w(2,3) new _ top fuel] low obtain waves'' where
      "fence_rounds k index limits ancestors [b] ?floors waves' = Inr waves''" "fenced index ancestors b waves''" by auto
    then show ?thesis using True w(1) by simp
  qed
next
  case 0
  then show ?case by simp
qed

section \<open>Compacted waves\<close>

lemma wave_values_facts: "sorted (wave_values wave)" "distinct (wave_values wave)" "set (wave_values wave) = snd ` set wave"
  by (simp_all add: wave_values_def)

lemma values_partition: "mset (concat (map (occupants wave) (wave_values wave))) = mset (map fst wave)"
proof -
  have "occupants wave v = map fst (filter (\<lambda>x. snd x = v) wave)" for v
    unfolding occupants_def by (intro arg_cong [of _ _ "map fst"] filter_cong) auto
  then have "map (occupants wave) (wave_values wave) = map (\<lambda>v. map fst (filter (\<lambda>x. snd x = v) wave)) (wave_values wave)"
    by simp
  then have "concat (map (occupants wave) (wave_values wave)) =
      map fst (concat (map (\<lambda>v. filter (\<lambda>x. snd x = v) wave) (wave_values wave)))"
    by (simp only: map_concat map_map comp_def)
  moreover have "mset (concat (map (\<lambda>v. filter (\<lambda>x. snd x = v) wave) (wave_values wave))) = mset wave"
    by (rule mset_partition) (simp_all add: wave_values_facts)
  ultimately show ?thesis by (simp only: mset_map)
qed

definition flat_waves :: "opt_wave list \<Rightarrow> wave_map" where
  "flat_waves waves = concat (map (\<lambda>w. map (\<lambda>r. (r, ow_index w)) (ow_tasks w)) waves)"

lemma flat_keys: "map fst (flat_waves waves) = concat (map ow_tasks waves)"
  by (simp add: flat_waves_def map_concat comp_def)

lemma dict_set_fresh: "k \<notin> set (map fst d) \<Longrightarrow> dict_set d k v = d @ [(k, v)]"
  by (induction d k v rule: dict_set.induct) auto

lemma waves_to_mapping_flat:
  assumes "distinct (concat (map ow_tasks waves))"
  shows "waves_to_mapping waves = flat_waves waves"
proof -
  have inner: "foldl (\<lambda>m ref. dict_set m ref v) m refs = m @ map (\<lambda>r. (r, v)) refs"
    if "distinct (map fst m @ refs)" for m refs and v :: int
    using that by (induction refs arbitrary: m) (simp_all add: dict_set_fresh)
  have "foldl (\<lambda>m w. foldl (\<lambda>m ref. dict_set m ref (ow_index w)) m (ow_tasks w)) m waves = m @ flat_waves waves"
    if "distinct (map fst m @ concat (map ow_tasks waves))" for m
    using that
  proof (induction waves arbitrary: m)
    case (Cons w waves)
    let ?m = "m @ map (\<lambda>r. (r, ow_index w)) (ow_tasks w)"
    have keys: "map fst ?m = map fst m @ ow_tasks w" by (simp add: comp_def)
    have "distinct (map fst m @ ow_tasks w)" using Cons.prems by auto
    moreover have "distinct (map fst ?m @ concat (map ow_tasks waves))" unfolding keys using Cons.prems by simp
    note Cons.IH [OF this]
    ultimately show ?case using inner [of m "ow_tasks w" "ow_index w"] by (simp add: flat_waves_def)
  qed (simp add: flat_waves_def)
  then show ?thesis using assms by (simp add: waves_to_mapping_def)
qed

lemma compact_tasks: "map ow_tasks (compact_waves wave) = map (\<lambda>v. sort (occupants wave v)) (wave_values wave)"
  "map ow_index (compact_waves wave) = map int [0..<length (compact_waves wave)]"
  by (auto simp: compact_waves_def nth_enumerate_eq intro!: nth_equalityI)

lemma wave_value_position:
  assumes "distinct (map fst wave)" "r \<in> set (map fst wave)"
  obtains i where "i < length (wave_values wave)" "wave_values wave ! i = wave_of wave r"
proof -
  have "wave_of wave r \<in> set (wave_values wave)"
    using wave_of_key [OF assms] by (force simp: wave_values_facts)
  then show thesis using that by (auto simp: in_set_conv_nth)
qed

lemma compact_distinct:
  assumes "distinct (map fst wave)"
  shows "mset (concat (map ow_tasks (compact_waves wave))) = mset (map fst wave)"
    and "distinct (concat (map ow_tasks (compact_waves wave)))"
proof -
  have "mset (concat (map (\<lambda>v. sort (occupants wave v)) vs)) = mset (concat (map (occupants wave) vs))" for vs
    by (induction vs) simp_all
  then show same: "mset (concat (map ow_tasks (compact_waves wave))) = mset (map fst wave)"
    unfolding compact_tasks using values_partition by simp
  show "distinct (concat (map ow_tasks (compact_waves wave)))"
    using assms mset_eq_imp_distinct_iff [OF same] by blast
qed

lemma compact_mapping:
  assumes dist: "distinct (map fst wave)"
  defines "m \<equiv> waves_to_mapping (compact_waves wave)"
  shows "distinct (map fst m)" "set (map fst m) = set (map fst wave)"
    and "r \<in> set (map fst wave) \<Longrightarrow> 0 \<le> wave_of m r"
    and "d \<in> set (map fst wave) \<Longrightarrow> r \<in> set (map fst wave) \<Longrightarrow>
      wave_of m d < wave_of m r \<longleftrightarrow> wave_of wave d < wave_of wave r"
proof -
  let ?vs = "wave_values wave"
  have m: "m = flat_waves (compact_waves wave)"
    unfolding m_def by (rule waves_to_mapping_flat [OF compact_distinct(2) [OF dist]])
  then have keys: "map fst m = concat (map ow_tasks (compact_waves wave))" by (simp only: flat_keys)
  show mdist: "distinct (map fst m)" unfolding keys by (rule compact_distinct(2) [OF dist])
  show "set (map fst m) = set (map fst wave)"
    unfolding keys using compact_distinct(1) [OF dist] by (rule mset_eq_setD)
  have at: "wave_of m r = int i" if "i < length ?vs" "?vs ! i = wave_of wave r" "r \<in> set (map fst wave)" for r i
  proof (rule wave_of_in [OF mdist])
    have "r \<in> set (occupants wave (?vs ! i))" using wave_of_key [OF dist that(3)] that(2) by (simp add: occupants_set)
    moreover
    have "compact_waves wave ! i = \<lparr>ow_index = int i, ow_tasks = sort (occupants wave (?vs ! i))\<rparr>"
      "i < length (compact_waves wave)" using that(1) by (simp_all add: compact_waves_def nth_enumerate_eq)
    then have "\<lparr>ow_index = int i, ow_tasks = sort (occupants wave (?vs ! i))\<rparr> \<in> set (compact_waves wave)"
      by (metis nth_mem)
    ultimately show "(r, int i) \<in> set m" unfolding m flat_waves_def by force
  qed
  have increasing: "?vs ! i < ?vs ! j \<longleftrightarrow> i < j" if "i < length ?vs" "j < length ?vs" for i j
  proof -
    have "sorted_wrt (<) ?vs" using wave_values_facts(1,2) strict_sorted_iff by blast
    then show ?thesis using that sorted_wrt_nth_less [of "(<)" ?vs] by (metis linorder_neqE_nat order_less_asym)
  qed
  show "0 \<le> wave_of m r" if r: "r \<in> set (map fst wave)"
    using wave_value_position [OF dist r] at [OF _ _ r] by (metis of_nat_0_le_iff)
  show "wave_of m d < wave_of m r \<longleftrightarrow> wave_of wave d < wave_of wave r"
    if d: "d \<in> set (map fst wave)" and r: "r \<in> set (map fst wave)"
  proof -
    obtain i where i: "i < length ?vs" "?vs ! i = wave_of wave d" using wave_value_position [OF dist d] .
    obtain j where j: "j < length ?vs" "?vs ! j = wave_of wave r" using wave_value_position [OF dist r] .
    show ?thesis using increasing [OF i(1) j(1)] at [OF i d] at [OF j r] i(2) j(2) by simp
  qed
qed

section \<open>Derived waves\<close>

lemma group_ok_sort: "group_ok index limits (sort xs) \<longleftrightarrow> group_ok index limits xs"
proof -
  have "length (filter P (sort xs)) = length (filter P xs)" for P
    by (metis mset_filter mset_sort size_mset)
  then show ?thesis by (simp add: group_ok_def)
qed

lemma fence_waves_packed:
  assumes "canonical_index index" "limits_ok limits"
  shows "\<exists>wave floors. fence_waves index limits = Inr wave \<and> packed index limits floors {} wave \<and>
    set (map fst wave) = set (map fst index)"
proof -
  obtain wave where wave: "pack_waves index limits (\<lambda>_. 0) = Inr wave" "packed index limits (\<lambda>_. 0) {} wave"
    "set (map fst wave) = set (map fst index)"
    using pack_waves_spec [OF assms, of "{}" "\<lambda>_. 0"] by auto
  obtain ancestors where "plan_ancestors index = Inr ancestors" using plan_ancestors_spec [OF assms(1)] .
  then show ?thesis
    using wave fence_rounds_packed [OF assms wave(2,3), of "length index + 2" ancestors "barrier_refs index"]
    by (auto simp: fence_waves_def)
qed

lemma derive_from_index_spec:
  assumes "canonical_index index" "limits_ok limits"
  obtains wave floors where "derive_from_index index limits = Inr (compact_waves wave)" "fence_waves index limits = Inr wave"
    "packed index limits floors {} wave" "set (map fst wave) = set (map fst index)"
  using fence_waves_packed [OF assms] by (auto simp: derive_from_index_def)

lemma canonical_keys_distinct: "canonical_index index \<Longrightarrow> distinct (map fst index)"
  by (auto simp: canonical_index_def index_closed_def graph_closed_def)

lemma same_keys_mset:
  "distinct xs \<Longrightarrow> distinct ys \<Longrightarrow> set xs = set ys \<Longrightarrow> mset xs = mset ys"
  by (simp add: set_eq_iff_mset_eq_distinct)

text \<open>C10: Every accepted graph gets waves: numbered from zero without gaps, every task in exactly one
  wave, and every task in a strictly later wave than each task it depends on.\<close>

theorem derived_waves_respect_plan:
  assumes "validate_graph graph (Some limits) = Inr ()"
  shows "\<exists>waves. derive_waves graph (Some limits) = Inr waves \<and>
    map ow_index waves = map int [0..<length waves] \<and>
    mset (concat (map ow_tasks waves)) = mset (map pn_ref graph) \<and>
    (\<forall>(d, r) \<in> plan_edges graph. wave_of (waves_to_mapping waves) d < wave_of (waves_to_mapping waves) r)"
proof -
  obtain index where index: "canon_index graph limits = Inr index"
    using assms by (auto simp: validate_graph_def limits_or_default_def plan_results)
  then obtain ms where ms: "index = index_of ms" "map pn_ref ms = map pn_ref graph" "distinct (map pn_ref ms)"
    and facts: "canonical_index index" "index_edges index = plan_edges graph" "limits_ok limits" by (rule canon_index_result)
  obtain wave floors where wave: "derive_from_index index limits = Inr (compact_waves wave)"
    and packed: "packed index limits floors {} wave" and keys: "set (map fst wave) = set (map fst index)"
    using derive_from_index_spec [OF facts(1,3)] .
  note dist = packedD(1) [OF packed]
  have "mset (concat (map ow_tasks (compact_waves wave))) = mset (map fst index)"
    using compact_distinct(1) [OF dist] same_keys_mset [OF dist canonical_keys_distinct [OF facts(1)] keys] by simp
  then have tasks: "mset (concat (map ow_tasks (compact_waves wave))) = mset (map pn_ref graph)" by (simp only: ms index_of_keys)
  have "wave_of (waves_to_mapping (compact_waves wave)) d < wave_of (waves_to_mapping (compact_waves wave)) r"
    if edge: "(d, r) \<in> plan_edges graph" for d r
  proof -
    have r: "r \<in> set (map fst index)" "d \<in> set (start_of index r)"
      using edge unfolding facts(2) [symmetric] index_edges_def dep_edges_def by auto
    then have entry: "(r, wave_of wave r) \<in> set wave" using wave_of_key [OF dist] keys by blast
    from packedD(5) [OF packed entry r(2)] show ?thesis using compact_mapping(4) [OF dist] r(1) keys by blast
  qed
  then show ?thesis using wave index tasks compact_tasks(2) [of wave]
    by (auto simp: derive_waves_def limits_or_default_def)
qed

definition clean_owns :: "plan_node \<Rightarrow> string list" where
  \<comment> \<open>the canonical write scopes of a node that is accepted\<close>
  "clean_owns n = projr (canonical_scopes (pn_owns n) [])"

lemma index_owns:
  assumes "canon_index graph limits = Inr index" "n \<in> set graph"
  shows "pn_owns (index_node index (pn_ref n)) = clean_owns n"
  using canonical_node_fields(8) [OF canon_index_node [OF assms]] by (simp add: clean_owns_def)

lemma derive_waves_cases:
  assumes "derive_waves graph (Some limits) = Inr waves"
  obtains index wave floors where "canon_index graph limits = Inr index" "canonical_index index"
    "index_edges index = plan_edges graph" "limits_ok limits" "fence_waves index limits = Inr wave"
    "packed index limits floors {} wave" "set (map fst wave) = set (map fst index)" "waves = compact_waves wave"
proof -
  obtain index where index: "canon_index graph limits = Inr index" and waves: "derive_from_index index limits = Inr waves"
    using assms by (auto simp: derive_waves_def limits_or_default_def plan_results)
  from index obtain ms where "canonical_index index" "index_edges index = plan_edges graph" "limits_ok limits"
    by (rule canon_index_result)
  moreover then obtain wave floors where "derive_from_index index limits = Inr (compact_waves wave)"
    "fence_waves index limits = Inr wave" "packed index limits floors {} wave" "set (map fst wave) = set (map fst index)"
    using derive_from_index_spec by metis
  ultimately show thesis using that index waves by auto
qed

text \<open>C34: Every derived wave fits the owner maxima and keeps its writers apart: the number of projects
  and the number of tasks per project stay inside the limits, and no two tasks of the wave
  declare write scopes that name a common path, with one exception the overlap test of the code
  makes: one subtree scope declared by both, as \<open>src/**\<close> twice, is not seen as an overlap.\<close>

theorem derived_waves_fit_maxima:
  assumes "derive_waves graph (Some limits) = Inr waves" "w \<in> set waves"
  shows "int (card (ref_project ` set (ow_tasks w))) \<le> lim_active_projects limits \<and>
    int (length (filter (\<lambda>r. ref_project r = p) (ow_tasks w))) \<le> lim_workers limits \<and>
    (\<forall>n \<in> set graph. \<forall>n' \<in> set graph. pn_ref n \<in> set (ow_tasks w) \<and> pn_ref n' \<in> set (ow_tasks w) \<and>
       pn_ref n \<noteq> pn_ref n' \<longrightarrow> scopes_clear (clean_owns n) (clean_owns n'))"
proof -
  from assms(1) obtain index wave floors where index: "canon_index graph limits = Inr index"
    and packed: "packed index limits floors {} wave" and waves: "waves = compact_waves wave" by (rule derive_waves_cases)
  have "ow_tasks w \<in> set (map ow_tasks (compact_waves wave))" using assms(2) waves by simp
  then obtain v where "ow_tasks w = sort (occupants wave v)" unfolding compact_tasks by auto
  then have ok: "group_ok index limits (ow_tasks w)" using packedD(2) [OF packed] by (simp add: group_ok_sort)
  have "scopes_clear (clean_owns n) (clean_owns n')"
    if "n \<in> set graph" "n' \<in> set graph" "pn_ref n \<in> set (ow_tasks w)" "pn_ref n' \<in> set (ow_tasks w)" "pn_ref n \<noteq> pn_ref n'" for n n'
  proof -
    have "\<not> scopes_conflict index (pn_ref n) (pn_ref n')" using ok that(3-5) unfolding group_ok_def by blast
    then show ?thesis unfolding scopes_conflict_def index_owns [OF index that(1)] index_owns [OF index that(2)] no_overlap_iff .
  qed
  then show ?thesis using ok unfolding group_ok_def by blast
qed

text \<open>C12: A plan with one barrier is fenced by it: every task that the barrier does not transitively
  depend on is placed in a strictly later wave than the barrier.\<close>

theorem single_barrier_fences_plan:
  assumes "derive_waves graph (Some limits) = Inr waves" "filter pn_barrier graph = [b]"
    "n \<in> set graph" "pn_ref n \<noteq> pn_ref b" "(pn_ref n, pn_ref b) \<notin> (plan_edges graph)\<^sup>+"
  shows "wave_of (waves_to_mapping waves) (pn_ref b) < wave_of (waves_to_mapping waves) (pn_ref n)"
proof -
  from assms(1) obtain index wave floors where index: "canon_index graph limits = Inr index"
    and facts: "canonical_index index" "index_edges index = plan_edges graph" "limits_ok limits"
    and wave: "fence_waves index limits = Inr wave" "packed index limits floors {} wave"
      "set (map fst wave) = set (map fst index)" and waves: "waves = compact_waves wave" by (rule derive_waves_cases)
  from index obtain ms where ms: "index = index_of ms" "list_all2 (\<lambda>n m. canonical_node n = Inr m) graph ms"
    "map pn_ref ms = map pn_ref graph" by (rule canon_index_result)
  have keys: "set (map fst index) = pn_ref ` set graph" using ms(3) arg_cong [OF ms(3), of set] by (simp only: ms(1) index_of_keys set_map)
  have "map pn_ref (filter pn_barrier ms) = map pn_ref (filter pn_barrier graph)"
    using ms(2) by (induction rule: list_all2_induct) (auto dest: canonical_node_fields(1,6))
  moreover have "barrier_refs (index_of xs) = map pn_ref (filter pn_barrier xs)" for xs
    by (induction xs) (simp_all add: barrier_refs_def index_of_def)
  ultimately have barrier: "barrier_refs index = [pn_ref b]" using assms(2) by (simp add: ms(1))
  have "b \<in> set (filter pn_barrier graph)" using assms(2) by simp
  then have b: "pn_ref b \<in> set (map fst index)" unfolding keys by simp
  obtain ancestors where anc: "plan_ancestors index = Inr ancestors"
    "\<And>r. r \<in> set (map fst index) \<Longrightarrow> ancestors r = {d. (d, r) \<in> (index_edges index)\<^sup>+}"
    using plan_ancestors_spec [OF facts(1)] by metis
  have before: "set (start_of index r) \<subseteq> ancestors (pn_ref b)" if "r \<in> insert (pn_ref b) (ancestors (pn_ref b))" for r
  proof
    fix d assume d: "d \<in> set (start_of index r)"
    then have "r \<in> set (map fst index)" using dict_get_None [of index r] by (fastforce simp: start_of_def split: option.splits)
    then have "(d, r) \<in> index_edges index" using d by (simp add: index_edges_def dep_edges_def)
    moreover have "r = pn_ref b \<or> (r, pn_ref b) \<in> (index_edges index)\<^sup>+" using that anc(2) [OF b] by blast
    ultimately show "d \<in> ancestors (pn_ref b)" unfolding anc(2) [OF b] by (auto intro: trancl_into_trancl2)
  qed
  obtain waves0 where w0: "pack_waves index limits (\<lambda>_. 0) = Inr waves0"
    "packed index limits (\<lambda>_. 0) (insert (pn_ref b) (ancestors (pn_ref b))) waves0" "set (map fst waves0) = set (map fst index)"
    using pack_waves_spec [OF facts(1,3), of "insert (pn_ref b) (ancestors (pn_ref b))" "\<lambda>_. 0"] before by blast
  have "\<exists>waves'. fence_rounds (length index + 2) index limits ancestors [pn_ref b] (\<lambda>_. 0) waves0 = Inr waves' \<and>
      fenced index ancestors (pn_ref b) waves'"
    by (rule single_fence [where height = 0 and floors = "\<lambda>_. 0" and b = "pn_ref b" and ancestors = ancestors, OF facts(1,3) b before w0(2,3)]) simp_all
  then have "fenced index ancestors (pn_ref b) wave"
    using wave(1) by (auto simp: fence_waves_def barrier anc(1) w0(1))
  moreover have "pn_ref n \<in> set (map fst index)" unfolding keys using assms(3) by simp
  ultimately have "wave_of wave (pn_ref b) < wave_of wave (pn_ref n)"
    using assms(4,5) unfolding fenced_def anc(2) [OF b] facts(2) by blast
  then show ?thesis
    unfolding waves using compact_mapping(4) [OF packedD(1) [OF wave(2)]] b \<open>pn_ref n \<in> _\<close> wave(3) by blast
qed

end
