(* ===== verification/Wave_Samples.thy ===== *)
theory Wave_Samples
  imports Wave_Packing_Laws
begin

text \<open>
  A plan of three tasks, the second one a barrier and the last with a redundant dependency, at
  which the properties of the wave planner are evaluated, and the cases in which the planner does
  something else than its documentation says.
\<close>

definition plain_node :: "string \<Rightarrow> string \<Rightarrow> task_ref list \<Rightarrow> plan_node" where
  "plain_node project task deps =
     \<lparr>pn_project_id = project, pn_task_id = task, pn_size = ''m'', pn_title = [], pn_phase = [], pn_start = deps,
      pn_integrate = [], pn_owns = [''src/'' @ task], pn_barrier = False, pn_heavy_gate = False, pn_checklist = 0,
      pn_duration = None, pn_integration = None\<rparr>"

definition task_a :: plan_node where "task_a = plain_node ''p'' ''a'' []"
definition task_b :: plan_node where "task_b = (plain_node ''p'' ''b'' [TaskRef ''p'' ''a''])\<lparr>pn_barrier := True\<rparr>"
definition task_c :: plan_node where "task_c = plain_node ''p'' ''c'' [TaskRef ''p'' ''a'', TaskRef ''p'' ''b'']"

definition three_tasks :: "plan_node list" where "three_tasks = [task_a, task_b, task_c]"

definition three_index :: node_index where "three_index = projr (canon_index three_tasks default_plan_limits)"

definition three_waves :: "opt_wave list" where
  "three_waves =
     [\<lparr>ow_index = 0, ow_tasks = [TaskRef ''p'' ''a'']\<rparr>, \<lparr>ow_index = 1, ow_tasks = [TaskRef ''p'' ''b'']\<rparr>,
      \<lparr>ow_index = 2, ow_tasks = [TaskRef ''p'' ''c'']\<rparr>]"

definition three_reduced :: dependency_reduction where
  "three_reduced = projr (remove_redundant_dependencies three_tasks (Some default_plan_limits))"

lemma three_valid: "validate_graph three_tasks (Some default_plan_limits) = Inr ()"
  by code_simp

lemma three_canon: "canon_index three_tasks default_plan_limits = Inr three_index"
  by code_simp

lemma three_derived: "derive_waves three_tasks (Some default_plan_limits) = Inr three_waves"
  by code_simp

lemma three_removed: "remove_redundant_dependencies three_tasks (Some default_plan_limits) = Inr three_reduced"
  by code_simp

lemma three_reduced_path: "compute_critical_path (dr_graph three_reduced) (Some default_plan_limits) = Inr 25"
  by code_simp

lemma critical_path_is_longest_chain_witness:
  "\<exists>c. critical_path three_index default_plan_limits = Inr c \<and>
    longest_chain (plan_edges three_tasks) (pn_ref ` set three_tasks) (task_weight three_index default_plan_limits) c"
  by (rule critical_path_is_longest_chain [OF three_canon])

lemma redundant_removal_is_transitive_reduction_witness:
  "\<exists>red. remove_redundant_dependencies three_tasks (Some default_plan_limits) = Inr red \<and>
    (plan_edges (dr_graph red))\<^sup>+ = (plan_edges three_tasks)\<^sup>+"
  using redundant_removal_is_transitive_reduction [OF three_valid] by (elim exE conjE, intro exI conjI)

lemma reduction_keeps_critical_path_witness:
  "compute_critical_path three_tasks (Some default_plan_limits) = Inr 25"
  by (rule reduction_keeps_critical_path [OF three_removed three_reduced_path])

lemma derived_waves_respect_plan_witness:
  "\<exists>waves. derive_waves three_tasks (Some default_plan_limits) = Inr waves \<and>
    mset (concat (map ow_tasks waves)) = mset (map pn_ref three_tasks)"
  using derived_waves_respect_plan [OF three_valid] by (elim exE conjE, intro exI conjI)

lemma derived_waves_fit_maxima_witness:
  "int (card (ref_project ` {TaskRef ''p'' ''b''})) \<le> lim_active_projects default_plan_limits"
proof -
  have "\<lparr>ow_index = 1, ow_tasks = [TaskRef ''p'' ''b'']\<rparr> \<in> set three_waves" by (simp add: three_waves_def)
  from derived_waves_fit_maxima [OF three_derived this, of "''p''"] show ?thesis by simp
qed

lemma single_barrier_fences_plan_witness:
  "wave_of (waves_to_mapping three_waves) (TaskRef ''p'' ''b'') < wave_of (waves_to_mapping three_waves) (TaskRef ''p'' ''c'')"
proof -
  have refs: "pn_ref task_b = TaskRef ''p'' ''b''" "pn_ref task_c = TaskRef ''p'' ''c''" by code_simp+
  have "filter pn_barrier three_tasks = [task_b]" by code_simp
  moreover have "task_c \<in> set three_tasks" by (simp add: three_tasks_def)
  moreover have "(TaskRef ''p'' ''c'', TaskRef ''p'' ''b'') \<notin> (plan_edges three_tasks)\<^sup>+"
  proof
    assume "(TaskRef ''p'' ''c'', TaskRef ''p'' ''b'') \<in> (plan_edges three_tasks)\<^sup>+"
    then obtain r where "(TaskRef ''p'' ''c'', r) \<in> plan_edges three_tasks" by (meson tranclD)
    then have "TaskRef ''p'' ''c'' \<in> ref_clean ` (\<Union>n \<in> set three_tasks. set (pn_start n))"
      by (auto simp: plan_edges_def)
    moreover have "TaskRef ''p'' ''c'' \<notin> ref_clean ` (\<Union>n \<in> set three_tasks. set (pn_start n))" by code_simp
    ultimately show False by contradiction
  qed
  ultimately show ?thesis using single_barrier_fences_plan [OF three_derived, of task_b task_c] refs by simp
qed

section \<open>Where the code differs from its documentation\<close>

text \<open>Two barriers that do not depend on each other each demand a wave after the other one: the
  rounds never reach a fixpoint, and after the last round both stand in one wave.\<close>

lemma two_barriers_share_a_wave:
  "derive_waves [(plain_node ''p'' ''a'' [])\<lparr>pn_barrier := True\<rparr>, (plain_node ''p'' ''b'' [])\<lparr>pn_barrier := True\<rparr>] None =
     Inr [\<lparr>ow_index = 0, ow_tasks = [TaskRef ''p'' ''a'', TaskRef ''p'' ''b'']\<rparr>]"
  by code_simp

text \<open>Canonical scopes are not fixed points: a graph whose scope is \<open>. /\<close> is valid, but the reduced
  graph, whose scope has become a dot and a space, is refused when it is validated again.\<close>

definition dotted_tasks :: "plan_node list" where
  "dotted_tasks = [(plain_node ''p'' ''a'' [])\<lparr>pn_owns := [''. /'']\<rparr>]"

lemma reduced_graph_refused:
  "validate_graph dotted_tasks None = Inr ()"
  "try_bind (remove_redundant_dependencies dotted_tasks None) (\<lambda>red. validate_graph (dr_graph red) None) =
     Inl (UnsafeScope ''. '')"
  by code_simp+

end
