(* ===== verification/Wave_Schedule.thy ===== *)
theory Wave_Schedule
  imports Wave_Packing
begin

text \<open>
  Scheduling and scoring (\<open>wave_plan_optimizer.py\<close>): the greedy resource-constrained list schedule
  \<open>_schedule\<close> with the search for a feasible start, the resource demand, and the score of a plan.

  \<^item> The \<open>while remaining\<close> loop is \<open>schedule_rounds\<close>, which ends because every round that does not
    raise places a task; the bounded \<open>for\<close> loop of \<open>_feasible_start\<close> is \<open>feasible_from\<close> with its
    number of iterations as first argument.
  \<^item> \<open>assigned\<close> keeps its insertion order; the dictionary of worker slots is a function.
  \<^item> Times are rationals; \<open>EPS\<close> is the code's tolerance.
\<close>

definition EPS :: rat where "EPS = 1 / 10 ^ 9"

type_synonym windows = "(task_ref \<times> (rat \<times> rat)) list"

definition window_start :: "windows \<Rightarrow> task_ref \<Rightarrow> rat" where
  "window_start assigned r = fst (the (dict_get assigned r))"

definition window_finish :: "windows \<Rightarrow> task_ref \<Rightarrow> rat" where
  "window_finish assigned r = snd (the (dict_get assigned r))"

record sched_state =
  ws_slots :: "string \<Rightarrow> rat list"
  ws_gates :: "rat list"
  ws_assigned :: windows

section \<open>Ready tasks\<close>

definition previous_members :: "wave_map \<Rightarrow> task_ref \<Rightarrow> task_ref list" where
  \<comment> \<open>the tasks of the wave before the wave of \<open>ref\<close>\<close>
  "previous_members wave ref =
     (case filter (\<lambda>u. u < wave_of wave ref) (wave_values wave) of [] \<Rightarrow> [] | us \<Rightarrow> occupants wave (last us))"

definition barriers_before :: "node_index \<Rightarrow> wave_map \<Rightarrow> task_ref \<Rightarrow> task_ref list" where
  "barriers_before index wave ref = filter (\<lambda>b. wave_of wave b < wave_of wave ref) (barrier_refs index)"

definition ready_at ::
  "node_index \<Rightarrow> wave_map \<Rightarrow> plan_limits \<Rightarrow> bool \<Rightarrow> windows \<Rightarrow> task_ref \<Rightarrow> rat option" where
  \<comment> \<open>the earliest start of a task that is ready\<close>
  "ready_at index wave limits chained assigned ref =
     (let unassigned = (\<lambda>r. dict_get assigned r = None);
          previous = (if chained then previous_members wave ref else []);
          barriers = barriers_before index wave ref
      in if list_ex unassigned (start_of index ref) then None
         else if list_ex unassigned previous then None
         else if list_ex unassigned barriers then None
         else
           let after_deps = max_or 0 (map (window_finish assigned) (start_of index ref));
               after_previous =
                 (if chained then max after_deps (max_or 0 (map (window_finish assigned) previous)) else after_deps)
           in Some (max after_previous
                (max_or 0 (map (\<lambda>b. window_finish assigned b + node_integration (index_node index b) limits) barriers))))"

definition ready_tasks ::
  "node_index \<Rightarrow> wave_map \<Rightarrow> plan_limits \<Rightarrow> bool \<Rightarrow> windows \<Rightarrow> task_ref list \<Rightarrow> (rat \<times> task_ref) list" where
  "ready_tasks index wave limits chained assigned remaining =
     sort_key (\<lambda>(earliest, ref). (earliest, - node_duration (index_node index ref) limits, ref))
       (List.map_filter (\<lambda>ref. map_option (\<lambda>e. (e, ref)) (ready_at index wave limits chained assigned ref)) (sort remaining))"

section \<open>A feasible start\<close>

definition uses_gate :: "node_index \<Rightarrow> plan_limits \<Rightarrow> task_ref \<Rightarrow> rat list \<Rightarrow> bool" where
  "uses_gate index limits ref gates =
     (lim_enforce_gates limits \<and> pn_heavy_gate (index_node index ref) \<and> gates \<noteq> [])"

definition slot_candidate :: "node_index \<Rightarrow> plan_limits \<Rightarrow> sched_state \<Rightarrow> task_ref \<Rightarrow> rat \<Rightarrow> rat" where
  "slot_candidate index limits st ref desired =
     (let candidate = max desired (Min (set (ws_slots st (ref_project ref))))
      in if uses_gate index limits ref (ws_gates st) then max candidate (Min (set (ws_gates st))) else candidate)"

definition clashes :: "node_index \<Rightarrow> plan_limits \<Rightarrow> task_ref \<Rightarrow> rat \<Rightarrow> task_ref \<times> rat \<times> rat \<Rightarrow> bool" where
  \<comment> \<open>the window of another task meets the candidate window, and their scopes conflict\<close>
  "clashes index limits ref candidate other =
     (case other of (r, s, e) \<Rightarrow>
        \<not> (e \<le> candidate + EPS \<or> candidate + node_duration (index_node index ref) limits - EPS \<le> s) \<and>
        scopes_conflict index ref r)"

definition next_candidate :: "node_index \<Rightarrow> plan_limits \<Rightarrow> sched_state \<Rightarrow> task_ref \<Rightarrow> rat \<Rightarrow> rat" where
  "next_candidate index limits st ref desired =
     (let candidate = slot_candidate index limits st ref desired
      in if lim_serialize limits
         then max_or candidate (candidate # map (\<lambda>w. snd (snd w)) (filter (clashes index limits ref candidate) (ws_assigned st)))
         else candidate)"

fun feasible_from :: "nat \<Rightarrow> node_index \<Rightarrow> plan_limits \<Rightarrow> sched_state \<Rightarrow> task_ref \<Rightarrow> rat \<Rightarrow> rat" where
  "feasible_from 0 index limits st ref desired = desired"
| "feasible_from (Suc k) index limits st ref desired =
     (let candidate = next_candidate index limits st ref desired
      in if candidate \<le> desired + EPS then desired else feasible_from k index limits st ref candidate)"

definition feasible_start :: "node_index \<Rightarrow> plan_limits \<Rightarrow> sched_state \<Rightarrow> task_ref \<Rightarrow> rat \<Rightarrow> rat" where
  "feasible_start index limits st ref earliest =
     feasible_from (length (ws_assigned st) + 3) index limits st ref earliest"

section \<open>The schedule\<close>

definition least_slot :: "rat list \<Rightarrow> nat" where
  \<comment> \<open>\<open>min(range(len(slots)), key=lambda i: slots[i])\<close>: the first least slot\<close>
  "least_slot slots = length (takeWhile (\<lambda>x. x \<noteq> Min (set slots)) slots)"

definition occupy :: "rat \<Rightarrow> rat list \<Rightarrow> rat list" where
  "occupy finish slots = slots[least_slot slots := finish]"

definition place_task ::
  "node_index \<Rightarrow> plan_limits \<Rightarrow> sched_state \<Rightarrow> rat \<times> task_ref \<Rightarrow> sched_state" where
  "place_task index limits st item =
     (let (earliest, ref) = item;
          start = feasible_start index limits st ref earliest;
          finish = start + node_duration (index_node index ref) limits
      in \<lparr>ws_slots = (ws_slots st)(ref_project ref := occupy finish (ws_slots st (ref_project ref))),
          ws_gates = (if uses_gate index limits ref (ws_gates st) then occupy finish (ws_gates st) else ws_gates st),
          ws_assigned = ws_assigned st @ [(ref, start, finish)]\<rparr>)"

lemma ready_tasks_set:
  "set (ready_tasks index wave limits chained assigned remaining) =
     {(e, r). r \<in> set remaining \<and> ready_at index wave limits chained assigned r = Some e}"
  by (force simp: ready_tasks_def List.map_filter_def)

function schedule_rounds ::
  "node_index \<Rightarrow> wave_map \<Rightarrow> plan_limits \<Rightarrow> bool \<Rightarrow> sched_state \<Rightarrow> task_ref list \<Rightarrow> plan_error + sched_state" where
  "schedule_rounds index wave limits chained st remaining =
     (if remaining = [] then Inr st
      else let ready = ready_tasks index wave limits chained (ws_assigned st) remaining
           in if ready = [] then Inl Unschedulable
              else schedule_rounds index wave limits chained (foldl (place_task index limits) st ready)
                     (filter (\<lambda>r. r \<notin> snd ` set ready) remaining))"
  by auto

termination
proof (relation "measure (\<lambda>(_, _, _, _, _, remaining). length remaining)")
  fix index :: node_index and wave :: wave_map and limits :: plan_limits and chained :: bool
    and st :: sched_state and remaining :: "task_ref list" and ready
  assume ready: "ready = ready_tasks index wave limits chained (ws_assigned st) remaining" "ready \<noteq> []"
  then obtain e r where "(e, r) \<in> set ready" by (metis last_in_set surj_pair)
  then have "r \<in> set remaining" "r \<in> snd ` set ready" using ready_tasks_set ready(1) by force+
  then have "length (filter (\<lambda>r. r \<notin> snd ` set ready) remaining) < length remaining"
    by (intro length_filter_less) auto
  then show "((index, wave, limits, chained, foldl (place_task index limits) st ready,
      filter (\<lambda>r. r \<notin> snd ` set ready) remaining), index, wave, limits, chained, st, remaining)
      \<in> measure (\<lambda>(_, _, _, _, _, remaining). length remaining)" by simp
qed simp

declare schedule_rounds.simps [simp del]

definition empty_schedule :: "plan_limits \<Rightarrow> sched_state" where
  "empty_schedule limits =
     \<lparr>ws_slots = (\<lambda>_. replicate (nat (lim_workers limits)) 0),
      ws_gates = (if lim_enforce_gates limits then replicate (nat (lim_heavy_gates limits)) 0 else []),
      ws_assigned = []\<rparr>"

definition schedule_plan :: "node_index \<Rightarrow> wave_map \<Rightarrow> plan_limits \<Rightarrow> bool \<Rightarrow> plan_error + windows" where
  \<comment> \<open>\<open>_schedule\<close>\<close>
  "schedule_plan index wave limits chained =
     try_bind (schedule_rounds index wave limits chained (empty_schedule limits) (map fst index))
       (\<lambda>st. Inr (ws_assigned st))"

section \<open>Resource demand\<close>

definition round_half_even :: "rat \<Rightarrow> int" where
  \<comment> \<open>\<open>round\<close>\<close>
  "round_half_even x =
     (let f = \<lfloor>x\<rfloor>; d = x - of_int f
      in if d < 1 / 2 then f else if 1 / 2 < d then f + 1 else if even f then f else f + 1)"

definition sweep_peak :: "(rat \<times> rat) list \<Rightarrow> rat" where
  \<comment> \<open>the greatest running sum, before it is rounded\<close>
  "sweep_peak events =
     snd (foldl (\<lambda>(running, peak) (_, delta). (running + delta, max peak (running + delta))) (0, 0) (sort events))"

definition sweep_count :: "(rat \<times> rat) list \<Rightarrow> int" where
  \<comment> \<open>\<open>_sweep_peak(..., integral=True)\<close>\<close>
  "sweep_count events = round_half_even (sweep_peak events)"

definition sweep_amount :: "(rat \<times> rat) list \<Rightarrow> rat" where
  \<comment> \<open>\<open>_sweep_peak(..., integral=False)\<close>\<close>
  "sweep_amount events = of_int (round_half_even (sweep_peak events * 10 ^ 6)) / 10 ^ 6"

record resource_demand_t =
  rd_workers :: int
  rd_workers_per_project :: int
  rd_heavy_gates :: int
  rd_provider_pct :: rat
  rd_total_pct :: rat

definition window_events :: "rat \<Rightarrow> windows \<Rightarrow> (rat \<times> rat) list" where
  "window_events amount assigned = concat (map (\<lambda>(_, s, e). [(s, amount), (e, - amount)]) assigned)"

definition resource_demand :: "node_index \<Rightarrow> windows \<Rightarrow> plan_limits \<Rightarrow> resource_demand_t" where
  "resource_demand index assigned limits =
     (let pct = (\<lambda>r. provider_pct (index_node index r) limits);
          projects = remdups (map (\<lambda>(r, _). ref_project r) assigned)
      in \<lparr>rd_workers = sweep_count (window_events 1 assigned),
          rd_workers_per_project = max_or 0 (0 # map (\<lambda>p.
             sweep_count (window_events 1 (filter (\<lambda>(r, _). ref_project r = p) assigned))) projects),
          rd_heavy_gates = sweep_count (window_events 1
             (filter (\<lambda>(r, _). pn_heavy_gate (index_node index r)) assigned)),
          rd_provider_pct = sweep_amount (concat (map (\<lambda>(r, s, e). [(s, pct r), (e, - pct r)]) assigned)),
          rd_total_pct = sum_list (map (\<lambda>(r, _). pct r) assigned)\<rparr>)"

section \<open>The score\<close>

record task_window =
  tw_ref :: task_ref
  tw_wave :: int
  tw_start :: rat
  tw_finish :: rat
  tw_duration :: rat
  tw_integration :: rat
  tw_provider_pct :: rat
  tw_barrier :: bool
  tw_heavy_gate :: bool

record plan_score =
  sc_critical_path :: rat
  sc_total_work :: rat
  sc_makespan :: rat
  sc_parallelism :: rat
  sc_overlaps :: "scope_overlap list"
  sc_demand :: resource_demand_t
  sc_fixed_cost :: rat
  sc_checklist :: int
  sc_waves :: "opt_wave list"
  sc_schedule :: "task_window list"

definition task_window_of ::
  "node_index \<Rightarrow> plan_limits \<Rightarrow> wave_map \<Rightarrow> windows \<Rightarrow> task_ref \<Rightarrow> task_window" where
  "task_window_of index limits wave assigned ref =
     (let node = index_node index ref
      in \<lparr>tw_ref = ref, tw_wave = wave_of wave ref, tw_start = window_start assigned ref,
          tw_finish = window_finish assigned ref, tw_duration = node_duration node limits,
          tw_integration = node_integration node limits, tw_provider_pct = provider_pct node limits,
          tw_barrier = pn_barrier node, tw_heavy_gate = pn_heavy_gate node\<rparr>)"

definition makespan_of :: "windows \<Rightarrow> rat" where
  "makespan_of assigned = max_or 0 (map (\<lambda>(_, _, e). e) assigned)"

definition score_index :: "node_index \<Rightarrow> plan_limits \<Rightarrow> wave_map \<Rightarrow> bool \<Rightarrow> plan_error + plan_score" where
  \<comment> \<open>\<open>_score\<close>\<close>
  "score_index index limits wave chained =
     try_bind (schedule_plan index wave limits chained) (\<lambda>assigned.
     try_bind (critical_path index limits) (\<lambda>critical.
       let total = sum_list (map (\<lambda>(_, node). node_duration node limits) index)
       in Inr \<lparr>sc_critical_path = critical, sc_total_work = total, sc_makespan = makespan_of assigned,
               sc_parallelism = (if 0 < critical then total / critical else 0),
               sc_overlaps = detect_overlaps index wave,
               sc_demand = resource_demand index assigned limits,
               sc_fixed_cost = lim_fixed_cost limits * of_nat (length index),
               sc_checklist = sum_list (map (\<lambda>(_, node). pn_checklist node) index),
               sc_waves = mapping_to_waves wave,
               sc_schedule = map (task_window_of index limits wave assigned)
                 (sort_key (\<lambda>r. (window_start assigned r, r)) (map fst assigned))\<rparr>))"

definition score_plan ::
  "plan_node list \<Rightarrow> wave_proposal \<Rightarrow> plan_limits option \<Rightarrow> bool \<Rightarrow> plan_error + plan_score" where
  "score_plan graph proposal limits chained =
     (let bound = limits_or_default limits
      in try_bind (canon_index graph bound) (\<lambda>index.
         try_bind (coerce_wave_of index bound proposal) (\<lambda>wave. score_index index bound wave chained)))"

end
