(* ===== verification/Wave_Schedule_Laws.thy ===== *)
theory Wave_Schedule_Laws
  imports Wave_Schedule Wave_Packing_Laws
begin

text \<open>
  What the simulated schedule promises: the bounded search for a start always settles, the schedule
  never fails on waves that respect the dependencies, every task starts after what it must wait
  for, conflicting tasks run one after the other, and the tasks of a project run in as many lanes
  as it has workers (both up to the tolerance \<open>EPS\<close>).
\<close>

section \<open>The search for a start\<close>

lemma EPS_pos: "0 < EPS"
  by (simp add: EPS_def)

lemma slot_candidate_ge: "desired \<le> slot_candidate index limits st ref desired"
  by (auto simp: slot_candidate_def Let_def le_max_iff_disj)

lemma slot_candidate_idem:
  "slot_candidate index limits st ref d \<le> d' \<Longrightarrow> slot_candidate index limits st ref d' = d'"
  by (auto simp: slot_candidate_def Let_def split: if_splits)

lemma next_candidate_ge: "slot_candidate index limits st ref desired \<le> next_candidate index limits st ref desired"
  by (auto simp: next_candidate_def Let_def intro: max_or_facts(1))

lemma next_candidate_cases:
  assumes "slot_candidate index limits st ref desired < next_candidate index limits st ref desired"
  shows "next_candidate index limits st ref desired \<in> (\<lambda>w. snd (snd w)) ` set (ws_assigned st)"
proof -
  let ?c = "slot_candidate index limits st ref desired"
  let ?ends = "map (\<lambda>w. snd (snd w)) (filter (clashes index limits ref ?c) (ws_assigned st))"
  have eq: "next_candidate index limits st ref desired = max_or ?c (?c # ?ends)"
    using assms by (auto simp: next_candidate_def Let_def split: if_splits)
  have "max_or ?c (?c # ?ends) \<in> set (?c # ?ends)" by (rule max_or_facts(2)) simp
  from set_ConsD [OF this] have "next_candidate index limits st ref desired \<in> set ?ends"
    using assms unfolding eq [symmetric] by (elim disjE) simp_all
  moreover have "set ?ends \<subseteq> (\<lambda>w. snd (snd w)) ` set (ws_assigned st)" by auto
  ultimately show ?thesis by blast
qed

definition settled_start :: "node_index \<Rightarrow> plan_limits \<Rightarrow> sched_state \<Rightarrow> task_ref \<Rightarrow> rat \<Rightarrow> bool" where
  "settled_start index limits st ref s \<longleftrightarrow> next_candidate index limits st ref s \<le> s + EPS"

lemma feasible_from_ge: "desired \<le> feasible_from k index limits st ref desired"
proof (induction k arbitrary: desired)
  case (Suc k)
  have "desired \<le> next_candidate index limits st ref desired"
    using slot_candidate_ge next_candidate_ge order_trans by blast
  then show ?case using Suc.IH [of "next_candidate index limits st ref desired"] by (simp add: Let_def)
qed simp

lemma feasible_from_settles:
  assumes "slot_candidate index limits st ref desired = desired"
    "card {e \<in> (\<lambda>w. snd (snd w)) ` set (ws_assigned st). desired < e} < k"
  shows "settled_start index limits st ref (feasible_from k index limits st ref desired)"
  using assms
proof (induction k arbitrary: desired)
  case (Suc k)
  let ?next = "next_candidate index limits st ref desired" and ?ends = "(\<lambda>w. snd (snd w)) ` set (ws_assigned st)"
  show ?case
  proof (cases "?next \<le> desired + EPS")
    case True
    then show ?thesis by (simp add: settled_start_def Let_def)
  next
    case False
    then have higher: "desired < ?next" using EPS_pos by simp
    then have "?next \<in> ?ends" using next_candidate_cases Suc.prems(1) by metis
    then have "?next \<in> {e \<in> ?ends. desired < e}" "?next \<notin> {e \<in> ?ends. ?next < e}" using higher by blast+
    moreover have "{e \<in> ?ends. ?next < e} \<subseteq> {e \<in> ?ends. desired < e}" using higher by (blast intro: less_trans)
    ultimately have "{e \<in> ?ends. ?next < e} \<subset> {e \<in> ?ends. desired < e}" by blast
    then have "card {e \<in> ?ends. ?next < e} < card {e \<in> ?ends. desired < e}" by (intro psubset_card_mono) simp_all
    then have "card {e \<in> ?ends. ?next < e} < k" using Suc.prems(2) by simp
    moreover have "slot_candidate index limits st ref ?next = ?next"
      by (rule slot_candidate_idem [OF next_candidate_ge])
    ultimately show ?thesis using Suc.IH [of ?next] False by (simp add: Let_def)
  qed
qed simp

text \<open>The bound of the loop, the number of assigned tasks plus three, is always enough.\<close>

lemma feasible_start_settles: "settled_start index limits st ref (feasible_start index limits st ref earliest)"
proof -
  let ?n = "length (ws_assigned st)" and ?ends = "(\<lambda>w. snd (snd w)) ` set (ws_assigned st)"
  let ?next = "next_candidate index limits st ref earliest"
  have "card {e \<in> ?ends. d < e} \<le> ?n" for d
  proof -
    have "card {e \<in> ?ends. d < e} \<le> card ?ends" by (intro card_mono) auto
    also have "\<dots> \<le> ?n" using card_image_le [of "set (ws_assigned st)"] card_length [of "ws_assigned st"] order_trans by blast
    finally show ?thesis .
  qed
  then have few: "card {e \<in> ?ends. ?next < e} < ?n + 2" by (rule le_less_trans) simp
  have stable: "slot_candidate index limits st ref ?next = ?next" by (rule slot_candidate_idem [OF next_candidate_ge])
  have "feasible_start index limits st ref earliest =
      (if ?next \<le> earliest + EPS then earliest else feasible_from (?n + 2) index limits st ref ?next)"
    by (simp add: feasible_start_def numeral_3_eq_3 Let_def)
  then show ?thesis using feasible_from_settles [OF stable few] by (simp add: settled_start_def)
qed

lemma settled_slot:
  assumes "settled_start index limits st ref s"
  shows "slot_candidate index limits st ref s \<le> s + EPS"
  using assms next_candidate_ge order_trans unfolding settled_start_def by blast

lemma settled_serial:
  assumes "settled_start index limits st ref s" "lim_serialize limits" "(r, s', e') \<in> set (ws_assigned st)"
    "scopes_conflict index ref r"
  shows "e' \<le> s + 2 * EPS \<or> s + node_duration (index_node index ref) limits \<le> s' + 2 * EPS"
proof -
  let ?c = "slot_candidate index limits st ref s"
  have c: "s \<le> ?c" "?c \<le> s + EPS" using slot_candidate_ge settled_slot [OF assms(1)] by blast+
  show ?thesis
  proof (cases "clashes index limits ref ?c (r, s', e')")
    case True
    then have "e' \<le> next_candidate index limits st ref s"
      using assms(2,3) by (force simp: next_candidate_def Let_def intro!: max_or_facts(1))
    then show ?thesis using assms(1) EPS_pos by (simp add: settled_start_def)
  next
    case False
    then have "e' \<le> ?c + EPS \<or> ?c + node_duration (index_node index ref) limits - EPS \<le> s'"
      using assms(4) by (simp add: clashes_def)
    then show ?thesis using c EPS_pos by (elim disjE) simp_all
  qed
qed

section \<open>Lanes\<close>

definition lane_end :: "windows \<Rightarrow> rat" where
  "lane_end l = (if l = [] then 0 else snd (snd (last l)))"

definition lane_ok :: "windows \<Rightarrow> bool" where
  \<comment> \<open>the tasks of a lane run one after the other, up to the tolerance\<close>
  "lane_ok l \<longleftrightarrow> successively (\<lambda>x y. snd (snd x) \<le> fst (snd y) + EPS) l"

definition lanes_of :: "windows \<Rightarrow> rat list \<Rightarrow> windows list \<Rightarrow> bool" where
  \<comment> \<open>the lanes hold these windows, and the slots are their ends\<close>
  "lanes_of ws slots lanes \<longleftrightarrow> slots = map lane_end lanes \<and> (\<forall>l \<in> set lanes. lane_ok l) \<and> mset (concat lanes) = mset ws"

lemma takeWhile_shorter: "x \<in> set xs \<Longrightarrow> \<not> P x \<Longrightarrow> length (takeWhile P xs) < length xs"
  by (induction xs) auto

lemma least_slot_facts:
  assumes "slots \<noteq> []"
  shows "least_slot slots < length slots" "slots ! least_slot slots = Min (set slots)"
proof -
  have "Min (set slots) \<in> set slots" using assms by (intro Min_in) auto
  then show less: "least_slot slots < length slots"
    unfolding least_slot_def by (rule takeWhile_shorter) simp
  show "slots ! least_slot slots = Min (set slots)"
    using nth_length_takeWhile [of "\<lambda>x. x \<noteq> Min (set slots)" slots] less unfolding least_slot_def by blast
qed

lemma mset_concat_update:
  "i < length xs \<Longrightarrow> mset (concat (xs[i := xs ! i @ [x]])) = add_mset x (mset (concat xs))"
  by (induction xs arbitrary: i) (auto split: nat.splits)

lemma lanes_occupy:
  assumes "lanes_of ws slots lanes" "slots \<noteq> []" "Min (set slots) \<le> s + EPS"
  shows "\<exists>lanes'. length lanes' = length lanes \<and> lanes_of (ws @ [(r, s, e)]) (occupy e slots) lanes'"
proof -
  let ?i = "least_slot slots"
  let ?l = "lanes ! ?i" and ?new = "lanes ! ?i @ [(r, s, e)]"
  have len: "?i < length lanes" and low: "lane_end ?l = Min (set slots)"
    using least_slot_facts [OF assms(2)] assms(1) by (auto simp: lanes_of_def)
  have "lane_ok ?l" using assms(1) len by (auto simp: lanes_of_def)
  then have new: "lane_ok ?new"
    using low assms(3) by (auto simp: lane_ok_def lane_end_def successively_append_iff split: if_splits)
  have "lanes_of (ws @ [(r, s, e)]) (occupy e slots) (lanes[?i := ?new])"
    unfolding lanes_of_def
  proof (intro conjI)
    have "slots = map lane_end lanes" using assms(1) by (simp add: lanes_of_def)
    then show "occupy e slots = map lane_end (lanes[?i := ?new])"
      by (simp add: occupy_def map_update lane_end_def)
    show "\<forall>l \<in> set (lanes[?i := ?new]). lane_ok l"
      using assms(1) new set_update_subset_insert [of lanes ?i ?new] by (auto simp: lanes_of_def)
    show "mset (concat (lanes[?i := ?new])) = mset (ws @ [(r, s, e)])"
      using mset_concat_update [OF len, of "(r, s, e)"] assms(1) by (simp add: lanes_of_def)
  qed
  then show ?thesis by (intro exI [of _ "lanes[?i := ?new]"]) simp
qed

section \<open>The invariant of a schedule\<close>

definition waits_for :: "windows \<Rightarrow> task_ref \<Rightarrow> rat \<Rightarrow> rat \<Rightarrow> bool" where
  \<comment> \<open>the task has finished, and \<open>gap\<close> later the instant \<open>s\<close> has not passed\<close>
  "waits_for assigned d gap s \<longleftrightarrow> (\<exists>s' e'. (d, s', e') \<in> set assigned \<and> e' + gap \<le> s)"

definition window_ok ::
  "node_index \<Rightarrow> wave_map \<Rightarrow> plan_limits \<Rightarrow> bool \<Rightarrow> windows \<Rightarrow> task_ref \<times> rat \<times> rat \<Rightarrow> bool" where
  "window_ok index wave limits chained assigned w \<longleftrightarrow> (case w of (r, s, e) \<Rightarrow>
     e = s + node_duration (index_node index r) limits \<and>
     (\<forall>d \<in> set (start_of index r). waits_for assigned d 0 s) \<and>
     (chained \<longrightarrow> (\<forall>m \<in> set (previous_members wave r). waits_for assigned m 0 s)) \<and>
     (\<forall>b \<in> set (barriers_before index wave r). waits_for assigned b (node_integration (index_node index b) limits) s))"

definition serial_windows :: "node_index \<Rightarrow> windows \<Rightarrow> bool" where
  "serial_windows index assigned \<longleftrightarrow>
     (\<forall>(r, s, e) \<in> set assigned. \<forall>(r', s', e') \<in> set assigned.
        r \<noteq> r' \<and> scopes_conflict index r r' \<longrightarrow> e \<le> s' + 2 * EPS \<or> e' \<le> s + 2 * EPS)"

definition sched_ok ::
  "node_index \<Rightarrow> wave_map \<Rightarrow> plan_limits \<Rightarrow> bool \<Rightarrow> sched_state \<Rightarrow> bool" where
  "sched_ok index wave limits chained st \<longleftrightarrow>
     distinct (map fst (ws_assigned st)) \<and>
     (\<forall>w \<in> set (ws_assigned st). window_ok index wave limits chained (ws_assigned st) w) \<and>
     (lim_serialize limits \<longrightarrow> serial_windows index (ws_assigned st)) \<and>
     (\<forall>p. \<exists>lanes. length lanes = nat (lim_workers limits) \<and>
        lanes_of (filter (\<lambda>w. ref_project (fst w) = p) (ws_assigned st)) (ws_slots st p) lanes)"

lemma empty_schedule_ok: "sched_ok index wave limits chained (empty_schedule limits)"
proof -
  let ?lanes = "replicate (nat (lim_workers limits)) []"
  have "concat (replicate n []) = []" for n :: nat by (induction n) simp_all
  then have "lanes_of [] (replicate (nat (lim_workers limits)) 0) ?lanes"
    by (simp add: lanes_of_def lane_ok_def lane_end_def)
  then show ?thesis
    by (auto simp: sched_ok_def empty_schedule_def serial_windows_def intro!: exI [of _ ?lanes])
qed

lemma window_ok_mono:
  "window_ok index wave limits chained assigned w \<Longrightarrow> set assigned \<subseteq> set assigned' \<Longrightarrow>
     window_ok index wave limits chained assigned' w"
  unfolding window_ok_def waits_for_def by (cases w) blast

lemma waits_from_table:
  assumes "dict_get assigned d \<noteq> None" "window_finish assigned d + gap \<le> s"
  shows "waits_for assigned d gap s"
proof -
  obtain s' e' where "dict_get assigned d = Some (s', e')" using assms(1) by (cases "dict_get assigned d") auto
  then show ?thesis using assms(2) dict_get_Some_in by (force simp: waits_for_def window_finish_def)
qed

lemma ready_window_ok:
  assumes "ready_at index wave limits chained assigned r = Some earliest" "earliest \<le> s"
    "set assigned \<subseteq> set assigned'"
  shows "window_ok index wave limits chained assigned' (r, s, s + node_duration (index_node index r) limits)"
proof -
  have ended: "\<forall>d \<in> set (start_of index r). dict_get assigned d \<noteq> None"
    "chained \<longrightarrow> (\<forall>m \<in> set (previous_members wave r). dict_get assigned m \<noteq> None)"
    "\<forall>b \<in> set (barriers_before index wave r). dict_get assigned b \<noteq> None"
    using assms(1) by (auto simp: ready_at_def Let_def list_ex_iff split: if_splits)
  have after: "max_or 0 (map (window_finish assigned) (start_of index r)) \<le> s"
    "chained \<longrightarrow> max_or 0 (map (window_finish assigned) (previous_members wave r)) \<le> s"
    "max_or 0 (map (\<lambda>b. window_finish assigned b + node_integration (index_node index b) limits) (barriers_before index wave r)) \<le> s"
    using assms(1,2) by (auto simp: ready_at_def Let_def split: if_splits)
  have below: "f d \<le> s" if "max_or 0 (map f ds) \<le> s" "d \<in> set ds" for f :: "task_ref \<Rightarrow> rat" and d ds
    using that max_or_facts(1) [of "f d" "map f ds" 0] by auto
  have "window_ok index wave limits chained assigned (r, s, s + node_duration (index_node index r) limits)"
    unfolding window_ok_def prod.case
    using ended below [OF after(1)] below [OF after(3)] below [of "window_finish assigned"] after(2)
    by (auto intro!: waits_from_table)
  then show ?thesis using assms(3) by (rule window_ok_mono)
qed

lemma place_task_ok:
  assumes ok: "sched_ok index wave limits chained st" and workers: "1 \<le> lim_workers limits"
    and fresh: "r \<notin> set (map fst (ws_assigned st))"
    and ready: "ready_at index wave limits chained assigned r = Some earliest" "set assigned \<subseteq> set (ws_assigned st)"
  shows "sched_ok index wave limits chained (place_task index limits st (earliest, r))"
proof -
  let ?s = "feasible_start index limits st r earliest"
  let ?e = "?s + node_duration (index_node index r) limits"
  let ?ws = "ws_assigned st" and ?new = "ws_assigned st @ [(r, ?s, ?e)]" and ?slots = "ws_slots st (ref_project r)"
  note parts = ok [unfolded sched_ok_def]
  have settled: "settled_start index limits st r ?s" by (rule feasible_start_settles)
  have place: "ws_assigned (place_task index limits st (earliest, r)) = ?new"
    "ws_slots (place_task index limits st (earliest, r)) = (ws_slots st)(ref_project r := occupy ?e ?slots)"
    by (simp_all add: place_task_def Let_def)
  have "earliest \<le> ?s" unfolding feasible_start_def by (rule feasible_from_ge)
  then have "window_ok index wave limits chained ?new (r, ?s, ?e)"
    using ready by (intro ready_window_ok [OF ready(1)]) auto
  moreover have "window_ok index wave limits chained ?new w" if "w \<in> set ?ws" for w
  proof (rule window_ok_mono)
    show "window_ok index wave limits chained ?ws w" using parts that by blast
  qed auto
  ultimately have windows: "\<forall>w \<in> set ?new. window_ok index wave limits chained ?new w" by auto
  have serial: "serial_windows index ?new" if serialize: "lim_serialize limits"
  proof -
    have one: "e' \<le> ?s + 2 * EPS \<or> ?e \<le> s' + 2 * EPS"
      if "(r', s', e') \<in> set ?ws" "scopes_conflict index r r'" for r' s' e'
      using settled_serial [OF settled serialize that] .
    have old: "serial_windows index ?ws" using parts serialize by blast
    show ?thesis
      unfolding serial_windows_def
    proof (clarify)
      fix r1 s1 e1 r2 s2 e2
      assume mem: "(r1, s1, e1) \<in> set ?new" "(r2, s2, e2) \<in> set ?new"
        and clash: "r1 \<noteq> r2" "scopes_conflict index r1 r2" "\<not> e2 \<le> s1 + 2 * EPS"
      from mem consider "(r1, s1, e1) \<in> set ?ws" "(r2, s2, e2) \<in> set ?ws"
        | "(r1, s1, e1) = (r, ?s, ?e)" "(r2, s2, e2) \<in> set ?ws" | "(r1, s1, e1) \<in> set ?ws" "(r2, s2, e2) = (r, ?s, ?e)"
        using clash(1) by auto
      then show "e1 \<le> s2 + 2 * EPS"
      proof cases
        case 1
        then show ?thesis using old clash unfolding serial_windows_def by blast
      next
        case 2
        then show ?thesis using one [of r2 s2 e2] clash(2,3) by auto
      next
        case 3
        then show ?thesis using one [of r1 s1 e1] clash(2,3) scopes_conflict_sym [of index r1 r2] by auto
      qed
    qed
  qed
  have lanes: "\<exists>lanes. length lanes = nat (lim_workers limits) \<and>
      lanes_of (filter (\<lambda>w. ref_project (fst w) = p) ?new) (((ws_slots st)(ref_project r := occupy ?e ?slots)) p) lanes" for p
  proof -
    obtain lanes where lanes: "length lanes = nat (lim_workers limits)"
      "lanes_of (filter (\<lambda>w. ref_project (fst w) = p) ?ws) (ws_slots st p) lanes" using parts by blast
    show ?thesis
    proof (cases "p = ref_project r")
      case False
      then show ?thesis using lanes by (intro exI [of _ lanes]) simp
    next
      case True
      have "length ?slots = nat (lim_workers limits)" using lanes True by (auto simp: lanes_of_def)
      then have nonempty: "?slots \<noteq> []" using workers by auto
      have "Min (set ?slots) \<le> slot_candidate index limits st r ?s"
        by (auto simp: slot_candidate_def Let_def le_max_iff_disj)
      then have "Min (set ?slots) \<le> ?s + EPS" using settled_slot [OF settled] by simp
      from lanes_occupy [OF lanes(2) [unfolded True] nonempty this, of r ?e]
      show ?thesis using lanes(1) True by auto
    qed
  qed
  show ?thesis
    unfolding sched_ok_def place using parts fresh windows serial lanes by auto
qed

lemma place_assigned [simp]:
  "map fst (ws_assigned (place_task index limits st item)) = map fst (ws_assigned st) @ [snd item]"
  "set (ws_assigned st) \<subseteq> set (ws_assigned (place_task index limits st item))"
  by (cases item; simp add: place_task_def Let_def; auto)+

lemma place_ready_ok:
  assumes "sched_ok index wave limits chained st" "1 \<le> lim_workers limits"
    "distinct (map fst (ws_assigned st) @ map snd ready)" "set assigned \<subseteq> set (ws_assigned st)"
    "\<And>e r. (e, r) \<in> set ready \<Longrightarrow> ready_at index wave limits chained assigned r = Some e"
  shows "sched_ok index wave limits chained (foldl (place_task index limits) st ready) \<and>
    map fst (ws_assigned (foldl (place_task index limits) st ready)) = map fst (ws_assigned st) @ map snd ready"
  using assms(1,3-)
proof (induction ready arbitrary: st)
  case (Cons item ready)
  obtain e r where item: "item = (e, r)" by (cases item)
  let ?st = "place_task index limits st item"
  have "sched_ok index wave limits chained ?st"
    unfolding item using Cons.prems item by (intro place_task_ok [OF Cons.prems(1) assms(2), where assigned = assigned]) auto
  moreover have "distinct (map fst (ws_assigned ?st) @ map snd ready)" using Cons.prems(2) by simp
  moreover have "set assigned \<subseteq> set (ws_assigned ?st)" using Cons.prems(3) place_assigned(2) by (rule order_trans)
  ultimately show ?case using Cons.IH [of ?st] Cons.prems(4) by simp
qed simp

section \<open>The rounds\<close>

definition plan_waves_ok :: "node_index \<Rightarrow> wave_map \<Rightarrow> bool" where
  \<comment> \<open>the waves cover the tasks, and dependencies stand in earlier waves\<close>
  "plan_waves_ok index wave \<longleftrightarrow> distinct (map fst wave) \<and> set (map fst wave) = set (map fst index) \<and>
     (\<forall>r \<in> set (map fst index). \<forall>d \<in> set (start_of index r). d \<in> set (map fst index) \<and> wave_of wave d < wave_of wave r)"

lemma previous_members_earlier:
  assumes "distinct (map fst wave)" "m \<in> set (previous_members wave r)"
  shows "m \<in> set (map fst wave)" "wave_of wave m < wave_of wave r"
proof -
  let ?us = "filter (\<lambda>u. u < wave_of wave r) (wave_values wave)"
  have "previous_members wave r = (if ?us = [] then [] else occupants wave (last ?us))"
    by (cases ?us) (simp_all add: previous_members_def)
  then have m: "?us \<noteq> []" "m \<in> set (occupants wave (last ?us))"
    using assms(2) by (cases "?us = []", simp_all)+
  then have entry: "(m, last ?us) \<in> set wave" by (simp add: occupants_set)
  then show "m \<in> set (map fst wave)" by force
  have "last ?us \<in> set ?us" using m(1) by (rule last_in_set)
  then show "wave_of wave m < wave_of wave r" using wave_of_in [OF assms(1) entry] by simp
qed

lemma some_task_ready:
  assumes waves: "plan_waves_ok index wave" and "remaining \<noteq> []"
    and split: "set remaining \<union> set (map fst assigned) = set (map fst index)"
  shows "ready_tasks index wave limits chained assigned remaining \<noteq> []"
proof -
  obtain r where r: "r \<in> set remaining" and least: "\<And>x. x \<in> set remaining \<Longrightarrow> wave_of wave r \<le> wave_of wave x"
    using min_by_some [OF assms(2), of "wave_of wave"] min_by_in min_by_le by metis
  have key: "r \<in> set (map fst index)" using r split by blast
  have assigned: "dict_get assigned x \<noteq> None" if "x \<in> set (map fst index)" "wave_of wave x < wave_of wave r" for x
  proof -
    have "x \<notin> set remaining" using least [of x] that(2) by auto
    then have "x \<in> set (map fst assigned)" using that(1) split by blast
    then show ?thesis by (simp add: dict_get_None)
  qed
  note W = waves [unfolded plan_waves_ok_def]
  have "dict_get assigned d \<noteq> None" if "d \<in> set (start_of index r)" for d
    using W key that assigned by blast
  moreover have "dict_get assigned m \<noteq> None" if "m \<in> set (previous_members wave r)" for m
    using previous_members_earlier [OF _ that] W assigned by blast
  moreover have "dict_get assigned b \<noteq> None" if "b \<in> set (barriers_before index wave r)" for b
  proof -
    have "b \<in> set (map fst index)" "wave_of wave b < wave_of wave r"
      using that by (auto simp: barriers_before_def barrier_refs_def)
    then show ?thesis by (rule assigned)
  qed
  ultimately have "ready_at index wave limits chained assigned r \<noteq> None"
    by (auto simp: ready_at_def Let_def list_ex_iff)
  then obtain e where "(e, r) \<in> set (ready_tasks index wave limits chained assigned remaining)"
    using r unfolding ready_tasks_set by blast
  then show ?thesis by auto
qed

lemma schedule_rounds_spec:
  assumes "plan_waves_ok index wave" "1 \<le> lim_workers limits" "sched_ok index wave limits chained st"
    "distinct remaining" "set remaining \<inter> set (map fst (ws_assigned st)) = {}"
    "set remaining \<union> set (map fst (ws_assigned st)) = set (map fst index)"
  shows "\<exists>st'. schedule_rounds index wave limits chained st remaining = Inr st' \<and>
    sched_ok index wave limits chained st' \<and> set (map fst (ws_assigned st')) = set (map fst index)"
  using assms(3-)
proof (induction "length remaining" arbitrary: st remaining rule: less_induct)
  case less
  let ?ready = "ready_tasks index wave limits chained (ws_assigned st) remaining"
  show ?case
  proof (cases "remaining = []")
    case True
    then show ?thesis using less.prems by (simp add: schedule_rounds.simps)
  next
    case False
    have some: "?ready \<noteq> []" using some_task_ready [OF assms(1) False less.prems(4)] .
    have refs: "snd ` set ?ready \<subseteq> set remaining" by (auto simp: ready_tasks_set)
    have "distinct (map snd ?ready)"
    proof -
      have "distinct (map snd (List.map_filter (\<lambda>ref. map_option (\<lambda>e. (e, ref)) (f ref)) xs))" if "distinct xs"
        for f :: "task_ref \<Rightarrow> rat option" and xs
      proof -
        have "map snd (List.map_filter (\<lambda>ref. map_option (\<lambda>e. (e, ref)) (f ref)) xs) = filter (\<lambda>r. f r \<noteq> None) xs"
          by (induction xs) (auto simp: List.map_filter_def split: option.splits)
        then show ?thesis using that by simp
      qed
      then have "distinct (map snd (List.map_filter (\<lambda>ref. map_option (\<lambda>e. (e, ref))
          (ready_at index wave limits chained (ws_assigned st) ref)) (sort remaining)))"
        using less.prems(2) by simp
      moreover have "distinct (map snd (sort_key f xs)) \<longleftrightarrow> distinct (map snd xs)" for f :: "rat \<times> task_ref \<Rightarrow> rat \<times> rat \<times> task_ref" and xs
        by (rule mset_eq_imp_distinct_iff) simp
      ultimately show ?thesis unfolding ready_tasks_def by simp
    qed
    then have dist: "distinct (map fst (ws_assigned st) @ map snd ?ready)"
      using less.prems(1,3) refs by (auto simp: sched_ok_def)
    let ?st = "foldl (place_task index limits) st ?ready" and ?rest = "filter (\<lambda>r. r \<notin> snd ` set ?ready) remaining"
    have placed: "sched_ok index wave limits chained ?st"
      "map fst (ws_assigned ?st) = map fst (ws_assigned st) @ map snd ?ready"
      using place_ready_ok [OF less.prems(1) assms(2) dist order_refl] by (auto simp: ready_tasks_set)
    obtain x where "x \<in> snd ` set ?ready" using some by (metis image_eqI last_in_set)
    then have "length ?rest < length remaining" using refs by (intro length_filter_less) auto
    moreover have "set ?rest \<inter> set (map fst (ws_assigned ?st)) = {}" using less.prems(3) by (auto simp: placed(2))
    moreover have "set ?rest \<union> set (map fst (ws_assigned ?st)) = set (map fst index)"
    proof -
      have "set ?rest = set remaining - snd ` set ?ready" by auto
      then show ?thesis using less.prems(4) refs unfolding placed(2) map_append set_append set_map by blast
    qed
    ultimately obtain st' where "schedule_rounds index wave limits chained ?st ?rest = Inr st'"
      "sched_ok index wave limits chained st'" "set (map fst (ws_assigned st')) = set (map fst index)"
      using less.hyps [of ?rest ?st] placed(1) less.prems(2) by auto
    then show ?thesis using False some by (subst schedule_rounds.simps) (simp add: Let_def)
  qed
qed

lemma schedule_plan_spec:
  assumes "plan_waves_ok index wave" "1 \<le> lim_workers limits" "distinct (map fst index)"
  shows "\<exists>assigned st. schedule_plan index wave limits chained = Inr assigned \<and> assigned = ws_assigned st \<and>
    sched_ok index wave limits chained st \<and> set (map fst assigned) = set (map fst index)"
proof -
  have empty: "ws_assigned (empty_schedule limits) = []" by (simp add: empty_schedule_def)
  obtain st where "schedule_rounds index wave limits chained (empty_schedule limits) (map fst index) = Inr st"
    "sched_ok index wave limits chained st" "set (map fst (ws_assigned st)) = set (map fst index)"
    using schedule_rounds_spec [OF assms(1,2) empty_schedule_ok assms(3), of chained] unfolding empty by auto
  then show ?thesis by (auto simp: schedule_plan_def)
qed

section \<open>Accepted waves\<close>

lemma mapping_distinct: "distinct (map fst (waves_to_mapping waves))"
proof -
  have inner: "distinct (map fst m) \<Longrightarrow> distinct (map fst (foldl (\<lambda>m ref. dict_set m ref v) m refs))"
    for m :: wave_map and refs and v by (induction refs arbitrary: m) (simp_all add: distinct_dict_set)
  have "distinct (map fst m) \<Longrightarrow>
      distinct (map fst (foldl (\<lambda>m w. foldl (\<lambda>m ref. dict_set m ref (ow_index w)) m (ow_tasks w)) m waves))" for m
    by (induction waves arbitrary: m) (simp_all add: inner)
  then show ?thesis by (simp add: waves_to_mapping_def)
qed

lemma derived_waves_ok:
  assumes "canonical_index index" "limits_ok limits"
  shows "\<exists>waves. derive_from_index index limits = Inr waves \<and> plan_waves_ok index (waves_to_mapping waves)"
proof -
  obtain wave floors where wave: "derive_from_index index limits = Inr (compact_waves wave)"
    "packed index limits floors {} wave" "set (map fst wave) = set (map fst index)"
    using derive_from_index_spec [OF assms] by metis
  note dist = packedD(1) [OF wave(2)]
  have "d \<in> set (map fst index) \<and> wave_of (waves_to_mapping (compact_waves wave)) d < wave_of (waves_to_mapping (compact_waves wave)) r"
    if r: "r \<in> set (map fst index)" and d: "d \<in> set (start_of index r)" for r d
  proof -
    have "(r, wave_of wave r) \<in> set wave" using wave_of_key [OF dist] r wave(3) by blast
    from packedD(5) [OF wave(2) this d] show ?thesis using compact_mapping(4) [OF dist] r wave(3) by blast
  qed
  then have "plan_waves_ok index (waves_to_mapping (compact_waves wave))"
    unfolding plan_waves_ok_def using compact_mapping(1,2) [OF dist] wave(3) by blast
  then show ?thesis using wave(1) by blast
qed

lemma index_pairs:
  assumes "canonical_index index"
  shows "set (concat (map (\<lambda>(ref, node). map (Pair ref) (pn_start node)) index)) =
    {(r, d). r \<in> set (map fst index) \<and> d \<in> set (start_of index r)}"
proof -
  obtain ms where ms: "index = index_of ms" "distinct (map pn_ref ms)" using assms unfolding canonical_index_def by blast
  have "set (concat (map (\<lambda>(ref, node). map (Pair ref) (pn_start node)) index)) = {(pn_ref m, d) | m d. m \<in> set ms \<and> d \<in> set (pn_start m)}"
    by (auto simp: ms(1) index_of_def)
  also have "\<dots> = {(r, d). r \<in> set (map fst index) \<and> d \<in> set (start_of index r)}"
    using index_of_start [OF ms(2)] unfolding ms(1) index_of_keys by fastforce
  finally show ?thesis .
qed

lemma given_waves_keys: "map fst (given_waves index waves) = filter (\<lambda>r. dict_get waves r \<noteq> None) (map fst index)"
  by (induction index) (auto simp: given_waves_def split: option.split)

lemma proposed_waves_keys:
  assumes "canonical_index index" "limits_ok limits" "proposed_waves index limits proposal = Inr wave"
  shows "distinct (map fst wave) \<and> set (map fst wave) = set (map fst index)"
proof (cases proposal)
  case NoProposal
  then obtain waves where "wave = waves_to_mapping waves" "plan_waves_ok index (waves_to_mapping waves)"
    using derived_waves_ok [OF assms(1,2)] assms(3) by (auto simp: proposed_waves_def)
  then show ?thesis unfolding plan_waves_ok_def by blast
next
  case (ByWaves waves)
  then show ?thesis using assms(3) mapping_distinct [of waves] by (auto simp: proposed_waves_def split: if_splits)
next
  case (ByTask waves)
  let ?given = "given_waves index waves"
  let ?add = "\<lambda>m (ref, v). if dict_get m ref = None then m @ [(ref, v)] else m"
  obtain derived where derived: "derive_from_index index limits = Inr derived" "plan_waves_ok index (waves_to_mapping derived)"
    using derived_waves_ok [OF assms(1,2)] by blast
  have wave: "wave = foldl ?add ?given (waves_to_mapping derived)"
    using assms(3) ByTask derived(1) by (auto simp: proposed_waves_def split: option.splits prod.splits)
  have given: "distinct (map fst ?given) \<and> set (map fst ?given) \<subseteq> set (map fst index)"
    unfolding given_waves_keys using canonical_keys_distinct [OF assms(1)] by auto
  have "distinct (map fst m) \<Longrightarrow> distinct (map fst (foldl ?add m ds)) \<and> set (map fst (foldl ?add m ds)) = set (map fst m) \<union> set (map fst ds)"
    for m ds
  proof (induction ds arbitrary: m)
    case (Cons x ds)
    obtain r v where x: "x = (r, v)" by (cases x)
    have key: "dict_get m r = None \<longleftrightarrow> r \<notin> set (map fst m)" by (rule dict_get_None)
    have "distinct (map fst (?add m x))" "set (map fst (?add m x)) = insert r (set (map fst m))"
      using Cons.prems key by (auto simp: x)
    from Cons.IH [OF this(1)] this(2) show ?case by (simp add: x)
  qed simp
  from this [of ?given "waves_to_mapping derived"] show ?thesis
    using given derived(2) unfolding wave plan_waves_ok_def by blast
qed

lemma plan_waves_from_check:
  assumes "canonical_index index" "late_dependency index wave = None"
    "distinct (map fst wave) \<and> set (map fst wave) = set (map fst index)"
  shows "plan_waves_ok index wave"
proof -
  have "\<not> wave_of wave r \<le> wave_of wave d" if "r \<in> set (map fst index)" "d \<in> set (start_of index r)" for r d
  proof -
    have "(r, d) \<in> set (concat (map (\<lambda>(ref, node). map (Pair ref) (pn_start node)) index))"
      unfolding index_pairs [OF assms(1)] using that by simp
    then show ?thesis using assms(2) unfolding late_dependency_def find_None_iff by blast
  qed
  moreover have "d \<in> set (map fst index)" if "r \<in> set (map fst index)" "d \<in> set (start_of index r)" for r d
    using assms(1) that by (auto simp: canonical_index_def index_closed_def graph_closed_def)
  ultimately show ?thesis using assms(3) unfolding plan_waves_ok_def by (metis not_le)
qed

lemma checked_waves_ok:
  assumes "canonical_index index" "limits_ok limits"
    "try_bind (proposed_waves index limits proposal) (\<lambda>proposed.
       case late_dependency index proposed of
         Some (ref, dep) \<Rightarrow> Inl (WaveOrder ref (wave_of proposed ref) dep (wave_of proposed dep))
       | None \<Rightarrow> Inr proposed) = Inr wave"
  shows "plan_waves_ok index wave"
proof -
  obtain proposed where p: "proposed_waves index limits proposal = Inr proposed"
    and "(case late_dependency index proposed of
         Some (ref, dep) \<Rightarrow> Inl (WaveOrder ref (wave_of proposed ref) dep (wave_of proposed dep))
       | None \<Rightarrow> Inr proposed) = Inr wave" using assms(3) unfolding try_bind_Inr by blast
  then have "proposed = wave" "late_dependency index proposed = None"
    by (cases "late_dependency index proposed"; auto)+
  then show ?thesis using proposed_waves_keys [OF assms(1,2) p] plan_waves_from_check [OF assms(1)] by blast
qed

lemma coerced_waves_ok:
  assumes "canonical_index index" "limits_ok limits" "coerce_wave_of index limits proposal = Inr wave"
  shows "plan_waves_ok index wave"
proof (cases proposal)
  case NoProposal
  then show ?thesis
    using derived_waves_ok [OF assms(1,2)] assms(3) by (auto simp: coerce_wave_of_def proposed_waves_def)
next
  case checked: (ByTask w)
  show ?thesis using assms(3) by (intro checked_waves_ok [OF assms(1,2)]) (simp add: coerce_wave_of_def checked)
next
  case checked: (ByWaves w)
  show ?thesis using assms(3) by (intro checked_waves_ok [OF assms(1,2)]) (simp add: coerce_wave_of_def checked)
qed

text \<open>C13: Simulating an accepted plan never fails: on waves that the planner derived or accepted the
  schedule places every task exactly once, chained or not, so its exception is never raised and
  the score of the plan is always returned.\<close>

theorem accepted_plans_are_scored:
  assumes "canon_index graph limits = Inr index" "coerce_wave_of index limits proposal = Inr wave"
  shows "\<exists>score. score_plan graph proposal (Some limits) chained = Inr score \<and>
    mset (map tw_ref (sc_schedule score)) = mset (map pn_ref graph)"
proof -
  from assms(1) obtain ms where ms: "index = index_of ms" "map pn_ref ms = map pn_ref graph"
    and facts: "canonical_index index" "limits_ok limits" by (rule canon_index_result)
  have workers: "1 \<le> lim_workers limits" using facts(2) by (simp add: limits_ok_def)
  obtain assigned st where a: "schedule_plan index wave limits chained = Inr assigned" "assigned = ws_assigned st"
    "sched_ok index wave limits chained st" "set (map fst assigned) = set (map fst index)"
    using schedule_plan_spec [OF coerced_waves_ok [OF facts assms(2)] workers canonical_keys_distinct [OF facts(1)], of chained]
    by blast
  obtain c where c: "critical_path index limits = Inr c" using critical_path_longest [OF facts] by blast
  have "distinct (map fst assigned)" using a(2,3) by (simp add: sched_ok_def)
  then have "mset (map fst assigned) = mset (map fst index)"
    using canonical_keys_distinct [OF facts(1)] a(4) by (intro same_keys_mset)
  moreover have "map tw_ref (map (task_window_of index limits wave assigned) rs) = rs" for rs
    by (induction rs) (simp_all add: task_window_of_def Let_def)
  then have "mset (map tw_ref (map (task_window_of index limits wave assigned) (sort_key f rs))) = mset rs" for f :: "task_ref \<Rightarrow> rat \<times> task_ref" and rs
    by (simp only: mset_sort)
  ultimately show ?thesis
    using assms a(1) c arg_cong [OF ms(2), of mset] unfolding ms(1) index_of_keys
    by (simp add: score_plan_def limits_or_default_def score_index_def Let_def del: map_map mset_map)
qed

lemma schedule_invariant:
  assumes "canon_index graph limits = Inr index" "coerce_wave_of index limits proposal = Inr wave"
    "schedule_plan index wave limits chained = Inr assigned"
  obtains st where "assigned = ws_assigned st" "sched_ok index wave limits chained st"
    "set (map fst assigned) = set (map fst index)" "index_edges index = plan_edges graph"
    "canonical_index index"
proof -
  from assms(1) obtain ms where facts: "canonical_index index" "limits_ok limits" "index_edges index = plan_edges graph"
    by (rule canon_index_result)
  have workers: "1 \<le> lim_workers limits" using facts(2) by (simp add: limits_ok_def)
  show thesis
    using schedule_plan_spec [OF coerced_waves_ok [OF facts(1,2) assms(2)] workers canonical_keys_distinct [OF facts(1)], of chained]
      assms(3) that facts(1,3) by auto
qed

text \<open>C14: In a simulated schedule a task starts only after everything it must wait for: its START
  dependencies have finished; every barrier of an earlier wave has finished and been integrated;
  and, chained, the whole wave before it has finished.\<close>

theorem tasks_start_after_what_they_wait_for:
  assumes "canon_index graph limits = Inr index" "coerce_wave_of index limits proposal = Inr wave"
    "schedule_plan index wave limits chained = Inr assigned" "(r, s, e) \<in> set assigned"
  shows "e = s + node_duration (index_node index r) limits \<and>
    (\<forall>d. (d, r) \<in> plan_edges graph \<longrightarrow> waits_for assigned d 0 s) \<and>
    (\<forall>b \<in> set (barriers_before index wave r). waits_for assigned b (node_integration (index_node index b) limits) s) \<and>
    (chained \<longrightarrow> (\<forall>m \<in> set (previous_members wave r). waits_for assigned m 0 s))"
proof -
  obtain st where st: "assigned = ws_assigned st" "sched_ok index wave limits chained st"
    and edges: "index_edges index = plan_edges graph" using schedule_invariant [OF assms(1-3)] by metis
  have "window_ok index wave limits chained assigned (r, s, e)" using st assms(4) unfolding sched_ok_def by blast
  moreover have "d \<in> set (start_of index r)" if "(d, r) \<in> plan_edges graph" for d
    using that unfolding edges [symmetric] index_edges_def dep_edges_def by blast
  ultimately show ?thesis unfolding window_ok_def prod.case by blast
qed

text \<open>C15: With scope serialisation on, two tasks of the plan that declare write scopes naming a common
  path run one after the other in the simulated schedule: the one starts no earlier than
  twice the tolerance \<open>EPS\<close> before the end of the other.  One subtree scope declared by both, as
  \<open>src/**\<close> twice, does not count as a common path: the overlap test of the code misses it, and
  such tasks may run together.\<close>

theorem conflicting_tasks_run_in_turn:
  assumes "canon_index graph limits = Inr index" "coerce_wave_of index limits proposal = Inr wave"
    "schedule_plan index wave limits chained = Inr assigned" "lim_serialize limits"
    "n \<in> set graph" "n' \<in> set graph" "pn_ref n \<noteq> pn_ref n'" "\<not> scopes_clear (clean_owns n) (clean_owns n')"
    "(pn_ref n, s, e) \<in> set assigned" "(pn_ref n', s', e') \<in> set assigned"
  shows "e \<le> s' + 2 * EPS \<or> e' \<le> s + 2 * EPS"
proof -
  have "scopes_conflict index (pn_ref n) (pn_ref n')"
    using assms(8) index_owns [OF assms(1,5)] index_owns [OF assms(1,6)] by (simp add: scopes_conflict_def no_overlap_iff [symmetric])
  moreover obtain st where "assigned = ws_assigned st" "sched_ok index wave limits chained st"
    using schedule_invariant [OF assms(1-3)] by metis
  moreover from this have "serial_windows index assigned" using assms(4) by (simp add: sched_ok_def)
  ultimately show ?thesis using assms(7,9,10) unfolding serial_windows_def by blast
qed

text \<open>C35: The tasks of a project fit its workers: they split into as many lanes as the project has
  workers, and in each lane every task starts when the one before it has finished, up to the
  tolerance.\<close>

theorem projects_fit_their_workers:
  assumes "canon_index graph limits = Inr index" "coerce_wave_of index limits proposal = Inr wave"
    "schedule_plan index wave limits chained = Inr assigned"
  shows "\<exists>lanes. int (length lanes) = lim_workers limits \<and>
    mset (concat lanes) = mset (filter (\<lambda>w. ref_project (fst w) = p) assigned) \<and>
    (\<forall>lane \<in> set lanes. successively (\<lambda>x y. snd (snd x) \<le> fst (snd y) + EPS) lane)"
proof -
  obtain st where st: "assigned = ws_assigned st" "sched_ok index wave limits chained st"
    using schedule_invariant [OF assms] by metis
  have "limits_ok limits" using assms(1) by (rule canon_index_result)
  then have "int (nat (lim_workers limits)) = lim_workers limits" by (simp add: limits_ok_def)
  then show ?thesis using st unfolding sched_ok_def lanes_of_def lane_ok_def by metis
qed

end
