(* ===== verification/Schedule_Samples.thy ===== *)
theory Schedule_Samples
  imports Wave_Schedule_Laws Wave_Samples
begin

text \<open>
  The properties of the simulated schedule at the three tasks of \<open>Wave_Samples\<close>, at a task that waits for
  a barrier, and at two tasks that write the same file.
\<close>

definition three_wave :: wave_map where "three_wave = waves_to_mapping three_waves"

lemma three_coerced: "coerce_wave_of three_index default_plan_limits NoProposal = Inr three_wave"
  by code_simp

definition fenced_tasks :: "plan_node list" where
  "fenced_tasks = [(plain_node ''p'' ''a'' [])\<lparr>pn_barrier := True\<rparr>, plain_node ''p'' ''b'' [TaskRef ''p'' ''a'']]"

definition fenced_index :: node_index where "fenced_index = projr (canon_index fenced_tasks default_plan_limits)"

definition fenced_wave :: wave_map where
  "fenced_wave = projr (coerce_wave_of fenced_index default_plan_limits NoProposal)"

definition fenced_windows :: windows where
  "fenced_windows = [(TaskRef ''p'' ''a'', 0, 8), (TaskRef ''p'' ''b'', 9, 17)]"

lemma fenced_canon: "canon_index fenced_tasks default_plan_limits = Inr fenced_index"
  by code_simp

lemma fenced_coerced: "coerce_wave_of fenced_index default_plan_limits NoProposal = Inr fenced_wave"
  by code_simp

lemma fenced_scheduled: "schedule_plan fenced_index fenced_wave default_plan_limits True = Inr fenced_windows"
  by code_simp

definition shared_tasks :: "plan_node list" where
  "shared_tasks = [(plain_node ''p'' ''a'' [])\<lparr>pn_owns := [''src/x'']\<rparr>, (plain_node ''p'' ''b'' [])\<lparr>pn_owns := [''src/x'']\<rparr>]"

definition shared_index :: node_index where "shared_index = projr (canon_index shared_tasks default_plan_limits)"

definition shared_wave :: wave_map where
  "shared_wave = projr (coerce_wave_of shared_index default_plan_limits NoProposal)"

definition shared_windows :: windows where
  "shared_windows = [(TaskRef ''p'' ''a'', 0, 8), (TaskRef ''p'' ''b'', 8, 16)]"

lemma shared_canon: "canon_index shared_tasks default_plan_limits = Inr shared_index"
  by code_simp

lemma shared_coerced: "coerce_wave_of shared_index default_plan_limits NoProposal = Inr shared_wave"
  by code_simp

lemma shared_scheduled: "schedule_plan shared_index shared_wave default_plan_limits False = Inr shared_windows"
  by code_simp

lemma accepted_plans_are_scored_witness:
  "\<exists>score. score_plan three_tasks NoProposal (Some default_plan_limits) True = Inr score \<and>
    mset (map tw_ref (sc_schedule score)) = mset (map pn_ref three_tasks)"
  by (rule accepted_plans_are_scored [OF three_canon three_coerced])

lemma tasks_start_after_what_they_wait_for_witness:
  "waits_for fenced_windows (TaskRef ''p'' ''a'') (node_integration (index_node fenced_index (TaskRef ''p'' ''a'')) default_plan_limits) 9"
proof -
  have placed: "(TaskRef ''p'' ''b'', 9, 17) \<in> set fenced_windows" by (simp add: fenced_windows_def)
  have barrier: "TaskRef ''p'' ''a'' \<in> set (barriers_before fenced_index fenced_wave (TaskRef ''p'' ''b''))" by code_simp
  from tasks_start_after_what_they_wait_for [OF fenced_canon fenced_coerced fenced_scheduled placed]
  show ?thesis using barrier by blast
qed

lemma conflicting_tasks_run_in_turn_witness: "(8::rat) \<le> 8 + 2 * EPS \<or> 16 \<le> 0 + 2 * EPS"
proof -
  have placed: "(TaskRef ''p'' ''a'', 0, 8) \<in> set shared_windows" "(TaskRef ''p'' ''b'', 8, 16) \<in> set shared_windows"
    by (simp_all add: shared_windows_def)
  let ?n = "(plain_node ''p'' ''a'' [])\<lparr>pn_owns := [''src/x'']\<rparr>" and ?n' = "(plain_node ''p'' ''b'' [])\<lparr>pn_owns := [''src/x'']\<rparr>"
  have nodes: "?n \<in> set shared_tasks" "?n' \<in> set shared_tasks" by (simp_all add: shared_tasks_def)
  have refs: "pn_ref ?n = TaskRef ''p'' ''a''" "pn_ref ?n' = TaskRef ''p'' ''b''" by code_simp+
  have clash: "lim_serialize default_plan_limits" "pn_ref ?n \<noteq> pn_ref ?n'" by code_simp+
  have "scopes_overlap (clean_owns ?n) (clean_owns ?n')" by code_simp
  then have "\<not> scopes_clear (clean_owns ?n) (clean_owns ?n')" using no_overlap_iff by blast
  from conflicting_tasks_run_in_turn [OF shared_canon shared_coerced shared_scheduled clash(1) nodes clash(2) this] placed
  show ?thesis unfolding refs by blast
qed

lemma projects_fit_their_workers_witness:
  "\<exists>lanes. int (length lanes) = lim_workers default_plan_limits \<and>
    mset (concat lanes) = mset (filter (\<lambda>w. ref_project (fst w) = ''p'') fenced_windows)"
  using projects_fit_their_workers [OF fenced_canon fenced_coerced fenced_scheduled, of "''p''"]
  by (elim exE conjE, intro exI conjI)

end
