(* ===== verification/Spec2Isabelle.thy ===== *)
theory Spec2Isabelle
  imports SO_Prelude Py_Time Cost_Model Exclusions Exclusion_Store Quota_Policy Plans Posture
    Capabilities Json_Values Jobs_Model Job_Store Job_Machine Job_Rows Freshness Owner_DB Ledger Ledger_Laws
    Control_Policy Preflight Admission Admission_Laws Scheduler Scheduler_Laws Lease Probes Probe_Laws
    Snapshot Snapshot_Laws Job_Ids Job_Service Job_Service_Laws Lease_Frame Dispatch_Loop Dispatch_Laws
    Run_Store Run_Store_Laws Checkpoint_Refs Preemption Preemption_Protocol Preemption_Laws Preemption_Recovery
    Preemption_Resume Preemption_Resume_Laws Preemption_Crash Preemption_Samples
    Loop_Laws Task_Refs Dep_Graph Cycle_Search Ready_Frontier Ready_Frontier_Laws Ready_Projection
    Ready_Waves Ready_Waves_Laws Ready_Samples Slot_Policy Slot_Policy_Laws Slot_Steps
    Wave_Graph Wave_Graph_Laws Wave_Reduction Wave_Packing Wave_Packing_Laws Wave_Samples
    Wave_Schedule Wave_Schedule_Laws Schedule_Samples
begin

text \<open>
  SaberOps: the capacity, job and planning core.  SaberOps runs coding jobs on metered model subscriptions.
  An owner states plans, pools and red lines; jobs queue in a database; a scheduler, alone under a
  lease, admits a candidate route for each job only when the pools it draws can pay for it,
  reserves their capacity, launches a run, and settles what the run used.  Above single jobs, plans
  of tasks with dependencies and write scopes are checked, arranged in waves and projected to the
  tasks that may start, and a policy bounds the child slots they occupy.  The development models
  this core, from the rules on one exclusion to the scheduler loop and the wave planner, and what
  makes it correct.  All paths below are under \<open>src/src/saberops/\<close>.

  \<^bold>\<open>Foundations.\<close>
  \<^item> \<open>SO_Prelude\<close>: Python text and ordered dictionaries, errors as sums, the lemma collections.
  \<^item> \<open>Py_Time\<close>: calendar, ISO-8601 printing and parsing (\<open>parse_iso\<close>, \<open>utcnow_iso\<close>).
  \<^item> \<open>Json_Values\<close>: the values of the \<open>json\<close> module.

  \<^bold>\<open>Policy.\<close>
  \<^item> \<open>Exclusions\<close>, \<open>Exclusion_Store\<close>: \<open>capacity/exclusions.py\<close> and its table in \<open>capacity/store.py\<close>.
  \<^item> \<open>Quota_Policy\<close>, \<open>Plans\<close>, \<open>Control_Policy\<close>: pools, red lines, the selector grammar, the effective pools
    (\<open>control_plane/quota_policy.py\<close>, \<open>plans.py\<close>, \<open>policy.py\<close>).
  \<^item> \<open>Posture\<close>, \<open>Capabilities\<close>, \<open>Preflight\<close>: billing posture, capability requirements and the checks before a
    model call (\<open>control_plane/\<close>).

  \<^bold>\<open>Capacity.\<close>
  \<^item> \<open>Cost_Model\<close>, \<open>Freshness\<close>, \<open>Owner_DB\<close>, \<open>Ledger\<close>, \<open>Ledger_Laws\<close>: learned cost, observations, reservations and
    the estimate of what a pool has left (\<open>capacity/cost_model.py\<close>, \<open>freshness.py\<close>, \<open>ledger.py\<close>).
  \<^item> \<open>Probes\<close>, \<open>Probe_Laws\<close>: what one usage reading does to the owner database (\<open>capacity/probes.py\<close>).
  \<^item> \<open>Snapshot\<close>, \<open>Snapshot_Laws\<close>: the seam every routing path reads quota through (\<open>capacity/snapshot.py\<close>).
  \<^item> \<open>Admission\<close>, \<open>Admission_Laws\<close>: the admission of one candidate and its pace (\<open>capacity/admission.py\<close>).
  \<^item> \<open>Scheduler\<close>, \<open>Scheduler_Laws\<close>: the pure batch decision (\<open>capacity/scheduler.py\<close>).

  \<^bold>\<open>Jobs.\<close>
  \<^item> \<open>Jobs_Model\<close>, \<open>Job_Ids\<close>, \<open>Job_Store\<close>, \<open>Job_Rows\<close>, \<open>Job_Machine\<close>: the job contract, its ids, its tables with
    their compare-and-set transitions, and the state machine they refine (\<open>jobs/models.py\<close>,
    \<open>ids.py\<close>, \<open>store.py\<close>).
  \<^item> \<open>Job_Service\<close>, \<open>Job_Service_Laws\<close>: submission, reconciliation, settlement of old capacity
    (\<open>jobs/service.py\<close>, \<open>feasibility.py\<close>).

  \<^bold>\<open>The loop.\<close>
  \<^item> \<open>Lease\<close>, \<open>Lease_Frame\<close>: the scheduler lease of \<open>capacity/loop.py\<close>, the contract it refines, and that nothing
    but its operations writes its table.
  \<^item> \<open>Dispatch_Loop\<close>, \<open>Dispatch_Laws\<close>: \<open>scheduler_tick\<close> and \<open>run_scheduler_loop\<close> over all of the above, on one
    record \<open>world\<close> (the job database and the owner database).

  \<^bold>\<open>Owners and preemption.\<close>
  \<^item> \<open>Run_Store\<close>, \<open>Run_Store_Laws\<close>: the run tables of \<open>db.py\<close> that the job core reads, and the execution
    owners (\<open>db.py\<close>, \<open>ownership.py\<close>): claims, fenced terminal writes and cancellation as a step relation.
  \<^item> \<open>Checkpoint_Refs\<close>: the repository as commits, refs and worktrees, and the checkpoint refs of \<open>git.py\<close>.
  \<^item> \<open>Preemption\<close>, \<open>Preemption_Protocol\<close>, \<open>Preemption_Resume\<close>: \<open>preemption.py\<close> on one record \<open>pre_world\<close> (jobs,
    capacity, runs, repository), the recovery of \<open>supervisor.py\<close> and the tail of \<open>reconcile_jobs\<close>.
  \<^item> \<open>Preemption_Laws\<close>, \<open>Preemption_Recovery\<close>, \<open>Preemption_Resume_Laws\<close>, \<open>Preemption_Crash\<close>: a preemption is exact
    and needs evidence, a replay converges, a crash is completed by the recovery or the
    reconciliation, and the next run resumes the anchored work; \<open>Preemption_Samples\<close> holds a run whose
    provider ran dry, at which these properties are evaluated.

  \<^bold>\<open>Plans of tasks.\<close>
  \<^item> \<open>Task_Refs\<close>, \<open>Dep_Graph\<close>, \<open>Cycle_Search\<close>, \<open>Loop_Laws\<close>: task identities and write scopes, Kahn's order and the
    cycle search over any type of nodes (the locale \<open>ordering\<close> is the interface of a topological
    order, interpreted as \<open>plan_order\<close> on the planner's), and facts about loops.
  \<^item> \<open>Ready_Frontier\<close>, \<open>Ready_Waves\<close> with \<open>Ready_Frontier_Laws\<close>, \<open>Ready_Projection\<close>, \<open>Ready_Waves_Laws\<close>,
    \<open>Ready_Samples\<close>: \<open>ready_frontier.py\<close>, the tasks that may start now, the held tasks with their
    reasons, and the chained waves of stored plans.
  \<^item> \<open>Slot_Policy\<close>, \<open>Slot_Policy_Laws\<close>, \<open>Slot_Steps\<close>: \<open>project_slot_policy.py\<close>, and the occupied slots over time
    as a step relation.
  \<^item> \<open>Wave_Graph\<close>, \<open>Wave_Packing\<close> with \<open>Wave_Graph_Laws\<close>, \<open>Wave_Reduction\<close>, \<open>Wave_Packing_Laws\<close>, \<open>Wave_Samples\<close>:
    \<open>wave_plan_optimizer.py\<close>, from the validated graph and its critical path to derived waves and
    the barrier fence.
  \<^item> \<open>Wave_Schedule\<close>, \<open>Wave_Schedule_Laws\<close>, \<open>Schedule_Samples\<close>: the greedy schedule the planner simulates, and
    the score of a plan.

  \<^bold>\<open>What the lemmas show.\<close>  Each store has an invariant that every operation keeps, stated by rule
  induction over its step relation (the interpretations \<open>ledger\<close>, \<open>service\<close>, \<open>worlds\<close>, and those of the
  exclusion store and the job store).  Pure decisions are characterised on every branch: an
  admission implies each check it stands for, a schedule respects its ceilings and is justified
  by its admissions.  The composition is proved on the loop: a tick fails closed, a dispatch is
  carried out or given up as a whole while other processes write around it (they may take the
  lease, but leave this job and this run alone), the loop keeps all the invariants together and
  gives its lease back.  The preemption
  coordinator is proved to be the tail the job service and the loop assume (\<open>coordinator_is_a_tail\<close>).
  A plan is validated exactly, the frontier fails closed and reports every task once, an eligible
  task may start beside all others, waves come after what their tasks depend on and inside the
  maxima, and the removal of redundant edges is the transitive reduction.  An accepted plan can
  always be simulated and scored; in the schedule tasks wait for their dependencies and barriers,
  conflicting tasks take turns (equal subtree scopes do not count as a conflict) and projects fit their workers.

  \<^bold>\<open>Conventions.\<close>  Floats are \<open>rat\<close>: exact arithmetic, no rounding, no NaN.  Text is Latin-1;
  \<open>py_upper\<close> keeps sharp s, micro sign and y-diaeresis, whose capitals are no Latin-1 letters.  An
  instant is an \<open>int\<close> of microseconds since year 1; stored timestamps stay text.  A table is a list
  of rows in insertion order, an ordered dictionary an association list, an error a sum.  Random
  ids, clocks, time zones, packaged plans, run statuses, git and launched processes are arguments
  of the definitions, as they come from outside the modelled files; where a theorem needs
  something of them (a fresh run id, a launcher that only writes through the stores), it is a
  hypothesis with a witness.

  \<^bold>\<open>Fuel.\<close>  \<open>run_scheduler_loop\<close> has fuel, the number of rounds; a loop that is told to stop
  before round \<open>n\<close> returns with fuel \<open>Suc n\<close> (\<open>loop_returns_when_stopped\<close>).  The settlement pages
  recurse on a measure and always return (\<open>settlement_terminates\<close>).  The level of a task has fuel one
  more than the number of schedulable tasks, which no chain exceeds (\<open>wave_scheduler_returns\<close>); the
  rounds of the barrier fence and of the search for a start have the code's own bounds.
  Kahn's loop and the search for a free wave may fail to return in the model and are proved to
  return (\<open>kahn_terminates\<close>, \<open>derived_waves_respect_plan\<close>).

  \<^bold>\<open>Not modelled.\<close>  SQLite locking and partial failure inside one transaction, the overflow of Python
  dates at the edges of the calendar, a call that fails once and then succeeds within one operation
  (a failing call site of the preemption fails for the whole operation), the text of handoffs,
  logging, the optimisation rounds of the wave planner, and the parts of the system around
  this core that drive operating-system processes, git, models and user interfaces.
\<close>

end
